(* ===== verification/Prelude.thy ===== *)
theory Prelude
  imports Main "HOL-Library.Word"
begin

text \<open>
  What the components share: names for the machine integers of the C++ code, the part of
  \<open>std::string\<close> the SIP and SDP code uses (strings are byte strings, so an Isabelle \<open>char\<close> is
  exactly a C++ \<open>char\<close>), the loops over CRLF-separated lines, decimal printing, and two
  small interfaces (a codec with a round-trip law, a machine with an invariant) that several
  components provide.
\<close>

unbundle bit_operations_syntax

section \<open>Machine integers\<close>

type_synonym byte = "8 word"
type_synonym u16 = "16 word"
type_synonym u32 = "32 word"
type_synonym bytes = "byte list"

named_theorems string_ops \<open>unfolding rules of the string operations\<close>

lemma unat_word_lt: "unat (x::'a::len word) < 2 ^ LENGTH('a)"
  by (rule unsigned_less)

lemma unat_u8_le [simp]: "unat (x::byte) \<le> 255"
  using unat_word_lt [of x] by simp

lemma unat_u16_le [simp]: "unat (x::u16) \<le> 65535"
  using unat_word_lt [of x] by simp

lemma unat_u32_le [simp]: "unat (x::u32) \<le> 4294967295"
  using unat_word_lt [of x] by simp

lemma unat_of_nat_small: "n < 2 ^ LENGTH('a) \<Longrightarrow> unat (of_nat n :: 'a::len word) = n"
  by (simp add: unsigned_of_nat take_bit_nat_eq_self)

lemma unat_ucast_up: "LENGTH('a) \<le> LENGTH('b) \<Longrightarrow> unat (ucast (w :: 'a::len word) :: 'b::len word) = unat w"
  by (simp add: unsigned_ucast_eq take_bit_nat_eq_self unat_word_lt [THEN less_le_trans])

lemma bit_bound:
  assumes "unat (x :: 'a::len word) < 2 ^ n" and "bit x i"
  shows "i < n"
proof (rule ccontr)
  assume "\<not> i < n"
  then have "(2::nat) ^ n \<le> 2 ^ i" by simp
  with assms(1) have "unat x < 2 ^ i" by (rule less_le_trans)
  then have "\<not> bit (unat x) i" by (simp add: bit_iff_odd)
  with assms(2) show False by (simp add: bit_unsigned_iff)
qed

section \<open>Searching a list\<close>

text \<open>
  The \<open>find\<close> family of \<open>std::string\<close> returns a position or \<open>npos\<close>: here \<open>Some\<close> and
  \<open>None\<close>. A search from a position is the search of the suffix, shifted.
\<close>

fun index_of :: "('a \<Rightarrow> bool) \<Rightarrow> 'a list \<Rightarrow> nat option" where
  "index_of P [] = None"
| "index_of P (x # xs) = (if P x then Some 0 else map_option Suc (index_of P xs))"

definition index_from :: "('a \<Rightarrow> bool) \<Rightarrow> 'a list \<Rightarrow> nat \<Rightarrow> nat option" where
  "index_from P xs pos = map_option ((+) pos) (index_of P (drop pos xs))"

lemma index_of_SomeD:
  "index_of P xs = Some i \<Longrightarrow> i < length xs \<and> P (xs ! i) \<and> (\<forall>j<i. \<not> P (xs ! j))"
proof (induction xs arbitrary: i)
  case Nil
  then show ?case by simp
next
  case (Cons x xs)
  show ?case
  proof (cases "P x")
    case True
    with Cons.prems show ?thesis by simp
  next
    case False
    with Cons.prems obtain j where j: "index_of P xs = Some j" and i: "i = Suc j" by auto
    from Cons.IH [OF j] False i show ?thesis by (auto simp: nth_Cons split: nat.splits)
  qed
qed

lemma index_of_None_iff: "index_of P xs = None \<longleftrightarrow> (\<forall>x\<in>set xs. \<not> P x)"
  by (induction xs) auto

lemma index_of_append:
  "index_of P (xs @ ys) =
     (case index_of P xs of Some i \<Rightarrow> Some i
      | None \<Rightarrow> map_option ((+) (length xs)) (index_of P ys))"
  by (cases "index_of P ys"; induction xs) (auto split: option.splits)

lemma index_of_append_hit:
  "(\<forall>x\<in>set xs. \<not> P x) \<Longrightarrow> P y \<Longrightarrow> index_of P (xs @ y # ys) = Some (length xs)"
  by (simp add: index_of_append index_of_None_iff [THEN iffD2])

lemma index_of_take_none: "index_of P xs = Some i \<Longrightarrow> x \<in> set (take i xs) \<Longrightarrow> \<not> P x"
  using index_of_SomeD [of P xs i] by (auto simp: in_set_conv_nth)

section \<open>Strings\<close>

fun starts_with :: "'a list \<Rightarrow> 'a list \<Rightarrow> bool" where
  "starts_with [] s = True"
| "starts_with (p # ps) [] = False"
| "starts_with (p # ps) (c # cs) = (p = c \<and> starts_with ps cs)"

lemma starts_with_iff: "starts_with p s \<longleftrightarrow> (\<exists>r. s = p @ r)"
  by (induction p s rule: starts_with.induct) auto

lemma starts_with_append [simp]: "starts_with p (p @ r)"
  by (auto simp: starts_with_iff)

fun find_sub :: "'a list \<Rightarrow> 'a list \<Rightarrow> nat option" where
  "find_sub p [] = (if p = [] then Some 0 else None)"
| "find_sub p (c # cs) =
     (if starts_with p (c # cs) then Some 0 else map_option Suc (find_sub p cs))"

definition find_char :: "char \<Rightarrow> string \<Rightarrow> nat option" where
  "find_char c s = index_of ((=) c) s"

definition find_char_from :: "char \<Rightarrow> string \<Rightarrow> nat \<Rightarrow> nat option" where
  "find_char_from c s pos = index_from ((=) c) s pos"

definition find_first_of :: "string \<Rightarrow> string \<Rightarrow> nat option" where
  "find_first_of cs s = index_of (\<lambda>c. c \<in> set cs) s"

definition rfind_char :: "char \<Rightarrow> string \<Rightarrow> nat option" where
  "rfind_char c s = map_option (\<lambda>i. length s - 1 - i) (index_of ((=) c) (rev s))"

definition find_last_of :: "string \<Rightarrow> string \<Rightarrow> nat option" where
  "find_last_of cs s = map_option (\<lambda>i. length s - 1 - i) (index_of (\<lambda>c. c \<in> set cs) (rev s))"

text \<open>\<open>std::string::substr\<close> with a start inside the string.\<close>

definition substr :: "'a list \<Rightarrow> nat \<Rightarrow> nat \<Rightarrow> 'a list" where
  "substr s pos n = take n (drop pos s)"

lemmas find_defs [string_ops] =
  find_char_def find_char_from_def index_from_def find_first_of_def rfind_char_def
  find_last_of_def substr_def

text \<open>Character classes and case of the C locale.\<close>

abbreviation code :: "char \<Rightarrow> nat" where
  "code c \<equiv> of_char c"

definition is_digit :: "char \<Rightarrow> bool" where
  "is_digit c \<longleftrightarrow> 48 \<le> code c \<and> code c \<le> 57"

definition is_upper :: "char \<Rightarrow> bool" where
  "is_upper c \<longleftrightarrow> 65 \<le> code c \<and> code c \<le> 90"

definition is_lower :: "char \<Rightarrow> bool" where
  "is_lower c \<longleftrightarrow> 97 \<le> code c \<and> code c \<le> 122"

definition is_alnum :: "char \<Rightarrow> bool" where
  "is_alnum c \<longleftrightarrow> is_digit c \<or> is_upper c \<or> is_lower c"

definition to_lower :: "char \<Rightarrow> char" where
  "to_lower c = (if is_upper c then char_of (code c + 32) else c)"

definition to_upper :: "char \<Rightarrow> char" where
  "to_upper c = (if is_lower c then char_of (code c - 32) else c)"

abbreviation lower :: "string \<Rightarrow> string" where
  "lower \<equiv> map to_lower"

abbreviation upper :: "string \<Rightarrow> string" where
  "upper \<equiv> map to_upper"

abbreviation CR :: char where "CR \<equiv> CHR 0x0D"
abbreviation LF :: char where "LF \<equiv> CHR 0x0A"
abbreviation TAB :: char where "TAB \<equiv> CHR 0x09"
abbreviation DQUOTE :: char where "DQUOTE \<equiv> CHR 0x22"
abbreviation BACKSLASH :: char where "BACKSLASH \<equiv> CHR 0x5C"

abbreviation CRLF :: string where "CRLF \<equiv> [CR, LF]"

lemma code_inj: "code c = code d \<longleftrightarrow> c = d"
  by (simp add: of_char_eq_iff)

lemma to_lower_idem [simp]: "to_lower (to_lower c) = to_lower c"
  by (auto simp: to_lower_def is_upper_def)

lemma lower_idem [simp]: "lower (lower s) = lower s"
  by (simp add: o_def)

lemma is_alnum_not_eol: "is_alnum c \<Longrightarrow> c \<noteq> CR \<and> c \<noteq> LF"
  by (auto simp: is_alnum_def is_digit_def is_upper_def is_lower_def)

subsection \<open>Lines\<close>

text \<open>
  The parsers walk a message with \<open>end = find("\r\n", pos)\<close>, take the line up to it and go on
  at \<open>end + 2\<close>, or stop at the end of the string. The suffix at \<open>pos\<close> is the argument here.
\<close>

lemma find_sub_bound: "find_sub p s = Some i \<Longrightarrow> i + length p \<le> length s"
proof (induction p s arbitrary: i rule: find_sub.induct)
  case (1 p)
  then show ?case by (auto split: if_splits)
next
  case (2 p c cs)
  show ?case
  proof (cases "starts_with p (c # cs)")
    case True
    then obtain r where "c # cs = p @ r" by (auto simp: starts_with_iff)
    then have "length p \<le> length (c # cs)" by simp
    with True 2 show ?thesis by auto
  next
    case False
    with 2 show ?thesis by auto
  qed
qed

function crlf_lines :: "string \<Rightarrow> string list" where
  "crlf_lines s =
     (if s = [] then []
      else case find_sub CRLF s of
             None \<Rightarrow> [s]
           | Some i \<Rightarrow> take i s # crlf_lines (drop (i + 2) s))"
  by pat_completeness auto
termination
  by (relation "measure length") (auto dest: find_sub_bound)

declare crlf_lines.simps [simp del]

lemma crlf_lines_Nil [simp]: "crlf_lines [] = []"
  by (simp add: crlf_lines.simps)

definition has_sub :: "'a list \<Rightarrow> 'a list \<Rightarrow> bool" where
  "has_sub p s \<longleftrightarrow> find_sub p s \<noteq> None"

text \<open>A text with no line feed has no CRLF; the first CRLF after it is the one that follows.\<close>

lemma find_sub_CRLF_hit: "LF \<notin> set l \<Longrightarrow> find_sub CRLF (l @ CRLF @ r) = Some (length l)"
proof (induction l)
  case Nil
  then show ?case by simp
next
  case (Cons c l)
  have "\<not> starts_with CRLF (c # l @ CRLF @ r)"
    using Cons.prems by (cases l) auto
  with Cons show ?case by simp
qed

lemma find_sub_CRLF_miss: "LF \<notin> set l \<Longrightarrow> find_sub CRLF l = None"
proof (induction l)
  case (Cons c l)
  then show ?case by (cases l) auto
qed simp

lemma crlf_lines_cons: "LF \<notin> set l \<Longrightarrow> crlf_lines (l @ CRLF @ r) = l # crlf_lines r"
  using find_sub_CRLF_hit [of l r] by (subst crlf_lines.simps) simp

lemma crlf_lines_last: "LF \<notin> set l \<Longrightarrow> l \<noteq> [] \<Longrightarrow> crlf_lines l = [l]"
  by (subst crlf_lines.simps) (simp add: find_sub_CRLF_miss)

lemma crlf_lines_concat:
  "\<forall>l\<in>set ls. LF \<notin> set l \<Longrightarrow> crlf_lines (concat (map (\<lambda>l. l @ CRLF) ls) @ r) = ls @ crlf_lines r"
proof (induction ls)
  case (Cons l ls)
  then show ?case using crlf_lines_cons [of l] by simp
qed simp

subsection \<open>Decimal numbers\<close>

definition digit_char :: "nat \<Rightarrow> char" where
  "digit_char d = char_of (48 + d)"

fun dec :: "nat \<Rightarrow> string" where
  "dec n = (if n < 10 then [digit_char n] else dec (n div 10) @ [digit_char (n mod 10)])"

declare dec.simps [simp del]

lemma code_digit_char: "d < 10 \<Longrightarrow> code (digit_char d) = 48 + d"
  by (simp add: digit_char_def)

lemma is_digit_digit_char: "d < 10 \<Longrightarrow> is_digit (digit_char d)"
  by (simp add: is_digit_def code_digit_char)

lemma dec_digits: "\<forall>c\<in>set (dec n). is_digit c"
proof (induction n rule: dec.induct)
  case (1 n)
  show ?case
    by (subst dec.simps) (use 1 in \<open>auto simp: is_digit_digit_char\<close>)
qed

lemma dec_nonempty [simp]: "dec n \<noteq> []"
  by (subst dec.simps) simp

text \<open>The value of a string of digits; printing and reading are inverse.\<close>

definition digits_value :: "string \<Rightarrow> nat" where
  "digits_value ds = foldl (\<lambda>v c. v * 10 + (code c - 48)) 0 ds"

lemma digits_value_snoc: "digits_value (ds @ [c]) = digits_value ds * 10 + (code c - 48)"
  by (simp add: digits_value_def)

lemma digits_value_dec [simp]: "digits_value (dec n) = n"
proof (induction n rule: dec.induct)
  case (1 n)
  show ?case
  proof (cases "n < 10")
    case True
    then show ?thesis by (subst dec.simps) (simp add: digits_value_def code_digit_char)
  next
    case False
    with 1 have "digits_value (dec (n div 10)) = n div 10" by simp
    with False show ?thesis
      by (subst dec.simps) (simp add: digits_value_snoc code_digit_char)
  qed
qed

lemma is_digit_simps: "is_digit c \<Longrightarrow> c \<noteq> CHR ''-'' \<and> c \<noteq> CHR ''+'' \<and> c \<noteq> CHR ''|'' \<and> c \<noteq> CHR '' '' \<and>
    c \<noteq> TAB \<and> c \<noteq> CHR 0x00 \<and> c \<noteq> CR \<and> c \<noteq> LF \<and> c \<noteq> CHR '':'' \<and> c \<noteq> CHR '';'' \<and> c \<noteq> CHR '','' \<and> c \<noteq> CHR ''/''"
  by (auto simp: is_digit_def)

lemma dec_no: "\<not> is_digit c \<Longrightarrow> c \<notin> set (dec n)"
  using dec_digits [of n] by auto

section \<open>Interfaces\<close>

text \<open>
  A codec: an encoder, a partial decoder, and the values the encoder is meant for. The law is
  the round trip; what its clients use is that distinct valid values have distinct encodings.
\<close>

locale wire_codec =
  fixes enc :: "'v \<Rightarrow> 'w" and decode :: "'w \<Rightarrow> 'v option" and ok :: "'v \<Rightarrow> bool"
  assumes decode_enc: "ok v \<Longrightarrow> decode (enc v) = Some v"
begin

lemma enc_inj:
  assumes "ok v" and "ok w" and "enc v = enc w"
  shows "v = w"
proof -
  have "Some v = decode (enc v)" using assms(1) by (rule decode_enc [symmetric])
  also have "\<dots> = decode (enc w)" by (simp only: assms(3))
  also have "\<dots> = Some w" using assms(2) by (rule decode_enc)
  finally show ?thesis by simp
qed

lemma enc_inj_on: "inj_on enc {v. ok v}"
  by (rule inj_onI) (auto intro: enc_inj)

lemma map_enc_inj:
  "\<forall>v\<in>set vs. ok v \<Longrightarrow> \<forall>w\<in>set ws. ok w \<Longrightarrow> map enc vs = map enc ws \<Longrightarrow> vs = ws"
  by (rule map_inj_on [of enc]) (auto intro: enc_inj simp: inj_on_def)

end

text \<open>A component whose operations, as events, keep an invariant: every run keeps it.\<close>

locale invariant_machine =
  fixes step :: "'s \<Rightarrow> 'e \<Rightarrow> 's" and inv :: "'s \<Rightarrow> bool"
  assumes step_inv: "inv s \<Longrightarrow> inv (step s e)"
begin

lemma run_inv: "inv s \<Longrightarrow> inv (foldl step s es)"
proof (induction es arbitrary: s)
  case (Cons e es)
  then show ?case using step_inv [of s e] by simp
qed simp

end

end
