(* ===== verification/JitterBuffer.thy ===== *)
theory JitterBuffer
  imports Prelude "HOL-Library.Multiset"
begin

text \<open>
  The receive jitter buffer (\<open>RtpJitterBuffer\<close> in \<open>rtp_jitter_buffer.h\<close>): up to sixteen slots
  addressed by the RTP sequence number modulo the number of slots. A slot's storage is the list
  of its \<open>bytes\<close> valid bytes, the array of the \<open>slot_count\<close> slots in use is a list, and the
  counters wrap at 32 bits. The mutex makes each operation one step.
\<close>

section \<open>State\<close>

record slot =
  slot_valid :: bool
  slot_has_metadata :: bool
  slot_source_changed :: bool
  slot_format_packed :: u32
  slot_sequence :: u16
  slot_timestamp :: u32
  slot_pcm :: bytes

record frame =
  frame_pcm :: "bytes option"
  frame_sequence :: u16
  frame_timestamp :: u32
  frame_has_metadata :: bool
  frame_source_changed :: bool
  frame_format_packed :: u32

record jb_counters =
  drops :: u32
  discarded_frames :: u32
  late :: u32
  missing :: u32
  duplicates :: u32

record jitter_buffer =
  frame_capacity :: nat
  prebuffer :: nat
  slots :: "slot list"
  valid_count :: u32
  buffering :: bool
  next_sequence_valid :: bool
  next_sequence :: u16
  counters :: jb_counters

datatype read_result = FRAME | BUFFERING | MISSING

abbreviation slot_count :: "jitter_buffer \<Rightarrow> nat" where
  "slot_count b \<equiv> length (slots b)"

definition MAX_SLOTS :: nat where
  "MAX_SLOTS = 16"

definition empty_slot :: slot where
  "empty_slot = \<lparr>slot_valid = False, slot_has_metadata = False, slot_source_changed = False,
     slot_format_packed = 0, slot_sequence = 0, slot_timestamp = 0, slot_pcm = []\<rparr>"

definition no_counters :: jb_counters where
  "no_counters = \<lparr>drops = 0, discarded_frames = 0, late = 0, missing = 0, duplicates = 0\<rparr>"

section \<open>Operations\<close>

definition jb_init :: "nat \<Rightarrow> byte \<Rightarrow> byte \<Rightarrow> jitter_buffer" where
  "jb_init capacity n pre =
     (let used = (if unat n > MAX_SLOTS then MAX_SLOTS else unat n);
          pre1 = (if unat pre = 0 then 1 else unat pre);
          pre2 = (if pre1 > used then used else pre1)
      in \<lparr>frame_capacity = capacity,
          prebuffer = (if capacity = 0 \<or> used = 0 then unat pre else pre2),
          slots = replicate used empty_slot, valid_count = 0, buffering = True,
          next_sequence_valid = False, next_sequence = 0, counters = no_counters\<rparr>)"

definition sequence_delta :: "u16 \<Rightarrow> u16 \<Rightarrow> int" where
  "sequence_delta q r = sint (q - r)"

definition invalidate :: "slot \<Rightarrow> slot" where
  "invalidate s = s\<lparr>slot_valid := False, slot_pcm := []\<rparr>"

definition clear_slots :: "jitter_buffer \<Rightarrow> jitter_buffer" where
  "clear_slots b = b\<lparr>slots := map invalidate (slots b)\<rparr>"

definition out_of_window :: "nat \<Rightarrow> u16 \<Rightarrow> slot \<Rightarrow> bool" where
  "out_of_window n ref s \<longleftrightarrow>
     sequence_delta (slot_sequence s) ref < 0 \<or> sequence_delta (slot_sequence s) ref \<ge> int n"

text \<open>The loop of \<open>keep_window_from_\<close>: the slots left, the frames kept and those discarded.\<close>

fun keep_slots :: "nat \<Rightarrow> u16 \<Rightarrow> slot list \<Rightarrow> u32 \<Rightarrow> u32 \<Rightarrow> slot list \<times> u32 \<times> u32" where
  "keep_slots n ref [] kept discarded = ([], kept, discarded)"
| "keep_slots n ref (s # ss) kept discarded =
     (if \<not> slot_valid s then
        (let (ss', c, d) = keep_slots n ref ss kept discarded in (s # ss', c, d))
      else if out_of_window n ref s then
        (let (ss', c, d) = keep_slots n ref ss kept (discarded + 1) in (invalidate s # ss', c, d))
      else (let (ss', c, d) = keep_slots n ref ss (kept + 1) discarded in (s # ss', c, d)))"

definition keep_window_from :: "u16 \<Rightarrow> jitter_buffer \<Rightarrow> jitter_buffer" where
  "keep_window_from ref b =
     (let (ss, kept, discarded) =
            keep_slots (slot_count b) ref (slots b) 0 (discarded_frames (counters b))
      in b\<lparr>slots := ss, valid_count := kept,
           counters := (counters b)\<lparr>discarded_frames := discarded\<rparr>\<rparr>)"

definition jb_reset :: "jitter_buffer \<Rightarrow> jitter_buffer" where
  "jb_reset b = (clear_slots b)\<lparr>valid_count := 0, buffering := True, next_sequence_valid := False,
     next_sequence := 0, counters := no_counters\<rparr>"

definition store_frame :: "frame \<Rightarrow> bytes \<Rightarrow> u16 \<Rightarrow> slot" where
  "store_frame f pcm q = \<lparr>slot_valid = True, slot_has_metadata = frame_has_metadata f,
     slot_source_changed = frame_source_changed f, slot_format_packed = frame_format_packed f,
     slot_sequence = q, slot_timestamp = frame_timestamp f, slot_pcm = pcm\<rparr>"

abbreviation bump_drops :: "jb_counters \<Rightarrow> jb_counters" where
  "bump_drops c \<equiv> c\<lparr>drops := drops c + 1\<rparr>"

abbreviation bump_discard :: "jb_counters \<Rightarrow> jb_counters" where
  "bump_discard c \<equiv> c\<lparr>drops := drops c + 1, discarded_frames := discarded_frames c + 1\<rparr>"

definition decrement :: "u32 \<Rightarrow> u32" where
  "decrement v = (if v > 0 then v - 1 else v)"

text \<open>The survivor the playout is anchored at after a realignment.\<close>

definition first_survivor :: "jitter_buffer \<Rightarrow> u16" where
  "first_survivor b =
     (case find (\<lambda>i. let c = next_sequence b + of_nat i; s = slots b ! (unat c mod slot_count b)
                     in slot_valid s \<and> slot_sequence s = c) [0..<slot_count b] of
        Some i \<Rightarrow> next_sequence b + of_nat i
      | None \<Rightarrow> next_sequence b)"

text \<open>The first part of \<open>push\<close>: the sequence number, the window move; \<open>None\<close> for a late packet.\<close>

definition place_sequence :: "jitter_buffer \<Rightarrow> frame \<Rightarrow> u16" where
  "place_sequence b f =
     (if frame_has_metadata f then frame_sequence f
      else if next_sequence_valid b then next_sequence b + ucast (valid_count b) else 0)"

definition window_move :: "jitter_buffer \<Rightarrow> u16 \<Rightarrow> (bool \<times> jitter_buffer) option" where
  "window_move b q =
     (let delta = sequence_delta q (next_sequence b); n = slot_count b in
      if delta < 0 then
        (if buffering b \<and> delta > - int n
         then Some (False, keep_window_from q (b\<lparr>next_sequence := q\<rparr>)) else None)
      else if delta \<ge> int n then
        (let keep_frames = (if n > prebuffer b then n - prebuffer b else 1);
             next = q - of_nat keep_frames + 1;
             b' = keep_window_from next (b\<lparr>next_sequence := next\<rparr>)
         in Some (True, b'\<lparr>counters := bump_drops (counters b')\<rparr>))
      else Some (False, b))"

text \<open>The second part: the slot, and the end of buffering.\<close>

definition evict :: "jitter_buffer \<Rightarrow> nat \<Rightarrow> jitter_buffer" where
  "evict b i = b\<lparr>slots := (slots b)[i := invalidate (slots b ! i)],
     valid_count := decrement (valid_count b), counters := bump_discard (counters b)\<rparr>"

definition settle :: "bool \<Rightarrow> jitter_buffer \<Rightarrow> jitter_buffer" where
  "settle realigned b =
     (if realigned then
        b\<lparr>next_sequence := first_survivor b, buffering := unat (valid_count b) < prebuffer b\<rparr>
      else if buffering b \<and> unat (valid_count b) \<ge> prebuffer b then b\<lparr>buffering := False\<rparr>
      else b)"

definition store_at :: "jitter_buffer \<Rightarrow> slot \<Rightarrow> nat \<Rightarrow> jitter_buffer" where
  "store_at b s i = b\<lparr>slots := (slots b)[i := s], valid_count := valid_count b + 1\<rparr>"

definition jb_push :: "jitter_buffer \<Rightarrow> frame \<Rightarrow> bool \<times> jitter_buffer" where
  "jb_push b f =
     (case frame_pcm f of
        None \<Rightarrow> (False, b)
      | Some pcm \<Rightarrow>
          if slot_count b = 0 \<or> pcm = [] \<or> length pcm > frame_capacity b then (False, b)
          else
            let q = place_sequence b f;
                b1 = (if next_sequence_valid b then b
                      else b\<lparr>next_sequence := q, next_sequence_valid := True\<rparr>)
            in case window_move b1 q of
                 None \<Rightarrow> (False, b1\<lparr>counters := (counters b1)\<lparr>late := late (counters b1) + 1\<rparr>\<rparr>)
               | Some (realigned, b2) \<Rightarrow>
                   let i = unat q mod slot_count b2; s = slots b2 ! i in
                   if slot_valid s \<and> slot_sequence s = q then
                     (False, b2\<lparr>counters := (counters b2)\<lparr>duplicates := duplicates (counters b2) + 1\<rparr>\<rparr>)
                   else
                     let b3 = (if slot_valid s then evict b2 i else b2)
                     in (True, settle realigned (store_at b3 (store_frame f pcm q) i)))"

text \<open>
  \<open>read\<close>: \<open>null_out\<close> is the missing output pointer, \<open>exact\<close> that the caller passed no
  \<open>actual_bytes\<close> and so takes only frames of exactly \<open>capacity\<close> bytes. The frame read is
  the slot, whose fields are what the out parameters receive.
\<close>

definition jb_read ::
    "jitter_buffer \<Rightarrow> bool \<Rightarrow> nat \<Rightarrow> bool \<Rightarrow> read_result \<times> slot option \<times> jitter_buffer" where
  "jb_read b null_out capacity exact =
     (if slot_count b = 0 \<or> null_out \<or> capacity = 0 \<or> capacity > frame_capacity b
      then (BUFFERING, None, b)
      else if (\<not> next_sequence_valid b \<or> buffering b) \<and>
              \<not> (next_sequence_valid b \<and> unat (valid_count b) \<ge> prebuffer b)
      then (BUFFERING, None, b)
      else
        let b1 = (if buffering b then b\<lparr>buffering := False\<rparr> else b);
            i = unat (next_sequence b1) mod slot_count b1;
            s = slots b1 ! i
        in if slot_valid s \<and> slot_sequence s = next_sequence b1 then
             let b2 = b1\<lparr>slots := (slots b1)[i := invalidate s],
                         valid_count := decrement (valid_count b1),
                         next_sequence := next_sequence b1 + 1\<rparr>
             in if length (slot_pcm s) > capacity \<or> (exact \<and> length (slot_pcm s) \<noteq> capacity)
                then (MISSING, None, b2\<lparr>counters := bump_discard (counters b2)\<rparr>)
                else (FRAME, Some s, b2)
           else if valid_count b1 = 0 then (BUFFERING, None, b1)
           else (MISSING, None,
                 b1\<lparr>counters := (counters b1)\<lparr>missing := missing (counters b1) + 1\<rparr>,
                    next_sequence := next_sequence b1 + 1\<rparr>))"

definition jb_depth :: "jitter_buffer \<Rightarrow> u32" where
  "jb_depth b = valid_count b"

datatype jb_event = Push frame | Read bool nat bool | Reset

fun jb_step :: "jitter_buffer \<Rightarrow> jb_event \<Rightarrow> jitter_buffer" where
  "jb_step b (Push f) = snd (jb_push b f)"
| "jb_step b (Read null_out capacity exact) = snd (snd (jb_read b null_out capacity exact))"
| "jb_step b Reset = jb_reset b"


section \<open>Sequence arithmetic\<close>

lemma sint_u16: "sint (d::16 word) = (if unat d < 32768 then int (unat d) else int (unat d) - 65536)"
proof -
  have u: "int (unat d) = uint d" by simp
  have b: "0 \<le> uint d" "uint d < 65536" using uint_lt2p [of d] by simp_all
  have lt: "unat d < 32768 \<longleftrightarrow> uint d < 32768" using u by linarith
  have "sint d = signed_take_bit 15 (uint d)" by (simp add: sint_uint)
  also have "\<dots> = (uint d + 32768) mod 65536 - 32768"
    by (simp add: signed_take_bit_eq_take_bit_shift take_bit_eq_mod)
  also have "\<dots> = (if uint d < 32768 then uint d else uint d - 65536)"
  proof (cases "uint d < 32768")
    case True
    with b show ?thesis by (simp add: mod_pos_pos_trivial)
  next
    case False
    have "(uint d + 32768) mod 65536 = (uint d - 32768 + 65536) mod 65536"
      by (simp add: algebra_simps)
    also have "\<dots> = uint d - 32768"
      using b False by (simp only: mod_add_self2) (simp add: mod_pos_pos_trivial)
    finally show ?thesis using False by simp
  qed
  finally show ?thesis unfolding lt u .
qed

definition in_window :: "nat \<Rightarrow> u16 \<Rightarrow> slot \<Rightarrow> bool" where
  "in_window n ref s \<longleftrightarrow> unat (slot_sequence s - ref) < n"

lemma len16: "LENGTH(16) = 16"
  by simp

lemma delta_in_window:
  "n \<le> 16 \<Longrightarrow> (0 \<le> sequence_delta q r \<and> sequence_delta q r < int n) \<longleftrightarrow> unat (q - r) < n"
  unfolding sequence_delta_def sint_u16 using unat_u16_le [of "q - r"]
  by (cases "unat (q - r) < 32768") (simp_all only: if_True if_False, linarith+)

lemma out_of_window_iff: "n \<le> 16 \<Longrightarrow> out_of_window n r s \<longleftrightarrow> \<not> in_window n r s"
  using delta_in_window [of n "slot_sequence s" r] by (auto simp: out_of_window_def in_window_def)

section \<open>The frames held\<close>

definition held :: "jitter_buffer \<Rightarrow> slot list" where
  "held b = filter slot_valid (slots b)"

lemma mset_filter_update:
  "i < length xs \<Longrightarrow>
   mset (filter P (xs[i := x])) + (if P (xs ! i) then {#xs ! i#} else {#}) =
   mset (filter P xs) + (if P x then {#x#} else {#})"
proof (induction xs arbitrary: i)
  case (Cons a xs)
  show ?case
  proof (cases i)
    case (Suc j)
    with Cons.IH [of j] Cons.prems show ?thesis by (simp del: mset_filter split: if_splits)
  qed (simp del: mset_filter)
qed simp

lemma length_filter_update:
  "i < length xs \<Longrightarrow>
   length (filter P (xs[i := x])) + (if P (xs ! i) then 1 else 0) =
   length (filter P xs) + (if P x then 1 else 0)"
  using arg_cong [OF mset_filter_update [of i xs P x], of size]
  by (simp split: if_splits del: mset_filter)

lemma invalidate_simps [simp]:
  "slot_valid (invalidate s) = False" "slot_pcm (invalidate s) = []"
  "slot_sequence (invalidate s) = slot_sequence s"
  by (simp_all add: invalidate_def)

lemma store_frame_simps [simp]:
  "slot_valid (store_frame f pcm q) = True" "slot_pcm (store_frame f pcm q) = pcm"
  "slot_sequence (store_frame f pcm q) = q" "slot_timestamp (store_frame f pcm q) = frame_timestamp f"
  by (simp_all add: store_frame_def)

lemma length_held: "length (held b) \<le> slot_count b"
  by (simp add: held_def)

lemma held_evict:
  "i < slot_count b \<Longrightarrow> slot_valid (slots b ! i) \<Longrightarrow>
   mset (held b) = add_mset (slots b ! i) (mset (held (evict b i)))"
  using mset_filter_update [of i "slots b" slot_valid "invalidate (slots b ! i)"]
  by (simp add: held_def evict_def)

lemma held_store:
  "i < slot_count b \<Longrightarrow> \<not> slot_valid (slots b ! i) \<Longrightarrow> slot_valid s \<Longrightarrow>
   mset (held (store_at b s i)) = add_mset s (mset (held b))"
  using mset_filter_update [of i "slots b" slot_valid s] by (simp add: held_def store_at_def)

lemma settle_simps [simp]:
  "slots (settle r b) = slots b" "held (settle r b) = held b"
  "counters (settle r b) = counters b" "valid_count (settle r b) = valid_count b"
  "next_sequence_valid (settle r b) = next_sequence_valid b"
  "frame_capacity (settle r b) = frame_capacity b" "prebuffer (settle r b) = prebuffer b"
  by (simp_all add: settle_def held_def)

subsection \<open>Moving the window\<close>

definition trim :: "nat \<Rightarrow> u16 \<Rightarrow> slot \<Rightarrow> slot" where
  "trim n ref s = (if slot_valid s \<and> out_of_window n ref s then invalidate s else s)"

lemma keep_slots_map:
  "keep_slots n ref ss k d =
     (map (trim n ref) ss,
      k + of_nat (length (filter (\<lambda>s. slot_valid s \<and> \<not> out_of_window n ref s) ss)),
      d + of_nat (length (filter (\<lambda>s. slot_valid s \<and> out_of_window n ref s) ss)))"
  by (induction n ref ss k d rule: keep_slots.induct) (auto simp: trim_def)

lemma filter_trim:
  "filter slot_valid (map (trim n ref) ss) = filter (\<lambda>s. slot_valid s \<and> \<not> out_of_window n ref s) ss"
  by (induction ss) (auto simp: trim_def)

lemma keep_window_simps [simp]:
  "slots (keep_window_from r b) = map (trim (slot_count b) r) (slots b)"
  "next_sequence (keep_window_from r b) = next_sequence b"
  "next_sequence_valid (keep_window_from r b) = next_sequence_valid b"
  "buffering (keep_window_from r b) = buffering b"
  "frame_capacity (keep_window_from r b) = frame_capacity b"
  "prebuffer (keep_window_from r b) = prebuffer b"
  by (simp_all add: keep_window_from_def keep_slots_map)

lemma keep_window_count:
  "valid_count (keep_window_from r b) = of_nat (length (held (keep_window_from r b)))"
  by (simp add: keep_window_from_def keep_slots_map held_def filter_trim)

lemma held_keep_window:
  "held (keep_window_from r b) = filter (\<lambda>s. \<not> out_of_window (slot_count b) r s) (held b)"
  by (simp add: held_def filter_trim conj_commute)

lemma discarded_keep_window:
  "discarded_frames (counters (keep_window_from r b)) =
   discarded_frames (counters b) + of_nat (length (filter (out_of_window (slot_count b) r) (held b)))"
  by (simp add: keep_window_from_def keep_slots_map held_def conj_commute)

section \<open>Invariant\<close>

text \<open>
  Every valid slot sits at its sequence number modulo the slot count and inside the window of
  \<open>slot_count\<close> sequence numbers from the next one to play, holds at least one byte and at most
  the capacity; \<open>valid_count\<close> counts the valid slots.
\<close>

definition slot_local :: "nat \<Rightarrow> nat \<Rightarrow> nat \<Rightarrow> slot \<Rightarrow> bool" where
  "slot_local n cap i s \<longleftrightarrow>
     (if slot_valid s then unat (slot_sequence s) mod n = i \<and> 0 < length (slot_pcm s) \<and> length (slot_pcm s) \<le> cap
      else slot_pcm s = [])"

definition slots_local :: "jitter_buffer \<Rightarrow> bool" where
  "slots_local b \<longleftrightarrow> slot_count b \<le> MAX_SLOTS \<and>
     (\<forall>i < slot_count b. slot_local (slot_count b) (frame_capacity b) i (slots b ! i))"

definition windowed :: "jitter_buffer \<Rightarrow> bool" where
  "windowed b \<longleftrightarrow> (\<forall>s\<in>set (held b). next_sequence_valid b \<and> in_window (slot_count b) (next_sequence b) s)"

definition counted :: "jitter_buffer \<Rightarrow> bool" where
  "counted b \<longleftrightarrow> valid_count b = of_nat (length (held b))"

definition jb_inv :: "jitter_buffer \<Rightarrow> bool" where
  "jb_inv b \<longleftrightarrow> slots_local b \<and> windowed b \<and> counted b"

lemma jb_invI: "slots_local b \<Longrightarrow> windowed b \<Longrightarrow> counted b \<Longrightarrow> jb_inv b"
  by (simp add: jb_inv_def)

lemma counted_unat:
  assumes "slots_local b" and "counted b"
  shows "unat (valid_count b) = length (held b)"
proof -
  have "length (held b) < 2 ^ 32"
    using length_held [of b] assms(1) by (simp add: slots_local_def MAX_SLOTS_def)
  with assms(2) show ?thesis by (simp add: counted_def unat_of_nat_small)
qed

lemma held_in: "i < slot_count b \<Longrightarrow> slot_valid (slots b ! i) \<Longrightarrow> slots b ! i \<in> set (held b)"
  by (simp add: held_def)

lemma held_slot:
  assumes "slots_local b" and "s \<in> set (held b)"
  shows "unat (slot_sequence s) mod slot_count b < slot_count b \<and>
    slots b ! (unat (slot_sequence s) mod slot_count b) = s \<and> slot_valid s \<and>
    0 < length (slot_pcm s) \<and> length (slot_pcm s) \<le> frame_capacity b"
proof -
  obtain i where i: "i < slot_count b" "slots b ! i = s" "slot_valid s"
    using assms(2) by (auto simp: held_def in_set_conv_nth)
  have "slot_local (slot_count b) (frame_capacity b) i s"
    using assms(1) i by (auto simp: slots_local_def)
  with i show ?thesis by (auto simp: slot_local_def)
qed


subsection \<open>Each operation keeps it\<close>

lemma init_inv: "jb_inv (jb_init cap n pre)"
  by (simp add: jb_inv_def slots_local_def windowed_def counted_def jb_init_def Let_def held_def
    slot_local_def empty_slot_def MAX_SLOTS_def)

lemma reset_inv: "jb_inv b \<Longrightarrow> jb_inv (jb_reset b)"
  by (auto simp: jb_inv_def slots_local_def windowed_def counted_def jb_reset_def clear_slots_def
    held_def slot_local_def o_def)

lemma trim_local: "slot_local n cap i s \<Longrightarrow> slot_local n cap i (trim m r s)"
  by (auto simp: trim_def slot_local_def split: if_splits)

lemma keep_window_inv:
  assumes "slots_local b" and "next_sequence_valid b"
  shows "jb_inv (keep_window_from (next_sequence b) b)"
proof (rule jb_invI)
  let ?b = "keep_window_from (next_sequence b) b"
  show "slots_local ?b" using assms(1) trim_local by (simp add: slots_local_def)
  have "slot_count b \<le> 16" using assms(1) by (simp add: slots_local_def MAX_SLOTS_def)
  then show "windowed ?b" using assms(2)
    by (auto simp: windowed_def held_keep_window out_of_window_iff)
  show "counted ?b" by (simp add: counted_def keep_window_count)
qed

lemma counters_inv [simp]: "jb_inv (b\<lparr>counters := c\<rparr>) = jb_inv b"
  by (simp add: jb_inv_def slots_local_def windowed_def counted_def held_def)

lemma buffering_inv [simp]: "jb_inv (b\<lparr>buffering := v\<rparr>) = jb_inv b"
  by (simp add: jb_inv_def slots_local_def windowed_def counted_def held_def)

lemma slots_local_next [simp]: "slots_local (b\<lparr>next_sequence := q\<rparr>) = slots_local b"
  by (simp add: slots_local_def)

lemma window_move_inv:
  assumes inv: "jb_inv b" and nv: "next_sequence_valid b" and wm: "window_move b q = Some (r, b')"
    and pos: "0 < slot_count b"
  shows "jb_inv b' \<and> next_sequence_valid b' \<and> unat (q - next_sequence b') < slot_count b' \<and>
    slot_count b' = slot_count b \<and> frame_capacity b' = frame_capacity b \<and> prebuffer b' = prebuffer b"
proof -
  have n: "slot_count b \<le> 16" and sl: "slots_local b"
    using inv by (simp_all add: jb_inv_def slots_local_def MAX_SLOTS_def)
  consider (early) "b' = keep_window_from q (b\<lparr>next_sequence := q\<rparr>)"
    | (jump) k where "0 < k" "k \<le> slot_count b"
        "b' = (let c = keep_window_from (q - of_nat k + 1) (b\<lparr>next_sequence := q - of_nat k + 1\<rparr>)
               in c\<lparr>counters := bump_drops (counters c)\<rparr>)"
    | (inside) "b' = b" "unat (q - next_sequence b) < slot_count b"
  proof -
    show thesis
    proof (cases "sequence_delta q (next_sequence b) < 0")
      case True
      with wm early show thesis by (auto simp: window_move_def Let_def split: if_splits)
    next
      case nonneg: False
      show thesis
      proof (cases "sequence_delta q (next_sequence b) \<ge> int (slot_count b)")
        case True
        let ?k = "if slot_count b > prebuffer b then slot_count b - prebuffer b else 1"
        from wm nonneg True have "b' = (let c = keep_window_from (q - of_nat ?k + 1) (b\<lparr>next_sequence := q - of_nat ?k + 1\<rparr>)
               in c\<lparr>counters := bump_drops (counters c)\<rparr>)"
          by (simp only: window_move_def Let_def if_False if_True option.inject prod.inject)
        moreover have "0 < ?k" "?k \<le> slot_count b" using pos by (auto simp: Suc_le_eq)
        ultimately show thesis using jump by blast
      next
        case False
        with nonneg wm have "b' = b" by (simp add: window_move_def Let_def)
        moreover have "unat (q - next_sequence b) < slot_count b"
          using delta_in_window [OF n, of q "next_sequence b"] False nonneg by (simp add: not_less not_le)
        ultimately show thesis using inside by blast
      qed
    qed
  qed
  then show ?thesis
  proof cases
    case early
    then show ?thesis using keep_window_inv [of "b\<lparr>next_sequence := q\<rparr>"] sl nv pos by simp
  next
    case (jump k)
    have "q - (q - of_nat k + 1) = (of_nat (k - 1) :: u16)" using jump(1) by (simp add: of_nat_diff)
    moreover have "k - 1 < 2 ^ 16" using jump n by simp
    ultimately have "unat (q - (q - of_nat k + 1)) = k - 1"
      by (metis unat_of_nat_small len16)
    then have "unat (q - (q - of_nat k + 1)) < slot_count b" using jump by linarith
    then show ?thesis
      using keep_window_inv [of "b\<lparr>next_sequence := q - of_nat k + 1\<rparr>"] sl nv jump(3)
      by (simp add: Let_def)
  next
    case inside
    then show ?thesis using inv nv by simp
  qed
qed


lemma evict_inv:
  assumes inv: "jb_inv b" and i: "i < slot_count b" and v: "slot_valid (slots b ! i)"
  shows "jb_inv (evict b i)"
proof (rule jb_invI)
  have len: "length (held b) = Suc (length (held (evict b i)))"
    using arg_cong [OF held_evict [OF i v], of size] by simp
  show "slots_local (evict b i)"
    using inv i by (auto simp: jb_inv_def slots_local_def evict_def slot_local_def nth_list_update)
  have sub: "set (held (evict b i)) \<subseteq> set (held b)"
    using arg_cong [OF held_evict [OF i v], of set_mset] by auto
  then show "windowed (evict b i)" using inv by (auto simp: jb_inv_def windowed_def evict_def)
  have "unat (valid_count b) = length (held b)" using inv by (simp add: jb_inv_def counted_unat)
  then have "valid_count b > 0" using len by (simp add: word_less_nat_alt)
  then have vc: "valid_count (evict b i) = valid_count b - 1"
    by (simp add: evict_def decrement_def)
  show "counted (evict b i)"
    unfolding counted_def vc using inv len by (simp add: jb_inv_def counted_def)
qed

lemma store_inv:
  assumes inv: "jb_inv b" and i: "i < slot_count b" "i = unat (slot_sequence s) mod slot_count b"
    and v: "\<not> slot_valid (slots b ! i)" "slot_valid s"
    and s: "next_sequence_valid b" "in_window (slot_count b) (next_sequence b) s"
      "0 < length (slot_pcm s)" "length (slot_pcm s) \<le> frame_capacity b"
  shows "jb_inv (store_at b s i)"
proof (rule jb_invI)
  have m: "mset (held (store_at b s i)) = add_mset s (mset (held b))"
    using held_store [OF i(1) v] .
  show "slots_local (store_at b s i)"
    using inv i s v by (auto simp: jb_inv_def slots_local_def store_at_def slot_local_def nth_list_update)
  have "set (held (store_at b s i)) = insert s (set (held b))"
    using arg_cong [OF m, of set_mset] by simp
  then show "windowed (store_at b s i)"
    using inv s by (auto simp: jb_inv_def windowed_def store_at_def)
  show "counted (store_at b s i)"
    using inv arg_cong [OF m, of size] by (simp add: jb_inv_def counted_def store_at_def [of b])
qed

lemma held_offset:
  assumes "jb_inv b" and "s \<in> set (held b)"
  shows "unat (slot_sequence s - next_sequence b) < slot_count b"
  using assms by (auto simp: jb_inv_def windowed_def in_window_def)

lemma sequence_at_offset: "(next :: u16) + of_nat (unat (q - next)) = q"
  by simp

lemma first_survivor_spec:
  assumes inv: "jb_inv b" and ne: "held b \<noteq> []"
  obtains s where "s \<in> set (held b)" "slot_sequence s = first_survivor b"
    "\<forall>t\<in>set (held b). unat (slot_sequence s - next_sequence b) \<le> unat (slot_sequence t - next_sequence b)"
proof -
  define P where "P i = (let c = next_sequence b + of_nat i; s = slots b ! (unat c mod slot_count b)
                     in slot_valid s \<and> slot_sequence s = c)" for i
  have sl: "slots_local b" using inv by (simp add: jb_inv_def)
  have n: "slot_count b \<le> 16" using sl by (simp add: slots_local_def MAX_SLOTS_def)
  have at: "P (unat (slot_sequence t - next_sequence b))" if "t \<in> set (held b)" for t
    using held_slot [OF sl that] by (simp add: P_def Let_def sequence_at_offset)
  obtain t where t: "t \<in> set (held b)" using list.set_sel(1) [OF ne] by blast
  have "find P [0..<slot_count b] \<noteq> None"
    using at [OF t] held_offset [OF inv t] by (auto simp: find_None_iff)
  then obtain i where f: "find P [0..<slot_count b] = Some i" by blast
  then have i: "i < slot_count b" "P i" and before: "\<forall>j<i. \<not> P j"
    by (auto simp: find_Some_iff)
  then have pos: "0 < slot_count b" by linarith
  define s where "s = slots b ! (unat (next_sequence b + of_nat i) mod slot_count b)"
  have s: "slot_valid s" "slot_sequence s = next_sequence b + of_nat i"
    using i(2) by (simp_all add: P_def Let_def s_def)
  have "s \<in> set (held b)"
    unfolding s_def by (rule held_in) (use pos s in \<open>auto simp: s_def\<close>)
  moreover have "slot_sequence s = first_survivor b"
    using f s by (simp add: first_survivor_def P_def [abs_def])
  moreover have "unat (slot_sequence s - next_sequence b) = i"
    using s(2) i(1) n by (simp add: unat_of_nat_small)
  then have "\<forall>t\<in>set (held b). unat (slot_sequence s - next_sequence b) \<le> unat (slot_sequence t - next_sequence b)"
    using at before by (metis not_le)
  ultimately show thesis using that by blast
qed

lemma unat_sub_offset:
  assumes "unat (a - (r::u16)) \<le> unat (c - r)"
  shows "unat (c - a) = unat (c - r) - unat (a - r)"
proof -
  have "c - a = (c - r) - (a - r)" by simp
  then show ?thesis using assms by (metis unat_sub word_le_nat_alt)
qed

lemma settle_inv:
  assumes inv: "jb_inv b" and ne: "held b \<noteq> []" and nv: "next_sequence_valid b"
  shows "jb_inv (settle r b)"
proof (cases r)
  case False
  with inv show ?thesis by (simp add: settle_def)
next
  case True
  obtain s where s: "s \<in> set (held b)" "slot_sequence s = first_survivor b"
    "\<forall>t\<in>set (held b). unat (slot_sequence s - next_sequence b) \<le> unat (slot_sequence t - next_sequence b)"
    using first_survivor_spec [OF inv ne] by blast
  show ?thesis
  proof (rule jb_invI)
    show "slots_local (settle r b)" using inv by (simp add: jb_inv_def slots_local_def)
    show "counted (settle r b)" using inv by (simp add: jb_inv_def counted_def)
    show "windowed (settle r b)"
      unfolding windowed_def
    proof
      fix t assume t: "t \<in> set (held (settle r b))"
      then have th: "t \<in> set (held b)" by simp
      have "unat (slot_sequence t - first_survivor b) \<le> unat (slot_sequence t - next_sequence b)"
        using s(2,3) th unat_sub_offset [of "slot_sequence s" "next_sequence b" "slot_sequence t"] by simp
      with held_offset [OF inv th] True nv
      show "next_sequence_valid (settle r b) \<and> in_window (slot_count (settle r b)) (next_sequence (settle r b)) t"
        by (simp add: settle_def in_window_def)
    qed
  qed
qed


text \<open>A push that passes the guards: the moved buffer, the slot, and what is stored.\<close>

definition anchored :: "jitter_buffer \<Rightarrow> u16 \<Rightarrow> jitter_buffer" where
  "anchored b q = (if next_sequence_valid b then b
                   else b\<lparr>next_sequence := q, next_sequence_valid := True\<rparr>)"

definition cleared :: "jitter_buffer \<Rightarrow> nat \<Rightarrow> jitter_buffer" where
  "cleared b i = (if slot_valid (slots b ! i) then evict b i else b)"

lemma anchored_inv: "jb_inv b \<Longrightarrow> jb_inv (anchored b q) \<and> next_sequence_valid (anchored b q)"
  by (auto simp: anchored_def jb_inv_def slots_local_def windowed_def counted_def held_def)

lemma anchored_simps [simp]:
  "slots (anchored b q) = slots b" "held (anchored b q) = held b" "counters (anchored b q) = counters b"
  "frame_capacity (anchored b q) = frame_capacity b" "prebuffer (anchored b q) = prebuffer b"
  by (simp_all add: anchored_def held_def)

lemma jb_push_cases:
  obtains (refused) "jb_push b f = (False, b)"
  | (late) q where "jb_push b f = (False, (anchored b q)\<lparr>counters := (counters b)\<lparr>late := late (counters b) + 1\<rparr>\<rparr>)"
  | (duplicate) q r b2 where "window_move (anchored b q) q = Some (r, b2)" "0 < slot_count b"
      "slot_valid (slots b2 ! (unat q mod slot_count b2))"
      "slot_sequence (slots b2 ! (unat q mod slot_count b2)) = q"
      "jb_push b f = (False, b2\<lparr>counters := (counters b2)\<lparr>duplicates := duplicates (counters b2) + 1\<rparr>\<rparr>)"
  | (stored) q r b2 pcm where "window_move (anchored b q) q = Some (r, b2)" "0 < slot_count b"
      "frame_pcm f = Some pcm" "0 < length pcm" "length pcm \<le> frame_capacity b" "q = place_sequence b f"
      "\<not> (slot_valid (slots b2 ! (unat q mod slot_count b2)) \<and>
          slot_sequence (slots b2 ! (unat q mod slot_count b2)) = q)"
      "jb_push b f = (True, settle r (store_at (cleared b2 (unat q mod slot_count b2))
         (store_frame f pcm q) (unat q mod slot_count b2)))"
proof (cases "frame_pcm f")
  case None
  then show thesis using refused by (simp add: jb_push_def)
next
  case (Some pcm)
  show thesis
  proof (cases "slot_count b = 0 \<or> pcm = [] \<or> length pcm > frame_capacity b")
    case True
    then show thesis using refused Some by (simp add: jb_push_def)
  next
    case False
    let ?q = "place_sequence b f"
    have push: "jb_push b f = (case window_move (anchored b ?q) ?q of
                 None \<Rightarrow> (False, (anchored b ?q)\<lparr>counters := (counters (anchored b ?q))\<lparr>late := late (counters (anchored b ?q)) + 1\<rparr>\<rparr>)
               | Some (realigned, b2) \<Rightarrow>
                   if slot_valid (slots b2 ! (unat ?q mod slot_count b2)) \<and>
                      slot_sequence (slots b2 ! (unat ?q mod slot_count b2)) = ?q then
                     (False, b2\<lparr>counters := (counters b2)\<lparr>duplicates := duplicates (counters b2) + 1\<rparr>\<rparr>)
                   else (True, settle realigned (store_at (cleared b2 (unat ?q mod slot_count b2))
                          (store_frame f pcm ?q) (unat ?q mod slot_count b2))))"
      unfolding jb_push_def Let_def cleared_def anchored_def [symmetric]
      using Some False by (simp del: anchored_simps)
    show thesis
    proof (cases "window_move (anchored b ?q) ?q")
      case None
      then show thesis using late [of ?q] push by simp
    next
      case (Some rb)
      obtain r b2 where rb: "rb = (r, b2)" by (cases rb) simp
      show thesis
      proof (cases "slot_valid (slots b2 ! (unat ?q mod slot_count b2)) \<and>
          slot_sequence (slots b2 ! (unat ?q mod slot_count b2)) = ?q")
        case True
        then show thesis using duplicate [of ?q r b2] push Some rb False by simp
      next
        case no: False
        from push Some rb no have "jb_push b f = (True, settle r (store_at (cleared b2 (unat ?q mod slot_count b2))
         (store_frame f pcm ?q) (unat ?q mod slot_count b2)))" by (simp only: option.case prod.case if_False)
        then show thesis using stored [of ?q r b2 pcm] Some rb False no \<open>frame_pcm f = Some pcm\<close> by simp
      qed
    qed
  qed
qed

lemma cleared_inv:
  assumes "jb_inv b" and "i < slot_count b"
  shows "jb_inv (cleared b i) \<and> \<not> slot_valid (slots (cleared b i) ! i) \<and>
    slot_count (cleared b i) = slot_count b \<and> next_sequence (cleared b i) = next_sequence b \<and>
    next_sequence_valid (cleared b i) = next_sequence_valid b \<and>
    frame_capacity (cleared b i) = frame_capacity b"
  using assms evict_inv by (auto simp: cleared_def evict_def)

lemma push_inv:
  assumes inv: "jb_inv b"
  shows "jb_inv (snd (jb_push b f))"
proof (cases rule: jb_push_cases [of b f])
  case refused
  with inv show ?thesis by simp
next
  case (late q)
  with anchored_inv [OF inv] show ?thesis by simp
next
  case (duplicate q r b2)
  have "jb_inv b2"
    using window_move_inv [of "anchored b q" q r b2] anchored_inv [OF inv, of q] duplicate(1,2) by simp
  with duplicate show ?thesis by simp
next
  case (stored q r b2 pcm)
  let ?i = "unat q mod slot_count b2"
  have b2: "jb_inv b2" "next_sequence_valid b2" "unat (q - next_sequence b2) < slot_count b2"
      "slot_count b2 = slot_count b" "frame_capacity b2 = frame_capacity b"
    using window_move_inv [of "anchored b q" q r b2] anchored_inv [OF inv, of q] stored(1,2) by auto
  then have i: "?i < slot_count b2" by (metis mod_less_divisor stored(2))
  note c = cleared_inv [OF b2(1) i]
  let ?b3 = "store_at (cleared b2 ?i) (store_frame f pcm q) ?i"
  have "jb_inv ?b3"
    by (rule store_inv) (use c i b2 stored in \<open>auto simp: in_window_def\<close>)
  moreover have "held ?b3 \<noteq> []"
    using held_store [of ?i "cleared b2 ?i" "store_frame f pcm q"] c i by auto
  moreover have "next_sequence_valid ?b3" using c b2 by (simp add: store_at_def)
  ultimately show ?thesis using stored by (simp add: settle_inv)
qed


subsection \<open>Reading\<close>

abbreviation next_index :: "jitter_buffer \<Rightarrow> nat" where
  "next_index b \<equiv> unat (next_sequence b) mod slot_count b"

definition take_next :: "jitter_buffer \<Rightarrow> jitter_buffer" where
  "take_next b = b\<lparr>slots := (slots b)[next_index b := invalidate (slots b ! next_index b)],
     valid_count := decrement (valid_count b), next_sequence := next_sequence b + 1\<rparr>"

definition at_next :: "jitter_buffer \<Rightarrow> bool" where
  "at_next b \<longleftrightarrow> 0 < slot_count b \<and> slot_valid (slots b ! next_index b) \<and>
     slot_sequence (slots b ! next_index b) = next_sequence b"

lemma jb_read_cases:
  obtains (idle) v where "jb_read b z cap x = (BUFFERING, None, b\<lparr>buffering := v\<rparr>)"
  | (taken) v where "at_next (b\<lparr>buffering := v\<rparr>)" "z = False"
      "length (slot_pcm (slots b ! next_index b)) \<le> cap"
      "jb_read b z cap x = (FRAME, Some (slots b ! next_index b), take_next (b\<lparr>buffering := v\<rparr>))"
  | (dropped) v where "at_next (b\<lparr>buffering := v\<rparr>)"
      "jb_read b z cap x = (MISSING, None, (take_next (b\<lparr>buffering := v\<rparr>))\<lparr>counters := bump_discard (counters b)\<rparr>)"
  | (skipped) v c where "\<not> at_next b" "0 < slot_count b" "valid_count b \<noteq> 0"
      "jb_read b z cap x = (MISSING, None, b\<lparr>buffering := v, counters := c, next_sequence := next_sequence b + 1\<rparr>)"
      "discarded_frames c = discarded_frames (counters b)"
proof -
  have keep: "b\<lparr>buffering := buffering b\<rparr> = b" by simp
  show thesis
  proof (cases "slot_count b = 0 \<or> z \<or> cap = 0 \<or> cap > frame_capacity b")
    case True
    then have "jb_read b z cap x = (BUFFERING, None, b\<lparr>buffering := buffering b\<rparr>)" by (simp add: jb_read_def)
    then show thesis by (rule idle)
  next
    case open1: False
    show thesis
    proof (cases "(\<not> next_sequence_valid b \<or> buffering b) \<and>
              \<not> (next_sequence_valid b \<and> unat (valid_count b) \<ge> prebuffer b)")
      case True
      with open1 have "jb_read b z cap x = (BUFFERING, None, b\<lparr>buffering := buffering b\<rparr>)" by (simp add: jb_read_def)
      then show thesis by (rule idle)
    next
      case open2: False
      let ?b1 = "b\<lparr>buffering := False\<rparr>"
      have b1: "(if buffering b then b\<lparr>buffering := False\<rparr> else b) = ?b1" by simp
      have r: "jb_read b z cap x =
        (if slot_valid (slots b ! next_index b) \<and> slot_sequence (slots b ! next_index b) = next_sequence b then
           (if length (slot_pcm (slots b ! next_index b)) > cap \<or> (x \<and> length (slot_pcm (slots b ! next_index b)) \<noteq> cap)
            then (MISSING, None, (take_next ?b1)\<lparr>counters := bump_discard (counters b)\<rparr>)
            else (FRAME, Some (slots b ! next_index b), take_next ?b1))
         else if valid_count b = 0 then (BUFFERING, None, ?b1)
         else (MISSING, None, b\<lparr>buffering := False,
            counters := (counters b)\<lparr>missing := missing (counters b) + 1\<rparr>, next_sequence := next_sequence b + 1\<rparr>))"
        unfolding jb_read_def Let_def if_not_P [OF open1] if_not_P [OF open2] b1
        by (simp add: take_next_def)
      have n: "0 < slot_count b" using open1 by simp
      show thesis
      proof (cases "slot_valid (slots b ! next_index b) \<and> slot_sequence (slots b ! next_index b) = next_sequence b")
        case True
        then have a: "at_next ?b1" using n by (simp add: at_next_def)
        show thesis
        proof (cases "length (slot_pcm (slots b ! next_index b)) > cap \<or> (x \<and> length (slot_pcm (slots b ! next_index b)) \<noteq> cap)")
          case bad: True
          have "jb_read b z cap x = (MISSING, None, (take_next ?b1)\<lparr>counters := bump_discard (counters b)\<rparr>)"
            unfolding r if_P [OF True] if_P [OF bad] by (rule refl)
          with a show thesis by (rule dropped)
        next
          case ok: False
          have res: "jb_read b z cap x = (FRAME, Some (slots b ! next_index b), take_next ?b1)"
            unfolding r if_P [OF True] if_not_P [OF ok] by (rule refl)
          show thesis by (rule taken [OF a _ _ res]) (use open1 ok in auto)
        qed
      next
        case no: False
        show thesis
        proof (cases "valid_count b = 0")
          case True
          have "jb_read b z cap x = (BUFFERING, None, ?b1)"
            unfolding r if_not_P [OF no] if_P [OF True] by (rule refl)
          then show thesis by (rule idle)
        next
          case some: False
          have "\<not> at_next b" using no by (simp add: at_next_def)
          then show thesis
            by (rule skipped [where v = False and c = "(counters b)\<lparr>missing := missing (counters b) + 1\<rparr>"])
              (use n in \<open>simp_all add: r if_not_P [OF no] if_not_P [OF some] some\<close>)
        qed
      qed
    qed
  qed
qed

lemma buffering_simps [simp]:
  "held (b\<lparr>buffering := v\<rparr>) = held b" "at_next (b\<lparr>buffering := v\<rparr>) = at_next b"
  by (simp_all add: held_def at_next_def)

lemma take_next_evict:
  "take_next b = (evict b (next_index b))\<lparr>counters := counters b, next_sequence := next_sequence b + 1\<rparr>"
  by (simp add: take_next_def evict_def)

lemma held_update [simp]:
  "held (b\<lparr>counters := c\<rparr>) = held b" "held (b\<lparr>next_sequence := q\<rparr>) = held b"
  by (simp_all add: held_def)

lemma held_take_next:
  "at_next b \<Longrightarrow> mset (held b) = add_mset (slots b ! next_index b) (mset (held (take_next b)))"
  unfolding take_next_evict held_update by (rule held_evict) (auto simp: at_next_def)

lemma advance_inv:
  assumes inv: "jb_inv b" and ne: "\<forall>t\<in>set (held b). slot_sequence t \<noteq> next_sequence b"
  shows "jb_inv (b\<lparr>next_sequence := next_sequence b + 1\<rparr>)"
proof (rule jb_invI)
  show "slots_local (b\<lparr>next_sequence := next_sequence b + 1\<rparr>)" using inv by (simp add: jb_inv_def)
  show "counted (b\<lparr>next_sequence := next_sequence b + 1\<rparr>)" using inv by (simp add: jb_inv_def counted_def)
  show "windowed (b\<lparr>next_sequence := next_sequence b + 1\<rparr>)"
    unfolding windowed_def
  proof
    fix t assume "t \<in> set (held (b\<lparr>next_sequence := next_sequence b + 1\<rparr>))"
    then have t: "t \<in> set (held b)" by simp
    let ?d = "slot_sequence t - next_sequence b"
    have "?d \<noteq> 0" using ne t by auto
    then have "unat (?d - 1) = unat ?d - 1" by (simp add: unat_minus_one)
    then have "unat (slot_sequence t - (next_sequence b + 1)) \<le> unat ?d" by (simp add: algebra_simps)
    with held_offset [OF inv t] inv t
    show "next_sequence_valid (b\<lparr>next_sequence := next_sequence b + 1\<rparr>) \<and>
        in_window (slot_count (b\<lparr>next_sequence := next_sequence b + 1\<rparr>))
          (next_sequence (b\<lparr>next_sequence := next_sequence b + 1\<rparr>)) t"
      by (auto simp: in_window_def jb_inv_def windowed_def)
  qed
qed

lemma held_at_next:
  assumes "jb_inv b" and "t \<in> set (held b)" and "slot_sequence t = next_sequence b"
  shows "at_next b \<and> t = slots b ! next_index b"
  using held_slot [of b t] assms by (auto simp: jb_inv_def at_next_def)

lemma take_next_inv:
  assumes inv: "jb_inv b" and at: "at_next b"
  shows "jb_inv (take_next b)"
proof -
  let ?i = "next_index b"
  let ?e = "(evict b ?i)\<lparr>counters := counters b\<rparr>"
  have i: "?i < slot_count b" "slot_valid (slots b ! ?i)" using at by (simp_all add: at_next_def)
  have e: "jb_inv ?e" using evict_inv [OF inv i] by simp
  have idx: "next_sequence ?e = next_sequence b" "next_index ?e = ?i" by (simp_all add: evict_def)
  have gone: "\<not> slot_valid (slots ?e ! ?i)" using i by (simp add: evict_def)
  have "\<forall>t\<in>set (held ?e). slot_sequence t \<noteq> next_sequence ?e"
    using held_at_next [OF e] gone idx by (auto simp: at_next_def)
  from advance_inv [OF e this] show ?thesis by (simp add: take_next_evict idx)
qed

lemma read_inv:
  assumes inv: "jb_inv b"
  shows "jb_inv (snd (snd (jb_read b z cap x)))"
proof (cases rule: jb_read_cases [of b z cap x])
  case (skipped v c)
  have "\<forall>t\<in>set (held b). slot_sequence t \<noteq> next_sequence b"
    using held_at_next [OF inv] skipped(1) by blast
  from advance_inv [OF inv this]
  have "jb_inv (b\<lparr>buffering := v, counters := c, next_sequence := next_sequence b + 1\<rparr>)"
    by (simp add: jb_inv_def slots_local_def windowed_def counted_def held_def)
  then show ?thesis using skipped by simp
qed (use inv take_next_inv in auto)

lemma step_inv: "jb_inv b \<Longrightarrow> jb_inv (jb_step b e)"
  by (cases e) (simp_all add: push_inv read_inv reset_inv)

interpretation jitter: invariant_machine jb_step jb_inv
  by unfold_locales (rule step_inv)


section \<open>Accounting\<close>

text \<open>
  What a push stored and what a read delivered, and over a run. A multiset \<open>D\<close> is what an
  operation discarded; the counter \<open>discarded_frames\<close> grows by its size.
\<close>

definition pushed :: "jitter_buffer \<Rightarrow> frame \<Rightarrow> slot list" where
  "pushed b f = (if fst (jb_push b f) then [store_frame f (the (frame_pcm f)) (place_sequence b f)] else [])"

definition delivered :: "jitter_buffer \<Rightarrow> bool \<Rightarrow> nat \<Rightarrow> bool \<Rightarrow> slot list" where
  "delivered b z cap x = (case fst (snd (jb_read b z cap x)) of Some s \<Rightarrow> [s] | None \<Rightarrow> [])"

fun accepted_by :: "jitter_buffer \<Rightarrow> jb_event list \<Rightarrow> slot list" where
  "accepted_by b [] = []"
| "accepted_by b (e # es) = (case e of Push f \<Rightarrow> pushed b f | _ \<Rightarrow> []) @ accepted_by (jb_step b e) es"

fun delivered_by :: "jitter_buffer \<Rightarrow> jb_event list \<Rightarrow> slot list" where
  "delivered_by b [] = []"
| "delivered_by b (e # es) =
     (case e of Read z cap x \<Rightarrow> delivered b z cap x | _ \<Rightarrow> []) @ delivered_by (jb_step b e) es"

definition loses :: "jitter_buffer \<Rightarrow> jitter_buffer \<Rightarrow> slot multiset \<Rightarrow> bool" where
  "loses b b' D \<longleftrightarrow>
     discarded_frames (counters b') = discarded_frames (counters b) + of_nat (size D)"

lemma partition_list: "mset (filter (\<lambda>x. \<not> P x) xs) + mset (filter P xs) = mset xs"
  by (induction xs) auto

lemma keep_window_loses:
  "\<exists>D. mset (held (keep_window_from r b)) + D = mset (held b) \<and> loses b (keep_window_from r b) D"
proof -
  let ?D = "mset (filter (out_of_window (slot_count b) r) (held b))"
  have "mset (held (keep_window_from r b)) + ?D = mset (held b)"
    unfolding held_keep_window by (rule partition_list)
  moreover have "loses b (keep_window_from r b) ?D"
    unfolding loses_def discarded_keep_window by (simp only: size_mset)
  ultimately show ?thesis by blast
qed

lemma window_move_loses:
  assumes "window_move b q = Some (r, b')"
  shows "\<exists>D. mset (held b') + D = mset (held b) \<and> loses b b' D"
proof -
  consider "b' = b" | x where "b' = keep_window_from x (b\<lparr>next_sequence := x\<rparr>)"
    | x c where "b' = (keep_window_from x (b\<lparr>next_sequence := x\<rparr>))\<lparr>counters := c\<rparr>"
        "discarded_frames c = discarded_frames (counters (keep_window_from x (b\<lparr>next_sequence := x\<rparr>)))"
    using assms by (fastforce simp: window_move_def Let_def split: if_splits)
  then show ?thesis
  proof cases
    case 1
    then show ?thesis by (intro exI [of _ "{#}"]) (simp add: loses_def)
  next
    case (2 x)
    then show ?thesis using keep_window_loses [of x "b\<lparr>next_sequence := x\<rparr>"]
      by (simp add: loses_def)
  next
    case (3 x c)
    then show ?thesis using keep_window_loses [of x "b\<lparr>next_sequence := x\<rparr>"]
      by (simp add: loses_def)
  qed
qed

lemma cleared_loses:
  assumes "i < slot_count b"
  shows "\<exists>D. mset (held (cleared b i)) + D = mset (held b) \<and> loses b (cleared b i) D"
proof (cases "slot_valid (slots b ! i)")
  case True
  then show ?thesis using held_evict [OF assms True]
    by (intro exI [of _ "{#slots b ! i#}"]) (simp add: cleared_def loses_def evict_def [of b])
next
  case False
  then show ?thesis by (intro exI [of _ "{#}"]) (simp add: cleared_def loses_def)
qed

lemma loses_trans: "loses a b D \<Longrightarrow> loses b c E \<Longrightarrow> loses a c (D + E)"
  by (simp add: loses_def)

lemma push_loses:
  assumes inv: "jb_inv b"
  shows "\<exists>D. mset (held (snd (jb_push b f))) + D = mset (held b) + mset (pushed b f) \<and>
    loses b (snd (jb_push b f)) D"
proof (cases rule: jb_push_cases [of b f])
  case refused
  then show ?thesis by (intro exI [of _ "{#}"]) (simp add: pushed_def loses_def)
next
  case (late q)
  then show ?thesis by (intro exI [of _ "{#}"]) (simp add: pushed_def loses_def)
next
  case (duplicate q r b2)
  then show ?thesis using window_move_loses [OF duplicate(1)] by (simp add: pushed_def loses_def)
next
  case (stored q r b2 pcm)
  let ?i = "unat q mod slot_count b2"
  have b2: "jb_inv b2" "slot_count b2 = slot_count b"
    using window_move_inv [of "anchored b q" q r b2] anchored_inv [OF inv, of q] stored(1,2) by auto
  then have i: "?i < slot_count b2" by (metis mod_less_divisor stored(2))
  note c = cleared_inv [OF b2(1) i]
  obtain D where D: "mset (held b2) + D = mset (held b)" "loses b b2 D"
    using window_move_loses [OF stored(1)] by (auto simp: loses_def)
  obtain E where E: "mset (held (cleared b2 ?i)) + E = mset (held b2)" "loses b2 (cleared b2 ?i) E"
    using cleared_loses [OF i] by blast
  have "mset (held (store_at (cleared b2 ?i) (store_frame f pcm q) ?i)) =
      add_mset (store_frame f pcm q) (mset (held (cleared b2 ?i)))"
    using held_store [of ?i "cleared b2 ?i" "store_frame f pcm q"] c i by auto
  moreover have "pushed b f = [store_frame f pcm q]" using stored by (simp add: pushed_def)
  ultimately have "mset (held (snd (jb_push b f))) + (D + E) = mset (held b) + mset (pushed b f)"
    using stored(8) D(1) [symmetric] E(1) [symmetric] by simp
  moreover have "loses b (snd (jb_push b f)) (D + E)"
    using loses_trans [OF D(2) E(2)] stored(8) by (simp add: loses_def store_at_def)
  ultimately show ?thesis by blast
qed

lemma read_loses:
  "\<exists>D. mset (held (snd (snd (jb_read b z cap x)))) + D + mset (delivered b z cap x) = mset (held b) \<and>
    loses b (snd (snd (jb_read b z cap x))) D"
proof (cases rule: jb_read_cases [of b z cap x])
  case (idle v)
  then show ?thesis by (intro exI [of _ "{#}"]) (simp add: delivered_def loses_def)
next
  case (taken v)
  then show ?thesis using held_take_next [OF taken(1)]
    by (intro exI [of _ "{#}"]) (simp add: delivered_def loses_def take_next_def [of "b\<lparr>buffering := v\<rparr>"] held_def)
next
  case (dropped v)
  then show ?thesis using held_take_next [OF dropped(1)]
    by (intro exI [of _ "{#slots b ! next_index b#}"]) (simp add: delivered_def loses_def)
next
  case (skipped v c)
  then show ?thesis by (intro exI [of _ "{#}"]) (simp add: delivered_def loses_def held_def)
qed

lemma regroup:
  fixes x :: "'a multiset"
  assumes "x + d + y = h + a" and "h + e = p"
  shows "x + (d + e) + y = p + a"
proof -
  have "x + (d + e) + y = (x + d + y) + e" by (simp add: ac_simps)
  also have "\<dots> = (h + e) + a" unfolding assms(1) by (simp add: ac_simps)
  finally show ?thesis by (simp only: assms(2))
qed

lemma run_loses:
  assumes "jb_inv b" and "Reset \<notin> set es"
  shows "\<exists>D. mset (held (foldl jb_step b es)) + D + mset (delivered_by b es) =
      mset (held b) + mset (accepted_by b es) \<and> loses b (foldl jb_step b es) D"
  using assms
proof (induction es arbitrary: b)
  case Nil
  then show ?case by (intro exI [of _ "{#}"]) (simp add: loses_def)
next
  case (Cons e es)
  let ?b = "jb_step b e"
  obtain D where D: "mset (held (foldl jb_step ?b es)) + D + mset (delivered_by ?b es) =
      mset (held ?b) + mset (accepted_by ?b es)" "loses ?b (foldl jb_step ?b es) D"
    using Cons.IH [of ?b] step_inv [OF Cons.prems(1), of e] Cons.prems(2) by auto
  show ?case
  proof (cases e)
    case (Push f)
    obtain E where E: "mset (held ?b) + E = mset (held b) + mset (pushed b f)" "loses b ?b E"
      using push_loses [OF Cons.prems(1), of f] Push by auto
    have "mset (held (foldl jb_step ?b es)) + (D + E) + mset (delivered_by ?b es) =
        mset (held b) + mset (pushed b f) + mset (accepted_by ?b es)"
      by (rule regroup [OF D(1) E(1)])
    then show ?thesis
      using loses_trans [OF E(2) D(2)] Push
      by (intro exI [of _ "D + E"]) (simp add: ac_simps)
  next
    case (Read z cap x)
    obtain E where E: "mset (held ?b) + E + mset (delivered b z cap x) = mset (held b)" "loses b ?b E"
      using read_loses [of b z cap x] Read by auto
    have "mset (held (foldl jb_step ?b es)) + (D + (E + mset (delivered b z cap x))) + mset (delivered_by ?b es) =
        mset (held b) + mset (accepted_by ?b es)"
      by (rule regroup [OF D(1)]) (use E(1) in \<open>simp add: ac_simps\<close>)
    then show ?thesis
      using loses_trans [OF E(2) D(2)] Read
      by (intro exI [of _ "D + E"]) (simp add: ac_simps)
  next
    case Reset
    with Cons.prems show ?thesis by simp
  qed
qed


section \<open>Playout order\<close>

text \<open>Reads alone, once playout has started, with room for any frame.\<close>

fun drain :: "nat \<Rightarrow> jitter_buffer \<Rightarrow> slot list" where
  "drain 0 b = []"
| "drain (Suc k) b =
     delivered b False (frame_capacity b) False @
     drain k (snd (snd (jb_read b False (frame_capacity b) False)))"

abbreviation offset :: "jitter_buffer \<Rightarrow> slot \<Rightarrow> nat" where
  "offset b s \<equiv> unat (slot_sequence s - next_sequence b)"

lemma offset_0: "offset b s = 0 \<longleftrightarrow> slot_sequence s = next_sequence b"
  by (simp add: unat_eq_0)

lemma offset_advance:
  "slot_sequence t \<noteq> next_sequence b \<Longrightarrow>
   unat (slot_sequence t - (next_sequence b + 1)) = offset b t - 1"
proof -
  assume "slot_sequence t \<noteq> next_sequence b"
  then have "slot_sequence t - next_sequence b \<noteq> 0" by simp
  from unat_minus_one [OF this] show ?thesis by (simp add: algebra_simps)
qed

lemma read_started:
  assumes inv: "jb_inv b" and st: "\<not> buffering b" "next_sequence_valid b"
    and cap: "0 < frame_capacity b" "0 < slot_count b"
  shows "jb_read b False (frame_capacity b) False =
    (if at_next b then (FRAME, Some (slots b ! next_index b), take_next b)
     else if held b = [] then (BUFFERING, None, b)
     else (MISSING, None, b\<lparr>counters := (counters b)\<lparr>missing := missing (counters b) + 1\<rparr>,
             next_sequence := next_sequence b + 1\<rparr>))"
proof -
  have sl: "slots_local b" and vc: "unat (valid_count b) = length (held b)"
    using inv by (simp_all add: jb_inv_def counted_unat)
  have he: "valid_count b = 0 \<longleftrightarrow> held b = []" using vc by (simp add: unat_eq_0 [symmetric])
  have nf: "\<not> length (slot_pcm (slots b ! next_index b)) > frame_capacity b" if "at_next b"
  proof -
    have "slots b ! next_index b \<in> set (held b)" using that by (auto simp: at_next_def intro: held_in)
    from held_slot [OF sl this] show ?thesis by simp
  qed
  show ?thesis
  proof (cases "at_next b")
    case True
    with nf st cap show ?thesis
      by (simp add: jb_read_def Let_def take_next_def at_next_def)
  next
    case False
    with st cap he show ?thesis by (simp add: jb_read_def Let_def at_next_def take_next_def)
  qed
qed

lemma drain_empty:
  "jb_inv b \<Longrightarrow> \<not> buffering b \<Longrightarrow> next_sequence_valid b \<Longrightarrow> 0 < frame_capacity b \<Longrightarrow>
   0 < slot_count b \<Longrightarrow> held b = [] \<Longrightarrow> drain k b = []"
proof (induction k)
  case (Suc k)
  have "\<not> at_next b" using held_in [of "next_index b" b] Suc.prems by (auto simp: at_next_def)
  with Suc show ?case by (simp add: delivered_def read_started)
qed simp

lemma drain_spec:
  assumes "jb_inv b" "\<not> buffering b" "next_sequence_valid b" "0 < frame_capacity b" "0 < slot_count b"
  shows "sorted_wrt (\<lambda>s t. offset b s < offset b t) (drain k b) \<and>
    mset (drain k b) = filter_mset (\<lambda>s. offset b s < k) (mset (held b))"
  using assms
proof (induction k arbitrary: b)
  case 0
  then show ?case by simp
next
  case (Suc k)
  note inv = Suc.prems(1)
  show ?case
  proof (cases "at_next b")
    case True
    let ?s = "slots b ! next_index b" and ?b = "take_next b"
    have s0: "offset b ?s = 0" using True by (simp add: at_next_def)
    have m: "mset (held b) = add_mset ?s (mset (held ?b))" by (rule held_take_next [OF True])
    have inv': "jb_inv ?b" by (rule take_next_inv [OF inv True])
    have same: "\<not> buffering ?b" "next_sequence_valid ?b" "0 < frame_capacity ?b" "0 < slot_count ?b"
      "next_sequence ?b = next_sequence b + 1" using Suc.prems by (simp_all add: take_next_def)
    note IH = Suc.IH [OF inv' same(1-4)]
    have gone: "\<not> slot_valid (slots ?b ! next_index b)"
      using True by (simp add: take_next_def at_next_def)
    have off: "offset b t = Suc (offset ?b t)" if t: "t \<in> set (held ?b)" for t
    proof -
      have "slot_sequence t \<noteq> next_sequence b"
      proof
        assume eq: "slot_sequence t = next_sequence b"
        have "slots ?b ! (unat (slot_sequence t) mod slot_count ?b) = t" "slot_valid t"
          using held_slot [of ?b t] inv' t by (simp_all add: jb_inv_def)
        with gone eq show False by (simp add: take_next_def)
      qed
      with offset_advance [OF this] offset_0 [of t b] same(5) show ?thesis by simp
    qed
    have d: "drain (Suc k) b = ?s # drain k ?b"
      using True Suc.prems by (simp add: delivered_def read_started)
    have sub: "set (drain k ?b) \<subseteq> set (held ?b)"
      using arg_cong [OF conjunct2 [OF IH], of set_mset] by auto
    have "sorted_wrt (\<lambda>s t. offset b s < offset b t) (drain k ?b)"
      by (rule sorted_wrt_mono_rel [OF _ conjunct1 [OF IH]]) (simp add: off [OF subsetD [OF sub]])
    moreover have "filter_mset (\<lambda>s. offset b s < Suc k) (mset (held ?b)) =
        filter_mset (\<lambda>s. offset ?b s < k) (mset (held ?b))"
      using off by (intro filter_mset_cong) auto
    ultimately show ?thesis
      unfolding d m using IH s0 sub off by auto
  next
    case False
    show ?thesis
    proof (cases "held b = []")
      case True
      with Suc.prems have "drain (Suc k) b = []" by (intro drain_empty)
      with True show ?thesis by (simp del: drain.simps)
    next
      case ne: False
      let ?b = "b\<lparr>counters := (counters b)\<lparr>missing := missing (counters b) + 1\<rparr>,
             next_sequence := next_sequence b + 1\<rparr>"
      have d: "drain (Suc k) b = drain k ?b"
        using False ne Suc.prems by (simp add: delivered_def read_started)
      have nn: "\<forall>t\<in>set (held b). slot_sequence t \<noteq> next_sequence b"
        using held_at_next [OF inv] False by blast
      have inv': "jb_inv ?b"
        using advance_inv [OF inv nn] by (simp add: jb_inv_def slots_local_def windowed_def counted_def held_def)
      have off: "offset b t = Suc (offset ?b t)" if t: "t \<in> set (held b)" for t
        using nn that offset_advance [of t b] offset_0 [of t b] by auto
      have h: "held ?b = held b" by (simp add: held_def)
      have IH: "sorted_wrt (\<lambda>s t. offset ?b s < offset ?b t) (drain k ?b)"
        "mset (drain k ?b) = filter_mset (\<lambda>s. offset ?b s < k) (mset (held b))"
        using Suc.IH [OF inv'] Suc.prems h by simp_all
      have sub: "set (drain k ?b) \<subseteq> set (held b)"
        using arg_cong [OF IH(2), of set_mset] by auto
      have "sorted_wrt (\<lambda>s t. offset b s < offset b t) (drain k ?b)"
        by (rule sorted_wrt_mono_rel [OF _ IH(1)]) (simp add: off [OF subsetD [OF sub]])
      moreover have "filter_mset (\<lambda>s. offset b s < Suc k) (mset (held b)) =
          filter_mset (\<lambda>s. offset ?b s < k) (mset (held b))"
        using off by (intro filter_mset_cong) auto
      ultimately show ?thesis unfolding d using IH(2) by simp
    qed
  qed
qed

lemma drain_all:
  assumes "jb_inv b" "\<not> buffering b" "next_sequence_valid b" "0 < frame_capacity b" "0 < slot_count b"
  shows "sorted_wrt (\<lambda>s t. offset b s < offset b t) (drain (slot_count b) b) \<and>
    mset (drain (slot_count b) b) = mset (held b)"
proof -
  have "filter_mset (\<lambda>s. offset b s < slot_count b) (mset (held b)) = mset (held b)"
    using held_offset [OF assms(1)] by (simp add: filter_mset_eq_conv)
  with drain_spec [OF assms, of "slot_count b"] show ?thesis by simp
qed


section \<open>Refinement of a window of frames\<close>

text \<open>
  Abstractly the buffer is a finite map from sequence numbers to frames, the next sequence
  number once there is one, and whether playout waits. Nothing is said of slots: that two
  sequence numbers of a window never compete for a slot is what the refinement shows, for slot
  counts that divide the 65536 sequence numbers (the configured sixteen do).
\<close>

record window =
  w_frames :: "u16 \<Rightarrow> slot option"
  w_next :: "u16 option"
  w_buffering :: bool

definition frame_at :: "jitter_buffer \<Rightarrow> u16 \<Rightarrow> slot option" where
  "frame_at b q =
     (let s = slots b ! (unat q mod slot_count b) in
      if 0 < slot_count b \<and> slot_valid s \<and> slot_sequence s = q then Some s else None)"

definition window_of :: "jitter_buffer \<Rightarrow> window" where
  "window_of b = \<lparr>w_frames = frame_at b,
     w_next = (if next_sequence_valid b then Some (next_sequence b) else None),
     w_buffering = buffering b\<rparr>"

definition restrict_window :: "nat \<Rightarrow> u16 \<Rightarrow> (u16 \<Rightarrow> slot option) \<Rightarrow> (u16 \<Rightarrow> slot option)" where
  "restrict_window n r m = (\<lambda>q. if unat (q - r) < n then m q else None)"

definition nearest :: "nat \<Rightarrow> u16 \<Rightarrow> (u16 \<Rightarrow> slot option) \<Rightarrow> u16" where
  "nearest n r m = (case find (\<lambda>i. m (r + of_nat i) \<noteq> None) [0..<n] of Some i \<Rightarrow> r + of_nat i | None \<Rightarrow> r)"

definition window_place :: "nat \<Rightarrow> nat \<Rightarrow> window \<Rightarrow> u16 \<Rightarrow> u16 \<Rightarrow> (bool \<times> u16 \<times> (u16 \<Rightarrow> slot option)) option" where
  "window_place n pre w r q =
     (let delta = sequence_delta q r; start = q - of_nat (if n > pre then n - pre else 1) + 1 in
      if delta < 0 then (if w_buffering w \<and> delta > - int n
                         then Some (False, q, restrict_window n q (w_frames w)) else None)
      else if delta \<ge> int n then Some (True, start, restrict_window n start (w_frames w))
      else Some (False, r, w_frames w))"

definition window_push :: "nat \<Rightarrow> nat \<Rightarrow> window \<Rightarrow> frame \<Rightarrow> bytes \<Rightarrow> bool \<times> window" where
  "window_push n pre w f pcm =
     (let q = (if frame_has_metadata f then frame_sequence f
               else case w_next w of Some r \<Rightarrow> r + of_nat (card (dom (w_frames w))) | None \<Rightarrow> 0);
          r = (case w_next w of Some r \<Rightarrow> r | None \<Rightarrow> q)
      in case window_place n pre w r q of
           None \<Rightarrow> (False, w\<lparr>w_next := Some r\<rparr>)
         | Some (realigned, start, m) \<Rightarrow>
             if m q \<noteq> None then (False, w\<lparr>w_next := Some start, w_frames := m\<rparr>)
             else
               let m' = m(q \<mapsto> store_frame f pcm q);
                   waiting = card (dom m') < pre
               in (True, \<lparr>w_frames = m',
                          w_next = Some (if realigned then nearest n start m' else start),
                          w_buffering = (if realigned then waiting else w_buffering w \<and> waiting)\<rparr>))"

lemma frame_at_iff:
  assumes "slots_local b"
  shows "frame_at b q = Some s \<longleftrightarrow> s \<in> set (held b) \<and> slot_sequence s = q"
proof
  assume f: "frame_at b q = Some s"
  let ?i = "unat q mod slot_count b"
  from f have "0 < slot_count b" "slots b ! ?i = s" "slot_valid s" "slot_sequence s = q"
    by (auto simp: frame_at_def Let_def split: if_splits)
  then show "s \<in> set (held b) \<and> slot_sequence s = q"
    using held_in [of ?i b] mod_less_divisor [of "slot_count b" "unat q"] by auto
next
  assume "s \<in> set (held b) \<and> slot_sequence s = q"
  with held_slot [OF assms, of s] show "frame_at b q = Some s"
    by (auto simp: frame_at_def Let_def)
qed

lemma frame_at_eqI:
  assumes "slots_local b" and "\<And>s. m q = Some s \<longleftrightarrow> s \<in> set (held b) \<and> slot_sequence s = q"
  shows "frame_at b q = m q"
  using frame_at_iff [OF assms(1), of q] assms(2) by (metis not_None_eq)

lemma filter_by_index:
  assumes "\<forall>i < length xs. P (xs ! i) \<longrightarrow> g (xs ! i) = i"
  shows "map g (filter P xs) = filter (\<lambda>i. P (xs ! i)) [0..<length xs]"
proof -
  have "filter P xs = map ((!) xs) (filter (\<lambda>i. P (xs ! i)) [0..<length xs])"
    by (metis (no_types, lifting) comp_apply filter_cong filter_map map_nth)
  then have "map g (filter P xs) = map (\<lambda>i. g (xs ! i)) (filter (\<lambda>i. P (xs ! i)) [0..<length xs])"
    by simp
  also have "\<dots> = map (\<lambda>i. i) (filter (\<lambda>i. P (xs ! i)) [0..<length xs])"
    using assms by (intro map_cong) auto
  finally show ?thesis by simp
qed

lemma distinct_held: "slots_local b \<Longrightarrow> distinct (map slot_sequence (held b))"
proof -
  assume sl: "slots_local b"
  have "map (\<lambda>s. unat (slot_sequence s) mod slot_count b) (held b) =
      filter (\<lambda>i. slot_valid (slots b ! i)) [0..<slot_count b]"
    unfolding held_def by (rule filter_by_index) (use sl in \<open>auto simp: slots_local_def slot_local_def\<close>)
  then have "distinct (map ((\<lambda>q. unat q mod slot_count b) \<circ> slot_sequence) (held b))"
    by (simp add: o_def)
  then show ?thesis unfolding map_map [symmetric] by (rule distinct_map [THEN iffD1, THEN conjunct1])
qed

lemma dom_frame_at: "slots_local b \<Longrightarrow> dom (frame_at b) = slot_sequence ` set (held b)"
  using frame_at_iff by (auto simp: dom_def)

lemma card_frame_at: "slots_local b \<Longrightarrow> card (dom (frame_at b)) = length (held b)"
  by (metis distinct_card distinct_held dom_frame_at length_map list.set_map)

lemma same_slot_same_sequence:
  fixes q q' r :: u16
  assumes n: "n dvd 65536" "0 < n"
    and w: "unat (q - r) < n" "unat (q' - r) < n" and i: "unat q mod n = unat q' mod n"
  shows "q = q'"
proof -
  have m: "unat (x - r) mod n = (unat x + (65536 - unat r)) mod n" for x :: u16
  proof (cases "unat r \<le> unat x")
    case True
    obtain k where k: "65536 = n * k" using n(1) by blast
    have "unat x + (65536 - unat r) = (unat x - unat r) + n * k"
      using True k [symmetric] unat_u16_le [of r] by linarith
    moreover have "unat (x - r) = unat x - unat r" using True by (simp add: unat_sub_if')
    ultimately show ?thesis by simp
  next
    case False
    then have "unat (x - r) = unat x + (65536 - unat r)"
      using le_SucI [OF unat_u16_le [of r]] by (simp add: unat_sub_if' Nat.add_diff_assoc)
    then show ?thesis by simp
  qed
  have "unat (q - r) mod n = unat (q' - r) mod n"
    unfolding m using i by (metis mod_add_left_eq)
  then have "unat (q - r) = unat (q' - r)" using w by simp
  then have "q - r = q' - r" by (rule unsigned_word_eqI)
  then show ?thesis by simp
qed


lemma frame_at_keep:
  assumes "slots_local b"
  shows "frame_at (keep_window_from r b) = restrict_window (slot_count b) r (frame_at b)"
proof
  fix q
  have n: "slot_count b \<le> 16" using assms by (simp add: slots_local_def MAX_SLOTS_def)
  have sl: "slots_local (keep_window_from r b)"
    using assms trim_local by (simp add: slots_local_def)
  show "frame_at (keep_window_from r b) q = restrict_window (slot_count b) r (frame_at b) q"
    by (rule frame_at_eqI [OF sl])
      (auto simp: held_keep_window restrict_window_def frame_at_iff [OF assms] out_of_window_iff [OF n]
        in_window_def)
qed

lemma frame_at_update [simp]:
  "frame_at (b\<lparr>counters := c\<rparr>) = frame_at b" "frame_at (b\<lparr>next_sequence := q\<rparr>) = frame_at b"
  "frame_at (settle r b) = frame_at b" "frame_at (anchored b q) = frame_at b"
  by (simp_all add: frame_at_def fun_eq_iff)

lemma window_move_place:
  assumes "jb_inv b" and "next_sequence_valid b"
  shows "(case window_move b q of None \<Rightarrow> None | Some (r, b') \<Rightarrow> Some (r, next_sequence b', frame_at b')) =
    window_place (slot_count b) (prebuffer b) (window_of b) (next_sequence b) q"
proof -
  have sl: "slots_local b" using assms(1) by (simp add: jb_inv_def)
  have k: "frame_at (keep_window_from r (b\<lparr>next_sequence := x\<rparr>)) =
      restrict_window (slot_count b) r (frame_at b)" for r x
    using frame_at_keep [of "b\<lparr>next_sequence := x\<rparr>" r] sl by simp
  show ?thesis by (simp add: window_move_def window_place_def Let_def window_of_def k)
qed

lemma window_move_kept:
  "window_move b q = Some (r, b') \<Longrightarrow> buffering b' = buffering b \<and>
     (r \<longrightarrow> \<not> sequence_delta q (next_sequence b) < 0)"
  by (auto simp: window_move_def Let_def split: if_splits)

lemma free_slot:
  assumes inv: "jb_inv b" and n: "slot_count b dvd 65536" "0 < slot_count b"
    and w: "unat (q - next_sequence b) < slot_count b"
  shows "(slot_valid (slots b ! (unat q mod slot_count b)) \<and>
          slot_sequence (slots b ! (unat q mod slot_count b)) = q) = (frame_at b q \<noteq> None) \<and>
    (slot_valid (slots b ! (unat q mod slot_count b)) \<longrightarrow> frame_at b q \<noteq> None)"
proof -
  let ?s = "slots b ! (unat q mod slot_count b)"
  have sl: "slots_local b" using inv by (simp add: jb_inv_def)
  have "slot_sequence ?s = q" if v: "slot_valid ?s"
  proof -
    have h: "?s \<in> set (held b)" by (rule held_in) (use n v in auto)
    have "unat (slot_sequence ?s) mod slot_count b = unat q mod slot_count b"
      using sl v n(2) by (auto simp: slots_local_def slot_local_def)
    then show ?thesis
      using same_slot_same_sequence [OF n held_offset [OF inv h] w] by simp
  qed
  then show ?thesis using n(2) by (auto simp: frame_at_def Let_def)
qed

lemma frame_at_store:
  assumes sl: "slots_local b" and i: "0 < slot_count b" "i = unat q mod slot_count b"
    and v: "\<not> slot_valid (slots b ! i)" "slot_valid s" "slot_sequence s = q"
  shows "frame_at (store_at b s i) = (frame_at b)(q \<mapsto> s)"
proof
  fix x
  show "frame_at (store_at b s i) x = ((frame_at b)(q \<mapsto> s)) x"
  proof (cases "unat x mod slot_count b = i")
    case True
    then have "slots (store_at b s i) ! (unat x mod slot_count b) = s"
      using i mod_less_divisor [OF i(1), of "unat q"] by (simp add: store_at_def)
    then show ?thesis using True i v by (auto simp: frame_at_def Let_def store_at_def)
  next
    case False
    then have "x \<noteq> q" using i by auto
    with False show ?thesis by (simp add: frame_at_def Let_def store_at_def nth_list_update)
  qed
qed

lemma first_survivor_nearest:
  "0 < slot_count b \<Longrightarrow> first_survivor b = nearest (slot_count b) (next_sequence b) (frame_at b)"
  by (simp add: first_survivor_def nearest_def frame_at_def Let_def if_distrib cong: if_cong)


lemma place_sequence_window:
  assumes "jb_inv b"
  shows "place_sequence b f = (if frame_has_metadata f then frame_sequence f
     else case w_next (window_of b) of Some r \<Rightarrow> r + of_nat (card (dom (w_frames (window_of b)))) | None \<Rightarrow> 0)"
proof -
  have sl: "slots_local b" and c: "unat (valid_count b) = card (dom (frame_at b))"
    using assms by (simp_all add: jb_inv_def counted_unat card_frame_at)
  have "(ucast (valid_count b) :: u16) = of_nat (card (dom (frame_at b)))"
    unfolding c [symmetric] by simp
  then show ?thesis by (simp add: place_sequence_def window_of_def)
qed

lemma window_push_unfold:
  assumes inv: "jb_inv b" and q: "q = place_sequence b f"
  shows "window_push n pre (window_of b) f pcm =
    (case window_place n pre (window_of (anchored b q)) (next_sequence (anchored b q)) q of
       None \<Rightarrow> (False, window_of (anchored b q))
     | Some (realigned, start, m) \<Rightarrow>
         if m q \<noteq> None then (False, (window_of b)\<lparr>w_next := Some start, w_frames := m\<rparr>)
         else
           let m' = m(q \<mapsto> store_frame f pcm q); waiting = card (dom m') < pre
           in (True, \<lparr>w_frames = m', w_next = Some (if realigned then nearest n start m' else start),
                      w_buffering = (if realigned then waiting else buffering b \<and> waiting)\<rparr>))"
proof -
  have r: "(case w_next (window_of b) of Some r \<Rightarrow> r | None \<Rightarrow> q) = next_sequence (anchored b q)"
    by (simp add: window_of_def anchored_def)
  have same: "w_frames (window_of (anchored b q)) = w_frames (window_of b)"
      "w_buffering (window_of (anchored b q)) = w_buffering (window_of b)"
    by (simp_all add: window_of_def) (simp add: anchored_def)
  have w: "window_place n pre (window_of (anchored b q)) x y = window_place n pre (window_of b) x y" for x y
    by (simp only: window_place_def same)
  have a: "(window_of b)\<lparr>w_next := Some (next_sequence (anchored b q))\<rparr> = window_of (anchored b q)"
    by (simp add: window_of_def) (simp add: anchored_def)
  have bf: "w_buffering (window_of b) = buffering b" by (simp add: window_of_def)
  show ?thesis
    unfolding window_push_def Let_def place_sequence_window [OF inv, of f, symmetric] q [symmetric] r w a bf ..
qed

lemma push_refines:
  assumes inv: "jb_inv b" and n: "slot_count b dvd 65536" "0 < slot_count b"
    and f: "frame_pcm f = Some pcm" "pcm \<noteq> []" "length pcm \<le> frame_capacity b"
  shows "(fst (jb_push b f), window_of (snd (jb_push b f))) =
    window_push (slot_count b) (prebuffer b) (window_of b) f pcm"
proof -
  define q where "q = place_sequence b f"
  define b1 where "b1 = anchored b q"
  have b1: "jb_inv b1" "next_sequence_valid b1" "slot_count b1 = slot_count b"
      "prebuffer b1 = prebuffer b" "buffering b1 = buffering b"
    using anchored_inv [OF inv, of q] by (simp_all add: b1_def) (simp add: anchored_def)
  have push: "jb_push b f = (case window_move b1 q of
       None \<Rightarrow> (False, b1\<lparr>counters := (counters b1)\<lparr>late := late (counters b1) + 1\<rparr>\<rparr>)
     | Some (realigned, b2) \<Rightarrow>
         if slot_valid (slots b2 ! (unat q mod slot_count b2)) \<and>
            slot_sequence (slots b2 ! (unat q mod slot_count b2)) = q then
           (False, b2\<lparr>counters := (counters b2)\<lparr>duplicates := duplicates (counters b2) + 1\<rparr>\<rparr>)
         else (True, settle realigned (store_at (cleared b2 (unat q mod slot_count b2))
                (store_frame f pcm q) (unat q mod slot_count b2))))"
    unfolding jb_push_def Let_def cleared_def b1_def anchored_def [symmetric] q_def
    using f n by (simp add: not_less del: anchored_simps)
  note place = window_move_place [OF b1(1,2), of q, unfolded b1(3,4)]
  note unf = window_push_unfold [OF inv q_def, of "slot_count b" "prebuffer b" pcm, folded b1_def]
  show ?thesis
  proof (cases "window_move b1 q")
    case None
    then show ?thesis unfolding unf place [symmetric] push by (simp add: window_of_def)
  next
    case (Some rb)
    obtain r b2 where rb: "rb = (r, b2)" by (cases rb) simp
    note wm = Some [unfolded rb]
    have b2: "jb_inv b2" "next_sequence_valid b2" "unat (q - next_sequence b2) < slot_count b2"
        "slot_count b2 = slot_count b" "frame_capacity b2 = frame_capacity b" "prebuffer b2 = prebuffer b"
      using window_move_inv [OF b1(1,2) wm] b1(3,4) n by (auto simp: b1_def)
    have bf: "buffering b2 = buffering b" using window_move_kept [OF wm] b1(5) by simp
    let ?i = "unat q mod slot_count b2"
    have n2: "slot_count b2 dvd 65536" "0 < slot_count b2" using n b2(4) by simp_all
    then have i: "?i < slot_count b2" by simp
    note free = free_slot [OF b2(1) n2 b2(3)]
    show ?thesis
    proof (cases "frame_at b2 q = None")
      case False
      with free have dup: "slot_valid (slots b2 ! ?i) \<and> slot_sequence (slots b2 ! ?i) = q" by blast
      show ?thesis
        unfolding unf place [symmetric] push wm
        using dup False b2(2) bf by (auto simp: window_of_def)
    next
      case True
      with free have nv: "\<not> slot_valid (slots b2 ! ?i)" by blast
      let ?b3 = "store_at b2 (store_frame f pcm q) ?i"
      have fa: "frame_at ?b3 = (frame_at b2)(q \<mapsto> store_frame f pcm q)"
        by (rule frame_at_store) (use b2(1) n2 nv in \<open>simp_all add: jb_inv_def\<close>)
      have inv3: "jb_inv ?b3"
        by (rule store_inv) (use b2 i nv f in \<open>auto simp: in_window_def\<close>)
      have c3: "unat (valid_count ?b3) = card (dom ((frame_at b2)(q \<mapsto> store_frame f pcm q)))"
        using inv3 by (simp add: fa [symmetric] jb_inv_def counted_unat card_frame_at)
      have same: "next_sequence ?b3 = next_sequence b2" "next_sequence_valid ?b3" "prebuffer ?b3 = prebuffer b"
          "buffering ?b3 = buffering b" "slot_count ?b3 = slot_count b"
        using b2 bf by (simp_all add: store_at_def)
      have fs: "first_survivor ?b3 = nearest (slot_count b) (next_sequence b2) ((frame_at b2)(q \<mapsto> store_frame f pcm q))"
        using first_survivor_nearest [of ?b3] same n by (simp add: fa)
      have w: "window_of (settle r ?b3) =
          \<lparr>w_frames = (frame_at b2)(q \<mapsto> store_frame f pcm q),
           w_next = Some (if r then first_survivor ?b3 else next_sequence b2),
           w_buffering = (if r then card (dom ((frame_at b2)(q \<mapsto> store_frame f pcm q))) < prebuffer b
             else buffering b \<and> card (dom ((frame_at b2)(q \<mapsto> store_frame f pcm q))) < prebuffer b)\<rparr>"
        using same c3 by (simp add: window_of_def fa) (auto simp: settle_def not_le)
      have p: "jb_push b f = (True, settle r ?b3)"
        unfolding push wm using nv by (simp add: cleared_def)
      show ?thesis
        unfolding unf place [symmetric] p wm
        using True w fs by (simp add: Let_def)
    qed
  qed
qed


definition window_read ::
    "nat \<Rightarrow> nat \<Rightarrow> window \<Rightarrow> bool \<Rightarrow> nat \<Rightarrow> bool \<Rightarrow> read_result \<times> slot option \<times> window" where
  "window_read pre fcap w null_out cap exact =
     (case w_next w of
        None \<Rightarrow> (BUFFERING, None, w)
      | Some r \<Rightarrow>
          if null_out \<or> cap = 0 \<or> cap > fcap \<or> (w_buffering w \<and> card (dom (w_frames w)) < pre)
          then (BUFFERING, None, w)
          else
            let playing = w\<lparr>w_buffering := False\<rparr>; advanced = playing\<lparr>w_next := Some (r + 1)\<rparr> in
            case w_frames w r of
              Some s \<Rightarrow>
                let w' = advanced\<lparr>w_frames := (w_frames w)(r := None)\<rparr> in
                if length (slot_pcm s) > cap \<or> (exact \<and> length (slot_pcm s) \<noteq> cap)
                then (MISSING, None, w') else (FRAME, Some s, w')
            | None \<Rightarrow> if dom (w_frames w) = {} then (BUFFERING, None, playing) else (MISSING, None, advanced))"

lemma frame_at_next:
  "0 < slot_count b \<Longrightarrow> frame_at b (next_sequence b) = (if at_next b then Some (slots b ! next_index b) else None)"
  by (auto simp: frame_at_def at_next_def Let_def)

lemma frame_at_take_next:
  assumes "at_next b"
  shows "frame_at (take_next b) = (frame_at b)(next_sequence b := None)"
proof
  fix x
  have i: "next_index b < slot_count b" using assms by (simp add: at_next_def)
  show "frame_at (take_next b) x = ((frame_at b)(next_sequence b := None)) x"
  proof (cases "unat x mod slot_count b = next_index b")
    case True
    then show ?thesis using i assms by (auto simp: frame_at_def take_next_def Let_def at_next_def)
  next
    case False
    then have "x \<noteq> next_sequence b" by auto
    with False show ?thesis by (simp add: frame_at_def take_next_def Let_def nth_list_update)
  qed
qed

lemma read_refines:
  assumes inv: "jb_inv b" and n: "0 < slot_count b"
  shows "(case jb_read b z cap x of (r, s, b') \<Rightarrow> (r, s, window_of b')) =
    window_read (prebuffer b) (frame_capacity b) (window_of b) z cap x"
proof -
  have sl: "slots_local b" and vc: "unat (valid_count b) = card (dom (frame_at b))"
    using inv by (simp_all add: jb_inv_def counted_unat card_frame_at)
  have he: "valid_count b = 0 \<longleftrightarrow> dom (frame_at b) = {}"
    using vc by (metis card_0_eq dom_frame_at finite_imageI finite_set sl unat_0 unat_eq_0)
  have bf: "frame_at (b\<lparr>buffering := v\<rparr>) = frame_at b" for v by (simp add: frame_at_def fun_eq_iff)
  consider (closed) "z \<or> cap = 0 \<or> cap > frame_capacity b \<or> \<not> next_sequence_valid b \<or>
      (buffering b \<and> card (dom (frame_at b)) < prebuffer b)"
    | (started) "\<not> z" "cap \<noteq> 0" "\<not> cap > frame_capacity b" "next_sequence_valid b"
      "buffering b \<Longrightarrow> \<not> card (dom (frame_at b)) < prebuffer b" by blast
  then show ?thesis
  proof cases
    case closed
    then show ?thesis using vc by (auto simp: jb_read_def window_read_def window_of_def not_le)
  next
    case started
    let ?b = "b\<lparr>buffering := False\<rparr>"
    have r: "jb_read b z cap x =
      (if at_next b then
         (if length (slot_pcm (slots b ! next_index b)) > cap \<or> (x \<and> length (slot_pcm (slots b ! next_index b)) \<noteq> cap)
          then (MISSING, None, (take_next ?b)\<lparr>counters := bump_discard (counters b)\<rparr>)
          else (FRAME, Some (slots b ! next_index b), take_next ?b))
       else if valid_count b = 0 then (BUFFERING, None, ?b)
       else (MISSING, None, ?b\<lparr>counters := (counters b)\<lparr>missing := missing (counters b) + 1\<rparr>,
            next_sequence := next_sequence b + 1\<rparr>))"
      using started n vc
      by (cases "buffering b") (simp_all add: jb_read_def Let_def at_next_def take_next_def not_less)
    have wr: "window_read (prebuffer b) (frame_capacity b) (window_of b) z cap x =
      (case frame_at b (next_sequence b) of
         Some s \<Rightarrow>
           if length (slot_pcm s) > cap \<or> (x \<and> length (slot_pcm s) \<noteq> cap)
           then (MISSING, None, \<lparr>w_frames = (frame_at b)(next_sequence b := None),
                  w_next = Some (next_sequence b + 1), w_buffering = False\<rparr>)
           else (FRAME, Some s, \<lparr>w_frames = (frame_at b)(next_sequence b := None),
                  w_next = Some (next_sequence b + 1), w_buffering = False\<rparr>)
       | None \<Rightarrow> if dom (frame_at b) = {}
                then (BUFFERING, None, \<lparr>w_frames = frame_at b, w_next = Some (next_sequence b), w_buffering = False\<rparr>)
                else (MISSING, None, \<lparr>w_frames = frame_at b, w_next = Some (next_sequence b + 1), w_buffering = False\<rparr>))"
      using started by (auto simp: window_read_def window_of_def Let_def split: option.splits)
    show ?thesis
    proof (cases "at_next b")
      case True
      have f: "frame_at (take_next ?b) = (frame_at b)(next_sequence b := None)"
        using frame_at_take_next [of ?b] True by (simp add: bf)
      have nx: "next_sequence (take_next ?b) = next_sequence b + 1" "next_sequence_valid (take_next ?b)"
        "\<not> buffering (take_next ?b)" using started by (simp_all add: take_next_def)
      show ?thesis unfolding r wr frame_at_next [OF n] using True f nx by (simp add: window_of_def)
    next
      case False
      have f: "frame_at (?b\<lparr>counters := c, next_sequence := q\<rparr>) = frame_at b" for c q
        by (simp add: frame_at_def fun_eq_iff)
      show ?thesis unfolding r wr frame_at_next [OF n] using False he started f bf by (simp add: window_of_def)
    qed
  qed
qed


section \<open>Properties\<close>

definition rtp_frame :: "u16 \<Rightarrow> frame" where
  "rtp_frame q = \<lparr>frame_pcm = Some [1, 2], frame_sequence = q, frame_timestamp = ucast q * 160,
     frame_has_metadata = True, frame_source_changed = False, frame_format_packed = 0\<rparr>"

text \<open>
  C22: Whatever packets and reads arrive in whatever order, the jitter buffer stays well formed: it
  holds at most sixteen frames, no two with one sequence number, each in the slot of its number,
  inside the window of slots from the next number to play, with between one byte and a frame's
  capacity; and the reported depth is exactly the number of frames held.
\<close>

theorem jitter_buffer_wellformed:
  "let b = foldl jb_step (jb_init capacity n pre) es in
    jb_inv b \<and> unat (jb_depth b) = length (held b) \<and> length (held b) \<le> 16 \<and>
    distinct (map slot_sequence (held b)) \<and>
    (\<forall>s\<in>set (held b). slots b ! (unat (slot_sequence s) mod slot_count b) = s \<and>
       unat (slot_sequence s - next_sequence b) < slot_count b \<and>
       0 < length (slot_pcm s) \<and> length (slot_pcm s) \<le> frame_capacity b)"
proof -
  let ?b = "foldl jb_step (jb_init capacity n pre) es"
  have inv: "jb_inv ?b" by (rule jitter.run_inv [OF init_inv])
  then have sl: "slots_local ?b" and n: "slot_count ?b \<le> 16" and c: "counted ?b"
    by (simp_all add: jb_inv_def slots_local_def MAX_SLOTS_def)
  show ?thesis
    unfolding Let_def
    using inv counted_unat [OF sl c] length_held [of ?b] n distinct_held [OF sl] held_slot [OF sl]
      held_offset [OF inv] by (auto simp: jb_depth_def)
qed

theorem jitter_buffer_wellformed_witness:
  "length (held (foldl jb_step (jb_init 640 16 4) [Push (rtp_frame 7), Push (rtp_frame 9), Read False 640 False])) = 2"
proof -
  let ?b = "foldl jb_step (jb_init 640 16 4) [Push (rtp_frame 7), Push (rtp_frame 9), Read False 640 False]"
  have "unat (jb_depth ?b) = 2" by code_simp
  with jitter_buffer_wellformed [of 640 16 4 "[Push (rtp_frame 7), Push (rtp_frame 9), Read False 640 False]"]
  show ?thesis unfolding Let_def by simp
qed

text \<open>
  C34: No frame is invented, duplicated or lost without trace: over any run without a reset, the
  frames delivered together with those still held are among the frames accepted (as a multiset,
  payload and metadata included), and the counter of discarded frames has grown by exactly the
  number of the others.
\<close>

theorem jitter_frames_accounted:
  assumes "Reset \<notin> set es"
  shows "\<exists>D. mset (accepted_by (jb_init capacity n pre) es) =
      mset (delivered_by (jb_init capacity n pre) es) +
      mset (held (foldl jb_step (jb_init capacity n pre) es)) + D \<and>
    discarded_frames (counters (foldl jb_step (jb_init capacity n pre) es)) = of_nat (size D)"
proof -
  let ?b = "foldl jb_step (jb_init capacity n pre) es"
  have h0: "held (jb_init capacity n pre) = []" "discarded_frames (counters (jb_init capacity n pre)) = 0"
    by (simp_all add: jb_init_def Let_def held_def empty_slot_def no_counters_def)
  from run_loses [OF init_inv assms(1), of capacity n pre] obtain D where
    "mset (held ?b) + D + mset (delivered_by (jb_init capacity n pre) es) = mset (accepted_by (jb_init capacity n pre) es)"
    "discarded_frames (counters ?b) = of_nat (size D)"
    by (auto simp: h0 loses_def)
  then show ?thesis by (intro exI [of _ D]) (simp add: ac_simps)
qed

theorem jitter_frames_accounted_witness:
  "\<exists>D. mset (accepted_by (jb_init 640 16 4) [Push (rtp_frame 7), Push (rtp_frame 60)]) =
      mset (held (foldl jb_step (jb_init 640 16 4) [Push (rtp_frame 7), Push (rtp_frame 60)])) + D \<and>
    size D = 1"
proof -
  let ?es = "[Push (rtp_frame 7), Push (rtp_frame 60)]"
  have r: "Reset \<notin> set ?es" by simp
  have d: "delivered_by (jb_init 640 16 4) ?es = []" by simp
  obtain D where D: "mset (accepted_by (jb_init 640 16 4) ?es) =
      mset (held (foldl jb_step (jb_init 640 16 4) ?es)) + D"
    using jitter_frames_accounted [OF r, of 640 16 4] unfolding d by auto
  have "length (accepted_by (jb_init 640 16 4) ?es) = 2"
    "length (held (foldl jb_step (jb_init 640 16 4) ?es)) = 1" by code_simp+
  with arg_cong [OF D, of size] have "size D = 1" by (simp only: size_mset size_union)
  with D show ?thesis by blast
qed

text \<open>
  C33: Once playout has started, reading alone empties the buffer within as many reads as there are
  slots, delivering exactly the frames held, in strictly increasing order of their distance from
  the next sequence number (so in order even where the 16-bit number wraps).
\<close>

theorem jitter_playout_in_order:
  assumes "jb_inv b" and "\<not> buffering b" and "next_sequence_valid b"
    and "0 < frame_capacity b" and "0 < slot_count b"
  shows "sorted_wrt (\<lambda>s t. unat (slot_sequence s - next_sequence b) < unat (slot_sequence t - next_sequence b))
      (drain (slot_count b) b) \<and> mset (drain (slot_count b) b) = mset (held b)"
  using drain_all [OF assms] .

theorem jitter_playout_in_order_witness:
  "map slot_sequence (drain 4 (foldl jb_step (jb_init 640 4 2) [Push (rtp_frame 7), Push (rtp_frame 9), Push (rtp_frame 8)])) =
     [7, 8, 9] \<and>
   length (held (foldl jb_step (jb_init 640 4 2) [Push (rtp_frame 7), Push (rtp_frame 9), Push (rtp_frame 8)])) = 3"
proof -
  let ?b = "foldl jb_step (jb_init 640 4 2) [Push (rtp_frame 7), Push (rtp_frame 9), Push (rtp_frame 8)]"
  have d: "map slot_sequence (drain 4 ?b) = [7, 8, 9]" by code_simp
  have inv: "jb_inv ?b" by (rule jitter.run_inv [OF init_inv])
  have st: "\<not> buffering ?b" "next_sequence_valid ?b" "0 < frame_capacity ?b" "slot_count ?b = 4"
    by code_simp+
  have pos: "0 < slot_count ?b" unfolding st(4) by (rule zero_less_numeral)
  have "mset (drain 4 ?b) = mset (held ?b)"
    using conjunct2 [OF jitter_playout_in_order [OF inv st(1-3) pos]] unfolding st(4) .
  then have "length (held ?b) = length (drain 4 ?b)" by (metis size_mset)
  also have "\<dots> = length (map slot_sequence (drain 4 ?b))" by (simp only: length_map)
  finally show ?thesis unfolding d by simp
qed

text \<open>
  C7: The slot array implements a finite map of frames. For slot counts that divide the 65536
  sequence numbers, as the configured sixteen does, every push and every read of the buffer is
  exactly the push and the read of a window of frames indexed by sequence number: slots never
  collide, so no frame inside the window is ever overwritten by another.
\<close>

theorem jitter_refines_window:
  assumes "jb_inv b" and "slot_count b dvd 65536" and "0 < slot_count b"
  shows "(\<forall>f pcm. frame_pcm f = Some pcm \<and> pcm \<noteq> [] \<and> length pcm \<le> frame_capacity b \<longrightarrow>
      (fst (jb_push b f), window_of (snd (jb_push b f))) =
        window_push (slot_count b) (prebuffer b) (window_of b) f pcm) \<and>
    (\<forall>z cap x. (case jb_read b z cap x of (r, s, b') \<Rightarrow> (r, s, window_of b')) =
      window_read (prebuffer b) (frame_capacity b) (window_of b) z cap x)"
  using push_refines [OF assms] read_refines [OF assms(1,3)] by blast

theorem jitter_refines_window_witness:
  "fst (jb_push (jb_init 640 16 4) (rtp_frame 9)) =
     fst (window_push 16 4 (window_of (jb_init 640 16 4)) (rtp_frame 9) [1, 2])"
proof -
  have b: "slot_count (jb_init 640 16 4) = 16" "prebuffer (jb_init 640 16 4) = 4"
    "frame_capacity (jb_init 640 16 4) = 640"
    by (simp_all add: jb_init_def Let_def MAX_SLOTS_def)
  have f: "frame_pcm (rtp_frame 9) = Some [1, 2]" by (simp add: rtp_frame_def)
  have "(fst (jb_push (jb_init 640 16 4) (rtp_frame 9)), window_of (snd (jb_push (jb_init 640 16 4) (rtp_frame 9)))) =
        window_push 16 4 (window_of (jb_init 640 16 4)) (rtp_frame 9) [1, 2]"
    using jitter_refines_window [OF init_inv, of 640 16 4] f unfolding b by auto
  then show ?thesis by (metis fst_conv)
qed

definition replay_run :: "jb_event list" where
  "replay_run = map (\<lambda>q. Push (rtp_frame q)) [0, 1, 2, 3] @ replicate 4 (Read False 640 False) @
     map (\<lambda>q. Push (rtp_frame q)) [5, 16] @ [Read False 640 False] @
     map (\<lambda>q. Push (rtp_frame q)) [21, 3, 4, 5] @ replicate 2 (Read False 640 False)"

text \<open>
  A packet can be played a second time after a sequence jump. Realigning to a jump sets
  \<open>buffering\<close> again when too few frames survive, and while buffering an older packet moves the
  window back: in the run below the packet 3, already played, is accepted again after the jump to
  21, discards the newer frame, and is played again.
\<close>

theorem jitter_replays_after_jump:
  "map slot_sequence (delivered_by (jb_init 640 16 4) replay_run) = [0, 1, 2, 3, 3, 4] \<and>
   discarded_frames (counters (foldl jb_step (jb_init 640 16 4) replay_run)) = 2"
  by code_simp

end
