(* ===== verification/Phonebook.thy ===== *)
theory Phonebook
  imports Prelude
begin

text \<open>
  The local contact list (\<open>Phonebook\<close> in \<open>phonebook.h\<close>): slots deduplicated by route, a cursor
  that follows its contact, update cycles that count how often a contact was missing, and the
  parser of the compact transport rows. Strings are byte strings; \<open>strtoul\<close> is written out for
  the 32-bit \<open>unsigned long\<close> of the target.
\<close>

section \<open>State\<close>

datatype endpoint_type = UNKNOWN | SIP

fun contact_endpoint_type_to_str :: "endpoint_type \<Rightarrow> string" where
  "contact_endpoint_type_to_str SIP = ''sip''"
| "contact_endpoint_type_to_str UNKNOWN = ''unknown''"

record contact =
  name :: string
  route :: string
  ip :: string
  endpoint :: endpoint_type
  port :: u16
  rtp_port :: u16
  sip_transport_tcp :: bool
  directional_audio_v1 :: bool
  audio_capability :: string
  missing_count :: byte

definition empty_contact :: contact where
  "empty_contact = \<lparr>name = [], route = [], ip = [], endpoint = UNKNOWN, port = 0, rtp_port = 0,
     sip_transport_tcp = False, directional_audio_v1 = False, audio_capability = [], missing_count = 0\<rparr>"

datatype add_result = Noop | Added | Upgraded | EndpointReplaced | Rejected

record phonebook =
  entries :: "contact list"
  index :: nat
  self_name :: string

definition MAX_CONTACTS :: nat where "MAX_CONTACTS = 64"
definition MAX_NAME_BYTES :: nat where "MAX_NAME_BYTES = 64"
definition MAX_ROUTE_BYTES :: nat where "MAX_ROUTE_BYTES = 96"
definition MAX_ADDRESS_BYTES :: nat where "MAX_ADDRESS_BYTES = 64"
definition MAX_CAPABILITY_BYTES :: nat where "MAX_CAPABILITY_BYTES = 160"

section \<open>Parsing a compact row\<close>

definition is_blank :: "char \<Rightarrow> bool" where
  "is_blank c \<longleftrightarrow> c = CHR '' '' \<or> c = TAB"

definition pb_trim :: "string \<Rightarrow> string" where
  "pb_trim s = rev (dropWhile is_blank (rev (dropWhile is_blank s)))"

text \<open>\<open>split_\<close>, with the number of pieces it may still push.\<close>

fun split_at_most :: "nat \<Rightarrow> char \<Rightarrow> string \<Rightarrow> string list" where
  "split_at_most 0 sep s = []"
| "split_at_most (Suc n) sep s =
     (case find_char sep s of
        None \<Rightarrow> [s]
      | Some p \<Rightarrow> take p s # split_at_most n sep (drop (Suc p) s))"

definition pb_split :: "string \<Rightarrow> char \<Rightarrow> string list" where
  "pb_split s sep = split_at_most MAX_CONTACTS sep s"

text \<open>
  \<open>strtoul(s, \<dots>, 10)\<close>: leading white space, an optional sign, digits; the value (negated modulo
  2^32 after a minus sign), whether it overflowed, and the rest. \<open>None\<close> when there is no digit.
\<close>

definition is_space :: "char \<Rightarrow> bool" where
  "is_space c \<longleftrightarrow> c = CHR '' '' \<or> (9 \<le> code c \<and> code c \<le> 13)"

definition strtoul :: "string \<Rightarrow> (nat \<times> bool \<times> string) option" where
  "strtoul s0 =
     (let s = dropWhile is_space s0;
          (neg, t) = (case s of c # cs \<Rightarrow> if c = CHR ''-'' then (True, cs)
                                         else if c = CHR ''+'' then (False, cs) else (False, s)
                              | [] \<Rightarrow> (False, []));
          ds = takeWhile is_digit t; r = dropWhile is_digit t; v = digits_value ds
      in if ds = [] then None
         else if v \<ge> 2 ^ 32 then Some (2 ^ 32 - 1, True, r)
         else Some (if neg then (2 ^ 32 - v) mod 2 ^ 32 else v, False, r))"

text \<open>\<open>parse_u16_\<close>: the conversion reads the C string, so up to a NUL byte.\<close>

definition c_str :: "string \<Rightarrow> string" where
  "c_str s = takeWhile (\<lambda>c. c \<noteq> CHR 0x00) s"

definition parse_u16 :: "string \<Rightarrow> u16 option" where
  "parse_u16 s =
     (if s = [] then None
      else case strtoul (c_str s) of
             None \<Rightarrow> None
           | Some (v, overflow, r) \<Rightarrow>
               if overflow \<or> r \<noteq> [] \<or> v > 65535 then None else Some (of_nat v))"

definition valid_text_field :: "string \<Rightarrow> nat \<Rightarrow> bool \<Rightarrow> bool" where
  "valid_text_field v max_bytes reject_list_delimiters \<longleftrightarrow>
     length v \<le> max_bytes \<and>
     list_all (\<lambda>c. \<not> (code c < 0x20 \<or> code c = 0x7F \<or> c = CHR ''|'' \<or>
                      (reject_list_delimiters \<and> (c = CHR '','' \<or> c = CHR '';'')))) v"

definition valid_entry :: "contact \<Rightarrow> bool" where
  "valid_entry e \<longleftrightarrow>
     name e \<noteq> [] \<and> route e \<noteq> [] \<and> valid_text_field (name e) MAX_NAME_BYTES True \<and>
     valid_text_field (route e) MAX_ROUTE_BYTES True \<and> valid_text_field (ip e) MAX_ADDRESS_BYTES True \<and>
     valid_text_field (audio_capability e) MAX_CAPABILITY_BYTES True \<and>
     (if endpoint e = SIP then ip e \<noteq> [] \<and> port e \<noteq> 0
      else endpoint e = UNKNOWN \<and> ip e = [] \<and> port e = 0 \<and> rtp_port e = 0)"

definition parse_transport :: "string \<Rightarrow> bool option" where
  "parse_transport t =
     (if t = ''sip_tcp'' \<or> t = ''SIP_TCP'' then Some True
      else if t = ''sip_udp'' \<or> t = ''SIP_UDP'' then Some False
      else None)"

definition parse_short_entry :: "string list \<Rightarrow> contact \<Rightarrow> contact option" where
  "parse_short_entry parts c =
     (let n = length parts in
      if n = 1 then Some c
      else if n \<noteq> 5 \<and> n \<noteq> 6 \<and> n \<noteq> 8 then None
      else
        let has_route = (n = 6);
            ip_index = (if has_route then 2 else 1);
            addr = pb_trim (parts ! ip_index);
            c1 = c\<lparr>endpoint := SIP, route := (if has_route then pb_trim (parts ! 1) else route c), ip := addr\<rparr>
        in if addr = [] then None
           else case parse_u16 (pb_trim (parts ! (ip_index + 1))) of
                  None \<Rightarrow> None
                | Some p \<Rightarrow>
                    case parse_u16 (pb_trim (parts ! (ip_index + 2))) of
                      None \<Rightarrow> None
                    | Some rp \<Rightarrow>
                        map_option
                          (\<lambda>tcp. c1\<lparr>port := p, rtp_port := rp, sip_transport_tcp := tcp,
                             audio_capability := (if n = 8 then pb_trim (parts ! 4) else audio_capability c)\<rparr>)
                          (parse_transport (pb_trim (parts ! (if n = 8 then 7 else n - 1)))))"

definition parse_entry :: "string \<Rightarrow> contact option" where
  "parse_entry raw =
     (let s = pb_trim raw in
      if s = [] then None
      else case pb_split s (CHR ''|'') of
             [] \<Rightarrow> None
           | p # ps \<Rightarrow>
               let n = pb_trim p in
               if n = [] then None
               else case parse_short_entry (p # ps) (empty_contact\<lparr>name := n, route := n\<rparr>) of
                      None \<Rightarrow> None
                    | Some c \<Rightarrow> if valid_entry c then Some c else None)"

text \<open>The printer of such rows (\<open>serialize_endpoint\<close> in \<open>voip_settings.cpp\<close>).\<close>

definition serialize_endpoint ::
    "string \<Rightarrow> string \<Rightarrow> endpoint_type \<Rightarrow> string \<Rightarrow> u16 \<Rightarrow> u16 \<Rightarrow> bool \<Rightarrow> string" where
  "serialize_endpoint n r ty addr p rp tcp =
     (if n = [] then []
      else if addr = [] \<or> p = 0 then n
      else if ty = SIP then
        (if r = [] \<or> r = n then n else n @ ''|'' @ r) @ ''|'' @ addr @ ''|'' @ dec (unat p) @ ''|'' @
        dec (unat rp) @ ''|'' @ (if tcp then ''sip_tcp'' else ''sip_udp'')
      else n)"

definition serialize_contact :: "contact \<Rightarrow> string" where
  "serialize_contact c =
     serialize_endpoint (name c) (route c) (endpoint c) (ip c) (port c) (rtp_port c) (sip_transport_tcp c)"

definition parse_endpoint_type :: "string \<Rightarrow> endpoint_type option" where
  "parse_endpoint_type s = (if s = ''sip'' \<or> s = ''SIP'' then Some SIP else None)"

section \<open>Operations\<close>

definition new_phonebook :: phonebook where
  "new_phonebook = \<lparr>entries = [], index = 0, self_name = []\<rparr>"

definition set_self_name :: "string \<Rightarrow> phonebook \<Rightarrow> phonebook" where
  "set_self_name n pb = pb\<lparr>self_name := n\<rparr>"

text \<open>The update of an existing slot with an incoming entry; the first slot with its route.\<close>

definition same_endpoint :: "contact \<Rightarrow> contact \<Rightarrow> bool" where
  "same_endpoint a b \<longleftrightarrow>
     ip a = ip b \<and> port a = port b \<and> rtp_port a = rtp_port b \<and> endpoint a = endpoint b \<and>
     sip_transport_tcp a = sip_transport_tcp b \<and> directional_audio_v1 a = directional_audio_v1 b \<and>
     audio_capability a = audio_capability b \<and> name a = name b"

definition same_entry :: "contact \<Rightarrow> contact \<Rightarrow> bool" where
  "same_entry a b \<longleftrightarrow> route a = route b \<and> same_endpoint a b"

definition no_endpoint :: "contact \<Rightarrow> bool" where
  "no_endpoint e \<longleftrightarrow> ip e = [] \<and> port e = 0 \<and> rtp_port e = 0"

definition overwrite :: "contact \<Rightarrow> contact \<Rightarrow> contact" where
  "overwrite old new = new\<lparr>route := route old, missing_count := missing_count old\<rparr>"

fun merge_entries :: "contact list \<Rightarrow> contact \<Rightarrow> add_result \<times> contact list" where
  "merge_entries [] e = (Added, [e])"
| "merge_entries (x # xs) e =
     (if route x \<noteq> route e then (let (r, ys) = merge_entries xs e in (r, x # ys))
      else if no_endpoint e \<or> same_endpoint x e then (Noop, x # xs)
      else (if no_endpoint x then Upgraded else EndpointReplaced, overwrite x e # xs))"

definition pb_merge :: "phonebook \<Rightarrow> contact \<Rightarrow> add_result \<times> phonebook" where
  "pb_merge pb e =
     (if \<not> valid_entry e then (Rejected, pb)
      else case merge_entries (entries pb) e of
             (Added, es) \<Rightarrow> if length (entries pb) \<ge> MAX_CONTACTS then (Rejected, pb)
                           else (Added, pb\<lparr>entries := es\<rparr>)
           | (r, es) \<Rightarrow> (r, pb\<lparr>entries := es\<rparr>))"

definition is_self :: "phonebook \<Rightarrow> string \<Rightarrow> bool" where
  "is_self pb n \<longleftrightarrow> self_name pb \<noteq> [] \<and> n = self_name pb"

definition add_entry :: "phonebook \<Rightarrow> contact \<Rightarrow> add_result \<times> phonebook" where
  "add_entry pb e = (if is_self pb (name e) then (Rejected, pb) else pb_merge pb e)"

definition add_one :: "phonebook \<Rightarrow> string \<Rightarrow> add_result \<times> phonebook" where
  "add_one pb s =
     (case parse_entry s of
        None \<Rightarrow> (Rejected, pb)
      | Some e \<Rightarrow> if is_self pb (name e) then (Rejected, pb) else pb_merge pb e)"

fun mutates :: "add_result \<Rightarrow> bool" where
  "mutates Added = True"
| "mutates Upgraded = True"
| "mutates EndpointReplaced = True"
| "mutates Noop = False"
| "mutates Rejected = False"

fun add_rows :: "phonebook \<Rightarrow> string list \<Rightarrow> bool \<times> phonebook" where
  "add_rows pb [] = (False, pb)"
| "add_rows pb (s # ss) =
     (let (r, pb1) = add_one pb s; (changed, pb2) = add_rows pb1 ss in (mutates r \<or> changed, pb2))"

definition add_batch :: "phonebook \<Rightarrow> string \<Rightarrow> bool \<times> phonebook" where
  "add_batch pb csv = add_rows pb (split_at_most MAX_CONTACTS (CHR '','') csv)"

definition pb_clear :: "phonebook \<Rightarrow> phonebook" where
  "pb_clear pb = pb\<lparr>entries := [], index := 0\<rparr>"

definition matches :: "string \<Rightarrow> contact \<Rightarrow> bool" where
  "matches n e \<longleftrightarrow> name e = n \<or> route e = n"

definition pb_select :: "phonebook \<Rightarrow> string \<Rightarrow> bool \<times> phonebook" where
  "pb_select pb n =
     (case index_of (matches n) (entries pb) of
        Some i \<Rightarrow> (True, pb\<lparr>index := i\<rparr>)
      | None \<Rightarrow> (False, pb))"

definition pb_next :: "phonebook \<Rightarrow> phonebook" where
  "pb_next pb = (if entries pb = [] then pb
     else pb\<lparr>index := (index pb + 1) mod length (entries pb)\<rparr>)"

definition pb_prev :: "phonebook \<Rightarrow> phonebook" where
  "pb_prev pb = (if entries pb = [] then pb
     else pb\<lparr>index := (index pb + length (entries pb) - 1) mod length (entries pb)\<rparr>)"

definition current :: "phonebook \<Rightarrow> contact option" where
  "current pb = (if entries pb = [] then None else Some (entries pb ! (index pb mod length (entries pb))))"

definition pb_find :: "phonebook \<Rightarrow> string \<Rightarrow> contact option" where
  "pb_find pb n = find (matches n) (entries pb)"

definition current_name :: "phonebook \<Rightarrow> string" where
  "current_name pb = (case current pb of Some c \<Rightarrow> name c | None \<Rightarrow> [])"

definition current_route :: "phonebook \<Rightarrow> string" where
  "current_route pb = (case current pb of Some c \<Rightarrow> route c | None \<Rightarrow> [])"

definition current_ip :: "phonebook \<Rightarrow> string" where
  "current_ip pb = (case current pb of Some c \<Rightarrow> ip c | None \<Rightarrow> [])"

definition current_port :: "phonebook \<Rightarrow> u16" where
  "current_port pb = (case current pb of Some c \<Rightarrow> port c | None \<Rightarrow> 0)"

definition current_endpoint_type :: "phonebook \<Rightarrow> endpoint_type" where
  "current_endpoint_type pb = (case current pb of Some c \<Rightarrow> endpoint c | None \<Rightarrow> UNKNOWN)"

fun names_csv_from :: "contact list \<Rightarrow> string" where
  "names_csv_from [] = []"
| "names_csv_from [e] = name e"
| "names_csv_from (e # es) = name e @ '','' @ names_csv_from es"

definition names_csv :: "phonebook \<Rightarrow> string" where
  "names_csv pb = names_csv_from (entries pb)"

text \<open>Removing: before the cursor it shifts down, at the cursor it stays or wraps to 0.\<close>

definition remove_one :: "phonebook \<Rightarrow> string \<Rightarrow> bool \<times> phonebook" where
  "remove_one pb n =
     (case index_of (\<lambda>e. name e = n) (entries pb) of
        None \<Rightarrow> (False, pb)
      | Some i \<Rightarrow>
          let es = take i (entries pb) @ drop (Suc i) (entries pb) in
          (True, pb\<lparr>entries := es,
                    index := (if es = [] then 0
                              else if i < index pb then index pb - 1
                              else if i = index pb \<and> index pb \<ge> length es then 0
                              else index pb)\<rparr>))"

fun remove_names :: "phonebook \<Rightarrow> string list \<Rightarrow> bool \<times> phonebook" where
  "remove_names pb [] = (False, pb)"
| "remove_names pb (n # ns) =
     (let (r, pb1) = remove_one pb n; (changed, pb2) = remove_names pb1 ns in (r \<or> changed, pb2))"

definition count_missing :: "string set \<Rightarrow> contact \<Rightarrow> contact" where
  "count_missing seen e =
     (if name e \<in> seen then e\<lparr>missing_count := 0\<rparr>
      else if missing_count e < 255 then e\<lparr>missing_count := missing_count e + 1\<rparr>
      else e)"

definition commit_cycle :: "phonebook \<Rightarrow> string set \<Rightarrow> byte \<Rightarrow> bool \<times> phonebook" where
  "commit_cycle pb seen threshold =
     (let pb1 = pb\<lparr>entries := map (count_missing seen) (entries pb)\<rparr> in
      if threshold = 0 then (False, pb1)
      else remove_names pb1 (map name (filter (\<lambda>e. missing_count e \<ge> threshold) (entries pb1))))"

text \<open>\<open>replace_all\<close>: the last entry of a route wins, in the place of the first.\<close>

fun put_route :: "contact list \<Rightarrow> contact \<Rightarrow> contact list" where
  "put_route [] e = [e]"
| "put_route (x # xs) e = (if route x = route e then e # xs else x # put_route xs e)"

fun normalize_entries :: "string \<Rightarrow> contact list \<Rightarrow> contact list \<Rightarrow> contact list" where
  "normalize_entries self acc [] = acc"
| "normalize_entries self acc (e # es) =
     (if length acc \<ge> MAX_CONTACTS then acc
      else if \<not> valid_entry e \<or> (self \<noteq> [] \<and> name e = self) then normalize_entries self acc es
      else normalize_entries self (put_route acc (e\<lparr>missing_count := 0\<rparr>)) es)"

definition replace_all :: "phonebook \<Rightarrow> contact list \<Rightarrow> bool \<times> phonebook" where
  "replace_all pb es =
     (let selected = current_name pb; selected_route = current_route pb;
          normalized = normalize_entries (self_name pb) [] es;
          changed = (\<not> list_all2 same_entry (entries pb) normalized);
          pb1 = pb\<lparr>entries := normalized, index := 0\<rparr>;
          by_route = pb_select pb1 selected_route
      in (changed,
          if selected_route \<noteq> [] \<and> fst by_route then snd by_route
          else if selected_route \<noteq> [] \<and> selected \<noteq> [] then snd (pb_select pb1 selected)
          else pb1))"

datatype pb_event = AddRow string | AddBatch string | AddEntry contact | ReplaceAll "contact list"
  | Clear | CommitCycle "string list" byte | RemoveOne string | Select string | Next | Prev | SetSelf string

fun pb_step :: "phonebook \<Rightarrow> pb_event \<Rightarrow> phonebook" where
  "pb_step pb (AddRow s) = snd (add_one pb s)"
| "pb_step pb (AddBatch s) = snd (add_batch pb s)"
| "pb_step pb (AddEntry e) = snd (add_entry pb e)"
| "pb_step pb (ReplaceAll es) = snd (replace_all pb es)"
| "pb_step pb Clear = pb_clear pb"
| "pb_step pb (CommitCycle ns t) = snd (commit_cycle pb (set ns) t)"
| "pb_step pb (RemoveOne n) = snd (remove_one pb n)"
| "pb_step pb (Select n) = snd (pb_select pb n)"
| "pb_step pb Next = pb_next pb"
| "pb_step pb Prev = pb_prev pb"
| "pb_step pb (SetSelf n) = set_self_name n pb"


section \<open>Invariant\<close>

text \<open>At most sixty-four valid slots, one per route, and the cursor on a slot.\<close>

definition pb_inv :: "phonebook \<Rightarrow> bool" where
  "pb_inv pb \<longleftrightarrow> distinct (map route (entries pb)) \<and> length (entries pb) \<le> MAX_CONTACTS \<and>
     list_all valid_entry (entries pb) \<and> (if entries pb = [] then index pb = 0 else index pb < length (entries pb))"

lemma valid_missing [simp]: "valid_entry (e\<lparr>missing_count := m\<rparr>) = valid_entry e"
  by (simp add: valid_entry_def)

lemma overwrite_simps [simp]:
  "route (overwrite x e) = route x" "missing_count (overwrite x e) = missing_count x"
  "name (overwrite x e) = name e"
  by (simp_all add: overwrite_def)

lemma overwrite_same_route: "route x = route e \<Longrightarrow> overwrite x e = e\<lparr>missing_count := missing_count x\<rparr>"
  by (simp add: overwrite_def)

lemma merge_routes:
  "map route (snd (merge_entries es e)) =
     (if route e \<in> route ` set es then map route es else map route es @ [route e]) \<and>
   (fst (merge_entries es e) = Added \<longleftrightarrow> route e \<notin> route ` set es)"
  by (induction es e rule: merge_entries.induct) (auto split: prod.splits)

lemma merge_valid:
  "list_all valid_entry es \<Longrightarrow> valid_entry e \<Longrightarrow> list_all valid_entry (snd (merge_entries es e))"
  by (induction es e rule: merge_entries.induct)
    (auto split: prod.splits simp: overwrite_same_route)

lemma merge_length:
  "length (snd (merge_entries es e)) = length es + (if fst (merge_entries es e) = Added then 1 else 0)"
  by (induction es e rule: merge_entries.induct) (auto split: prod.splits)

lemma pb_merge_cases:
  obtains (refused) "pb_merge pb e = (Rejected, pb)"
      "\<not> valid_entry e \<or> (route e \<notin> route ` set (entries pb) \<and> length (entries pb) \<ge> MAX_CONTACTS)"
  | (merged) r es where "merge_entries (entries pb) e = (r, es)" "pb_merge pb e = (r, pb\<lparr>entries := es\<rparr>)"
      "valid_entry e" "r = Added \<Longrightarrow> length (entries pb) < MAX_CONTACTS"
proof (cases "valid_entry e")
  case False
  then show thesis using refused by (simp add: pb_merge_def)
next
  case True
  obtain r es where m: "merge_entries (entries pb) e = (r, es)" by fastforce
  show thesis
  proof (cases "r = Added \<and> length (entries pb) \<ge> MAX_CONTACTS")
    case full: True
    with m merge_routes [of "entries pb" e] have "route e \<notin> route ` set (entries pb)" by simp
    with full True m show thesis using refused by (simp add: pb_merge_def)
  next
    case False
    with True m show thesis using merged by (cases r) (auto simp: pb_merge_def)
  qed
qed

lemma pb_merge_inv:
  assumes inv: "pb_inv pb"
  shows "pb_inv (snd (pb_merge pb e))"
proof (cases rule: pb_merge_cases [of pb e])
  case refused
  with inv show ?thesis by simp
next
  case (merged r es)
  have routes: "map route es = (if route e \<in> route ` set (entries pb) then map route (entries pb)
      else map route (entries pb) @ [route e])" and add: "r = Added \<longleftrightarrow> route e \<notin> route ` set (entries pb)"
    using merge_routes [of "entries pb" e] merged(1) by simp_all
  have len: "length es = length (entries pb) + (if r = Added then 1 else 0)"
    using merge_length [of "entries pb" e] merged(1) by simp
  have "distinct (map route es)" unfolding routes using inv by (simp add: pb_inv_def)
  moreover have "length es \<le> MAX_CONTACTS" using len merged(4) inv by (auto simp: pb_inv_def)
  moreover have "list_all valid_entry es"
    using merge_valid [of "entries pb" e] merged inv by (simp add: pb_inv_def)
  moreover have "es \<noteq> []" using len add by auto
  moreover have "index pb < length es" using inv len add by (auto simp: pb_inv_def split: if_splits)
  ultimately show ?thesis using merged(2) by (simp add: pb_inv_def)
qed

lemma add_one_inv: "pb_inv pb \<Longrightarrow> pb_inv (snd (add_one pb s))"
  by (auto simp: add_one_def pb_merge_inv split: option.splits)

lemma add_entry_inv: "pb_inv pb \<Longrightarrow> pb_inv (snd (add_entry pb e))"
  by (simp add: add_entry_def pb_merge_inv)

lemma add_rows_inv: "pb_inv pb \<Longrightarrow> pb_inv (snd (add_rows pb ss))"
proof (induction ss arbitrary: pb)
  case (Cons s ss)
  from Cons.IH [OF add_one_inv [OF Cons.prems, of s]] show ?case by (simp add: case_prod_beta Let_def)
qed simp

lemma put_route_routes:
  "map route (put_route es e) =
     (if route e \<in> route ` set es then map route es else map route es @ [route e])"
  by (induction es) auto

lemma put_route_valid: "list_all valid_entry es \<Longrightarrow> valid_entry e \<Longrightarrow> list_all valid_entry (put_route es e)"
  by (induction es) auto

lemma normalize_inv:
  "distinct (map route acc) \<Longrightarrow> length acc \<le> MAX_CONTACTS \<Longrightarrow> list_all valid_entry acc \<Longrightarrow>
   distinct (map route (normalize_entries self acc es)) \<and>
   length (normalize_entries self acc es) \<le> MAX_CONTACTS \<and>
   list_all valid_entry (normalize_entries self acc es)"
proof (induction self acc es rule: normalize_entries.induct)
  case (2 self acc e es)
  let ?e = "e\<lparr>missing_count := 0\<rparr>"
  show ?case
  proof (cases "length acc \<ge> MAX_CONTACTS \<or> \<not> valid_entry e \<or> (self \<noteq> [] \<and> name e = self)")
    case True
    with 2 show ?thesis by auto
  next
    case False
    have r: "map route (put_route acc ?e) =
        (if route e \<in> route ` set acc then map route acc else map route acc @ [route e])"
      using put_route_routes [of acc ?e] by simp
    have "distinct (map route (put_route acc ?e))" unfolding r using "2.prems"(1) by simp
    moreover have "length (put_route acc ?e) \<le> Suc (length acc)"
      using arg_cong [OF r, of length] by (simp split: if_splits)
    moreover have "list_all valid_entry (put_route acc ?e)"
      using put_route_valid [of acc ?e] "2.prems"(3) False by simp
    ultimately show ?thesis using "2.IH"(2) False by auto
  qed
qed simp

lemma select_inv: "pb_inv pb \<Longrightarrow> pb_inv (snd (pb_select pb n))"
  by (auto simp: pb_select_def pb_inv_def split: option.splits dest!: index_of_SomeD)

lemma replace_all_inv: "pb_inv (snd (replace_all pb es))"
proof -
  let ?pb = "pb\<lparr>entries := normalize_entries (self_name pb) [] es, index := 0\<rparr>"
  have "pb_inv ?pb" using normalize_inv [of "[]" "self_name pb" es] by (simp add: pb_inv_def)
  then show ?thesis using select_inv [of ?pb] by (simp add: replace_all_def Let_def)
qed

lemma remove_one_inv:
  assumes inv: "pb_inv pb"
  shows "pb_inv (snd (remove_one pb n))"
proof (cases "index_of (\<lambda>e. name e = n) (entries pb)")
  case None
  with inv show ?thesis by (simp add: remove_one_def)
next
  case (Some i)
  let ?es = "take i (entries pb) @ drop (Suc i) (entries pb)"
  have i: "i < length (entries pb)" using index_of_SomeD [OF Some] by simp
  have split: "entries pb = take i (entries pb) @ entries pb ! i # drop (Suc i) (entries pb)"
    using i by (rule id_take_nth_drop)
  have "distinct (map route (take i (entries pb) @ entries pb ! i # drop (Suc i) (entries pb)))"
    using inv split by (simp add: pb_inv_def)
  then have "distinct (map route ?es)" by auto
  moreover have "list_all valid_entry ?es"
    using inv by (auto simp: pb_inv_def list_all_iff dest: in_set_takeD in_set_dropD)
  moreover have "length ?es = length (entries pb) - 1" using i by simp
  moreover have "index pb < length (entries pb)" using inv i by (auto simp: pb_inv_def split: if_splits)
  ultimately show ?thesis
    using inv i by (auto simp: remove_one_def Some Let_def pb_inv_def)
qed

lemma remove_names_inv: "pb_inv pb \<Longrightarrow> pb_inv (snd (remove_names pb ns))"
proof (induction ns arbitrary: pb)
  case (Cons n ns)
  from Cons.IH [OF remove_one_inv [OF Cons.prems, of n]] show ?case by (simp add: case_prod_beta Let_def)
qed simp

lemma count_missing_simps [simp]:
  "name (count_missing seen e) = name e" "route (count_missing seen e) = route e"
  "valid_entry (count_missing seen e) = valid_entry e"
  by (simp_all add: count_missing_def)

lemma commit_cycle_inv: "pb_inv pb \<Longrightarrow> pb_inv (snd (commit_cycle pb seen t))"
proof -
  assume inv: "pb_inv pb"
  have "pb_inv (pb\<lparr>entries := map (count_missing seen) (entries pb)\<rparr>)"
    using inv by (simp add: pb_inv_def o_def list.pred_map)
  then show ?thesis using remove_names_inv by (simp add: commit_cycle_def Let_def)
qed

lemma pb_step_inv: "pb_inv pb \<Longrightarrow> pb_inv (pb_step pb ev)"
proof (cases ev)
  case Prev
  assume "pb_inv pb"
  with Prev show ?thesis by (simp add: pb_inv_def pb_prev_def)
qed (simp_all add: add_one_inv add_entry_inv add_batch_def add_rows_inv replace_all_inv commit_cycle_inv
  remove_one_inv select_inv, simp_all add: pb_inv_def pb_clear_def pb_next_def set_self_name_def)

interpretation phonebook: invariant_machine pb_step pb_inv
  by unfold_locales (rule pb_step_inv)


section \<open>Rows round trip\<close>

definition trimmed :: "string \<Rightarrow> bool" where
  "trimmed s \<longleftrightarrow> s \<noteq> [] \<and> \<not> is_blank (hd s) \<and> \<not> is_blank (last s)"

lemma trim_trimmed [simp]: "trimmed s \<Longrightarrow> pb_trim s = s"
proof -
  assume t: "trimmed s"
  then obtain c cs where s: "s = c # cs" by (cases s) (auto simp: trimmed_def)
  have l: "dropWhile is_blank s = s" using t s by (simp add: trimmed_def)
  obtain b d where r: "s = b @ [d]" using s by (metis list.discI rev_exhaust)
  then have "dropWhile is_blank (rev s) = rev s" using t by (simp add: trimmed_def)
  then show ?thesis unfolding pb_trim_def l by simp
qed

lemma trimmed_append: "trimmed a \<Longrightarrow> trimmed b \<Longrightarrow> trimmed (a @ m @ b)"
  by (simp add: trimmed_def)

lemma is_digit_not_blank: "is_digit c \<Longrightarrow> \<not> is_blank c"
  by (auto simp: is_digit_def is_blank_def)

lemma trimmed_dec [simp]: "trimmed (dec n)"
  using dec_digits [of n] by (simp add: trimmed_def is_digit_not_blank)

lemma split_here:
  assumes "sep \<notin> set a" and "0 < n"
  shows "split_at_most n sep (a @ sep # r) = a # split_at_most (n - 1) sep r"
proof -
  obtain m where n: "n = Suc m" using assms(2) by (cases n) auto
  have "index_of ((=) sep) (a @ sep # r) = Some (length a)"
    by (rule index_of_append_hit) (use assms(1) in auto)
  then show ?thesis by (simp add: n find_char_def)
qed

lemma split_last:
  assumes "sep \<notin> set a" and "0 < n"
  shows "split_at_most n sep a = [a]"
proof -
  obtain m where n: "n = Suc m" using assms(2) by (cases n) auto
  have "index_of ((=) sep) a = None" using assms(1) by (auto simp: index_of_None_iff)
  then show ?thesis by (simp add: n find_char_def)
qed

lemma parse_u16_digits:
  assumes "ds \<noteq> []" and "\<forall>c\<in>set ds. is_digit c"
  shows "parse_u16 ds = (if digits_value ds \<le> 65535 then Some (of_nat (digits_value ds)) else None)"
proof -
  have c: "c_str ds = ds" using assms(2) by (auto simp: c_str_def takeWhile_eq_all_conv dest!: is_digit_simps)
  obtain d r where ds: "ds = d # r" using assms(1) by (cases ds) auto
  have d: "is_digit d" using assms(2) ds by simp
  have sp: "dropWhile is_space ds = ds" using d by (auto simp: ds is_space_def is_digit_def)
  have tw: "takeWhile is_digit ds = ds" "dropWhile is_digit ds = []" using assms(2) by auto
  have cs: "(case ds of c # cs \<Rightarrow> if c = CHR ''-'' then (True, cs) else if c = CHR ''+'' then (False, cs) else (False, ds)
      | [] \<Rightarrow> (False, [])) = (False, ds)"
    using is_digit_simps [OF d] by (simp add: ds)
  have "strtoul ds = (if digits_value ds \<ge> 2 ^ 32 then Some (2 ^ 32 - 1, True, []) else Some (digits_value ds, False, []))"
    unfolding strtoul_def sp Let_def cs prod.case tw using assms(1) by simp
  then show ?thesis using assms(1) by (simp add: parse_u16_def c)
qed

lemma parse_u16_dec [simp]: "n \<le> 65535 \<Longrightarrow> parse_u16 (dec n) = Some (of_nat n)"
  using parse_u16_digits [of "dec n"] dec_digits [of n] by simp

text \<open>What the compact row can carry: no audio capability, trimmed fields.\<close>

definition row_contact :: "contact \<Rightarrow> bool" where
  "row_contact c \<longleftrightarrow> valid_entry c \<and> trimmed (name c) \<and> missing_count c = 0 \<and> \<not> directional_audio_v1 c \<and>
     audio_capability c = [] \<and>
     (if endpoint c = SIP then trimmed (route c) \<and> trimmed (ip c) else route c = name c \<and> \<not> sip_transport_tcp c)"

lemma valid_no_bar: "valid_text_field v m b \<Longrightarrow> CHR ''|'' \<notin> set v"
  by (auto simp: valid_text_field_def list_all_iff)

lemma parse_row:
  assumes ok: "row_contact c"
  shows "parse_entry (serialize_contact c) = Some c"
proof -
  have v: "valid_entry c" and tn: "trimmed (name c)" using ok by (auto simp: row_contact_def)
  have nb: "CHR ''|'' \<notin> set (name c)" "CHR ''|'' \<notin> set (route c)" "CHR ''|'' \<notin> set (ip c)"
    using v valid_no_bar by (auto simp: valid_entry_def)
  have db: "CHR ''|'' \<notin> set (dec n)" for n by (rule dec_no) (simp add: is_digit_def)
  have nn: "name c \<noteq> []" using tn by (simp add: trimmed_def)
  show ?thesis
  proof (cases "endpoint c = SIP")
    case False
    then have e: "endpoint c = UNKNOWN" "ip c = []" "port c = 0" "rtp_port c = 0" "route c = name c" "\<not> sip_transport_tcp c"
      using v ok by (cases "endpoint c"; auto simp: valid_entry_def row_contact_def)+
    have s: "serialize_contact c = name c" by (simp add: serialize_contact_def serialize_endpoint_def e)
    have "empty_contact\<lparr>name := name c, route := name c\<rparr> = c"
      using ok e by (simp add: empty_contact_def row_contact_def)
    then show ?thesis unfolding s
      using nb nn tn v by (simp add: parse_entry_def Let_def pb_split_def MAX_CONTACTS_def split_last
        parse_short_entry_def del: split_at_most.simps)
  next
    case True
    then have e: "ip c \<noteq> []" "port c \<noteq> 0" "trimmed (route c)" "trimmed (ip c)"
      using v ok by (auto simp: valid_entry_def row_contact_def)
    have re: "route c \<noteq> []" using e(3) by (simp add: trimmed_def)
    let ?t = "if sip_transport_tcp c then ''sip_tcp'' else ''sip_udp''"
    let ?m = "''|'' @ ip c @ ''|'' @ dec (unat (port c)) @ ''|'' @ dec (unat (rtp_port c)) @ ''|''"
    let ?pre = "if route c = name c then [] else ''|'' @ route c"
    have s: "serialize_contact c = name c @ (?pre @ ?m) @ ?t"
      using True e nn by (auto simp: serialize_contact_def serialize_endpoint_def trimmed_def)
    have tt: "trimmed ?t" "CHR ''|'' \<notin> set ?t" by (simp_all add: trimmed_def is_blank_def)
    have ts: "trimmed (serialize_contact c)" unfolding s by (rule trimmed_append [OF tn tt(1)])
    have pieces: "pb_split (serialize_contact c) (CHR ''|'') =
        (if route c = name c then [name c] else [name c, route c]) @
        [ip c, dec (unat (port c)), dec (unat (rtp_port c)), ?t]"
      unfolding s pb_split_def MAX_CONTACTS_def
      using nb db tt by (simp add: split_here split_last del: split_at_most.simps)
    have pt: "parse_transport ?t = Some (sip_transport_tcp c)" by (simp add: parse_transport_def)
    have se: "parse_short_entry (pb_split (serialize_contact c) (CHR ''|'')) (empty_contact\<lparr>name := name c, route := name c\<rparr>) =
        Some (empty_contact\<lparr>name := name c, route := route c, ip := ip c, endpoint := SIP, port := port c,
          rtp_port := rtp_port c, sip_transport_tcp := sip_transport_tcp c\<rparr>)"
      unfolding pieces parse_short_entry_def Let_def
      using e tt(1) pt re by (simp add: empty_contact_def)
    have c: "empty_contact\<lparr>name := name c, route := route c, ip := ip c, endpoint := SIP, port := port c,
          rtp_port := rtp_port c, sip_transport_tcp := sip_transport_tcp c\<rparr> = c"
      using ok True by (simp add: empty_contact_def row_contact_def)
    have ne: "serialize_contact c \<noteq> []" using s nn by simp
    obtain q where q: "pb_split (serialize_contact c) (CHR ''|'') = name c # q"
      using pieces by (cases "route c = name c") auto
    show ?thesis
      using se [unfolded q c] ts ne nn tn v by (simp add: parse_entry_def Let_def q)
  qed
qed

interpretation contact_row: wire_codec serialize_contact parse_entry row_contact
  by unfold_locales (rule parse_row)


section \<open>Merging\<close>

definition lookup :: "contact list \<Rightarrow> string \<Rightarrow> contact option" where
  "lookup es r = find (\<lambda>e. route e = r) es"

lemma lookup_simps [simp]:
  "lookup [] r = None"
  "lookup (e # es) r = (if route e = r then Some e else lookup es r)"
  by (simp_all add: lookup_def)

definition merged_entry :: "contact list \<Rightarrow> contact \<Rightarrow> contact" where
  "merged_entry es e = (case lookup es (route e) of Some x \<Rightarrow> e\<lparr>missing_count := missing_count x\<rparr> | None \<Rightarrow> e)"

lemma merge_lookup:
  "fst (merge_entries es e) \<noteq> Noop \<Longrightarrow>
   lookup (snd (merge_entries es e)) = (lookup es)(route e \<mapsto> merged_entry es e)"
  by (induction es e rule: merge_entries.induct)
    (auto simp: merged_entry_def fun_eq_iff overwrite_same_route split: prod.splits if_splits)

lemma merge_noop: "fst (merge_entries es e) = Noop \<Longrightarrow> snd (merge_entries es e) = es"
  by (induction es e rule: merge_entries.induct) (auto split: prod.splits if_splits)

lemma same_endpoint_overwrite: "same_endpoint (overwrite x e) e"
  by (simp add: same_endpoint_def overwrite_def)

lemma merge_again: "merge_entries (snd (merge_entries es e)) e = (Noop, snd (merge_entries es e))"
proof (induction es e rule: merge_entries.induct)
  case (1 e)
  show ?case by (simp add: same_endpoint_def)
next
  case (2 x xs e)
  obtain r ys where m: "merge_entries xs e = (r, ys)" by fastforce
  show ?case using 2 m by (auto simp: same_endpoint_overwrite)
qed

lemma merge_not_rejected: "fst (merge_entries es e) \<noteq> Rejected"
  by (induction es e rule: merge_entries.induct) (auto split: prod.splits if_splits)

lemma pb_merge_again:
  assumes "fst (pb_merge pb e) \<noteq> Rejected"
  shows "pb_merge (snd (pb_merge pb e)) e = (Noop, snd (pb_merge pb e))"
proof (cases rule: pb_merge_cases [of pb e])
  case refused
  with assms show ?thesis by simp
next
  case (merged r es)
  then show ?thesis using merge_again [of "entries pb" e] by (simp add: pb_merge_def)
qed

lemma pb_merge_spec:
  assumes "pb_merge pb e = (r, pb')"
  shows "index pb' = index pb \<and> self_name pb' = self_name pb \<and>
    (if r = Noop \<or> r = Rejected then pb' = pb
     else lookup (entries pb') = (lookup (entries pb))(route e \<mapsto> merged_entry (entries pb) e)) \<and>
    (\<exists>rs. map route (entries pb') = map route (entries pb) @ rs) \<and>
    (r = Rejected \<longleftrightarrow> \<not> valid_entry e \<or>
       (route e \<notin> route ` set (entries pb) \<and> length (entries pb) \<ge> MAX_CONTACTS))"
proof (cases rule: pb_merge_cases [of pb e])
  case refused
  with assms show ?thesis by auto
next
  case (merged r' es)
  then have [simp]: "r' = r" "pb' = pb\<lparr>entries := es\<rparr>" using assms by simp_all
  have "r \<noteq> Rejected" using merge_not_rejected [of "entries pb" e] merged(1) by simp
  moreover have "(\<exists>rs. map route es = map route (entries pb) @ rs)"
    using merge_routes [of "entries pb" e] merged(1) by auto
  moreover have "r = Added \<longleftrightarrow> route e \<notin> route ` set (entries pb)"
    using merge_routes [of "entries pb" e] merged(1) by simp
  ultimately show ?thesis
    using merge_noop [of "entries pb" e] merge_lookup [of "entries pb" e] merged
    by (auto simp: not_le)
qed

section \<open>The cursor\<close>

lemma current_inv: "pb_inv pb \<Longrightarrow> entries pb \<noteq> [] \<Longrightarrow> current pb = Some (entries pb ! index pb)"
  by (simp add: current_def pb_inv_def)

lemma next_prev:
  assumes "pb_inv pb"
  shows "pb_prev (pb_next pb) = pb \<and> pb_next (pb_prev pb) = pb"
proof (cases "entries pb = []")
  case True
  then show ?thesis by (simp add: pb_next_def pb_prev_def)
next
  case False
  then have i: "index pb < length (entries pb)" using assms by (simp add: pb_inv_def)
  define n where "n = length (entries pb)"
  have n: "0 < n" "index pb < n" using i by (auto simp: n_def)
  have a: "((index pb + 1) mod n + n - 1) mod n = index pb"
  proof (cases "index pb + 1 = n")
    case True
    then show ?thesis using n by simp
  next
    case False
    then have "(index pb + 1) mod n = index pb + 1" using n by simp
    then show ?thesis using n by simp
  qed
  have b: "((index pb + n - 1) mod n + 1) mod n = index pb"
  proof (cases "index pb = 0")
    case True
    then show ?thesis using n by simp
  next
    case False
    then have e: "index pb + n - 1 = (index pb - 1) + n" by simp
    have "(index pb + n - 1) mod n = index pb - 1" unfolding e mod_add_self2 using n by simp
    then show ?thesis using n False by (simp only:) simp
  qed
  have nx: "pb_next (pb\<lparr>index := x\<rparr>) = pb\<lparr>index := (x + 1) mod n\<rparr>"
    and pv: "pb_prev (pb\<lparr>index := x\<rparr>) = pb\<lparr>index := (x + n - 1) mod n\<rparr>" for x
    using False by (simp_all add: pb_next_def pb_prev_def n_def)
  have same: "pb\<lparr>index := index pb\<rparr> = pb" by simp
  show ?thesis using nx [of "index pb"] pv [of "index pb"] pv [of "(index pb + 1) mod n"]
      nx [of "(index pb + n - 1) mod n"] unfolding same a b by simp
qed

lemma nth_without:
  assumes "i < length xs" and "j < length xs - 1"
  shows "(take i xs @ drop (Suc i) xs) ! j = (if j < i then xs ! j else xs ! Suc j)"
  using assms by (auto simp: nth_append min_def)

lemma remove_one_current:
  assumes inv: "pb_inv pb" and i: "index_of (\<lambda>e. name e = n) (entries pb) = Some i"
  shows "current (snd (remove_one pb n)) =
    (if i \<noteq> index pb then current pb
     else if length (entries pb) = 1 then None
     else Some (entries pb ! (Suc i mod length (entries pb))))"
proof -
  let ?es = "take i (entries pb) @ drop (Suc i) (entries pb)"
  have il: "i < length (entries pb)" using index_of_SomeD [OF i] by simp
  then have ne: "entries pb \<noteq> []" by auto
  have x: "index pb < length (entries pb)" using inv ne by (simp add: pb_inv_def)
  have len: "length ?es = length (entries pb) - 1" using il by simp
  have inv': "pb_inv (snd (remove_one pb n))" by (rule remove_one_inv [OF inv])
  show ?thesis
  proof (cases "length (entries pb) = 1")
    case True
    then have "?es = []" "i = index pb" using len il x by auto
    with True show ?thesis by (simp add: remove_one_def i current_def)
  next
    case False
    then have es: "?es \<noteq> []" using len ne by (metis length_0_conv One_nat_def Suc_pred length_greater_0_conv)
    define es where "es = ?es"
    define j where "j = (if i < index pb then index pb - 1
      else if i = index pb \<and> index pb \<ge> length es then 0 else index pb)"
    have ese: "es \<noteq> []" "length es = length (entries pb) - 1" using es len by (simp_all add: es_def)
    have r: "snd (remove_one pb n) = pb\<lparr>entries := es, index := j\<rparr>"
      unfolding remove_one_def i option.case Let_def es_def [symmetric] if_not_P [OF ese(1)] j_def by simp
    have j: "j < length (entries pb) - 1" using inv' ese unfolding r by (simp add: pb_inv_def)
    have c: "current (snd (remove_one pb n)) = Some (es ! j)"
      using current_inv [OF inv'] ese unfolding r by simp
    have nth: "es ! j = (if j < i then entries pb ! j else entries pb ! Suc j)"
      unfolding es_def by (rule nth_without [OF il j])
    have cur: "current pb = Some (entries pb ! index pb)" by (rule current_inv [OF inv ne])
    consider "i < index pb" | "index pb < i" | "i = index pb" "Suc i = length (entries pb)"
      | "i = index pb" "Suc i < length (entries pb)" using il by linarith
    then show ?thesis
    proof cases
      case 1
      then show ?thesis unfolding c nth cur by (simp add: j_def)
    next
      case 2
      then show ?thesis unfolding c nth cur by (simp add: j_def)
    next
      case 3
      then have "j = 0" "0 < i" using ese False by (auto simp: j_def)
      with 3 False show ?thesis unfolding c nth by simp
    next
      case 4
      then have "j = i" using ese by (auto simp: j_def)
      with 4 show ?thesis unfolding c nth by simp
    qed
  qed
qed


section \<open>Pruning\<close>

lemma filter_out_nth:
  assumes "distinct (map f xs)" and "i < length xs"
  shows "take i xs @ drop (Suc i) xs = filter (\<lambda>x. f x \<noteq> f (xs ! i)) xs"
proof -
  have s: "xs = take i xs @ xs ! i # drop (Suc i) xs" using assms(2) by (rule id_take_nth_drop)
  have "distinct (map f (take i xs @ xs ! i # drop (Suc i) xs))" using assms(1) s by simp
  then have n: "\<forall>x\<in>set (take i xs) \<union> set (drop (Suc i) xs). f x \<noteq> f (xs ! i)"
    by (auto simp: image_iff)
  have "filter (\<lambda>x. f x \<noteq> f (xs ! i)) xs =
      filter (\<lambda>x. f x \<noteq> f (xs ! i)) (take i xs @ xs ! i # drop (Suc i) xs)" using s by simp
  also have "\<dots> = take i xs @ drop (Suc i) xs" using n by (simp add: filter_id_conv)
  finally show ?thesis by simp
qed

lemma remove_one_distinct:
  assumes d: "distinct (map name (entries pb))"
  shows "entries (snd (remove_one pb n)) = filter (\<lambda>e. name e \<noteq> n) (entries pb) \<and>
    (fst (remove_one pb n) \<longleftrightarrow> n \<in> name ` set (entries pb))"
proof (cases "index_of (\<lambda>e. name e = n) (entries pb)")
  case None
  then have "\<forall>e\<in>set (entries pb). name e \<noteq> n" by (simp add: index_of_None_iff)
  with None show ?thesis by (auto simp: remove_one_def filter_id_conv)
next
  case (Some i)
  from index_of_SomeD [OF this] have i: "i < length (entries pb)" "name (entries pb ! i) = n" by auto
  then have "n \<in> name ` set (entries pb)" by (metis image_eqI nth_mem)
  with Some show ?thesis using filter_out_nth [OF d i(1)] by (simp add: remove_one_def Let_def i(2))
qed

lemma remove_one_keeps_current:
  assumes inv: "pb_inv pb" and c: "current pb = Some c" "name c \<noteq> n"
  shows "current (snd (remove_one pb n)) = Some c"
proof (cases "index_of (\<lambda>e. name e = n) (entries pb)")
  case None
  with c show ?thesis by (simp add: remove_one_def)
next
  case (Some i)
  have ne: "entries pb \<noteq> []" using c(1) by (auto simp: current_def)
  have "name (entries pb ! i) = n" using index_of_SomeD [OF Some] by simp
  moreover have "entries pb ! index pb = c" using current_inv [OF inv ne] c(1) by simp
  ultimately have "i \<noteq> index pb" using c(2) by auto
  with remove_one_current [OF inv Some] c show ?thesis by simp
qed

lemma remove_names_spec:
  assumes "pb_inv pb" and "distinct (map name (entries pb))"
  shows "entries (snd (remove_names pb ns)) = filter (\<lambda>e. name e \<notin> set ns) (entries pb) \<and>
    (fst (remove_names pb ns) \<longleftrightarrow> (\<exists>n\<in>set ns. n \<in> name ` set (entries pb))) \<and>
    (\<forall>c. current pb = Some c \<and> name c \<notin> set ns \<longrightarrow> current (snd (remove_names pb ns)) = Some c)"
  using assms
proof (induction ns arbitrary: pb)
  case Nil
  then show ?case by simp
next
  case (Cons n ns)
  let ?pb = "snd (remove_one pb n)"
  note r = remove_one_distinct [OF Cons.prems(2), of n]
  have d: "distinct (map name (entries ?pb))"
    using r Cons.prems(2) by (simp add: distinct_map_filter)
  note IH = Cons.IH [OF remove_one_inv [OF Cons.prems(1), of n] d]
  have e: "entries (snd (remove_names pb (n # ns))) = filter (\<lambda>e. name e \<notin> set (n # ns)) (entries pb)"
    using IH r by (simp add: case_prod_beta Let_def)
  have f: "fst (remove_names pb (n # ns)) \<longleftrightarrow> (\<exists>m\<in>set (n # ns). m \<in> name ` set (entries pb))"
  proof -
    have A: "fst (remove_names pb (n # ns)) \<longleftrightarrow> n \<in> name ` set (entries pb) \<or>
        (\<exists>m\<in>set ns. m \<in> name ` {x \<in> set (entries pb). name x \<noteq> n})"
      using IH r by (simp add: case_prod_beta Let_def)
    show ?thesis unfolding A by (auto simp: image_iff)
  qed
  have c: "current (snd (remove_names pb (n # ns))) = Some x"
    if "current pb = Some x" "name x \<notin> set (n # ns)" for x
    using IH remove_one_keeps_current [OF Cons.prems(1) that(1), of n] that(2)
    by (simp add: case_prod_beta Let_def)
  show ?case using e f c by blast
qed

lemma current_map:
  "current (pb\<lparr>entries := map g (entries pb)\<rparr>) = map_option g (current pb)"
proof (cases "entries pb = []")
  case False
  then have "index pb mod length (entries pb) < length (entries pb)" by simp
  with False show ?thesis by (simp add: current_def)
qed (simp add: current_def)

lemma commit_cycle_spec:
  assumes inv: "pb_inv pb" and d: "distinct (map name (entries pb))" and t: "t \<noteq> 0"
  shows "entries (snd (commit_cycle pb seen t)) =
      filter (\<lambda>e. missing_count e < t) (map (count_missing seen) (entries pb)) \<and>
    (fst (commit_cycle pb seen t) \<longleftrightarrow> (\<exists>e\<in>set (entries pb). missing_count (count_missing seen e) \<ge> t)) \<and>
    (\<forall>c. current pb = Some c \<and> missing_count (count_missing seen c) < t \<longrightarrow>
       current (snd (commit_cycle pb seen t)) = Some (count_missing seen c))"
proof -
  let ?pb = "pb\<lparr>entries := map (count_missing seen) (entries pb)\<rparr>"
  let ?ns = "map name (filter (\<lambda>e. missing_count e \<ge> t) (entries ?pb))"
  have c: "commit_cycle pb seen t = remove_names ?pb ?ns" using t by (simp add: commit_cycle_def Let_def)
  have inv': "pb_inv ?pb" using inv by (simp add: pb_inv_def o_def list.pred_map)
  have d': "distinct (map name (entries ?pb))" using d by (simp add: o_def)
  have inj: "inj_on name (set (entries ?pb))" using d' by (simp only: distinct_map)
  have mem: "name e \<in> set ?ns \<longleftrightarrow> missing_count e \<ge> t" if "e \<in> set (entries ?pb)" for e
    using that inj by (auto simp only: set_map set_filter inj_on_def image_iff mem_Collect_eq)
  note spec = remove_names_spec [OF inv' d', of ?ns]
  have "filter (\<lambda>e. name e \<notin> set ?ns) (entries ?pb) = filter (\<lambda>e. missing_count e < t) (entries ?pb)"
    using mem by (intro filter_cong) (auto simp: not_le)
  moreover have "(\<exists>n\<in>set ?ns. n \<in> name ` set (entries ?pb)) \<longleftrightarrow>
      (\<exists>e\<in>set (entries pb). missing_count (count_missing seen e) \<ge> t)" by auto
  moreover have "current (snd (remove_names ?pb ?ns)) = Some (count_missing seen x)"
    if "current pb = Some x" "missing_count (count_missing seen x) < t" for x
  proof -
    have cur: "current ?pb = Some (count_missing seen x)" using current_map that(1) by simp
    have "x \<in> set (entries pb)" using that(1) by (auto simp: current_def split: if_splits)
    then have "count_missing seen x \<in> set (entries ?pb)" by simp
    with mem [OF this] that(2) spec cur show ?thesis by (auto simp: not_le)
  qed
  ultimately show ?thesis using spec unfolding c by simp
qed

section \<open>Replacing all\<close>

lemma index_of_select:
  assumes "\<exists>e\<in>set es. route e = r" and "\<forall>e\<in>set es. name e = r \<longrightarrow> route e = r"
  obtains i where "index_of (matches r) es = Some i" "i < length es" "route (es ! i) = r"
proof -
  obtain i where i: "index_of (matches r) es = Some i"
    using assms(1) by (cases "index_of (matches r) es") (auto simp: index_of_None_iff matches_def)
  from index_of_SomeD [OF i] have "i < length es" "matches r (es ! i)" by auto
  with assms(2) i that show thesis by (auto simp: matches_def)
qed

lemma replace_all_selection:
  assumes "current_route pb = r" and "r \<noteq> []"
    and "\<exists>e\<in>set (entries (snd (replace_all pb es))). route e = r"
    and "\<forall>e\<in>set (entries (snd (replace_all pb es))). name e = r \<longrightarrow> route e = r"
  shows "current_route (snd (replace_all pb es)) = r"
proof -
  let ?n = "normalize_entries (self_name pb) [] es"
  have e: "entries (snd (replace_all pb es)) = ?n"
    by (auto simp: replace_all_def Let_def pb_select_def split: option.splits)
  obtain i where i: "index_of (matches r) ?n = Some i" "i < length ?n" "route (?n ! i) = r"
    using index_of_select [of ?n r] assms(3,4) unfolding e by blast
  have "snd (replace_all pb es) = pb\<lparr>entries := ?n, index := i\<rparr>"
    using assms(1,2) i(1) by (simp add: replace_all_def Let_def pb_select_def)
  then show ?thesis using i by (auto simp: current_route_def current_def)
qed


section \<open>Properties\<close>

definition sample_contact :: "string \<Rightarrow> string \<Rightarrow> contact" where
  "sample_contact n r = \<lparr>name = n, route = r, ip = ''10.0.0.7'', endpoint = SIP, port = 5060, rtp_port = 40000,
     sip_transport_tcp = False, directional_audio_v1 = False, audio_capability = [], missing_count = 0\<rparr>"

text \<open>
  C37: Whatever sequence of additions, batches, replacements, removals, update cycles and cursor
  moves is applied to a new phonebook, it holds at most sixty-four contacts, all of them valid, no
  two with one route, and the cursor is on a contact (or 0 when there is none).
\<close>

theorem phonebook_wellformed:
  "pb_inv (foldl pb_step new_phonebook evs)"
  by (rule phonebook.run_inv) (simp add: pb_inv_def new_phonebook_def MAX_CONTACTS_def)

text \<open>
  Merging an entry is a map update by route that never moves the cursor or reorders the list.
  A rejected or unneeded entry leaves the phonebook as it was; any other addition binds exactly
  its route, keeping the missing count of a known contact; it is rejected exactly when it is the
  device itself, invalid, or a new route in a full list; and adding it a second time is a no-op.
\<close>

theorem add_entry_is_map_update:
  assumes "add_entry pb e = (r, pb')"
  shows "(r = Noop \<or> r = Rejected \<longrightarrow> pb' = pb) \<and>
    (r \<noteq> Noop \<and> r \<noteq> Rejected \<longrightarrow>
       lookup (entries pb') = (lookup (entries pb))(route e \<mapsto> merged_entry (entries pb) e)) \<and>
    index pb' = index pb \<and> (\<exists>rs. map route (entries pb') = map route (entries pb) @ rs) \<and>
    (r = Rejected \<longleftrightarrow> is_self pb (name e) \<or> \<not> valid_entry e \<or>
       (route e \<notin> route ` set (entries pb) \<and> length (entries pb) \<ge> MAX_CONTACTS)) \<and>
    (r \<noteq> Rejected \<longrightarrow> add_entry pb' e = (Noop, pb'))"
proof (cases "is_self pb (name e)")
  case True
  with assms show ?thesis by (simp add: add_entry_def)
next
  case False
  then have m: "pb_merge pb e = (r, pb')" using assms by (simp add: add_entry_def)
  note spec = pb_merge_spec [OF m]
  have "\<not> is_self pb' (name e)" using False spec by (simp add: is_self_def)
  then have "r \<noteq> Rejected \<longrightarrow> add_entry pb' e = (Noop, pb')"
    using pb_merge_again [of pb e] m by (simp add: add_entry_def)
  with spec False show ?thesis by auto
qed

theorem add_entry_is_map_update_witness:
  "lookup (entries (snd (add_entry new_phonebook (sample_contact ''Hall'' ''101'')))) ''101'' =
     Some (sample_contact ''Hall'' ''101'')"
proof -
  let ?e = "sample_contact ''Hall'' ''101''"
  obtain r pb' where a: "add_entry new_phonebook ?e = (r, pb')" by fastforce
  have "r = Added"
    using a by (simp add: add_entry_def is_self_def new_phonebook_def pb_merge_def sample_contact_def
      valid_entry_def valid_text_field_def MAX_NAME_BYTES_def MAX_ROUTE_BYTES_def MAX_ADDRESS_BYTES_def
      MAX_CONTACTS_def split: if_splits)
  then have "lookup (entries pb') = (lookup (entries new_phonebook))(route ?e \<mapsto> merged_entry (entries new_phonebook) ?e)"
    using add_entry_is_map_update [OF a] by simp
  then show ?thesis using a by (simp add: sample_contact_def merged_entry_def new_phonebook_def)
qed

text \<open>
  The cursor follows its contact. Stepping forward and back are inverse; removing another
  contact leaves the current one current; removing the current one moves to the next contact, the
  first one after the last; and replacing the whole list keeps the selected route selected when
  it is still there (and is not also the name of another contact).
\<close>

theorem cursor_follows_contact:
  assumes "pb_inv pb"
  shows "pb_prev (pb_next pb) = pb \<and> pb_next (pb_prev pb) = pb \<and>
    (\<forall>n i. index_of (\<lambda>e. name e = n) (entries pb) = Some i \<longrightarrow>
       current (snd (remove_one pb n)) =
         (if i \<noteq> index pb then current pb
          else if length (entries pb) = 1 then None
          else Some (entries pb ! (Suc i mod length (entries pb))))) \<and>
    (\<forall>es. let pb' = snd (replace_all pb es); r = current_route pb in
       r \<noteq> [] \<and> (\<exists>e\<in>set (entries pb'). route e = r) \<and> (\<forall>e\<in>set (entries pb'). name e = r \<longrightarrow> route e = r) \<longrightarrow>
       current_route pb' = r)"
  using next_prev [OF assms] remove_one_current [OF assms] replace_all_selection [OF refl, of pb]
  unfolding Let_def by blast

theorem cursor_follows_contact_witness:
  "current (snd (remove_one \<lparr>entries = [sample_contact ''A'' ''1'', sample_contact ''B'' ''2''], index = 1, self_name = []\<rparr> ''A'')) =
     Some (sample_contact ''B'' ''2'')"
proof -
  let ?pb = "\<lparr>entries = [sample_contact ''A'' ''1'', sample_contact ''B'' ''2''], index = 1, self_name = []\<rparr>"
  have inv: "pb_inv ?pb"
    by (simp add: pb_inv_def sample_contact_def valid_entry_def valid_text_field_def MAX_NAME_BYTES_def
      MAX_ROUTE_BYTES_def MAX_ADDRESS_BYTES_def MAX_CONTACTS_def)
  have i: "index_of (\<lambda>e. name e = ''A'') (entries ?pb) = Some 0" by (simp add: sample_contact_def)
  from cursor_follows_contact [OF inv] i have "current (snd (remove_one ?pb ''A'')) = current ?pb" by auto
  then show ?thesis by (simp add: current_def)
qed

text \<open>
  A contact printed as a compact transport row is read back unchanged, with or without a
  separate route, name-only contacts included; so distinct contacts have distinct rows. Decimal
  ports up to 65535 are read exactly and larger ones refused.
\<close>

theorem contact_row_roundtrip:
  "(\<forall>c. row_contact c \<longrightarrow> parse_entry (serialize_contact c) = Some c \<and>
      (\<forall>d. row_contact d \<and> serialize_contact d = serialize_contact c \<longrightarrow> d = c)) \<and>
   (\<forall>n. parse_u16 (dec n) = (if n \<le> 65535 then Some (of_nat n) else None))"
proof (intro conjI allI impI)
  fix c d
  assume c: "row_contact c"
  then show "parse_entry (serialize_contact c) = Some c" by (rule parse_row)
  assume "row_contact d \<and> serialize_contact d = serialize_contact c"
  with c show "d = c" by (blast intro: contact_row.enc_inj)
next
  fix n
  show "parse_u16 (dec n) = (if n \<le> 65535 then Some (of_nat n) else None)"
    using parse_u16_digits [of "dec n"] dec_digits [of n] by simp
qed

theorem contact_row_roundtrip_witness:
  "parse_entry ''Hall|101|10.0.0.7|5060|40000|sip_udp'' = Some (sample_contact ''Hall'' ''101'')"
proof -
  let ?c = "sample_contact ''Hall'' ''101''"
  have "row_contact ?c"
    by (simp add: row_contact_def sample_contact_def valid_entry_def valid_text_field_def MAX_NAME_BYTES_def
      MAX_ROUTE_BYTES_def MAX_ADDRESS_BYTES_def MAX_CAPABILITY_BYTES_def trimmed_def is_blank_def)
  moreover have "serialize_contact ?c = ''Hall|101|10.0.0.7|5060|40000|sip_udp''"
    by (simp add: serialize_contact_def serialize_endpoint_def sample_contact_def dec.simps digit_char_def char_of_def bit_iff_odd)
  ultimately show ?thesis using contact_row_roundtrip by metis
qed

text \<open>
  An update cycle with a pruning threshold, on a phonebook whose contacts have distinct names,
  keeps exactly the contacts whose count of missed cycles stays below the threshold, in order,
  reports a change exactly when it removed one, and leaves the cursor on the current contact when
  that one is kept; with threshold 0 it removes none.
\<close>

theorem commit_cycle_prunes_exactly:
  assumes "pb_inv pb" and "distinct (map name (entries pb))"
  shows "(t \<noteq> 0 \<longrightarrow>
      entries (snd (commit_cycle pb seen t)) =
        filter (\<lambda>e. missing_count e < t) (map (count_missing seen) (entries pb)) \<and>
      (fst (commit_cycle pb seen t) \<longleftrightarrow> (\<exists>e\<in>set (entries pb). missing_count (count_missing seen e) \<ge> t)) \<and>
      (\<forall>c. current pb = Some c \<and> missing_count (count_missing seen c) < t \<longrightarrow>
         current (snd (commit_cycle pb seen t)) = Some (count_missing seen c))) \<and>
    entries (snd (commit_cycle pb seen 0)) = map (count_missing seen) (entries pb)"
  using commit_cycle_spec [OF assms] by (simp add: commit_cycle_def Let_def)

theorem commit_cycle_prunes_exactly_witness:
  "entries (snd (commit_cycle \<lparr>entries = [sample_contact ''A'' ''1'', sample_contact ''B'' ''2''],
       index = 1, self_name = []\<rparr> {''B''} 1)) = [sample_contact ''B'' ''2'']"
proof -
  let ?pb = "\<lparr>entries = [sample_contact ''A'' ''1'', sample_contact ''B'' ''2''], index = 1, self_name = []\<rparr>"
  have inv: "pb_inv ?pb"
    by (simp add: pb_inv_def sample_contact_def valid_entry_def valid_text_field_def MAX_NAME_BYTES_def
      MAX_ROUTE_BYTES_def MAX_ADDRESS_BYTES_def MAX_CONTACTS_def)
  have d: "distinct (map name (entries ?pb))" by (simp add: sample_contact_def)
  have "entries (snd (commit_cycle ?pb {''B''} 1)) =
      filter (\<lambda>e. missing_count e < 1) (map (count_missing {''B''}) (entries ?pb))"
    using commit_cycle_prunes_exactly [OF inv d, of 1] by simp
  then show ?thesis by (simp add: count_missing_def sample_contact_def)
qed

text \<open>
  Contacts are unique by route, but an update cycle prunes by name. With two contacts of one
  name, the one to prune and a fresh one listed before it, the cycle removes the fresh one and
  keeps the one that has been missing for the whole threshold.
\<close>

theorem commit_cycle_prunes_namesake:
  "let fresh = sample_contact ''Desk'' ''101''; stale = (sample_contact ''Desk'' ''102'')\<lparr>missing_count := 2\<rparr>;
       pb = \<lparr>entries = [fresh, stale], index = 0, self_name = []\<rparr>
   in pb_inv pb \<and> entries (snd (commit_cycle pb {} 3)) = [stale\<lparr>missing_count := 3\<rparr>]"
  by (simp add: Let_def pb_inv_def sample_contact_def valid_entry_def valid_text_field_def MAX_NAME_BYTES_def
      MAX_ROUTE_BYTES_def MAX_ADDRESS_BYTES_def MAX_CONTACTS_def commit_cycle_def count_missing_def remove_one_def word_le_nat_alt)

end
