(* ===== verification/AudioFormat.thy ===== *)
theory AudioFormat
  imports Prelude
begin

text \<open>
  The audio formats of \<open>sip_types.h\<close>: the format record with its frame sizes and validity
  check, the 32-bit packing that travels with every received frame, the wire encodings, and the
  choice of common formats and packet times between two format lists.

  The C++ enums have a fixed underlying type, so \<open>static_cast\<close> from a number can make a value
  that is none of the enumerators: \<open>PcmRaw\<close> and \<open>CodecRaw\<close> stand for those. \<open>size_t\<close> is the
  32-bit one of the ESP32, and its products wrap. An \<open>AudioFormatList\<close> (an array of eight and a
  count) is the list of its first \<open>count\<close> formats.
\<close>

section \<open>The data\<close>

type_synonym size = "32 word"

datatype pcm_format = S16LE | S24LE | S24LE_IN_S32 | S32LE | PcmRaw byte

datatype audio_codec = PCM | OPUS | CodecRaw byte

fun pcm_format_u8 :: "pcm_format \<Rightarrow> byte" where
  "pcm_format_u8 S16LE = 1"
| "pcm_format_u8 S24LE = 2"
| "pcm_format_u8 S24LE_IN_S32 = 3"
| "pcm_format_u8 S32LE = 4"
| "pcm_format_u8 (PcmRaw n) = n"

definition pcm_format_of_u8 :: "byte \<Rightarrow> pcm_format" where
  "pcm_format_of_u8 n =
     (if n = 1 then S16LE else if n = 2 then S24LE else if n = 3 then S24LE_IN_S32
      else if n = 4 then S32LE else PcmRaw n)"

fun audio_codec_u8 :: "audio_codec \<Rightarrow> byte" where
  "audio_codec_u8 PCM = 0"
| "audio_codec_u8 OPUS = 1"
| "audio_codec_u8 (CodecRaw n) = n"

definition audio_codec_of_u8 :: "byte \<Rightarrow> audio_codec" where
  "audio_codec_of_u8 n = (if n = 0 then PCM else if n = 1 then OPUS else CodecRaw n)"

record audio_format =
  sample_rate :: u32
  pcm_format :: pcm_format
  channels :: byte
  frame_ms :: u16
  codec :: audio_codec

type_synonym audio_format_list = "audio_format list"

definition MAX_AUDIO_FORMATS :: nat where
  "MAX_AUDIO_FORMATS = 8"

definition UDP_SAFE_AUDIO_PAYLOAD_BYTES :: size where
  "UDP_SAFE_AUDIO_PAYLOAD_BYTES = 1200"

definition MAX_AUDIO_CHUNK :: nat where
  "MAX_AUDIO_CHUNK = 16 * 1024"

definition default_audio_format :: audio_format where
  "default_audio_format =
     \<lparr>sample_rate = 16000, pcm_format = S16LE, channels = 1, frame_ms = 16, codec = PCM\<rparr>"

definition disabled_audio_format :: audio_format where
  "disabled_audio_format = default_audio_format\<lparr>sample_rate := 0, channels := 0, frame_ms := 0\<rparr>"

definition audio_direction_attribute :: "bool \<Rightarrow> bool \<Rightarrow> string" where
  "audio_direction_attribute send receive =
     (if send \<and> receive then ''sendrecv'' else if send then ''sendonly''
      else if receive then ''recvonly'' else ''inactive'')"

section \<open>Sizes and validity\<close>

fun container_bytes_per_sample :: "pcm_format \<Rightarrow> byte" where
  "container_bytes_per_sample S16LE = 2"
| "container_bytes_per_sample S24LE = 3"
| "container_bytes_per_sample S24LE_IN_S32 = 4"
| "container_bytes_per_sample S32LE = 4"
| "container_bytes_per_sample (PcmRaw n) = 0"

definition nominal_frame_samples :: "audio_format \<Rightarrow> size" where
  "nominal_frame_samples f = of_nat (unat (sample_rate f) * unat (frame_ms f) div 1000)"

definition nominal_frame_bytes :: "audio_format \<Rightarrow> size" where
  "nominal_frame_bytes f =
     nominal_frame_samples f * ucast (channels f) * ucast (container_bytes_per_sample (pcm_format f))"

definition rtp_bytes_per_sample :: "audio_format \<Rightarrow> byte" where
  "rtp_bytes_per_sample f =
     (if pcm_format f = S24LE_IN_S32 then 3 else container_bytes_per_sample (pcm_format f))"

definition nominal_rtp_payload_bytes :: "audio_format \<Rightarrow> size" where
  "nominal_rtp_payload_bytes f =
     nominal_frame_samples f * ucast (channels f) * ucast (rtp_bytes_per_sample f)"

definition valid_rate :: "u32 \<Rightarrow> bool" where
  "valid_rate r \<longleftrightarrow> r = 8000 \<or> r = 12000 \<or> r = 16000 \<or> r = 24000 \<or> r = 32000 \<or> r = 44100 \<or> r = 48000"

definition valid_opus_rate :: "u32 \<Rightarrow> bool" where
  "valid_opus_rate r \<longleftrightarrow> r = 8000 \<or> r = 12000 \<or> r = 16000 \<or> r = 24000 \<or> r = 48000"

definition format_valid :: "audio_format \<Rightarrow> bool" where
  "format_valid f \<longleftrightarrow>
     (let valid_channels = (channels f = 1 \<or> channels f = 2);
          valid_frame = (frame_ms f = 10 \<or> frame_ms f = 16 \<or> frame_ms f = 20 \<or> frame_ms f = 32);
          whole_frames = (unat (sample_rate f) * unat (frame_ms f)) mod 1000 = 0;
          valid_codec = (codec f = PCM \<or>
            (codec f = OPUS \<and> valid_opus_rate (sample_rate f) \<and> pcm_format f = S16LE \<and>
             channels f = 1 \<and> (frame_ms f = 10 \<or> frame_ms f = 20)))
      in valid_rate (sample_rate f) \<and> valid_channels \<and> valid_frame \<and> whole_frames \<and> valid_codec \<and>
         container_bytes_per_sample (pcm_format f) \<noteq> 0)"

definition decoded_pcm_format :: "audio_format \<Rightarrow> audio_format" where
  "decoded_pcm_format f = f\<lparr>codec := PCM\<rparr>"

definition same_decoded_audio_geometry :: "audio_format \<Rightarrow> audio_format \<Rightarrow> bool" where
  "same_decoded_audio_geometry l r \<longleftrightarrow>
     format_valid l \<and> format_valid r \<and> decoded_pcm_format l = decoded_pcm_format r"

section \<open>The packed format\<close>

definition pack_audio_frame_ms :: "u16 \<Rightarrow> byte" where
  "pack_audio_frame_ms ms = (if ms = 10 then 0 else if ms = 16 then 1 else if ms = 20 then 2 else 3)"

definition unpack_audio_frame_ms :: "byte \<Rightarrow> u16" where
  "unpack_audio_frame_ms p = (if p = 0 then 10 else if p = 1 then 16 else if p = 2 then 20 else 32)"

definition pack_audio_format :: "audio_format \<Rightarrow> u32" where
  "pack_audio_format f =
     (sample_rate f AND 0xFFFF) OR
     push_bit 16 (ucast (pcm_format_u8 (pcm_format f)) AND 0x07) OR
     push_bit 19 (ucast (channels f AND 0x03)) OR
     push_bit 21 (ucast (pack_audio_frame_ms (frame_ms f))) OR
     push_bit 23 (ucast (audio_codec_u8 (codec f)))"

definition unpack_audio_format :: "u32 \<Rightarrow> audio_format" where
  "unpack_audio_format p =
     \<lparr>sample_rate = p AND 0xFFFF,
      pcm_format = pcm_format_of_u8 (ucast (drop_bit 16 p AND 0x07)),
      channels = ucast (drop_bit 19 p AND 0x03),
      frame_ms = unpack_audio_frame_ms (ucast (drop_bit 21 p AND 0x03)),
      codec = audio_codec_of_u8 (ucast (drop_bit 23 p AND 0x03))\<rparr>"

section \<open>Wire encodings\<close>

fun audio_format_bits_per_sample :: "pcm_format \<Rightarrow> byte" where
  "audio_format_bits_per_sample S16LE = 16"
| "audio_format_bits_per_sample S24LE = 24"
| "audio_format_bits_per_sample S24LE_IN_S32 = 32"
| "audio_format_bits_per_sample S32LE = 32"
| "audio_format_bits_per_sample (PcmRaw n) = 16"

definition audio_format_rtp_encoding :: "audio_format \<Rightarrow> size \<Rightarrow> string option" where
  "audio_format_rtp_encoding f max_payload =
     (if codec f = OPUS then Some ''opus''
      else if nominal_rtp_payload_bytes f > max_payload then None
      else if pcm_format f = S16LE then Some ''L16''
      else if pcm_format f = S24LE \<or> pcm_format f = S24LE_IN_S32 then Some ''L24''
      else None)"

definition audio_format_rtp_clock_rate :: "audio_format \<Rightarrow> u32" where
  "audio_format_rtp_clock_rate f = (if codec f = OPUS then 48000 else sample_rate f)"

definition audio_format_rtp_channels :: "audio_format \<Rightarrow> byte" where
  "audio_format_rtp_channels f = (if codec f = OPUS then 2 else channels f)"

definition audio_formats_share_wire_encoding :: "audio_format \<Rightarrow> audio_format \<Rightarrow> bool" where
  "audio_formats_share_wire_encoding l r \<longleftrightarrow>
     (if codec l \<noteq> codec r \<or> frame_ms l \<noteq> frame_ms r then False
      else if codec l = OPUS then True
      else sample_rate l = sample_rate r \<and> channels l = channels r \<and> pcm_format l = pcm_format r)"

section \<open>Choosing from format lists\<close>

definition audio_format_list_contains :: "audio_format_list \<Rightarrow> audio_format \<Rightarrow> bool" where
  "audio_format_list_contains fs f \<longleftrightarrow> list_ex (\<lambda>g. g = f) fs"

fun choose_common_audio_format :: "audio_format_list \<Rightarrow> audio_format_list \<Rightarrow> audio_format option" where
  "choose_common_audio_format [] supported = None"
| "choose_common_audio_format (f # fs) supported =
     (if audio_format_list_contains supported f then Some f
      else choose_common_audio_format fs supported)"

definition audio_format_list_supports_rtp_ptime :: "audio_format_list \<Rightarrow> byte \<Rightarrow> size \<Rightarrow> bool" where
  "audio_format_list_supports_rtp_ptime fs ptime max_payload \<longleftrightarrow>
     list_ex (\<lambda>f. frame_ms f = ucast ptime \<and> audio_format_rtp_encoding f max_payload \<noteq> None) fs"

fun choose_ptime_from :: "byte list \<Rightarrow> audio_format_list \<Rightarrow> audio_format_list \<Rightarrow> size \<Rightarrow> byte" where
  "choose_ptime_from [] tx rx max_payload = 0"
| "choose_ptime_from (p # ps) tx rx max_payload =
     (if (tx \<noteq> [] \<or> rx \<noteq> []) \<and>
         (tx = [] \<or> audio_format_list_supports_rtp_ptime tx p max_payload) \<and>
         (rx = [] \<or> audio_format_list_supports_rtp_ptime rx p max_payload)
      then p else choose_ptime_from ps tx rx max_payload)"

definition choose_common_audio_ptime :: "audio_format_list \<Rightarrow> audio_format_list \<Rightarrow> size \<Rightarrow> byte" where
  "choose_common_audio_ptime = choose_ptime_from [10, 16, 20, 32]"

fun match_wire_format :: "string \<Rightarrow> audio_format_list \<Rightarrow> audio_format \<Rightarrow> size \<Rightarrow> audio_format option" where
  "match_wire_format enc [] remote max_payload = None"
| "match_wire_format enc (c # cs) remote max_payload =
     (if audio_formats_share_wire_encoding c remote \<and>
         audio_format_rtp_encoding c max_payload = Some enc
      then Some c else match_wire_format enc cs remote max_payload)"

definition audio_format_list_match_udp_safe ::
    "audio_format_list \<Rightarrow> audio_format \<Rightarrow> size \<Rightarrow> audio_format option" where
  "audio_format_list_match_udp_safe fs remote max_payload =
     (if codec remote = PCM \<and> nominal_rtp_payload_bytes remote > max_payload then None
      else case audio_format_rtp_encoding remote max_payload of
             None \<Rightarrow> None
           | Some enc \<Rightarrow> match_wire_format enc fs remote max_payload)"

section \<open>Validity and the packing\<close>

lemma packed_fields:
  fixes r p c m k :: u32
  assumes "unat r < 2 ^ 16" "unat p < 2 ^ 3" "unat c < 2 ^ 2" "unat m < 2 ^ 2" "unat k < 2 ^ 2"
  defines "w \<equiv> r OR push_bit 16 p OR push_bit 19 c OR push_bit 21 m OR push_bit 23 k"
  shows "w AND 0xFFFF = r" "drop_bit 16 w AND 7 = p" "drop_bit 19 w AND 3 = c"
    "drop_bit 21 w AND 3 = m" "drop_bit 23 w AND 3 = k"
proof -
  have masks: "(0xFFFF::u32) = mask 16" "(7::u32) = mask 3" "(3::u32) = mask 2"
    by (simp_all add: mask_eq_exp_minus_1)
  note bnd = bit_bound [OF assms(1)] bit_bound [OF assms(2)] bit_bound [OF assms(3)]
    bit_bound [OF assms(4)] bit_bound [OF assms(5)]
  note s = w_def masks bit_and_iff bit_or_iff bit_push_bit_iff bit_drop_bit_eq bit_mask_iff
  show "w AND 0xFFFF = r"
    by (rule bit_eqI) (auto simp: s dest: bnd)
  show "drop_bit 16 w AND 7 = p"
    by (rule bit_eqI) (auto simp: s dest: bnd)
  show "drop_bit 19 w AND 3 = c" 
    by (rule bit_eqI) (auto simp: s dest: bnd)
  show "drop_bit 21 w AND 3 = m" 
    by (rule bit_eqI) (auto simp: s dest: bnd)
  show  "drop_bit 23 w AND 3 = k" 
    by (rule bit_eqI) (auto simp: s dest: bnd)
qed

lemma valid_rate_bound: "valid_rate r \<Longrightarrow> unat r \<le> 48000"
  by (auto simp: valid_rate_def)

lemma pcm_format_u8_inverse:
  "container_bytes_per_sample p \<noteq> 0 \<Longrightarrow> pcm_format_of_u8 (pcm_format_u8 p) = p"
  by (cases p) (simp_all add: pcm_format_of_u8_def)

lemma pcm_format_u8_bound:
  "container_bytes_per_sample p \<noteq> 0 \<Longrightarrow> pcm_format_u8 p \<in> {1, 2, 3, 4}"
  by (cases p) simp_all

lemma frame_ms_inverse:
  "ms = 10 \<or> ms = 16 \<or> ms = 20 \<or> ms = 32 \<Longrightarrow> unpack_audio_frame_ms (pack_audio_frame_ms ms) = ms"
  by (auto simp: unpack_audio_frame_ms_def pack_audio_frame_ms_def)

lemma format_validD:
  assumes "format_valid f"
  shows "valid_rate (sample_rate f)" and "channels f = 1 \<or> channels f = 2"
    and "frame_ms f = 10 \<or> frame_ms f = 16 \<or> frame_ms f = 20 \<or> frame_ms f = 32"
    and "container_bytes_per_sample (pcm_format f) \<noteq> 0"
    and "codec f = PCM \<or> codec f = OPUS"
    and "(unat (sample_rate f) * unat (frame_ms f)) mod 1000 = 0"
  using assms by (auto simp: format_valid_def Let_def)

lemma unpack_pack:
  assumes "format_valid f"
  shows "unpack_audio_format (pack_audio_format f) = f"
proof -
  note v = format_validD [OF assms]
  define m where "m = pack_audio_frame_ms (frame_ms f)"
  have r: "unat (sample_rate f) < 2 ^ 16"
    using valid_rate_bound [OF v(1)] by simp
  have r': "sample_rate f AND 0xFFFF = sample_rate f"
    using v(1) by (auto simp: valid_rate_def)
  have p: "ucast (pcm_format_u8 (pcm_format f)) AND (0x07::u32) = ucast (pcm_format_u8 (pcm_format f))"
    "unat (ucast (pcm_format_u8 (pcm_format f)) :: u32) < 2 ^ 3"
    using pcm_format_u8_bound [OF v(4)] by auto
  have c: "channels f AND 3 = channels f" "unat (ucast (channels f) :: u32) < 2 ^ 2"
    using v(2) by auto
  have m: "unat (ucast m :: u32) < 2 ^ 2" and m': "ucast (ucast m :: u32) = m"
    by (auto simp: m_def pack_audio_frame_ms_def)
  have k: "unat (ucast (audio_codec_u8 (codec f)) :: u32) < 2 ^ 2"
    "audio_codec_of_u8 (ucast (ucast (audio_codec_u8 (codec f)) :: u32)) = codec f"
    using v(5) by (auto simp: audio_codec_of_u8_def)
  have pk: "pack_audio_format f = sample_rate f OR push_bit 16 (ucast (pcm_format_u8 (pcm_format f))) OR
    push_bit 19 (ucast (channels f)) OR push_bit 21 (ucast m) OR push_bit 23 (ucast (audio_codec_u8 (codec f)))"
    by (simp only: pack_audio_format_def r' p c m_def)
  have p'': "pcm_format_of_u8 (ucast (ucast (pcm_format_u8 (pcm_format f)) :: u32)) = pcm_format f"
    using pcm_format_u8_inverse [OF v(4)] pcm_format_u8_bound [OF v(4)] by auto
  have c'': "ucast (ucast (channels f) :: u32) = channels f"
    using v(2) by auto
  show ?thesis
    unfolding unpack_audio_format_def pk
    by (simp only: packed_fields [OF r p(2) c(2) m k(1)] p'' c'' m' k(2))
      (simp add: m_def frame_ms_inverse [OF v(3)])
qed

lemma pack_valid_nonzero: "format_valid f \<Longrightarrow> pack_audio_format f \<noteq> 0"
proof
  assume f: "format_valid f" and z: "pack_audio_format f = 0"
  have "sample_rate (unpack_audio_format (pack_audio_format f)) = 0"
    by (simp add: z unpack_audio_format_def)
  with unpack_pack [OF f] format_validD(1) [OF f] show False by (auto simp: valid_rate_def)
qed

interpretation packed: wire_codec pack_audio_format "\<lambda>w. Some (unpack_audio_format w)" format_valid
  by unfold_locales (simp add: unpack_pack)

section \<open>Frame sizes\<close>

lemma frame_sizes:
  assumes "format_valid f"
  shows "unat (nominal_frame_samples f) * 1000 = unat (sample_rate f) * unat (frame_ms f)"
    and "unat (nominal_frame_bytes f) =
      unat (nominal_frame_samples f) * unat (channels f) * unat (container_bytes_per_sample (pcm_format f))"
    and "unat (nominal_rtp_payload_bytes f) =
      unat (nominal_frame_samples f) * unat (channels f) * unat (rtp_bytes_per_sample f)"
    and "nominal_rtp_payload_bytes f \<le> nominal_frame_bytes f"
    and "0 < unat (nominal_frame_bytes f)" and "unat (nominal_frame_bytes f) \<le> MAX_AUDIO_CHUNK"
proof -
  note v = format_validD [OF assms]
  define s where "s = unat (sample_rate f) * unat (frame_ms f) div 1000"
  have s: "s * 1000 = unat (sample_rate f) * unat (frame_ms f)"
    using v(6) by (auto simp: s_def)
  have ms: "unat (frame_ms f) \<le> 32" "10 \<le> unat (frame_ms f)" using v(3) by auto
  have rt: "unat (sample_rate f) \<le> 48000" "8000 \<le> unat (sample_rate f)" using v(1) by (auto simp: valid_rate_def)
  have "s * 1000 \<le> 48000 * 32" unfolding s using ms rt mult_le_mono by blast
  then have sb: "s \<le> 1536" by simp
  have "8000 * 10 \<le> s * 1000" unfolding s using ms rt mult_le_mono by blast
  then have sp: "80 \<le> s" by simp
  have ns: "unat (nominal_frame_samples f) = s"
    using sb by (simp add: nominal_frame_samples_def s_def [symmetric] unat_of_nat_small)
  then show "unat (nominal_frame_samples f) * 1000 = unat (sample_rate f) * unat (frame_ms f)"
    using s by simp
  have c: "unat (channels f) \<in> {1, 2}" using v(2) by auto
  have b: "unat (container_bytes_per_sample (pcm_format f)) \<in> {2, 3, 4}"
    using v(4) by (cases "pcm_format f") auto
  have rb: "unat (rtp_bytes_per_sample f) \<in> {2, 3, 4}"
    "unat (rtp_bytes_per_sample f) \<le> unat (container_bytes_per_sample (pcm_format f))"
    using v(4) by (auto simp: rtp_bytes_per_sample_def) (cases "pcm_format f"; auto)+
  have mul: "unat (nominal_frame_samples f * ucast (channels f) * ucast w) = s * unat (channels f) * unat w"
    if "unat w \<le> 4" for w :: byte
  proof -
    have "s * unat (channels f) * unat w \<le> 1536 * 2 * 4"
      by (intro mult_le_mono) (use sb c that in auto)
    moreover have "s * unat (channels f) \<le> 1536 * 2" by (intro mult_le_mono) (use sb c in auto)
    ultimately show ?thesis by (simp add: unat_word_ariths ns unat_ucast_up)
  qed
  have fb: "unat (nominal_frame_bytes f) = s * unat (channels f) * unat (container_bytes_per_sample (pcm_format f))"
    unfolding nominal_frame_bytes_def by (rule mul) (use b in auto)
  have pb: "unat (nominal_rtp_payload_bytes f) = s * unat (channels f) * unat (rtp_bytes_per_sample f)"
    unfolding nominal_rtp_payload_bytes_def by (rule mul) (use rb in auto)
  show "unat (nominal_frame_bytes f) =
      unat (nominal_frame_samples f) * unat (channels f) * unat (container_bytes_per_sample (pcm_format f))"
    by (simp add: fb ns)
  show  "unat (nominal_rtp_payload_bytes f) =
      unat (nominal_frame_samples f) * unat (channels f) * unat (rtp_bytes_per_sample f)"
    by (simp add: pb ns)
  show "nominal_rtp_payload_bytes f \<le> nominal_frame_bytes f"
    by (simp add: word_le_nat_alt fb pb) (use rb(2) in auto)
  show "0 < unat (nominal_frame_bytes f)" using sp c b by (auto simp: fb)
  have "s * unat (channels f) * unat (container_bytes_per_sample (pcm_format f)) \<le> 1536 * 2 * 4"
    by (intro mult_le_mono) (use sb c b in auto)
  then show "unat (nominal_frame_bytes f) \<le> MAX_AUDIO_CHUNK" by (simp add: fb MAX_AUDIO_CHUNK_def)
qed


section \<open>Negotiation\<close>

lemma list_contains_iff [simp]: "audio_format_list_contains fs f \<longleftrightarrow> f \<in> set fs"
  by (auto simp: audio_format_list_contains_def list_ex_iff)

lemma choose_common_find:
  "choose_common_audio_format ps sf = find (\<lambda>f. f \<in> set sf) ps"
  by (induction ps) auto

lemma choose_common_first:
  "choose_common_audio_format ps sf = Some f \<longleftrightarrow>
     (\<exists>i<length ps. f = ps ! i \<and> f \<in> set sf \<and> (\<forall>j<i. ps ! j \<notin> set sf))"
  by (auto simp: choose_common_find find_Some_iff)

lemma choose_common_none:
  "choose_common_audio_format ps sf = None \<longleftrightarrow> set ps \<inter> set sf = {}"
  by (auto simp: choose_common_find find_None_iff)

lemma match_wire_format_find:
  "match_wire_format enc fs remote mx =
     find (\<lambda>c. audio_formats_share_wire_encoding c remote \<and> audio_format_rtp_encoding c mx = Some enc) fs"
  by (induction fs) auto

lemma share_wire_refl: "audio_formats_share_wire_encoding f f"
  by (simp add: audio_formats_share_wire_encoding_def)

lemma share_wire_sym:
  "audio_formats_share_wire_encoding f g \<Longrightarrow> audio_formats_share_wire_encoding g f"
  by (auto simp: audio_formats_share_wire_encoding_def split: if_splits)

lemma share_wire_trans:
  "audio_formats_share_wire_encoding f g \<Longrightarrow> audio_formats_share_wire_encoding g h \<Longrightarrow>
   audio_formats_share_wire_encoding f h"
  by (auto simp: audio_formats_share_wire_encoding_def split: if_splits)

lemma share_wire_same_encoding:
  assumes "audio_formats_share_wire_encoding f g"
  shows "audio_format_rtp_encoding f mx = audio_format_rtp_encoding g mx"
proof (cases "codec f = OPUS")
  case True
  with assms show ?thesis
    by (auto simp: audio_formats_share_wire_encoding_def audio_format_rtp_encoding_def split: if_splits)
next
  case False
  with assms have "nominal_rtp_payload_bytes f = nominal_rtp_payload_bytes g" "pcm_format f = pcm_format g"
    "codec f = codec g"
    by (auto simp: audio_formats_share_wire_encoding_def nominal_rtp_payload_bytes_def
      nominal_frame_samples_def rtp_bytes_per_sample_def split: if_splits)
  with False show ?thesis by (simp add: audio_format_rtp_encoding_def)
qed

lemma rtp_encoding_fits:
  "audio_format_rtp_encoding f mx = Some e \<Longrightarrow> codec f \<noteq> OPUS \<Longrightarrow> nominal_rtp_payload_bytes f \<le> mx"
  by (auto simp: audio_format_rtp_encoding_def split: if_splits)

lemma match_udp_safe_find:
  "audio_format_list_match_udp_safe fs remote mx =
     (if audio_format_rtp_encoding remote mx = None then None
      else find (\<lambda>c. audio_formats_share_wire_encoding c remote) fs)"
proof (cases "audio_format_rtp_encoding remote mx")
  case None
  then show ?thesis by (simp add: audio_format_list_match_udp_safe_def)
next
  case (Some enc)
  have "(\<lambda>c. audio_formats_share_wire_encoding c remote \<and> audio_format_rtp_encoding c mx = Some enc)
      = (\<lambda>c. audio_formats_share_wire_encoding c remote)"
    using Some by (auto simp: share_wire_same_encoding)
  moreover have "\<not> (codec remote = PCM \<and> mx < nominal_rtp_payload_bytes remote)"
    using rtp_encoding_fits [OF Some] by auto
  ultimately show ?thesis
    using Some by (auto simp: audio_format_list_match_udp_safe_def match_wire_format_find)
qed

lemma match_udp_safe_sound:
  assumes "audio_format_list_match_udp_safe fs remote mx = Some loc"
  shows "loc \<in> set fs" and "audio_formats_share_wire_encoding loc remote"
    and "audio_format_rtp_encoding loc mx = audio_format_rtp_encoding remote mx"
    and "audio_format_rtp_encoding loc mx \<noteq> None"
    and "codec loc \<noteq> OPUS \<Longrightarrow> nominal_rtp_payload_bytes loc \<le> mx"
proof -
  have enc: "audio_format_rtp_encoding remote mx \<noteq> None"
    and f: "find (\<lambda>c. audio_formats_share_wire_encoding c remote) fs = Some loc"
    using assms by (auto simp: match_udp_safe_find split: if_splits)
  show "loc \<in> set fs" and sh: "audio_formats_share_wire_encoding loc remote"
    using f by (auto simp: find_Some_iff)
  show eq: "audio_format_rtp_encoding loc mx = audio_format_rtp_encoding remote mx"
    using sh by (rule share_wire_same_encoding)
  show ne: "audio_format_rtp_encoding loc mx \<noteq> None" using eq enc by simp
  then show "codec loc \<noteq> OPUS \<Longrightarrow> nominal_rtp_payload_bytes loc \<le> mx"
    using rtp_encoding_fits by blast
qed

lemma match_udp_safe_complete:
  assumes "g \<in> set fs" and "audio_formats_share_wire_encoding g remote"
    and "audio_format_rtp_encoding remote mx \<noteq> None"
  shows "audio_format_list_match_udp_safe fs remote mx \<noteq> None"
  using assms find_None_iff [of "\<lambda>c. audio_formats_share_wire_encoding c remote" fs]
  by (auto simp: match_udp_safe_find)

definition ptime_ok :: "audio_format_list \<Rightarrow> audio_format_list \<Rightarrow> size \<Rightarrow> byte \<Rightarrow> bool" where
  "ptime_ok tx rx mx p \<longleftrightarrow> (tx \<noteq> [] \<or> rx \<noteq> []) \<and>
     (tx = [] \<or> audio_format_list_supports_rtp_ptime tx p mx) \<and>
     (rx = [] \<or> audio_format_list_supports_rtp_ptime rx p mx)"

lemma choose_ptime_from_spec:
  assumes "0 \<notin> set ps"
  shows "choose_ptime_from ps tx rx mx =
    (case find (ptime_ok tx rx mx) ps of None \<Rightarrow> 0 | Some p \<Rightarrow> p)"
  using assms by (induction ps) (auto simp: ptime_ok_def)

lemma find_sorted_least:
  assumes "sorted xs" and "find P xs = Some p" and "q \<in> set xs" and "P q"
  shows "p \<le> q"
proof -
  obtain i where i: "i < length xs" "p = xs ! i" "\<forall>j<i. \<not> P (xs ! j)"
    using assms(2) by (auto simp: find_Some_iff)
  obtain k where k: "k < length xs" "q = xs ! k"
    using assms(3) by (auto simp: in_set_conv_nth)
  have "i \<le> k" using i(3) k assms(4) by (meson not_le)
  with assms(1) i k show ?thesis by (simp add: sorted_nth_mono)
qed

lemma choose_ptime:
  "choose_common_audio_ptime tx rx mx = 0 \<longleftrightarrow> (\<forall>p\<in>{10, 16, 20, 32}. \<not> ptime_ok tx rx mx p)"
  "p \<in> {10, 16, 20, 32} \<Longrightarrow> ptime_ok tx rx mx p \<Longrightarrow>
     ptime_ok tx rx mx (choose_common_audio_ptime tx rx mx) \<and> choose_common_audio_ptime tx rx mx \<le> p"
proof -
  define ps where "ps = [10, 16, 20, 32 :: byte]"
  have ps: "set ps = {10, 16, 20, 32}" "0 \<notin> set ps" "sorted ps" by (simp_all add: ps_def)
  have c: "choose_common_audio_ptime tx rx mx = (case find (ptime_ok tx rx mx) ps of None \<Rightarrow> 0 | Some p \<Rightarrow> p)"
    using choose_ptime_from_spec [OF ps(2)] by (simp only: choose_common_audio_ptime_def ps_def)
  show "choose_common_audio_ptime tx rx mx = 0 \<longleftrightarrow> (\<forall>p\<in>{10, 16, 20, 32}. \<not> ptime_ok tx rx mx p)"
  proof (cases "find (ptime_ok tx rx mx) ps")
    case None
    then show ?thesis
      using find_None_iff [of "ptime_ok tx rx mx" ps] unfolding c ps(1) [symmetric] by auto
  next
    case (Some q)
    then have q: "q \<in> set ps" "ptime_ok tx rx mx q" by (auto simp: find_Some_iff)
    then have "q \<noteq> 0" using ps(2) by auto
    with Some q show ?thesis unfolding c ps(1) [symmetric] by auto
  qed
  assume p: "p \<in> {10, 16, 20, 32}" "ptime_ok tx rx mx p"
  then have "find (ptime_ok tx rx mx) ps \<noteq> None"
    using find_None_iff [of "ptime_ok tx rx mx" ps] ps(1) by blast
  then obtain q where q: "find (ptime_ok tx rx mx) ps = Some q" by blast
  then have "ptime_ok tx rx mx q" by (auto simp: find_Some_iff)
  moreover have "q \<le> p"
    using find_sorted_least [OF ps(3) q] p ps(1) by blast
  ultimately show "ptime_ok tx rx mx (choose_common_audio_ptime tx rx mx) \<and> choose_common_audio_ptime tx rx mx \<le> p"
    using q by (simp add: c)
qed
section \<open>Properties\<close>

text \<open>
  The packed 32-bit format that accompanies every received frame loses nothing: unpacking
  the packed value of a valid format gives the format back, the packed value is never 0 (the
  value the receive path reads as "no format"), and no two valid formats share it.
\<close>

theorem packed_format_roundtrip:
  assumes "format_valid f"
  shows "unpack_audio_format (pack_audio_format f) = f \<and> pack_audio_format f \<noteq> 0 \<and>
    (\<forall>g. format_valid g \<and> pack_audio_format g = pack_audio_format f \<longrightarrow> g = f)"
  using assms unpack_pack pack_valid_nonzero packed.enc_inj by blast

theorem packed_format_roundtrip_witness:
  "unpack_audio_format (pack_audio_format (default_audio_format\<lparr>channels := 2\<rparr>)) =
     default_audio_format\<lparr>channels := 2\<rparr>"
proof -
  have "format_valid (default_audio_format\<lparr>channels := 2\<rparr>)"
    by (simp add: format_valid_def Let_def default_audio_format_def valid_rate_def)
  from packed_format_roundtrip [OF this] show ?thesis by blast
qed

text \<open>
  For a valid format the 32-bit size arithmetic never wraps: a frame holds exactly
  rate * ms / 1000 sample times, the PCM frame size and the RTP payload size are the exact
  products, the payload is never larger than the PCM frame, and a PCM frame is between 1 byte
  and the 16 KiB audio chunk.
\<close>

theorem valid_format_frame_sizes:
  assumes "format_valid f"
  shows "unat (nominal_frame_samples f) * 1000 = unat (sample_rate f) * unat (frame_ms f) \<and>
    unat (nominal_frame_bytes f) = unat (nominal_frame_samples f) * unat (channels f) *
      unat (container_bytes_per_sample (pcm_format f)) \<and>
    unat (nominal_rtp_payload_bytes f) = unat (nominal_frame_samples f) * unat (channels f) *
      unat (rtp_bytes_per_sample f) \<and>
    nominal_rtp_payload_bytes f \<le> nominal_frame_bytes f \<and>
    0 < unat (nominal_frame_bytes f) \<and> unat (nominal_frame_bytes f) \<le> MAX_AUDIO_CHUNK"
  using frame_sizes [OF assms] by blast

theorem valid_format_frame_sizes_witness:
  "unat (nominal_frame_samples default_audio_format) * 1000 = 16000 * 16"
proof -
  have "format_valid default_audio_format"
    by (simp add: format_valid_def Let_def default_audio_format_def valid_rate_def)
  from valid_format_frame_sizes [OF this] show ?thesis by (simp add: default_audio_format_def)
qed

text \<open>
  The format a remote description is matched to is the first local format with the same wire
  encoding, and there is a match exactly when some local format shares the encoding and the
  remote format can be carried at all; a matched PCM format always fits the UDP payload limit.
\<close>

theorem match_udp_safe_correct:
  "audio_format_list_match_udp_safe fs remote mx =
     (if audio_format_rtp_encoding remote mx = None then None
      else find (\<lambda>c. audio_formats_share_wire_encoding c remote) fs) \<and>
   (\<forall>g. audio_format_list_match_udp_safe fs remote mx = Some g \<longrightarrow>
      g \<in> set fs \<and> audio_format_rtp_encoding g mx = audio_format_rtp_encoding remote mx \<and>
      (codec g \<noteq> OPUS \<longrightarrow> nominal_rtp_payload_bytes g \<le> mx))"
  using match_udp_safe_find match_udp_safe_sound by metis

theorem match_udp_safe_correct_witness:
  "default_audio_format \<in> set [default_audio_format] \<and>
   nominal_rtp_payload_bytes default_audio_format \<le> 1200"
proof -
  have m: "audio_format_list_match_udp_safe [default_audio_format] default_audio_format 1200
      = Some default_audio_format"
    by (simp add: audio_format_list_match_udp_safe_def audio_format_rtp_encoding_def
      audio_formats_share_wire_encoding_def default_audio_format_def nominal_rtp_payload_bytes_def
      nominal_frame_samples_def rtp_bytes_per_sample_def)
  have c: "codec default_audio_format \<noteq> OPUS" by (simp add: default_audio_format_def)
  from m c match_udp_safe_correct [of "[default_audio_format]" default_audio_format 1200]
  show ?thesis by blast
qed

text \<open>
  The packet time chosen for an offer is 0 exactly when no supported packet time works for
  both directions; otherwise it works and is the shortest that does.
\<close>

theorem common_ptime_is_shortest:
  "(choose_common_audio_ptime tx rx mx = 0 \<longleftrightarrow> (\<forall>p\<in>{10, 16, 20, 32}. \<not> ptime_ok tx rx mx p)) \<and>
   (\<forall>p\<in>{10, 16, 20, 32}. ptime_ok tx rx mx p \<longrightarrow>
      ptime_ok tx rx mx (choose_common_audio_ptime tx rx mx) \<and>
      choose_common_audio_ptime tx rx mx \<le> p)"
  using choose_ptime by blast

theorem common_ptime_is_shortest_witness:
  "choose_common_audio_ptime [default_audio_format] [] 1200 \<le> 16"
proof -
  have "ptime_ok [default_audio_format] [] 1200 16"
    by (simp add: ptime_ok_def audio_format_list_supports_rtp_ptime_def default_audio_format_def
      audio_format_rtp_encoding_def nominal_rtp_payload_bytes_def nominal_frame_samples_def
      rtp_bytes_per_sample_def)
  with common_ptime_is_shortest [of "[default_audio_format]" "[]" 1200] show ?thesis by blast
qed

end
