(* ===== verification/CallFsm.thy ===== *)
theory CallFsm
  imports AudioFormat Phonebook
begin

text \<open>
  The call state machine of the phone (\<open>voip_fsm.h\<close>, \<open>voip_fsm.cpp\<close>, and the timeouts, the
  transport callbacks and the dialling of \<open>voip_stack.cpp\<close> and \<open>voip_settings.cpp\<close>). The SIP
  transport is the interface \<open>SipPhoneTransport\<close> of \<open>transport.h\<close>: a record of operations over
  an arbitrary transport state, whose answers the state machine only observes. Every operation
  is one state transformer; what it does outside the state (transport commands, sensors, state
  changes) is appended to a log, what it hands to the main loop (triggers, the deferred end of a
  call) to a queue. \<open>millis()\<close> and \<open>esp_random()\<close> read two fields the environment sets. Log
  output, the diagnostic SIP snapshot, Wi-Fi roaming requests and the wake-up of audio tasks are
  left out.
\<close>

section \<open>States, reasons, intents\<close>

datatype call_state = IDLE | CALLING | REMOTE_RINGING | RINGING | CONNECTING | IN_CALL | TERMINATING
  | BUSY | DECLINED | CANCELLED | MEDIA_INCOMPATIBLE | TRANSPORT_UNREACHABLE | AUTH_REQUIRED_UNSUPPORTED

datatype call_end_reason = LOCAL_HANGUP | REMOTE_HANGUP | DECLINED_END | TIMEOUT_END | BUSY_END
  | CANCELLED_END | TRANSPORT_UNREACHABLE_END | MEDIA_INCOMPATIBLE_END | MEDIA_TIMEOUT
  | AUTH_REQUIRED_UNSUPPORTED_END | PROXY_AUTH_REQUIRED_UNSUPPORTED | PROTOCOL_ERROR

datatype sip_termination_action = AUTO | NONE | CANCEL | BYE | FINAL_RESPONSE

record termination_intent =
  intent_reason :: call_end_reason
  intent_detail :: "string option"
  sip_action :: sip_termination_action
  cache_final_response :: bool

fun call_state_is_terminating :: "call_state \<Rightarrow> bool" where
  "call_state_is_terminating TERMINATING = True"
| "call_state_is_terminating BUSY = True"
| "call_state_is_terminating DECLINED = True"
| "call_state_is_terminating CANCELLED = True"
| "call_state_is_terminating MEDIA_INCOMPATIBLE = True"
| "call_state_is_terminating TRANSPORT_UNREACHABLE = True"
| "call_state_is_terminating AUTH_REQUIRED_UNSUPPORTED = True"
| "call_state_is_terminating _ = False"

definition resolve_sip_termination_action ::
    "call_state \<Rightarrow> sip_termination_action \<Rightarrow> sip_termination_action" where
  "resolve_sip_termination_action state requested =
     (if requested \<noteq> AUTO then requested
      else case state of
             IN_CALL \<Rightarrow> BYE
           | RINGING \<Rightarrow> FINAL_RESPONSE
           | CALLING \<Rightarrow> CANCEL
           | REMOTE_RINGING \<Rightarrow> CANCEL
           | CONNECTING \<Rightarrow> CANCEL
           | _ \<Rightarrow> NONE)"

record termination_snapshot =
  snap_state :: call_state
  transport_connected :: bool
  has_call_id :: bool
  snap_setup_pending :: bool

text \<open>\<open>dispatch_call_termination\<close>, with its five callables as functions on the state.\<close>

definition dispatch_call_termination ::
    "termination_snapshot \<Rightarrow> sip_termination_action \<Rightarrow> bool \<Rightarrow> ('s \<Rightarrow> 's) \<Rightarrow>
     (sip_termination_action \<Rightarrow> 's \<Rightarrow> bool \<times> 's) \<Rightarrow> ('s \<Rightarrow> 's) \<Rightarrow> ('s \<Rightarrow> 's) \<Rightarrow> ('s \<Rightarrow> 's) \<Rightarrow> 's \<Rightarrow> 's" where
  "dispatch_call_termination snap action caches cache_fn send_fn end_fn media_off_fn disconnect_fn s =
     (if (snap_state snap = IDLE \<and> \<not> snap_setup_pending snap) \<or> call_state_is_terminating (snap_state snap)
      then s
      else
        let s1 = (if caches \<and> has_call_id snap then cache_fn s else s);
            resolved = resolve_sip_termination_action (snap_state snap) action;
            (pending, s2) = (if transport_connected snap \<and> has_call_id snap \<and> resolved \<noteq> NONE
                             then send_fn resolved s1 else (False, s1));
            s3 = media_off_fn (end_fn s2)
        in if pending then s3 else disconnect_fn s3)"

abbreviation kReasonLocalHangup :: string where "kReasonLocalHangup \<equiv> ''local_hangup''"
abbreviation kReasonRemoteHangup :: string where "kReasonRemoteHangup \<equiv> ''remote_hangup''"
abbreviation kReasonDeclined :: string where "kReasonDeclined \<equiv> ''declined''"
abbreviation kReasonTimeout :: string where "kReasonTimeout \<equiv> ''timeout''"
abbreviation kReasonBusy :: string where "kReasonBusy \<equiv> ''busy''"
abbreviation kReasonCancelled :: string where "kReasonCancelled \<equiv> ''cancelled''"
abbreviation kReasonTransportUnreachable :: string where "kReasonTransportUnreachable \<equiv> ''transport_unreachable''"
abbreviation kReasonMediaIncompatible :: string where "kReasonMediaIncompatible \<equiv> ''media_incompatible''"
abbreviation kReasonMediaTimeout :: string where "kReasonMediaTimeout \<equiv> ''media_timeout''"
abbreviation kReasonAuthRequiredUnsupported :: string where
  "kReasonAuthRequiredUnsupported \<equiv> ''auth_required_unsupported''"
abbreviation kReasonProxyAuthRequiredUnsupported :: string where
  "kReasonProxyAuthRequiredUnsupported \<equiv> ''proxy_auth_required_unsupported''"
abbreviation kReasonProtocolError :: string where "kReasonProtocolError \<equiv> ''protocol_error''"
abbreviation kReasonMediaSetupFailed :: string where "kReasonMediaSetupFailed \<equiv> ''media_setup_failed''"

fun call_state_to_str :: "call_state \<Rightarrow> string" where
  "call_state_to_str IDLE = ''idle''"
| "call_state_to_str CALLING = ''calling''"
| "call_state_to_str REMOTE_RINGING = ''remote_ringing''"
| "call_state_to_str RINGING = ''ringing''"
| "call_state_to_str CONNECTING = ''connecting''"
| "call_state_to_str IN_CALL = ''in_call''"
| "call_state_to_str TERMINATING = ''terminating''"
| "call_state_to_str BUSY = ''busy''"
| "call_state_to_str DECLINED = ''declined''"
| "call_state_to_str CANCELLED = ''cancelled''"
| "call_state_to_str MEDIA_INCOMPATIBLE = ''media_incompatible''"
| "call_state_to_str TRANSPORT_UNREACHABLE = ''transport_unreachable''"
| "call_state_to_str AUTH_REQUIRED_UNSUPPORTED = ''auth_required_unsupported''"

fun call_end_reason_to_str :: "call_end_reason \<Rightarrow> string" where
  "call_end_reason_to_str LOCAL_HANGUP = kReasonLocalHangup"
| "call_end_reason_to_str REMOTE_HANGUP = kReasonRemoteHangup"
| "call_end_reason_to_str DECLINED_END = kReasonDeclined"
| "call_end_reason_to_str TIMEOUT_END = kReasonTimeout"
| "call_end_reason_to_str BUSY_END = kReasonBusy"
| "call_end_reason_to_str CANCELLED_END = kReasonCancelled"
| "call_end_reason_to_str TRANSPORT_UNREACHABLE_END = kReasonTransportUnreachable"
| "call_end_reason_to_str MEDIA_INCOMPATIBLE_END = kReasonMediaIncompatible"
| "call_end_reason_to_str MEDIA_TIMEOUT = kReasonMediaTimeout"
| "call_end_reason_to_str AUTH_REQUIRED_UNSUPPORTED_END = kReasonAuthRequiredUnsupported"
| "call_end_reason_to_str PROXY_AUTH_REQUIRED_UNSUPPORTED = kReasonProxyAuthRequiredUnsupported"
| "call_end_reason_to_str PROTOCOL_ERROR = kReasonProtocolError"

section \<open>Signals\<close>

datatype sip_signal_type = INVITE_SIGNAL | STATUS_180_RINGING | STATUS_200_OK | CONNECTED_IDENTITY
  | CANCEL_SIGNAL | BYE_SIGNAL | TERMINAL_COMPLETE | FINAL_RESPONSE_SIGNAL | OPTIONS_SIGNAL
  | AUTH_REQUIRED | PROXY_AUTH_REQUIRED | MEDIA_INCOMPATIBLE_SIGNAL | PROTOCOL_ERROR_SIGNAL | MEDIA_READY

fun sip_signal_type_name :: "sip_signal_type \<Rightarrow> string" where
  "sip_signal_type_name INVITE_SIGNAL = ''INVITE''"
| "sip_signal_type_name STATUS_180_RINGING = ''180''"
| "sip_signal_type_name STATUS_200_OK = ''200''"
| "sip_signal_type_name CONNECTED_IDENTITY = ''CONNECTED_IDENTITY''"
| "sip_signal_type_name CANCEL_SIGNAL = ''CANCEL''"
| "sip_signal_type_name BYE_SIGNAL = ''BYE''"
| "sip_signal_type_name TERMINAL_COMPLETE = ''TERMINAL_COMPLETE''"
| "sip_signal_type_name FINAL_RESPONSE_SIGNAL = ''FINAL_RESPONSE''"
| "sip_signal_type_name OPTIONS_SIGNAL = ''OPTIONS''"
| "sip_signal_type_name AUTH_REQUIRED = ''401''"
| "sip_signal_type_name PROXY_AUTH_REQUIRED = ''407''"
| "sip_signal_type_name MEDIA_INCOMPATIBLE_SIGNAL = ''488''"
| "sip_signal_type_name PROTOCOL_ERROR_SIGNAL = ''PROTOCOL_ERROR''"
| "sip_signal_type_name MEDIA_READY = ''MEDIA_READY''"

text \<open>
  A signal of the transport. Its field \<open>terminal_transaction_pending\<close> is left out: no consumer reads it (only the RTP task
  looks at the value it has just put there); the state machine asks the transport's snapshot instead, which is
  \<open>terminal_transaction_pending\<close> of the interface below.
\<close>

record sip_signal =
  signal_type :: sip_signal_type
  status_code :: u16
  media_source_changed :: bool
  media_answer_pending :: bool
  sig_call_id :: string
  sig_caller_route :: string
  sig_caller_name :: string
  sig_dest_route :: string
  sig_dest_name :: string
  connected_route :: string
  connected_name :: string
  sig_reason :: string
  caller_tx_formats :: audio_format_list
  caller_rx_formats :: audio_format_list
  selected_tx_format :: audio_format
  selected_rx_format :: audio_format

section \<open>The transport interface, the log, the queue\<close>

datatype transport_call =
    SendInvite string string string string string
  | SendRinging string
  | SendAnswer string audio_format audio_format
  | SendCancel string
  | SendBye string
  | SendFinalResponse string u16 string
  | SetConnectedIdentity string string
  | SetRemote string u16 u16
  | SetSipSignalingTransport bool
  | SetPeerDirectionalAudio bool
  | Originate string u16
  | PrepareMediaPath
  | CommitMediaPath
  | AbortMediaPath
  | StartAudioPath
  | StopAudioPath
  | DisconnectTransport

record 't transport_ops =
  tp_call :: "transport_call \<Rightarrow> 't \<Rightarrow> bool \<times> 't"
  tp_connected :: "'t \<Rightarrow> bool"
  tp_terminal_pending :: "'t \<Rightarrow> bool"
  tp_media_phase :: "'t \<Rightarrow> byte"
  tp_received_packets :: "'t \<Rightarrow> u32"
  tp_last_status :: "'t \<Rightarrow> u16"
  tp_remote_audio_expected :: "'t \<Rightarrow> bool"
  tp_remote_ip :: "'t \<Rightarrow> u32"
  tp_inet_aton :: "string \<Rightarrow> u32 option"

datatype media_route = ROUTE_UNKNOWN | DIRECT | HA_TRANSCODING

datatype deferred =
    StateCallback call_state
  | IdleTrigger
  | CallingTrigger string
  | DestRingingTrigger string
  | RingingTrigger string
  | InCallTrigger string
  | CallFailedTrigger string string
  | HangupTrigger string string
  | OutgoingCallTrigger string string string string bool bool
  | IncomingCallTrigger string string string string
  | PublishCallerLater string
  | PublishMediaRouteLater
  | ConfirmDirectRoute string
  | FinishTermination
  | ConnectionChange bool string

datatype effect =
    Command transport_call bool
  | StateChange call_state call_state
  | PublishState call_state
  | PublishReason string
  | PublishDestination string
  | DestinationChanged string
  | PublishCaller string
  | PublishRoute string
  | MicrophoneRequest bool
  | SpeakerStart audio_format
  | SpeakerStop
  | AudioReset
  | EnqueueRxFrame u32
  | Fired deferred

record call_identity =
  call_id :: string
  caller_route :: string
  caller_name :: string
  dest_route :: string
  dest_name :: string
  dialed_dest_name :: string

definition no_identity :: call_identity where
  "no_identity = \<lparr>call_id = [], caller_route = [], caller_name = [], dest_route = [], dest_name = [],
     dialed_dest_name = []\<rparr>"

record media_formats =
  fmt_caller_to_dest :: audio_format
  fmt_dest_to_caller :: audio_format
  fmt_tx :: audio_format
  fmt_rx :: audio_format

record terminal_snapshot =
  term_call_id :: string
  term_direction :: string
  term_caller_name :: string
  term_dest_name :: string
  term_tx_format :: audio_format
  term_rx_format :: audio_format

record fsm_config =
  device_name :: string
  device_route_id :: string
  has_speaker :: bool
  auto_answer :: bool
  do_not_disturb :: bool
  cfg_tx_formats :: audio_format_list
  cfg_rx_formats :: audio_format_list
  cfg_tx_format :: audio_format
  cfg_rx_format :: audio_format
  calling_timeout_ms :: u32
  ringing_timeout_ms :: u32

record incoming_flags =
  setup_pending :: bool
  media_answer_wait :: bool
  answer_accepted :: bool

record terminal_response =
  response_call_id :: string
  response_reason :: string
  response_ms :: u32

record audio_watchdog =
  first_audio_received :: bool
  last_peer_audio_ms :: u32
  media_timeout_rtp_rx_packets :: u32

record 't fsm =
  config :: fsm_config
  vtable :: "'t transport_ops"
  transport :: "'t option"
  clock :: u32
  entropy :: u32
  phase :: call_state
  identity :: call_identity
  incoming :: incoming_flags
  response :: terminal_response
  pending_dialplan_target :: string
  ha_peer_name :: string
  ha_media_fallback_pending :: bool
  ha_media_fallback_attempted :: bool
  contacts :: phonebook
  media :: media_formats
  route_projection :: media_route
  audio_devices_active :: bool
  microphone_requested :: bool
  watchdog :: audio_watchdog
  ringing_start_time :: u32
  calling_start_time :: u32
  last_reason :: string
  last_terminal :: terminal_snapshot
  last_published_destination :: string
  queue :: "deferred list"
  log :: "effect list"

section \<open>Talking to the outside\<close>

definition emit :: "effect \<Rightarrow> 't fsm \<Rightarrow> 't fsm" where
  "emit e s = s\<lparr>log := log s @ [e]\<rparr>"

definition defer_to_loop :: "deferred \<Rightarrow> 't fsm \<Rightarrow> 't fsm" where
  "defer_to_loop d s = s\<lparr>queue := queue s @ [d]\<rparr>"

text \<open>A command to the transport, \<open>False\<close> without one; and one whose answer is not used.\<close>

definition command :: "transport_call \<Rightarrow> 't fsm \<Rightarrow> bool \<times> 't fsm" where
  "command c s =
     (case transport s of
        None \<Rightarrow> (False, s)
      | Some t \<Rightarrow> let (r, t') = tp_call (vtable s) c t in (r, emit (Command c r) (s\<lparr>transport := Some t'\<rparr>)))"

definition tell :: "transport_call \<Rightarrow> 't fsm \<Rightarrow> 't fsm" where
  "tell c s = snd (command c s)"

text \<open>\<open>transport_ && !transport_->...\<close>: a missing transport does not fail.\<close>

definition fails :: "transport_call \<Rightarrow> 't fsm \<Rightarrow> bool \<times> 't fsm" where
  "fails c s = (case transport s of None \<Rightarrow> (False, s) | Some t \<Rightarrow> (let (r, s') = command c s in (\<not> r, s')))"

definition observe :: "('t transport_ops \<Rightarrow> 't \<Rightarrow> 'a) \<Rightarrow> 'a \<Rightarrow> 't fsm \<Rightarrow> 'a" where
  "observe f absent s = (case transport s of None \<Rightarrow> absent | Some t \<Rightarrow> f (vtable s) t)"

definition is_connected :: "'t fsm \<Rightarrow> bool" where
  "is_connected s = observe tp_connected False s"

definition terminal_transaction_pending :: "'t fsm \<Rightarrow> bool" where
  "terminal_transaction_pending s = observe tp_terminal_pending False s"

section \<open>Identity and the terminal response\<close>

definition set_call_identity :: "string \<Rightarrow> string \<Rightarrow> string \<Rightarrow> string \<Rightarrow> string \<Rightarrow> 't fsm \<Rightarrow> 't fsm" where
  "set_call_identity cid caller_r caller_n dest_r dest_n s =
     s\<lparr>identity :=
        \<lparr>call_id = cid, caller_route = caller_r, caller_name = caller_n, dest_route = dest_r,
         dest_name = dest_n,
         dialed_dest_name =
           (if call_id (identity s) = [] \<or> call_id (identity s) \<noteq> cid
            then (if caller_n = device_name (config s) then dest_n else [])
            else dialed_dest_name (identity s))\<rparr>\<rparr>"

definition clear_call_identity :: "'t fsm \<Rightarrow> 't fsm" where
  "clear_call_identity s =
     s\<lparr>incoming := \<lparr>setup_pending = False, media_answer_wait = False, answer_accepted = False\<rparr>,
       identity := no_identity\<rparr>"

definition set_terminal_response :: "string \<Rightarrow> string \<Rightarrow> 't fsm \<Rightarrow> 't fsm" where
  "set_terminal_response cid reason s =
     s\<lparr>response := \<lparr>response_call_id = cid, response_reason = reason, response_ms = clock s\<rparr>\<rparr>"

definition clear_terminal_response :: "'t fsm \<Rightarrow> 't fsm" where
  "clear_terminal_response s = s\<lparr>response := \<lparr>response_call_id = [], response_reason = [], response_ms = 0\<rparr>\<rparr>"

definition TERMINAL_RESPONSE_REPLAY_MS :: u32 where
  "TERMINAL_RESPONSE_REPLAY_MS = 1500"

definition response_age :: "'t fsm \<Rightarrow> u32" where
  "response_age s = (if response_ms (response s) = 0 then - 1 else clock s - response_ms (response s))"

definition recent_terminal_call :: "string \<Rightarrow> 't fsm \<Rightarrow> bool" where
  "recent_terminal_call cid s \<longleftrightarrow>
     cid \<noteq> [] \<and> response_call_id (response s) = cid \<and> response_age s \<le> TERMINAL_RESPONSE_REPLAY_MS"

definition final_response_status :: "string \<Rightarrow> u16" where
  "final_response_status reason =
     (if reason = kReasonMediaIncompatible then 488
      else if reason = kReasonCancelled then 487
      else if reason = kReasonDeclined then 603
      else if reason = kReasonMediaSetupFailed \<or> reason = kReasonProtocolError then 500
      else 486)"

definition send_sip_final_response :: "string \<Rightarrow> string \<Rightarrow> 't fsm \<Rightarrow> bool \<times> 't fsm" where
  "send_sip_final_response cid reason s = command (SendFinalResponse cid (final_response_status reason) reason) s"

definition send_sip_answer :: "string \<Rightarrow> 't fsm \<Rightarrow> bool \<times> 't fsm" where
  "send_sip_answer cid s =
     command (SendAnswer cid (fmt_caller_to_dest (media s)) (fmt_dest_to_caller (media s))) s"

definition ignore_if_idle_or_stale :: "string \<Rightarrow> 't fsm \<Rightarrow> bool" where
  "ignore_if_idle_or_stale cid s \<longleftrightarrow>
     phase s = IDLE \<or> (cid \<noteq> [] \<and> call_id (identity s) \<noteq> [] \<and> cid \<noteq> call_id (identity s))"

section \<open>Sensors and audio devices\<close>

definition get_current_destination :: "'t fsm \<Rightarrow> string" where
  "get_current_destination s = current_name (contacts s)"

definition publish_media_route :: "'t fsm \<Rightarrow> 't fsm" where
  "publish_media_route s =
     emit (PublishRoute (if phase s \<noteq> IN_CALL then []
       else case route_projection s of DIRECT \<Rightarrow> ''direct'' | HA_TRANSCODING \<Rightarrow> ''ha_transcoding'' | _ \<Rightarrow> [])) s"

definition set_media_route :: "string \<Rightarrow> string \<Rightarrow> 't fsm \<Rightarrow> bool \<times> 't fsm" where
  "set_media_route cid r s =
     (if cid = [] \<or> phase s \<noteq> IN_CALL \<or> cid \<noteq> call_id (identity s) then (False, s)
      else if r \<noteq> ''direct'' \<and> r \<noteq> ''ha_transcoding'' then (False, s)
      else
        let selected = (if r = ''direct'' then DIRECT else HA_TRANSCODING) in
        (True, if route_projection s \<noteq> selected then publish_media_route (s\<lparr>route_projection := selected\<rparr>) else s))"

definition publish_state :: "'t fsm \<Rightarrow> 't fsm" where
  "publish_state s = defer_to_loop PublishMediaRouteLater (emit (PublishState (phase s)) s)"

definition publish_caller :: "string \<Rightarrow> 't fsm \<Rightarrow> 't fsm" where
  "publish_caller n s = emit (PublishCaller n) s"

definition publish_last_reason :: "string \<Rightarrow> 't fsm \<Rightarrow> 't fsm" where
  "publish_last_reason r s =
     (if last_reason s = r then s else emit (PublishReason r) (s\<lparr>last_reason := r\<rparr>))"

definition publish_destination :: "'t fsm \<Rightarrow> 't fsm" where
  "publish_destination s =
     (let shown =
        (if pending_dialplan_target s \<noteq> [] then pending_dialplan_target s
         else if phase s \<noteq> IDLE \<and> dest_name (identity s) \<noteq> [] \<and>
                 caller_name (identity s) = device_name (config s) then dest_name (identity s)
         else if phase s = IDLE \<and> last_reason s \<noteq> [] \<and> term_direction (last_terminal s) = ''outgoing'' \<and>
                 term_dest_name (last_terminal s) \<noteq> [] then term_dest_name (last_terminal s)
         else get_current_destination s);
          s1 = emit (PublishDestination shown) s
      in if shown \<noteq> last_published_destination s
         then emit (DestinationChanged shown) (s1\<lparr>last_published_destination := shown\<rparr>) else s1)"

definition clear_terminal_call_snapshot :: "'t fsm \<Rightarrow> 't fsm" where
  "clear_terminal_call_snapshot s =
     s\<lparr>last_terminal := \<lparr>term_call_id = [], term_direction = [], term_caller_name = [], term_dest_name = [],
        term_tx_format = default_audio_format, term_rx_format = default_audio_format\<rparr>\<rparr>"

text \<open>The current formats are kept packed for the audio tasks.\<close>

definition set_current_media_formats ::
    "audio_format \<Rightarrow> audio_format \<Rightarrow> audio_format \<Rightarrow> audio_format \<Rightarrow> 't fsm \<Rightarrow> 't fsm" where
  "set_current_media_formats c2d d2c tx rx s =
     s\<lparr>media := \<lparr>fmt_caller_to_dest = c2d, fmt_dest_to_caller = d2c, fmt_tx = tx, fmt_rx = rx\<rparr>\<rparr>"

definition current_tx_format :: "'t fsm \<Rightarrow> audio_format" where
  "current_tx_format s = unpack_audio_format (pack_audio_format (fmt_tx (media s)))"

definition current_rx_format :: "'t fsm \<Rightarrow> audio_format" where
  "current_rx_format s = unpack_audio_format (pack_audio_format (fmt_rx (media s)))"

definition reset_peer_audio_watchdog :: "bool \<Rightarrow> 't fsm \<Rightarrow> 't fsm" where
  "reset_peer_audio_watchdog seed s =
     s\<lparr>watchdog :=
        \<lparr>first_audio_received = False,
         last_peer_audio_ms = (if \<not> seed then 0 else if clock s = 0 then 1 else clock s),
         media_timeout_rtp_rx_packets = (if seed then observe tp_received_packets 0 s else 0)\<rparr>\<rparr>"

definition set_audio_devices_active :: "bool \<Rightarrow> 't fsm \<Rightarrow> 't fsm" where
  "set_audio_devices_active on s =
     (let s1 = (if audio_devices_active s \<noteq> on
                then reset_peer_audio_watchdog on (s\<lparr>audio_devices_active := on\<rparr>) else s);
          requested = (on \<and> format_valid (current_tx_format s1))
      in if microphone_requested s1 \<noteq> requested
         then emit (MicrophoneRequest requested) (s1\<lparr>microphone_requested := requested\<rparr>) else s1)"

definition start_speaker_for_current_rx :: "'t fsm \<Rightarrow> 't fsm" where
  "start_speaker_for_current_rx s =
     (if has_speaker (config s) \<and> format_valid (current_rx_format s)
      then emit (SpeakerStart (current_rx_format s)) s else s)"

section \<open>The state variable\<close>

definition peer_for_trigger :: "'t fsm \<Rightarrow> string" where
  "peer_for_trigger s =
     (let peer = (if caller_name (identity s) = device_name (config s) then dest_name (identity s)
                  else caller_name (identity s))
      in if peer = [] then get_current_destination s else peer)"

definition set_call_state :: "call_state \<Rightarrow> 't fsm \<Rightarrow> 't fsm" where
  "set_call_state new s =
     (if phase s = new then s
      else
        let s1 = emit (StateChange (phase s) new) (s\<lparr>phase := new, route_projection := ROUTE_UNKNOWN\<rparr>);
            peer = peer_for_trigger s1;
            s2 = defer_to_loop (StateCallback new) s1;
            s3 = (case new of
                    IDLE \<Rightarrow> defer_to_loop (PublishCallerLater []) (defer_to_loop IdleTrigger s2)
                  | CALLING \<Rightarrow> defer_to_loop (CallingTrigger peer) (publish_last_reason [] s2)
                  | REMOTE_RINGING \<Rightarrow> defer_to_loop (DestRingingTrigger peer) (publish_last_reason [] s2)
                  | RINGING \<Rightarrow> defer_to_loop (RingingTrigger peer) (publish_last_reason [] s2)
                  | CONNECTING \<Rightarrow> publish_last_reason [] s2
                  | IN_CALL \<Rightarrow> defer_to_loop (InCallTrigger peer)
                                (defer_to_loop (ConfirmDirectRoute (call_id (identity s1))) (publish_last_reason [] s2))
                  | _ \<Rightarrow> s2)
        in publish_state s3)"

definition set_in_call :: "bool \<Rightarrow> 't fsm \<Rightarrow> 't fsm" where
  "set_in_call on s =
     (if on then
        (if phase s = IN_CALL then s
         else if recent_terminal_call (call_id (identity s)) s then publish_state s
         else set_call_state IN_CALL
                (start_speaker_for_current_rx
                  (emit AudioReset (reset_peer_audio_watchdog True (set_audio_devices_active True s)))))
      else
        let s1 = emit AudioReset (tell StopAudioPath s);
            s2 = (if has_speaker (config s) then emit SpeakerStop s1 else s1)
        in publish_state s2)"

section \<open>Ending a call\<close>

fun terminal_state_for :: "call_end_reason \<Rightarrow> call_state" where
  "terminal_state_for BUSY_END = BUSY"
| "terminal_state_for DECLINED_END = DECLINED"
| "terminal_state_for CANCELLED_END = CANCELLED"
| "terminal_state_for MEDIA_INCOMPATIBLE_END = MEDIA_INCOMPATIBLE"
| "terminal_state_for TRANSPORT_UNREACHABLE_END = TRANSPORT_UNREACHABLE"
| "terminal_state_for AUTH_REQUIRED_UNSUPPORTED_END = AUTH_REQUIRED_UNSUPPORTED"
| "terminal_state_for PROXY_AUTH_REQUIRED_UNSUPPORTED = AUTH_REQUIRED_UNSUPPORTED"
| "terminal_state_for _ = TERMINATING"

fun reason_is_failure :: "call_end_reason \<Rightarrow> bool" where
  "reason_is_failure LOCAL_HANGUP = False"
| "reason_is_failure REMOTE_HANGUP = False"
| "reason_is_failure _ = True"

definition take_terminal_snapshot :: "'t fsm \<Rightarrow> terminal_snapshot" where
  "take_terminal_snapshot s =
     (let i = identity s in
      \<lparr>term_call_id = call_id i,
       term_direction =
         (if dialed_dest_name i \<noteq> [] then ''outgoing''
          else if dest_name i \<noteq> [] \<and> dest_name i = device_name (config s) then ''incoming'' else []),
       term_caller_name = caller_name i,
       term_dest_name = (if dialed_dest_name i \<noteq> [] then dialed_dest_name i else dest_name i),
       term_tx_format = fmt_tx (media s), term_rx_format = fmt_rx (media s)\<rparr>)"

definition end_call :: "call_end_reason \<Rightarrow> string \<Rightarrow> 't fsm \<Rightarrow> 't fsm" where
  "end_call reason detail s =
     (if phase s = IDLE \<and> \<not> setup_pending (incoming s) then s
      else
        let s0 = s\<lparr>pending_dialplan_target := []\<rparr> in
        if reason = MEDIA_INCOMPATIBLE_END \<and> ha_media_fallback_pending s then
          defer_to_loop FinishTermination
            (set_call_state CALLING (s0\<lparr>identity := (identity s0)\<lparr>call_id := []\<rparr>\<rparr>))
        else
          let s1 = s0\<lparr>ha_media_fallback_pending := False\<rparr>;
              reason_str = (if detail = [] then call_end_reason_to_str reason else detail);
              peer = peer_for_trigger s1;
              s2 = publish_last_reason reason_str (s1\<lparr>last_terminal := take_terminal_snapshot s1\<rparr>);
              s3 = set_call_state (terminal_state_for reason) s2;
              s4 = defer_to_loop (if reason_is_failure reason then CallFailedTrigger peer reason_str
                                  else HangupTrigger peer reason_str) s3
          in defer_to_loop FinishTermination (clear_call_identity s4))"

text \<open>
  What \<open>finish_call_termination_\<close> does in a terminal state. Its other branch, the second attempt
  through Home Assistant, needs the state CALLING and comes after \<open>start_call_attempt\<close>.
\<close>

definition finish_blocked :: "'t fsm \<Rightarrow> bool" where
  "finish_blocked s \<longleftrightarrow> terminal_transaction_pending s \<or> observe tp_media_phase 0 s \<noteq> 0"

definition finish_terminal :: "'t fsm \<Rightarrow> 't fsm" where
  "finish_terminal s =
     (if finish_blocked s then s
      else if call_state_is_terminating (phase s) then publish_destination (set_call_state IDLE s)
      else s)"

definition send_termination :: "string \<Rightarrow> string \<Rightarrow> sip_termination_action \<Rightarrow> 't fsm \<Rightarrow> bool \<times> 't fsm" where
  "send_termination cid detail action s =
     (case action of
        CANCEL \<Rightarrow> command (SendCancel cid) s
      | BYE \<Rightarrow> command (SendBye cid) s
      | FINAL_RESPONSE \<Rightarrow> (False, snd (send_sip_final_response cid detail s))
      | _ \<Rightarrow> (False, s))"

definition request_call_termination :: "termination_intent \<Rightarrow> 't fsm \<Rightarrow> 't fsm" where
  "request_call_termination intent s =
     (if call_state_is_terminating (phase s) then finish_terminal s
      else
        let cid = call_id (identity s);
            detail = (case intent_detail intent of None \<Rightarrow> [] | Some d \<Rightarrow> d);
            snap = \<lparr>snap_state = phase s, transport_connected = is_connected s, has_call_id = (cid \<noteq> []),
                    snap_setup_pending = (setup_pending (incoming s) \<and> cid \<noteq> [])\<rparr>;
            action = (if sip_action intent = AUTO \<and> phase s = CONNECTING \<and> answer_accepted (incoming s)
                      then BYE else sip_action intent)
        in dispatch_call_termination snap action (cache_final_response intent)
             (set_terminal_response cid detail) (send_termination cid detail)
             (end_call (intent_reason intent) detail)
             (\<lambda>s. set_audio_devices_active False (set_in_call False s))
             (tell DisconnectTransport) s)"

abbreviation intent :: "call_end_reason \<Rightarrow> string option \<Rightarrow> sip_termination_action \<Rightarrow> bool \<Rightarrow> termination_intent" where
  "intent r d a c \<equiv> \<lparr>intent_reason = r, intent_detail = d, sip_action = a, cache_final_response = c\<rparr>"


section \<open>Placing a call\<close>

definition can_start_call :: "'t fsm \<Rightarrow> bool" where
  "can_start_call s \<longleftrightarrow> phase s = IDLE \<and> \<not> terminal_transaction_pending s"

record dial_target =
  dial_ip :: string
  dial_port :: u16
  dial_rtp_port :: u16
  dial_tcp :: bool
  dial_directional :: bool

definition dial_target_of :: "contact option \<Rightarrow> dial_target" where
  "dial_target_of c =
     (case c of
        None \<Rightarrow> \<lparr>dial_ip = [], dial_port = 0, dial_rtp_port = 0, dial_tcp = False, dial_directional = False\<rparr>
      | Some e \<Rightarrow> \<lparr>dial_ip = ip e, dial_port = port e, dial_rtp_port = rtp_port e,
                   dial_tcp = sip_transport_tcp e, dial_directional = directional_audio_v1 e\<rparr>)"

text \<open>The selected contact dials TCP only when its endpoint is a SIP one.\<close>

definition selected_dial_target :: "'t fsm \<Rightarrow> dial_target" where
  "selected_dial_target s =
     (let d = dial_target_of (current (contacts s)) in
      d\<lparr>dial_tcp := (dial_tcp d \<and> current_endpoint_type (contacts s) = SIP)\<rparr>)"

definition attempt_call_id :: "string \<Rightarrow> string \<Rightarrow> 't fsm \<Rightarrow> string" where
  "attempt_call_id requested caller s =
     (if requested \<noteq> [] then requested
      else caller @ ''-'' @ dec (unat (clock s)) @ ''-'' @ dec (unat (entropy s)) @ ''@'' @
           (if device_route_id (config s) = [] then ''esp'' else device_route_id (config s)))"

definition reset_media_formats :: "'t fsm \<Rightarrow> 't fsm" where
  "reset_media_formats s =
     set_current_media_formats (cfg_tx_format (config s)) (cfg_rx_format (config s))
       (cfg_tx_format (config s)) (cfg_rx_format (config s)) s"

text \<open>An attempt, once its parties are known: no endpoint, the set-up, and the two transport steps.\<close>

record attempt =
  att_call_id :: string
  att_caller_route :: string
  att_dest_route :: string
  att_dest_name :: string

definition attempt_identity :: "attempt \<Rightarrow> 't fsm \<Rightarrow> 't fsm" where
  "attempt_identity a s =
     clear_terminal_response
       (set_call_identity (att_call_id a) (att_caller_route a) (device_name (config s)) (att_dest_route a)
          (att_dest_name a) s)"

definition unreachable_attempt :: "attempt \<Rightarrow> 't fsm \<Rightarrow> 't fsm" where
  "unreachable_attempt a s =
     request_call_termination (intent TRANSPORT_UNREACHABLE_END None NONE False)
       (set_call_state CALLING
         (reset_media_formats
           (attempt_identity a (clear_terminal_call_snapshot (s\<lparr>ha_media_fallback_pending := False\<rparr>)))))"

definition open_attempt :: "dial_target \<Rightarrow> attempt \<Rightarrow> bool \<Rightarrow> bool \<Rightarrow> 't fsm \<Rightarrow> 't fsm" where
  "open_attempt dial a via_ha route_via_ha s =
     (let s1 = tell (SetSipSignalingTransport (dial_tcp dial)) (clear_terminal_call_snapshot s);
          s2 = tell (SetPeerDirectionalAudio (dial_directional dial)) s1;
          s3 = tell (SetRemote (dial_ip dial) (dial_port dial) (dial_rtp_port dial)) s2;
          uri = ''sip:'' @ att_dest_route a @ ''@'' @ dial_ip dial @ '':'' @ dec (unat (dial_port dial));
          s4 = defer_to_loop
                 (OutgoingCallTrigger (att_call_id a) (device_name (config s)) (att_dest_name a) uri
                    (\<not> via_ha) route_via_ha) (attempt_identity a s3);
          s5 = set_call_state CALLING (set_audio_devices_active True (reset_media_formats s4))
      in s5\<lparr>calling_start_time := clock s5, ha_media_fallback_pending := False\<rparr>)"

definition send_attempt :: "dial_target \<Rightarrow> attempt \<Rightarrow> 't fsm \<Rightarrow> 't fsm" where
  "send_attempt dial a s =
     (let (ok, s1) = command (Originate (dial_ip dial) (dial_port dial)) s in
      if \<not> ok then
        request_call_termination (intent TRANSPORT_UNREACHABLE_END None NONE False)
          (s1\<lparr>pending_dialplan_target := []\<rparr>)
      else
        let (sent, s2) = command (SendInvite (att_call_id a) (att_caller_route a) (device_name (config s1))
                                    (att_dest_route a) (att_dest_name a)) s1 in
        if \<not> sent then
          request_call_termination (intent PROTOCOL_ERROR None NONE False) (s2\<lparr>pending_dialplan_target := []\<rparr>)
        else s2\<lparr>pending_dialplan_target := []\<rparr>)"

definition start_call_attempt :: "bool \<Rightarrow> string \<Rightarrow> 't fsm \<Rightarrow> 't fsm" where
  "start_call_attempt via_ha requested s =
     (let previous = identity s;
          dial = (if via_ha then dial_target_of (pb_find (contacts s) (ha_peer_name s)) else selected_dial_target s);
          selected = get_current_destination s;
          route_via_ha = (via_ha \<or> (ha_peer_name s \<noteq> [] \<and> selected = ha_peer_name s));
          dest_n = (if via_ha then dest_name previous
                    else if pending_dialplan_target s \<noteq> [] then pending_dialplan_target s
                    else if selected = [] then (if ha_peer_name s = [] then ''(unknown)'' else ha_peer_name s)
                    else selected);
          caller_r = (if device_route_id (config s) = [] then device_name (config s) else device_route_id (config s));
          dest_r = (if via_ha then dest_route previous
                    else if pending_dialplan_target s \<noteq> [] then pending_dialplan_target s
                    else if current_route (contacts s) = [] then dest_n else current_route (contacts s));
          a = \<lparr>att_call_id = attempt_call_id requested caller_r s, att_caller_route = caller_r,
               att_dest_route = dest_r, att_dest_name = dest_n\<rparr>
      in if dial_ip dial = [] \<or> dial_port dial = 0 then unreachable_attempt a s
         else send_attempt dial a (open_attempt dial a via_ha route_via_ha s))"

definition finish_call_termination :: "'t fsm \<Rightarrow> 't fsm" where
  "finish_call_termination s =
     (if finish_blocked s then s
      else if ha_media_fallback_pending s \<and> phase s = CALLING then start_call_attempt True [] s
      else if call_state_is_terminating (phase s) then publish_destination (set_call_state IDLE s)
      else s)"

definition start_with_id :: "string \<Rightarrow> 't fsm \<Rightarrow> 't fsm" where
  "start_with_id cid s =
     (if \<not> can_start_call s then s\<lparr>pending_dialplan_target := []\<rparr>
      else start_call_attempt False cid
             (s\<lparr>ha_media_fallback_pending := False, ha_media_fallback_attempted := False\<rparr>))"

definition invalid_target :: "string \<Rightarrow> bool" where
  "invalid_target t \<longleftrightarrow> length t > MAX_NAME_BYTES \<or>
     find_first_of (''|,;'' @ [CR, LF]) t \<noteq> None"

definition call_target :: "string \<Rightarrow> string \<Rightarrow> 't fsm \<Rightarrow> 't fsm" where
  "call_target v cid s =
     (let target = pb_trim v in
      if \<not> can_start_call s then s
      else if target = [] then defer_to_loop (CallFailedTrigger [] ''Empty target'') s
      else if invalid_target target then defer_to_loop (CallFailedTrigger target ''Invalid target'') s
      else
        let (found, pb) = pb_select (contacts s) target in
        if cid = [] \<and> found then
          start_with_id [] (publish_destination (s\<lparr>contacts := pb, pending_dialplan_target := []\<rparr>))
        else
          let (ha_found, ha_pb) = pb_select (contacts s) (ha_peer_name s) in
          if ha_peer_name s = [] \<or> pb_find (contacts s) (ha_peer_name s) = None \<or> \<not> ha_found then
            defer_to_loop (CallFailedTrigger target (''Contact not found: '' @ target)) s
          else start_with_id cid (publish_destination (s\<lparr>contacts := ha_pb, pending_dialplan_target := target\<rparr>)))"

text \<open>The Call-ID accepted from Home Assistant.\<close>

definition call_id_char :: "char \<Rightarrow> bool" where
  "call_id_char c \<longleftrightarrow> is_alnum c \<or> c = CHR ''-'' \<or> c = CHR ''.'' \<or> c = CHR ''_'' \<or> c = CHR ''@''"

definition valid_ha_call_id :: "string \<Rightarrow> bool" where
  "valid_ha_call_id cid \<longleftrightarrow>
     cid \<noteq> [] \<and> length cid \<le> 128 \<and>
     (case find_char (CHR ''@'') cid of
        None \<Rightarrow> True
      | Some at \<Rightarrow> \<not> (at = 0 \<or> at + 1 = length cid \<or> find_char_from (CHR ''@'') cid (at + 1) \<noteq> None)) \<and>
     list_all call_id_char cid"

definition call_via_ha :: "string \<Rightarrow> string \<Rightarrow> 't fsm \<Rightarrow> 't fsm" where
  "call_via_ha v cid s = (if valid_ha_call_id cid then call_target v cid s else s)"

section \<open>Local actions\<close>

definition is_active :: "'t fsm \<Rightarrow> bool" where
  "is_active s \<longleftrightarrow> phase s = IN_CALL \<or> phase s = CALLING \<or> phase s = REMOTE_RINGING \<or>
     phase s = RINGING \<or> phase s = CONNECTING"

definition is_calling :: "'t fsm \<Rightarrow> bool" where
  "is_calling s \<longleftrightarrow> phase s = CALLING \<or> phase s = REMOTE_RINGING"

definition stop_call :: "'t fsm \<Rightarrow> 't fsm" where
  "stop_call s =
     (if \<not> is_active s then (if audio_devices_active s then set_audio_devices_active False s else s)
      else request_call_termination (intent LOCAL_HANGUP None AUTO True) s)"

definition hangup_call_if_id :: "string \<Rightarrow> 't fsm \<Rightarrow> 't fsm" where
  "hangup_call_if_id cid s = (if cid \<noteq> [] \<and> cid = call_id (identity s) then stop_call s else s)"

text \<open>The end of \<open>complete_incoming_answer_\<close>: the devices and the prepared media.\<close>

definition commit_incoming_answer :: "'t fsm \<Rightarrow> 't fsm" where
  "commit_incoming_answer s =
     (let (commit_failed, s1) = fails CommitMediaPath (set_audio_devices_active True s) in
      if commit_failed then
        request_call_termination (intent TRANSPORT_UNREACHABLE_END None BYE False) (tell AbortMediaPath s1)
      else set_in_call True s1)"

definition connect_incoming_answer :: "bool \<Rightarrow> bool \<Rightarrow> 't fsm \<Rightarrow> 't fsm" where
  "connect_incoming_answer send_answer waiting s =
     (let s1 = set_call_state CONNECTING (s\<lparr>incoming := (incoming s)\<lparr>setup_pending := False\<rparr>\<rparr>);
          sending = (send_answer \<and> transport s1 \<noteq> None \<and> call_id (identity s1) \<noteq> []);
          (answered, s2) = (if sending then send_sip_answer (call_id (identity s1)) s1 else (True, s1))
      in if \<not> answered then
           request_call_termination (intent PROTOCOL_ERROR None NONE False) (tell AbortMediaPath s2)
         else
           let s3 = (if sending then s2\<lparr>incoming := (incoming s2)\<lparr>answer_accepted := True\<rparr>\<rparr> else s2)
           in if waiting then s3 else commit_incoming_answer s3)"

definition complete_incoming_answer :: "bool \<Rightarrow> 't fsm \<Rightarrow> 't fsm" where
  "complete_incoming_answer send_answer s =
     (let waiting = (send_answer \<and> media_answer_wait (incoming s));
          (prepare_failed, s1) = (if waiting then (False, s) else fails PrepareMediaPath s)
      in if prepare_failed then
           request_call_termination
             (intent TRANSPORT_UNREACHABLE_END (Some kReasonMediaSetupFailed)
                (if send_answer then FINAL_RESPONSE else BYE) send_answer) s1
         else connect_incoming_answer send_answer waiting s1)"

definition answer_call :: "'t fsm \<Rightarrow> 't fsm" where
  "answer_call s =
     (if phase s \<noteq> RINGING \<or> \<not> is_connected s then s else complete_incoming_answer True s)"

definition decline_call :: "string \<Rightarrow> 't fsm \<Rightarrow> 't fsm" where
  "decline_call reason s =
     (if phase s = IN_CALL then stop_call s
      else if phase s \<noteq> RINGING \<and> \<not> is_calling s then s
      else request_call_termination
             (intent (if reason = [] then LOCAL_HANGUP else DECLINED_END)
                (if reason = [] then None else Some reason)
                (if is_calling s then CANCEL else FINAL_RESPONSE) True) s)"

definition call_toggle :: "'t fsm \<Rightarrow> 't fsm" where
  "call_toggle s =
     (if phase s = RINGING then answer_call s
      else if is_active s then stop_call s
      else start_with_id [] s)"

section \<open>Signals from the transport\<close>

definition own_route :: "'t fsm \<Rightarrow> string" where
  "own_route s = (if device_route_id (config s) = [] then device_name (config s) else device_route_id (config s))"

text \<open>The audio formats of an offer: per direction \<open>None\<close> when it finds no common format.\<close>

definition offer_formats :: "sip_signal \<Rightarrow> 't fsm \<Rightarrow> (audio_format \<times> audio_format) option" where
  "offer_formats m s =
     (let receive = (caller_tx_formats m \<noteq> [] \<and> cfg_rx_formats (config s) \<noteq> []);
          send = (caller_rx_formats m \<noteq> [] \<and> cfg_tx_formats (config s) \<noteq> []);
          c2d = (if receive then choose_common_audio_format (caller_tx_formats m) (cfg_rx_formats (config s))
                 else Some disabled_audio_format);
          d2c = (if send then choose_common_audio_format (caller_rx_formats m) (cfg_tx_formats (config s))
                 else Some disabled_audio_format)
      in if \<not> receive \<and> \<not> send then None
         else case c2d of None \<Rightarrow> None | Some f \<Rightarrow> map_option (\<lambda>g. (f, g)) d2c)"

definition refuse_invite :: "string \<Rightarrow> string \<Rightarrow> 't fsm \<Rightarrow> 't fsm" where
  "refuse_invite cid reason s =
     tell DisconnectTransport (snd (send_sip_final_response cid reason (set_terminal_response cid reason s)))"

definition ring_invite :: "string \<Rightarrow> 't fsm \<Rightarrow> 't fsm" where
  "ring_invite cid s =
     (let (ringing, s1) = command (SendRinging cid) s in
      if \<not> ringing then
        request_call_termination (intent PROTOCOL_ERROR (Some kReasonProtocolError) FINAL_RESPONSE True) s1
      else set_call_state RINGING
             (s1\<lparr>ringing_start_time := clock s1, incoming := (incoming s1)\<lparr>setup_pending := False\<rparr>\<rparr>))"

definition admit_invite :: "sip_signal \<Rightarrow> audio_format \<times> audio_format \<Rightarrow> 't fsm \<Rightarrow> 't fsm" where
  "admit_invite m fs s =
     (let (c2d, d2c) = fs;
          cid = sig_call_id m;
          s1 = clear_terminal_call_snapshot (set_current_media_formats c2d d2c d2c c2d s);
          dest_r = (if sig_dest_route m = [] then own_route s else sig_dest_route m);
          dest_n = (if sig_dest_name m = [] then device_name (config s) else sig_dest_name m);
          s2 = set_call_identity cid (sig_caller_route m) (sig_caller_name m) dest_r dest_n s1;
          s3 = clear_terminal_response
                 (s2\<lparr>incoming := \<lparr>setup_pending = True, media_answer_wait = media_answer_pending m,
                                 answer_accepted = False\<rparr>\<rparr>);
          s4 = tell (SetConnectedIdentity
                      (if device_route_id (config s) = [] then dest_r else device_route_id (config s))
                      (device_name (config s))) s3;
          uri = ''sip:'' @ (if sig_caller_route m = [] then sig_caller_name m else sig_caller_route m)
      in defer_to_loop (IncomingCallTrigger cid (sig_caller_name m) dest_n uri)
           (publish_caller (sig_caller_name m) s4))"

definition accept_invite :: "sip_signal \<Rightarrow> audio_format \<times> audio_format \<Rightarrow> 't fsm \<Rightarrow> 't fsm" where
  "accept_invite m fs s =
     (if auto_answer (config s) then complete_incoming_answer True (admit_invite m fs s)
      else ring_invite (sig_call_id m) (admit_invite m fs s))"

definition on_invite :: "sip_signal \<Rightarrow> 't fsm \<Rightarrow> 't fsm" where
  "on_invite m s =
     (if phase s \<noteq> IDLE then s
      else if response_call_id (response s) \<noteq> [] \<and> sig_call_id m = response_call_id (response s) \<and>
              response_age s \<le> TERMINAL_RESPONSE_REPLAY_MS
      then snd (send_sip_final_response (sig_call_id m) (response_reason (response s)) s)
      else if do_not_disturb (config s) then refuse_invite (sig_call_id m) kReasonBusy s
      else case offer_formats m s of
             None \<Rightarrow> refuse_invite (sig_call_id m) kReasonMediaIncompatible s
           | Some fs \<Rightarrow> accept_invite m fs s)"

definition selected_formats_bad :: "sip_signal \<Rightarrow> 't fsm \<Rightarrow> bool" where
  "selected_formats_bad m s \<longleftrightarrow>
     (format_valid (selected_tx_format m) \<and>
        \<not> audio_format_list_contains (cfg_tx_formats (config s)) (selected_tx_format m)) \<or>
     (format_valid (selected_rx_format m) \<and>
        \<not> audio_format_list_contains (cfg_rx_formats (config s)) (selected_rx_format m)) \<or>
     (\<not> format_valid (selected_tx_format m) \<and> \<not> format_valid (selected_rx_format m))"

definition on_media_ready :: "sip_signal \<Rightarrow> 't fsm \<Rightarrow> 't fsm" where
  "on_media_ready m s =
     (if \<not> media_answer_wait (incoming s) \<or> phase s \<noteq> CONNECTING \<or> sig_call_id m \<noteq> call_id (identity s) then s
      else
        let s1 = s\<lparr>incoming := (incoming s)\<lparr>media_answer_wait := False\<rparr>\<rparr> in
        if selected_formats_bad m s1 then
          request_call_termination (intent MEDIA_INCOMPATIBLE_END None BYE False) s1
        else complete_incoming_answer False
               (set_current_media_formats (selected_rx_format m) (selected_tx_format m)
                  (selected_tx_format m) (selected_rx_format m) s1))"

definition on_connected_identity :: "sip_signal \<Rightarrow> 't fsm \<Rightarrow> 't fsm" where
  "on_connected_identity m s =
     (if ignore_if_idle_or_stale (sig_call_id m) s then s
      else
        let s1 = (if media_source_changed m then reset_peer_audio_watchdog True (emit AudioReset s) else s);
            call = identity s1;
            peer = (if connected_name m = [] then connected_route m else connected_name m)
        in if peer = [] then s1
           else if caller_name call = device_name (config s1) then
             publish_destination
               (set_call_identity (call_id call) (caller_route call) (caller_name call)
                  (if connected_route m = [] then dest_route call else connected_route m) peer s1)
           else
             publish_caller peer
               (set_call_identity (call_id call)
                  (if connected_route m = [] then caller_route call else connected_route m) peer
                  (dest_route call) (dest_name call) s1))"

definition on_status_200 :: "sip_signal \<Rightarrow> 't fsm \<Rightarrow> 't fsm" where
  "on_status_200 m s =
     (if sig_call_id m \<noteq> [] \<and>
         (recent_terminal_call (sig_call_id m) s \<or>
          (call_id (identity s) \<noteq> [] \<and> sig_call_id m \<noteq> call_id (identity s))) then s
      else if is_calling s then
        (if selected_formats_bad m s then
           request_call_termination (intent MEDIA_INCOMPATIBLE_END None BYE False) s
         else
           let (failed, s1) = fails StartAudioPath
                 (set_current_media_formats (selected_tx_format m) (selected_rx_format m)
                    (selected_tx_format m) (selected_rx_format m) s)
           in if failed then request_call_termination (intent TRANSPORT_UNREACHABLE_END None BYE False) s1
              else set_in_call True (set_call_state CONNECTING s1))
      else if phase s = RINGING then answer_call s
      else if phase s = IN_CALL \<and> \<not> first_audio_received (watchdog s) then
        snd (send_sip_answer (call_id (identity s)) s)
      else s)"

definition final_reason :: "sip_signal \<Rightarrow> call_end_reason" where
  "final_reason m =
     (if status_code m = 486 \<or> sig_reason m = kReasonBusy then BUSY_END
      else if status_code m = 487 \<or> sig_reason m = kReasonCancelled then CANCELLED_END
      else if status_code m = 488 \<or> sig_reason m = kReasonMediaIncompatible then MEDIA_INCOMPATIBLE_END
      else if status_code m = 408 \<or> sig_reason m = kReasonTimeout then TIMEOUT_END
      else if status_code m = 401 \<or> sig_reason m = kReasonAuthRequiredUnsupported then AUTH_REQUIRED_UNSUPPORTED_END
      else if status_code m = 407 \<or> sig_reason m = kReasonProxyAuthRequiredUnsupported
        then PROXY_AUTH_REQUIRED_UNSUPPORTED
      else if signal_type m = PROTOCOL_ERROR_SIGNAL then PROTOCOL_ERROR
      else DECLINED_END)"

definition falls_back_to_ha :: "call_end_reason \<Rightarrow> 't fsm \<Rightarrow> bool" where
  "falls_back_to_ha reason s \<longleftrightarrow>
     reason = MEDIA_INCOMPATIBLE_END \<and> (phase s = CALLING \<or> phase s = REMOTE_RINGING \<or> phase s = CONNECTING) \<and>
     dialed_dest_name (identity s) \<noteq> [] \<and> \<not> ha_media_fallback_attempted s \<and> ha_peer_name s \<noteq> [] \<and>
     get_current_destination s \<noteq> ha_peer_name s \<and> pb_find (contacts s) (ha_peer_name s) \<noteq> None"

definition on_final_response :: "sip_signal \<Rightarrow> 't fsm \<Rightarrow> 't fsm" where
  "on_final_response m s =
     (if ignore_if_idle_or_stale (sig_call_id m) s then s
      else
        let reason = final_reason m;
            detail = (if reason = DECLINED_END \<and> sig_reason m \<noteq> [] \<and> sig_reason m \<noteq> kReasonDeclined
                      then Some (sig_reason m) else None);
            s1 = (if falls_back_to_ha reason s
                  then s\<lparr>ha_media_fallback_pending := True, ha_media_fallback_attempted := True\<rparr> else s)
        in request_call_termination (intent reason detail NONE False) s1)"

definition on_sip_signal_received :: "sip_signal \<Rightarrow> 't fsm \<Rightarrow> 't fsm" where
  "on_sip_signal_received m s =
     (case signal_type m of
        INVITE_SIGNAL \<Rightarrow> on_invite m s
      | MEDIA_READY \<Rightarrow> on_media_ready m s
      | BYE_SIGNAL \<Rightarrow> if ignore_if_idle_or_stale (sig_call_id m) s then s
                      else request_call_termination (intent REMOTE_HANGUP None NONE False) s
      | TERMINAL_COMPLETE \<Rightarrow> finish_call_termination s
      | CONNECTED_IDENTITY \<Rightarrow> on_connected_identity m s
      | STATUS_200_OK \<Rightarrow> on_status_200 m s
      | CANCEL_SIGNAL \<Rightarrow> if ignore_if_idle_or_stale (sig_call_id m) s then s
                         else request_call_termination (intent CANCELLED_END None NONE False) s
      | STATUS_180_RINGING \<Rightarrow> if phase s = CALLING then set_call_state REMOTE_RINGING s else s
      | OPTIONS_SIGNAL \<Rightarrow> s
      | _ \<Rightarrow> on_final_response m s)"

definition on_connection_change :: "bool \<Rightarrow> 't fsm \<Rightarrow> 't fsm" where
  "on_connection_change connected s =
     (if connected then s
      else if ha_media_fallback_pending s then finish_call_termination s
      else if phase s \<noteq> IDLE then
        request_call_termination (intent TRANSPORT_UNREACHABLE_END None NONE False) s
      else publish_state (publish_caller [] (set_audio_devices_active False s)))"

definition transport_connection_callback :: "bool \<Rightarrow> 't fsm \<Rightarrow> 't fsm" where
  "transport_connection_callback connected s =
     defer_to_loop (ConnectionChange connected (call_id (identity s))) s"

definition transport_media_quiesced_callback :: "'t fsm \<Rightarrow> 't fsm" where
  "transport_media_quiesced_callback s = defer_to_loop FinishTermination s"

definition can_accept_session :: "'t fsm \<Rightarrow> bool" where
  "can_accept_session s \<longleftrightarrow> \<not> ha_media_fallback_pending s \<and> (phase s = IDLE \<or> phase s = CALLING)"

text \<open>An audio frame: its size and the packed format it came with (0 for the current one).\<close>

definition on_audio_received :: "u32 \<Rightarrow> u32 \<Rightarrow> 't fsm \<Rightarrow> 't fsm" where
  "on_audio_received frame_bytes format_packed s =
     (if phase s \<noteq> CONNECTING \<and> phase s \<noteq> IN_CALL then s
      else
        let f = (if format_packed \<noteq> 0 then unpack_audio_format format_packed else current_rx_format s) in
        if (codec f = PCM \<and> frame_bytes \<noteq> nominal_frame_bytes f) \<or> (codec f = OPUS \<and> frame_bytes > 1275) then s
        else
          let s1 = s\<lparr>watchdog := (watchdog s)\<lparr>first_audio_received := True, last_peer_audio_ms := clock s\<rparr>\<rparr>
          in if has_speaker (config s) then emit (EnqueueRxFrame frame_bytes) s1 else s1)"

section \<open>Timeouts and the main loop\<close>

definition INVITE_NO_RESPONSE_TIMEOUT_MS :: u32 where "INVITE_NO_RESPONSE_TIMEOUT_MS = 5000"
definition MEDIA_TIMEOUT_MS :: u32 where "MEDIA_TIMEOUT_MS = 15000"

definition fire_unanswered_invite_timeout :: "'t fsm \<Rightarrow> 't fsm" where
  "fire_unanswered_invite_timeout s =
     request_call_termination (intent TIMEOUT_END (Some kReasonTimeout) NONE True) s"

definition fire_timeout_decline :: "'t fsm \<Rightarrow> 't fsm" where
  "fire_timeout_decline s =
     request_call_termination
       (intent TIMEOUT_END (Some kReasonTimeout) (if phase s = RINGING then FINAL_RESPONSE else CANCEL) True) s"

definition watch_peer_audio :: "'t \<Rightarrow> 't fsm \<Rightarrow> 't fsm" where
  "watch_peer_audio t s =
     (let rx = tp_received_packets (vtable s) t; w = watchdog s in
      if \<not> tp_remote_audio_expected (vtable s) t then
        s\<lparr>watchdog := w\<lparr>media_timeout_rtp_rx_packets := rx, last_peer_audio_ms := clock s\<rparr>\<rparr>
      else
        let w1 = (if rx \<noteq> media_timeout_rtp_rx_packets w
                  then w\<lparr>media_timeout_rtp_rx_packets := rx, last_peer_audio_ms := clock s,
                         first_audio_received := (rx \<noteq> 0 \<or> first_audio_received w)\<rparr> else w);
            s1 = s\<lparr>watchdog := w1\<rparr>;
            elapsed = clock s - last_peer_audio_ms w1
        in if last_peer_audio_ms w1 \<noteq> 0 \<and> elapsed < 0x80000000 \<and> elapsed \<ge> MEDIA_TIMEOUT_MS
           then request_call_termination (intent MEDIA_TIMEOUT (Some kReasonMediaTimeout) BYE True) s1
           else s1)"

definition handle_call_timeouts :: "'t fsm \<Rightarrow> 't fsm" where
  "handle_call_timeouts s =
     (let calling_to = (if calling_timeout_ms (config s) > 0 then calling_timeout_ms (config s)
                        else ringing_timeout_ms (config s))
      in if ringing_timeout_ms (config s) > 0 \<and> phase s = RINGING \<and>
            clock s - ringing_start_time s \<ge> ringing_timeout_ms (config s) then fire_timeout_decline s
         else if phase s = CALLING \<and> clock s - calling_start_time s \<ge> INVITE_NO_RESPONSE_TIMEOUT_MS \<and>
            observe tp_last_status 0 s = 0 then fire_unanswered_invite_timeout s
         else if calling_to > 0 \<and> is_calling s \<and> clock s - calling_start_time s \<ge> calling_to
            then fire_timeout_decline s
         else if phase s = IN_CALL \<and> has_speaker (config s)
            then (case transport s of None \<Rightarrow> s | Some t \<Rightarrow> watch_peer_audio t s)
         else s)"

definition confirm_direct_route :: "string \<Rightarrow> 't fsm \<Rightarrow> 't fsm" where
  "confirm_direct_route cid s =
     (let ha = (if ha_peer_name s = [] then None else pb_find (contacts s) (ha_peer_name s));
          peer_ip = observe tp_remote_ip 0 s;
          is_ha = (case ha of None \<Rightarrow> False | Some e \<Rightarrow> tp_inet_aton (vtable s) (ip e) = Some peer_ip)
      in if peer_ip \<noteq> 0 \<and> \<not> is_ha \<and> route_projection s = ROUTE_UNKNOWN
         then snd (set_media_route cid ''direct'' s) else s)"

definition run_deferred :: "deferred \<Rightarrow> 't fsm \<Rightarrow> 't fsm" where
  "run_deferred d s =
     (case d of
        FinishTermination \<Rightarrow> finish_call_termination s
      | ConfirmDirectRoute cid \<Rightarrow> confirm_direct_route cid s
      | PublishMediaRouteLater \<Rightarrow> publish_media_route s
      | PublishCallerLater n \<Rightarrow> publish_caller n s
      | ConnectionChange connected cid \<Rightarrow>
          if \<not> connected \<and> call_id (identity s) \<noteq> cid then s else on_connection_change connected s
      | _ \<Rightarrow> emit (Fired d) s)"

definition run_queue_head :: "'t fsm \<Rightarrow> 't fsm" where
  "run_queue_head s = (case queue s of [] \<Rightarrow> s | d # ds \<Rightarrow> run_deferred d (s\<lparr>queue := ds\<rparr>))"

section \<open>Events\<close>

datatype fsm_event =
    Start | StartVia string string | Call string | Stop | HangupId string | Answer | Decline string | Toggle
  | Signal sip_signal | Connection bool | MediaQuiesced | AudioFrame u32 u32 | Timeouts u32 u32
  | MainLoop | MediaRouteSet string string | SetDoNotDisturb bool | SetAutoAnswer bool

definition fsm_step :: "'t fsm \<Rightarrow> fsm_event \<Rightarrow> 't fsm" where
  "fsm_step s e =
     (case e of
        Start \<Rightarrow> start_with_id [] s
      | StartVia v cid \<Rightarrow> call_via_ha v cid s
      | Call v \<Rightarrow> call_target v [] s
      | Stop \<Rightarrow> stop_call s
      | HangupId cid \<Rightarrow> hangup_call_if_id cid s
      | Answer \<Rightarrow> answer_call s
      | Decline r \<Rightarrow> decline_call r s
      | Toggle \<Rightarrow> call_toggle s
      | Signal m \<Rightarrow> on_sip_signal_received m s
      | Connection c \<Rightarrow> transport_connection_callback c s
      | MediaQuiesced \<Rightarrow> transport_media_quiesced_callback s
      | AudioFrame n p \<Rightarrow> on_audio_received n p s
      | Timeouts t r \<Rightarrow> handle_call_timeouts (s\<lparr>clock := t, entropy := r\<rparr>)
      | MainLoop \<Rightarrow> run_queue_head s
      | MediaRouteSet cid r \<Rightarrow> snd (set_media_route cid r s)
      | SetDoNotDisturb b \<Rightarrow> s\<lparr>config := (config s)\<lparr>do_not_disturb := b\<rparr>\<rparr>
      | SetAutoAnswer b \<Rightarrow> s\<lparr>config := (config s)\<lparr>auto_answer := b\<rparr>\<rparr>)"

end
