(* ===== verification/CallFsmProps.thy ===== *)
theory CallFsmProps
  imports CallFsm
begin

text \<open>
  What the call state machine guarantees. First the frame lemmas (which fields an operation
  leaves alone) and two relations between a state and a later one: \<open>grows Q\<close>, where every
  effect appended to the log satisfies \<open>Q\<close>, and \<open>moves\<close>, where the state changes in the log form
  a path in the graph of allowed transitions. Both are closed under composition, with one
  introduction rule per operation, collected in \<open>fsm_intros\<close>.
\<close>

named_theorems fsm_intros \<open>introduction rules of the log relations\<close>

section \<open>Frames\<close>

lemma emit_frame [simp]:
  "config (emit e s) = config s"
  "vtable (emit e s) = vtable s"
  "phase (emit e s) = phase s"
  "identity (emit e s) = identity s"
  "incoming (emit e s) = incoming s"
  "response (emit e s) = response s"
  "ha_media_fallback_pending (emit e s) = ha_media_fallback_pending s"
  "ha_media_fallback_attempted (emit e s) = ha_media_fallback_attempted s"
  "ha_peer_name (emit e s) = ha_peer_name s"
  "contacts (emit e s) = contacts s"
  "last_reason (emit e s) = last_reason s"
  "last_terminal (emit e s) = last_terminal s"
  "clock (emit e s) = clock s"
  by (simp_all add: emit_def)

lemma defer_frame [simp]:
  "config (defer_to_loop d s) = config s"
  "vtable (defer_to_loop d s) = vtable s"
  "phase (defer_to_loop d s) = phase s"
  "identity (defer_to_loop d s) = identity s"
  "incoming (defer_to_loop d s) = incoming s"
  "response (defer_to_loop d s) = response s"
  "ha_media_fallback_pending (defer_to_loop d s) = ha_media_fallback_pending s"
  "ha_media_fallback_attempted (defer_to_loop d s) = ha_media_fallback_attempted s"
  "ha_peer_name (defer_to_loop d s) = ha_peer_name s"
  "contacts (defer_to_loop d s) = contacts s"
  "last_reason (defer_to_loop d s) = last_reason s"
  "last_terminal (defer_to_loop d s) = last_terminal s"
  "clock (defer_to_loop d s) = clock s"
  by (simp_all add: defer_to_loop_def)

lemma command_frame [simp]:
  "config (snd (command c s)) = config s"
  "vtable (snd (command c s)) = vtable s"
  "phase (snd (command c s)) = phase s"
  "identity (snd (command c s)) = identity s"
  "incoming (snd (command c s)) = incoming s"
  "response (snd (command c s)) = response s"
  "ha_media_fallback_pending (snd (command c s)) = ha_media_fallback_pending s"
  "ha_media_fallback_attempted (snd (command c s)) = ha_media_fallback_attempted s"
  "ha_peer_name (snd (command c s)) = ha_peer_name s"
  "contacts (snd (command c s)) = contacts s"
  "last_reason (snd (command c s)) = last_reason s"
  "last_terminal (snd (command c s)) = last_terminal s"
  "clock (snd (command c s)) = clock s"
  by (simp_all add: command_def  split: option.splits prod.splits)

lemma tell_frame [simp]:
  "config (tell c s) = config s"
  "vtable (tell c s) = vtable s"
  "phase (tell c s) = phase s"
  "identity (tell c s) = identity s"
  "incoming (tell c s) = incoming s"
  "response (tell c s) = response s"
  "ha_media_fallback_pending (tell c s) = ha_media_fallback_pending s"
  "ha_media_fallback_attempted (tell c s) = ha_media_fallback_attempted s"
  "ha_peer_name (tell c s) = ha_peer_name s"
  "contacts (tell c s) = contacts s"
  "last_reason (tell c s) = last_reason s"
  "last_terminal (tell c s) = last_terminal s"
  "clock (tell c s) = clock s"
  by (simp_all add: tell_def)

lemma fails_frame [simp]:
  "config (snd (fails c s)) = config s"
  "vtable (snd (fails c s)) = vtable s"
  "phase (snd (fails c s)) = phase s"
  "identity (snd (fails c s)) = identity s"
  "incoming (snd (fails c s)) = incoming s"
  "response (snd (fails c s)) = response s"
  "ha_media_fallback_pending (snd (fails c s)) = ha_media_fallback_pending s"
  "ha_media_fallback_attempted (snd (fails c s)) = ha_media_fallback_attempted s"
  "ha_peer_name (snd (fails c s)) = ha_peer_name s"
  "contacts (snd (fails c s)) = contacts s"
  "last_reason (snd (fails c s)) = last_reason s"
  "last_terminal (snd (fails c s)) = last_terminal s"
  "clock (snd (fails c s)) = clock s"
  by (simp_all add: fails_def case_prod_beta split: option.splits)

lemma watchdog_frame [simp]:
  "config (reset_peer_audio_watchdog b s) = config s"
  "vtable (reset_peer_audio_watchdog b s) = vtable s"
  "phase (reset_peer_audio_watchdog b s) = phase s"
  "identity (reset_peer_audio_watchdog b s) = identity s"
  "incoming (reset_peer_audio_watchdog b s) = incoming s"
  "response (reset_peer_audio_watchdog b s) = response s"
  "ha_media_fallback_pending (reset_peer_audio_watchdog b s) = ha_media_fallback_pending s"
  "ha_media_fallback_attempted (reset_peer_audio_watchdog b s) = ha_media_fallback_attempted s"
  "ha_peer_name (reset_peer_audio_watchdog b s) = ha_peer_name s"
  "contacts (reset_peer_audio_watchdog b s) = contacts s"
  "last_reason (reset_peer_audio_watchdog b s) = last_reason s"
  "last_terminal (reset_peer_audio_watchdog b s) = last_terminal s"
  "clock (reset_peer_audio_watchdog b s) = clock s"
  by (simp_all add: reset_peer_audio_watchdog_def)

lemma devices_frame [simp]:
  "config (set_audio_devices_active b s) = config s"
  "vtable (set_audio_devices_active b s) = vtable s"
  "phase (set_audio_devices_active b s) = phase s"
  "identity (set_audio_devices_active b s) = identity s"
  "incoming (set_audio_devices_active b s) = incoming s"
  "response (set_audio_devices_active b s) = response s"
  "ha_media_fallback_pending (set_audio_devices_active b s) = ha_media_fallback_pending s"
  "ha_media_fallback_attempted (set_audio_devices_active b s) = ha_media_fallback_attempted s"
  "ha_peer_name (set_audio_devices_active b s) = ha_peer_name s"
  "contacts (set_audio_devices_active b s) = contacts s"
  "last_reason (set_audio_devices_active b s) = last_reason s"
  "last_terminal (set_audio_devices_active b s) = last_terminal s"
  "clock (set_audio_devices_active b s) = clock s"
  by (simp_all add: set_audio_devices_active_def Let_def)

lemma speaker_frame [simp]:
  "config (start_speaker_for_current_rx s) = config s"
  "vtable (start_speaker_for_current_rx s) = vtable s"
  "phase (start_speaker_for_current_rx s) = phase s"
  "identity (start_speaker_for_current_rx s) = identity s"
  "incoming (start_speaker_for_current_rx s) = incoming s"
  "response (start_speaker_for_current_rx s) = response s"
  "ha_media_fallback_pending (start_speaker_for_current_rx s) = ha_media_fallback_pending s"
  "ha_media_fallback_attempted (start_speaker_for_current_rx s) = ha_media_fallback_attempted s"
  "ha_peer_name (start_speaker_for_current_rx s) = ha_peer_name s"
  "contacts (start_speaker_for_current_rx s) = contacts s"
  "last_reason (start_speaker_for_current_rx s) = last_reason s"
  "last_terminal (start_speaker_for_current_rx s) = last_terminal s"
  "clock (start_speaker_for_current_rx s) = clock s"
  by (simp_all add: start_speaker_for_current_rx_def)

lemma publish_route_frame [simp]:
  "config (publish_media_route s) = config s"
  "vtable (publish_media_route s) = vtable s"
  "phase (publish_media_route s) = phase s"
  "identity (publish_media_route s) = identity s"
  "incoming (publish_media_route s) = incoming s"
  "response (publish_media_route s) = response s"
  "ha_media_fallback_pending (publish_media_route s) = ha_media_fallback_pending s"
  "ha_media_fallback_attempted (publish_media_route s) = ha_media_fallback_attempted s"
  "ha_peer_name (publish_media_route s) = ha_peer_name s"
  "contacts (publish_media_route s) = contacts s"
  "last_reason (publish_media_route s) = last_reason s"
  "last_terminal (publish_media_route s) = last_terminal s"
  "clock (publish_media_route s) = clock s"
  by (simp_all add: publish_media_route_def)

lemma set_route_frame [simp]:
  "config (snd (set_media_route c r s)) = config s"
  "vtable (snd (set_media_route c r s)) = vtable s"
  "phase (snd (set_media_route c r s)) = phase s"
  "identity (snd (set_media_route c r s)) = identity s"
  "incoming (snd (set_media_route c r s)) = incoming s"
  "response (snd (set_media_route c r s)) = response s"
  "ha_media_fallback_pending (snd (set_media_route c r s)) = ha_media_fallback_pending s"
  "ha_media_fallback_attempted (snd (set_media_route c r s)) = ha_media_fallback_attempted s"
  "ha_peer_name (snd (set_media_route c r s)) = ha_peer_name s"
  "contacts (snd (set_media_route c r s)) = contacts s"
  "last_reason (snd (set_media_route c r s)) = last_reason s"
  "last_terminal (snd (set_media_route c r s)) = last_terminal s"
  "clock (snd (set_media_route c r s)) = clock s"
  by (simp_all add: set_media_route_def Let_def)

lemma publish_state_frame [simp]:
  "config (publish_state s) = config s"
  "vtable (publish_state s) = vtable s"
  "phase (publish_state s) = phase s"
  "identity (publish_state s) = identity s"
  "incoming (publish_state s) = incoming s"
  "response (publish_state s) = response s"
  "ha_media_fallback_pending (publish_state s) = ha_media_fallback_pending s"
  "ha_media_fallback_attempted (publish_state s) = ha_media_fallback_attempted s"
  "ha_peer_name (publish_state s) = ha_peer_name s"
  "contacts (publish_state s) = contacts s"
  "last_reason (publish_state s) = last_reason s"
  "last_terminal (publish_state s) = last_terminal s"
  "clock (publish_state s) = clock s"
  by (simp_all add: publish_state_def)

lemma publish_caller_frame [simp]:
  "config (publish_caller n s) = config s"
  "vtable (publish_caller n s) = vtable s"
  "phase (publish_caller n s) = phase s"
  "identity (publish_caller n s) = identity s"
  "incoming (publish_caller n s) = incoming s"
  "response (publish_caller n s) = response s"
  "ha_media_fallback_pending (publish_caller n s) = ha_media_fallback_pending s"
  "ha_media_fallback_attempted (publish_caller n s) = ha_media_fallback_attempted s"
  "ha_peer_name (publish_caller n s) = ha_peer_name s"
  "contacts (publish_caller n s) = contacts s"
  "last_reason (publish_caller n s) = last_reason s"
  "last_terminal (publish_caller n s) = last_terminal s"
  "clock (publish_caller n s) = clock s"
  by (simp_all add: publish_caller_def)

lemma publish_destination_frame [simp]:
  "config (publish_destination s) = config s"
  "vtable (publish_destination s) = vtable s"
  "phase (publish_destination s) = phase s"
  "identity (publish_destination s) = identity s"
  "incoming (publish_destination s) = incoming s"
  "response (publish_destination s) = response s"
  "ha_media_fallback_pending (publish_destination s) = ha_media_fallback_pending s"
  "ha_media_fallback_attempted (publish_destination s) = ha_media_fallback_attempted s"
  "ha_peer_name (publish_destination s) = ha_peer_name s"
  "contacts (publish_destination s) = contacts s"
  "last_reason (publish_destination s) = last_reason s"
  "last_terminal (publish_destination s) = last_terminal s"
  "clock (publish_destination s) = clock s"
  by (simp_all add: publish_destination_def Let_def)

lemma publish_reason_frame [simp]:
  "config (publish_last_reason r s) = config s"
  "vtable (publish_last_reason r s) = vtable s"
  "phase (publish_last_reason r s) = phase s"
  "identity (publish_last_reason r s) = identity s"
  "incoming (publish_last_reason r s) = incoming s"
  "response (publish_last_reason r s) = response s"
  "ha_media_fallback_pending (publish_last_reason r s) = ha_media_fallback_pending s"
  "ha_media_fallback_attempted (publish_last_reason r s) = ha_media_fallback_attempted s"
  "ha_peer_name (publish_last_reason r s) = ha_peer_name s"
  "contacts (publish_last_reason r s) = contacts s"
  "last_terminal (publish_last_reason r s) = last_terminal s"
  "clock (publish_last_reason r s) = clock s"
  by (simp_all add: publish_last_reason_def)

lemma clear_snapshot_frame [simp]:
  "config (clear_terminal_call_snapshot s) = config s"
  "vtable (clear_terminal_call_snapshot s) = vtable s"
  "phase (clear_terminal_call_snapshot s) = phase s"
  "identity (clear_terminal_call_snapshot s) = identity s"
  "incoming (clear_terminal_call_snapshot s) = incoming s"
  "response (clear_terminal_call_snapshot s) = response s"
  "ha_media_fallback_pending (clear_terminal_call_snapshot s) = ha_media_fallback_pending s"
  "ha_media_fallback_attempted (clear_terminal_call_snapshot s) = ha_media_fallback_attempted s"
  "ha_peer_name (clear_terminal_call_snapshot s) = ha_peer_name s"
  "contacts (clear_terminal_call_snapshot s) = contacts s"
  "last_reason (clear_terminal_call_snapshot s) = last_reason s"
  "clock (clear_terminal_call_snapshot s) = clock s"
  by (simp_all add: clear_terminal_call_snapshot_def)

lemma set_identity_frame [simp]:
  "config (set_call_identity a b c d e s) = config s"
  "vtable (set_call_identity a b c d e s) = vtable s"
  "phase (set_call_identity a b c d e s) = phase s"
  "incoming (set_call_identity a b c d e s) = incoming s"
  "response (set_call_identity a b c d e s) = response s"
  "ha_media_fallback_pending (set_call_identity a b c d e s) = ha_media_fallback_pending s"
  "ha_media_fallback_attempted (set_call_identity a b c d e s) = ha_media_fallback_attempted s"
  "ha_peer_name (set_call_identity a b c d e s) = ha_peer_name s"
  "contacts (set_call_identity a b c d e s) = contacts s"
  "last_reason (set_call_identity a b c d e s) = last_reason s"
  "last_terminal (set_call_identity a b c d e s) = last_terminal s"
  "clock (set_call_identity a b c d e s) = clock s"
  by (simp_all add: set_call_identity_def)

lemma clear_identity_frame [simp]:
  "config (clear_call_identity s) = config s"
  "vtable (clear_call_identity s) = vtable s"
  "phase (clear_call_identity s) = phase s"
  "response (clear_call_identity s) = response s"
  "ha_media_fallback_pending (clear_call_identity s) = ha_media_fallback_pending s"
  "ha_media_fallback_attempted (clear_call_identity s) = ha_media_fallback_attempted s"
  "ha_peer_name (clear_call_identity s) = ha_peer_name s"
  "contacts (clear_call_identity s) = contacts s"
  "last_reason (clear_call_identity s) = last_reason s"
  "last_terminal (clear_call_identity s) = last_terminal s"
  "clock (clear_call_identity s) = clock s"
  by (simp_all add: clear_call_identity_def)

lemma set_response_frame [simp]:
  "config (set_terminal_response c r s) = config s"
  "vtable (set_terminal_response c r s) = vtable s"
  "phase (set_terminal_response c r s) = phase s"
  "identity (set_terminal_response c r s) = identity s"
  "incoming (set_terminal_response c r s) = incoming s"
  "ha_media_fallback_pending (set_terminal_response c r s) = ha_media_fallback_pending s"
  "ha_media_fallback_attempted (set_terminal_response c r s) = ha_media_fallback_attempted s"
  "ha_peer_name (set_terminal_response c r s) = ha_peer_name s"
  "contacts (set_terminal_response c r s) = contacts s"
  "last_reason (set_terminal_response c r s) = last_reason s"
  "last_terminal (set_terminal_response c r s) = last_terminal s"
  "clock (set_terminal_response c r s) = clock s"
  by (simp_all add: set_terminal_response_def)

lemma clear_response_frame [simp]:
  "config (clear_terminal_response s) = config s"
  "vtable (clear_terminal_response s) = vtable s"
  "phase (clear_terminal_response s) = phase s"
  "identity (clear_terminal_response s) = identity s"
  "incoming (clear_terminal_response s) = incoming s"
  "ha_media_fallback_pending (clear_terminal_response s) = ha_media_fallback_pending s"
  "ha_media_fallback_attempted (clear_terminal_response s) = ha_media_fallback_attempted s"
  "ha_peer_name (clear_terminal_response s) = ha_peer_name s"
  "contacts (clear_terminal_response s) = contacts s"
  "last_reason (clear_terminal_response s) = last_reason s"
  "last_terminal (clear_terminal_response s) = last_terminal s"
  "clock (clear_terminal_response s) = clock s"
  by (simp_all add: clear_terminal_response_def)

lemma media_formats_frame [simp]:
  "config (set_current_media_formats a b c d s) = config s"
  "vtable (set_current_media_formats a b c d s) = vtable s"
  "phase (set_current_media_formats a b c d s) = phase s"
  "identity (set_current_media_formats a b c d s) = identity s"
  "incoming (set_current_media_formats a b c d s) = incoming s"
  "response (set_current_media_formats a b c d s) = response s"
  "ha_media_fallback_pending (set_current_media_formats a b c d s) = ha_media_fallback_pending s"
  "ha_media_fallback_attempted (set_current_media_formats a b c d s) = ha_media_fallback_attempted s"
  "ha_peer_name (set_current_media_formats a b c d s) = ha_peer_name s"
  "contacts (set_current_media_formats a b c d s) = contacts s"
  "last_reason (set_current_media_formats a b c d s) = last_reason s"
  "last_terminal (set_current_media_formats a b c d s) = last_terminal s"
  "clock (set_current_media_formats a b c d s) = clock s"
  by (simp_all add: set_current_media_formats_def)

lemma reset_formats_frame [simp]:
  "config (reset_media_formats s) = config s"
  "vtable (reset_media_formats s) = vtable s"
  "phase (reset_media_formats s) = phase s"
  "identity (reset_media_formats s) = identity s"
  "incoming (reset_media_formats s) = incoming s"
  "response (reset_media_formats s) = response s"
  "ha_media_fallback_pending (reset_media_formats s) = ha_media_fallback_pending s"
  "ha_media_fallback_attempted (reset_media_formats s) = ha_media_fallback_attempted s"
  "ha_peer_name (reset_media_formats s) = ha_peer_name s"
  "contacts (reset_media_formats s) = contacts s"
  "last_reason (reset_media_formats s) = last_reason s"
  "last_terminal (reset_media_formats s) = last_terminal s"
  "clock (reset_media_formats s) = clock s"
  by (simp_all add: reset_media_formats_def)

lemma final_response_frame [simp]:
  "config (snd (send_sip_final_response c r s)) = config s"
  "vtable (snd (send_sip_final_response c r s)) = vtable s"
  "phase (snd (send_sip_final_response c r s)) = phase s"
  "identity (snd (send_sip_final_response c r s)) = identity s"
  "incoming (snd (send_sip_final_response c r s)) = incoming s"
  "response (snd (send_sip_final_response c r s)) = response s"
  "ha_media_fallback_pending (snd (send_sip_final_response c r s)) = ha_media_fallback_pending s"
  "ha_media_fallback_attempted (snd (send_sip_final_response c r s)) = ha_media_fallback_attempted s"
  "ha_peer_name (snd (send_sip_final_response c r s)) = ha_peer_name s"
  "contacts (snd (send_sip_final_response c r s)) = contacts s"
  "last_reason (snd (send_sip_final_response c r s)) = last_reason s"
  "last_terminal (snd (send_sip_final_response c r s)) = last_terminal s"
  "clock (snd (send_sip_final_response c r s)) = clock s"
  by (simp_all add: send_sip_final_response_def)

lemma answer_frame [simp]:
  "config (snd (send_sip_answer c s)) = config s"
  "vtable (snd (send_sip_answer c s)) = vtable s"
  "phase (snd (send_sip_answer c s)) = phase s"
  "identity (snd (send_sip_answer c s)) = identity s"
  "incoming (snd (send_sip_answer c s)) = incoming s"
  "response (snd (send_sip_answer c s)) = response s"
  "ha_media_fallback_pending (snd (send_sip_answer c s)) = ha_media_fallback_pending s"
  "ha_media_fallback_attempted (snd (send_sip_answer c s)) = ha_media_fallback_attempted s"
  "ha_peer_name (snd (send_sip_answer c s)) = ha_peer_name s"
  "contacts (snd (send_sip_answer c s)) = contacts s"
  "last_reason (snd (send_sip_answer c s)) = last_reason s"
  "last_terminal (snd (send_sip_answer c s)) = last_terminal s"
  "clock (snd (send_sip_answer c s)) = clock s"
  by (simp_all add: send_sip_answer_def)

lemma set_call_state_frame [simp]:
  "config (set_call_state n s) = config s"
  "vtable (set_call_state n s) = vtable s"
  "identity (set_call_state n s) = identity s"
  "incoming (set_call_state n s) = incoming s"
  "response (set_call_state n s) = response s"
  "ha_media_fallback_pending (set_call_state n s) = ha_media_fallback_pending s"
  "ha_media_fallback_attempted (set_call_state n s) = ha_media_fallback_attempted s"
  "ha_peer_name (set_call_state n s) = ha_peer_name s"
  "contacts (set_call_state n s) = contacts s"
  "last_terminal (set_call_state n s) = last_terminal s"
  "clock (set_call_state n s) = clock s"
  by (simp_all add: set_call_state_def Let_def  split: call_state.split)

lemma set_in_call_off_frame [simp]:
  "config (set_in_call False s) = config s"
  "vtable (set_in_call False s) = vtable s"
  "phase (set_in_call False s) = phase s"
  "identity (set_in_call False s) = identity s"
  "incoming (set_in_call False s) = incoming s"
  "response (set_in_call False s) = response s"
  "ha_media_fallback_pending (set_in_call False s) = ha_media_fallback_pending s"
  "ha_media_fallback_attempted (set_in_call False s) = ha_media_fallback_attempted s"
  "ha_peer_name (set_in_call False s) = ha_peer_name s"
  "contacts (set_in_call False s) = contacts s"
  "last_reason (set_in_call False s) = last_reason s"
  "last_terminal (set_in_call False s) = last_terminal s"
  "clock (set_in_call False s) = clock s"
  by (simp_all add: set_in_call_def Let_def)

lemma direct_route_frame [simp]:
  "config (confirm_direct_route c s) = config s"
  "vtable (confirm_direct_route c s) = vtable s"
  "phase (confirm_direct_route c s) = phase s"
  "identity (confirm_direct_route c s) = identity s"
  "incoming (confirm_direct_route c s) = incoming s"
  "response (confirm_direct_route c s) = response s"
  "ha_media_fallback_pending (confirm_direct_route c s) = ha_media_fallback_pending s"
  "ha_media_fallback_attempted (confirm_direct_route c s) = ha_media_fallback_attempted s"
  "ha_peer_name (confirm_direct_route c s) = ha_peer_name s"
  "contacts (confirm_direct_route c s) = contacts s"
  "last_reason (confirm_direct_route c s) = last_reason s"
  "last_terminal (confirm_direct_route c s) = last_terminal s"
  "clock (confirm_direct_route c s) = clock s"
  by (simp_all add: confirm_direct_route_def Let_def)

lemma send_termination_frame [simp]:
  "config (snd (send_termination c d a s)) = config s"
  "vtable (snd (send_termination c d a s)) = vtable s"
  "phase (snd (send_termination c d a s)) = phase s"
  "identity (snd (send_termination c d a s)) = identity s"
  "incoming (snd (send_termination c d a s)) = incoming s"
  "response (snd (send_termination c d a s)) = response s"
  "ha_media_fallback_pending (snd (send_termination c d a s)) = ha_media_fallback_pending s"
  "ha_media_fallback_attempted (snd (send_termination c d a s)) = ha_media_fallback_attempted s"
  "ha_peer_name (snd (send_termination c d a s)) = ha_peer_name s"
  "contacts (snd (send_termination c d a s)) = contacts s"
  "last_reason (snd (send_termination c d a s)) = last_reason s"
  "last_terminal (snd (send_termination c d a s)) = last_terminal s"
  "clock (snd (send_termination c d a s)) = clock s"
  by (simp_all add: send_termination_def  split: sip_termination_action.split)


lemma phase_set_call_state [simp]: "phase (set_call_state n s) = n"
  by (simp add: set_call_state_def Let_def split: call_state.split)

lemma phase_clear_identity [simp]:
  "identity (clear_call_identity s) = no_identity"
  "incoming (clear_call_identity s) = \<lparr>setup_pending = False, media_answer_wait = False, answer_accepted = False\<rparr>"
  by (simp_all add: clear_call_identity_def)

lemma call_id_set_identity [simp]: "call_id (identity (set_call_identity a b c d e s)) = a"
  by (simp add: set_call_identity_def)

lemma phase_set_in_call [simp]:
  "phase (set_in_call True s) = (if recent_terminal_call (call_id (identity s)) s \<and> phase s \<noteq> IN_CALL then phase s else IN_CALL)"
  "identity (set_in_call b s) = identity s" "incoming (set_in_call b s) = incoming s"
  "config (set_in_call b s) = config s" "vtable (set_in_call b s) = vtable s"
  "response (set_in_call b s) = response s"
  "ha_media_fallback_pending (set_in_call b s) = ha_media_fallback_pending s"
  by (simp_all add: set_in_call_def Let_def)

lemma terminal_state_for_terminating [simp]: "call_state_is_terminating (terminal_state_for r)"
  by (cases r) simp_all

lemma phase_end_call:
  "phase (end_call r d s) =
     (if phase s = IDLE \<and> \<not> setup_pending (incoming s) then IDLE
      else if r = MEDIA_INCOMPATIBLE_END \<and> ha_media_fallback_pending s then CALLING
      else terminal_state_for r)"
  by (simp add: end_call_def Let_def)

section \<open>The log relations\<close>

definition grows :: "(effect \<Rightarrow> bool) \<Rightarrow> 't fsm \<Rightarrow> 't fsm \<Rightarrow> bool" where
  "grows Q s t \<longleftrightarrow> (\<exists>es. log t = log s @ es \<and> list_all Q es)"

fun allowed :: "call_state \<Rightarrow> call_state \<Rightarrow> bool" where
  "allowed a IDLE = call_state_is_terminating a"
| "allowed a REMOTE_RINGING = (a = CALLING)"
| "allowed a RINGING = (a = IDLE)"
| "allowed a CONNECTING = (a = IDLE \<or> a = CALLING \<or> a = REMOTE_RINGING \<or> a = RINGING)"
| "allowed a IN_CALL = (a = CONNECTING)"
| "allowed a _ = (\<not> call_state_is_terminating a)"

fun path :: "call_state \<Rightarrow> effect list \<Rightarrow> call_state \<Rightarrow> bool" where
  "path a [] b = (a = b)"
| "path a (StateChange c d # es) b = (c = a \<and> allowed c d \<and> path d es b)"
| "path a (e # es) b = path a es b"

definition moves :: "'t fsm \<Rightarrow> 't fsm \<Rightarrow> bool" where
  "moves s t \<longleftrightarrow> (\<exists>es. log t = log s @ es \<and> path (phase s) es (phase t))"

fun is_change :: "effect \<Rightarrow> bool" where
  "is_change (StateChange a b) = True"
| "is_change _ = False"

lemma path_append: "path a (es @ fs) c \<longleftrightarrow> (\<exists>b. path a es b \<and> path b fs c)"
  by (induction a es c rule: path.induct) auto

lemma path_plain: "list_all (\<lambda>e. \<not> is_change e) es \<Longrightarrow> path a es b \<longleftrightarrow> a = b"
  by (induction a es b rule: path.induct) auto

lemma grows_refl [fsm_intros]: "grows Q s s"
  by (simp add: grows_def)

lemma grows_trans: "grows Q s t \<Longrightarrow> grows Q t u \<Longrightarrow> grows Q s u"
  by (auto simp: grows_def)

lemma grows_mono: "grows P s t \<Longrightarrow> (\<And>e. P e \<Longrightarrow> Q e) \<Longrightarrow> grows Q s t"
  by (auto simp: grows_def list_all_iff)

lemma moves_refl [fsm_intros]: "moves s s"
  by (auto simp: moves_def)

lemma moves_trans: "moves s t \<Longrightarrow> moves t u \<Longrightarrow> moves s u"
  by (fastforce simp: moves_def path_append)

lemma moves_quiet: "moves s t \<Longrightarrow> grows (\<lambda>e. \<not> is_change e) t u \<Longrightarrow> phase u = phase t \<Longrightarrow> moves s u"
  by (fastforce simp: moves_def grows_def path_append path_plain)

lemma grows_update [simp]:
  "grows Q s (t\<lparr>config := c\<rparr>) = grows Q s t" "grows Q s (t\<lparr>transport := tr\<rparr>) = grows Q s t"
  "grows Q s (t\<lparr>clock := u\<rparr>) = grows Q s t" "grows Q s (t\<lparr>entropy := u\<rparr>) = grows Q s t"
  "grows Q s (t\<lparr>phase := p\<rparr>) = grows Q s t" "grows Q s (t\<lparr>identity := i\<rparr>) = grows Q s t"
  "grows Q s (t\<lparr>incoming := f\<rparr>) = grows Q s t" "grows Q s (t\<lparr>response := re\<rparr>) = grows Q s t"
  "grows Q s (t\<lparr>pending_dialplan_target := x\<rparr>) = grows Q s t"
  "grows Q s (t\<lparr>ha_media_fallback_pending := b\<rparr>) = grows Q s t"
  "grows Q s (t\<lparr>ha_media_fallback_attempted := b\<rparr>) = grows Q s t"
  "grows Q s (t\<lparr>contacts := pb\<rparr>) = grows Q s t" "grows Q s (t\<lparr>media := m\<rparr>) = grows Q s t"
  "grows Q s (t\<lparr>route_projection := ro\<rparr>) = grows Q s t" "grows Q s (t\<lparr>audio_devices_active := b\<rparr>) = grows Q s t"
  "grows Q s (t\<lparr>microphone_requested := b\<rparr>) = grows Q s t" "grows Q s (t\<lparr>watchdog := w\<rparr>) = grows Q s t"
  "grows Q s (t\<lparr>ringing_start_time := u\<rparr>) = grows Q s t" "grows Q s (t\<lparr>calling_start_time := u\<rparr>) = grows Q s t"
  "grows Q s (t\<lparr>last_reason := x\<rparr>) = grows Q s t" "grows Q s (t\<lparr>last_terminal := ts\<rparr>) = grows Q s t"
  "grows Q s (t\<lparr>last_published_destination := x\<rparr>) = grows Q s t" "grows Q s (t\<lparr>queue := ds\<rparr>) = grows Q s t"
  by (simp_all add: grows_def)

lemma moves_update [simp]:
  "moves s (t\<lparr>config := c\<rparr>) = moves s t" "moves s (t\<lparr>transport := tr\<rparr>) = moves s t"
  "moves s (t\<lparr>clock := u\<rparr>) = moves s t" "moves s (t\<lparr>entropy := u\<rparr>) = moves s t"
  "moves s (t\<lparr>identity := i\<rparr>) = moves s t"
  "moves s (t\<lparr>incoming := f\<rparr>) = moves s t" "moves s (t\<lparr>response := re\<rparr>) = moves s t"
  "moves s (t\<lparr>pending_dialplan_target := x\<rparr>) = moves s t"
  "moves s (t\<lparr>ha_media_fallback_pending := b\<rparr>) = moves s t"
  "moves s (t\<lparr>ha_media_fallback_attempted := b\<rparr>) = moves s t"
  "moves s (t\<lparr>contacts := pb\<rparr>) = moves s t" "moves s (t\<lparr>media := m\<rparr>) = moves s t"
  "moves s (t\<lparr>ha_peer_name := x\<rparr>) = moves s t"
  "moves s (t\<lparr>watchdog := w\<rparr>) = moves s t"
  "moves s (t\<lparr>ringing_start_time := u\<rparr>) = moves s t" "moves s (t\<lparr>calling_start_time := u\<rparr>) = moves s t"
  "moves s (t\<lparr>queue := ds\<rparr>) = moves s t" "moves s (t\<lparr>last_reason := x\<rparr>) = moves s t"
  "moves s (t\<lparr>last_terminal := ts\<rparr>) = moves s t"
  by (simp_all add: moves_def)

subsection \<open>Operations without a state change\<close>

fun sip_message :: "transport_call \<Rightarrow> bool" where
  "sip_message (SendInvite a b c d e) = True"
| "sip_message (SendRinging c) = True"
| "sip_message (SendAnswer c f g) = True"
| "sip_message (SendCancel c) = True"
| "sip_message (SendBye c) = True"
| "sip_message (SendFinalResponse c u r) = True"
| "sip_message _ = False"

fun is_sip :: "effect \<Rightarrow> bool" where
  "is_sip (Command c r) = sip_message c"
| "is_sip _ = False"

fun disconnects :: "effect \<Rightarrow> bool" where
  "disconnects (Command DisconnectTransport r) = True"
| "disconnects _ = False"

definition plain :: "effect \<Rightarrow> bool" where
  "plain e \<longleftrightarrow> \<not> is_change e \<and> \<not> is_sip e \<and> \<not> disconnects e"

text \<open>One rule per operation, for any \<open>Q\<close> that holds of what it may append.\<close>

lemma grows_emit [fsm_intros]: "grows Q s t \<Longrightarrow> Q e \<Longrightarrow> grows Q s (emit e t)"
  by (auto simp: grows_def emit_def)

lemma grows_defer [fsm_intros]: "grows Q s t \<Longrightarrow> grows Q s (defer_to_loop d t)"
  by (simp add: defer_to_loop_def)

lemma grows_command [fsm_intros]: "grows Q s t \<Longrightarrow> (\<And>r. Q (Command c r)) \<Longrightarrow> grows Q s (snd (command c t))"
  by (auto simp: command_def grows_def emit_def split: option.split prod.split)

lemma grows_tell [fsm_intros]: "grows Q s t \<Longrightarrow> (\<And>r. Q (Command c r)) \<Longrightarrow> grows Q s (tell c t)"
  unfolding tell_def by (rule grows_command)

lemma grows_fails [fsm_intros]: "grows Q s t \<Longrightarrow> (\<And>r. Q (Command c r)) \<Longrightarrow> grows Q s (snd (fails c t))"
  using grows_command [of Q s t c] by (auto simp: fails_def case_prod_beta split: option.split)

definition harmless :: "(effect \<Rightarrow> bool) \<Rightarrow> bool" where
  "harmless Q \<longleftrightarrow> (\<forall>e. plain e \<longrightarrow> Q e)"

lemma harmlessD: "harmless Q \<Longrightarrow> \<not> is_change e \<Longrightarrow> \<not> is_sip e \<Longrightarrow> \<not> disconnects e \<Longrightarrow> Q e"
  by (simp add: harmless_def plain_def)

lemma harmless_basic [simp]:
  "harmless (\<lambda>e. \<not> is_change e)" "harmless (\<lambda>e. \<not> is_sip e)" "harmless plain"
  "harmless (\<lambda>e. \<not> disconnects e)" "harmless (\<lambda>e. \<not> is_sip e \<and> \<not> disconnects e)"
  by (simp_all add: harmless_def plain_def)

lemma grows_helpers [fsm_intros]:
  assumes g: "grows Q s t" and h: "harmless Q"
  shows "grows Q s (publish_state t)" "grows Q s (publish_caller n t)" "grows Q s (publish_last_reason r t)"
    "grows Q s (publish_destination t)" "grows Q s (publish_media_route t)"
    "grows Q s (snd (set_media_route cid ro t))" "grows Q s (set_audio_devices_active on t)"
    "grows Q s (start_speaker_for_current_rx t)" "grows Q s (reset_peer_audio_watchdog seed t)"
    "grows Q s (set_in_call False t)" "grows Q s (confirm_direct_route cid t)"
    "grows Q s (set_call_identity a b c d e t)" "grows Q s (clear_call_identity t)"
    "grows Q s (set_terminal_response cid r t)" "grows Q s (clear_terminal_response t)"
    "grows Q s (clear_terminal_call_snapshot t)" "grows Q s (set_current_media_formats w x y z t)"
    "grows Q s (reset_media_formats t)"
  using g harmlessD [OF h]
  by (auto simp: publish_state_def publish_caller_def publish_last_reason_def publish_destination_def
      publish_media_route_def set_media_route_def set_audio_devices_active_def start_speaker_for_current_rx_def
      reset_peer_audio_watchdog_def set_in_call_def confirm_direct_route_def set_call_identity_def
      clear_call_identity_def set_terminal_response_def clear_terminal_response_def
      clear_terminal_call_snapshot_def set_current_media_formats_def reset_media_formats_def Let_def
      intro!: grows_emit grows_defer grows_tell split: option.split)

lemma grows_set_call_state [fsm_intros]:
  assumes "grows Q s t" and "harmless Q" and "\<And>a b. Q (StateChange a b)"
  shows "grows Q s (set_call_state n t)"
  using assms by (auto simp: set_call_state_def Let_def intro!: fsm_intros split: call_state.split)


subsection \<open>State changes\<close>

lemma moves_emit [fsm_intros]: "moves s t \<Longrightarrow> \<not> is_change e \<Longrightarrow> moves s (emit e t)"
  by (erule moves_quiet) (auto intro: fsm_intros)

lemma moves_defer [fsm_intros]: "moves s t \<Longrightarrow> moves s (defer_to_loop d t)"
  by (simp add: defer_to_loop_def)

lemma moves_command [fsm_intros]: "moves s t \<Longrightarrow> moves s (snd (command c t))"
  by (erule moves_quiet) (auto intro: fsm_intros)

lemma moves_tell [fsm_intros]: "moves s t \<Longrightarrow> moves s (tell c t)"
  by (erule moves_quiet) (auto intro: fsm_intros)

lemma moves_fails [fsm_intros]: "moves s t \<Longrightarrow> moves s (snd (fails c t))"
  by (erule moves_quiet) (auto intro: fsm_intros)

lemma moves_send [fsm_intros]:
  "moves s t \<Longrightarrow> moves s (snd (send_sip_final_response c r t))"
  "moves s t \<Longrightarrow> moves s (snd (send_sip_answer c t))"
  "moves s t \<Longrightarrow> moves s (snd (send_termination c d a t))"
  by (auto simp: send_sip_final_response_def send_sip_answer_def send_termination_def intro: fsm_intros
      split: sip_termination_action.split)

lemma moves_helpers [fsm_intros]:
  assumes m: "moves s t"
  shows "moves s (publish_state t)" "moves s (publish_caller n t)" "moves s (publish_last_reason r t)"
    "moves s (publish_destination t)" "moves s (publish_media_route t)"
    "moves s (snd (set_media_route cid ro t))" "moves s (set_audio_devices_active on t)"
    "moves s (start_speaker_for_current_rx t)" "moves s (reset_peer_audio_watchdog seed t)"
    "moves s (set_in_call False t)" "moves s (confirm_direct_route cid t)"
    "moves s (set_call_identity a b c d e t)" "moves s (clear_call_identity t)"
    "moves s (set_terminal_response cid r t)" "moves s (clear_terminal_response t)"
    "moves s (clear_terminal_call_snapshot t)" "moves s (set_current_media_formats w x y z t)"
    "moves s (reset_media_formats t)"
  by - (rule moves_quiet [OF m]; (rule grows_helpers, rule grows_refl, simp | simp))+

lemma moves_set_call_state [fsm_intros]:
  assumes m: "moves s t" and a: "phase t = n \<or> allowed (phase t) n"
  shows "moves s (set_call_state n t)"
proof (cases "phase t = n")
  case True
  with m show ?thesis by (simp add: set_call_state_def)
next
  case False
  let ?t = "emit (StateChange (phase t) n) (t\<lparr>phase := n, route_projection := ROUTE_UNKNOWN\<rparr>)"
  obtain es where es: "log t = log s @ es" "path (phase s) es (phase t)" using m by (auto simp: moves_def)
  have "moves s ?t"
    using es a False by (auto simp: moves_def emit_def path_append)
  then have "moves s (publish_state (case n of
                    IDLE \<Rightarrow> defer_to_loop (PublishCallerLater []) (defer_to_loop IdleTrigger (defer_to_loop (StateCallback n) ?t))
                  | CALLING \<Rightarrow> defer_to_loop (CallingTrigger (peer_for_trigger ?t)) (publish_last_reason [] (defer_to_loop (StateCallback n) ?t))
                  | REMOTE_RINGING \<Rightarrow> defer_to_loop (DestRingingTrigger (peer_for_trigger ?t)) (publish_last_reason [] (defer_to_loop (StateCallback n) ?t))
                  | RINGING \<Rightarrow> defer_to_loop (RingingTrigger (peer_for_trigger ?t)) (publish_last_reason [] (defer_to_loop (StateCallback n) ?t))
                  | CONNECTING \<Rightarrow> publish_last_reason [] (defer_to_loop (StateCallback n) ?t)
                  | IN_CALL \<Rightarrow> defer_to_loop (InCallTrigger (peer_for_trigger ?t))
                                (defer_to_loop (ConfirmDirectRoute (call_id (identity ?t))) (publish_last_reason [] (defer_to_loop (StateCallback n) ?t)))
                  | _ \<Rightarrow> defer_to_loop (StateCallback n) ?t))"
    by (cases n) (auto intro!: moves_helpers moves_defer)
  then show ?thesis using False by (simp add: set_call_state_def Let_def)
qed

lemma allowed_terminal [simp]:
  "call_state_is_terminating b \<Longrightarrow> allowed a b = (\<not> call_state_is_terminating a)"
  by (cases b) simp_all

lemma moves_set_in_call [fsm_intros]:
  "moves s t \<Longrightarrow> phase t = CONNECTING \<or> phase t = IN_CALL \<Longrightarrow> moves s (set_in_call True t)"
  by (auto simp: set_in_call_def Let_def intro!: fsm_intros)

lemma moves_end_call [fsm_intros]:
  "moves s t \<Longrightarrow> \<not> call_state_is_terminating (phase t) \<Longrightarrow> moves s (end_call r d t)"
  by (auto simp: end_call_def Let_def intro!: fsm_intros)

lemma moves_finish_terminal [fsm_intros]: "moves s t \<Longrightarrow> moves s (finish_terminal t)"
  by (auto simp: finish_terminal_def intro!: fsm_intros)

lemma request_cases:
  obtains (terminal) "call_state_is_terminating (phase t)" "request_call_termination i t = finish_terminal t"
  | (ignored) "phase t = IDLE" "\<not> (setup_pending (incoming t) \<and> call_id (identity t) \<noteq> [])"
      "request_call_termination i t = t"
  | (ended) t1 action pending t2 where "\<not> call_state_is_terminating (phase t)"
      "phase t = IDLE \<longrightarrow> setup_pending (incoming t) \<and> call_id (identity t) \<noteq> []"
      "t1 = t \<or> t1 = set_terminal_response (call_id (identity t)) (case intent_detail i of None \<Rightarrow> [] | Some d \<Rightarrow> d) t"
      "(t2 = t1 \<and> \<not> pending) \<or> (call_id (identity t) \<noteq> [] \<and> is_connected t \<and>
         (pending, t2) = send_termination (call_id (identity t)) (case intent_detail i of None \<Rightarrow> [] | Some d \<Rightarrow> d) action t1)"
      "request_call_termination i t =
         (let t3 = set_audio_devices_active False (set_in_call False
                     (end_call (intent_reason i) (case intent_detail i of None \<Rightarrow> [] | Some d \<Rightarrow> d) t2))
          in if pending then t3 else tell DisconnectTransport t3)"
proof -
  let ?cid = "call_id (identity t)" and ?d = "case intent_detail i of None \<Rightarrow> [] | Some d \<Rightarrow> d"
  consider "call_state_is_terminating (phase t)"
    | "\<not> call_state_is_terminating (phase t)" "phase t = IDLE" "\<not> (setup_pending (incoming t) \<and> ?cid \<noteq> [])"
    | "\<not> call_state_is_terminating (phase t)" "phase t = IDLE \<longrightarrow> setup_pending (incoming t) \<and> ?cid \<noteq> []"
    by blast
  then show thesis
  proof cases
    case 1
    then show ?thesis using terminal by (simp add: request_call_termination_def)
  next
    case 2
    then show ?thesis using ignored by (simp add: request_call_termination_def dispatch_call_termination_def)
  next
    case 3
    define a where "a = resolve_sip_termination_action (phase t)
      (if sip_action i = AUTO \<and> phase t = CONNECTING \<and> answer_accepted (incoming t) then BYE else sip_action i)"
    define t1 where "t1 = (if cache_final_response i \<and> ?cid \<noteq> [] then set_terminal_response ?cid ?d t else t)"
    define pt where "pt = (if is_connected t \<and> ?cid \<noteq> [] \<and> a \<noteq> NONE then send_termination ?cid ?d a t1 else (False, t1))"
    have r: "request_call_termination i t =
         (let t3 = set_audio_devices_active False (set_in_call False (end_call (intent_reason i) ?d (snd pt)))
          in if fst pt then t3 else tell DisconnectTransport t3)"
      unfolding pt_def t1_def a_def
      using 3 by (auto simp: request_call_termination_def dispatch_call_termination_def Let_def case_prod_beta)
    show ?thesis
      by (rule ended [OF 3, of t1 "snd pt" "fst pt" a]) (auto simp: t1_def pt_def r)
  qed
qed

lemma send_termination_snd: "(p, u) = send_termination c d a t \<Longrightarrow> u = snd (send_termination c d a t)"
  by (metis snd_conv)

lemma moves_request [fsm_intros]:
  assumes m: "moves s t"
  shows "moves s (request_call_termination i t)"
proof (cases rule: request_cases [of t i])
  case terminal
  with m show ?thesis by (auto intro: fsm_intros)
next
  case ignored
  with m show ?thesis by simp
next
  case (ended t1 action pending t2)
  have t1: "moves s t1" "phase t1 = phase t" using ended(3) m by (auto intro: fsm_intros)
  have t2: "moves s t2" "phase t2 = phase t"
    using ended(4) t1 by (auto dest!: send_termination_snd intro: fsm_intros)
  show ?thesis
    unfolding ended(5) Let_def using t2 ended(1) by (auto intro!: fsm_intros)
qed


lemma moves_if [fsm_intros]:
  "(P \<Longrightarrow> moves s a) \<Longrightarrow> (\<not> P \<Longrightarrow> moves s b) \<Longrightarrow> moves s (if P then a else b)"
  by simp

lemma moves_attempts [fsm_intros]:
  assumes m: "moves s t"
  shows "moves s (attempt_identity a t)"
    "phase t = IDLE \<or> phase t = CALLING \<Longrightarrow> moves s (unreachable_attempt a t)"
    "phase t = IDLE \<or> phase t = CALLING \<Longrightarrow> moves s (open_attempt dial a v r t)"
    "moves s (send_attempt dial a t)"
proof -
  have id: "moves s (attempt_identity a u)" if "moves s u" for u
    unfolding attempt_identity_def using that by (intro fsm_intros)
  show "moves s (attempt_identity a t)" using m by (rule id)
  show "moves s (unreachable_attempt a t)" if "phase t = IDLE \<or> phase t = CALLING"
    unfolding unreachable_attempt_def using m that
    by (auto simp: attempt_identity_def intro!: moves_request moves_set_call_state moves_helpers)
  show "moves s (open_attempt dial a v r t)" if "phase t = IDLE \<or> phase t = CALLING"
    unfolding open_attempt_def Let_def using m that
    by (auto simp: attempt_identity_def intro!: moves_set_call_state moves_helpers moves_defer moves_tell)
  show "moves s (send_attempt dial a t)"
    unfolding send_attempt_def Let_def case_prod_beta using m
    by (auto intro!: moves_request moves_command)
qed

lemma phase_open_attempt [simp]: "phase (open_attempt dial a v r t) = CALLING"
  by (simp add: open_attempt_def Let_def)

lemma moves_start_call_attempt [fsm_intros]:
  assumes "moves s t" and "phase t = IDLE \<or> phase t = CALLING"
  shows "moves s (start_call_attempt via_ha cid t)"
  unfolding start_call_attempt_def Let_def using assms by (auto intro!: moves_attempts)

lemma moves_finish [fsm_intros]:
  assumes "moves s t" shows "moves s (finish_call_termination t)"
  unfolding finish_call_termination_def using assms
  by (auto intro!: moves_start_call_attempt moves_helpers moves_set_call_state)

lemma moves_start [fsm_intros]:
  assumes "moves s t" shows "moves s (start_with_id cid t)"
  unfolding start_with_id_def using assms by (auto intro!: moves_start_call_attempt simp: can_start_call_def)

lemma moves_call_target [fsm_intros]:
  assumes "moves s t" shows "moves s (call_target v cid t)"
  unfolding call_target_def Let_def case_prod_beta using assms
  by (auto intro!: moves_start moves_defer moves_helpers)

lemma moves_stop [fsm_intros]:
  assumes "moves s t" shows "moves s (stop_call t)"
  unfolding stop_call_def using assms by (auto intro!: moves_request moves_helpers)

lemma moves_commit [fsm_intros]:
  assumes "moves s t" and "phase t = CONNECTING" shows "moves s (commit_incoming_answer t)"
  unfolding commit_incoming_answer_def Let_def case_prod_beta using assms
  by (auto intro!: moves_request moves_helpers moves_set_in_call moves_tell moves_fails)

lemma moves_connect [fsm_intros]:
  assumes "moves s t" and "phase t \<in> {IDLE, RINGING, CONNECTING}"
  shows "moves s (connect_incoming_answer send w t)"
  unfolding connect_incoming_answer_def Let_def case_prod_beta using assms
  by (auto intro!: moves_request moves_set_call_state moves_commit moves_tell moves_send)

lemma moves_complete [fsm_intros]:
  assumes "moves s t" and "phase t \<in> {IDLE, RINGING, CONNECTING}"
  shows "moves s (complete_incoming_answer send t)"
  unfolding complete_incoming_answer_def Let_def case_prod_beta using assms
  by (auto intro!: moves_request moves_connect moves_fails)

lemma moves_answer [fsm_intros]:
  assumes "moves s t" shows "moves s (answer_call t)"
  unfolding answer_call_def using assms by (auto intro!: moves_complete)

lemma moves_decline [fsm_intros]:
  assumes "moves s t" shows "moves s (decline_call r t)"
  unfolding decline_call_def using assms by (auto intro!: moves_request moves_stop)

lemma moves_toggle [fsm_intros]:
  assumes "moves s t" shows "moves s (call_toggle t)"
  unfolding call_toggle_def using assms by (auto intro!: moves_answer moves_stop moves_start)

lemma admit_frame [simp]:
  "phase (admit_invite m fs s) = phase s"
  by (simp add: admit_invite_def Let_def case_prod_beta)

lemma moves_admit [fsm_intros]:
  assumes "moves s t" shows "moves s (admit_invite m fs t)"
  unfolding admit_invite_def Let_def case_prod_beta using assms
  by (auto intro!: moves_helpers moves_defer moves_tell)

lemma moves_ring [fsm_intros]:
  assumes "moves s t" and "phase t = IDLE" shows "moves s (ring_invite cid t)"
  unfolding ring_invite_def Let_def case_prod_beta using assms
  by (auto intro!: moves_request moves_set_call_state moves_command)

lemma moves_refuse [fsm_intros]:
  assumes "moves s t" shows "moves s (refuse_invite cid r t)"
  unfolding refuse_invite_def using assms by (auto intro!: moves_tell moves_send moves_helpers)

lemma moves_accept [fsm_intros]:
  assumes "moves s t" and "phase t = IDLE" shows "moves s (accept_invite m fs t)"
  unfolding accept_invite_def using assms by (auto intro!: moves_complete moves_ring moves_admit)

lemma moves_on_invite [fsm_intros]:
  assumes "moves s t" shows "moves s (on_invite m t)"
  unfolding on_invite_def using assms
  by (auto intro!: moves_accept moves_refuse moves_send split: option.split)

lemma moves_media_ready [fsm_intros]:
  assumes "moves s t" shows "moves s (on_media_ready m t)"
  unfolding on_media_ready_def Let_def using assms
  by (auto intro!: moves_complete moves_request moves_helpers)

lemma moves_connected_identity [fsm_intros]:
  assumes "moves s t" shows "moves s (on_connected_identity m t)"
  unfolding on_connected_identity_def Let_def using assms
  by (auto intro!: moves_helpers moves_emit)

lemma moves_status_200 [fsm_intros]:
  assumes "moves s t" shows "moves s (on_status_200 m t)"
  unfolding on_status_200_def Let_def case_prod_beta using assms
  by (auto intro!: moves_helpers moves_request moves_set_in_call moves_set_call_state moves_answer moves_send moves_fails
     simp: is_calling_def)

lemma moves_final [fsm_intros]:
  assumes "moves s t" shows "moves s (on_final_response m t)"
  unfolding on_final_response_def Let_def using assms by (auto intro!: moves_request)

lemma moves_signal [fsm_intros]:
  assumes "moves s t" shows "moves s (on_sip_signal_received m t)"
  unfolding on_sip_signal_received_def using assms
  by (auto intro!: moves_on_invite moves_media_ready moves_request moves_finish moves_connected_identity
      moves_status_200 moves_final moves_set_call_state split: sip_signal_type.split)

lemma moves_connection [fsm_intros]:
  assumes "moves s t" shows "moves s (on_connection_change c t)"
  unfolding on_connection_change_def using assms by (auto intro!: moves_finish moves_request moves_helpers)

lemma moves_run_deferred [fsm_intros]:
  assumes "moves s t" shows "moves s (run_deferred d t)"
  unfolding run_deferred_def using assms
  by (auto intro!: moves_finish moves_helpers moves_connection moves_emit split: deferred.split)

lemma moves_timeouts [fsm_intros]:
  assumes "moves s t" shows "moves s (handle_call_timeouts t)"
  unfolding handle_call_timeouts_def fire_timeout_decline_def fire_unanswered_invite_timeout_def
    watch_peer_audio_def Let_def using assms
  by (auto intro!: moves_request split: option.split)

lemma moves_audio [fsm_intros]:
  assumes "moves s t" shows "moves s (on_audio_received n p t)"
  unfolding on_audio_received_def Let_def using assms by (auto intro!: moves_emit)

lemma step_moves: "moves s (fsm_step s e)"
  unfolding fsm_step_def
  by (cases e) (auto intro!: moves_start moves_call_target moves_stop moves_answer moves_decline moves_toggle
      moves_signal moves_timeouts moves_audio moves_run_deferred moves_helpers moves_defer moves_refl
      simp: call_via_ha_def hangup_call_if_id_def run_queue_head_def transport_connection_callback_def
        transport_media_quiesced_callback_def split: list.split)

end
