(* ===== verification/CallFsmSafety.thy ===== *)
theory CallFsmSafety
  imports CallFsmProps
begin

text \<open>
  Runs of the call state machine: any sequence of events, and between them any change the
  environment makes to the transport, the clock, the phonebook and the settings. Two invariants
  of runs (the call identity is clear whenever there is no call; the log is a path of the graph
  of allowed transitions) and what a terminal state keeps.
\<close>

section \<open>Runs\<close>

fun well_formed_event :: "fsm_event \<Rightarrow> bool" where
  "well_formed_event (Signal m) = (signal_type m = INVITE_SIGNAL \<longrightarrow> sig_call_id m \<noteq> [])"
| "well_formed_event _ = True"

inductive fsm_run :: "'t fsm \<Rightarrow> 't fsm \<Rightarrow> bool" where
  run_start: "fsm_run s s"
| run_event: "fsm_run s t \<Longrightarrow> well_formed_event e \<Longrightarrow> fsm_run s (fsm_step t e)"
| run_environment: "fsm_run s t \<Longrightarrow>
    fsm_run s (t\<lparr>transport := tr, clock := c, entropy := r, contacts := pb, ha_peer_name := n, config := cfg\<rparr>)"

section \<open>No identity without a call\<close>

definition idle_clean :: "'t fsm \<Rightarrow> bool" where
  "idle_clean s \<longleftrightarrow> (\<not> is_active s \<longrightarrow> call_id (identity s) = [] \<and> \<not> setup_pending (incoming s))"

lemma idle_clean_phase: "phase t = phase s \<Longrightarrow> call_id (identity t) = call_id (identity s) \<Longrightarrow>
    setup_pending (incoming t) = setup_pending (incoming s) \<Longrightarrow> idle_clean s \<Longrightarrow> idle_clean t"
  by (simp add: idle_clean_def is_active_def)

lemma idle_clean_active: "is_active s \<Longrightarrow> idle_clean s"
  by (simp add: idle_clean_def)

lemma active_phases [simp]: "phase s \<in> {CALLING, REMOTE_RINGING, RINGING, CONNECTING, IN_CALL} \<Longrightarrow> is_active s"
  by (auto simp: is_active_def)

lemma idle_clean_phases [simp]:
  "phase s = CALLING \<Longrightarrow> idle_clean s" "phase s = REMOTE_RINGING \<Longrightarrow> idle_clean s" "phase s = RINGING \<Longrightarrow> idle_clean s"
  "phase s = CONNECTING \<Longrightarrow> idle_clean s" "phase s = IN_CALL \<Longrightarrow> idle_clean s"
  by (simp_all add: idle_clean_def is_active_def)

lemma end_call_identity:
  "call_id (identity (end_call r d s)) = (if phase s = IDLE \<and> \<not> setup_pending (incoming s) then call_id (identity s) else [])"
  "setup_pending (incoming (end_call r d s)) =
     (if phase s = IDLE \<and> \<not> setup_pending (incoming s) then False
      else if r = MEDIA_INCOMPATIBLE_END \<and> ha_media_fallback_pending s then setup_pending (incoming s) else False)"
  by (simp_all add: end_call_def Let_def no_identity_def)

lemma idle_clean_end: "idle_clean s \<or> is_active s \<or> setup_pending (incoming s) \<Longrightarrow> idle_clean (end_call r d s)"
  by (auto simp: idle_clean_def is_active_def phase_end_call end_call_identity)

lemma idle_clean_finish_terminal: "idle_clean s \<Longrightarrow> idle_clean (finish_terminal s)"
  by (auto simp: finish_terminal_def idle_clean_def is_active_def)

lemma same_identity:
  assumes "(pending, u) = send_termination c d a t"
  shows "phase u = phase t" "identity u = identity t" "incoming u = incoming t"
  using send_termination_snd [OF assms] by simp_all

lemma idle_clean_devices [simp]: "idle_clean (set_audio_devices_active b s) = idle_clean s"
  "idle_clean (set_in_call False s) = idle_clean s" "idle_clean (tell c s) = idle_clean s"
  "idle_clean (snd (command c s)) = idle_clean s" "idle_clean (snd (fails c s)) = idle_clean s"
  "idle_clean (publish_state s) = idle_clean s" "idle_clean (publish_destination s) = idle_clean s"
  "idle_clean (publish_caller n s) = idle_clean s" "idle_clean (defer_to_loop d s) = idle_clean s"
  "idle_clean (emit e s) = idle_clean s" "idle_clean (set_terminal_response cid r s) = idle_clean s"
  "idle_clean (snd (send_sip_final_response cid r s)) = idle_clean s" "idle_clean (publish_media_route s) = idle_clean s"
  "idle_clean (confirm_direct_route cid s) = idle_clean s" "idle_clean (snd (set_media_route cid r s)) = idle_clean s"
  "idle_clean (snd (send_sip_answer cid s)) = idle_clean s"
  by (simp_all add: idle_clean_def is_active_def)

lemma idle_clean_update [simp]:
  "idle_clean (s\<lparr>transport := tr\<rparr>) = idle_clean s" "idle_clean (s\<lparr>config := cf\<rparr>) = idle_clean s"
  "idle_clean (s\<lparr>clock := c\<rparr>) = idle_clean s" "idle_clean (s\<lparr>entropy := c\<rparr>) = idle_clean s"
  "idle_clean (s\<lparr>contacts := pb\<rparr>) = idle_clean s" "idle_clean (s\<lparr>ha_peer_name := n\<rparr>) = idle_clean s"
  "idle_clean (s\<lparr>queue := q\<rparr>) = idle_clean s" "idle_clean (s\<lparr>watchdog := w\<rparr>) = idle_clean s"
  "idle_clean (s\<lparr>pending_dialplan_target := n\<rparr>) = idle_clean s"
  "idle_clean (s\<lparr>ha_media_fallback_pending := b\<rparr>) = idle_clean s"
  "idle_clean (s\<lparr>ha_media_fallback_attempted := b\<rparr>) = idle_clean s"
  by (simp_all add: idle_clean_def is_active_def)

lemma idle_clean_request:
  assumes i: "idle_clean t \<or> (phase t = IDLE \<and> call_id (identity t) \<noteq> [] \<and> setup_pending (incoming t))"
  shows "idle_clean (request_call_termination i t)"
proof (cases rule: request_cases [of t i])
  case terminal
  then show ?thesis using i by (auto simp: intro: idle_clean_finish_terminal)
next
  case ignored
  with i show ?thesis by auto
next
  case (ended t1 action pending t2)
  have t2: "phase t2 = phase t" "identity t2 = identity t" "incoming t2 = incoming t"
    using ended(3,4) by (auto dest: same_identity)
  have "idle_clean (end_call r d t2)" for r d
    using t2 ended(1,2) i by (cases "phase t") (auto simp: idle_clean_def is_active_def phase_end_call end_call_identity)
  then show ?thesis unfolding ended(5) Let_def by simp
qed


lemma active_set_call_state [simp]: "is_active (set_call_state n s) = (n \<in> {CALLING, REMOTE_RINGING, RINGING, CONNECTING, IN_CALL})"
  by (auto simp: is_active_def)

lemma idle_clean_open: "idle_clean (open_attempt dial a v r t)"
  by simp

lemma idle_clean_start_call_attempt: "idle_clean (start_call_attempt via cid t)"
proof -
  have "idle_clean (send_attempt dial a u)" if "idle_clean u" for dial a and u :: "'a fsm"
    unfolding send_attempt_def Let_def case_prod_beta using that by (auto intro!: idle_clean_request)
  moreover have "idle_clean (unreachable_attempt a t)" for a
    unfolding unreachable_attempt_def by (auto intro!: idle_clean_request)
  ultimately show ?thesis
    unfolding start_call_attempt_def Let_def by (auto intro: idle_clean_open)
qed

lemma idle_clean_idle: "idle_clean s \<Longrightarrow> call_state_is_terminating (phase s) \<Longrightarrow> idle_clean (set_call_state IDLE s)"
  by (auto simp: idle_clean_def is_active_def)

lemma idle_clean_finish: "idle_clean s \<Longrightarrow> idle_clean (finish_call_termination s)"
  by (auto simp: finish_call_termination_def finish_terminal_def intro: idle_clean_idle idle_clean_start_call_attempt
      idle_clean_finish_terminal)

lemma idle_clean_start: "idle_clean s \<Longrightarrow> idle_clean (start_with_id cid s)"
  by (simp add: start_with_id_def idle_clean_start_call_attempt)

lemma idle_clean_local:
  assumes "idle_clean s"
  shows "idle_clean (call_target v cid s)" "idle_clean (stop_call s)"
  using assms by (auto simp: call_target_def stop_call_def Let_def case_prod_beta intro!: idle_clean_start idle_clean_request)

lemma idle_clean_in_call: "is_active s \<Longrightarrow> idle_clean (set_in_call True s)"
  by (auto simp: idle_clean_def is_active_def split: if_splits)

lemma idle_clean_commit: "phase s = CONNECTING \<Longrightarrow> idle_clean (commit_incoming_answer s)"
  by (auto simp: commit_incoming_answer_def Let_def case_prod_beta 
      intro!: idle_clean_request idle_clean_in_call)

lemma idle_clean_connect: "idle_clean (connect_incoming_answer send w s)"
  unfolding connect_incoming_answer_def Let_def case_prod_beta
  by (auto intro!: idle_clean_request idle_clean_commit)

lemma idle_clean_complete:
  assumes "idle_clean s \<or> (phase s = IDLE \<and> call_id (identity s) \<noteq> [] \<and> setup_pending (incoming s))"
  shows "idle_clean (complete_incoming_answer send s)"
  unfolding complete_incoming_answer_def Let_def case_prod_beta using assms
  by (auto intro!: idle_clean_request idle_clean_connect)

lemma admit_identity [simp]:
  "call_id (identity (admit_invite m fs s)) = sig_call_id m" "setup_pending (incoming (admit_invite m fs s))"
  by (simp_all add: admit_invite_def Let_def case_prod_beta)

lemma idle_clean_accept:
  assumes "phase s = IDLE" and "sig_call_id m \<noteq> []"
  shows "idle_clean (accept_invite m fs s)"
proof -
  have "idle_clean (ring_invite cid u)" if "phase u = IDLE" "call_id (identity u) \<noteq> []" "setup_pending (incoming u)"
    for cid and u :: "'a fsm"
    using that by (auto simp: ring_invite_def Let_def case_prod_beta intro!: idle_clean_request)
  then show ?thesis
    using assms by (auto simp: accept_invite_def intro!: idle_clean_complete)
qed

lemma idle_clean_invite: "idle_clean s \<Longrightarrow> sig_call_id m \<noteq> [] \<Longrightarrow> idle_clean (on_invite m s)"
  by (auto simp: on_invite_def refuse_invite_def intro: idle_clean_accept split: option.split)

lemma idle_clean_answer: "idle_clean s \<Longrightarrow> idle_clean (answer_call s)"
  by (auto simp: answer_call_def intro: idle_clean_complete)

lemma idle_clean_media_ready: "idle_clean s \<Longrightarrow> idle_clean (on_media_ready m s)"
  by (auto simp: on_media_ready_def Let_def intro!: idle_clean_request idle_clean_complete)

lemma idle_clean_connected: "idle_clean s \<Longrightarrow> idle_clean (on_connected_identity m s)"
  by (auto simp: on_connected_identity_def Let_def elim!: idle_clean_phase [rotated 3])

lemma idle_clean_200:
  assumes "idle_clean s" shows "idle_clean (on_status_200 m s)"
proof -
  have "idle_clean (set_current_media_formats a b c d s)" for a b c d
    using assms by (auto elim!: idle_clean_phase [rotated 3])
  then show ?thesis using assms
    unfolding on_status_200_def Let_def case_prod_beta
    by (auto intro!: idle_clean_request idle_clean_in_call idle_clean_answer simp: is_active_def)
qed

lemma idle_clean_final: "idle_clean s \<Longrightarrow> idle_clean (on_final_response m s)"
  by (auto simp: on_final_response_def Let_def intro!: idle_clean_request)

lemma idle_clean_signal:
  assumes "idle_clean s" and "signal_type m = INVITE_SIGNAL \<longrightarrow> sig_call_id m \<noteq> []"
  shows "idle_clean (on_sip_signal_received m s)"
  using assms
  by (cases "signal_type m") (simp_all add: on_sip_signal_received_def idle_clean_invite idle_clean_media_ready
      idle_clean_request idle_clean_finish idle_clean_connected idle_clean_200 idle_clean_final)

lemma idle_clean_deferred: "idle_clean s \<Longrightarrow> idle_clean (run_deferred d s)"
  by (cases d) (auto simp: run_deferred_def on_connection_change_def intro!: idle_clean_finish idle_clean_request)

lemma idle_clean_decline: "idle_clean s \<Longrightarrow> idle_clean (decline_call r s)"
  by (auto simp: decline_call_def intro!: idle_clean_request idle_clean_local)

lemma idle_clean_watch: "idle_clean s \<Longrightarrow> idle_clean (watch_peer_audio t s)"
  by (simp add: watch_peer_audio_def Let_def idle_clean_request)

lemma idle_clean_timeouts: "idle_clean s \<Longrightarrow> idle_clean (handle_call_timeouts s)"
  by (simp add: handle_call_timeouts_def fire_timeout_decline_def fire_unanswered_invite_timeout_def Let_def
      idle_clean_request idle_clean_watch split: option.split)

lemma idle_clean_audio: "idle_clean s \<Longrightarrow> idle_clean (on_audio_received n p s)"
  by (simp add: on_audio_received_def Let_def)

lemma step_idle_clean:
  assumes "idle_clean s" and "well_formed_event e"
  shows "idle_clean (fsm_step s e)"
  using assms
  by (cases e) (auto simp: fsm_step_def call_via_ha_def hangup_call_if_id_def call_toggle_def run_queue_head_def
      transport_connection_callback_def transport_media_quiesced_callback_def
      intro!: idle_clean_start idle_clean_local idle_clean_answer idle_clean_decline idle_clean_signal
        idle_clean_audio idle_clean_timeouts idle_clean_deferred split: list.split)

lemma fsm_run_idle_clean: "fsm_run s t \<Longrightarrow> idle_clean s \<Longrightarrow> idle_clean t"
  by (induction rule: fsm_run.induct) (simp_all add: step_idle_clean)

lemma fsm_run_moves: "fsm_run s t \<Longrightarrow> moves s t"
  by (induction rule: fsm_run.induct) (auto intro: moves_refl moves_trans step_moves)

section \<open>A call that has ended\<close>

definition keeps_end :: "'t fsm \<Rightarrow> 't fsm \<Rightarrow> bool" where
  "keeps_end s t \<longleftrightarrow>
     (phase t = phase s \<or> phase t = IDLE) \<and> last_reason t = last_reason s \<and>
     last_terminal t = last_terminal s \<and> response t = response s \<and> grows (\<lambda>e. \<not> is_sip e) s t"

lemma keeps_end_refl [simp]: "keeps_end s s"
  by (simp add: keeps_end_def fsm_intros)

lemma terminating_phase:
  assumes "call_state_is_terminating (phase s)"
  shows "phase s \<noteq> IDLE" "phase s \<noteq> CALLING" "phase s \<noteq> REMOTE_RINGING" "phase s \<noteq> RINGING"
    "phase s \<noteq> CONNECTING" "phase s \<noteq> IN_CALL" "\<not> is_active s" "\<not> is_calling s" "\<not> can_start_call s"
  using assms by (auto simp: is_active_def is_calling_def can_start_call_def)

lemma last_reason_set_idle [simp]: "last_reason (set_call_state IDLE s) = last_reason s"
  by (simp add: set_call_state_def Let_def)

lemma keeps_finish_terminal [simp]: "keeps_end s (finish_terminal s)"
  by (auto simp: finish_terminal_def keeps_end_def intro!: grows_helpers grows_set_call_state grows_refl)

lemma finish_terminating: "call_state_is_terminating (phase s) \<Longrightarrow> finish_call_termination s = finish_terminal s"
  by (auto simp: finish_call_termination_def finish_terminal_def)

lemma request_terminating: "call_state_is_terminating (phase s) \<Longrightarrow> request_call_termination i s = finish_terminal s"
  by (simp add: request_call_termination_def)

lemma keeps_quiet:
  assumes "keeps_end s t" and "grows (\<lambda>e. \<not> is_sip e) t u" and "phase u = phase t" and "last_reason u = last_reason t"
    and "last_terminal u = last_terminal t" and "response u = response t"
  shows "keeps_end s u"
  using assms by (auto simp: keeps_end_def intro: grows_trans)

lemma keeps_signal:
  assumes t: "call_state_is_terminating (phase s)"
  shows "keeps_end s (on_sip_signal_received m s)"
proof (cases "signal_type m")
  case CONNECTED_IDENTITY
  have "keeps_end s (on_connected_identity m s)"
    by (rule keeps_quiet [OF keeps_end_refl])
      (auto simp: on_connected_identity_def Let_def intro!: grows_helpers grows_emit grows_refl)
  then show ?thesis using CONNECTED_IDENTITY by (simp add: on_sip_signal_received_def)
qed (use t terminating_phase [OF t] in \<open>auto simp: on_sip_signal_received_def on_invite_def on_media_ready_def
   on_final_response_def on_status_200_def request_terminating finish_terminating falls_back_to_ha_def\<close>)

lemma keeps_local:
  assumes t: "call_state_is_terminating (phase s)"
  shows "keeps_end s (stop_call s)" "keeps_end s (start_with_id c s)" "keeps_end s (call_target v c s)"
    "keeps_end s (answer_call s)" "keeps_end s (decline_call r s)" "keeps_end s (call_toggle s)"
    "keeps_end s (handle_call_timeouts s)" "keeps_end s (on_audio_received n p s)" "keeps_end s (snd (set_media_route c r s))"
proof -
  note p = terminating_phase [OF t]
  have d: "keeps_end s (set_audio_devices_active b s)" for b
    by (rule keeps_quiet [OF keeps_end_refl]) (auto intro!: grows_helpers grows_refl)
  show "keeps_end s (stop_call s)" using p d by (simp add: stop_call_def)
  show w: "keeps_end s (start_with_id c s)" for c
    using p by (simp add: start_with_id_def keeps_end_def grows_refl)
  show "keeps_end s (call_target v c s)" using p by (simp add: call_target_def Let_def)
  show "keeps_end s (answer_call s)" using p by (simp add: answer_call_def)
  show "keeps_end s (decline_call r s)" using p by (simp add: decline_call_def)
  show "keeps_end s (call_toggle s)" using p w by (simp add: call_toggle_def)
  show "keeps_end s (handle_call_timeouts s)" using p by (simp add: handle_call_timeouts_def)
  show "keeps_end s (on_audio_received n p s)" using terminating_phase [OF t] by (simp add: on_audio_received_def)
  show "keeps_end s (snd (set_media_route c r s))" using p by (simp add: set_media_route_def)
qed

lemma keeps_update:
   "keeps_end (s\<lparr>clock := a, entropy := b\<rparr>) t = keeps_end s t" "keeps_end (s\<lparr>queue := ds\<rparr>) t = keeps_end s t"
  by (simp_all add: keeps_end_def grows_def)

lemma keeps_deferred:
  assumes t: "call_state_is_terminating (phase s)"
  shows "keeps_end s (run_deferred d s)"
proof -
  have "keeps_end s (on_connection_change c s)" for c
    using terminating_phase [OF t] by (auto simp: on_connection_change_def finish_terminating request_terminating t)
  moreover have "keeps_end s (publish_caller n s)" "keeps_end s (publish_media_route s)"
      "keeps_end s (confirm_direct_route cid s)" "keeps_end s (emit (Fired d) s)" for n cid
    by (auto intro!: keeps_quiet [OF keeps_end_refl] grows_helpers grows_emit grows_refl)
  ultimately show ?thesis
    by (cases d) (simp_all add: run_deferred_def finish_terminating t)
qed

lemma step_keeps_end:
  assumes t: "call_state_is_terminating (phase s)"
  shows "keeps_end s (fsm_step s e)"
proof (cases e)
  case (Timeouts a b)
  then show ?thesis using keeps_local(7) [of "s\<lparr>clock := a, entropy := b\<rparr>"] t by (simp add: fsm_step_def keeps_update)
next
  case MainLoop
  show ?thesis
  proof (cases "queue s")
    case Nil
    then show ?thesis using MainLoop by (simp add: fsm_step_def run_queue_head_def)
  next
    case (Cons d ds)
    then show ?thesis
      using MainLoop keeps_deferred [of "s\<lparr>queue := ds\<rparr>" d] t by (simp add: fsm_step_def run_queue_head_def keeps_update)
  qed
qed (use keeps_local [OF t] keeps_signal [OF t] in \<open>auto simp: fsm_step_def call_via_ha_def hangup_call_if_id_def
    transport_connection_callback_def transport_media_quiesced_callback_def keeps_end_def grows_refl grows_defer\<close>)

end
