(* ===== verification/CallFsmCalls.thy ===== *)
theory CallFsmCalls
  imports CallFsmSafety "HOL-Library.Sublist"
begin

text \<open>
  What the call state machine does with a call: ending it (one message, the terminal state, the
  return to IDLE), answering it (the order of media, signalling and state), refusing it, and the
  second attempt through Home Assistant; then the properties of the state machine, each with an
  instance on a sample phone.
\<close>

section \<open>Ending an active call\<close>

lemma observe_same: "transport t = transport s \<Longrightarrow> vtable t = vtable s \<Longrightarrow> observe f a t = observe f a s"
  by (cases "transport s") (simp_all add: observe_def)

lemma observe_update [simp]:
  "observe f a (s\<lparr>clock := c\<rparr>) = observe f a s" "observe f a (s\<lparr>entropy := r\<rparr>) = observe f a s"
  "observe f a (s\<lparr>queue := q\<rparr>) = observe f a s" "observe f a (emit e s) = observe f a s"
  by (auto intro!: observe_same simp: emit_def)

lemma connected_transport: "is_connected s \<Longrightarrow> transport s \<noteq> None"
  by (cases "transport s") (simp_all add: is_connected_def observe_def)

lemma command_connected:
  assumes "transport s \<noteq> None"
  shows "log (snd (command c s)) = log s @ [Command c (fst (command c s))]"
    "log (tell c s) = log s @ [Command c (fst (command c s))]"
  using assms by (auto simp: command_def tell_def emit_def split: option.split prod.split)

lemma has_transport [simp]:
  "transport (snd (command c s)) = None \<longleftrightarrow> transport s = None"
  "transport (tell c s) = None \<longleftrightarrow> transport s = None"
  "transport (snd (fails c s)) = None \<longleftrightarrow> transport s = None"
  by (auto simp: command_def tell_def fails_def emit_def case_prod_beta split: option.split prod.split)

lemma has_transport_helpers [simp]:
  "transport (emit e s) = transport s" "transport (defer_to_loop d s) = transport s"
  "transport (publish_last_reason x s) = transport s" "transport (publish_state s) = transport s"
  "transport (set_audio_devices_active b s) = transport s" "transport (clear_call_identity s) = transport s"
  by (simp_all add: emit_def defer_to_loop_def publish_last_reason_def publish_state_def
      set_audio_devices_active_def reset_peer_audio_watchdog_def clear_call_identity_def Let_def)

lemma has_transport_set_call_state [simp]: "transport (set_call_state n s) = transport s"
  by (cases n) (simp_all add: set_call_state_def Let_def)

lemma has_transport_end_call [simp]: "transport (end_call r x s) = transport s"
  by (simp add: end_call_def Let_def)

lemma has_transport_in_call [simp]: "transport (set_in_call False s) = None \<longleftrightarrow> transport s = None"
  by (simp add: set_in_call_def Let_def)

lemma grows_end_call [fsm_intros]:
  "grows Q s t \<Longrightarrow> harmless Q \<Longrightarrow> (\<And>a b. Q (StateChange a b)) \<Longrightarrow> grows Q s (end_call r d t)"
  by (auto simp: end_call_def Let_def intro!: grows_defer grows_helpers grows_set_call_state)

lemma last_reason_terminal [simp]:
  "call_state_is_terminating n \<Longrightarrow> last_reason (set_call_state n s) = last_reason s"
  "last_reason (publish_last_reason r s) = r"
  by (cases n) (simp_all add: set_call_state_def publish_last_reason_def Let_def)

lemma queue_helpers [simp]:
  "queue (emit e s) = queue s" "queue (defer_to_loop d s) = queue s @ [d]" "queue (publish_last_reason r s) = queue s"
  "queue (set_audio_devices_active b s) = queue s" "queue (clear_call_identity s) = queue s"
  "queue (snd (command c s)) = queue s" "queue (tell c s) = queue s" "queue (publish_state s) = queue s @ [PublishMediaRouteLater]"
  "queue (set_in_call False s) = queue s @ [PublishMediaRouteLater]"
  by (simp_all add: emit_def defer_to_loop_def publish_last_reason_def set_audio_devices_active_def publish_state_def
      reset_peer_audio_watchdog_def clear_call_identity_def command_def tell_def set_in_call_def Let_def
      split: option.split prod.split)

lemma end_call_terminal:
  assumes "phase s \<noteq> IDLE" and "\<not> (r = MEDIA_INCOMPATIBLE_END \<and> ha_media_fallback_pending s)"
  shows "phase (end_call r d s) = terminal_state_for r"
    "last_reason (end_call r d s) = (if d = [] then call_end_reason_to_str r else d)"
    "identity (end_call r d s) = no_identity"
    "last_terminal (end_call r d s) = take_terminal_snapshot s"
    "FinishTermination \<in> set (queue (end_call r d s))"
    "response (end_call r d s) = response s"
  using assms by (auto simp: end_call_def Let_def take_terminal_snapshot_def)

fun termination_message :: "string \<Rightarrow> string \<Rightarrow> sip_termination_action \<Rightarrow> transport_call" where
  "termination_message cid detail CANCEL = SendCancel cid"
| "termination_message cid detail BYE = SendBye cid"
| "termination_message cid detail _ = SendFinalResponse cid (final_response_status detail) detail"

text \<open>What ending a connected, active call does: one message, then the terminal state, the media
  off, and the transport closed unless a transaction is left to complete.\<close>

definition ended_with :: "transport_call \<Rightarrow> call_end_reason \<Rightarrow> string \<Rightarrow> 't fsm \<Rightarrow> 't fsm \<Rightarrow> bool" where
  "ended_with msg r detail s t \<longleftrightarrow>
     (\<exists>ok es. log t = log s @ Command msg ok # es \<and> list_all (\<lambda>e. \<not> is_sip e) es \<and>
        (if ok \<and> (\<forall>c u d. msg \<noteq> SendFinalResponse c u d) then list_all (\<lambda>e. \<not> disconnects e) es
         else es \<noteq> [] \<and> disconnects (last es))) \<and>
     phase t = terminal_state_for r \<and> last_reason t = (if detail = [] then call_end_reason_to_str r else detail) \<and>
     identity t = no_identity \<and> FinishTermination \<in> set (queue t)"

lemma request_connected:
  assumes a: "phase s \<noteq> IDLE" "\<not> call_state_is_terminating (phase s)" and c: "is_connected s"
    and i: "call_id (identity s) \<noteq> []" and f: "\<not> (r = MEDIA_INCOMPATIBLE_END \<and> ha_media_fallback_pending s)"
    and x: "x = resolve_sip_termination_action (phase s)
                (if act = AUTO \<and> phase s = CONNECTING \<and> answer_accepted (incoming s) then BYE else act)"
    and n: "x \<noteq> NONE" "x \<noteq> AUTO"
  shows "ended_with (termination_message (call_id (identity s)) (case det of None \<Rightarrow> [] | Some d \<Rightarrow> d) x)
           r (case det of None \<Rightarrow> [] | Some d \<Rightarrow> d) s (request_call_termination (intent r det act caches) s)"
proof -
  let ?d = "case det of None \<Rightarrow> [] | Some d \<Rightarrow> d" and ?cid = "call_id (identity s)"
  let ?m = "termination_message ?cid ?d x"
  define s1 where "s1 = (if caches then set_terminal_response ?cid ?d s else s)"
  define pt where "pt = send_termination ?cid ?d x s1"
  define e where "e = set_audio_devices_active False (set_in_call False (end_call r ?d (snd pt)))"
  define t where "t = (if fst pt then e else tell DisconnectTransport e)"
  define act' where "act' = (if act = AUTO \<and> phase s = CONNECTING \<and> answer_accepted (incoming s) then BYE else act)"
  have x': "resolve_sip_termination_action (phase s) act' = x" by (simp add: x act'_def)
  have "request_call_termination (intent r det act caches) s =
    dispatch_call_termination \<lparr>snap_state = phase s, transport_connected = True, has_call_id = True,
        snap_setup_pending = (setup_pending (incoming s) \<and> True)\<rparr> act' caches (set_terminal_response ?cid ?d)
      (send_termination ?cid ?d) (end_call r ?d) (\<lambda>s. set_audio_devices_active False (set_in_call False s))
      (tell DisconnectTransport) s"
    using a(2) c i unfolding act'_def request_call_termination_def by (simp only: Let_def termination_intent.simps) simp
  also have "\<dots> = t"
    unfolding t_def e_def pt_def s1_def dispatch_call_termination_def Let_def
    using a n by (simp add: case_prod_beta x')
  finally have t: "request_call_termination (intent r det act caches) s = t" .
  have c1: "transport s1 \<noteq> None" "log s1 = log s" using connected_transport [OF c] by (simp_all add: s1_def set_terminal_response_def)
  let ?ok = "fst (command ?m s1)"
  have l: "log (snd pt) = log s @ [Command ?m ?ok]" "fst pt = (?ok \<and> (\<forall>c u d. ?m \<noteq> SendFinalResponse c u d))"
    "phase (snd pt) = phase s" "ha_media_fallback_pending (snd pt) = ha_media_fallback_pending s"
    "transport (snd pt) \<noteq> None"
    using c1 n by (cases x; simp add: pt_def send_termination_def send_sip_final_response_def command_connected s1_def)+
  have g: "grows (\<lambda>e. \<not> is_sip e \<and> \<not> disconnects e) (snd pt) e"
    unfolding e_def by (intro grows_helpers grows_end_call) (auto simp: grows_refl harmless_def plain_def)
  then obtain es where es: "log e = log (snd pt) @ es" "list_all (\<lambda>e. \<not> is_sip e \<and> \<not> disconnects e) es"
    by (auto simp: grows_def)
  have tr: "transport e \<noteq> None" using l(5) by (simp add: e_def)
  define rest where "rest = es @ (if fst pt then [] else [Command DisconnectTransport (fst (command DisconnectTransport e))])"
  have lg: "log t = log s @ Command ?m ?ok # rest"
    using es(1) l(1) command_connected [OF tr] by (simp add: t_def rest_def)
  have r: "list_all (\<lambda>e. \<not> is_sip e) rest" "fst pt \<Longrightarrow> list_all (\<lambda>e. \<not> disconnects e) rest"
    "\<not> fst pt \<Longrightarrow> rest \<noteq> [] \<and> disconnects (last rest)"
    using es(2) by (auto simp: list_all_iff rest_def)
  have "phase (snd pt) \<noteq> IDLE" "\<not> (r = MEDIA_INCOMPATIBLE_END \<and> ha_media_fallback_pending (snd pt))" using l a f by auto
  note q = end_call_terminal [OF this]
  have "phase t = terminal_state_for r \<and> last_reason t = (if ?d = [] then call_end_reason_to_str r else ?d) \<and>
     identity t = no_identity \<and> FinishTermination \<in> set (queue t)"
    using q by (simp add: t_def e_def)
  then show ?thesis unfolding t ended_with_def lg using l(2) r
    by (intro conjI exI [of _ ?ok] exI [of _ rest]) auto
qed





lemma run_deferred_terminating:
  assumes t: "call_state_is_terminating (phase s)" and b: "\<not> finish_blocked s"
  shows "phase (run_deferred d s) = IDLE \<or>
     (d \<noteq> FinishTermination \<and> phase (run_deferred d s) = phase s \<and> queue (run_deferred d s) = queue s \<and>
      finish_blocked (run_deferred d s) = finish_blocked s)"
proof -
  have e: "finish_blocked (emit x s) = finish_blocked s" "queue (emit x s) = queue s" for x
    by (simp_all add: finish_blocked_def terminal_transaction_pending_def)
  have r: "snd (set_media_route c r s) = s" for c r
    using terminating_phase [OF t] by (simp add: set_media_route_def)
  show ?thesis using t b terminating_phase [OF t]
    by (cases d) (auto simp: run_deferred_def finish_terminating request_terminating finish_terminal_def
        on_connection_change_def e publish_media_route_def publish_caller_def confirm_direct_route_def Let_def r)
qed

lemma queue_reaches_idle:
  assumes "call_state_is_terminating (phase s)" "\<not> finish_blocked s" "FinishTermination \<in> set (queue s)"
  shows "\<exists>n\<le>length (queue s). phase ((run_queue_head ^^ n) s) = IDLE"
  using assms
proof (induction "length (queue s)" arbitrary: s)
  case 0
  then show ?case by simp
next
  case (Suc k)
  then obtain d ds where q: "queue s = d # ds" by (cases "queue s") auto
  let ?u = "run_deferred d (s\<lparr>queue := ds\<rparr>)"
  have u: "run_queue_head s = ?u" by (simp add: run_queue_head_def q)
  have b: "finish_blocked (s\<lparr>queue := ds\<rparr>) = finish_blocked s"
    by (simp add: finish_blocked_def terminal_transaction_pending_def)
  from run_deferred_terminating [of "s\<lparr>queue := ds\<rparr>" d] Suc.prems b
  consider "phase ?u = IDLE" | "d \<noteq> FinishTermination" "phase ?u = phase s" "queue ?u = ds" "\<not> finish_blocked ?u"
    by auto
  then show ?case
  proof cases
    case 1
    then show ?thesis by (intro exI [of _ 1]) (simp add: q u)
  next
    case 2
    then obtain n where "n \<le> length ds" "phase ((run_queue_head ^^ n) ?u) = IDLE"
      using Suc(1) [of ?u] Suc.hyps(2) Suc.prems q by auto
    then show ?thesis
      by (intro exI [of _ "Suc n"]) (simp add: q u funpow_Suc_right del: funpow.simps)
  qed
qed







section \<open>The second attempt through Home Assistant\<close>

lemma final_reason_488: "status_code m = 488 \<Longrightarrow> sig_reason m \<noteq> ''busy'' \<Longrightarrow> sig_reason m \<noteq> ''cancelled'' \<Longrightarrow> final_reason m = MEDIA_INCOMPATIBLE_END"
  by (simp add: final_reason_def)

lemma request_none:
  assumes "phase s \<noteq> IDLE" and "\<not> call_state_is_terminating (phase s)"
  shows "request_call_termination (intent r det NONE False) s =
    tell DisconnectTransport (set_audio_devices_active False (set_in_call False (end_call r (case det of None \<Rightarrow> [] | Some d \<Rightarrow> d) s)))"
  using assms by (simp add: request_call_termination_def dispatch_call_termination_def resolve_sip_termination_action_def)

lemma failed_trigger_set_call_state [simp]:
  "CallFailedTrigger who why \<in> set (queue (set_call_state n s)) \<longleftrightarrow> CallFailedTrigger who why \<in> set (queue s)"
proof (cases "phase s = n")
  case True
  then show ?thesis by (simp add: set_call_state_def)
next
  case False
  then show ?thesis by (cases n) (simp_all add: set_call_state_def Let_def)
qed

lemma end_call_fallback:
  assumes "phase s \<noteq> IDLE" and "ha_media_fallback_pending s"
  shows "phase (end_call MEDIA_INCOMPATIBLE_END d s) = CALLING"
    "ha_media_fallback_pending (end_call MEDIA_INCOMPATIBLE_END d s)"
    "ha_media_fallback_attempted (end_call MEDIA_INCOMPATIBLE_END d s) = ha_media_fallback_attempted s"
    "identity (end_call MEDIA_INCOMPATIBLE_END d s) = (identity s)\<lparr>call_id := []\<rparr>"
    "FinishTermination \<in> set (queue (end_call MEDIA_INCOMPATIBLE_END d s))"
    "\<forall>who why. CallFailedTrigger who why \<in> set (queue (end_call MEDIA_INCOMPATIBLE_END d s)) \<longrightarrow>
       CallFailedTrigger who why \<in> set (queue s)"
  using assms by (simp_all add: end_call_def Let_def)

lemma on_488:
  assumes "signal_type m \<in> {MEDIA_INCOMPATIBLE_SIGNAL, FINAL_RESPONSE_SIGNAL}" "status_code m = 488"
    "sig_reason m \<noteq> ''busy''" "sig_reason m \<noteq> ''cancelled''" "sig_call_id m = call_id (identity s)"
    and p: "phase s \<noteq> IDLE" "\<not> call_state_is_terminating (phase s)"
  shows "on_sip_signal_received m s = tell DisconnectTransport (set_audio_devices_active False (set_in_call False
    (end_call MEDIA_INCOMPATIBLE_END []
       (if falls_back_to_ha MEDIA_INCOMPATIBLE_END s
        then s\<lparr>ha_media_fallback_pending := True, ha_media_fallback_attempted := True\<rparr> else s))))"
proof -
  have "on_sip_signal_received m s =
     request_call_termination (intent MEDIA_INCOMPATIBLE_END None NONE False)
       (if falls_back_to_ha MEDIA_INCOMPATIBLE_END s
        then s\<lparr>ha_media_fallback_pending := True, ha_media_fallback_attempted := True\<rparr> else s)"
    using assms by (auto simp: on_sip_signal_received_def on_final_response_def final_reason_488 ignore_if_idle_or_stale_def)
  with p show ?thesis by (simp add: request_none)
qed

lemma fallback_taken:
  assumes "signal_type m \<in> {MEDIA_INCOMPATIBLE_SIGNAL, FINAL_RESPONSE_SIGNAL}" "status_code m = 488"
    "sig_reason m \<noteq> ''busy''" "sig_reason m \<noteq> ''cancelled''" "sig_call_id m = call_id (identity s)"
    and f: "falls_back_to_ha MEDIA_INCOMPATIBLE_END s" and t: "t = on_sip_signal_received m s"
  shows "phase t = CALLING \<and> ha_media_fallback_pending t \<and> ha_media_fallback_attempted t \<and>
    identity t = (identity s)\<lparr>call_id := []\<rparr> \<and> FinishTermination \<in> set (queue t) \<and>
    (\<forall>who why. CallFailedTrigger who why \<in> set (queue t) \<longrightarrow> CallFailedTrigger who why \<in> set (queue s))"
proof -
  have p: "phase s \<noteq> IDLE" "\<not> call_state_is_terminating (phase s)" using f by (auto simp: falls_back_to_ha_def)
  show ?thesis
    unfolding t on_488 [OF assms(1-5) p] if_P [OF f]
    using end_call_fallback [of "s\<lparr>ha_media_fallback_pending := True, ha_media_fallback_attempted := True\<rparr>" "[]"] p
    by simp
qed

lemma late_bye:
  assumes "signal_type m = BYE_SIGNAL" and p: "phase s = CALLING" "call_id (identity s) = []"
  shows "phase (on_sip_signal_received m s) = TERMINATING"
    "\<not> ha_media_fallback_pending (on_sip_signal_received m s)"
proof -
  have e: "on_sip_signal_received m s = tell DisconnectTransport (set_audio_devices_active False (set_in_call False
    (end_call REMOTE_HANGUP [] s)))"
    using assms request_none [of s REMOTE_HANGUP None] by (simp add: on_sip_signal_received_def ignore_if_idle_or_stale_def)
  show "phase (on_sip_signal_received m s) = TERMINATING" unfolding e using p by (simp add: phase_end_call)
  show "\<not> ha_media_fallback_pending (on_sip_signal_received m s)" unfolding e using p by (simp add: end_call_def Let_def)
qed

section \<open>The order of answering\<close>

definition logged :: "effect list \<Rightarrow> 't fsm \<Rightarrow> 't fsm \<Rightarrow> bool" where
  "logged xs s t \<longleftrightarrow> (\<exists>es. log t = log s @ es \<and> subseq xs es)"

lemma logged_refl: "logged [] s s"
  by (simp add: logged_def)

lemma logged_grows: "logged xs s t \<Longrightarrow> grows Q t u \<Longrightarrow> logged xs s u"
  unfolding logged_def grows_def by (auto intro: subseq_rev_drop_many)

lemma logged_command: "logged xs s t \<Longrightarrow> transport t \<noteq> None \<Longrightarrow> logged (xs @ [Command c (fst (command c t))]) s (snd (command c t))"
  unfolding logged_def by (auto simp: command_connected list_emb_append_mono)

lemma logged_set_call_state:
  assumes l: "logged xs s t" and p: "phase t \<noteq> n"
  shows "logged (xs @ [StateChange (phase t) n]) s (set_call_state n t)"
proof -
  let ?u = "emit (StateChange (phase t) n) (t\<lparr>phase := n, route_projection := ROUTE_UNKNOWN\<rparr>)"
  have 1: "logged (xs @ [StateChange (phase t) n]) s ?u"
    using l by (auto simp: logged_def emit_def list_emb_append_mono)
  have "grows (\<lambda>_. True) ?u (set_call_state n t)"
    using p by (cases n) (auto simp: set_call_state_def Let_def harmless_def intro!: grows_helpers grows_defer grows_refl)
  with 1 show ?thesis by (rule logged_grows)
qed

lemma fails_command: "transport s \<noteq> None \<Longrightarrow> fails c s = (\<not> fst (command c s), snd (command c s))"
  by (auto simp: fails_def case_prod_beta split: option.split)

lemma all_grows: "grows (\<lambda>_. True) s (set_audio_devices_active b s)" "grows (\<lambda>_. True) s (tell c s)"
    "grows (\<lambda>_. True) s (emit e s)" "grows (\<lambda>_. True) s (start_speaker_for_current_rx s)"
    "grows (\<lambda>_. True) s (reset_peer_audio_watchdog b s)"
  by (auto simp: harmless_def intro!: grows_helpers grows_tell grows_emit grows_refl)

lemma logged_set_in_call:
  assumes l: "logged xs s t" and p: "phase t = CONNECTING" and r: "\<not> recent_terminal_call (call_id (identity t)) t"
  shows "logged (xs @ [StateChange CONNECTING IN_CALL]) s (set_in_call True t)"
proof -
  let ?u = "start_speaker_for_current_rx (emit AudioReset (reset_peer_audio_watchdog True (set_audio_devices_active True t)))"
  have "grows (\<lambda>_. True) t ?u"
    by (auto simp: harmless_def intro!: grows_helpers grows_emit grows_refl)
  from logged_set_call_state [OF logged_grows [OF l this], of IN_CALL]
  show ?thesis using p r by (simp add: set_in_call_def Let_def)
qed

lemma phase_request:
  assumes "phase s \<noteq> IDLE" "\<not> call_state_is_terminating (phase s)" "r \<noteq> MEDIA_INCOMPATIBLE_END"
  shows "phase (request_call_termination (intent r det act caches) s) = terminal_state_for r"
proof (cases rule: request_cases [of s "intent r det act caches"])
  case (ended t1 action pending t2)
  have "phase t2 = phase s"
    using ended(3,4) by (auto dest: same_identity)
  then show ?thesis using ended(5) assms by (simp add: phase_end_call Let_def)
qed (use assms in auto)

lemma recent_frame: "response t = response s \<Longrightarrow> clock t = clock s \<Longrightarrow> recent_terminal_call c t = recent_terminal_call c s"
  by (simp add: recent_terminal_call_def response_age_def)

lemma commit_outcome:
  assumes l: "logged xs s t" and p: "phase t = CONNECTING" and r: "\<not> recent_terminal_call (call_id (identity t)) t"
    and tr: "transport t \<noteq> None"
  shows "(logged (xs @ [Command CommitMediaPath True, StateChange CONNECTING IN_CALL]) s (commit_incoming_answer t) \<and>
          phase (commit_incoming_answer t) = IN_CALL) \<or> phase (commit_incoming_answer t) = TRANSPORT_UNREACHABLE"
proof -
  let ?d = "set_audio_devices_active True t" and ?c = "command CommitMediaPath (set_audio_devices_active True t)"
  have 1: "logged (xs @ [Command CommitMediaPath (fst ?c)]) s (snd ?c)"
    by (rule logged_command [OF logged_grows [OF l all_grows(1)]]) (simp add: tr)
  have 2: "\<not> recent_terminal_call (call_id (identity (snd ?c))) (snd ?c)"
    using r recent_frame [of "snd ?c" t] by simp
  show ?thesis
  proof (cases "fst ?c")
    case True
    have "commit_incoming_answer t = set_in_call True (snd ?c)"
      using True tr by (simp add: commit_incoming_answer_def fails_command)
    then show ?thesis
      using logged_set_in_call [OF 1 _ 2] p True 2 by simp
  next
    case False
    then show ?thesis using tr p by (simp add: commit_incoming_answer_def fails_command phase_request)
  qed
qed

lemma media_set_call_state [simp]: "media (set_call_state n s) = media s"
  by (cases n) (simp_all add: set_call_state_def publish_state_def publish_last_reason_def emit_def defer_to_loop_def Let_def)

lemma connect_outcome:
  assumes l: "logged xs s u" and p: "phase u = RINGING" and i: "call_id (identity u) \<noteq> []" and tr: "transport u \<noteq> None"
    and r: "\<not> recent_terminal_call (call_id (identity u)) u"
    and m: "m = SendAnswer (call_id (identity u)) (fmt_caller_to_dest (media u)) (fmt_dest_to_caller (media u))"
    and t: "t = connect_incoming_answer True w u"
  shows "(phase t = IN_CALL \<and> \<not> w \<and>
            logged (xs @ [StateChange RINGING CONNECTING, Command m True, Command CommitMediaPath True,
                    StateChange CONNECTING IN_CALL]) s t) \<or>
         (phase t = CONNECTING \<and> w \<and> logged (xs @ [StateChange RINGING CONNECTING, Command m True]) s t) \<or>
         phase t = TRANSPORT_UNREACHABLE \<or> phase t = TERMINATING"
proof -
  define a where "a = set_call_state CONNECTING (u\<lparr>incoming := (incoming u)\<lparr>setup_pending := False\<rparr>\<rparr>)"
  define b where "b = command m a"
  define v where "v = (snd b)\<lparr>incoming := (incoming (snd b))\<lparr>answer_accepted := True\<rparr>\<rparr>"
  have a: "phase a = CONNECTING" "identity a = identity u" "transport a \<noteq> None" "media a = media u"
    "response a = response u" "clock a = clock u"
    using tr by (simp_all add: a_def)
  have la: "logged (xs @ [StateChange RINGING CONNECTING]) s a"
    using logged_set_call_state [of xs s "u\<lparr>incoming := (incoming u)\<lparr>setup_pending := False\<rparr>\<rparr>" CONNECTING] l p
    by (simp add: a_def logged_def)
  then have lb: "logged (xs @ [StateChange RINGING CONNECTING, Command m (fst b)]) s (snd b)"
    using logged_command [OF la a(3), of m] by (simp add: b_def)
  then have lv: "logged (xs @ [StateChange RINGING CONNECTING, Command m (fst b)]) s v"
    by (simp add: v_def logged_def)
  have v: "phase v = CONNECTING" "transport v \<noteq> None" "\<not> recent_terminal_call (call_id (identity v)) v"
    using a r recent_frame [of v u "call_id (identity u)"] by (simp_all add: v_def b_def)
  have s: "send_sip_answer (call_id (identity a)) a = b"
    using a m by (simp add: send_sip_answer_def b_def)
  show ?thesis
  proof (cases "fst b")
    case True
    have "t = (if w then v else commit_incoming_answer v)"
      using True a i s unfolding t connect_incoming_answer_def Let_def a_def [symmetric]
      by (simp add: case_prod_beta v_def)
    then show ?thesis using commit_outcome [OF lv v(1,3,2)] lv v True by auto
  next
    case False
    have "t = request_call_termination (intent PROTOCOL_ERROR None NONE False) (tell AbortMediaPath (snd b))"
      using False a i s unfolding t connect_incoming_answer_def Let_def a_def [symmetric]
      by (simp add: case_prod_beta)
    then show ?thesis using a by (simp add: phase_request b_def)
  qed
qed




section \<open>A sample phone\<close>

text \<open>A phone in some phase, with a transport that accepts every command, for the examples.\<close>

definition sample_ops :: "unit transport_ops" where
  "sample_ops = \<lparr>tp_call = \<lambda>c t. (True, t), tp_connected = \<lambda>t. True, tp_terminal_pending = \<lambda>t. False,
     tp_media_phase = \<lambda>t. 0, tp_received_packets = \<lambda>t. 0, tp_last_status = \<lambda>t. 180,
     tp_remote_audio_expected = \<lambda>t. True, tp_remote_ip = \<lambda>t. 0, tp_inet_aton = \<lambda>s. None\<rparr>"

definition sample_config :: fsm_config where
  "sample_config = \<lparr>device_name = ''desk'', device_route_id = ''100'', has_speaker = True, auto_answer = False,
     do_not_disturb = True, cfg_tx_formats = [default_audio_format], cfg_rx_formats = [default_audio_format],
     cfg_tx_format = default_audio_format, cfg_rx_format = default_audio_format,
     calling_timeout_ms = 30000, ringing_timeout_ms = 30000\<rparr>"

definition sample_phone :: "call_state \<Rightarrow> unit fsm" where
  "sample_phone p =
     \<lparr>config = sample_config, vtable = sample_ops, transport = Some (), clock = 10, entropy = 0, phase = p,
      identity = (if p = IDLE \<or> call_state_is_terminating p then no_identity else
        \<lparr>call_id = ''a'', caller_route = [], caller_name = ''desk'', dest_route = [], dest_name = ''door'',
         dialed_dest_name = ''door''\<rparr>),
      incoming = \<lparr>setup_pending = False, media_answer_wait = False, answer_accepted = False\<rparr>,
      response = \<lparr>response_call_id = [], response_reason = [], response_ms = 0\<rparr>,
      pending_dialplan_target = [], ha_peer_name = ''ha'', ha_media_fallback_pending = False,
      ha_media_fallback_attempted = False,
      contacts = new_phonebook\<lparr>entries := [empty_contact\<lparr>name := ''door''\<rparr>, empty_contact\<lparr>name := ''ha''\<rparr>]\<rparr>,
      media = \<lparr>fmt_caller_to_dest = default_audio_format, fmt_dest_to_caller = default_audio_format,
               fmt_tx = default_audio_format, fmt_rx = default_audio_format\<rparr>,
      route_projection = ROUTE_UNKNOWN, audio_devices_active = False, microphone_requested = False,
      watchdog = \<lparr>first_audio_received = False, last_peer_audio_ms = 0, media_timeout_rtp_rx_packets = 0\<rparr>,
      ringing_start_time = 0, calling_start_time = 0, last_reason = [],
      last_terminal = \<lparr>term_call_id = [], term_direction = [], term_caller_name = [], term_dest_name = [],
        term_tx_format = default_audio_format, term_rx_format = default_audio_format\<rparr>,
      last_published_destination = [], queue = [FinishTermination], log = []\<rparr>"

definition sample_signal :: "sip_signal_type \<Rightarrow> u16 \<Rightarrow> string \<Rightarrow> sip_signal" where
  "sample_signal t st cid = \<lparr>signal_type = t, status_code = st, media_source_changed = False, media_answer_pending = False,
     sig_call_id = cid, sig_caller_route = [], sig_caller_name = [], sig_dest_route = [], sig_dest_name = [],
     connected_route = [], connected_name = [], sig_reason = [], caller_tx_formats = [], caller_rx_formats = [],
     selected_tx_format = default_audio_format, selected_rx_format = default_audio_format\<rparr>"

lemmas sample_defs = sample_phone_def sample_signal_def sample_config_def

lemma sample_connected [simp]: "is_connected (sample_phone p)" "\<not> finish_blocked (sample_phone p)"
  by (simp_all add: is_connected_def finish_blocked_def terminal_transaction_pending_def observe_def sample_phone_def sample_ops_def)

lemma sample_falls_back: "falls_back_to_ha MEDIA_INCOMPATIBLE_END (sample_phone CALLING)"
  by (simp add: falls_back_to_ha_def sample_defs get_current_destination_def current_name_def current_def pb_find_def
      new_phonebook_def empty_contact_def matches_def)

lemma sample_simps [simp]:
  "phase (sample_phone p) = p" "config (sample_phone p) = sample_config" "clock (sample_phone p) = 10"
  "transport (sample_phone p) = Some ()" "ringing_start_time (sample_phone p) = 0"
  "incoming (sample_phone p) = \<lparr>setup_pending = False, media_answer_wait = False, answer_accepted = False\<rparr>"
  "response (sample_phone p) = \<lparr>response_call_id = [], response_reason = [], response_ms = 0\<rparr>"
  "call_id (identity (sample_phone RINGING)) = ''a''" "call_id (identity (sample_phone IN_CALL)) = ''a''"
  "call_id (identity (sample_phone CALLING)) = ''a''" "\<not> ha_media_fallback_pending (sample_phone p)"
  "queue (sample_phone p) = [FinishTermination]"
  by (simp_all add: sample_phone_def)

section \<open>Properties\<close>

text \<open>
  C1: Every run of the phone moves through its call states along the graph of allowed transitions:
  the changes in the log form a path from the first state to the last, so that a ringing phone
  cannot be in a call without connecting, and a call that has ended can only become idle.
\<close>

theorem call_states_follow_graph:
  assumes "fsm_run s t"
  shows "\<exists>es. log t = log s @ es \<and> path (phase s) es (phase t)"
  using fsm_run_moves [OF assms] by (simp add: moves_def)

theorem call_states_follow_graph_witness:
  "\<exists>es. log (fsm_step (sample_phone RINGING) Answer) = log (sample_phone RINGING) @ es \<and>
     path (phase (sample_phone RINGING)) es (phase (fsm_step (sample_phone RINGING) Answer))"
  by (rule call_states_follow_graph) (rule run_event [OF run_start], simp)

text \<open>
  C12: Hanging up a connected call sends exactly one SIP message, before anything else, and the one
  its state needs: BYE in a call (or once the answer was accepted), 486 for a call that rings
  here, CANCEL for a call placed from here. Then the phone is terminating with reason
  local_hangup, its identity is cleared, the end is queued, and the transport is closed at once
  unless a CANCEL or BYE is still to be answered.
\<close>

theorem hangup_sends_one_message:
  assumes "is_active s" and "is_connected s" and "call_id (identity s) \<noteq> []"
  shows "ended_with
           (case phase s of
              IN_CALL \<Rightarrow> SendBye (call_id (identity s))
            | RINGING \<Rightarrow> SendFinalResponse (call_id (identity s)) 486 []
            | CONNECTING \<Rightarrow> if answer_accepted (incoming s) then SendBye (call_id (identity s))
                           else SendCancel (call_id (identity s))
            | _ \<Rightarrow> SendCancel (call_id (identity s)))
           LOCAL_HANGUP [] s (stop_call s)"
proof -
  have p: "phase s \<noteq> IDLE" "\<not> call_state_is_terminating (phase s)" using assms(1) by (auto simp: is_active_def)
  show ?thesis
    using request_connected [OF p assms(2,3) _ refl, of LOCAL_HANGUP AUTO None True] assms(1)
    by (cases "phase s") (auto simp: stop_call_def resolve_sip_termination_action_def final_response_status_def is_active_def)
qed

theorem hangup_sends_one_message_witness:
  "ended_with (SendFinalResponse ''a'' 486 []) LOCAL_HANGUP [] (sample_phone RINGING) (stop_call (sample_phone RINGING))"
  using hangup_sends_one_message [of "sample_phone RINGING"] by (simp add: is_active_def)

text \<open>
  C29: A call that has ended returns to IDLE once the transport has quiesced: through the queued
  end, within one pass over the queue; after the media-quiesced callback, within one pass and its
  own entry; and at once on the completion of the terminal transaction.
\<close>

theorem ended_call_returns_to_idle:
  assumes "call_state_is_terminating (phase s)" and "\<not> finish_blocked s"
  shows "(FinishTermination \<in> set (queue s) \<longrightarrow> (\<exists>n\<le>length (queue s). phase ((run_queue_head ^^ n) s) = IDLE)) \<and>
    (\<exists>n\<le>length (queue s) + 1. phase ((run_queue_head ^^ n) (fsm_step s MediaQuiesced)) = IDLE) \<and>
    (signal_type m = TERMINAL_COMPLETE \<longrightarrow> phase (fsm_step s (Signal m)) = IDLE)"
proof (intro conjI impI)
  show "\<exists>n\<le>length (queue s). phase ((run_queue_head ^^ n) s) = IDLE" if "FinishTermination \<in> set (queue s)"
    using assms that by (rule queue_reaches_idle)
  let ?q = "fsm_step s MediaQuiesced"
  have q: "?q = s\<lparr>queue := queue s @ [FinishTermination]\<rparr>"
    by (simp add: fsm_step_def transport_media_quiesced_callback_def defer_to_loop_def)
  show "\<exists>n\<le>length (queue s) + 1. phase ((run_queue_head ^^ n) ?q) = IDLE"
    using queue_reaches_idle [of ?q] assms by (simp add: q finish_blocked_def terminal_transaction_pending_def)
  show "phase (fsm_step s (Signal m)) = IDLE" if "signal_type m = TERMINAL_COMPLETE"
    using assms that by (simp add: fsm_step_def on_sip_signal_received_def finish_terminating finish_terminal_def)
qed

theorem ended_call_returns_to_idle_witness:
  "(\<exists>n\<le>1. phase ((run_queue_head ^^ n) (sample_phone BUSY)) = IDLE) \<and>
   phase (fsm_step (sample_phone BUSY) (Signal (sample_signal TERMINAL_COMPLETE 0 []))) = IDLE"
  using ended_call_returns_to_idle [of "sample_phone BUSY" "sample_signal TERMINAL_COMPLETE 0 []"]
  by (simp add: sample_signal_def)

text \<open>
  C35: In every run in which each INVITE carries a Call-ID, a phone without an active call has no
  Call-ID and no pending set-up.
\<close>

theorem no_identity_without_call:
  assumes "fsm_run s t" and "is_active s \<or> call_id (identity s) = [] \<and> \<not> setup_pending (incoming s)"
    and "\<not> is_active t"
  shows "call_id (identity t) = [] \<and> \<not> setup_pending (incoming t)"
  using fsm_run_idle_clean [OF assms(1)] assms(2,3) by (auto simp: idle_clean_def)

theorem no_identity_without_call_witness:
  "call_id (identity (fsm_step (sample_phone RINGING) Stop)) = [] \<and> \<not> setup_pending (incoming (fsm_step (sample_phone RINGING) Stop))"
  using no_identity_without_call [of "sample_phone RINGING" "fsm_step (sample_phone RINGING) Stop"]
    request_connected [of "sample_phone RINGING" LOCAL_HANGUP FINAL_RESPONSE AUTO None True]
    run_event [OF run_start, of Stop "sample_phone RINGING"]
  by (simp add: fsm_step_def stop_call_def is_active_def resolve_sip_termination_action_def ended_with_def)

text \<open>
  C25: Answering a ringing call prepares the media, changes the state, sends the 200 and commits
  the media in that order, and only then is the phone in the call; without prepared media (the 200
  has to ask for an answer) it waits in CONNECTING after the 200; every failure ends the call.
\<close>

theorem answering_is_ordered:
  assumes p: "phase s = RINGING" and c: "is_connected s" and i: "call_id (identity s) \<noteq> []"
    and r: "\<not> recent_terminal_call (call_id (identity s)) s"
  shows "let t = answer_call s;
             answer = SendAnswer (call_id (identity s)) (fmt_caller_to_dest (media s)) (fmt_dest_to_caller (media s)) in
     (phase t = IN_CALL \<and>
        logged [Command PrepareMediaPath True, StateChange RINGING CONNECTING, Command answer True,
                Command CommitMediaPath True, StateChange CONNECTING IN_CALL] s t) \<or>
     (phase t = CONNECTING \<and> media_answer_wait (incoming s) \<and>
        logged [StateChange RINGING CONNECTING, Command answer True] s t) \<or>
     phase t = TRANSPORT_UNREACHABLE \<or> phase t = TERMINATING"
proof -
  have tr: "transport s \<noteq> None" using c by (rule connected_transport)
  let ?p = "command PrepareMediaPath s"
  have lp: "logged [Command PrepareMediaPath (fst ?p)] s (snd ?p)"
    using logged_command [OF logged_refl tr] by simp
  have media: "media (snd ?p) = media s"
    by (auto simp: command_def emit_def split: option.split prod.split)
  show ?thesis
  proof (cases "media_answer_wait (incoming s)")
    case True
    then have "answer_call s = connect_incoming_answer True True s"
      using p c by (simp add: answer_call_def complete_incoming_answer_def)
    with connect_outcome [OF logged_refl p i tr r refl refl, of True] True show ?thesis by (auto simp: Let_def)
  next
    case False
    show ?thesis
    proof (cases "fst ?p")
      case ok: True
      have "answer_call s = connect_incoming_answer True False (snd ?p)"
        using p c False ok tr by (simp add: answer_call_def complete_incoming_answer_def fails_command)
      with connect_outcome [OF lp _ _ _ _ refl refl, of False] p i tr r ok recent_frame [of "snd ?p" s] media show ?thesis
        by (auto simp: Let_def)
    next
      case failed: False
      then show ?thesis
        using p c False tr by (simp add: answer_call_def complete_incoming_answer_def fails_command phase_request)
    qed
  qed
qed

theorem answering_is_ordered_witness:
  "let s = sample_phone RINGING; t = answer_call s;
       answer = SendAnswer (call_id (identity s)) (fmt_caller_to_dest (media s)) (fmt_dest_to_caller (media s)) in
     (phase t = IN_CALL \<and>
        logged [Command PrepareMediaPath True, StateChange RINGING CONNECTING, Command answer True,
                Command CommitMediaPath True, StateChange CONNECTING IN_CALL] s t) \<or>
     (phase t = CONNECTING \<and> media_answer_wait (incoming s) \<and>
        logged [StateChange RINGING CONNECTING, Command answer True] s t) \<or>
     phase t = TRANSPORT_UNREACHABLE \<or> phase t = TERMINATING"
  unfolding Let_def using answering_is_ordered [of "sample_phone RINGING"]
  by (simp add: Let_def recent_terminal_call_def)

text \<open>
  A call rings, here or there, exactly until its configured timeout (computed modulo 2^32):
  before it nothing happens, from it on the call ends with one 486 or CANCEL and the reason
  timeout.
\<close>

theorem unanswered_calls_time_out:
  assumes c: "is_connected s" and i: "call_id (identity s) \<noteq> []"
  shows "let s' = s\<lparr>clock := now, entropy := rnd\<rparr>; t = fsm_step s (Timeouts now rnd) in
     (phase s = RINGING \<and> 0 < ringing_timeout_ms (config s) \<longrightarrow>
        (if now - ringing_start_time s < ringing_timeout_ms (config s) then t = s'
         else ended_with (SendFinalResponse (call_id (identity s)) 486 ''timeout'') TIMEOUT_END ''timeout'' s' t)) \<and>
     (phase s = REMOTE_RINGING \<and> 0 < calling_timeout_ms (config s) \<longrightarrow>
        (if now - calling_start_time s < calling_timeout_ms (config s) then t = s'
         else ended_with (SendCancel (call_id (identity s))) TIMEOUT_END ''timeout'' s' t))"
proof -
  define s' where "s' = s\<lparr>clock := now, entropy := rnd\<rparr>"
  have c': "is_connected s'" "call_id (identity s') \<noteq> []" using c i by (simp_all add: s'_def is_connected_def)
  have f: "\<not> (TIMEOUT_END = MEDIA_INCOMPATIBLE_END \<and> ha_media_fallback_pending s')" by simp
  have t: "fsm_step s (Timeouts now rnd) = handle_call_timeouts s'" by (simp add: fsm_step_def s'_def)
  have e: "phase s' = phase s" "config s' = config s" "identity s' = identity s" "clock s' = now"
    "ringing_start_time s' = ringing_start_time s" "calling_start_time s' = calling_start_time s"
    by (simp_all add: s'_def)
  have r: "phase s = RINGING \<Longrightarrow> ended_with (SendFinalResponse (call_id (identity s)) 486 ''timeout'') TIMEOUT_END
       ''timeout'' s' (fire_timeout_decline s')"
    using request_connected [OF _ _ c' f refl, of FINAL_RESPONSE "Some kReasonTimeout" True]
    by (simp add: e fire_timeout_decline_def resolve_sip_termination_action_def final_response_status_def)
  have q: "phase s = REMOTE_RINGING \<Longrightarrow> ended_with (SendCancel (call_id (identity s))) TIMEOUT_END ''timeout'' s'
       (fire_timeout_decline s')"
    using request_connected [OF _ _ c' f refl, of CANCEL "Some kReasonTimeout" True]
    by (simp add: e fire_timeout_decline_def resolve_sip_termination_action_def)
  show ?thesis
    unfolding t s'_def [symmetric] Let_def using r q
    by (simp add: handle_call_timeouts_def e is_calling_def not_less Let_def)
qed

theorem unanswered_calls_time_out_witness:
  "ended_with (SendFinalResponse ''a'' 486 ''timeout'') TIMEOUT_END ''timeout'' (sample_phone RINGING\<lparr>clock := 30000, entropy := 1\<rparr>)
     (fsm_step (sample_phone RINGING) (Timeouts 30000 1))"
  using unanswered_calls_time_out [of "sample_phone RINGING" 1 30000] by (simp add: Let_def sample_config_def)

text \<open>
  An INVITE refused for do-not-disturb or for its formats is answered with 486 or 488 and the
  transport closed; a retransmission within 1500 ms gets the same response again, and nothing else
  happens.
\<close>

theorem refused_invite_is_replayed:
  assumes idle: "phase s = IDLE" and new: "response_call_id (response s) \<noteq> sig_call_id m" and id: "sig_call_id m \<noteq> []"
    and refused: "do_not_disturb (config s) \<or> offer_formats m s = None"
    and tr: "transport s \<noteq> None" "clock s \<noteq> 0" "tr \<noteq> None" "now - clock s \<le> 1500"
  shows "let reason = (if do_not_disturb (config s) then ''busy'' else ''media_incompatible'');
             final = SendFinalResponse (sig_call_id m) (if do_not_disturb (config s) then 486 else 488) reason;
             t = on_invite m s; u = on_invite m (t\<lparr>clock := now, transport := tr\<rparr>)
         in (\<exists>a b. log t = log s @ [Command final a, Command DisconnectTransport b]) \<and> phase t = IDLE \<and>
            (\<exists>c. log u = log t @ [Command final c]) \<and> phase u = IDLE \<and> response u = response t"
proof -
  let ?reason = "if do_not_disturb (config s) then ''busy'' else ''media_incompatible''"
  have t: "on_invite m s = refuse_invite (sig_call_id m) ?reason s"
    using idle new refused id by (auto simp: on_invite_def)
  show ?thesis
    using id tr idle unfolding t Let_def
    by (simp add: refuse_invite_def on_invite_def set_terminal_response_def response_age_def
      TERMINAL_RESPONSE_REPLAY_MS_def send_sip_final_response_def command_connected final_response_status_def)
qed

theorem refused_invite_is_replayed_witness:
  "let t = on_invite (sample_signal INVITE_SIGNAL 0 ''b'') (sample_phone IDLE) in phase t = IDLE \<and>
     (\<exists>c. log (on_invite (sample_signal INVITE_SIGNAL 0 ''b'') (t\<lparr>clock := 1000, transport := Some ()\<rparr>)) =
        log t @ [Command (SendFinalResponse ''b'' 486 ''busy'') c])"
  using refused_invite_is_replayed [of "sample_phone IDLE" "sample_signal INVITE_SIGNAL 0 ''b''" "Some ()" 1000]
  by (simp add: Let_def sample_signal_def sample_config_def)

text \<open>
  A signal of another dialog (BYE, CANCEL, 200, final responses, connected identity, media
  ready) leaves the phone exactly as it is.
\<close>

theorem stale_signals_ignored:
  assumes "sig_call_id m \<noteq> []" and "call_id (identity s) \<noteq> []" and "sig_call_id m \<noteq> call_id (identity s)"
    and "signal_type m \<notin> {INVITE_SIGNAL, STATUS_180_RINGING, TERMINAL_COMPLETE}"
  shows "on_sip_signal_received m s = s"
  using assms
  by (cases "signal_type m") (simp_all add: on_sip_signal_received_def on_media_ready_def on_connected_identity_def
      on_status_200_def on_final_response_def ignore_if_idle_or_stale_def)

theorem stale_signals_ignored_witness:
  "on_sip_signal_received (sample_signal BYE_SIGNAL 0 ''b'') (sample_phone IN_CALL) = sample_phone IN_CALL"
  by (rule stale_signals_ignored) (simp_all add: sample_signal_def sample_config_def)

text \<open>
  While that second attempt waits for its turn, a late BYE of the first dialog is not
  rejected: the cleared Call-ID disables the comparison, and the BYE ends the call.
\<close>

theorem late_bye_ends_fallback:
  assumes "signal_type m \<in> {MEDIA_INCOMPATIBLE_SIGNAL, FINAL_RESPONSE_SIGNAL}" "status_code m = 488"
    "sig_reason m \<noteq> ''busy''" "sig_reason m \<noteq> ''cancelled''" "sig_call_id m = call_id (identity s)"
    and "falls_back_to_ha MEDIA_INCOMPATIBLE_END s" and "signal_type b = BYE_SIGNAL" "sig_call_id b = sig_call_id m"
  shows "let t = on_sip_signal_received m s; u = on_sip_signal_received b t in
     phase t = CALLING \<and> ha_media_fallback_pending t \<and> phase u = TERMINATING \<and> \<not> ha_media_fallback_pending u"
  using fallback_taken [OF assms(1-6) refl] late_bye [OF assms(7), of "on_sip_signal_received m s"] by (simp add: Let_def)

theorem late_bye_ends_fallback_witness:
  "let t = on_sip_signal_received (sample_signal FINAL_RESPONSE_SIGNAL 488 ''a'') (sample_phone CALLING);
       u = on_sip_signal_received (sample_signal BYE_SIGNAL 0 ''a'') t in
     ha_media_fallback_pending t \<and> phase u = TERMINATING"
  using late_bye_ends_fallback [of "sample_signal FINAL_RESPONSE_SIGNAL 488 ''a''" "sample_phone CALLING"
      "sample_signal BYE_SIGNAL 0 ''a''"] sample_falls_back
  by (simp add: Let_def sample_signal_def sample_config_def)

end
