(* ===== verification/SipText.thy ===== *)
theory SipText
  imports Prelude
begin

text \<open>
  The text of SIP messages, from \<open>sip_message.cpp\<close>: URIs, display names and quoting, header
  lookup, numbers, message bodies and their length. A position found by \<open>find\<close> and \<open>npos\<close>
  are \<open>Some\<close> and \<open>None\<close>; a function that returns \<open>false\<close> and leaves its output alone
  returns \<open>None\<close>. \<open>inet_aton\<close> and \<open>inet_ntoa_r\<close> of lwIP are arguments.
\<close>

section \<open>Trimming and splitting\<close>

definition trim_space :: "char \<Rightarrow> bool" where
  "trim_space c \<longleftrightarrow> c = CHR '' '' \<or> c = TAB \<or> c = CR \<or> c = LF"

definition trim_copy :: "string \<Rightarrow> string" where
  "trim_copy s = rev (dropWhile trim_space (rev (dropWhile trim_space s)))"

text \<open>The pieces between separators, the loop of the list and parameter parsers.\<close>

function split_on :: "char \<Rightarrow> string \<Rightarrow> string list" where
  "split_on d s =
     (case find_char d s of None \<Rightarrow> [s] | Some i \<Rightarrow> take i s # split_on d (drop (Suc i) s))"
  by pat_completeness auto
termination
  by (relation "measure (\<lambda>(d, s). length s)") (auto simp: find_char_def dest: index_of_SomeD)

declare split_on.simps [simp del]

section \<open>URI users\<close>

definition is_sip_uri_unreserved :: "char \<Rightarrow> bool" where
  "is_sip_uri_unreserved c \<longleftrightarrow>
     is_alnum c \<or> c = CHR ''-'' \<or> c = CHR ''.'' \<or> c = CHR ''_'' \<or> c = CHR ''~''"

definition hex_value :: "char \<Rightarrow> byte" where
  "hex_value c =
     (if is_digit c then of_nat (code c - 48)
      else if 65 \<le> code c \<and> code c \<le> 70 then of_nat (code c - 65 + 10)
      else if 97 \<le> code c \<and> code c \<le> 102 then of_nat (code c - 97 + 10)
      else 0xFF)"

definition hex_digit :: "nat \<Rightarrow> char" where
  "hex_digit n = ''0123456789ABCDEF'' ! n"

definition encode_char :: "char \<Rightarrow> string" where
  "encode_char c =
     (if c = CR \<or> c = LF then []
      else if is_sip_uri_unreserved c then [c]
      else [CHR ''%'', hex_digit (code c div 16), hex_digit (code c mod 16)])"

definition sip_uri_user_encode :: "string \<Rightarrow> string" where
  "sip_uri_user_encode raw =
     (let out = concat (map encode_char raw) in if out = [] then ''voip'' else out)"

definition VOIP_STACK_MAX_REASON_LEN :: nat where
  "VOIP_STACK_MAX_REASON_LEN = 160"

definition token_char :: "char \<Rightarrow> bool" where
  "token_char c \<longleftrightarrow> c \<noteq> CR \<and> c \<noteq> LF \<and>
     (is_alnum c \<or> c = CHR ''_'' \<or> c = CHR ''-'' \<or> c = CHR ''.'' \<or> c = CHR '' '')"

fun take_token :: "nat \<Rightarrow> string \<Rightarrow> string" where
  "take_token n [] = []"
| "take_token n (c # cs) =
     (if token_char c then (if n \<le> 1 then [c] else c # take_token (n - 1) cs) else take_token n cs)"

definition sip_header_token :: "string \<Rightarrow> nat \<Rightarrow> string" where
  "sip_header_token raw max_bytes = trim_copy (take_token max_bytes raw)"

definition escaped_octet :: "char \<Rightarrow> string \<Rightarrow> char option" where
  "escaped_octet c rest =
     (if c = CHR ''%'' \<and> 2 \<le> length rest \<and> hex_value (rest ! 0) \<noteq> 0xFF \<and> hex_value (rest ! 1) \<noteq> 0xFF
      then Some (char_of (unat (push_bit 4 (hex_value (rest ! 0)) OR hex_value (rest ! 1))))
      else None)"

fun uri_unescape :: "string \<Rightarrow> string" where
  "uri_unescape [] = []"
| "uri_unescape (c # cs) =
     (if c = CR \<or> c = LF then uri_unescape cs
      else case escaped_octet c cs of
             Some x \<Rightarrow> x # uri_unescape (drop 2 cs)
           | None \<Rightarrow> c # uri_unescape cs)"

definition sip_uri_user_decode :: "string \<Rightarrow> string" where
  "sip_uri_user_decode raw = sip_header_token (uri_unescape raw) VOIP_STACK_MAX_REASON_LEN"

section \<open>Headers\<close>

definition compact_name :: "string \<Rightarrow> string option" where
  "compact_name canonical =
     (if canonical = ''via'' then Some ''v'' else if canonical = ''from'' then Some ''f''
      else if canonical = ''to'' then Some ''t'' else if canonical = ''call-id'' then Some ''i''
      else if canonical = ''contact'' then Some ''m'' else if canonical = ''content-type'' then Some ''c''
      else if canonical = ''content-length'' then Some ''l'' else None)"

text \<open>The lines before the first empty one.\<close>

definition header_lines :: "string \<Rightarrow> string list" where
  "header_lines msg = takeWhile (\<lambda>l. l \<noteq> []) (crlf_lines msg)"

definition starts_with_header :: "string \<Rightarrow> string \<Rightarrow> bool" where
  "starts_with_header candidate line \<longleftrightarrow>
     candidate \<noteq> [] \<and> length candidate \<le> length line \<and> lower (take (length candidate) line) = lower candidate"

fun first_header :: "string \<Rightarrow> string \<Rightarrow> string list \<Rightarrow> string" where
  "first_header needle compact [] = []"
| "first_header needle compact (l # ls) =
     (if starts_with_header needle l then trim_copy (drop (length needle) l)
      else if starts_with_header compact l then trim_copy (drop (length compact) l)
      else first_header needle compact ls)"

definition header_value :: "string \<Rightarrow> string \<Rightarrow> string" where
  "header_value msg name =
     (let canonical = lower name in
      first_header (canonical @ '':'')
        (case compact_name canonical of None \<Rightarrow> [] | Some c \<Rightarrow> c @ '':'') (header_lines msg))"

definition header_key :: "string \<Rightarrow> (string \<times> string) option" where
  "header_key l = map_option (\<lambda>i. (take i l, drop (Suc i) l)) (find_char (CHR '':'') l)"

fun join_headers :: "string \<Rightarrow> string option \<Rightarrow> string \<Rightarrow> string list \<Rightarrow> string" where
  "join_headers canonical compact out [] = out"
| "join_headers canonical compact out (l # ls) =
     join_headers canonical compact
       (case header_key l of
          None \<Rightarrow> out
        | Some (k, v) \<Rightarrow>
            if lower (trim_copy k) = canonical \<or> compact = Some (lower (trim_copy k))
            then (if out = [] then [] else out @ CRLF @ ''Via: '') @ trim_copy v
            else out) ls"

definition header_values :: "string \<Rightarrow> string \<Rightarrow> string" where
  "header_values msg name =
     (let canonical = lower name in
      join_headers canonical (if canonical = ''via'' then Some ''v'' else None) [] (header_lines msg))"

section \<open>Numbers and bodies\<close>

text \<open>The loop over the digits; the tests keep the sum and the product within \<open>max_value\<close>.\<close>

fun decimal_loop :: "u32 \<Rightarrow> u32 \<Rightarrow> string \<Rightarrow> u32 option" where
  "decimal_loop max_value parsed [] = Some parsed"
| "decimal_loop max_value parsed (c # cs) =
     (let digit = (of_nat (code c - 48) :: u32) in
      if \<not> is_digit c then None
      else if digit > max_value \<or> parsed > (max_value - digit) div 10 then None
      else decimal_loop max_value (parsed * 10 + digit) cs)"

definition parse_decimal_u32 :: "string \<Rightarrow> u32 \<Rightarrow> u32 option" where
  "parse_decimal_u32 raw max_value =
     (let v = trim_copy raw in if v = [] then None else decimal_loop max_value 0 v)"

definition time_reached :: "u32 \<Rightarrow> u32 \<Rightarrow> bool" where
  "time_reached now deadline \<longleftrightarrow> sint (now - deadline) \<ge> 0"

abbreviation HEADER_END :: string where "HEADER_END \<equiv> [CR, LF, CR, LF]"

definition MAX_SIP_BODY_BYTES :: u32 where "MAX_SIP_BODY_BYTES = 4096"
definition MAX_SIP_TCP_RX_BUFFER :: nat where "MAX_SIP_TCP_RX_BUFFER = 8192"

definition message_body :: "string \<Rightarrow> string" where
  "message_body msg =
     (case find_sub HEADER_END msg of
        None \<Rightarrow> []
      | Some sep \<Rightarrow>
          let body = drop (sep + 4) msg; declared_text = header_value msg ''Content-Length'' in
          if declared_text = [] then body
          else case parse_decimal_u32 declared_text MAX_SIP_BODY_BYTES of
                 None \<Rightarrow> []
               | Some declared \<Rightarrow> if unat declared > length body then [] else take (unat declared) body)"

fun length_loop :: "nat \<Rightarrow> string \<Rightarrow> nat option" where
  "length_loop parsed [] = Some parsed"
| "length_loop parsed (c # cs) =
     (let digit = code c - 48 in
      if \<not> is_digit c then None
      else if parsed > (MAX_SIP_TCP_RX_BUFFER - digit) div 10 then None
      else length_loop (parsed * 10 + digit) cs)"

text \<open>The lines of the header; \<open>seen\<close> is the length found so far.\<close>

fun length_lines :: "nat option \<Rightarrow> string list \<Rightarrow> nat option" where
  "length_lines seen [] = Some (case seen of None \<Rightarrow> 0 | Some n \<Rightarrow> n)"
| "length_lines seen (l # ls) =
     (case header_key l of
        None \<Rightarrow> length_lines seen ls
      | Some (k, v) \<Rightarrow>
          if trim_copy (lower k) = ''content-length'' \<or> trim_copy (lower k) = ''l''
          then (if seen \<noteq> None \<or> trim_copy v = [] then None
                else case length_loop 0 (trim_copy v) of
                       None \<Rightarrow> None
                     | Some n \<Rightarrow> length_lines (Some n) ls)
          else length_lines seen ls)"

definition sip_content_length :: "string \<Rightarrow> nat option" where
  "sip_content_length msg =
     length_lines None
       (crlf_lines (case find_sub HEADER_END msg of None \<Rightarrow> msg | Some sep \<Rightarrow> take sep msg))"

section \<open>Names and addresses\<close>

definition control_char :: "char \<Rightarrow> bool" where
  "control_char c \<longleftrightarrow> code c < 0x20 \<or> code c = 0x7F"

definition sip_route_id :: "string \<Rightarrow> nat \<Rightarrow> string" where
  "sip_route_id raw max_bytes =
     (let r = trim_copy raw in
      if r = [] \<or> length r > max_bytes \<or>
         list_ex (\<lambda>c. control_char c \<or> c = CHR ''<'' \<or> c = CHR ''>'' \<or> c = CHR ''@'' \<or> c = DQUOTE \<or>
                      c = BACKSLASH) r
      then [] else r)"

definition quote_char :: "char \<Rightarrow> string" where
  "quote_char c =
     (if c = CR \<or> c = LF then [] else if c = DQUOTE \<or> c = BACKSLASH then [BACKSLASH, c] else [c])"

definition sip_quoted :: "string \<Rightarrow> string" where
  "sip_quoted raw = DQUOTE # concat (map quote_char raw) @ [DQUOTE]"

definition name_addr_uri :: "string \<Rightarrow> string" where
  "name_addr_uri v =
     (let out = trim_copy v in
      if find_first_of CRLF out \<noteq> None then []
      else case find_char (CHR ''<'') out of
             None \<Rightarrow>
               let start = (case find_char (CHR ''@'') out of None \<Rightarrow> 0 | Some i \<Rightarrow> i)
               in if find_char (CHR ''>'') out = None \<and> find_char_from (CHR '','') out start = None then out else []
           | Some left \<Rightarrow>
               (case find_char (CHR ''>'') out of
                  None \<Rightarrow> []
                | Some right \<Rightarrow>
                    if right \<le> left + 1 \<or> find_char_from (CHR ''<'') out (left + 1) \<noteq> None \<or>
                       find_char_from (CHR ''>'') out (right + 1) \<noteq> None then []
                    else
                      let suffix = trim_copy (drop (right + 1) out) in
                      if suffix \<noteq> [] \<and> hd suffix \<noteq> CHR '';'' then []
                      else trim_copy (substr out (left + 1) (right - left - 1))))"

definition strip_angle_uri :: "string \<Rightarrow> string" where
  "strip_angle_uri v =
     (let out = name_addr_uri v;
          cut = (case find_sub '';tag='' (lower out) of None \<Rightarrow> out | Some i \<Rightarrow> take i out)
      in if \<not> starts_with ''sip:'' (lower cut) \<or> find_first_of CRLF cut \<noteq> None then [] else cut)"

definition sip_name_addr :: "string \<Rightarrow> string \<Rightarrow> string" where
  "sip_name_addr uri display_name =
     (let clean = strip_angle_uri uri; display = trim_copy display_name in
      if clean = [] then []
      else if display = [] then ''<'' @ clean @ ''>''
      else if list_ex control_char display then []
      else sip_quoted display @ '' <'' @ clean @ ''>'')"

text \<open>The text of a quoted string up to its closing quote, \<open>None\<close> without one.\<close>

fun scan_quoted :: "bool \<Rightarrow> string \<Rightarrow> string option" where
  "scan_quoted escaped [] = None"
| "scan_quoted True (c # cs) = map_option ((#) c) (scan_quoted False cs)"
| "scan_quoted False (c # cs) =
     (if c = BACKSLASH then scan_quoted True cs
      else if c = DQUOTE then Some []
      else map_option ((#) c) (scan_quoted False cs))"

definition sip_display_name_from_header :: "string \<Rightarrow> nat \<Rightarrow> string" where
  "sip_display_name_from_header v max_bytes =
     (case find_char (CHR ''<'') v of
        None \<Rightarrow> []
      | Some left \<Rightarrow>
          let prefix = trim_copy (take left v);
              found = (if prefix = [] then None
                       else if hd prefix = DQUOTE then scan_quoted False (tl prefix) else Some prefix)
          in case found of
               None \<Rightarrow> []
             | Some raw \<Rightarrow>
                 let display = trim_copy raw in
                 if display = [] \<or> length display > max_bytes \<or> list_ex control_char display then [] else display)"

text \<open>As above, but a missing closing quote ends the text at the end of the string.\<close>

fun scan_reason :: "bool \<Rightarrow> string \<Rightarrow> string" where
  "scan_reason escaped [] = []"
| "scan_reason True (c # cs) = c # scan_reason False cs"
| "scan_reason False (c # cs) =
     (if c = BACKSLASH then scan_reason True cs
      else if c = DQUOTE then []
      else c # scan_reason False cs)"

definition reason_text_from_header :: "string \<Rightarrow> string" where
  "reason_text_from_header v =
     (case find_sub ''text='' v of
        None \<Rightarrow> []
      | Some key \<Rightarrow>
          let rest = drop (key + 5) v in
          if rest = [] then []
          else if hd rest \<noteq> DQUOTE then sip_header_token rest VOIP_STACK_MAX_REASON_LEN
          else sip_header_token (scan_reason False (tl rest)) VOIP_STACK_MAX_REASON_LEN)"

definition tag_parameter :: "string \<Rightarrow> string option" where
  "tag_parameter piece =
     (let p = trim_copy piece in
      case find_char (CHR ''='') p of
        None \<Rightarrow> None
      | Some i \<Rightarrow>
          if lower (trim_copy (take i p)) = ''tag''
          then (let tag = trim_copy (drop (Suc i) p) in
                Some (case index_of trim_space tag of None \<Rightarrow> tag | Some n \<Rightarrow> take n tag))
          else None)"

fun first_tag :: "string list \<Rightarrow> string" where
  "first_tag [] = []"
| "first_tag (p # ps) = (case tag_parameter p of Some t \<Rightarrow> t | None \<Rightarrow> first_tag ps)"

definition tag_from_header :: "string \<Rightarrow> string" where
  "tag_from_header v =
     (let start = (case find_char (CHR ''>'') v of None \<Rightarrow> 0 | Some right \<Rightarrow> right + 1)
      in first_tag (tl (split_on (CHR '';'') (drop start v))))"

definition via_branch :: "string \<Rightarrow> string" where
  "via_branch via =
     (case find_sub '';branch='' (lower via) of
        None \<Rightarrow> []
      | Some marker \<Rightarrow>
          let rest = drop (marker + 8) via in
          (case find_first_of [CHR '';'', CHR '' '', TAB, CR, LF] rest of None \<Rightarrow> rest | Some n \<Rightarrow> take n rest))"

section \<open>Start lines and numbers of a dialog\<close>

text \<open>\<open>make_token\<close>: a prefix, a random word and the time, in a buffer of 40 bytes.\<close>

definition hex8 :: "u32 \<Rightarrow> string" where
  "hex8 w = map (\<lambda>i. ''0123456789abcdef'' ! unat (drop_bit (4 * (7 - i)) w AND 15)) [0..<8]"

definition make_token :: "string \<Rightarrow> u32 \<Rightarrow> u32 \<Rightarrow> string" where
  "make_token prefix random now = take 39 (prefix @ hex8 random @ hex8 now)"


definition sip_option_supported :: "string \<Rightarrow> string \<Rightarrow> bool" where
  "sip_option_supported msg option_name \<longleftrightarrow>
     option_name \<noteq> [] \<and>
     list_ex (\<lambda>l. case header_key l of
                    None \<Rightarrow> False
                  | Some (k, v) \<Rightarrow>
                      (lower (trim_copy k) = ''supported'' \<or> lower (trim_copy k) = ''k'') \<and>
                      list_ex (\<lambda>t. lower (trim_copy t) = lower option_name) (split_on (CHR '','') v))
       (header_lines msg)"

definition sip_request_uri :: "string \<Rightarrow> string" where
  "sip_request_uri msg =
     (case find_char (CHR '' '') msg of
        None \<Rightarrow> []
      | Some first_space \<Rightarrow>
          (case find_char_from (CHR '' '') msg (first_space + 1) of
             None \<Rightarrow> []
           | Some second_space \<Rightarrow>
               if second_space \<le> first_space + 1 then []
               else if (case find_sub CRLF msg of None \<Rightarrow> False | Some line_end \<Rightarrow> second_space > line_end) then []
               else strip_angle_uri (substr msg (first_space + 1) (second_space - first_space - 1))))"

definition cseq_method :: "string \<Rightarrow> string" where
  "cseq_method cseq =
     (let t = trim_copy cseq in
      case find_last_of [CHR '' '', TAB] t of
        None \<Rightarrow> []
      | Some i \<Rightarrow> if i + 1 \<ge> length t then [] else trim_copy (drop (i + 1) t))"

definition cseq_number :: "string \<Rightarrow> u32" where
  "cseq_number cseq =
     (let t = trim_copy cseq;
          number = (case find_first_of [CHR '' '', TAB] t of None \<Rightarrow> t | Some i \<Rightarrow> take i t)
      in case decimal_loop (- 1) 0 number of None \<Rightarrow> 0 | Some n \<Rightarrow> n)"

definition sip_method_known :: "string \<Rightarrow> bool" where
  "sip_method_known m \<longleftrightarrow>
     m \<in> {''INVITE'', ''ACK'', ''CANCEL'', ''BYE'', ''OPTIONS'', ''REGISTER'', ''UPDATE''}"

definition sip_failure_reason :: "int \<Rightarrow> string" where
  "sip_failure_reason status =
     (if status = 401 then ''auth_required_unsupported''
      else if status = 407 then ''proxy_auth_required_unsupported''
      else if status = 486 then ''busy''
      else if status = 487 then ''cancelled''
      else if status = 488 then ''media_incompatible''
      else if status = 603 then ''declined''
      else ''sip_'' @ (if status < 0 then ''-'' @ dec (nat (- status)) else dec (nat status)))"

definition sip_uri_ipv4_target :: "(string \<Rightarrow> u32 option) \<Rightarrow> string \<Rightarrow> (u32 \<times> u16) option" where
  "sip_uri_ipv4_target inet_aton v =
     (let uri = strip_angle_uri v in
      if uri = [] then None
      else
        let rest = drop 4 uri;
            no_params = (case find_char (CHR '';'') rest of None \<Rightarrow> rest | Some i \<Rightarrow> take i rest);
            host = (case rfind_char (CHR ''@'') no_params of None \<Rightarrow> no_params | Some i \<Rightarrow> drop (i + 1) no_params);
            authority = trim_copy host
        in if authority = [] then None
           else
             let split = (case rfind_char (CHR '':'') authority of
                            None \<Rightarrow> Some (authority, 5060)
                          | Some i \<Rightarrow>
                              (case parse_decimal_u32 (drop (i + 1) authority) 65535 of
                                 None \<Rightarrow> None
                               | Some p \<Rightarrow> if p = 0 then None else Some (take i authority, ucast p :: u16)))
             in case split of
                  None \<Rightarrow> None
                | Some (name, port) \<Rightarrow>
                    if name = [] then None
                    else case inet_aton name of
                           None \<Rightarrow> None
                         | Some ip \<Rightarrow> if ip = 0 then None else Some (ip, port))"

definition sip_user_from_header :: "string \<Rightarrow> string" where
  "sip_user_from_header v =
     (let bare = (let u = trim_copy v in case find_char (CHR '';'') u of None \<Rightarrow> u | Some i \<Rightarrow> take i u);
          uri = trim_copy
            (case find_char (CHR ''<'') v of
               None \<Rightarrow> bare
             | Some left \<Rightarrow>
                 (case find_char_from (CHR ''>'') v (left + 1) of
                    None \<Rightarrow> bare
                  | Some right \<Rightarrow> if right > left + 1 then substr v (left + 1) (right - left - 1) else bare));
          user = (if 4 \<le> length uri \<and> lower (take 3 uri) = ''sip'' \<and> uri ! 3 = CHR '':'' then drop 4 uri else uri)
      in case find_char (CHR ''@'') user of
           None \<Rightarrow> []
         | Some at \<Rightarrow> if at = 0 then [] else sip_uri_user_decode (take at user))"

text \<open>The Via of a response: \<open>received\<close> and \<open>rport\<close> of the top Via are replaced.\<close>

definition via_key :: "string \<Rightarrow> string" where
  "via_key part =
     lower (trim_copy (case find_char (CHR ''='') part of None \<Rightarrow> part | Some i \<Rightarrow> take i part))"

definition kept_via_part :: "string \<Rightarrow> string" where
  "kept_via_part piece =
     (let part = trim_copy piece in
      if part \<noteq> [] \<and> via_key part \<noteq> ''rport'' \<and> via_key part \<noteq> ''received'' then '';'' @ part else [])"

definition response_via_with_rport :: "(u32 \<Rightarrow> string) \<Rightarrow> string \<Rightarrow> u32 \<Rightarrow> u16 \<Rightarrow> string" where
  "response_via_with_rport inet_ntoa via source_ip source_port =
     (let (top_via, tail) =
            (case find_sub (CRLF @ ''Via: '') via of None \<Rightarrow> (via, []) | Some i \<Rightarrow> (take i via, drop i via));
          stamp = '';received='' @ inet_ntoa source_ip @ '';rport='' @ dec (unat source_port)
      in if \<not> has_sub ''rport'' (lower top_via) then top_via @ tail
         else case find_char (CHR '';'') top_via of
                None \<Rightarrow> top_via @ stamp @ tail
              | Some i \<Rightarrow>
                  take i top_via @
                  concat (map kept_via_part (split_on (CHR '';'') (drop (i + 1) top_via))) @ stamp @ tail)"

end
