(* ===== verification/SdpLines.thy ===== *)
theory SdpLines
  imports SipText AudioFormat
begin

text \<open>
  The lines of a session description and the samples of an RTP packet, from \<open>sip_message.cpp\<close>:
  media lines, \<open>rtpmap\<close>, \<open>fmtp\<close>, RTCP attributes, and the byte order of linear audio. The
  table \<open>bool payload_types[128]\<close> that a media line fills is the list of the payload types it
  sets, in the order of the line.
\<close>

text \<open>The blanks of \<open>find_first_of(" \t")\<close> and \<open>find_first_not_of(" \t")\<close>.\<close>

definition blank :: "char \<Rightarrow> bool" where
  "blank c \<longleftrightarrow> c = CHR '' '' \<or> c = TAB"

section \<open>Media lines\<close>

text \<open>The payload types after the protocol; \<open>rest\<close> starts at one of them.\<close>

function payload_list :: "string \<Rightarrow> nat list option" where
  "payload_list rest =
     (case index_of blank rest of
        None \<Rightarrow> map_option (\<lambda>pt. [unat pt]) (parse_decimal_u32 rest 127)
      | Some end_pos \<Rightarrow>
          (case parse_decimal_u32 (take end_pos rest) 127 of
             None \<Rightarrow> None
           | Some pt \<Rightarrow>
               (case dropWhile blank (drop end_pos rest) of
                  [] \<Rightarrow> Some [unat pt]
                | c # cs \<Rightarrow> map_option ((#) (unat pt)) (payload_list (c # cs)))))"
  by pat_completeness auto
termination
proof (relation "measure length")
  fix rest end_pos pt c cs
  assume i: "index_of blank rest = Some end_pos"
    and d: "dropWhile blank (drop end_pos rest) = c # cs"
  from i have h: "end_pos < length rest" "blank (rest ! end_pos)" by (auto dest: index_of_SomeD)
  then have "drop end_pos rest = rest ! end_pos # drop (Suc end_pos) rest" by (simp add: Cons_nth_drop_Suc)
  then have "c # cs = dropWhile blank (drop (Suc end_pos) rest)" using d h(2) by simp
  then have "length (c # cs) \<le> length (drop (Suc end_pos) rest)" by (metis length_dropWhile_le)
  then show "(c # cs, rest) \<in> measure length" using h(1) by simp
qed simp

declare payload_list.simps [simp del]

text \<open>The port, the protocol and the rest of the line, the common part of both media lines.\<close>

definition media_fields :: "string \<Rightarrow> string \<Rightarrow> (string \<times> string) option" where
  "media_fields prefix line =
     (if \<not> starts_with prefix line then None
      else
        let media = trim_copy (drop (length prefix) line) in
        case index_of blank media of
          None \<Rightarrow> None
        | Some port_end \<Rightarrow>
            (case index_from (\<lambda>c. \<not> blank c) media port_end of
               None \<Rightarrow> None
             | Some protocol_start \<Rightarrow>
                 (case index_from blank media protocol_start of
                    None \<Rightarrow> None
                  | Some protocol_end \<Rightarrow>
                      if substr media protocol_start (protocol_end - protocol_start) \<noteq> ''RTP/AVP'' then None
                      else Some (take port_end media, drop protocol_end media))))"

definition parse_audio_media_line :: "string \<Rightarrow> (u16 \<times> nat list) option" where
  "parse_audio_media_line line =
     (case media_fields ''m=audio '' line of
        None \<Rightarrow> None
      | Some (port_text, tail) \<Rightarrow>
          (case parse_decimal_u32 port_text 65535 of
             None \<Rightarrow> None
           | Some p \<Rightarrow>
               if p = 0 then None
               else case dropWhile blank tail of
                      [] \<Rightarrow> None
                    | c # cs \<Rightarrow> map_option (\<lambda>pts. (ucast p, pts)) (payload_list (c # cs))))"

text \<open>The video line keeps the order of the payload types, of which it takes at most 128.\<close>

definition parse_video_media_line :: "string \<Rightarrow> (u16 \<times> nat list) option" where
  "parse_video_media_line line =
     (case media_fields ''m=video '' line of
        None \<Rightarrow> None
      | Some (port_text, tail) \<Rightarrow>
          (case parse_decimal_u32 port_text 65535 of
             None \<Rightarrow> None
           | Some p \<Rightarrow>
               (case dropWhile blank tail of
                  [] \<Rightarrow> None
                | c # cs \<Rightarrow>
                    (case payload_list (c # cs) of
                       None \<Rightarrow> None
                     | Some pts \<Rightarrow> if length pts > 128 then None else Some (ucast p, pts)))))"

section \<open>Attributes\<close>

definition rtpmap_candidate :: "string \<Rightarrow> u32 \<Rightarrow> u32 \<Rightarrow> audio_format option" where
  "rtpmap_candidate enc rate chans =
     (let c = default_audio_format\<lparr>frame_ms := 20\<rparr>;
          candidate =
            (if enc = ''L16'' \<or> enc = ''l16''
             then Some (c\<lparr>sample_rate := rate, channels := ucast chans, pcm_format := S16LE\<rparr>)
             else if enc = ''L24'' \<or> enc = ''l24''
             then Some (c\<lparr>sample_rate := rate, channels := ucast chans, pcm_format := S24LE\<rparr>)
             else if enc = ''opus'' \<or> enc = ''OPUS''
             then (if rate \<noteq> 48000 \<or> chans \<noteq> 2 then None
                   else Some (c\<lparr>sample_rate := 48000, channels := 1, pcm_format := S16LE, codec := OPUS\<rparr>))
             else None)
      in case candidate of None \<Rightarrow> None | Some f \<Rightarrow> if format_valid f then Some f else None)"

definition parse_rtpmap_format :: "string \<Rightarrow> (byte \<times> audio_format) option" where
  "parse_rtpmap_format line =
     (case find_char (CHR '':'') line of
        None \<Rightarrow> None
      | Some colon \<Rightarrow>
          (case find_char_from (CHR '' '') line (colon + 1) of
             None \<Rightarrow> None
           | Some space \<Rightarrow>
               (case parse_decimal_u32 (substr line (colon + 1) (space - colon - 1)) 127 of
                  None \<Rightarrow> None
                | Some pt \<Rightarrow>
                    let spec = trim_copy (drop (space + 1) line) in
                    case find_char (CHR ''/'') spec of
                      None \<Rightarrow> None
                    | Some slash1 \<Rightarrow>
                        let slash2 = find_char_from (CHR ''/'') spec (slash1 + 1);
                            rate_text = (case slash2 of None \<Rightarrow> drop (slash1 + 1) spec
                                         | Some s2 \<Rightarrow> substr spec (slash1 + 1) (s2 - slash1 - 1));
                            chans = (case slash2 of None \<Rightarrow> Some 1
                                     | Some s2 \<Rightarrow> parse_decimal_u32 (drop (s2 + 1) spec) 255)
                        in case parse_decimal_u32 rate_text (- 1) of
                             None \<Rightarrow> None
                           | Some rate \<Rightarrow>
                               (case chans of
                                  None \<Rightarrow> None
                                | Some n \<Rightarrow>
                                    map_option (\<lambda>f. (ucast pt, f)) (rtpmap_candidate (take slash1 spec) rate n)))))"

definition parse_video_rtpmap :: "string \<Rightarrow> (byte \<times> string) option" where
  "parse_video_rtpmap line =
     (if \<not> starts_with ''a=rtpmap:'' line then None
      else case find_char_from (CHR '' '') line 9 of
             None \<Rightarrow> None
           | Some space \<Rightarrow>
               map_option (\<lambda>pt. (ucast pt, upper (trim_copy (drop (space + 1) line))))
                 (parse_decimal_u32 (substr line 9 (space - 9)) 127))"

text \<open>The tables \<open>pli\<close> and \<open>fir\<close> of the payload types, updated at the offered ones.\<close>

definition parse_video_rtcp_feedback ::
    "string \<Rightarrow> (nat \<Rightarrow> bool) \<Rightarrow> (nat \<Rightarrow> bool) \<times> (nat \<Rightarrow> bool) \<Rightarrow> ((nat \<Rightarrow> bool) \<times> (nat \<Rightarrow> bool)) option" where
  "parse_video_rtcp_feedback line payloads flags =
     (if \<not> starts_with ''a=rtcp-fb:'' line then None
      else case find_char_from (CHR '' '') line 10 of
             None \<Rightarrow> None
           | Some space \<Rightarrow>
               let selector = trim_copy (substr line 10 (space - 10));
                   wildcard = (selector = ''*'');
                   parsed = (if wildcard then Some 0 else parse_decimal_u32 selector 127);
                   feedback = lower (trim_copy (drop (space + 1) line));
                   is_pli = (feedback = ''nack pli'');
                   is_fir = (feedback = ''ccm fir'')
               in case parsed of
                    None \<Rightarrow> None
                  | Some pt \<Rightarrow>
                      if \<not> is_pli \<and> \<not> is_fir then None
                      else
                        let hit = (\<lambda>n. n < 128 \<and> (wildcard \<or> n = unat pt) \<and> payloads n) in
                        Some (\<lambda>n. fst flags n \<or> is_pli \<and> hit n, \<lambda>n. snd flags n \<or> is_fir \<and> hit n))"

definition parse_rtcp_attribute :: "(string \<Rightarrow> u32 option) \<Rightarrow> string \<Rightarrow> (u16 \<times> u32 option) option" where
  "parse_rtcp_attribute inet_aton line =
     (if \<not> starts_with ''a=rtcp:'' line then None
      else
        let v = trim_copy (drop 7 line);
            port_text = (case index_of blank v of None \<Rightarrow> v | Some i \<Rightarrow> take i v);
            tail = (case index_of blank v of None \<Rightarrow> []
                    | Some i \<Rightarrow> dropWhile blank (drop i v))
        in case parse_decimal_u32 port_text 65535 of
             None \<Rightarrow> None
           | Some p \<Rightarrow>
               if p = 0 then None
               else if tail = [] then Some (ucast p, None)
               else if \<not> starts_with ''IN IP4 '' tail then None
               else case inet_aton (drop 7 tail) of
                      None \<Rightarrow> None
                    | Some ip \<Rightarrow> if ip = 0 then None else Some (ucast p, Some ip))"

fun fmtp_find :: "string \<Rightarrow> string list \<Rightarrow> string" where
  "fmtp_find wanted [] = []"
| "fmtp_find wanted (piece # ps) =
     (let item = trim_copy piece in
      case find_char (CHR ''='') item of
        None \<Rightarrow> fmtp_find wanted ps
      | Some i \<Rightarrow> if lower (trim_copy (take i item)) = wanted then trim_copy (drop (Suc i) item)
                  else fmtp_find wanted ps)"

text \<open>The payload type is set even when the parameter is not there.\<close>

definition fmtp_parameter :: "string \<Rightarrow> string \<Rightarrow> byte option \<times> string" where
  "fmtp_parameter line param_name =
     (if \<not> starts_with ''a=fmtp:'' line then (None, [])
      else case find_char_from (CHR '' '') line 7 of
             None \<Rightarrow> (None, [])
           | Some space \<Rightarrow>
               (case parse_decimal_u32 (substr line 7 (space - 7)) 127 of
                  None \<Rightarrow> (None, [])
                | Some pt \<Rightarrow> (Some (ucast pt), fmtp_find (lower param_name) (split_on (CHR '';'') (drop (space + 1) line)))))"

section \<open>Linear audio in RTP packets\<close>

fun swap16 :: "bytes \<Rightarrow> bytes" where
  "swap16 (a # b # r) = b # a # swap16 r"
| "swap16 _ = []"

fun swap24 :: "bytes \<Rightarrow> bytes" where
  "swap24 (a # b # c # r) = c # b # a # swap24 r"
| "swap24 _ = []"

fun pack24 :: "bytes \<Rightarrow> bytes" where
  "pack24 (a # b # c # d # r) = c # b # a # pack24 r"
| "pack24 _ = []"

fun unpack24 :: "bytes \<Rightarrow> bytes" where
  "unpack24 (a # b # c # r) = c # b # a # (if a AND 0x80 \<noteq> 0 then 0xFF else 0) # unpack24 r"
| "unpack24 _ = []"

text \<open>The bytes written to the destination, none when the function returns 0.\<close>

definition pcm_to_rtp_payload :: "bytes \<Rightarrow> pcm_format \<Rightarrow> nat \<Rightarrow> bytes" where
  "pcm_to_rtp_payload pcm fmt dst_cap =
     (let n = length pcm in
      if n = 0 then []
      else case fmt of
             S16LE \<Rightarrow> if n mod 2 \<noteq> 0 \<or> n > dst_cap then [] else swap16 pcm
           | S24LE \<Rightarrow> if n mod 3 \<noteq> 0 \<or> n > dst_cap then [] else swap24 pcm
           | S24LE_IN_S32 \<Rightarrow> if n mod 4 \<noteq> 0 \<or> n div 4 * 3 > dst_cap then [] else pack24 pcm
           | _ \<Rightarrow> [])"

definition rtp_payload_to_pcm :: "bytes \<Rightarrow> pcm_format \<Rightarrow> nat \<Rightarrow> bytes" where
  "rtp_payload_to_pcm payload fmt pcm_cap =
     (let n = length payload in
      if n = 0 then []
      else case fmt of
             S16LE \<Rightarrow> if n mod 2 \<noteq> 0 \<or> n > pcm_cap then [] else swap16 payload
           | S24LE \<Rightarrow> if n mod 3 \<noteq> 0 \<or> n > pcm_cap then [] else swap24 payload
           | S24LE_IN_S32 \<Rightarrow> if n mod 3 \<noteq> 0 \<or> n div 3 * 4 > pcm_cap then [] else unpack24 payload
           | _ \<Rightarrow> [])"

end
