(* ===== verification/VideoFormat.thy ===== *)
theory VideoFormat
  imports SipText
begin

text \<open>
  What two endpoints agree on for video, from \<open>video.h\<close> and \<open>video_rtp.cpp\<close>: the
  capability record, the frame cadence limiter, H.264 profiles and levels, and the search for
  the SPS in an Annex-B access unit. A build has one codec backend or none: the preprocessor
  symbols are the datatype \<open>video_backend\<close>.
\<close>

section \<open>Capabilities\<close>

datatype video_backend = NoVideo | JpegBackend | H264Backend

datatype video_codec = JPEG | H264

record video_capability =
  video_payload_type :: byte
  clock_rate :: u32
  width :: u16
  height :: u16
  max_fps :: byte
  packetization_mode :: byte
  level_asymmetry_allowed :: bool
  max_bitrate_bps :: u32
  rtcp_feedback_pli :: bool
  rtcp_feedback_fir :: bool
  encoding :: string
  profile_level_id :: string

definition no_capability :: video_capability where
  "no_capability =
     \<lparr>video_payload_type = 0, clock_rate = 90000, width = 0, height = 0, max_fps = 0, packetization_mode = 0,
      level_asymmetry_allowed = False, max_bitrate_bps = 0, rtcp_feedback_pli = False, rtcp_feedback_fir = False,
      encoding = [], profile_level_id = []\<rparr>"

definition is_h264 :: "video_capability \<Rightarrow> bool" where
  "is_h264 c \<longleftrightarrow> encoding c = ''H264''"

definition is_jpeg :: "video_capability \<Rightarrow> bool" where
  "is_jpeg c \<longleftrightarrow> encoding c = ''JPEG''"

definition capability_valid :: "video_backend \<Rightarrow> video_capability \<Rightarrow> bool" where
  "capability_valid b c \<longleftrightarrow>
     (if video_payload_type c > 127 \<or> clock_rate c \<noteq> 90000 \<or> width c = 0 \<or> height c = 0 \<or> max_fps c = 0 then False
      else if b = JpegBackend \<and> is_jpeg c then video_payload_type c = 26
      else if b = H264Backend \<and> is_h264 c
           then video_payload_type c \<ge> 96 \<and> packetization_mode c = 1 \<and> length (profile_level_id c) = 6
      else False)"

text \<open>
  \<open>local_video_send_capability_\<close> and \<open>local_video_receive_capability_\<close> are the same
  function of what the source or the sink reports, \<open>None\<close> when there is none.
\<close>

definition local_video_capability :: "video_codec \<Rightarrow> byte \<Rightarrow> video_capability option \<Rightarrow> video_capability" where
  "local_video_capability configured offer_pt device =
     (case device of
        None \<Rightarrow> no_capability
      | Some c \<Rightarrow>
          if configured = JPEG \<and> \<not> is_jpeg c \<or> configured = H264 \<and> \<not> is_h264 c then no_capability
          else c\<lparr>video_payload_type := (if is_jpeg c then 26 else offer_pt),
                 packetization_mode := (if is_h264 c then 1 else 0),
                 rtcp_feedback_pli := is_h264 c, rtcp_feedback_fir := is_h264 c, clock_rate := 90000\<rparr>)"

definition min_bitrate :: "u32 \<Rightarrow> u32 \<Rightarrow> u32" where
  "min_bitrate own limit = (if limit \<noteq> 0 \<and> (own = 0 \<or> limit < own) then limit else own)"

definition local_video_direction_capability ::
    "video_backend \<Rightarrow> video_capability \<Rightarrow> video_capability \<Rightarrow> video_capability" where
  "local_video_direction_capability b c negotiated =
     (if \<not> capability_valid b c \<or> encoding c \<noteq> encoding negotiated \<or> \<not> capability_valid b negotiated then no_capability
      else c\<lparr>video_payload_type := video_payload_type negotiated, clock_rate := clock_rate negotiated,
             packetization_mode := packetization_mode negotiated,
             level_asymmetry_allowed := level_asymmetry_allowed negotiated,
             rtcp_feedback_pli := rtcp_feedback_pli c \<and> rtcp_feedback_pli negotiated,
             rtcp_feedback_fir := rtcp_feedback_fir c \<and> rtcp_feedback_fir negotiated,
             max_bitrate_bps := min_bitrate (max_bitrate_bps c) (max_bitrate_bps negotiated),
             max_fps := min (max_fps c) (max_fps negotiated)\<rparr>)"

section \<open>The cadence limiter\<close>

record cadence =
  interval :: u32
  last_time :: u32
  credit :: u32
  seen :: bool

definition new_cadence :: cadence where
  "new_cadence = \<lparr>interval = 9000, last_time = 0, credit = 0, seen = False\<rparr>"

definition cadence_reset :: "cadence \<Rightarrow> byte \<Rightarrow> cadence" where
  "cadence_reset c frames_per_second =
     (let fps = (if frames_per_second = 0 then 1 else ucast frames_per_second :: u32) in
      c\<lparr>interval := (90000 + fps - 1) div fps, seen := False, credit := 0\<rparr>)"

definition cadence_accept :: "cadence \<Rightarrow> u32 \<Rightarrow> bool \<times> cadence" where
  "cadence_accept c timestamp =
     (if \<not> seen c then (True, c\<lparr>seen := True, last_time := timestamp\<rparr>)
      else
        let elapsed = timestamp - last_time c;
            c = c\<lparr>last_time := timestamp\<rparr>;
            k = (if elapsed \<ge> interval c * 2 then interval c
                 else if elapsed \<ge> 0xFFFFFFFF - credit c then 0xFFFFFFFF else credit c + elapsed)
        in if k < interval c then (False, c\<lparr>credit := k\<rparr>)
           else (True, c\<lparr>credit := k - interval c\<rparr>))"

section \<open>H.264 profiles and levels\<close>

definition hex_nibble :: "char \<Rightarrow> byte" where
  "hex_nibble c =
     (if is_digit c then of_nat (code c - 48)
      else if 97 \<le> code c \<and> code c \<le> 102 then of_nat (code c - 97 + 10)
      else if 65 \<le> code c \<and> code c \<le> 70 then of_nat (code c - 65 + 10)
      else 0xFF)"

definition hex_octet :: "char \<Rightarrow> char \<Rightarrow> byte option" where
  "hex_octet hi lo =
     (if hex_nibble hi = 0xFF \<or> hex_nibble lo = 0xFF then None
      else Some (push_bit 4 (hex_nibble hi) OR hex_nibble lo))"

definition parse_profile_level_id :: "string \<Rightarrow> (byte \<times> byte \<times> byte) option" where
  "parse_profile_level_id v =
     (case v of
        [a, b, c, d, e, f] \<Rightarrow>
          (case (hex_octet a b, hex_octet c d, hex_octet e f) of
             (Some profile, Some iop, Some level) \<Rightarrow> Some (profile, iop, level)
           | _ \<Rightarrow> None)
      | _ \<Rightarrow> None)"

definition h264_level_value :: "byte \<Rightarrow> byte \<Rightarrow> byte \<Rightarrow> nat" where
  "h264_level_value profile iop level =
     (let level_1b =
            ((profile = 0x42 \<or> profile = 0x4D \<or> profile = 0x58) \<and> level = 11 \<and> iop AND 0x10 \<noteq> 0) \<or>
            ((profile \<noteq> 0x42 \<and> profile \<noteq> 0x4D \<and> profile \<noteq> 0x58) \<and> level = 9)
      in if level_1b then 105 else unat level * 10)"

definition h264_same_subprofile :: "string \<Rightarrow> string \<Rightarrow> bool" where
  "h264_same_subprofile left right \<longleftrightarrow>
     (case (parse_profile_level_id left, parse_profile_level_id right) of
        (Some (lp, li, ll), Some (rp, ri, rl)) \<Rightarrow>
          if lp \<noteq> 0x42 \<or> rp \<noteq> 0x42 then False else (li AND 0x40 \<noteq> 0) = (ri AND 0x40 \<noteq> 0)
      | _ \<Rightarrow> False)"

definition h264_level_fits :: "string \<Rightarrow> string \<Rightarrow> bool" where
  "h264_level_fits source receiver \<longleftrightarrow>
     h264_same_subprofile source receiver \<and>
     (case (parse_profile_level_id source, parse_profile_level_id receiver) of
        (Some (sp, si, sl), Some (rp, ri, rl)) \<Rightarrow> h264_level_value sp si sl \<le> h264_level_value rp ri rl
      | _ \<Rightarrow> False)"

section \<open>Annex-B access units\<close>

text \<open>The distance to the next start code that has a byte after its three-byte form.\<close>

fun start_code :: "bytes \<Rightarrow> nat option" where
  "start_code (a # b # c # d # r) =
     (if a = 0 \<and> b = 0 \<and> (c = 1 \<or> c = 0 \<and> d = 1) then Some 0
      else map_option Suc (start_code (b # c # d # r)))"
| "start_code _ = None"

definition strip_zeros :: "bytes \<Rightarrow> bytes" where
  "strip_zeros nal = rev (dropWhile (\<lambda>b. b = 0) (rev nal))"

text \<open>The next NAL unit, and the cursor after it. The suffix at the cursor is the argument.\<close>

definition next_annex_b_nal :: "bytes \<Rightarrow> (bytes \<times> bytes) option" where
  "next_annex_b_nal data =
     (case start_code data of
        None \<Rightarrow> None
      | Some start \<Rightarrow>
          let prefix = (if data ! (start + 2) = 1 then 3 else 4);
              payload = drop (start + prefix) data;
              nal = strip_zeros (case start_code payload of None \<Rightarrow> payload | Some n \<Rightarrow> take n payload)
          in if nal = [] then None else Some (nal, drop (length nal) payload))"

lemma start_code_bound: "start_code d = Some n \<Longrightarrow> n + 3 < length d"
  by (induction d arbitrary: n rule: start_code.induct) (auto split: if_splits)

lemma next_annex_b_nal_shorter: "next_annex_b_nal d = Some (nal, r) \<Longrightarrow> length r < length d"
  by (auto simp: next_annex_b_nal_def Let_def split: option.splits if_splits dest: start_code_bound)

definition hex2 :: "byte \<Rightarrow> string" where
  "hex2 b = [''0123456789abcdef'' ! (unat b div 16), ''0123456789abcdef'' ! (unat b mod 16)]"

function h264_profile_level_id_from_annex_b :: "bytes \<Rightarrow> string option" where
  "h264_profile_level_id_from_annex_b data =
     (case next_annex_b_nal data of
        None \<Rightarrow> None
      | Some (nal, rest) \<Rightarrow>
          if length nal \<ge> 4 \<and> hd nal AND 0x1F = 7
          then Some (hex2 (nal ! 1) @ hex2 (nal ! 2) @ hex2 (nal ! 3))
          else h264_profile_level_id_from_annex_b rest)"
  by pat_completeness auto
termination
  by (relation "measure length") (auto dest: next_annex_b_nal_shorter)

declare h264_profile_level_id_from_annex_b.simps [simp del]

end
