(* ===== verification/RtpPayloads.thy ===== *)
theory RtpPayloads
  imports AudioFormat
begin

text \<open>
  The payload types of one offer/answer exchange (\<open>RtpAudioPayloads\<close> in
  \<open>rtp_audio_payloads.h\<close>) and the receive converter that is prepared for them
  (\<open>PcmReceiveConverter\<close> in \<open>pcm_receive_converter.h\<close>). The table (an array of eight entries
  and a count) is the list of its first \<open>count\<close> entries. The resampler itself is the external
  \<open>esp_audio_libs\<close>: whether a converter can be allocated and initialised is a parameter.
\<close>

section \<open>The payload table\<close>

record payload_entry =
  entry_format :: audio_format
  payload_type :: byte

type_synonym payloads = "payload_entry list"

definition pcm_receive_conversion_supported :: "audio_format \<Rightarrow> audio_format \<Rightarrow> bool" where
  "pcm_receive_conversion_supported source target \<longleftrightarrow>
     source = target \<or>
     (codec source = PCM \<and> codec target = PCM \<and> pcm_format source = S16LE \<and>
      pcm_format target = S16LE \<and> channels source = channels target \<and>
      frame_ms source = frame_ms target \<and> sample_rate source \<le> sample_rate target)"

fun payload_find :: "payloads \<Rightarrow> byte \<Rightarrow> audio_format option" where
  "payload_find [] pt = None"
| "payload_find (e # es) pt = (if payload_type e = pt then Some (entry_format e) else payload_find es pt)"

definition payload_add :: "payloads \<Rightarrow> byte \<Rightarrow> audio_format \<Rightarrow> bool \<times> payloads" where
  "payload_add ps pt f =
     (if pt > 127 \<or> \<not> format_valid f then (False, ps)
      else case payload_find ps pt of
             Some g \<Rightarrow> (g = f, ps)
           | None \<Rightarrow> if length ps = MAX_AUDIO_FORMATS then (False, ps)
                     else (True, ps @ [\<lparr>entry_format = f, payload_type = pt\<rparr>]))"

fun pcm_only_from :: "payloads \<Rightarrow> payloads \<Rightarrow> payloads" where
  "pcm_only_from acc [] = acc"
| "pcm_only_from acc (e # es) =
     (if codec (entry_format e) = PCM
      then pcm_only_from (snd (payload_add acc (payload_type e) (entry_format e))) es
      else pcm_only_from acc es)"

definition pcm_only :: "payloads \<Rightarrow> payloads" where
  "pcm_only ps = pcm_only_from [] ps"

definition payloads_equal :: "payloads \<Rightarrow> payloads \<Rightarrow> bool" where
  "payloads_equal ps qs \<longleftrightarrow>
     length ps = length qs \<and>
     list_all (\<lambda>e. payload_find qs (payload_type e) = Some (entry_format e)) ps"

subsection \<open>Invariant\<close>

definition payloads_inv :: "payloads \<Rightarrow> bool" where
  "payloads_inv ps \<longleftrightarrow>
     length ps \<le> MAX_AUDIO_FORMATS \<and> distinct (map payload_type ps) \<and>
     (\<forall>e\<in>set ps. payload_type e \<le> 127 \<and> format_valid (entry_format e))"

lemma payload_find_map_of:
  "payload_find ps pt = map_of (map (\<lambda>e. (payload_type e, entry_format e)) ps) pt"
  by (induction ps) auto

lemma payload_find_None_iff: "payload_find ps pt = None \<longleftrightarrow> pt \<notin> payload_type ` set ps"
  by (induction ps) auto

lemma payload_find_SomeD:
  "payload_find ps pt = Some f \<Longrightarrow> \<exists>e\<in>set ps. payload_type e = pt \<and> entry_format e = f"
  by (induction ps) (auto split: if_splits)

lemma payload_find_in:
  "distinct (map payload_type ps) \<Longrightarrow> e \<in> set ps \<Longrightarrow> payload_find ps (payload_type e) = Some (entry_format e)"
  by (induction ps) auto

lemma payload_find_snoc:
  "payload_find (ps @ [e]) pt =
     (case payload_find ps pt of Some f \<Rightarrow> Some f
      | None \<Rightarrow> if payload_type e = pt then Some (entry_format e) else None)"
  by (induction ps) auto

lemma payload_add_inv: "payloads_inv ps \<Longrightarrow> payloads_inv (snd (payload_add ps pt f))"
  by (auto simp: payload_add_def payloads_inv_def payload_find_None_iff not_less split: option.splits)

lemma payload_add_find:
  assumes "fst (payload_add ps pt f)"
  shows "payload_find (snd (payload_add ps pt f)) = (payload_find ps)(pt \<mapsto> f)"
  using assms by (auto simp: payload_add_def payload_find_snoc fun_eq_iff split: option.splits if_splits)

lemma payload_add_False: "\<not> fst (payload_add ps pt f) \<Longrightarrow> snd (payload_add ps pt f) = ps"
  by (auto simp: payload_add_def split: option.splits if_splits)

lemma payload_add_ok_iff:
  assumes "payloads_inv ps"
  shows "fst (payload_add ps pt f) \<longleftrightarrow> pt \<le> 127 \<and> format_valid f \<and>
    (payload_find ps pt = Some f \<or> (payload_find ps pt = None \<and> length ps < MAX_AUDIO_FORMATS))"
  using assms by (auto simp: payload_add_def payloads_inv_def not_less split: option.splits)

interpretation payload_table: invariant_machine "\<lambda>ps (pt, f). snd (payload_add ps pt f)" payloads_inv
  by unfold_locales (auto intro: payload_add_inv)

subsection \<open>Equality as tables\<close>

text \<open>
  The comparison looks up only one side's entries. With equal lengths and no repeated payload
  type that is enough: the tables are then equal as maps, whatever the order of the entries.
\<close>

lemma dom_payload_find: "dom (payload_find ps) = payload_type ` set ps"
  using payload_find_None_iff [of ps] by (auto simp: dom_def)

lemma card_dom_payload_find:
  "distinct (map payload_type ps) \<Longrightarrow> card (dom (payload_find ps)) = length ps"
  by (metis distinct_card dom_payload_find length_map set_map)

lemma payloads_equal_maps:
  assumes "payloads_inv ps" and "payloads_inv qs"
  shows "payloads_equal ps qs \<longleftrightarrow> payload_find ps = payload_find qs"
proof
  have d: "distinct (map payload_type ps)" "distinct (map payload_type qs)"
    using assms by (auto simp: payloads_inv_def)
  assume eq: "payloads_equal ps qs"
  then have len: "length ps = length qs"
    and all: "\<forall>e\<in>set ps. payload_find qs (payload_type e) = Some (entry_format e)"
    by (auto simp: payloads_equal_def list_all_iff)
  have sub: "dom (payload_find ps) \<subseteq> dom (payload_find qs)"
    using all by (auto simp: dom_payload_find [of ps])
  moreover have "card (dom (payload_find ps)) = card (dom (payload_find qs))"
    using d len by (simp add: card_dom_payload_find)
  moreover have "finite (dom (payload_find qs))" by (simp add: dom_payload_find)
  ultimately have dom: "dom (payload_find ps) = dom (payload_find qs)"
    by (metis card_subset_eq)
  show "payload_find ps = payload_find qs"
  proof (rule ext)
    fix pt
    show "payload_find ps pt = payload_find qs pt"
    proof (cases "payload_find ps pt")
      case None
      with dom show ?thesis by (metis domIff)
    next
      case (Some f)
      with all show ?thesis by (auto dest: payload_find_SomeD)
    qed
  qed
next
  have d: "distinct (map payload_type ps)" "distinct (map payload_type qs)"
    using assms by (auto simp: payloads_inv_def)
  assume eq: "payload_find ps = payload_find qs"
  have "length ps = length qs"
    using card_dom_payload_find [OF d(1)] card_dom_payload_find [OF d(2)] eq by simp
  moreover have "list_all (\<lambda>e. payload_find qs (payload_type e) = Some (entry_format e)) ps"
    using payload_find_in [OF d(1)] eq by (auto simp: list_all_iff)
  ultimately show "payloads_equal ps qs" by (simp add: payloads_equal_def)
qed

subsection \<open>The PCM part\<close>

lemma payload_add_new:
  "pt \<le> 127 \<Longrightarrow> format_valid f \<Longrightarrow> payload_find ps pt = None \<Longrightarrow> length ps < MAX_AUDIO_FORMATS \<Longrightarrow>
   payload_add ps pt f = (True, ps @ [\<lparr>entry_format = f, payload_type = pt\<rparr>])"
  by (auto simp: payload_add_def not_less)

lemma pcm_only_from_filter:
  assumes "payloads_inv (acc @ es)"
  shows "pcm_only_from acc es = acc @ filter (\<lambda>e. codec (entry_format e) = PCM) es"
  using assms
proof (induction es arbitrary: acc)
  case Nil
  then show ?case by simp
next
  case (Cons e es)
  show ?case
  proof (cases "codec (entry_format e) = PCM")
    case True
    have "payload_add acc (payload_type e) (entry_format e) = (True, acc @ [e])"
      using Cons.prems by (subst payload_add_new) (auto simp: payloads_inv_def payload_find_None_iff)
    with True Cons.IH [of "acc @ [e]"] Cons.prems show ?thesis by simp
  next
    case False
    with Cons.IH [of acc] Cons.prems show ?thesis by (auto simp: payloads_inv_def)
  qed
qed

lemma pcm_only_filter: "payloads_inv ps \<Longrightarrow> pcm_only ps = filter (\<lambda>e. codec (entry_format e) = PCM) ps"
  using pcm_only_from_filter [of "[]" ps] by (simp add: pcm_only_def)

section \<open>The receive converter\<close>

text \<open>
  The converter table: the source formats with a converter ready, and the target format.
  \<open>make_ok\<close> says whether the external resampler for a source and a target format could be
  allocated and initialised. A failed addition drops the converters it had added.
\<close>

record rx_converter =
  conv_entries :: "audio_format list"
  conv_target :: audio_format

fun prepare_entries ::
    "(audio_format \<Rightarrow> audio_format \<Rightarrow> bool) \<Rightarrow> audio_format \<Rightarrow> audio_format list \<Rightarrow> payloads \<Rightarrow>
     audio_format list option" where
  "prepare_entries make_ok target added [] = Some added"
| "prepare_entries make_ok target added (e # es) =
     (let source = entry_format e in
      if source = target then prepare_entries make_ok target added es
      else if \<not> pcm_receive_conversion_supported source target then None
      else if list_ex (\<lambda>f. f = source) added then prepare_entries make_ok target added es
      else if length added = MAX_AUDIO_FORMATS then None
      else if \<not> make_ok source target then None
      else prepare_entries make_ok target (added @ [source]) es)"

definition prepare_additional ::
    "(audio_format \<Rightarrow> audio_format \<Rightarrow> bool) \<Rightarrow> rx_converter \<Rightarrow> payloads \<Rightarrow> audio_format \<Rightarrow>
     bool \<times> rx_converter" where
  "prepare_additional make_ok c ps target =
     (if target \<noteq> conv_target c then (False, c)
      else case prepare_entries make_ok target (conv_entries c) ps of
             None \<Rightarrow> (False, c)
           | Some es \<Rightarrow> (True, c\<lparr>conv_entries := es\<rparr>))"

definition prepare ::
    "(audio_format \<Rightarrow> audio_format \<Rightarrow> bool) \<Rightarrow> rx_converter \<Rightarrow> payloads \<Rightarrow> audio_format \<Rightarrow>
     bool \<times> rx_converter" where
  "prepare make_ok c ps target =
     prepare_additional make_ok (c\<lparr>conv_entries := [], conv_target := target\<rparr>) ps target"

definition converter_ready :: "rx_converter \<Rightarrow> audio_format \<Rightarrow> bool" where
  "converter_ready c f \<longleftrightarrow> f = conv_target c \<or> f \<in> set (conv_entries c)"

definition converter_inv :: "rx_converter \<Rightarrow> bool" where
  "converter_inv c \<longleftrightarrow>
     length (conv_entries c) \<le> MAX_AUDIO_FORMATS \<and> distinct (conv_entries c) \<and>
     (\<forall>f\<in>set (conv_entries c). f \<noteq> conv_target c \<and> pcm_receive_conversion_supported f (conv_target c))"

lemma prepare_entries_sound:
  assumes "prepare_entries make_ok target added ps = Some es"
    and "length added \<le> MAX_AUDIO_FORMATS" and "distinct added"
    and "\<forall>f\<in>set added. f \<noteq> target \<and> pcm_receive_conversion_supported f target"
  shows "(\<exists>new. es = added @ new) \<and> length es \<le> MAX_AUDIO_FORMATS \<and> distinct es \<and>
    (\<forall>f\<in>set es. f \<noteq> target \<and> pcm_receive_conversion_supported f target) \<and>
    (\<forall>e\<in>set ps. entry_format e = target \<or> entry_format e \<in> set es)"
  using assms
proof (induction make_ok target added ps rule: prepare_entries.induct)
  case (1 make_ok target added)
  then show ?case by simp
next
  case (2 make_ok target added e ps)
  let ?s = "entry_format e"
  consider "?s = target" | "?s \<noteq> target" "?s \<in> set added" | "?s \<noteq> target" "?s \<notin> set added" by blast
  then show ?case
  proof cases
    case 1
    with "2.IH"(1) "2.prems" show ?thesis by simp
  next
    case 2
    with "2.IH"(2) "2.prems" show ?thesis by (auto simp: Let_def list_ex_iff split: if_splits)
  next
    case 3
    with "2.prems"(1) have c: "pcm_receive_conversion_supported ?s target"
      and l: "length added \<noteq> MAX_AUDIO_FORMATS" and m: "make_ok ?s target"
      and r: "prepare_entries make_ok target (added @ [?s]) ps = Some es"
      by (auto simp: Let_def list_ex_iff split: if_splits)
    have "(\<exists>new. es = (added @ [?s]) @ new) \<and> length es \<le> MAX_AUDIO_FORMATS \<and> distinct es \<and>
      (\<forall>f\<in>set es. f \<noteq> target \<and> pcm_receive_conversion_supported f target) \<and>
      (\<forall>e\<in>set ps. entry_format e = target \<or> entry_format e \<in> set es)"
      using "2.IH"(3) [OF refl] 3 c l m r "2.prems"(2-4) by (auto simp: list_ex_iff)
    then show ?thesis by auto
  qed
qed

lemma prepare_additional_spec:
  assumes "converter_inv c" and "prepare_additional make_ok c ps target = (ok, c')"
  shows "converter_inv c' \<and> (\<forall>f. converter_ready c f \<longrightarrow> converter_ready c' f) \<and>
    conv_target c' = conv_target c \<and>
    (if ok then target = conv_target c \<and> (\<forall>e\<in>set ps. converter_ready c' (entry_format e)) else c' = c)"
proof (cases "target = conv_target c \<and> prepare_entries make_ok target (conv_entries c) ps \<noteq> None")
  case False
  with assms(2) have "\<not> ok" and "c' = c"
    by (simp_all add: prepare_additional_def split: option.splits if_splits)
  with assms(1) show ?thesis by simp
next
  case True
  then obtain es where es: "prepare_entries make_ok target (conv_entries c) ps = Some es" by blast
  have t: "target = conv_target c" using True by simp
  have res: "ok" "c' = c\<lparr>conv_entries := es\<rparr>"
    using assms(2) es t by (simp_all add: prepare_additional_def)
  have inv: "length (conv_entries c) \<le> MAX_AUDIO_FORMATS" "distinct (conv_entries c)"
      "\<forall>f\<in>set (conv_entries c). f \<noteq> conv_target c \<and> pcm_receive_conversion_supported f (conv_target c)"
    using assms(1) unfolding converter_inv_def by blast+
  note snd = prepare_entries_sound [OF es inv(1,2) inv(3) [folded t]]
  have ce: "conv_entries c' = es" "conv_target c' = conv_target c" by (simp_all add: res)
  have "converter_inv c'" using snd unfolding converter_inv_def ce t by blast
  moreover have "\<forall>f. converter_ready c f \<longrightarrow> converter_ready c' f"
    using snd unfolding converter_ready_def ce by (metis in_set_conv_decomp append_assoc append_Cons)
  moreover have "\<forall>e\<in>set ps. converter_ready c' (entry_format e)"
    using snd unfolding converter_ready_def ce t by blast
  ultimately show ?thesis using res(1) ce(2) t by simp
qed

section \<open>Properties\<close>

text \<open>
  The negotiated payload table behaves as a finite map from payload types to formats. Every
  run of additions keeps it within eight entries, one per payload type, all with a payload type
  of at most 127 and a valid format; an addition that is accepted is exactly a map update, one
  that is refused changes nothing, and it is accepted exactly when the type and format are valid
  and the type is either free (with room left) or already bound to the same format.
\<close>

theorem payload_table_is_map:
  "payloads_inv (foldl (\<lambda>ps (pt, f). snd (payload_add ps pt f)) [] adds) \<and>
   (\<forall>ps pt f. payloads_inv ps \<longrightarrow>
      (fst (payload_add ps pt f) \<longleftrightarrow> pt \<le> 127 \<and> format_valid f \<and>
         (payload_find ps pt = Some f \<or> (payload_find ps pt = None \<and> length ps < MAX_AUDIO_FORMATS))) \<and>
      payload_find (snd (payload_add ps pt f)) =
        (if fst (payload_add ps pt f) then (payload_find ps)(pt \<mapsto> f) else payload_find ps))"
proof -
  have "payloads_inv []" by (simp add: payloads_inv_def)
  then show ?thesis
    using payload_table.run_inv [of "[]" adds] payload_add_ok_iff payload_add_find payload_add_False
    by auto
qed

theorem payload_table_is_map_witness:
  "payload_find (snd (payload_add [] 96 default_audio_format)) 96 = Some default_audio_format"
proof -
  have v: "format_valid default_audio_format"
    by (simp add: format_valid_def Let_def default_audio_format_def valid_rate_def)
  have "payloads_inv []" by (simp add: payloads_inv_def)
  then have "fst (payload_add [] 96 default_audio_format) \<and>
      payload_find (snd (payload_add [] 96 default_audio_format)) =
        (payload_find [])(96 \<mapsto> default_audio_format)"
    using payload_table_is_map [of "[]"] v by (auto simp: MAX_AUDIO_FORMATS_def)
  then show ?thesis by simp
qed

text \<open>
  The one-sided comparison of two negotiated tables decides equality of the tables as maps,
  and the PCM restriction keeps exactly the PCM entries, in order, within the same invariant.
\<close>

theorem payload_tables_compared_as_maps:
  assumes "payloads_inv ps" and "payloads_inv qs"
  shows "(payloads_equal ps qs \<longleftrightarrow> payload_find ps = payload_find qs) \<and>
    pcm_only ps = filter (\<lambda>e. codec (entry_format e) = PCM) ps"
  using assms payloads_equal_maps pcm_only_filter by blast

theorem payload_tables_compared_as_maps_witness:
  "\<exists>ps qs. payload_find ps = payload_find qs \<and> ps \<noteq> qs \<and> payloads_equal ps qs"
proof -
  define a where "a = \<lparr>entry_format = default_audio_format, payload_type = 96\<rparr>"
  define b where "b = \<lparr>entry_format = default_audio_format\<lparr>channels := 2\<rparr>, payload_type = 97\<rparr>"
  have inv: "payloads_inv [a, b]" "payloads_inv [b, a]"
    by (simp_all add: payloads_inv_def a_def b_def MAX_AUDIO_FORMATS_def format_valid_def Let_def
      default_audio_format_def valid_rate_def)
  have eq: "payload_find [a, b] = payload_find [b, a]"
    by (auto simp: a_def b_def fun_eq_iff)
  have ne: "[a, b] \<noteq> [b, a]" by (simp add: a_def b_def)
  from payload_tables_compared_as_maps [OF inv] eq ne show ?thesis by blast
qed

text \<open>
  Preparing receive converters for another offer is all or nothing. A preparation that fails
  leaves the converter as it was; one that succeeds keeps every converter that was ready (the
  playout task goes on using them) and makes every format of the new table playable.
\<close>

theorem converter_addition_is_atomic:
  assumes "converter_inv c" and "prepare_additional make_ok c ps target = (ok, c')"
  shows "converter_inv c' \<and> (\<forall>f. converter_ready c f \<longrightarrow> converter_ready c' f) \<and>
    (ok \<longrightarrow> (\<forall>e\<in>set ps. converter_ready c' (entry_format e))) \<and> (\<not> ok \<longrightarrow> c' = c)"
  using prepare_additional_spec [OF assms] by (auto split: if_splits)

theorem converter_addition_is_atomic_witness:
  "\<exists>make_ok c ps c'. prepare_additional make_ok c ps (conv_target c) = (True, c') \<and>
     converter_inv c \<and> converter_inv c' \<and> c' \<noteq> c"
proof -
  define t where "t = default_audio_format\<lparr>sample_rate := 48000, frame_ms := 20\<rparr>"
  define src where "src = default_audio_format\<lparr>frame_ms := 20\<rparr>"
  define c where "c = \<lparr>conv_entries = [], conv_target = t\<rparr>"
  have inv: "converter_inv c" by (simp add: converter_inv_def c_def)
  have ok: "prepare_additional (\<lambda>_ _. True) c [\<lparr>entry_format = src, payload_type = 97\<rparr>] (conv_target c) =
      (True, c\<lparr>conv_entries := [src]\<rparr>)"
    by (simp add: prepare_additional_def c_def t_def src_def default_audio_format_def
      pcm_receive_conversion_supported_def MAX_AUDIO_FORMATS_def Let_def)
  have "c\<lparr>conv_entries := [src]\<rparr> \<noteq> c" by (simp add: c_def)
  with inv ok converter_addition_is_atomic [OF inv ok] show ?thesis by blast
qed

end
