(* ===== verification/Sdp.thy ===== *)
theory Sdp
  imports SdpLines VideoFormat RtpPayloads
begin

text \<open>
  The session descriptions this endpoint writes, from \<open>sip_sdp.cpp\<close>: the offer, the answer,
  and the memory of the remote media lines the answer has to mirror. The record holds the
  members of \<open>SipTransport\<close> these functions read and write; the preprocessor symbols of a
  build are fields of \<open>build\<close>. The local address that \<open>local_ip_for_peer_\<close> asks the socket
  layer for is an argument.
\<close>

section \<open>State\<close>

record build =
  has_speaker :: bool
  has_opus :: bool
  video_backend :: video_backend

text \<open>\<open>RemoteMediaShape\<close>: the media lines of an offer in one buffer, with their offsets.\<close>

record media_shape =
  shape_lines :: string
  shape_offsets :: "u16 list"
  shape_count :: nat
  audio_index :: "nat option"
  video_index :: "nat option"
  shape_overflow :: bool

definition MAX_SDP_MEDIA_LINES :: nat where
  "MAX_SDP_MEDIA_LINES = 8"

definition new_media_shape :: media_shape where
  "new_media_shape =
     \<lparr>shape_lines = [], shape_offsets = replicate (MAX_SDP_MEDIA_LINES + 1) 0, shape_count = 0,
      audio_index = None, video_index = None, shape_overflow = False\<rparr>"

definition shape_clear :: "media_shape \<Rightarrow> media_shape" where
  "shape_clear sh =
     sh\<lparr>shape_lines := [], shape_count := 0, audio_index := None, video_index := None, shape_overflow := False,
        shape_offsets := (shape_offsets sh)[0 := 0]\<rparr>"

definition shape_append :: "media_shape \<Rightarrow> string \<Rightarrow> bool \<times> media_shape" where
  "shape_append sh line =
     (if shape_count sh \<ge> MAX_SDP_MEDIA_LINES \<or> length (shape_lines sh) + length line > 65535
      then (False, sh\<lparr>shape_overflow := True\<rparr>)
      else (True, sh\<lparr>shape_lines := shape_lines sh @ line, shape_count := shape_count sh + 1,
                     shape_offsets := (shape_offsets sh)[shape_count sh + 1 := of_nat (length (shape_lines sh @ line))]\<rparr>))"

definition shape_line :: "media_shape \<Rightarrow> nat \<Rightarrow> string" where
  "shape_line sh i =
     (if i \<ge> shape_count sh then []
      else substr (shape_lines sh) (unat (shape_offsets sh ! i))
             (unat (shape_offsets sh ! (i + 1)) - unat (shape_offsets sh ! i)))"

record endpoint =
  ep_build :: build
  sdp_session_id :: u32
  sdp_session_version :: u32
  rtp_port :: u16
  udp_max_payload :: size
  offer_tx_formats :: audio_format_list
  offer_rx_formats :: audio_format_list
  peer_directional_audio :: bool
  remote_directional_audio :: bool
  local_offered_directional_audio :: bool
  local_offered_rx_payloads :: payloads
  local_offered_tx_formats :: audio_format_list
  remote_media_shape :: media_shape
  selected_tx_format :: audio_format
  selected_rx_format :: audio_format
  audio_receive_enabled :: bool
  rtp_tx_payload_type :: byte
  rtp_rx_payload_type :: byte
  negotiated_rx_payloads :: payloads
  remote_rtp_ip :: u32
  remote_rtp_port :: u16
  refer_context_active :: bool
  refer_dialog_tx :: "audio_format option"
  video_source :: "video_capability option"
  video_sink :: "video_capability option"
  configured_codec :: video_codec
  video_send_requested :: bool
  video_rtp_port :: u16
  video_offer_payload_type :: byte
  video_offered :: bool
  video_negotiated :: bool
  video_send_enabled :: bool
  video_receive_enabled :: bool
  negotiated_video_capability :: video_capability
  remote_video_ip :: u32
  remote_video_rtp_port :: u16
  remote_video_rtcp_ip :: u32
  remote_video_rtcp_port :: u16

definition set_media_config ::
    "endpoint \<Rightarrow> audio_format \<Rightarrow> audio_format \<Rightarrow> byte \<Rightarrow> byte \<Rightarrow> payloads option \<Rightarrow> endpoint" where
  "set_media_config s tx rx tx_pt rx_pt rx_payloads =
     s\<lparr>selected_tx_format := tx, selected_rx_format := rx, audio_receive_enabled := format_valid rx,
       rtp_tx_payload_type := tx_pt, rtp_rx_payload_type := rx_pt,
       negotiated_rx_payloads :=
         (case rx_payloads of
            Some ps \<Rightarrow> ps
          | None \<Rightarrow> if format_valid rx then snd (payload_add [] rx_pt rx) else [])\<rparr>"

definition local_video_send_capability :: "endpoint \<Rightarrow> video_capability" where
  "local_video_send_capability s =
     local_video_capability (configured_codec s) (video_offer_payload_type s) (video_source s)"

definition local_video_receive_capability :: "endpoint \<Rightarrow> video_capability" where
  "local_video_receive_capability s =
     local_video_capability (configured_codec s) (video_offer_payload_type s) (video_sink s)"

definition reset_video_negotiation :: "endpoint \<Rightarrow> endpoint" where
  "reset_video_negotiation s =
     s\<lparr>video_offered := False, video_negotiated := False, video_send_enabled := False,
       video_receive_enabled := False, remote_video_ip := 0, remote_video_rtp_port := 0,
       remote_video_rtcp_ip := 0, remote_video_rtcp_port := 0, negotiated_video_capability := no_capability\<rparr>"

section \<open>Audio lines\<close>

abbreviation dec_word :: "'a::len word \<Rightarrow> string" where
  "dec_word w \<equiv> dec (unat w)"

definition wrap_sdp_envelope :: "endpoint \<Rightarrow> string \<Rightarrow> string \<Rightarrow> string \<Rightarrow> string \<Rightarrow> byte \<Rightarrow> string \<Rightarrow> string" where
  "wrap_sdp_envelope s local_ip payloads maps flows ptime direction =
     ''v=0'' @ CRLF @
     ''o=- '' @ dec_word (sdp_session_id s) @ '' '' @ dec_word (sdp_session_version s) @ '' IN IP4 '' @ local_ip @ CRLF @
     ''s=VoIP Stack'' @ CRLF @
     ''c=IN IP4 '' @ local_ip @ CRLF @
     ''t=0 0'' @ CRLF @
     ''m=audio '' @ dec_word (rtp_port s) @ '' RTP/AVP '' @ payloads @ CRLF @
     maps @ flows @
     ''a=ptime:'' @ dec_word ptime @ CRLF @
     ''a=maxptime:'' @ dec_word ptime @ CRLF @
     ''a='' @ direction @ CRLF"

definition rtpmap_line :: "byte \<Rightarrow> string \<Rightarrow> audio_format \<Rightarrow> string" where
  "rtpmap_line pt enc f =
     ''a=rtpmap:'' @ dec_word pt @ '' '' @ enc @ ''/'' @ dec_word (audio_format_rtp_clock_rate f) @ ''/'' @
     dec_word (audio_format_rtp_channels f)"

definition audio_maps :: "byte \<Rightarrow> string \<Rightarrow> audio_format \<Rightarrow> string" where
  "audio_maps pt enc f =
     rtpmap_line pt enc f @ CRLF @
     (if codec f = OPUS
      then ''a=fmtp:'' @ dec_word pt @ '' stereo=0;sprop-stereo=0;maxaveragebitrate=28000'' @ CRLF else [])"

definition flow_line :: "byte \<Rightarrow> string \<Rightarrow> string" where
  "flow_line pt flow = ''a=x-voip-stack-flow:'' @ dec_word pt @ '' '' @ flow"

section \<open>Video lines\<close>

definition h264_attributes :: "video_capability \<Rightarrow> string" where
  "h264_attributes c =
     (''a=fmtp:'' @
        (dec_word (video_payload_type c) @ '' packetization-mode=1;profile-level-id='' @ profile_level_id c @
         (if level_asymmetry_allowed c then '';level-asymmetry-allowed=1'' else [])) @ CRLF) @
     (if rtcp_feedback_pli c then ''a=rtcp-fb:'' @ (dec_word (video_payload_type c) @ '' nack pli'') @ CRLF else []) @
     (if rtcp_feedback_fir c then ''a=rtcp-fb:'' @ (dec_word (video_payload_type c) @ '' ccm fir'') @ CRLF else [])"

definition video_attributes :: "endpoint \<Rightarrow> string \<Rightarrow> video_capability \<Rightarrow> string \<Rightarrow> string" where
  "video_attributes s local_ip c direction =
     (''c=IN IP4 '' @ local_ip @ CRLF) @
     (if max_bitrate_bps c \<noteq> 0 then ''b=TIAS:'' @ dec_word (max_bitrate_bps c) @ CRLF else []) @
     (''a=rtcp:'' @ (dec_word (video_rtp_port s + 1) @ '' IN IP4 '' @ local_ip) @ CRLF) @
     (''a=rtpmap:'' @ (dec_word (video_payload_type c) @ '' '' @ encoding c @ ''/90000'') @ CRLF) @
     (if video_backend (ep_build s) = H264Backend \<and> is_h264 c then h264_attributes c else []) @
     (''a=framerate:'' @ dec_word (max_fps c) @ CRLF) @
     (''a='' @ direction @ CRLF)"

definition video_media_text :: "endpoint \<Rightarrow> video_capability \<Rightarrow> string" where
  "video_media_text s c =
     ''m=video '' @ dec_word (video_rtp_port s) @ '' RTP/AVP '' @ dec_word (video_payload_type c)"

definition video_lines :: "endpoint \<Rightarrow> string \<Rightarrow> video_capability \<Rightarrow> string \<Rightarrow> string" where
  "video_lines s local_ip c direction = video_media_text s c @ CRLF @ video_attributes s local_ip c direction"

definition video_direction :: "bool \<Rightarrow> bool \<Rightarrow> string" where
  "video_direction send receive =
     (if send \<and> receive then ''sendrecv'' else if send then ''sendonly'' else if receive then ''recvonly'' else ''inactive'')"

definition refused_video :: "video_capability \<Rightarrow> string" where
  "refused_video c = ''m=video 0 RTP/AVP '' @ dec_word (video_payload_type c) @ CRLF"

definition append_video_sdp :: "endpoint \<Rightarrow> string \<Rightarrow> string \<Rightarrow> bool \<Rightarrow> string" where
  "append_video_sdp s sdp local_ip answer =
     (if refer_context_active s \<or> (video_source s = None \<and> video_sink s = None) then sdp
      else if answer \<and> video_offered s \<and> \<not> video_negotiated s
      then sdp @ refused_video (negotiated_video_capability s)
      else
        let local_send = local_video_send_capability s;
            local_receive = local_video_receive_capability s;
            valid = capability_valid (video_backend (ep_build s));
            offer_send = video_send_requested s \<and> video_source s \<noteq> None \<and> valid local_send;
            offer_receive = video_sink s \<noteq> None \<and> valid local_receive;
            c = (if answer then negotiated_video_capability s else if offer_receive then local_receive else local_send);
            send = (if answer then video_send_enabled s else offer_send \<and> encoding local_send = encoding c);
            receive = (if answer then video_receive_enabled s else offer_receive \<and> encoding local_receive = encoding c)
        in if \<not> valid c then sdp
           else if \<not> send \<and> \<not> receive \<and> \<not> answer then sdp
           else sdp @ video_lines s local_ip c (video_direction send receive))"

text \<open>The part of an offer or an answer the build has for video.\<close>

definition video_part :: "endpoint \<Rightarrow> string \<Rightarrow> string \<Rightarrow> bool \<Rightarrow> string" where
  "video_part s sdp local_ip answer =
     (if video_backend (ep_build s) = NoVideo then sdp else append_video_sdp s sdp local_ip answer)"

section \<open>The offer\<close>

record offer_lines =
  ol_pt :: byte
  ol_payloads :: string
  ol_maps :: string
  ol_flows :: string
  ol_rx :: payloads
  ol_tx :: audio_format_list

text \<open>\<open>append_format\<close>, the lambda of \<open>build_sdp_offer_\<close>.\<close>

definition append_format ::
    "endpoint \<Rightarrow> byte \<Rightarrow> audio_format option \<Rightarrow> string \<Rightarrow> audio_format \<Rightarrow> offer_lines \<Rightarrow> offer_lines" where
  "append_format s selected_ptime retained flow f w =
     (if ol_pt w \<ge> 120 then w
      else if frame_ms f \<noteq> ucast selected_ptime then w
      else if (case retained of None \<Rightarrow> False | Some r \<Rightarrow> \<not> audio_formats_share_wire_encoding f r) then w
      else case audio_format_rtp_encoding f (udp_max_payload s) of
             None \<Rightarrow> w
           | Some enc \<Rightarrow>
               w\<lparr>ol_payloads := ol_payloads w @ (if ol_payloads w = [] then [] else '' '') @ dec_word (ol_pt w),
                 ol_maps := ol_maps w @ audio_maps (ol_pt w) enc f,
                 ol_rx := (case audio_format_list_match_udp_safe (offer_rx_formats s) f (udp_max_payload s) of
                             None \<Rightarrow> ol_rx w
                           | Some l \<Rightarrow> snd (payload_add (ol_rx w) (ol_pt w) l)),
                 ol_tx := (case audio_format_list_match_udp_safe (offer_tx_formats s) f (udp_max_payload s) of
                             None \<Rightarrow> ol_tx w
                           | Some l \<Rightarrow> if length (ol_tx w) < MAX_AUDIO_FORMATS then ol_tx w @ [l] else ol_tx w),
                 ol_flows := ol_flows w @
                   (if peer_directional_audio s then flow_line (ol_pt w) flow @ CRLF else []),
                 ol_pt := ol_pt w + 1\<rparr>)"

definition shared_with :: "audio_format_list \<Rightarrow> audio_format \<Rightarrow> bool" where
  "shared_with fs f \<longleftrightarrow> list_ex (\<lambda>g. audio_formats_share_wire_encoding g f) fs"

definition standard_receive :: "endpoint \<Rightarrow> audio_format \<Rightarrow> bool" where
  "standard_receive s rx \<longleftrightarrow>
     has_speaker (ep_build s) \<and>
     list_ex (\<lambda>tx. pcm_format rx = S16LE \<and> pcm_format tx = S16LE \<and> channels rx = channels tx \<and>
                   frame_ms rx = frame_ms tx) (offer_tx_formats s)"

fun offer_receive_formats ::
    "endpoint \<Rightarrow> byte \<Rightarrow> audio_format option \<Rightarrow> audio_format_list \<Rightarrow> offer_lines \<Rightarrow> offer_lines" where
  "offer_receive_formats s p r [] w = w"
| "offer_receive_formats s p r (f # fs) w =
     (if ol_pt w \<ge> 120 then w
      else offer_receive_formats s p r fs
        (if shared_with (offer_tx_formats s) f \<or> offer_tx_formats s = [] \<or> peer_directional_audio s \<or> standard_receive s f
         then append_format s p r (if shared_with (offer_tx_formats s) f then ''sendrecv'' else ''recv'') f w
         else w))"

fun offer_transmit_formats ::
    "endpoint \<Rightarrow> byte \<Rightarrow> audio_format option \<Rightarrow> audio_format_list \<Rightarrow> offer_lines \<Rightarrow> offer_lines" where
  "offer_transmit_formats s p r [] w = w"
| "offer_transmit_formats s p r (f # fs) w =
     (if ol_pt w \<ge> 120 then w
      else offer_transmit_formats s p r fs
        (if shared_with (offer_rx_formats s) f then w else append_format s p r ''send'' f w))"

definition build_sdp_offer :: "endpoint \<Rightarrow> string \<Rightarrow> string \<times> endpoint" where
  "build_sdp_offer s0 local_ip =
     (let s = s0\<lparr>local_offered_rx_payloads := [], local_offered_tx_formats := [],
                 local_offered_directional_audio := peer_directional_audio s0\<rparr>;
          retained = (if offer_tx_formats s \<noteq> [] \<and> refer_context_active s then refer_dialog_tx s else None);
          ptime = (case retained of
                     Some f \<Rightarrow> ucast (frame_ms f)
                   | None \<Rightarrow> choose_common_audio_ptime (offer_tx_formats s) (offer_rx_formats s) (udp_max_payload s))
      in if ptime = 0 then ([], s)
         else
           let o1 = offer_receive_formats s ptime retained (offer_rx_formats s)
                      \<lparr>ol_pt = 96, ol_payloads = [], ol_maps = [], ol_flows = [], ol_rx = [], ol_tx = []\<rparr>;
               o2 = (if peer_directional_audio s \<or> offer_rx_formats s = []
                     then offer_transmit_formats s ptime retained (offer_tx_formats s) o1 else o1);
               s' = s\<lparr>local_offered_rx_payloads := ol_rx o2, local_offered_tx_formats := ol_tx o2\<rparr>
           in if ol_payloads o2 = [] \<or> (offer_tx_formats s \<noteq> [] \<and> ol_tx o2 = []) then ([], s')
              else (video_part s'
                     (wrap_sdp_envelope s' local_ip (ol_payloads o2) (ol_maps o2) (ol_flows o2) ptime
                        (audio_direction_attribute (offer_tx_formats s \<noteq> []) (offer_rx_formats s \<noteq> [])))
                     local_ip False, s'))"

section \<open>The answer\<close>

definition capture_media_line :: "build \<Rightarrow> string \<Rightarrow> media_shape \<Rightarrow> media_shape" where
  "capture_media_line b line sh =
     (if \<not> starts_with ''m='' line then sh
      else
        let index = shape_count sh; (ok, sh') = shape_append sh line
        in if \<not> ok then sh'
           else sh'\<lparr>audio_index := (if audio_index sh' = None \<and> parse_audio_media_line line \<noteq> None
                                   then Some index else audio_index sh'),
                    video_index := (if video_backend b \<noteq> NoVideo \<and> video_index sh' = None \<and>
                                       parse_video_media_line line \<noteq> None
                                   then Some index else video_index sh')\<rparr>)"

definition capture_remote_media_shape :: "build \<Rightarrow> media_shape \<Rightarrow> string \<Rightarrow> media_shape" where
  "capture_remote_media_shape b sh sdp = fold (capture_media_line b) (crlf_lines sdp) (shape_clear sh)"

definition rejected_media_answer :: "string \<Rightarrow> string" where
  "rejected_media_answer line =
     (if \<not> starts_with ''m='' line then []
      else case find_char (CHR '' '') line of
             None \<Rightarrow> []
           | Some port_start \<Rightarrow>
               (case index_from blank line (port_start + 1) of
                  None \<Rightarrow> []
                | Some port_end \<Rightarrow>
                    take (port_start + 1) line @ ''0'' @ drop port_end line @ CRLF @ ''a=inactive'' @ CRLF))"

record answer_lines =
  al_payloads :: string
  al_maps :: string
  al_flows :: string

text \<open>\<open>append\<close>, the lambda of \<open>build_sdp_answer_\<close>.\<close>

definition answer_append :: "endpoint \<Rightarrow> byte \<Rightarrow> audio_format \<Rightarrow> string \<Rightarrow> answer_lines \<Rightarrow> answer_lines option" where
  "answer_append s pt f flow a =
     (case audio_format_rtp_encoding f (udp_max_payload s) of
        None \<Rightarrow> None
      | Some enc \<Rightarrow>
          Some (a\<lparr>al_payloads := al_payloads a @ (if al_payloads a = [] then [] else '' '') @ dec_word pt,
                  al_maps := al_maps a @ audio_maps pt enc f,
                  al_flows := al_flows a @ (if remote_directional_audio s then flow_line pt flow @ CRLF else [])\<rparr>))"

fun answer_receive :: "endpoint \<Rightarrow> bool \<Rightarrow> payloads \<Rightarrow> answer_lines \<Rightarrow> answer_lines option" where
  "answer_receive s send [] a = Some a"
| "answer_receive s send (e # es) a =
     (if payload_type e = rtp_rx_payload_type s \<or> (send \<and> payload_type e = rtp_tx_payload_type s)
      then answer_receive s send es a
      else case answer_append s (payload_type e) (entry_format e) ''recv'' a of
             None \<Rightarrow> None
           | Some a' \<Rightarrow> answer_receive s send es a')"

definition answer_audio_lines :: "endpoint \<Rightarrow> answer_lines option" where
  "answer_audio_lines s =
     (let send = format_valid (selected_tx_format s);
          receive = format_valid (selected_rx_format s);
          same = rtp_tx_payload_type s = rtp_rx_payload_type s;
          start = \<lparr>al_payloads = [], al_maps = [], al_flows = []\<rparr>;
          received =
            (if \<not> receive then Some start
             else case answer_append s (rtp_rx_payload_type s) (selected_rx_format s)
                         (if send \<and> same then ''sendrecv'' else ''recv'') start of
                    None \<Rightarrow> None
                  | Some a \<Rightarrow> answer_receive s send (negotiated_rx_payloads s) a)
      in case received of
           None \<Rightarrow> None
         | Some a \<Rightarrow>
             if send \<and> (\<not> receive \<or> \<not> same)
             then answer_append s (rtp_tx_payload_type s) (selected_tx_format s) ''send'' a
             else Some a)"

text \<open>The section that answers the line at a position; \<open>None\<close> when the line cannot be refused.\<close>

definition answer_section :: "media_shape \<Rightarrow> string \<Rightarrow> string \<Rightarrow> nat \<Rightarrow> string option" where
  "answer_section sh audio video i =
     (if audio_index sh = Some i then Some audio
      else if video_index sh = Some i \<and> video \<noteq> [] then Some video
      else let r = rejected_media_answer (shape_line sh i) in if r = [] then None else Some r)"

fun answer_sections :: "media_shape \<Rightarrow> string \<Rightarrow> string \<Rightarrow> nat \<Rightarrow> nat \<Rightarrow> string option" where
  "answer_sections sh audio video i 0 = Some []"
| "answer_sections sh audio video i (Suc n) =
     (case answer_section sh audio video i of
        None \<Rightarrow> None
      | Some p \<Rightarrow> map_option ((@) p) (answer_sections sh audio video (i + 1) n))"

definition build_sdp_answer :: "endpoint \<Rightarrow> string \<Rightarrow> string" where
  "build_sdp_answer s local_ip =
     (let send = format_valid (selected_tx_format s);
          receive = format_valid (selected_rx_format s)
      in if \<not> send \<and> \<not> receive then []
         else case answer_audio_lines s of
                None \<Rightarrow> []
              | Some a \<Rightarrow>
                  let audio_sdp = wrap_sdp_envelope s local_ip (al_payloads a) (al_maps a) (al_flows a)
                        (ucast (if receive then frame_ms (selected_rx_format s) else frame_ms (selected_tx_format s)))
                        (audio_direction_attribute send receive)
                  in case find_sub ''m=audio '' audio_sdp of
                       None \<Rightarrow> []
                     | Some audio_media \<Rightarrow>
                         let video = video_part s [] local_ip True;
                             sh = remote_media_shape s
                         in if shape_count sh = 0 then audio_sdp @ video
                            else if shape_overflow sh then []
                            else case answer_sections sh (drop audio_media audio_sdp) video 0 (shape_count sh) of
                                   None \<Rightarrow> []
                                 | Some media \<Rightarrow> take audio_media audio_sdp @ media)"

end
