(* ===== verification/SdpLearn.thy ===== *)
theory SdpLearn
  imports Sdp
begin

text \<open>
  Reading a remote session description, from \<open>sip_sdp.cpp\<close>:
  \<open>learn_remote_rtp_from_sdp_\<close> and \<open>learn_remote_video_from_sdp_\<close>. Each loop over the
  lines is a fold of the loop body over the state of its local variables; a \<open>return false\<close>
  inside a loop is \<open>None\<close>. Tables indexed by payload type are functions. The byte position that
  marks the selected audio line is the index of the line. \<open>inet_aton\<close> of lwIP is an argument.
\<close>

section \<open>Audio: the media line and its attributes\<close>

text \<open>Bit 0: the peer sends, bit 1: the peer receives.\<close>

abbreviation peer_sends :: "byte \<Rightarrow> bool" where "peer_sends flow \<equiv> flow AND 1 \<noteq> 0"
abbreviation peer_receives :: "byte \<Rightarrow> bool" where "peer_receives flow \<equiv> flow AND 2 \<noteq> 0"

record audio_scan =
  as_port :: u16
  as_ptime :: byte
  as_flow :: "nat \<Rightarrow> byte"
  as_offered :: "nat list"
  as_rank :: "nat \<Rightarrow> nat"
  as_session_flow :: byte
  as_media_flow :: byte
  as_line :: "nat option"
  as_seen_media :: bool
  as_in_audio :: bool

definition new_audio_scan :: audio_scan where
  "new_audio_scan =
     \<lparr>as_port = 0, as_ptime = 20, as_flow = (\<lambda>_. 0), as_offered = [], as_rank = (\<lambda>_. 255),
      as_session_flow = 3, as_media_flow = 3, as_line = None, as_seen_media = False, as_in_audio = False\<rparr>"

fun assign_ranks :: "nat \<Rightarrow> nat list \<Rightarrow> (nat \<Rightarrow> nat) \<Rightarrow> nat \<Rightarrow> nat" where
  "assign_ranks rank [] r = r"
| "assign_ranks rank (pt # pts) r =
     (if r pt = 255 then assign_ranks (rank + 1) pts (r(pt := rank)) else assign_ranks rank pts r)"

text \<open>The payload types after the first \<open>RTP/AVP\<close>, in order.\<close>

definition ranked_payloads :: "string \<Rightarrow> nat list option" where
  "ranked_payloads line =
     (case dropWhile blank (drop (case find_sub ''RTP/AVP'' line of None \<Rightarrow> 6 | Some i \<Rightarrow> i + 7) line) of
        [] \<Rightarrow> Some []
      | rest \<Rightarrow> payload_list rest)"

definition flow_of_text :: "string \<Rightarrow> byte" where
  "flow_of_text flow =
     (if flow = ''send'' \<or> flow = ''sendrecv'' then 1 else 0) OR
     (if flow = ''recv'' \<or> flow = ''sendrecv'' then 2 else 0)"

definition direction_line :: "string \<Rightarrow> byte option" where
  "direction_line line =
     (if line = ''a=sendonly'' then Some 1 else if line = ''a=recvonly'' then Some 2
      else if line = ''a=inactive'' then Some 0 else if line = ''a=sendrecv'' then Some 3 else None)"

definition audio_scan_line :: "nat \<times> string \<Rightarrow> audio_scan \<Rightarrow> audio_scan option" where
  "audio_scan_line l a =
     (let line = snd l in
      if starts_with ''m='' line then
        let a = a\<lparr>as_seen_media := True, as_in_audio := False\<rparr> in
        if as_line a \<noteq> None then Some a
        else case parse_audio_media_line line of
               None \<Rightarrow> Some a
             | Some (port, pts) \<Rightarrow>
                 map_option (\<lambda>ranked.
                   a\<lparr>as_rank := assign_ranks 0 ranked (as_rank a), as_port := port, as_offered := pts,
                     as_line := Some (fst l), as_media_flow := as_session_flow a, as_in_audio := True\<rparr>)
                   (ranked_payloads line)
      else if as_in_audio a \<and> starts_with ''a=ptime:'' line then
        Some (case parse_decimal_u32 (drop 8 line) 255 of
                None \<Rightarrow> a
              | Some p \<Rightarrow> if p = 10 \<or> p = 16 \<or> p = 20 \<or> p = 32 then a\<lparr>as_ptime := ucast p\<rparr> else a)
      else if as_in_audio a \<and> starts_with ''a=x-voip-stack-flow:'' line then
        Some (case find_char_from (CHR '' '') line 20 of
                None \<Rightarrow> a
              | Some space \<Rightarrow>
                  (case parse_decimal_u32 (substr line 20 (space - 20)) 127 of
                     None \<Rightarrow> a
                   | Some pt \<Rightarrow> a\<lparr>as_flow := (as_flow a)(unat pt := flow_of_text (trim_copy (drop (space + 1) line)))\<rparr>))
      else
        Some (case direction_line line of
                None \<Rightarrow> a
              | Some d \<Rightarrow>
                  if \<not> as_seen_media a then
                    a\<lparr>as_session_flow := d, as_media_flow := (if as_in_audio a then d else as_media_flow a)\<rparr>
                  else if as_in_audio a then a\<lparr>as_media_flow := d\<rparr>
                  else a))"

text \<open>A loop whose body can return.\<close>

fun fold_option :: "('x \<Rightarrow> 's \<Rightarrow> 's option) \<Rightarrow> 'x list \<Rightarrow> 's \<Rightarrow> 's option" where
  "fold_option f [] s = Some s"
| "fold_option f (x # xs) s = (case f x s of None \<Rightarrow> None | Some t \<Rightarrow> fold_option f xs t)"

abbreviation numbered_lines :: "string \<Rightarrow> (nat \<times> string) list" where
  "numbered_lines sdp \<equiv> enumerate 0 (crlf_lines sdp)"

section \<open>Audio: addresses and formats\<close>

record format_scan =
  fs_ip :: u32
  fs_seen_media :: bool
  fs_in_audio :: bool
  fs_seen_mapping :: "nat \<Rightarrow> u32"
  fs_received :: payloads
  fs_tx :: "(audio_format \<times> byte \<times> nat) option"
  fs_rx :: "(audio_format \<times> byte) option"
  fs_shared :: bool

definition new_format_scan :: "u32 \<Rightarrow> format_scan" where
  "new_format_scan default_ip =
     \<lparr>fs_ip = default_ip, fs_seen_media = False, fs_in_audio = False, fs_seen_mapping = (\<lambda>_. 0),
      fs_received = [], fs_tx = None, fs_rx = None, fs_shared = False\<rparr>"

text \<open>The receive payload type of an answered format: the one the local offer gave it.\<close>

fun offered_receive_pt :: "payloads \<Rightarrow> audio_format \<Rightarrow> byte option" where
  "offered_receive_pt [] f = None"
| "offered_receive_pt (e # es) f =
     (if audio_formats_share_wire_encoding (entry_format e) f then Some (payload_type e)
      else offered_receive_pt es f)"

definition one_directional :: "endpoint \<Rightarrow> bool" where
  "one_directional s \<longleftrightarrow> offer_tx_formats s = [] \<or> offer_rx_formats s = []"

text \<open>The local transmit format an announced format gives, when the peer can receive it.\<close>

definition tx_usable :: "endpoint \<Rightarrow> bool \<Rightarrow> byte \<Rightarrow> audio_format \<Rightarrow> audio_format option" where
  "tx_usable s is_answer flow fmt =
     (if peer_receives flow \<and>
         (is_answer \<longrightarrow> audio_format_list_match_udp_safe (local_offered_tx_formats s) fmt (udp_max_payload s) \<noteq> None)
      then audio_format_list_match_udp_safe (offer_tx_formats s) fmt (udp_max_payload s) else None)"

definition rx_local :: "endpoint \<Rightarrow> byte \<Rightarrow> audio_format \<Rightarrow> audio_format option" where
  "rx_local s flow fmt =
     (if peer_sends flow then audio_format_list_match_udp_safe (offer_rx_formats s) fmt (udp_max_payload s) else None)"

definition rx_usable :: "endpoint \<Rightarrow> bool \<Rightarrow> byte \<Rightarrow> byte \<Rightarrow> audio_format \<Rightarrow> (audio_format \<times> byte) option" where
  "rx_usable s is_answer pt flow fmt =
     (case rx_local s flow fmt of
        None \<Rightarrow> None
      | Some l \<Rightarrow>
          if is_answer then map_option (Pair l) (offered_receive_pt (local_offered_rx_payloads s) fmt)
          else Some (l, pt))"

text \<open>The format is default-constructed when nothing matches, and then counts as 16-bit PCM too.\<close>

definition alternate_pcm :: "endpoint \<Rightarrow> audio_format option \<Rightarrow> bool" where
  "alternate_pcm s l \<longleftrightarrow>
     has_speaker (ep_build s) \<and>
     (let f = (case l of None \<Rightarrow> default_audio_format | Some f \<Rightarrow> f) in codec f = PCM \<and> pcm_format f = S16LE)"

definition better_receive :: "endpoint \<Rightarrow> audio_format \<Rightarrow> (audio_format \<times> byte) option \<Rightarrow> bool" where
  "better_receive s l sel \<longleftrightarrow>
     (case sel of
        None \<Rightarrow> True
      | Some (f, _) \<Rightarrow>
          \<not> remote_directional_audio s \<and> alternate_pcm s (Some l) \<and> pcm_format f = S16LE \<and>
          channels l = channels f \<and> sample_rate l > sample_rate f)"

definition choose_transmit ::
    "endpoint \<Rightarrow> audio_scan \<Rightarrow> byte \<Rightarrow> audio_format option \<Rightarrow> bool \<Rightarrow> (audio_format \<times> byte \<times> nat) option \<Rightarrow>
     (audio_format \<times> byte \<times> nat) option" where
  "choose_transmit s a pt tx rx_ok sel =
     (case tx of
        None \<Rightarrow> sel
      | Some l \<Rightarrow>
          if (one_directional s \<or> remote_directional_audio s \<or> as_media_flow a \<noteq> 3 \<or> rx_ok) \<and>
             (case sel of None \<Rightarrow> True | Some (_, _, rank) \<Rightarrow> as_rank a (unat pt) < rank)
          then Some (l, pt, as_rank a (unat pt)) else sel)"

text \<open>One \<open>rtpmap\<close> of an offered payload type; the format has the packet time of the line.\<close>

definition learn_format :: "endpoint \<Rightarrow> bool \<Rightarrow> audio_scan \<Rightarrow> byte \<Rightarrow> audio_format \<Rightarrow> format_scan \<Rightarrow> format_scan option" where
  "learn_format s is_answer a pt fmt fs0 =
     (let packed = pack_audio_format fmt; n = unat pt in
      if fs_seen_mapping fs0 n \<noteq> 0 \<and> fs_seen_mapping fs0 n \<noteq> packed then None
      else
        let flow = (if \<not> remote_directional_audio s \<or> as_flow a n = 0 then as_media_flow a else as_flow a n);
            tx = tx_usable s is_answer flow fmt;
            rx = rx_usable s is_answer pt flow fmt;
            eligible = (one_directional s \<or> remote_directional_audio s \<or> as_media_flow a \<noteq> 3 \<or>
                        (tx \<noteq> None \<and> rx \<noteq> None) \<or> alternate_pcm s (rx_local s flow fmt));
            fs = fs0\<lparr>fs_seen_mapping := (fs_seen_mapping fs0)(n := packed),
                     fs_shared := fs_shared fs0 \<or> (tx \<noteq> None \<and> rx \<noteq> None),
                     fs_tx := (if eligible then choose_transmit s a pt tx (rx \<noteq> None) (fs_tx fs0) else fs_tx fs0)\<rparr>
        in case (if eligible then rx else None) of
             None \<Rightarrow> Some fs
           | Some (l, receive_pt) \<Rightarrow>
               (case payload_add (fs_received fs0) receive_pt l of
                  (False, _) \<Rightarrow> None
                | (True, received) \<Rightarrow>
                    Some (fs\<lparr>fs_received := received,
                             fs_rx := (if better_receive s l (fs_rx fs0) then Some (l, receive_pt) else fs_rx fs0)\<rparr>)))"

definition format_scan_line ::
    "(string \<Rightarrow> u32 option) \<Rightarrow> endpoint \<Rightarrow> bool \<Rightarrow> audio_scan \<Rightarrow> nat \<times> string \<Rightarrow> format_scan \<Rightarrow> format_scan option" where
  "format_scan_line inet_aton s is_answer a l fs =
     (let line = snd l in
      if starts_with ''m='' line then
        Some (fs\<lparr>fs_seen_media := True, fs_in_audio := (as_line a = Some (fst l))\<rparr>)
      else if starts_with ''c=IN IP4 '' line \<and> (\<not> fs_seen_media fs \<or> fs_in_audio fs) then
        Some (case inet_aton (drop 9 line) of
                None \<Rightarrow> fs
              | Some ip \<Rightarrow> if ip = 0 then fs else fs\<lparr>fs_ip := ip\<rparr>)
      else if fs_in_audio fs \<and> starts_with ''a=rtpmap:'' line then
        (case parse_rtpmap_format line of
           None \<Rightarrow> Some fs
         | Some (pt, f) \<Rightarrow>
             if unat pt \<notin> set (as_offered a) then Some fs
             else learn_format s is_answer a pt (f\<lparr>frame_ms := ucast (as_ptime a)\<rparr>) fs)
      else Some fs)"

section \<open>Audio: the outcome\<close>

text \<open>
  A speaker build without Opus starts from the received format that shares its wire encoding with
  the transmitted one, and prefers higher rates of that layout.
\<close>

fun first_shared_entry :: "payloads \<Rightarrow> audio_format \<Rightarrow> payload_entry option" where
  "first_shared_entry [] f = None"
| "first_shared_entry (e # es) f =
     (if audio_formats_share_wire_encoding (entry_format e) f then Some e else first_shared_entry es f)"

definition raise_rate :: "payload_entry \<Rightarrow> audio_format \<times> byte \<Rightarrow> audio_format \<times> byte" where
  "raise_rate e sel =
     (if sample_rate (entry_format e) > sample_rate (fst sel) \<and>
         pcm_receive_conversion_supported (fst sel) (entry_format e)
      then (entry_format e, payload_type e) else sel)"

definition refine_receive :: "endpoint \<Rightarrow> byte \<Rightarrow> payloads \<Rightarrow> audio_format \<Rightarrow> audio_format \<times> byte \<Rightarrow> audio_format \<times> byte" where
  "refine_receive s media_flow received tx rx =
     (if has_speaker (ep_build s) \<and> \<not> has_opus (ep_build s) \<and> \<not> remote_directional_audio s \<and> media_flow = 3
      then fold raise_rate received
             (case first_shared_entry received tx of None \<Rightarrow> rx | Some e \<Rightarrow> (entry_format e, payload_type e))
      else rx)"

definition receive_usable :: "endpoint \<Rightarrow> audio_format \<Rightarrow> audio_format \<Rightarrow> bool" where
  "receive_usable s f selected \<longleftrightarrow>
     f = selected \<or>
     (has_speaker (ep_build s) \<and> \<not> remote_directional_audio s \<and> pcm_receive_conversion_supported f selected) \<or>
     (has_opus (ep_build s) \<and> \<not> remote_directional_audio s \<and> same_decoded_audio_geometry f selected)"

fun accept_payloads :: "endpoint \<Rightarrow> audio_format \<Rightarrow> payloads \<Rightarrow> payloads \<Rightarrow> payloads option" where
  "accept_payloads s selected [] acc = Some acc"
| "accept_payloads s selected (e # es) acc =
     (if receive_usable s (entry_format e) selected
      then (case payload_add acc (payload_type e) (entry_format e) of
              (True, acc') \<Rightarrow> accept_payloads s selected es acc'
            | (False, _) \<Rightarrow> None)
      else accept_payloads s selected es acc)"

definition audio_outcome ::
    "endpoint \<Rightarrow> audio_scan \<Rightarrow> format_scan \<Rightarrow> (audio_format \<times> audio_format \<times> byte \<times> byte \<times> payloads) option" where
  "audio_outcome s a fs =
     (let want_tx = (offer_tx_formats s \<noteq> [] \<and> peer_receives (as_media_flow a));
          want_rx = (offer_rx_formats s \<noteq> [] \<and> peer_sends (as_media_flow a))
      in if as_port a = 0 \<or> fs_ip fs = 0 \<or> (\<not> want_tx \<and> \<not> want_rx) \<or> (want_tx \<and> fs_tx fs = None) \<or>
            (want_rx \<and> fs_rx fs = None) \<or>
            (want_tx \<and> want_rx \<and> \<not> remote_directional_audio s \<and> as_media_flow a = 3 \<and> \<not> fs_shared fs)
         then None
         else
           let (tx, tx_pt) = (case fs_tx fs of None \<Rightarrow> (disabled_audio_format, 0) | Some (f, pt, _) \<Rightarrow> (f, pt));
               (rx, rx_pt) = (case fs_rx fs of
                  None \<Rightarrow> (disabled_audio_format, 0)
                | Some r \<Rightarrow> if fs_tx fs = None then r else refine_receive s (as_media_flow a) (fs_received fs) tx r)
           in if fs_tx fs \<noteq> None \<and> fs_rx fs \<noteq> None \<and> frame_ms tx \<noteq> frame_ms rx then None
              else map_option (\<lambda>accepted. (tx, rx, tx_pt, rx_pt, accepted)) (accept_payloads s rx (fs_received fs) []))"

section \<open>Video: the lines\<close>

record video_scan =
  vs_offered :: bool
  vs_first_pt :: byte
  vs_order :: "nat list"
  vs_h264 :: "nat \<Rightarrow> bool"
  vs_jpeg :: "nat \<Rightarrow> bool"
  vs_rtpmap_seen :: "nat \<Rightarrow> bool"
  vs_profile :: "nat \<Rightarrow> string option"
  vs_mode :: "nat \<Rightarrow> bool"
  vs_asymmetry :: "nat \<Rightarrow> bool"
  vs_feedback :: "(nat \<Rightarrow> bool) \<times> (nat \<Rightarrow> bool)"
  vs_max_fps :: byte
  vs_max_bitrate :: u32
  vs_port :: u16
  vs_ip :: u32
  vs_session_ip :: u32
  vs_rtcp_port :: u16
  vs_rtcp_ip :: u32
  vs_rtcp_explicit :: bool
  vs_rtcp_invalid :: bool
  vs_mux_only :: bool
  vs_direction :: byte
  vs_session_direction :: byte
  vs_seen_media :: bool
  vs_in_video :: bool

definition new_video_scan :: "u32 \<Rightarrow> video_scan" where
  "new_video_scan default_ip =
     \<lparr>vs_offered = False, vs_first_pt = 0, vs_order = [], vs_h264 = (\<lambda>_. False), vs_jpeg = (\<lambda>_. False),
      vs_rtpmap_seen = (\<lambda>_. False), vs_profile = (\<lambda>_. None), vs_mode = (\<lambda>_. False), vs_asymmetry = (\<lambda>_. False),
      vs_feedback = (\<lambda>_. False, \<lambda>_. False), vs_max_fps = 0, vs_max_bitrate = 0, vs_port = 0, vs_ip = default_ip,
      vs_session_ip = default_ip, vs_rtcp_port = 0, vs_rtcp_ip = default_ip, vs_rtcp_explicit = False,
      vs_rtcp_invalid = False, vs_mux_only = False, vs_direction = 3, vs_session_direction = 3,
      vs_seen_media = False, vs_in_video = False\<rparr>"

abbreviation offered_video :: "video_scan \<Rightarrow> nat \<Rightarrow> bool" where
  "offered_video v n \<equiv> n \<in> set (vs_order v)"

definition video_media_line :: "string \<Rightarrow> video_scan \<Rightarrow> video_scan" where
  "video_media_line line v0 =
     (let v = v0\<lparr>vs_seen_media := True, vs_in_video := False\<rparr> in
      if vs_offered v then v
      else case parse_video_media_line line of
             None \<Rightarrow> v
           | Some (port, pts) \<Rightarrow>
               v\<lparr>vs_offered := True, vs_port := port, vs_order := pts,
                 vs_first_pt := (case pts of [] \<Rightarrow> vs_first_pt v | pt # _ \<Rightarrow> of_nat pt),
                 vs_ip := vs_session_ip v, vs_rtcp_ip := vs_session_ip v,
                 vs_rtcp_port := (if port = 65535 then 0 else port + 1), vs_rtcp_explicit := False,
                 vs_direction := vs_session_direction v, vs_in_video := True\<rparr>)"

definition direction_prefix :: "string \<Rightarrow> byte option" where
  "direction_prefix line =
     (if starts_with ''a=sendonly'' line then Some 1 else if starts_with ''a=recvonly'' line then Some 2
      else if starts_with ''a=inactive'' line then Some 0 else if starts_with ''a=sendrecv'' line then Some 3
      else None)"

definition video_fmtp_line :: "string \<Rightarrow> video_scan \<Rightarrow> video_scan" where
  "video_fmtp_line line v =
     (let at = (\<lambda>r. case fst r of None \<Rightarrow> 0 | Some pt \<Rightarrow> unat pt);
          profile = fmtp_parameter line ''profile-level-id'';
          mode = fmtp_parameter line ''packetization-mode'';
          asymmetry = fmtp_parameter line ''level-asymmetry-allowed''
      in v\<lparr>vs_profile := (if offered_video v (at profile) \<and> length (snd profile) = 6
                          then (vs_profile v)(at profile := Some (snd profile)) else vs_profile v),
           vs_mode := (if offered_video v (at mode) \<and> snd mode = ''1'' then (vs_mode v)(at mode := True) else vs_mode v),
           vs_asymmetry := (if offered_video v (at asymmetry) \<and> snd asymmetry = ''1''
                            then (vs_asymmetry v)(at asymmetry := True) else vs_asymmetry v)\<rparr>)"

definition video_attribute_line :: "(string \<Rightarrow> u32 option) \<Rightarrow> video_backend \<Rightarrow> string \<Rightarrow> video_scan \<Rightarrow> video_scan" where
  "video_attribute_line inet_aton b line v =
     (if starts_with ''c=IN IP4 '' line then
        (case inet_aton (drop 9 line) of
           None \<Rightarrow> v
         | Some ip \<Rightarrow> if ip = 0 then v
                      else v\<lparr>vs_ip := ip, vs_rtcp_ip := (if vs_rtcp_explicit v then vs_rtcp_ip v else ip)\<rparr>)
      else if starts_with ''a=rtcp:'' line then
        (case parse_rtcp_attribute inet_aton line of
           None \<Rightarrow> v\<lparr>vs_rtcp_invalid := True\<rparr>
         | Some (port, address) \<Rightarrow>
             v\<lparr>vs_rtcp_port := port, vs_rtcp_ip := (case address of None \<Rightarrow> vs_ip v | Some ip \<Rightarrow> ip),
               vs_rtcp_explicit := (address \<noteq> None)\<rparr>)
      else if line = ''a=rtcp-mux-only'' then v\<lparr>vs_mux_only := True\<rparr>
      else if starts_with ''a=rtpmap:'' line then
        (case parse_video_rtpmap line of
           None \<Rightarrow> v
         | Some (pt, enc) \<Rightarrow>
             if \<not> offered_video v (unat pt) then v
             else v\<lparr>vs_rtpmap_seen := (vs_rtpmap_seen v)(unat pt := True),
                    vs_h264 := (if b = H264Backend then (vs_h264 v)(unat pt := (enc = ''H264/90000'')) else vs_h264 v),
                    vs_jpeg := (if b = JpegBackend then (vs_jpeg v)(unat pt := (enc = ''JPEG/90000'')) else vs_jpeg v)\<rparr>)
      else if b = H264Backend \<and> starts_with ''a=fmtp:'' line then video_fmtp_line line v
      else if b = H264Backend \<and> starts_with ''a=rtcp-fb:'' line then
        (case parse_video_rtcp_feedback line (offered_video v) (vs_feedback v) of
           None \<Rightarrow> v
         | Some flags \<Rightarrow> v\<lparr>vs_feedback := flags\<rparr>)
      else if starts_with ''b=TIAS:'' line then
        (case parse_decimal_u32 (trim_copy (drop 7 line)) (- 1) of
           None \<Rightarrow> v
         | Some n \<Rightarrow> if n > 0 then v\<lparr>vs_max_bitrate := n\<rparr> else v)
      else if starts_with ''a=framerate:'' line then
        (case parse_decimal_u32 (trim_copy (drop 12 line)) 255 of
           None \<Rightarrow> v
         | Some n \<Rightarrow> if n > 0 then v\<lparr>vs_max_fps := ucast n\<rparr> else v)
      else v)"

definition video_scan_line :: "(string \<Rightarrow> u32 option) \<Rightarrow> video_backend \<Rightarrow> string \<Rightarrow> video_scan \<Rightarrow> video_scan" where
  "video_scan_line inet_aton b line v =
     (if starts_with ''m='' line then video_media_line line v
      else if \<not> vs_seen_media v \<and> starts_with ''c=IN IP4 '' line then
        (case inet_aton (drop 9 line) of
           None \<Rightarrow> v
         | Some ip \<Rightarrow> if ip = 0 then v else v\<lparr>vs_session_ip := ip, vs_ip := ip, vs_rtcp_ip := ip\<rparr>)
      else case (if \<not> vs_seen_media v \<or> vs_in_video v then direction_prefix line else None) of
             Some d \<Rightarrow>
               v\<lparr>vs_session_direction := (if vs_seen_media v then vs_session_direction v else d),
                 vs_direction := (if vs_in_video v then d else vs_direction v)\<rparr>
           | None \<Rightarrow> if vs_in_video v then video_attribute_line inet_aton b line v else v)"

section \<open>Video: the outcome\<close>

text \<open>The capability and the directions a payload type gives, \<open>None\<close> where the loop continues.\<close>

definition video_compatible :: "endpoint \<Rightarrow> string \<Rightarrow> bool \<times> bool" where
  "video_compatible s peer_profile =
     (let b = video_backend (ep_build s); local_send = local_video_send_capability s;
          local_receive = local_video_receive_capability s
      in if b = JpegBackend
         then (video_source s \<noteq> None \<and> capability_valid b local_send \<and> is_jpeg local_send,
               video_sink s \<noteq> None \<and> capability_valid b local_receive \<and> is_jpeg local_receive)
         else (video_source s \<noteq> None \<and> capability_valid b local_send \<and> is_h264 local_send \<and>
                 h264_level_fits (profile_level_id local_send) peer_profile,
               video_sink s \<noteq> None \<and> capability_valid b local_receive \<and> is_h264 local_receive \<and>
                 h264_same_subprofile (profile_level_id local_receive) peer_profile))"

definition video_negotiated_capability ::
    "endpoint \<Rightarrow> video_scan \<Rightarrow> nat \<Rightarrow> string \<Rightarrow> bool \<times> bool \<Rightarrow> bool \<Rightarrow> video_capability" where
  "video_negotiated_capability s v pt peer_profile compatible bilateral =
     (let h264 = (video_backend (ep_build s) = H264Backend);
          local_send = local_video_send_capability s; local_receive = local_video_receive_capability s;
          c0 = (if snd compatible then local_receive else local_send);
          c1 = (if fst compatible \<and> snd compatible
                then c0\<lparr>max_fps := min (max_fps local_send) (max_fps local_receive),
                        max_bitrate_bps := min_bitrate (max_bitrate_bps c0) (max_bitrate_bps local_send)\<rparr>
                else c0);
          c2 = c1\<lparr>max_fps := (if vs_max_fps v > 0 then min (max_fps c1) (vs_max_fps v) else max_fps c1),
                  video_payload_type := of_nat pt, level_asymmetry_allowed := (h264 \<and> bilateral),
                  rtcp_feedback_pli := (h264 \<and> fst (vs_feedback v) pt),
                  rtcp_feedback_fir := (h264 \<and> snd (vs_feedback v) pt),
                  max_bitrate_bps := min_bitrate (max_bitrate_bps c1) (vs_max_bitrate v)\<rparr>
      in if h264 \<and> \<not> bilateral \<and> h264_level_fits peer_profile (profile_level_id c2)
         then c2\<lparr>profile_level_id := take 4 (profile_level_id c2) @ take 2 (drop 4 peer_profile) @ drop 6 (profile_level_id c2)\<rparr>
         else c2)"

definition video_candidate :: "endpoint \<Rightarrow> bool \<Rightarrow> video_scan \<Rightarrow> nat \<Rightarrow> (video_capability \<times> bool \<times> bool) option" where
  "video_candidate s is_answer v pt =
     (let b = video_backend (ep_build s);
          usable = (if b = JpegBackend then vs_jpeg v pt \<and> pt = 26
                    else vs_h264 v pt \<and> vs_mode v pt \<and> vs_profile v pt \<noteq> None);
          peer_profile = (if b = H264Backend then (case vs_profile v pt of None \<Rightarrow> [] | Some p \<Rightarrow> p) else []);
          local_send = local_video_send_capability s; local_receive = local_video_receive_capability s;
          sends = peer_sends (vs_direction v); receives = peer_receives (vs_direction v);
          bilateral = (b = H264Backend \<and> vs_asymmetry v pt \<and>
                       (\<not> sends \<or> level_asymmetry_allowed local_receive) \<and>
                       (\<not> receives \<or> level_asymmetry_allowed local_send));
          compatible = video_compatible s peer_profile;
          local_receives = (sends \<and> snd compatible);
          wants_send = (video_send_requested s \<and> receives \<and> fst compatible);
          local_sends = (wants_send \<and>
            \<not> (b = H264Backend \<and> \<not> bilateral \<and> local_receives \<and>
               \<not> h264_level_fits (profile_level_id local_send) (profile_level_id local_receive)))
      in if is_answer \<and> of_nat pt \<noteq> video_offer_payload_type s then None
         else if \<not> usable then None
         else if \<not> local_sends \<and> \<not> local_receives \<and>
                 (vs_direction v \<noteq> 0 \<or> (\<not> fst compatible \<and> \<not> snd compatible)) then None
         else Some (video_negotiated_capability s v pt peer_profile compatible bilateral, local_sends, local_receives))"

fun first_candidate :: "('x \<Rightarrow> 'y option) \<Rightarrow> 'x list \<Rightarrow> 'y option" where
  "first_candidate f [] = None"
| "first_candidate f (x # xs) = (case f x of Some y \<Rightarrow> Some y | None \<Rightarrow> first_candidate f xs)"

definition learn_remote_video :: "(string \<Rightarrow> u32 option) \<Rightarrow> string \<Rightarrow> u32 \<Rightarrow> bool \<Rightarrow> endpoint \<Rightarrow> bool \<times> endpoint" where
  "learn_remote_video inet_aton sdp default_ip is_answer s0 =
     (let b = video_backend (ep_build s0);
          v0 = fold (video_scan_line inet_aton b) (crlf_lines sdp) (new_video_scan default_ip);
          s1 = reset_video_negotiation s0;
          s = s1\<lparr>video_offered := vs_offered v0,
                 negotiated_video_capability := (negotiated_video_capability s1)\<lparr>video_payload_type := vs_first_pt v0\<rparr>\<rparr>
      in if \<not> vs_offered v0 \<or> vs_port v0 = 0 then (True, s)
         else if vs_mux_only v0 \<or> vs_rtcp_invalid v0 \<or> vs_rtcp_port v0 = 0 \<or> vs_rtcp_ip v0 = 0 then (False, s)
         else
           let v = (if b = JpegBackend \<and> offered_video v0 26 \<and> \<not> vs_rtpmap_seen v0 26
                    then v0\<lparr>vs_jpeg := (vs_jpeg v0)(26 := True)\<rparr> else v0)
           in case first_candidate (video_candidate s is_answer v) (vs_order v) of
                None \<Rightarrow> (False, s)
              | Some (c, sends, receives) \<Rightarrow>
                  (True, s\<lparr>negotiated_video_capability := c, remote_video_ip := vs_ip v,
                           remote_video_rtp_port := vs_port v, remote_video_rtcp_ip := vs_rtcp_ip v,
                           remote_video_rtcp_port := vs_rtcp_port v, video_send_enabled := sends,
                           video_receive_enabled := receives, video_negotiated := True\<rparr>))"

section \<open>Learning a description\<close>

definition learn_remote_rtp :: "(string \<Rightarrow> u32 option) \<Rightarrow> string \<Rightarrow> u32 \<Rightarrow> bool \<Rightarrow> endpoint \<Rightarrow> bool \<times> endpoint" where
  "learn_remote_rtp inet_aton sdp default_ip is_answer s0 =
     (let s = s0\<lparr>remote_directional_audio := has_sub ''a=x-voip-stack-flow:'' sdp \<and>
                   (\<not> is_answer \<or> local_offered_directional_audio s0),
                 remote_media_shape := capture_remote_media_shape (ep_build s0) (remote_media_shape s0) sdp\<rparr>
      in if shape_overflow (remote_media_shape s) then (False, s)
         else case fold_option audio_scan_line (numbered_lines sdp) new_audio_scan of
                None \<Rightarrow> (False, s)
              | Some a \<Rightarrow>
                  (case fold_option (format_scan_line inet_aton s is_answer a) (numbered_lines sdp)
                          (new_format_scan default_ip) of
                     None \<Rightarrow> (False, s)
                   | Some fs \<Rightarrow>
                       (case audio_outcome s a fs of
                          None \<Rightarrow> (False, s)
                        | Some (tx, rx, tx_pt, rx_pt, accepted) \<Rightarrow>
                            let s' = (set_media_config s tx rx tx_pt rx_pt (Some accepted))
                                       \<lparr>remote_rtp_ip := fs_ip fs, remote_rtp_port := as_port a\<rparr>
                            in (True,
                                if video_backend (ep_build s) \<noteq> NoVideo \<and> \<not> refer_context_active s
                                then snd (learn_remote_video inet_aton sdp default_ip is_answer s') else s'))))"

end
