(* ===== verification/SdpLearnProps.thy ===== *)
theory SdpLearnProps
  imports SdpLearn
begin

text \<open>
  What a learned description may set: the invariants of the two loops over its lines, and the
  consequences for the negotiated audio.
\<close>

section \<open>Loops that can return\<close>

lemma fold_option_inv:
  assumes "fold_option f xs s = Some t" and "I s" and "\<And>x s t. x \<in> set xs \<Longrightarrow> I s \<Longrightarrow> f x s = Some t \<Longrightarrow> I t"
  shows "I t"
  using assms
proof (induction xs arbitrary: s)
  case (Cons x xs)
  then obtain u where u: "f x s = Some u" "fold_option f xs u = Some t" by (auto split: option.splits)
  show ?case
    by (rule Cons.IH [OF u(2)]) (use Cons.prems u(1) in \<open>(meson list.set_intros)+\<close>)
qed simp

lemma line_in_numbered: "l \<in> set (numbered_lines sdp) \<Longrightarrow> snd l \<in> set (crlf_lines sdp)"
  using map_snd_enumerate [of 0 "crlf_lines sdp"] by (metis imageI list.set_map)

section \<open>The media line\<close>

definition from_line :: "string \<Rightarrow> audio_scan \<Rightarrow> bool" where
  "from_line sdp a \<longleftrightarrow>
     as_port a = 0 \<and> as_offered a = [] \<or>
     (\<exists>line\<in>set (crlf_lines sdp). parse_audio_media_line line = Some (as_port a, as_offered a))"

lemma audio_scan_line_from:
  assumes "audio_scan_line l a = Some b" and "from_line sdp a" and "snd l \<in> set (crlf_lines sdp)"
  shows "from_line sdp b"
  using assms unfolding audio_scan_line_def Let_def
  by (auto simp: from_line_def split: if_splits option.splits prod.splits)

lemma audio_scan_from:
  assumes "fold_option audio_scan_line (numbered_lines sdp) new_audio_scan = Some a"
  shows "from_line sdp a"
  using assms
proof (rule fold_option_inv)
  show "from_line sdp new_audio_scan" by (simp add: from_line_def new_audio_scan_def)
qed (use audio_scan_line_from line_in_numbered in blast)

section \<open>The formats\<close>

definition tx_choice :: "endpoint \<Rightarrow> audio_scan \<Rightarrow> audio_format \<times> byte \<times> nat \<Rightarrow> bool" where
  "tx_choice s a c \<longleftrightarrow>
     (case c of (f, pt, rank) \<Rightarrow>
        f \<in> set (offer_tx_formats s) \<and> audio_format_rtp_encoding f (udp_max_payload s) \<noteq> None \<and>
        unat pt \<in> set (as_offered a) \<and> rank = as_rank a (unat pt))"

definition rx_entry :: "endpoint \<Rightarrow> payload_entry \<Rightarrow> bool" where
  "rx_entry s e \<longleftrightarrow>
     entry_format e \<in> set (offer_rx_formats s) \<and> audio_format_rtp_encoding (entry_format e) (udp_max_payload s) \<noteq> None"

definition formats_ok :: "endpoint \<Rightarrow> audio_scan \<Rightarrow> format_scan \<Rightarrow> bool" where
  "formats_ok s a fs \<longleftrightarrow>
     payloads_inv (fs_received fs) \<and> (\<forall>e\<in>set (fs_received fs). rx_entry s e) \<and>
     (\<forall>c. fs_tx fs = Some c \<longrightarrow> tx_choice s a c) \<and>
     (\<forall>f pt. fs_rx fs = Some (f, pt) \<longrightarrow> payload_find (fs_received fs) pt = Some f)"

lemma match_in:
  "audio_format_list_match_udp_safe fs f n = Some l \<Longrightarrow> l \<in> set fs \<and> audio_format_rtp_encoding l n \<noteq> None"
  using match_udp_safe_sound [of fs f n l] by auto

lemma added_entry:
  assumes "payload_add ps pt f = (True, qs)" and "payload_find ps q = Some g"
  shows "payload_find qs q = Some g"
proof -
  have "payload_find qs = (payload_find ps)(pt \<mapsto> f)" using payload_add_find [of ps pt f] assms(1) by simp
  moreover have "q = pt \<Longrightarrow> g = f" using assms by (auto simp: payload_add_def split: if_splits)
  ultimately show ?thesis using assms(2) by simp
qed

lemma choose_transmit_ok:
  assumes "\<forall>c. sel = Some c \<longrightarrow> tx_choice s a c" and "unat pt \<in> set (as_offered a)"
    and "\<forall>l. tx = Some l \<longrightarrow> l \<in> set (offer_tx_formats s) \<and> audio_format_rtp_encoding l (udp_max_payload s) \<noteq> None"
  shows "choose_transmit s a pt tx r sel = Some c \<Longrightarrow> tx_choice s a c"
  using assms by (auto simp: choose_transmit_def tx_choice_def split: option.splits if_splits)

lemma tx_usable_in:
  "tx_usable s is_answer flow fmt = Some l \<Longrightarrow>
   l \<in> set (offer_tx_formats s) \<and> audio_format_rtp_encoding l (udp_max_payload s) \<noteq> None"
  using match_in [of "offer_tx_formats s" fmt "udp_max_payload s" l] by (auto simp: tx_usable_def split: if_splits)

lemma rx_usable_in:
  "rx_usable s is_answer pt flow fmt = Some (l, p) \<Longrightarrow>
   l \<in> set (offer_rx_formats s) \<and> audio_format_rtp_encoding l (udp_max_payload s) \<noteq> None"
  using match_in [of "offer_rx_formats s" fmt "udp_max_payload s" l]
  by (auto simp: rx_usable_def rx_local_def split: option.splits if_splits)

lemma payload_add_entries:
  "payload_add ps pt f = (True, qs) \<Longrightarrow> e \<in> set qs \<Longrightarrow> e \<in> set ps \<or> entry_format e = f"
  by (auto simp: payload_add_def split: if_splits option.splits)

lemma learn_format_ok:
  assumes l: "learn_format s is_answer a pt fmt fs = Some fs'" and ok: "formats_ok s a fs" and pt: "unat pt \<in> set (as_offered a)"
  shows "formats_ok s a fs'"
proof -
  obtain flow e where
    "(case (if e then rx_usable s is_answer pt flow fmt else None) of
        None \<Rightarrow> fs_received fs' = fs_received fs \<and> fs_rx fs' = fs_rx fs
      | Some (l, p) \<Rightarrow> payload_add (fs_received fs) p l = (True, fs_received fs') \<and>
          (fs_rx fs' = Some (l, p) \<or> fs_rx fs' = fs_rx fs))"
    "fs_tx fs' = fs_tx fs \<or>
       fs_tx fs' = choose_transmit s a pt (tx_usable s is_answer flow fmt) (rx_usable s is_answer pt flow fmt \<noteq> None) (fs_tx fs)"
  proof -
    let ?flow = "if \<not> remote_directional_audio s \<or> as_flow a (unat pt) = 0 then as_media_flow a else as_flow a (unat pt)"
    let ?tx = "tx_usable s is_answer ?flow fmt" and ?rx = "rx_usable s is_answer pt ?flow fmt"
    let ?e = "one_directional s \<or> remote_directional_audio s \<or> as_media_flow a \<noteq> 3 \<or>
                        (?tx \<noteq> None \<and> ?rx \<noteq> None) \<or> alternate_pcm s (rx_local s ?flow fmt)"
    define e where "e = ?e"
    show thesis
      by (rule that [of e ?flow])
        (use l in \<open>unfold learn_format_def Let_def e_def [symmetric],
           auto split: if_splits option.splits prod.splits bool.splits\<close>)
  qed
  then obtain flow e where
    r: "case (if e then rx_usable s is_answer pt flow fmt else None) of
        None \<Rightarrow> fs_received fs' = fs_received fs \<and> fs_rx fs' = fs_rx fs
      | Some (l, p) \<Rightarrow> payload_add (fs_received fs) p l = (True, fs_received fs') \<and>
          (fs_rx fs' = Some (l, p) \<or> fs_rx fs' = fs_rx fs)"
    and t: "fs_tx fs' = fs_tx fs \<or>
       fs_tx fs' = choose_transmit s a pt (tx_usable s is_answer flow fmt) (rx_usable s is_answer pt flow fmt \<noteq> None) (fs_tx fs)"
    by blast
  have tx: "\<forall>c. fs_tx fs' = Some c \<longrightarrow> tx_choice s a c"
    using t ok choose_transmit_ok [OF _ pt] tx_usable_in by (metis formats_ok_def)
  show ?thesis
  proof (cases "if e then rx_usable s is_answer pt flow fmt else None")
    case None
    then show ?thesis using r ok tx by (simp add: formats_ok_def)
  next
    case (Some lp)
    obtain l p where lp: "lp = (l, p)" by fastforce
    have u: "rx_usable s is_answer pt flow fmt = Some (l, p)" using Some lp by (simp split: if_splits)
    have add: "payload_add (fs_received fs) p l = (True, fs_received fs')"
      and sel: "fs_rx fs' = Some (l, p) \<or> fs_rx fs' = fs_rx fs" using r Some lp by simp_all
    have "payloads_inv (fs_received fs')"
      using payload_add_inv [of "fs_received fs" p l] ok add by (simp add: formats_ok_def)
    moreover have "\<forall>x\<in>set (fs_received fs'). rx_entry s x"
      using payload_add_entries [OF add] ok rx_usable_in [OF u] by (auto simp: formats_ok_def rx_entry_def)
    moreover have "payload_find (fs_received fs') p = Some l"
      using payload_add_find [of "fs_received fs" p l] add by simp
    moreover have "payload_find (fs_received fs') q = Some f" if "fs_rx fs = Some (f, q)" for f q
      using added_entry [OF add] ok that by (simp add: formats_ok_def)
    ultimately show ?thesis using sel tx by (auto simp: formats_ok_def)
  qed
qed

lemma format_scan_ok:
  assumes "fold_option (format_scan_line inet_aton s is_answer a) (numbered_lines sdp) (new_format_scan ip) = Some fs"
  shows "formats_ok s a fs"
  using assms
proof (rule fold_option_inv)
  show "formats_ok s a (new_format_scan ip)" by (simp add: formats_ok_def new_format_scan_def payloads_inv_def)
next
  fix l f f'
  assume ok: "formats_ok s a f" and st: "format_scan_line inet_aton s is_answer a l f = Some f'"
  have u: "formats_ok s a (f\<lparr>fs_ip := x\<rparr>)" "formats_ok s a (f\<lparr>fs_seen_media := b, fs_in_audio := c\<rparr>)" for x b c
    using ok by (simp_all add: formats_ok_def)
  show "formats_ok s a f'"
    using st ok u learn_format_ok unfolding format_scan_line_def Let_def
    by (auto split: if_splits option.splits prod.splits)
qed

section \<open>The outcome\<close>

lemma first_shared_in: "first_shared_entry ps f = Some e \<Longrightarrow> e \<in> set ps"
  by (induction ps) (auto split: if_splits)

lemma raise_rate_in:
  "set es \<subseteq> set ps \<Longrightarrow> \<exists>e\<in>set ps. (entry_format e, payload_type e) = sel \<Longrightarrow>
   \<exists>e\<in>set ps. (entry_format e, payload_type e) = fold raise_rate es sel"
proof (induction es arbitrary: sel)
  case (Cons x es)
  have "\<exists>e\<in>set ps. (entry_format e, payload_type e) = raise_rate x sel"
    using Cons.prems by (auto simp: raise_rate_def)
  then show ?case using Cons by simp
qed simp

lemma refine_receive_in:
  assumes "payload_find ps (snd rx) = Some (fst rx)" and "distinct (map payload_type ps)"
  shows "payload_find ps (snd (refine_receive s flow ps tx rx)) = Some (fst (refine_receive s flow ps tx rx))"
proof -
  let ?start = "case first_shared_entry ps tx of None \<Rightarrow> rx | Some e \<Rightarrow> (entry_format e, payload_type e)"
  have rx: "\<exists>e\<in>set ps. (entry_format e, payload_type e) = rx"
    using payload_find_SomeD [OF assms(1)] by (auto simp: prod_eq_iff)
  then have "\<exists>e\<in>set ps. (entry_format e, payload_type e) = ?start"
    using first_shared_in [of ps tx] by (auto split: option.split)
  then have "\<exists>e\<in>set ps. (entry_format e, payload_type e) = refine_receive s flow ps tx rx"
    using rx raise_rate_in [of ps ps] by (simp add: refine_receive_def)
  then show ?thesis using payload_find_in [OF assms(2)] by (metis fst_conv snd_conv)
qed

lemma accept_payloads_ok:
  assumes "accept_payloads s sel es acc = Some qs" and "payloads_inv acc"
  shows "payloads_inv qs \<and> (\<forall>pt f. payload_find acc pt = Some f \<longrightarrow> payload_find qs pt = Some f) \<and>
    (\<forall>e\<in>set es. receive_usable s (entry_format e) sel \<longrightarrow> payload_find qs (payload_type e) = Some (entry_format e)) \<and>
    (\<forall>e\<in>set qs. e \<in> set acc \<or> (\<exists>x\<in>set es. entry_format x = entry_format e \<and> receive_usable s (entry_format e) sel))"
  using assms
proof (induction es arbitrary: acc)
  case (Cons e es)
  show ?case
  proof (cases "receive_usable s (entry_format e) sel")
    case False
    then show ?thesis using Cons by auto
  next
    case True
    then obtain acc' where a: "payload_add acc (payload_type e) (entry_format e) = (True, acc')"
      and r: "accept_payloads s sel es acc' = Some qs"
      using Cons.prems by (auto split: prod.splits bool.splits)
    have i: "payloads_inv acc'" using payload_add_inv [of acc "payload_type e" "entry_format e"] Cons.prems a by simp
    note ih = Cons.IH [OF r i]
    have "payload_find qs (payload_type e) = Some (entry_format e)"
      using ih payload_add_find [of acc "payload_type e" "entry_format e"] a by simp
    moreover have "\<forall>x\<in>set qs. x \<in> set acc \<or>
        (\<exists>y\<in>set (e # es). entry_format y = entry_format x \<and> receive_usable s (entry_format x) sel)"
    proof
      fix x
      assume "x \<in> set qs"
      then consider "x \<in> set acc'" | y where "y \<in> set es" "entry_format y = entry_format x" "receive_usable s (entry_format x) sel"
        using ih by blast
      then show "x \<in> set acc \<or> (\<exists>y\<in>set (e # es). entry_format y = entry_format x \<and> receive_usable s (entry_format x) sel)"
      proof cases
        case 1
        then show ?thesis using payload_add_entries [OF a] True by fastforce
      qed auto
    qed
    ultimately show ?thesis using ih added_entry [OF a] by auto
  qed
qed simp

lemma audio_outcome_ok:
  assumes out: "audio_outcome s a fs = Some (tx, rx, tx_pt, rx_pt, accepted)" and ok: "formats_ok s a fs"
  shows "as_port a \<noteq> 0 \<and> fs_ip fs \<noteq> 0 \<and> payloads_inv accepted \<and>
    (\<forall>e\<in>set accepted. rx_entry s e \<and> receive_usable s (entry_format e) rx) \<and>
    (fs_tx fs \<noteq> None \<longrightarrow> (\<exists>r. tx_choice s a (tx, tx_pt, r))) \<and>
    (fs_rx fs \<noteq> None \<longrightarrow> payload_find accepted rx_pt = Some rx) \<and>
    (fs_tx fs \<noteq> None \<and> fs_rx fs \<noteq> None \<longrightarrow> frame_ms tx = frame_ms rx) \<and>
    (fs_tx fs = None \<longrightarrow> tx = disabled_audio_format) \<and> (fs_rx fs = None \<longrightarrow> rx = disabled_audio_format) \<and>
    (fs_tx fs \<noteq> None \<or> fs_rx fs \<noteq> None)"
proof -
  let ?tx = "case fs_tx fs of None \<Rightarrow> (disabled_audio_format, 0) | Some (f, pt, _) \<Rightarrow> (f, pt)"
  let ?rx = "case fs_rx fs of None \<Rightarrow> (disabled_audio_format, 0)
                | Some r \<Rightarrow> if fs_tx fs = None then r else refine_receive s (as_media_flow a) (fs_received fs) (fst ?tx) r"
  have t: "(tx, tx_pt) = ?tx" and r: "(rx, rx_pt) = ?rx" and acc: "accept_payloads s rx (fs_received fs) [] = Some accepted"
    and g: "as_port a \<noteq> 0" "fs_ip fs \<noteq> 0" "fs_tx fs \<noteq> None \<and> fs_rx fs \<noteq> None \<longrightarrow> frame_ms tx = frame_ms rx"
      "fs_tx fs \<noteq> None \<or> fs_rx fs \<noteq> None"
    using out unfolding audio_outcome_def Let_def
    by (auto simp: split_def split: if_splits option.splits)
  have inv: "payloads_inv (fs_received fs)" "distinct (map payload_type (fs_received fs))"
    using ok by (simp_all add: formats_ok_def payloads_inv_def)
  have a: "payloads_inv accepted \<and>
    (\<forall>e\<in>set (fs_received fs). receive_usable s (entry_format e) rx \<longrightarrow> payload_find accepted (payload_type e) = Some (entry_format e)) \<and>
    (\<forall>e\<in>set accepted. \<exists>x\<in>set (fs_received fs). entry_format x = entry_format e \<and> receive_usable s (entry_format e) rx)"
    using accept_payloads_ok [OF acc] by (simp add: payloads_inv_def)
  have "payload_find (fs_received fs) rx_pt = Some rx" if n: "fs_rx fs \<noteq> None"
  proof -
    obtain f pt where f: "fs_rx fs = Some (f, pt)" using n by auto
    then have "payload_find (fs_received fs) pt = Some f" using ok by (simp add: formats_ok_def)
    then show ?thesis
      using r f refine_receive_in [OF _ inv(2), of "(f, pt)" s "as_media_flow a" "fst ?tx"]
      by (cases "fs_tx fs = None") (simp_all add: prod_eq_iff)
  qed
  then have "payload_find accepted rx_pt = Some rx" if n: "fs_rx fs \<noteq> None"
  proof -
    assume "fs_rx fs \<noteq> None \<Longrightarrow> payload_find (fs_received fs) rx_pt = Some rx"
    then obtain e where "e \<in> set (fs_received fs)" "payload_type e = rx_pt" "entry_format e = rx"
      using n payload_find_SomeD by metis
    then show ?thesis using a by (auto simp: receive_usable_def)
  qed
  moreover have "\<forall>e\<in>set accepted. rx_entry s e \<and> receive_usable s (entry_format e) rx"
    using a ok by (metis formats_ok_def rx_entry_def)
  moreover have "fs_tx fs \<noteq> None \<longrightarrow> (\<exists>r. tx_choice s a (tx, tx_pt, r))"
    using t ok by (auto simp: formats_ok_def split: option.splits)
  moreover have "fs_tx fs = None \<longrightarrow> tx = disabled_audio_format" "fs_rx fs = None \<longrightarrow> rx = disabled_audio_format"
    using t r by auto
  ultimately show ?thesis using a g by blast
qed

text \<open>The format of a chosen direction is a local format, so it is not the disabled one.\<close>

lemma audio_outcome_enabled:
  assumes out: "audio_outcome s a fs = Some (tx, rx, tx_pt, rx_pt, accepted)" and ok: "formats_ok s a fs"
    and v: "\<forall>f\<in>set (offer_tx_formats s) \<union> set (offer_rx_formats s). format_valid f"
  shows "format_valid tx \<or> format_valid rx"
proof (cases "fs_tx fs = None")
  case True
  then have "payload_find accepted rx_pt = Some rx" and "payloads_inv accepted" using audio_outcome_ok [OF out ok] by auto
  then show ?thesis by (auto simp: payloads_inv_def dest!: payload_find_SomeD)
next
  case False
  then show ?thesis using audio_outcome_ok [OF out ok] v by (auto simp: tx_choice_def)
qed

section \<open>Learning\<close>

text \<open>Video negotiation leaves the audio agreement alone.\<close>

lemma video_keeps_audio:
  "let s' = snd (learn_remote_video inet_aton sdp ip is_answer s) in
   selected_tx_format s' = selected_tx_format s \<and> selected_rx_format s' = selected_rx_format s \<and>
   rtp_tx_payload_type s' = rtp_tx_payload_type s \<and> rtp_rx_payload_type s' = rtp_rx_payload_type s \<and>
   negotiated_rx_payloads s' = negotiated_rx_payloads s \<and> remote_rtp_ip s' = remote_rtp_ip s \<and>
   remote_rtp_port s' = remote_rtp_port s"
  by (auto simp: learn_remote_video_def reset_video_negotiation_def Let_def split: option.splits if_splits prod.splits)

definition described :: "string \<Rightarrow> bool \<Rightarrow> endpoint \<Rightarrow> endpoint" where
  "described sdp is_answer s =
     s\<lparr>remote_directional_audio := has_sub ''a=x-voip-stack-flow:'' sdp \<and> (\<not> is_answer \<or> local_offered_directional_audio s),
       remote_media_shape := capture_remote_media_shape (ep_build s) (remote_media_shape s) sdp\<rparr>"

lemma learn_cases:
  assumes "learn_remote_rtp inet_aton sdp ip is_answer s0 = (ok, s')"
  defines "s \<equiv> described sdp is_answer s0"
  shows "ok \<and> (\<exists>a fs tx rx tx_pt rx_pt accepted.
      fold_option audio_scan_line (numbered_lines sdp) new_audio_scan = Some a \<and>
      fold_option (format_scan_line inet_aton s is_answer a) (numbered_lines sdp) (new_format_scan ip) = Some fs \<and>
      audio_outcome s a fs = Some (tx, rx, tx_pt, rx_pt, accepted) \<and> \<not> shape_overflow (remote_media_shape s) \<and>
      selected_tx_format s' = tx \<and> selected_rx_format s' = rx \<and> rtp_tx_payload_type s' = tx_pt \<and>
      rtp_rx_payload_type s' = rx_pt \<and> negotiated_rx_payloads s' = accepted \<and> remote_rtp_ip s' = fs_ip fs \<and>
      remote_rtp_port s' = as_port a) \<or> \<not> ok \<and> s' = s"
  using assms(1) unfolding learn_remote_rtp_def s_def [unfolded described_def, symmetric] Let_def
  by (auto simp: set_media_config_def split: if_splits option.splits prod.splits
      dest!: arg_cong [where f = snd] simp: video_keeps_audio [unfolded Let_def])

lemma learn_accepts:
  assumes "fold_option audio_scan_line (numbered_lines sdp) new_audio_scan = Some a"
    and "fold_option (format_scan_line inet_aton (described sdp is_answer s) is_answer a) (numbered_lines sdp)
           (new_format_scan ip) = Some fs"
    and "audio_outcome (described sdp is_answer s) a fs = Some (tx, rx, tx_pt, rx_pt, accepted)"
    and "\<not> shape_overflow (remote_media_shape (described sdp is_answer s))"
  shows "\<exists>s'. learn_remote_rtp inet_aton sdp ip is_answer s = (True, s') \<and> selected_tx_format s' = tx \<and>
     selected_rx_format s' = rx"
proof -
  have "fst (learn_remote_rtp inet_aton sdp ip is_answer s)"
    using assms unfolding learn_remote_rtp_def Let_def described_def [symmetric] by simp
  then obtain s' where run: "learn_remote_rtp inet_aton sdp ip is_answer s = (True, s')" by (metis prod.collapse)
  then show ?thesis using learn_cases [OF run] assms by auto
qed

end
