(* ===== verification/SipTextProps.thy ===== *)
theory SipTextProps
  imports SipText
begin

text \<open>
  Properties of the header texts: trimming and searching, percent escapes in URI users, the printed
  name-addr and its two readers, and dialog tags.
\<close>


section \<open>Trimming and searching\<close>

lemma trim_id:
  assumes "s = [] \<or> \<not> trim_space (hd s) \<and> \<not> trim_space (last s)"
  shows "trim_copy s = s"
proof (cases "s = []")
  case False
  with assms have "dropWhile trim_space s = s" "dropWhile trim_space (rev s) = rev s"
    by (auto simp: dropWhile_eq_self_iff hd_rev)
  then show ?thesis by (simp add: trim_copy_def)
qed (simp add: trim_copy_def)

lemma dropWhile_id: "s = [] \<or> \<not> P (hd s) \<Longrightarrow> dropWhile P s = s"
  by (cases s) auto

lemma trim_no_space: "\<forall>c\<in>set s. \<not> trim_space c \<Longrightarrow> trim_copy s = s"
  by (rule trim_id) (cases s, auto)

lemma set_trim: "set (trim_copy s) \<subseteq> set s"
  unfolding trim_copy_def by (metis set_dropWhileD set_rev subsetI)

lemma length_trim: "length (trim_copy s) \<le> length s"
  unfolding trim_copy_def by (metis length_dropWhile_le length_rev le_trans)

lemma trim_ends: "trim_copy s = [] \<or> \<not> trim_space (hd (trim_copy s)) \<and> \<not> trim_space (last (trim_copy s))"
proof -
  let ?d = "dropWhile trim_space s"
  let ?r = "dropWhile trim_space (rev ?d)"
  show ?thesis
  proof (cases "?r = []")
    case True
    then show ?thesis by (simp add: trim_copy_def)
  next
    case False
    then have "\<not> trim_space (hd ?r)" by (rule hd_dropWhile)
    moreover have "\<not> trim_space (last ?r)"
    proof -
      have "?d \<noteq> []" using False by (metis dropWhile.simps(1) rev.simps(1))
      then have "\<not> trim_space (hd ?d)" by (rule hd_dropWhile)
      moreover have "last ?r = last (rev ?d)" using False by (metis last_appendR takeWhile_dropWhile_id)
      then have "last ?r = hd ?d" using \<open>?d \<noteq> []\<close> by (simp only: last_rev)
      ultimately show ?thesis by simp
    qed
    ultimately show ?thesis using False by (simp add: trim_copy_def hd_rev last_rev)
  qed
qed

lemma trim_trim [simp]: "trim_copy (trim_copy s) = trim_copy s"
  using trim_ends [of s] by (rule trim_id)

section \<open>Percent escapes\<close>

lemma hex_digits: "n < 16 \<Longrightarrow> hex_value (hex_digit n) = of_nat n"
proof -
  have "\<forall>n\<in>{0..<16}. hex_value (hex_digit n) = (of_nat n :: byte)"
    by (simp add: hex_digit_def hex_value_def is_digit_def atLeastLessThan_nat_numeral atLeast0LessThan lessThan_nat_numeral)
  then show "n < 16 \<Longrightarrow> ?thesis" by simp
qed

lemma hex_pair:
  assumes "hi < 16" and "lo < 16"
  shows "unat (push_bit 4 (of_nat hi :: byte) OR of_nat lo) = hi * 16 + lo"
proof -
  have "push_bit 4 (of_nat hi :: byte) + of_nat lo = push_bit 4 (of_nat hi) OR of_nat lo"
  proof (rule disjunctive_add)
    fix n
    have "unat (of_nat lo :: byte) < 2 ^ 4" using assms by (simp add: unat_of_nat_small)
    then show "\<not> bit (push_bit 4 (of_nat hi :: byte)) n \<or> \<not> bit (of_nat lo :: byte) n"
      using bit_bound [of "of_nat lo :: byte" 4 n] by (auto simp: bit_push_bit_iff)
  qed
  moreover have "push_bit 4 (of_nat hi :: byte) + of_nat lo = of_nat (hi * 16 + lo)"
    by (simp add: push_bit_eq_mult)
  moreover have "unat (of_nat (hi * 16 + lo) :: byte) = hi * 16 + lo"
    using assms by (intro unat_of_nat_small) simp
  ultimately show ?thesis by simp
qed

lemma hex_digit_value: "n < 16 \<Longrightarrow> hex_value (hex_digit n) \<noteq> 0xFF"
  using unat_of_nat_small [of n, where 'a=8] by (auto simp: hex_digits dest: arg_cong [where f=unat])

lemma code_less_256 [simp]: "code c < 256"
  by (rule nat_of_char_less_256)

lemma escaped_encode:
  "escaped_octet (CHR ''%'') (hex_digit (code c div 16) # hex_digit (code c mod 16) # r) = Some c"
proof -
  have d: "code c div 16 < 16" using code_less_256 [of c] by linarith
  have "unat (push_bit 4 (of_nat (code c div 16) :: byte) OR of_nat (code c mod 16)) = code c"
    using hex_pair [OF d, of "code c mod 16"] by simp
  then show ?thesis
    using hex_digit_value [OF d] hex_digit_value [of "code c mod 16"] hex_digits [OF d] hex_digits [of "code c mod 16"]
    by (simp add: escaped_octet_def)
qed

lemma no_escape: "c \<noteq> CHR ''%'' \<Longrightarrow> escaped_octet c r = None"
  by (simp add: escaped_octet_def)

lemma unreserved_no_percent: "is_sip_uri_unreserved c \<Longrightarrow> c \<noteq> CHR ''%'' \<and> c \<noteq> CR \<and> c \<noteq> LF"
  by (auto simp: is_sip_uri_unreserved_def is_alnum_def is_digit_def is_upper_def is_lower_def)

lemma unescape_encode_char:
  "uri_unescape (encode_char c @ r) = (if c = CR \<or> c = LF then [] else [c]) @ uri_unescape r"
  using unreserved_no_percent [of c] by (simp add: encode_char_def escaped_encode no_escape)

lemma unescape_encode:
  "uri_unescape (concat (map encode_char raw)) = filter (\<lambda>c. c \<noteq> CR \<and> c \<noteq> LF) raw"
  by (induction raw) (auto simp: unescape_encode_char)

lemma take_token_filter: "take_token n (filter (\<lambda>c. c \<noteq> CR \<and> c \<noteq> LF) s) = take_token n s"
  by (induction n s rule: take_token.induct) (auto simp: token_char_def)

lemma encode_Nil_iff: "concat (map encode_char raw) = [] \<longleftrightarrow> (\<forall>c\<in>set raw. c = CR \<or> c = LF)"
  by (induction raw) (auto simp: encode_char_def)

lemma take_token_id: "length s \<le> n \<Longrightarrow> \<forall>c\<in>set s. token_char c \<Longrightarrow> take_token n s = s"
proof (induction n s rule: take_token.induct)
  case (2 n c cs)
  then show ?case by (cases cs) auto
qed simp

lemma hex_digit_unreserved: "n < 16 \<Longrightarrow> is_sip_uri_unreserved (hex_digit n)"
proof -
  have "\<forall>n\<in>{0..<16}. is_sip_uri_unreserved (hex_digit n)"
    by (simp add: hex_digit_def is_sip_uri_unreserved_def is_alnum_def is_digit_def is_upper_def
        atLeast0LessThan lessThan_nat_numeral)
  then show "n < 16 \<Longrightarrow> ?thesis" by simp
qed

lemma encode_char_set: "x \<in> set (encode_char c) \<Longrightarrow> is_sip_uri_unreserved x \<or> x = CHR ''%''"
proof -
  have "code c div 16 < 16" using code_less_256 [of c] by linarith
  then have "is_sip_uri_unreserved (hex_digit (code c div 16))" "is_sip_uri_unreserved (hex_digit (code c mod 16))"
    by (simp_all add: hex_digit_unreserved)
  then show "x \<in> set (encode_char c) \<Longrightarrow> ?thesis" by (auto simp: encode_char_def split: if_splits)
qed

text \<open>
  The user part of a SIP URI survives printing and reading. What \<open>sip_uri_user_encode\<close> prints for
  a name that is not only line breaks has nothing but unreserved characters and percent escapes in it, and
  \<open>sip_uri_user_decode\<close> reads it back as the token form of the name; a trimmed name of token characters
  within the length limit comes back unchanged.
\<close>

theorem uri_user_roundtrip:
  assumes "\<exists>c\<in>set raw. c \<noteq> CR \<and> c \<noteq> LF"
  shows "sip_uri_user_decode (sip_uri_user_encode raw) = sip_header_token raw VOIP_STACK_MAX_REASON_LEN \<and>
    (\<forall>c\<in>set (sip_uri_user_encode raw). is_sip_uri_unreserved c \<or> c = CHR ''%'') \<and>
    (length raw \<le> VOIP_STACK_MAX_REASON_LEN \<and> list_all token_char raw \<and> trim_copy raw = raw \<longrightarrow>
       sip_uri_user_decode (sip_uri_user_encode raw) = raw)"
proof -
  have e: "sip_uri_user_encode raw = concat (map encode_char raw)"
    using assms encode_Nil_iff [of raw] by (auto simp: sip_uri_user_encode_def Let_def)
  have d: "sip_uri_user_decode (sip_uri_user_encode raw) = sip_header_token raw VOIP_STACK_MAX_REASON_LEN"
    by (simp add: e sip_uri_user_decode_def unescape_encode sip_header_token_def take_token_filter)
  moreover have "\<forall>c\<in>set (sip_uri_user_encode raw). is_sip_uri_unreserved c \<or> c = CHR ''%''"
    by (auto simp: e dest: encode_char_set)
  moreover have "sip_header_token raw VOIP_STACK_MAX_REASON_LEN = raw"
    if "length raw \<le> VOIP_STACK_MAX_REASON_LEN" "list_all token_char raw" "trim_copy raw = raw"
    using that by (simp add: sip_header_token_def take_token_id list_all_iff)
  ultimately show ?thesis by simp
qed


theorem uri_user_roundtrip_witness:
  "sip_uri_user_decode (sip_uri_user_encode ''Casa di Bob'') = ''Casa di Bob''"
  using uri_user_roundtrip [of "''Casa di Bob''"] by (simp add: VOIP_STACK_MAX_REASON_LEN_def) code_simp

lemma find_sub_take: "find_sub p s = Some i \<Longrightarrow> p \<noteq> [] \<Longrightarrow> find_sub p (take i s) = None"
proof (induction p s arbitrary: i rule: find_sub.induct)
  case (2 p c cs)
  show ?case
  proof (cases "starts_with p (c # cs)")
    case False
    with 2 obtain j where j: "find_sub p cs = Some j" "i = Suc j" by auto
    have "\<not> starts_with p (c # take j cs)"
    proof
      assume "starts_with p (c # take j cs)"
      then obtain r where "c # take j cs = p @ r" by (auto simp: starts_with_iff)
      then have "c # cs = p @ r @ drop j cs" by (metis append_Cons append_assoc append_take_drop_id)
      with False show False by simp
    qed
    with 2 j False show ?thesis by simp
  qed (use 2 in auto)
qed auto

lemma find_sub_hit: "find_sub p (a @ p @ b) \<noteq> None"
proof (induction a)
  case Nil
  then show ?case using starts_with_append [of p b] by (cases "p @ b") auto
qed auto

lemma trim_Nil [simp]: "trim_copy [] = []"
  by (simp add: trim_copy_def)

lemma find_sub_None_part:
  assumes "find_sub p (a @ s @ b) = None"
  shows "find_sub p s = None"
proof (rule ccontr)
  assume "find_sub p s \<noteq> None"
  then obtain i where i: "find_sub p s = Some i" by auto
  have "\<exists>x y. s = x @ p @ y" using i
  proof (induction p s arbitrary: i rule: find_sub.induct)
    case (2 p c cs)
    show ?case
    proof (cases "starts_with p (c # cs)")
      case True
      then obtain r where "c # cs = [] @ p @ r" by (auto simp: starts_with_iff)
      then show ?thesis by blast
    next
      case False
      with 2 obtain x y where "cs = x @ p @ y" by (auto split: if_splits)
      then have "c # cs = (c # x) @ p @ y" by simp
      then show ?thesis by blast
    qed
  qed (auto split: if_splits)
  then obtain x y where "s = x @ p @ y" by blast
  then have "a @ s @ b = (a @ x) @ p @ (y @ b)" by simp
  with assms find_sub_hit [of p "a @ x" "y @ b"] show False by simp
qed

lemma trim_part: "\<exists>a b. s = a @ trim_copy s @ b"
proof -
  let ?d = "dropWhile trim_space s"
  have "s = takeWhile trim_space s @ ?d" by simp
  moreover have "?d = trim_copy s @ rev (takeWhile trim_space (rev ?d))"
    unfolding trim_copy_def by (metis rev_append rev_rev_ident takeWhile_dropWhile_id)
  ultimately show ?thesis by metis
qed

lemma trim_prefix:
  assumes "p \<noteq> []" and "\<forall>c\<in>set p. \<not> trim_space c"
  shows "\<exists>r'. trim_copy (p @ r) = p @ r'"
proof -
  have "dropWhile trim_space (p @ r) = p @ r" using assms by (cases p) auto
  moreover have "\<exists>r'. dropWhile trim_space (rev r @ rev p) = rev r' @ rev p"
  proof (induction r rule: rev_induct)
    case Nil
    have "dropWhile trim_space (rev p) = rev p" using assms by (simp add: dropWhile_eq_self_iff hd_rev)
    then show ?case by (metis append_Nil rev.simps(1))
  next
    case (snoc x xs)
    then show ?case by (auto intro: exI [of _ "xs @ [x]"])
  qed
  ultimately show ?thesis unfolding trim_copy_def by (metis rev_append rev_rev_ident)
qed

lemma find_char_hit: "c \<notin> set pre \<Longrightarrow> find_char c (pre @ c # r) = Some (length pre)"
  unfolding find_char_def by (rule index_of_append_hit) auto

lemma find_char_None: "find_char c s = None \<longleftrightarrow> c \<notin> set s"
  by (auto simp: find_char_def index_of_None_iff)

lemma find_char_from_None: "find_char_from c s n = None \<longleftrightarrow> c \<notin> set (drop n s)"
  by (auto simp: find_char_from_def index_from_def index_of_None_iff)

lemma find_first_of_None: "find_first_of cs s = None \<longleftrightarrow> set cs \<inter> set s = {}"
  by (auto simp: find_first_of_def index_of_None_iff)

text \<open>A URI taken out of a header has no bracket and no line break.\<close>

lemma name_addr_uri_chars:
  "CHR ''<'' \<notin> set (name_addr_uri v) \<and> CHR ''>'' \<notin> set (name_addr_uri v) \<and>
   CR \<notin> set (name_addr_uri v) \<and> LF \<notin> set (name_addr_uri v)"
proof -
  let ?o = "trim_copy v"
  show ?thesis
  proof (cases "find_first_of CRLF ?o = None")
    case False
    then show ?thesis by (simp add: name_addr_uri_def)
  next
    case eol: True
    then have n: "CR \<notin> set ?o" "LF \<notin> set ?o" by (auto simp: find_first_of_None)
    show ?thesis
    proof (cases "find_char (CHR ''<'') ?o")
      case None
      then have "name_addr_uri v = [] \<or> (name_addr_uri v = ?o \<and> find_char (CHR ''>'') ?o = None)"
        using eol by (simp add: name_addr_uri_def Let_def)
      then show ?thesis using n None by (auto simp: find_char_None)
    next
      case (Some left)
      show ?thesis
      proof (cases "find_char (CHR ''>'') ?o")
        case None
        then show ?thesis using eol Some by (simp add: name_addr_uri_def Let_def)
      next
        case (Some right)
        let ?u = "substr ?o (left + 1) (right - left - 1)"
        have u: "set ?u \<subseteq> set (drop (left + 1) ?o)" by (auto simp: substr_def dest: in_set_takeD)
        have g: "CHR ''>'' \<notin> set ?u"
        proof
          assume "CHR ''>'' \<in> set ?u"
          then obtain j where "j < right - left - 1" "left + 1 + j < length ?o" "?o ! (left + 1 + j) = CHR ''>''"
            by (auto simp: in_set_conv_nth substr_def)
          then have "left + 1 + j < right" by arith
          then have "?o ! (left + 1 + j) \<noteq> CHR ''>''" using index_of_SomeD [OF Some [unfolded find_char_def]] by auto
          then show False using \<open>?o ! (left + 1 + j) = CHR ''>''\<close> by simp
        qed
        have s: "set (trim_copy ?u) \<subseteq> set ?u" by (rule set_trim)
        show ?thesis
          using eol \<open>find_char (CHR ''<'') ?o = Some left\<close> Some g s u n set_drop_subset [of "left + 1" ?o]
          by (auto simp: name_addr_uri_def Let_def find_char_from_None)
      qed
    qed
  qed
qed

lemma strip_facts:
  assumes "strip_angle_uri uri = c" and "c \<noteq> []"
  shows "CHR ''<'' \<notin> set c" "CHR ''>'' \<notin> set c" "CR \<notin> set c" "LF \<notin> set c" "starts_with ''sip:'' (lower c)"
    "find_sub '';tag='' (lower c) = None"
proof -
  let ?o = "name_addr_uri uri"
  define cut where "cut = (case find_sub '';tag='' (lower ?o) of None \<Rightarrow> ?o | Some i \<Rightarrow> take i ?o)"
  have c: "c = cut" "starts_with ''sip:'' (lower cut)"
    using assms by (auto simp: strip_angle_uri_def Let_def cut_def [symmetric] split: if_splits)
  have "set cut \<subseteq> set ?o" by (auto simp: cut_def split: option.splits dest: in_set_takeD)
  then show "CHR ''<'' \<notin> set c" "CHR ''>'' \<notin> set c" "CR \<notin> set c" "LF \<notin> set c"
    using name_addr_uri_chars [of uri] c by auto
  show "starts_with ''sip:'' (lower c)" using c by simp
  show "find_sub '';tag='' (lower c) = None"
    using find_sub_take [of "'';tag=''" "lower ?o"] by (auto simp: c cut_def take_map split: option.splits)
qed

lemma name_addr_uri_angle:
  assumes "CHR ''<'' \<notin> set pre" "CHR ''>'' \<notin> set pre" "CR \<notin> set pre" "LF \<notin> set pre"
    and "CHR ''<'' \<notin> set c" "CHR ''>'' \<notin> set c" "CR \<notin> set c" "LF \<notin> set c" "c \<noteq> []"
    and "pre = [] \<or> \<not> trim_space (hd pre)"
  shows "name_addr_uri (pre @ CHR ''<'' # c @ [CHR ''>'']) = trim_copy c"
proof -
  let ?v = "pre @ CHR ''<'' # c @ [CHR ''>'']"
  have t: "trim_copy ?v = ?v"
    using assms(10) by (intro trim_id) (cases pre, auto simp: trim_space_def)
  have l: "find_char (CHR ''<'') ?v = Some (length pre)" using assms by (simp add: find_char_hit)
  have "find_char (CHR ''>'') ((pre @ CHR ''<'' # c) @ CHR ''>'' # []) = Some (length (pre @ CHR ''<'' # c))"
    by (rule find_char_hit) (use assms in auto)
  then have r: "find_char (CHR ''>'') ?v = Some (length pre + 1 + length c)" by simp
  have e: "find_first_of CRLF ?v = None" using assms by (auto simp: find_first_of_None)
  have u: "substr ?v (length pre + 1) (length c) = c" "drop (length pre + 1 + length c + 1) ?v = []"
    by (simp_all add: substr_def)
  have q: "find_char_from (CHR ''<'') ?v (length pre + 1) = None" "find_char_from (CHR ''>'') ?v (length pre + 1 + length c + 1) = None"
    using assms by (simp_all add: find_char_from_None)
  show ?thesis
    using u q assms(9) by (simp add: name_addr_uri_def t l r e Let_def)
qed

lemma strip_angle:
  assumes c: "strip_angle_uri uri = c" "c \<noteq> []"
    and pre: "CHR ''<'' \<notin> set pre" "CHR ''>'' \<notin> set pre" "CR \<notin> set pre" "LF \<notin> set pre"
      "pre = [] \<or> \<not> trim_space (hd pre)"
  shows "strip_angle_uri (pre @ CHR ''<'' # c @ [CHR ''>'']) = trim_copy c"
proof -
  note f = strip_facts [OF c]
  have n: "name_addr_uri (pre @ CHR ''<'' # c @ [CHR ''>'']) = trim_copy c"
    using name_addr_uri_angle [of pre c] pre f c(2) by blast
  obtain a b where "c = a @ trim_copy c @ b" using trim_part by blast
  then have "lower c = lower a @ lower (trim_copy c) @ lower b" by (metis map_append)
  then have t: "find_sub '';tag='' (lower (trim_copy c)) = None"
    using f(6) find_sub_None_part by metis
  obtain r where "lower c = ''sip:'' @ r" using f(5) by (auto simp: starts_with_iff)
  then have s4: "lower (take 4 c) = ''sip:''" "c = take 4 c @ drop 4 c" by (simp_all add: take_map [symmetric])
  have low: "to_lower x = y \<Longrightarrow> trim_space x \<Longrightarrow> trim_space y" for x y by (auto simp: to_lower_def trim_space_def is_upper_def)
  have "\<not> trim_space x" if "x \<in> set (take 4 c)" for x
  proof
    assume "trim_space x"
    then have "trim_space (to_lower x)" using low by blast
    moreover have "to_lower x \<in> set ''sip:''" using that s4(1) by (metis image_eqI list.set_map)
    ultimately show False by (auto simp: trim_space_def)
  qed
  then obtain r' where r': "trim_copy c = take 4 c @ r'"
    using trim_prefix [of "take 4 c" "drop 4 c"] s4 c(2) by auto
  then have "starts_with ''sip:'' (lower (trim_copy c))" using s4(1) by (simp add: starts_with_iff)
  moreover have "find_first_of CRLF (trim_copy c) = None" using f set_trim [of c] by (auto simp: find_first_of_None)
  ultimately show ?thesis using n t by (simp add: strip_angle_uri_def Let_def)
qed


lemma set_trim_nonspace: "c \<in> set s \<Longrightarrow> \<not> trim_space c \<Longrightarrow> c \<in> set (trim_copy s)"
proof -
  have "c \<in> set (dropWhile P s)" if "c \<in> set s" "\<not> P c" for P and s :: string
    using that by (induction s) auto
  then show "c \<in> set s \<Longrightarrow> \<not> trim_space c \<Longrightarrow> c \<in> set (trim_copy s)" by (simp add: trim_copy_def)
qed

lemma find_char_in:
  assumes "c \<in> set q"
  shows "\<exists>i<length q. \<forall>r. find_char c (q @ r) = Some i"
proof -
  obtain i where "index_of ((=) c) q = Some i" using assms by (cases "index_of ((=) c) q") (auto simp: index_of_None_iff)
  then show ?thesis by (auto simp: find_char_def index_of_append dest: index_of_SomeD)
qed

text \<open>A bracket before the bracket of the URI hides the URI.\<close>

lemma name_addr_uri_bracket:
  assumes q: "CHR ''<'' \<in> set q \<or> CHR ''>'' \<in> set q" and h: "\<not> trim_space (hd q)"
  shows "name_addr_uri (q @ CHR ''<'' # c @ [CHR ''>'']) = []"
proof -
  let ?v = "q @ CHR ''<'' # c @ [CHR ''>'']"
  have "q \<noteq> []" using q by auto
  then have t: "trim_copy ?v = ?v" using h by (intro trim_id) (simp add: trim_space_def)
  show ?thesis
  proof (cases "CHR ''<'' \<in> set q")
    case True
    then obtain i where i: "i < length q" "find_char (CHR ''<'') ?v = Some i" by (metis find_char_in)
    then have "find_char_from (CHR ''<'') ?v (i + 1) \<noteq> None" by (simp add: find_char_from_None)
    then show ?thesis by (simp add: name_addr_uri_def t i Let_def split: option.split)
  next
    case False
    then have l: "find_char (CHR ''<'') ?v = Some (length q)" by (simp add: find_char_hit)
    from False q obtain i where i: "i < length q" "find_char (CHR ''>'') ?v = Some i" by (metis find_char_in)
    then show ?thesis by (simp add: name_addr_uri_def t l Let_def)
  qed
qed

section \<open>Names and addresses\<close>

lemma scan_quoted_quote:
  "list_all (\<lambda>c. \<not> control_char c) d \<Longrightarrow>
   scan_quoted False (concat (map quote_char d) @ DQUOTE # r) = Some d"
  by (induction d) (auto simp: quote_char_def control_char_def)

lemma quote_char_set: "x \<in> set (concat (map quote_char d)) \<Longrightarrow> x \<in> set d \<or> x = BACKSLASH"
  by (auto simp: quote_char_def split: if_splits)

lemma control_no_eol: "\<not> control_char c \<Longrightarrow> c \<noteq> CR \<and> c \<noteq> LF"
  by (auto simp: control_char_def)

lemma trim_snoc_space: "s \<noteq> [] \<Longrightarrow> \<not> trim_space (hd s) \<Longrightarrow> \<not> trim_space (last s) \<Longrightarrow> trim_copy (s @ '' '') = s"
proof -
  assume a: "s \<noteq> []" "\<not> trim_space (hd s)" "\<not> trim_space (last s)"
  then have "dropWhile trim_space (s @ '' '') = s @ '' ''" by (cases s) auto
  moreover have "dropWhile trim_space (rev s) = rev s" using a by (simp add: dropWhile_eq_self_iff hd_rev)
  ultimately show ?thesis by (simp add: trim_copy_def trim_space_def)
qed

text \<open>
  A name-addr printed by \<open>sip_name_addr\<close> is read back. For a URI that \<open>strip_angle_uri\<close> accepts and
  a display name without control characters or angle brackets, the printed header value gives the trimmed
  URI again, and the display name again when it fits the limit, quotes and backslashes in it included.
\<close>

theorem name_addr_roundtrip:
  assumes c: "strip_angle_uri uri = c" "c \<noteq> []" and d: "trim_copy display = d" "list_all (\<lambda>x. \<not> control_char x) d"
    and angles: "CHR ''<'' \<notin> set d" "CHR ''>'' \<notin> set d"
  shows "strip_angle_uri (sip_name_addr uri display) = trim_copy c \<and>
    (length d \<le> max_bytes \<longrightarrow> sip_display_name_from_header (sip_name_addr uri display) max_bytes = d)"
proof (cases "d = []")
  case True
  then have v: "sip_name_addr uri display = [] @ CHR ''<'' # c @ [CHR ''>'']"
    using c d by (simp add: sip_name_addr_def Let_def)
  show ?thesis unfolding v using strip_angle [OF c, of "[]"] True
    by (simp add: sip_display_name_from_header_def find_char_def)
next
  case False
  let ?q = "concat (map quote_char d)"
  let ?pre = "DQUOTE # ?q @ [DQUOTE] @ '' ''"
  have v: "sip_name_addr uri display = ?pre @ CHR ''<'' # c @ [CHR ''>'']"
    using c d False by (auto simp: sip_name_addr_def Let_def sip_quoted_def list_all_iff list_ex_iff)
  have q: "x \<notin> set ?q" if "x \<notin> set d" "x \<noteq> BACKSLASH" for x
    using that quote_char_set by blast
  have eol: "CR \<notin> set d" "LF \<notin> set d" using d(2) by (auto simp: list_all_iff dest: control_no_eol)
  have p: "CHR ''<'' \<notin> set ?pre" "CHR ''>'' \<notin> set ?pre" "CR \<notin> set ?pre" "LF \<notin> set ?pre" "\<not> trim_space (hd ?pre)"
    using q [of "CHR ''<''"] q [of "CHR ''>''"] q [of CR] q [of LF] angles eol by (auto simp: trim_space_def)
  have s: "strip_angle_uri (sip_name_addr uri display) = trim_copy c"
    unfolding v by (rule strip_angle [OF c]) (use p in auto)
  define n where "n = length ?pre"
  have f: "find_char (CHR ''<'') (sip_name_addr uri display) = Some n"
    unfolding v n_def by (rule find_char_hit) (use p in auto)
  have "take n (sip_name_addr uri display) = (DQUOTE # ?q @ [DQUOTE]) @ '' ''"
    unfolding v n_def by (simp only: append.simps append_assoc take_append) simp
  then have t: "trim_copy (take n (sip_name_addr uri display)) = DQUOTE # ?q @ [DQUOTE]"
    by (simp only:) (rule trim_snoc_space, auto simp: trim_space_def)
  have "trim_copy d = d" using d(1) by auto
  then have "sip_display_name_from_header (sip_name_addr uri display) max_bytes = d" if "length d \<le> max_bytes"
    using scan_quoted_quote [OF d(2), of "[]"] that d(2)
    by (auto simp: sip_display_name_from_header_def f t Let_def list_all_iff list_ex_iff)
  with s show ?thesis by simp
qed


theorem name_addr_roundtrip_witness:
  "strip_angle_uri (sip_name_addr ''sip:bob@10.0.0.5'' (DQUOTE # ''B'' @ [DQUOTE] @ '' Smith'')) = ''sip:bob@10.0.0.5'' \<and>
   sip_display_name_from_header (sip_name_addr ''sip:bob@10.0.0.5'' (DQUOTE # ''B'' @ [DQUOTE] @ '' Smith'')) 64 =
     DQUOTE # ''B'' @ [DQUOTE] @ '' Smith''"
proof -
  have u: "strip_angle_uri ''sip:bob@10.0.0.5'' = ''sip:bob@10.0.0.5''" by code_simp
  have d: "trim_copy (DQUOTE # ''B'' @ [DQUOTE] @ '' Smith'') = DQUOTE # ''B'' @ [DQUOTE] @ '' Smith''" by code_simp
  have c: "list_all (\<lambda>x. \<not> control_char x) (DQUOTE # ''B'' @ [DQUOTE] @ '' Smith'')" by code_simp
  have t: "trim_copy ''sip:bob@10.0.0.5'' = ''sip:bob@10.0.0.5''" by code_simp
  show ?thesis using name_addr_roundtrip [OF u _ d c, of 64] t by simp
qed

text \<open>
  Angle brackets in a display name make the header unreadable for this code. The quoted string that
  \<open>sip_name_addr\<close> prints may hold brackets, but \<open>strip_angle_uri\<close> looks for the first bracket without
  regard to quotes: a value printed for a display name with a bracket in it has no URI any more.
\<close>

theorem bracketed_display_name_unreadable:
  assumes "CHR ''<'' \<in> set display \<or> CHR ''>'' \<in> set display"
  shows "strip_angle_uri (sip_name_addr uri display) = []"
proof (cases "sip_name_addr uri display = []")
  case True
  then show ?thesis by (simp add: strip_angle_uri_def name_addr_uri_def find_char_def find_char_from_def index_from_def
        find_first_of_def Let_def)
next
  case False
  let ?d = "trim_copy display" and ?c = "strip_angle_uri uri"
  have m: "CHR ''<'' \<in> set ?d \<or> CHR ''>'' \<in> set ?d"
    using assms set_trim_nonspace [of "CHR ''<''" display] set_trim_nonspace [of "CHR ''>''" display]
    by (auto simp: trim_space_def)
  then have "?d \<noteq> []" by auto
  let ?q = "sip_quoted ?d @ '' ''"
  have v: "sip_name_addr uri display = ?q @ CHR ''<'' # ?c @ [CHR ''>'']"
    using False \<open>?d \<noteq> []\<close> by (simp add: sip_name_addr_def Let_def split: if_splits)
  have q: "CHR ''<'' \<in> set ?q \<or> CHR ''>'' \<in> set ?q"
    using m by (auto simp: sip_quoted_def quote_char_def)
  have "name_addr_uri (sip_name_addr uri display) = []"
    unfolding v by (rule name_addr_uri_bracket [OF q]) (simp add: sip_quoted_def trim_space_def)
  then show ?thesis by (simp add: strip_angle_uri_def)
qed

theorem bracketed_display_name_unreadable_witness:
  "strip_angle_uri (sip_name_addr ''sip:bob@10.0.0.5'' ''Bob <office>'') = [] \<and>
   sip_name_addr ''sip:bob@10.0.0.5'' ''Bob <office>'' \<noteq> []"
proof
  show "strip_angle_uri (sip_name_addr ''sip:bob@10.0.0.5'' ''Bob <office>'') = []"
    by (rule bracketed_display_name_unreadable) simp
  show "sip_name_addr ''sip:bob@10.0.0.5'' ''Bob <office>'' \<noteq> []" by code_simp
qed


section \<open>Tags\<close>

lemma split_on_none: "d \<notin> set s \<Longrightarrow> split_on d s = [s]"
  by (subst split_on.simps) (simp add: find_char_None [THEN iffD2])

lemma split_on_hit: "d \<notin> set a \<Longrightarrow> split_on d (a @ d # b) = a # split_on d b"
  by (subst split_on.simps) (simp add: find_char_hit)

lemma first_tag_params:
  assumes "\<forall>p\<in>set ps. CHR '';'' \<notin> set p \<and> tag_parameter p = None" and "CHR '';'' \<notin> set a" and "CHR '';'' \<notin> set t"
  shows "first_tag (tl (split_on (CHR '';'') (a @ concat (map (\<lambda>p. '';'' @ p) ps) @ '';'' @ t))) =
     (case tag_parameter t of None \<Rightarrow> [] | Some x \<Rightarrow> x)"
proof -
  have "split_on (CHR '';'') (a @ concat (map (\<lambda>p. '';'' @ p) ps) @ '';'' @ t) = a # ps @ [t]"
    using assms
  proof (induction ps arbitrary: a)
    case Nil
    then show ?case by (simp add: split_on_hit split_on_none)
  next
    case (Cons p ps)
    then show ?case using split_on_hit [of "CHR '';''" a "p @ concat (map (\<lambda>p. '';'' @ p) ps) @ '';'' @ t"] by simp
  qed
  moreover have "first_tag (ps @ [t]) = first_tag [t]" using assms(1) by (induction ps) auto
  ultimately show ?thesis by (simp split: option.split)
qed

lemma tag_parameter_tag:
  assumes "\<forall>c\<in>set t. \<not> trim_space c"
  shows "tag_parameter (''tag='' @ t) = Some t"
proof -
  have t: "trim_copy (''tag='' @ t) = ''tag='' @ t"
    by (rule trim_no_space) (use assms in \<open>auto simp: trim_space_def\<close>)
  have f: "find_char (CHR ''='') (''tag='' @ t) = Some 3" by (simp add: find_char_def)
  have l: "lower (trim_copy (take 3 (''tag='' @ t))) = ''tag''" 
  proof -
    have "take 3 (''tag='' @ t) = ''tag''" by simp
    then show ?thesis by (simp only:) code_simp
  qed
  have d: "drop (Suc 3) (''tag='' @ t) = t" by simp
  have tt: "trim_copy t = t" using assms by (rule trim_no_space)
  have i: "index_of trim_space t = None" using assms by (simp add: index_of_None_iff)
  show ?thesis
    unfolding tag_parameter_def t f Let_def option.case l d tt i by simp
qed

text \<open>
  The tag of a dialog is the tag parameter after the address. When no bracket stands before the
  closing one of the address, \<open>tag_from_header\<close> skips every parameter that is not a tag and returns the tag,
  whatever the parameters of the URI inside the brackets say.
\<close>

theorem tag_of_name_addr:
  assumes "CHR ''>'' \<notin> set pre" and "\<forall>p\<in>set ps. CHR '';'' \<notin> set p \<and> tag_parameter p = None"
    and "\<forall>c\<in>set t. \<not> trim_space c \<and> c \<noteq> CHR '';''"
  shows "tag_from_header (pre @ ''>'' @ concat (map (\<lambda>p. '';'' @ p) ps) @ '';tag='' @ t) = t"
proof -
  let ?r = "concat (map (\<lambda>p. '';'' @ p) ps) @ '';'' @ (''tag='' @ t)"
  have v: "pre @ ''>'' @ concat (map (\<lambda>p. '';'' @ p) ps) @ '';tag='' @ t = pre @ CHR ''>'' # ?r" by simp
  have s: "CHR '';'' \<notin> set (''tag='' @ t)" using assms(3) by auto
  have d: "drop (length pre + 1) (pre @ CHR ''>'' # ?r) = ?r" by simp
  show ?thesis
    unfolding v tag_from_header_def find_char_hit [OF assms(1)] option.case Let_def d
    using first_tag_params [OF assms(2) _ s, of "[]", unfolded append_Nil] tag_parameter_tag [of t] assms(3) by simp
qed

theorem tag_of_name_addr_witness:
  "tag_from_header (''<sip:bob@10.0.0.5;tag=inner'' @ ''>'' @ '';x=1'' @ '';tag='' @ ''abc'') = ''abc''"
proof -
  have p: "tag_parameter ''x=1'' = None" by code_simp
  show ?thesis
    using tag_of_name_addr [of "''<sip:bob@10.0.0.5;tag=inner''" "[''x=1'']" "''abc''"] p
    by (simp add: trim_space_def)
qed

text \<open>
  A bracket inside a quoted display name moves the start of the header parameters: a display name
  that holds \<open>>;tag=\<close> decides the dialog tag, and the real tag after the address is not read.
\<close>

theorem display_name_forges_tag:
  assumes "\<forall>c\<in>set e. \<not> trim_space c \<and> c \<noteq> CHR '';''"
  shows "tag_from_header (DQUOTE # ''x>;tag='' @ e @ '';'' @ [DQUOTE] @ '' <sip:'' @ user @ ''>;tag='' @ t) = e"
proof -
  let ?r = "'';tag='' @ e @ '';'' @ [DQUOTE] @ '' <sip:'' @ user @ ''>;tag='' @ t"
  have h: "find_char (CHR ''>'') ((DQUOTE # ''x'') @ CHR ''>'' # ?r) = Some (length (DQUOTE # ''x''))"
    by (rule find_char_hit) simp
  have d: "drop (length (DQUOTE # ''x'') + 1) ((DQUOTE # ''x'') @ CHR ''>'' # ?r) = ?r" by simp
  have v: "DQUOTE # ''x>;tag='' @ e @ '';'' @ [DQUOTE] @ '' <sip:'' @ user @ ''>;tag='' @ t = (DQUOTE # ''x'') @ CHR ''>'' # ?r"
    by simp
  let ?q = "[DQUOTE] @ '' <sip:'' @ user @ ''>;tag='' @ t"
  have "split_on (CHR '';'') ([] @ CHR '';'' # (''tag='' @ e @ '';'' @ ?q)) = [] # split_on (CHR '';'') (''tag='' @ e @ '';'' @ ?q)"
    by (rule split_on_hit) simp
  moreover have "split_on (CHR '';'') ((''tag='' @ e) @ CHR '';'' # ?q) = (''tag='' @ e) # split_on (CHR '';'') ?q"
    by (rule split_on_hit) (use assms in auto)
  ultimately have "split_on (CHR '';'') ?r = [] # (''tag='' @ e) # split_on (CHR '';'') ?q" by simp
  then have "first_tag (tl (split_on (CHR '';'') ?r)) = e"
    using tag_parameter_tag [of e] assms by simp
  then show ?thesis unfolding v tag_from_header_def h option.case Let_def d .
qed

theorem display_name_forges_tag_witness:
  "tag_from_header (DQUOTE # ''x>;tag='' @ ''evil'' @ '';'' @ [DQUOTE] @ '' <sip:'' @ ''bob@10.0.0.5'' @ ''>;tag='' @ ''abc'') = ''evil''"
  by (rule display_name_forges_tag) (simp add: trim_space_def)

end
