(* ===== verification/SipFraming.thy ===== *)
theory SipFraming
  imports SipTextProps
begin

text \<open>
  Numbers in headers are read exactly, up to the limit, without wrap-around; the end of the header,
  the body and the declared length of a message in a stream.
\<close>


section \<open>Numbers\<close>

abbreviation add_digit :: "nat \<Rightarrow> char \<Rightarrow> nat" where "add_digit v c \<equiv> v * 10 + (code c - 48)"

lemma add_digits_ge: "v \<le> foldl add_digit v cs"
proof (induction cs arbitrary: v)
  case (Cons c cs)
  have "v \<le> add_digit v c" by simp
  also have "\<dots> \<le> foldl add_digit (add_digit v c) cs" by (rule Cons)
  finally show ?case by simp
qed simp

lemma decimal_step:
  assumes d: "d \<le> 9" and p: "unat p \<le> unat m"
  shows "(of_nat d > (m :: u32) \<or> (p :: u32) > (m - of_nat d) div 10) \<longleftrightarrow> unat m < unat p * 10 + d"
    and "unat p * 10 + d \<le> unat m \<Longrightarrow> unat (p * 10 + of_nat d) = unat p * 10 + d"
proof -
  have u: "unat (of_nat d :: u32) = d" using d by (intro unat_of_nat_small) simp
  show "(of_nat d > m \<or> p > (m - of_nat d) div 10) \<longleftrightarrow> unat m < unat p * 10 + d"
  proof (cases "d \<le> unat m")
    case True
    then have "(of_nat d :: u32) \<le> m" by (simp add: word_le_nat_alt u)
    then have "unat (m - of_nat d) = unat m - d" by (simp add: unat_sub u)
    then have "p > (m - of_nat d) div 10 \<longleftrightarrow> (unat m - d) div 10 < unat p"
      by (simp add: word_less_nat_alt unat_div)
    also have "\<dots> \<longleftrightarrow> unat m < unat p * 10 + d" using True by linarith
    finally show ?thesis using True by (simp add: word_less_nat_alt u)
  next
    case False
    then show ?thesis by (simp add: word_less_nat_alt u)
  qed
  assume "unat p * 10 + d \<le> unat m"
  then have l: "unat p * 10 + d < 2 ^ 32" using unat_word_lt [of m] by simp
  have "p * 10 + of_nat d = of_nat (unat p * 10 + d)" by simp
  then show "unat (p * 10 + of_nat d) = unat p * 10 + d"
    using l unat_of_nat_small [of "unat p * 10 + d", where 'a=32] by (simp only:) simp
qed

lemma decimal_loop_exact:
  "unat p \<le> unat m \<Longrightarrow> decimal_loop m p cs =
     (if list_all is_digit cs \<and> foldl add_digit (unat p) cs \<le> unat m
      then Some (of_nat (foldl add_digit (unat p) cs)) else None)"
proof (induction m p cs rule: decimal_loop.induct)
  case (2 m p c cs)
  show ?case
  proof (cases "is_digit c")
    case True
    let ?d = "code c - 48"
    have d: "?d \<le> 9" using True unfolding is_digit_def by linarith
    note st = decimal_step [OF d 2(2)]
    show ?thesis
    proof (cases "unat m < unat p * 10 + ?d")
      case big: True
      then have "unat m < foldl add_digit (unat p) (c # cs)" using add_digits_ge [of "unat p * 10 + ?d" cs] by simp
      then show ?thesis using st(1) big by (simp add: Let_def True)
    next
      case False
      then have n: "unat (p * 10 + of_nat ?d) = unat p * 10 + ?d" using st(2) by simp
      have "decimal_loop m (p * 10 + of_nat ?d) cs =
        (if list_all is_digit cs \<and> foldl add_digit (unat (p * 10 + of_nat ?d)) cs \<le> unat m
         then Some (of_nat (foldl add_digit (unat (p * 10 + of_nat ?d)) cs)) else None)"
        using 2(1) [OF refl] True False st(1) n by simp
      then show ?thesis using True st(1) False unfolding n by (simp add: Let_def)
    qed
  qed (simp add: Let_def)
qed simp

lemma parse_decimal_exact:
  "parse_decimal_u32 raw m =
     (let t = trim_copy raw in
      if t \<noteq> [] \<and> list_all is_digit t \<and> digits_value t \<le> unat m then Some (of_nat (digits_value t)) else None)"
  by (simp add: parse_decimal_u32_def Let_def decimal_loop_exact digits_value_def)

lemma no_space_dec: "trim_copy (dec n) = dec n"
  by (rule trim_no_space) (use dec_digits [of n] in \<open>auto simp: trim_space_def dest!: bspec is_digit_simps\<close>)

lemma parse_dec: "n \<le> unat m \<Longrightarrow> parse_decimal_u32 (dec n) m = Some (of_nat n)"
  using dec_digits [of n] by (simp add: parse_decimal_exact no_space_dec list_all_iff Let_def)

lemma length_loop_exact:
  "length_loop p cs = (if list_all is_digit cs \<and> foldl add_digit p cs \<le> 8192 then Some (foldl add_digit p cs) else None)"
  if "p \<le> 8192"
  using that
proof (induction p cs rule: length_loop.induct)
  case (2 p c cs)
  show ?case
  proof (cases "is_digit c")
    case True
    then have "code c - 48 \<le> 9" unfolding is_digit_def by linarith
    then have st: "p > (8192 - (code c - 48)) div 10 \<longleftrightarrow> 8192 < add_digit p c" by linarith
    show ?thesis
    proof (cases "8192 < add_digit p c")
      case big: True
      then have "8192 < foldl add_digit p (c # cs)" using add_digits_ge [of "add_digit p c" cs] by simp
      then show ?thesis using big st by (simp add: Let_def True MAX_SIP_TCP_RX_BUFFER_def)
    next
      case False
      then show ?thesis using 2 st True by (simp add: Let_def MAX_SIP_TCP_RX_BUFFER_def)
    qed
  qed (simp add: Let_def)
qed simp

section \<open>Framing\<close>

lemma find_header_end_skip:
  "LF \<notin> set l \<Longrightarrow> \<not> starts_with CRLF r \<Longrightarrow>
   find_sub HEADER_END (l @ CRLF @ r) = map_option ((+) (length l + 2)) (find_sub HEADER_END r)"
proof (induction l)
  case Nil
  have "\<not> starts_with HEADER_END (LF # r)" by simp
  then show ?case using Nil by (cases "find_sub HEADER_END r") auto
next
  case (Cons c l)
  have "\<not> starts_with HEADER_END (c # l @ CRLF @ r)" using Cons.prems by (cases l) auto
  with Cons show ?case by (cases "find_sub HEADER_END r") auto
qed

lemma find_header_end_hit: "LF \<notin> set l \<Longrightarrow> find_sub HEADER_END (l @ HEADER_END @ r) = Some (length l)"
proof (induction l)
  case (Cons c l)
  have "\<not> starts_with HEADER_END (c # l @ HEADER_END @ r)" using Cons.prems by (cases l) auto
  with Cons show ?case by simp
qed simp

definition message_of :: "string list \<Rightarrow> string \<Rightarrow> string" where
  "message_of hs body = concat (map (\<lambda>l. l @ CRLF) hs) @ CRLF @ body"

lemma find_header_end:
  assumes "\<forall>l\<in>set hs. LF \<notin> set l \<and> l \<noteq> []" and "LF \<notin> set l" and "l \<noteq> []"
  shows "find_sub HEADER_END (concat (map (\<lambda>l. l @ CRLF) hs) @ l @ HEADER_END @ r) =
     Some (length (concat (map (\<lambda>l. l @ CRLF) hs)) + length l)"
  using assms
proof (induction hs)
  case Nil
  then show ?case using find_header_end_hit by simp
next
  case (Cons h hs)
  let ?r = "concat (map (\<lambda>l. l @ CRLF) hs) @ l @ HEADER_END @ r"
  have "\<not> starts_with CRLF ?r"
  proof (cases hs)
    case Nil
    then show ?thesis using Cons.prems by (cases l; cases "tl l") auto
  next
    case (Cons h' hs')
    then show ?thesis using \<open>\<forall>l\<in>set (h # hs). LF \<notin> set l \<and> l \<noteq> []\<close> by (cases h'; cases "tl h'") auto
  qed
  then show ?case using find_header_end_skip [of h ?r] Cons by simp
qed

lemma header_lines_message:
  assumes "\<forall>l\<in>set hs. LF \<notin> set l \<and> l \<noteq> []"
  shows "header_lines (message_of hs body) = hs"
proof -
  have "crlf_lines (message_of hs body) = hs @ crlf_lines (CRLF @ body)"
    unfolding message_of_def using assms by (intro crlf_lines_concat) auto
  also have "\<dots> = hs @ [] # crlf_lines body" using crlf_lines_cons [of "[]" body] by simp
  finally show ?thesis using assms by (simp add: header_lines_def takeWhile_append)
qed


definition plain_header :: "string \<Rightarrow> bool" where
  "plain_header l \<longleftrightarrow> LF \<notin> set l \<and> l \<noteq> [] \<and>
     (case header_key l of None \<Rightarrow> True
      | Some (k, v) \<Rightarrow> trim_copy (lower k) \<noteq> ''content-length'' \<and> trim_copy (lower k) \<noteq> ''l'')"

lemma to_lower_colon: "to_lower c = CHR '':'' \<longleftrightarrow> c = CHR '':''"
proof
  assume a: "to_lower c = CHR '':''"
  show "c = CHR '':''"
  proof (rule ccontr)
    assume n: "c \<noteq> CHR '':''"
    with a have u: "is_upper c" "code (to_lower c) = 58" by (auto simp: to_lower_def split: if_splits)
    then have "code c + 32 < 256" by (simp add: is_upper_def)
    then have "code (to_lower c) = code c + 32" using u by (simp add: to_lower_def)
    then show False using u by (simp add: is_upper_def)
  qed
qed (simp add: to_lower_def is_upper_def)

lemma starts_with_header_key:
  assumes "starts_with_header (n @ '':'') l" and "CHR '':'' \<notin> set n" and "lower n = n"
  obtains k v where "header_key l = Some (k, v)" "lower k = n"
proof -
  have t: "lower (take (Suc (length n)) l) = n @ '':''" "Suc (length n) \<le> length l"
    using assms(1,3) by (simp_all add: starts_with_header_def to_lower_def is_upper_def)
  let ?k = "take (length n) l"
  have k: "lower ?k = n"
    using arg_cong [OF t(1), of "take (length n)"] by (simp add: take_map min_def)
  have "CHR '':'' \<notin> set ?k" using k assms(2) to_lower_colon by (metis image_eqI list.set_map)
  moreover have "l ! length n = CHR '':''"
  proof -
    have "to_lower (l ! length n) = (n @ '':'') ! length n"
      using t by (metis (no_types, lifting) lessI nth_map length_take min.absorb2 nth_take)
    then show ?thesis by (simp add: to_lower_colon)
  qed
  ultimately have "find_char (CHR '':'') (?k @ CHR '':'' # drop (Suc (length n)) l) = Some (length ?k)"
    by (intro find_char_hit) simp
  moreover have "?k @ CHR '':'' # drop (Suc (length n)) l = l"
    using \<open>l ! length n = CHR '':''\<close> t(2) by (metis id_take_nth_drop Suc_le_lessD)
  ultimately have "find_char (CHR '':'') l = Some (length n)" using t(2) by simp
  then have "header_key l = Some (?k, drop (Suc (length n)) l)" by (simp add: header_key_def)
  with k that show thesis by blast
qed

lemma plain_not_length:
  assumes "plain_header l"
  shows "\<not> starts_with_header ''content-length:'' l" "\<not> starts_with_header ''l:'' l"
proof -
  have lower: "lower ''content-length'' = ''content-length''" "lower ''l'' = ''l''"
    by (simp_all add: to_lower_def is_upper_def)
  have trim: "trim_copy ''content-length'' = ''content-length''" "trim_copy ''l'' = ''l''"
    by (simp_all add: trim_copy_def trim_space_def)
  show "\<not> starts_with_header ''content-length:'' l"
  proof
    assume "starts_with_header ''content-length:'' l"
    then show False
      using starts_with_header_key [of "''content-length''" l] lower trim assms by (fastforce simp: plain_header_def)
  qed
  show "\<not> starts_with_header ''l:'' l"
  proof
    assume "starts_with_header ''l:'' l"
    then show False
      using starts_with_header_key [of "''l''" l] lower trim assms by (fastforce simp: plain_header_def)
  qed
qed

lemma first_header_skip:
  "\<forall>l\<in>set hs. \<not> starts_with_header n l \<and> \<not> starts_with_header c l \<Longrightarrow>
   first_header n c (hs @ ls) = first_header n c ls"
  by (induction hs) auto

abbreviation length_header :: "nat \<Rightarrow> string" where
  "length_header n \<equiv> ''Content-Length: '' @ dec n"

lemma length_header_value:
  assumes "\<forall>l\<in>set hs. plain_header l"
  shows "header_value (message_of (hs @ [length_header n]) body) ''Content-Length'' = dec n"
proof -
  have ok: "\<forall>l\<in>set (hs @ [length_header n]). LF \<notin> set l \<and> l \<noteq> []"
    using assms dec_no [of LF n] by (auto simp: plain_header_def is_digit_def)
  have low: "lower ''Content-Length'' = ''content-length''" by code_simp
  have sw: "starts_with_header ''content-length:'' (length_header n)"
  proof -
    have "lower (take 15 (length_header n)) = ''content-length:''"
    proof -
      have "take 15 (length_header n) = ''Content-Length:''" by simp
      then show ?thesis by (simp only:) code_simp
    qed
    moreover have "lower ''content-length:'' = ''content-length:''" by code_simp
    moreover have "length ''content-length:'' = 15" by simp
    ultimately show ?thesis unfolding starts_with_header_def by (simp del: list.map)
  qed
  have "trim_copy (CHR '' '' # dec n) = trim_copy (dec n)" by (simp add: trim_copy_def trim_space_def)
  then have t: "trim_copy (drop 15 (length_header n)) = dec n" by (simp add: no_space_dec)
  have "header_value (message_of (hs @ [length_header n]) body) ''Content-Length'' =
     first_header ''content-length:'' ''l:'' (hs @ [length_header n])"
    unfolding header_value_def Let_def low header_lines_message [OF ok] by (simp add: compact_name_def)
  also have "\<dots> = first_header ''content-length:'' ''l:'' [length_header n]"
    by (rule first_header_skip) (use assms plain_not_length in blast)
  also have "\<dots> = trim_copy (drop 15 (length_header n))" using sw by simp
  finally show ?thesis using t by simp
qed

lemma length_lines_skip: "\<forall>l\<in>set hs. plain_header l \<Longrightarrow> length_lines s (hs @ ls) = length_lines s ls"
  by (induction hs arbitrary: s) (auto simp: plain_header_def split: option.splits)

lemma concat_snoc_lines: "message_of (hs @ [l]) body = concat (map (\<lambda>l. l @ CRLF) hs) @ l @ HEADER_END @ body"
  by (simp add: message_of_def)

lemma split_at_end:
  "drop (length a + length l + 4) (a @ l @ HEADER_END @ r) = r" "take (length a + length l) (a @ l @ HEADER_END @ r) = a @ l"
  by simp_all

lemma message_body_declared:
  assumes "find_sub HEADER_END m = Some sep" "drop (sep + 4) m = b @ e"
    and "header_value m ''Content-Length'' = t" "t \<noteq> []"
    and "parse_decimal_u32 t MAX_SIP_BODY_BYTES = Some n" "unat n = length b"
  shows "message_body m = b"
  unfolding message_body_def assms(1) option.case Let_def assms(2,3) using assms(4-6) by simp

lemma content_length_declared:
  assumes "find_sub HEADER_END m = Some sep" "crlf_lines (take sep m) = hs @ [l]"
    and "\<forall>l\<in>set hs. plain_header l" "header_key l = Some (k, v)" "trim_copy (lower k) = ''content-length''"
    and "trim_copy v \<noteq> []" "length_loop 0 (trim_copy v) = Some n"
  shows "sip_content_length m = Some n"
  unfolding sip_content_length_def assms(1) option.case assms(2) length_lines_skip [OF assms(3)]
  using assms(4-7) by simp

text \<open>
  C31: Framing on a stream. A message printed with header lines that do not themselves declare a length,
  followed by a Content-Length of its body and by whatever bytes of later messages, is delimited exactly:
  \<open>sip_content_length\<close> gives the length of the body and \<open>message_body\<close> the body, for every body up to
  the limit of 4096 bytes, also one that contains blank lines or header-like text.
\<close>

theorem message_framing:
  assumes h: "\<forall>l\<in>set hs. plain_header l" and n: "length body \<le> 4096"
  shows "let msg = message_of (hs @ [length_header (length body)]) body in
     message_body (msg @ extra) = body \<and> sip_content_length (msg @ extra) = Some (length body)"
proof -
  let ?l = "length_header (length body)" and ?hs = "concat (map (\<lambda>l. l @ CRLF) hs)"
  let ?m = "message_of (hs @ [?l]) body @ extra"
  have m: "?m = message_of (hs @ [?l]) (body @ extra)" by (simp add: message_of_def)
  have lf: "LF \<notin> set ?l" using dec_no [of LF "length body"] by (auto simp: is_digit_def)
  have hlf: "\<forall>l\<in>set hs. LF \<notin> set l \<and> l \<noteq> []" using h by (auto simp: plain_header_def)
  have sep: "find_sub HEADER_END ?m = Some (length ?hs + length ?l)"
    unfolding m concat_snoc_lines using find_header_end [OF hlf lf, of "body @ extra"] by simp
  have d: "drop (length ?hs + length ?l + 4) ?m = body @ extra" "take (length ?hs + length ?l) ?m = ?hs @ ?l"
    unfolding m unfolding concat_snoc_lines by (rule split_at_end)+
  have v: "header_value ?m ''Content-Length'' = dec (length body)" unfolding m by (rule length_header_value [OF h])
  have p: "parse_decimal_u32 (dec (length body)) MAX_SIP_BODY_BYTES = Some (of_nat (length body))"
    using n by (intro parse_dec) (simp add: MAX_SIP_BODY_BYTES_def)
  have u: "unat (of_nat (length body) :: u32) = length body" using n by (intro unat_of_nat_small) simp
  have b: "message_body ?m = body"
    by (rule message_body_declared [OF sep d(1) v _ p u]) simp
  have k: "header_key ?l = Some (''Content-Length'', CHR '' '' # dec (length body))"
    by (simp add: header_key_def find_char_def)
  have low: "trim_copy (lower ''Content-Length'') = ''content-length''"
    by code_simp
  have tr: "trim_copy (CHR '' '' # dec (length body)) = dec (length body)"
    using no_space_dec [of "length body"] by (simp add: trim_copy_def trim_space_def)
  have ll: "length_loop 0 (dec (length body)) = Some (length body)"
    using dec_digits [of "length body"] n
    by (simp add: length_loop_exact list_all_iff digits_value_dec [unfolded digits_value_def])
  have cl: "crlf_lines (take (length ?hs + length ?l) ?m) = hs @ [?l]"
    unfolding d using crlf_lines_concat [of hs ?l] hlf crlf_lines_last [OF lf] by simp
  have "sip_content_length ?m = Some (length body)"
    by (rule content_length_declared [OF sep cl h k low]) (use tr ll in \<open>simp_all only: dec_nonempty not_False_eq_True\<close>)
  then show ?thesis using b by (simp only: Let_def)
qed


theorem message_framing_witness:
  "let msg = message_of ([''BYE sip:bob SIP/2.0'', ''Via: SIP/2.0/TCP h''] @ [length_header (length ''l: 9'')]) ''l: 9'' in
     message_body (msg @ ''OPTIONS'') = ''l: 9'' \<and> sip_content_length (msg @ ''OPTIONS'') = Some (length ''l: 9'')"
proof (rule message_framing)
  have "plain_header ''BYE sip:bob SIP/2.0''" "plain_header ''Via: SIP/2.0/TCP h''" by code_simp+
  then show "\<forall>l\<in>set [''BYE sip:bob SIP/2.0'', ''Via: SIP/2.0/TCP h'']. plain_header l" by simp
qed simp

end
