(* ===== verification/SdpLinesProps.thy ===== *)
theory SdpLinesProps
  imports SdpLines SipFraming
begin

text \<open>
  Properties of the lines of a session description (media lines printed and read) and of the
  samples in RTP packets.
\<close>

section \<open>Media lines\<close>

lemma dec_no_blank: "\<forall>c\<in>set (dec n). \<not> blank c"
  using dec_digits [of n] by (auto simp: blank_def dest!: bspec is_digit_simps)

abbreviation pt_text :: "nat list \<Rightarrow> string" where
  "pt_text pts \<equiv> concat (map (\<lambda>n. CHR '' '' # dec n) pts)"

lemma index_blank_hit: "index_of blank (dec n @ CHR '' '' # r) = Some (length (dec n))"
  using dec_no_blank [of n] by (intro index_of_append_hit) (auto simp: blank_def)

lemma index_blank_miss: "index_of blank (dec n) = None"
  using dec_no_blank [of n] by (auto simp: index_of_None_iff)

lemma dropWhile_dec: "dropWhile blank (dec n @ r) = dec n @ r"
  using dec_no_blank [of n] by (cases "dec n") auto

lemma pt_parse: "n \<le> 127 \<Longrightarrow> parse_decimal_u32 (dec n) 127 = Some (of_nat n)"
  by (rule parse_dec) simp

lemma unat_pt: "n \<le> 127 \<Longrightarrow> unat (of_nat n :: u32) = n"
  by (rule unat_of_nat_small) simp

lemma payload_list_print: "\<forall>m\<in>set (n # ns). m \<le> 127 \<Longrightarrow> payload_list (dec n @ pt_text ns) = Some (n # ns)"
proof (induction ns arbitrary: n)
  case Nil
  then show ?case by (subst payload_list.simps) (simp add: index_blank_miss pt_parse unat_pt)
next
  case (Cons m ns)
  obtain c cs where c: "dec m @ pt_text ns = c # cs" by (cases "dec m @ pt_text ns") auto
  then have "dropWhile blank (CHR '' '' # dec m @ pt_text ns) = c # cs"
    using dropWhile_dec [of m "pt_text ns"] by (simp add: blank_def)
  moreover have "payload_list (c # cs) = Some (m # ns)" using Cons.IH [of m] Cons.prems unfolding c [symmetric] by simp
  moreover have "index_of blank (dec n @ pt_text (m # ns)) = Some (length (dec n))"
    using index_blank_hit by simp
  ultimately show ?case using Cons.prems
    by (subst payload_list.simps) (simp add: pt_parse unat_pt)
qed


section \<open>Media lines printed and read\<close>

lemma blank_space: "blank c \<Longrightarrow> trim_space c"
  by (auto simp: blank_def trim_space_def)

lemma dec_no_space: "c \<in> set (dec n) \<Longrightarrow> \<not> trim_space c"
  using dec_digits [of n] is_digit_simps [of c] by (auto simp: trim_space_def)

lemma trim_dec_line: "trim_copy (dec p @ r @ dec q) = dec p @ r @ dec q"
proof (rule trim_id)
  have "\<not> trim_space (hd (dec p))" "\<not> trim_space (last (dec q))"
    by (rule dec_no_space [of _ p], simp, rule dec_no_space [of _ q], simp)
  then show "dec p @ r @ dec q = [] \<or> \<not> trim_space (hd (dec p @ r @ dec q)) \<and> \<not> trim_space (last (dec p @ r @ dec q))"
    by simp
qed

lemma pt_text_snoc: "pt_text (ns @ [n]) = (pt_text ns @ '' '') @ dec n"
  by simp

lemma media_fields_print:
  assumes "pts \<noteq> []"
  shows "media_fields prefix (prefix @ dec p @ '' RTP/AVP'' @ pt_text pts) = Some (dec p, pt_text pts)"
proof -
  let ?m = "dec p @ '' RTP/AVP'' @ pt_text pts"
  obtain ns n where n: "pts = ns @ [n]" using assms by (cases pts rule: rev_cases) auto
  have t: "trim_copy ?m = ?m"
    unfolding n pt_text_snoc using trim_dec_line [of p "'' RTP/AVP'' @ pt_text ns @ '' ''" n] by simp
  obtain r where r: "pt_text pts = CHR '' '' # r" using assms by (cases pts) auto
  have e: "index_of blank ?m = Some (length (dec p))" using index_blank_hit by simp
  have s: "index_from (\<lambda>c. \<not> blank c) ?m (length (dec p)) = Some (length (dec p) + 1)"
    by (simp add: index_from_def blank_def)
  have "index_of blank (''RTP/AVP'' @ CHR '' '' # r) = Some 7" by (simp add: blank_def)
  then have f: "index_from blank ?m (length (dec p) + 1) = Some (length (dec p) + 8)"
    by (simp add: index_from_def r del: index_of.simps)
  have d: "substr ?m (length (dec p) + 1) (length (dec p) + 8 - (length (dec p) + 1)) = ''RTP/AVP''"
    "take (length (dec p)) ?m = dec p" "drop (length (dec p) + 8) ?m = pt_text pts"
    by (simp_all add: substr_def)
  show ?thesis
    unfolding media_fields_def using t e s f d by (simp add: Let_def del: index_of.simps)
qed

lemma media_line_printed:
  assumes "pts \<noteq> []" and "\<forall>n\<in>set pts. n \<le> 127" and "p \<le> 65535"
  shows "(0 < p \<longrightarrow> parse_audio_media_line (''m=audio '' @ dec p @ '' RTP/AVP'' @ pt_text pts) = Some (of_nat p, pts)) \<and>
    (length pts \<le> 128 \<longrightarrow> parse_video_media_line (''m=video '' @ dec p @ '' RTP/AVP'' @ pt_text pts) = Some (of_nat p, pts))"
proof -
  obtain n ns where n: "pts = n # ns" using assms(1) by (cases pts) auto
  have d: "dropWhile blank (pt_text pts) = dec n @ pt_text ns"
    using dropWhile_dec [of n "pt_text ns"] by (simp add: n blank_def)
  obtain c cs where c: "dec n @ pt_text ns = c # cs" by (cases "dec n @ pt_text ns") auto
  have l: "payload_list (c # cs) = Some pts" using payload_list_print [of n ns] assms(2) by (simp add: n c)
  have q: "parse_decimal_u32 (dec p) 65535 = Some (of_nat p)" using assms(3) by (intro parse_dec) simp
  have z: "(of_nat p :: u32) = 0 \<longleftrightarrow> p = 0"
    using unat_of_nat_small [of p, where 'a=32] assms(3) unat_eq_zero [of "of_nat p :: u32"] by simp
  have u: "(ucast (of_nat p :: u32) :: u16) = of_nat p"
    using assms(3) by (simp add: unsigned_of_nat take_bit_nat_eq_self)
  show ?thesis
    unfolding parse_audio_media_line_def parse_video_media_line_def media_fields_print [OF assms(1)]
    using d l q z u by (simp add: c)
qed

text \<open>
  A media line is read back exactly: port and payload types, in order. The audio line is read for a
  nonzero port, the video line for any port (0 rejects the stream) with at most 128 payload types.
\<close>

theorem media_line_roundtrip:
  assumes "pts \<noteq> []" and "\<forall>n\<in>set pts. n \<le> 127" and "p \<le> 65535"
  shows "(0 < p \<longrightarrow> parse_audio_media_line (''m=audio '' @ dec p @ '' RTP/AVP'' @ pt_text pts) = Some (of_nat p, pts)) \<and>
    (length pts \<le> 128 \<longrightarrow> parse_video_media_line (''m=video '' @ dec p @ '' RTP/AVP'' @ pt_text pts) = Some (of_nat p, pts))"
  by (rule media_line_printed [OF assms])

theorem media_line_roundtrip_witness:
  "parse_audio_media_line (''m=audio '' @ dec 40000 @ '' RTP/AVP'' @ pt_text [96, 0, 101]) = Some (40000, [96, 0, 101]) \<and>
   parse_video_media_line (''m=video '' @ dec 0 @ '' RTP/AVP'' @ pt_text [26]) = Some (0, [26])"
  using media_line_roundtrip [of "[96, 0, 101]" 40000] media_line_roundtrip [of "[26]" 0] by simp

section \<open>Samples in packets\<close>

lemma swap16_swap16: "even (length x) \<Longrightarrow> swap16 (swap16 x) = x \<and> length (swap16 x) = length x"
  by (induction x rule: swap16.induct) auto

lemma swap24_swap24: "length x mod 3 = 0 \<Longrightarrow> swap24 (swap24 x) = x \<and> length (swap24 x) = length x"
  by (induction x rule: swap24.induct) (auto simp: mod_Suc split: if_splits)

lemma pack_unpack24: "length x mod 3 = 0 \<Longrightarrow> pack24 (unpack24 x) = x \<and> length (unpack24 x) = length x div 3 * 4"
  by (induction x rule: unpack24.induct) (auto simp: mod_Suc div_Suc split: if_splits)

fun sign_extended :: "bytes \<Rightarrow> bool" where
  "sign_extended (a # b # c # d # r) = (d = (if c AND 0x80 \<noteq> 0 then 0xFF else 0) \<and> sign_extended r)"
| "sign_extended _ = True"

lemma unpack_pack24: "length x mod 4 = 0 \<Longrightarrow> (unpack24 (pack24 x) = x \<longleftrightarrow> sign_extended x) \<and> length (pack24 x) = length x div 4 * 3"
  by (induction x rule: pack24.induct) (auto simp: mod_Suc div_Suc split: if_splits)


lemma swap_nonempty: "x \<noteq> [] \<Longrightarrow> even (length x) \<Longrightarrow> swap16 x \<noteq> []"
  "x \<noteq> [] \<Longrightarrow> length x mod 3 = 0 \<Longrightarrow> swap24 x \<noteq> []"
  using swap16_swap16 [of x] swap24_swap24 [of x] by auto

lemma pack_nonempty: "x \<noteq> [] \<Longrightarrow> length x mod 4 = 0 \<Longrightarrow> pack24 x \<noteq> []"
  "x \<noteq> [] \<Longrightarrow> length x mod 3 = 0 \<Longrightarrow> unpack24 x \<noteq> []"
  using unpack_pack24 [of x] pack_unpack24 [of x] by (cases x; auto)+

text \<open>The size of a block on the wire, for the formats a packet can carry and whole samples.\<close>

definition wire_bytes :: "pcm_format \<Rightarrow> nat \<Rightarrow> nat option" where
  "wire_bytes fmt n =
     (case fmt of S16LE \<Rightarrow> if n mod 2 = 0 then Some n else None
      | S24LE \<Rightarrow> if n mod 3 = 0 then Some n else None
      | S24LE_IN_S32 \<Rightarrow> if n mod 4 = 0 then Some (n div 4 * 3) else None
      | _ \<Rightarrow> None)"

lemma pcm_to_rtp_length:
  "pcm_to_rtp_payload pcm fmt cap \<noteq> [] \<Longrightarrow>
   \<exists>n. wire_bytes fmt (length pcm) = Some n \<and> length (pcm_to_rtp_payload pcm fmt cap) = n \<and> n \<le> cap"
  using swap16_swap16 [of pcm] swap24_swap24 [of pcm] unpack_pack24 [of pcm]
  by (cases fmt) (auto simp: pcm_to_rtp_payload_def wire_bytes_def Let_def even_iff_mod_2_eq_zero split: if_splits)

lemma rtp_to_pcm_length: "length (rtp_payload_to_pcm p fmt cap) \<le> cap"
  using swap16_swap16 [of p] swap24_swap24 [of p] pack_unpack24 [of p]
  by (cases fmt) (auto simp: rtp_payload_to_pcm_def Let_def even_iff_mod_2_eq_zero)

lemma pcm_encoded_decodes:
  assumes "pcm_to_rtp_payload pcm fmt cap \<noteq> []" and "length pcm \<le> cap'"
  shows "rtp_payload_to_pcm (pcm_to_rtp_payload pcm fmt cap) fmt cap' = pcm \<longleftrightarrow>
    (fmt = S24LE_IN_S32 \<longrightarrow> sign_extended pcm)"
  using assms swap16_swap16 [of pcm] swap24_swap24 [of pcm] unpack_pack24 [of pcm]
  by (cases fmt) (auto simp: pcm_to_rtp_payload_def rtp_payload_to_pcm_def Let_def even_iff_mod_2_eq_zero split: if_splits)

lemma pcm_decoded_encodes:
  assumes "rtp_payload_to_pcm p fmt cap \<noteq> []" and "length p \<le> cap'"
  shows "pcm_to_rtp_payload (rtp_payload_to_pcm p fmt cap) fmt cap' = p"
  using assms swap16_swap16 [of p] swap24_swap24 [of p] pack_unpack24 [of p]
  by (cases fmt) (auto simp: pcm_to_rtp_payload_def rtp_payload_to_pcm_def Let_def even_iff_mod_2_eq_zero split: if_splits)

lemma pcm_rejected:
  "pcm_to_rtp_payload pcm fmt cap = [] \<longleftrightarrow>
     pcm = [] \<or> (case wire_bytes fmt (length pcm) of None \<Rightarrow> True | Some n \<Rightarrow> n > cap)"
  using swap_nonempty [of pcm] pack_nonempty [of pcm]
  by (cases fmt) (auto simp: pcm_to_rtp_payload_def wire_bytes_def Let_def even_iff_mod_2_eq_zero)

text \<open>
  Linear audio survives the network byte order. A block of whole samples that fits the packet is
  converted, never to more bytes than the capacity, and converted back to the same block; for 24-bit samples
  in 32-bit words this holds exactly when the top byte is the sign extension. Other formats give nothing,
  and so do blocks that do not fit or do not hold whole samples.
\<close>

theorem pcm_payload_roundtrip:
  "length (pcm_to_rtp_payload pcm fmt cap) \<le> cap \<and> length (rtp_payload_to_pcm pcm fmt cap) \<le> cap \<and>
   (pcm_to_rtp_payload pcm fmt cap \<noteq> [] \<and> length pcm \<le> cap' \<longrightarrow>
      (rtp_payload_to_pcm (pcm_to_rtp_payload pcm fmt cap) fmt cap' = pcm) = (fmt \<noteq> S24LE_IN_S32 \<or> sign_extended pcm)) \<and>
   (rtp_payload_to_pcm pcm fmt cap \<noteq> [] \<and> length pcm \<le> cap' \<longrightarrow>
      pcm_to_rtp_payload (rtp_payload_to_pcm pcm fmt cap) fmt cap' = pcm) \<and>
   (pcm_to_rtp_payload pcm fmt cap = []) =
     (pcm = [] \<or> (case wire_bytes fmt (length pcm) of None \<Rightarrow> True | Some n \<Rightarrow> n > cap))"
proof -
  have "length (pcm_to_rtp_payload pcm fmt cap) \<le> cap"
    using pcm_to_rtp_length [of pcm fmt cap] by (cases "pcm_to_rtp_payload pcm fmt cap = []") auto
  then show ?thesis
    using rtp_to_pcm_length [of pcm fmt cap] pcm_encoded_decodes [of pcm fmt cap cap']
      pcm_decoded_encodes [of pcm fmt cap cap'] pcm_rejected [of pcm fmt cap] by blast
qed

theorem pcm_payload_roundtrip_witness:
  "rtp_payload_to_pcm (pcm_to_rtp_payload [0x10, 0x32, 0x54, 0, 1, 2, 0x83, 0xFF] S24LE_IN_S32 6) S24LE_IN_S32 8 =
     [0x10, 0x32, 0x54, 0, 1, 2, 0x83, 0xFF]"
proof -
  have "pcm_to_rtp_payload [0x10, 0x32, 0x54, 0, 1, 2, 0x83, 0xFF] S24LE_IN_S32 6 \<noteq> []"
    by (simp add: pcm_to_rtp_payload_def)
  then show ?thesis
    using pcm_payload_roundtrip [of "[0x10, 0x32, 0x54, 0, 1, 2, 0x83, 0xFF]" S24LE_IN_S32 6 8] by simp
qed

end
