(* ===== verification/SdpShape.thy ===== *)
theory SdpShape
  imports Sdp SdpLinesProps
begin

text \<open>
  The media lines of a description, and the memory of them an answer is built from: the buffer
  with offsets refines the list of the media lines.
\<close>

section \<open>Lines of a text\<close>

lemma find_sub_CRLF_ends: "find_sub CRLF l = None \<Longrightarrow> find_sub CRLF (l @ CRLF @ r) = Some (length l)"
proof (induction l)
  case (Cons c l)
  have "\<not> starts_with CRLF (c # l @ CRLF @ r)"
    using Cons.prems by (cases l) (auto split: if_splits)
  moreover have "find_sub CRLF l = None" using Cons.prems by (auto split: if_splits)
  ultimately show ?case using Cons.IH by simp
qed simp

lemma crlf_lines_line: "find_sub CRLF l = None \<Longrightarrow> crlf_lines (l @ CRLF @ r) = l # crlf_lines r"
  using find_sub_CRLF_ends [of l r] by (subst crlf_lines.simps) simp

abbreviation text_of :: "string list \<Rightarrow> string" where
  "text_of ls \<equiv> concat (map (\<lambda>l. l @ CRLF) ls)"

lemma crlf_lines_text: "\<forall>l\<in>set ls. find_sub CRLF l = None \<Longrightarrow> crlf_lines (text_of ls) = ls"
proof (induction ls)
  case (Cons l ls)
  then show ?case using crlf_lines_line [of l "text_of ls"] by simp
qed simp

lemma line_no_crlf: "l \<in> set (crlf_lines s) \<Longrightarrow> find_sub CRLF l = None"
proof (induction s rule: crlf_lines.induct)
  case (1 s)
  show ?case
  proof (cases "s = []")
    case False
    then show ?thesis
      using 1 find_sub_take [of CRLF s] by (cases "find_sub CRLF s") (auto simp: crlf_lines.simps [of s])
  qed (use 1 in simp)
qed

lemma no_crlf_join:
  "find_sub CRLF a = None \<Longrightarrow> find_sub CRLF b = None \<Longrightarrow> c \<noteq> CR \<Longrightarrow> c \<noteq> LF \<Longrightarrow> find_sub CRLF (a @ c # b) = None"
proof (induction a)
  case Nil
  then show ?case by (cases b) auto
next
  case (Cons d a)
  then show ?case by (cases a) (auto split: if_splits)
qed

definition media_lines :: "string \<Rightarrow> string list" where
  "media_lines sdp = filter (starts_with ''m='') (crlf_lines sdp)"

section \<open>The shape refines the list of media lines\<close>

definition audio_line :: "string \<Rightarrow> bool" where
  "audio_line l \<longleftrightarrow> parse_audio_media_line l \<noteq> None"

definition video_line :: "build \<Rightarrow> string \<Rightarrow> bool" where
  "video_line b l \<longleftrightarrow> video_backend b \<noteq> NoVideo \<and> parse_video_media_line l \<noteq> None"

definition shape_repr :: "build \<Rightarrow> string list \<Rightarrow> media_shape \<Rightarrow> bool" where
  "shape_repr b ms sh \<longleftrightarrow>
     \<not> shape_overflow sh \<and> shape_count sh = length ms \<and> length ms \<le> 8 \<and> shape_lines sh = concat ms \<and>
     length (concat ms) \<le> 65535 \<and> length (shape_offsets sh) = 9 \<and>
     (\<forall>i\<le>length ms. unat (shape_offsets sh ! i) = length (concat (take i ms))) \<and>
     audio_index sh = index_of audio_line ms \<and> video_index sh = index_of (video_line b) ms"

lemma shape_repr_clear: "length (shape_offsets sh) = 9 \<Longrightarrow> shape_repr b [] (shape_clear sh)"
  by (simp add: shape_repr_def shape_clear_def)

lemma index_of_snoc:
  "index_of P (xs @ [x]) =
     (if index_of P xs = None then (if P x then Some (length xs) else None) else index_of P xs)"
  by (auto simp: index_of_append split: option.splits)

lemma capture_overflow: "shape_overflow sh \<Longrightarrow> shape_overflow (capture_media_line b l sh)"
  by (auto simp: capture_media_line_def shape_append_def Let_def)

lemma capture_fits:
  assumes r: "shape_repr b ms sh" and m: "starts_with ''m='' l"
    and fits: "length ms < 8" "length (concat ms) + length l \<le> 65535"
  shows "shape_repr b (ms @ [l]) (capture_media_line b l sh)"
proof -
  let ?n = "length ms" and ?w = "of_nat (length (shape_lines sh @ l)) :: u16"
  have f: "shape_lines sh = concat ms" "shape_count sh = ?n" "length (shape_offsets sh) = 9"
    "audio_index sh = index_of audio_line ms" "video_index sh = index_of (video_line b) ms" "\<not> shape_overflow sh"
    "\<forall>i\<le>?n. unat (shape_offsets sh ! i) = length (concat (take i ms))"
    using r by (simp_all add: shape_repr_def)
  have a: "shape_append sh l = (True, sh\<lparr>shape_lines := concat ms @ l, shape_count := ?n + 1,
      shape_offsets := (shape_offsets sh)[?n + 1 := ?w]\<rparr>)"
    using f fits by (simp add: shape_append_def MAX_SDP_MEDIA_LINES_def)
  have w: "unat ?w = length (concat ms) + length l"
    using fits by (simp add: f unat_of_nat_small del: of_nat_add)
  have o: "unat ((shape_offsets sh)[?n + 1 := ?w] ! i) = length (concat (take i (ms @ [l])))" if "i \<le> ?n + 1" for i
  proof (cases "i = ?n + 1")
    case True
    then show ?thesis using w f fits by (simp add: nth_list_update del: of_nat_add)
  next
    case False
    then show ?thesis using f that by simp
  qed
  show ?thesis
    using m fits f o unfolding shape_repr_def capture_media_line_def Let_def a
    by (auto simp: index_of_snoc audio_line_def video_line_def)
qed

lemma capture_full:
  assumes r: "shape_repr b ms sh" and m: "starts_with ''m='' l"
    and full: "\<not> (length ms < 8 \<and> length (concat ms) + length l \<le> 65535)"
  shows "shape_overflow (capture_media_line b l sh)"
  using assms by (auto simp: shape_repr_def capture_media_line_def shape_append_def MAX_SDP_MEDIA_LINES_def Let_def)

lemma capture_lines:
  assumes "length (shape_offsets sh0) = 9"
  shows "let sh = fold (capture_media_line b) ls (shape_clear sh0); ms = filter (starts_with ''m='') ls in
     if length ms \<le> 8 \<and> length (concat ms) \<le> 65535 then shape_repr b ms sh else shape_overflow sh"
proof (induction ls rule: rev_induct)
  case Nil
  then show ?case using shape_repr_clear [OF assms] by simp
next
  case (snoc l ls)
  let ?sh = "fold (capture_media_line b) ls (shape_clear sh0)" and ?ms = "filter (starts_with ''m='') ls"
  show ?case
  proof (cases "starts_with ''m='' l")
    case False
    then have "capture_media_line b l ?sh = ?sh" by (simp add: capture_media_line_def)
    then show ?thesis using snoc.IH False by simp
  next
    case m: True
    show ?thesis
    proof (cases "length ?ms \<le> 8 \<and> length (concat ?ms) \<le> 65535")
      case False
      then have "shape_overflow ?sh" using snoc.IH by (simp add: Let_def)
      then show ?thesis using capture_overflow [of ?sh b l] False m by (auto simp: Let_def)
    next
      case True
      then have r: "shape_repr b ?ms ?sh" using snoc.IH by (simp add: Let_def)
      show ?thesis
        using capture_fits [OF r m] capture_full [OF r m] m by (auto simp: Let_def)
    qed
  qed
qed

lemma shape_repr_line: "shape_repr b ms sh \<Longrightarrow> i < length ms \<Longrightarrow> shape_line sh i = ms ! i"
proof -
  assume r: "shape_repr b ms sh" and i: "i < length ms"
  have "shape_line sh i = take (length (ms ! i)) (drop (length (concat (take i ms))) (concat ms))"
    using r i by (simp add: shape_repr_def shape_line_def substr_def take_Suc_conv_app_nth)
  also have "concat ms = concat (take i ms) @ ms ! i @ concat (drop (Suc i) ms)"
    using i by (metis append_assoc concat.simps(2) concat_append id_take_nth_drop)
  finally show ?thesis by simp
qed

lemma capture_repr:
  assumes "length (shape_offsets sh0) = 9" and "\<not> shape_overflow (capture_remote_media_shape b sh0 sdp)"
  shows "shape_repr b (media_lines sdp) (capture_remote_media_shape b sh0 sdp)"
  using capture_lines [OF assms(1), of b "crlf_lines sdp"] assms(2)
  by (auto simp: capture_remote_media_shape_def media_lines_def Let_def split: if_splits)

text \<open>
  C39: The memory of a remote offer is the list of its media lines. After capturing a
  description, whatever was captured before, the buffer and its 16-bit offsets give back every line
  that starts with \<open>m=\<close>, at its position, and the positions of the first audio and the first video
  line that can be read; it overflows exactly when there are more than 8 of them or they are longer
  than the offsets can tell.
\<close>

theorem media_shape_refines_lines:
  assumes "length (shape_offsets sh0) = 9"
  shows "let sh = capture_remote_media_shape b sh0 sdp; ms = media_lines sdp in
     shape_overflow sh = (8 < length ms \<or> 65535 < length (concat ms)) \<and>
     (\<not> shape_overflow sh \<longrightarrow>
        shape_count sh = length ms \<and> map (shape_line sh) [0..<length ms] = ms \<and>
        audio_index sh = index_of audio_line ms \<and> video_index sh = index_of (video_line b) ms)"
proof -
  let ?sh = "capture_remote_media_shape b sh0 sdp" and ?ms = "media_lines sdp"
  have c: "if length ?ms \<le> 8 \<and> length (concat ?ms) \<le> 65535 then shape_repr b ?ms ?sh else shape_overflow ?sh"
    using capture_lines [OF assms, of b "crlf_lines sdp"]
    by (simp add: capture_remote_media_shape_def media_lines_def Let_def)
  have o: "shape_overflow ?sh = (8 < length ?ms \<or> 65535 < length (concat ?ms))"
    using c by (auto simp: shape_repr_def split: if_splits)
  have "shape_count ?sh = length ?ms \<and> map (shape_line ?sh) [0..<length ?ms] = ?ms \<and>
      audio_index ?sh = index_of audio_line ?ms \<and> video_index ?sh = index_of (video_line b) ?ms"
    if "\<not> shape_overflow ?sh"
  proof -
    have r: "shape_repr b ?ms ?sh" using assms that by (rule capture_repr)
    have "map (shape_line ?sh) [0..<length ?ms] = map ((!) ?ms) [0..<length ?ms]"
      using shape_repr_line [OF r] by (intro map_cong) auto
    then show ?thesis using r by (simp add: map_nth shape_repr_def)
  qed
  with o show ?thesis unfolding Let_def by blast
qed

theorem media_shape_refines_lines_witness:
  "let sh = capture_remote_media_shape \<lparr>has_speaker = True, has_opus = False, video_backend = JpegBackend\<rparr> new_media_shape
        (text_of [''v=0'', ''m=video 4 RTP/AVP 26'', ''m=audio 6 RTP/AVP 96'']) in
   \<not> shape_overflow sh \<and> shape_line sh 1 = ''m=audio 6 RTP/AVP 96'' \<and> shape_count sh = 2"
proof -
  let ?b = "\<lparr>has_speaker = True, has_opus = False, video_backend = JpegBackend\<rparr>"
  let ?ls = "[''v=0'', ''m=video 4 RTP/AVP 26'', ''m=audio 6 RTP/AVP 96'']"
  let ?ms = "[''m=video 4 RTP/AVP 26'', ''m=audio 6 RTP/AVP 96'']"
  have "crlf_lines (text_of ?ls) = ?ls" by (rule crlf_lines_text) simp
  then have m: "media_lines (text_of ?ls) = ?ms" unfolding media_lines_def by simp
  have l: "length (shape_offsets new_media_shape) = 9" by (simp add: new_media_shape_def MAX_SDP_MEDIA_LINES_def)
  have "let sh = capture_remote_media_shape ?b new_media_shape (text_of ?ls) in
      shape_overflow sh = (8 < length ?ms \<or> 65535 < length (concat ?ms)) \<and>
      (\<not> shape_overflow sh \<longrightarrow> shape_count sh = length ?ms \<and> map (shape_line sh) [0..<length ?ms] = ?ms \<and>
        audio_index sh = index_of audio_line ?ms \<and> video_index sh = index_of (video_line ?b) ?ms)"
    using media_shape_refines_lines [OF l, of ?b "text_of ?ls"] unfolding m Let_def .
  then show ?thesis by (simp add: Let_def upt_rec)
qed

end
