(* ===== verification/SdpAnswer.thy ===== *)
theory SdpAnswer
  imports SdpShape
begin

text \<open>
  An answer mirrors the offer: the texts the answer is put together from, as lists of lines, and
  the media lines they contribute.
\<close>

section \<open>Attribute texts\<close>

text \<open>A text of complete lines that are no media lines.\<close>

definition attribute_text :: "string \<Rightarrow> bool" where
  "attribute_text t \<longleftrightarrow> (\<exists>ls. t = text_of ls \<and> (\<forall>l\<in>set ls. LF \<notin> set l \<and> l \<noteq> [] \<and> hd l \<noteq> CHR ''m''))"

lemma attribute_text_Nil [intro, simp]: "attribute_text []"
  by (auto simp: attribute_text_def intro: exI [of _ "[]"])

lemma attribute_text_line: "LF \<notin> set l \<Longrightarrow> l \<noteq> [] \<Longrightarrow> hd l \<noteq> CHR ''m'' \<Longrightarrow> attribute_text (l @ CRLF)"
  by (auto simp: attribute_text_def intro: exI [of _ "[l]"])

lemma attribute_line: "p \<noteq> [] \<Longrightarrow> hd p \<noteq> CHR ''m'' \<Longrightarrow> LF \<notin> set p \<Longrightarrow> LF \<notin> set r \<Longrightarrow> attribute_text (p @ r @ CRLF)"
  using attribute_text_line [of "p @ r"] by simp

lemma attribute_text_append [intro]: "attribute_text s \<Longrightarrow> attribute_text t \<Longrightarrow> attribute_text (s @ t)"
proof -
  assume "attribute_text s" "attribute_text t"
  then obtain ls ms where "s = text_of ls" "t = text_of ms" and
    "\<forall>l\<in>set ls. LF \<notin> set l \<and> l \<noteq> [] \<and> hd l \<noteq> CHR ''m''" "\<forall>l\<in>set ms. LF \<notin> set l \<and> l \<noteq> [] \<and> hd l \<noteq> CHR ''m''"
    by (auto simp: attribute_text_def)
  then have "s @ t = text_of (ls @ ms) \<and> (\<forall>l\<in>set (ls @ ms). LF \<notin> set l \<and> l \<noteq> [] \<and> hd l \<noteq> CHR ''m'')" by auto
  then show ?thesis unfolding attribute_text_def by blast
qed

lemma no_LF_no_crlf: "LF \<notin> set l \<Longrightarrow> find_sub CRLF l = None"
  by (rule find_sub_CRLF_miss)

lemma LF_dec [simp]: "LF \<notin> set (dec n)"
  by (rule dec_no) (simp add: is_digit_def)

lemma LF_encoding: "audio_format_rtp_encoding f n = Some enc \<Longrightarrow> LF \<notin> set enc"
  by (auto simp: audio_format_rtp_encoding_def split: if_splits)

lemma rtpmap_text: "LF \<notin> set enc \<Longrightarrow> attribute_text (rtpmap_line pt enc f @ CRLF)"
  by (rule attribute_text_line) (simp_all add: rtpmap_line_def)

lemma audio_maps_text:
  assumes "audio_format_rtp_encoding f n = Some enc"
  shows "attribute_text (audio_maps pt enc f)"
proof -
  have "attribute_text (rtpmap_line pt enc f @ CRLF)" using LF_encoding [OF assms] by (rule rtpmap_text)
  moreover have "attribute_text ((''a=fmtp:'' @ dec_word pt @ '' stereo=0;sprop-stereo=0;maxaveragebitrate=28000'') @ CRLF)"
    by (rule attribute_text_line) simp_all
  ultimately show ?thesis
    using attribute_text_append [of "rtpmap_line pt enc f @ CRLF"] by (simp add: audio_maps_def)
qed

lemma flow_text: "LF \<notin> set flow \<Longrightarrow> attribute_text (flow_line pt flow @ CRLF)"
  by (rule attribute_text_line) (simp_all add: flow_line_def)

definition answer_text :: "answer_lines \<Rightarrow> bool" where
  "answer_text a \<longleftrightarrow> LF \<notin> set (al_payloads a) \<and> attribute_text (al_maps a) \<and> attribute_text (al_flows a)"

lemma answer_append_text:
  assumes "answer_append s pt f flow a = Some a'" and "answer_text a" and "LF \<notin> set flow"
  shows "answer_text a'"
proof -
  obtain enc where e: "audio_format_rtp_encoding f (udp_max_payload s) = Some enc"
    using assms(1) by (auto simp: answer_append_def split: option.splits)
  then show ?thesis
    using assms audio_maps_text [OF e, of pt] flow_text [of flow pt]
    by (auto simp: answer_append_def answer_text_def split: if_splits)
qed

lemma answer_receive_text: "answer_receive s send es a = Some a' \<Longrightarrow> answer_text a \<Longrightarrow> answer_text a'"
proof (induction es arbitrary: a)
  case (Cons e es)
  then show ?case
    using answer_append_text [of s "payload_type e" "entry_format e" "''recv''" a]
    by (auto split: if_splits option.splits)
qed simp

lemma answer_audio_text: "answer_audio_lines s = Some a \<Longrightarrow> answer_text a"
proof -
  assume a: "answer_audio_lines s = Some a"
  let ?start = "\<lparr>al_payloads = [], al_maps = [], al_flows = []\<rparr> :: answer_lines"
  have start: "answer_text ?start" by (simp add: answer_text_def)
  obtain r where r: "(if \<not> format_valid (selected_rx_format s) then Some ?start
       else case answer_append s (rtp_rx_payload_type s) (selected_rx_format s)
              (if format_valid (selected_tx_format s) \<and> rtp_tx_payload_type s = rtp_rx_payload_type s then ''sendrecv'' else ''recv'') ?start of
            None \<Rightarrow> None | Some a \<Rightarrow> answer_receive s (format_valid (selected_tx_format s)) (negotiated_rx_payloads s) a) = Some r"
    and a': "a = r \<or> answer_append s (rtp_tx_payload_type s) (selected_tx_format s) ''send'' r = Some a"
    using a unfolding answer_audio_lines_def Let_def by (auto split: option.splits if_splits)
  have "answer_text r"
    using r start answer_append_text [OF _ start] answer_receive_text by (auto split: if_splits option.splits)
  then show ?thesis using a' answer_append_text by fastforce
qed

section \<open>The sections of an answer\<close>

definition media_word :: "string \<Rightarrow> string" where
  "media_word l = takeWhile (\<lambda>c. c \<noteq> CHR '' '') l"

definition port_text :: "string \<Rightarrow> string" where
  "port_text l = takeWhile (\<lambda>c. \<not> blank c) (drop (Suc (length (media_word l))) l)"

text \<open>A section: complete lines, the first a media line, the others not.\<close>

definition section_text :: "string \<Rightarrow> string \<Rightarrow> bool" where
  "section_text l t \<longleftrightarrow> (\<exists>r. t = l @ CRLF @ r \<and> starts_with ''m='' l \<and> find_sub CRLF l = None \<and> attribute_text r)"

lemma attribute_no_media: "attribute_text r \<Longrightarrow> media_lines (r @ t) = media_lines t"
proof -
  assume "attribute_text r"
  then obtain ls where r: "r = text_of ls" and a: "\<forall>l\<in>set ls. LF \<notin> set l \<and> l \<noteq> [] \<and> hd l \<noteq> CHR ''m''"
    by (auto simp: attribute_text_def)
  have "\<not> starts_with ''m='' l" if "l \<in> set ls" for l using a that by (cases l) auto
  moreover have "crlf_lines (text_of ls @ t) = ls @ crlf_lines t" using a by (intro crlf_lines_concat) auto
  ultimately show ?thesis unfolding r media_lines_def by (simp add: filter_empty_conv)
qed

lemma section_media: "section_text l t \<Longrightarrow> media_lines (t @ u) = l # media_lines u"
proof -
  assume "section_text l t"
  then obtain r where t: "t = l @ CRLF @ r" and l: "starts_with ''m='' l" "find_sub CRLF l = None" and r: "attribute_text r"
    by (auto simp: section_text_def)
  have "crlf_lines (t @ u) = l # crlf_lines (r @ u)" using crlf_lines_line [OF l(2), of "r @ u"] by (simp add: t)
  then have "media_lines (t @ u) = l # media_lines (r @ u)" using l(1) by (simp add: media_lines_def)
  then show ?thesis using attribute_no_media [OF r] by simp
qed

lemma media_word_cut: "\<forall>c\<in>set a. c \<noteq> CHR '' '' \<Longrightarrow> media_word (a @ CHR '' '' # r) = a"
  by (simp add: media_word_def takeWhile_append2)

lemma rejected_section:
  assumes "rejected_media_answer l = t" and "t \<noteq> []" and "find_sub CRLF l = None"
  shows "\<exists>m. section_text m t \<and> media_word m = media_word l \<and> port_text m = ''0''"
proof -
  have m: "starts_with ''m='' l" using assms by (auto simp: rejected_media_answer_def split: if_splits)
  obtain s where s: "find_char (CHR '' '') l = Some s" using assms m by (auto simp: rejected_media_answer_def split: option.splits)
  obtain e where e: "index_from blank l (s + 1) = Some e"
    using assms m s by (auto simp: rejected_media_answer_def split: option.splits)
  let ?a = "take s l" and ?d = "drop e l"
  let ?m = "(?a @ '' '') @ CHR ''0'' # ?d"
  have sl: "s < length l" "l ! s = CHR '' ''" "\<And>j. j < s \<Longrightarrow> l ! j \<noteq> CHR '' ''"
    using index_of_SomeD [OF s [unfolded find_char_def]] by auto
  have ts: "take (s + 1) l = ?a @ '' ''" using sl by (simp add: take_Suc_conv_app_nth)
  have el: "e < length l" "blank (l ! e)"
    using e by (auto simp: index_from_def dest!: index_of_SomeD)
  have t: "t = ?m @ CRLF @ ''a=inactive'' @ CRLF"
    using assms(1) m s e ts by (simp add: rejected_media_answer_def)
  have "find_sub CRLF (take (s + 1) l) = None"
    using find_sub_None_part [of CRLF "[]" "take (s + 1) l" "drop (s + 1) l"] assms(3) by simp
  then have "find_sub CRLF (?a @ '' '') = None" by (simp only: ts)
  moreover have "find_sub CRLF ?d = None" using find_sub_None_part [of CRLF "take e l" ?d "[]"] assms(3) by simp
  ultimately have nc: "find_sub CRLF ?m = None" by (rule no_crlf_join) simp_all
  have "l \<noteq> []" "2 \<le> s"
  proof -
    obtain r where r: "l = ''m='' @ r" using m by (auto simp: starts_with_iff)
    then show "l \<noteq> []" by simp
    have "l ! 0 \<noteq> CHR '' ''" "l ! 1 \<noteq> CHR '' ''" using r by simp_all
    then show "2 \<le> s" using sl(2) by (cases s; cases "s - 1") auto
  qed
  then obtain n where "s = Suc (Suc n)" by (metis add_2_eq_Suc le_Suc_ex)
  then have sm: "starts_with ''m='' ?m" using m by (auto simp: starts_with_iff)
  have w: "media_word ?m = ?a" "media_word l = ?a"
  proof -
    have a: "\<forall>c\<in>set ?a. c \<noteq> CHR '' ''" using sl by (auto simp: in_set_conv_nth)
    then show "media_word ?m = ?a" using media_word_cut [of ?a "CHR ''0'' # ?d"] by simp
    have "l = ?a @ CHR '' '' # drop (Suc s) l" using id_take_nth_drop [OF sl(1)] sl(2) by simp
    then show "media_word l = ?a" using media_word_cut [OF a] by metis
  qed
  have la: "length ?a = s" using sl by simp
  have "?d = l ! e # drop (Suc e) l" using el by (simp add: Cons_nth_drop_Suc)
  then have p: "port_text ?m = ''0''"
    unfolding port_text_def w(1) using el la by (simp add: blank_def)
  have "attribute_text (''a=inactive'' @ CRLF)" by (rule attribute_text_line) simp_all
  then have "section_text ?m t" unfolding section_text_def by (intro exI [of _ "''a=inactive'' @ CRLF"] conjI t sm nc)
  then have "section_text ?m t \<and> media_word ?m = media_word l \<and> port_text ?m = ''0''" by (simp only: w p)
  then show ?thesis by (rule exI [where x = ?m])
qed

lemma find_sub_first: "c \<notin> set a \<Longrightarrow> find_sub (c # p) (a @ (c # p) @ b) = Some (length a)"
proof (induction a)
  case Nil
  have "starts_with (c # p) ((c # p) @ b)" by (rule starts_with_append)
  then show ?case by (simp add: starts_with_iff)
next
  case (Cons d a)
  then show ?case by simp
qed

definition session_text :: "endpoint \<Rightarrow> string \<Rightarrow> string" where
  "session_text s ip = text_of
     [''v=0'', ''o=- '' @ dec_word (sdp_session_id s) @ '' '' @ dec_word (sdp_session_version s) @ '' IN IP4 '' @ ip,
      ''s=VoIP Stack'', ''c=IN IP4 '' @ ip, ''t=0 0'']"

definition audio_line_text :: "endpoint \<Rightarrow> string \<Rightarrow> string" where
  "audio_line_text s payloads = ''m=audio '' @ dec_word (rtp_port s) @ '' RTP/AVP '' @ payloads"

definition audio_tail :: "string \<Rightarrow> string \<Rightarrow> byte \<Rightarrow> string \<Rightarrow> string" where
  "audio_tail maps flows ptime direction =
     maps @ flows @ (''a=ptime:'' @ dec_word ptime @ CRLF) @ (''a=maxptime:'' @ dec_word ptime @ CRLF) @
     (''a='' @ direction @ CRLF)"

lemma wrap_split:
  "wrap_sdp_envelope s ip payloads maps flows ptime direction =
     session_text s ip @ audio_line_text s payloads @ CRLF @ audio_tail maps flows ptime direction"
  by (simp add: wrap_sdp_envelope_def session_text_def audio_line_text_def audio_tail_def)

text \<open>The dotted address the socket layer reports.\<close>

abbreviation ip_text :: "string \<Rightarrow> bool" where
  "ip_text ip \<equiv> \<forall>c\<in>set ip. is_digit c \<or> c = CHR ''.''"

lemma ip_chars: "ip_text ip \<Longrightarrow> CHR ''m'' \<notin> set ip \<and> LF \<notin> set ip"
  by (auto simp: is_digit_def)

lemma m_dec [simp]: "CHR ''m'' \<notin> set (dec n)"
  by (rule dec_no) (simp add: is_digit_def)

lemma session_no_m: "ip_text ip \<Longrightarrow> CHR ''m'' \<notin> set (session_text s ip)"
  using ip_chars [of ip] by (simp add: session_text_def)

lemma session_attributes: "ip_text ip \<Longrightarrow> attribute_text (session_text s ip)"
  using ip_chars [of ip] unfolding session_text_def attribute_text_def
  by (intro exI [of _ "[''v=0'', ''o=- '' @ dec_word (sdp_session_id s) @ '' '' @ dec_word (sdp_session_version s) @ '' IN IP4 '' @ ip,
      ''s=VoIP Stack'', ''c=IN IP4 '' @ ip, ''t=0 0'']"]) simp

lemma find_media: "ip_text ip \<Longrightarrow>
   find_sub ''m=audio '' (session_text s ip @ audio_line_text s payloads @ r) = Some (length (session_text s ip))"
  using find_sub_first [of "CHR ''m''" "session_text s ip" "''=audio ''"
      "dec_word (rtp_port s) @ '' RTP/AVP '' @ payloads @ r"] session_no_m [of ip s]
  by (simp add: audio_line_text_def)

lemma audio_section:
  assumes "answer_text a" and "LF \<notin> set direction"
  shows "section_text (audio_line_text s (al_payloads a))
     (audio_line_text s (al_payloads a) @ CRLF @ audio_tail (al_maps a) (al_flows a) ptime direction)"
proof -
  have "attribute_text (audio_tail (al_maps a) (al_flows a) ptime direction)"
    unfolding audio_tail_def using assms
    by (intro attribute_text_append attribute_line) (simp_all add: answer_text_def)
  moreover have "LF \<notin> set (audio_line_text s (al_payloads a))" using assms(1) by (simp add: audio_line_text_def answer_text_def)
  moreover have "starts_with ''m='' (audio_line_text s (al_payloads a))" by (simp add: audio_line_text_def)
  ultimately show ?thesis unfolding section_text_def using no_LF_no_crlf by blast
qed

lemma LF_direction: "LF \<notin> set (audio_direction_attribute a b)"
  by (simp add: audio_direction_attribute_def)

definition plain_capability :: "video_capability \<Rightarrow> bool" where
  "plain_capability c \<longleftrightarrow> LF \<notin> set (encoding c) \<and> LF \<notin> set (profile_level_id c)"

lemma attribute_text_if: "(P \<Longrightarrow> attribute_text t) \<Longrightarrow> attribute_text (if P then t else [])"
  by simp

lemma LF_video_direction: "LF \<notin> set (video_direction a b)"
  by (simp add: video_direction_def)

lemmas attribute_texts = attribute_text_append [OF attribute_line]

lemma h264_attributes_text: "plain_capability c \<Longrightarrow> attribute_text (h264_attributes c)"
proof -
  assume p: "plain_capability c"
  have a: "attribute_text (if rtcp_feedback_fir c then ''a=rtcp-fb:'' @ (dec_word (video_payload_type c) @ '' ccm fir'') @ CRLF else [])"
    by (rule attribute_text_if, rule attribute_line) simp_all
  have b: "attribute_text (if rtcp_feedback_pli c then ''a=rtcp-fb:'' @ (dec_word (video_payload_type c) @ '' nack pli'') @ CRLF else [])"
    by (rule attribute_text_if, rule attribute_line) simp_all
  show ?thesis unfolding h264_attributes_def
    by (rule attribute_texts [OF _ _ _ _ attribute_text_append [OF b a]]) (use p in \<open>simp_all add: plain_capability_def\<close>)
qed

lemma video_attributes_text:
  assumes "plain_capability c" and "ip_text ip" and "LF \<notin> set direction"
  shows "attribute_text (video_attributes s ip c direction)"
proof -
  have ip: "LF \<notin> set ip" using ip_chars [OF assms(2)] by blast
  have z: "attribute_text (''a='' @ direction @ CRLF)"
    by (rule attribute_line) (use assms(3) in simp_all)
  have f: "attribute_text ((''a=framerate:'' @ dec_word (max_fps c) @ CRLF) @ (''a='' @ direction @ CRLF))"
    by (rule attribute_texts [OF _ _ _ _ z]) simp_all
  have h: "attribute_text (if video_backend (ep_build s) = H264Backend \<and> is_h264 c then h264_attributes c else [])"
    using h264_attributes_text [OF assms(1)] by (intro attribute_text_if)
  have r: "attribute_text (''a=rtpmap:'' @ (dec_word (video_payload_type c) @ '' '' @ encoding c @ ''/90000'') @ CRLF)"
    by (rule attribute_line) (use assms(1) in \<open>simp_all add: plain_capability_def\<close>)
  have t: "attribute_text (''a=rtcp:'' @ (dec_word (video_rtp_port s + 1) @ '' IN IP4 '' @ ip) @ CRLF)"
    by (rule attribute_line) (use ip in simp_all)
  have b: "attribute_text (if max_bitrate_bps c \<noteq> 0 then ''b=TIAS:'' @ dec_word (max_bitrate_bps c) @ CRLF else [])"
    by (rule attribute_text_if, rule attribute_line) simp_all
  have c: "attribute_text (''c=IN IP4 '' @ ip @ CRLF)" by (rule attribute_line) (use ip in simp_all)
  show ?thesis unfolding video_attributes_def
    by (rule attribute_text_append [OF c attribute_text_append [OF b attribute_text_append [OF t
            attribute_text_append [OF r attribute_text_append [OF h f]]]]])
qed

lemma media_section:
  "LF \<notin> set l \<Longrightarrow> starts_with ''m='' l \<Longrightarrow> attribute_text r \<Longrightarrow> section_text l (l @ CRLF @ r)"
  unfolding section_text_def using no_LF_no_crlf by blast

lemma video_section:
  assumes "plain_capability c" and "ip_text ip" and "LF \<notin> set direction"
  shows "section_text (video_media_text s c) (video_lines s ip c direction)"
  unfolding video_lines_def
  by (rule media_section) (simp_all add: video_media_text_def video_attributes_text [OF assms])

lemma video_media_text_word: "media_word (video_media_text s c) = ''m=video'' \<and> port_text (video_media_text s c) = dec_word (video_rtp_port s)"
proof -
  have w: "media_word (video_media_text s c) = ''m=video''" by (simp add: video_media_text_def media_word_def)
  have "takeWhile (\<lambda>c. \<not> blank c) (dec_word (video_rtp_port s) @ '' RTP/AVP '' @ r) = dec_word (video_rtp_port s)" for r
    using dec_no_blank [of "unat (video_rtp_port s)"] by (simp add: takeWhile_append2 blank_def)
  then show ?thesis unfolding port_text_def w by (simp add: video_media_text_def)
qed

lemma refused_section: "\<exists>l. section_text l (refused_video c) \<and> media_word l = ''m=video'' \<and> port_text l = ''0''"
proof -
  let ?l = "''m=video 0 RTP/AVP '' @ dec_word (video_payload_type c)"
  have "section_text ?l (?l @ CRLF @ [])" by (rule media_section) simp_all
  moreover have "?l @ CRLF @ [] = refused_video c" by (simp add: refused_video_def)
  moreover have w: "media_word ?l = ''m=video''" by (simp add: media_word_def)
  moreover have "port_text ?l = ''0''" unfolding port_text_def w by (simp add: blank_def)
  ultimately show ?thesis by metis
qed

text \<open>Video the peer offered and this phone does not negotiate.\<close>

definition video_refused :: "endpoint \<Rightarrow> bool" where
  "video_refused s \<longleftrightarrow> video_offered s \<and> \<not> video_negotiated s"

lemma video_part_cases:
  assumes "video_part s [] ip True \<noteq> []"
  shows "if video_refused s then video_part s [] ip True = refused_video (negotiated_video_capability s)
     else \<exists>a b. video_part s [] ip True = video_lines s ip (negotiated_video_capability s) (video_direction a b)"
  using assms unfolding video_part_def append_video_sdp_def video_refused_def Let_def by (auto split: if_splits)

definition video_answer_port :: "endpoint \<Rightarrow> string" where
  "video_answer_port s = (if video_refused s then ''0'' else dec_word (video_rtp_port s))"

lemma video_part_section:
  assumes "plain_capability (negotiated_video_capability s)" and "ip_text ip" and "video_part s [] ip True \<noteq> []"
  shows "\<exists>l. section_text l (video_part s [] ip True) \<and> media_word l = ''m=video'' \<and> port_text l = video_answer_port s"
proof (cases "video_refused s")
  case True
  then show ?thesis using video_part_cases [OF assms(3)] refused_section [of "negotiated_video_capability s"]
    by (simp add: video_answer_port_def)
next
  case False
  then obtain a b where v: "video_part s [] ip True = video_lines s ip (negotiated_video_capability s) (video_direction a b)"
    using video_part_cases [OF assms(3)] by auto
  show ?thesis unfolding v using False video_section [OF assms(1,2) LF_video_direction] video_media_text_word
    by (intro exI [of _ "video_media_text s (negotiated_video_capability s)"]) (simp add: video_answer_port_def)
qed

section \<open>The answer\<close>

text \<open>The media line of an answer at a position: the accepted audio or video stream, or the offered one with port 0.\<close>

definition answers_line :: "media_shape \<Rightarrow> string \<Rightarrow> string \<Rightarrow> bool \<Rightarrow> nat \<Rightarrow> string \<Rightarrow> bool" where
  "answers_line sh al vl video i l \<longleftrightarrow>
     (if audio_index sh = Some i then l = al
      else if video_index sh = Some i \<and> video then l = vl
      else media_word l = media_word (shape_line sh i) \<and> port_text l = ''0'')"

lemma answer_sections_lines:
  assumes "answer_sections sh audio video i n = Some t"
    and "section_text al audio" and "video \<noteq> [] \<Longrightarrow> section_text vl video"
    and "\<forall>j. find_sub CRLF (shape_line sh j) = None"
  shows "length (media_lines t) = n \<and> (\<forall>j<n. answers_line sh al vl (video \<noteq> []) (i + j) (media_lines t ! j))"
  using assms(1)
proof (induction n arbitrary: i t)
  case 0
  then show ?case by (simp add: media_lines_def)
next
  case (Suc n)
  obtain p u where p: "answer_section sh audio video i = Some p" and u: "answer_sections sh audio video (i + 1) n = Some u"
    and t: "t = p @ u"
    using Suc.prems by (auto split: option.splits)
  obtain l where l: "section_text l p" "answers_line sh al vl (video \<noteq> []) i l"
  proof (cases "audio_index sh = Some i \<or> (video_index sh = Some i \<and> video \<noteq> [])")
    case True
    then show thesis using that p assms(2,3) by (auto simp: answer_section_def answers_line_def split: if_splits)
  next
    case False
    then have r: "rejected_media_answer (shape_line sh i) = p" "p \<noteq> []"
      using p by (auto simp: answer_section_def Let_def split: if_splits)
    then obtain m where "section_text m p" "media_word m = media_word (shape_line sh i)" "port_text m = ''0''"
      using rejected_section assms(4) by metis
    then show thesis using that False by (auto simp: answers_line_def)
  qed
  have m: "media_lines t = l # media_lines u" unfolding t using l(1) by (rule section_media)
  have "answers_line sh al vl (video \<noteq> []) (i + j) (media_lines t ! j)" if "j < Suc n" for j
    using that Suc.IH [OF u] l(2) by (cases j) (simp_all add: m)
  then show ?case using Suc.IH [OF u] m by simp
qed

lemma audio_line_word: "audio_line l \<Longrightarrow> media_word l = ''m=audio''"
proof -
  assume "audio_line l"
  then have "starts_with ''m=audio '' l"
    by (auto simp: audio_line_def parse_audio_media_line_def media_fields_def split: if_splits)
  then obtain r where "l = ''m=audio '' @ r" by (auto simp: starts_with_iff)
  then show ?thesis by (simp add: media_word_def)
qed

lemma video_line_word: "video_line b l \<Longrightarrow> media_word l = ''m=video''"
proof -
  assume "video_line b l"
  then have "starts_with ''m=video '' l"
    by (auto simp: video_line_def parse_video_media_line_def media_fields_def split: if_splits)
  then obtain r where "l = ''m=video '' @ r" by (auto simp: starts_with_iff)
  then show ?thesis by (simp add: media_word_def)
qed

lemma build_answer_parts:
  assumes a: "build_sdp_answer s ip = answer" "answer \<noteq> []" and n: "shape_count (remote_media_shape s) \<noteq> 0"
    and ip: "ip_text ip"
  obtains lines tail media where "answer_text lines" "LF \<notin> set tail"
    "answer = session_text s ip @ media" "\<not> shape_overflow (remote_media_shape s)"
    "answer_sections (remote_media_shape s)
       (audio_line_text s (al_payloads lines) @ CRLF @ audio_tail (al_maps lines) (al_flows lines)
         (ucast (if format_valid (selected_rx_format s) then frame_ms (selected_rx_format s) else frame_ms (selected_tx_format s))) tail)
       (video_part s [] ip True) 0 (shape_count (remote_media_shape s)) = Some media"
proof -
  let ?send = "format_valid (selected_tx_format s)" and ?receive = "format_valid (selected_rx_format s)"
  have v: "?send \<or> ?receive"
    using a by (rule_tac ccontr) (simp add: build_sdp_answer_def)
  have v': "(\<not> ?send \<and> \<not> ?receive) = False" using v by blast
  have "answer_audio_lines s \<noteq> None"
  proof
    assume "answer_audio_lines s = None"
    then have "build_sdp_answer s ip = []" unfolding build_sdp_answer_def Let_def by simp
    then show False using a by simp
  qed
  then obtain lines where l: "answer_audio_lines s = Some lines" by blast
  let ?d = "audio_direction_attribute ?send ?receive"
  let ?p = "ucast (if ?receive then frame_ms (selected_rx_format s) else frame_ms (selected_tx_format s)) :: byte"
  let ?audio = "audio_line_text s (al_payloads lines) @ CRLF @ audio_tail (al_maps lines) (al_flows lines) ?p ?d"
  have w: "wrap_sdp_envelope s ip (al_payloads lines) (al_maps lines) (al_flows lines) ?p ?d = session_text s ip @ ?audio"
    by (rule wrap_split)
  have f: "find_sub ''m=audio '' (session_text s ip @ ?audio) = Some (length (session_text s ip))"
    using ip by (rule find_media)
  have k: "take (length (session_text s ip)) (session_text s ip @ ?audio) = session_text s ip"
    "drop (length (session_text s ip)) (session_text s ip @ ?audio) = ?audio" by simp_all
  have e: "answer = (if shape_overflow (remote_media_shape s) then []
      else case answer_sections (remote_media_shape s) ?audio (video_part s [] ip True) 0 (shape_count (remote_media_shape s)) of
             None \<Rightarrow> [] | Some media \<Rightarrow> session_text s ip @ media)"
    using a(1) [symmetric] n unfolding build_sdp_answer_def Let_def l option.case w f k v' if_False by simp
  then obtain media where m: "\<not> shape_overflow (remote_media_shape s)" "answer = session_text s ip @ media"
    "answer_sections (remote_media_shape s) ?audio (video_part s [] ip True) 0 (shape_count (remote_media_shape s)) = Some media"
    using a(2) by (auto split: if_splits option.splits)
  show thesis by (rule that [OF answer_audio_text [OF l] LF_direction m(2,1,3)])
qed

lemma audio_text_fields:
  "media_word (audio_line_text s p) = ''m=audio'' \<and> port_text (audio_line_text s p) = dec_word (rtp_port s)"
proof -
  have d: "\<not> blank c" if "c \<in> set (dec n)" for c n
    using that dec_no_blank [of n] by blast
  have "takeWhile (\<lambda>c. \<not> blank c) (dec n @ CHR '' '' # r) = dec n" for n r
    using d by (simp add: takeWhile_append2 blank_def)
  then show ?thesis by (simp add: audio_line_text_def media_word_def port_text_def)
qed

lemma answer_sections_exist:
  "\<forall>j<n. audio_index sh = Some (i + j) \<or> rejected_media_answer (shape_line sh (i + j)) \<noteq> [] \<Longrightarrow>
   answer_sections sh audio video i n \<noteq> None"
proof (induction n arbitrary: i)
  case (Suc n)
  have "\<forall>j<n. audio_index sh = Some (Suc i + j) \<or> rejected_media_answer (shape_line sh (Suc i + j)) \<noteq> []"
    using Suc.prems by (metis Suc_less_eq add_Suc_shift)
  moreover have "audio_index sh = Some i \<or> rejected_media_answer (shape_line sh i) \<noteq> []"
    using Suc.prems by (metis add_0_right zero_less_Suc)
  ultimately show ?case using Suc.IH [of "Suc i"]
    by (auto simp: answer_section_def Let_def split: option.split)
qed simp

lemma answer_exists:
  assumes "answer_audio_lines s = Some lines" and "format_valid (selected_tx_format s)"
    and n: "shape_count (remote_media_shape s) = n" "n \<noteq> 0" "\<not> shape_overflow (remote_media_shape s)"
    and rej: "\<forall>j<n. audio_index (remote_media_shape s) = Some j \<or>
      rejected_media_answer (shape_line (remote_media_shape s) j) \<noteq> []"
    and ip: "ip_text ip"
  shows "build_sdp_answer s ip \<noteq> []"
proof -
  have v': "(\<not> format_valid (selected_tx_format s) \<and> \<not> format_valid (selected_rx_format s)) = False"
    using assms(2) by blast
  have t: "answer_sections (remote_media_shape s) a v 0 n \<noteq> None" for a v
    using answer_sections_exist [of n "remote_media_shape s" 0] rej by simp
  have "session_text s ip \<noteq> []" by (simp add: session_text_def)
  then have u: "(case answer_sections (remote_media_shape s) a v 0 n of None \<Rightarrow> [] | Some m \<Rightarrow> session_text s ip @ m) \<noteq> []" for a v
    using t [of a v] by (auto split: option.split)
  have cut: "take (length xs) (xs @ ys) = xs" "drop (length xs) (xs @ ys) = ys" for xs ys :: string by simp_all
  show ?thesis
    using n unfolding build_sdp_answer_def Let_def v' if_False assms(1) option.case wrap_split find_media [OF ip] cut
    by (simp add: u)
qed

text \<open>The lines of an answer: each answers the line of the offer at its place, with the audio line and the video line given.\<close>

lemma answer_line_facts:
  assumes "remote_media_shape s = capture_remote_media_shape (ep_build s) sh0 offer" and "length (shape_offsets sh0) = 9"
    and "plain_capability (negotiated_video_capability s)" and "ip_text ip"
    and "build_sdp_answer s ip = answer" and "answer \<noteq> []" and "shape_count (remote_media_shape s) \<noteq> 0"
  obtains al vl where "shape_repr (ep_build s) (media_lines offer) (remote_media_shape s)"
    and "length (media_lines answer) = length (media_lines offer)"
    and "\<And>j. j < length (media_lines offer) \<Longrightarrow>
      answers_line (remote_media_shape s) al vl (video_part s [] ip True \<noteq> []) j (media_lines answer ! j)"
    and "media_word al = ''m=audio''" "port_text al = dec_word (rtp_port s)"
    and "video_part s [] ip True \<noteq> [] \<Longrightarrow> media_word vl = ''m=video'' \<and> port_text vl = video_answer_port s"
proof -
  let ?sh = "remote_media_shape s" and ?ms = "media_lines offer" and ?v = "video_part s [] ip True"
  let ?audio = "\<lambda>lines tail. audio_line_text s (al_payloads lines) @ CRLF @ audio_tail (al_maps lines) (al_flows lines)
         (ucast (if format_valid (selected_rx_format s) then frame_ms (selected_rx_format s) else frame_ms (selected_tx_format s))) tail"
  have c: "if length ?ms \<le> 8 \<and> length (concat ?ms) \<le> 65535 then shape_repr (ep_build s) ?ms ?sh else shape_overflow ?sh"
    using capture_lines [OF assms(2), of "ep_build s" "crlf_lines offer"]
    by (simp add: assms(1) capture_remote_media_shape_def media_lines_def Let_def)
  obtain lines tail media where a: "answer_text lines" "LF \<notin> set tail" "answer = session_text s ip @ media"
      "\<not> shape_overflow ?sh" "answer_sections ?sh (?audio lines tail) ?v 0 (shape_count ?sh) = Some media"
    using build_answer_parts [OF assms(5,6,7,4)] .
  have r: "shape_repr (ep_build s) ?ms ?sh" using c a(4) by (simp split: if_splits)
  then have sh: "shape_count ?sh = length ?ms" "audio_index ?sh = index_of audio_line ?ms"
    "video_index ?sh = index_of (video_line (ep_build s)) ?ms" by (simp_all add: shape_repr_def)
  obtain vl where vl: "?v \<noteq> [] \<Longrightarrow> section_text vl ?v \<and> media_word vl = ''m=video'' \<and> port_text vl = video_answer_port s"
    using video_part_section [OF assms(3,4)] by metis
  have crlf: "\<forall>j. find_sub CRLF (shape_line ?sh j) = None"
  proof
    fix j
    show "find_sub CRLF (shape_line ?sh j) = None"
    proof (cases "j < length ?ms")
      case True
      then have "shape_line ?sh j \<in> set (crlf_lines offer)"
        using shape_repr_line [OF r] nth_mem [OF True] by (simp add: media_lines_def)
      then show ?thesis by (rule line_no_crlf)
    qed (simp add: shape_line_def sh(1))
  qed
  let ?al = "audio_line_text s (al_payloads lines)"
  have L: "length (media_lines media) = length ?ms \<and>
      (\<forall>j<length ?ms. answers_line ?sh ?al vl (?v \<noteq> []) (0 + j) (media_lines media ! j))"
    using answer_sections_lines [OF a(5) audio_section [OF a(1,2)] _ crlf] vl sh(1) by auto
  have M: "media_lines answer = media_lines media"
    unfolding a(3) by (rule attribute_no_media [OF session_attributes [OF assms(4)]])
  have w: "media_word ?al = ''m=audio''" "port_text ?al = dec_word (rtp_port s)"
    using audio_text_fields by blast+
  show ?thesis by (rule that [OF r, of ?al vl]) (use L M w vl in simp_all)
qed

text \<open>
  C30: An answer mirrors the offer, as RFC 3264 asks. When there is an answer to an offer with
  media lines, it has exactly one media line for every one of the offer, in the same order and of the
  same medium; the first readable audio line is answered with the audio port, the first readable video
  line with the video port when there is a video section and video was negotiated, and every other
  line is refused with port 0, video that was offered and not negotiated included.
\<close>

theorem answer_mirrors_offer:
  assumes "remote_media_shape s = capture_remote_media_shape (ep_build s) sh0 offer" and "length (shape_offsets sh0) = 9"
    and "plain_capability (negotiated_video_capability s)" and "ip_text ip"
    and "build_sdp_answer s ip = answer" and "answer \<noteq> []" and "shape_count (remote_media_shape s) \<noteq> 0"
  shows "map media_word (media_lines answer) = map media_word (media_lines offer) \<and>
     (\<forall>i<length (media_lines offer).
        if index_of audio_line (media_lines offer) = Some i
        then port_text (media_lines answer ! i) = dec_word (rtp_port s)
        else if index_of (video_line (ep_build s)) (media_lines offer) = Some i \<and> video_part s [] ip True \<noteq> [] \<and>
             \<not> (video_offered s \<and> \<not> video_negotiated s)
        then port_text (media_lines answer ! i) = dec_word (video_rtp_port s)
        else port_text (media_lines answer ! i) = ''0'')"
proof -
  let ?sh = "remote_media_shape s" and ?ms = "media_lines offer" and ?v = "video_part s [] ip True"
  obtain al vl where r: "shape_repr (ep_build s) ?ms ?sh"
    and L: "length (media_lines answer) = length ?ms"
      "\<And>j. j < length ?ms \<Longrightarrow> answers_line ?sh al vl (?v \<noteq> []) j (media_lines answer ! j)"
    and w: "media_word al = ''m=audio''" "port_text al = dec_word (rtp_port s)"
    and vl: "?v \<noteq> [] \<Longrightarrow> media_word vl = ''m=video'' \<and> port_text vl = video_answer_port s"
    using answer_line_facts [OF assms] by blast
  have sh: "audio_index ?sh = index_of audio_line ?ms" "video_index ?sh = index_of (video_line (ep_build s)) ?ms"
    using r by (simp_all add: shape_repr_def)
  have W: "media_word (media_lines answer ! j) = media_word (?ms ! j)" if "j < length ?ms" for j
  proof -
    have "answers_line ?sh al vl (?v \<noteq> []) j (media_lines answer ! j)" by (rule L(2) [OF that])
    moreover have "audio_line (?ms ! j)" if "index_of audio_line ?ms = Some j" using that by (auto dest: index_of_SomeD)
    moreover have "video_line (ep_build s) (?ms ! j)" if "index_of (video_line (ep_build s)) ?ms = Some j"
      using that by (auto dest: index_of_SomeD)
    ultimately show ?thesis
      using w(1) vl audio_line_word video_line_word shape_repr_line [OF r that]
      by (simp add: answers_line_def sh split: if_splits)
  qed
  have "map media_word (media_lines answer) = map media_word ?ms"
    using L(1) W by (intro nth_equalityI) simp_all
  moreover have "if index_of audio_line ?ms = Some i then port_text (media_lines answer ! i) = dec_word (rtp_port s)
        else if index_of (video_line (ep_build s)) ?ms = Some i \<and> ?v \<noteq> [] \<and> \<not> (video_offered s \<and> \<not> video_negotiated s)
        then port_text (media_lines answer ! i) = dec_word (video_rtp_port s)
        else port_text (media_lines answer ! i) = ''0''"
    if "i < length ?ms" for i
  proof -
    have al: "answers_line ?sh al vl (?v \<noteq> []) i (media_lines answer ! i)" by (rule L(2) [OF that])
    show ?thesis
    proof (cases "index_of audio_line ?ms = Some i")
      case True
      then show ?thesis using al w(2) by (simp add: answers_line_def sh)
    next
      case no_audio: False
      show ?thesis
      proof (cases "index_of (video_line (ep_build s)) ?ms = Some i \<and> ?v \<noteq> []")
        case True
        then have "port_text (media_lines answer ! i) = video_answer_port s" using al no_audio vl by (simp add: answers_line_def sh)
        then show ?thesis using no_audio True by (simp add: video_answer_port_def video_refused_def)
      next
        case False
        then have "port_text (media_lines answer ! i) = ''0''" using al no_audio by (auto simp: answers_line_def sh)
        then show ?thesis unfolding if_not_P [OF no_audio] using False by metis
      qed
    qed
  qed
  ultimately show ?thesis by blast
qed

text \<open>An endpoint with a speaker and a microphone at 16 kHz and 48 kHz, and no video.\<close>

definition wideband :: audio_format where
  "wideband = \<lparr>sample_rate = 16000, pcm_format = S16LE, channels = 1, frame_ms = 20, codec = PCM\<rparr>"

definition fullband :: audio_format where
  "fullband = \<lparr>sample_rate = 48000, pcm_format = S16LE, channels = 1, frame_ms = 10, codec = PCM\<rparr>"

definition sample_endpoint :: endpoint where
  "sample_endpoint =
     \<lparr>ep_build = \<lparr>has_speaker = True, has_opus = False, video_backend = NoVideo\<rparr>,
      sdp_session_id = 7, sdp_session_version = 1, rtp_port = 40000, udp_max_payload = 1200,
      offer_tx_formats = [wideband], offer_rx_formats = [wideband],
      peer_directional_audio = False, remote_directional_audio = False, local_offered_directional_audio = False,
      local_offered_rx_payloads = [], local_offered_tx_formats = [], remote_media_shape = new_media_shape,
      selected_tx_format = wideband, selected_rx_format = wideband, audio_receive_enabled = True,
      rtp_tx_payload_type = 96, rtp_rx_payload_type = 96,
      negotiated_rx_payloads = [\<lparr>entry_format = wideband, payload_type = 96\<rparr>],
      remote_rtp_ip = 0, remote_rtp_port = 0, refer_context_active = False, refer_dialog_tx = None,
      video_source = None, video_sink = None, configured_codec = JPEG, video_send_requested = True,
      video_rtp_port = 40002, video_offer_payload_type = 103, video_offered = False, video_negotiated = False,
      video_send_enabled = False, video_receive_enabled = False, negotiated_video_capability = no_capability,
      remote_video_ip = 0, remote_video_rtp_port = 0, remote_video_rtcp_ip = 0, remote_video_rtcp_port = 0\<rparr>"

definition sample_offer :: string where
  "sample_offer = text_of [''v=0'', ''m=video 4 RTP/AVP 26'', ''m=audio 6 RTP/AVP 96'']"

definition answering_endpoint :: endpoint where
  "answering_endpoint = sample_endpoint\<lparr>remote_media_shape :=
     capture_remote_media_shape (ep_build sample_endpoint) new_media_shape sample_offer\<rparr>"

lemma wideband_facts: "format_valid wideband" "audio_format_rtp_encoding wideband 1200 = Some ''L16''"
  by (simp_all add: wideband_def format_valid_def valid_rate_def audio_format_rtp_encoding_def
      nominal_rtp_payload_bytes_def nominal_frame_samples_def rtp_bytes_per_sample_def Let_def)

lemma sample_lines: "crlf_lines sample_offer = [''v=0'', ''m=video 4 RTP/AVP 26'', ''m=audio 6 RTP/AVP 96'']"
  unfolding sample_offer_def by (rule crlf_lines_text) simp

lemma sample_media: "media_lines sample_offer = [''m=video 4 RTP/AVP 26'', ''m=audio 6 RTP/AVP 96'']"
  unfolding media_lines_def sample_lines by simp

lemma sample_audio_line: "audio_line ''m=audio 6 RTP/AVP 96''" "\<not> audio_line ''m=video 4 RTP/AVP 26''"
proof -
  have "parse_audio_media_line (''m=audio '' @ dec 6 @ '' RTP/AVP'' @ pt_text [96]) \<noteq> None"
    using media_line_printed [of "[96]" 6] by simp
  moreover have "dec 6 = ''6''" "dec 96 = ''96''" by code_simp+
  ultimately show "audio_line ''m=audio 6 RTP/AVP 96''" by (simp add: audio_line_def)
  show "\<not> audio_line ''m=video 4 RTP/AVP 26''" by (simp add: audio_line_def parse_audio_media_line_def media_fields_def)
qed

lemma answering_shape: "shape_repr (ep_build sample_endpoint) (media_lines sample_offer) (remote_media_shape answering_endpoint)"
proof -
  have "length (shape_offsets new_media_shape) = 9" by (simp add: new_media_shape_def MAX_SDP_MEDIA_LINES_def)
  then show ?thesis
    using capture_lines [of new_media_shape "ep_build sample_endpoint" "crlf_lines sample_offer"]
    by (simp add: answering_endpoint_def sample_endpoint_def capture_remote_media_shape_def
        media_lines_def [symmetric] Let_def sample_media)
qed

theorem answer_mirrors_offer_witness:
  "map media_word (media_lines (build_sdp_answer answering_endpoint ''10.0.0.1'')) = [''m=video'', ''m=audio'']"
proof -
  have f: "selected_tx_format answering_endpoint = wideband" "selected_rx_format answering_endpoint = wideband"
    "udp_max_payload answering_endpoint = 1200" "rtp_tx_payload_type answering_endpoint = 96"
    "rtp_rx_payload_type answering_endpoint = 96" "remote_directional_audio answering_endpoint = False"
    "negotiated_rx_payloads answering_endpoint = [\<lparr>entry_format = wideband, payload_type = 96\<rparr>]"
    by (simp_all add: answering_endpoint_def sample_endpoint_def)
  have lines: "answer_audio_lines answering_endpoint \<noteq> None"
    unfolding answer_audio_lines_def Let_def f by (simp add: wideband_facts answer_append_def f)
  have sh: "shape_count (remote_media_shape answering_endpoint) = 2" "\<not> shape_overflow (remote_media_shape answering_endpoint)"
    "audio_index (remote_media_shape answering_endpoint) = Some 1"
    using answering_shape by (simp_all add: shape_repr_def sample_media sample_audio_line)
  have "shape_line (remote_media_shape answering_endpoint) 0 = ''m=video 4 RTP/AVP 26''"
    using shape_repr_line [OF answering_shape, of 0] by (simp add: sample_media)
  moreover have "rejected_media_answer ''m=video 4 RTP/AVP 26'' \<noteq> []" by code_simp
  ultimately have rej: "\<forall>j<2. audio_index (remote_media_shape answering_endpoint) = Some j \<or>
      rejected_media_answer (shape_line (remote_media_shape answering_endpoint) j) \<noteq> []"
    by (auto simp: sh less_2_cases_iff)
  have i: "ip_text ''10.0.0.1''" by (simp add: is_digit_def)
  have a: "build_sdp_answer answering_endpoint ''10.0.0.1'' \<noteq> []"
    using lines answer_exists [OF _ _ sh(1) _ sh(2) rej i] wideband_facts(1) f(1) by auto
  have l: "length (shape_offsets new_media_shape) = 9" by (simp add: new_media_shape_def MAX_SDP_MEDIA_LINES_def)
  have p: "plain_capability (negotiated_video_capability answering_endpoint)"
    by (simp add: plain_capability_def answering_endpoint_def sample_endpoint_def no_capability_def)
  have r: "remote_media_shape answering_endpoint =
      capture_remote_media_shape (ep_build answering_endpoint) new_media_shape sample_offer"
    by (simp add: answering_endpoint_def sample_endpoint_def)
  have n: "shape_count (remote_media_shape answering_endpoint) \<noteq> 0" by (simp add: sh)
  have m: "map media_word (media_lines sample_offer) = [''m=video'', ''m=audio'']"
    by (simp add: sample_media media_word_def)
  show ?thesis using answer_mirrors_offer [OF r l p i refl a n] m by simp
qed

end
