(* ===== verification/SdpFormats.thy ===== *)
theory SdpFormats
  imports SdpLearnProps SdpAnswer
begin

text \<open>
  The formats on the wire: \<open>rtpmap\<close> lines printed and read, and the formats no description can
  select.
\<close>

section \<open>Maps printed and read\<close>

text \<open>What is left of a format in a map line; the packet time is that of the description.\<close>

definition wire_format :: "audio_format \<Rightarrow> audio_format" where
  "wire_format f =
     (if codec f = OPUS then f\<lparr>sample_rate := 48000, channels := 1, pcm_format := S16LE, frame_ms := 20\<rparr>
      else f\<lparr>pcm_format := (if pcm_format f = S16LE then S16LE else S24LE), frame_ms := 20\<rparr>)"

lemma wire_format_valid: "format_valid f \<Longrightarrow> format_valid (wire_format f)"
  by (auto simp: format_valid_def wire_format_def valid_rate_def valid_opus_rate_def Let_def)

lemma parse_rtpmap_parts:
  assumes "find_char (CHR '':'') line = Some colon" and "find_char_from (CHR '' '') line (colon + 1) = Some sp"
    and "parse_decimal_u32 (substr line (colon + 1) (sp - colon - 1)) 127 = Some p"
    and "trim_copy (drop (sp + 1) line) = spec" and "find_char (CHR ''/'') spec = Some a"
    and "find_char_from (CHR ''/'') spec (a + 1) = Some b"
    and "parse_decimal_u32 (substr spec (a + 1) (b - a - 1)) (- 1) = Some r"
    and "parse_decimal_u32 (drop (b + 1) spec) 255 = Some n"
  shows "parse_rtpmap_format line = map_option (Pair (ucast p)) (rtpmap_candidate (take a spec) r n)"
  by (simp only: parse_rtpmap_format_def assms option.case Let_def)

lemma rtpmap_printed:
  assumes v: "format_valid f" and e: "audio_format_rtp_encoding f n = Some enc" and pt: "unat pt \<le> 127"
  shows "parse_rtpmap_format (rtpmap_line pt enc f) = Some (pt, wire_format f)"
proof -
  let ?r = "dec_word (audio_format_rtp_clock_rate f)" and ?c = "dec_word (audio_format_rtp_channels f)"
  let ?spec = "enc @ ''/'' @ ?r @ ''/'' @ ?c"
  have line: "rtpmap_line pt enc f = ''a=rtpmap'' @ CHR '':'' # dec_word pt @ CHR '' '' # ?spec"
    by (simp add: rtpmap_line_def)
  have enc: "enc \<in> {''opus'', ''L16'', ''L24''}"
    using e by (auto simp: audio_format_rtp_encoding_def split: if_splits)
  then have slash: "CHR ''/'' \<notin> set enc" "enc \<noteq> []" "\<not> trim_space (hd enc)" by (auto simp: trim_space_def)
  have s: "CHR '' '' \<notin> set (dec k)" "CHR ''/'' \<notin> set (dec k)" for k by (rule dec_no, simp add: is_digit_def)+
  have colon: "find_char (CHR '':'') (rtpmap_line pt enc f) = Some 8"
    unfolding line using find_char_hit [of "CHR '':''" "''a=rtpmap''"] by simp
  have sp: "find_char_from (CHR '' '') (rtpmap_line pt enc f) 9 = Some (9 + length (dec_word pt))"
    unfolding line using find_char_hit [of "CHR '' ''" "dec_word pt" ?spec] s
    by (simp add: find_char_from_def index_from_def find_char_def)
  have num: "substr (rtpmap_line pt enc f) 9 (9 + length (dec_word pt) - 8 - 1) = dec_word pt"
    unfolding line by (simp add: substr_def)
  have spec: "drop (9 + length (dec_word pt) + 1) (rtpmap_line pt enc f) = ?spec"
  proof -
    let ?pre = "''a=rtpmap:'' @ dec_word pt @ '' ''"
    have "rtpmap_line pt enc f = ?pre @ ?spec" unfolding line by simp
    moreover have "length ?pre = 9 + length (dec_word pt) + 1" by simp
    ultimately show ?thesis by (metis append_eq_conv_conj)
  qed
  have trim: "trim_copy ?spec = ?spec"
    using slash dec_no_space [of "last ?c" "unat (audio_format_rtp_channels f)"]
    by (intro trim_id) (simp_all add: last_append)
  have s1: "find_char (CHR ''/'') ?spec = Some (length enc)" using find_char_hit [OF slash(1)] by simp
  have s2: "find_char_from (CHR ''/'') ?spec (length enc + 1) = Some (length enc + 1 + length ?r)"
    using find_char_hit [of "CHR ''/''" ?r ?c] s by (simp add: find_char_from_def index_from_def find_char_def)
  have rate: "substr ?spec (length enc + 1) (length enc + 1 + length ?r - length enc - 1) = ?r"
    by (simp add: substr_def)
  have ch: "drop (length enc + 1 + length ?r + 1) ?spec = ?c" by simp
  have p1: "parse_decimal_u32 (dec_word pt) 127 = Some (ucast pt)"
    using parse_dec [of "unat pt" 127] pt by (simp add: word_le_nat_alt take_bit_nat_eq_self)
  have p2: "parse_decimal_u32 ?r (- 1) = Some (audio_format_rtp_clock_rate f)"
    using parse_dec [of "unat (audio_format_rtp_clock_rate f)" "- 1"]
      word_le_nat_alt [of "audio_format_rtp_clock_rate f" "- 1"] by (simp add: word_coorder.extremum)
  have p3: "parse_decimal_u32 ?c 255 = Some (ucast (audio_format_rtp_channels f))"
    using parse_dec [of "unat (audio_format_rtp_channels f)" 255] unsigned_less [of "audio_format_rtp_channels f"]
    by (simp add: take_bit_nat_eq_self)
  have cand: "rtpmap_candidate enc (audio_format_rtp_clock_rate f) (ucast (audio_format_rtp_channels f)) = Some (wire_format f)"
  proof (cases "codec f = OPUS")
    case True
    then have "enc = ''opus''" "wire_format f = default_audio_format\<lparr>frame_ms := 20, sample_rate := 48000, channels := 1,
        pcm_format := S16LE, codec := OPUS\<rparr>"
      using e by (simp_all add: audio_format_rtp_encoding_def wire_format_def default_audio_format_def)
    then show ?thesis using wire_format_valid [OF v] True
      by (simp add: rtpmap_candidate_def audio_format_rtp_clock_rate_def audio_format_rtp_channels_def)
  next
    case False
    then have c: "codec f = PCM" "enc = (if pcm_format f = S16LE then ''L16'' else ''L24'')"
      using e v by (auto simp: audio_format_rtp_encoding_def format_valid_def Let_def split: if_splits)
    then have "wire_format f = default_audio_format\<lparr>frame_ms := 20, sample_rate := sample_rate f, channels := channels f,
        pcm_format := (if pcm_format f = S16LE then S16LE else S24LE)\<rparr>"
      by (simp add: wire_format_def default_audio_format_def)
    moreover have "(ucast (ucast (channels f) :: u32) :: byte) = channels f"
      by (rule bit_word_eqI) (auto simp: bit_simps)
    ultimately show ?thesis using wire_format_valid [OF v] c
      by (cases "pcm_format f = S16LE")
        (simp_all add: Let_def rtpmap_candidate_def audio_format_rtp_clock_rate_def audio_format_rtp_channels_def)
  qed
  have "parse_rtpmap_format (rtpmap_line pt enc f) =
      map_option (Pair (ucast (ucast pt :: u32)))
        (rtpmap_candidate (take (length enc) ?spec) (audio_format_rtp_clock_rate f) (ucast (audio_format_rtp_channels f)))"
  proof (rule parse_rtpmap_parts [OF colon])
    show "find_char_from (CHR '' '') (rtpmap_line pt enc f) (8 + 1) = Some (9 + length (dec_word pt))" using sp by simp
    show "parse_decimal_u32 (substr (rtpmap_line pt enc f) (8 + 1) (9 + length (dec_word pt) - 8 - 1)) 127 = Some (ucast pt)"
      using num p1 by simp
    show "trim_copy (drop (9 + length (dec_word pt) + 1) (rtpmap_line pt enc f)) = ?spec" using spec trim by metis
    show "parse_decimal_u32 (drop (length enc + 1 + length ?r + 1) ?spec) 255 = Some (ucast (audio_format_rtp_channels f))"
      unfolding ch by (rule p3)
    show "parse_decimal_u32 (substr ?spec (length enc + 1) (length enc + 1 + length ?r - length enc - 1)) (- 1) =
        Some (audio_format_rtp_clock_rate f)"
      unfolding rate by (rule p2)
  qed (rule s1 s2)+
  moreover have "take (length enc) ?spec = enc" by simp
  moreover have "(ucast (ucast pt :: u32) :: byte) = pt" by (rule bit_word_eqI) (auto simp: bit_simps)
  ultimately show ?thesis using cand by simp
qed

text \<open>
  A format survives its map line. The \<open>rtpmap\<close> line printed for a valid format that has an
  encoding is read back as the same payload type and the format with the packet time left open; 24-bit
  samples in 32-bit words come back as packed 24-bit samples, and Opus as the mono 48 kHz decoder.
\<close>

theorem rtpmap_roundtrip:
  assumes "format_valid f" and "audio_format_rtp_encoding f n = Some enc" and "unat pt \<le> 127"
  shows "parse_rtpmap_format (rtpmap_line pt enc f) = Some (pt, wire_format f) \<and> format_valid (wire_format f) \<and>
     (audio_formats_share_wire_encoding f ((wire_format f)\<lparr>frame_ms := frame_ms f\<rparr>) = (pcm_format f \<noteq> S24LE_IN_S32))"
proof -
  have "pcm_format f = S16LE \<or> pcm_format f = S24LE \<or> pcm_format f = S24LE_IN_S32 \<or> codec f = OPUS"
    using assms(2) by (auto simp: audio_format_rtp_encoding_def split: if_splits)
  moreover have "codec f = OPUS \<Longrightarrow> pcm_format f = S16LE" using assms(1) by (auto simp: format_valid_def Let_def)
  ultimately have "audio_formats_share_wire_encoding f ((wire_format f)\<lparr>frame_ms := frame_ms f\<rparr>) = (pcm_format f \<noteq> S24LE_IN_S32)"
    by (auto simp: audio_formats_share_wire_encoding_def wire_format_def)
  then show ?thesis using rtpmap_printed [OF assms] wire_format_valid [OF assms(1)] by blast
qed

theorem rtpmap_roundtrip_witness:
  "parse_rtpmap_format (rtpmap_line 101 ''L16'' fullband) = Some (101, wire_format fullband)"
proof -
  have v: "format_valid fullband" and e: "audio_format_rtp_encoding fullband 1200 = Some ''L16''"
    by (simp_all add: fullband_def format_valid_def valid_rate_def audio_format_rtp_encoding_def
        nominal_rtp_payload_bytes_def nominal_frame_samples_def rtp_bytes_per_sample_def Let_def)
  show ?thesis using rtpmap_roundtrip [OF v e, of 101] by simp
qed

section \<open>Formats no description selects\<close>

lemma rtpmap_never_in_s32: "parse_rtpmap_format line = Some (pt, g) \<Longrightarrow> pcm_format g = S16LE \<or> pcm_format g = S24LE"
  by (auto simp: parse_rtpmap_format_def rtpmap_candidate_def default_audio_format_def Let_def
      split: option.splits if_splits)

definition only_s24_in_s32 :: "audio_format_list \<Rightarrow> bool" where
  "only_s24_in_s32 fs \<longleftrightarrow> (\<forall>f\<in>set fs. codec f = PCM \<and> pcm_format f = S24LE_IN_S32)"

lemma no_match_s24_in_s32:
  assumes "only_s24_in_s32 fs" and "pcm_format g \<noteq> S24LE_IN_S32"
  shows "audio_format_list_match_udp_safe fs g n = None"
proof (rule ccontr)
  assume "audio_format_list_match_udp_safe fs g n \<noteq> None"
  then obtain l where "l \<in> set fs" "audio_formats_share_wire_encoding l g"
    using match_udp_safe_sound [of fs g n] by auto
  then show False using assms
    by (auto simp: only_s24_in_s32_def audio_formats_share_wire_encoding_def split: if_splits)
qed

definition nothing_chosen :: "format_scan \<Rightarrow> bool" where
  "nothing_chosen fs \<longleftrightarrow> fs_tx fs = None \<and> fs_rx fs = None"

lemma learn_format_nothing:
  assumes "learn_format s is_answer a pt g fs = Some fs'" and "nothing_chosen fs" and "pcm_format g \<noteq> S24LE_IN_S32"
    and "only_s24_in_s32 (offer_tx_formats s)" and "only_s24_in_s32 (offer_rx_formats s)"
  shows "nothing_chosen fs'"
proof -
  have "tx_usable s is_answer flow g = None" "rx_usable s is_answer pt flow g = None" for flow
    using no_match_s24_in_s32 assms(3-5) by (simp_all add: tx_usable_def rx_usable_def rx_local_def)
  then show ?thesis
    using assms(1,2) by (auto simp: learn_format_def nothing_chosen_def choose_transmit_def Let_def split: if_splits)
qed

text \<open>
  An endpoint with 24-bit samples in 32-bit words understands nobody. Such a format is offered
  as L24, but a description never names it: the format read from an L24 map is packed 24-bit, which is
  not matched to it. When all formats of an endpoint are of this kind, it rejects every description,
  also its own offer, and the stream stays as it was.
\<close>

theorem s24_in_s32_rejects_everything:
  assumes "only_s24_in_s32 (offer_tx_formats s)" and "only_s24_in_s32 (offer_rx_formats s)"
  shows "\<not> fst (learn_remote_rtp inet_aton sdp ip is_answer s)"
proof
  let ?s = "described sdp is_answer s"
  assume "fst (learn_remote_rtp inet_aton sdp ip is_answer s)"
  then obtain s' where run: "learn_remote_rtp inet_aton sdp ip is_answer s = (True, s')" by (metis prod.collapse)
  then obtain a fs tx rx tx_pt rx_pt accepted where
    fs: "fold_option (format_scan_line inet_aton ?s is_answer a) (numbered_lines sdp) (new_format_scan ip) = Some fs" and
    out: "audio_outcome ?s a fs = Some (tx, rx, tx_pt, rx_pt, accepted)"
    using learn_cases [OF run] by blast
  have "nothing_chosen fs"
    using fs
  proof (rule fold_option_inv)
    show "nothing_chosen (new_format_scan ip)" by (simp add: nothing_chosen_def new_format_scan_def)
  next
    fix l f f'
    assume n: "nothing_chosen f" and st: "format_scan_line inet_aton ?s is_answer a l f = Some f'"
    show "nothing_chosen f'"
    proof (cases "\<exists>pt g. parse_rtpmap_format (snd l) = Some (pt, g) \<and>
        learn_format ?s is_answer a pt (g\<lparr>frame_ms := ucast (as_ptime a)\<rparr>) f = Some f'")
      case True
      then obtain pt g where "parse_rtpmap_format (snd l) = Some (pt, g)"
        "learn_format ?s is_answer a pt (g\<lparr>frame_ms := ucast (as_ptime a)\<rparr>) f = Some f'" by blast
      then show ?thesis using learn_format_nothing [OF _ n] rtpmap_never_in_s32 assms by (fastforce simp: described_def)
    next
      case False
      then show ?thesis using st n unfolding format_scan_line_def Let_def
        by (auto simp: nothing_chosen_def split: if_splits option.splits prod.splits)
    qed
  qed
  moreover have "fs_tx fs \<noteq> None \<or> fs_rx fs \<noteq> None"
    using audio_outcome_ok [OF out format_scan_ok [OF fs]] by blast
  ultimately show False by (simp add: nothing_chosen_def)
qed

theorem s24_in_s32_rejects_everything_witness:
  "let s = sample_endpoint\<lparr>offer_tx_formats := [wideband\<lparr>pcm_format := S24LE_IN_S32\<rparr>],
             offer_rx_formats := [wideband\<lparr>pcm_format := S24LE_IN_S32\<rparr>]\<rparr> in
   \<not> fst (learn_remote_rtp (\<lambda>_. Some 1) (fst (build_sdp_offer s ''10.0.0.1'')) 1 True (snd (build_sdp_offer s ''10.0.0.1'')))"
proof -
  define same :: "endpoint \<Rightarrow> endpoint \<Rightarrow> bool" where
    "same s t \<longleftrightarrow> offer_tx_formats t = offer_tx_formats s \<and> offer_rx_formats t = offer_rx_formats s" for s t
  have i: "same s (snd x) \<Longrightarrow> same s (snd y) \<Longrightarrow> same s (snd (if c then x else y))" for s c and x y :: "string \<times> endpoint"
    by simp
  have u: "same s t \<Longrightarrow> same s (snd (m, t))" "same s s"
    "same s t \<Longrightarrow> same s (t\<lparr>local_offered_rx_payloads := a, local_offered_tx_formats := b\<rparr>)"
    "same s t \<Longrightarrow> same s (t\<lparr>local_offered_rx_payloads := a, local_offered_tx_formats := b, local_offered_directional_audio := c\<rparr>)"
    for s t a b c and m :: string
    by (simp_all add: same_def)
  have "same s (snd (build_sdp_offer s ip))" for s ip
    unfolding build_sdp_offer_def Let_def by (intro i u)
  then have k: "offer_tx_formats (snd (build_sdp_offer s ip)) = offer_tx_formats s"
    "offer_rx_formats (snd (build_sdp_offer s ip)) = offer_rx_formats s" for s ip
    by (simp_all add: same_def)
  show ?thesis unfolding Let_def
    by (rule s24_in_s32_rejects_everything) (simp_all add: k only_s24_in_s32_def wideband_def)
qed

text \<open>A description with one audio line and one map, heard by an endpoint with one format.\<close>

definition sample_description :: string where
  "sample_description = text_of [''m=audio 6 RTP/AVP 96'', rtpmap_line 96 ''L16'' wideband]"

definition sample_scan :: audio_scan where
  "sample_scan = new_audio_scan\<lparr>as_seen_media := True, as_rank := (\<lambda>_. 255)(96 := 0), as_port := 6, as_offered := [96],
     as_line := Some 0, as_in_audio := True\<rparr>"

lemma sample_rtpmap: "parse_rtpmap_format (rtpmap_line 96 ''L16'' wideband) = Some (96, wideband)"
  using rtpmap_printed [OF wideband_facts, of 96] by (simp add: wire_format_def wideband_def)

lemma sample_media_line: "parse_audio_media_line ''m=audio 6 RTP/AVP 96'' = Some (6, [96])"
proof -
  have "dec 6 = ''6''" "dec 96 = ''96''" by code_simp+
  then show ?thesis using media_line_printed [of "[96]" 6] by simp
qed

lemma sample_map_line: "rtpmap_line 96 ''L16'' wideband = ''a=rtpmap:96 L16/16000/1''"
proof -
  have "digit_char 9 = CHR ''9''" "digit_char 6 = CHR ''6''" "digit_char 1 = CHR ''1''" "digit_char 0 = CHR ''0''"
    by code_simp+
  then have "dec 96 = ''96''" "dec 16000 = ''16000''" "dec 1 = ''1''" by (simp_all add: dec.simps)
  then show ?thesis
    by (simp add: rtpmap_line_def audio_format_rtp_clock_rate_def audio_format_rtp_channels_def wideband_def)
qed

lemma sample_crlf_lines: "crlf_lines sample_description = [''m=audio 6 RTP/AVP 96'', ''a=rtpmap:96 L16/16000/1'']"
  unfolding sample_description_def sample_map_line by (rule crlf_lines_text) code_simp

lemma sample_description_lines:
  "numbered_lines sample_description = [(0, ''m=audio 6 RTP/AVP 96''), (1, ''a=rtpmap:96 L16/16000/1'')]"
  by (simp only: sample_crlf_lines enumerate_simps One_nat_def)

lemma sample_audio_scan: "fold_option audio_scan_line (numbered_lines sample_description) new_audio_scan = Some sample_scan"
proof -
  have r: "ranked_payloads ''m=audio 6 RTP/AVP 96'' = Some [96]"
  proof -
    have "dec 96 = ''96''" by code_simp
    then show ?thesis using payload_list_print [of 96 "[]"] by (simp add: ranked_payloads_def blank_def)
  qed
  have 1: "audio_scan_line (0, ''m=audio 6 RTP/AVP 96'') new_audio_scan = Some sample_scan"
    unfolding audio_scan_line_def Let_def snd_conv fst_conv sample_media_line r
    by (simp add: new_audio_scan_def sample_scan_def)
  have 2: "audio_scan_line (1, ''a=rtpmap:96 L16/16000/1'') sample_scan = Some sample_scan"
    by (simp add: audio_scan_line_def direction_line_def)
  show ?thesis by (simp only: sample_description_lines fold_option.simps 1 2 option.case)
qed

lemma sample_format_scan:
  assumes "s = described sample_description False sample_endpoint"
  shows "fold_option (format_scan_line inet_aton s False sample_scan) (numbered_lines sample_description) (new_format_scan 9) =
    Some \<lparr>fs_ip = 9, fs_seen_media = True, fs_in_audio = True,
          fs_seen_mapping = (\<lambda>_. 0)(96 := pack_audio_format wideband),
          fs_received = [\<lparr>entry_format = wideband, payload_type = 96\<rparr>], fs_tx = Some (wideband, 96, 0),
          fs_rx = Some (wideband, 96), fs_shared = True\<rparr>"
proof -
  have "\<not> has_sub ''a=x-voip-stack-flow:'' sample_description"
    unfolding sample_description_def sample_map_line by code_simp
  then have s: "offer_tx_formats s = [wideband]" "offer_rx_formats s = [wideband]" "udp_max_payload s = 1200"
    "remote_directional_audio s = False"
    unfolding assms described_def by (simp_all add: sample_endpoint_def)
  have share: "audio_format_list_match_udp_safe [wideband] wideband 1200 = Some wideband"
    by (simp add: audio_format_list_match_udp_safe_def audio_formats_share_wire_encoding_def wideband_facts
        nominal_rtp_payload_bytes_def nominal_frame_samples_def rtp_bytes_per_sample_def wideband_def
        wideband_facts [unfolded wideband_def])
  have map: "parse_rtpmap_format ''a=rtpmap:96 L16/16000/1'' = Some (96, wideband)"
    using sample_rtpmap by (simp add: sample_map_line)
  have f: "wideband\<lparr>frame_ms := 20\<rparr> = wideband" by (simp add: wideband_def)
  have l: "learn_format s False sample_scan 96 wideband
      (new_format_scan 9\<lparr>fs_seen_media := True, fs_in_audio := True\<rparr>) = Some \<lparr>fs_ip = 9, fs_seen_media = True, fs_in_audio = True,
          fs_seen_mapping = (\<lambda>_. 0)(96 := pack_audio_format wideband),
          fs_received = [\<lparr>entry_format = wideband, payload_type = 96\<rparr>], fs_tx = Some (wideband, 96, 0),
          fs_rx = Some (wideband, 96), fs_shared = True\<rparr>"
    by (simp add: learn_format_def tx_usable_def rx_usable_def rx_local_def s share Let_def new_format_scan_def sample_scan_def
        new_audio_scan_def choose_transmit_def better_receive_def payload_add_def wideband_facts MAX_AUDIO_FORMATS_def)
  have 1: "format_scan_line inet_aton s False sample_scan (0, ''m=audio 6 RTP/AVP 96'') (new_format_scan 9) =
      Some (new_format_scan 9\<lparr>fs_seen_media := True, fs_in_audio := True\<rparr>)"
    by (simp add: format_scan_line_def sample_scan_def)
  have 2: "format_scan_line inet_aton s False sample_scan (1, ''a=rtpmap:96 L16/16000/1'')
      (new_format_scan 9\<lparr>fs_seen_media := True, fs_in_audio := True\<rparr>) =
      learn_format s False sample_scan 96 wideband (new_format_scan 9\<lparr>fs_seen_media := True, fs_in_audio := True\<rparr>)"
    unfolding format_scan_line_def Let_def snd_conv map by (simp add: sample_scan_def new_audio_scan_def f)
  show ?thesis
    by (simp only: sample_description_lines fold_option.simps 1 2 l option.case)
qed

lemma sample_outcome:
  assumes "s = described sample_description False sample_endpoint"
  shows "audio_outcome s sample_scan \<lparr>fs_ip = 9, fs_seen_media = True, fs_in_audio = True,
          fs_seen_mapping = m, fs_received = [\<lparr>entry_format = wideband, payload_type = 96\<rparr>], fs_tx = Some (wideband, 96, 0),
          fs_rx = Some (wideband, 96), fs_shared = True\<rparr> =
     Some (wideband, wideband, 96, 96, [\<lparr>entry_format = wideband, payload_type = 96\<rparr>])"
  unfolding audio_outcome_def Let_def
  by (simp add: assms described_def sample_endpoint_def sample_scan_def new_audio_scan_def refine_receive_def
      audio_formats_share_wire_encoding_def raise_rate_def receive_usable_def payload_add_def wideband_facts
      MAX_AUDIO_FORMATS_def)

section \<open>What is learned\<close>

text \<open>
  C28: What is learned can be spoken. When a description is accepted, the stream has an address
  and the port of one of its audio lines; the transmit format is one the endpoint offers, in a
  packet the path can carry, under a payload type of that line; the receive format and every
  accepted receive format are formats the endpoint can receive, the accepted table is well formed and
  maps the receive payload type to the receive format; and at least one direction is on.
\<close>

theorem learned_audio_is_supported:
  assumes "learn_remote_rtp inet_aton sdp ip is_answer s = (True, s')"
    and "\<forall>f\<in>set (offer_tx_formats s) \<union> set (offer_rx_formats s). format_valid f"
  shows "remote_rtp_ip s' \<noteq> 0 \<and> remote_rtp_port s' \<noteq> 0 \<and>
     (\<exists>line\<in>set (crlf_lines sdp). \<exists>pts. parse_audio_media_line line = Some (remote_rtp_port s', pts) \<and>
        (format_valid (selected_tx_format s') \<longrightarrow>
           selected_tx_format s' \<in> set (offer_tx_formats s) \<and> unat (rtp_tx_payload_type s') \<in> set pts \<and>
           audio_format_rtp_encoding (selected_tx_format s') (udp_max_payload s) \<noteq> None)) \<and>
     (format_valid (selected_rx_format s') \<longrightarrow>
        payload_find (negotiated_rx_payloads s') (rtp_rx_payload_type s') = Some (selected_rx_format s')) \<and>
     payloads_inv (negotiated_rx_payloads s') \<and>
     (\<forall>e\<in>set (negotiated_rx_payloads s'). entry_format e \<in> set (offer_rx_formats s) \<and>
        audio_format_rtp_encoding (entry_format e) (udp_max_payload s) \<noteq> None) \<and>
     (format_valid (selected_tx_format s') \<and> format_valid (selected_rx_format s') \<longrightarrow>
        frame_ms (selected_tx_format s') = frame_ms (selected_rx_format s')) \<and>
     (format_valid (selected_tx_format s') \<or> format_valid (selected_rx_format s'))"
proof -
  let ?s = "described sdp is_answer s"
  have fields: "offer_tx_formats ?s = offer_tx_formats s" "offer_rx_formats ?s = offer_rx_formats s"
    "udp_max_payload ?s = udp_max_payload s" by (simp_all add: described_def)
  obtain a fs tx rx tx_pt rx_pt accepted where
    a: "fold_option audio_scan_line (numbered_lines sdp) new_audio_scan = Some a" and
    fs: "fold_option (format_scan_line inet_aton ?s is_answer a) (numbered_lines sdp) (new_format_scan ip) = Some fs" and
    out: "audio_outcome ?s a fs = Some (tx, rx, tx_pt, rx_pt, accepted)" and
    s': "selected_tx_format s' = tx" "selected_rx_format s' = rx" "rtp_tx_payload_type s' = tx_pt"
      "rtp_rx_payload_type s' = rx_pt" "negotiated_rx_payloads s' = accepted" "remote_rtp_ip s' = fs_ip fs"
      "remote_rtp_port s' = as_port a"
    using learn_cases [OF assms(1)] by blast
  have dis: "\<not> format_valid disabled_audio_format"
    by (simp add: disabled_audio_format_def default_audio_format_def format_valid_def valid_rate_def)
  note o = audio_outcome_ok [OF out format_scan_ok [OF fs]]
  obtain line where line: "line \<in> set (crlf_lines sdp)" "parse_audio_media_line line = Some (as_port a, as_offered a)"
    using audio_scan_from [OF a] o by (auto simp: from_line_def)
  have "format_valid tx \<longrightarrow> tx \<in> set (offer_tx_formats s) \<and> unat tx_pt \<in> set (as_offered a) \<and>
      audio_format_rtp_encoding tx (udp_max_payload s) \<noteq> None"
    using o dis by (auto simp: tx_choice_def fields)
  moreover have "format_valid rx \<longrightarrow> payload_find accepted rx_pt = Some rx" using o dis by auto
  moreover have "\<forall>e\<in>set accepted. entry_format e \<in> set (offer_rx_formats s) \<and>
        audio_format_rtp_encoding (entry_format e) (udp_max_payload s) \<noteq> None"
    using o by (simp add: rx_entry_def fields)
  moreover have "format_valid tx \<and> format_valid rx \<longrightarrow> frame_ms tx = frame_ms rx"
    using o dis by auto
  moreover have "format_valid tx \<or> format_valid rx"
    using audio_outcome_enabled [OF out format_scan_ok [OF fs]] assms(2) by (simp add: fields)
  ultimately show ?thesis using o line unfolding s' by blast
qed

theorem learned_audio_is_supported_witness:
  "let s' = snd (learn_remote_rtp (\<lambda>_. None) sample_description 9 False sample_endpoint) in
   payload_find (negotiated_rx_payloads s') (rtp_rx_payload_type s') = Some (selected_rx_format s')"
proof -
  let ?s = "described sample_description False sample_endpoint"
  have sh: "\<not> shape_overflow (remote_media_shape ?s)"
  proof -
    have "length (shape_offsets new_media_shape) = 9" by (simp add: new_media_shape_def MAX_SDP_MEDIA_LINES_def)
    then show ?thesis
      using capture_lines [of new_media_shape "ep_build sample_endpoint" "crlf_lines sample_description"]
      by (simp add: described_def sample_endpoint_def capture_remote_media_shape_def sample_crlf_lines shape_repr_def Let_def)
  qed
  obtain s' where run: "learn_remote_rtp (\<lambda>_. None) sample_description 9 False sample_endpoint = (True, s')"
    and rx: "selected_rx_format s' = wideband"
    using learn_accepts [OF sample_audio_scan sample_format_scan [OF refl] sample_outcome [OF refl] sh] by blast
  have "\<forall>f\<in>set (offer_tx_formats sample_endpoint) \<union> set (offer_rx_formats sample_endpoint). format_valid f"
    by (simp add: sample_endpoint_def wideband_facts)
  then show ?thesis using learned_audio_is_supported [OF run] rx by (simp add: run wideband_facts)
qed

end
