(* ===== verification/RtpJpeg.thy ===== *)
theory RtpJpeg
  imports Prelude
begin

text \<open>
  Motion JPEG over RTP, from \<open>rtp_jpeg.cpp\<close> and \<open>rtp_jpeg.h\<close>: the parser of a baseline JFIF
  frame, the header of one fragment, and the depacketizer, which rebuilds the interchange header
  of a frame and collects its entropy-coded scan in a buffer of the caller. A pointer with a size is a
  list; a pointer and a position in it are the suffix there. Sizes are natural numbers.
\<close>

section \<open>Bytes and buffers\<close>

definition read_be16 :: "bytes \<Rightarrow> u16" where
  "read_be16 d = push_bit 8 (ucast (d ! 0)) OR ucast (d ! 1)"

definition write_be16 :: "u16 \<Rightarrow> bytes" where
  "write_be16 v = [ucast (drop_bit 8 v), ucast v]"

text \<open>\<open>memcpy(buffer + offset, data, size)\<close> within the buffer.\<close>

definition blit :: "bytes \<Rightarrow> nat \<Rightarrow> bytes \<Rightarrow> bytes" where
  "blit buffer offset d = take offset buffer @ d @ drop (offset + length d) buffer"

text \<open>The \<open>BoundedWriter\<close>: its buffer, with the capacity as its length, and its size.\<close>

type_synonym bounded_writer = "bytes \<times> nat"

definition writer_append :: "bounded_writer \<Rightarrow> bytes \<Rightarrow> bool \<times> bounded_writer" where
  "writer_append w d =
     (case w of (buffer, used) \<Rightarrow>
        if used + length d > length buffer then (False, w) else (True, (blit buffer used d, used + length d)))"

fun append_all :: "bounded_writer \<Rightarrow> bytes list \<Rightarrow> bool \<times> bounded_writer" where
  "append_all w [] = (True, w)"
| "append_all w (d # ds) = (case writer_append w d of (False, w') \<Rightarrow> (False, w') | (True, w') \<Rightarrow> append_all w' ds)"

section \<open>Standard tables\<close>

text \<open>The Huffman segment is the marker, the length and the four tables in this order.\<close>

definition JPEG_BASE_QUANTIZERS :: bytes where
  "JPEG_BASE_QUANTIZERS = [
    0x10, 0x0B, 0x0C, 0x0E, 0x0C, 0x0A, 0x10, 0x0E, 0x0D, 0x0E, 0x12, 0x11, 0x10, 0x13, 0x18, 0x28, 0x1A, 0x18, 0x16, 0x16,
    0x18, 0x31, 0x23, 0x25, 0x1D, 0x28, 0x3A, 0x33, 0x3D, 0x3C, 0x39, 0x33, 0x38, 0x37, 0x40, 0x48, 0x5C, 0x4E, 0x40, 0x44,
    0x57, 0x45, 0x37, 0x38, 0x50, 0x6D, 0x51, 0x57, 0x5F, 0x62, 0x67, 0x68, 0x67, 0x3E, 0x4D, 0x71, 0x79, 0x70, 0x64, 0x78,
    0x5C, 0x65, 0x67, 0x63, 0x11, 0x12, 0x12, 0x18, 0x15, 0x18, 0x2F, 0x1A, 0x1A, 0x2F, 0x63, 0x42, 0x38, 0x42, 0x63, 0x63,
    0x63, 0x63, 0x63, 0x63, 0x63, 0x63, 0x63, 0x63, 0x63, 0x63, 0x63, 0x63, 0x63, 0x63, 0x63, 0x63, 0x63, 0x63, 0x63, 0x63,
    0x63, 0x63, 0x63, 0x63, 0x63, 0x63, 0x63, 0x63, 0x63, 0x63, 0x63, 0x63, 0x63, 0x63, 0x63, 0x63, 0x63, 0x63, 0x63, 0x63,
    0x63, 0x63, 0x63, 0x63, 0x63, 0x63, 0x63, 0x63]"

definition dc_luminance :: bytes where
  "dc_luminance = [
    0x00, 0x00, 0x01, 0x05, 0x01, 0x01, 0x01, 0x01, 0x01, 0x01, 0x00, 0x00, 0x00, 0x00, 0x00, 0x00, 0x00, 0x00, 0x01, 0x02,
    0x03, 0x04, 0x05, 0x06, 0x07, 0x08, 0x09, 0x0A, 0x0B]"

definition dc_chrominance :: bytes where
  "dc_chrominance = [
    0x01, 0x00, 0x03, 0x01, 0x01, 0x01, 0x01, 0x01, 0x01, 0x01, 0x01, 0x01, 0x00, 0x00, 0x00, 0x00, 0x00, 0x00, 0x01, 0x02,
    0x03, 0x04, 0x05, 0x06, 0x07, 0x08, 0x09, 0x0A, 0x0B]"

definition ac_luminance :: bytes where
  "ac_luminance = [
    0x10, 0x00, 0x02, 0x01, 0x03, 0x03, 0x02, 0x04, 0x03, 0x05, 0x05, 0x04, 0x04, 0x00, 0x00, 0x01, 0x7D, 0x01, 0x02, 0x03,
    0x00, 0x04, 0x11, 0x05, 0x12, 0x21, 0x31, 0x41, 0x06, 0x13, 0x51, 0x61, 0x07, 0x22, 0x71, 0x14, 0x32, 0x81, 0x91, 0xA1,
    0x08, 0x23, 0x42, 0xB1, 0xC1, 0x15, 0x52, 0xD1, 0xF0, 0x24, 0x33, 0x62, 0x72, 0x82, 0x09, 0x0A, 0x16, 0x17, 0x18, 0x19,
    0x1A, 0x25, 0x26, 0x27, 0x28, 0x29, 0x2A, 0x34, 0x35, 0x36, 0x37, 0x38, 0x39, 0x3A, 0x43, 0x44, 0x45, 0x46, 0x47, 0x48,
    0x49, 0x4A, 0x53, 0x54, 0x55, 0x56, 0x57, 0x58, 0x59, 0x5A, 0x63, 0x64, 0x65, 0x66, 0x67, 0x68, 0x69, 0x6A, 0x73, 0x74,
    0x75, 0x76, 0x77, 0x78, 0x79, 0x7A, 0x83, 0x84, 0x85, 0x86, 0x87, 0x88, 0x89, 0x8A, 0x92, 0x93, 0x94, 0x95, 0x96, 0x97,
    0x98, 0x99, 0x9A, 0xA2, 0xA3, 0xA4, 0xA5, 0xA6, 0xA7, 0xA8, 0xA9, 0xAA, 0xB2, 0xB3, 0xB4, 0xB5, 0xB6, 0xB7, 0xB8, 0xB9,
    0xBA, 0xC2, 0xC3, 0xC4, 0xC5, 0xC6, 0xC7, 0xC8, 0xC9, 0xCA, 0xD2, 0xD3, 0xD4, 0xD5, 0xD6, 0xD7, 0xD8, 0xD9, 0xDA, 0xE1,
    0xE2, 0xE3, 0xE4, 0xE5, 0xE6, 0xE7, 0xE8, 0xE9, 0xEA, 0xF1, 0xF2, 0xF3, 0xF4, 0xF5, 0xF6, 0xF7, 0xF8, 0xF9, 0xFA]"

definition ac_chrominance :: bytes where
  "ac_chrominance = [
    0x11, 0x00, 0x02, 0x01, 0x02, 0x04, 0x04, 0x03, 0x04, 0x07, 0x05, 0x04, 0x04, 0x00, 0x01, 0x02, 0x77, 0x00, 0x01, 0x02,
    0x03, 0x11, 0x04, 0x05, 0x21, 0x31, 0x06, 0x12, 0x41, 0x51, 0x07, 0x61, 0x71, 0x13, 0x22, 0x32, 0x81, 0x08, 0x14, 0x42,
    0x91, 0xA1, 0xB1, 0xC1, 0x09, 0x23, 0x33, 0x52, 0xF0, 0x15, 0x62, 0x72, 0xD1, 0x0A, 0x16, 0x24, 0x34, 0xE1, 0x25, 0xF1,
    0x17, 0x18, 0x19, 0x1A, 0x26, 0x27, 0x28, 0x29, 0x2A, 0x35, 0x36, 0x37, 0x38, 0x39, 0x3A, 0x43, 0x44, 0x45, 0x46, 0x47,
    0x48, 0x49, 0x4A, 0x53, 0x54, 0x55, 0x56, 0x57, 0x58, 0x59, 0x5A, 0x63, 0x64, 0x65, 0x66, 0x67, 0x68, 0x69, 0x6A, 0x73,
    0x74, 0x75, 0x76, 0x77, 0x78, 0x79, 0x7A, 0x82, 0x83, 0x84, 0x85, 0x86, 0x87, 0x88, 0x89, 0x8A, 0x92, 0x93, 0x94, 0x95,
    0x96, 0x97, 0x98, 0x99, 0x9A, 0xA2, 0xA3, 0xA4, 0xA5, 0xA6, 0xA7, 0xA8, 0xA9, 0xAA, 0xB2, 0xB3, 0xB4, 0xB5, 0xB6, 0xB7,
    0xB8, 0xB9, 0xBA, 0xC2, 0xC3, 0xC4, 0xC5, 0xC6, 0xC7, 0xC8, 0xC9, 0xCA, 0xD2, 0xD3, 0xD4, 0xD5, 0xD6, 0xD7, 0xD8, 0xD9,
    0xDA, 0xE2, 0xE3, 0xE4, 0xE5, 0xE6, 0xE7, 0xE8, 0xE9, 0xEA, 0xF2, 0xF3, 0xF4, 0xF5, 0xF6, 0xF7, 0xF8, 0xF9, 0xFA]"

definition JPEG_STANDARD_DHT :: bytes where
  "JPEG_STANDARD_DHT =
     [0xFF, 0xC4, 0x01, 0xA2] @ dc_luminance @ dc_chrominance @ ac_luminance @ ac_chrominance"

section \<open>Huffman tables\<close>

text \<open>The sum of the sixteen code counts after the identifier of a table.\<close>

definition huffman_values :: "bytes \<Rightarrow> nat" where
  "huffman_values table = sum_list (map unat (take 16 (drop 1 table)))"

function standard_table_in :: "bytes \<Rightarrow> byte \<Rightarrow> bytes option" where
  "standard_table_in tables table_id =
     (if length tables < 17 then None
      else let n = 17 + huffman_values tables in
           if huffman_values tables = 0 \<or> n > length tables then None
           else if tables ! 0 = table_id then Some (take n tables)
           else standard_table_in (drop n tables) table_id)"
  by pat_completeness auto
termination
  by (relation "measure (length o fst)") auto

declare standard_table_in.simps [simp del]

definition standard_huffman_table :: "byte \<Rightarrow> bytes option" where
  "standard_huffman_table table_id = standard_table_in (drop 4 JPEG_STANDARD_DHT) table_id"

definition huffman_mask :: "byte \<Rightarrow> byte option" where
  "huffman_mask table_id =
     (if table_id = 0x00 then Some 0x01 else if table_id = 0x01 then Some 0x02
      else if table_id = 0x10 then Some 0x04 else if table_id = 0x11 then Some 0x08 else None)"

function consume_standard_huffman_tables :: "bytes \<Rightarrow> byte \<Rightarrow> bool \<times> byte" where
  "consume_standard_huffman_tables segment table_mask =
     (if segment = [] then (True, table_mask)
      else if length segment < 17 then (False, table_mask)
      else case huffman_mask (segment ! 0) of
             None \<Rightarrow> (False, table_mask)
           | Some m \<Rightarrow>
               let n = 17 + huffman_values segment in
               if table_mask AND m \<noteq> 0 \<or> huffman_values segment = 0 \<or> n > length segment then (False, table_mask)
               else if standard_huffman_table (segment ! 0) \<noteq> Some (take n segment) then (False, table_mask)
               else consume_standard_huffman_tables (drop n segment) (table_mask OR m))"
  by pat_completeness auto
termination
  by (relation "measure (length o fst)") auto

declare consume_standard_huffman_tables.simps [simp del]

section \<open>Parsing a frame\<close>

datatype jpeg_error = MALFORMED | UNSUPPORTED_PRECISION | UNSUPPORTED_SAMPLING | NONSTANDARD_HUFFMAN
  | UNSUPPORTED_PROCESS

text \<open>The scan of a frame that was not parsed is a null pointer, here the empty list.\<close>

record jpeg_frame =
  scan :: bytes
  quantizers :: bytes
  frame_width :: u16
  frame_height :: u16
  restart_interval :: u16
  frame_type :: byte

definition empty_jpeg_frame :: jpeg_frame where
  "empty_jpeg_frame =
     \<lparr>scan = [], quantizers = replicate 128 0, frame_width = 0, frame_height = 0, restart_interval = 0, frame_type = 0\<rparr>"

record jpeg_parse =
  jp_frame :: jpeg_frame
  jp_present :: "bool list"
  jp_sof :: bool
  jp_dht :: bool
  jp_mask :: byte

definition new_jpeg_parse :: jpeg_parse where
  "new_jpeg_parse =
     \<lparr>jp_frame = empty_jpeg_frame, jp_present = [False, False], jp_sof = False, jp_dht = False, jp_mask = 0\<rparr>"

fun parse_dqt :: "bytes \<Rightarrow> jpeg_parse \<Rightarrow> jpeg_error + jpeg_parse" where
  "parse_dqt [] p = Inr p"
| "parse_dqt (descriptor # seg) p =
     (let table = unat (descriptor AND 0x0F) in
      if drop_bit 4 descriptor \<noteq> 0 then Inl UNSUPPORTED_PRECISION
      else if table > 1 \<or> jp_present p ! table \<or> length seg < 64 then Inl MALFORMED
      else parse_dqt (drop 64 seg)
             (p\<lparr>jp_frame := (jp_frame p)\<lparr>quantizers := blit (quantizers (jp_frame p)) (table * 64) (take 64 seg)\<rparr>,
                jp_present := (jp_present p)[table := True]\<rparr>))"

definition parse_sof :: "bytes \<Rightarrow> jpeg_parse \<Rightarrow> jpeg_error + jpeg_parse" where
  "parse_sof seg p =
     (if length seg \<noteq> 15 \<or> seg ! 5 \<noteq> 3 then Inl MALFORMED
      else if seg ! 0 \<noteq> 8 then Inl UNSUPPORTED_PRECISION
      else
        let h = read_be16 (drop 1 seg); w = read_be16 (drop 3 seg); components = drop 6 seg in
        if w = 0 \<or> h = 0 \<or> w > 2040 \<or> h > 2040 then Inl MALFORMED
        else if components ! 0 \<noteq> 1 \<or> components ! 2 \<noteq> 0 \<or> components ! 3 \<noteq> 2 \<or> components ! 4 \<noteq> 0x11 \<or>
                components ! 5 \<noteq> 1 \<or> components ! 6 \<noteq> 3 \<or> components ! 7 \<noteq> 0x11 \<or> components ! 8 \<noteq> 1
        then Inl UNSUPPORTED_SAMPLING
        else if components ! 1 = 0x21
        then Inr (p\<lparr>jp_frame := (jp_frame p)\<lparr>frame_height := h, frame_width := w, frame_type := 0\<rparr>, jp_sof := True\<rparr>)
        else if components ! 1 = 0x22
        then Inr (p\<lparr>jp_frame := (jp_frame p)\<lparr>frame_height := h, frame_width := w, frame_type := 1\<rparr>, jp_sof := True\<rparr>)
        else Inl UNSUPPORTED_SAMPLING)"

definition parse_dri :: "bytes \<Rightarrow> jpeg_parse \<Rightarrow> jpeg_error + jpeg_parse" where
  "parse_dri seg p =
     (if length seg \<noteq> 2 \<or> read_be16 seg = 0 then Inl MALFORMED
      else Inr (p\<lparr>jp_frame := (jp_frame p)\<lparr>restart_interval := read_be16 seg\<rparr>\<rparr>))"

definition parse_dht :: "bytes \<Rightarrow> jpeg_parse \<Rightarrow> jpeg_error + jpeg_parse" where
  "parse_dht seg p =
     (case consume_standard_huffman_tables seg (jp_mask p) of
        (False, _) \<Rightarrow> Inl NONSTANDARD_HUFFMAN
      | (True, m) \<Rightarrow> Inr (p\<lparr>jp_mask := m, jp_dht := True\<rparr>))"

text \<open>The last end-of-image marker that ends at or before \<open>n\<close>.\<close>

fun last_eoi :: "bytes \<Rightarrow> nat \<Rightarrow> nat option" where
  "last_eoi d 0 = None"
| "last_eoi d (Suc n) =
     (if Suc n < 2 then None
      else if d ! (Suc n - 2) = 0xFF \<and> d ! (Suc n - 1) = 0xD9 then Some (Suc n - 2)
      else last_eoi d n)"

definition SOS_PARAMETERS :: bytes where
  "SOS_PARAMETERS = [0x01, 0x00, 0x02, 0x11, 0x03, 0x11, 0x00, 0x3F, 0x00]"

text \<open>The start of scan ends the parse; \<open>after\<close> is what follows its segment.\<close>

definition parse_sos :: "bytes \<Rightarrow> bytes \<Rightarrow> jpeg_parse \<Rightarrow> jpeg_error + jpeg_frame" where
  "parse_sos seg after p =
     (if \<not> jp_sof p \<or> \<not> jp_present p ! 0 \<or> \<not> jp_present p ! 1 \<or> length seg \<noteq> 10 \<or> seg ! 0 \<noteq> 3 \<or>
         drop 1 seg \<noteq> SOS_PARAMETERS
      then Inl MALFORMED
      else if jp_dht p \<and> jp_mask p \<noteq> 0x0F then Inl NONSTANDARD_HUFFMAN
      else case last_eoi after (length after) of
             None \<Rightarrow> Inl MALFORMED
           | Some n \<Rightarrow> if n = 0 then Inl MALFORMED else Inr ((jp_frame p)\<lparr>scan := take n after\<rparr>))"

definition parse_segment :: "byte \<Rightarrow> bytes \<Rightarrow> jpeg_parse \<Rightarrow> jpeg_error + jpeg_parse" where
  "parse_segment marker seg p =
     (if marker = 0xDB then parse_dqt seg p
      else if marker = 0xC4 then parse_dht seg p
      else if marker = 0xC0 then parse_sof seg p
      else if marker = 0xDD then parse_dri seg p
      else if marker \<ge> 0xC1 \<and> marker \<le> 0xCF \<and> marker \<noteq> 0xC4 \<and> marker \<noteq> 0xC8 \<and> marker \<noteq> 0xCC
      then Inl UNSUPPORTED_PROCESS
      else Inr p)"

function parse_segments :: "bytes \<Rightarrow> jpeg_parse \<Rightarrow> jpeg_error + jpeg_frame" where
  "parse_segments d p =
     (if length d < 2 \<or> d ! 0 \<noteq> 0xFF then Inl MALFORMED
      else case dropWhile (\<lambda>b. b = 0xFF) d of
             [] \<Rightarrow> Inl MALFORMED
           | marker # r \<Rightarrow>
               if marker = 0xD9 then Inl MALFORMED
               else if marker = 0xD8 \<or> (0xD0 \<le> marker \<and> marker \<le> 0xD7) \<or> marker = 0x01 then parse_segments r p
               else if length r < 2 then Inl MALFORMED
               else
                 let n = unat (read_be16 r); seg = take (n - 2) (drop 2 r) in
                 if n < 2 \<or> n > length r then Inl MALFORMED
                 else if marker = 0xDA then parse_sos seg (drop n r) p
                 else case parse_segment marker seg p of
                        Inl e \<Rightarrow> Inl e
                      | Inr q \<Rightarrow> parse_segments (drop n r) q)"
  by pat_completeness auto
termination
proof (relation "measure (length o fst)", goal_cases)
  case (2 d p marker r)
  then show ?case using length_dropWhile_le [of "\<lambda>b. b = 0xFF" d] by simp
next
  case (3 d p marker r n seg q)
  then show ?case using length_dropWhile_le [of "\<lambda>b. b = 0xFF" d] by simp
qed simp

declare parse_segments.simps [simp del]

definition parse_jpeg_for_rtp :: "bytes \<Rightarrow> jpeg_error + jpeg_frame" where
  "parse_jpeg_for_rtp d =
     (if length d < 4 \<or> d ! 0 \<noteq> 0xFF \<or> d ! 1 \<noteq> 0xD8 then Inl MALFORMED
      else parse_segments (drop 2 d) new_jpeg_parse)"

section \<open>The header of a fragment\<close>

text \<open>The bytes written, none when the function returns 0.\<close>

definition build_rtp_jpeg_fragment_header :: "jpeg_frame \<Rightarrow> u32 \<Rightarrow> nat \<Rightarrow> bytes" where
  "build_rtp_jpeg_fragment_header frame fragment_offset capacity =
     (let first = (fragment_offset = 0);
          required = 8 + (if restart_interval frame \<noteq> 0 then 4 else 0) + (if first then 132 else 0)
      in if capacity < required \<or> scan frame = [] \<or> frame_type frame > 1 \<or> frame_width frame = 0 \<or>
            frame_height frame = 0 \<or> frame_width frame > 2040 \<or> frame_height frame > 2040 \<or> fragment_offset > 0xFFFFFF
         then []
         else [0, ucast (drop_bit 16 fragment_offset), ucast (drop_bit 8 fragment_offset), ucast fragment_offset,
               frame_type frame OR (if restart_interval frame \<noteq> 0 then 0x40 else 0), 255,
               of_nat ((unat (frame_width frame) + 7) div 8), of_nat ((unat (frame_height frame) + 7) div 8)] @
              (if restart_interval frame \<noteq> 0 then write_be16 (restart_interval frame) @ write_be16 0xFFFF else []) @
              (if first then [0, 0] @ write_be16 128 @ quantizers frame else []))"

section \<open>Quantizers and the interchange header\<close>

definition make_quantizers :: "byte \<Rightarrow> bytes" where
  "make_quantizers quality =
     (let q = int (unat quality); scale = (if q < 50 then 5000 div q else 200 - q * 2)
      in map (\<lambda>b. word_of_int (max 1 (min 255 ((int (unat b) * scale + 50) div 100)))) JPEG_BASE_QUANTIZERS)"

definition valid_quantizers :: "bytes \<Rightarrow> bool" where
  "valid_quantizers q \<longleftrightarrow> length q = 128 \<and> list_all (\<lambda>b. b \<noteq> 0) q"

definition SOI_JFIF :: bytes where
  "SOI_JFIF = [0xFF, 0xD8, 0xFF, 0xE0, 0x00, 0x10, 0x4A, 0x46, 0x49, 0x46, 0x00, 0x01, 0x02, 0x00, 0x00, 0x01,
               0x00, 0x01, 0x00, 0x00]"

definition interchange_chunks :: "byte \<Rightarrow> byte \<Rightarrow> byte \<Rightarrow> bytes \<Rightarrow> u16 \<Rightarrow> bytes list" where
  "interchange_chunks type width_blocks height_blocks q interval =
     [SOI_JFIF, [0xFF, 0xDB], write_be16 132, [0], take 64 q, [1], take 64 (drop 64 q)] @
     (if interval \<noteq> 0 then [[0xFF, 0xDD, 0x00, 0x04], write_be16 interval] else []) @
     [[0xFF, 0xC0, 0x00, 0x11, 0x08], write_be16 (ucast height_blocks * 8), write_be16 (ucast width_blocks * 8),
      [3, 1, if type = 1 then 0x22 else 0x21, 0, 2, 0x11, 1, 3, 0x11, 1],
      JPEG_STANDARD_DHT, [0xFF, 0xDA, 0x00, 0x0C, 0x03] @ SOS_PARAMETERS]"

definition write_interchange_header ::
    "byte \<Rightarrow> byte \<Rightarrow> byte \<Rightarrow> bytes \<Rightarrow> u16 \<Rightarrow> bytes \<Rightarrow> nat option \<times> bytes" where
  "write_interchange_header type width_blocks height_blocks q interval output =
     (if type > 1 \<or> width_blocks = 0 \<or> height_blocks = 0 \<or> length q \<noteq> 128 then (None, output)
      else case append_all (output, 0) (interchange_chunks type width_blocks height_blocks q interval) of
             (True, (output', used)) \<Rightarrow> (Some used, output')
           | (False, (output', _)) \<Rightarrow> (None, output'))"

section \<open>The depacketizer\<close>

definition kCachedQualityCount :: nat where "kCachedQualityCount = 127"

record depacketizer =
  dp_active :: bool
  dp_timestamp :: u32
  dp_type_specific :: byte
  dp_type :: byte
  dp_quality :: byte
  dp_width_blocks :: byte
  dp_height_blocks :: byte
  dp_restart_interval :: u16
  dp_header_size :: nat
  dp_scan_size :: nat
  dp_cache :: "bytes option"
  dp_valid :: bytes

definition new_depacketizer :: depacketizer where
  "new_depacketizer =
     \<lparr>dp_active = False, dp_timestamp = 0, dp_type_specific = 0, dp_type = 0, dp_quality = 0, dp_width_blocks = 0,
      dp_height_blocks = 0, dp_restart_interval = 0, dp_header_size = 0, dp_scan_size = 0, dp_cache = None,
      dp_valid = replicate 16 0\<rparr>"

definition dp_reset :: "depacketizer \<Rightarrow> depacketizer" where
  "dp_reset p =
     p\<lparr>dp_active := False, dp_timestamp := 0, dp_type_specific := 0, dp_type := 0, dp_quality := 0,
       dp_width_blocks := 0, dp_height_blocks := 0, dp_restart_interval := 0, dp_header_size := 0, dp_scan_size := 0\<rparr>"

definition reset_session :: "depacketizer \<Rightarrow> depacketizer" where
  "reset_session p = (dp_reset p)\<lparr>dp_valid := replicate 16 0\<rparr>"

text \<open>The storage is the caller's; \<open>same\<close> tells that it is the one already used.\<close>

definition set_quantization_cache :: "bytes option \<Rightarrow> bool \<Rightarrow> depacketizer \<Rightarrow> depacketizer" where
  "set_quantization_cache storage same p =
     (let usable = (case storage of Some c \<Rightarrow> if length c \<ge> kCachedQualityCount * 128 then Some c else None | None \<Rightarrow> None)
      in if (usable = None \<and> dp_cache p = None) \<or> (usable \<noteq> None \<and> dp_cache p \<noteq> None \<and> same) then p
         else reset_session (p\<lparr>dp_cache := usable\<rparr>))"

definition cache_index :: "byte \<Rightarrow> nat" where
  "cache_index quality = unat (quality - 128)"

definition cache_bit :: "byte \<Rightarrow> byte" where
  "cache_bit quality = push_bit (cache_index quality mod 8) 1"

definition find_cached_quantizers :: "depacketizer \<Rightarrow> byte \<Rightarrow> bytes option" where
  "find_cached_quantizers p quality =
     (case dp_cache p of
        None \<Rightarrow> None
      | Some c \<Rightarrow>
          if quality < 128 \<or> quality > 254 then None
          else if dp_valid p ! (cache_index quality div 8) AND cache_bit quality = 0 then None
          else Some (take 128 (drop (cache_index quality * 128) c)))"

definition cache_or_validate_quantizers :: "depacketizer \<Rightarrow> byte \<Rightarrow> bytes \<Rightarrow> bool \<times> depacketizer" where
  "cache_or_validate_quantizers p quality q =
     (case dp_cache p of
        None \<Rightarrow> (False, p)
      | Some c \<Rightarrow>
          if quality < 128 \<or> quality > 254 then (False, p)
          else
            let i = cache_index quality; valid = dp_valid p ! (i div 8) in
            if valid AND cache_bit quality \<noteq> 0 then (take 128 (drop (i * 128) c) = take 128 q, p)
            else (True, p\<lparr>dp_cache := Some (blit c (i * 128) (take 128 q)),
                          dp_valid := (dp_valid p)[i div 8 := valid OR cache_bit quality]\<rparr>))"

definition start_frame ::
    "byte \<Rightarrow> byte \<Rightarrow> byte \<Rightarrow> byte \<Rightarrow> byte \<Rightarrow> u16 \<Rightarrow> bytes \<Rightarrow> u32 \<Rightarrow> bytes \<Rightarrow> depacketizer \<Rightarrow> bool \<times> bytes \<times> depacketizer" where
  "start_frame type_specific type quality width_blocks height_blocks interval q timestamp output p =
     (if type_specific \<noteq> 0 \<or> type > 1 \<or> width_blocks = 0 \<or> height_blocks = 0 \<or> length q \<noteq> 128 then (False, output, p)
      else case write_interchange_header type width_blocks height_blocks q interval output of
             (None, output') \<Rightarrow> (False, output', p)
           | (Some used, output') \<Rightarrow>
               (True, output',
                p\<lparr>dp_active := True, dp_timestamp := timestamp, dp_type_specific := type_specific,
                  dp_type := type OR (if interval \<noteq> 0 then 0x40 else 0), dp_quality := quality,
                  dp_width_blocks := width_blocks, dp_height_blocks := height_blocks, dp_restart_interval := interval,
                  dp_header_size := used, dp_scan_size := 0\<rparr>))"

datatype push_result = INCOMPLETE | COMPLETE | DROPPED

text \<open>The quantizers of a first fragment and the rest of its payload; \<open>None\<close> drops the packet.\<close>

definition first_fragment_quantizers :: "byte \<Rightarrow> bytes \<Rightarrow> depacketizer \<Rightarrow> (bytes \<times> bytes) option \<times> depacketizer" where
  "first_fragment_quantizers quality rest p =
     (if quality < 128
      then (if quality = 0 \<or> quality > 99 then None else Some (make_quantizers quality, rest), p)
      else if length rest < 4 \<or> rest ! 0 \<noteq> 0 \<or> rest ! 1 \<noteq> 0 then (None, p)
      else
        let n = unat (read_be16 (drop 2 rest)); body = drop 4 rest in
        if n = 0
        then (case find_cached_quantizers p quality of
                None \<Rightarrow> (None, p)
              | Some q \<Rightarrow> (if quality = 255 then None else Some (q, body), p))
        else if (n \<noteq> 64 \<and> n \<noteq> 128) \<or> length body < n then (None, p)
        else
          let q = (if n = 64 then take 64 body @ take 64 body else take 128 body) in
          if \<not> valid_quantizers q then (None, p)
          else if quality = 255 then (Some (q, drop n body), p)
          else case cache_or_validate_quantizers p quality q of
                 (False, p') \<Rightarrow> (None, p')
               | (True, p') \<Rightarrow> (Some (q, drop n body), p'))"

text \<open>The fragment joins the buffer; the marker completes the image.\<close>

definition take_fragment ::
    "u32 \<Rightarrow> bytes \<Rightarrow> bool \<Rightarrow> bytes \<Rightarrow> depacketizer \<Rightarrow> push_result \<times> bytes \<times> nat \<times> depacketizer" where
  "take_fragment fragment_offset fragment marker output p =
     (let at = dp_header_size p + dp_scan_size p in
      if \<not> dp_active p \<or> unat fragment_offset \<noteq> dp_scan_size p \<or> fragment = [] \<or> at + length fragment + 2 > length output
      then (DROPPED, output, 0, dp_reset p)
      else
        let output' = blit output at fragment; stop = at + length fragment;
            p' = p\<lparr>dp_scan_size := dp_scan_size p + length fragment\<rparr>
        in if \<not> marker then (INCOMPLETE, output', 0, p')
           else (COMPLETE, blit output' stop [0xFF, 0xD9], stop + 2, dp_reset p'))"

definition dp_push ::
    "bytes \<Rightarrow> bool \<Rightarrow> u32 \<Rightarrow> bytes \<Rightarrow> depacketizer \<Rightarrow> push_result \<times> bytes \<times> nat \<times> depacketizer" where
  "dp_push payload marker timestamp output p =
     (let dropped = (\<lambda>output q. (DROPPED, output, 0, dp_reset q)) in
      if length payload < 8 then dropped output p
      else
        let type_specific = payload ! 0;
            fragment_offset = push_bit 16 (ucast (payload ! 1)) OR push_bit 8 (ucast (payload ! 2)) OR ucast (payload ! 3);
            type_raw = payload ! 4; quality = payload ! 5; width_blocks = payload ! 6; height_blocks = payload ! 7;
            restart = (type_raw AND 0x40 \<noteq> 0)
        in if restart \<and> length payload < 12 then dropped output p
           else
             let interval = (if restart then read_be16 (drop 8 payload) else 0);
                 rest = drop (if restart then 12 else 8) payload;
                 type = (if restart then type_raw AND NOT 0x40 else type_raw)
             in if restart \<and> interval = 0 then dropped output p
                else if type > 1 \<or> type_specific \<noteq> 0 \<or> width_blocks = 0 \<or> height_blocks = 0 then dropped output p
                else if fragment_offset = 0
                then (case first_fragment_quantizers quality rest p of
                        (None, p1) \<Rightarrow> dropped output p1
                      | (Some (q, fragment), p1) \<Rightarrow>
                          (case start_frame type_specific type quality width_blocks height_blocks interval q timestamp
                                  output (dp_reset p1) of
                             (False, output', p2) \<Rightarrow> (DROPPED, output', 0, p2)
                           | (True, output', p2) \<Rightarrow> take_fragment fragment_offset fragment marker output' p2))
                else if \<not> dp_active p \<or> dp_timestamp p \<noteq> timestamp \<or> dp_type_specific p \<noteq> type_specific \<or>
                        dp_type p \<noteq> type_raw \<or> dp_quality p \<noteq> quality \<or> dp_width_blocks p \<noteq> width_blocks \<or>
                        dp_height_blocks p \<noteq> height_blocks \<or> dp_restart_interval p \<noteq> interval \<or>
                        unat fragment_offset \<noteq> dp_scan_size p
                then dropped output p
                else take_fragment fragment_offset rest marker output p)"

end
