(* ===== verification/VideoRtp.thy ===== *)
theory VideoRtp
  imports VideoFormat RtpJpeg
begin

text \<open>
  The RTP video session of \<open>video_rtp.cpp\<close>: its state, the sender (H.264 single NAL units and
  FU-A fragments, JPEG fragments), the receiver (reassembly of access units, source latching) and
  RTCP. The build without hosted audio pacing and without the debug counters is modelled. The
  socket, the clock, the sink and the allocator are the record \<open>video_env\<close>; what the session
  does to them is the list of its effects.
\<close>

section \<open>The environment\<close>

record access_unit =
  au_data :: bytes
  au_timestamp :: u32
  au_key_frame :: bool

text \<open>The result of one \<open>sendto\<close>: sent, refused for lack of buffers, or an error.\<close>

datatype send_result = Sent | Busy | SendError

text \<open>
  The attempts of the n-th datagram: the first result, whether \<open>select\<close> succeeded after it, and
  the second result.
\<close>

record video_env =
  now_ms :: u32
  unix_seconds :: int
  unix_micros :: nat
  attempts :: "nat \<Rightarrow> send_result \<times> bool \<times> send_result"
  sink_accepts :: "access_unit \<Rightarrow> bool"
  cache_available :: bool

datatype video_effect =
    SendRtp u32 u16 bytes
  | SendRtcp u32 u16 bytes
  | Consume access_unit
  | RequestKeyFrame

section \<open>The session\<close>

definition kMaxAccessUnitBytes :: "video_backend \<Rightarrow> nat" where
  "kMaxAccessUnitBytes b = (if b = H264Backend then 128 * 1024 else 512 * 1024)"

definition kMaxRtpPacketBytes :: nat where "kMaxRtpPacketBytes = 1500"

text \<open>
  The buffer of the slot being filled is \<open>reassembly\<close>; a pointer to it is \<open>reassembly_slot\<close>. The
  parameter sets hold their valid prefix. The sockets are opened and closed together.
\<close>

record video_session =
  backend :: video_backend
  capability :: video_capability
  max_payload :: nat
  send_enabled :: bool
  receive_enabled :: bool
  running :: bool
  sockets_open :: bool
  sink_bound :: bool
  source_bound :: bool
  peer_ip :: u32
  peer_rtp_port :: u16
  peer_rtcp_ip :: u32
  peer_rtcp_port :: u16
  latched_rtp_port :: u16
  latched_rtcp_port :: u16
  remote_ssrc :: u32
  remote_ssrc_latched :: bool
  tx_sequence :: u16
  tx_timestamp_offset :: u32
  tx_ssrc :: u32
  tx_packets :: u32
  tx_octets :: u32
  tx_units_ok :: u32
  last_tx_timestamp :: u32
  last_tx_ms :: u32
  tx_resync_needed :: bool
  sends :: nat
  slot_states :: "nat list"
  reassembly_slot :: "nat option"
  reassembly :: bytes
  reassembly_size :: nat
  reassembly_timestamp :: u32
  reassembly_active :: bool
  reassembly_damaged :: bool
  fu_active :: bool
  fu_nal_type :: byte
  expected_sequence :: u16
  sequence_valid :: bool
  h264_sps :: bytes
  h264_pps :: bytes
  depacketizer :: depacketizer
  cache_failed :: bool
  rx_packets :: u32
  rx_units_ok :: u32
  dropped_units :: u32
  accept_remote_pli :: bool
  accept_remote_fir :: bool
  send_remote_pli :: bool
  last_rtcp_ms :: u32
  last_pli_ms :: u32
  rx_reset_requested :: bool
  effects :: "video_effect list"

definition emit :: "video_effect \<Rightarrow> video_session \<Rightarrow> video_session" where
  "emit e s = s\<lparr>effects := effects s @ [e]\<rparr>"

definition drop_unit :: "video_session \<Rightarrow> video_session" where
  "drop_unit s = s\<lparr>dropped_units := dropped_units s + 1\<rparr>"

section \<open>RTP packets\<close>

definition read_be32 :: "bytes \<Rightarrow> u32" where
  "read_be32 d =
     push_bit 24 (ucast (d ! 0)) OR push_bit 16 (ucast (d ! 1)) OR push_bit 8 (ucast (d ! 2)) OR ucast (d ! 3)"

definition write_be32 :: "u32 \<Rightarrow> bytes" where
  "write_be32 v = [ucast (drop_bit 24 v), ucast (drop_bit 16 v), ucast (drop_bit 8 v), ucast v]"

text \<open>The payload of a packet: padding, contributing sources and the extension are skipped.\<close>

definition rtp_payload_bounds :: "bytes \<Rightarrow> (nat \<times> nat) option" where
  "rtp_payload_bounds packet =
     (if length packet < 12 \<or> drop_bit 6 (packet ! 0) \<noteq> 2 then None
      else
        let padding = (packet ! 0 AND 0x20 \<noteq> 0); padding_bytes = unat (last packet)
        in if padding \<and> (padding_bytes = 0 \<or> padding_bytes > length packet - 12) then None
           else
             let limit = (if padding then length packet - padding_bytes else length packet);
                 at = 12 + unat (packet ! 0 AND 0x0F) * 4;
                 extension = (packet ! 0 AND 0x10 \<noteq> 0)
             in if at > limit \<or> (extension \<and> at + 4 > limit) then None
                else
                  let at2 = (if extension then at + 4 + unat (read_be16 (drop (at + 2) packet)) * 4 else at)
                  in if at2 > limit then None else Some (at2, limit - at2))"

definition rtp_packet :: "byte \<Rightarrow> bool \<Rightarrow> u16 \<Rightarrow> u32 \<Rightarrow> u32 \<Rightarrow> bytes \<Rightarrow> bytes" where
  "rtp_packet payload_type marker sequence timestamp ssrc payload =
     [0x80, payload_type OR (if marker then 0x80 else 0)] @ write_be16 sequence @ write_be32 timestamp @
     write_be32 ssrc @ payload"

section \<open>Sending\<close>

definition socket_takes :: "send_result \<times> bool \<times> send_result \<Rightarrow> bool" where
  "socket_takes a =
     (case a of (Sent, _) \<Rightarrow> True | (SendError, _) \<Rightarrow> False | (Busy, ready, second) \<Rightarrow> ready \<and> second = Sent)"

definition send_rtp_payload :: "video_env \<Rightarrow> bytes \<Rightarrow> bool \<Rightarrow> u32 \<Rightarrow> video_session \<Rightarrow> bool \<times> video_session" where
  "send_rtp_payload env payload marker timestamp s =
     (if payload = [] \<or> length payload > max_payload s \<or> \<not> send_enabled s then (False, s)
      else if length payload + 12 > kMaxRtpPacketBytes then (False, s)
      else
        let wire_timestamp = timestamp + tx_timestamp_offset s;
            packet = rtp_packet (video_payload_type (capability s)) marker (tx_sequence s) wire_timestamp (tx_ssrc s) payload;
            port = (if latched_rtp_port s \<noteq> 0 then latched_rtp_port s else peer_rtp_port s);
            s1 = s\<lparr>tx_sequence := tx_sequence s + 1\<rparr>
        in if \<not> running s \<or> \<not> sockets_open s then (False, s1)
           else
             let s2 = s1\<lparr>sends := sends s + 1\<rparr> in
             if \<not> socket_takes (attempts env (sends s)) then (False, s2)
             else (True, (emit (SendRtp (peer_ip s) port packet) s2)
                     \<lparr>tx_packets := tx_packets s + 1, tx_octets := tx_octets s + of_nat (length payload),
                      last_tx_timestamp := wire_timestamp, last_tx_ms := now_ms env\<rparr>))"

definition fail_access_unit :: "video_session \<Rightarrow> video_session" where
  "fail_access_unit s = drop_unit (s\<lparr>tx_resync_needed := True\<rparr>)"

text \<open>
  The FU-A fragments of a NAL unit with header byte \<open>header\<close>; \<open>rest\<close> is what is left of it. The
  caller has checked that a fragment has room for at least one byte.
\<close>

function send_fu_fragments ::
    "video_env \<Rightarrow> nat \<Rightarrow> byte \<Rightarrow> bool \<Rightarrow> u32 \<Rightarrow> bool \<Rightarrow> bytes \<Rightarrow> video_session \<Rightarrow> bool \<times> video_session" where
  "send_fu_fragments env limit header final timestamp first rest s =
     (if rest = [] then (True, s)
      else
        let room = max 1 (limit - 2); ends = (length rest \<le> room);
            packet = [(header AND 0xE0) OR 28,
                      (header AND 0x1F) OR (if first then 0x80 else 0) OR (if ends then 0x40 else 0)] @ take room rest
        in case send_rtp_payload env packet (final \<and> ends) timestamp s of
             (False, s1) \<Rightarrow> (False, s1)
           | (True, s1) \<Rightarrow> send_fu_fragments env limit header final timestamp False (drop room rest) s1)"
  by pat_completeness auto
termination
  by (relation "measure (\<lambda>(env, limit, header, final, timestamp, first, rest, s). length rest)") auto

declare send_fu_fragments.simps [simp del]

text \<open>The NAL units of an access unit from the cursor on.\<close>

function send_nal_units :: "video_env \<Rightarrow> u32 \<Rightarrow> bool \<Rightarrow> bytes \<Rightarrow> video_session \<Rightarrow> video_session" where
  "send_nal_units env timestamp sent_any d s =
     (case next_annex_b_nal d of
        None \<Rightarrow> if sent_any then s\<lparr>tx_units_ok := tx_units_ok s + 1\<rparr> else fail_access_unit s
      | Some (nal, rest) \<Rightarrow>
          let final = (next_annex_b_nal rest = None) in
          if length nal \<le> max_payload s
          then (case send_rtp_payload env nal final timestamp s of
                  (False, s1) \<Rightarrow> fail_access_unit s1
                | (True, s1) \<Rightarrow> send_nal_units env timestamp True rest s1)
          else if length nal < 2 \<or> max_payload s \<le> 2 then fail_access_unit s
          else (case send_fu_fragments env (max_payload s) (hd nal) final timestamp True (tl nal) s of
                  (False, s1) \<Rightarrow> fail_access_unit s1
                | (True, s1) \<Rightarrow> send_nal_units env timestamp True rest s1))"
  by pat_completeness auto
termination
  by (relation "measure (\<lambda>(env, timestamp, sent_any, d, s). length d)") (auto dest: next_annex_b_nal_shorter)

declare send_nal_units.simps [simp del]

text \<open>The fragments of a JPEG frame from a position in its scan on.\<close>

function send_jpeg_fragments :: "video_env \<Rightarrow> u32 \<Rightarrow> jpeg_frame \<Rightarrow> nat \<Rightarrow> video_session \<Rightarrow> video_session" where
  "send_jpeg_fragments env timestamp frame scan_offset s =
     (if scan_offset \<ge> length (scan frame) then s\<lparr>tx_units_ok := tx_units_ok s + 1\<rparr>
      else
        let header = build_rtp_jpeg_fragment_header frame (of_nat scan_offset) (min kMaxRtpPacketBytes (max_payload s));
            fragment = take (max_payload s - length header) (drop scan_offset (scan frame))
        in if header = [] \<or> length header \<ge> max_payload s then drop_unit s
           else case send_rtp_payload env (header @ fragment) (scan_offset + length fragment = length (scan frame)) timestamp s of
                  (False, s1) \<Rightarrow> drop_unit s1
                | (True, s1) \<Rightarrow> send_jpeg_fragments env timestamp frame (scan_offset + length fragment) s1)"
  by pat_completeness auto
termination
  by (relation "measure (\<lambda>(env, timestamp, frame, scan_offset, s). length (scan frame) - scan_offset)") auto

declare send_jpeg_fragments.simps [simp del]

definition send_jpeg_access_unit :: "video_env \<Rightarrow> access_unit \<Rightarrow> video_session \<Rightarrow> video_session" where
  "send_jpeg_access_unit env au s =
     (case parse_jpeg_for_rtp (au_data au) of
        Inl e \<Rightarrow> drop_unit s
      | Inr frame \<Rightarrow> send_jpeg_fragments env (au_timestamp au) frame 0 s)"

definition send_access_unit :: "video_env \<Rightarrow> access_unit \<Rightarrow> video_session \<Rightarrow> video_session" where
  "send_access_unit env au s =
     (if \<not> running s \<or> \<not> send_enabled s \<or> au_data au = [] then s
      else if backend s = JpegBackend then send_jpeg_access_unit env au s
      else send_nal_units env (au_timestamp au) False (au_data au) s)"

section \<open>RTCP out\<close>

text \<open>Eight lower-case hexadecimal digits of the source identifier after \<open>esp-video-\<close>.\<close>

definition hex32 :: "u32 \<Rightarrow> string" where
  "hex32 v = hex2 (ucast (drop_bit 24 v)) @ hex2 (ucast (drop_bit 16 v)) @ hex2 (ucast (drop_bit 8 v)) @ hex2 (ucast v)"

definition ascii_bytes :: "string \<Rightarrow> bytes" where
  "ascii_bytes t = map (\<lambda>c. of_nat (code c)) t"

definition sdes_cname :: "u32 \<Rightarrow> bytes" where
  "sdes_cname ssrc =
     (let cname = ascii_bytes (''esp-video-'' @ hex32 ssrc);
          body = write_be32 ssrc @ [1, of_nat (length cname)] @ cname @ [0];
          padded = body @ replicate ((4 - (4 + length body) mod 4) mod 4) 0
      in [0x81, 202] @ write_be16 (of_nat ((4 + length padded) div 4 - 1)) @ padded)"

definition sender_info :: "video_env \<Rightarrow> video_session \<Rightarrow> bytes" where
  "sender_info env s =
     (let seconds = (if unix_seconds env > 0 then nat (unix_seconds env) else 0) + 2208988800;
          fraction = (unix_micros env * 2 ^ 32) div 1000000;
          elapsed = (if last_tx_ms s = 0 then 0 else now_ms env - last_tx_ms s)
      in write_be32 (of_nat seconds) @ write_be32 (of_nat fraction) @ write_be32 (last_tx_timestamp s + elapsed * 90) @
         write_be32 (tx_packets s) @ write_be32 (tx_octets s))"

definition rtcp_report_sdes :: "video_env \<Rightarrow> video_session \<Rightarrow> bytes" where
  "rtcp_report_sdes env s =
     (if tx_packets s > 0
      then [0x80, 200] @ write_be16 6 @ write_be32 (tx_ssrc s) @ sender_info env s
      else [0x80, 201] @ write_be16 1 @ write_be32 (tx_ssrc s)) @ sdes_cname (tx_ssrc s)"

definition send_rtcp_packet :: "bytes \<Rightarrow> video_session \<Rightarrow> video_session" where
  "send_rtcp_packet packet s =
     (let port = (if latched_rtcp_port s \<noteq> 0 then latched_rtcp_port s else peer_rtcp_port s)
      in if packet = [] \<or> peer_rtcp_ip s = 0 \<or> port = 0 \<or> \<not> sockets_open s then s
         else emit (SendRtcp (peer_rtcp_ip s) port packet) s)"

definition send_rtcp_report :: "video_env \<Rightarrow> video_session \<Rightarrow> video_session" where
  "send_rtcp_report env s = send_rtcp_packet (rtcp_report_sdes env s) s"

definition pli_packet :: "u32 \<Rightarrow> u32 \<Rightarrow> bytes" where
  "pli_packet ssrc media_ssrc = [0x81, 206] @ write_be16 2 @ write_be32 ssrc @ write_be32 media_ssrc"

definition send_rtcp_pli :: "video_env \<Rightarrow> video_session \<Rightarrow> video_session" where
  "send_rtcp_pli env s =
     (if \<not> send_remote_pli s \<or> \<not> is_h264 (capability s) then s
      else if remote_ssrc s = 0 \<or> now_ms env - last_pli_ms s < 500 then s
      else send_rtcp_packet (rtcp_report_sdes env s @ pli_packet (tx_ssrc s) (remote_ssrc s)) (s\<lparr>last_pli_ms := now_ms env\<rparr>))"

definition send_rtcp_bye :: "video_env \<Rightarrow> video_session \<Rightarrow> video_session" where
  "send_rtcp_bye env s =
     send_rtcp_packet (rtcp_report_sdes env s @ [0x81, 203] @ write_be16 1 @ write_be32 (tx_ssrc s)) s"

end
