(* ===== verification/VideoReceive.thy ===== *)
theory VideoReceive
  imports VideoRtp
begin

text \<open>
  The receiver of the RTP video session: reassembly of H.264 and JPEG access units, the slots
  they are filled in, the latched source, and RTCP. A packet that reaches the reassembly has a slot;
  the bytes beyond \<open>reassembly_size\<close> of its buffer are never read.
\<close>

section \<open>Slots\<close>

text \<open>States of a slot: 0 free, 1 being filled, 2 with the consumer.\<close>

definition reset_reassembly :: "video_session \<Rightarrow> video_session" where
  "reset_reassembly s =
     (let s1 = s\<lparr>reassembly_size := 0, reassembly_timestamp := 0, reassembly_active := False,
                 reassembly_damaged := False, fu_active := False, fu_nal_type := 0\<rparr>
      in if backend s = JpegBackend then s1\<lparr>depacketizer := dp_reset (depacketizer s)\<rparr> else s1)"

definition acquire_slot :: "video_session \<Rightarrow> bool \<times> video_session" where
  "acquire_slot s =
     (if reassembly_slot s \<noteq> None then (True, s)
      else case index_of (\<lambda>state. state = 0) (slot_states s) of
             None \<Rightarrow> (False, s)
           | Some i \<Rightarrow> (True, s\<lparr>slot_states := (slot_states s)[i := 1], reassembly_slot := Some i\<rparr>))"

text \<open>The consumer of an access unit is done with its slot.\<close>

definition release_slot :: "nat \<Rightarrow> video_session \<Rightarrow> video_session" where
  "release_slot i s = s\<lparr>slot_states := (slot_states s)[i := 0]\<rparr>"

section \<open>H.264\<close>

definition START_CODE :: bytes where "START_CODE = [0, 0, 0, 1]"

text \<open>Bytes are appended to the buffer, whose size the session keeps.\<close>

definition append_reassembly :: "bytes \<Rightarrow> video_session \<Rightarrow> video_session" where
  "append_reassembly d s =
     s\<lparr>reassembly := blit (reassembly s) (reassembly_size s) d, reassembly_size := reassembly_size s + length d\<rparr>"

definition append_annex_b_nal :: "bytes \<Rightarrow> video_session \<Rightarrow> bool \<times> video_session" where
  "append_annex_b_nal nal s =
     (if nal = [] \<or> reassembly_size s + 4 + length nal > kMaxAccessUnitBytes (backend s) then (False, s)
      else (True, append_reassembly nal (append_reassembly START_CODE s)))"

definition kH264ParameterSetBytes :: nat where "kH264ParameterSetBytes = 1024"

text \<open>What the scan of a complete access unit finds, and the parameter sets it stores.\<close>

record unit_scan =
  us_key :: bool
  us_sps :: bool
  us_pps :: bool
  us_sps_bytes :: bytes
  us_pps_bytes :: bytes

definition scan_nal :: "bytes \<Rightarrow> unit_scan \<Rightarrow> unit_scan" where
  "scan_nal nal u =
     (let t = hd nal AND 0x1F; u = u\<lparr>us_key := us_key u \<or> t = 5\<rparr>
      in if t = 7
         then u\<lparr>us_sps := True, us_sps_bytes := (if length nal \<le> kH264ParameterSetBytes then nal else us_sps_bytes u)\<rparr>
         else if t = 8
         then u\<lparr>us_pps := True, us_pps_bytes := (if length nal \<le> kH264ParameterSetBytes then nal else us_pps_bytes u)\<rparr>
         else u)"

function scan_unit :: "bytes \<Rightarrow> unit_scan \<Rightarrow> unit_scan" where
  "scan_unit d u =
     (case next_annex_b_nal d of None \<Rightarrow> u | Some (nal, rest) \<Rightarrow> scan_unit rest (scan_nal nal u))"
  by pat_completeness auto
termination
  by (relation "measure (length o fst)") (auto dest: next_annex_b_nal_shorter)

declare scan_unit.simps [simp del]

definition parameter_prefix :: "unit_scan \<Rightarrow> bytes" where
  "parameter_prefix u =
     (if us_key u \<and> \<not> us_sps u \<and> us_sps_bytes u \<noteq> [] then START_CODE @ us_sps_bytes u else []) @
     (if us_key u \<and> \<not> us_pps u \<and> us_pps_bytes u \<noteq> [] then START_CODE @ us_pps_bytes u else [])"

text \<open>A refused access unit is given back at once; an accepted one keeps its slot until released.\<close>

definition deliver_unit :: "video_env \<Rightarrow> access_unit \<Rightarrow> video_session \<Rightarrow> video_session" where
  "deliver_unit env au s =
     (case reassembly_slot s of
        None \<Rightarrow> s
      | Some i \<Rightarrow>
          let s1 = emit (Consume au) (s\<lparr>slot_states := (slot_states s)[i := 2], reassembly_slot := None\<rparr>)
          in if \<not> sink_accepts env au then send_rtcp_pli env (drop_unit (release_slot i s1))
             else s1\<lparr>rx_units_ok := rx_units_ok s1 + 1\<rparr>)"

definition finish_access_unit :: "video_env \<Rightarrow> u32 \<Rightarrow> video_session \<Rightarrow> video_session" where
  "finish_access_unit env timestamp s =
     (if \<not> reassembly_damaged s \<and> reassembly_size s > 0 \<and> sink_bound s then
        let u = scan_unit (take (reassembly_size s) (reassembly s))
                  \<lparr>us_key = False, us_sps = False, us_pps = False, us_sps_bytes = h264_sps s, us_pps_bytes = h264_pps s\<rparr>;
            s1 = s\<lparr>h264_sps := us_sps_bytes u, h264_pps := us_pps_bytes u\<rparr>;
            prefix = parameter_prefix u
        in if prefix \<noteq> [] \<and> reassembly_size s + length prefix > kMaxAccessUnitBytes (backend s)
           then reset_reassembly (send_rtcp_pli env (drop_unit s1))
           else
             let content = prefix @ take (reassembly_size s) (reassembly s);
                 s2 = s1\<lparr>reassembly := blit (reassembly s) 0 content, reassembly_size := length content\<rparr>;
                 au = \<lparr>au_data = content, au_timestamp = timestamp, au_key_frame = us_key u\<rparr>
             in snd (acquire_slot (reset_reassembly (deliver_unit env au s2)))
      else snd (acquire_slot (reset_reassembly (send_rtcp_pli env (drop_unit s)))))"

subsection \<open>Payloads\<close>

text \<open>An aggregate is valid when it is a sequence of whole NAL units of types 1 to 23.\<close>

function stap_units :: "bytes \<Rightarrow> bytes list option" where
  "stap_units d =
     (if d = [] then Some []
      else if length d < 2 then None
      else let n = unat (read_be16 d); nal = take n (drop 2 d) in
           if n = 0 \<or> 2 + n > length d then None
           else if hd nal AND 0x1F = 0 \<or> hd nal AND 0x1F > 23 then None
           else map_option ((#) nal) (stap_units (drop (2 + n) d)))"
  by pat_completeness auto
termination
  by (relation "measure length") auto

declare stap_units.simps [simp del]

fun append_units :: "bytes list \<Rightarrow> video_session \<Rightarrow> video_session" where
  "append_units [] s = s"
| "append_units (nal # nals) s =
     (case append_annex_b_nal nal s of
        (False, s1) \<Rightarrow> s1\<lparr>reassembly_damaged := True\<rparr>
      | (True, s1) \<Rightarrow> append_units nals s1)"

definition nal_type_of :: "bytes \<Rightarrow> byte" where
  "nal_type_of payload = payload ! 0 AND 0x1F"

definition acceptable_payload :: "bytes \<Rightarrow> u32 \<Rightarrow> video_session \<Rightarrow> bool" where
  "acceptable_payload payload timestamp s \<longleftrightarrow>
     (let t = nal_type_of payload in
      if t = 24 then (case stap_units (drop 1 payload) of None \<Rightarrow> False | Some nals \<Rightarrow> nals \<noteq> [])
      else if t = 28 then
        length payload \<ge> 2 \<and>
        (let starts = (payload ! 1 AND 0x80 \<noteq> 0); ends = (payload ! 1 AND 0x40 \<noteq> 0); ft = payload ! 1 AND 0x1F
         in \<not> (starts \<and> ends) \<and> ft \<noteq> 0 \<and> ft \<le> 23 \<and>
            (starts \<or> (reassembly_active s \<and> timestamp = reassembly_timestamp s \<and> fu_active s \<and> fu_nal_type s = ft)))
      else t \<noteq> 0 \<and> t \<le> 23)"

definition open_unit :: "u32 \<Rightarrow> bool \<Rightarrow> video_session \<Rightarrow> video_session" where
  "open_unit timestamp sequence_gap s =
     (if \<not> reassembly_active s \<or> timestamp \<noteq> reassembly_timestamp s
      then (if reassembly_active s then reset_reassembly s else s)
             \<lparr>reassembly_active := True, reassembly_timestamp := timestamp, reassembly_damaged := sequence_gap\<rparr>
      else if sequence_gap then s\<lparr>reassembly_damaged := True\<rparr> else s)"

definition damaged_if :: "bool \<Rightarrow> video_session \<Rightarrow> video_session" where
  "damaged_if c s = (if c then s\<lparr>reassembly_damaged := True\<rparr> else s)"

definition take_fu :: "bytes \<Rightarrow> video_session \<Rightarrow> video_session" where
  "take_fu payload s =
     (let starts = (payload ! 1 AND 0x80 \<noteq> 0); ends = (payload ! 1 AND 0x40 \<noteq> 0); ft = payload ! 1 AND 0x1F;
          limit = kMaxAccessUnitBytes (backend s);
          prefix = START_CODE @ [(payload ! 0 AND 0xE0) OR ft];
          s1 = (if starts then
                  let s0 = (damaged_if (fu_active s) s)\<lparr>fu_active := True, fu_nal_type := ft\<rparr>
                  in if reassembly_size s0 + 5 > limit then s0\<lparr>reassembly_damaged := True\<rparr> else append_reassembly prefix s0
                else s);
          fragment = drop 2 payload;
          s2 = (if reassembly_damaged s1 then s1
                else if reassembly_size s1 + length fragment > limit then s1\<lparr>reassembly_damaged := True\<rparr>
                else append_reassembly fragment s1)
      in if ends then (damaged_if (\<not> fu_active s2) s2)\<lparr>fu_active := False, fu_nal_type := 0\<rparr> else s2)"

definition take_payload :: "bytes \<Rightarrow> video_session \<Rightarrow> video_session" where
  "take_payload payload s =
     (let t = nal_type_of payload in
      if t = 28 then take_fu payload s
      else if t = 24
      then append_units (case stap_units (drop 1 payload) of None \<Rightarrow> [] | Some nals \<Rightarrow> nals) (damaged_if (fu_active s) s)
      else case append_annex_b_nal payload (damaged_if (fu_active s) s) of
             (False, s1) \<Rightarrow> s1\<lparr>reassembly_damaged := True\<rparr>
           | (True, s1) \<Rightarrow> s1)"

definition handle_h264_payload :: "video_env \<Rightarrow> bytes \<Rightarrow> bool \<Rightarrow> u32 \<Rightarrow> bool \<Rightarrow> video_session \<Rightarrow> bool \<times> video_session" where
  "handle_h264_payload env payload marker timestamp sequence_gap s =
     (if payload = [] \<or> \<not> acceptable_payload payload timestamp s then (False, s)
      else
        let s1 = take_payload payload (open_unit timestamp sequence_gap s)
        in if \<not> marker then (True, s1)
           else (\<not> fu_active s1, finish_access_unit env timestamp (damaged_if (fu_active s1) s1)))"

section \<open>JPEG\<close>

definition ensure_quantization_cache :: "video_env \<Rightarrow> video_session \<Rightarrow> bool \<times> video_session" where
  "ensure_quantization_cache env s =
     (if dp_cache (depacketizer s) \<noteq> None then (True, s)
      else if cache_failed s then (False, s)
      else if \<not> cache_available env then (False, s\<lparr>cache_failed := True\<rparr>)
      else (True, s\<lparr>depacketizer := set_quantization_cache (Some (replicate (kCachedQualityCount * 128) 0)) False (depacketizer s)\<rparr>))"

definition handle_jpeg_payload :: "video_env \<Rightarrow> bytes \<Rightarrow> bool \<Rightarrow> u32 \<Rightarrow> video_session \<Rightarrow> bool \<times> video_session" where
  "handle_jpeg_payload env payload marker timestamp s =
     (let starts = (payload ! 1 = 0 \<and> payload ! 2 = 0 \<and> payload ! 3 = 0);
          wants_cache = (length payload \<ge> 8 \<and> starts \<and> payload ! 5 \<ge> 128 \<and> payload ! 5 \<le> 254);
          (cached, s1) = (if wants_cache then ensure_quantization_cache env s else (True, s))
      in if \<not> cached
         then (False, drop_unit (s1\<lparr>depacketizer := dp_reset (depacketizer s1), reassembly_damaged := False\<rparr>))
         else
           let s2 = (if length payload \<ge> 4 \<and> starts then s1\<lparr>reassembly_damaged := False\<rparr> else s1);
               (r, output, size, p) = dp_push payload marker timestamp (reassembly s2) (depacketizer s2);
               s3 = s2\<lparr>reassembly := output, depacketizer := p\<rparr>
           in if r = DROPPED then (False, (drop_unit s3)\<lparr>reassembly_damaged := False\<rparr>)
              else if r = INCOMPLETE then (True, s3)
              else if reassembly_damaged s3 \<or> size = 0 then (True, (drop_unit s3)\<lparr>reassembly_damaged := False\<rparr>)
              else if \<not> sink_bound s3 then (True, s3\<lparr>reassembly_damaged := False\<rparr>)
              else
                let au = \<lparr>au_data = take size output, au_timestamp = timestamp, au_key_frame = True\<rparr>;
                    s4 = emit (Consume au) s3
                in (True, (if sink_accepts env au then s4\<lparr>rx_units_ok := rx_units_ok s4 + 1\<rparr> else drop_unit s4)
                            \<lparr>reassembly_damaged := False\<rparr>))"

section \<open>Packets and their source\<close>

definition packet_sequence :: "bytes \<Rightarrow> u16" where "packet_sequence packet = read_be16 (drop 2 packet)"
definition packet_payload_type :: "bytes \<Rightarrow> byte" where "packet_payload_type packet = packet ! 1 AND 0x7F"
definition packet_marker :: "bytes \<Rightarrow> bool" where "packet_marker packet \<longleftrightarrow> packet ! 1 AND 0x80 \<noteq> 0"

definition handle_rtp_keepalive :: "bytes \<Rightarrow> u16 \<Rightarrow> u32 \<Rightarrow> video_session \<Rightarrow> bool \<times> video_session" where
  "handle_rtp_keepalive packet source_port source_ssrc s =
     (if length packet < 12 \<or> drop_bit 6 (packet ! 0) \<noteq> 2 then (False, s)
      else if packet_payload_type packet < 96 \<or> packet_payload_type packet = video_payload_type (capability s) \<or>
              packet_marker packet \<or> \<not> remote_ssrc_latched s \<or> source_ssrc \<noteq> remote_ssrc s \<or>
              source_port \<noteq> latched_rtp_port s
      then (False, s)
      else case rtp_payload_bounds packet of
             None \<Rightarrow> (False, s)
           | Some (offset, n) \<Rightarrow>
               if n \<noteq> 0 \<or> \<not> sequence_valid s \<or> packet_sequence packet \<noteq> expected_sequence s then (False, s)
               else (True, s\<lparr>expected_sequence := packet_sequence packet + 1\<rparr>))"

definition handle_rtp_packet :: "video_env \<Rightarrow> bytes \<Rightarrow> video_session \<Rightarrow> bool \<times> video_session" where
  "handle_rtp_packet env packet s =
     (if \<not> receive_enabled s \<or> length packet < 12 \<or> drop_bit 6 (packet ! 0) \<noteq> 2 then (False, s)
      else case rtp_payload_bounds packet of
             None \<Rightarrow> (False, s)
           | Some (offset, n) \<Rightarrow>
               if packet_payload_type packet \<noteq> video_payload_type (capability s) \<or> n = 0 then (False, s)
               else (case acquire_slot s of
                       (False, s1) \<Rightarrow> (False, drop_unit s1)
                     | (True, s1) \<Rightarrow>
                         let timestamp = read_be32 (drop 4 packet);
                             gap = (sequence_valid s1 \<and> packet_sequence packet \<noteq> expected_sequence s1);
                             payload = take n (drop offset packet);
                             s2 = damaged_if (backend s1 = JpegBackend \<and> gap) s1;
                             (accepted, s3) =
                               (if backend s2 = JpegBackend
                                then handle_jpeg_payload env payload (packet_marker packet) timestamp s2
                                else handle_h264_payload env payload (packet_marker packet) timestamp gap s2)
                         in if \<not> accepted then (False, reset_reassembly s3)
                            else (True, s3\<lparr>expected_sequence := packet_sequence packet + 1, sequence_valid := True,
                                           rx_packets := rx_packets s3 + 1\<rparr>)))"

text \<open>A change of direction asked for elsewhere, applied by the worker.\<close>

definition apply_rx_reset :: "video_session \<Rightarrow> video_session" where
  "apply_rx_reset s =
     (if \<not> rx_reset_requested s then s
      else
        let s1 = reset_reassembly (s\<lparr>rx_reset_requested := False\<rparr>)
        in (if backend s = JpegBackend then s1\<lparr>depacketizer := reset_session (depacketizer s1)\<rparr> else s1)
             \<lparr>sequence_valid := False\<rparr>)"

definition new_source :: "video_session \<Rightarrow> video_session" where
  "new_source s =
     (let s1 = reset_reassembly s
      in (if backend s = JpegBackend then s1\<lparr>depacketizer := reset_session (depacketizer s1)\<rparr> else s1)
           \<lparr>sequence_valid := False\<rparr>)"

text \<open>One datagram of the RTP socket, as the worker handles it.\<close>

definition rtp_datagram :: "video_env \<Rightarrow> u32 \<Rightarrow> u16 \<Rightarrow> bytes \<Rightarrow> video_session \<Rightarrow> video_session" where
  "rtp_datagram env source_ip source_port packet s =
     (if length packet < 12 \<or> drop_bit 6 (packet ! 0) \<noteq> 2 \<or> source_ip \<noteq> peer_ip s then s
      else
        let source_ssrc = read_be32 (drop 8 packet) in
        if packet_payload_type packet \<noteq> video_payload_type (capability s)
        then snd (handle_rtp_keepalive packet source_port source_ssrc s)
        else
          let latched = remote_ssrc_latched s; changed = (latched \<and> source_ssrc \<noteq> remote_ssrc s) in
          if changed \<and> source_port \<noteq> latched_rtp_port s then s
          else case handle_rtp_packet env packet (if changed then new_source s else s) of
                 (False, s1) \<Rightarrow> s1
               | (True, s1) \<Rightarrow>
                   let s2 = (if \<not> latched \<or> changed then s1\<lparr>remote_ssrc := source_ssrc, remote_ssrc_latched := True\<rparr> else s1);
                       s3 = (if changed \<and> is_h264 (capability s2) then send_rtcp_pli env s2 else s2)
                   in s3\<lparr>latched_rtp_port := source_port\<rparr>)"

section \<open>RTCP in\<close>

fun fir_targets :: "u32 \<Rightarrow> bytes \<Rightarrow> bool" where
  "fir_targets ssrc (a # b # c # d # e # f # g # h # r) \<longleftrightarrow> read_be32 [a, b, c, d] = ssrc \<or> fir_targets ssrc r"
| "fir_targets ssrc _ \<longleftrightarrow> False"

text \<open>
  One subpacket with its padding removed: \<open>None\<close> when it is too short for its type, else whether
  it is a report, whether it is a source description, and whether it asks for a key frame.
\<close>

definition rtcp_subpacket :: "byte \<Rightarrow> nat \<Rightarrow> bytes \<Rightarrow> video_session \<Rightarrow> (bool \<times> bool \<times> bool) option" where
  "rtcp_subpacket type count content s =
     (if type = 200 then (if length content < 28 + count * 24 then None else Some (True, False, False))
      else if type = 201 then (if length content < 8 + count * 24 then None else Some (True, False, False))
      else if type = 202 then (if length content < 8 then None else Some (False, True, False))
      else if type = 203 then (if length content < 4 + count * 4 then None else Some (False, False, False))
      else if type = 206 then
        (if length content < 12 then None
         else Some (False, False,
           (count = 1 \<and> accept_remote_pli s \<and> read_be32 (drop 8 content) = tx_ssrc s) \<or>
           (count = 4 \<and> accept_remote_fir s \<and> fir_targets (tx_ssrc s) (drop 12 content))))
      else Some (False, False, False))"

text \<open>The subpackets from some offset on; a result is the three flags of all of them.\<close>

function rtcp_packets :: "bool \<Rightarrow> bytes \<Rightarrow> video_session \<Rightarrow> (bool \<times> bool \<times> bool) option" where
  "rtcp_packets first d s =
     (if d = [] then Some (False, False, False)
      else if length d < 4 \<or> drop_bit 6 (d ! 0) \<noteq> 2 then None
      else
        let padding = (d ! 0 AND 0x20 \<noteq> 0); count = unat (d ! 0 AND 0x1F); type = d ! 1;
            n = (unat (read_be16 (drop 2 d)) + 1) * 4; padding_size = unat (d ! (n - 1));
            content = take (if padding then n - padding_size else n) d
        in if n > length d \<or> (padding \<and> n \<noteq> length d) \<or> (padding \<and> (padding_size = 0 \<or> padding_size > n - 4)) then None
           else if first \<and> type \<noteq> 200 \<and> type \<noteq> 201 then None
           else case rtcp_subpacket type count content s of
                  None \<Rightarrow> None
                | Some (report, sdes, key) \<Rightarrow>
                    map_option (\<lambda>(r, d, k). (report \<or> r, sdes \<or> d, key \<or> k)) (rtcp_packets False (drop n d) s))"
  by pat_completeness auto
termination
  by (relation "measure (\<lambda>(first, d, s). length d)") auto

declare rtcp_packets.simps [simp del]

text \<open>Whether the compound packet is accepted, and whether it asks for a key frame.\<close>

definition handle_rtcp_packet :: "bytes \<Rightarrow> video_session \<Rightarrow> bool option" where
  "handle_rtcp_packet packet s =
     (if length packet < 8 then None
      else case rtcp_packets True packet s of
             Some (True, True, key) \<Rightarrow> Some key
           | _ \<Rightarrow> None)"

definition rtcp_datagram :: "u32 \<Rightarrow> u16 \<Rightarrow> bytes \<Rightarrow> video_session \<Rightarrow> video_session" where
  "rtcp_datagram source_ip source_port packet s =
     (if packet = [] \<or> source_ip \<noteq> peer_rtcp_ip s then s
      else case handle_rtcp_packet packet s of
             None \<Rightarrow> s
           | Some key \<Rightarrow>
               let s1 = s\<lparr>latched_rtcp_port := source_port\<rparr>
               in if key \<and> source_bound s then emit RequestKeyFrame s1 else s1)"

text \<open>The periodic report at the end of each turn of the worker.\<close>

definition periodic_report :: "video_env \<Rightarrow> video_session \<Rightarrow> video_session" where
  "periodic_report env s =
     (if now_ms env - last_rtcp_ms s \<ge> 5000 then (send_rtcp_report env s)\<lparr>last_rtcp_ms := now_ms env\<rparr> else s)"

end
