(* ===== verification/VideoProps.thy ===== *)
theory VideoProps
  imports VideoFormat SipTextProps
begin

text \<open>
  Properties of the video agreement: the cadence limiter as a rate limit (and where it is none),
  profile identifiers, levels as an order, and the search for the SPS.
\<close>

section \<open>The cadence limiter\<close>

text \<open>A run over the timestamps of the frames offered: how many are accepted, and the time that passes.\<close>

fun cadence_run :: "cadence \<Rightarrow> u32 list \<Rightarrow> nat \<times> cadence" where
  "cadence_run c [] = (0, c)"
| "cadence_run c (t # ts) =
     (let (ok, c1) = cadence_accept c t; (n, c2) = cadence_run c1 ts in (of_bool ok + n, c2))"

fun elapsed_from :: "u32 \<Rightarrow> u32 list \<Rightarrow> nat" where
  "elapsed_from t [] = 0"
| "elapsed_from t (u # ts) = unat (u - t) + elapsed_from u ts"

lemma reset_interval:
  "0 < unat (interval (cadence_reset c fps)) \<and> unat (interval (cadence_reset c fps)) \<le> 90000"
proof -
  let ?f = "if fps = 0 then 1 else ucast fps :: u32"
  have f: "0 < unat ?f \<and> unat ?f \<le> 255"
    using unat_u8_le [of fps] unat_eq_zero [of fps] by (cases "fps = 0") (simp_all add: unat_ucast_up)
  have "unat (90000 + ?f - 1 :: u32) = 90000 + unat ?f - 1"
  proof -
    have "90000 + ?f - 1 = (of_nat (90000 + unat ?f - 1) :: u32)" using f by (simp add: of_nat_diff)
    then show ?thesis using f unat_of_nat_small [of "90000 + unat ?f - 1", where 'a=32] by simp
  qed
  then have i: "unat (interval (cadence_reset c fps)) = (90000 + unat ?f - 1) div unat ?f"
    by (simp add: cadence_reset_def Let_def unat_div)
  have "(90000 + unat ?f - 1) div unat ?f \<le> 90000"
  proof -
    have "90000 + unat ?f - 1 < 90001 * unat ?f" using f by (cases "unat ?f") auto
    then show ?thesis by (simp add: less_mult_imp_div_less less_Suc_eq_le [symmetric])
  qed
  moreover have "0 < (90000 + unat ?f - 1) div unat ?f" using f by (simp add: div_greater_zero_iff)
  ultimately show ?thesis unfolding i by blast
qed

lemma cadence_step:
  assumes s: "seen c" and i: "0 < unat (interval c)" "unat (interval c) \<le> 90000"
    and a: "cadence_accept c t = (ok, c1)"
  shows "seen c1 \<and> interval c1 = interval c \<and> last_time c1 = t \<and>
    of_bool ok * unat (interval c) + unat (credit c1) \<le> unat (credit c) + unat (t - last_time c)"
proof -
  have d: "unat (interval c * 2) = unat (interval c) * 2"
    using i by (simp add: unat_mult_lem [THEN iffD1])
  define k where "k = (if t - last_time c \<ge> interval c * 2 then interval c
      else if t - last_time c \<ge> 0xFFFFFFFF - credit c then 0xFFFFFFFF else credit c + (t - last_time c))"
  have k: "unat k \<le> unat (credit c) + unat (t - last_time c)"
  proof (cases "t - last_time c \<ge> interval c * 2")
    case True
    then show ?thesis using d by (simp add: k_def word_le_nat_alt)
  next
    case False
    have m: "unat (0xFFFFFFFF - credit c) = 4294967295 - unat (credit c)"
      by (subst unat_sub) (simp_all add: word_le_nat_alt)
    show ?thesis
    proof (cases "t - last_time c \<ge> 0xFFFFFFFF - credit c")
      case True
      then show ?thesis using False m by (simp add: k_def word_le_nat_alt)
    next
      case n: False
      then show ?thesis using False by (simp add: k_def unat_word_ariths)
    qed
  qed
  have a': "(ok, c1) = (if k < interval c then (False, c\<lparr>last_time := t, credit := k\<rparr>)
      else (True, c\<lparr>last_time := t, credit := k - interval c\<rparr>))"
    using a [symmetric] s by (simp add: cadence_accept_def Let_def k_def cong: if_cong)
  show ?thesis
  proof (cases "k < interval c")
    case True
    then show ?thesis using a' k s by simp
  next
    case False
    then have "unat (k - interval c) = unat k - unat (interval c)" "unat (interval c) \<le> unat k"
      by (simp_all add: unat_sub word_le_nat_alt not_less)
    then show ?thesis using a' k s False by simp
  qed
qed

lemma cadence_run_bound:
  assumes "seen c" and "0 < unat (interval c)" and "unat (interval c) \<le> 90000"
  shows "fst (cadence_run c ts) * unat (interval c) + unat (credit (snd (cadence_run c ts)))
     \<le> unat (credit c) + elapsed_from (last_time c) ts"
  using assms
proof (induction ts arbitrary: c)
  case (Cons t ts)
  obtain ok c1 where a: "cadence_accept c t = (ok, c1)" by fastforce
  obtain n c2 where r: "cadence_run c1 ts = (n, c2)" by fastforce
  note st = cadence_step [OF Cons.prems a]
  have "n * unat (interval c) + unat (credit c2) \<le> unat (credit c1) + elapsed_from t ts"
    using Cons.IH [of c1] st Cons.prems by (simp add: r)
  then show ?case using st by (simp add: a r add_mult_distrib)
qed simp

text \<open>
  C40: The limiter keeps the frame rate on average. After a reset to any rate, whatever the
  timestamps of the frames offered (they may wrap, stall or jump back), the frames accepted after the
  first one never need more 90 kHz ticks, at one interval each, than have passed.
\<close>

theorem cadence_limits_rate:
  "let c = cadence_reset c0 fps; i = unat (interval c) in
   fst (cadence_run c (t # ts)) * i \<le> i + elapsed_from t ts \<and> 0 < i \<and> i \<le> 90000"
proof -
  let ?c = "cadence_reset c0 fps"
  let ?c1 = "?c\<lparr>seen := True, last_time := t\<rparr>"
  have s: "cadence_accept ?c t = (True, ?c1)" by (simp add: cadence_accept_def cadence_reset_def Let_def)
  have i: "0 < unat (interval ?c)" "unat (interval ?c) \<le> 90000" using reset_interval by blast+
  have "credit ?c1 = 0" by (simp add: cadence_reset_def Let_def)
  then have "fst (cadence_run ?c1 ts) * unat (interval ?c) \<le> elapsed_from t ts"
    using cadence_run_bound [of ?c1 ts] i by simp
  then show ?thesis using i by (simp add: s Let_def split: prod.split) auto
qed

section \<open>Unbounded credit\<close>

text \<open>Frames at 15000 ticks, slower than the 9000 of 10 frames per second, each leave 6000 ticks of credit.\<close>

lemma slow_frame:
  assumes "interval c = 9000" and "seen c" and "unat (credit c) + 15000 < 4294967295"
  shows "cadence_accept c (last_time c + 15000) = (True, c\<lparr>last_time := last_time c + 15000, credit := credit c + 6000\<rparr>)"
proof -
  have m: "unat (0xFFFFFFFF - credit c) = 4294967295 - unat (credit c)"
    by (subst unat_sub) (simp_all add: word_le_nat_alt)
  have u: "unat (credit c + 15000) = unat (credit c) + 15000"
    using assms(3) by (simp add: unat_word_ariths)
  have "\<not> (15000 :: u32) \<ge> 0xFFFFFFFF - credit c" using m assms(3) by (simp add: word_le_nat_alt)
  moreover have "\<not> credit c + 15000 < 9000" using u by (simp add: word_less_nat_alt)
  ultimately show ?thesis using assms by (simp add: cadence_accept_def Let_def)
qed

lemma fast_frame:
  assumes "interval c = 9000" and "seen c" and "6000 \<le> unat (credit c)" and "unat (credit c) + 15000 < 4294967295"
  shows "cadence_accept c (last_time c + 3000) = (True, c\<lparr>last_time := last_time c + 3000, credit := credit c - 6000\<rparr>)"
proof -
  have m: "unat (0xFFFFFFFF - credit c) = 4294967295 - unat (credit c)"
    by (subst unat_sub) (simp_all add: word_le_nat_alt)
  have u: "unat (credit c + 3000) = unat (credit c) + 3000"
    using assms(4) by (simp add: unat_word_ariths)
  have "\<not> (3000 :: u32) \<ge> 0xFFFFFFFF - credit c" using m assms(4) by (simp add: word_le_nat_alt)
  moreover have "\<not> credit c + 3000 < 9000" using u assms(3) by (simp add: word_less_nat_alt)
  ultimately show ?thesis using assms by (simp add: cadence_accept_def Let_def)
qed

fun spaced :: "u32 \<Rightarrow> u32 \<Rightarrow> nat \<Rightarrow> u32 list" where
  "spaced t d 0 = []"
| "spaced t d (Suc n) = (t + d) # spaced (t + d) d n"

lemma slow_run:
  "interval c = 9000 \<Longrightarrow> seen c \<Longrightarrow> unat (credit c) + 6000 * n + 15000 < 4294967295 \<Longrightarrow>
   cadence_run c (spaced (last_time c) 15000 n) =
     (n, c\<lparr>last_time := last_time c + of_nat n * 15000, credit := credit c + of_nat n * 6000\<rparr>)"
proof (induction n arbitrary: c)
  case (Suc n)
  have u: "unat (credit c + 6000) = unat (credit c) + 6000" using Suc.prems by (simp add: unat_word_ariths)
  have a: "cadence_accept c (last_time c + 15000) = (True, c\<lparr>last_time := last_time c + 15000, credit := credit c + 6000\<rparr>)"
    using Suc.prems by (intro slow_frame) auto
  show ?case using Suc.IH [of "c\<lparr>last_time := last_time c + 15000, credit := credit c + 6000\<rparr>"] Suc.prems u
    by (simp add: a algebra_simps)
qed simp

lemma fast_run:
  "interval c = 9000 \<Longrightarrow> seen c \<Longrightarrow> 6000 * n \<le> unat (credit c) \<Longrightarrow> unat (credit c) + 15000 < 4294967295 \<Longrightarrow>
   fst (cadence_run c (spaced (last_time c) 3000 n)) = n"
proof (induction n arbitrary: c)
  case (Suc n)
  have u: "unat (credit c - 6000) = unat (credit c) - 6000"
    using Suc.prems by (subst unat_sub) (simp_all add: word_le_nat_alt)
  have a: "cadence_accept c (last_time c + 3000) = (True, c\<lparr>last_time := last_time c + 3000, credit := credit c - 6000\<rparr>)"
    using Suc.prems by (intro fast_frame) auto
  show ?case using Suc.IH [of "c\<lparr>last_time := last_time c + 3000, credit := credit c - 6000\<rparr>"] Suc.prems u
    by (simp add: a split_def)
qed simp

lemma cadence_run_append:
  "cadence_run c (xs @ ys) =
     (let (n, c1) = cadence_run c xs; (m, c2) = cadence_run c1 ys in (n + m, c2))"
  by (induction xs arbitrary: c) (auto simp: Let_def split: prod.splits)

text \<open>
  The recovery credit is not bounded by one frame. A source slower than the limit, but not
  half as slow, leaves credit with every frame, and all of it is spent at once: limited to 10 frames
  per second, after \<open>n\<close> frames at 6 per second the next \<open>n\<close> frames all pass at 30 per second.
\<close>

theorem cadence_credit_grows:
  assumes "n < 700000"
  shows "fst (cadence_run (cadence_reset c0 10) (0 # spaced 0 15000 n @ spaced (of_nat n * 15000) 3000 n)) = 1 + n + n"
proof -
  let ?c = "cadence_reset c0 10"
  let ?c1 = "?c\<lparr>seen := True, last_time := 0\<rparr>"
  have i: "interval ?c = 9000" "credit ?c1 = 0" by (simp_all add: cadence_reset_def Let_def)
  have s: "cadence_accept ?c 0 = (True, ?c1)" by (simp add: cadence_accept_def cadence_reset_def Let_def)
  let ?c2 = "?c1\<lparr>last_time := of_nat n * 15000, credit := of_nat n * 6000\<rparr>"
  have r: "cadence_run ?c1 (spaced 0 15000 n) = (n, ?c2)"
    using slow_run [of ?c1 n] i assms by simp
  have "unat (of_nat n * 6000 :: u32) = n * 6000"
    using assms unat_of_nat_small [of "n * 6000", where 'a=32] by simp
  then have "fst (cadence_run ?c2 (spaced (of_nat n * 15000) 3000 n)) = n"
    using fast_run [of ?c2 n] i assms by simp
  then show ?thesis using s r by (simp add: cadence_run_append Let_def split_def)
qed

theorem cadence_credit_grows_witness:
  "fst (cadence_run (cadence_reset new_cadence 10) (0 # spaced 0 15000 100 @ spaced (of_nat 100 * 15000) 3000 100)) = 1 + 100 + 100"
  by (rule cadence_credit_grows) simp

section \<open>Profiles and the SPS\<close>

lemma hex2_nibbles:
  "n < 16 \<Longrightarrow> hex_nibble (''0123456789abcdef'' ! n) = of_nat n \<and> hex_nibble (''0123456789abcdef'' ! n) \<noteq> 0xFF"
proof -
  have "\<forall>n\<in>{0..<16}. hex_nibble (''0123456789abcdef'' ! n) = (of_nat n :: byte) \<and> hex_nibble (''0123456789abcdef'' ! n) \<noteq> 0xFF"
    by (simp add: hex_nibble_def is_digit_def atLeast0LessThan lessThan_nat_numeral)
  then show "n < 16 \<Longrightarrow> ?thesis" by (metis atLeastLessThan_iff zero_le)
qed

lemma hex2_octet: "\<exists>h l. hex2 b = [h, l] \<and> hex_octet h l = Some b"
proof -
  have d: "unat b div 16 < 16" using unat_u8_le [of b] by linarith
  have "unat (push_bit 4 (of_nat (unat b div 16) :: byte) OR of_nat (unat b mod 16)) = unat b"
    using hex_pair [OF d, of "unat b mod 16"] by simp
  then have "push_bit 4 (of_nat (unat b div 16) :: byte) OR of_nat (unat b mod 16) = b" by (simp only: word_unat_eq_iff)
  then have "push_bit 4 (hex_nibble (''0123456789abcdef'' ! (unat b div 16))) OR
      hex_nibble (''0123456789abcdef'' ! (unat b mod 16)) = b"
    using hex2_nibbles [OF d, THEN conjunct1] hex2_nibbles [of "unat b mod 16", THEN conjunct1] by simp
  then show ?thesis
    using hex2_nibbles [OF d, THEN conjunct2] hex2_nibbles [of "unat b mod 16", THEN conjunct2]
    by (simp add: hex2_def hex_octet_def)
qed

lemma profile_roundtrip: "parse_profile_level_id (hex2 a @ hex2 b @ hex2 c) = Some (a, b, c)"
proof -
  obtain h1 l1 h2 l2 h3 l3 where "hex2 a = [h1, l1]" "hex_octet h1 l1 = Some a" "hex2 b = [h2, l2]" "hex_octet h2 l2 = Some b"
    "hex2 c = [h3, l3]" "hex_octet h3 l3 = Some c"
    using hex2_octet by metis
  then show ?thesis by (simp add: parse_profile_level_id_def)
qed

text \<open>A NAL unit as the encoder writes it: no start code inside, the last byte not zero.\<close>

fun no_start :: "bytes \<Rightarrow> bool" where
  "no_start (a # b # c # r) = (\<not> (a = 0 \<and> b = 0 \<and> (c = 0 \<or> c = 1)) \<and> no_start (b # c # r))"
| "no_start _ = True"

definition nal_unit :: "bytes \<Rightarrow> bool" where
  "nal_unit u \<longleftrightarrow> u \<noteq> [] \<and> last u \<noteq> 0 \<and> no_start u"

definition start_prefix :: "bytes \<Rightarrow> bool" where
  "start_prefix p \<longleftrightarrow> p = [0, 0, 1] \<or> p = [0, 0, 0, 1]"

lemma start_code_unit:
  assumes "nal_unit u"
  shows "start_code (u @ r) = map_option ((+) (length u)) (start_code r)"
  using assms
proof (induction u)
  case (Cons a u)
  show ?case
  proof (cases u)
    case Nil
    with Cons.prems have "a \<noteq> 0" by (simp add: nal_unit_def)
    then show ?thesis using Nil by (cases "a # r" rule: start_code.cases) (simp_all add: option.map_comp o_def)
  next
    case (Cons b v)
    have "nal_unit u" using Cons.prems \<open>u = b # v\<close> by (cases v) (auto simp: nal_unit_def)
    then have ih: "start_code (u @ r) = map_option ((+) (length u)) (start_code r)" by (rule Cons.IH)
    have "start_code (a # u @ r) = map_option Suc (start_code (u @ r))"
    proof (cases v)
      case Nil
      with Cons.prems \<open>u = b # v\<close> have "b \<noteq> 0" by (simp add: nal_unit_def)
      then show ?thesis using \<open>u = b # v\<close> Nil by (cases "a # u @ r" rule: start_code.cases) auto
    next
      case (Cons c w)
      with Cons.prems \<open>u = b # v\<close> have "\<not> (a = 0 \<and> b = 0 \<and> (c = 0 \<or> c = 1))" by (simp add: nal_unit_def)
      then show ?thesis using \<open>u = b # v\<close> Cons by (cases "a # u @ r" rule: start_code.cases) auto
    qed
    then show ?thesis using ih by (simp add: option.map_comp o_def)
  qed
qed (simp add: nal_unit_def)

lemma start_code_prefix: "start_prefix p \<Longrightarrow> nal_unit u \<Longrightarrow> start_code (p @ u @ r) = Some 0"
  by (cases u) (auto simp: start_prefix_def nal_unit_def)

lemma strip_zeros_unit: "nal_unit u \<Longrightarrow> strip_zeros u = u"
proof -
  assume "nal_unit u"
  then have "dropWhile (\<lambda>b. b = 0) (rev u) = rev u" by (simp add: nal_unit_def dropWhile_eq_self_iff hd_rev)
  then show ?thesis by (simp add: strip_zeros_def)
qed

definition stream_of :: "(bytes \<times> bytes) list \<Rightarrow> bytes" where
  "stream_of us = concat (map (\<lambda>(p, u). p @ u) us)"

abbreviation well_formed_units :: "(bytes \<times> bytes) list \<Rightarrow> bool" where
  "well_formed_units us \<equiv> \<forall>(p, u)\<in>set us. start_prefix p \<and> nal_unit u"

lemma start_code_stream: "well_formed_units us \<Longrightarrow> start_code (stream_of us) = (if us = [] then None else Some 0)"
proof (cases us)
  case (Cons x xs)
  moreover assume "well_formed_units us"
  ultimately show ?thesis using start_code_prefix [of "fst x" "snd x"] by (cases x) (auto simp: stream_of_def)
qed (simp add: stream_of_def)

lemma next_unit:
  assumes p: "start_prefix p" and u: "nal_unit u" and us: "well_formed_units us"
  shows "next_annex_b_nal (p @ u @ stream_of us) = Some (u, stream_of us)"
proof -
  let ?d = "p @ u @ stream_of us"
  have s: "start_code ?d = Some 0" using p u by (rule start_code_prefix)
  have d: "drop (0 + (if ?d ! (0 + 2) = 1 then 3 else 4)) ?d = u @ stream_of us"
    using p by (auto simp: start_prefix_def)
  have e: "start_code (u @ stream_of us) = (if us = [] then None else Some (length u))"
    using start_code_unit [OF u] start_code_stream [OF us] by simp
  have n: "(case start_code (u @ stream_of us) of None \<Rightarrow> u @ stream_of us | Some n \<Rightarrow> take n (u @ stream_of us)) = u"
    using e by (simp add: stream_of_def)
  have "u \<noteq> []" using u by (simp add: nal_unit_def)
  then show ?thesis
    unfolding next_annex_b_nal_def s option.case Let_def d n strip_zeros_unit [OF u] by simp
qed

definition is_sps :: "bytes \<Rightarrow> bool" where
  "is_sps u \<longleftrightarrow> length u \<ge> 4 \<and> hd u AND 0x1F = 7"

text \<open>
  The profile of a stream is the one of its first SPS. In an access unit of well formed NAL
  units, with start codes of three or four bytes, the units before the first SPS are skipped, the
  identifier printed from its three profile bytes is read back as those bytes, and a stream without
  SPS has no profile.
\<close>

theorem first_sps_gives_profile:
  assumes "well_formed_units (us @ (p, sps) # vs)" and "\<forall>(q, u)\<in>set us. \<not> is_sps u" and "is_sps sps"
  shows "\<exists>ident. h264_profile_level_id_from_annex_b (stream_of (us @ (p, sps) # vs)) = Some ident \<and>
      parse_profile_level_id ident = Some (sps ! 1, sps ! 2, sps ! 3) \<and>
      h264_profile_level_id_from_annex_b (stream_of us) = None"
proof -
  have cons: "stream_of ((p, u) # us) = p @ u @ stream_of us" for p u us by (simp add: stream_of_def)
  have hit: "h264_profile_level_id_from_annex_b (stream_of ((p, sps) # vs)) = Some (hex2 (sps ! 1) @ hex2 (sps ! 2) @ hex2 (sps ! 3))"
    if "well_formed_units ((p, sps) # vs)"
    using that next_unit [of p sps vs] assms(3) unfolding cons
    by (subst h264_profile_level_id_from_annex_b.simps) (auto simp: is_sps_def)
  have skip: "h264_profile_level_id_from_annex_b (stream_of (us @ ws)) = h264_profile_level_id_from_annex_b (stream_of ws)"
    if "well_formed_units (us @ ws)" for ws
    using that assms(2)
  proof (induction us)
    case (Cons x us)
    obtain q u where x: "x = (q, u)" by fastforce
    have "next_annex_b_nal (stream_of ((x # us) @ ws)) = Some (u, stream_of (us @ ws))"
      unfolding x append_Cons cons by (rule next_unit) (use Cons.prems x in auto)
    then have "h264_profile_level_id_from_annex_b (stream_of ((x # us) @ ws)) = h264_profile_level_id_from_annex_b (stream_of (us @ ws))"
      using Cons.prems x by (subst h264_profile_level_id_from_annex_b.simps) (auto simp: is_sps_def)
    then show ?case using Cons by auto
  qed simp
  have "h264_profile_level_id_from_annex_b (stream_of []) = None"
    by (subst h264_profile_level_id_from_annex_b.simps) (simp add: next_annex_b_nal_def stream_of_def)
  then have "h264_profile_level_id_from_annex_b (stream_of us) = None" using skip [of "[]"] assms(1) by auto
  then show ?thesis using skip [OF assms(1)] hit assms(1) profile_roundtrip by auto
qed

theorem first_sps_gives_profile_witness:
  "\<exists>ident. h264_profile_level_id_from_annex_b (stream_of ([([0, 0, 0, 1], [0x09, 0xF0])] @ ([0, 0, 1], [0x67, 0x42, 0xC0, 0x1F, 0x8C]) # [])) = Some ident \<and>
      parse_profile_level_id ident = Some ([0x67, 0x42, 0xC0, 0x1F, 0x8C] ! 1, [0x67, 0x42, 0xC0, 0x1F, 0x8C] ! 2, [0x67, 0x42, 0xC0, 0x1F, 0x8C] ! 3) \<and>
      h264_profile_level_id_from_annex_b (stream_of [([0, 0, 0, 1], [0x09, 0xF0])]) = None"
  by (rule first_sps_gives_profile) (auto simp: start_prefix_def nal_unit_def is_sps_def)

end
