(* ===== verification/RtpJpegProps.thy ===== *)
theory RtpJpegProps
  imports RtpJpeg
begin

text \<open>
  What the JPEG depacketizer gives its client: the interchange header is a parseable baseline
  frame, any fragmentation of a frame is put together again, whatever packets arrive only decodable
  images are completed, and the cached quantizers of a session do not change.
\<close>

section \<open>Bytes and buffers\<close>

lemma length_write_be16 [simp]: "length (write_be16 v) = 2"
  by (simp add: write_be16_def)

lemma read_write_be16 [simp]: "read_be16 (write_be16 v @ r) = v"
  by (rule bit_word_eqI) (auto simp: read_be16_def write_be16_def bit_simps)

lemma read_write_be16_end [simp]: "read_be16 (write_be16 v) = v"
  using read_write_be16 [of v "[]"] by simp

lemma length_blit [simp]: "offset + length d \<le> length buf \<Longrightarrow> length (blit buf offset d) = length buf"
  by (simp add: blit_def)

lemma take_blit: "offset + length d \<le> length buf \<Longrightarrow> take (offset + length d) (blit buf offset d) = take offset buf @ d"
  by (simp add: blit_def)

lemma take_blit_before: "n \<le> offset \<Longrightarrow> offset \<le> length buf \<Longrightarrow> take n (blit buf offset d) = take n buf"
  by (simp add: blit_def min_def)

lemma append_all_fits:
  "snd w \<le> length (fst w) \<Longrightarrow>
   (case append_all w ds of (ok, buffer, used) \<Rightarrow>
      length buffer = length (fst w) \<and>
      (if snd w + length (concat ds) \<le> length (fst w)
       then ok \<and> used = snd w + length (concat ds) \<and> take used buffer = take (snd w) (fst w) @ concat ds
       else \<not> ok))"
proof (induction ds arbitrary: w)
  case Nil
  then show ?case by (cases w) simp
next
  case (Cons d ds)
  obtain buf n where w: "w = (buf, n)" by (cases w)
  show ?case
  proof (cases "n + length d \<le> length buf")
    case False
    then show ?thesis by (simp add: w writer_append_def)
  next
    case True
    then show ?thesis
      using Cons.IH [of "(blit buf n d, n + length d)"] take_blit [OF True]
      by (auto simp: w writer_append_def add.assoc split: prod.splits if_splits)
  qed
qed

section \<open>The interchange header\<close>

definition interchange_header :: "byte \<Rightarrow> byte \<Rightarrow> byte \<Rightarrow> bytes \<Rightarrow> u16 \<Rightarrow> bytes" where
  "interchange_header type w h q interval = concat (interchange_chunks type w h q interval)"

lemma write_interchange:
  "write_interchange_header type w h q interval output = (r, output') \<Longrightarrow>
   length output' = length output \<and>
   (case r of
      None \<Rightarrow> type > 1 \<or> w = 0 \<or> h = 0 \<or> length q \<noteq> 128 \<or> length (interchange_header type w h q interval) > length output
    | Some n \<Rightarrow> type \<le> 1 \<and> w \<noteq> 0 \<and> h \<noteq> 0 \<and> length q = 128 \<and> n = length (interchange_header type w h q interval) \<and>
        n \<le> length output \<and> take n output' = interchange_header type w h q interval)"
  using append_all_fits [of "(output, 0)" "interchange_chunks type w h q interval"]
  by (auto simp: write_interchange_header_def interchange_header_def linorder_not_less
      split: if_splits prod.splits bool.splits)

subsection \<open>Huffman tables\<close>

definition huffman_table :: "byte \<Rightarrow> bytes \<Rightarrow> bool" where
  "huffman_table table_id t \<longleftrightarrow> length t \<ge> 17 \<and> t ! 0 = table_id \<and> huffman_values t \<noteq> 0 \<and> length t = 17 + huffman_values t"

lemma standard_tables:
  "huffman_table 0x00 dc_luminance" "huffman_table 0x01 dc_chrominance"
  "huffman_table 0x10 ac_luminance" "huffman_table 0x11 ac_chrominance"
  by (simp_all add: huffman_table_def huffman_values_def dc_luminance_def dc_chrominance_def
      ac_luminance_def ac_chrominance_def)

lemma huffman_values_append: "17 \<le> length t \<Longrightarrow> huffman_values (t @ r) = huffman_values t"
  by (simp add: huffman_values_def)

lemma standard_table_step:
  "huffman_table i t \<Longrightarrow> standard_table_in (t @ r) k = (if k = i then Some t else standard_table_in r k)"
  by (subst standard_table_in.simps) (auto simp: huffman_table_def huffman_values_append nth_append Let_def)

lemma standard_table_found:
  "standard_huffman_table 0x00 = Some dc_luminance" "standard_huffman_table 0x01 = Some dc_chrominance"
  "standard_huffman_table 0x10 = Some ac_luminance" "standard_huffman_table 0x11 = Some ac_chrominance"
  using standard_table_step [OF standard_tables(1)] standard_table_step [OF standard_tables(2)]
    standard_table_step [OF standard_tables(3)] standard_table_step [OF standard_tables(4), of "[]"]
  by (simp_all add: standard_huffman_table_def JPEG_STANDARD_DHT_def)

lemma consume_table:
  assumes "huffman_table i t" and "standard_huffman_table i = Some t" and "huffman_mask i = Some m" and "k AND m = 0"
  shows "consume_standard_huffman_tables (t @ r) k = consume_standard_huffman_tables r (k OR m)"
  using assms
  by (subst consume_standard_huffman_tables.simps)
    (auto simp: huffman_table_def huffman_values_append nth_append Let_def)

lemma consume_standard: "consume_standard_huffman_tables (drop 4 JPEG_STANDARD_DHT) 0 = (True, 0x0F)"
proof -
  have masks: "huffman_mask 0 = Some 1" "huffman_mask 1 = Some 2" "huffman_mask 0x10 = Some 4" "huffman_mask 0x11 = Some 8"
    by (simp_all add: huffman_mask_def)
  note c = consume_table [OF standard_tables(1) standard_table_found(1) masks(1)]
    consume_table [OF standard_tables(2) standard_table_found(2) masks(2)]
    consume_table [OF standard_tables(3) standard_table_found(3) masks(3)]
    consume_table [OF standard_tables(4) standard_table_found(4) masks(4), of _ "[]", unfolded append_Nil2]
  show ?thesis
    by (simp add: JPEG_STANDARD_DHT_def c consume_standard_huffman_tables.simps [of "[]"])
qed

lemma length_DHT: "length JPEG_STANDARD_DHT = 420"
  by (simp add: JPEG_STANDARD_DHT_def dc_luminance_def dc_chrominance_def ac_luminance_def ac_chrominance_def)

subsection \<open>Segments\<close>

text \<open>A segment on the wire: the marker, the length of two more bytes than the contents, the contents.\<close>

definition jpeg_segment :: "byte \<Rightarrow> bytes \<Rightarrow> bytes" where
  "jpeg_segment marker seg = [0xFF, marker] @ write_be16 (of_nat (length seg + 2)) @ seg"

definition segment_marker :: "byte \<Rightarrow> bool" where
  "segment_marker m \<longleftrightarrow> m \<noteq> 0xFF \<and> m \<noteq> 0xD9 \<and> m \<noteq> 0xD8 \<and> \<not> (0xD0 \<le> m \<and> m \<le> 0xD7) \<and> m \<noteq> 0x01"

lemma parse_segment_head:
  assumes "segment_marker m" and "length seg \<le> 65533"
  shows "parse_segments (jpeg_segment m seg @ r) p =
    (if m = 0xDA then parse_sos seg r p
     else case parse_segment m seg p of Inl e \<Rightarrow> Inl e | Inr q \<Rightarrow> parse_segments r q)"
proof -
  let ?n = "of_nat (length seg + 2) :: u16"
  have n: "unat ?n = length seg + 2" using assms(2) by (intro unat_of_nat_small) simp
  have d: "dropWhile (\<lambda>b. b = 0xFF) (jpeg_segment m seg @ r) = m # write_be16 ?n @ seg @ r"
    using assms(1) by (simp add: jpeg_segment_def segment_marker_def)
  have h: "length (jpeg_segment m seg @ r) \<ge> 2" "(jpeg_segment m seg @ r) ! 0 = 0xFF"
    by (simp_all add: jpeg_segment_def)
  have t: "drop 2 (write_be16 ?n @ seg @ r) = seg @ r" "drop (length seg + 2) (write_be16 ?n @ seg @ r) = r" by simp_all
  have m: "m \<noteq> 0xD9" "\<not> (m = 0xD8 \<or> (0xD0 \<le> m \<and> m \<le> 0xD7) \<or> m = 0x01)"
    using assms(1) by (auto simp: segment_marker_def)
  show ?thesis
    by (subst parse_segments.simps)
      (use h m in \<open>simp only: d list.case Let_def read_write_be16 n t if_False if_True, simp add: linorder_not_less\<close>)
qed

definition coded_frame :: "byte \<Rightarrow> byte \<Rightarrow> byte \<Rightarrow> bytes \<Rightarrow> u16 \<Rightarrow> bytes \<Rightarrow> jpeg_frame" where
  "coded_frame type w h q interval sc =
     \<lparr>scan = sc, quantizers = q, frame_width = ucast w * 8, frame_height = ucast h * 8, restart_interval = interval,
      frame_type = type\<rparr>"

definition sof_segment :: "byte \<Rightarrow> byte \<Rightarrow> byte \<Rightarrow> bytes" where
  "sof_segment type w h = [8] @ write_be16 (ucast h * 8) @ write_be16 (ucast w * 8) @
     [3, 1, if type = 1 then 0x22 else 0x21, 0, 2, 0x11, 1, 3, 0x11, 1]"

lemma header_segments:
  assumes "length q = 128"
  shows "interchange_header type w h q interval =
    [0xFF, 0xD8] @ jpeg_segment 0xE0 (drop 6 SOI_JFIF) @
    jpeg_segment 0xDB ((0 # take 64 q) @ 1 # drop 64 q) @
    (if interval \<noteq> 0 then jpeg_segment 0xDD (write_be16 interval) else []) @
    jpeg_segment 0xC0 (sof_segment type w h) @ jpeg_segment 0xC4 (drop 4 JPEG_STANDARD_DHT) @
    jpeg_segment 0xDA (3 # SOS_PARAMETERS)"
proof -
  have "take 64 (drop 64 q) = drop 64 q" using assms by simp
  moreover have "JPEG_STANDARD_DHT = [0xFF, 0xC4, 0x01, 0xA2] @ drop 4 JPEG_STANDARD_DHT"
    by (simp add: JPEG_STANDARD_DHT_def)
  moreover have "write_be16 (of_nat (length (drop 4 JPEG_STANDARD_DHT) + 2)) = [0x01, 0xA2]"
    by (simp add: length_DHT write_be16_def)
  moreover have "[0xFF, 0xE0] @ write_be16 (of_nat (length (drop 6 SOI_JFIF) + 2)) @ drop 6 SOI_JFIF = drop 2 SOI_JFIF"
    by (simp add: SOI_JFIF_def write_be16_def)
  moreover have "SOI_JFIF = [0xFF, 0xD8] @ drop 2 SOI_JFIF" by (simp add: SOI_JFIF_def)
  moreover have "write_be16 (of_nat (length (3 # SOS_PARAMETERS) + 2)) = [0x00, 0x0C]"
    "write_be16 (of_nat (length (sof_segment type w h) + 2)) = [0x00, 0x11]" "write_be16 4 = [0x00, 0x04]"
    by (simp_all add: SOS_PARAMETERS_def sof_segment_def write_be16_def)
  ultimately show ?thesis
    using assms unfolding interchange_header_def interchange_chunks_def jpeg_segment_def
    by (simp add: sof_segment_def)
qed

lemma parse_tables:
  assumes "length a = 64" and "length b = 64"
  shows "parse_dqt ((0 # a) @ 1 # b) new_jpeg_parse =
    Inr (new_jpeg_parse\<lparr>jp_frame := empty_jpeg_frame\<lparr>quantizers := a @ b\<rparr>, jp_present := [True, True]\<rparr>)"
  using assms by (simp add: new_jpeg_parse_def empty_jpeg_frame_def blit_def Let_def)

lemma blocks_to_pixels:
  assumes "(w :: byte) \<noteq> 0"
  shows "(ucast w * 8 :: u16) \<noteq> 0" "(ucast w * 8 :: u16) \<le> 2040"
proof -
  have "unat (ucast w * 8 :: u16) = unat w * 8"
  proof -
    have "unat w * 8 < 65536" using unat_u8_le [of w] by linarith
    then show ?thesis by (simp add: unat_word_ariths unat_ucast_up)
  qed
  moreover have "unat w \<noteq> 0" using assms by (simp add: unat_eq_0)
  ultimately show "(ucast w * 8 :: u16) \<noteq> 0" "(ucast w * 8 :: u16) \<le> 2040"
    using unat_u8_le [of w] by (auto simp: word_le_nat_alt simp flip: unat_eq_0)
qed

lemma parse_sof_segment:
  assumes "type \<le> 1" and "w \<noteq> 0" and "h \<noteq> 0"
  shows "parse_sof (sof_segment type w h) p =
    Inr (p\<lparr>jp_frame := (jp_frame p)\<lparr>frame_height := ucast h * 8, frame_width := ucast w * 8, frame_type := type\<rparr>, jp_sof := True\<rparr>)"
proof -
  have t: "type = 0 \<or> type = 1" using assms(1) by (auto simp: word_le_nat_alt le_Suc_eq word_unat_eq_iff)
  have h: "read_be16 (drop 1 (sof_segment type w h)) = ucast h * 8" "read_be16 (drop 3 (sof_segment type w h)) = ucast w * 8"
    by (simp_all add: sof_segment_def)
  have b: "\<not> (ucast w * 8 = (0::u16) \<or> ucast h * 8 = (0::u16) \<or> ucast w * 8 > (2040::u16) \<or> ucast h * 8 > (2040::u16))"
    using blocks_to_pixels [OF assms(2)] blocks_to_pixels [OF assms(3)] by (auto simp: linorder_not_less)
  have c: "length (sof_segment type w h) = 15" "sof_segment type w h ! 5 = 3" "sof_segment type w h ! 0 = 8"
    "drop 6 (sof_segment type w h) = [1, if type = 1 then 0x22 else 0x21, 0, 2, 0x11, 1, 3, 0x11, 1]"
    by (simp_all add: sof_segment_def write_be16_def)
  show ?thesis
    unfolding parse_sof_def Let_def h c using t b by auto
qed

lemma parse_standard_dht:
  "jp_mask p = 0 \<Longrightarrow> parse_dht (drop 4 JPEG_STANDARD_DHT) p = Inr (p\<lparr>jp_mask := 0x0F, jp_dht := True\<rparr>)"
  by (simp add: parse_dht_def consume_standard)

lemma last_eoi_end: "last_eoi (d @ [0xFF, 0xD9]) (length d + 2) = Some (length d)"
  by (simp add: nth_append)

lemma parse_sos_segment:
  assumes "jp_sof p" and "jp_present p = [True, True]" and "jp_dht p \<longrightarrow> jp_mask p = 0x0F" and "sc \<noteq> []"
  shows "parse_sos (3 # SOS_PARAMETERS) (sc @ [0xFF, 0xD9]) p = Inr ((jp_frame p)\<lparr>scan := sc\<rparr>)"
proof -
  have "length (3 # SOS_PARAMETERS) = 10" by (simp add: SOS_PARAMETERS_def)
  then show ?thesis using assms last_eoi_end [of sc] by (simp add: parse_sos_def)
qed

text \<open>The interchange header, a scan and the end marker are a frame the parser accepts.\<close>

lemma parse_interchange:
  assumes "type \<le> 1" and "w \<noteq> 0" and "h \<noteq> 0" and "length q = 128" and "sc \<noteq> []"
  shows "parse_jpeg_for_rtp (interchange_header type w h q interval @ sc @ [0xFF, 0xD9]) = Inr (coded_frame type w h q interval sc)"
proof -
  have m: "segment_marker 0xE0" "segment_marker 0xDB" "segment_marker 0xDD" "segment_marker 0xC0"
    "segment_marker 0xC4" "segment_marker 0xDA"
    by (simp_all add: segment_marker_def)
  have l: "length (drop 6 SOI_JFIF) \<le> 65533" "length ((0 # take 64 q) @ 1 # drop 64 q) \<le> 65533"
    "length (write_be16 interval) \<le> 65533" "length (sof_segment type w h) \<le> 65533"
    "length (drop 4 JPEG_STANDARD_DHT) \<le> 65533" "length (3 # SOS_PARAMETERS) \<le> 65533"
    using assms(4) by (simp_all add: SOI_JFIF_def sof_segment_def length_DHT SOS_PARAMETERS_def)
  have tables: "parse_segment 0xDB ((0 # take 64 q) @ 1 # drop 64 q) new_jpeg_parse =
      Inr (new_jpeg_parse\<lparr>jp_frame := empty_jpeg_frame\<lparr>quantizers := q\<rparr>, jp_present := [True, True]\<rparr>)"
    using parse_tables [of "take 64 q" "drop 64 q"] assms(4) by (simp add: parse_segment_def)
  have seg: "parse_segment 0xE0 s p = Inr p" "parse_segment 0xDD s p = parse_dri s p"
    "parse_segment 0xC0 s p = parse_sof s p" "parse_segment 0xC4 s p = parse_dht s p" for s p
    by (simp_all add: parse_segment_def)
  have dri: "interval \<noteq> 0 \<Longrightarrow> parse_dri (write_be16 interval) p =
      Inr (p\<lparr>jp_frame := (jp_frame p)\<lparr>restart_interval := interval\<rparr>\<rparr>)" for p
    by (simp add: parse_dri_def)
  define tail where "tail = jpeg_segment 0xC0 (sof_segment type w h) @ jpeg_segment 0xC4 (drop 4 JPEG_STANDARD_DHT) @
    jpeg_segment 0xDA (3 # SOS_PARAMETERS) @ sc @ [0xFF, 0xD9]"
  have tail: "parse_segments tail p = Inr ((jp_frame p)\<lparr>frame_height := ucast h * 8, frame_width := ucast w * 8,
      frame_type := type, scan := sc\<rparr>)" if "jp_mask p = 0" "jp_present p = [True, True]" for p
    using that assms
    by (simp add: tail_def parse_segment_head [OF m(4) l(4)] parse_segment_head [OF m(5) l(5)]
        parse_segment_head [OF m(6) l(6)] seg parse_sof_segment parse_standard_dht parse_sos_segment)
  have "parse_segments ((if interval \<noteq> 0 then jpeg_segment 0xDD (write_be16 interval) else []) @ tail) p =
      parse_segments tail (p\<lparr>jp_frame := (jp_frame p)\<lparr>restart_interval := interval\<rparr>\<rparr>)"
    if "restart_interval (jp_frame p) = 0" for p
  proof (cases "interval = 0")
    case True
    then have "p\<lparr>jp_frame := (jp_frame p)\<lparr>restart_interval := interval\<rparr>\<rparr> = p" using that by (cases p) simp
    then show ?thesis using True by simp
  qed (simp add: parse_segment_head [OF m(3) l(3)] seg dri)
  note interval = this
  define dqt where "dqt = (0 # take 64 q) @ 1 # drop 64 q"
  define p1 where "p1 = new_jpeg_parse\<lparr>jp_frame := empty_jpeg_frame\<lparr>quantizers := q\<rparr>, jp_present := [True, True]\<rparr>"
  have "parse_segments (jpeg_segment 0xE0 (drop 6 SOI_JFIF) @ jpeg_segment 0xDB dqt @ r) new_jpeg_parse = parse_segments r p1" for r
    using tables [folded dqt_def] l(2) [folded dqt_def]
    by (simp add: parse_segment_head [OF m(1) l(1)] parse_segment_head [OF m(2)] seg p1_def)
  moreover have "restart_interval (jp_frame p1) = 0" "jp_mask p1 = 0" "jp_present p1 = [True, True]"
    by (simp_all add: p1_def new_jpeg_parse_def empty_jpeg_frame_def)
  moreover have "quantizers (jp_frame p1) = q" by (simp add: p1_def)
  ultimately have "parse_segments (jpeg_segment 0xE0 (drop 6 SOI_JFIF) @ jpeg_segment 0xDB dqt @
      (if interval \<noteq> 0 then jpeg_segment 0xDD (write_be16 interval) else []) @ tail) new_jpeg_parse =
      Inr (coded_frame type w h q interval sc)"
    by (simp add: interval tail coded_frame_def del: if_split)
  then show ?thesis
    unfolding parse_jpeg_for_rtp_def header_segments [OF assms(4)] dqt_def [symmetric] by (simp add: tail_def)
qed

section \<open>The cache of quantizers\<close>

definition cache_inv :: "depacketizer \<Rightarrow> bool" where
  "cache_inv p \<longleftrightarrow>
     length (dp_valid p) = 16 \<and> (\<forall>c. dp_cache p = Some c \<longrightarrow> length c \<ge> kCachedQualityCount * 128) \<and>
     (\<forall>k t. find_cached_quantizers p k = Some t \<longrightarrow> valid_quantizers t)"

lemma cache_index_less: "128 \<le> k \<Longrightarrow> k \<le> 254 \<Longrightarrow> cache_index k < 127"
  by (simp add: cache_index_def unat_sub word_le_nat_alt)

lemma cache_index_inj: "128 \<le> k \<Longrightarrow> 128 \<le> l \<Longrightarrow> cache_index k = cache_index l \<Longrightarrow> k = l"
  unfolding cache_index_def by (metis diff_add_cancel word_unat_eq_iff)

lemma cache_bit_iff: "v AND cache_bit k = 0 \<longleftrightarrow> \<not> bit v (cache_index k mod 8)"
proof -
  have "cache_bit k = 2 ^ (cache_index k mod 8)" by (simp add: cache_bit_def)
  then show ?thesis by (simp add: and_exp_eq_0_iff_not_bit)
qed

lemma bit_cache_bit: "bit (cache_bit k) j \<longleftrightarrow> j = cache_index k mod 8"
  by (auto simp: cache_bit_def bit_simps)

lemma blit_table:
  assumes "length q = 128" and "i * 128 + 128 \<le> length c"
  shows "take 128 (drop (j * 128) (blit c (i * 128) q)) = (if j = i then q else take 128 (drop (j * 128) c))"
proof (cases j i rule: linorder_cases)
  case less
  then have "j * 128 + 128 \<le> i * 128" by simp
  then show ?thesis using less assms
    by (simp add: blit_def take_drop take_append min_def)
next
  case equal
  then show ?thesis using assms by (simp add: blit_def min_def)
next
  case greater
  then have "i * 128 + 128 \<le> j * 128" by simp
  then show ?thesis using greater assms by (simp add: blit_def min_def)
qed

lemma find_cached_alt:
  "find_cached_quantizers p k =
     (case dp_cache p of None \<Rightarrow> None
      | Some c \<Rightarrow> if 128 \<le> k \<and> k \<le> 254 \<and> bit (dp_valid p ! (cache_index k div 8)) (cache_index k mod 8)
                  then Some (take 128 (drop (cache_index k * 128) c)) else None)"
  by (auto simp: find_cached_quantizers_def cache_bit_iff linorder_not_less split: option.splits)

lemma cache_update:
  assumes "cache_or_validate_quantizers p k q = (True, p')" and "length q = 128" and "length (dp_valid p) = 16"
    and "\<forall>c. dp_cache p = Some c \<longrightarrow> length c \<ge> kCachedQualityCount * 128"
  shows "find_cached_quantizers p' l = (if l = k then Some q else find_cached_quantizers p l) \<and>
    (find_cached_quantizers p k = None \<or> find_cached_quantizers p k = Some q)"
proof -
  obtain c where c: "dp_cache p = Some c" and k: "128 \<le> k" "k \<le> 254"
    using assms(1) by (auto simp: cache_or_validate_quantizers_def linorder_not_less split: option.splits if_splits)
  let ?i = "cache_index k"
  have i: "?i < 127" using cache_index_less [OF k] .
  show ?thesis
  proof (cases "bit (dp_valid p ! (?i div 8)) (?i mod 8)")
    case True
    then have "p' = p" "take 128 (drop (?i * 128) c) = q"
      using assms(1,2) c k by (auto simp: cache_or_validate_quantizers_def cache_bit_iff Let_def split: if_splits)
    then show ?thesis using True c k by (auto simp: find_cached_alt)
  next
    case False
    then have p': "p' = p\<lparr>dp_cache := Some (blit c (?i * 128) q),
        dp_valid := (dp_valid p)[?i div 8 := dp_valid p ! (?i div 8) OR cache_bit k]\<rparr>"
      using assms(1,2) c k by (auto simp: cache_or_validate_quantizers_def cache_bit_iff Let_def split: if_splits)
    have len: "?i * 128 + 128 \<le> length c" "?i div 8 < length (dp_valid p)"
      using assms(3,4) c i by (auto simp: kCachedQualityCount_def)
    have "bit (dp_valid p' ! (cache_index l div 8)) (cache_index l mod 8) \<longleftrightarrow>
        l = k \<or> bit (dp_valid p ! (cache_index l div 8)) (cache_index l mod 8)" if l: "128 \<le> l" "l \<le> 254"
    proof -
      have "cache_index l div 8 = ?i div 8 \<and> cache_index l mod 8 = ?i mod 8 \<longleftrightarrow> l = k"
        using cache_index_inj [OF l(1) k(1)] by (metis div_mult_mod_eq)
      then show ?thesis using len by (auto simp: p' nth_list_update bit_or_iff bit_cache_bit)
    qed
    then show ?thesis
      using False c k blit_table [OF assms(2) len(1)] cache_index_inj [OF _ k(1)]
      by (auto simp: find_cached_alt p')
  qed
qed

lemma cache_kept: "cache_or_validate_quantizers p k q = (False, p') \<Longrightarrow> p' = p"
  by (auto simp: cache_or_validate_quantizers_def Let_def split: option.splits if_splits)

lemma cache_update_shape:
  assumes "cache_or_validate_quantizers p k q = (b, p')" and "length q = 128"
    and "\<forall>c. dp_cache p = Some c \<longrightarrow> length c \<ge> kCachedQualityCount * 128"
  shows "p' = p\<lparr>dp_cache := dp_cache p', dp_valid := dp_valid p'\<rparr>" "length (dp_valid p') = length (dp_valid p)"
    "\<forall>c. dp_cache p' = Some c \<longrightarrow> length c \<ge> kCachedQualityCount * 128"
proof -
  have "cache_index k * 128 + 128 \<le> length d" if "length d \<ge> kCachedQualityCount * 128" "\<not> k < 128" "\<not> k > 254" for d :: bytes
    using that cache_index_less [of k] by (auto simp: kCachedQualityCount_def linorder_not_less)
  then show "p' = p\<lparr>dp_cache := dp_cache p', dp_valid := dp_valid p'\<rparr>" "length (dp_valid p') = length (dp_valid p)"
    "\<forall>c. dp_cache p' = Some c \<longrightarrow> length c \<ge> kCachedQualityCount * 128"
    using assms
    by (auto simp: cache_or_validate_quantizers_def Let_def split: option.splits if_splits)
qed

lemma make_quantizers_valid: "valid_quantizers (make_quantizers k)"
proof -
  have "(word_of_int (max 1 (min 255 x)) :: byte) \<noteq> 0" for x
  proof -
    have "take_bit 8 (max 1 (min 255 x)) = max 1 (min 255 x)" by (simp add: take_bit_int_eq_self)
    moreover have "max 1 (min 255 x) \<noteq> 0" by linarith
    ultimately show ?thesis using word_of_int_eq_iff [of "max 1 (min 255 x)" 0, where 'a = 8] by simp
  qed
  moreover have "length JPEG_BASE_QUANTIZERS = 128" by (simp add: JPEG_BASE_QUANTIZERS_def)
  ultimately show ?thesis
    by (simp add: valid_quantizers_def make_quantizers_def list_all_iff Let_def)
qed

text \<open>A first fragment leaves all but the cache alone, keeps what was cached, and gives valid quantizers.\<close>

lemma first_fragment:
  assumes "first_fragment_quantizers k rest p = (r, p1)" and "cache_inv p"
  shows "p1 = p\<lparr>dp_cache := dp_cache p1, dp_valid := dp_valid p1\<rparr> \<and> cache_inv p1 \<and>
    (\<forall>l t. find_cached_quantizers p l = Some t \<longrightarrow> find_cached_quantizers p1 l = Some t) \<and>
    (\<forall>q fragment. r = Some (q, fragment) \<longrightarrow> valid_quantizers q)"
proof (cases "p1 = p")
  case True
  then show ?thesis
    using assms make_quantizers_valid
    by (auto simp: first_fragment_quantizers_def Let_def cache_inv_def split: if_splits option.splits prod.splits bool.splits)
next
  case False
  then obtain q where c: "cache_or_validate_quantizers p k q = (True, p1)" and v: "valid_quantizers q"
    and r: "\<forall>q' fragment. r = Some (q', fragment) \<longrightarrow> q' = q"
    using assms(1) cache_kept [of p k] unfolding first_fragment_quantizers_def Let_def
    by (auto split: if_splits option.splits prod.splits bool.splits)
  have q: "length q = 128" using v by (simp add: valid_quantizers_def)
  have i: "length (dp_valid p) = 16" "\<forall>c. dp_cache p = Some c \<longrightarrow> length c \<ge> kCachedQualityCount * 128"
    using assms(2) by (simp_all add: cache_inv_def)
  note u = cache_update [OF c q i] and sh = cache_update_shape [OF c q i(2)]
  have "cache_inv p1"
    using sh(2,3) u v assms(2) by (auto simp: cache_inv_def split: if_splits)
  then show ?thesis using sh(1) u v r by (metis option.sel option.simps(3))
qed

section \<open>Frames under reassembly\<close>

text \<open>The buffer holds a header with valid quantizers, and room for the scan so far.\<close>

definition frame_inv :: "bytes \<Rightarrow> depacketizer \<Rightarrow> bool" where
  "frame_inv output p \<longleftrightarrow>
     (dp_active p \<longrightarrow>
        (\<exists>type w h q interval. type \<le> 1 \<and> w \<noteq> 0 \<and> h \<noteq> 0 \<and> valid_quantizers q \<and>
           dp_header_size p = length (interchange_header type w h q interval) \<and>
           dp_header_size p + dp_scan_size p \<le> length output \<and>
           take (dp_header_size p) output = interchange_header type w h q interval))"

lemma frame_invI:
  assumes "type \<le> 1" and "w \<noteq> 0" and "h \<noteq> 0" and "valid_quantizers q"
    and "dp_header_size p = length (interchange_header type w h q interval)"
    and "dp_header_size p + dp_scan_size p \<le> length output"
    and "take (dp_header_size p) output = interchange_header type w h q interval"
  shows "frame_inv output p"
  using assms unfolding frame_inv_def by blast

lemma frame_inv_reset [simp]: "frame_inv output (dp_reset p)"
  by (simp add: frame_inv_def dp_reset_def)

lemma dp_reset_fields [simp]:
  "dp_cache (dp_reset p) = dp_cache p" "dp_valid (dp_reset p) = dp_valid p" "dp_active (dp_reset p) = False"
  by (simp_all add: dp_reset_def)

lemma cache_fields:
  assumes "dp_cache p' = dp_cache p" and "dp_valid p' = dp_valid p"
  shows "find_cached_quantizers p' k = find_cached_quantizers p k" and "cache_inv p' = cache_inv p"
  unfolding cache_inv_def find_cached_quantizers_def assms by (rule refl)+

lemma find_cached_reset [simp]:
  "find_cached_quantizers (dp_reset p) k = find_cached_quantizers p k" "cache_inv (dp_reset p) = cache_inv p"
  by (rule cache_fields; simp)+

definition decodable :: "bytes \<Rightarrow> bool" where
  "decodable img \<longleftrightarrow> (\<exists>f. parse_jpeg_for_rtp img = Inr f \<and> valid_quantizers (quantizers f))"

lemma start_frame_inv:
  assumes "start_frame ts type k w h interval q stamp output p = (ok, output', p')" and "valid_quantizers q"
  shows "length output' = length output \<and> dp_cache p' = dp_cache p \<and> dp_valid p' = dp_valid p \<and>
    (ok \<longrightarrow> frame_inv output' p' \<and> dp_active p') \<and> (\<not> ok \<longrightarrow> p' = p)"
proof (cases "ts \<noteq> 0 \<or> type > 1 \<or> w = 0 \<or> h = 0 \<or> length q \<noteq> 128")
  case True
  then show ?thesis using assms(1) by (auto simp: start_frame_def)
next
  case False
  obtain r o' where wr: "write_interchange_header type w h q interval output = (r, o')" by fastforce
  show ?thesis
  proof (cases r)
    case None
    then show ?thesis using assms(1) False write_interchange [OF wr] by (auto simp: start_frame_def wr)
  next
    case (Some n)
    have "frame_inv output' p'"
      using assms False write_interchange [OF wr] Some
      by (intro frame_invI [of type w h q _ interval]) (auto simp: start_frame_def wr)
    then show ?thesis using assms(1) False write_interchange [OF wr] Some by (auto simp: start_frame_def wr)
  qed
qed

lemma take_fragment_inv:
  assumes "take_fragment off fragment marker output p = (r, output', n, p')" and "frame_inv output p"
  shows "length output' = length output \<and> dp_cache p' = dp_cache p \<and> dp_valid p' = dp_valid p \<and> frame_inv output' p' \<and>
    n \<le> length output \<and> (r = COMPLETE \<longrightarrow> decodable (take n output'))"
proof -
  let ?at = "dp_header_size p + dp_scan_size p"
  show ?thesis
  proof (cases "\<not> dp_active p \<or> unat off \<noteq> dp_scan_size p \<or> fragment = [] \<or> ?at + length fragment + 2 > length output")
    case True
    then show ?thesis using assms by (auto simp: take_fragment_def Let_def dp_reset_def frame_inv_def)
  next
    case False
    then have g: "dp_active p" "unat off = dp_scan_size p" "fragment \<noteq> []" "?at + length fragment + 2 \<le> length output" by auto
    then obtain type w h q interval where
      f: "type \<le> 1" "w \<noteq> 0" "h \<noteq> 0" "valid_quantizers q" "dp_header_size p = length (interchange_header type w h q interval)"
        "take (dp_header_size p) output = interchange_header type w h q interval"
      using assms(2) by (auto simp: frame_inv_def)
    let ?o = "blit output ?at fragment" and ?stop = "?at + length fragment"
    have o: "take ?stop ?o = take ?at output @ fragment" "length ?o = length output"
      using g(4) take_blit [of ?at fragment "output"] by simp_all
    show ?thesis
    proof (cases marker)
      case False
      have "take (dp_header_size p) ?o = take (dp_header_size p) output" by (rule take_blit_before) (use g in auto)
      then have "frame_inv ?o (p\<lparr>dp_scan_size := dp_scan_size p + length fragment\<rparr>)"
        using f g(1,4) by (intro frame_invI [of type w h q _ interval]) auto
      then show ?thesis using assms(1) False g o by (auto simp: take_fragment_def Let_def)
    next
      case True
      let ?o2 = "blit ?o ?stop [0xFF, 0xD9]"
      define sc where "sc = drop (dp_header_size p) (take ?at output) @ fragment"
      have "take (?stop + 2) ?o2 = take ?stop ?o @ [0xFF, 0xD9]"
        using take_blit [of ?stop "[0xFF, 0xD9]" ?o] g(4) o by simp
      also have "\<dots> = interchange_header type w h q interval @ sc @ [0xFF, 0xD9]"
      proof -
        have "take ?at output = take (dp_header_size p) output @ drop (dp_header_size p) (take ?at output)"
          by (metis append_take_drop_id le_add1 min.absorb1 take_take)
        then show ?thesis using o f(6) by (simp add: sc_def)
      qed
      finally have "decodable (take (?stop + 2) ?o2)"
        using parse_interchange [OF f(1-3), of q sc interval] f(4) g(3)
        by (auto simp: decodable_def valid_quantizers_def sc_def coded_frame_def)
      then show ?thesis using assms(1) True g o by (auto simp: take_fragment_def Let_def dp_reset_def frame_inv_def)
    qed
  qed
qed

definition dp_inv :: "bytes \<Rightarrow> depacketizer \<Rightarrow> bool" where
  "dp_inv output p \<longleftrightarrow> frame_inv output p \<and> cache_inv p"

lemma dp_push_inv:
  assumes "dp_push payload marker stamp output p = (r, output', n, p')" and "dp_inv output p"
  shows "length output' = length output \<and> dp_inv output' p' \<and> n \<le> length output \<and>
    (r = COMPLETE \<longrightarrow> decodable (take n output')) \<and>
    (\<forall>k t. find_cached_quantizers p k = Some t \<longrightarrow> find_cached_quantizers p' k = Some t)"
proof -
  define good where "good = (\<lambda>(r, output', n, p'). length output' = length output \<and> dp_inv output' p' \<and> n \<le> length output \<and>
    (r = COMPLETE \<longrightarrow> decodable (take n output')) \<and>
    (\<forall>k t. find_cached_quantizers p k = Some t \<longrightarrow> find_cached_quantizers p' k = Some t))"
  have drop: "good (DROPPED, o', 0, dp_reset p1)"
    if "length o' = length output" "cache_inv p1" "\<forall>k t. find_cached_quantizers p k = Some t \<longrightarrow> find_cached_quantizers p1 k = Some t"
    for o' p1
    using that by (simp add: good_def dp_inv_def)
  have frag: "good (take_fragment off fragment marker o' p1)"
    if "length o' = length output" "frame_inv o' p1" "cache_inv p1"
      "\<forall>k t. find_cached_quantizers p k = Some t \<longrightarrow> find_cached_quantizers p1 k = Some t"
    for off fragment o' p1
  proof -
    obtain r2 o2 n2 p2 where t: "take_fragment off fragment marker o' p1 = (r2, o2, n2, p2)" by (metis surj_pair)
    show ?thesis
      using take_fragment_inv [OF t that(2)] that cache_fields [of p2 p1] by (auto simp: good_def dp_inv_def t)
  qed
  have self: "good (DROPPED, output, 0, dp_reset p)" "good (take_fragment off fragment marker output p)" for off fragment
    using assms(2) by (auto intro: drop frag simp: dp_inv_def)
  have first: "good (case first_fragment_quantizers k rest p of
        (None, p1) \<Rightarrow> (DROPPED, output, 0, dp_reset p1)
      | (Some (q, fragment), p1) \<Rightarrow>
          (case start_frame ts type k w h interval q stamp output (dp_reset p1) of
             (False, o', p2) \<Rightarrow> (DROPPED, o', 0, p2)
           | (True, o', p2) \<Rightarrow> take_fragment off fragment marker o' p2))" for k rest ts type w h interval off
  proof -
    obtain c p1 where q: "first_fragment_quantizers k rest p = (c, p1)" by fastforce
    note ff = first_fragment [OF q]
    have p1: "cache_inv p1" "\<forall>k t. find_cached_quantizers p k = Some t \<longrightarrow> find_cached_quantizers p1 k = Some t"
      using ff assms(2) by (auto simp: dp_inv_def)
    show ?thesis
    proof (cases c)
      case None
      then show ?thesis using drop [OF _ p1] by (simp add: q)
    next
      case (Some qf)
      obtain qt fragment where qf: "qf = (qt, fragment)" by fastforce
      obtain ok o2 p2 where st: "start_frame ts type k w h interval qt stamp output (dp_reset p1) = (ok, o2, p2)"
        by (metis surj_pair)
      have v: "valid_quantizers qt" using ff assms(2) Some qf by (auto simp: dp_inv_def)
      have c2: "cache_inv p2" "\<forall>k t. find_cached_quantizers p k = Some t \<longrightarrow> find_cached_quantizers p2 k = Some t"
        using start_frame_inv [OF st v] cache_fields [of p2 "dp_reset p1"] p1 by simp_all
      show ?thesis
      proof (cases ok)
        case True
        then have "good (take_fragment off fragment marker o2 p2)"
          using start_frame_inv [OF st v] by (intro frag c2) auto
        then show ?thesis using True by (simp add: q Some qf st)
      next
        case False
        then have "p2 = dp_reset p1" "length o2 = length output" using start_frame_inv [OF st v] by auto
        then show ?thesis using False drop [OF _ p1] by (simp add: q Some qf st)
      qed
    qed
  qed
  have "good (dp_push payload marker stamp output p)"
    unfolding dp_push_def Let_def using self first by (simp del: split_paired_All)
  then show ?thesis unfolding assms(1) good_def by simp
qed

end
