(* ===== verification/RtpJpegFrames.thy ===== *)
theory RtpJpegFrames
  imports RtpJpegProps
begin

text \<open>
  A frame in fragments: the headers the sender writes are what the depacketizer expects, so any
  cut of the scan into fragments is put together again.
\<close>

section \<open>Fragment headers\<close>

definition blocks :: "u16 \<Rightarrow> byte" where
  "blocks pixels = of_nat ((unat pixels + 7) div 8)"

definition sendable :: "jpeg_frame \<Rightarrow> bool" where
  "sendable f \<longleftrightarrow>
     scan f \<noteq> [] \<and> frame_type f \<le> 1 \<and> frame_width f \<noteq> 0 \<and> frame_height f \<noteq> 0 \<and> frame_width f \<le> 2040 \<and>
     frame_height f \<le> 2040 \<and> valid_quantizers (quantizers f)"

lemma blocks_nonzero: "p \<noteq> 0 \<Longrightarrow> p \<le> 2040 \<Longrightarrow> blocks p \<noteq> 0"
proof -
  assume "p \<noteq> 0" "p \<le> 2040"
  then have "0 < (unat p + 7) div 8" "(unat p + 7) div 8 < 256"
    by (auto simp: word_le_nat_alt simp flip: unat_eq_0)
  then show ?thesis using unat_of_nat_small [of "(unat p + 7) div 8", where 'a = 8] by (auto simp: blocks_def)
qed

lemma type_cases: "(t :: byte) \<le> 1 \<Longrightarrow> t = 0 \<or> t = 1"
  by (auto simp: word_le_nat_alt le_Suc_eq word_unat_eq_iff)

lemma offset_bytes:
  assumes "x \<le> (0xFFFFFF :: u32)"
  shows "push_bit 16 (ucast (ucast (drop_bit 16 x) :: byte)) OR push_bit 8 (ucast (ucast (drop_bit 8 x) :: byte)) OR
    ucast (ucast x :: byte) = x"
proof (rule bit_word_eqI)
  fix n :: nat
  assume "n < LENGTH(32)"
  have "unat x < 2 ^ 24" using assms by (simp add: word_le_nat_alt)
  then have "bit x n \<longrightarrow> n < 24" using bit_bound by blast
  then show "bit (push_bit 16 (ucast (ucast (drop_bit 16 x) :: byte)) OR push_bit 8 (ucast (ucast (drop_bit 8 x) :: byte)) OR
      ucast (ucast x :: byte) :: u32) n = bit x n"
    by (cases "n < 8"; cases "n < 16") (auto simp: bit_simps)
qed

text \<open>The fields of a header with some fragment after it, as the depacketizer reads them.\<close>

definition fragment_rest :: "jpeg_frame \<Rightarrow> u32 \<Rightarrow> bytes \<Rightarrow> bytes" where
  "fragment_rest f off fragment = (if off = 0 then [0, 0] @ write_be16 128 @ quantizers f else []) @ fragment"

lemma fragment_header:
  assumes "sendable f" and "off \<le> 0xFFFFFF" and "144 \<le> cap"
  shows "build_rtp_jpeg_fragment_header f off cap @ fragment =
    [0, ucast (drop_bit 16 off), ucast (drop_bit 8 off), ucast off,
     frame_type f OR (if restart_interval f \<noteq> 0 then 0x40 else 0), 255, blocks (frame_width f), blocks (frame_height f)] @
    (if restart_interval f \<noteq> 0 then write_be16 (restart_interval f) @ write_be16 0xFFFF else []) @
    fragment_rest f off fragment"
  using assms
  by (simp add: build_rtp_jpeg_fragment_header_def sendable_def linorder_not_less [symmetric] fragment_rest_def
      blocks_def Let_def)

section \<open>Reassembly\<close>

abbreviation frame_header :: "jpeg_frame \<Rightarrow> bytes" where
  "frame_header f \<equiv> interchange_header (frame_type f) (blocks (frame_width f)) (blocks (frame_height f)) (quantizers f)
     (restart_interval f)"

definition collecting :: "jpeg_frame \<Rightarrow> u32 \<Rightarrow> nat \<Rightarrow> bytes \<Rightarrow> depacketizer \<Rightarrow> bool" where
  "collecting f ts k output p \<longleftrightarrow>
     dp_active p \<and> dp_timestamp p = ts \<and> dp_type_specific p = 0 \<and>
     dp_type p = frame_type f OR (if restart_interval f \<noteq> 0 then 0x40 else 0) \<and> dp_quality p = 255 \<and>
     dp_width_blocks p = blocks (frame_width f) \<and> dp_height_blocks p = blocks (frame_height f) \<and>
     dp_restart_interval p = restart_interval f \<and> dp_header_size p = length (frame_header f) \<and> dp_scan_size p = k \<and>
     k \<le> length (scan f) \<and> length (frame_header f) + length (scan f) + 2 \<le> length output \<and>
     take (length (frame_header f) + k) output = frame_header f @ take k (scan f)"

text \<open>What a fragment from position \<open>k\<close> leads to.\<close>

definition fragment_outcome :: "jpeg_frame \<Rightarrow> u32 \<Rightarrow> nat \<Rightarrow> bool \<Rightarrow> push_result \<times> bytes \<times> nat \<times> depacketizer \<Rightarrow> bool" where
  "fragment_outcome f ts k marker res \<longleftrightarrow>
     (case res of (r, output', n, p') \<Rightarrow>
        if marker then r = COMPLETE \<and> take n output' = frame_header f @ take k (scan f) @ [0xFF, 0xD9] \<and> \<not> dp_active p'
        else r = INCOMPLETE \<and> n = 0 \<and> collecting f ts k output' p')"

lemma fragment_step:
  assumes "collecting f ts k output p" and "unat off = k" and "fragment \<noteq> []"
    and "k + length fragment \<le> length (scan f)" and "take (length fragment) (drop k (scan f)) = fragment"
  shows "fragment_outcome f ts (k + length fragment) marker (take_fragment off fragment marker output p)"
proof -
  let ?at = "length (frame_header f) + k" and ?n = "length fragment"
  let ?o = "blit output ?at fragment"
  have room: "?at + ?n + 2 \<le> length output" using assms(1,4) by (simp add: collecting_def)
  have sc: "take (k + ?n) (scan f) = take k (scan f) @ fragment" using assms(5) by (simp add: take_add)
  have o: "take (?at + ?n) ?o = frame_header f @ take (k + ?n) (scan f)" "length ?o = length output"
    using room assms(1) take_blit [of ?at fragment "output"] sc by (simp_all add: collecting_def)
  have "take (?at + ?n + 2) (blit ?o (?at + ?n) [0xFF, 0xD9]) = frame_header f @ take (k + ?n) (scan f) @ [0xFF, 0xD9]"
    using take_blit [of "?at + ?n" "[0xFF, 0xD9]" ?o] room o by simp
  then show ?thesis
    using assms o room
    by (simp add: take_fragment_def Let_def fragment_outcome_def collecting_def add.assoc linorder_not_less)
qed

lemma push_fields:
  fixes fragment :: bytes
  assumes "sendable f" and "off \<le> 0xFFFFFF" and "144 \<le> cap"
  defines "payload \<equiv> build_rtp_jpeg_fragment_header f off cap @ fragment"
  shows "length payload \<ge> 8" "payload ! 0 = 0" "payload ! 4 = frame_type f OR (if restart_interval f \<noteq> 0 then 0x40 else 0)"
    "push_bit 16 (ucast (payload ! 1)) OR push_bit 8 (ucast (payload ! 2)) OR ucast (payload ! 3) = off"
    "payload ! 5 = 255" "payload ! 6 = blocks (frame_width f)" "payload ! 7 = blocks (frame_height f)"
    "restart_interval f \<noteq> 0 \<Longrightarrow> length payload \<ge> 12"
    "restart_interval f \<noteq> 0 \<Longrightarrow> read_be16 (drop 8 payload) = restart_interval f"
    "drop (if restart_interval f \<noteq> 0 then 12 else 8) payload = fragment_rest f off fragment"
  unfolding payload_def fragment_header [OF assms(1-3)] using offset_bytes [OF assms(2)] by simp_all

lemma type_byte:
  assumes "(t :: byte) \<le> 1"
  shows "((t OR (if b then 0x40 else 0)) AND 0x40 \<noteq> 0) = b"
    "(if b then (t OR (if b then 0x40 else 0)) AND NOT 0x40 else t OR (if b then 0x40 else 0)) = t"
  using type_cases [OF assms] by auto

text \<open>The guards every fragment of a sendable frame passes.\<close>

lemma push_sendable:
  assumes s: "sendable f" and off: "off \<le> 0xFFFFFF" and cap: "144 \<le> cap"
  shows "dp_push (build_rtp_jpeg_fragment_header f off cap @ fragment) marker ts output p =
    (if off = 0
     then (case first_fragment_quantizers 255 (fragment_rest f off fragment) p of
             (None, p1) \<Rightarrow> (DROPPED, output, 0, dp_reset p1)
           | (Some (q, fragment), p1) \<Rightarrow>
               (case start_frame 0 (frame_type f) 255 (blocks (frame_width f)) (blocks (frame_height f)) (restart_interval f) q
                       ts output (dp_reset p1) of
                  (False, output', p2) \<Rightarrow> (DROPPED, output', 0, p2)
                | (True, output', p2) \<Rightarrow> take_fragment off fragment marker output' p2))
     else if \<not> dp_active p \<or> dp_timestamp p \<noteq> ts \<or> dp_type_specific p \<noteq> 0 \<or>
             dp_type p \<noteq> frame_type f OR (if restart_interval f \<noteq> 0 then 0x40 else 0) \<or> dp_quality p \<noteq> 255 \<or>
             dp_width_blocks p \<noteq> blocks (frame_width f) \<or> dp_height_blocks p \<noteq> blocks (frame_height f) \<or>
             dp_restart_interval p \<noteq> restart_interval f \<or> unat off \<noteq> dp_scan_size p
     then (DROPPED, output, 0, dp_reset p)
     else take_fragment off (fragment_rest f off fragment) marker output p)"
proof -
  define pl where "pl = build_rtp_jpeg_fragment_header f off cap @ fragment"
  note h = push_fields [OF s off cap, of fragment, folded pl_def]
  have t: "frame_type f \<le> 1" using s by (simp add: sendable_def)
  have g: "\<not> frame_type f > 1" "blocks (frame_width f) \<noteq> 0" "blocks (frame_height f) \<noteq> 0"
    using s blocks_nonzero by (auto simp: sendable_def)
  have r: "(if restart_interval f \<noteq> 0 then read_be16 (drop 8 pl) else 0) = restart_interval f"
    "(length pl < 8) = False" "(restart_interval f \<noteq> 0 \<and> length pl < 12) = False"
    using h(1,8,9) by auto
  show ?thesis
    unfolding dp_push_def Let_def pl_def [symmetric] h(2-7) type_byte [OF t] h(10) r using g by simp
qed

lemma first_255:
  assumes "sendable f"
  shows "first_fragment_quantizers 255 (fragment_rest f 0 fragment) p = (Some (quantizers f, fragment), p)"
proof -
  have q: "length (quantizers f) = 128" "valid_quantizers (quantizers f)"
    using assms by (simp_all add: sendable_def valid_quantizers_def)
  have "unat (128 :: u16) = 128" by simp
  then show ?thesis using q by (simp add: first_fragment_quantizers_def fragment_rest_def Let_def)
qed

lemma start_sendable:
  assumes "sendable f" and "length (frame_header f) + length (scan f) + 2 \<le> length output"
  shows "\<exists>output' p'. start_frame 0 (frame_type f) 255 (blocks (frame_width f)) (blocks (frame_height f)) (restart_interval f)
      (quantizers f) ts output p = (True, output', p') \<and> length output' = length output \<and> collecting f ts 0 output' p'"
proof -
  let ?w = "blocks (frame_width f)" and ?h = "blocks (frame_height f)"
  have g: "frame_type f \<le> 1" "?w \<noteq> 0" "?h \<noteq> 0" "length (quantizers f) = 128"
    using assms(1) blocks_nonzero by (auto simp: sendable_def valid_quantizers_def)
  obtain r o' where wr: "write_interchange_header (frame_type f) ?w ?h (quantizers f) (restart_interval f) output = (r, o')"
    by fastforce
  have "r = Some (length (frame_header f))" "take (length (frame_header f)) o' = frame_header f" "length o' = length output"
    using write_interchange [OF wr] g assms(2) by (auto simp: linorder_not_less [symmetric] split: option.splits)
  then show ?thesis
    using g assms(2) by (simp add: start_frame_def wr collecting_def linorder_not_less)
qed

lemma push_first_fragment:
  assumes s: "sendable f" and "144 \<le> cap" and room: "length (frame_header f) + length (scan f) + 2 \<le> length output"
    and "fragment \<noteq> []" and "length fragment \<le> length (scan f)" and "take (length fragment) (scan f) = fragment"
  shows "fragment_outcome f ts (length fragment) marker
    (dp_push (build_rtp_jpeg_fragment_header f 0 cap @ fragment) marker ts output p)"
proof -
  note h = push_fields [OF s _ assms(2), of 0 fragment, simplified]
  have g: "frame_type f \<le> 1" "blocks (frame_width f) \<noteq> 0" "blocks (frame_height f) \<noteq> 0"
    using s blocks_nonzero by (auto simp: sendable_def)
  obtain o' p' where st: "start_frame 0 (frame_type f) 255 (blocks (frame_width f)) (blocks (frame_height f)) (restart_interval f)
      (quantizers f) ts output (dp_reset p) = (True, o', p')" "collecting f ts 0 o' p'"
    using start_sendable [OF s room] by blast
  have "dp_push (build_rtp_jpeg_fragment_header f 0 cap @ fragment) marker ts output p = take_fragment 0 fragment marker o' p'"
    using push_sendable [OF s _ assms(2), of 0] first_255 [OF s, of fragment] st(1) by simp
  then show ?thesis using fragment_step [OF st(2), of 0 fragment marker] assms by simp
qed

lemma push_next_fragment:
  assumes s: "sendable f" and cap: "144 \<le> cap" and c: "collecting f ts k output p" and k: "0 < k" "k \<le> 0xFFFFFF"
    and "fragment \<noteq> []" and "k + length fragment \<le> length (scan f)" and "take (length fragment) (drop k (scan f)) = fragment"
  shows "fragment_outcome f ts (k + length fragment) marker
    (dp_push (build_rtp_jpeg_fragment_header f (of_nat k) cap @ fragment) marker ts output p)"
proof -
  have u: "unat (of_nat k :: u32) = k" using k by (intro unat_of_nat_small) simp
  then have "(of_nat k :: u32) \<le> 0xFFFFFF" "(of_nat k :: u32) \<noteq> 0" using k by (auto simp: word_le_nat_alt simp flip: unat_eq_0)
  then have "dp_push (build_rtp_jpeg_fragment_header f (of_nat k) cap @ fragment) marker ts output p =
      take_fragment (of_nat k) fragment marker output p"
    using push_sendable [OF s _ cap, of "of_nat k"] c u by (simp add: collecting_def fragment_rest_def)
  then show ?thesis using fragment_step [OF c u] assms by simp
qed

section \<open>Any cut into fragments\<close>

fun fragment_packets :: "jpeg_frame \<Rightarrow> nat \<Rightarrow> nat \<Rightarrow> bytes list \<Rightarrow> (bytes \<times> bool) list" where
  "fragment_packets f cap off [] = []"
| "fragment_packets f cap off (c # cs) =
     (build_rtp_jpeg_fragment_header f (of_nat off) cap @ c, cs = []) # fragment_packets f cap (off + length c) cs"

text \<open>The depacketizer over packets of one timestamp; the outcome is that of the last one.\<close>

fun push_all :: "u32 \<Rightarrow> (bytes \<times> bool) list \<Rightarrow> bytes \<Rightarrow> depacketizer \<Rightarrow> push_result \<times> bytes \<times> nat \<times> depacketizer" where
  "push_all ts [] output p = (INCOMPLETE, output, 0, p)"
| "push_all ts [(payload, marker)] output p = dp_push payload marker ts output p"
| "push_all ts ((payload, marker) # ps) output p =
     (case dp_push payload marker ts output p of (_, output', _, p') \<Rightarrow> push_all ts ps output' p')"

lemma push_all_cons:
  "ps \<noteq> [] \<Longrightarrow> push_all ts ((payload, marker) # ps) output p =
     (case dp_push payload marker ts output p of (_, output', _, p') \<Rightarrow> push_all ts ps output' p')"
  by (cases ps) auto

lemma fragment_packets_nonempty [simp]: "fragment_packets f cap off cs = [] \<longleftrightarrow> cs = []"
  by (cases cs) auto

lemma reassemble_rest:
  assumes "sendable f" and "144 \<le> cap" and "length (scan f) \<le> 0x1000000"
    and "collecting f ts k output p" and "0 < k" and "cs \<noteq> []" and "[] \<notin> set cs" and "concat cs = drop k (scan f)"
  shows "case push_all ts (fragment_packets f cap k cs) output p of (r, output', n, p') \<Rightarrow>
     r = COMPLETE \<and> take n output' = frame_header f @ scan f @ [0xFF, 0xD9]"
  using assms(4-8)
proof (induction cs arbitrary: k "output" p)
  case (Cons c cs)
  have k: "k < length (scan f)" using Cons.prems by (cases "k < length (scan f)") auto
  have l: "length (concat (c # cs)) = length (scan f) - k" using Cons.prems by simp
  have c: "c \<noteq> []" "k + length c \<le> length (scan f)" "take (length c) (drop k (scan f)) = c" "k \<le> 0xFFFFFF"
    using Cons.prems l k assms(3) by (auto simp flip: Cons.prems(5))
  note out = push_next_fragment [OF assms(1,2) Cons.prems(1,2) c(4,1,2,3)]
  show ?case
  proof (cases "cs = []")
    case True
    then have "k + length c = length (scan f)" using l k by simp
    then show ?thesis using out [of True] True by (auto simp: fragment_outcome_def)
  next
    case False
    obtain r o' n p' where r: "dp_push (build_rtp_jpeg_fragment_header f (of_nat k) cap @ c) False ts output p = (r, o', n, p')"
      by (metis surj_pair)
    have "concat cs = drop (k + length c) (scan f)"
      using Cons.prems(5) by (metis append_eq_conv_conj concat.simps(2) drop_drop add.commute)
    then show ?thesis
      using Cons.IH [of "k + length c" o' p'] Cons.prems out [of False] False
      by (simp add: push_all_cons r fragment_outcome_def)
  qed
qed simp

lemma reassemble:
  assumes "sendable f" and "144 \<le> cap" and "length (scan f) \<le> 0x1000000"
    and "length (frame_header f) + length (scan f) + 2 \<le> length output" and "[] \<notin> set cs" and "concat cs = scan f"
  shows "case push_all ts (fragment_packets f cap 0 cs) output p of (r, output', n, p') \<Rightarrow>
     r = COMPLETE \<and> take n output' = frame_header f @ scan f @ [0xFF, 0xD9]"
proof (cases cs)
  case Nil
  then show ?thesis using assms by (simp add: sendable_def)
next
  case (Cons c cs')
  have c: "c \<noteq> []" "length c \<le> length (scan f)" "take (length c) (scan f) = c" "concat cs' = drop (length c) (scan f)"
    using assms(5,6) Cons by (auto simp flip: assms(6))
  note out = push_first_fragment [OF assms(1,2,4) c(1-3)]
  show ?thesis
  proof (cases "cs' = []")
    case True
    then have "length c = length (scan f)" using assms(6) Cons by simp
    then show ?thesis using out [of ts True p] True Cons by (auto simp: fragment_outcome_def)
  next
    case False
    obtain r o' n p' where r: "dp_push (build_rtp_jpeg_fragment_header f 0 cap @ c) False ts output p = (r, o', n, p')"
      by (metis surj_pair)
    then have "collecting f ts (length c) o' p'" using out [of ts False p] by (simp add: fragment_outcome_def)
    then show ?thesis
      using reassemble_rest [OF assms(1-3), of ts "length c" o' p' cs'] c False assms(5) Cons
      by (simp add: push_all_cons r)
  qed
qed

section \<open>Sessions\<close>

datatype dp_event = JpegPacket bytes bool u32 | FrameReset | SessionReset

text \<open>The images a session completes, and the buffer and the depacketizer after it.\<close>

fun dp_run :: "dp_event list \<Rightarrow> bytes \<Rightarrow> depacketizer \<Rightarrow> bytes list \<times> bytes \<times> depacketizer" where
  "dp_run [] output p = ([], output, p)"
| "dp_run (FrameReset # es) output p = dp_run es output (dp_reset p)"
| "dp_run (SessionReset # es) output p = dp_run es output (reset_session p)"
| "dp_run (JpegPacket payload marker ts # es) output p =
     (case dp_push payload marker ts output p of
        (r, output', n, p') \<Rightarrow>
          (case dp_run es output' p' of
             (imgs, output'', p'') \<Rightarrow> (if r = COMPLETE then take n output' # imgs else imgs, output'', p'')))"

lemma session_reset_inv: "cache_inv p \<or> dp_cache p = None \<or> (\<exists>c. dp_cache p = Some c \<and> length c \<ge> kCachedQualityCount * 128) \<Longrightarrow>
    dp_inv output (reset_session p)"
proof -
  assume c: "cache_inv p \<or> dp_cache p = None \<or> (\<exists>c. dp_cache p = Some c \<and> length c \<ge> kCachedQualityCount * 128)"
  have "(replicate 16 0 :: bytes) ! (cache_index k div 8) AND cache_bit k = 0" if "128 \<le> k" "k \<le> 254" for k
    using cache_index_less [OF that] by (simp add: nth_replicate)
  then have "find_cached_quantizers (reset_session p) k = None" for k
    by (auto simp: find_cached_quantizers_def reset_session_def linorder_not_less split: option.splits)
  then show ?thesis
    using c by (auto simp: dp_inv_def cache_inv_def reset_session_def frame_inv_def)
qed

lemma dp_run_inv:
  assumes "dp_inv output p" and "dp_run es output p = (imgs, output', p')"
  shows "dp_inv output' p' \<and> length output' = length output \<and> list_all (\<lambda>i. decodable i \<and> length i \<le> length output) imgs \<and>
    (SessionReset \<notin> set es \<longrightarrow> (\<forall>k t. find_cached_quantizers p k = Some t \<longrightarrow> find_cached_quantizers p' k = Some t))"
  using assms
proof (induction es arbitrary: "output" p imgs)
  case (Cons e es)
  show ?case
  proof (cases e)
    case (JpegPacket payload marker ts)
    obtain r o1 n p1 where st: "dp_push payload marker ts output p = (r, o1, n, p1)" by (metis surj_pair)
    obtain imgs1 where run: "dp_run es o1 p1 = (imgs1, output', p')" "imgs = (if r = COMPLETE then take n o1 # imgs1 else imgs1)"
      using Cons.prems(2) JpegPacket st by (auto split: prod.splits)
    show ?thesis
      using dp_push_inv [OF st Cons.prems(1)] Cons.IH [of o1 p1 imgs1] run by (auto simp: JpegPacket)
  next
    case FrameReset
    then show ?thesis using Cons.IH [of "output" "dp_reset p" imgs] Cons.prems by (auto simp: dp_inv_def)
  next
    case SessionReset
    have "dp_inv output (reset_session p)"
      using Cons.prems(1) by (intro session_reset_inv) (simp add: dp_inv_def)
    then show ?thesis using Cons.IH [of "output" "reset_session p" imgs] Cons.prems SessionReset by simp
  qed
qed simp

lemma fresh_session: "dp_inv output (set_quantization_cache storage False new_depacketizer)"
proof (cases "\<exists>c. storage = Some c \<and> length c \<ge> kCachedQualityCount * 128")
  case True
  then obtain c where c: "storage = Some c" "length c \<ge> kCachedQualityCount * 128" by blast
  have "dp_cache new_depacketizer = None" by (simp add: new_depacketizer_def)
  then have "set_quantization_cache storage False new_depacketizer = reset_session (new_depacketizer\<lparr>dp_cache := Some c\<rparr>)"
    using c by (simp add: set_quantization_cache_def)
  moreover have "dp_inv output (reset_session (new_depacketizer\<lparr>dp_cache := Some c\<rparr>))"
    by (rule session_reset_inv) (simp add: c)
  ultimately show ?thesis by simp
next
  case False
  then have "set_quantization_cache storage False new_depacketizer = new_depacketizer"
    by (auto simp: set_quantization_cache_def new_depacketizer_def Let_def split: option.split)
  then show ?thesis
    by (simp add: dp_inv_def frame_inv_def cache_inv_def new_depacketizer_def find_cached_quantizers_def)
qed

text \<open>
  C32: A JPEG session is safe for the decoder. Whatever packets and resets a depacketizer with any
  cache storage sees, each image it completes lies in the output buffer and is a baseline frame the parser
  accepts, with no zero among its quantizers; and a quantization table once cached under a quality value
  stays what it is until the session is reset.
\<close>

theorem jpeg_session_is_safe:
  "case dp_run before buffer (set_quantization_cache storage False new_depacketizer) of (imgs, output1, p1) \<Rightarrow>
     list_all (\<lambda>i. decodable i \<and> length i \<le> length buffer) imgs \<and>
     (SessionReset \<notin> set after \<longrightarrow>
        (\<forall>k t. find_cached_quantizers p1 k = Some t \<longrightarrow>
           valid_quantizers t \<and> find_cached_quantizers (snd (snd (dp_run after output1 p1))) k = Some t))"
proof -
  obtain imgs o1 p1 where b: "dp_run before buffer (set_quantization_cache storage False new_depacketizer) = (imgs, o1, p1)"
    by (metis surj_pair)
  obtain imgs2 o2 p2 where a: "dp_run after o1 p1 = (imgs2, o2, p2)" by (metis surj_pair)
  note i = dp_run_inv [OF fresh_session b]
  show ?thesis
    using i dp_run_inv [OF _ a] by (auto simp: b a dp_inv_def cache_inv_def)
qed

text \<open>One packet that names quality 200 and carries its table.\<close>

definition table_packet :: bytes where
  "table_packet = [0, 0, 0, 0, 0, 200, 1, 1] @ [0, 0, 0, 128] @ replicate 128 1 @ [7]"

definition sample_cache :: bytes where
  "sample_cache = replicate (kCachedQualityCount * 128) 0"

lemma sample_session:
  "set_quantization_cache (Some sample_cache) False new_depacketizer = reset_session (new_depacketizer\<lparr>dp_cache := Some sample_cache\<rparr>)"
proof -
  have "dp_cache new_depacketizer = None" by (simp add: new_depacketizer_def)
  moreover have "length sample_cache = kCachedQualityCount * 128" by (simp add: sample_cache_def)
  ultimately show ?thesis by (simp add: set_quantization_cache_def)
qed

lemma table_packet_cached:
  assumes "dp_push table_packet True ts output (set_quantization_cache (Some sample_cache) False new_depacketizer) = (r, o1, n, p1)"
  shows "find_cached_quantizers p1 200 = Some (replicate 128 1)"
proof -
  define p0 where "p0 = set_quantization_cache (Some sample_cache) False new_depacketizer"
  have v: "valid_quantizers (replicate 128 1)" by (simp add: valid_quantizers_def list_all_iff)
  have c: "dp_cache p0 = Some sample_cache" "dp_valid p0 = replicate 16 0" "dp_timestamp p0 = 0"
    unfolding p0_def sample_session by (simp_all add: reset_session_def dp_reset_def)
  obtain p2 where p2: "cache_or_validate_quantizers p0 200 (replicate 128 1) = (True, p2)"
    by (simp add: cache_or_validate_quantizers_def c cache_index_def Let_def)
  have find: "find_cached_quantizers p2 200 = Some (replicate 128 1)"
    using cache_update [OF p2] c by (simp add: sample_cache_def)
  have f: "first_fragment_quantizers 200 ([0, 0, 0, 128] @ replicate 128 1 @ [7]) p0 = (Some (replicate 128 1, [7]), p2)"
    using v p2 by (simp add: first_fragment_quantizers_def read_be16_def Let_def)
  have h: "length table_packet \<ge> 8" "table_packet ! 0 = 0" "table_packet ! 1 = 0" "table_packet ! 2 = 0" "table_packet ! 3 = 0"
    "table_packet ! 4 = 0" "table_packet ! 5 = 200" "table_packet ! 6 = 1" "table_packet ! 7 = 1"
    "drop 8 table_packet = [0, 0, 0, 128] @ replicate 128 1 @ [7]"
    by (simp_all add: table_packet_def)
  have z: "push_bit 16 (ucast (0 :: byte)) OR push_bit 8 (ucast (0 :: byte)) OR ucast (0 :: byte) = (0 :: u32)" by simp
  have push: "dp_push table_packet True ts output p0 =
      (case start_frame 0 0 200 1 1 0 (replicate 128 1) ts output (dp_reset p2) of
         (False, o', p3) \<Rightarrow> (DROPPED, o', 0, p3)
       | (True, o', p3) \<Rightarrow> take_fragment 0 [7] True o' p3)"
    unfolding dp_push_def Let_def h(2-9) z using h(1) f by (simp add: h(10) linorder_not_less [symmetric] del: append.simps)
  obtain ok o' p3 where st: "start_frame 0 0 200 1 1 0 (replicate 128 1) ts output (dp_reset p2) = (ok, o', p3)"
    by (metis surj_pair)
  have p3: "find_cached_quantizers p3 200 = Some (replicate 128 1)"
    using start_frame_inv [OF st v] cache_fields(1) [of p3 "dp_reset p2" 200] find by simp
  have frag: "frame_inv o' p3 \<Longrightarrow> take_fragment 0 [7] True o' p3 = (r, o1, n, p1) \<Longrightarrow>
      find_cached_quantizers p1 200 = Some (replicate 128 1)"
    using take_fragment_inv [of 0 "[7]" True o' p3 r o1 n p1] cache_fields(1) [of p1 p3 200] p3 by simp
  show ?thesis
    using assms start_frame_inv [OF st v] p3 frag by (cases ok) (auto simp: p0_def [symmetric] push st)
qed

theorem jpeg_session_is_safe_witness:
  "case dp_run [JpegPacket table_packet True 5] (replicate 900 0)
       (set_quantization_cache (Some sample_cache) False new_depacketizer) of (imgs, output1, p1) \<Rightarrow>
     find_cached_quantizers (snd (snd (dp_run [FrameReset] output1 p1))) 200 = Some (replicate 128 1)"
proof -
  obtain r o1 n p1 where st: "dp_push table_packet True 5 (replicate 900 0)
      (set_quantization_cache (Some sample_cache) False new_depacketizer) = (r, o1, n, p1)" by (metis surj_pair)
  have "find_cached_quantizers p1 200 = Some (replicate 128 1)" by (rule table_packet_cached [OF st])
  then show ?thesis
    using jpeg_session_is_safe [where before = "[JpegPacket table_packet True 5]" and buffer = "replicate 900 0" and
        storage = "Some sample_cache" and after = "[FrameReset]"]
    by (simp add: st del: dp_run.simps(2))
qed

end
