(* ===== verification/VideoSendProps.thy ===== *)
theory VideoSendProps
  imports VideoReceive VideoProps RtpJpegFrames
begin

text \<open>
  What the video sender puts on the wire: the fields of a packet read back, and the packets of a
  whole access unit as a list of payloads with consecutive sequence numbers.
\<close>

section \<open>Packets read back\<close>

lemma read_write_be32 [simp]: "read_be32 (write_be32 v @ r) = v"
proof (rule bit_word_eqI)
  fix n :: nat
  assume "n < LENGTH(32)"
  then show "bit (read_be32 (write_be32 v @ r)) n = bit v n"
    by (cases "n < 8"; cases "n < 16"; cases "n < 24") (auto simp: read_be32_def write_be32_def bit_simps)
qed

lemma read_write_be32_end [simp]: "read_be32 (write_be32 v) = v"
  using read_write_be32 [of v "[]"] by simp

lemma length_write_be32 [simp]: "length (write_be32 v) = 4"
  by (simp add: write_be32_def)

lemma marker_byte:
  assumes "(pt :: byte) \<le> 127"
  shows "((pt OR (if m then 0x80 else 0)) AND 0x7F) = pt" "((pt OR (if m then 0x80 else 0)) AND 0x80 \<noteq> 0) = m"
proof -
  have low: "bit pt n \<longrightarrow> n < 7" for n
    using assms bit_bound [of pt 7 n] by (simp add: word_le_nat_alt)
  have b7f: "bit (0x7F :: byte) n \<longleftrightarrow> n < 7" for n
    using bit_mask_iff [of 7 n, where 'a = "8 word"] by (auto simp: mask_numeral)
  have b80: "bit (0x80 :: byte) n \<longleftrightarrow> n = 7" for n
    using bit_exp_iff [of 7 n, where 'a = "8 word"] by auto
  show "((pt OR (if m then 0x80 else 0)) AND 0x7F) = pt"
  proof (rule bit_word_eqI)
    fix n
    show "bit ((pt OR (if m then 0x80 else 0)) AND 0x7F) n = bit pt n"
      using low [of n] by (cases m) (auto simp: bit_and_iff bit_or_iff b7f b80 simp del: bit_numeral_word_iff)
  qed
  have "(x AND 0x80 \<noteq> 0) = bit x 7" for x :: byte
    using and_exp_eq_0_iff_not_bit [of x 7] by simp
  moreover have "\<not> bit pt 7" using low [of 7] by auto
  ultimately show "((pt OR (if m then 0x80 else 0)) AND 0x80 \<noteq> 0) = m"
    by (simp add: bit_or_iff b80)
qed

lemma packet_read_back:
  fixes payload :: bytes and ssrc ts :: u32 and sq :: u16 and m :: bool
  assumes "pt \<le> 127"
  defines "packet \<equiv> rtp_packet pt m sq ts ssrc payload"
  shows "length packet = 12 + length payload" "drop_bit 6 (packet ! 0) = 2"
    "rtp_payload_bounds packet = Some (12, length payload)" "drop 12 packet = payload"
    "packet_payload_type packet = pt" "packet_marker packet = m" "packet_sequence packet = sq"
    "read_be32 (drop 4 packet) = ts" "read_be32 (drop 8 packet) = ssrc"
  using marker_byte [OF assms(1)]
  by (simp_all add: packet_def rtp_packet_def rtp_payload_bounds_def packet_payload_type_def packet_marker_def
      packet_sequence_def Let_def)

section \<open>Sending\<close>

text \<open>The session can send, and what it takes to write a packet.\<close>

definition can_send :: "video_session \<Rightarrow> bool" where
  "can_send s \<longleftrightarrow> send_enabled s \<and> running s \<and> sockets_open s \<and> max_payload s + 12 \<le> kMaxRtpPacketBytes"

definition same_sender :: "video_session \<Rightarrow> video_session \<Rightarrow> bool" where
  "same_sender s t \<longleftrightarrow>
     capability t = capability s \<and> max_payload t = max_payload s \<and> send_enabled t = send_enabled s \<and> running t = running s \<and>
     sockets_open t = sockets_open s \<and> peer_ip t = peer_ip s \<and> peer_rtp_port t = peer_rtp_port s \<and>
     latched_rtp_port t = latched_rtp_port s \<and> tx_timestamp_offset t = tx_timestamp_offset s \<and> tx_ssrc t = tx_ssrc s"

fun numbered :: "video_session \<Rightarrow> u32 \<Rightarrow> u16 \<Rightarrow> (bytes \<times> bool) list \<Rightarrow> bytes list" where
  "numbered s ts sq [] = []"
| "numbered s ts sq ((p, m) # ps) =
     rtp_packet (video_payload_type (capability s)) m sq (ts + tx_timestamp_offset s) (tx_ssrc s) p # numbered s ts (sq + 1) ps"

definition rtp_port_of :: "video_session \<Rightarrow> u16" where
  "rtp_port_of s = (if latched_rtp_port s \<noteq> 0 then latched_rtp_port s else peer_rtp_port s)"

definition sent :: "video_session \<Rightarrow> u32 \<Rightarrow> (bytes \<times> bool) list \<Rightarrow> video_session \<Rightarrow> bool" where
  "sent s ts ps t \<longleftrightarrow>
     same_sender s t \<and> tx_sequence t = tx_sequence s + of_nat (length ps) \<and>
     dropped_units t = dropped_units s \<and>
     effects t = effects s @ map (SendRtp (peer_ip s) (rtp_port_of s)) (numbered s ts (tx_sequence s) ps)"

definition all_taken :: "video_env \<Rightarrow> bool" where
  "all_taken env \<longleftrightarrow> (\<forall>n. socket_takes (attempts env n))"

lemma numbered_append: "numbered s ts sq (ps @ qs) = numbered s ts sq ps @ numbered s ts (sq + of_nat (length ps)) qs"
  by (induction ps arbitrary: sq) (auto simp: algebra_simps)

lemma numbered_same: "same_sender s t \<Longrightarrow> numbered t ts sq ps = numbered s ts sq ps"
  by (induction ps arbitrary: sq) (auto simp: same_sender_def)

lemma sent_refl: "sent s ts [] s"
  by (simp add: sent_def same_sender_def)

lemma sent_trans: "sent s ts ps t \<Longrightarrow> sent t ts qs u \<Longrightarrow> sent s ts (ps @ qs) u"
  using numbered_same [of s t ts] by (auto simp: sent_def numbered_append same_sender_def rtp_port_of_def)

lemma sent_can_send: "sent s ts ps t \<Longrightarrow> can_send t = can_send s"
  by (simp add: sent_def same_sender_def can_send_def)

lemma send_payload_ok:
  assumes "can_send s" and "all_taken env" and "p \<noteq> []" and "length p \<le> max_payload s"
  shows "\<exists>t. send_rtp_payload env p m ts s = (True, t) \<and> sent s ts [(p, m)] t"
  using assms
  by (simp add: send_rtp_payload_def can_send_def all_taken_def Let_def sent_def same_sender_def emit_def rtp_port_of_def)

subsection \<open>H.264\<close>

function fu_payloads :: "nat \<Rightarrow> byte \<Rightarrow> bool \<Rightarrow> bool \<Rightarrow> bytes \<Rightarrow> (bytes \<times> bool) list" where
  "fu_payloads limit header final first rest =
     (if rest = [] then []
      else let room = max 1 (limit - 2); ends = (length rest \<le> room) in
           ([(header AND 0xE0) OR 28, (header AND 0x1F) OR (if first then 0x80 else 0) OR (if ends then 0x40 else 0)] @
              take room rest, final \<and> ends) # fu_payloads limit header final False (drop room rest))"
  by pat_completeness auto
termination
  by (relation "measure (\<lambda>(limit, header, final, first, rest). length rest)") auto

declare fu_payloads.simps [simp del]

lemma fu_payloads_Nil [simp]: "fu_payloads limit header final first [] = []"
  by (simp add: fu_payloads.simps)

definition unit_payloads :: "nat \<Rightarrow> bytes \<Rightarrow> bool \<Rightarrow> (bytes \<times> bool) list" where
  "unit_payloads limit nal final =
     (if length nal \<le> limit then [(nal, final)] else fu_payloads limit (hd nal) final True (tl nal))"

fun h264_payloads :: "nat \<Rightarrow> bytes list \<Rightarrow> (bytes \<times> bool) list" where
  "h264_payloads limit [] = []"
| "h264_payloads limit (nal # nals) = unit_payloads limit nal (nals = []) @ h264_payloads limit nals"

lemma send_fu_ok:
  assumes "can_send s" and "all_taken env" and "3 \<le> max_payload s"
  shows "\<exists>t. send_fu_fragments env (max_payload s) header final ts first rest s = (True, t) \<and>
    sent s ts (fu_payloads (max_payload s) header final first rest) t"
  using assms(1,3)
proof (induction rest arbitrary: first s rule: length_induct)
  case (1 rest)
  show ?case
  proof (cases "rest = []")
    case True
    then show ?thesis using sent_refl by (simp add: send_fu_fragments.simps)
  next
    case False
    let ?m = "max_payload s" and ?room = "max 1 (max_payload s - 2)"
    let ?ends = "length rest \<le> ?room"
    let ?p = "[(header AND 0xE0) OR 28, (header AND 0x1F) OR (if first then 0x80 else 0) OR (if ?ends then 0x40 else 0)] @ take ?room rest"
    have p: "?p \<noteq> []" "length ?p \<le> ?m" using 1(3) by auto
    obtain t where t: "send_rtp_payload env ?p (final \<and> ?ends) ts s = (True, t)" "sent s ts [(?p, final \<and> ?ends)] t"
      using send_payload_ok [OF 1(2) assms(2) p] by blast
    have m: "max_payload t = ?m" using t(2) by (simp add: sent_def same_sender_def)
    have shorter: "length (drop ?room rest) < length rest" using False by simp
    obtain u where u: "send_fu_fragments env ?m header final ts False (drop ?room rest) t = (True, u)"
      "sent t ts (fu_payloads ?m header final False (drop ?room rest)) u"
      using 1(1) shorter sent_can_send [OF t(2)] 1(2,3) m by fastforce
    have "fu_payloads ?m header final first rest = [(?p, final \<and> ?ends)] @ fu_payloads ?m header final False (drop ?room rest)"
      using False by (subst fu_payloads.simps) (simp add: Let_def)
    then show ?thesis
      using False t(1) u(1) sent_trans [OF t(2) u(2)] by (subst send_fu_fragments.simps) (simp add: Let_def)
  qed
qed

lemma send_nal_units_step:
  "next_annex_b_nal d = Some (nal, rest) \<Longrightarrow>
   send_nal_units env ts any d s =
     (let final = (next_annex_b_nal rest = None) in
      if length nal \<le> max_payload s
      then (case send_rtp_payload env nal final ts s of
              (False, s1) \<Rightarrow> fail_access_unit s1
            | (True, s1) \<Rightarrow> send_nal_units env ts True rest s1)
      else if length nal < 2 \<or> max_payload s \<le> 2 then fail_access_unit s
      else (case send_fu_fragments env (max_payload s) (hd nal) final ts True (tl nal) s of
              (False, s1) \<Rightarrow> fail_access_unit s1
            | (True, s1) \<Rightarrow> send_nal_units env ts True rest s1))"
  by (subst send_nal_units.simps) simp

text \<open>A whole access unit, whatever start codes the encoder used.\<close>

lemma send_units_ok:
  assumes "can_send s" and "all_taken env" and "3 \<le> max_payload s" and "well_formed_units us" and "us \<noteq> [] \<or> any"
  shows "\<exists>t. send_nal_units env ts any (stream_of us) s = t\<lparr>tx_units_ok := tx_units_ok t + 1\<rparr> \<and>
    sent s ts (h264_payloads (max_payload s) (map snd us)) t"
  using assms(1,3-)
proof (induction us arbitrary: s any)
  case Nil
  have "next_annex_b_nal (stream_of []) = None" by (simp add: stream_of_def next_annex_b_nal_def)
  then show ?case using Nil sent_refl by (subst send_nal_units.simps) auto
next
  case (Cons x us)
  obtain p nal where x: "x = (p, nal)" by fastforce
  have nx: "next_annex_b_nal (stream_of (x # us)) = Some (nal, stream_of us)"
    using next_unit [of p nal us] Cons.prems(3) by (auto simp: x stream_of_def)
  have last: "(next_annex_b_nal (stream_of us) = None) = (us = [])"
  proof (cases us)
    case Nil
    then show ?thesis by (simp add: stream_of_def next_annex_b_nal_def)
  next
    case (Cons y ys)
    then show ?thesis using next_unit [of "fst y" "snd y" ys] Cons.prems(3) \<open>us = y # ys\<close>
      by (cases y) (auto simp: stream_of_def)
  qed
  have nal: "nal \<noteq> []" using Cons.prems(3) by (auto simp: x nal_unit_def)
  obtain t where t: "sent s ts (unit_payloads (max_payload s) nal (us = [])) t"
    "send_nal_units env ts any (stream_of (x # us)) s = send_nal_units env ts True (stream_of us) t"
  proof (cases "length nal \<le> max_payload s")
    case True
    then obtain t where "send_rtp_payload env nal (us = []) ts s = (True, t)" "sent s ts [(nal, us = [])] t"
      using send_payload_ok [OF Cons.prems(1) assms(2) nal] by blast
    then show ?thesis using True last
      by (intro that [of t]) (simp_all add: unit_payloads_def send_nal_units_step [OF nx] Let_def)
  next
    case False
    then have g: "(length nal \<le> max_payload s) = False" "(length nal < 2 \<or> max_payload s \<le> 2) = False"
      using Cons.prems(2) by auto
    obtain t where t: "send_fu_fragments env (max_payload s) (hd nal) (us = []) ts True (tl nal) s = (True, t)"
      "sent s ts (fu_payloads (max_payload s) (hd nal) (us = []) True (tl nal)) t"
      using send_fu_ok [OF Cons.prems(1) assms(2) Cons.prems(2)] by blast
    show ?thesis
    proof (rule that [of t])
      show "sent s ts (unit_payloads (max_payload s) nal (us = [])) t"
        unfolding unit_payloads_def g if_False by (rule t(2))
      show "send_nal_units env ts any (stream_of (x # us)) s = send_nal_units env ts True (stream_of us) t"
        by (simp only: send_nal_units_step [OF nx] Let_def last g if_False t(1) prod.case bool.case)
    qed
  qed
  have m: "max_payload t = max_payload s" using t(1) by (simp add: sent_def same_sender_def)
  have wf: "well_formed_units us" and ct: "can_send t" "3 \<le> max_payload t"
    using Cons.prems sent_can_send [OF t(1)] m by auto
  obtain u where u: "send_nal_units env ts True (stream_of us) t = u\<lparr>tx_units_ok := tx_units_ok u + 1\<rparr>"
    "sent t ts (h264_payloads (max_payload s) (map snd us)) u"
    using Cons.IH [OF ct wf, of True] unfolding m by blast
  have "h264_payloads (max_payload s) (map snd (x # us)) =
      unit_payloads (max_payload s) nal (us = []) @ h264_payloads (max_payload s) (map snd us)"
    by (simp add: x)
  then show ?case unfolding t(2) u(1) using sent_trans [OF t(1) u(2)] by metis
qed

end
