(* ===== verification/VideoWireProps.thy ===== *)
theory VideoWireProps
  imports VideoSendProps
begin

text \<open>
  An access unit over the wire: the packets of the sender, in order and from the expected source, are
  put together by the receiver to the access unit that was sent.
\<close>

section \<open>A datagram of the expected source\<close>

text \<open>The address, port, payload type and source identifier of the peer's stream.\<close>

record link =
  link_ip :: u32
  link_port :: u16
  link_pt :: byte
  link_ssrc :: u32

definition listening :: "link \<Rightarrow> u16 \<Rightarrow> video_session \<Rightarrow> bool" where
  "listening k sq s \<longleftrightarrow>
     receive_enabled s \<and> video_payload_type (capability s) = link_pt k \<and> link_pt k \<le> 127 \<and> peer_ip s = link_ip k \<and>
     (remote_ssrc_latched s \<longrightarrow> remote_ssrc s = link_ssrc k) \<and> (sequence_valid s \<longrightarrow> expected_sequence s = sq) \<and>
     reassembly_slot s \<noteq> None"

definition link_packet :: "link \<Rightarrow> u32 \<Rightarrow> u16 \<Rightarrow> bytes \<times> bool \<Rightarrow> bytes" where
  "link_packet k ts sq p = rtp_packet (link_pt k) (snd p) sq ts (link_ssrc k) (fst p)"

text \<open>What a packet whose payload was accepted does besides.\<close>

definition accepted_packet :: "link \<Rightarrow> u16 \<Rightarrow> bool \<Rightarrow> video_session \<Rightarrow> video_session" where
  "accepted_packet k sq latched s =
     (let s1 = s\<lparr>expected_sequence := sq + 1, sequence_valid := True, rx_packets := rx_packets s + 1\<rparr>
      in (if latched then s1 else s1\<lparr>remote_ssrc := link_ssrc k, remote_ssrc_latched := True\<rparr>)\<lparr>latched_rtp_port := link_port k\<rparr>)"

lemma datagram_step:
  assumes l: "listening k sq s" and p: "p \<noteq> []"
  shows "rtp_datagram env (link_ip k) (link_port k) (link_packet k ts sq (p, m)) s =
    (case (if backend s = JpegBackend then handle_jpeg_payload env p m ts s else handle_h264_payload env p m ts False s) of
       (False, t) \<Rightarrow> reset_reassembly t
     | (True, t) \<Rightarrow> accepted_packet k sq (remote_ssrc_latched s) t)"
proof -
  define q where "q = link_packet k ts sq (p, m)"
  have pt: "link_pt k \<le> 127" using l by (simp add: listening_def)
  note f = packet_read_back [OF pt, of m sq ts "link_ssrc k" p, folded link_packet_def [of k ts sq "(p, m)", simplified], folded q_def]
  have h: "(\<not> receive_enabled s \<or> length q < 12 \<or> drop_bit 6 (q ! 0) \<noteq> 2) = False"
    "(length q < 12 \<or> drop_bit 6 (q ! 0) \<noteq> 2 \<or> link_ip k \<noteq> peer_ip s) = False"
    "(link_pt k \<noteq> video_payload_type (capability s)) = False" "(link_pt k \<noteq> video_payload_type (capability s) \<or> length p = 0) = False"
    "(remote_ssrc_latched s \<and> link_ssrc k \<noteq> remote_ssrc s) = False" "(sequence_valid s \<and> sq \<noteq> expected_sequence s) = False"
    using f(1,2) l p by (auto simp: listening_def)
  have a: "acquire_slot s = (True, s)" using l by (simp add: acquire_slot_def listening_def)
  have d: "damaged_if (backend s = JpegBackend \<and> False) s = s" by (simp add: damaged_if_def)
  obtain ok t where r: "(if backend s = JpegBackend then handle_jpeg_payload env p m ts s
      else handle_h264_payload env p m ts False s) = (ok, t)" by fastforce
  have hp: "handle_rtp_packet env q s =
    (if ok then (True, t\<lparr>expected_sequence := sq + 1, sequence_valid := True, rx_packets := rx_packets t + 1\<rparr>)
     else (False, reset_reassembly t))"
    unfolding handle_rtp_packet_def h if_False f(3-8) option.case prod.case a bool.case Let_def d take_all [OF order_refl] r
    using p by simp
  show ?thesis
    unfolding q_def [symmetric] rtp_datagram_def h if_False Let_def f(5,9) hp r
    by (cases ok) (simp_all add: accepted_packet_def Let_def del: if_split split: if_split)
qed

lemma accepted_packet_fields [simp]:
  "backend (accepted_packet k sq b s) = backend s" "reassembly (accepted_packet k sq b s) = reassembly s"
  "reassembly_size (accepted_packet k sq b s) = reassembly_size s"
  "reassembly_timestamp (accepted_packet k sq b s) = reassembly_timestamp s"
  "reassembly_active (accepted_packet k sq b s) = reassembly_active s"
  "reassembly_damaged (accepted_packet k sq b s) = reassembly_damaged s"
  "reassembly_slot (accepted_packet k sq b s) = reassembly_slot s"
  "fu_active (accepted_packet k sq b s) = fu_active s" "fu_nal_type (accepted_packet k sq b s) = fu_nal_type s"
  "h264_sps (accepted_packet k sq b s) = h264_sps s" "h264_pps (accepted_packet k sq b s) = h264_pps s"
  "depacketizer (accepted_packet k sq b s) = depacketizer s" "effects (accepted_packet k sq b s) = effects s"
  "sink_bound (accepted_packet k sq b s) = sink_bound s" "capability (accepted_packet k sq b s) = capability s"
  "receive_enabled (accepted_packet k sq b s) = receive_enabled s" "peer_ip (accepted_packet k sq b s) = peer_ip s"
  "expected_sequence (accepted_packet k sq b s) = sq + 1" "sequence_valid (accepted_packet k sq b s)"
  "remote_ssrc_latched (accepted_packet k sq b s) = (b \<longrightarrow> remote_ssrc_latched s)"
  "remote_ssrc (accepted_packet k sq b s) = (if b then remote_ssrc s else link_ssrc k)"
  "slot_states (accepted_packet k sq b s) = slot_states s"
  by (simp_all add: accepted_packet_def Let_def)

section \<open>H.264 reassembly\<close>

text \<open>The buffer holds \<open>content\<close> for the access unit \<open>ts\<close>; nothing else has changed since \<open>s0\<close>.\<close>

definition filling :: "video_session \<Rightarrow> u32 \<Rightarrow> bytes \<Rightarrow> byte option \<Rightarrow> video_session \<Rightarrow> bool" where
  "filling s0 ts content fu s \<longleftrightarrow>
     backend s = H264Backend \<and> reassembly_active s \<and> reassembly_timestamp s = ts \<and> \<not> reassembly_damaged s \<and>
     reassembly_size s = length content \<and> length content \<le> length (reassembly s) \<and>
     take (length content) (reassembly s) = content \<and> length (reassembly s) = kMaxAccessUnitBytes H264Backend \<and>
     (fu_active s \<longleftrightarrow> fu \<noteq> None) \<and> (\<forall>t. fu = Some t \<longrightarrow> fu_nal_type s = t) \<and>
     reassembly_slot s \<noteq> None \<and> effects s = effects s0 \<and> h264_sps s = h264_sps s0 \<and> h264_pps s = h264_pps s0 \<and>
     sink_bound s = sink_bound s0"

text \<open>No access unit is open, or another one is.\<close>

definition between_units :: "u32 \<Rightarrow> video_session \<Rightarrow> bool" where
  "between_units ts s \<longleftrightarrow>
     backend s = H264Backend \<and> length (reassembly s) = kMaxAccessUnitBytes H264Backend \<and> reassembly_slot s \<noteq> None \<and>
     (if reassembly_active s then reassembly_timestamp s \<noteq> ts else reassembly_size s = 0 \<and> \<not> fu_active s)"

definition opened :: "video_session \<Rightarrow> u32 \<Rightarrow> bytes \<Rightarrow> byte option \<Rightarrow> video_session \<Rightarrow> bool" where
  "opened s0 ts content fu s \<longleftrightarrow>
     filling s0 ts content fu s \<or> between_units ts s \<and> s = s0 \<and> content = [] \<and> fu = None"

lemma open_filling: "opened s0 ts content fu s \<Longrightarrow> filling s0 ts content fu (open_unit ts False s)"
  by (auto simp: opened_def filling_def between_units_def open_unit_def reset_reassembly_def Let_def)

lemma append_filling:
  assumes "filling s0 ts c fu s" and "length c + length d \<le> kMaxAccessUnitBytes H264Backend"
  shows "filling s0 ts (c @ d) fu (append_reassembly d s)"
  using assms take_blit [of "length c" d "reassembly s"] by (simp add: filling_def append_reassembly_def)

lemma append_nal_filling:
  assumes "filling s0 ts c fu s" and "nal \<noteq> []" and "length c + 4 + length nal \<le> kMaxAccessUnitBytes H264Backend"
  shows "\<exists>t. append_annex_b_nal nal s = (True, t) \<and> filling s0 ts (c @ START_CODE @ nal) fu t"
proof -
  have "filling s0 ts (c @ START_CODE) fu (append_reassembly START_CODE s)"
    using assms by (intro append_filling) (simp_all add: START_CODE_def)
  then have "filling s0 ts ((c @ START_CODE) @ nal) fu (append_reassembly nal (append_reassembly START_CODE s))"
    using assms by (intro append_filling) (simp_all add: START_CODE_def)
  then show ?thesis using assms by (simp add: append_annex_b_nal_def filling_def)
qed

definition plain_nal :: "bytes \<Rightarrow> bool" where
  "plain_nal nal \<longleftrightarrow> nal \<noteq> [] \<and> hd nal AND 0x1F \<noteq> 0 \<and> hd nal AND 0x1F \<le> 23"

text \<open>What a payload leads to: the unit goes on, or its marker finishes it.\<close>

definition payload_outcome :: "video_env \<Rightarrow> video_session \<Rightarrow> u32 \<Rightarrow> bytes \<Rightarrow> byte option \<Rightarrow> bool \<Rightarrow> bool \<times> video_session \<Rightarrow> bool" where
  "payload_outcome env s0 ts c fu m r \<longleftrightarrow>
     (\<exists>t. filling s0 ts c fu t \<and> (if m then r = (True, finish_access_unit env ts t) else r = (True, t)))"

lemma damaged_if_False [simp]: "damaged_if False s = s"
  by (simp add: damaged_if_def)

lemma single_nal:
  assumes o: "opened s0 ts c None s" and nal: "plain_nal nal"
    and room: "length c + 4 + length nal \<le> kMaxAccessUnitBytes H264Backend"
  shows "payload_outcome env s0 ts (c @ START_CODE @ nal) None m (handle_h264_payload env nal m ts False s)"
proof -
  have n: "nal \<noteq> []" and t: "nal_type_of nal \<noteq> 0" "nal_type_of nal \<le> 23" "nal_type_of nal \<noteq> 24" "nal_type_of nal \<noteq> 28"
    using nal by (auto simp: plain_nal_def nal_type_of_def hd_conv_nth)
  note f = open_filling [OF o]
  have fu: "\<not> fu_active (open_unit ts False s)" using f by (simp add: filling_def)
  obtain u where u: "append_annex_b_nal nal (open_unit ts False s) = (True, u)" "filling s0 ts (c @ START_CODE @ nal) None u"
    using append_nal_filling [OF f n room] by blast
  have "acceptable_payload nal ts s" using t by (simp add: acceptable_payload_def Let_def)
  moreover have "\<not> fu_active u" using u(2) by (simp add: filling_def)
  ultimately show ?thesis
    using n t fu u by (auto simp: handle_h264_payload_def take_payload_def payload_outcome_def Let_def)
qed

subsection \<open>Fragments\<close>

definition fu_packet :: "byte \<Rightarrow> bool \<Rightarrow> bool \<Rightarrow> bytes \<Rightarrow> bytes" where
  "fu_packet header first ends part =
     [(header AND 0xE0) OR 28, (header AND 0x1F) OR (if first then 0x80 else 0) OR (if ends then 0x40 else 0)] @ part"

lemma byte_eqI:
  assumes "bit a 0 = bit b 0" "bit a 1 = bit b 1" "bit a 2 = bit b 2" "bit a 3 = bit b 3"
    "bit a 4 = bit b 4" "bit a 5 = bit b 5" "bit a 6 = bit b 6" "bit (a :: byte) 7 = bit b 7"
  shows "a = b"
proof (rule bit_word_eqI)
  fix n :: nat
  assume "n < LENGTH(8)"
  then have "n = 0 \<or> n = 1 \<or> n = 2 \<or> n = 3 \<or> n = 4 \<or> n = 5 \<or> n = 6 \<or> n = 7" by auto
  then show "bit a n = bit b n" using assms by auto
qed

lemma byte_bit_test: "((x :: byte) AND 0x80 \<noteq> 0) = bit x 7" "(x AND 0x40 \<noteq> 0) = bit x 6"
  using and_exp_eq_0_iff_not_bit [of x 7] and_exp_eq_0_iff_not_bit [of x 6] by simp_all

lemma fu_bits:
  fixes header :: byte and first ends :: bool
  defines "h \<equiv> (header AND 0x1F) OR (if first then 0x80 else 0) OR (if ends then 0x40 else 0)"
  shows "((header AND 0xE0) OR 28) AND 0x1F = 28" "((header AND 0xE0) OR 28) AND 0xE0 = header AND 0xE0"
    "(h AND 0x80 \<noteq> 0) = first" "(h AND 0x40 \<noteq> 0) = ends" "h AND 0x1F = header AND 0x1F"
    "(header AND 0xE0) OR (header AND 0x1F) = header"
proof -
  show "((header AND 0xE0) OR 28) AND 0x1F = 28" by (rule byte_eqI) (simp_all add: bit_simps)
  show "((header AND 0xE0) OR 28) AND 0xE0 = header AND 0xE0" by (rule byte_eqI) (simp_all add: bit_simps)
  show "(h AND 0x80 \<noteq> 0) = first" "(h AND 0x40 \<noteq> 0) = ends"
    unfolding byte_bit_test h_def by (auto simp: bit_simps)
  show "h AND 0x1F = header AND 0x1F" unfolding h_def by (rule byte_eqI) (auto simp: bit_simps)
  show "(header AND 0xE0) OR (header AND 0x1F) = header" by (rule byte_eqI) (simp_all add: bit_simps)
qed

lemma fu_packet_fields:
  "fu_packet header first ends part ! 0 AND 0x1F = 28" "fu_packet header first ends part ! 0 AND 0xE0 = header AND 0xE0"
  "(fu_packet header first ends part ! 1 AND 0x80 \<noteq> 0) = first" "(fu_packet header first ends part ! 1 AND 0x40 \<noteq> 0) = ends"
  "fu_packet header first ends part ! 1 AND 0x1F = header AND 0x1F" "drop 2 (fu_packet header first ends part) = part"
  "fu_packet header first ends part \<noteq> []" "length (fu_packet header first ends part) = 2 + length part"
  using fu_bits by (simp_all add: fu_packet_def)

text \<open>Where a fragment may stand: the first opens the NAL unit, a later one goes on with it.\<close>

lemma fu_fragment:
  assumes o: "opened s0 ts c (if first then None else Some (header AND 0x1F)) s"
    and h: "header AND 0x1F \<noteq> 0" "header AND 0x1F \<le> 23" and one: "\<not> (first \<and> ends)"
    and c': "c' = (if first then c @ START_CODE @ [header] else c) @ part"
    and room: "length c' \<le> kMaxAccessUnitBytes H264Backend" and m: "m \<longrightarrow> ends"
  shows "payload_outcome env s0 ts c' (if ends then None else Some (header AND 0x1F)) m
    (handle_h264_payload env (fu_packet header first ends part) m ts False s)"
proof -
  let ?p = "fu_packet header first ends part" and ?ft = "header AND 0x1F"
  note p = fu_packet_fields [of header first ends part]
  define u where "u = open_unit ts False s"
  have u: "filling s0 ts c (if first then None else Some ?ft) u" unfolding u_def by (rule open_filling [OF o])
  have acc: "acceptable_payload ?p ts s"
  proof (cases first)
    case True
    then show ?thesis using h one p by (auto simp: acceptable_payload_def nal_type_of_def Let_def)
  next
    case False
    then have "filling s0 ts c (Some ?ft) s" using o by (auto simp: opened_def)
    then show ?thesis using h one p by (auto simp: acceptable_payload_def nal_type_of_def Let_def filling_def)
  qed
  have b: "backend u = H264Backend" using u by (simp add: filling_def)
  define s1 where "s1 = (if first then append_reassembly (START_CODE @ [header]) (u\<lparr>fu_active := True, fu_nal_type := ?ft\<rparr>) else u)"
  have s1: "filling s0 ts (if first then c @ START_CODE @ [header] else c) (Some ?ft) s1"
  proof (cases first)
    case True
    then have "filling s0 ts c (Some ?ft) (u\<lparr>fu_active := True, fu_nal_type := ?ft\<rparr>)" using u by (simp add: filling_def)
    then have "filling s0 ts (c @ START_CODE @ [header]) (Some ?ft)
        (append_reassembly (START_CODE @ [header]) (u\<lparr>fu_active := True, fu_nal_type := ?ft\<rparr>))"
      using room c' True by (intro append_filling) (simp_all add: START_CODE_def)
    then show ?thesis using True by (simp add: s1_def)
  qed (use u in \<open>simp add: s1_def\<close>)
  have s2: "filling s0 ts c' (Some ?ft) (append_reassembly part s1)"
    unfolding c' using s1 room c' by (intro append_filling) (auto split: if_splits)
  have take: "take_fu ?p u = (if ends then (append_reassembly part s1)\<lparr>fu_active := False, fu_nal_type := 0\<rparr> else append_reassembly part s1)"
  proof -
    have f1: "(reassembly_size s1 + length part > kMaxAccessUnitBytes H264Backend) = False" "reassembly_damaged s1 = False"
      using s1 room c' by (auto simp: filling_def)
    have fu2: "damaged_if (\<not> fu_active (append_reassembly part s1)) (append_reassembly part s1) = append_reassembly part s1"
      using s2 by (simp add: filling_def)
    have s1_eq: "(if first then
         let s0 = (damaged_if (fu_active u) u)\<lparr>fu_active := True, fu_nal_type := ?ft\<rparr>
         in if reassembly_size s0 + 5 > kMaxAccessUnitBytes H264Backend then s0\<lparr>reassembly_damaged := True\<rparr>
            else append_reassembly (START_CODE @ [header]) s0
       else u) = s1"
    proof (cases first)
      case True
      then have "\<not> fu_active u" "\<not> reassembly_size u + 5 > kMaxAccessUnitBytes H264Backend"
        using u room c' by (auto simp: filling_def START_CODE_def)
      then show ?thesis using True by (simp add: s1_def Let_def)
    qed (simp add: s1_def)
    show ?thesis
      unfolding take_fu_def Let_def p fu_bits(6) b s1_eq [unfolded Let_def] f1 if_False fu2 by (rule refl)
  qed
  have t: "filling s0 ts c' (if ends then None else Some ?ft) (take_fu ?p u)"
    unfolding take using s2 by (simp add: filling_def)
  have fu: "fu_active (take_fu ?p u) = (\<not> ends)" using t by (auto simp: filling_def split: if_splits)
  show ?thesis
    using acc p(1,7) t fu m unfolding handle_h264_payload_def payload_outcome_def
    by (auto simp: take_payload_def nal_type_of_def u_def [symmetric] Let_def)
qed

section \<open>Runs of datagrams\<close>

definition link_fields :: "video_session \<Rightarrow> bool \<times> video_capability \<times> u32 \<times> bool \<times> u32" where
  "link_fields s = (receive_enabled s, capability s, peer_ip s, remote_ssrc_latched s, remote_ssrc s)"

lemma append_units_link: "link_fields (append_units nals s) = link_fields s"
  by (induction nals arbitrary: s)
    (auto simp: append_annex_b_nal_def append_reassembly_def link_fields_def split: prod.splits bool.splits if_splits)

lemma take_payload_link: "link_fields (take_payload p s) = link_fields s"
proof -
  have d: "link_fields (damaged_if c s) = link_fields s" for c s by (simp add: damaged_if_def link_fields_def)
  have a: "link_fields (append_reassembly d s) = link_fields s" for d s by (simp add: append_reassembly_def link_fields_def)
  have f: "link_fields (s\<lparr>fu_active := x, fu_nal_type := y\<rparr>) = link_fields s" "link_fields (s\<lparr>reassembly_damaged := b\<rparr>) = link_fields s"
    for s x y b by (simp_all add: link_fields_def)
  have n: "link_fields (snd (append_annex_b_nal p s)) = link_fields s" for p s
    by (simp add: append_annex_b_nal_def a)
  have "link_fields (take_fu p s) = link_fields s" by (simp add: take_fu_def Let_def d a f)
  moreover have "link_fields (case append_annex_b_nal p (damaged_if (fu_active s) s) of
      (False, s1) \<Rightarrow> s1\<lparr>reassembly_damaged := True\<rparr> | (True, s1) \<Rightarrow> s1) = link_fields s"
    using n [of p "damaged_if (fu_active s) s"] by (auto simp: d f split: prod.split bool.split)
  ultimately show ?thesis by (simp add: take_payload_def Let_def append_units_link d)
qed

lemma open_unit_link: "link_fields (open_unit ts g s) = link_fields s"
  by (simp add: open_unit_def reset_reassembly_def link_fields_def Let_def)

lemma handle_h264_link: "handle_h264_payload env p False ts g s = (ok, t) \<Longrightarrow> link_fields t = link_fields s"
  by (auto simp: handle_h264_payload_def take_payload_link open_unit_link Let_def split: if_splits)

text \<open>In the middle of a stream, with \<open>sq\<close> the next sequence number.\<close>

definition on_link :: "link \<Rightarrow> u16 \<Rightarrow> video_session \<Rightarrow> u32 \<Rightarrow> bytes \<Rightarrow> byte option \<Rightarrow> video_session \<Rightarrow> bool" where
  "on_link k sq s0 ts c fu s \<longleftrightarrow> opened s0 ts c fu s \<and> listening k sq s"

lemma opened_backend: "opened s0 ts c fu s \<Longrightarrow> backend s = H264Backend"
  by (auto simp: opened_def filling_def between_units_def)

lemma datagram_goes_on:
  assumes l: "on_link k sq s0 ts c fu s" and p: "p \<noteq> []"
    and out: "payload_outcome env s0 ts c' fu' False (handle_h264_payload env p False ts False s)"
  shows "on_link k (sq + 1) s0 ts c' fu' (rtp_datagram env (link_ip k) (link_port k) (link_packet k ts sq (p, False)) s)"
proof -
  obtain t where t: "handle_h264_payload env p False ts False s = (True, t)" "filling s0 ts c' fu' t"
    using out by (auto simp: payload_outcome_def)
  have b: "backend s = H264Backend" and li: "listening k sq s" using l opened_backend by (auto simp: on_link_def)
  have d: "rtp_datagram env (link_ip k) (link_port k) (link_packet k ts sq (p, False)) s =
      accepted_packet k sq (remote_ssrc_latched s) t"
    using datagram_step [OF li p, of env ts False] b t by simp
  have "filling s0 ts c' fu' (accepted_packet k sq (remote_ssrc_latched s) t)" using t(2) by (simp add: filling_def)
  moreover have "listening k (sq + 1) (accepted_packet k sq (remote_ssrc_latched s) t)"
    using handle_h264_link [OF t(1)] li t(2) by (auto simp: listening_def link_fields_def filling_def)
  ultimately show ?thesis by (simp add: d on_link_def opened_def)
qed

lemma datagram_finishes:
  assumes l: "on_link k sq s0 ts c fu s" and p: "p \<noteq> []"
    and out: "payload_outcome env s0 ts c' fu' True (handle_h264_payload env p True ts False s)"
  shows "\<exists>t b. rtp_datagram env (link_ip k) (link_port k) (link_packet k ts sq (p, True)) s =
    accepted_packet k sq b (finish_access_unit env ts t) \<and> filling s0 ts c' fu' t"
proof -
  obtain t where t: "handle_h264_payload env p True ts False s = (True, finish_access_unit env ts t)" "filling s0 ts c' fu' t"
    using out by (auto simp: payload_outcome_def)
  have "backend s = H264Backend" "listening k sq s" using l opened_backend by (auto simp: on_link_def)
  then show ?thesis using datagram_step [of k sq s p env ts True] p t by auto
qed

fun receive_all :: "video_env \<Rightarrow> link \<Rightarrow> u32 \<Rightarrow> u16 \<Rightarrow> (bytes \<times> bool) list \<Rightarrow> video_session \<Rightarrow> video_session" where
  "receive_all env k ts sq [] s = s"
| "receive_all env k ts sq (p # ps) s =
     receive_all env k ts (sq + 1) ps (rtp_datagram env (link_ip k) (link_port k) (link_packet k ts sq p) s)"

lemma receive_all_append:
  "receive_all env k ts sq (ps @ qs) s = receive_all env k ts (sq + of_nat (length ps)) qs (receive_all env k ts sq ps s)"
  by (induction ps arbitrary: sq s) (auto simp: algebra_simps)

definition run_outcome :: "video_env \<Rightarrow> link \<Rightarrow> video_session \<Rightarrow> u32 \<Rightarrow> bytes \<Rightarrow> bool \<Rightarrow> u16 \<Rightarrow> video_session \<Rightarrow> bool" where
  "run_outcome env k s0 ts c final sq s \<longleftrightarrow>
     (if final then \<exists>t b q. s = accepted_packet k q b (finish_access_unit env ts t) \<and> filling s0 ts c None t
      else on_link k sq s0 ts c None s)"

lemma fu_payloads_step:
  "rest \<noteq> [] \<Longrightarrow> fu_payloads limit header final first rest =
     (fu_packet header first (length rest \<le> max 1 (limit - 2)) (take (max 1 (limit - 2)) rest),
      final \<and> length rest \<le> max 1 (limit - 2)) # fu_payloads limit header final False (drop (max 1 (limit - 2)) rest)"
  by (subst fu_payloads.simps) (simp add: Let_def fu_packet_def)

lemma fu_run:
  assumes h: "header AND 0x1F \<noteq> 0" "header AND 0x1F \<le> 23"
    and "on_link k sq s0 ts c (if first then None else Some (header AND 0x1F)) s" and "rest \<noteq> []"
    and "first \<longrightarrow> length rest > max 1 (limit - 2)"
    and "length ((if first then c @ START_CODE @ [header] else c) @ rest) \<le> kMaxAccessUnitBytes H264Backend"
  shows "run_outcome env k s0 ts ((if first then c @ START_CODE @ [header] else c) @ rest) final
    (sq + of_nat (length (fu_payloads limit header final first rest)))
    (receive_all env k ts sq (fu_payloads limit header final first rest) s)"
  using assms(3-)
proof (induction rest arbitrary: first c sq s rule: length_induct)
  case (1 rest)
  let ?room = "max 1 (limit - 2)" and ?c = "if first then c @ START_CODE @ [header] else c"
  let ?ends = "length rest \<le> ?room"
  define part where "part = take ?room rest"
  define p where "p = fu_packet header first ?ends part"
  have pn: "p \<noteq> []" by (simp add: p_def fu_packet_def)
  have o: "opened s0 ts c (if first then None else Some (header AND 0x1F)) s" using 1(2) by (simp add: on_link_def)
  have room: "length (?c @ part) \<le> kMaxAccessUnitBytes H264Backend" using 1(5) by (auto simp: part_def)
  have one: "\<not> (first \<and> ?ends)" using 1(4) by auto
  have out: "payload_outcome env s0 ts (?c @ part) (if ?ends then None else Some (header AND 0x1F)) (final \<and> ?ends)
      (handle_h264_payload env p (final \<and> ?ends) ts False s)"
    unfolding p_def by (rule fu_fragment [OF o h one refl room]) simp
  have eq: "fu_payloads limit header final first rest = (p, final \<and> ?ends) # fu_payloads limit header final False (drop ?room rest)"
    unfolding p_def part_def by (rule fu_payloads_step [OF 1(3)])
  show ?case
  proof (cases ?ends)
    case True
    then have r: "part = rest" "drop ?room rest = []" by (simp_all add: part_def)
    then have eq1: "fu_payloads limit header final first rest = [(p, final)]" using True by (simp add: eq)
    have out1: "payload_outcome env s0 ts (?c @ rest) None final (handle_h264_payload env p final ts False s)"
      using out True r by simp
    show ?thesis
    proof (cases final)
      case f: True
      obtain t b where "rtp_datagram env (link_ip k) (link_port k) (link_packet k ts sq (p, True)) s =
          accepted_packet k sq b (finish_access_unit env ts t)" "filling s0 ts (?c @ rest) None t"
        using datagram_finishes [OF 1(2) pn, of env "?c @ rest" None] out1 f by auto
      then have ex: "\<exists>t b q. rtp_datagram env (link_ip k) (link_port k) (link_packet k ts sq (p, True)) s =
          accepted_packet k q b (finish_access_unit env ts t) \<and> filling s0 ts (?c @ rest) None t"
        by (intro exI conjI)
      have "final = True" using f by simp
      then have "fu_payloads limit header final first rest = [(p, True)]" using eq1 by simp
      then show ?thesis unfolding run_outcome_def using ex f by (simp only: receive_all.simps if_True)
    next
      case False
      then show ?thesis using datagram_goes_on [OF 1(2) pn, of env "?c @ rest" None] out1
        unfolding eq1 run_outcome_def by (simp del: append_assoc if_split)
    qed
  next
    case False
    have on: "on_link k (sq + 1) s0 ts (?c @ part) (Some (header AND 0x1F))
        (rtp_datagram env (link_ip k) (link_port k) (link_packet k ts sq (p, False)) s)"
      using datagram_goes_on [OF 1(2) pn, of env "?c @ part"] out False by auto
    let ?later = "drop ?room rest"
    have rest: "(?c @ part) @ ?later = ?c @ rest" by (simp add: part_def)
    have l: "length ((?c @ part) @ ?later) \<le> kMaxAccessUnitBytes H264Backend" unfolding rest by (rule 1(5))
    have shorter: "length ?later < length rest" "?later \<noteq> []" using False 1(3) by auto
    have "run_outcome env k s0 ts ((?c @ part) @ ?later) final
        (sq + 1 + of_nat (length (fu_payloads limit header final False ?later)))
        (receive_all env k ts (sq + 1) (fu_payloads limit header final False ?later)
          (rtp_datagram env (link_ip k) (link_port k) (link_packet k ts sq (p, False)) s))"
      using 1(1) [rule_format, of ?later "sq + 1" "?c @ part" False, unfolded if_False] shorter on l by metis
    then have "run_outcome env k s0 ts (?c @ rest) final
        (sq + 1 + of_nat (length (fu_payloads limit header final False ?later)))
        (receive_all env k ts (sq + 1) (fu_payloads limit header final False ?later)
          (rtp_datagram env (link_ip k) (link_port k) (link_packet k ts sq (p, False)) s))"
      unfolding rest .
    moreover have "fu_payloads limit header final first rest = (p, False) # fu_payloads limit header final False ?later"
      using False by (simp only: eq simp_thms)
    moreover have "sq + of_nat (length ((p, False) # fu_payloads limit header final False ?later)) =
        sq + 1 + of_nat (length (fu_payloads limit header final False ?later))"
      by simp
    ultimately show ?thesis by (simp only: receive_all.simps)
  qed
qed

lemma unit_run:
  assumes o: "on_link k sq s0 ts c None s" and nal: "plain_nal nal"
    and room: "length (c @ START_CODE @ nal) \<le> kMaxAccessUnitBytes H264Backend"
    and limit: "3 \<le> limit"
  shows "run_outcome env k s0 ts (c @ START_CODE @ nal) final (sq + of_nat (length (unit_payloads limit nal final)))
    (receive_all env k ts sq (unit_payloads limit nal final) s)"
proof (cases "length nal \<le> limit")
  case True
  have n: "nal \<noteq> []" using nal by (simp add: plain_nal_def)
  have out: "payload_outcome env s0 ts (c @ START_CODE @ nal) None m (handle_h264_payload env nal m ts False s)" for m
    using o nal room by (intro single_nal) (auto simp: on_link_def START_CODE_def)
  show ?thesis
    using True datagram_goes_on [OF o n out] datagram_finishes [OF o n out]
    by (cases final) (auto simp: unit_payloads_def run_outcome_def)
next
  case False
  obtain h body where nb: "nal = h # body" using nal by (cases nal) (auto simp: plain_nal_def)
  have h: "h AND 0x1F \<noteq> 0" "h AND 0x1F \<le> 23" using nal by (auto simp: plain_nal_def nb)
  have l: "length body > max 1 (limit - 2)" "body \<noteq> []" using False limit by (auto simp: nb)
  have r: "length ((if True then c @ START_CODE @ [h] else c) @ body) \<le> kMaxAccessUnitBytes H264Backend"
    using room by (simp add: nb)
  show ?thesis
    using fu_run [OF h, of k sq s0 ts c True s body limit env final] o l r False
    by (simp add: unit_payloads_def nb)
qed

abbreviation annex_b :: "bytes list \<Rightarrow> bytes" where
  "annex_b nals \<equiv> concat (map ((@) START_CODE) nals)"

lemma units_run:
  assumes "on_link k sq s0 ts c None s" and "\<forall>nal\<in>set nals. plain_nal nal" and "3 \<le> limit" and "nals \<noteq> []"
    and "length (c @ annex_b nals) \<le> kMaxAccessUnitBytes H264Backend"
  shows "\<exists>t b q. receive_all env k ts sq (h264_payloads limit nals) s = accepted_packet k q b (finish_access_unit env ts t) \<and>
    filling s0 ts (c @ annex_b nals) None t"
  using assms
proof (induction nals arbitrary: c sq s)
  case (Cons nal nals)
  have u: "run_outcome env k s0 ts (c @ START_CODE @ nal) (nals = []) (sq + of_nat (length (unit_payloads limit nal (nals = []))))
      (receive_all env k ts sq (unit_payloads limit nal (nals = [])) s)"
    using Cons.prems by (intro unit_run) auto
  show ?case
  proof (cases "nals = []")
    case True
    then show ?thesis using u by (simp add: run_outcome_def)
  next
    case False
    let ?n = "length (unit_payloads limit nal False)"
    have "on_link k (sq + of_nat ?n) s0 ts (c @ START_CODE @ nal) None (receive_all env k ts sq (unit_payloads limit nal False) s)"
      using u False by (simp add: run_outcome_def)
    then show ?thesis
      using Cons.IH [of "sq + of_nat ?n" "c @ START_CODE @ nal"] Cons.prems False by (simp add: receive_all_append)
  qed
qed simp

section \<open>Delivery\<close>

text \<open>The scan of a complete unit sees its NAL units.\<close>

lemma scan_annex_b:
  assumes "\<forall>nal\<in>set nals. nal_unit nal"
  shows "scan_unit (annex_b nals) u = fold scan_nal nals u"
proof -
  have stream: "annex_b nals = stream_of (map (Pair START_CODE) nals)" for nals
    by (simp add: stream_of_def o_def)
  show ?thesis
    using assms
  proof (induction nals arbitrary: u)
    case Nil
    have "next_annex_b_nal [] = None" by (simp add: next_annex_b_nal_def)
    then show ?case by (subst scan_unit.simps) simp
  next
    case (Cons nal nals)
    have "next_annex_b_nal (START_CODE @ nal @ stream_of (map (Pair START_CODE) nals)) = Some (nal, stream_of (map (Pair START_CODE) nals))"
      using Cons.prems by (intro next_unit) (auto simp: start_prefix_def START_CODE_def)
    then have "next_annex_b_nal (annex_b (nal # nals)) = Some (nal, annex_b nals)" by (simp add: stream)
    then show ?case using Cons by (subst scan_unit.simps) simp
  qed
qed

definition scanned :: "video_session \<Rightarrow> bytes list \<Rightarrow> unit_scan" where
  "scanned s nals =
     fold scan_nal nals \<lparr>us_key = False, us_sps = False, us_pps = False, us_sps_bytes = h264_sps s, us_pps_bytes = h264_pps s\<rparr>"

lemma key_scanned: "us_key (scanned s nals) = (\<exists>nal\<in>set nals. hd nal AND 0x1F = 5)"
proof -
  have "us_key (fold scan_nal nals u) = (us_key u \<or> (\<exists>nal\<in>set nals. hd nal AND 0x1F = 5))" for u
    by (induction nals arbitrary: u) (auto simp: scan_nal_def Let_def)
  then show ?thesis by (simp add: scanned_def)
qed

lemma effects_after_delivery:
  "effects (reset_reassembly s) = effects s" "effects (snd (acquire_slot s)) = effects s"
  by (simp_all add: reset_reassembly_def acquire_slot_def Let_def split: option.split)

definition delivered :: "video_session \<Rightarrow> u32 \<Rightarrow> bytes list \<Rightarrow> access_unit" where
  "delivered s ts nals =
     \<lparr>au_data = parameter_prefix (scanned s nals) @ annex_b nals, au_timestamp = ts, au_key_frame = us_key (scanned s nals)\<rparr>"

lemma finish_delivers:
  assumes f: "filling s0 ts (annex_b nals) None t" and n: "\<forall>nal\<in>set nals. nal_unit nal" "nals \<noteq> []" and "sink_bound s0"
    and room: "length (au_data (delivered s0 ts nals)) \<le> kMaxAccessUnitBytes H264Backend"
    and ok: "sink_accepts env (delivered s0 ts nals)"
  shows "effects (finish_access_unit env ts t) = effects s0 @ [Consume (delivered s0 ts nals)]"
proof -
  have c: "annex_b nals \<noteq> []" using n(2) by (cases nals) (simp_all add: START_CODE_def)
  have t: "reassembly_size t = length (annex_b nals)" "take (length (annex_b nals)) (reassembly t) = annex_b nals"
    "h264_sps t = h264_sps s0" "h264_pps t = h264_pps s0" "sink_bound t" "effects t = effects s0" "backend t = H264Backend"
    "\<not> reassembly_damaged t"
    using f assms(4) by (auto simp: filling_def)
  obtain i where i: "reassembly_slot t = Some i" using f by (auto simp: filling_def)
  have u: "scan_unit (take (reassembly_size t) (reassembly t))
      \<lparr>us_key = False, us_sps = False, us_pps = False, us_sps_bytes = h264_sps t, us_pps_bytes = h264_pps t\<rparr> = scanned s0 nals"
    using scan_annex_b [OF n(1)] by (simp add: t scanned_def)
  have g: "(\<not> reassembly_damaged t \<and> reassembly_size t > 0 \<and> sink_bound t) = True" using t c by auto
  have r: "(parameter_prefix (scanned s0 nals) \<noteq> [] \<and>
      reassembly_size t + length (parameter_prefix (scanned s0 nals)) > kMaxAccessUnitBytes (backend t)) = False"
    using room by (simp add: delivered_def t)
  have d: "\<lparr>au_data = parameter_prefix (scanned s0 nals) @ take (reassembly_size t) (reassembly t), au_timestamp = ts,
      au_key_frame = us_key (scanned s0 nals)\<rparr> = delivered s0 ts nals"
    by (simp add: delivered_def t)
  show ?thesis
    unfolding finish_access_unit_def g if_True if_False Let_def u r d effects_after_delivery deliver_unit_def
    using ok i t by (simp add: emit_def)
qed

end
