(* ===== verification/VideoCalls.thy ===== *)
theory VideoCalls
  imports VideoWireProps
begin

text \<open>
  Both ends of a video call: what one session sends for an access unit is what the other hands to its
  sink.
\<close>

section \<open>H.264\<close>

lemma receive_all_fold:
  assumes "link_pt k = video_payload_type (capability tx)" "link_ssrc k = tx_ssrc tx"
  shows "receive_all env k (ts + tx_timestamp_offset tx) sq ps s =
    fold (rtp_datagram env (link_ip k) (link_port k)) (numbered tx ts sq ps) s"
  using assms by (induction ps arbitrary: sq s) (auto simp: link_packet_def)

definition plain_units :: "(bytes \<times> bytes) list \<Rightarrow> bool" where
  "plain_units us \<longleftrightarrow> us \<noteq> [] \<and> well_formed_units us \<and> (\<forall>(p, nal)\<in>set us. plain_nal nal)"

text \<open>The two sessions of a stream: what the receiver knows of the sender.\<close>

definition paired :: "link \<Rightarrow> video_session \<Rightarrow> video_session \<Rightarrow> bool" where
  "paired k tx rx \<longleftrightarrow>
     link_pt k = video_payload_type (capability tx) \<and> link_ssrc k = tx_ssrc tx \<and> listening k (tx_sequence tx) rx"

text \<open>
  C8: An H.264 access unit survives the wire. The sender cuts any Annex B byte stream of plain NAL
  units into packets, whatever start codes the encoder used and however large the units are; the
  receiver of these datagrams, in their order, hands exactly one access unit to its sink. It has
  every NAL unit behind a four-byte start code, the timestamp of the wire, the key frame mark when a
  unit of type 5 is in it, and in front of it the stored parameter sets a key frame lacks.
\<close>

theorem h264_access_unit_over_the_wire:
  assumes "can_send tx" and "all_taken env" and "3 \<le> max_payload tx" and "backend tx = H264Backend"
    and "plain_units us" and "au_data au = stream_of us"
    and "paired k tx rx" and "between_units ts rx" and "sink_bound rx" and "ts = au_timestamp au + tx_timestamp_offset tx"
    and "length (au_data (delivered rx ts (map snd us))) \<le> kMaxAccessUnitBytes H264Backend"
    and "sink_accepts env' (delivered rx ts (map snd us))"
  shows "\<exists>packets.
    effects (send_access_unit env au tx) = effects tx @ map (SendRtp (peer_ip tx) (rtp_port_of tx)) packets \<and>
    effects (fold (rtp_datagram env' (link_ip k) (link_port k)) packets rx) = effects rx @ [Consume (delivered rx ts (map snd us))] \<and>
    au_key_frame (delivered rx ts (map snd us)) = (\<exists>nal\<in>set (map snd us). hd nal AND 0x1F = 5)"
proof -
  let ?nals = "map snd us" and ?ps = "h264_payloads (max_payload tx) (map snd us)"
  have us: "us \<noteq> []" "well_formed_units us" "\<forall>nal\<in>set ?nals. plain_nal nal" "\<forall>nal\<in>set ?nals. nal_unit nal"
    using assms(5) by (auto simp: plain_units_def)
  have data: "au_data au \<noteq> []"
    using us(1,2) unfolding assms(6) by (cases us) (auto simp: stream_of_def start_prefix_def)
  obtain t where t: "send_nal_units env (au_timestamp au) False (stream_of us) tx = t\<lparr>tx_units_ok := tx_units_ok t + 1\<rparr>"
    "sent tx (au_timestamp au) ?ps t"
    using send_units_ok [OF assms(1-3) us(2), of False "au_timestamp au"] us(1) by blast
  have guard: "(\<not> running tx \<or> \<not> send_enabled tx \<or> au_data au = []) = False" "(backend tx = JpegBackend) = False"
    using assms(1,4) data by (auto simp: can_send_def)
  have "send_access_unit env au tx = send_nal_units env (au_timestamp au) False (au_data au) tx"
    unfolding send_access_unit_def guard if_False by (rule refl)
  then have out: "effects (send_access_unit env au tx) =
      effects tx @ map (SendRtp (peer_ip tx) (rtp_port_of tx)) (numbered tx (au_timestamp au) (tx_sequence tx) ?ps)"
    using t(2) by (simp add: assms(6) t(1) sent_def)
  have on: "on_link k (tx_sequence tx) rx ts [] None rx"
    using assms(7,8) by (simp add: on_link_def opened_def paired_def)
  have room: "length ([] @ annex_b ?nals) \<le> kMaxAccessUnitBytes H264Backend"
    using assms(11) by (simp add: delivered_def)
  obtain u b q where u: "receive_all env' k ts (tx_sequence tx) ?ps rx = accepted_packet k q b (finish_access_unit env' ts u)"
    "filling rx ts ([] @ annex_b ?nals) None u"
    using units_run [OF on us(3) assms(3) _ room, of env'] us(1) by auto
  have n: "?nals \<noteq> []" using us(1) by simp
  have run: "receive_all env' k ts (tx_sequence tx) ?ps rx =
      fold (rtp_datagram env' (link_ip k) (link_port k)) (numbered tx (au_timestamp au) (tx_sequence tx) ?ps) rx"
    unfolding assms(10) using assms(7) by (intro receive_all_fold) (simp_all add: paired_def)
  have "effects (finish_access_unit env' ts u) = effects rx @ [Consume (delivered rx ts ?nals)]"
    using u(2) us(4) n assms(9,11,12) by (intro finish_delivers) simp_all
  then have "effects (fold (rtp_datagram env' (link_ip k) (link_port k)) (numbered tx (au_timestamp au) (tx_sequence tx) ?ps) rx) =
      effects rx @ [Consume (delivered rx ts ?nals)]"
    unfolding run [symmetric] u(1) by simp
  then show ?thesis using out key_scanned [of rx ?nals] by (auto simp: delivered_def)
qed

text \<open>A fresh session of either backend.\<close>

definition sample_video :: "video_backend \<Rightarrow> video_session" where
  "sample_video b =
     \<lparr>backend = b, capability = no_capability\<lparr>video_payload_type := 102, encoding := ''H264''\<rparr>, max_payload = 1200,
      send_enabled = True, receive_enabled = True, running = True, sockets_open = True, sink_bound = True, source_bound = True,
      peer_ip = 5, peer_rtp_port = 4000, peer_rtcp_ip = 5, peer_rtcp_port = 4001, latched_rtp_port = 0, latched_rtcp_port = 0,
      remote_ssrc = 0, remote_ssrc_latched = False, tx_sequence = 65535, tx_timestamp_offset = 9, tx_ssrc = 77,
      tx_packets = 0, tx_octets = 0, tx_units_ok = 0, last_tx_timestamp = 0, last_tx_ms = 0, tx_resync_needed = False, sends = 0,
      slot_states = [1, 0], reassembly_slot = Some 0, reassembly = replicate (kMaxAccessUnitBytes b) 0, reassembly_size = 0,
      reassembly_timestamp = 0, reassembly_active = False, reassembly_damaged = False, fu_active = False, fu_nal_type = 0,
      expected_sequence = 0, sequence_valid = False, h264_sps = [], h264_pps = [], depacketizer = new_depacketizer,
      cache_failed = False, rx_packets = 0, rx_units_ok = 0, dropped_units = 0, accept_remote_pli = True, accept_remote_fir = False,
      send_remote_pli = True, last_rtcp_ms = 0, last_pli_ms = 0, rx_reset_requested = False, effects = []\<rparr>"

definition sample_env :: video_env where
  "sample_env = \<lparr>now_ms = 1000, unix_seconds = 0, unix_micros = 0, attempts = \<lambda>_. (Busy, True, Sent), sink_accepts = \<lambda>_. True,
     cache_available = True\<rparr>"

text \<open>An SPS, a PPS and a slice, the first behind a short start code; the slice needs fragments.\<close>

definition sample_units :: "(bytes \<times> bytes) list" where
  "sample_units = [([0, 0, 1], [0x67, 0x42, 1]), ([0, 0, 0, 1], [0x68, 0xCE]), ([0, 0, 0, 1], 0x65 # replicate 30 7)]"

definition sample_sender :: video_session where
  "sample_sender = sample_video H264Backend\<lparr>max_payload := 10\<rparr>"

lemma sample_units_plain: "plain_units sample_units"
proof -
  have "replicate 30 7 = [7, 7, 7, 7, 7, 7, 7, 7, 7, 7, 7, 7, 7, 7, 7, 7, 7, 7, 7, 7, 7, 7, 7, 7, 7, 7, 7, 7, 7, 7 :: byte]"
    by (simp add: numeral_eq_Suc)
  then show ?thesis by (simp add: plain_units_def sample_units_def start_prefix_def nal_unit_def plain_nal_def)
qed

definition sample_link :: link where
  "sample_link = \<lparr>link_ip = 5, link_port = 4000, link_pt = 102, link_ssrc = 77\<rparr>"

theorem h264_access_unit_over_the_wire_witness:
  "\<exists>packets.
    effects (send_access_unit sample_env \<lparr>au_data = stream_of sample_units, au_timestamp = 91, au_key_frame = True\<rparr> sample_sender) =
      map (SendRtp 5 4000) packets \<and>
    effects (fold (rtp_datagram sample_env 5 4000) packets (sample_video H264Backend)) =
      [Consume (delivered (sample_video H264Backend) 100 (map snd sample_units))] \<and>
    au_key_frame (delivered (sample_video H264Backend) 100 (map snd sample_units))"
proof -
  let ?au = "\<lparr>au_data = stream_of sample_units, au_timestamp = 91, au_key_frame = True\<rparr>" and ?rx = "sample_video H264Backend"
  have e: "all_taken sample_env" "\<And>au. sink_accepts sample_env au"
    by (simp_all add: all_taken_def sample_env_def socket_takes_def)
  have s: "can_send sample_sender" "3 \<le> max_payload sample_sender" "backend sample_sender = H264Backend"
    by (simp_all add: sample_sender_def sample_video_def can_send_def kMaxRtpPacketBytes_def)
  have p: "paired sample_link sample_sender ?rx"
    by (simp add: paired_def listening_def sample_link_def sample_sender_def sample_video_def no_capability_def)
  have b: "between_units 100 ?rx" "sink_bound ?rx" by (simp_all add: between_units_def sample_video_def)
  have a: "au_data ?au = stream_of sample_units" "100 = au_timestamp ?au + tx_timestamp_offset sample_sender"
    by (simp_all add: sample_sender_def sample_video_def)
  have "au_data (delivered ?rx 100 (map snd sample_units)) = annex_b (map snd sample_units)"
    by (simp add: delivered_def parameter_prefix_def scanned_def sample_units_def scan_nal_def sample_video_def Let_def)
  then have l: "length (au_data (delivered ?rx 100 (map snd sample_units))) \<le> kMaxAccessUnitBytes H264Backend"
    by (simp add: sample_units_def START_CODE_def kMaxAccessUnitBytes_def)
  have key: "\<exists>nal\<in>set (map snd sample_units). hd nal AND 0x1F = 5" by (simp add: sample_units_def)
  have f: "effects sample_sender = []" "effects ?rx = []" "peer_ip sample_sender = 5" "rtp_port_of sample_sender = 4000"
    "link_ip sample_link = 5" "link_port sample_link = 4000"
    by (simp_all add: sample_sender_def sample_video_def rtp_port_of_def sample_link_def)
  show ?thesis
    using h264_access_unit_over_the_wire [OF s(1) e(1) s(2,3) sample_units_plain a(1) p b a(2) l e(2)] key
    unfolding f by simp
qed

end
