(* ===== verification/SipSignals.thy ===== *)
theory SipSignals
  imports CallFsm
begin

text \<open>
  The signals the SIP transport hands to the call state machine: a \<open>SipSignal\<close> starts with the
  defaults of \<open>sip_types.h\<close> and the transport fills in the fields it sets. The flag that the
  transport still owns a terminal transaction is no field of the signal here: the state machine asks
  the transport for it.
\<close>

definition new_signal :: "sip_signal_type \<Rightarrow> string \<Rightarrow> sip_signal" where
  "new_signal t cid =
     \<lparr>signal_type = t, status_code = 0, media_source_changed = False, media_answer_pending = False, sig_call_id = cid,
      sig_caller_route = [], sig_caller_name = [], sig_dest_route = [], sig_dest_name = [], connected_route = [],
      connected_name = [], sig_reason = [], caller_tx_formats = [], caller_rx_formats = [],
      selected_tx_format = default_audio_format, selected_rx_format = default_audio_format\<rparr>"

definition with_status :: "u16 \<Rightarrow> string \<Rightarrow> sip_signal \<Rightarrow> sip_signal" where
  "with_status st reason g = g\<lparr>status_code := st, sig_reason := reason\<rparr>"

definition with_formats :: "audio_format \<Rightarrow> audio_format \<Rightarrow> sip_signal \<Rightarrow> sip_signal" where
  "with_formats tx rx g = g\<lparr>selected_tx_format := tx, selected_rx_format := rx\<rparr>"

definition with_identity :: "string \<Rightarrow> string \<Rightarrow> sip_signal \<Rightarrow> sip_signal" where
  "with_identity new_route new_name g = g\<lparr>connected_route := new_route, connected_name := new_name\<rparr>"

text \<open>The signal of an accepted INVITE: the caller sends what is received here.\<close>

definition invite_signal ::
    "string \<Rightarrow> string \<times> string \<Rightarrow> string \<times> string \<Rightarrow> audio_format \<Rightarrow> audio_format \<Rightarrow> bool \<Rightarrow> sip_signal" where
  "invite_signal cid from to tx rx answer_pending =
     (with_formats tx rx (new_signal INVITE_SIGNAL cid))
       \<lparr>sig_caller_route := fst from, sig_caller_name := snd from, sig_dest_route := fst to, sig_dest_name := snd to,
        caller_tx_formats := (if format_valid rx then [rx] else []),
        caller_rx_formats := (if format_valid tx then [tx] else []), media_answer_pending := answer_pending\<rparr>"

lemma signal_types [simp]:
  "signal_type (new_signal t cid) = t" "sig_call_id (new_signal t cid) = cid"
  "signal_type (with_status st r g) = signal_type g" "sig_call_id (with_status st r g) = sig_call_id g"
  "signal_type (with_formats tx rx g) = signal_type g" "sig_call_id (with_formats tx rx g) = sig_call_id g"
  "signal_type (with_identity a b g) = signal_type g" "sig_call_id (with_identity a b g) = sig_call_id g"
  "signal_type (invite_signal cid f u tx rx p) = INVITE_SIGNAL" "sig_call_id (invite_signal cid f u tx rx p) = cid"
  by (simp_all add: new_signal_def with_status_def with_formats_def with_identity_def invite_signal_def)

end
