(* ===== verification/SipTransactions.thy ===== *)
theory SipTransactions
  imports SipText
begin

text \<open>
  The transaction records of \<open>sip_transport.h\<close> and the timers that drive them: client transactions
  with their retransmissions, a deferred provisional response, completed server transactions waiting
  for an ACK or for a retransmission of the request, and the ACK of a completed client INVITE.
  Times are the 32-bit milliseconds of \<open>millis()\<close>, which wrap around.
\<close>

definition SIP_T1_MS :: u32 where "SIP_T1_MS = 500"
definition SIP_T2_MS :: u32 where "SIP_T2_MS = 4000"
definition SIP_TRANSACTION_TIMEOUT_MS :: u32 where "SIP_TRANSACTION_TIMEOUT_MS = 64 * SIP_T1_MS"

section \<open>Records\<close>

record udp_transaction =
  tx_request :: string
  tx_ip :: u32
  tx_port :: u16
  tx_next_ms :: u32
  tx_deadline_ms :: u32
  tx_interval_ms :: u16
  tx_retries :: byte
  tx_udp :: bool
  tx_completed :: bool

definition no_transaction :: udp_transaction where
  "no_transaction =
     \<lparr>tx_request = [], tx_ip = 0, tx_port = 0, tx_next_ms = 0, tx_deadline_ms = 0, tx_interval_ms = 500,
      tx_retries = 0, tx_udp = True, tx_completed = False\<rparr>"

definition tx_empty :: "udp_transaction \<Rightarrow> bool" where "tx_empty t \<longleftrightarrow> tx_request t = []"

record deferred_response =
  dr_response :: string
  dr_ip :: u32
  dr_port :: u16
  dr_next_ms :: u32
  dr_deadline_ms :: u32
  dr_interval_ms :: u16
  dr_retries :: byte

definition no_deferred_response :: deferred_response where
  "no_deferred_response =
     \<lparr>dr_response = [], dr_ip = 0, dr_port = 0, dr_next_ms = 0, dr_deadline_ms = 0, dr_interval_ms = 20, dr_retries = 0\<rparr>"

record completed_server =
  cs_method :: string
  cs_call_id :: string
  cs_branch :: string
  cs_from_tag :: string
  cs_to_tag :: string
  cs_response :: string
  cs_cseq :: u32
  cs_peer_ip :: u32
  cs_peer_port :: u16
  cs_status :: u16
  cs_completed_ms :: u32
  cs_next_ms :: u32
  cs_deadline_ms :: u32
  cs_interval_ms :: u16
  cs_retransmits :: byte
  cs_udp :: bool
  cs_awaiting_ack :: bool

definition no_completed_server :: completed_server where
  "no_completed_server =
     \<lparr>cs_method = [], cs_call_id = [], cs_branch = [], cs_from_tag = [], cs_to_tag = [], cs_response = [], cs_cseq = 0,
      cs_peer_ip = 0, cs_peer_port = 0, cs_status = 0, cs_completed_ms = 0, cs_next_ms = 0, cs_deadline_ms = 0,
      cs_interval_ms = 500, cs_retransmits = 0, cs_udp = False, cs_awaiting_ack = False\<rparr>"

record completed_client =
  cc_call_id :: string
  cc_branch :: string
  cc_ack :: string
  cc_cseq :: u32
  cc_response_ip :: u32
  cc_ack_ip :: u32
  cc_ack_port :: u16
  cc_completed_ms :: u32
  cc_udp :: bool

definition no_completed_client :: completed_client where
  "no_completed_client =
     \<lparr>cc_call_id = [], cc_branch = [], cc_ack = [], cc_cseq = 0, cc_response_ip = 0, cc_ack_ip = 0, cc_ack_port = 0,
      cc_completed_ms = 0, cc_udp = True\<rparr>"

section \<open>Timers\<close>

text \<open>A request is remembered with its first retransmission T1 away and its deadline 64 T1 away.\<close>

definition new_transaction :: "u32 \<Rightarrow> bool \<Rightarrow> string \<Rightarrow> u32 \<Rightarrow> u16 \<Rightarrow> udp_transaction" where
  "new_transaction now tcp message ip port =
     \<lparr>tx_request = message, tx_ip = ip, tx_port = port, tx_next_ms = now + SIP_T1_MS,
      tx_deadline_ms = now + SIP_TRANSACTION_TIMEOUT_MS, tx_interval_ms = ucast SIP_T1_MS, tx_retries = 0,
      tx_udp = \<not> tcp, tx_completed = False\<rparr>"

text \<open>\<open>std::min\<close> of the doubled interval, cut to 16 bits, and a bound.\<close>

definition doubled :: "u32 \<Rightarrow> u16 \<Rightarrow> u16" where
  "doubled bound interval = min (interval * 2) (ucast bound)"

definition clamp_next :: "u32 \<Rightarrow> u32 \<Rightarrow> u32" where
  "clamp_next next deadline = (if time_reached next deadline then deadline else next)"

datatype pump_action = PumpIdle | PumpTimeout | PumpWait | PumpSend

definition pump_choice :: "u32 \<Rightarrow> udp_transaction \<Rightarrow> pump_action" where
  "pump_choice now t =
     (if tx_empty t \<or> tx_ip t = 0 \<or> tx_port t = 0 then PumpIdle
      else if time_reached now (tx_deadline_ms t) then PumpTimeout
      else if \<not> time_reached now (tx_next_ms t) then PumpIdle
      else if tx_completed t \<or> \<not> tx_udp t then PumpWait
      else PumpSend)"

definition after_retransmit :: "u32 \<Rightarrow> udp_transaction \<Rightarrow> udp_transaction" where
  "after_retransmit now t =
     (let interval = doubled SIP_T2_MS (tx_interval_ms t)
      in t\<lparr>tx_retries := tx_retries t + 1, tx_interval_ms := interval,
           tx_next_ms := clamp_next (now + ucast interval) (tx_deadline_ms t)\<rparr>)"

definition wait_deadline :: "udp_transaction \<Rightarrow> udp_transaction" where
  "wait_deadline t = t\<lparr>tx_next_ms := tx_deadline_ms t\<rparr>"

text \<open>A provisional response that could not be sent is retried for T2.\<close>

definition new_deferred_response :: "u32 \<Rightarrow> string \<Rightarrow> u32 \<Rightarrow> u16 \<Rightarrow> deferred_response" where
  "new_deferred_response now response ip port =
     \<lparr>dr_response = response, dr_ip = ip, dr_port = port, dr_next_ms = now + 20, dr_deadline_ms = now + SIP_T2_MS,
      dr_interval_ms = 20, dr_retries = 0\<rparr>"

definition after_failed_response :: "u32 \<Rightarrow> deferred_response \<Rightarrow> deferred_response" where
  "after_failed_response now d =
     (let interval = doubled SIP_T1_MS (dr_interval_ms d)
      in d\<lparr>dr_retries := dr_retries d + 1, dr_interval_ms := interval,
           dr_next_ms := clamp_next (now + ucast interval) (dr_deadline_ms d)\<rparr>)"

text \<open>The final response of an INVITE until its ACK.\<close>

definition after_final_retransmit :: "u32 \<Rightarrow> completed_server \<Rightarrow> completed_server" where
  "after_final_retransmit now c =
     (let interval = doubled SIP_T2_MS (cs_interval_ms c)
      in c\<lparr>cs_retransmits := cs_retransmits c + 1, cs_interval_ms := interval,
           cs_next_ms := clamp_next (now + ucast interval) (cs_deadline_ms c)\<rparr>)"

definition expire_server :: "u32 \<Rightarrow> completed_server \<Rightarrow> completed_server" where
  "expire_server now c =
     (if cs_response c \<noteq> [] \<and> time_reached now (cs_completed_ms c + SIP_TRANSACTION_TIMEOUT_MS)
      then no_completed_server else c)"

definition expire_client :: "u32 \<Rightarrow> completed_client \<Rightarrow> completed_client" where
  "expire_client now c =
     (if cc_ack c \<noteq> [] \<and> time_reached now (cc_completed_ms c + SIP_TRANSACTION_TIMEOUT_MS)
      then no_completed_client else c)"

section \<open>Matching\<close>

text \<open>Whether a retransmitted request has the body its Content-Length, if any, declares.\<close>

definition whole_message :: "string \<Rightarrow> bool" where
  "whole_message msg \<longleftrightarrow>
     (case (find_sub HEADER_END msg, sip_content_length msg) of
        (Some sep, Some n) \<Rightarrow>
          (header_value msg ''Content-Length'' = [] \<and> header_value msg ''l'' = []) \<or> length msg - sep - 4 = n
      | _ \<Rightarrow> False)"

definition server_matches :: "completed_server \<Rightarrow> string \<Rightarrow> u32 \<Rightarrow> string \<Rightarrow> bool \<Rightarrow> bool" where
  "server_matches c msg peer_ip method udp \<longleftrightarrow>
     cs_method c = method \<and> cs_call_id c = header_value msg ''Call-ID'' \<and>
     cs_cseq c = cseq_number (header_value msg ''CSeq'') \<and> cseq_method (header_value msg ''CSeq'') = method \<and>
     cs_peer_ip c = peer_ip \<and> cs_udp c = udp \<and>
     (cs_branch c = [] \<or> cs_branch c = via_branch (header_value msg ''Via''))"

definition ack_matches :: "completed_server \<Rightarrow> string \<Rightarrow> u32 \<Rightarrow> bool \<Rightarrow> bool" where
  "ack_matches c msg peer_ip tcp \<longleftrightarrow>
     cseq_method (header_value msg ''CSeq'') = ''ACK'' \<and> cseq_number (header_value msg ''CSeq'') = cs_cseq c \<and>
     header_value msg ''Call-ID'' = cs_call_id c \<and> peer_ip = cs_peer_ip c \<and> cs_udp c \<noteq> tcp \<and>
     tag_from_header (header_value msg ''From'') = cs_from_tag c \<and>
     tag_from_header (header_value msg ''To'') = cs_to_tag c \<and>
     (cs_status c < 300 \<or> cs_branch c = [] \<or> via_branch (header_value msg ''Via'') = cs_branch c)"

text \<open>
  The status of a response as \<open>atoi\<close> reads it from three characters; with a leading blank or sign
  the code gets less than 100, here 0, which all its users treat alike.
\<close>

definition status_digits :: "string \<Rightarrow> bool" where
  "status_digits msg \<longleftrightarrow>
     starts_with ''SIP/2.0 '' msg \<and> length msg \<ge> 12 \<and> is_digit (msg ! 8) \<and> is_digit (msg ! 9) \<and> is_digit (msg ! 10)"

definition response_status :: "string \<Rightarrow> nat" where
  "response_status msg = foldl (\<lambda>v c. v * 10 + (code c - 48)) 0 (takeWhile is_digit (take 3 (drop 8 msg)))"

definition client_matches :: "completed_client \<Rightarrow> string \<Rightarrow> u32 \<Rightarrow> bool \<Rightarrow> bool" where
  "client_matches c msg peer_ip udp \<longleftrightarrow>
     response_status msg \<ge> 200 \<and> cseq_method (header_value msg ''CSeq'') = ''INVITE'' \<and>
     header_value msg ''Call-ID'' = cc_call_id c \<and> cseq_number (header_value msg ''CSeq'') = cc_cseq c \<and>
     peer_ip = cc_response_ip c \<and> cc_udp c = udp \<and>
     (cc_branch c = [] \<or> via_branch (header_value msg ''Via'') = cc_branch c)"

end
