(* ===== verification/SipRequests.thy ===== *)
theory SipRequests
  imports SipSignals SipTransactions SdpLearn
begin

text \<open>
  The state of a SIP transport and how it puts messages on the wire: the socket layer of
  \<open>sip_transport.cpp\<close>, and the requests and responses of \<open>sip_request_response.cpp\<close>. The build
  without video (without \<open>USE_ESPHOME_VOIP_STACK_VIDEO\<close>) is modelled, and no call transfer is under way: the members of
  \<open>SipTransport\<close> for those are left out, and the logical call identifiers stay empty. Sockets,
  clock, random numbers and the address conversions of lwIP are the record \<open>sip_env\<close>; what the
  transport does to the outside is the list of its effects.
\<close>

definition VOIP_STACK_MAX_ROUTE_ID_LEN :: nat where "VOIP_STACK_MAX_ROUTE_ID_LEN = 64"
definition VOIP_STACK_MAX_NAME_LEN :: nat where "VOIP_STACK_MAX_NAME_LEN = 64"

section \<open>Environment and state\<close>

text \<open>One \<open>sendto\<close>: the datagram is taken, refused for lack of buffers, or refused for good.\<close>

datatype attempt = Taken | Pressure | Refused

record sip_env =
  sip_now :: u32
  udp_attempts :: "nat \<Rightarrow> attempt list"
  tcp_takes :: "nat \<Rightarrow> bool"
  random_word :: "nat \<Rightarrow> u32"
  local_ip_for :: "u32 \<Rightarrow> string"
  ip_text_of :: "u32 \<Rightarrow> string"
  ip_of_text :: "string \<Rightarrow> u32 option"

datatype sip_event = NoEvent | InviteEvent | AckEvent | CancelEvent | ByeEvent | OptionsEvent | UpdateEvent | ResponseEvent

datatype media_phase = MediaIdle | MediaActive | MediaCleaning | MediaShuttingDown | MediaPrepared

datatype sip_effect =
    UdpOut u32 u16 string
  | TcpOut string
  | TcpShutdown
  | ConnectionLost
  | Signal sip_signal
  | TransferRequest string u32 u16
  | MediaQuiesced
  | ConnectionMade

text \<open>
  A route and a display name. In the state \<open>tcp_connected\<close> says that the flow has a socket, and
  \<open>tcp_connecting\<close> is the address and the deadline of a connection being made.
\<close>

type_synonym identity = "string \<times> string"

record sip_state =
  sdp :: endpoint
  sip_port :: u16
  sip_running :: bool
  transport_stopping :: bool
  remote_ip :: u32
  remote_sip_port :: u16
  remote_sip_tcp :: bool
  dlg_call_id :: string
  local_tag :: string
  remote_tag :: string
  invite_branch :: string
  local_uri :: string
  local_contact_uri :: string
  remote_uri :: string
  remote_target_uri :: string
  last_invite_via :: string
  last_invite_from :: string
  last_invite_to :: string
  last_invite_cseq :: string
  last_invite_response :: string
  last_invite_cseq_number :: u32
  remote_dialog_cseq :: u32
  last_invite_peer_ip :: u32
  last_invite_peer_port :: u16
  caller_id :: identity
  destination_id :: identity
  peer_supports_from_change :: bool
  connected_identity_sent :: bool
  dialog_originated :: bool
  delayed_offer_pending :: bool
  dlg_cseq :: u32
  invite_cseq :: u32
  pending_invite :: udp_transaction
  pending_cancel :: udp_transaction
  pending_bye :: udp_transaction
  pending_update :: udp_transaction
  pending_provisional :: deferred_response
  completed_invite :: completed_server
  completed_control :: completed_server
  completed_invite_client :: completed_client
  terminate_after_invite_ack :: bool
  media_active :: bool
  outgoing_invite_pending :: bool
  cancel_requested :: bool
  media_lifecycle :: media_phase
  rtp_running :: bool
  rtp_task :: bool
  rtp_quiesced :: bool
  rtp_bound :: bool
  rtp_latch :: "u32 \<times> u16 \<times> u32 \<times> bool"
  sip_socket_open :: bool
  tcp_connected :: bool
  tcp_peer :: u32
  tcp_target :: "u32 \<times> u16"
  tcp_connect_requested :: bool
  tcp_close_requested :: bool
  tcp_rx :: string
  tcp_pending :: string
  tcp_connecting :: "(u32 \<times> u16 \<times> u32) option"
  last_sip_event :: sip_event
  last_sip_status :: u16
  sip_sends :: nat
  randoms :: nat
  sip_effects :: "sip_effect list"

text \<open>The members as a transport has them that has been started: no dialog, nothing pending.\<close>

definition started_transport :: "endpoint \<Rightarrow> u16 \<Rightarrow> sip_state" where
  "started_transport e listening =
     \<lparr>sdp = e, sip_port = listening, sip_running = True, transport_stopping = False, remote_ip = 0, remote_sip_port = 5060,
      remote_sip_tcp = False, dlg_call_id = [], local_tag = [], remote_tag = [], invite_branch = [], local_uri = [],
      local_contact_uri = [], remote_uri = [], remote_target_uri = [], last_invite_via = [], last_invite_from = [],
      last_invite_to = [], last_invite_cseq = [], last_invite_response = [], last_invite_cseq_number = 0,
      remote_dialog_cseq = 0, last_invite_peer_ip = 0, last_invite_peer_port = 0, caller_id = ([], []),
      destination_id = ([], []), peer_supports_from_change = False, connected_identity_sent = False,
      dialog_originated = False, delayed_offer_pending = False, dlg_cseq = 1, invite_cseq = 1,
      pending_invite = no_transaction, pending_cancel = no_transaction, pending_bye = no_transaction,
      pending_update = no_transaction, pending_provisional = no_deferred_response,
      completed_invite = no_completed_server, completed_control = no_completed_server,
      completed_invite_client = no_completed_client, terminate_after_invite_ack = False, media_active = False,
      outgoing_invite_pending = False, cancel_requested = False, media_lifecycle = MediaIdle, rtp_running = False,
      rtp_task = True, rtp_quiesced = True, rtp_bound = False, rtp_latch = (0, 0, 0, False), sip_socket_open = True,
      tcp_connected = False, tcp_peer = 0, tcp_target = (0, 0), tcp_connect_requested = False,
      tcp_close_requested = False, tcp_rx = [], tcp_pending = [], tcp_connecting = None, last_sip_event = NoEvent, last_sip_status = 0, sip_sends = 0, randoms = 0,
      sip_effects = []\<rparr>"

definition do_effect :: "sip_effect \<Rightarrow> sip_state \<Rightarrow> sip_state" where
  "do_effect e s = s\<lparr>sip_effects := sip_effects s @ [e]\<rparr>"

definition emit_signal :: "sip_signal \<Rightarrow> sip_state \<Rightarrow> sip_state" where
  "emit_signal g s = do_effect (Signal g) s"

definition mark_sip_event :: "sip_event \<Rightarrow> u16 \<Rightarrow> sip_state \<Rightarrow> sip_state" where
  "mark_sip_event e st s = s\<lparr>last_sip_event := e, last_sip_status := (if st \<noteq> 0 then st else last_sip_status s)\<rparr>"

definition sip_event_from_method :: "string \<Rightarrow> sip_event" where
  "sip_event_from_method m =
     (if m = ''INVITE'' then InviteEvent else if m = ''ACK'' then AckEvent else if m = ''CANCEL'' then CancelEvent
      else if m = ''BYE'' then ByeEvent else if m = ''OPTIONS'' then OptionsEvent else if m = ''UPDATE'' then UpdateEvent
      else NoEvent)"

definition next_random :: "sip_env \<Rightarrow> sip_state \<Rightarrow> u32 \<times> sip_state" where
  "next_random env s = (random_word env (randoms s), s\<lparr>randoms := randoms s + 1\<rparr>)"

definition fresh_token :: "sip_env \<Rightarrow> string \<Rightarrow> sip_state \<Rightarrow> string \<times> sip_state" where
  "fresh_token env prefix s = (case next_random env s of (r, s1) \<Rightarrow> (make_token prefix r (sip_now env), s1))"

definition BRANCH_MAGIC :: string where "BRANCH_MAGIC = ''z9hG4bK''"

definition fresh_branch :: "sip_env \<Rightarrow> sip_state \<Rightarrow> string \<times> sip_state" where
  "fresh_branch env s = (case fresh_token env [] s of (t, s1) \<Rightarrow> (BRANCH_MAGIC @ t, s1))"

section \<open>Sockets\<close>

text \<open>Up to three attempts; only a lack of buffers is worth another.\<close>

fun datagram_taken :: "nat \<Rightarrow> attempt list \<Rightarrow> bool" where
  "datagram_taken (Suc n) (Taken # _) = True"
| "datagram_taken (Suc n) (Pressure # as) = datagram_taken n as"
| "datagram_taken _ _ = False"

definition send_sip_udp :: "sip_env \<Rightarrow> string \<Rightarrow> u32 \<Rightarrow> u16 \<Rightarrow> sip_state \<Rightarrow> bool \<times> sip_state" where
  "send_sip_udp env msg dst dport s =
     (if \<not> sip_socket_open s \<or> dst = 0 \<or> dport = 0 then (False, s)
      else
        let s1 = s\<lparr>sip_sends := sip_sends s + 1\<rparr>
        in if datagram_taken 3 (udp_attempts env (sip_sends s)) then (True, do_effect (UdpOut dst dport msg) s1)
           else (False, s1))"

text \<open>Without a stream one record waits for the connection; a record that fails shuts the stream down.\<close>

definition send_sip_tcp :: "sip_env \<Rightarrow> string \<Rightarrow> sip_state \<Rightarrow> bool \<times> sip_state" where
  "send_sip_tcp env msg s =
     (if msg = [] then (False, s)
      else if \<not> tcp_connected s \<or> tcp_close_requested s \<or> tcp_connect_requested s
      then if remote_sip_tcp s \<and> tcp_pending s = [] then (True, s\<lparr>tcp_pending := msg\<rparr>) else (False, s)
      else
        let s1 = s\<lparr>sip_sends := sip_sends s + 1\<rparr>
        in if tcp_takes env (sip_sends s) then (True, do_effect (TcpOut msg) s1) else (False, do_effect TcpShutdown s1))"

definition send_sip :: "sip_env \<Rightarrow> string \<Rightarrow> u32 \<Rightarrow> u16 \<Rightarrow> sip_state \<Rightarrow> bool \<times> sip_state" where
  "send_sip env msg dst dport s = (if remote_sip_tcp s then send_sip_tcp env msg s else send_sip_udp env msg dst dport s)"

section \<open>Requests\<close>

text \<open>The options of a request: a sequence number, the method of the CSeq, a branch.\<close>

record request_options =
  opt_cseq :: u32
  opt_cseq_method :: string
  opt_branch :: string

definition no_options :: request_options where
  "no_options = \<lparr>opt_cseq = 0, opt_cseq_method = [], opt_branch = []\<rparr>"

definition remember_udp_transaction ::
    "sip_env \<Rightarrow> string \<Rightarrow> string \<Rightarrow> u32 \<Rightarrow> u16 \<Rightarrow> sip_state \<Rightarrow> sip_state" where
  "remember_udp_transaction env method msg dst dport s =
     (if msg = [] \<or> dst = 0 \<or> dport = 0 then s
      else
        let t = new_transaction (sip_now env) (remote_sip_tcp s) msg dst dport
        in if method = ''INVITE'' then s\<lparr>pending_invite := t\<rparr>
           else if method = ''CANCEL'' then s\<lparr>pending_cancel := t\<rparr>
           else if method = ''BYE'' then s\<lparr>pending_bye := t\<rparr>
           else if method = ''UPDATE'' then s\<lparr>pending_update := t\<rparr>
           else s)"

definition remember_completed_invite_ack :: "sip_env \<Rightarrow> string \<Rightarrow> u32 \<Rightarrow> u16 \<Rightarrow> sip_state \<Rightarrow> sip_state" where
  "remember_completed_invite_ack env msg dst dport s =
     (if msg = [] \<or> dst = 0 \<or> dport = 0 then s
      else s\<lparr>completed_invite_client :=
               \<lparr>cc_call_id = dlg_call_id s, cc_branch = invite_branch s, cc_ack = msg, cc_cseq = invite_cseq s,
                cc_response_ip = remote_ip s, cc_ack_ip = dst, cc_ack_port = dport, cc_completed_ms = sip_now env,
                cc_udp = \<not> remote_sip_tcp s\<rparr>\<rparr>)"

definition ALLOW_LINE :: string where
  "ALLOW_LINE = ''Allow: ACK, BYE, CANCEL, INVITE, OPTIONS, UPDATE, REFER'' @ CRLF"

definition USER_AGENT_LINE :: string where
  "USER_AGENT_LINE = ''User-Agent: ESPHome-VoIP-Stack-SIP'' @ CRLF"

definition identity_headers :: "sip_state \<Rightarrow> string" where
  "identity_headers s =
     ''X-Voip-Stack-Caller-Route: '' @ sip_route_id (fst (caller_id s)) VOIP_STACK_MAX_ROUTE_ID_LEN @ CRLF @
     ''X-Voip-Stack-Caller-Name: '' @ sip_header_token (snd (caller_id s)) VOIP_STACK_MAX_NAME_LEN @ CRLF @
     ''X-Voip-Stack-Dest-Route: '' @ sip_route_id (fst (destination_id s)) VOIP_STACK_MAX_ROUTE_ID_LEN @ CRLF @
     ''X-Voip-Stack-Dest-Name: '' @ sip_header_token (snd (destination_id s)) VOIP_STACK_MAX_NAME_LEN @ CRLF"

definition contact_of :: "sip_state \<Rightarrow> string" where
  "contact_of s = (if local_contact_uri s = [] then local_uri s else local_contact_uri s)"

definition tag_suffix :: "string \<Rightarrow> string" where
  "tag_suffix tag = (if tag = [] then [] else '';tag='' @ tag)"

definition request_text ::
    "sip_env \<Rightarrow> string \<Rightarrow> string \<Rightarrow> string \<Rightarrow> string \<Rightarrow> u32 \<Rightarrow> string \<Rightarrow> sip_state \<Rightarrow> string" where
  "request_text env method uri branch cseq_method_text number body s =
     method @ '' '' @ uri @ '' SIP/2.0'' @ CRLF @
     ''Via: SIP/2.0/'' @ (if remote_sip_tcp s then ''TCP'' else ''UDP'') @ '' '' @ local_ip_for env (remote_ip s) @ '':'' @
       dec_word (sip_port s) @ '';branch='' @ branch @ '';rport'' @ CRLF @
     ''Max-Forwards: 70'' @ CRLF @
     ''From: '' @ local_uri s @ '';tag='' @ local_tag s @ CRLF @
     ''To: '' @ remote_uri s @ tag_suffix (remote_tag s) @ CRLF @
     ''Call-ID: '' @ dlg_call_id s @ CRLF @
     ''CSeq: '' @ dec_word number @ '' '' @ cseq_method_text @ CRLF @
     ''Contact: '' @ contact_of s @ CRLF @
     USER_AGENT_LINE @ ALLOW_LINE @
     ''Supported: from-change'' @ CRLF @
     (if method = ''INVITE'' then identity_headers s else []) @
     (if body \<noteq> [] then ''Content-Type: application/sdp'' @ CRLF else []) @
     ''Content-Length: '' @ dec (length body) @ HEADER_END @ body"

text \<open>The branch of a request: given, the one of the INVITE, or a new one.\<close>

definition request_branch :: "sip_env \<Rightarrow> string \<Rightarrow> request_options \<Rightarrow> sip_state \<Rightarrow> string \<times> sip_state" where
  "request_branch env method opts s =
     (if opt_branch opts \<noteq> [] then (opt_branch opts, s)
      else if method = ''INVITE'' \<or> method = ''CANCEL'' then
        (if invite_branch s = [] then (case fresh_branch env s of (b, s1) \<Rightarrow> (b, s1\<lparr>invite_branch := b\<rparr>))
         else (invite_branch s, s))
      else fresh_branch env s)"

definition request_uri_of :: "sip_env \<Rightarrow> sip_state \<Rightarrow> string" where
  "request_uri_of env s =
     (if remote_target_uri s \<noteq> [] then remote_target_uri s
      else if strip_angle_uri (remote_uri s) \<noteq> [] then strip_angle_uri (remote_uri s)
      else ''sip:voip@'' @ ip_text_of env (remote_ip s))"

text \<open>Over UDP the next hop is the one the Request-URI names.\<close>

definition request_target :: "sip_env \<Rightarrow> sip_state \<Rightarrow> u32 \<times> u16" where
  "request_target env s =
     (if remote_sip_tcp s then (remote_ip s, remote_sip_port s)
      else case sip_uri_ipv4_target (ip_of_text env) (request_uri_of env s) of
             None \<Rightarrow> (remote_ip s, remote_sip_port s)
           | Some target \<Rightarrow> target)"

definition transaction_method :: "string \<Rightarrow> bool" where
  "transaction_method m \<longleftrightarrow> m = ''INVITE'' \<or> m = ''CANCEL'' \<or> m = ''BYE'' \<or> m = ''UPDATE''"

definition send_request :: "sip_env \<Rightarrow> string \<Rightarrow> string \<Rightarrow> request_options \<Rightarrow> sip_state \<Rightarrow> bool \<times> sip_state" where
  "send_request env method body opts s =
     (if remote_ip s = 0 \<or> remote_sip_port s = 0 \<or> dlg_call_id s = [] then (False, s)
      else
        let (branch, s1) = request_branch env method opts s;
            uri = request_uri_of env s1;
            (dst, dport) = request_target env s1;
            number = (if opt_cseq opts = 0 then dlg_cseq s1 else opt_cseq opts);
            s2 = (if opt_cseq opts = 0 then s1\<lparr>dlg_cseq := dlg_cseq s1 + 1\<rparr> else s1);
            msg = request_text env method uri branch (if opt_cseq_method opts = [] then method else opt_cseq_method opts) number body s2;
            s3 = (if method = ''ACK'' then remember_completed_invite_ack env msg dst dport s2 else s2);
            udp_transaction = (transaction_method method \<and> \<not> remote_sip_tcp s3);
            (sent, s4) = send_sip env msg dst dport s3;
            s5 = (if sent \<or> udp_transaction
                  then let e = sip_event_from_method method; s' = (if e \<noteq> NoEvent then mark_sip_event e 0 s4 else s4)
                       in if transaction_method method then remember_udp_transaction env method msg dst dport s' else s'
                  else s4)
        in (sent \<or> udp_transaction, s5))"

definition send_invite_error_ack :: "sip_env \<Rightarrow> sip_state \<Rightarrow> bool \<times> sip_state" where
  "send_invite_error_ack env s =
     (if invite_branch s = [] then (False, s)
      else send_request env ''ACK'' [] \<lparr>opt_cseq = invite_cseq s, opt_cseq_method = ''ACK'', opt_branch = invite_branch s\<rparr> s)"

definition send_connected_identity_update :: "sip_env \<Rightarrow> sip_state \<Rightarrow> bool \<times> sip_state" where
  "send_connected_identity_update env s =
     (if dialog_originated s \<or> connected_identity_sent s \<or> \<not> peer_supports_from_change s \<or> \<not> media_active s then (False, s)
      else case send_request env ''UPDATE'' [] no_options s of
             (sent, s1) \<Rightarrow> (sent, if sent then s1\<lparr>connected_identity_sent := True\<rparr> else s1))"

section \<open>Responses\<close>

text \<open>What a response is made of; \<open>rf_retry\<close> is a Retry-After that is not negative.\<close>

record response_form =
  rf_status :: u16
  rf_reason :: string
  rf_via :: string
  rf_from :: string
  rf_to :: string
  rf_call_id :: string
  rf_cseq :: string
  rf_app_reason :: string
  rf_body :: string
  rf_contact :: bool
  rf_add_tag :: bool
  rf_stateless :: bool
  rf_retry :: "nat option"

definition response_text :: "response_form \<Rightarrow> string \<Rightarrow> sip_state \<Rightarrow> string" where
  "response_text f to_tag s =
     (let reason = sip_header_token (rf_app_reason f) VOIP_STACK_MAX_REASON_LEN in
      ''SIP/2.0 '' @ dec_word (rf_status f) @ '' '' @ rf_reason f @ CRLF @
      ''Via: '' @ rf_via f @ CRLF @ ''From: '' @ rf_from f @ CRLF @ ''To: '' @ rf_to f @ to_tag @ CRLF @
      ''Call-ID: '' @ rf_call_id f @ CRLF @ ''CSeq: '' @ rf_cseq f @ CRLF @
      (if rf_contact f then ''Contact: '' @ contact_of s @ CRLF @ USER_AGENT_LINE else []) @
      (if cseq_method (rf_cseq f) = ''INVITE'' \<and> rf_status f > 100 \<and> rf_status f < 300
       then ''Supported: from-change'' @ CRLF else []) @
      (if reason \<noteq> [] \<and> (\<not> rf_stateless f \<or> rf_status f \<ge> 300)
       then ''Reason: X-Voip-Stack;cause='' @ dec_word (rf_status f) @ '';text='' @ sip_quoted reason @ CRLF @
            ''X-Voip-Stack-Decline-Reason: '' @ reason @ CRLF
       else []) @
      (if rf_status f = 405 then ALLOW_LINE else []) @
      (case rf_retry f of None \<Rightarrow> [] | Some n \<Rightarrow> ''Retry-After: '' @ dec n @ CRLF) @
      (if rf_body f \<noteq> [] then ''Content-Type: application/sdp'' @ CRLF else []) @
      ''Content-Length: '' @ dec (length (rf_body f)) @ HEADER_END @ rf_body f)"

definition format_response :: "sip_env \<Rightarrow> response_form \<Rightarrow> sip_state \<Rightarrow> string \<times> sip_state" where
  "format_response env f s =
     (if rf_add_tag f \<and> rf_status f \<noteq> 100 \<and> tag_from_header (rf_to f) = []
      then
        let s1 = (if local_tag s = [] then (case fresh_token env ''tag'' s of (t, s') \<Rightarrow> s'\<lparr>local_tag := t\<rparr>) else s)
        in (response_text f ('';tag='' @ local_tag s1) s1, s1)
      else (response_text f [] s, s))"

text \<open>A final response is kept for retransmissions of its request, an INVITE's until its ACK.\<close>

definition completed_response ::
    "sip_env \<Rightarrow> string \<Rightarrow> u32 \<Rightarrow> u16 \<Rightarrow> string \<Rightarrow> string \<Rightarrow> u16 \<Rightarrow> bool \<Rightarrow> completed_server" where
  "completed_response env req peer pport method resp st udp =
     \<lparr>cs_method = method, cs_call_id = header_value req ''Call-ID'', cs_branch = via_branch (header_value req ''Via''),
      cs_from_tag = tag_from_header (header_value resp ''From''), cs_to_tag = tag_from_header (header_value resp ''To''),
      cs_response = resp, cs_cseq = cseq_number (header_value req ''CSeq''), cs_peer_ip = peer, cs_peer_port = pport,
      cs_status = st, cs_completed_ms = sip_now env, cs_next_ms = sip_now env + SIP_T1_MS,
      cs_deadline_ms = sip_now env + SIP_TRANSACTION_TIMEOUT_MS, cs_interval_ms = ucast SIP_T1_MS, cs_retransmits = 0,
      cs_udp = udp, cs_awaiting_ack = (method = ''INVITE'')\<rparr>"

text \<open>The final response of the dialog that still waits for its ACK is not given up for another INVITE.\<close>

definition keeps_other_response :: "string \<Rightarrow> string \<Rightarrow> sip_state \<Rightarrow> bool" where
  "keeps_other_response req method s \<longleftrightarrow>
     (let old = completed_invite s in
      method = ''INVITE'' \<and> cs_awaiting_ack old \<and> cs_call_id old = dlg_call_id s \<and> last_invite_cseq_number s \<noteq> 0 \<and>
      (cs_call_id old \<noteq> header_value req ''Call-ID'' \<or> cs_cseq old \<noteq> cseq_number (header_value req ''CSeq'') \<or>
       cs_branch old \<noteq> via_branch (header_value req ''Via'')))"

definition remember_completed_response ::
    "sip_env \<Rightarrow> string \<Rightarrow> u32 \<Rightarrow> u16 \<Rightarrow> string \<Rightarrow> string \<Rightarrow> sip_state \<Rightarrow> sip_state" where
  "remember_completed_response env req peer pport method resp s =
     (if resp = [] \<or> peer = 0 \<or> pport = 0 \<or>
         \<not> (method = ''INVITE'' \<or> method = ''CANCEL'' \<or> method = ''BYE'' \<or> method = ''UPDATE'' \<or> method = ''REFER'') \<or>
         \<not> starts_with ''SIP/2.0 '' resp \<or> length resp < 12
      then s
      else case parse_decimal_u32 (substr resp 8 3) 699 of
             None \<Rightarrow> s
           | Some st \<Rightarrow>
               if st < 200 \<or> header_value req ''Call-ID'' = [] \<or> cseq_number (header_value req ''CSeq'') = 0 \<or>
                  keeps_other_response req method s
               then s
               else
                 let c = completed_response env req peer pport method resp (ucast st) (\<not> remote_sip_tcp s)
                 in if method = ''INVITE'' then s\<lparr>completed_invite := c\<rparr> else s\<lparr>completed_control := c\<rparr>)"

definition defer_udp_provisional_response :: "sip_env \<Rightarrow> string \<Rightarrow> u32 \<Rightarrow> u16 \<Rightarrow> sip_state \<Rightarrow> sip_state" where
  "defer_udp_provisional_response env resp dst dport s =
     (if resp = [] \<or> dst = 0 \<or> dport = 0 then s
      else s\<lparr>pending_provisional := new_deferred_response (sip_now env) resp dst dport\<rparr>)"

text \<open>A response within the dialog of the last INVITE.\<close>

definition send_response :: "sip_env \<Rightarrow> u16 \<Rightarrow> string \<Rightarrow> string \<Rightarrow> string \<Rightarrow> sip_state \<Rightarrow> bool \<times> sip_state" where
  "send_response env st reason body app_reason s =
     (let dst = last_invite_peer_ip s; dport = last_invite_peer_port s in
      if dst = 0 \<or> dport = 0 \<or> last_invite_via s = [] then (False, s)
      else
        let (msg, s1) = format_response env
              \<lparr>rf_status = st, rf_reason = reason,
               rf_via = response_via_with_rport (ip_text_of env) (last_invite_via s) dst dport,
               rf_from = last_invite_from s, rf_to = last_invite_to s, rf_call_id = dlg_call_id s,
               rf_cseq = last_invite_cseq s, rf_app_reason = app_reason, rf_body = body, rf_contact = True,
               rf_add_tag = True, rf_stateless = False, rf_retry = None\<rparr> s;
            s2 = s1\<lparr>pending_provisional := no_deferred_response, last_invite_response := msg\<rparr>;
            s3 = (if st \<ge> 200
                  then remember_completed_response env
                         (''Via: '' @ last_invite_via s2 @ CRLF @ ''Call-ID: '' @ dlg_call_id s2 @ CRLF @
                          ''CSeq: '' @ last_invite_cseq s2 @ CRLF)
                         dst dport ''INVITE'' msg s2
                  else s2);
            owned = (st \<ge> 200 \<and> cs_awaiting_ack (completed_invite s3) \<and> cs_response (completed_invite s3) = msg);
            (sent, s4) = send_sip env msg dst dport s3;
            deferred = (\<not> sent \<and> st < 200 \<and> \<not> remote_sip_tcp s4);
            s5 = (if deferred then defer_udp_provisional_response env msg dst dport s4 else s4)
        in if \<not> sent \<and> \<not> owned \<and> \<not> deferred then (False, s5) else (True, mark_sip_event ResponseEvent st s5))"

text \<open>A response outside a dialog, from the headers of the request alone.\<close>

definition stateless_to :: "sip_env \<Rightarrow> string \<Rightarrow> string \<Rightarrow> bool \<Rightarrow> sip_state \<Rightarrow> string \<times> sip_state" where
  "stateless_to env to method cache s =
     (if cache \<and> tag_from_header to = []
      then if method = ''INVITE'' \<or> local_tag s = []
           then (case fresh_token env ''tag'' s of (t, s1) \<Rightarrow> (to @ '';tag='' @ t, s1))
           else (to @ '';tag='' @ local_tag s, s)
      else (to, s))"

definition send_stateless_response ::
    "sip_env \<Rightarrow> string \<Rightarrow> u32 \<Rightarrow> u16 \<Rightarrow> u16 \<Rightarrow> string \<Rightarrow> string \<Rightarrow> bool \<Rightarrow> nat option \<Rightarrow> sip_state \<Rightarrow> bool \<times> sip_state" where
  "send_stateless_response env req src sport st reason app_reason cache retry s =
     (let via = header_values req ''Via''; from = header_value req ''From''; to = header_value req ''To'';
          cid = header_value req ''Call-ID''; cseq = header_value req ''CSeq''; method = cseq_method cseq
      in if via = [] \<or> from = [] \<or> to = [] \<or> cid = [] \<or> cseq = [] then (False, s)
         else
           let (response_to, s1) = stateless_to env to method cache s;
               (msg, s2) = format_response env
                 \<lparr>rf_status = st, rf_reason = reason, rf_via = response_via_with_rport (ip_text_of env) via src sport,
                  rf_from = from, rf_to = response_to, rf_call_id = cid, rf_cseq = cseq, rf_app_reason = app_reason,
                  rf_body = [], rf_contact = ((method = ''UPDATE'' \<or> method = ''REFER'') \<and> st \<ge> 200 \<and> st < 300),
                  rf_add_tag = False, rf_stateless = True, rf_retry = retry\<rparr> s1;
               s3 = (if cache \<and> st \<ge> 200 then remember_completed_response env req src sport method msg s2 else s2);
               kept = (if method = ''INVITE'' then completed_invite s3 else completed_control s3);
               owned = (cache \<and> st \<ge> 200 \<and> cs_udp kept \<and> cs_response kept = msg);
               (sent, s4) = send_sip env msg src sport s3
           in if \<not> sent \<and> \<not> owned then (False, s4) else (True, mark_sip_event ResponseEvent st s4))"

end
