(* ===== verification/SipDialog.thy ===== *)
theory SipDialog
  imports SipRequests
begin

text \<open>
  The dialog of the SIP transport (\<open>sip_transport.cpp\<close>): its reset, the terminal transactions, the
  client operations the call state machine asks for, the handling of requests and responses, and
  the timers of the signaling task. Locks and the wake-up of tasks are left out: every operation here
  holds the dialog lock in the code.
\<close>

section \<open>Media lifecycle\<close>

definition close_media_session :: "sip_state \<Rightarrow> sip_state" where
  "close_media_session s = s\<lparr>media_active := False\<rparr>"

definition open_media_session :: "sip_state \<Rightarrow> sip_state" where
  "open_media_session s = s\<lparr>media_active := True\<rparr>"

definition reset_rtp_latch :: "sip_state \<Rightarrow> sip_state" where
  "reset_rtp_latch s = s\<lparr>rtp_latch := (0, 0, 0, False)\<rparr>"

definition finish_audio_path_stop :: "sip_state \<Rightarrow> sip_state" where
  "finish_audio_path_stop s = s\<lparr>rtp_bound := False\<rparr>"

definition request_audio_path_stop :: "sip_state \<Rightarrow> sip_state" where
  "request_audio_path_stop s0 =
     (let s = close_media_session s0 in
      if media_lifecycle s = MediaCleaning \<or> media_lifecycle s = MediaShuttingDown then s
      else
        let was_running = rtp_running s; s1 = s\<lparr>rtp_running := False\<rparr>
        in if media_lifecycle s = MediaIdle \<and> \<not> was_running then s1
           else if \<not> rtp_task s1
           then (finish_audio_path_stop s1)\<lparr>rtp_quiesced := True, media_lifecycle := MediaIdle\<rparr>
           else s1\<lparr>media_lifecycle := MediaCleaning, rtp_quiesced := False\<rparr>)"

section \<open>Reset\<close>

definition clear_udp_transactions :: "sip_state \<Rightarrow> sip_state" where
  "clear_udp_transactions s =
     s\<lparr>pending_invite := no_transaction, pending_cancel := no_transaction, pending_bye := no_transaction,
       pending_update := no_transaction\<rparr>"

text \<open>A request still waiting for its connection is taken back.\<close>

definition retract_tcp_record :: "sip_state \<Rightarrow> sip_state" where
  "retract_tcp_record s =
     (if tcp_pending s = [] then s
      else s\<lparr>tcp_pending := [], tcp_connect_requested := False, tcp_close_requested := True\<rparr>)"

definition reset_negotiation :: "endpoint \<Rightarrow> endpoint" where
  "reset_negotiation e =
     e\<lparr>remote_directional_audio := False, remote_media_shape := shape_clear (remote_media_shape e),
       sdp_session_id := 0, sdp_session_version := 0\<rparr>"

definition reset_dialog :: "sip_state \<Rightarrow> sip_state" where
  "reset_dialog s0 =
     (let s = retract_tcp_record (request_audio_path_stop s0) in
      reset_rtp_latch (clear_udp_transactions (close_media_session s))
        \<lparr>dlg_call_id := [], local_tag := [], remote_tag := [], invite_branch := [], local_uri := [],
         local_contact_uri := [], remote_uri := [], remote_target_uri := [], last_invite_via := [],
         last_invite_from := [], last_invite_to := [], last_invite_cseq := [], last_invite_response := [],
         last_invite_cseq_number := 0, remote_dialog_cseq := 0, last_invite_peer_ip := 0, last_invite_peer_port := 0,
         caller_id := ([], []), destination_id := ([], []), peer_supports_from_change := False,
         connected_identity_sent := False, dialog_originated := False, delayed_offer_pending := False,
         outgoing_invite_pending := False, cancel_requested := False, terminate_after_invite_ack := False,
         pending_provisional := no_deferred_response, sdp := reset_negotiation (sdp s)\<rparr>)"

definition terminal_transaction_owned :: "sip_state \<Rightarrow> bool" where
  "terminal_transaction_owned s \<longleftrightarrow>
     \<not> tx_empty (pending_cancel s) \<or> \<not> tx_empty (pending_bye s) \<or> cs_awaiting_ack (completed_invite s) \<or>
     terminate_after_invite_ack s"

text \<open>\<open>disconnect\<close> leaves a terminal transaction alone.\<close>

definition sip_disconnect :: "sip_state \<Rightarrow> sip_state" where
  "sip_disconnect s = (if terminal_transaction_owned s then s else reset_dialog s)"

section \<open>Ending a dialog\<close>

text \<open>A dialog accepted here is not confirmed before its ACK: a BYE has to wait for it.\<close>

definition unconfirmed_uas :: "sip_state \<Rightarrow> bool" where
  "unconfirmed_uas s \<longleftrightarrow>
     (let c = completed_invite s in
      cs_awaiting_ack c \<and> cs_status c \<ge> 200 \<and> cs_status c < 300 \<and> dlg_call_id s \<noteq> [] \<and>
      cs_call_id c = dlg_call_id s \<and> last_invite_cseq_number s = cs_cseq c)"

definition send_bye_unlocked :: "sip_env \<Rightarrow> string \<Rightarrow> sip_state \<Rightarrow> bool \<times> sip_state" where
  "send_bye_unlocked env cid s =
     (if dlg_call_id s = [] \<or> (cid \<noteq> [] \<and> cid \<noteq> dlg_call_id s) then (False, s)
      else if unconfirmed_uas s then (True, request_audio_path_stop (s\<lparr>terminate_after_invite_ack := True\<rparr>))
      else case send_request env ''BYE'' [] no_options (s\<lparr>pending_update := no_transaction\<rparr>) of
             (sent, s1) \<Rightarrow> (sent, request_audio_path_stop s1))"

text \<open>The call identifier a client operation names becomes that of the dialog.\<close>

definition adopt_call_id :: "string \<Rightarrow> sip_state \<Rightarrow> sip_state" where
  "adopt_call_id cid s = (if cid \<noteq> [] then s\<lparr>dlg_call_id := cid\<rparr> else s)"

definition queued_invite :: "sip_state \<Rightarrow> bool" where
  "queued_invite s \<longleftrightarrow>
     remote_sip_tcp s \<and> starts_with ''INVITE '' (tcp_pending s) \<and>
     header_value (tcp_pending s) ''Call-ID'' = dlg_call_id s"

definition send_cancel_unlocked :: "sip_env \<Rightarrow> string \<Rightarrow> sip_state \<Rightarrow> bool \<times> sip_state" where
  "send_cancel_unlocked env cid s0 =
     (let s = adopt_call_id cid s0 in
      if \<not> outgoing_invite_pending s then send_bye_unlocked env cid s
      else if queued_invite s
      then (True, reset_dialog (s\<lparr>tcp_pending := [], tcp_connect_requested := False, tcp_close_requested := True\<rparr>))
      else
        case send_request env ''CANCEL'' [] (no_options\<lparr>opt_cseq := invite_cseq s\<rparr>) (s\<lparr>cancel_requested := True\<rparr>) of
          (True, s1) \<Rightarrow> (True, s1\<lparr>pending_invite := no_transaction\<rparr>)
        | (False, s1) \<Rightarrow> (False, s1\<lparr>cancel_requested := False\<rparr>))"

definition final_phrase :: "u16 \<Rightarrow> string" where
  "final_phrase st =
     (if st = 603 then ''Decline'' else if st = 488 then ''Not Acceptable Here''
      else if st = 487 then ''Request Terminated'' else if st = 500 then ''Server Internal Error'' else ''Busy Here'')"

definition send_final_response :: "sip_env \<Rightarrow> string \<Rightarrow> u16 \<Rightarrow> string \<Rightarrow> sip_state \<Rightarrow> bool \<times> sip_state" where
  "send_final_response env cid st reason s0 =
     (let s = adopt_call_id cid s0 in
      if outgoing_invite_pending s then send_cancel_unlocked env cid s
      else case send_response env st (final_phrase st) [] reason s of (sent, s1) \<Rightarrow> (sent, reset_dialog s1))"

section \<open>Calling and answering\<close>

definition sip_uri_of :: "sip_state \<Rightarrow> string \<Rightarrow> string \<Rightarrow> u16 \<Rightarrow> string" where
  "sip_uri_of s user host hport =
     ''sip:'' @ sip_uri_user_encode user @ ''@'' @ host @ '':'' @ dec_word hport @ '';transport='' @
     (if remote_sip_tcp s then ''tcp'' else ''udp'')"

text \<open>A session identifier is random and not 0.\<close>

definition new_session_id :: "sip_env \<Rightarrow> sip_state \<Rightarrow> sip_state" where
  "new_session_id env s =
     (case next_random env s of
        (r, s1) \<Rightarrow> s1\<lparr>sdp := (sdp s1)\<lparr>sdp_session_id := (if r = 0 then 1 else r), sdp_session_version := 0\<rparr>\<rparr>)"

definition ensure_local_tag :: "sip_env \<Rightarrow> sip_state \<Rightarrow> sip_state" where
  "ensure_local_tag env s =
     (if local_tag s = [] then (case fresh_token env ''tag'' s of (t, s1) \<Rightarrow> s1\<lparr>local_tag := t\<rparr>) else s)"

definition send_invite :: "sip_env \<Rightarrow> string \<Rightarrow> identity \<Rightarrow> identity \<Rightarrow> sip_state \<Rightarrow> bool \<times> sip_state" where
  "send_invite env cid from to s0 =
     (if \<not> sip_running s0 \<or> transport_stopping s0 \<or> terminal_transaction_owned s0 \<or> media_lifecycle s0 \<noteq> MediaIdle
      then (False, s0)
      else
        let s1 = (new_session_id env ((reset_dialog s0)\<lparr>dlg_call_id := cid\<rparr>))
                   \<lparr>dialog_originated := True, caller_id := from, destination_id := to, last_sip_status := 0\<rparr>
        in if remote_ip s1 = 0 then (False, reset_dialog s1)
           else
             let (branch, s2) = fresh_branch env (ensure_local_tag env s1);
                 local = sip_uri_of s2 (fst from) (local_ip_for env (remote_ip s2)) (sip_port s2);
                 remote = sip_uri_of s2 (fst to) (ip_text_of env (remote_ip s2)) (remote_sip_port s2);
                 s3 = s2\<lparr>invite_branch := branch, invite_cseq := dlg_cseq s2, local_uri := sip_name_addr local (snd from),
                         local_contact_uri := sip_name_addr local [], remote_uri := sip_name_addr remote (snd to),
                         remote_target_uri := strip_angle_uri (sip_name_addr remote (snd to))\<rparr>;
                 (offer, e) = build_sdp_offer (sdp s3) (local_ip_for env (remote_ip s3));
                 s4 = s3\<lparr>sdp := e\<rparr>
             in if offer = [] then (False, reset_dialog s4)
                else case send_request env ''INVITE'' offer (no_options\<lparr>opt_cseq := invite_cseq s4\<rparr>) s4 of
                       (False, s5) \<Rightarrow> (False, reset_dialog s5)
                     | (True, s5) \<Rightarrow>
                         (True, s5\<lparr>outgoing_invite_pending := True,
                                   dlg_cseq := (if dlg_cseq s5 \<le> invite_cseq s5 then invite_cseq s5 + 1 else dlg_cseq s5)\<rparr>))"

definition send_ringing :: "sip_env \<Rightarrow> string \<Rightarrow> sip_state \<Rightarrow> bool \<times> sip_state" where
  "send_ringing env cid s = send_response env 180 ''Ringing'' [] [] (adopt_call_id cid s)"

definition set_connected_identity :: "string \<Rightarrow> string \<Rightarrow> sip_state \<Rightarrow> sip_state" where
  "set_connected_identity new_route new_name s =
     (if dialog_originated s \<or> dlg_call_id s = [] \<or> strip_angle_uri (local_uri s) = [] then s
      else
        let uri = strip_angle_uri (local_uri s);
            clean = sip_route_id new_route VOIP_STACK_MAX_ROUTE_ID_LEN;
            uri' = (if clean \<noteq> [] \<and> starts_with ''sip:'' uri
                    then (case find_char_from (CHR ''@'') uri 4 of
                            None \<Rightarrow> uri
                          | Some at \<Rightarrow> take 4 uri @ sip_uri_user_encode clean @ drop at uri)
                    else uri);
            updated = sip_name_addr uri' new_name
        in if updated \<noteq> [] then s\<lparr>local_uri := updated\<rparr> else s)"

text \<open>The answer is the offer when the INVITE had none; without an answer the call is refused.\<close>

definition send_answer :: "sip_env \<Rightarrow> string \<Rightarrow> audio_format \<Rightarrow> audio_format \<Rightarrow> sip_state \<Rightarrow> bool \<times> sip_state" where
  "send_answer env cid caller_to_dest dest_to_caller s0 =
     (if \<not> sip_running s0 \<or> transport_stopping s0 then (False, s0)
      else
        let s1 = adopt_call_id cid s0; e = sdp s1;
            s2 = s1\<lparr>sdp := set_media_config e dest_to_caller caller_to_dest (rtp_tx_payload_type e) (rtp_rx_payload_type e)
                             (Some (negotiated_rx_payloads e)),
                    outgoing_invite_pending := False\<rparr>
        in if media_lifecycle s2 = MediaCleaning \<or> media_lifecycle s2 = MediaShuttingDown then (False, s2)
           else
             let host = local_ip_for env (remote_ip s2);
                 (answer, e') = (if delayed_offer_pending s2 then build_sdp_offer (sdp s2) host
                                 else (build_sdp_answer (sdp s2) host, sdp s2));
                 s3 = s2\<lparr>sdp := e'\<rparr>
             in if answer = []
                then (case send_response env 488 ''Not Acceptable Here'' [] ''media_incompatible'' s3 of
                        (sent, s4) \<Rightarrow> (sent, reset_dialog s4))
                else case send_response env 200 ''OK'' answer [] s3 of
                       (sent, s4) \<Rightarrow> (sent, if sent \<and> \<not> delayed_offer_pending s4 then open_media_session s4 else s4))"

end
