(* ===== verification/SipHandlers.thy ===== *)
theory SipHandlers
  imports SipDialog
begin

text \<open>
  The handling of SIP messages (\<open>sip_transport.cpp\<close>): retransmissions of completed transactions,
  INVITE and re-INVITE, responses, ACK, BYE, CANCEL and UPDATE, and the timers. A REFER that is
  no retransmission is handed on as the effect \<open>TransferRequest\<close>.
\<close>

section \<open>Completed transactions\<close>

definition replay_completed_response ::
    "sip_env \<Rightarrow> string \<Rightarrow> u32 \<Rightarrow> u16 \<Rightarrow> string \<Rightarrow> bool \<Rightarrow> sip_state \<Rightarrow> bool \<times> sip_state" where
  "replay_completed_response env msg src sport method udp s =
     (let c = (if method = ''INVITE'' then completed_invite s else completed_control s) in
      if \<not> whole_message msg \<or> cs_response c = [] then (False, s)
      else if sip_now env - cs_completed_ms c > SIP_TRANSACTION_TIMEOUT_MS
      then (False, if method = ''INVITE'' then s\<lparr>completed_invite := no_completed_server\<rparr>
                   else s\<lparr>completed_control := no_completed_server\<rparr>)
      else if \<not> server_matches c msg src method udp then (False, s)
      else (True, snd (if udp then send_sip_udp env (cs_response c) src sport s else send_sip env (cs_response c) src sport s)))"

definition replay_completed_invite_ack :: "sip_env \<Rightarrow> string \<Rightarrow> u32 \<Rightarrow> bool \<Rightarrow> sip_state \<Rightarrow> bool \<times> sip_state" where
  "replay_completed_invite_ack env msg src udp s =
     (let c = completed_invite_client s in
      if \<not> whole_message msg \<or> cc_ack c = [] then (False, s)
      else if sip_now env - cc_completed_ms c > SIP_TRANSACTION_TIMEOUT_MS
      then (False, s\<lparr>completed_invite_client := no_completed_client\<rparr>)
      else if \<not> starts_with ''SIP/2.0 '' msg \<or> length msg < 12 \<or> \<not> client_matches c msg src udp then (False, s)
      else (True, snd (if udp then send_sip_udp env (cc_ack c) (cc_ack_ip c) (cc_ack_port c) s
                       else send_sip env (cc_ack c) (cc_ack_ip c) (cc_ack_port c) s)))"

text \<open>The status an ACK completes, 0 for none, and whether the dialog has to end after it.\<close>

definition acknowledge_completed_invite :: "sip_env \<Rightarrow> string \<Rightarrow> u32 \<Rightarrow> sip_state \<Rightarrow> u16 \<times> bool \<times> sip_state" where
  "acknowledge_completed_invite env msg src s =
     (let c = completed_invite s in
      if cs_response c = [] then (0, False, s)
      else if time_reached (sip_now env) (cs_completed_ms c + SIP_TRANSACTION_TIMEOUT_MS)
      then (0, False, s\<lparr>completed_invite := no_completed_server\<rparr>)
      else if \<not> ack_matches c msg src (remote_sip_tcp s) then (0, False, s)
      else
        let s1 = s\<lparr>completed_invite := c\<lparr>cs_awaiting_ack := False\<rparr>\<rparr>; ends = (cs_status c < 300 \<and> terminate_after_invite_ack s1)
        in (cs_status c, ends, if ends then s1\<lparr>terminate_after_invite_ack := False\<rparr> else s1))"

text \<open>A request outside the dialog is answered 481.\<close>

definition in_dialog :: "string \<Rightarrow> u32 \<Rightarrow> string \<Rightarrow> sip_state \<Rightarrow> bool" where
  "in_dialog req src method s \<longleftrightarrow>
     header_value req ''Call-ID'' \<noteq> [] \<and> dlg_call_id s \<noteq> [] \<and> header_value req ''Call-ID'' = dlg_call_id s \<and>
     (remote_ip s = 0 \<or> src = remote_ip s) \<and>
     (method = ''BYE'' \<or> method = ''REFER'' \<longrightarrow>
        remote_tag s \<noteq> [] \<and> local_tag s \<noteq> [] \<and> tag_from_header (header_value req ''From'') = remote_tag s \<and>
        tag_from_header (header_value req ''To'') = local_tag s \<and> cseq_method (header_value req ''CSeq'') = method \<and>
        cseq_number (header_value req ''CSeq'') > remote_dialog_cseq s)"

definition no_such_transaction :: "sip_env \<Rightarrow> string \<Rightarrow> u32 \<Rightarrow> u16 \<Rightarrow> bool \<Rightarrow> sip_state \<Rightarrow> bool \<times> sip_state" where
  "no_such_transaction env req src sport cache s =
     send_stateless_response env req src sport 481 ''Call/Transaction Does Not Exist'' [] cache None s"

section \<open>INVITE\<close>

text \<open>A name from a header, else from an extension header, else the user of the URI.\<close>

definition name_of_invite :: "string \<Rightarrow> string \<Rightarrow> string \<Rightarrow> string" where
  "name_of_invite msg header extension =
     (let shown = sip_display_name_from_header header VOIP_STACK_MAX_NAME_LEN;
          declared = sip_header_token (header_value msg extension) VOIP_STACK_MAX_NAME_LEN
      in if shown \<noteq> [] then shown else if declared \<noteq> [] then declared
         else sip_header_token (sip_user_from_header header) VOIP_STACK_MAX_NAME_LEN)"

definition route_of_invite :: "string \<Rightarrow> string \<Rightarrow> string \<Rightarrow> string \<Rightarrow> string" where
  "route_of_invite msg user extension fallback =
     (let from_uri = sip_route_id user VOIP_STACK_MAX_ROUTE_ID_LEN;
          declared = sip_route_id (header_value msg extension) VOIP_STACK_MAX_ROUTE_ID_LEN
      in if from_uri \<noteq> [] then from_uri else if declared \<noteq> [] then declared else fallback)"

definition well_formed_invite :: "string \<Rightarrow> bool" where
  "well_formed_invite msg \<longleftrightarrow>
     header_value msg ''Call-ID'' \<noteq> [] \<and> header_values msg ''Via'' \<noteq> [] \<and> header_value msg ''From'' \<noteq> [] \<and>
     header_value msg ''To'' \<noteq> [] \<and> cseq_number (header_value msg ''CSeq'') \<noteq> 0 \<and>
     cseq_method (header_value msg ''CSeq'') = ''INVITE'' \<and> tag_from_header (header_value msg ''From'') \<noteq> []"

definition matching_dialog :: "string \<Rightarrow> sip_state \<Rightarrow> bool" where
  "matching_dialog msg s \<longleftrightarrow>
     header_value msg ''Call-ID'' = dlg_call_id s \<and> local_tag s \<noteq> [] \<and> remote_tag s \<noteq> [] \<and>
     tag_from_header (header_value msg ''To'') = local_tag s \<and> tag_from_header (header_value msg ''From'') = remote_tag s"

text \<open>The dialog a new INVITE opens, before its description is looked at.\<close>

definition open_uas_dialog :: "sip_env \<Rightarrow> string \<Rightarrow> u32 \<Rightarrow> u16 \<Rightarrow> string \<Rightarrow> string \<Rightarrow> sip_state \<Rightarrow> sip_state" where
  "open_uas_dialog env msg src sport cname dname s0 =
     (let from = header_value msg ''From''; to = header_value msg ''To''; cseq = header_value msg ''CSeq'';
          s1 = new_session_id env (s0\<lparr>remote_ip := src, remote_sip_port := sport, dlg_call_id := header_value msg ''Call-ID''\<rparr>);
          s2 = ensure_local_tag env (s1\<lparr>dialog_originated := False, last_invite_via := header_values msg ''Via'',
                 last_invite_from := from, last_invite_to := to, last_invite_cseq := cseq,
                 last_invite_cseq_number := cseq_number cseq, remote_dialog_cseq := cseq_number cseq,
                 last_invite_peer_ip := src, last_invite_peer_port := sport, remote_tag := tag_from_header from,
                 peer_supports_from_change := sip_option_supported msg ''from-change''\<rparr>);
          remote_uri' = strip_angle_uri from; contact = strip_angle_uri (header_value msg ''Contact'')
      in s2\<lparr>remote_uri := (if remote_uri' = [] then [] else sip_name_addr remote_uri' cname),
            remote_target_uri := (if contact = [] then strip_angle_uri from else contact),
            local_uri := sip_name_addr (strip_angle_uri to) dname,
            local_contact_uri := ''<'' @ sip_uri_of s2 (sip_user_from_header to) (local_ip_for env src) (sip_port s2) @ ''>''\<rparr>)"

text \<open>Whether the call has media both ends share; without a body the offer is left to this end.\<close>

definition invite_media :: "sip_env \<Rightarrow> string \<Rightarrow> u32 \<Rightarrow> sip_state \<Rightarrow> bool \<times> sip_state" where
  "invite_media env body src s =
     (if body = [] then
        let tx = offer_tx_formats (sdp s); rx = offer_rx_formats (sdp s) in
        (case choose_common_audio_format (if tx = [] then rx else tx) (if rx = [] then tx else rx) of
           None \<Rightarrow> (False, s)
         | Some shared \<Rightarrow>
             (True, s\<lparr>sdp := set_media_config (sdp s) (if tx = [] then disabled_audio_format else shared)
                              (if rx = [] then disabled_audio_format else shared) 96 96 None,
                      delayed_offer_pending := True\<rparr>))
      else case learn_remote_rtp (ip_of_text env) body src False (sdp s) of
             (ok, e) \<Rightarrow> (ok, s\<lparr>sdp := e, delayed_offer_pending := False\<rparr>))"

definition accept_new_invite :: "sip_env \<Rightarrow> string \<Rightarrow> u32 \<Rightarrow> u16 \<Rightarrow> string \<Rightarrow> string \<Rightarrow> sip_state \<Rightarrow> bool \<times> sip_state" where
  "accept_new_invite env msg src sport cname dname s0 =
     (case invite_media env (message_body msg) src (open_uas_dialog env msg src sport cname dname s0) of
        (False, s) \<Rightarrow>
          (case send_response env 488 ''Not Acceptable Here'' [] [] s of (sent, s1) \<Rightarrow> (sent, reset_dialog s1))
      | (True, s) \<Rightarrow>
          let s1 = snd (send_response env 100 ''Trying'' [] [] s) in
          if cname = [] \<or> dname = []
          then (case send_response env 400 ''Bad Request'' [] [] s1 of (sent, s2) \<Rightarrow> (sent, reset_dialog s2))
          else
            let from_route = route_of_invite msg (sip_user_from_header (header_value msg ''From'')) ''X-Voip-Stack-Caller-Route'' cname;
                to_route = route_of_invite msg (sip_user_from_header (sip_request_uri msg)) ''X-Voip-Stack-Dest-Route'' dname;
                s2 = s1\<lparr>caller_id := (from_route, cname), destination_id := (to_route, dname)\<rparr>
            in (True, emit_signal
                  (invite_signal (dlg_call_id s2) (caller_id s2) (destination_id s2) (selected_tx_format (sdp s2))
                     (selected_rx_format (sdp s2)) (delayed_offer_pending s2)) s2))"

subsection \<open>re-INVITE\<close>

text \<open>The members of a media proposal that are put back when it is not taken.\<close>

definition restore_media :: "endpoint \<Rightarrow> endpoint \<Rightarrow> endpoint" where
  "restore_media old e =
     (set_media_config e (selected_tx_format old) (selected_rx_format old) (rtp_tx_payload_type old) (rtp_rx_payload_type old)
        (Some (negotiated_rx_payloads old)))
       \<lparr>remote_directional_audio := remote_directional_audio old, remote_rtp_ip := remote_rtp_ip old,
        remote_rtp_port := remote_rtp_port old, remote_media_shape := remote_media_shape old\<rparr>"

definition same_audio :: "endpoint \<Rightarrow> endpoint \<Rightarrow> bool" where
  "same_audio old new \<longleftrightarrow>
     selected_tx_format new = selected_tx_format old \<and> selected_rx_format new = selected_rx_format old \<and>
     rtp_tx_payload_type new = rtp_tx_payload_type old \<and> rtp_rx_payload_type new = rtp_rx_payload_type old \<and>
     payloads_equal (negotiated_rx_payloads new) (negotiated_rx_payloads old) \<and>
     remote_rtp_ip new = remote_rtp_ip old \<and> remote_rtp_port new = remote_rtp_port old"

definition sdp_content :: "string \<Rightarrow> bool" where
  "sdp_content msg \<longleftrightarrow>
     (let t = trim_copy (header_value msg ''Content-Type'')
      in lower (case find_char (CHR '';'') t of None \<Rightarrow> t | Some i \<Rightarrow> take i t) = ''application/sdp'')"

definition random_retry :: "sip_env \<Rightarrow> nat \<Rightarrow> sip_state \<Rightarrow> nat option \<times> sip_state" where
  "random_retry env n s = (case next_random env s of (r, s1) \<Rightarrow> (Some (unat r mod n), s1))"

definition not_acceptable :: "sip_env \<Rightarrow> string \<Rightarrow> u32 \<Rightarrow> u16 \<Rightarrow> string \<Rightarrow> sip_state \<Rightarrow> bool \<times> sip_state" where
  "not_acceptable env msg src sport why s =
     send_stateless_response env msg src sport 488 ''Not Acceptable Here'' why True None s"

text \<open>The media a proposal would give and the answer to it, on a copy of the negotiation.\<close>

definition media_proposal :: "sip_env \<Rightarrow> string \<Rightarrow> u32 \<Rightarrow> sip_state \<Rightarrow> (string \<times> endpoint) option \<times> endpoint" where
  "media_proposal env body src s =
     (case learn_remote_rtp (ip_of_text env) body src False (sdp s) of
        (False, e) \<Rightarrow> (None, restore_media (sdp s) e)
      | (True, e) \<Rightarrow>
          let answer = build_sdp_answer e (local_ip_for env (remote_ip s))
          in (if answer = [] then None else Some (answer, e), restore_media (sdp s) e))"

definition commit_reinvite :: "sip_env \<Rightarrow> string \<Rightarrow> u32 \<Rightarrow> u16 \<Rightarrow> string \<Rightarrow> endpoint \<Rightarrow> sip_state \<Rightarrow> bool \<times> sip_state" where
  "commit_reinvite env msg src sport answer e s0 =
     (let cseq = header_value msg ''CSeq''; target = strip_angle_uri (header_value msg ''Contact'');
          s1 = s0\<lparr>last_invite_via := header_values msg ''Via'', last_invite_from := header_value msg ''From'',
                  last_invite_to := header_value msg ''To'', last_invite_cseq := cseq,
                  last_invite_cseq_number := cseq_number cseq, remote_dialog_cseq := cseq_number cseq,
                  last_invite_peer_ip := src, last_invite_peer_port := sport,
                  remote_target_uri := (if target = [] then remote_target_uri s0 else target)\<rparr>
      in case send_response env 200 ''OK'' answer [] s1 of
           (False, s2) \<Rightarrow>
             (False, s2\<lparr>sdp := restore_media (sdp s0) (sdp s2), last_invite_via := last_invite_via s0,
                last_invite_from := last_invite_from s0, last_invite_to := last_invite_to s0,
                last_invite_cseq := last_invite_cseq s0, last_invite_response := last_invite_response s0,
                last_invite_cseq_number := last_invite_cseq_number s0, remote_dialog_cseq := remote_dialog_cseq s0,
                last_invite_peer_ip := last_invite_peer_ip s0, last_invite_peer_port := last_invite_peer_port s0,
                remote_target_uri := remote_target_uri s0\<rparr>)
         | (True, s2) \<Rightarrow>
             (True, reset_rtp_latch (s2\<lparr>sdp :=
                (set_media_config (sdp s2) (selected_tx_format e) (selected_rx_format e) (rtp_tx_payload_type e)
                   (rtp_rx_payload_type e) (Some (negotiated_rx_payloads e)))
                  \<lparr>remote_rtp_ip := remote_rtp_ip e, remote_rtp_port := remote_rtp_port e\<rparr>\<rparr>)))"

definition handle_reinvite :: "sip_env \<Rightarrow> string \<Rightarrow> u32 \<Rightarrow> u16 \<Rightarrow> sip_state \<Rightarrow> bool \<times> sip_state" where
  "handle_reinvite env msg src sport s =
     (if \<not> media_active s \<or> src \<noteq> remote_ip s \<or> tag_from_header (header_value msg ''From'') \<noteq> remote_tag s \<or>
         tag_from_header (header_value msg ''To'') \<noteq> local_tag s
      then no_such_transaction env msg src sport True s
      else if cs_awaiting_ack (completed_invite s) then
        (case random_retry env 11 s of
           (retry, s1) \<Rightarrow> send_stateless_response env msg src sport 500 ''Server Internal Error'' ''request_pending'' False retry s1)
      else if cseq_number (header_value msg ''CSeq'') \<le> remote_dialog_cseq s then
        (case random_retry env 11 s of
           (retry, s1) \<Rightarrow> send_stateless_response env msg src sport 500 ''Server Internal Error'' ''stale_cseq'' True retry s1)
      else if \<not> sdp_content msg \<or> message_body msg = []
      then send_stateless_response env msg src sport 415 ''Unsupported Media Type'' [] True None s
      else if media_lifecycle s = MediaCleaning \<or> media_lifecycle s = MediaShuttingDown
      then send_stateless_response env msg src sport 491 ''Request Pending'' [] False None s
      else
        case media_proposal env (message_body msg) src s of
          (None, e0) \<Rightarrow> not_acceptable env msg src sport ''media_incompatible'' (s\<lparr>sdp := e0\<rparr>)
        | (Some (answer, e), e0) \<Rightarrow>
            if \<not> same_audio (sdp s) e
            then not_acceptable env msg src sport ''audio_renegotiation_unsupported'' (s\<lparr>sdp := e0\<rparr>)
            else commit_reinvite env msg src sport answer e (s\<lparr>sdp := e0\<rparr>))"

subsection \<open>Initial INVITE\<close>

text \<open>Both ends are calling each other.\<close>

definition glare :: "string \<Rightarrow> u32 \<Rightarrow> sip_state \<Rightarrow> bool" where
  "glare cname src s \<longleftrightarrow>
     outgoing_invite_pending s \<and> remote_ip s = src \<and> snd (caller_id s) \<noteq> [] \<and> cname = snd (destination_id s)"

definition merged_invite :: "string \<Rightarrow> sip_state \<Rightarrow> bool" where
  "merged_invite msg s \<longleftrightarrow>
     cseq_number (header_value msg ''CSeq'') = last_invite_cseq_number s \<and>
     via_branch (header_values msg ''Via'') \<noteq> via_branch (last_invite_via s)"

definition invite_without_dialog :: "sip_env \<Rightarrow> string \<Rightarrow> u32 \<Rightarrow> u16 \<Rightarrow> string \<Rightarrow> string \<Rightarrow> sip_state \<Rightarrow> bool \<times> sip_state" where
  "invite_without_dialog env msg src sport cname dname s =
     (if dlg_call_id s \<noteq> []
      then send_stateless_response env msg src sport 486 ''Busy Here'' ''busy'' False None s
      else if media_lifecycle s = MediaCleaning \<or> media_lifecycle s = MediaShuttingDown
      then send_stateless_response env msg src sport 503 ''Service Unavailable'' ''media_cleanup'' True (Some 1) s
      else accept_new_invite env msg src sport cname dname s)"

text \<open>A retransmission of the INVITE whose final response is not sent yet gets the provisional one again.\<close>

definition repeated_invite :: "sip_env \<Rightarrow> string \<Rightarrow> u32 \<Rightarrow> u16 \<Rightarrow> string \<Rightarrow> string \<Rightarrow> sip_state \<Rightarrow> bool \<times> sip_state" where
  "repeated_invite env msg src sport cname dname s =
     (if header_value msg ''Call-ID'' = dlg_call_id s \<and> last_invite_cseq_number s = cseq_number (header_value msg ''CSeq'') then
        (let active = via_branch (last_invite_via s) in
         if active \<noteq> [] \<and> via_branch (header_values msg ''Via'') \<noteq> active
         then send_stateless_response env msg src sport 482 ''Loop Detected'' [] False None s
         else if last_invite_response s \<noteq> [] then (True, snd (send_sip env (last_invite_response s) src sport s))
         else invite_without_dialog env msg src sport cname dname s)
      else invite_without_dialog env msg src sport cname dname s)"

definition handle_invite :: "sip_env \<Rightarrow> string \<Rightarrow> u32 \<Rightarrow> u16 \<Rightarrow> sip_state \<Rightarrow> bool \<times> sip_state" where
  "handle_invite env msg src sport s0 =
     (if \<not> well_formed_invite msg then send_stateless_response env msg src sport 400 ''Bad Request'' [] False None s0
      else
        case replay_completed_response env msg src sport ''INVITE'' (\<not> remote_sip_tcp s0) s0 of
          (True, s) \<Rightarrow> (True, s)
        | (False, s) \<Rightarrow>
            let cid = header_value msg ''Call-ID'';
                cname = name_of_invite msg (header_value msg ''From'') ''X-Voip-Stack-Caller-Name'';
                dname = name_of_invite msg (header_value msg ''To'') ''X-Voip-Stack-Dest-Name''
            in if tag_from_header (header_value msg ''To'') \<noteq> [] \<and> \<not> matching_dialog msg s
               then no_such_transaction env msg src sport False s
               else if terminal_transaction_owned s
               then (if cid = dlg_call_id s
                     then send_stateless_response env msg src sport 500 ''Server Internal Error'' ''transaction_pending'' False (Some 1) s
                     else send_stateless_response env msg src sport 503 ''Service Unavailable'' ''transaction_pending'' False (Some 1) s)
               else if dlg_call_id s \<noteq> [] \<and> cid \<noteq> dlg_call_id s
               then (if \<not> glare cname src s
                     then send_stateless_response env msg src sport 486 ''Busy Here'' ''busy'' True None s
                     else case random_retry env 3 s of
                            (retry, s1) \<Rightarrow> send_stateless_response env msg src sport 491 ''Request Pending'' ''glare'' True retry s1)
               else if dlg_call_id s \<noteq> [] \<and> cid = dlg_call_id s \<and> remote_ip s \<noteq> 0 \<and> src \<noteq> remote_ip s
               then no_such_transaction env msg src sport False s
               else if matching_dialog msg s
               then (if merged_invite msg s then send_stateless_response env msg src sport 482 ''Loop Detected'' [] False None s
                     else handle_reinvite env msg src sport s)
               else repeated_invite env msg src sport cname dname s)"

end
