(* ===== verification/SipTask.thy ===== *)
theory SipTask
  imports SipHandlers
begin

text \<open>
  The signaling task (\<open>sip_transport.cpp\<close>): responses, the dispatch of requests, datagrams of the UDP
  socket, the loss of the TCP stream, the timers, and how long the task sleeps until the next of them.
\<close>

section \<open>UPDATE\<close>

definition handle_update :: "sip_env \<Rightarrow> string \<Rightarrow> u32 \<Rightarrow> u16 \<Rightarrow> sip_state \<Rightarrow> bool \<times> sip_state" where
  "handle_update env msg src sport s0 =
     (case replay_completed_response env msg src sport ''UPDATE'' (\<not> remote_sip_tcp s0) s0 of
        (True, s) \<Rightarrow> (True, s)
      | (False, s) \<Rightarrow>
          let from = header_value msg ''From''; cseq = header_value msg ''CSeq''; number = cseq_number cseq;
              contact = header_value msg ''Contact''; target = strip_angle_uri contact;
              uri = strip_angle_uri from; new_route = sip_route_id (sip_user_from_header from) VOIP_STACK_MAX_ROUTE_ID_LEN
          in if \<not> media_active s \<or> header_value msg ''Call-ID'' = [] \<or> header_value msg ''Call-ID'' \<noteq> dlg_call_id s \<or>
                cseq_method cseq \<noteq> ''UPDATE'' \<or> number = 0 \<or> tag_from_header from \<noteq> remote_tag s \<or>
                tag_from_header (header_value msg ''To'') \<noteq> local_tag s
             then no_such_transaction env msg src sport True s
             else if number \<le> remote_dialog_cseq s
             then (case random_retry env 11 s of
                     (retry, s1) \<Rightarrow> send_stateless_response env msg src sport 500 ''Server Internal Error'' ''stale_cseq'' True retry s1)
             else if message_body msg \<noteq> [] then not_acceptable env msg src sport ''media_update_unsupported'' s
             else if uri = [] \<or> new_route = [] \<or> (contact \<noteq> [] \<and> target = [])
             then send_stateless_response env msg src sport 400 ''Bad Request'' [] True None s
             else case send_stateless_response env msg src sport 200 ''OK'' [] True None s of
                    (False, s1) \<Rightarrow> (False, s1)
                  | (True, s1) \<Rightarrow>
                      let shown = sip_display_name_from_header from VOIP_STACK_MAX_NAME_LEN;
                          new_name = (if shown = [] then new_route else shown);
                          s2 = s1\<lparr>remote_uri := sip_name_addr uri new_name,
                                  remote_target_uri := (if target = [] then remote_target_uri s1 else target),
                                  remote_dialog_cseq := number\<rparr>;
                          s3 = (if dialog_originated s2 then s2\<lparr>destination_id := (new_route, new_name)\<rparr>
                                else s2\<lparr>caller_id := (new_route, new_name)\<rparr>)
                      in (True, emit_signal (with_identity new_route new_name (new_signal CONNECTED_IDENTITY (dlg_call_id s3))) s3))"

section \<open>Responses\<close>

definition client_transaction :: "string \<Rightarrow> sip_state \<Rightarrow> udp_transaction" where
  "client_transaction method s =
     (if method = ''BYE'' then pending_bye s else if method = ''CANCEL'' then pending_cancel s
      else if method = ''UPDATE'' then pending_update s else pending_invite s)"

text \<open>The request of a transaction and a response to it carry the same number and branch.\<close>

definition answers_request :: "string \<Rightarrow> udp_transaction \<Rightarrow> bool" where
  "answers_request msg t \<longleftrightarrow>
     \<not> tx_empty t \<and> cseq_number (header_value msg ''CSeq'') = cseq_number (header_value (tx_request t) ''CSeq'') \<and>
     via_branch (header_value msg ''Via'') = via_branch (header_value (tx_request t) ''Via'')"

definition expected_peer :: "string \<Rightarrow> sip_state \<Rightarrow> u32" where
  "expected_peer method s =
     (let t = client_transaction method s in if \<not> tx_empty t \<and> tx_ip t \<noteq> 0 then tx_ip t else remote_ip s)"

text \<open>Whether a response belongs to a transaction of the dialog; any other is ignored.\<close>

definition response_of_dialog :: "string \<Rightarrow> u32 \<Rightarrow> sip_state \<Rightarrow> bool" where
  "response_of_dialog msg src s \<longleftrightarrow>
     (let cseq = header_value msg ''CSeq''; method = cseq_method cseq; number = cseq_number cseq;
          branch = via_branch (header_value msg ''Via''); to_tag = tag_from_header (header_value msg ''To'');
          invite = (method = ''INVITE'' \<or> method = ''CANCEL'')
      in header_value msg ''Call-ID'' \<noteq> [] \<and> dlg_call_id s \<noteq> [] \<and> header_value msg ''Call-ID'' = dlg_call_id s \<and>
         number \<noteq> 0 \<and> (invite \<or> method = ''BYE'' \<or> method = ''UPDATE'') \<and> (invite \<longrightarrow> number = invite_cseq s) \<and>
         local_tag s \<noteq> [] \<and> tag_from_header (header_value msg ''From'') = local_tag s \<and>
         (\<not> invite \<longrightarrow> answers_request msg (client_transaction method s)) \<and>
         (invite \<longrightarrow> invite_branch s \<noteq> [] \<and> branch = invite_branch s) \<and>
         (\<not> remote_sip_tcp s \<longrightarrow> expected_peer method s = 0 \<or> src = expected_peer method s) \<and>
         (response_status msg > 100 \<longrightarrow>
            (to_tag = [] \<or> remote_tag s = [] \<or> to_tag = remote_tag s) \<and> (to_tag \<noteq> [] \<or> method = ''INVITE'')))"

text \<open>What every response of the dialog changes.\<close>

definition note_response :: "string \<Rightarrow> u32 \<Rightarrow> u16 \<Rightarrow> sip_state \<Rightarrow> sip_state" where
  "note_response msg src sport s =
     (let st = response_status msg; invite = (cseq_method (header_value msg ''CSeq'') = ''INVITE'');
          to_tag = tag_from_header (header_value msg ''To'');
          s1 = s\<lparr>remote_tag := (if st > 100 \<and> remote_tag s = [] then to_tag else remote_tag s),
                 peer_supports_from_change :=
                   (peer_supports_from_change s \<or> (invite \<and> st > 100 \<and> sip_option_supported msg ''from-change'')),
                 remote_ip := src, remote_sip_port := sport\<rparr>;
          s2 = mark_sip_event ResponseEvent (of_nat st) s1
      in if invite
         then s2\<lparr>pending_invite :=
                   (if st < 200 \<and> \<not> tx_empty (pending_invite s2)
                    then (wait_deadline (pending_invite s2))\<lparr>tx_completed := True\<rparr> else no_transaction)\<rparr>
         else s2)"

definition invite_success :: "sip_env \<Rightarrow> string \<Rightarrow> u32 \<Rightarrow> sip_state \<Rightarrow> sip_state" where
  "invite_success env msg src s0 =
     (let target = strip_angle_uri (header_value msg ''Contact'');
          s = snd (send_request env ''ACK'' [] (no_options\<lparr>opt_cseq := invite_cseq s0\<rparr>)
                (s0\<lparr>outgoing_invite_pending := False,
                    remote_target_uri := (if target = [] then remote_target_uri s0 else target)\<rparr>))
      in if remote_tag s = []
         then emit_signal (with_status 500 ''malformed_2xx'' (new_signal PROTOCOL_ERROR_SIGNAL (dlg_call_id s))) (reset_dialog s)
         else
           let (ok, e) = learn_remote_rtp (ip_of_text env) (message_body msg) src True (sdp s); s1 = s\<lparr>sdp := e\<rparr>
           in if cancel_requested s1
              then (case send_bye_unlocked env (dlg_call_id s1) s1 of (pending, s2) \<Rightarrow> if pending then s2 else reset_dialog s2)
              else if \<not> ok
              then (case send_bye_unlocked env (dlg_call_id s1) s1 of
                      (pending, s2) \<Rightarrow>
                        emit_signal (with_status 488 ''media_incompatible'' (new_signal MEDIA_INCOMPATIBLE_SIGNAL (dlg_call_id s2)))
                          (if pending then s2 else reset_dialog s2))
              else let s2 = open_media_session s1 in
                   emit_signal (with_formats (selected_tx_format (sdp s2)) (selected_rx_format (sdp s2))
                       (with_status (of_nat (response_status msg)) [] (new_signal STATUS_200_OK (dlg_call_id s2)))) s2)"

definition failure_reason :: "string \<Rightarrow> string" where
  "failure_reason msg =
     (let declared = sip_header_token (header_value msg ''X-Voip-Stack-Decline-Reason'') VOIP_STACK_MAX_REASON_LEN;
          standard = reason_text_from_header (header_value msg ''Reason'')
      in if declared \<noteq> [] then declared else if standard \<noteq> [] then standard
         else sip_failure_reason (int (response_status msg)))"

definition failure_signal :: "nat \<Rightarrow> sip_signal_type" where
  "failure_signal st =
     (if st = 401 then AUTH_REQUIRED else if st = 407 then PROXY_AUTH_REQUIRED
      else if st = 488 then MEDIA_INCOMPATIBLE_SIGNAL else FINAL_RESPONSE_SIGNAL)"

definition invite_failure :: "sip_env \<Rightarrow> string \<Rightarrow> sip_state \<Rightarrow> sip_state" where
  "invite_failure env msg s0 =
     (let s = snd (send_invite_error_ack env (s0\<lparr>outgoing_invite_pending := False\<rparr>))
      in reset_dialog (emit_signal (with_status (of_nat (response_status msg)) (failure_reason msg)
           (new_signal (failure_signal (response_status msg)) (dlg_call_id s))) s))"

text \<open>CANCEL is done with once answered; its transaction stays for the final response of the INVITE.\<close>

definition cancel_answered :: "sip_state \<Rightarrow> sip_state" where
  "cancel_answered s =
     (if tx_empty (pending_cancel s) then s
      else s\<lparr>pending_cancel := (wait_deadline (pending_cancel s))\<lparr>tx_completed := True\<rparr>\<rparr>)"

definition bye_answered :: "nat \<Rightarrow> sip_state \<Rightarrow> sip_state" where
  "bye_answered st s =
     emit_signal (with_status (of_nat st) [] (new_signal TERMINAL_COMPLETE (dlg_call_id s)))
       (reset_dialog (s\<lparr>pending_bye := no_transaction\<rparr>))"

definition take_response :: "sip_env \<Rightarrow> string \<Rightarrow> u32 \<Rightarrow> sip_state \<Rightarrow> sip_state" where
  "take_response env msg src s =
     (let st = response_status msg; method = cseq_method (header_value msg ''CSeq'') in
      if st > 100 \<and> st < 200 \<and> method = ''INVITE''
      then emit_signal (with_status (of_nat st) [] (new_signal STATUS_180_RINGING (dlg_call_id s))) s
      else if st < 200 then s
      else if method = ''BYE'' then bye_answered st s
      else if method = ''CANCEL'' then cancel_answered s
      else if method = ''UPDATE'' then s\<lparr>pending_update := no_transaction\<rparr>
      else if st < 300 then invite_success env msg src s
      else invite_failure env msg s)"

definition handle_response :: "sip_env \<Rightarrow> string \<Rightarrow> u32 \<Rightarrow> u16 \<Rightarrow> sip_state \<Rightarrow> sip_state" where
  "handle_response env msg src sport s0 =
     (if \<not> status_digits msg \<or> response_status msg < 100 \<or> response_status msg > 699 then s0
      else case replay_completed_invite_ack env msg src (\<not> remote_sip_tcp s0) s0 of
             (True, s) \<Rightarrow> s
           | (False, s) \<Rightarrow>
               if \<not> response_of_dialog msg src s then s else take_response env msg src (note_response msg src sport s))"

section \<open>Requests\<close>

definition handle_ack :: "sip_env \<Rightarrow> string \<Rightarrow> u32 \<Rightarrow> sip_state \<Rightarrow> sip_state" where
  "handle_ack env msg src s0 =
     (case acknowledge_completed_invite env msg src s0 of
        (st, ends, s) \<Rightarrow>
          if ends then (case send_bye_unlocked env (dlg_call_id s) s of (pending, s1) \<Rightarrow> if pending then s1 else reset_dialog s1)
          else if st \<ge> 300
          then emit_signal (with_status st [] (new_signal TERMINAL_COMPLETE (header_value msg ''Call-ID''))) s
          else
            let valid = (st \<ge> 200 \<and> header_value msg ''Call-ID'' \<noteq> [] \<and> dlg_call_id s \<noteq> [] \<and>
                  header_value msg ''Call-ID'' = dlg_call_id s \<and> (remote_ip s = 0 \<or> src = remote_ip s) \<and>
                  last_invite_cseq_number s \<noteq> 0 \<and> cseq_number (header_value msg ''CSeq'') = last_invite_cseq_number s \<and>
                  cseq_method (header_value msg ''CSeq'') = ''ACK'' \<and>
                  tag_from_header (header_value msg ''From'') = remote_tag s \<and>
                  tag_from_header (header_value msg ''To'') = local_tag s)
            in if \<not> valid \<or> \<not> tx_empty (pending_bye s) then s
               else
                 let body = message_body msg; answering = delayed_offer_pending s;
                     (ok, e) = (if answering \<and> body \<noteq> [] then learn_remote_rtp (ip_of_text env) body src True (sdp s)
                                else (\<not> answering, sdp s));
                     s1 = s\<lparr>sdp := e, delayed_offer_pending := False\<rparr>
                 in if \<not> ok
                    then (case send_bye_unlocked env (dlg_call_id s1) s1 of
                            (pending, s2) \<Rightarrow>
                              emit_signal (with_status 488 ''media_incompatible'' (new_signal MEDIA_INCOMPATIBLE_SIGNAL (dlg_call_id s1)))
                                (if pending then s2 else reset_dialog s2))
                    else
                      let s2 = snd (send_connected_identity_update env
                                 (open_media_session (s1\<lparr>outgoing_invite_pending := False\<rparr>)))
                      in if answering
                         then emit_signal (with_formats (selected_tx_format (sdp s2)) (selected_rx_format (sdp s2))
                                (new_signal MEDIA_READY (dlg_call_id s2))) s2
                         else s2)"

definition handle_bye :: "sip_env \<Rightarrow> string \<Rightarrow> u32 \<Rightarrow> u16 \<Rightarrow> sip_state \<Rightarrow> sip_state" where
  "handle_bye env msg src sport s =
     (if \<not> in_dialog msg src ''BYE'' s then snd (no_such_transaction env msg src sport False s)
      else
        let pending = \<not> tx_empty (pending_bye s) in
        if \<not> media_active s \<and> \<not> pending then snd (no_such_transaction env msg src sport False s)
        else
          let s1 = snd (send_stateless_response env msg src sport 200 ''OK'' [] True None s);
              s2 = emit_signal (new_signal BYE_SIGNAL (dlg_call_id s1)) s1
          in if pending then s2 else reset_dialog s2)"

definition cancels_invite :: "string \<Rightarrow> sip_state \<Rightarrow> bool" where
  "cancels_invite msg s \<longleftrightarrow>
     (let via = header_value msg ''Via''; branch = via_branch via; own = via_branch (last_invite_via s);
          from_tag = tag_from_header (header_value msg ''From'')
      in cseq_method (header_value msg ''CSeq'') = ''CANCEL'' \<and> \<not> media_active s \<and> last_invite_cseq_number s \<noteq> 0 \<and>
         cseq_number (header_value msg ''CSeq'') = last_invite_cseq_number s \<and>
         (if branch \<noteq> [] \<and> own \<noteq> [] then branch = own else via = last_invite_via s) \<and>
         from_tag \<noteq> [] \<and> from_tag = remote_tag s)"

definition handle_cancel :: "sip_env \<Rightarrow> string \<Rightarrow> u32 \<Rightarrow> u16 \<Rightarrow> sip_state \<Rightarrow> sip_state" where
  "handle_cancel env msg src sport s =
     (if \<not> in_dialog msg src ''CANCEL'' s \<or> \<not> cancels_invite msg s
      then snd (no_such_transaction env msg src sport False s)
      else
        let s1 = snd (send_stateless_response env msg src sport 200 ''OK'' [] True None s);
            s2 = snd (send_response env 487 ''Request Terminated'' [] [] s1)
        in reset_dialog (emit_signal (with_status 487 ''cancelled'' (new_signal CANCEL_SIGNAL (dlg_call_id s2))) s2))"

definition invalid_framing :: "string \<Rightarrow> bool" where
  "invalid_framing msg \<longleftrightarrow>
     (case sip_content_length msg of
        None \<Rightarrow> True
      | Some n \<Rightarrow>
          header_value msg ''Content-Length'' \<noteq> [] \<and>
          (case find_sub HEADER_END msg of None \<Rightarrow> True | Some sep \<Rightarrow> n \<noteq> length msg - sep - 4))"

definition request_method :: "string \<Rightarrow> string" where
  "request_method msg = (case find_char (CHR '' '') msg of None \<Rightarrow> [] | Some i \<Rightarrow> take i msg)"

definition take_request :: "sip_env \<Rightarrow> string \<Rightarrow> string \<Rightarrow> u32 \<Rightarrow> u16 \<Rightarrow> sip_state \<Rightarrow> sip_state" where
  "take_request env method msg src sport s =
     (if method = ''REFER'' then do_effect (TransferRequest msg src sport) s
      else if method = ''INVITE'' then snd (handle_invite env msg src sport s)
      else if method = ''ACK'' then handle_ack env msg src s
      else if method = ''BYE'' then handle_bye env msg src sport s
      else if method = ''CANCEL'' then handle_cancel env msg src sport s
      else if method = ''UPDATE'' then snd (handle_update env msg src sport s)
      else if method = ''OPTIONS'' then snd (send_stateless_response env msg src sport 200 ''OK'' [] False None s)
      else if sip_method_known method
      then snd (send_stateless_response env msg src sport 405 ''Method Not Allowed'' [] False None s)
      else snd (send_stateless_response env msg src sport 501 ''Not Implemented'' [] False None s))"

definition handle_sip_datagram :: "sip_env \<Rightarrow> string \<Rightarrow> u32 \<Rightarrow> u16 \<Rightarrow> sip_state \<Rightarrow> sip_state" where
  "handle_sip_datagram env msg src sport s =
     (if invalid_framing msg
      then if starts_with ''SIP/2.0 '' msg then s else snd (send_stateless_response env msg src sport 400 ''Bad Request'' [] False None s)
      else if starts_with ''SIP/2.0 '' msg then handle_response env msg src sport s
      else
        let method = request_method msg;
            (replayed, s1) = (if method = ''CANCEL'' \<or> method = ''BYE'' \<or> method = ''REFER''
                              then replay_completed_response env msg src sport method (\<not> remote_sip_tcp s) s else (False, s));
            e = sip_event_from_method method
        in if replayed then s1
           else take_request env method msg src sport (if e \<noteq> NoEvent then mark_sip_event e 0 s1 else s1))"

section \<open>Datagrams and the stream\<close>

definition close_tcp_flow :: "sip_state \<Rightarrow> sip_state" where
  "close_tcp_flow s =
     s\<lparr>tcp_connected := False, tcp_close_requested := False, tcp_peer := 0, tcp_connecting := None, tcp_rx := []\<rparr>"

definition signaling_owned :: "sip_state \<Rightarrow> bool" where
  "signaling_owned s \<longleftrightarrow>
     dlg_call_id s \<noteq> [] \<or> outgoing_invite_pending s \<or> media_active s \<or> terminal_transaction_owned s"

text \<open>A UDP datagram: retransmissions first, nothing while a TCP session owns the signaling.\<close>

definition handle_sip_udp_datagram :: "sip_env \<Rightarrow> string \<Rightarrow> u32 \<Rightarrow> u16 \<Rightarrow> sip_state \<Rightarrow> sip_state" where
  "handle_sip_udp_datagram env msg src sport s0 =
     (case replay_completed_response env msg src sport
            (case find_char (CHR '' '') msg of None \<Rightarrow> msg | Some i \<Rightarrow> take i msg) True s0 of
        (True, s) \<Rightarrow> s
      | (False, s1) \<Rightarrow>
          (case replay_completed_invite_ack env msg src True s1 of
             (True, s) \<Rightarrow> s
           | (False, s) \<Rightarrow>
               if signaling_owned s \<and> remote_sip_tcp s \<and> (tcp_connected s \<or> tcp_connecting s \<noteq> None \<or> tcp_connect_requested s) then s
               else handle_sip_datagram env msg src sport
                      ((if tcp_connected s then close_tcp_flow s else s)\<lparr>remote_sip_tcp := False\<rparr>)))"

text \<open>The records of a dead stream can be neither completed nor replayed.\<close>

definition drop_tcp_records :: "sip_state \<Rightarrow> sip_state" where
  "drop_tcp_records s =
     (let server_gone = (cs_response (completed_invite s) \<noteq> [] \<and> \<not> cs_udp (completed_invite s)) in
      s\<lparr>completed_invite := (if server_gone then no_completed_server else completed_invite s),
        terminate_after_invite_ack := (if server_gone then False else terminate_after_invite_ack s),
        completed_control :=
          (if cs_response (completed_control s) \<noteq> [] \<and> \<not> cs_udp (completed_control s) then no_completed_server
           else completed_control s),
        completed_invite_client :=
          (if cc_ack (completed_invite_client s) \<noteq> [] \<and> \<not> cc_udp (completed_invite_client s) then no_completed_client
           else completed_invite_client s)\<rparr>)"

definition handle_tcp_peer_loss :: "sip_state \<Rightarrow> sip_state" where
  "handle_tcp_peer_loss s =
     (let lost = (remote_sip_tcp s \<and> signaling_owned s);
          s1 = (drop_tcp_records ((close_tcp_flow s)\<lparr>tcp_connect_requested := False, tcp_pending := []\<rparr>))\<lparr>remote_sip_tcp := False\<rparr>
      in if lost then do_effect ConnectionLost (reset_dialog s1) else s1)"

text \<open>The connection is there: the waiting record is sent.\<close>

definition promote_tcp_flow :: "sip_env \<Rightarrow> sip_state \<Rightarrow> sip_state" where
  "promote_tcp_flow env s =
     (let s1 = s\<lparr>tcp_connected := True, tcp_peer := (case tcp_connecting s of None \<Rightarrow> 0 | Some (peer, _) \<Rightarrow> peer),
                  tcp_close_requested := False, tcp_connect_requested := False, tcp_rx := [], tcp_pending := [], tcp_connecting := None\<rparr>
      in if tcp_pending s = [] then s1
         else
           let s2 = s1\<lparr>sip_sends := sip_sends s1 + 1\<rparr>
           in if tcp_takes env (sip_sends s1) then do_effect (TcpOut (tcp_pending s)) s2
              else handle_tcp_peer_loss (do_effect TcpShutdown s2))"

section \<open>Timers\<close>

definition pump_transaction :: "sip_env \<Rightarrow> udp_transaction \<Rightarrow> sip_state \<Rightarrow> pump_action \<times> udp_transaction \<times> sip_state" where
  "pump_transaction env t s =
     (case pump_choice (sip_now env) t of
        PumpIdle \<Rightarrow> (PumpIdle, t, s)
      | PumpTimeout \<Rightarrow> (PumpTimeout, no_transaction, s)
      | PumpWait \<Rightarrow> (PumpWait, wait_deadline t, s)
      | PumpSend \<Rightarrow> (PumpSend, after_retransmit (sip_now env) t, snd (send_sip env (tx_request t) (tx_ip t) (tx_port t) s)))"

definition pump_invite :: "sip_env \<Rightarrow> sip_state \<Rightarrow> bool \<times> sip_state" where
  "pump_invite env s =
     (if \<not> outgoing_invite_pending s then (False, s)
      else case pump_transaction env (pending_invite s) s of
             (a, t, s1) \<Rightarrow>
               (a = PumpTimeout,
                s1\<lparr>pending_invite := t, outgoing_invite_pending := (a \<noteq> PumpTimeout)\<rparr>))"

definition pump_cancel :: "sip_env \<Rightarrow> sip_state \<Rightarrow> bool \<times> sip_state" where
  "pump_cancel env s = (case pump_transaction env (pending_cancel s) s of (a, t, s1) \<Rightarrow> (a = PumpTimeout, s1\<lparr>pending_cancel := t\<rparr>))"

definition pump_bye :: "sip_env \<Rightarrow> sip_state \<Rightarrow> bool \<times> sip_state" where
  "pump_bye env s = (case pump_transaction env (pending_bye s) s of (a, t, s1) \<Rightarrow> (a = PumpTimeout, s1\<lparr>pending_bye := t\<rparr>))"

definition pump_update :: "sip_env \<Rightarrow> sip_state \<Rightarrow> sip_state" where
  "pump_update env s = (case pump_transaction env (pending_update s) s of (a, t, s1) \<Rightarrow> s1\<lparr>pending_update := t\<rparr>)"

definition pump_provisional :: "sip_env \<Rightarrow> sip_state \<Rightarrow> sip_state" where
  "pump_provisional env s =
     (let d = pending_provisional s; now = sip_now env in
      if dr_response d = [] \<or> \<not> time_reached now (dr_next_ms d) then s
      else if time_reached now (dr_deadline_ms d) then s\<lparr>pending_provisional := no_deferred_response\<rparr>
      else case send_sip env (dr_response d) (dr_ip d) (dr_port d) s of
             (True, s1) \<Rightarrow> s1\<lparr>pending_provisional := no_deferred_response\<rparr>
           | (False, s1) \<Rightarrow> s1\<lparr>pending_provisional := after_failed_response now d\<rparr>)"

text \<open>The final response of an INVITE until its ACK; the flag says that an accepted dialog has to end.\<close>

definition pump_final_response :: "sip_env \<Rightarrow> sip_state \<Rightarrow> bool \<times> sip_state" where
  "pump_final_response env s =
     (let c = completed_invite s; now = sip_now env in
      if \<not> cs_awaiting_ack c then (False, s)
      else if time_reached now (cs_deadline_ms c) then
        (let s1 = s\<lparr>completed_invite := c\<lparr>cs_awaiting_ack := False\<rparr>\<rparr>;
             accepted = (cs_status c < 300 \<and> dlg_call_id s \<noteq> [] \<and> dlg_call_id s = cs_call_id c \<and>
                         last_invite_cseq_number s = cs_cseq c)
         in (accepted, if accepted then s1\<lparr>terminate_after_invite_ack := False\<rparr> else s1))
      else if (cs_udp c \<or> cs_status c < 300) \<and> time_reached now (cs_next_ms c)
      then (False, (snd (send_sip env (cs_response c) (cs_peer_ip c) (cs_peer_port c) s))\<lparr>completed_invite := after_final_retransmit now c\<rparr>)
      else (False, s))"

definition expire_completed :: "sip_env \<Rightarrow> sip_state \<Rightarrow> sip_state" where
  "expire_completed env s =
     s\<lparr>completed_invite := expire_server (sip_now env) (completed_invite s),
       completed_control := expire_server (sip_now env) (completed_control s),
       completed_invite_client := expire_client (sip_now env) (completed_invite_client s)\<rparr>"

definition pump_timers :: "sip_env \<Rightarrow> sip_state \<Rightarrow> (bool \<times> bool \<times> bool) \<times> sip_state" where
  "pump_timers env s =
     (let (invite, s1) = pump_invite env s;
          (cancel, s2) = pump_cancel env s1;
          (bye, s3) = pump_bye env s2;
          s4 = pump_provisional env (pump_update env s3);
          (ack, s5) = pump_final_response env s4
      in ((cancel \<or> bye, invite, ack), expire_completed env s5))"

definition end_terminal :: "string \<Rightarrow> sip_state \<Rightarrow> sip_state" where
  "end_terminal cid s = emit_signal (with_status 408 ''terminal_timeout'' (new_signal TERMINAL_COMPLETE cid)) (reset_dialog s)"

definition end_invite :: "string \<Rightarrow> sip_state \<Rightarrow> sip_state" where
  "end_invite cid s = emit_signal (with_status 408 ''timeout'' (new_signal FINAL_RESPONSE_SIGNAL cid)) (reset_dialog s)"

definition end_unacknowledged :: "sip_env \<Rightarrow> string \<Rightarrow> sip_state \<Rightarrow> sip_state" where
  "end_unacknowledged env cid s =
     (case send_bye_unlocked env cid s of
        (pending, s1) \<Rightarrow>
          emit_signal (with_status 408 ''ack_timeout'' (new_signal PROTOCOL_ERROR_SIGNAL cid)) (if pending then s1 else reset_dialog s1))"

definition pump_udp_retransmits :: "sip_env \<Rightarrow> sip_state \<Rightarrow> sip_state" where
  "pump_udp_retransmits env s =
     (case pump_timers env s of
        ((terminal, invite, ack), s1) \<Rightarrow>
          let cid = dlg_call_id s;
              s2 = (if terminal then end_terminal cid s1 else s1);
              s3 = (if invite then end_invite cid s2 else s2)
          in if ack then end_unacknowledged env cid s3 else s3)"

text \<open>The times the task wakes up for, and how long it sleeps at \<open>now\<close>; without any it waits for a socket.\<close>

definition transaction_wakeup :: "udp_transaction \<Rightarrow> u32 list" where
  "transaction_wakeup t =
     (if tx_empty t then [] else [if tx_udp t \<and> \<not> tx_completed t then tx_next_ms t else tx_deadline_ms t])"

definition sip_wakeups :: "sip_state \<Rightarrow> u32 list" where
  "sip_wakeups s =
     (if outgoing_invite_pending s then transaction_wakeup (pending_invite s) else []) @
     transaction_wakeup (pending_cancel s) @ transaction_wakeup (pending_bye s) @ transaction_wakeup (pending_update s) @
     (if dr_response (pending_provisional s) \<noteq> [] then [dr_next_ms (pending_provisional s)] else []) @
     (let c = completed_invite s in
      if cs_awaiting_ack c then [if cs_udp c \<or> cs_status c < 300 then cs_next_ms c else cs_deadline_ms c] else []) @
     (if cs_response (completed_invite s) \<noteq> [] then [cs_completed_ms (completed_invite s) + SIP_TRANSACTION_TIMEOUT_MS] else []) @
     (if cs_response (completed_control s) \<noteq> [] then [cs_completed_ms (completed_control s) + SIP_TRANSACTION_TIMEOUT_MS] else []) @
     (if cc_ack (completed_invite_client s) \<noteq> []
      then [cc_completed_ms (completed_invite_client s) + SIP_TRANSACTION_TIMEOUT_MS] else [])"

definition wait_for :: "u32 \<Rightarrow> u32 \<Rightarrow> u32" where
  "wait_for now deadline = (if time_reached now deadline then 0 else deadline - now)"

fun shortest_wait :: "u32 \<Rightarrow> u32 list \<Rightarrow> u32 option" where
  "shortest_wait now [] = None"
| "shortest_wait now (d # ds) =
     Some (case shortest_wait now ds of None \<Rightarrow> wait_for now d | Some w \<Rightarrow> min (wait_for now d) w)"

definition sip_sleep :: "u32 \<Rightarrow> sip_state \<Rightarrow> u32 option" where
  "sip_sleep now s = shortest_wait now (sip_wakeups s)"

end
