(* ===== verification/SipFrames.thy ===== *)
theory SipFrames
  imports SipTask SdpAnswer
begin

text \<open>
  What the operations of the transport leave alone: sending changes nothing but the effects, the count
  of sends and the record waiting for a TCP connection.
\<close>

section \<open>Sending\<close>

definition sent_from :: "sip_state \<Rightarrow> sip_state \<Rightarrow> bool" where
  "sent_from s t \<longleftrightarrow> (\<exists>n es q. t = s\<lparr>sip_sends := n, sip_effects := sip_effects s @ es, tcp_pending := q\<rparr> \<and> \<not> list_ex (\<lambda>e. case e of Signal g \<Rightarrow> True | _ \<Rightarrow> False) es)"

lemma sent_from_refl: "sent_from s s"
  unfolding sent_from_def by (rule exI [of _ "sip_sends s"], rule exI [of _ "[]"], rule exI [of _ "tcp_pending s"]) simp

lemma sent_from_udp: "sent_from s (snd (send_sip_udp env m i p s))"
proof (cases "\<not> sip_socket_open s \<or> i = 0 \<or> p = 0")
  case True
  then show ?thesis using sent_from_refl by (auto simp: send_sip_udp_def)
next
  case False
  then show ?thesis
    unfolding sent_from_def
    by (intro exI [of _ "Suc (sip_sends s)"] exI [of _ "tcp_pending s"]
        exI [of _ "if datagram_taken 3 (udp_attempts env (sip_sends s)) then [UdpOut i p m] else []"])
      (auto simp: send_sip_udp_def do_effect_def Let_def)
qed

lemma sent_from_tcp: "sent_from s (snd (send_sip_tcp env m s))"
proof -
  consider "m = []" | "m \<noteq> []" "\<not> tcp_connected s \<or> tcp_close_requested s \<or> tcp_connect_requested s"
    | "m \<noteq> []" "\<not> (\<not> tcp_connected s \<or> tcp_close_requested s \<or> tcp_connect_requested s)" by blast
  then show ?thesis
  proof cases
    case 1
    then show ?thesis using sent_from_refl by (simp add: send_sip_tcp_def)
  next
    case 2
    then show ?thesis
      unfolding sent_from_def
      by (intro exI [of _ "sip_sends s"] exI [of _ "[]"] exI [of _ "if remote_sip_tcp s \<and> tcp_pending s = [] then m else tcp_pending s"])
        (auto simp: send_sip_tcp_def)
  next
    case 3
    then show ?thesis
      unfolding sent_from_def
      by (intro exI [of _ "Suc (sip_sends s)"] exI [of _ "tcp_pending s"]
          exI [of _ "[if tcp_takes env (sip_sends s) then TcpOut m else TcpShutdown]"])
        (auto simp: send_sip_tcp_def do_effect_def Let_def)
  qed
qed

lemma sent_from_send: "sent_from s (snd (send_sip env m i p s))"
  using sent_from_udp sent_from_tcp by (simp add: send_sip_def)

lemma sent_from_fields:
  assumes "sent_from s t"
  shows "sdp t = sdp s" "sip_port t = sip_port s" "sip_running t = sip_running s" "transport_stopping t = transport_stopping s"
    "remote_ip t = remote_ip s" "remote_sip_port t = remote_sip_port s" "remote_sip_tcp t = remote_sip_tcp s"
    "dlg_call_id t = dlg_call_id s" "local_tag t = local_tag s" "remote_tag t = remote_tag s"
    "invite_branch t = invite_branch s" "local_uri t = local_uri s" "local_contact_uri t = local_contact_uri s"
    "remote_uri t = remote_uri s" "remote_target_uri t = remote_target_uri s" "last_invite_via t = last_invite_via s"
    "last_invite_from t = last_invite_from s" "last_invite_to t = last_invite_to s" "last_invite_cseq t = last_invite_cseq s"
    "last_invite_response t = last_invite_response s" "last_invite_cseq_number t = last_invite_cseq_number s"
    "remote_dialog_cseq t = remote_dialog_cseq s" "last_invite_peer_ip t = last_invite_peer_ip s"
    "last_invite_peer_port t = last_invite_peer_port s" "caller_id t = caller_id s" "destination_id t = destination_id s"
    "peer_supports_from_change t = peer_supports_from_change s" "connected_identity_sent t = connected_identity_sent s"
    "dialog_originated t = dialog_originated s" "delayed_offer_pending t = delayed_offer_pending s" "dlg_cseq t = dlg_cseq s"
    "invite_cseq t = invite_cseq s" "pending_invite t = pending_invite s" "pending_cancel t = pending_cancel s"
    "pending_bye t = pending_bye s" "pending_update t = pending_update s" "pending_provisional t = pending_provisional s"
    "completed_invite t = completed_invite s" "completed_control t = completed_control s"
    "completed_invite_client t = completed_invite_client s" "terminate_after_invite_ack t = terminate_after_invite_ack s"
    "media_active t = media_active s" "outgoing_invite_pending t = outgoing_invite_pending s"
    "cancel_requested t = cancel_requested s" "media_lifecycle t = media_lifecycle s" "rtp_running t = rtp_running s"
    "rtp_task t = rtp_task s" "rtp_quiesced t = rtp_quiesced s" "rtp_bound t = rtp_bound s" "rtp_latch t = rtp_latch s"
    "sip_socket_open t = sip_socket_open s" "tcp_connected t = tcp_connected s" "tcp_peer t = tcp_peer s"
    "tcp_target t = tcp_target s" "tcp_connect_requested t = tcp_connect_requested s"
    "tcp_close_requested t = tcp_close_requested s" "tcp_rx t = tcp_rx s" "tcp_connecting t = tcp_connecting s"
    "last_sip_event t = last_sip_event s" "last_sip_status t = last_sip_status s" "randoms t = randoms s"
  using assms by (auto simp: sent_from_def)

lemmas send_fields [simp] =
  sent_from_fields [OF sent_from_send] sent_from_fields [OF sent_from_udp] sent_from_fields [OF sent_from_tcp]


section \<open>Reset\<close>

text \<open>What ending a dialog leaves: the records of completed transactions, the sockets and the counters.\<close>

lemma stop_fields:
  "sip_effects (request_audio_path_stop s) = sip_effects s" "completed_invite (request_audio_path_stop s) = completed_invite s"
  by (simp_all add: request_audio_path_stop_def close_media_session_def finish_audio_path_stop_def Let_def)

lemma reset_fields [simp]:
  shows "sip_port (reset_dialog s) = sip_port s" "sip_running (reset_dialog s) = sip_running s"
    "transport_stopping (reset_dialog s) = transport_stopping s" "remote_ip (reset_dialog s) = remote_ip s"
    "remote_sip_port (reset_dialog s) = remote_sip_port s" "remote_sip_tcp (reset_dialog s) = remote_sip_tcp s"
    "dlg_cseq (reset_dialog s) = dlg_cseq s" "invite_cseq (reset_dialog s) = invite_cseq s"
    "completed_invite (reset_dialog s) = completed_invite s" "completed_control (reset_dialog s) = completed_control s"
    "completed_invite_client (reset_dialog s) = completed_invite_client s" "rtp_task (reset_dialog s) = rtp_task s"
    "sip_socket_open (reset_dialog s) = sip_socket_open s" "tcp_connected (reset_dialog s) = tcp_connected s" "tcp_peer (reset_dialog s) = tcp_peer s" "tcp_rx (reset_dialog s) = tcp_rx s"
    "tcp_connecting (reset_dialog s) = tcp_connecting s"
    "tcp_target (reset_dialog s) = tcp_target s" "last_sip_event (reset_dialog s) = last_sip_event s"
    "last_sip_status (reset_dialog s) = last_sip_status s" "sip_sends (reset_dialog s) = sip_sends s"
    "randoms (reset_dialog s) = randoms s" "sip_effects (reset_dialog s) = sip_effects s" "dlg_call_id (reset_dialog s) = []"
    "local_tag (reset_dialog s) = []" "remote_tag (reset_dialog s) = []" "invite_branch (reset_dialog s) = []"
    "local_uri (reset_dialog s) = []" "local_contact_uri (reset_dialog s) = []" "remote_uri (reset_dialog s) = []"
    "remote_target_uri (reset_dialog s) = []" "last_invite_via (reset_dialog s) = []" "last_invite_from (reset_dialog s) = []"
    "last_invite_to (reset_dialog s) = []" "last_invite_cseq (reset_dialog s) = []"
    "last_invite_response (reset_dialog s) = []" "tcp_pending (reset_dialog s) = []"
    "\<not> peer_supports_from_change (reset_dialog s)" "\<not> connected_identity_sent (reset_dialog s)"
    "\<not> dialog_originated (reset_dialog s)" "\<not> delayed_offer_pending (reset_dialog s)"
    "\<not> terminate_after_invite_ack (reset_dialog s)" "\<not> media_active (reset_dialog s)"
    "\<not> outgoing_invite_pending (reset_dialog s)" "\<not> cancel_requested (reset_dialog s)"
    "last_invite_cseq_number (reset_dialog s) = 0" "remote_dialog_cseq (reset_dialog s) = 0"
    "last_invite_peer_ip (reset_dialog s) = 0" "last_invite_peer_port (reset_dialog s) = 0"
    "pending_invite (reset_dialog s) = no_transaction" "pending_cancel (reset_dialog s) = no_transaction"
    "pending_bye (reset_dialog s) = no_transaction" "pending_update (reset_dialog s) = no_transaction"
    "pending_provisional (reset_dialog s) = no_deferred_response" "caller_id (reset_dialog s) = ([], [])"
    "destination_id (reset_dialog s) = ([], [])"
  by (simp_all add: reset_dialog_def request_audio_path_stop_def close_media_session_def finish_audio_path_stop_def
      retract_tcp_record_def reset_rtp_latch_def clear_udp_transactions_def Let_def)

section \<open>Effects and marks\<close>

lemma effect_fields [simp]:
  "sip_effects (do_effect e s) = sip_effects s @ [e]" "sip_effects (emit_signal g s) = sip_effects s @ [Signal g]"
  "sip_effects (mark_sip_event ev st s) = sip_effects s"
  by (simp_all add: do_effect_def emit_signal_def mark_sip_event_def)

end
