(* ===== verification/SipTimers.thy ===== *)
theory SipTimers
  imports SipFrames
begin

text \<open>
  The timers of the signaling task. A state with plausible timers (\<open>timers_ok\<close>) is pumped and then
  slept over: the task is never left with something due, and sleeping until the next wake-up is the
  same as pumping at every moment before it.
\<close>

section \<open>32-bit time\<close>

lemma sint_nonneg: "sint x \<ge> 0 \<longleftrightarrow> unat x < 2 ^ 31" for x :: u32
proof -
  have b: "0 \<le> uint x" "uint x < 4294967296" using uint_lt2p [of x] by simp_all
  have "sint x = (uint x + 2147483648) mod 4294967296 - 2147483648"
    by (simp add: sint_uint signed_take_bit_eq_take_bit_shift take_bit_eq_mod)
  also have "\<dots> = (if uint x < 2147483648 then uint x else uint x - 4294967296)"
  proof (cases "uint x < 2147483648")
    case False
    have "(uint x + 2147483648) mod 4294967296 = (uint x - 2147483648 + 4294967296) mod 4294967296"
      by (simp add: algebra_simps)
    also have "\<dots> = uint x - 2147483648"
      using b False by (simp only: mod_add_self2) (simp add: mod_pos_pos_trivial)
    finally show ?thesis using False by simp
  qed (use b in \<open>simp add: mod_pos_pos_trivial\<close>)
  finally have "sint x \<ge> 0 \<longleftrightarrow> uint x < 2147483648" using b by auto
  also have "\<dots> \<longleftrightarrow> unat x < 2147483648" by (simp only: unat_eq_nat_uint nat_less_iff [OF b(1)]) simp
  finally show ?thesis by simp
qed

text \<open>How long it is until a deadline, going round.\<close>

abbreviation left :: "u32 \<Rightarrow> u32 \<Rightarrow> nat" where "left now d \<equiv> unat (d - now)"

lemma left_zero: "left now d = 0 \<longleftrightarrow> d = now"
  by (simp add: unat_eq_0)

lemma left_minus: "d \<noteq> now \<Longrightarrow> left d now = 2 ^ 32 - left now d"
proof -
  assume "d \<noteq> now"
  then have ne: "unat now \<noteq> unat d" by (auto simp only: word_unat_eq_iff)
  have l: "left x y = (if unat x \<le> unat y then unat y - unat x else unat y + 4294967296 - unat x)" for x y :: u32
    by (simp only: unat_sub_if_size word_size) simp
  have b: "unat d \<le> 4294967295" "unat now \<le> 4294967295" by (rule unat_u32_le)+
  consider "unat now < unat d" | "unat d < unat now" using ne by linarith
  then have "left d now = 4294967296 - left now d"
  proof cases
    case 1
    then have "left d now = unat now + 4294967296 - unat d" "left now d = unat d - unat now" unfolding l by simp_all
    then show ?thesis using 1 b by linarith
  next
    case 2
    then have "left d now = unat now - unat d" "left now d = unat d + 4294967296 - unat now" unfolding l by simp_all
    then show ?thesis using 2 b by linarith
  qed
  then show ?thesis by simp
qed

lemma time_reached_iff: "time_reached now d \<longleftrightarrow> left now d = 0 \<or> 2 ^ 31 < left now d"
proof (cases "d = now")
  case True
  then show ?thesis by (simp add: time_reached_def)
next
  case False
  then have "left now d \<noteq> 0" using left_zero by blast
  then show ?thesis unfolding time_reached_def sint_nonneg left_minus [OF False] using unat_u32_le [of "d - now"] by auto
qed

lemma left_later:
  assumes "unat \<delta> \<le> left now d"
  shows "left (now + \<delta>) d = left now d - unat \<delta>"
proof -
  have "d - (now + \<delta>) = (d - now) - \<delta>" by (simp add: algebra_simps)
  then show ?thesis using assms unat_sub [of \<delta> "d - now"] by (simp only: word_le_nat_alt)
qed

lemma left_trans:
  assumes "left now d + left d e < 2 ^ 32"
  shows "left now e = left now d + left d e"
proof -
  have "e - now = (d - now) + (e - d)" by (simp add: algebra_simps)
  then show ?thesis using assms by (simp only: unat_plus_if') simp
qed

lemma not_yet:
  assumes "\<not> time_reached now d" "\<delta> < wait_for now d"
  shows "\<not> time_reached (now + \<delta>) d"
proof -
  have "unat \<delta> < left now d" using assms by (simp add: wait_for_def word_less_nat_alt)
  moreover from this have "left (now + \<delta>) d = left now d - unat \<delta>" by (simp add: left_later)
  ultimately show ?thesis using assms(1) by (auto simp: time_reached_iff)
qed

lemma wait_for_left: "\<not> time_reached now d \<Longrightarrow> unat (wait_for now d) = left now d"
  by (simp add: wait_for_def)

lemma not_yet_deadline:
  assumes "\<not> time_reached now d" "\<delta> < wait_for now d" "wait_for now d \<le> 2 ^ 30" "left d e \<le> 32000"
  shows "\<not> time_reached (now + \<delta>) e"
proof -
  have w: "left now d \<le> 2 ^ 30" using assms(3) wait_for_left [OF assms(1)] by (simp add: word_le_nat_alt)
  have d: "unat \<delta> < left now d" using assms(1,2) by (simp add: wait_for_def word_less_nat_alt)
  have "left now e = left now d + left d e" using w assms(4) by (intro left_trans) simp
  moreover from this have "left (now + \<delta>) e = left now e - unat \<delta>" using d by (intro left_later) simp
  ultimately show ?thesis unfolding time_reached_iff using w d assms(4) by auto
qed

lemma wait_pos: "\<not> time_reached now d \<Longrightarrow> 0 < wait_for now d"
  using wait_for_left [of now d] by (auto simp: time_reached_iff word_less_nat_alt)

text \<open>A timer set for the near future is not due.\<close>

lemma soon: "0 < unat w \<Longrightarrow> unat w \<le> 2 ^ 31 \<Longrightarrow> \<not> time_reached now (now + w)"
  by (simp add: time_reached_iff)

lemma clamp_not_due: "\<not> time_reached now d \<Longrightarrow> \<not> time_reached now e \<Longrightarrow> \<not> time_reached now (clamp_next d e)"
  by (simp add: clamp_next_def)

section \<open>Plausible timers\<close>

definition interval_ok :: "u16 \<Rightarrow> bool" where "interval_ok i \<longleftrightarrow> 0 < i \<and> i \<le> 4000"

text \<open>The next retransmission lies before the deadline, and the interval is at most T2.\<close>

definition tx_ok :: "udp_transaction \<Rightarrow> bool" where
  "tx_ok t \<longleftrightarrow> tx_empty t \<or>
     (tx_ip t \<noteq> 0 \<and> tx_port t \<noteq> 0 \<and> interval_ok (tx_interval_ms t) \<and> left (tx_next_ms t) (tx_deadline_ms t) \<le> 32000)"

definition deferred_ok :: "deferred_response \<Rightarrow> bool" where
  "deferred_ok d \<longleftrightarrow> dr_response d = [] \<or> (interval_ok (dr_interval_ms d) \<and> left (dr_next_ms d) (dr_deadline_ms d) \<le> 32000)"

definition server_ok :: "completed_server \<Rightarrow> bool" where
  "server_ok c \<longleftrightarrow> interval_ok (cs_interval_ms c) \<and> (cs_awaiting_ack c \<longrightarrow> left (cs_next_ms c) (cs_deadline_ms c) \<le> 32000)"

definition timers_ok :: "sip_state \<Rightarrow> bool" where
  "timers_ok s \<longleftrightarrow>
     tx_ok (pending_invite s) \<and> tx_ok (pending_cancel s) \<and> tx_ok (pending_bye s) \<and> tx_ok (pending_update s) \<and>
     deferred_ok (pending_provisional s) \<and> server_ok (completed_invite s)"

lemma T_values [simp]: "SIP_T1_MS = 500" "SIP_T2_MS = 4000" "SIP_TRANSACTION_TIMEOUT_MS = 32000"
  by (simp_all add: SIP_T1_MS_def SIP_T2_MS_def SIP_TRANSACTION_TIMEOUT_MS_def)

lemma no_timers_ok [simp]: "tx_ok no_transaction" "deferred_ok no_deferred_response" "server_ok no_completed_server" "tx_empty no_transaction"
  by (simp_all add: tx_ok_def deferred_ok_def server_ok_def interval_ok_def no_transaction_def no_deferred_response_def
      no_completed_server_def tx_empty_def)

lemma left_same_start: "left (now + a) (now + b) = unat (b - a)"
  by (simp add: algebra_simps)

lemma new_timers_ok [simp]:
  "dst \<noteq> 0 \<Longrightarrow> dport \<noteq> 0 \<Longrightarrow> tx_ok (new_transaction now tcp msg dst dport)"
  "deferred_ok (new_deferred_response now msg dst dport)"
  by (simp_all add: tx_ok_def deferred_ok_def new_transaction_def new_deferred_response_def interval_ok_def left_same_start)

lemma interval_doubled: "interval_ok i \<Longrightarrow> bound = 500 \<or> bound = 4000 \<Longrightarrow> interval_ok (doubled bound i)"
proof -
  assume i: "interval_ok i" and b: "bound = 500 \<or> bound = 4000"
  have r: "0 < unat i" "unat i \<le> 4000" using i by (simp_all add: interval_ok_def word_less_nat_alt word_le_nat_alt)
  then have d: "unat (i * 2) = unat i * 2" by (simp add: unat_mult_lem [THEN iffD1])
  have c: "unat (ucast bound :: u16) = unat bound" using b by auto
  show ?thesis
    using r d b by (auto simp: interval_ok_def doubled_def min_def word_less_nat_alt word_le_nat_alt)
qed

lemma interval_soon: "interval_ok i \<Longrightarrow> \<not> time_reached now (now + ucast i)"
  by (rule soon) (simp_all add: interval_ok_def word_less_nat_alt word_le_nat_alt unat_ucast_up)


text \<open>A retransmission that is due lies before a deadline that is not.\<close>

lemma left_deadline:
  assumes "time_reached now nxt" "\<not> time_reached now d"
  shows "left now d \<le> left nxt d"
proof (cases "nxt = now")
  case False
  then have "left now nxt \<noteq> 0" by (simp only: left_zero) simp
  then have n: "left nxt now < 2 ^ 31" using assms(1) left_minus [of now nxt] False unat_u32_le [of "nxt - now"] by (simp add: time_reached_iff)
  have "left now d \<le> 2 ^ 31" using assms(2) by (simp add: time_reached_iff)
  then have "left nxt d = left nxt now + left now d" using n by (intro left_trans) simp
  then show ?thesis by simp
qed simp

lemma left_clamp:
  assumes "left now d \<le> 32000" "unat w \<le> 4000"
  shows "left (clamp_next (now + w) d) d \<le> 32000"
proof (cases "unat w \<le> left now d")
  case True
  then show ?thesis unfolding clamp_next_def using left_later [OF True] assms by (simp split: if_split) linarith?
next
  case False
  have "d - (now + w) = (d - now) - w" by (simp add: algebra_simps)
  then have "left (now + w) d = left now d + 2 ^ 32 - unat w"
    using False by (simp only: unat_sub_if_size word_size) simp
  then have "time_reached (now + w) d" using assms by (simp add: time_reached_iff)
  then show ?thesis by (simp add: clamp_next_def)
qed

lemma interval_le: "interval_ok i \<Longrightarrow> unat (ucast i :: u32) \<le> 4000"
  by (simp add: interval_ok_def word_le_nat_alt unat_ucast_up)

section \<open>One timer\<close>

text \<open>What the pump leaves of a transaction, and when nothing is due.\<close>

lemma pump_transaction_ok:
  assumes "tx_ok t" "pump_transaction env t s = (a, t', s')"
  shows "tx_ok t'" "\<forall>d\<in>set (transaction_wakeup t'). \<not> time_reached (sip_now env) d"
proof -
  let ?now = "sip_now env"
  have "tx_ok t' \<and> (\<forall>d\<in>set (transaction_wakeup t'). \<not> time_reached ?now d)"
  proof (cases "pump_choice ?now t")
    case PumpIdle
    then have "t' = t" using assms(2) by (simp add: pump_transaction_def)
    then show ?thesis
      using assms(1) PumpIdle by (auto simp: pump_choice_def transaction_wakeup_def tx_ok_def split: if_splits)
  next
    case PumpTimeout
    then show ?thesis using assms(2) by (auto simp: pump_transaction_def transaction_wakeup_def)
  next
    case PumpWait
    then have t': "t' = wait_deadline t" using assms(2) by (simp add: pump_transaction_def)
    then show ?thesis
      using assms(1) PumpWait
      by (auto simp: pump_choice_def transaction_wakeup_def tx_ok_def wait_deadline_def tx_empty_def split: if_splits)
  next
    case PumpSend
    then have t': "t' = after_retransmit ?now t" using assms(2) by (simp add: pump_transaction_def)
    have g: "\<not> tx_empty t" "time_reached ?now (tx_next_ms t)" "\<not> time_reached ?now (tx_deadline_ms t)"
      using PumpSend by (auto simp: pump_choice_def split: if_splits)
    have i: "interval_ok (doubled SIP_T2_MS (tx_interval_ms t))"
      using assms(1) g(1) by (auto simp: tx_ok_def intro: interval_doubled)
    have "left ?now (tx_deadline_ms t) \<le> 32000"
      using left_deadline [OF g(2,3)] assms(1) g(1) by (auto simp: tx_ok_def)
    from left_clamp [OF this interval_le [OF i]] clamp_not_due [OF interval_soon [OF i] g(3)] g(3) show ?thesis
      using assms(1) g(1) i
      by (simp add: t' after_retransmit_def Let_def tx_ok_def transaction_wakeup_def tx_empty_def)
  qed
  then show "tx_ok t'" "\<forall>d\<in>set (transaction_wakeup t'). \<not> time_reached ?now d" by blast+
qed


text \<open>The view in which a transaction that is not retransmitted only waits for its deadline.\<close>

definition settled_tx :: "udp_transaction \<Rightarrow> udp_transaction" where
  "settled_tx t = (if tx_empty t \<or> (tx_udp t \<and> \<not> tx_completed t) then t else wait_deadline t)"

lemma settled_tx_facts [simp]:
  "tx_empty (settled_tx t) = tx_empty t" "tx_ip (settled_tx t) = tx_ip t" "tx_port (settled_tx t) = tx_port t"
  "tx_deadline_ms (settled_tx t) = tx_deadline_ms t" "tx_udp (settled_tx t) = tx_udp t"
  "tx_completed (settled_tx t) = tx_completed t" "tx_request (settled_tx t) = tx_request t"
  "tx_interval_ms (settled_tx t) = tx_interval_ms t" "settled_tx (settled_tx t) = settled_tx t"
  by (simp_all add: settled_tx_def wait_deadline_def tx_empty_def)

lemma settled_wakeup [simp]: "transaction_wakeup (settled_tx t) = transaction_wakeup t"
  by (simp add: transaction_wakeup_def) (simp add: settled_tx_def wait_deadline_def)

lemma settled_wait: "\<not> tx_empty t \<Longrightarrow> tx_completed t \<or> \<not> tx_udp t \<Longrightarrow> settled_tx (wait_deadline t) = settled_tx t"
  by (auto simp: settled_tx_def wait_deadline_def tx_empty_def)

lemma settled_sending: "tx_udp t \<Longrightarrow> \<not> tx_completed t \<Longrightarrow> settled_tx t = t"
  by (simp add: settled_tx_def)

text \<open>Before its wake-up a transaction is left as it is.\<close>

lemma pump_transaction_early:
  assumes "tx_ok t" "\<forall>d\<in>set (transaction_wakeup t). \<not> time_reached now d \<and> wait_for now d \<le> 2 ^ 30 \<and> \<delta> < wait_for now d"
  shows "\<exists>a t'. pump_transaction (env\<lparr>sip_now := now + \<delta>\<rparr>) t s = (a, t', s) \<and> a \<noteq> PumpTimeout \<and> settled_tx t' = settled_tx t"
proof (cases "tx_empty t")
  case True
  then show ?thesis by (simp add: pump_transaction_def pump_choice_def)
next
  case f: False
  show ?thesis
  proof (cases "tx_udp t \<and> \<not> tx_completed t")
    case True
    then have d: "\<not> time_reached now (tx_next_ms t)" "wait_for now (tx_next_ms t) \<le> 2 ^ 30" "\<delta> < wait_for now (tx_next_ms t)"
      using assms(2) f by (simp_all add: transaction_wakeup_def)
    have "\<not> time_reached (now + \<delta>) (tx_next_ms t)" "\<not> time_reached (now + \<delta>) (tx_deadline_ms t)"
      using not_yet [OF d(1,3)] not_yet_deadline [OF d(1,3,2)] assms(1) f by (simp_all add: tx_ok_def)
    then show ?thesis by (simp add: pump_transaction_def pump_choice_def)
  next
    case False
    then have "\<not> time_reached (now + \<delta>) (tx_deadline_ms t)"
      using assms(2) f not_yet by (simp add: transaction_wakeup_def split: if_splits)
    then show ?thesis using False f
      by (auto simp: pump_transaction_def pump_choice_def settled_wait)
  qed
qed

text \<open>Pumping does not see more of a transaction than the settled view.\<close>

lemma settled_choice:
  assumes "\<not> tx_empty t" "tx_completed t \<or> \<not> tx_udp t"
  shows "pump_choice now t \<noteq> PumpSend" "pump_choice now (settled_tx t) = (if pump_choice now t = PumpTimeout then PumpTimeout else PumpIdle)"
proof -
  have n: "tx_next_ms (settled_tx t) = tx_deadline_ms t" using assms by (auto simp: settled_tx_def wait_deadline_def)
  show "pump_choice now t \<noteq> PumpSend" using assms by (auto simp: pump_choice_def)
  show "pump_choice now (settled_tx t) = (if pump_choice now t = PumpTimeout then PumpTimeout else PumpIdle)"
    using assms by (auto simp: pump_choice_def n)
qed

lemma pump_settled:
  assumes "pump_transaction env t s = (a, t', s')"
  shows "\<exists>b u. pump_transaction env (settled_tx t) s = (b, u, s') \<and> (b = PumpTimeout) = (a = PumpTimeout) \<and> settled_tx u = settled_tx t'"
proof (cases "tx_empty t \<or> (tx_udp t \<and> \<not> tx_completed t)")
  case True
  then have "settled_tx t = t" by (auto simp: settled_tx_def)
  then show ?thesis using assms by auto
next
  case False
  then have f: "\<not> tx_empty t" "tx_completed t \<or> \<not> tx_udp t" by auto
  show ?thesis
    using assms settled_choice [OF f, of "sip_now env"] settled_wait [OF f]
    by (cases "pump_choice (sip_now env) t") (auto simp: pump_transaction_def)
qed


section \<open>All timers\<close>

definition rested :: "u32 \<Rightarrow> udp_transaction \<Rightarrow> bool" where
  "rested now t \<longleftrightarrow> tx_ok t \<and> (\<forall>d\<in>set (transaction_wakeup t). \<not> time_reached now d)"

definition deferred_rested :: "u32 \<Rightarrow> deferred_response \<Rightarrow> bool" where
  "deferred_rested now d \<longleftrightarrow> deferred_ok d \<and> (dr_response d \<noteq> [] \<longrightarrow> \<not> time_reached now (dr_next_ms d))"

definition server_rested :: "u32 \<Rightarrow> completed_server \<Rightarrow> bool" where
  "server_rested now c \<longleftrightarrow> server_ok c \<and>
     (cs_awaiting_ack c \<longrightarrow> \<not> time_reached now (if cs_udp c \<or> cs_status c < 300 then cs_next_ms c else cs_deadline_ms c))"

text \<open>Nothing is due.\<close>

definition nothing_due :: "u32 \<Rightarrow> sip_state \<Rightarrow> bool" where
  "nothing_due now s \<longleftrightarrow> (\<forall>d\<in>set (sip_wakeups s). \<not> time_reached now d)"

lemma rested_empty [simp]: "rested now no_transaction" "deferred_rested now no_deferred_response" "server_rested now no_completed_server"
  by (simp_all add: rested_def deferred_rested_def server_rested_def transaction_wakeup_def no_deferred_response_def no_completed_server_def)
    (simp_all add: deferred_ok_def server_ok_def interval_ok_def)

lemma timers_soon [simp]:
  "\<not> time_reached now (now + 500)" "\<not> time_reached now (now + 32000)" "\<not> time_reached now (now + 20)"
  by (simp_all add: soon)

lemma wakeup_new: "set (transaction_wakeup (new_transaction now tcp msg dst dport)) \<subseteq> {now + 500, now + 32000}"
  by (simp add: transaction_wakeup_def new_transaction_def)

lemma rested_new [simp]: "dst \<noteq> 0 \<Longrightarrow> dport \<noteq> 0 \<Longrightarrow> rested now (new_transaction now tcp msg dst dport)"
  using wakeup_new by (fastforce simp: rested_def)

lemma rested_pumped:
  "tx_ok t \<Longrightarrow> rested (sip_now env) (fst (snd (pump_transaction env t s)))"
  using pump_transaction_ok [of t env s] by (cases "pump_transaction env t s") (auto simp: rested_def)

text \<open>The stages of the pump: each leaves its own timer at rest.\<close>

lemma pump_transaction_state:
  "\<exists>m dst dport. snd (snd (pump_transaction env t s)) = s \<or> snd (snd (pump_transaction env t s)) = snd (send_sip env m dst dport s)"
  by (auto simp: pump_transaction_def split: pump_action.split)

lemma pump_transaction_sent: "sent_from s (snd (snd (pump_transaction env t s)))"
  using pump_transaction_state [of env t s] sent_from_refl [of s] sent_from_send by metis

lemmas pump_transaction_fields [simp] = sent_from_fields [OF pump_transaction_sent]

lemma pump_stage_invite:
  assumes "tx_ok (pending_invite s)"
  shows "tx_ok (pending_invite (snd (pump_invite env s)))"
    "outgoing_invite_pending (snd (pump_invite env s)) \<Longrightarrow> rested (sip_now env) (pending_invite (snd (pump_invite env s)))"
  using assms rested_pumped [OF assms, of env s]
  by (auto simp: pump_invite_def prod.case_eq_if rested_def)

lemma pump_stage_others:
  "tx_ok (pending_cancel s) \<Longrightarrow> rested (sip_now env) (pending_cancel (snd (pump_cancel env s)))"
  "tx_ok (pending_bye s) \<Longrightarrow> rested (sip_now env) (pending_bye (snd (pump_bye env s)))"
  "tx_ok (pending_update s) \<Longrightarrow> rested (sip_now env) (pending_update (pump_update env s))"
  by (simp_all add: pump_cancel_def pump_bye_def pump_update_def prod.case_eq_if rested_pumped)

lemma pump_stage_frames [simp]:
  "pending_cancel (snd (pump_invite env s)) = pending_cancel s" "pending_bye (snd (pump_invite env s)) = pending_bye s"
  "pending_update (snd (pump_invite env s)) = pending_update s" "pending_provisional (snd (pump_invite env s)) = pending_provisional s"
  "completed_invite (snd (pump_invite env s)) = completed_invite s" "completed_control (snd (pump_invite env s)) = completed_control s"
  "completed_invite_client (snd (pump_invite env s)) = completed_invite_client s"
  "pending_invite (snd (pump_cancel env s)) = pending_invite s" "pending_bye (snd (pump_cancel env s)) = pending_bye s"
  "pending_update (snd (pump_cancel env s)) = pending_update s" "pending_provisional (snd (pump_cancel env s)) = pending_provisional s"
  "completed_invite (snd (pump_cancel env s)) = completed_invite s" "completed_control (snd (pump_cancel env s)) = completed_control s"
  "completed_invite_client (snd (pump_cancel env s)) = completed_invite_client s"
  "outgoing_invite_pending (snd (pump_cancel env s)) = outgoing_invite_pending s"
  "pending_invite (snd (pump_bye env s)) = pending_invite s" "pending_cancel (snd (pump_bye env s)) = pending_cancel s"
  "pending_update (snd (pump_bye env s)) = pending_update s" "pending_provisional (snd (pump_bye env s)) = pending_provisional s"
  "completed_invite (snd (pump_bye env s)) = completed_invite s" "completed_control (snd (pump_bye env s)) = completed_control s"
  "completed_invite_client (snd (pump_bye env s)) = completed_invite_client s"
  "outgoing_invite_pending (snd (pump_bye env s)) = outgoing_invite_pending s"
  "pending_invite (pump_update env s) = pending_invite s" "pending_cancel (pump_update env s) = pending_cancel s"
  "pending_bye (pump_update env s) = pending_bye s" "pending_provisional (pump_update env s) = pending_provisional s"
  "completed_invite (pump_update env s) = completed_invite s" "completed_control (pump_update env s) = completed_control s"
  "completed_invite_client (pump_update env s) = completed_invite_client s"
  "outgoing_invite_pending (pump_update env s) = outgoing_invite_pending s"
  by (simp_all add: pump_invite_def pump_cancel_def pump_bye_def pump_update_def prod.case_eq_if)


lemma pump_provisional_cases:
  assumes "dr_response (pending_provisional s) \<noteq> []" "time_reached (sip_now env) (dr_next_ms (pending_provisional s))"
  shows "pending_provisional (pump_provisional env s) = no_deferred_response \<or>
    (\<not> time_reached (sip_now env) (dr_deadline_ms (pending_provisional s)) \<and>
     pending_provisional (pump_provisional env s) = after_failed_response (sip_now env) (pending_provisional s))"
  using assms by (auto simp: pump_provisional_def Let_def prod.case_eq_if bool.case_eq_if)

lemma pump_stage_provisional:
  assumes "deferred_ok (pending_provisional s)"
  shows "deferred_rested (sip_now env) (pending_provisional (pump_provisional env s))"
proof -
  let ?d = "pending_provisional s" and ?now = "sip_now env"
  show ?thesis
  proof (cases "dr_response ?d = [] \<or> \<not> time_reached ?now (dr_next_ms ?d)")
    case True
    then show ?thesis using assms by (auto simp: pump_provisional_def deferred_rested_def Let_def)
  next
    case False
    then have f: "dr_response ?d \<noteq> []" "time_reached ?now (dr_next_ms ?d)" by auto
    have i: "interval_ok (doubled SIP_T1_MS (dr_interval_ms ?d))"
      using assms f(1) by (auto simp: deferred_ok_def intro: interval_doubled)
    from pump_provisional_cases [OF f] show ?thesis
    proof
      assume a: "\<not> time_reached ?now (dr_deadline_ms ?d) \<and>
        pending_provisional (pump_provisional env s) = after_failed_response ?now ?d"
      then have "left ?now (dr_deadline_ms ?d) \<le> 32000"
        using left_deadline [OF f(2), of "dr_deadline_ms ?d"] assms f(1) by (auto simp: deferred_ok_def)
      from left_clamp [OF this interval_le [OF i]] clamp_not_due [OF interval_soon [OF i], of ?now] a i show ?thesis
        by (auto simp: after_failed_response_def Let_def deferred_rested_def deferred_ok_def)
    qed simp
  qed
qed

lemma pump_stage_final:
  assumes "server_ok (completed_invite s)"
  shows "server_rested (sip_now env) (completed_invite (snd (pump_final_response env s)))"
proof -
  let ?c = "completed_invite s" and ?now = "sip_now env"
  consider "\<not> cs_awaiting_ack ?c \<or> time_reached ?now (cs_deadline_ms ?c)"
    | "cs_awaiting_ack ?c" "\<not> time_reached ?now (cs_deadline_ms ?c)" "\<not> ((cs_udp ?c \<or> cs_status ?c < 300) \<and> time_reached ?now (cs_next_ms ?c))"
    | "cs_awaiting_ack ?c" "\<not> time_reached ?now (cs_deadline_ms ?c)" "cs_udp ?c \<or> cs_status ?c < 300" "time_reached ?now (cs_next_ms ?c)"
    by blast
  then show ?thesis
  proof cases
    case 1
    then show ?thesis using assms by (auto simp: pump_final_response_def Let_def server_rested_def server_ok_def)
  next
    case 2
    then show ?thesis using assms by (auto simp: pump_final_response_def Let_def server_rested_def server_ok_def)
  next
    case 3
    have i: "interval_ok (doubled SIP_T2_MS (cs_interval_ms ?c))"
      using assms by (auto simp: server_ok_def intro: interval_doubled)
    have "left ?now (cs_deadline_ms ?c) \<le> 32000"
      using left_deadline [OF 3(4,2)] assms 3(1) by (auto simp: server_ok_def)
    from left_clamp [OF this interval_le [OF i]] clamp_not_due [OF interval_soon [OF i] 3(2)] 3 i show ?thesis
      by (auto simp: pump_final_response_def after_final_retransmit_def Let_def server_rested_def server_ok_def)
  qed
qed

lemma pump_late_frames [simp]:
  "pending_invite (pump_provisional env s) = pending_invite s" "pending_cancel (pump_provisional env s) = pending_cancel s"
  "pending_bye (pump_provisional env s) = pending_bye s" "pending_update (pump_provisional env s) = pending_update s"
  "completed_invite (pump_provisional env s) = completed_invite s"
  "outgoing_invite_pending (pump_provisional env s) = outgoing_invite_pending s"
  "pending_invite (snd (pump_final_response env s)) = pending_invite s" "pending_cancel (snd (pump_final_response env s)) = pending_cancel s"
  "pending_bye (snd (pump_final_response env s)) = pending_bye s" "pending_update (snd (pump_final_response env s)) = pending_update s"
  "pending_provisional (snd (pump_final_response env s)) = pending_provisional s"
  "outgoing_invite_pending (snd (pump_final_response env s)) = outgoing_invite_pending s"
  by (simp_all add: pump_provisional_def pump_final_response_def Let_def prod.case_eq_if bool.case_eq_if)

lemma rested_ok: "rested now t \<Longrightarrow> tx_ok t" "deferred_rested now d \<Longrightarrow> deferred_ok d" "server_rested now c \<Longrightarrow> server_ok c"
  by (simp_all add: rested_def deferred_rested_def server_rested_def)

lemma rested_expired: "server_rested now c \<Longrightarrow> server_rested now (expire_server now c)"
  by (simp add: expire_server_def)

text \<open>What is due is a timer or the expiry of a record.\<close>

definition tx_quiet :: "u32 \<Rightarrow> udp_transaction \<Rightarrow> bool" where
  "tx_quiet now t \<longleftrightarrow> (\<forall>d\<in>set (transaction_wakeup t). \<not> time_reached now d)"

definition deferred_quiet :: "u32 \<Rightarrow> deferred_response \<Rightarrow> bool" where
  "deferred_quiet now d \<longleftrightarrow> (dr_response d \<noteq> [] \<longrightarrow> \<not> time_reached now (dr_next_ms d))"

definition server_quiet :: "u32 \<Rightarrow> completed_server \<Rightarrow> bool" where
  "server_quiet now c \<longleftrightarrow>
     (cs_awaiting_ack c \<longrightarrow> \<not> time_reached now (if cs_udp c \<or> cs_status c < 300 then cs_next_ms c else cs_deadline_ms c))"

definition record_quiet :: "u32 \<Rightarrow> completed_server \<Rightarrow> bool" where
  "record_quiet now c \<longleftrightarrow> (cs_response c \<noteq> [] \<longrightarrow> \<not> time_reached now (cs_completed_ms c + SIP_TRANSACTION_TIMEOUT_MS))"

definition client_quiet :: "u32 \<Rightarrow> completed_client \<Rightarrow> bool" where
  "client_quiet now c \<longleftrightarrow> (cc_ack c \<noteq> [] \<longrightarrow> \<not> time_reached now (cc_completed_ms c + SIP_TRANSACTION_TIMEOUT_MS))"

lemma nothing_due_iff:
  "nothing_due now s \<longleftrightarrow>
     (outgoing_invite_pending s \<longrightarrow> tx_quiet now (pending_invite s)) \<and> tx_quiet now (pending_cancel s) \<and>
     tx_quiet now (pending_bye s) \<and> tx_quiet now (pending_update s) \<and> deferred_quiet now (pending_provisional s) \<and>
     server_quiet now (completed_invite s) \<and> record_quiet now (completed_invite s) \<and> record_quiet now (completed_control s) \<and>
     client_quiet now (completed_invite_client s)"
  unfolding nothing_due_def sip_wakeups_def Let_def tx_quiet_def deferred_quiet_def server_quiet_def record_quiet_def client_quiet_def
  by (simp only: set_append ball_Un) (simp only: set_simps if_distrib [where f = set] ball_simps split: if_split, blast)

lemma quiet_none [simp]: "tx_quiet now no_transaction" "deferred_quiet now no_deferred_response"
  by (simp_all add: tx_quiet_def deferred_quiet_def transaction_wakeup_def no_deferred_response_def)

lemma quiet_rested:
  "rested now t \<Longrightarrow> tx_quiet now t" "deferred_rested now d \<Longrightarrow> deferred_quiet now d" "server_rested now c \<Longrightarrow> server_quiet now c"
  by (simp_all add: rested_def deferred_rested_def server_rested_def tx_quiet_def deferred_quiet_def server_quiet_def)

lemma quiet_expired [simp]: "record_quiet now (expire_server now c)" "client_quiet now (expire_client now d)"
  by (simp_all add: record_quiet_def client_quiet_def expire_server_def expire_client_def no_completed_server_def no_completed_client_def)

lemma pump_timers_rest:
  assumes "timers_ok s"
  shows "timers_ok (snd (pump_timers env s)) \<and> nothing_due (sip_now env) (snd (pump_timers env s))"
proof -
  let ?now = "sip_now env"
  obtain b1 s1 where 1: "pump_invite env s = (b1, s1)" by fastforce
  obtain b2 s2 where 2: "pump_cancel env s1 = (b2, s2)" by fastforce
  obtain b3 s3 where 3: "pump_bye env s2 = (b3, s3)" by fastforce
  define s4 where "s4 = pump_provisional env (pump_update env s3)"
  obtain b5 s5 where 5: "pump_final_response env s4 = (b5, s5)" by fastforce
  have t: "snd (pump_timers env s) = expire_completed env s5" by (simp add: pump_timers_def 1 2 3 5 flip: s4_def)
  have e: "s1 = snd (pump_invite env s)" "s2 = snd (pump_cancel env s1)" "s3 = snd (pump_bye env s2)" "s5 = snd (pump_final_response env s4)"
    using 1 2 3 5 by simp_all
  have ok: "tx_ok (pending_invite s)" "tx_ok (pending_cancel s)" "tx_ok (pending_bye s)" "tx_ok (pending_update s)"
    "deferred_ok (pending_provisional s)" "server_ok (completed_invite s)" using assms by (simp_all add: timers_ok_def)
  have i: "tx_ok (pending_invite s5)" "outgoing_invite_pending s5 \<Longrightarrow> rested ?now (pending_invite s5)"
    using pump_stage_invite [OF ok(1), of env] by (simp_all add: e s4_def)
  have r: "rested ?now (pending_cancel s5)" "rested ?now (pending_bye s5)" "rested ?now (pending_update s5)"
    using pump_stage_others [where env = env] ok by (simp_all add: e s4_def)
  have d: "deferred_rested ?now (pending_provisional s5)"
    using pump_stage_provisional [where env = env] ok(5) by (simp add: e s4_def)
  have c: "server_rested ?now (expire_server ?now (completed_invite s5))"
    using pump_stage_final [where env = env] ok(6) by (simp add: e s4_def rested_expired)
  show ?thesis
    using i r d c quiet_rested rested_ok by (auto simp: t timers_ok_def nothing_due_iff expire_completed_def)
qed


section \<open>Frames of the timers\<close>

lemma timers_ok_updates [simp]:
  "timers_ok (s\<lparr>sdp := x0\<rparr>) = timers_ok s" "timers_ok (s\<lparr>sip_port := x1\<rparr>) = timers_ok s"
  "timers_ok (s\<lparr>sip_running := x2\<rparr>) = timers_ok s"
  "timers_ok (s\<lparr>transport_stopping := x3\<rparr>) = timers_ok s"
  "timers_ok (s\<lparr>remote_ip := x4\<rparr>) = timers_ok s"
  "timers_ok (s\<lparr>remote_sip_port := x5\<rparr>) = timers_ok s"
  "timers_ok (s\<lparr>remote_sip_tcp := x6\<rparr>) = timers_ok s"
  "timers_ok (s\<lparr>dlg_call_id := x7\<rparr>) = timers_ok s"
  "timers_ok (s\<lparr>local_tag := x8\<rparr>) = timers_ok s" "timers_ok (s\<lparr>remote_tag := x9\<rparr>) = timers_ok s"
  "timers_ok (s\<lparr>invite_branch := x10\<rparr>) = timers_ok s"
  "timers_ok (s\<lparr>local_uri := x11\<rparr>) = timers_ok s"
  "timers_ok (s\<lparr>local_contact_uri := x12\<rparr>) = timers_ok s"
  "timers_ok (s\<lparr>remote_uri := x13\<rparr>) = timers_ok s"
  "timers_ok (s\<lparr>remote_target_uri := x14\<rparr>) = timers_ok s"
  "timers_ok (s\<lparr>last_invite_via := x15\<rparr>) = timers_ok s"
  "timers_ok (s\<lparr>last_invite_from := x16\<rparr>) = timers_ok s"
  "timers_ok (s\<lparr>last_invite_to := x17\<rparr>) = timers_ok s"
  "timers_ok (s\<lparr>last_invite_cseq := x18\<rparr>) = timers_ok s"
  "timers_ok (s\<lparr>last_invite_response := x19\<rparr>) = timers_ok s"
  "timers_ok (s\<lparr>last_invite_cseq_number := x20\<rparr>) = timers_ok s"
  "timers_ok (s\<lparr>remote_dialog_cseq := x21\<rparr>) = timers_ok s"
  "timers_ok (s\<lparr>last_invite_peer_ip := x22\<rparr>) = timers_ok s"
  "timers_ok (s\<lparr>last_invite_peer_port := x23\<rparr>) = timers_ok s"
  "timers_ok (s\<lparr>caller_id := x24\<rparr>) = timers_ok s"
  "timers_ok (s\<lparr>destination_id := x25\<rparr>) = timers_ok s"
  "timers_ok (s\<lparr>peer_supports_from_change := x26\<rparr>) = timers_ok s"
  "timers_ok (s\<lparr>connected_identity_sent := x27\<rparr>) = timers_ok s"
  "timers_ok (s\<lparr>dialog_originated := x28\<rparr>) = timers_ok s"
  "timers_ok (s\<lparr>delayed_offer_pending := x29\<rparr>) = timers_ok s"
  "timers_ok (s\<lparr>dlg_cseq := x30\<rparr>) = timers_ok s"
  "timers_ok (s\<lparr>invite_cseq := x31\<rparr>) = timers_ok s"
  "timers_ok (s\<lparr>completed_control := x32\<rparr>) = timers_ok s"
  "timers_ok (s\<lparr>completed_invite_client := x33\<rparr>) = timers_ok s"
  "timers_ok (s\<lparr>terminate_after_invite_ack := x34\<rparr>) = timers_ok s"
  "timers_ok (s\<lparr>media_active := x35\<rparr>) = timers_ok s"
  "timers_ok (s\<lparr>outgoing_invite_pending := x36\<rparr>) = timers_ok s"
  "timers_ok (s\<lparr>cancel_requested := x37\<rparr>) = timers_ok s"
  "timers_ok (s\<lparr>media_lifecycle := x38\<rparr>) = timers_ok s"
  "timers_ok (s\<lparr>rtp_running := x39\<rparr>) = timers_ok s"
  "timers_ok (s\<lparr>rtp_task := x40\<rparr>) = timers_ok s"
  "timers_ok (s\<lparr>rtp_quiesced := x41\<rparr>) = timers_ok s"
  "timers_ok (s\<lparr>rtp_bound := x42\<rparr>) = timers_ok s"
  "timers_ok (s\<lparr>rtp_latch := x43\<rparr>) = timers_ok s"
  "timers_ok (s\<lparr>sip_socket_open := x44\<rparr>) = timers_ok s"
  "timers_ok (s\<lparr>tcp_connected := x45\<rparr>) = timers_ok s"
  "timers_ok (s\<lparr>tcp_peer := x46\<rparr>) = timers_ok s"
  "timers_ok (s\<lparr>tcp_target := x47\<rparr>) = timers_ok s"
  "timers_ok (s\<lparr>tcp_connect_requested := x48\<rparr>) = timers_ok s"
  "timers_ok (s\<lparr>tcp_close_requested := x49\<rparr>) = timers_ok s"
  "timers_ok (s\<lparr>tcp_rx := x50\<rparr>) = timers_ok s" "timers_ok (s\<lparr>tcp_pending := x51\<rparr>) = timers_ok s"
  "timers_ok (s\<lparr>tcp_connecting := x52\<rparr>) = timers_ok s"
  "timers_ok (s\<lparr>last_sip_event := x53\<rparr>) = timers_ok s"
  "timers_ok (s\<lparr>last_sip_status := x54\<rparr>) = timers_ok s"
  "timers_ok (s\<lparr>sip_sends := x55\<rparr>) = timers_ok s" "timers_ok (s\<lparr>randoms := x56\<rparr>) = timers_ok s"
  "timers_ok (s\<lparr>sip_effects := x57\<rparr>) = timers_ok s"
  by (simp_all add: timers_ok_def)

lemma nothing_due_updates [simp]:
  "nothing_due now (s\<lparr>sdp := x0\<rparr>) = nothing_due now s"
  "nothing_due now (s\<lparr>sip_port := x1\<rparr>) = nothing_due now s"
  "nothing_due now (s\<lparr>sip_running := x2\<rparr>) = nothing_due now s"
  "nothing_due now (s\<lparr>transport_stopping := x3\<rparr>) = nothing_due now s"
  "nothing_due now (s\<lparr>remote_ip := x4\<rparr>) = nothing_due now s"
  "nothing_due now (s\<lparr>remote_sip_port := x5\<rparr>) = nothing_due now s"
  "nothing_due now (s\<lparr>remote_sip_tcp := x6\<rparr>) = nothing_due now s"
  "nothing_due now (s\<lparr>dlg_call_id := x7\<rparr>) = nothing_due now s"
  "nothing_due now (s\<lparr>local_tag := x8\<rparr>) = nothing_due now s"
  "nothing_due now (s\<lparr>remote_tag := x9\<rparr>) = nothing_due now s"
  "nothing_due now (s\<lparr>invite_branch := x10\<rparr>) = nothing_due now s"
  "nothing_due now (s\<lparr>local_uri := x11\<rparr>) = nothing_due now s"
  "nothing_due now (s\<lparr>local_contact_uri := x12\<rparr>) = nothing_due now s"
  "nothing_due now (s\<lparr>remote_uri := x13\<rparr>) = nothing_due now s"
  "nothing_due now (s\<lparr>remote_target_uri := x14\<rparr>) = nothing_due now s"
  "nothing_due now (s\<lparr>last_invite_via := x15\<rparr>) = nothing_due now s"
  "nothing_due now (s\<lparr>last_invite_from := x16\<rparr>) = nothing_due now s"
  "nothing_due now (s\<lparr>last_invite_to := x17\<rparr>) = nothing_due now s"
  "nothing_due now (s\<lparr>last_invite_cseq := x18\<rparr>) = nothing_due now s"
  "nothing_due now (s\<lparr>last_invite_response := x19\<rparr>) = nothing_due now s"
  "nothing_due now (s\<lparr>last_invite_cseq_number := x20\<rparr>) = nothing_due now s"
  "nothing_due now (s\<lparr>remote_dialog_cseq := x21\<rparr>) = nothing_due now s"
  "nothing_due now (s\<lparr>last_invite_peer_ip := x22\<rparr>) = nothing_due now s"
  "nothing_due now (s\<lparr>last_invite_peer_port := x23\<rparr>) = nothing_due now s"
  "nothing_due now (s\<lparr>caller_id := x24\<rparr>) = nothing_due now s"
  "nothing_due now (s\<lparr>destination_id := x25\<rparr>) = nothing_due now s"
  "nothing_due now (s\<lparr>peer_supports_from_change := x26\<rparr>) = nothing_due now s"
  "nothing_due now (s\<lparr>connected_identity_sent := x27\<rparr>) = nothing_due now s"
  "nothing_due now (s\<lparr>dialog_originated := x28\<rparr>) = nothing_due now s"
  "nothing_due now (s\<lparr>delayed_offer_pending := x29\<rparr>) = nothing_due now s"
  "nothing_due now (s\<lparr>dlg_cseq := x30\<rparr>) = nothing_due now s"
  "nothing_due now (s\<lparr>invite_cseq := x31\<rparr>) = nothing_due now s"
  "nothing_due now (s\<lparr>terminate_after_invite_ack := x32\<rparr>) = nothing_due now s"
  "nothing_due now (s\<lparr>media_active := x33\<rparr>) = nothing_due now s"
  "nothing_due now (s\<lparr>cancel_requested := x34\<rparr>) = nothing_due now s"
  "nothing_due now (s\<lparr>media_lifecycle := x35\<rparr>) = nothing_due now s"
  "nothing_due now (s\<lparr>rtp_running := x36\<rparr>) = nothing_due now s"
  "nothing_due now (s\<lparr>rtp_task := x37\<rparr>) = nothing_due now s"
  "nothing_due now (s\<lparr>rtp_quiesced := x38\<rparr>) = nothing_due now s"
  "nothing_due now (s\<lparr>rtp_bound := x39\<rparr>) = nothing_due now s"
  "nothing_due now (s\<lparr>rtp_latch := x40\<rparr>) = nothing_due now s"
  "nothing_due now (s\<lparr>sip_socket_open := x41\<rparr>) = nothing_due now s"
  "nothing_due now (s\<lparr>tcp_connected := x42\<rparr>) = nothing_due now s"
  "nothing_due now (s\<lparr>tcp_peer := x43\<rparr>) = nothing_due now s"
  "nothing_due now (s\<lparr>tcp_target := x44\<rparr>) = nothing_due now s"
  "nothing_due now (s\<lparr>tcp_connect_requested := x45\<rparr>) = nothing_due now s"
  "nothing_due now (s\<lparr>tcp_close_requested := x46\<rparr>) = nothing_due now s"
  "nothing_due now (s\<lparr>tcp_rx := x47\<rparr>) = nothing_due now s"
  "nothing_due now (s\<lparr>tcp_pending := x48\<rparr>) = nothing_due now s"
  "nothing_due now (s\<lparr>tcp_connecting := x49\<rparr>) = nothing_due now s"
  "nothing_due now (s\<lparr>last_sip_event := x50\<rparr>) = nothing_due now s"
  "nothing_due now (s\<lparr>last_sip_status := x51\<rparr>) = nothing_due now s"
  "nothing_due now (s\<lparr>sip_sends := x52\<rparr>) = nothing_due now s"
  "nothing_due now (s\<lparr>randoms := x53\<rparr>) = nothing_due now s"
  "nothing_due now (s\<lparr>sip_effects := x54\<rparr>) = nothing_due now s"
  by (simp_all add: nothing_due_iff)

lemma timers_sent [simp]:
  "timers_ok (snd (send_sip env m dst dport s)) = timers_ok s" "timers_ok (snd (send_sip_udp env m dst dport s)) = timers_ok s"
  "nothing_due now (snd (send_sip env m dst dport s)) = nothing_due now s"
  by (simp_all add: timers_ok_def nothing_due_iff)

lemma timers_marked [simp]:
  "timers_ok (mark_sip_event e st s) = timers_ok s" "timers_ok (do_effect f s) = timers_ok s" "timers_ok (emit_signal g s) = timers_ok s"
  "nothing_due now (mark_sip_event e st s) = nothing_due now s" "nothing_due now (do_effect f s) = nothing_due now s"
  "nothing_due now (emit_signal g s) = nothing_due now s"
  by (simp_all add: mark_sip_event_def do_effect_def emit_signal_def)

lemma timers_token [simp]:
  "timers_ok (snd (fresh_token env p s)) = timers_ok s" "timers_ok (snd (fresh_branch env s)) = timers_ok s"
  "nothing_due now (snd (fresh_token env p s)) = nothing_due now s" "nothing_due now (snd (fresh_branch env s)) = nothing_due now s"
  by (simp_all add: fresh_token_def fresh_branch_def next_random_def)

lemma timers_branch [simp]:
  "timers_ok (snd (request_branch env m opts s)) = timers_ok s" "nothing_due now (snd (request_branch env m opts s)) = nothing_due now s"
  by (simp_all add: request_branch_def prod.case_eq_if)

lemma timers_ack [simp]:
  "timers_ok (remember_completed_invite_ack env m dst dport s) = timers_ok s"
  by (simp add: remember_completed_invite_ack_def timers_ok_def)

lemma due_ack: "nothing_due (sip_now env) s \<Longrightarrow> nothing_due (sip_now env) (remember_completed_invite_ack env m dst dport s)"
  by (simp add: remember_completed_invite_ack_def nothing_due_iff client_quiet_def)

lemma timers_remember: "timers_ok s \<Longrightarrow> timers_ok (remember_udp_transaction env m msg dst dport s)"
  by (simp add: remember_udp_transaction_def timers_ok_def Let_def)

lemma quiet_new [simp]: "tx_quiet now (new_transaction now tcp msg dst dport)"
  using wakeup_new by (fastforce simp: tx_quiet_def)

lemma due_remember: "nothing_due (sip_now env) s \<Longrightarrow> nothing_due (sip_now env) (remember_udp_transaction env m msg dst dport s)"
  by (simp add: remember_udp_transaction_def nothing_due_iff Let_def)

lemma timers_ok_pending:
  "timers_ok s \<Longrightarrow> tx_ok t \<Longrightarrow> timers_ok (s\<lparr>pending_invite := t\<rparr>)" "timers_ok s \<Longrightarrow> tx_ok t \<Longrightarrow> timers_ok (s\<lparr>pending_cancel := t\<rparr>)"
  "timers_ok s \<Longrightarrow> tx_ok t \<Longrightarrow> timers_ok (s\<lparr>pending_bye := t\<rparr>)" "timers_ok s \<Longrightarrow> tx_ok t \<Longrightarrow> timers_ok (s\<lparr>pending_update := t\<rparr>)"
  "timers_ok s \<Longrightarrow> deferred_ok d \<Longrightarrow> timers_ok (s\<lparr>pending_provisional := d\<rparr>)"
  "timers_ok s \<Longrightarrow> server_ok c \<Longrightarrow> timers_ok (s\<lparr>completed_invite := c\<rparr>)"
  by (simp_all add: timers_ok_def)

lemma due_pending:
  "nothing_due now s \<Longrightarrow> tx_quiet now t \<Longrightarrow> nothing_due now (s\<lparr>pending_invite := t\<rparr>)"
  "nothing_due now s \<Longrightarrow> tx_quiet now t \<Longrightarrow> nothing_due now (s\<lparr>pending_cancel := t\<rparr>)"
  "nothing_due now s \<Longrightarrow> tx_quiet now t \<Longrightarrow> nothing_due now (s\<lparr>pending_bye := t\<rparr>)"
  "nothing_due now s \<Longrightarrow> tx_quiet now t \<Longrightarrow> nothing_due now (s\<lparr>pending_update := t\<rparr>)"
  "nothing_due now s \<Longrightarrow> deferred_quiet now d \<Longrightarrow> nothing_due now (s\<lparr>pending_provisional := d\<rparr>)"
  "nothing_due now s \<Longrightarrow> nothing_due now (s\<lparr>outgoing_invite_pending := False\<rparr>)"
  by (simp_all add: nothing_due_iff)

lemma timers_media [simp]:
  "timers_ok (request_audio_path_stop s) = timers_ok s" "nothing_due now (request_audio_path_stop s) = nothing_due now s"
  "timers_ok (retract_tcp_record s) = timers_ok s" "nothing_due now (retract_tcp_record s) = nothing_due now s"
  by (simp_all add: request_audio_path_stop_def close_media_session_def finish_audio_path_stop_def retract_tcp_record_def Let_def)

lemma timers_reset:
  "timers_ok s \<Longrightarrow> timers_ok (reset_dialog s)" "nothing_due now s \<Longrightarrow> nothing_due now (reset_dialog s)"
  by (simp_all add: reset_dialog_def reset_rtp_latch_def clear_udp_transactions_def close_media_session_def Let_def
      timers_ok_pending due_pending)

lemma timers_request:
  "timers_ok s \<Longrightarrow> timers_ok (snd (send_request env m b opts s))"
  "nothing_due (sip_now env) s \<Longrightarrow> nothing_due (sip_now env) (snd (send_request env m b opts s))"
  unfolding send_request_def Let_def prod.case_eq_if
  by (simp_all add: timers_remember due_remember due_ack)

lemma timers_bye:
  "timers_ok s \<Longrightarrow> timers_ok (snd (send_bye_unlocked env cid s))"
  "nothing_due (sip_now env) s \<Longrightarrow> nothing_due (sip_now env) (snd (send_bye_unlocked env cid s))"
  by (simp_all add: send_bye_unlocked_def prod.case_eq_if timers_request timers_ok_pending due_pending)

text \<open>The whole pump.\<close>

lemma pump_rest:
  assumes "timers_ok s"
  shows "timers_ok (pump_udp_retransmits env s)" "nothing_due (sip_now env) (pump_udp_retransmits env s)"
proof -
  note r = pump_timers_rest [OF assms, of env]
  have i: "timers_ok (end_terminal cid t)" "nothing_due (sip_now env) (end_terminal cid t)" "timers_ok (end_invite cid t)"
    "nothing_due (sip_now env) (end_invite cid t)" "timers_ok (end_unacknowledged env cid t)" "nothing_due (sip_now env) (end_unacknowledged env cid t)"
    if "timers_ok t" "nothing_due (sip_now env) t" for t cid
    using that by (simp_all add: end_terminal_def end_invite_def end_unacknowledged_def prod.case_eq_if timers_reset timers_bye)
  show "timers_ok (pump_udp_retransmits env s)" "nothing_due (sip_now env) (pump_udp_retransmits env s)"
    using r i by (auto simp: pump_udp_retransmits_def Let_def split: prod.split)
qed


section \<open>Sleeping\<close>

lemma shortest_wait_le: "shortest_wait now ds = Some w \<Longrightarrow> d \<in> set ds \<Longrightarrow> w \<le> wait_for now d"
proof (induction ds arbitrary: w)
  case (Cons x ds)
  then show ?case by (cases ds; cases "shortest_wait now ds") (auto simp: min_le_iff_disj split: if_splits option.splits)
qed simp

lemma shortest_wait_None: "shortest_wait now ds = None \<longleftrightarrow> ds = []"
  by (cases ds) simp_all

lemma shortest_wait_in: "shortest_wait now ds = Some w \<Longrightarrow> \<exists>d\<in>set ds. w = wait_for now d"
proof (induction ds arbitrary: w)
  case (Cons x ds)
  then show ?case by (cases "shortest_wait now ds") (auto simp: min_def split: if_splits)
qed simp

text \<open>What pumping before the wake-up must not change; a transaction that only waits counts as waiting.\<close>

definition settled :: "sip_state \<Rightarrow> sip_state" where
  "settled s =
     s\<lparr>pending_invite := settled_tx (pending_invite s), pending_cancel := settled_tx (pending_cancel s),
       pending_bye := settled_tx (pending_bye s), pending_update := settled_tx (pending_update s)\<rparr>"

definition early :: "u32 \<Rightarrow> u32 \<Rightarrow> u32 list \<Rightarrow> bool" where
  "early now \<delta> ds \<longleftrightarrow> (\<forall>d\<in>set ds. \<not> time_reached now d \<and> wait_for now d \<le> 2 ^ 30 \<and> \<delta> < wait_for now d)"

lemma early_append [simp]: "early now \<delta> (ds @ es) \<longleftrightarrow> early now \<delta> ds \<and> early now \<delta> es"
  by (auto simp: early_def)

lemma early_if [simp]: "early now \<delta> (if b then ds else []) \<longleftrightarrow> (b \<longrightarrow> early now \<delta> ds)"
  by (auto simp: early_def)

lemma env_now: "sip_now (env\<lparr>sip_now := t\<rparr>) = t"
  by simp

lemma outgoing_same: "outgoing_invite_pending s \<Longrightarrow> s\<lparr>outgoing_invite_pending := True\<rparr> = s"
  by (cases s) simp

lemma early_invite:
  assumes "tx_ok (pending_invite s)" "outgoing_invite_pending s \<longrightarrow> early now \<delta> (transaction_wakeup (pending_invite s))"
  shows "\<exists>t. pump_invite (env\<lparr>sip_now := now + \<delta>\<rparr>) s = (False, s\<lparr>pending_invite := t\<rparr>) \<and> settled_tx t = settled_tx (pending_invite s)"
proof (cases "outgoing_invite_pending s")
  case True
  obtain a t where t: "pump_transaction (env\<lparr>sip_now := now + \<delta>\<rparr>) (pending_invite s) s = (a, t, s)" "a \<noteq> PumpTimeout"
    "settled_tx t = settled_tx (pending_invite s)"
    using pump_transaction_early [OF assms(1), of now \<delta> env s] assms(2) True by (auto simp: early_def)
  have o: "s\<lparr>pending_invite := t, outgoing_invite_pending := True\<rparr> = s\<lparr>pending_invite := t\<rparr>"
    by (rule outgoing_same) (use True in simp)
  have "pump_invite (env\<lparr>sip_now := now + \<delta>\<rparr>) s = (False, s\<lparr>pending_invite := t\<rparr>)"
    unfolding pump_invite_def t(1) prod.case using True t(2) by (simp only: o simp_thms if_False)
  then show ?thesis using t(3) by blast
next
  case False
  then show ?thesis by (intro exI [of _ "pending_invite s"]) (simp add: pump_invite_def)
qed

lemma early_transactions:
  assumes "early now \<delta> (transaction_wakeup t)" "tx_ok t"
  obtains a t' where "pump_transaction (env\<lparr>sip_now := now + \<delta>\<rparr>) t s = (a, t', s)" "a \<noteq> PumpTimeout" "settled_tx t' = settled_tx t"
  using pump_transaction_early [OF assms(2), of now \<delta> env s] assms(1) by (auto simp: early_def)

lemma early_provisional:
  assumes "dr_response (pending_provisional s) \<noteq> [] \<longrightarrow> early now \<delta> [dr_next_ms (pending_provisional s)]"
  shows "pump_provisional (env\<lparr>sip_now := now + \<delta>\<rparr>) s = s"
  using assms by (auto simp: pump_provisional_def Let_def early_def not_yet)

lemma early_final:
  assumes "server_ok c" "c = completed_invite s"
    "cs_awaiting_ack c \<longrightarrow> early now \<delta> [if cs_udp c \<or> cs_status c < 300 then cs_next_ms c else cs_deadline_ms c]"
  shows "pump_final_response (env\<lparr>sip_now := now + \<delta>\<rparr>) s = (False, s)"
proof (cases "cs_awaiting_ack c")
  case a: True
  have n: "\<not> time_reached (now + \<delta>) (cs_deadline_ms c) \<and> \<not> ((cs_udp c \<or> cs_status c < 300) \<and> time_reached (now + \<delta>) (cs_next_ms c))"
  proof (cases "cs_udp c \<or> cs_status c < 300")
    case True
    then have d: "\<not> time_reached now (cs_next_ms c)" "\<delta> < wait_for now (cs_next_ms c)" "wait_for now (cs_next_ms c) \<le> 2 ^ 30"
      using assms(3) a by (simp_all add: early_def)
    show ?thesis using not_yet [OF d(1,2)] not_yet_deadline [OF d] assms(1) a by (simp add: server_ok_def)
  next
    case False
    then show ?thesis using assms(3) a not_yet by (simp add: early_def)
  qed
  show ?thesis
    unfolding pump_final_response_def Let_def assms(2) [symmetric] env_now
    by (simp only: a n [THEN conjunct1] n [THEN conjunct2] not_True_eq_False if_False)
qed (use assms(2) in \<open>simp add: pump_final_response_def Let_def\<close>)

lemma early_expiry:
  "cs_response c \<noteq> [] \<longrightarrow> early now \<delta> [cs_completed_ms c + 32000] \<Longrightarrow> expire_server (now + \<delta>) c = c"
  "cc_ack d \<noteq> [] \<longrightarrow> early now \<delta> [cc_completed_ms d + 32000] \<Longrightarrow> expire_client (now + \<delta>) d = d"
  by (auto simp: expire_server_def expire_client_def early_def not_yet)

lemma early_wakeups:
  "early now \<delta> (sip_wakeups s) \<longleftrightarrow>
     (outgoing_invite_pending s \<longrightarrow> early now \<delta> (transaction_wakeup (pending_invite s))) \<and>
     early now \<delta> (transaction_wakeup (pending_cancel s)) \<and> early now \<delta> (transaction_wakeup (pending_bye s)) \<and>
     early now \<delta> (transaction_wakeup (pending_update s)) \<and>
     (dr_response (pending_provisional s) \<noteq> [] \<longrightarrow> early now \<delta> [dr_next_ms (pending_provisional s)]) \<and>
     (cs_awaiting_ack (completed_invite s) \<longrightarrow>
        early now \<delta> [if cs_udp (completed_invite s) \<or> cs_status (completed_invite s) < 300
                       then cs_next_ms (completed_invite s) else cs_deadline_ms (completed_invite s)]) \<and>
     (cs_response (completed_invite s) \<noteq> [] \<longrightarrow> early now \<delta> [cs_completed_ms (completed_invite s) + 32000]) \<and>
     (cs_response (completed_control s) \<noteq> [] \<longrightarrow> early now \<delta> [cs_completed_ms (completed_control s) + 32000]) \<and>
     (cc_ack (completed_invite_client s) \<noteq> [] \<longrightarrow> early now \<delta> [cc_completed_ms (completed_invite_client s) + 32000])"
  by (simp only: sip_wakeups_def Let_def early_append early_if T_values)

lemma settled_same:
  assumes "settled_tx t1 = settled_tx (pending_invite s)" "settled_tx t2 = settled_tx (pending_cancel s)"
    "settled_tx t3 = settled_tx (pending_bye s)" "settled_tx t4 = settled_tx (pending_update s)"
  shows "settled (s\<lparr>pending_invite := t1, pending_cancel := t2, pending_bye := t3, pending_update := t4\<rparr>) = settled s"
  by (simp add: settled_def assms)

lemma early_pump:
  assumes "timers_ok s" "early now \<delta> (sip_wakeups s)"
  shows "settled (pump_udp_retransmits (env\<lparr>sip_now := now + \<delta>\<rparr>) s) = settled s"
proof -
  let ?e = "env\<lparr>sip_now := now + \<delta>\<rparr>"
  note e = assms(2) [unfolded early_wakeups]
  have ok: "tx_ok (pending_invite s)" "tx_ok (pending_cancel s)" "tx_ok (pending_bye s)" "tx_ok (pending_update s)"
    "server_ok (completed_invite s)" using assms(1) by (simp_all add: timers_ok_def)
  obtain t1 where 1: "pump_invite ?e s = (False, s\<lparr>pending_invite := t1\<rparr>)" "settled_tx t1 = settled_tx (pending_invite s)"
    using early_invite [OF ok(1), of now \<delta> env] e by blast
  let ?s1 = "s\<lparr>pending_invite := t1\<rparr>"
  obtain a2 t2 where 2: "pump_transaction ?e (pending_cancel s) ?s1 = (a2, t2, ?s1)" "a2 \<noteq> PumpTimeout" "settled_tx t2 = settled_tx (pending_cancel s)"
    using early_transactions ok(2) e by metis
  let ?s2 = "?s1\<lparr>pending_cancel := t2\<rparr>"
  obtain a3 t3 where 3: "pump_transaction ?e (pending_bye s) ?s2 = (a3, t3, ?s2)" "a3 \<noteq> PumpTimeout" "settled_tx t3 = settled_tx (pending_bye s)"
    using early_transactions ok(3) e by metis
  let ?s3 = "?s2\<lparr>pending_bye := t3\<rparr>"
  obtain a4 t4 where 4: "pump_transaction ?e (pending_update s) ?s3 = (a4, t4, ?s3)" "settled_tx t4 = settled_tx (pending_update s)"
    using early_transactions ok(4) e by metis
  let ?s4 = "?s3\<lparr>pending_update := t4\<rparr>"
  have c: "pump_cancel ?e ?s1 = (False, ?s2)" "pump_bye ?e ?s2 = (False, ?s3)" "pump_update ?e ?s3 = ?s4"
    using 2 3 4 by (simp_all add: pump_cancel_def pump_bye_def pump_update_def)
  have p: "pump_provisional ?e ?s4 = ?s4" by (rule early_provisional) (use e in simp)
  have f: "pump_final_response ?e ?s4 = (False, ?s4)" by (rule early_final [OF ok(5)]) (simp, use e in blast)
  have x: "expire_completed ?e ?s4 = ?s4" using e early_expiry by (simp add: expire_completed_def)
  have "pump_udp_retransmits ?e s = ?s4"
    unfolding pump_udp_retransmits_def pump_timers_def Let_def 1(1) c p f x prod.case by simp
  then show ?thesis using settled_same [OF 1(2) 2(3) 3(3) 4(2)] by simp
qed

text \<open>The task pumping at the given moments after \<open>now\<close>.\<close>

definition poll :: "sip_env \<Rightarrow> u32 \<Rightarrow> u32 list \<Rightarrow> sip_state \<Rightarrow> sip_state" where
  "poll env now \<delta>s s = foldl (\<lambda>t \<delta>. pump_udp_retransmits (env\<lparr>sip_now := now + \<delta>\<rparr>) t) s \<delta>s"

lemma settled_wakeups [simp]: "sip_wakeups (settled s) = sip_wakeups s"
  by (simp add: sip_wakeups_def settled_def)

lemma settled_wakeups_eq: "settled s = settled t \<Longrightarrow> sip_wakeups s = sip_wakeups t"
  using settled_wakeups by metis

lemma poll_early:
  "timers_ok s \<Longrightarrow> \<forall>\<delta>\<in>set \<delta>s. early now \<delta> (sip_wakeups s) \<Longrightarrow> settled (poll env now \<delta>s s) = settled s"
proof (induction \<delta>s arbitrary: s)
  case (Cons \<delta> \<delta>s)
  let ?t = "pump_udp_retransmits (env\<lparr>sip_now := now + \<delta>\<rparr>) s"
  have t: "settled ?t = settled s" using early_pump Cons.prems by simp
  have "settled (poll env now \<delta>s ?t) = settled ?t"
    using Cons.IH [OF pump_rest(1) [OF Cons.prems(1)]] Cons.prems(2) settled_wakeups_eq [OF t] by simp
  then show ?case using t by (simp add: poll_def)
qed (simp add: poll_def)

text \<open>
  C13: The signaling task sleeps instead of polling, and that is the same. With plausible timers set in the
  last twelve days, pumping at any number of moments before the wake-up the task computes sends nothing,
  signals nothing and changes no timer (but for the next time of a transaction that is no more retransmitted,
  which waits for its deadline anyway), so it also leaves every wake-up as it was.
\<close>

theorem sleeping_equals_polling:
  assumes "timers_ok s" "\<forall>d\<in>set (sip_wakeups s). wait_for now d \<le> 2 ^ 30"
    "\<forall>\<delta>\<in>set \<delta>s. \<forall>w. sip_sleep now s = Some w \<longrightarrow> \<delta> < w"
  shows "settled (poll env now \<delta>s s) = settled s \<and> sip_wakeups (poll env now \<delta>s s) = sip_wakeups s \<and>
    sip_effects (poll env now \<delta>s s) = sip_effects s"
proof -
  have "early now \<delta> (sip_wakeups s)" if d: "\<delta> \<in> set \<delta>s" for \<delta>
  proof (cases "sip_sleep now s")
    case None
    then show ?thesis by (simp add: sip_sleep_def shortest_wait_None early_def)
  next
    case (Some w)
    have less: "\<delta> < wait_for now x" if "x \<in> set (sip_wakeups s)" for x
      using assms(3) d Some shortest_wait_le [of now "sip_wakeups s" w x] that by (fastforce simp: sip_sleep_def)
    then have "\<not> time_reached now x" if "x \<in> set (sip_wakeups s)" for x
      using less [OF that] by (auto simp: wait_for_def split: if_splits)
    then show ?thesis using less assms(2) by (simp add: early_def)
  qed
  then have s: "settled (poll env now \<delta>s s) = settled s" using poll_early assms(1) by blast
  have "sip_effects (settled t) = sip_effects t" for t by (simp add: settled_def)
  then show ?thesis using s settled_wakeups_eq [OF s] by metis
qed

definition reliable_env :: sip_env where
  "reliable_env =
     \<lparr>sip_now = 100, udp_attempts = (\<lambda>n. [Taken]), tcp_takes = (\<lambda>n. True), random_word = of_nat,
      local_ip_for = (\<lambda>peer. ''10.0.0.1''), ip_text_of = (\<lambda>peer. ''10.0.0.2''), ip_of_text = (\<lambda>host. None)\<rparr>"

definition waiting_for_bye :: sip_state where
  "waiting_for_bye = (started_transport sample_endpoint 5060)\<lparr>pending_bye := new_transaction 0 False ''BYE'' 1 5060\<rparr>"

lemma waiting_facts:
  "timers_ok waiting_for_bye" "sip_wakeups waiting_for_bye = [500]"
  by (simp_all add: waiting_for_bye_def started_transport_def timers_ok_def sip_wakeups_def)
    (simp_all add: transaction_wakeup_def new_transaction_def tx_empty_def no_transaction_def no_deferred_response_def
      no_completed_server_def no_completed_client_def)

lemma wait_500: "wait_for 100 500 = 400"
  by (simp add: wait_for_def time_reached_iff)

theorem sleeping_equals_polling_witness:
  "settled (poll reliable_env 100 [1, 2, 399] waiting_for_bye) = settled waiting_for_bye"
  using sleeping_equals_polling [of waiting_for_bye 100 "[1, 2, 399]" reliable_env] waiting_facts
  by (simp add: sip_sleep_def wait_500)

text \<open>
  The signaling task never spins. Whatever was due, once the timers have been pumped nothing is due any more:
  the task either waits for a socket alone or sleeps for at least a millisecond.
\<close>

theorem pump_leaves_nothing_due:
  assumes "timers_ok s"
  shows "sip_sleep (sip_now env) (pump_udp_retransmits env s) \<noteq> Some 0"
proof
  assume "sip_sleep (sip_now env) (pump_udp_retransmits env s) = Some 0"
  then obtain d where "d \<in> set (sip_wakeups (pump_udp_retransmits env s))" "wait_for (sip_now env) d = 0"
    unfolding sip_sleep_def using shortest_wait_in by metis
  then show False using pump_rest(2) [OF assms, of env] wait_pos [of "sip_now env" d] by (auto simp: nothing_due_def)
qed


theorem pump_leaves_nothing_due_witness:
  "sip_sleep (sip_now reliable_env) (pump_udp_retransmits reliable_env waiting_for_bye) \<noteq> Some 0"
  by (rule pump_leaves_nothing_due) (rule waiting_facts)

end
