(* ===== verification/SipStream.thy ===== *)
theory SipStream
  imports SipTask
begin

text \<open>
  The TCP stream of the signaling task (\<open>sip_transport.cpp\<close>): where a call is to go, connecting,
  accepting a connection, and cutting the received bytes into messages.
\<close>

section \<open>Where to connect\<close>

definition request_tcp_client_close :: "sip_state \<Rightarrow> sip_state" where
  "request_tcp_client_close s =
     (let s1 = s\<lparr>tcp_connect_requested := False, tcp_pending := [], tcp_close_requested := True\<rparr>
      in if tcp_connected s then do_effect TcpShutdown s1 else s1)"

text \<open>Only a host given as an address other than 0.0.0.0 is taken.\<close>

definition parse_remote :: "sip_env \<Rightarrow> string \<Rightarrow> sip_state \<Rightarrow> bool \<times> sip_state" where
  "parse_remote env host s =
     (let peer = (if host = [] then 0 else case ip_of_text env host of None \<Rightarrow> 0 | Some a \<Rightarrow> a)
      in (peer \<noteq> 0, s\<lparr>remote_ip := peer, sdp := (sdp s)\<lparr>remote_rtp_ip := peer\<rparr>\<rparr>))"

definition originate :: "sip_env \<Rightarrow> string \<Rightarrow> u16 \<Rightarrow> sip_state \<Rightarrow> bool \<times> sip_state" where
  "originate env host dport s0 =
     (case parse_remote env host s0 of
        (False, s) \<Rightarrow> (False, s)
      | (True, s) \<Rightarrow>
          let target = (if dport = 0 then 5060 else dport); s1 = s\<lparr>remote_sip_port := target\<rparr>
          in if \<not> remote_sip_tcp s1 then (True, s1)
             else (True, (request_tcp_client_close s1)\<lparr>tcp_pending := [], tcp_target := (remote_ip s1, target), tcp_connect_requested := True\<rparr>))"

definition set_remote :: "sip_env \<Rightarrow> string \<Rightarrow> u16 \<Rightarrow> u16 \<Rightarrow> sip_state \<Rightarrow> sip_state" where
  "set_remote env host dport media_port s0 =
     (let s1 = snd (parse_remote env host s0);
          s2 = (if dport \<noteq> 0 then s1\<lparr>remote_sip_port := dport\<rparr> else s1)
      in if media_port \<noteq> 0 then s2\<lparr>sdp := (sdp s2)\<lparr>remote_rtp_port := media_port\<rparr>\<rparr> else s2)"

definition set_sip_signaling_transport :: "bool \<Rightarrow> sip_state \<Rightarrow> sip_state" where
  "set_sip_signaling_transport tcp s =
     (let s1 = s\<lparr>remote_sip_tcp := tcp\<rparr> in if \<not> tcp \<and> remote_sip_tcp s then request_tcp_client_close s1 else s1)"

section \<open>Connecting\<close>

text \<open>What \<open>connect\<close> says: done, under way, or failed.\<close>

datatype connect_result = Connected | InProgress | ConnectFailed

definition prepare_tcp_flow :: "sip_env \<Rightarrow> connect_result \<Rightarrow> sip_state \<Rightarrow> sip_state" where
  "prepare_tcp_flow env r s0 =
     (let s = (if tcp_close_requested s0 then close_tcp_flow s0 else s0) in
      if \<not> tcp_connect_requested s then s
      else
        let s1 = close_tcp_flow s; (peer, dport) = tcp_target s1
        in if peer = 0 \<or> dport = 0 then handle_tcp_peer_loss s1
           else case r of
                  Connected \<Rightarrow> promote_tcp_flow env (s1\<lparr>tcp_connecting := Some (peer, dport, 0)\<rparr>)
                | InProgress \<Rightarrow> s1\<lparr>tcp_connecting := Some (peer, dport, sip_now env + 2000), tcp_connect_requested := False\<rparr>
                | ConnectFailed \<Rightarrow> handle_tcp_peer_loss s1)"

text \<open>A connection under way ends with its deadline, or when \<open>select\<close> reports it.\<close>

definition expire_connect :: "sip_env \<Rightarrow> sip_state \<Rightarrow> sip_state" where
  "expire_connect env s =
     (case tcp_connecting s of
        None \<Rightarrow> s
      | Some (_, _, deadline) \<Rightarrow> if time_reached (sip_now env) deadline then handle_tcp_peer_loss s else s)"

definition connect_reported :: "sip_env \<Rightarrow> bool \<Rightarrow> sip_state \<Rightarrow> sip_state" where
  "connect_reported env ok s =
     (case tcp_connecting s of None \<Rightarrow> s | Some _ \<Rightarrow> if ok then promote_tcp_flow env s else handle_tcp_peer_loss s)"

text \<open>
  Accepting a connection: \<open>busy\<close> and \<open>welcome\<close> are what the call state machine answers
  (\<open>dialog_active_\<close>, \<open>should_accept_session_\<close>).
\<close>

definition accept_tcp :: "bool \<Rightarrow> bool \<Rightarrow> u32 \<Rightarrow> sip_state \<Rightarrow> sip_state" where
  "accept_tcp busy welcome peer s =
     (let owned_elsewhere = (signaling_owned s \<and>
            (\<not> remote_sip_tcp s \<or> tcp_connected s \<or> tcp_connecting s \<noteq> None \<or> tcp_connect_requested s))
      in if owned_elsewhere \<or> (busy \<and> tcp_connected s \<and> tcp_peer s \<noteq> 0 \<and> tcp_peer s \<noteq> peer) then s
         else if \<not> welcome \<and> \<not> tcp_connected s then s
         else (close_tcp_flow s)\<lparr>tcp_connected := True, tcp_peer := peer, tcp_close_requested := False, tcp_rx := [], remote_sip_tcp := True\<rparr>)"

section \<open>Receiving\<close>

text \<open>Reading what there is, in pieces of at most 1024 bytes; the flag says that the buffer overflowed.\<close>

fun receive_pieces :: "string list \<Rightarrow> string \<Rightarrow> bool \<times> string" where
  "receive_pieces [] buf = (True, buf)"
| "receive_pieces (p # ps) buf =
     (if length (buf @ p) > MAX_SIP_TCP_RX_BUFFER then (False, buf @ p) else receive_pieces ps (buf @ p))"

text \<open>The first message of the buffer, if it is complete; \<open>None\<close> for a stream that cannot be cut.\<close>

datatype frame = NoFrame | BadFrame | Frame nat

definition next_frame :: "string \<Rightarrow> frame" where
  "next_frame buf =
     (case find_sub HEADER_END buf of
        None \<Rightarrow> NoFrame
      | Some sep \<Rightarrow>
          (case sip_content_length buf of
             None \<Rightarrow> BadFrame
           | Some n \<Rightarrow>
               if n > unat MAX_SIP_BODY_BYTES \<or> sep + 4 + n > MAX_SIP_TCP_RX_BUFFER then BadFrame
               else if length buf < sep + 4 + n then NoFrame
               else Frame (sep + 4 + n)))"

lemma next_frame_bound: "next_frame buf = Frame n \<Longrightarrow> 4 \<le> n \<and> n \<le> length buf"
  by (auto simp: next_frame_def split: option.splits if_splits)

text \<open>
  The messages of the buffer one after the other, as long as the flow is there. The buffer is handed from
  one turn of the loop to the next and kept in the state afterwards; no message handler looks at it.
\<close>

function drain_stream :: "sip_env \<Rightarrow> u32 \<Rightarrow> u16 \<Rightarrow> bool \<Rightarrow> string \<Rightarrow> sip_state \<Rightarrow> sip_state" where
  "drain_stream env src sport closed buf s =
     (if \<not> tcp_connected s then s
      else case next_frame buf of
             NoFrame \<Rightarrow> if closed then handle_tcp_peer_loss s else s\<lparr>tcp_rx := buf\<rparr>
           | BadFrame \<Rightarrow> handle_tcp_peer_loss s
           | Frame n \<Rightarrow> drain_stream env src sport closed (drop n buf) (handle_sip_datagram env (take n buf) src sport s))"
  by pat_completeness auto
termination by (relation "measure (\<lambda>(env, src, sport, closed, buf, s). length buf)") (auto dest: next_frame_bound)

declare drain_stream.simps [simp del]

definition handle_sip_stream :: "sip_env \<Rightarrow> u32 \<Rightarrow> u16 \<Rightarrow> string list \<Rightarrow> bool \<Rightarrow> sip_state \<Rightarrow> sip_state" where
  "handle_sip_stream env src sport pieces closed s =
     (if \<not> tcp_connected s then s
      else case receive_pieces pieces (tcp_rx s) of
             (False, _) \<Rightarrow> handle_tcp_peer_loss s
           | (True, buf) \<Rightarrow> drain_stream env src sport closed buf (s\<lparr>tcp_rx := []\<rparr>))"

end
