(* ===== verification/SipCore.thy ===== *)
theory SipCore
  imports SipTimers SipStream
begin

text \<open>
  The shape of what sending does to a state. The core of a state leaves out what every message changes (counters,
  effects, tokens, the records of finished transactions); a request changes the core by its transaction alone, a
  response by the final and the deferred response alone.
\<close>

section \<open>The core of a state\<close>

text \<open>The state without what sending a message may change besides the timers.\<close>

definition core :: "sip_state \<Rightarrow> sip_state" where
  "core s =
     s\<lparr>sip_sends := 0, sip_effects := [], tcp_pending := [], randoms := 0, last_sip_event := NoEvent, last_sip_status := 0,
       invite_branch := [], local_tag := [], last_invite_response := [], dlg_cseq := 0,
       completed_control := no_completed_server, completed_invite_client := no_completed_client\<rparr>"

lemma core_updates [simp]:
  "core (s\<lparr>sip_sends := a\<rparr>) = core s" "core (s\<lparr>sip_effects := b\<rparr>) = core s" "core (s\<lparr>tcp_pending := c\<rparr>) = core s"
  "core (s\<lparr>randoms := d\<rparr>) = core s" "core (s\<lparr>last_sip_event := e\<rparr>) = core s" "core (s\<lparr>last_sip_status := f\<rparr>) = core s"
  "core (s\<lparr>invite_branch := g\<rparr>) = core s" "core (s\<lparr>local_tag := h\<rparr>) = core s" "core (s\<lparr>last_invite_response := i\<rparr>) = core s"
  "core (s\<lparr>dlg_cseq := j\<rparr>) = core s" "core (s\<lparr>completed_control := k\<rparr>) = core s" "core (s\<lparr>completed_invite_client := l\<rparr>) = core s"
  by (simp_all add: core_def)

lemma core_selects [simp]:
  "dlg_call_id (core s) = dlg_call_id s" "last_invite_via (core s) = last_invite_via s" "remote_sip_tcp (core s) = remote_sip_tcp s"
  "media_active (core s) = media_active s" "outgoing_invite_pending (core s) = outgoing_invite_pending s"
  "pending_invite (core s) = pending_invite s" "pending_cancel (core s) = pending_cancel s" "pending_bye (core s) = pending_bye s"
  "remote_tag (core s) = remote_tag s" "remote_ip (core s) = remote_ip s" "tcp_connected (core s) = tcp_connected s"
  "delayed_offer_pending (core s) = delayed_offer_pending s" "cancel_requested (core s) = cancel_requested s"
  by (simp_all add: core_def)

lemma core_same:
  assumes "core t = core s"
  shows "dlg_call_id t = dlg_call_id s" "last_invite_via t = last_invite_via s" "media_active t = media_active s"
    "outgoing_invite_pending t = outgoing_invite_pending s" "pending_cancel t = pending_cancel s" "pending_bye t = pending_bye s"
    "remote_sip_tcp t = remote_sip_tcp s" "pending_invite t = pending_invite s" "remote_tag t = remote_tag s"
    "tcp_connected t = tcp_connected s" "delayed_offer_pending t = delayed_offer_pending s" "cancel_requested t = cancel_requested s"
    "remote_ip t = remote_ip s"
  using core_selects [of t] core_selects [of s] by (simp_all only: assms)

lemma core_congruence:
  assumes "core t = core s"
  shows "core (t\<lparr>completed_invite := c\<rparr>) = core (s\<lparr>completed_invite := c\<rparr>)"
    "core (t\<lparr>pending_provisional := d\<rparr>) = core (s\<lparr>pending_provisional := d\<rparr>)"
proof -
  have "core (s\<lparr>completed_invite := c\<rparr>) = (core s)\<lparr>completed_invite := c\<rparr>" for s by (simp add: core_def)
  then show "core (t\<lparr>completed_invite := c\<rparr>) = core (s\<lparr>completed_invite := c\<rparr>)" using assms by simp
  have "core (s\<lparr>pending_provisional := d\<rparr>) = (core s)\<lparr>pending_provisional := d\<rparr>" for s by (simp add: core_def)
  then show "core (t\<lparr>pending_provisional := d\<rparr>) = core (s\<lparr>pending_provisional := d\<rparr>)" using assms by simp
qed

lemma core_completed: "core t = core s \<Longrightarrow> completed_invite t = completed_invite s"
proof -
  have "completed_invite (core s) = completed_invite s" for s by (simp add: core_def)
  then show "core t = core s \<Longrightarrow> completed_invite t = completed_invite s" by metis
qed

lemma core_sent: "sent_from s t \<Longrightarrow> core t = core s"
  by (auto simp: sent_from_def)

lemmas core_sends [simp] = core_sent [OF sent_from_send] core_sent [OF sent_from_udp] core_sent [OF sent_from_tcp]

lemma core_marks [simp]: "core (mark_sip_event e st s) = core s" "core (do_effect f s) = core s" "core (emit_signal g s) = core s"
  by (simp_all add: mark_sip_event_def do_effect_def emit_signal_def)

lemma core_tokens [simp]: "core (snd (next_random env s)) = core s" "core (snd (fresh_token env p s)) = core s"
  "core (snd (fresh_branch env s)) = core s" "core (snd (random_retry env n s)) = core s"
  by (simp_all add: fresh_token_def fresh_branch_def next_random_def random_retry_def)

lemma core_branch [simp]: "core (snd (request_branch env m opts s)) = core s"
  by (simp add: request_branch_def prod.case_eq_if)

lemma core_ack_record [simp]: "core (remember_completed_invite_ack env m dst dport s) = core s"
  by (simp add: remember_completed_invite_ack_def)

text \<open>A request changes the core only by its transaction.\<close>

lemma send_request_shape:
  obtains "snd (send_request env m b opts s) = s" "\<not> fst (send_request env m b opts s)"
  | t where "dlg_call_id s \<noteq> []" "core t = core s" "snd (send_request env m b opts s) = t"
  | t msg dst dport where "dlg_call_id s \<noteq> []" "core t = core s"
    "snd (send_request env m b opts s) = remember_udp_transaction env m msg dst dport t"
proof (cases "remote_ip s = 0 \<or> remote_sip_port s = 0 \<or> dlg_call_id s = []")
  case True
  then show ?thesis using that(1) by (simp add: send_request_def)
next
  case False
  then have d: "dlg_call_id s \<noteq> []" by simp
  obtain br s1 where 1: "request_branch env m opts s = (br, s1)" by fastforce
  obtain dst dport where 2: "request_target env s1 = (dst, dport)" by fastforce
  define number where "number = (if opt_cseq opts = 0 then dlg_cseq s1 else opt_cseq opts)"
  define s2 where "s2 = (if opt_cseq opts = 0 then s1\<lparr>dlg_cseq := dlg_cseq s1 + 1\<rparr> else s1)"
  define msg where "msg = request_text env m (request_uri_of env s1) br (if opt_cseq_method opts = [] then m else opt_cseq_method opts) number b s2"
  define s3 where "s3 = (if m = ''ACK'' then remember_completed_invite_ack env msg dst dport s2 else s2)"
  obtain ok s4 where 4: "send_sip env msg dst dport s3 = (ok, s4)" by fastforce
  have c1: "core s1 = core s" using core_branch [of env m opts s] 1 by simp
  then have "core s3 = core s" by (simp add: s3_def s2_def)
  then have c4: "core s4 = core s" using core_sends(1) [of env msg dst dport s3] 4 by simp
  define s' where "s' = (if sip_event_from_method m \<noteq> NoEvent then mark_sip_event (sip_event_from_method m) 0 s4 else s4)"
  have c5: "core s' = core s" using c4 by (simp add: s'_def)
  have "snd (send_request env m b opts s) =
      (if ok \<or> (transaction_method m \<and> \<not> remote_sip_tcp s3)
       then (if transaction_method m then remember_udp_transaction env m msg dst dport s' else s') else s4)"
    unfolding send_request_def Let_def 1 prod.case 2 using False
    by (simp only: if_False snd_conv prod.case 4 flip: number_def s2_def msg_def s3_def s'_def)
  then show ?thesis using that(2,3) [OF d] c4 c5 by (auto split: if_splits)
qed

lemma call_id_request [simp]: "dlg_call_id (snd (send_request env m b opts s)) = dlg_call_id s"
proof -
  have r: "dlg_call_id (remember_udp_transaction env m msg dst dport t) = dlg_call_id t" for msg dst dport t
    by (simp add: remember_udp_transaction_def Let_def)
  show ?thesis
  proof (rule send_request_shape [of env m b opts s])
    fix t assume "core t = core s" "snd (send_request env m b opts s) = t"
    then show ?thesis using core_same(1) by blast
  next
    fix t msg dst dport assume "core t = core s" "snd (send_request env m b opts s) = remember_udp_transaction env m msg dst dport t"
    then show ?thesis using core_same(1) r by metis
  qed simp
qed

lemma request_sent: "fst (send_request env m b opts s) \<Longrightarrow> dlg_call_id s \<noteq> []"
  by (rule send_request_shape [of env m b opts s]) simp_all

text \<open>A final response is recorded with fresh timers.\<close>

lemma fresh_server_ok [simp]: "server_ok (completed_response env req peer pport m resp st udp)"
  by (simp add: completed_response_def server_ok_def interval_ok_def left_same_start)

lemma guarded_option:
  "(if a then x else case q of None \<Rightarrow> x | Some v \<Rightarrow> if b v then x else f v) \<in> {x} \<union> range f"
  by (auto split: option.split)

lemma remember_response_shape:
  obtains "remember_completed_response env req peer pport m resp s = s"
  | c where "server_ok c" "remember_completed_response env req peer pport m resp s = s\<lparr>completed_invite := c\<rparr>"
  | c where "remember_completed_response env req peer pport m resp s = s\<lparr>completed_control := c\<rparr>"
proof -
  let ?r = "remember_completed_response env req peer pport m resp s"
  have choice: "?r = s \<or> (\<exists>st::u32. ?r = (let c = completed_response env req peer pport m resp (ucast st) (\<not> remote_sip_tcp s)
      in if m = ''INVITE'' then s\<lparr>completed_invite := c\<rparr> else s\<lparr>completed_control := c\<rparr>))" (is "_ \<or> (\<exists>st::u32. ?r = ?s st)")
  proof -
    have "?r \<in> {s} \<union> range ?s" unfolding remember_completed_response_def by (rule guarded_option)
    then show ?thesis by blast
  qed
  then show ?thesis
  proof (elim disjE exE)
    fix st assume "?r = ?s st"
    then show ?thesis using that(2) [OF fresh_server_ok] that(3) by (cases "m = ''INVITE''") (simp_all only: Let_def if_True if_False simp_thms)
  qed (rule that(1))
qed

lemma remember_response_core:
  obtains c where "c = completed_invite s \<or> server_ok c"
    "core (remember_completed_response env req peer pport m resp s) = core (s\<lparr>completed_invite := c\<rparr>)"
  by (rule remember_response_shape [of env req peer pport m resp s]) (auto intro: that)

lemma format_response_core [simp]: "core (snd (format_response env f s)) = core s"
  by (simp add: format_response_def Let_def prod.case_eq_if)

lemma stateless_to_core [simp]: "core (snd (stateless_to env t m c s)) = core s"
  by (simp add: stateless_to_def prod.case_eq_if)

text \<open>A stateless response changes the core only by the final response it records.\<close>

lemma send_stateless_shape:
  obtains c where "c = completed_invite s \<or> server_ok c"
    "core (snd (send_stateless_response env req src sport st reason app cache retry s)) = core (s\<lparr>completed_invite := c\<rparr>)"
proof (cases "header_values req ''Via'' = [] \<or> header_value req ''From'' = [] \<or> header_value req ''To'' = [] \<or>
    header_value req ''Call-ID'' = [] \<or> header_value req ''CSeq'' = []")
  case True
  have "snd (send_stateless_response env req src sport st reason app cache retry s) = s"
    unfolding send_stateless_response_def Let_def if_P [OF True] by simp
  then show ?thesis using that [of "completed_invite s"] by simp
next
  case False
  obtain to' s1 where 1: "stateless_to env (header_value req ''To'') (cseq_method (header_value req ''CSeq'')) cache s = (to', s1)" by fastforce
  obtain msg s2 where 2: "format_response env
                 \<lparr>rf_status = st, rf_reason = reason,
                  rf_via = response_via_with_rport (ip_text_of env) (header_values req ''Via'') src sport,
                  rf_from = header_value req ''From'', rf_to = to', rf_call_id = header_value req ''Call-ID'',
                  rf_cseq = header_value req ''CSeq'', rf_app_reason = app, rf_body = [],
                  rf_contact = ((cseq_method (header_value req ''CSeq'') = ''UPDATE'' \<or> cseq_method (header_value req ''CSeq'') = ''REFER'') \<and>
                    st \<ge> 200 \<and> st < 300),
                  rf_add_tag = False, rf_stateless = True, rf_retry = retry\<rparr> s1 = (msg, s2)" by fastforce
  define s3 where "s3 = (if cache \<and> st \<ge> 200 then remember_completed_response env req src sport (cseq_method (header_value req ''CSeq'')) msg s2 else s2)"
  obtain ok s4 where 4: "send_sip env msg src sport s3 = (ok, s4)" by fastforce
  have r: "snd (send_stateless_response env req src sport st reason app cache retry s) = s4 \<or>
      snd (send_stateless_response env req src sport st reason app cache retry s) = mark_sip_event ResponseEvent st s4"
    unfolding send_stateless_response_def Let_def if_not_P [OF False] 1 prod.case 2
    by (simp only: prod.case 4 snd_conv flip: s3_def) simp
  have c: "core s2 = core s" using stateless_to_core [of env "header_value req ''To''" "cseq_method (header_value req ''CSeq'')" cache s] 1
      format_response_core [of env _ s1] 2 by (metis snd_conv)
  obtain d where d: "d = completed_invite s2 \<or> server_ok d" "core s3 = core (s2\<lparr>completed_invite := d\<rparr>)"
  proof (cases "cache \<and> st \<ge> 200")
    case True
    then show ?thesis
      using remember_response_core [of s2 env req src sport "cseq_method (header_value req ''CSeq'')" msg] that by (simp add: s3_def) blast
  next
    case False
    then have "s3 = s2" unfolding s3_def by (rule if_not_P)
    then show ?thesis using that [of "completed_invite s2"] by simp
  qed
  have "core s4 = core s3" using core_sends(1) [of env msg src sport s3] 4 by simp
  moreover have "core (s2\<lparr>completed_invite := d\<rparr>) = core (s\<lparr>completed_invite := d\<rparr>)" using core_congruence c by blast
  ultimately have e: "core s4 = core (s\<lparr>completed_invite := d\<rparr>)" using d(2) by (simp only:)
  have "d = completed_invite s \<or> server_ok d" using d(1) core_completed [OF c] by (simp only:)
  moreover have "core (snd (send_stateless_response env req src sport st reason app cache retry s)) = core (s\<lparr>completed_invite := d\<rparr>)"
    using r e by (elim disjE) (simp_all only: core_marks)
  ultimately show ?thesis by (rule that)
qed

lemma if_join: "(if a then if b then x else y else x) = (if a \<and> \<not> b then y else x)"
  by simp

lemma provisional_order: "s\<lparr>pending_provisional := p, completed_invite := c\<rparr> = s\<lparr>completed_invite := c, pending_provisional := p\<rparr>"
  by (cases s) simp

text \<open>A response of the dialog may also leave a provisional response to be sent later.\<close>

lemma send_response_shape:
  obtains c p where "c = completed_invite s \<or> server_ok c"
    "p = pending_provisional s \<or> p = no_deferred_response \<or> (last_invite_via s \<noteq> [] \<and> (\<exists>msg dst dport. p = new_deferred_response (sip_now env) msg dst dport))"
    "core (snd (send_response env st reason body app s)) = core (s\<lparr>completed_invite := c, pending_provisional := p\<rparr>)"
proof (cases "last_invite_peer_ip s = 0 \<or> last_invite_peer_port s = 0 \<or> last_invite_via s = []")
  case True
  have "snd (send_response env st reason body app s) = s" unfolding send_response_def Let_def if_P [OF True] by simp
  then show ?thesis using that [of "completed_invite s" "pending_provisional s"] by simp
next
  case False
  let ?dst = "last_invite_peer_ip s" and ?dport = "last_invite_peer_port s"
  define form where "form = \<lparr>rf_status = st, rf_reason = reason,
               rf_via = response_via_with_rport (ip_text_of env) (last_invite_via s) ?dst ?dport,
               rf_from = last_invite_from s, rf_to = last_invite_to s, rf_call_id = dlg_call_id s,
               rf_cseq = last_invite_cseq s, rf_app_reason = app, rf_body = body, rf_contact = True,
               rf_add_tag = True, rf_stateless = False, rf_retry = None\<rparr>"
  obtain msg s1 where 1: "format_response env form s = (msg, s1)" by fastforce
  define s2 where "s2 = s1\<lparr>pending_provisional := no_deferred_response, last_invite_response := msg\<rparr>"
  define req where "req = ''Via: '' @ last_invite_via s2 @ CRLF @ ''Call-ID: '' @ dlg_call_id s2 @ CRLF @ ''CSeq: '' @ last_invite_cseq s2 @ CRLF"
  define s3 where "s3 = (if st \<ge> 200 then remember_completed_response env req ?dst ?dport ''INVITE'' msg s2 else s2)"
  obtain ok s4 where 4: "send_sip env msg ?dst ?dport s3 = (ok, s4)" by fastforce
  define s5 where "s5 = (if \<not> ok \<and> st < 200 \<and> \<not> remote_sip_tcp s4 then defer_udp_provisional_response env msg ?dst ?dport s4 else s4)"
  have r: "snd (send_response env st reason body app s) = s5 \<or> snd (send_response env st reason body app s) = mark_sip_event ResponseEvent st s5"
    unfolding send_response_def Let_def if_not_P [OF False] form_def [symmetric] 1 prod.case s2_def [symmetric] req_def [symmetric]
      s3_def [symmetric] 4 s5_def [symmetric]
    by simp
  have c1: "core s1 = core s" using format_response_core [of env form s] 1 by simp
  have c2: "core s2 = core (s\<lparr>pending_provisional := no_deferred_response\<rparr>)"
    unfolding s2_def core_updates by (rule core_congruence(2) [OF c1])
  obtain c where c: "c = completed_invite s2 \<or> server_ok c" "core s3 = core (s2\<lparr>completed_invite := c\<rparr>)"
  proof (cases "st \<ge> 200")
    case True
    then show ?thesis using remember_response_core [of s2 env req ?dst ?dport "''INVITE''" msg] that by (simp add: s3_def) blast
  next
    case False
    then have "s3 = s2" unfolding s3_def by (rule if_not_P)
    then show ?thesis using that [of "completed_invite s2"] by simp
  qed
  have cs: "c = completed_invite s \<or> server_ok c" using c(1) core_completed [OF c2] by simp
  have "core s4 = core s3" using core_sends(1) [of env msg ?dst ?dport s3] 4 by simp
  then have c4: "core s4 = core (s\<lparr>completed_invite := c, pending_provisional := no_deferred_response\<rparr>)"
    using c(2) core_congruence(1) [OF c2, of c] by (simp only: provisional_order)
  obtain p where p: "p = no_deferred_response \<or> (\<exists>msg dst dport. p = new_deferred_response (sip_now env) msg dst dport)"
    "core s5 = core (s\<lparr>completed_invite := c, pending_provisional := p\<rparr>)"
  proof (cases "(\<not> ok \<and> st < 200 \<and> \<not> remote_sip_tcp s4) \<and> \<not> (msg = [] \<or> ?dst = 0 \<or> ?dport = 0)")
    case True
    have "s5 = s4\<lparr>pending_provisional := new_deferred_response (sip_now env) msg ?dst ?dport\<rparr>"
      unfolding s5_def defer_udp_provisional_response_def if_join if_P [OF True] by (rule refl)
    then show ?thesis using that [of "new_deferred_response (sip_now env) msg ?dst ?dport"] core_congruence(2) [OF c4] by auto
  next
    case False
    have "s5 = s4" unfolding s5_def defer_udp_provisional_response_def if_join if_not_P [OF False] by (rule refl)
    then show ?thesis using that [of no_deferred_response] c4 by simp
  qed
  have "core (snd (send_response env st reason body app s)) = core s5"
    using r by (elim disjE) (simp_all only: core_marks)
  then show ?thesis using that [OF cs _ trans [OF _ p(2)]] p(1) False by blast
qed

lemma response_sent: "fst (send_response env st reason body app s) \<Longrightarrow> last_invite_via s \<noteq> []"
  by (auto simp: send_response_def Let_def)

lemma response_dialog [simp]:
  "dlg_call_id (snd (send_response env st reason body app s)) = dlg_call_id s"
  "last_invite_via (snd (send_response env st reason body app s)) = last_invite_via s"
  "remote_sip_tcp (snd (send_response env st reason body app s)) = remote_sip_tcp s"
  "delayed_offer_pending (snd (send_response env st reason body app s)) = delayed_offer_pending s"
proof -
  obtain c p where "core (snd (send_response env st reason body app s)) = core (s\<lparr>completed_invite := c, pending_provisional := p\<rparr>)"
    by (rule send_response_shape)
  note same = core_same [OF this]
  show "dlg_call_id (snd (send_response env st reason body app s)) = dlg_call_id s"
    "last_invite_via (snd (send_response env st reason body app s)) = last_invite_via s"
    "remote_sip_tcp (snd (send_response env st reason body app s)) = remote_sip_tcp s"
    "delayed_offer_pending (snd (send_response env st reason body app s)) = delayed_offer_pending s"
    by (simp_all add: same)
qed

lemma stateless_dialog [simp]:
  "dlg_call_id (snd (send_stateless_response env req src sport st reason app cache retry s)) = dlg_call_id s"
  "pending_bye (snd (send_stateless_response env req src sport st reason app cache retry s)) = pending_bye s"
  "last_invite_via (snd (send_stateless_response env req src sport st reason app cache retry s)) = last_invite_via s"
proof -
  obtain c where "core (snd (send_stateless_response env req src sport st reason app cache retry s)) = core (s\<lparr>completed_invite := c\<rparr>)"
    by (rule send_stateless_shape)
  note same = core_same [OF this]
  show "dlg_call_id (snd (send_stateless_response env req src sport st reason app cache retry s)) = dlg_call_id s"
    "pending_bye (snd (send_stateless_response env req src sport st reason app cache retry s)) = pending_bye s"
    "last_invite_via (snd (send_stateless_response env req src sport st reason app cache retry s)) = last_invite_via s"
    by (simp_all add: same)
qed

lemma session_dialog [simp]: "dlg_call_id (new_session_id env s) = dlg_call_id s" "dlg_call_id (ensure_local_tag env s) = dlg_call_id s"
  by (simp_all add: new_session_id_def ensure_local_tag_def fresh_token_def next_random_def)

lemma same_call_id: "dlg_call_id s = [] \<Longrightarrow> s\<lparr>dlg_call_id := []\<rparr> = s"
  by (cases s) simp

end
