(* ===== verification/SipInvariants.thy ===== *)
theory SipInvariants
  imports SipCore
begin

text \<open>
  What every operation of the transport keeps. The locale \<open>dialog_invariant\<close> is the contract between a
  property of the state and the operations: the property does not look at the fields the operations set
  freely and survives the few updates that matter. Every operation then keeps it, proved once.
\<close>

section \<open>The contract\<close>


locale dialog_invariant =
  fixes P :: "sip_state \<Rightarrow> bool"
  assumes free:
      "P (s\<lparr>sdp := x0\<rparr>) = P s" "P (s\<lparr>sip_port := x1\<rparr>) = P s"
      "P (s\<lparr>sip_running := x2\<rparr>) = P s" "P (s\<lparr>transport_stopping := x3\<rparr>) = P s"
      "P (s\<lparr>remote_ip := x4\<rparr>) = P s" "P (s\<lparr>remote_sip_port := x5\<rparr>) = P s"
      "P (s\<lparr>remote_sip_tcp := x6\<rparr>) = P s" "P (s\<lparr>local_tag := x7\<rparr>) = P s"
      "P (s\<lparr>remote_tag := x8\<rparr>) = P s" "P (s\<lparr>invite_branch := x9\<rparr>) = P s"
      "P (s\<lparr>local_uri := x10\<rparr>) = P s" "P (s\<lparr>local_contact_uri := x11\<rparr>) = P s"
      "P (s\<lparr>remote_uri := x12\<rparr>) = P s" "P (s\<lparr>remote_target_uri := x13\<rparr>) = P s"
      "P (s\<lparr>last_invite_from := x14\<rparr>) = P s" "P (s\<lparr>last_invite_to := x15\<rparr>) = P s"
      "P (s\<lparr>last_invite_cseq := x16\<rparr>) = P s" "P (s\<lparr>last_invite_response := x17\<rparr>) = P s"
      "P (s\<lparr>last_invite_cseq_number := x18\<rparr>) = P s" "P (s\<lparr>remote_dialog_cseq := x19\<rparr>) = P s"
      "P (s\<lparr>last_invite_peer_ip := x20\<rparr>) = P s" "P (s\<lparr>last_invite_peer_port := x21\<rparr>) = P s"
      "P (s\<lparr>caller_id := x22\<rparr>) = P s" "P (s\<lparr>destination_id := x23\<rparr>) = P s"
      "P (s\<lparr>peer_supports_from_change := x24\<rparr>) = P s" "P (s\<lparr>connected_identity_sent := x25\<rparr>) = P s"
      "P (s\<lparr>dialog_originated := x26\<rparr>) = P s" "P (s\<lparr>delayed_offer_pending := x27\<rparr>) = P s"
      "P (s\<lparr>dlg_cseq := x28\<rparr>) = P s" "P (s\<lparr>invite_cseq := x29\<rparr>) = P s"
      "P (s\<lparr>completed_control := x30\<rparr>) = P s" "P (s\<lparr>completed_invite_client := x31\<rparr>) = P s"
      "P (s\<lparr>cancel_requested := x32\<rparr>) = P s"
      "P (s\<lparr>rtp_latch := x38\<rparr>) = P s" "P (s\<lparr>sip_socket_open := x39\<rparr>) = P s"
      "P (s\<lparr>tcp_target := x40\<rparr>) = P s" "P (s\<lparr>tcp_connect_requested := x41\<rparr>) = P s"
      "P (s\<lparr>tcp_close_requested := x42\<rparr>) = P s" "P (s\<lparr>tcp_pending := x43\<rparr>) = P s"
      "P (s\<lparr>last_sip_event := x44\<rparr>) = P s" "P (s\<lparr>last_sip_status := x45\<rparr>) = P s"
      "P (s\<lparr>sip_sends := x46\<rparr>) = P s" "P (s\<lparr>randoms := x47\<rparr>) = P s"
      "P (s\<lparr>sip_effects := x48\<rparr>) = P s"
    and transaction:
      "P s \<Longrightarrow> dlg_call_id s \<noteq> [] \<Longrightarrow> dst \<noteq> 0 \<Longrightarrow> dport \<noteq> 0 \<Longrightarrow> P (s\<lparr>pending_invite := new_transaction now tcp msg dst dport\<rparr>)"
      "P s \<Longrightarrow> dlg_call_id s \<noteq> [] \<Longrightarrow> dst \<noteq> 0 \<Longrightarrow> dport \<noteq> 0 \<Longrightarrow> P (s\<lparr>pending_cancel := new_transaction now tcp msg dst dport\<rparr>)"
      "P s \<Longrightarrow> dlg_call_id s \<noteq> [] \<Longrightarrow> dst \<noteq> 0 \<Longrightarrow> dport \<noteq> 0 \<Longrightarrow> P (s\<lparr>pending_bye := new_transaction now tcp msg dst dport\<rparr>)"
      "P s \<Longrightarrow> dlg_call_id s \<noteq> [] \<Longrightarrow> dst \<noteq> 0 \<Longrightarrow> dport \<noteq> 0 \<Longrightarrow> P (s\<lparr>pending_update := new_transaction now tcp msg dst dport\<rparr>)"
    and done_with:
      "P s \<Longrightarrow> P (s\<lparr>pending_invite := no_transaction\<rparr>)" "P s \<Longrightarrow> P (s\<lparr>pending_bye := no_transaction\<rparr>)"
      "P s \<Longrightarrow> P (s\<lparr>pending_update := no_transaction\<rparr>)" "P s \<Longrightarrow> P (s\<lparr>pending_provisional := no_deferred_response\<rparr>)"
    and answered:
      "P s \<Longrightarrow> \<not> tx_empty (pending_invite s) \<Longrightarrow> P (s\<lparr>pending_invite := (wait_deadline (pending_invite s))\<lparr>tx_completed := True\<rparr>\<rparr>)"
      "P s \<Longrightarrow> \<not> tx_empty (pending_cancel s) \<Longrightarrow> P (s\<lparr>pending_cancel := (wait_deadline (pending_cancel s))\<lparr>tx_completed := True\<rparr>\<rparr>)"
    and deferred: "P s \<Longrightarrow> last_invite_via s \<noteq> [] \<Longrightarrow> P (s\<lparr>pending_provisional := new_deferred_response now msg dst dport\<rparr>)"
    and completed: "P s \<Longrightarrow> server_ok c \<Longrightarrow> P (s\<lparr>completed_invite := c\<rparr>)"
    and acknowledged: "P s \<Longrightarrow> P (s\<lparr>completed_invite := (completed_invite s)\<lparr>cs_awaiting_ack := False\<rparr>\<rparr>)"
    and terminating: "P s \<Longrightarrow> dlg_call_id s \<noteq> [] \<Longrightarrow> P (s\<lparr>terminate_after_invite_ack := True\<rparr>)"
      "P s \<Longrightarrow> P (s\<lparr>terminate_after_invite_ack := False\<rparr>)"
    and media: "P s \<Longrightarrow> dlg_call_id s \<noteq> [] \<or> last_invite_via s \<noteq> [] \<Longrightarrow> P (s\<lparr>media_active := True\<rparr>)" "P s \<Longrightarrow> P (s\<lparr>media_active := False\<rparr>)"
    and outgoing: "P s \<Longrightarrow> dlg_call_id s \<noteq> [] \<Longrightarrow> P (s\<lparr>outgoing_invite_pending := True\<rparr>)" "P s \<Longrightarrow> P (s\<lparr>outgoing_invite_pending := False\<rparr>)"
    and call: "P s \<Longrightarrow> cid \<noteq> [] \<Longrightarrow> P (s\<lparr>dlg_call_id := cid\<rparr>)" "P s \<Longrightarrow> dlg_call_id s \<noteq> [] \<Longrightarrow> P (s\<lparr>last_invite_via := via\<rparr>)"
    and reset: "P s \<Longrightarrow> P (reset_dialog s)"
    and audio_stop: "P s \<Longrightarrow> P (request_audio_path_stop s)"
begin

lemma same_core: "core t = core s \<Longrightarrow> P t = P s"
proof -
  have "P (core t) = P t" for t by (simp add: core_def free)
  then show "core t = core s \<Longrightarrow> P t = P s" by metis
qed

lemma sends [simp]: "P (snd (send_sip env m dst dport s)) = P s" "P (snd (send_sip_udp env m dst dport s)) = P s"
  by (auto intro!: same_core)

lemma marks [simp]: "P (mark_sip_event e st s) = P s" "P (do_effect f s) = P s" "P (emit_signal g s) = P s"
  by (auto intro!: same_core)

lemma tokens [simp]: "P (snd (next_random env s)) = P s" "P (snd (fresh_token env p s)) = P s" "P (snd (fresh_branch env s)) = P s"
  "P (snd (random_retry env n s)) = P s"
  by (auto intro!: same_core)

lemma transaction_record: "P s \<Longrightarrow> dlg_call_id s \<noteq> [] \<Longrightarrow> P (remember_udp_transaction env m msg dst dport s)"
  by (simp add: remember_udp_transaction_def Let_def transaction)

lemma request: "P s \<Longrightarrow> P (snd (send_request env m b opts s))"
proof (rule send_request_shape [of env m b opts s])
  fix t msg dst dport
  assume p: "P s" and t: "dlg_call_id s \<noteq> []" "core t = core s" "snd (send_request env m b opts s) = remember_udp_transaction env m msg dst dport t"
  have "P t" "dlg_call_id t \<noteq> []" using same_core [OF t(2)] core_same(1) [OF t(2)] p t(1) by simp_all
  then show ?thesis unfolding t(3) by (rule transaction_record)
next
  fix t assume "P s" "core t = core s" "snd (send_request env m b opts s) = t"
  then show ?thesis using same_core by blast
qed simp

lemma stateless: "P s \<Longrightarrow> P (snd (send_stateless_response env req src sport st reason app cache retry s))"
proof -
  assume p: "P s"
  obtain c where c: "c = completed_invite s \<or> server_ok c"
    "core (snd (send_stateless_response env req src sport st reason app cache retry s)) = core (s\<lparr>completed_invite := c\<rparr>)"
    by (rule send_stateless_shape)
  have "P (s\<lparr>completed_invite := c\<rparr>)" using c(1) p completed by auto
  then show ?thesis using same_core [OF c(2)] by (simp only:)
qed

lemma response: "P s \<Longrightarrow> P (snd (send_response env st reason body app s))"
proof -
  assume p: "P s"
  obtain c d where c: "c = completed_invite s \<or> server_ok c"
    "d = pending_provisional s \<or> d = no_deferred_response \<or> (last_invite_via s \<noteq> [] \<and> (\<exists>msg dst dport. d = new_deferred_response (sip_now env) msg dst dport))"
    "core (snd (send_response env st reason body app s)) = core (s\<lparr>completed_invite := c, pending_provisional := d\<rparr>)"
    by (rule send_response_shape)
  have "P (s\<lparr>completed_invite := c\<rparr>)" using c(1) p completed by auto
  then have "P (s\<lparr>completed_invite := c, pending_provisional := d\<rparr>)"
    using c(2) deferred [of "s\<lparr>completed_invite := c\<rparr>"] done_with(4) by auto
  then show ?thesis using same_core [OF c(3)] by (simp only:)
qed

subsection \<open>The dialog\<close>

lemma bye: "P s \<Longrightarrow> P (snd (send_bye_unlocked env cid s))"
  by (simp add: send_bye_unlocked_def prod.case_eq_if audio_stop terminating request done_with)

lemma adopt: "P s \<Longrightarrow> P (adopt_call_id cid s)"
  by (simp add: adopt_call_id_def call)

lemma cancel: "P s \<Longrightarrow> P (snd (send_cancel_unlocked env cid s))"
  by (simp add: send_cancel_unlocked_def Let_def prod.case_eq_if bool.case_eq_if adopt bye reset request done_with free)

lemma final_response: "P s \<Longrightarrow> P (snd (send_final_response env cid st reason s))"
  by (simp add: send_final_response_def Let_def prod.case_eq_if adopt cancel reset response)

lemma session_id: "P (new_session_id env s) = P s" "P (ensure_local_tag env s) = P s"
  by (simp_all add: new_session_id_def ensure_local_tag_def prod.case_eq_if free)

lemma ringing: "P s \<Longrightarrow> P (snd (send_ringing env cid s))"
  by (simp add: send_ringing_def adopt response)

lemma connected_identity: "P (set_connected_identity r n s) = P s"
  by (simp add: set_connected_identity_def Let_def free)

lemma open_media: "P s \<Longrightarrow> dlg_call_id s \<noteq> [] \<or> last_invite_via s \<noteq> [] \<Longrightarrow> P (open_media_session s)"
  by (simp add: open_media_session_def media)

lemma update: "P s \<Longrightarrow> P (snd (send_connected_identity_update env s))"
  by (simp add: send_connected_identity_update_def prod.case_eq_if request free)

lemma reset_call: "P s \<Longrightarrow> P ((reset_dialog s)\<lparr>dlg_call_id := cid\<rparr>)"
  by (cases "cid = []") (simp_all add: same_call_id reset call)

lemma placed: "P s \<Longrightarrow> fst (send_request env m b opts s) \<Longrightarrow> P ((snd (send_request env m b opts s))\<lparr>outgoing_invite_pending := True\<rparr>)"
  using request_sent [of env m b opts s] by (simp add: request outgoing)

lemma invite: "P s \<Longrightarrow> P (snd (send_invite env cid from to s))"
  unfolding send_invite_def Let_def prod.case_eq_if
  by (simp add: bool.case_eq_if free session_id reset_call reset request placed)

lemma answered_call: "P s \<Longrightarrow> fst (send_response env st reason body app s) \<Longrightarrow> P (open_media_session (snd (send_response env st reason body app s)))"
  using response_sent [of env st reason body app s] by (simp add: response open_media)

lemma answer: "P s \<Longrightarrow> P (snd (send_answer env cid a b s))"
  unfolding send_answer_def Let_def prod.case_eq_if
  by (simp add: adopt free outgoing reset response answered_call)

subsection \<open>Requests\<close>

lemma replay: "P s \<Longrightarrow> P (snd (replay_completed_response env msg src sport m udp s))"
  by (simp add: replay_completed_response_def Let_def completed free)

lemma replay_ack: "P s \<Longrightarrow> P (snd (replay_completed_invite_ack env msg src udp s))"
  by (simp add: replay_completed_invite_ack_def Let_def free)

lemma acknowledge: "P s \<Longrightarrow> P (snd (snd (acknowledge_completed_invite env msg src s)))"
  by (simp add: acknowledge_completed_invite_def Let_def completed acknowledged terminating)

lemma opened: "P s \<Longrightarrow> header_value msg ''Call-ID'' \<noteq> [] \<Longrightarrow> P (open_uas_dialog env msg src sport cname dname s)"
  by (simp add: open_uas_dialog_def Let_def free session_id call)

lemma media_choice: "P (snd (invite_media env body src s)) = P s"
  by (simp add: invite_media_def Let_def prod.case_eq_if free split: option.split)

lemma accept: "P s \<Longrightarrow> header_value msg ''Call-ID'' \<noteq> [] \<Longrightarrow> P (snd (accept_new_invite env msg src sport cname dname s))"
  unfolding accept_new_invite_def Let_def prod.case_eq_if
  by (simp add: bool.case_eq_if free media_choice opened reset response)

lemma refuse: "P s \<Longrightarrow> P (snd (no_such_transaction env msg src sport cache s))" "P s \<Longrightarrow> P (snd (not_acceptable env msg src sport why s))"
  by (simp_all add: no_such_transaction_def not_acceptable_def stateless)

lemma commit: "P s \<Longrightarrow> dlg_call_id s \<noteq> [] \<Longrightarrow> P (snd (commit_reinvite env msg src sport ans e s))"
  unfolding commit_reinvite_def Let_def prod.case_eq_if reset_rtp_latch_def
  by (simp add: bool.case_eq_if free response call)

lemma reinvite: "P s \<Longrightarrow> dlg_call_id s \<noteq> [] \<Longrightarrow> P (snd (handle_reinvite env msg src sport s))"
  unfolding handle_reinvite_def Let_def prod.case_eq_if
  by (simp add: free refuse stateless commit split: option.split)

lemma first_invite: "P s \<Longrightarrow> header_value msg ''Call-ID'' \<noteq> [] \<Longrightarrow> P (snd (invite_without_dialog env msg src sport cname dname s))"
  by (simp add: invite_without_dialog_def stateless accept)

lemma repeated: "P s \<Longrightarrow> header_value msg ''Call-ID'' \<noteq> [] \<Longrightarrow> P (snd (repeated_invite env msg src sport cname dname s))"
  using first_invite [of s msg env src sport cname dname] by (simp add: repeated_invite_def Let_def stateless)

lemma in_matching: "matching_dialog msg s \<Longrightarrow> header_value msg ''Call-ID'' \<noteq> [] \<Longrightarrow> dlg_call_id s \<noteq> []"
  by (simp add: matching_dialog_def)

lemma any_invite: "P s \<Longrightarrow> P (snd (handle_invite env msg src sport s))"
proof -
  assume p: "P s"
  let ?r = "replay_completed_response env msg src sport ''INVITE'' (\<not> remote_sip_tcp s) s"
  show ?thesis
  proof (cases "well_formed_invite msg \<and> \<not> fst ?r")
    case True
    then have "header_value msg ''Call-ID'' \<noteq> []" by (simp add: well_formed_invite_def)
    then show ?thesis using True replay [OF p, of env msg src sport "''INVITE''" "\<not> remote_sip_tcp s"]
      unfolding handle_invite_def Let_def prod.case_eq_if
      by (simp add: bool.case_eq_if refuse stateless reinvite repeated in_matching)
  next
    case False
    then show ?thesis using replay [OF p, of env msg src sport "''INVITE''" "\<not> remote_sip_tcp s"] stateless [OF p]
      unfolding handle_invite_def Let_def prod.case_eq_if by (auto simp: bool.case_eq_if)
  qed
qed

lemma any_update: "P s \<Longrightarrow> P (snd (handle_update env msg src sport s))"
  unfolding handle_update_def Let_def prod.case_eq_if
  by (simp add: bool.case_eq_if free refuse stateless replay)

lemma any_bye: "P s \<Longrightarrow> P (handle_bye env msg src sport s)"
  by (simp add: handle_bye_def Let_def refuse stateless reset)

lemma any_cancel: "P s \<Longrightarrow> P (handle_cancel env msg src sport s)"
  by (simp add: handle_cancel_def Let_def refuse stateless response reset)

lemma any_ack: "P s \<Longrightarrow> P (handle_ack env msg src s)"
  using acknowledge [of s env msg src]
  unfolding handle_ack_def Let_def prod.case_eq_if
  by (simp add: free bye reset outgoing update open_media)

subsection \<open>Responses\<close>

lemma still_answered:
  "P s \<Longrightarrow> t = pending_invite s \<Longrightarrow> \<not> tx_empty t \<Longrightarrow> P (s\<lparr>pending_invite := (wait_deadline t)\<lparr>tx_completed := True\<rparr>\<rparr>)"
  by (simp add: answered)

lemma noted: "P s \<Longrightarrow> P (note_response msg src sport s)"
  by (simp add: note_response_def Let_def free done_with still_answered)

lemma success: "P s \<Longrightarrow> dlg_call_id s \<noteq> [] \<Longrightarrow> P (invite_success env msg src s)"
  unfolding invite_success_def Let_def prod.case_eq_if
  by (simp add: free request outgoing bye reset open_media)

lemma failure: "P s \<Longrightarrow> P (invite_failure env msg s)"
  by (simp add: invite_failure_def send_invite_error_ack_def Let_def outgoing request reset)

lemma taken: "P s \<Longrightarrow> dlg_call_id s \<noteq> [] \<Longrightarrow> P (take_response env msg src s)"
  by (simp add: take_response_def Let_def bye_answered_def cancel_answered_def done_with answered reset success failure)

lemma any_response: "P s \<Longrightarrow> P (handle_response env msg src sport s)"
proof -
  assume p: "P s"
  let ?r = "replay_completed_invite_ack env msg src (\<not> remote_sip_tcp s) s"
  have "dlg_call_id (note_response msg src sport t) = dlg_call_id t" for t
    by (simp add: note_response_def Let_def mark_sip_event_def)
  moreover have "response_of_dialog msg src t \<Longrightarrow> dlg_call_id t \<noteq> []" for t by (simp add: response_of_dialog_def Let_def)
  ultimately show ?thesis using p replay_ack [OF p, of env msg src "\<not> remote_sip_tcp s"]
    unfolding handle_response_def prod.case_eq_if by (simp add: bool.case_eq_if noted taken)
qed

lemma any_request: "P s \<Longrightarrow> P (take_request env m msg src sport s)"
  by (simp add: take_request_def stateless any_invite any_ack any_bye any_cancel any_update)

theorem datagram: "P s \<Longrightarrow> P (handle_sip_datagram env msg src sport s)"
  unfolding handle_sip_datagram_def Let_def prod.case_eq_if
  by (simp add: stateless any_response any_request replay)

end

end
