(* ===== verification/SipTimeouts.thy ===== *)
theory SipTimeouts
  imports SipTimers
begin

text \<open>
  The loop of the signaling task when no message arrives (\<open>sip_task_\<close>): pump the timers, sleep until
  the next of them. An INVITE nobody answers is sent again ten times and ends the call after 64 T1.
\<close>

fun task_turns :: "sip_env \<Rightarrow> nat \<Rightarrow> u32 \<Rightarrow> sip_state \<Rightarrow> u32 \<times> sip_state" where
  "task_turns env 0 now s = (now, s)"
| "task_turns env (Suc n) now s =
     (let s1 = pump_udp_retransmits (env\<lparr>sip_now := now\<rparr>) s
      in case sip_sleep now s1 of None \<Rightarrow> (now, s1) | Some w \<Rightarrow> task_turns env n (now + w) s1)"

section \<open>A state with one INVITE\<close>

definition only_invite :: "sip_state \<Rightarrow> bool" where
  "only_invite s \<longleftrightarrow>
     tx_empty (pending_cancel s) \<and> tx_empty (pending_bye s) \<and> tx_empty (pending_update s) \<and>
     dr_response (pending_provisional s) = [] \<and> \<not> cs_awaiting_ack (completed_invite s) \<and>
     cs_response (completed_invite s) = [] \<and> cs_response (completed_control s) = [] \<and> cc_ack (completed_invite_client s) = []"

lemma pump_empty: "tx_empty t \<Longrightarrow> pump_transaction env t s = (PumpIdle, t, s)"
  by (simp add: pump_transaction_def pump_choice_def)

lemma pump_only_invite:
  assumes "only_invite s" "outgoing_invite_pending s" "pump_transaction env (pending_invite s) s = (a, t, s1)"
  shows "pump_udp_retransmits env s =
    (let s2 = s1\<lparr>pending_invite := t, outgoing_invite_pending := (a \<noteq> PumpTimeout)\<rparr>
     in if a = PumpTimeout then end_invite (dlg_call_id s) s2 else s2)"
proof -
  have f: "sent_from s s1" using pump_transaction_sent [of s env "pending_invite s"] assms(3) by simp
  let ?s2 = "s1\<lparr>pending_invite := t, outgoing_invite_pending := (a \<noteq> PumpTimeout)\<rparr>"
  have o: "tx_empty (pending_cancel ?s2)" "tx_empty (pending_bye ?s2)" "tx_empty (pending_update ?s2)"
    "dr_response (pending_provisional ?s2) = []" "\<not> cs_awaiting_ack (completed_invite ?s2)"
    "cs_response (completed_invite ?s2) = []" "cs_response (completed_control ?s2) = []" "cc_ack (completed_invite_client ?s2) = []"
    using assms(1) by (simp_all add: only_invite_def sent_from_fields [OF f])
  have i: "pump_invite env s = (a = PumpTimeout, ?s2)" using assms(2,3) by (simp add: pump_invite_def)
  have r: "pump_cancel env ?s2 = (False, ?s2)" "pump_bye env ?s2 = (False, ?s2)" "pump_update env ?s2 = ?s2"
    "pump_provisional env ?s2 = ?s2" "pump_final_response env ?s2 = (False, ?s2)" "expire_completed env ?s2 = ?s2"
    using o by (simp_all add: pump_cancel_def pump_bye_def pump_update_def pump_empty pump_provisional_def pump_final_response_def
        expire_completed_def expire_server_def expire_client_def Let_def)
  show ?thesis unfolding pump_udp_retransmits_def pump_timers_def Let_def i r prod.case by simp
qed

lemma sleep_only_invite:
  "only_invite s \<Longrightarrow> outgoing_invite_pending s \<Longrightarrow> \<not> tx_empty (pending_invite s) \<Longrightarrow> tx_udp (pending_invite s) \<Longrightarrow>
   \<not> tx_completed (pending_invite s) \<Longrightarrow> sip_sleep now s = Some (wait_for now (tx_next_ms (pending_invite s)))"
  by (simp add: sip_sleep_def sip_wakeups_def only_invite_def transaction_wakeup_def Let_def)

section \<open>The schedule\<close>

text \<open>The INVITE of \<open>msg\<close> after some retransmissions, its next at \<open>start + a\<close>.\<close>

definition invite_at :: "u32 \<Rightarrow> string \<Rightarrow> u32 \<Rightarrow> u16 \<Rightarrow> u32 \<Rightarrow> u16 \<Rightarrow> byte \<Rightarrow> udp_transaction" where
  "invite_at start msg dst dport a gap r =
     \<lparr>tx_request = msg, tx_ip = dst, tx_port = dport, tx_next_ms = start + a, tx_deadline_ms = start + 32000,
      tx_interval_ms = gap, tx_retries = r, tx_udp = True, tx_completed = False\<rparr>"

text \<open>The states in between: only the transaction, the count of sends and the effects differ.\<close>

definition calling_state :: "sip_state \<Rightarrow> udp_transaction \<Rightarrow> nat \<Rightarrow> sip_effect list \<Rightarrow> sip_state" where
  "calling_state s t n es = s\<lparr>pending_invite := t, sip_sends := n, sip_effects := es\<rparr>"

lemma calling_facts [simp]:
  "only_invite (calling_state s t n es) = only_invite s" "outgoing_invite_pending (calling_state s t n es) = outgoing_invite_pending s"
  "pending_invite (calling_state s t n es) = t" "sip_sends (calling_state s t n es) = n" "sip_effects (calling_state s t n es) = es"
  "remote_sip_tcp (calling_state s t n es) = remote_sip_tcp s" "sip_socket_open (calling_state s t n es) = sip_socket_open s"
  "dlg_call_id (calling_state s t n es) = dlg_call_id s"
  by (simp_all add: calling_state_def only_invite_def)

lemma reached_offset [simp]: "time_reached (now + a) (now + b) \<longleftrightarrow> unat (b - a) = 0 \<or> 2 ^ 31 < unat (b - a)"
  by (simp add: time_reached_iff)

definition all_taken :: "sip_env \<Rightarrow> bool" where
  "all_taken env \<longleftrightarrow> (\<forall>n. datagram_taken 3 (udp_attempts env n))"

text \<open>One turn: the INVITE goes out again and the task sleeps until the next time.\<close>

lemma resend_turn:
  assumes "only_invite s" "outgoing_invite_pending s" "\<not> remote_sip_tcp s" "sip_socket_open s" "all_taken env"
    "msg \<noteq> []" "dst \<noteq> 0" "dport \<noteq> 0"
    "\<not> time_reached (start + a) (start + 32000)" "clamp_next (start + (a + ucast (doubled 4000 i))) (start + 32000) = start + b"
    "\<not> time_reached (start + a) (start + b)"
  shows "task_turns env (Suc k) (start + a) (calling_state s (invite_at start msg dst dport a i r) n es) =
    task_turns env k (start + b) (calling_state s (invite_at start msg dst dport b (doubled 4000 i) (r + 1)) (n + 1) (es @ [UdpOut dst dport msg]))"
proof -
  let ?e = "env\<lparr>sip_now := start + a\<rparr>" and ?t = "invite_at start msg dst dport a i r" and ?u = "invite_at start msg dst dport b (doubled 4000 i) (r + 1)"
  let ?s = "calling_state s ?t n es"
  have send: "send_sip ?e msg dst dport ?s = (True, calling_state s ?t (n + 1) (es @ [UdpOut dst dport msg]))"
    using assms(3,4,5,7,8) by (simp add: send_sip_def send_sip_udp_def do_effect_def all_taken_def calling_state_def)
  have p: "pump_transaction ?e (pending_invite ?s) ?s = (PumpSend, ?u, calling_state s ?t (n + 1) (es @ [UdpOut dst dport msg]))"
  proof -
    have "pump_choice (start + a) ?t = PumpSend"
      using assms(6-9) by (simp add: pump_choice_def invite_at_def tx_empty_def)
    moreover have "after_retransmit (start + a) ?t = ?u"
      using assms(10) by (simp add: after_retransmit_def invite_at_def add.assoc Let_def)
    ultimately show ?thesis using send by (simp add: pump_transaction_def invite_at_def [of start msg dst dport a i r])
  qed
  have o: "(calling_state s ?t m fs)\<lparr>pending_invite := ?u, outgoing_invite_pending := True\<rparr> = calling_state s ?u m fs" for m fs
    using assms(2) by (cases s) (simp add: calling_state_def)
  have "pump_udp_retransmits ?e ?s = calling_state s ?u (n + 1) (es @ [UdpOut dst dport msg])"
    using pump_only_invite [OF _ _ p] assms(1,2) by (simp add: o)
  moreover have "sip_sleep (start + a) (calling_state s ?u (n + 1) (es @ [UdpOut dst dport msg])) = Some (b - a)"
    using assms(1,2,6,11)
    by (subst sleep_only_invite) (simp_all add: invite_at_def tx_empty_def wait_for_def)
  ultimately show ?thesis by (simp add: Let_def)
qed


text \<open>Ten of them, from the first one due after T1 to the one cut to the deadline.\<close>

lemma doubled_steps [simp]:
  "doubled 4000 500 = 1000" "doubled 4000 1000 = 2000" "doubled 4000 2000 = 4000" "doubled 4000 4000 = 4000"
  by (simp_all add: doubled_def)

lemma clamp_before: "\<not> time_reached (start + c) (start + 32000) \<Longrightarrow> clamp_next (start + c) (start + 32000) = start + c"
  by (simp only: clamp_next_def if_False)

lemma ten_turns:
  assumes "only_invite s" "outgoing_invite_pending s" "\<not> remote_sip_tcp s" "sip_socket_open s" "all_taken env"
    "msg \<noteq> []" "dst \<noteq> 0" "dport \<noteq> 0"
  shows "task_turns env (Suc (Suc (Suc (Suc (Suc (Suc (Suc (Suc (Suc (Suc k)))))))))) (start + 500)
      (calling_state s (invite_at start msg dst dport 500 500 0) n es) =
    task_turns env k (start + 32000)
      (calling_state s (invite_at start msg dst dport 32000 4000 10) (n + 10) (es @ replicate 10 (UdpOut dst dport msg)))"
proof -
  note t = resend_turn [OF assms, where start = start]
  have z: "clamp_next (start + 35500) (start + 32000) = start + 32000" by (simp add: clamp_next_def)
  have r: "es @ replicate 10 x = es @ [x] @ [x] @ [x] @ [x] @ [x] @ [x] @ [x] @ [x] @ [x] @ [x]" for x :: sip_effect
    by (simp add: numeral_eq_Suc)
  have ten: "n + 10 = n + 1 + 1 + 1 + 1 + 1 + 1 + 1 + 1 + 1 + 1" by simp
  have "task_turns env (Suc (Suc (Suc (Suc (Suc (Suc (Suc (Suc (Suc (Suc k)))))))))) (start + 500)
      (calling_state s (invite_at start msg dst dport 500 500 0) n es) =
    task_turns env k (start + 32000)
      (calling_state s (invite_at start msg dst dport 32000 4000 10) (n + 1 + 1 + 1 + 1 + 1 + 1 + 1 + 1 + 1 + 1)
        (es @ [UdpOut dst dport msg] @ [UdpOut dst dport msg] @ [UdpOut dst dport msg] @ [UdpOut dst dport msg] @ [UdpOut dst dport msg] @
         [UdpOut dst dport msg] @ [UdpOut dst dport msg] @ [UdpOut dst dport msg] @ [UdpOut dst dport msg] @ [UdpOut dst dport msg]))"
    by (simp add: t [where a = 500 and b = 1500] t [where a = 1500 and b = 3500] t [where a = 3500 and b = 7500] t [where a = 7500 and b = 11500] t [where a = 11500 and b = 15500] t [where a = 15500 and b = 19500]
        t [where a = 19500 and b = 23500] t [where a = 23500 and b = 27500] t [where a = 27500 and b = 31500] t [where a = 31500 and b = 32000] clamp_before z del: task_turns.simps)
  then show ?thesis unfolding r ten .
qed

text \<open>The first turn has nothing to do, the last one ends the call.\<close>

lemma first_turn:
  assumes "only_invite s" "outgoing_invite_pending s" "pending_invite s = invite_at start msg dst dport 500 500 0"
    "msg \<noteq> []" "dst \<noteq> 0" "dport \<noteq> 0"
  shows "task_turns env (Suc k) start s = task_turns env k (start + 500) s"
proof -
  have p: "pump_transaction (env\<lparr>sip_now := start\<rparr>) (pending_invite s) s = (PumpIdle, pending_invite s, s)"
    using reached_offset [of start 0 32000] reached_offset [of start 0 500]
    by (simp add: pump_transaction_def pump_choice_def assms(3)) (simp add: invite_at_def)
  have "s\<lparr>pending_invite := pending_invite s, outgoing_invite_pending := True\<rparr> = s" using assms(2) by (simp add: outgoing_same)
  then have "pump_udp_retransmits (env\<lparr>sip_now := start\<rparr>) s = s" using pump_only_invite [OF assms(1,2) p] by (simp only: Let_def pump_action.distinct if_False simp_thms)
  moreover have "sip_sleep start s = Some 500"
    using assms(1,2,4) reached_offset [of start 0 500]
    by (subst sleep_only_invite) (simp_all add: assms(3) invite_at_def tx_empty_def wait_for_def)
  ultimately show ?thesis by (simp add: Let_def)
qed

lemma last_turn:
  assumes "only_invite s" "outgoing_invite_pending s" "msg \<noteq> []" "dst \<noteq> 0" "dport \<noteq> 0"
  shows "\<exists>s'. task_turns env (Suc k) (start + 32000) (calling_state s (invite_at start msg dst dport 32000 4000 10) n es) = (start + 32000, s') \<and>
    sip_effects s' = es @ [Signal (with_status 408 ''timeout'' (new_signal FINAL_RESPONSE_SIGNAL (dlg_call_id s)))] \<and>
    dlg_call_id s' = [] \<and> sip_wakeups s' = []"
proof -
  let ?e = "env\<lparr>sip_now := start + 32000\<rparr>" and ?s = "calling_state s (invite_at start msg dst dport 32000 4000 10) n es"
  have p: "pump_transaction ?e (pending_invite ?s) ?s = (PumpTimeout, no_transaction, ?s)"
    using assms(3-5) by (simp add: pump_transaction_def pump_choice_def) (simp add: invite_at_def tx_empty_def)
  let ?t = "?s\<lparr>pending_invite := no_transaction, outgoing_invite_pending := False\<rparr>"
  have u: "pump_udp_retransmits ?e ?s = end_invite (dlg_call_id s) ?t"
    using pump_only_invite [OF _ _ p] assms(1,2) by simp
  have o: "only_invite ?t" using assms(1) by (simp add: only_invite_def calling_state_def)
  then have w: "sip_wakeups (end_invite (dlg_call_id s) ?t) = []"
    by (simp add: end_invite_def emit_signal_def do_effect_def sip_wakeups_def only_invite_def transaction_wakeup_def
        no_deferred_response_def Let_def)
  then have "task_turns env (Suc k) (start + 32000) ?s = (start + 32000, end_invite (dlg_call_id s) ?t)"
    by (simp add: u sip_sleep_def Let_def)
  moreover have "sip_effects (end_invite (dlg_call_id s) ?t) =
      es @ [Signal (with_status 408 ''timeout'' (new_signal FINAL_RESPONSE_SIGNAL (dlg_call_id s)))]"
    by (simp add: end_invite_def)
  moreover have "dlg_call_id (end_invite (dlg_call_id s) ?t) = []"
    by (simp add: end_invite_def emit_signal_def do_effect_def)
  ultimately show ?thesis using w by blast
qed

text \<open>
  C4: An INVITE nobody answers does not hang. From the moment it has been handed to the socket, with every datagram
  taken and no message coming in, the task sends it again exactly ten times and then, 32 seconds (64 T1) after
  the first, ends the dialog with one signal of status 408; nothing is left to wake up for.
\<close>

theorem unanswered_invite_ends:
  assumes "only_invite s" "outgoing_invite_pending s" "\<not> remote_sip_tcp s" "sip_socket_open s" "all_taken env"
    "pending_invite s = new_transaction start False msg dst dport" "msg \<noteq> []" "dst \<noteq> 0" "dport \<noteq> 0"
  shows "\<exists>s'. task_turns env 12 start s = (start + 32000, s') \<and>
    sip_effects s' = sip_effects s @ replicate 10 (UdpOut dst dport msg) @
      [Signal (with_status 408 ''timeout'' (new_signal FINAL_RESPONSE_SIGNAL (dlg_call_id s)))] \<and>
    dlg_call_id s' = [] \<and> sip_wakeups s' = []"
proof -
  have i: "pending_invite s = invite_at start msg dst dport 500 500 0"
    using assms(6) by (simp add: new_transaction_def invite_at_def)
  have twelve: "(12::nat) = Suc (Suc (Suc (Suc (Suc (Suc (Suc (Suc (Suc (Suc (Suc (Suc 0)))))))))))" by simp
  have c: "calling_state s (invite_at start msg dst dport 500 500 0) (sip_sends s) (sip_effects s) = s"
    by (simp add: calling_state_def flip: i)
  have "task_turns env 12 start s = task_turns env 1 (start + 32000)
      (calling_state s (invite_at start msg dst dport 32000 4000 10) (sip_sends s + 10) (sip_effects s @ replicate 10 (UdpOut dst dport msg)))"
    using first_turn [OF assms(1,2) i assms(7-9)]
      ten_turns [OF assms(1-5,7-9), of "Suc 0" start "sip_sends s" "sip_effects s"]
    unfolding c twelve by (simp only: One_nat_def)
  then show ?thesis using last_turn [OF assms(1,2,7-9), of env 0 start "sip_sends s + 10" "sip_effects s @ replicate 10 (UdpOut dst dport msg)"]
    by simp
qed

text \<open>A call placed a second before the clock wraps.\<close>

definition placed_call :: sip_state where
  "placed_call = (started_transport sample_endpoint 5060)
     \<lparr>remote_ip := 1, dlg_call_id := ''call'', outgoing_invite_pending := True,
      pending_invite := new_transaction 4294966296 False ''INVITE'' 1 5060\<rparr>"

lemma placed_facts:
  "only_invite placed_call" "outgoing_invite_pending placed_call" "\<not> remote_sip_tcp placed_call" "sip_socket_open placed_call"
  "pending_invite placed_call = new_transaction 4294966296 False ''INVITE'' 1 5060" "sip_effects placed_call = []"
  by (simp_all add: placed_call_def started_transport_def only_invite_def tx_empty_def no_transaction_def
      no_deferred_response_def no_completed_server_def no_completed_client_def)

lemma reliable_taken: "all_taken reliable_env"
  by (simp add: all_taken_def reliable_env_def numeral_3_eq_3)

theorem unanswered_invite_ends_witness:
  "\<exists>s'. task_turns reliable_env 12 4294966296 placed_call = (31000, s') \<and>
    sip_effects s' = replicate 10 (UdpOut 1 5060 ''INVITE'') @
      [Signal (with_status 408 ''timeout'' (new_signal FINAL_RESPONSE_SIGNAL (dlg_call_id placed_call)))]"
  using unanswered_invite_ends [OF placed_facts(1-4) reliable_taken placed_facts(5)] by (auto simp: placed_facts(6))

end
