(* ===== verification/OpusCodec.thy ===== *)
theory OpusCodec
  imports AudioFormat
begin

text \<open>
  The Opus wrapper of \<open>opus_rtp_codec.cpp\<close> and \<open>opus_rtp_codec.h\<close>: which codec states exist and which formats they serve,
  the guards around the calls of the Opus library, and the sizes it is given. The library is a parameter:
  \<open>opus_lib\<close> holds the outcome of each call (an encoder or decoder was made and configured, the bytes or
  samples a call returned, or nothing for an error).
\<close>

record opus_lib =
  encoder_made :: bool
  encoder_configured :: bool
  decoder_made :: bool
  lib_encode :: "bytes \<Rightarrow> nat \<Rightarrow> nat \<Rightarrow> bytes option"
  lib_decode :: "bytes option \<Rightarrow> nat \<Rightarrow> bytes option"

text \<open>The codec states, by whether they exist; the formats keep what they were configured with last.\<close>

record opus_codec =
  opus_encoder :: bool
  opus_decoder :: bool
  opus_tx_format :: audio_format
  opus_rx_format :: audio_format
  opus_max_payload :: nat

definition codec_state_matches_format :: "audio_format \<Rightarrow> audio_format \<Rightarrow> bool" where
  "codec_state_matches_format st f \<longleftrightarrow>
     codec st = codec f \<and> sample_rate st = sample_rate f \<and> pcm_format st = pcm_format f \<and> channels st = channels f"

definition codec_clear :: "opus_codec \<Rightarrow> opus_codec" where
  "codec_clear c = c\<lparr>opus_encoder := False, opus_decoder := False\<rparr>"

text \<open>The encoder, then the decoder; a failure of either clears both.\<close>

definition configure_decoder :: "opus_lib \<Rightarrow> audio_format option \<Rightarrow> opus_codec \<Rightarrow> bool \<times> opus_codec" where
  "configure_decoder lib rx c =
     (case rx of
        None \<Rightarrow> (True, c)
      | Some f \<Rightarrow>
          let c1 = c\<lparr>opus_rx_format := f, opus_decoder := decoder_made lib\<rparr>
          in if \<not> decoder_made lib then (False, codec_clear c1) else (True, c1))"

definition configure :: "opus_lib \<Rightarrow> audio_format option \<Rightarrow> audio_format option \<Rightarrow> nat \<Rightarrow> opus_codec \<Rightarrow> bool \<times> opus_codec" where
  "configure lib tx rx max_payload c0 =
     (let c = (codec_clear c0)\<lparr>opus_max_payload := min max_payload 1275\<rparr> in
      case tx of
        None \<Rightarrow> configure_decoder lib rx c
      | Some f \<Rightarrow>
          let c1 = c\<lparr>opus_tx_format := f, opus_encoder := encoder_made lib\<rparr>
          in if \<not> encoder_made lib \<or> \<not> encoder_configured lib then (False, codec_clear c1)
             else configure_decoder lib rx c1)"

definition ready_for :: "opus_codec \<Rightarrow> audio_format \<Rightarrow> audio_format \<Rightarrow> bool" where
  "ready_for c tx rx \<longleftrightarrow>
     (codec tx \<noteq> OPUS \<or> opus_encoder c \<and> codec_state_matches_format (opus_tx_format c) tx) \<and>
     (codec rx \<noteq> OPUS \<or> opus_decoder c \<and> codec_state_matches_format (opus_rx_format c) rx)"

text \<open>The bytes of the payload, none where the code returns 0.\<close>

definition opus_encode :: "opus_lib \<Rightarrow> opus_codec \<Rightarrow> bytes \<Rightarrow> audio_format \<Rightarrow> nat \<Rightarrow> bytes" where
  "opus_encode lib c pcm f capacity =
     (if \<not> opus_encoder c \<or> \<not> codec_state_matches_format (opus_tx_format c) f \<or> length pcm \<noteq> unat (nominal_frame_bytes f)
      then []
      else case lib_encode lib pcm (unat (nominal_frame_samples f)) (min capacity (opus_max_payload c)) of
             None \<Rightarrow> []
           | Some payload \<Rightarrow> payload)"

text \<open>
  The samples of one frame; \<open>None\<close> as the payload asks for the concealment of a lost one. The library gives
  16-bit samples, and the code takes them when there is one frame of them.
\<close>

definition opus_decode :: "opus_lib \<Rightarrow> opus_codec \<Rightarrow> bytes option \<Rightarrow> audio_format \<Rightarrow> nat \<Rightarrow> bytes" where
  "opus_decode lib c payload f capacity =
     (if \<not> opus_decoder c \<or> \<not> codec_state_matches_format (opus_rx_format c) f \<or>
         capacity < unat (nominal_frame_bytes f) \<or> (case payload of None \<Rightarrow> False | Some p \<Rightarrow> length p > 1275)
      then []
      else case lib_decode lib payload (unat (nominal_frame_samples f)) of
             None \<Rightarrow> []
           | Some samples \<Rightarrow>
               if length samples \<noteq> unat (nominal_frame_samples f) * unat (channels f) * 2 then [] else samples)"

text \<open>\<open>decode_audio_payload\<close> of the transport.\<close>

definition decode_audio_payload :: "opus_lib \<Rightarrow> opus_codec \<Rightarrow> bytes option \<Rightarrow> audio_format \<Rightarrow> nat \<Rightarrow> bytes" where
  "decode_audio_payload lib c payload f capacity =
     (if codec f \<noteq> OPUS then [] else opus_decode lib c payload f capacity)"

text \<open>The first Opus format of a list, as \<open>set_audio_formats\<close> takes it for the codec.\<close>

fun first_opus :: "audio_format_list \<Rightarrow> audio_format option" where
  "first_opus [] = None"
| "first_opus (f # fs) = (if codec f = OPUS then Some f else first_opus fs)"

definition codec_for_formats :: "opus_lib \<Rightarrow> audio_format_list \<Rightarrow> audio_format_list \<Rightarrow> nat \<Rightarrow> opus_codec \<Rightarrow> bool \<times> opus_codec" where
  "codec_for_formats lib tx rx max_payload c = configure lib (first_opus tx) (first_opus rx) max_payload c"

section \<open>The wrapper\<close>

text \<open>A codec state is there only for a valid Opus format; the limit of a packet is one the library accepts.\<close>

definition opus_inv :: "opus_codec \<Rightarrow> bool" where
  "opus_inv c \<longleftrightarrow>
     opus_max_payload c \<le> 1275 \<and>
     (opus_encoder c \<longrightarrow> codec (opus_tx_format c) = OPUS) \<and> (opus_decoder c \<longrightarrow> codec (opus_rx_format c) = OPUS)"

lemma first_opus_is: "first_opus fs = Some f \<Longrightarrow> f \<in> set fs \<and> codec f = OPUS"
  by (induction fs) (auto split: if_splits)

lemma first_opus_none: "first_opus fs = None \<longleftrightarrow> (\<forall>f\<in>set fs. codec f \<noteq> OPUS)"
  by (induction fs) auto

lemma configured_inv: "opus_inv (snd (codec_for_formats lib tx rx n c))"
  by (auto simp: codec_for_formats_def configure_def configure_decoder_def codec_clear_def opus_inv_def Let_def
      dest: first_opus_is split: option.split)

lemma configured_states:
  assumes "fst (codec_for_formats lib tx rx n c)"
  shows "opus_encoder (snd (codec_for_formats lib tx rx n c)) = (first_opus tx \<noteq> None)"
    and "opus_decoder (snd (codec_for_formats lib tx rx n c)) = (first_opus rx \<noteq> None)"
    and "first_opus tx = Some f \<Longrightarrow> opus_tx_format (snd (codec_for_formats lib tx rx n c)) = f"
    and "first_opus rx = Some g \<Longrightarrow> opus_rx_format (snd (codec_for_formats lib tx rx n c)) = g"
  using assms
  by (auto simp: codec_for_formats_def configure_def configure_decoder_def codec_clear_def Let_def
      split: option.splits if_splits)

lemma encoded_frame:
  assumes "opus_encode lib c pcm f capacity \<noteq> []"
  shows "length pcm = unat (nominal_frame_bytes f)"
  using assms by (auto simp: opus_encode_def split: if_splits)

lemma decoded_frame:
  assumes "opus_decode lib c payload f capacity \<noteq> []" and "format_valid f" and "codec f = OPUS"
  shows "length (opus_decode lib c payload f capacity) = unat (nominal_frame_bytes f)"
proof -
  have "length (opus_decode lib c payload f capacity) = unat (nominal_frame_samples f) * unat (channels f) * 2"
    using assms(1) by (auto simp: opus_decode_def split: if_splits option.splits)
  moreover have "pcm_format f = S16LE" using assms(2,3) by (auto simp: format_valid_def Let_def)
  ultimately show ?thesis using frame_sizes(2) [OF assms(2)] by simp
qed

end
