(* ===== verification/MediaPath.thy ===== *)
theory MediaPath
  imports SipStream OpusCodec
begin

text \<open>
  The life of the audio path of the transport (\<open>sip_transport.cpp\<close>): prepared with its resources, committed when the
  final answer has been sent, stopped, and cleaned up by the RTP task, which is also where a failing socket ends a
  call; and the start and stop of the transport itself. What the operating system answers, the converters and the
  Opus codec are the record \<open>media_env\<close>. The build without video is modelled; the waiting for other tasks is left
  out, the operations being the critical sections between the waits.
\<close>

record media_env =
  udp_bound :: bool
  converter_made :: "audio_format \<Rightarrow> audio_format \<Rightarrow> bool"
  receive_converter :: rx_converter
  codec_states :: opus_codec
  codec_ready :: bool
  sip_listening :: bool
  sip_task_started :: bool
  rtp_task_started :: bool

section \<open>Preparing\<close>

text \<open>The last check before the socket: every decoder that can receive packets is there.\<close>

definition playout_format :: "payloads \<Rightarrow> audio_format \<Rightarrow> audio_format option" where
  "playout_format ps rx =
     (case find (\<lambda>e. codec (entry_format e) = OPUS) ps of
        None \<Rightarrow> Some rx
      | Some e \<Rightarrow> if same_decoded_audio_geometry (entry_format e) rx then Some (entry_format e) else None)"

definition codecs_prepared :: "media_env \<Rightarrow> endpoint \<Rightarrow> bool" where
  "codecs_prepared me e \<longleftrightarrow>
     (has_speaker (ep_build e) \<and> format_valid (selected_rx_format e) \<longrightarrow>
        fst (prepare (converter_made me) (receive_converter me) (pcm_only (negotiated_rx_payloads e))
               (decoded_pcm_format (selected_rx_format e)))) \<and>
     (has_opus (ep_build e) \<longrightarrow>
        (case playout_format (negotiated_rx_payloads e) (selected_rx_format e) of
           None \<Rightarrow> False
         | Some rx \<Rightarrow> ready_for (codec_states me) (selected_tx_format e) rx))"

text \<open>The sequence number, timestamp and source of the new stream are the random numbers \<open>randoms s\<close> and the next two.\<close>

definition prepare_media_path_locked :: "media_env \<Rightarrow> sip_state \<Rightarrow> bool \<times> sip_state" where
  "prepare_media_path_locked me s =
     (if media_lifecycle s = MediaPrepared \<or> media_lifecycle s = MediaActive \<and> rtp_running s then (True, s)
      else if media_lifecycle s \<noteq> MediaIdle then (False, s)
      else if \<not> rtp_task s \<or> \<not> rtp_quiesced s then (False, s)
      else
        let s1 = (reset_rtp_latch s)\<lparr>randoms := randoms s + 3\<rparr> in
        if \<not> codecs_prepared me (sdp s) then (False, s1)
        else if \<not> udp_bound me then (False, s1)
        else (True, s1\<lparr>rtp_bound := True, media_lifecycle := MediaPrepared\<rparr>))"

definition prepare_media_path :: "media_env \<Rightarrow> sip_state \<Rightarrow> bool \<times> sip_state" where
  "prepare_media_path me s =
     (if \<not> sip_running s \<or> transport_stopping s then (False, s)
      else if media_lifecycle s = MediaPrepared \<or> media_lifecycle s = MediaActive \<and> rtp_running s then (True, s)
      else if media_lifecycle s \<noteq> MediaIdle then (False, s)
      else prepare_media_path_locked me s)"

section \<open>Committing\<close>

definition commit_media_path_locked :: "sip_state \<Rightarrow> bool \<times> sip_state" where
  "commit_media_path_locked s =
     (if media_lifecycle s = MediaActive \<and> rtp_running s then (True, s)
      else if media_lifecycle s \<noteq> MediaPrepared then (False, s)
      else if \<not> rtp_task s \<or> \<not> rtp_quiesced s \<or> \<not> rtp_bound s then (False, s)
      else (True, s\<lparr>rtp_quiesced := False, rtp_running := True, media_lifecycle := MediaActive\<rparr>))"

definition start_audio_path :: "media_env \<Rightarrow> sip_state \<Rightarrow> bool \<times> sip_state" where
  "start_audio_path me s =
     (if \<not> sip_running s \<or> transport_stopping s then (False, s)
      else if media_lifecycle s = MediaCleaning \<or> media_lifecycle s = MediaShuttingDown then (False, s)
      else case prepare_media_path_locked me s of
             (False, s1) \<Rightarrow> (False, s1)
           | (True, s1) \<Rightarrow> commit_media_path_locked s1)"

text \<open>A call that was accepted but whose media cannot start is ended: after the ACK of the answer, if that is outstanding.\<close>

definition terminate_after_commit_failure :: "sip_env \<Rightarrow> sip_state \<Rightarrow> sip_state" where
  "terminate_after_commit_failure env s =
     (let c = completed_invite s in
      if dlg_call_id s = [] \<or> cs_response c = [] \<or> \<not> (cs_status c \<ge> 200 \<and> cs_status c < 300) \<or> cs_call_id c \<noteq> dlg_call_id s
      then s
      else if unconfirmed_uas s then s\<lparr>terminate_after_invite_ack := True\<rparr>
      else snd (send_bye_unlocked env (dlg_call_id s) s))"

definition commit_media_path :: "sip_env \<Rightarrow> sip_state \<Rightarrow> bool \<times> sip_state" where
  "commit_media_path env s =
     (if \<not> sip_running s \<or> transport_stopping s then (False, terminate_after_commit_failure env s)
      else case commit_media_path_locked s of
             (False, s1) \<Rightarrow> (False, terminate_after_commit_failure env s1)
           | (True, s1) \<Rightarrow> (True, s1))"

section \<open>The RTP task\<close>

text \<open>What the task does when its media loop has ended: \<open>rtp_running\<close> still set means that the socket failed.\<close>

definition quiesce_failed_worker :: "sip_state \<Rightarrow> sip_state" where
  "quiesce_failed_worker s =
     (let s1 = close_media_session (s\<lparr>rtp_running := False\<rparr>)
      in if media_lifecycle s1 = MediaActive then s1\<lparr>media_lifecycle := MediaCleaning\<rparr> else s1)"

definition media_worker_cleanup :: "sip_state \<Rightarrow> sip_state" where
  "media_worker_cleanup s =
     (let s1 = (if media_lifecycle s = MediaCleaning then (finish_audio_path_stop s)\<lparr>media_lifecycle := MediaIdle\<rparr> else s)
      in do_effect MediaQuiesced (s1\<lparr>rtp_quiesced := True\<rparr>))"

definition report_worker_failure :: "sip_env \<Rightarrow> sip_state \<Rightarrow> sip_state" where
  "report_worker_failure env s =
     (if dlg_call_id s = [] then s
      else case send_bye_unlocked env (dlg_call_id s) s of
             (pending, s1) \<Rightarrow>
             emit_signal (with_status 500 ''rtp_worker_failed'' (new_signal PROTOCOL_ERROR_SIGNAL (dlg_call_id s)))
               (if pending then s1 else reset_dialog s1))"

definition rtp_worker_exit :: "sip_env \<Rightarrow> sip_state \<Rightarrow> sip_state" where
  "rtp_worker_exit env s =
     (if rtp_running s then report_worker_failure env (media_worker_cleanup (quiesce_failed_worker s))
      else media_worker_cleanup s)"

section \<open>Start and stop\<close>

text \<open>
  \<open>stop\<close>: the signaling task ends and closes its connection, the sockets are closed, the audio path is stopped and
  cleaned up by the RTP task, which goes round once more to end.
\<close>

definition transport_stop :: "sip_state \<Rightarrow> sip_state" where
  "transport_stop s =
     (let was_running = sip_running s;
          s1 = s\<lparr>transport_stopping := True, sip_running := False, tcp_connect_requested := False, tcp_pending := [],
                 tcp_close_requested := True\<rparr>;
          s2 = (close_tcp_flow s1)\<lparr>sip_socket_open := False\<rparr>;
          s3 = request_audio_path_stop s2;
          s4 = (if \<not> rtp_task s3 then s3
                else (media_worker_cleanup ((if rtp_quiesced s3 then s3 else media_worker_cleanup s3)
                        \<lparr>media_lifecycle := MediaShuttingDown\<rparr>))\<lparr>rtp_task := False\<rparr>)
      in if was_running then do_effect ConnectionLost s4 else s4)"

text \<open>\<open>start\<close>; \<open>sip_listening\<close> is whether all the sockets of the signaling task could be opened.\<close>

definition transport_start :: "media_env \<Rightarrow> sip_state \<Rightarrow> bool \<times> sip_state" where
  "transport_start me s =
     (if sip_running s then (True, s)
      else if has_opus (ep_build (sdp s)) \<and> \<not> codec_ready me then (False, s)
      else if rtp_task s then (False, s)
      else
        let s1 = s\<lparr>transport_stopping := False, media_lifecycle := MediaIdle\<rparr> in
        if \<not> sip_listening me \<or> \<not> sip_task_started me then (False, s1\<lparr>sip_socket_open := False\<rparr>)
        else
          let s2 = s1\<lparr>sip_running := True, sip_socket_open := True, rtp_quiesced := True\<rparr> in
          if \<not> rtp_task_started me then (False, transport_stop s2)
          else (True, do_effect ConnectionMade (s2\<lparr>rtp_task := True\<rparr>)))"

end
