(* ===== verification/SipReach.thy ===== *)
theory SipReach
  imports SipInvariants SipTimeouts MediaPath
begin

text \<open>
  The steps of the transport: what the call state machine asks of it, what the sockets deliver and report, the
  timers. The locale \<open>transport_invariant\<close> extends the contract of \<open>SipInvariants\<close> to all of them; its interpretations
  are the two invariants of every reachable state.
\<close>

section \<open>The contract of the task\<close>


locale transport_invariant = dialog_invariant +
  assumes flow:
      "P (s\<lparr>tcp_connected := y0\<rparr>) = P s" "P (s\<lparr>tcp_peer := y1\<rparr>) = P s"
      "P (s\<lparr>tcp_connecting := y2\<rparr>) = P s" "P (s\<lparr>tcp_rx := y3\<rparr>) = P s"
    and pumped: "P s \<Longrightarrow> P (pump_udp_retransmits env s)"
    and resources: "P s \<Longrightarrow> media_lifecycle s = MediaIdle \<Longrightarrow> rtp_task s \<Longrightarrow> rtp_quiesced s \<Longrightarrow>
        P (s\<lparr>rtp_bound := True, media_lifecycle := MediaPrepared\<rparr>)"
      "P s \<Longrightarrow> media_lifecycle s = MediaPrepared \<Longrightarrow> rtp_task s \<Longrightarrow> rtp_quiesced s \<Longrightarrow> rtp_bound s \<Longrightarrow>
        P (s\<lparr>rtp_quiesced := False, rtp_running := True, media_lifecycle := MediaActive\<rparr>)"
    and worker: "P s \<Longrightarrow> \<not> rtp_running s \<Longrightarrow> P (media_worker_cleanup s)"
      "P s \<Longrightarrow> rtp_running s \<Longrightarrow> P (media_worker_cleanup (quiesce_failed_worker s))"
    and restarted: "P s \<Longrightarrow> P (transport_stop s)" "P s \<Longrightarrow> P (snd (transport_start me s))"
begin

lemma closed: "P (close_tcp_flow s) = P s" "P (request_tcp_client_close s) = P s"
  by (simp_all add: close_tcp_flow_def request_tcp_client_close_def Let_def free flow)

lemma dropped: "P s \<Longrightarrow> P (drop_tcp_records s)"
proof -
  assume p: "P s"
  have q: "P (s\<lparr>completed_invite := no_completed_server, terminate_after_invite_ack := False\<rparr>)"
    using p by (simp add: completed terminating)
  have same: "s\<lparr>completed_invite := completed_invite s, terminate_after_invite_ack := terminate_after_invite_ack s\<rparr> = s"
    by (cases s) simp
  show ?thesis
    by (cases "cs_response (completed_invite s) \<noteq> [] \<and> \<not> cs_udp (completed_invite s)")
      (simp_all only: drop_tcp_records_def Let_def if_True if_False simp_thms free q same p)
qed

lemma loss: "P s \<Longrightarrow> P (handle_tcp_peer_loss s)"
  by (simp add: handle_tcp_peer_loss_def Let_def free closed dropped reset)

lemma promoted: "P s \<Longrightarrow> P (promote_tcp_flow env s)"
  by (simp add: promote_tcp_flow_def Let_def free flow loss)

lemma prepared: "P s \<Longrightarrow> P (prepare_tcp_flow env r s)"
  by (simp add: prepare_tcp_flow_def Let_def prod.case_eq_if free flow closed loss promoted split: connect_result.split)

lemma expired: "P s \<Longrightarrow> P (expire_connect env s)" "P s \<Longrightarrow> P (connect_reported env ok s)"
  by (simp_all add: expire_connect_def connect_reported_def loss promoted split: option.split prod.split)

lemma welcomed: "P s \<Longrightarrow> P (accept_tcp busy welcome peer s)"
  by (simp add: accept_tcp_def Let_def free flow closed)

lemma udp: "P s \<Longrightarrow> P (handle_sip_udp_datagram env msg src sport s)"
  using replay [of s env msg src sport "case find_char (CHR '' '') msg of None \<Rightarrow> msg | Some i \<Rightarrow> take i msg" True]
  unfolding handle_sip_udp_datagram_def prod.case_eq_if
  by (simp add: bool.case_eq_if replay_ack datagram closed free)

lemma drained: "P s \<Longrightarrow> P (drain_stream env src sport gone buf s)"
proof (induction env src sport gone buf s rule: drain_stream.induct)
  case (1 env src sport gone buf s)
  note unfolded = drain_stream.simps [of env src sport gone buf s]
  show ?case
  proof (cases "next_frame buf")
    case (Frame n)
    show ?thesis using 1(1) [OF _ Frame datagram [OF 1(2)]] 1(2) by (simp add: unfolded Frame)
  qed (simp_all add: unfolded 1(2) loss flow)
qed

lemma stream: "P s \<Longrightarrow> P (handle_sip_stream env src sport pieces gone s)"
  by (simp add: handle_sip_stream_def prod.case_eq_if bool.case_eq_if flow loss drained)

lemma targeted: "P (snd (parse_remote env host s)) = P s" "P (snd (originate env host dport s)) = P s"
  "P (set_remote env host dport mport s) = P s" "P (set_sip_signaling_transport tcp s) = P s"
proof -
  show p: "P (snd (parse_remote env host s)) = P s" for s by (simp add: parse_remote_def Let_def free)
  show "P (snd (originate env host dport s)) = P s"
    unfolding originate_def prod.case_eq_if by (simp add: bool.case_eq_if Let_def free closed p)
  show "P (set_remote env host dport mport s) = P s" by (simp add: set_remote_def Let_def free p)
  show "P (set_sip_signaling_transport tcp s) = P s" by (simp add: set_sip_signaling_transport_def Let_def free closed)
qed

lemma media_prepared: "P s \<Longrightarrow> P (snd (prepare_media_path_locked me s))" "P s \<Longrightarrow> P (snd (prepare_media_path me s))"
proof -
  have latch: "P (reset_rtp_latch s) = P s" for s by (simp add: reset_rtp_latch_def free)
  have locked: "P s \<Longrightarrow> P (snd (prepare_media_path_locked me s))" for s
    using resources(1) [of "(reset_rtp_latch s)\<lparr>randoms := randoms s + 3\<rparr>"]
    by (simp add: prepare_media_path_locked_def Let_def free latch reset_rtp_latch_def)
  show "P s \<Longrightarrow> P (snd (prepare_media_path_locked me s))" "P s \<Longrightarrow> P (snd (prepare_media_path me s))"
    by (simp_all add: prepare_media_path_def locked)
qed

lemma media_committed: "P s \<Longrightarrow> P (snd (commit_media_path_locked s))" "P s \<Longrightarrow> P (snd (start_audio_path me s))"
  "P s \<Longrightarrow> P (terminate_after_commit_failure env s)" "P s \<Longrightarrow> P (snd (commit_media_path env s))"
proof -
  have locked: "P s \<Longrightarrow> P (snd (commit_media_path_locked s))" for s
    by (simp add: commit_media_path_locked_def resources(2))
  have ended: "P s \<Longrightarrow> P (terminate_after_commit_failure env s)" for s
    by (simp add: terminate_after_commit_failure_def Let_def bye terminating)
  show "P s \<Longrightarrow> P (snd (commit_media_path_locked s))" by (rule locked)
  show "P s \<Longrightarrow> P (terminate_after_commit_failure env s)" by (rule ended)
  show "P s \<Longrightarrow> P (snd (start_audio_path me s))"
    using media_prepared(1) [of s me] by (simp add: start_audio_path_def prod.case_eq_if bool.case_eq_if locked)
  show "P s \<Longrightarrow> P (snd (commit_media_path env s))"
    by (simp add: commit_media_path_def prod.case_eq_if bool.case_eq_if locked ended)
qed

lemma media_exit: "P s \<Longrightarrow> P (rtp_worker_exit env s)"
proof -
  have "P s \<Longrightarrow> P (report_worker_failure env s)" for s
    by (simp add: report_worker_failure_def prod.case_eq_if bye reset)
  then show "P s \<Longrightarrow> P (rtp_worker_exit env s)" by (simp add: rtp_worker_exit_def worker)
qed

end

section \<open>The steps\<close>

text \<open>What can happen to a transport; \<open>Endpoint\<close> is what configuration and negotiation elsewhere change.\<close>

datatype sip_input =
    Invite sip_env string identity identity
  | Ring sip_env string
  | Answer sip_env string audio_format audio_format
  | Cancel sip_env string
  | Bye sip_env string
  | Refuse sip_env string u16 string
  | ConnectedIdentity string string
  | Disconnect
  | Originate sip_env string u16
  | Remote sip_env string u16 u16
  | Signaling bool
  | Udp sip_env string u32 u16
  | Stream sip_env u32 u16 "string list" bool
  | Timers sip_env
  | Prepare sip_env connect_result
  | ConnectTimer sip_env
  | ConnectReport sip_env bool
  | Accept bool bool u32
  | MediaPrepare media_env
  | MediaStart media_env
  | MediaCommit sip_env
  | MediaStop
  | WorkerExit sip_env
  | Stop
  | Start media_env
  | Endpoint endpoint

fun react :: "sip_input \<Rightarrow> sip_state \<Rightarrow> sip_state" where
  "react (Invite env cid from to) s = snd (send_invite env cid from to s)"
| "react (Ring env cid) s = snd (send_ringing env cid s)"
| "react (Answer env cid a b) s = snd (send_answer env cid a b s)"
| "react (Cancel env cid) s = snd (send_cancel_unlocked env cid s)"
| "react (Bye env cid) s = snd (send_bye_unlocked env cid s)"
| "react (Refuse env cid st reason) s = snd (send_final_response env cid st reason s)"
| "react (ConnectedIdentity r n) s = set_connected_identity r n s"
| "react Disconnect s = sip_disconnect s"
| "react (Originate env host dport) s = snd (originate env host dport s)"
| "react (Remote env host dport mport) s = set_remote env host dport mport s"
| "react (Signaling tcp) s = set_sip_signaling_transport tcp s"
| "react (Udp env msg src sport) s = handle_sip_udp_datagram env msg src sport s"
| "react (Stream env src sport pieces gone) s = handle_sip_stream env src sport pieces gone s"
| "react (Timers env) s = pump_udp_retransmits env s"
| "react (Prepare env r) s = prepare_tcp_flow env r s"
| "react (ConnectTimer env) s = expire_connect env s"
| "react (ConnectReport env ok) s = connect_reported env ok s"
| "react (Accept busy welcome peer) s = accept_tcp busy welcome peer s"
| "react (MediaPrepare me) s = snd (prepare_media_path me s)"
| "react (MediaStart me) s = snd (start_audio_path me s)"
| "react (MediaCommit env) s = snd (commit_media_path env s)"
| "react MediaStop s = request_audio_path_stop s"
| "react (WorkerExit env) s = rtp_worker_exit env s"
| "react Stop s = transport_stop s"
| "react (Start me) s = snd (transport_start me s)"
| "react (Endpoint e) s = s\<lparr>sdp := e\<rparr>"

inductive reachable :: "sip_state \<Rightarrow> bool" where
  start: "reachable (started_transport e listening)"
| step: "reachable s \<Longrightarrow> reachable (react i s)"

inductive_cases reachableE: "reachable s"

context transport_invariant
begin

lemma reacts: "P s \<Longrightarrow> P (react i s)"
  by (cases i)
    (simp_all add: invite ringing answer cancel bye final_response connected_identity sip_disconnect_def reset targeted udp stream
      pumped prepared expired welcomed media_prepared media_committed audio_stop media_exit restarted free)

lemma always: "reachable s \<Longrightarrow> (\<And>e listening. P (started_transport e listening)) \<Longrightarrow> P s"
  by (induction rule: reachable.induct) (simp_all add: reacts)

end

section \<open>Plausible timers\<close>

lemma answered_ok: "tx_ok t \<Longrightarrow> tx_ok ((wait_deadline t)\<lparr>tx_completed := True\<rparr>)"
  by (auto simp: tx_ok_def wait_deadline_def tx_empty_def)

lemma acknowledged_ok: "server_ok c \<Longrightarrow> server_ok (c\<lparr>cs_awaiting_ack := False\<rparr>)"
  by (simp add: server_ok_def)

lemmas media_task_defs = media_worker_cleanup_def quiesce_failed_worker_def close_media_session_def finish_audio_path_stop_def
  transport_stop_def transport_start_def close_tcp_flow_def do_effect_def Let_def

lemma timers_parts: "timers_ok s \<Longrightarrow> tx_ok (pending_invite s)" "timers_ok s \<Longrightarrow> tx_ok (pending_cancel s)"
  "timers_ok s \<Longrightarrow> server_ok (completed_invite s)"
  by (simp_all add: timers_ok_def)

interpretation timers: transport_invariant timers_ok
proof unfold_locales
  fix s :: sip_state and c
  show "timers_ok s \<Longrightarrow> timers_ok (reset_dialog s)" by (rule timers_reset)
qed (simp_all add: timers_ok_pending pump_rest timers_parts answered_ok acknowledged_ok media_task_defs)

lemma reachable_timers: "reachable s \<Longrightarrow> timers_ok s"
  by (rule timers.always) (simp_all add: started_transport_def timers_ok_def)

section \<open>Nothing without a dialog\<close>

text \<open>Without a dialog there is no media, no request under way, no deferred response and no BYE to come.\<close>

definition holds_nothing :: "sip_state \<Rightarrow> bool" where
  "holds_nothing s \<longleftrightarrow>
     \<not> media_active s \<and> \<not> outgoing_invite_pending s \<and> tx_empty (pending_invite s) \<and> tx_empty (pending_cancel s) \<and>
     tx_empty (pending_bye s) \<and> tx_empty (pending_update s) \<and> dr_response (pending_provisional s) = [] \<and>
     last_invite_via s = [] \<and> \<not> terminate_after_invite_ack s"

definition idle_clean :: "sip_state \<Rightarrow> bool" where
  "idle_clean s \<longleftrightarrow> (dlg_call_id s = [] \<longrightarrow> holds_nothing s)"

text \<open>What the media operations leave of the dialog: all of it, and no more media than before.\<close>

definition same_dialog :: "sip_state \<Rightarrow> sip_state \<Rightarrow> bool" where
  "same_dialog s t \<longleftrightarrow>
     dlg_call_id t = dlg_call_id s \<and> outgoing_invite_pending t = outgoing_invite_pending s \<and> (media_active t \<longrightarrow> media_active s) \<and>
     pending_invite t = pending_invite s \<and> pending_cancel t = pending_cancel s \<and> pending_bye t = pending_bye s \<and>
     pending_update t = pending_update s \<and> pending_provisional t = pending_provisional s \<and>
     last_invite_via t = last_invite_via s \<and> terminate_after_invite_ack t = terminate_after_invite_ack s"

lemma same_dialog_clean: "same_dialog s t \<Longrightarrow> idle_clean s \<Longrightarrow> idle_clean t"
  by (auto simp: same_dialog_def idle_clean_def holds_nothing_def)

lemma same_dialog_trans: "same_dialog s t \<Longrightarrow> same_dialog t u \<Longrightarrow> same_dialog s u"
  by (auto simp: same_dialog_def)

lemma same_dialog_media:
  "same_dialog s (request_audio_path_stop s)" "same_dialog s (media_worker_cleanup s)" "same_dialog s (quiesce_failed_worker s)"
  "same_dialog s (s\<lparr>media_lifecycle := m\<rparr>)" "same_dialog s (s\<lparr>rtp_task := b\<rparr>)" "same_dialog s (do_effect e s)"
  by (simp_all add: same_dialog_def request_audio_path_stop_def media_task_defs)

lemmas same_dialog_steps =
  same_dialog_trans [OF _ same_dialog_media(1)] same_dialog_trans [OF _ same_dialog_media(2)]
  same_dialog_trans [OF _ same_dialog_media(4)] same_dialog_trans [OF _ same_dialog_media(5)]
  same_dialog_trans [OF _ same_dialog_media(6)]

lemma same_dialog_restart: "same_dialog s (transport_stop s)" "same_dialog s (snd (transport_start me s))"
proof -
  have stop: "same_dialog s (transport_stop s)" for s
  proof -
    define s2 where "s2 = (close_tcp_flow (s\<lparr>transport_stopping := True, sip_running := False, tcp_connect_requested := False,
        tcp_pending := [], tcp_close_requested := True\<rparr>))\<lparr>sip_socket_open := False\<rparr>"
    have "same_dialog s s2" by (simp add: s2_def same_dialog_def close_tcp_flow_def)
    then show ?thesis unfolding transport_stop_def Let_def s2_def [symmetric]
      by (simp add: same_dialog_steps)
  qed
  show "same_dialog s (transport_stop s)" by (rule stop)
  have begun: "same_dialog s (s\<lparr>transport_stopping := False, media_lifecycle := MediaIdle, sip_running := True, sip_socket_open := True, rtp_quiesced := True\<rparr>)"
    by (simp add: same_dialog_def)
  show "same_dialog s (snd (transport_start me s))"
    using same_dialog_trans [OF begun stop] by (simp add: transport_start_def Let_def) (simp add: same_dialog_def do_effect_def)
qed

lemma reset_clean: "idle_clean (reset_dialog s)"
  by (simp add: idle_clean_def holds_nothing_def no_deferred_response_def)

lemma no_timers [simp]: "dr_response no_deferred_response = []"
  by (simp add: no_deferred_response_def)

lemma pump_keeps_call:
  "dlg_call_id (snd (pump_invite env s)) = dlg_call_id s" "dlg_call_id (snd (pump_cancel env s)) = dlg_call_id s"
  "dlg_call_id (snd (pump_bye env s)) = dlg_call_id s" "dlg_call_id (pump_update env s) = dlg_call_id s"
  "dlg_call_id (pump_provisional env s) = dlg_call_id s" "dlg_call_id (snd (pump_final_response env s)) = dlg_call_id s"
  using sent_from_fields(8) [OF pump_transaction_sent]
  by (simp_all add: pump_invite_def pump_cancel_def pump_bye_def pump_update_def pump_provisional_def pump_final_response_def
      prod.case_eq_if bool.case_eq_if Let_def)

lemma idle_pump:
  assumes "holds_nothing s" "dlg_call_id s = []"
  shows "fst (pump_timers env s) = (False, False, False)" "holds_nothing (snd (pump_timers env s))"
proof -
  have r: "pump_invite env s = (False, s)" "pump_cancel env s = (False, s)" "pump_bye env s = (False, s)" "pump_update env s = s"
    "pump_provisional env s = s"
    using assms(1) by (simp_all add: holds_nothing_def pump_invite_def pump_cancel_def pump_bye_def pump_update_def pump_empty
        pump_provisional_def Let_def)
  have f: "\<not> fst (pump_final_response env s)" "holds_nothing (snd (pump_final_response env s))"
    using assms by (simp_all add: pump_final_response_def holds_nothing_def Let_def)
  show "fst (pump_timers env s) = (False, False, False)" "holds_nothing (snd (pump_timers env s))"
    using f by (simp_all add: pump_timers_def r prod.case_eq_if Let_def expire_completed_def holds_nothing_def)
qed

lemma pump_timers_call: "dlg_call_id (snd (pump_timers env s)) = dlg_call_id s"
  unfolding pump_timers_def Let_def prod.case_eq_if by (simp add: expire_completed_def pump_keeps_call)

lemma bye_call: "dlg_call_id (snd (send_bye_unlocked env cid s)) = dlg_call_id s"
  by (simp add: send_bye_unlocked_def prod.case_eq_if request_audio_path_stop_def close_media_session_def
      finish_audio_path_stop_def Let_def)

interpretation idle: dialog_invariant idle_clean
proof unfold_locales
  fix s :: sip_state
  show "idle_clean (reset_dialog s)" by (rule reset_clean)
  show "idle_clean s \<Longrightarrow> idle_clean (request_audio_path_stop s)" by (rule same_dialog_clean [OF same_dialog_media(1)])
qed (auto simp: idle_clean_def holds_nothing_def)

lemma pump_clean: "idle_clean s \<Longrightarrow> idle_clean (pump_udp_retransmits env s)"
proof (cases "dlg_call_id s = []")
  case True
  then show "idle_clean s \<Longrightarrow> ?thesis"
    using idle_pump [of s env] by (simp add: pump_udp_retransmits_def idle_clean_def prod.case_eq_if)
next
  case False
  have e: "idle_clean (end_terminal cid t)" "idle_clean (end_invite cid t)" for cid t
    using reset_clean [of t] by (simp_all add: end_terminal_def end_invite_def idle_clean_def holds_nothing_def emit_signal_def do_effect_def)
  have u: "idle_clean (end_unacknowledged env cid t)" if "idle_clean t" for cid t
    using that by (simp add: end_unacknowledged_def prod.case_eq_if idle.bye reset_clean)
  show "idle_clean s \<Longrightarrow> ?thesis"
    using e u pump_timers_call [of env s] False unfolding pump_udp_retransmits_def Let_def prod.case_eq_if
    by (simp add: idle_clean_def)
qed

interpretation idle_task: transport_invariant idle_clean
proof unfold_locales
  fix env me and s :: sip_state
  show "idle_clean s \<Longrightarrow> idle_clean (pump_udp_retransmits env s)" by (rule pump_clean)
  show "idle_clean s \<Longrightarrow> idle_clean (media_worker_cleanup s)" by (rule same_dialog_clean [OF same_dialog_media(2)])
  show "idle_clean s \<Longrightarrow> idle_clean (media_worker_cleanup (quiesce_failed_worker s))"
    by (rule same_dialog_clean [OF same_dialog_trans [OF same_dialog_media(3) same_dialog_media(2)]])
  show "idle_clean s \<Longrightarrow> idle_clean (transport_stop s)" "idle_clean s \<Longrightarrow> idle_clean (snd (transport_start me s))"
    by (rule same_dialog_clean [OF same_dialog_restart(1)], assumption, rule same_dialog_clean [OF same_dialog_restart(2)])
qed (simp_all add: idle_clean_def holds_nothing_def)

lemma reachable_clean: "reachable s \<Longrightarrow> idle_clean s"
  by (rule idle_task.always) (simp_all add: started_transport_def idle_clean_def holds_nothing_def)

section \<open>Properties of reachable states\<close>

text \<open>A transport that was switched to TCP and told to disconnect.\<close>

definition idle_transport :: sip_state where
  "idle_transport = react Disconnect (react (Signaling True) (started_transport sample_endpoint 5060))"

lemma idle_facts: "reachable idle_transport" "dlg_call_id idle_transport = []"
  unfolding idle_transport_def
  by (intro reachable.intros)
    (simp add: sip_disconnect_def set_sip_signaling_transport_def started_transport_def Let_def)

text \<open>
  C2: Whatever the state machine asked for, whatever arrived over UDP or TCP, valid or not, and whenever the timers
  were pumped: a transport without a dialog holds nothing of a call. There is no media, no request under way, no
  deferred response, no BYE to come; the signaling is owned only by a final response that waits for its ACK.
\<close>

theorem idle_transport_holds_nothing:
  assumes "reachable s" "dlg_call_id s = []"
  shows "holds_nothing s \<and> (signaling_owned s \<longleftrightarrow> cs_awaiting_ack (completed_invite s))"
  using reachable_clean [OF assms(1)] assms(2)
  by (auto simp: idle_clean_def holds_nothing_def signaling_owned_def terminal_transaction_owned_def)

theorem idle_transport_holds_nothing_witness: "holds_nothing idle_transport"
  using idle_transport_holds_nothing [OF idle_facts] by (rule conjunct1)

text \<open>
  C21: The signaling task never spins. In every state the transport can reach, once the timers have been pumped
  nothing is due any more: the task either waits for a socket alone or sleeps for at least a millisecond. Every
  retransmission lies before its deadline, so no deadline is slept over.
\<close>

theorem reachable_task_never_spins:
  assumes "reachable s"
  shows "sip_sleep (sip_now env) (pump_udp_retransmits env s) \<noteq> Some 0 \<and> timers_ok s"
proof -
  have t: "timers_ok s" by (rule reachable_timers [OF assms])
  have "nothing_due (sip_now env) (pump_udp_retransmits env s)" by (rule pump_rest(2) [OF t])
  then show ?thesis using t shortest_wait_in wait_pos unfolding sip_sleep_def nothing_due_def by (metis less_irrefl)
qed

theorem reachable_task_never_spins_witness: "sip_sleep 100 (pump_udp_retransmits reliable_env idle_transport) \<noteq> Some 0"
  using reachable_task_never_spins [OF idle_facts(1), of reliable_env] by (simp add: reliable_env_def)

end
