(* ===== verification/SipSegments.thy ===== *)
theory SipSegments
  imports SipReach
begin

text \<open>
  The TCP stream has no boundaries: however its bytes are split over the calls of \<open>recv\<close> and the wake-ups of the
  task, the transport sees the same messages and ends in the same state.
\<close>

section \<open>The buffer while messages are handled\<close>

text \<open>No message handler touches the receive buffer.\<close>

interpretation buffer: dialog_invariant "\<lambda>s. tcp_rx s = x" for x
  by unfold_locales
    (simp_all add: request_audio_path_stop_def close_media_session_def finish_audio_path_stop_def Let_def)

lemma buffer_kept: "tcp_rx (handle_sip_datagram env msg src sport s) = tcp_rx s"
  by (rule buffer.datagram) (rule refl)

lemma emptied [simp]: "tcp_rx s = [] \<Longrightarrow> s\<lparr>tcp_rx := []\<rparr> = s"
  by (cases s) simp

lemma lost [simp]: "\<not> tcp_connected (handle_tcp_peer_loss s)"
  by (simp add: handle_tcp_peer_loss_def drop_tcp_records_def close_tcp_flow_def do_effect_def Let_def)

section \<open>More bytes\<close>

lemma find_sub_more: "find_sub p b = Some i \<Longrightarrow> find_sub p (b @ m) = Some i"
proof (induction b arbitrary: i)
  case Nil
  then show ?case by (cases m) (auto split: if_splits)
next
  case (Cons c b)
  show ?case
  proof (cases "starts_with p (c # b)")
    case True
    then have "starts_with p ((c # b) @ m)" unfolding starts_with_iff by (metis append_assoc)
    then show ?thesis using True Cons.prems by simp
  next
    case False
    then obtain j where j: "find_sub p b = Some j" "i = Suc j" using Cons.prems by auto
    have "\<not> starts_with p ((c # b) @ m)"
    proof
      assume "starts_with p ((c # b) @ m)"
      then obtain r where r: "(c # b) @ m = p @ r" by (auto simp: starts_with_iff)
      have l: "length p \<le> length (c # b)" using find_sub_bound [OF j(1)] by simp
      from r obtain us where "c # b = p @ us \<or> (c # b) @ us = p" unfolding append_eq_append_conv2 by blast
      then have "\<exists>q. c # b = p @ q" using l by (cases us) auto
      then show False using False by (metis starts_with_iff)
    qed
    then show ?thesis using Cons.IH [OF j(1)] j(2) by simp
  qed
qed

text \<open>A message, or the refusal of one, does not depend on the bytes after it.\<close>

lemma next_frame_more: "next_frame buf = Frame n \<Longrightarrow> next_frame (buf @ m) = Frame n" "next_frame buf = BadFrame \<Longrightarrow> next_frame (buf @ m) = BadFrame"
proof -
  have h: "find_sub HEADER_END (buf @ m) = Some sep" "sip_content_length (buf @ m) = sip_content_length buf"
    if "find_sub HEADER_END buf = Some sep" for sep
    using find_sub_more [OF that, of m] find_sub_bound [OF that] that by (simp_all add: sip_content_length_def)
  show "next_frame buf = Frame n \<Longrightarrow> next_frame (buf @ m) = Frame n" "next_frame buf = BadFrame \<Longrightarrow> next_frame (buf @ m) = BadFrame"
    by (auto simp: next_frame_def h split: option.splits if_splits)
qed

lemma drain_more:
  assumes "tcp_rx s = []"
  shows "drain_stream env src sport gone (buf @ m) s =
    (let t = drain_stream env src sport False buf s
     in if tcp_connected t then drain_stream env src sport gone (tcp_rx t @ m) (t\<lparr>tcp_rx := []\<rparr>) else t)"
  using assms
proof (induction env src sport "False" buf s rule: drain_stream.induct)
  case (1 env src sport buf s)
  note here = drain_stream.simps [of env src sport False buf s] drain_stream.simps [of env src sport gone "buf @ m" s]
  show ?case
  proof (cases "tcp_connected s")
    case True
    show ?thesis
    proof (cases "next_frame buf")
      case NoFrame
      then show ?thesis using True 1(2) by (simp add: here(1) Let_def)
    next
      case BadFrame
      then show ?thesis using True next_frame_more(2) [OF BadFrame, of m] by (simp add: here Let_def)
    next
      case (Frame n)
      have "n \<le> length buf" using next_frame_bound [OF Frame] by simp
      moreover have "tcp_rx (handle_sip_datagram env (take n buf) src sport s) = []" using 1(2) by (simp add: buffer_kept)
      ultimately show ?thesis
        using True Frame next_frame_more(1) [OF Frame, of m] 1(1) [OF _ Frame] by (simp add: here)
    qed
  qed (simp add: here)
qed

section \<open>Reads\<close>

lemma receive_all: "length (buf @ concat ps) \<le> MAX_SIP_TCP_RX_BUFFER \<Longrightarrow> receive_pieces ps buf = (True, buf @ concat ps)"
  by (induction ps arbitrary: buf) simp_all

lemma drained_rest:
  assumes "tcp_rx s = []"
  shows "length (tcp_rx (drain_stream env src sport False buf s)) \<le> length buf"
  using assms
proof (induction env src sport "False" buf s rule: drain_stream.induct)
  case (1 env src sport buf s)
  have l: "tcp_rx (handle_tcp_peer_loss t) = []" for t
    by (simp add: handle_tcp_peer_loss_def drop_tcp_records_def close_tcp_flow_def do_effect_def Let_def)
  show ?case
  proof (cases "next_frame buf")
    case (Frame n)
    have "tcp_rx (handle_sip_datagram env (take n buf) src sport s) = []" using 1(2) by (simp add: buffer_kept)
    then show ?thesis using 1(1) [OF _ Frame] 1(2) by (fastforce simp: drain_stream.simps [of env src sport False buf s] Frame)
  qed (simp_all add: drain_stream.simps [of env src sport False buf s] 1(2) l)
qed

lemma one_read:
  assumes "length (tcp_rx s @ concat ps) \<le> MAX_SIP_TCP_RX_BUFFER"
  shows "handle_sip_stream env src sport ps gone s =
    (if tcp_connected s then drain_stream env src sport gone (tcp_rx s @ concat ps) (s\<lparr>tcp_rx := []\<rparr>) else s)"
  using receive_all [OF assms] by (simp add: handle_sip_stream_def)

lemma two_reads:
  assumes "length (tcp_rx s @ concat ps @ m) \<le> MAX_SIP_TCP_RX_BUFFER"
  shows "handle_sip_stream env src sport [m] gone (handle_sip_stream env src sport ps False s) =
      handle_sip_stream env src sport [concat ps @ m] gone s"
    "tcp_connected (handle_sip_stream env src sport ps False s) \<Longrightarrow>
      length (tcp_rx (handle_sip_stream env src sport ps False s) @ m) \<le> MAX_SIP_TCP_RX_BUFFER"
proof -
  let ?s = "s\<lparr>tcp_rx := []\<rparr>"
  let ?t = "drain_stream env src sport False (tcp_rx s @ concat ps) ?s"
  have r: "handle_sip_stream env src sport ps False s = (if tcp_connected s then ?t else s)" using assms by (intro one_read) simp
  have b: "length (tcp_rx ?t @ m) \<le> MAX_SIP_TCP_RX_BUFFER"
    using assms drained_rest [of ?s env src sport "tcp_rx s @ concat ps"] by simp
  show "tcp_connected (handle_sip_stream env src sport ps False s) \<Longrightarrow>
      length (tcp_rx (handle_sip_stream env src sport ps False s) @ m) \<le> MAX_SIP_TCP_RX_BUFFER"
    using b by (cases "tcp_connected s") (simp_all only: r if_True if_False simp_thms)
  have w: "handle_sip_stream env src sport [concat ps @ m] gone s =
      (if tcp_connected s then drain_stream env src sport gone ((tcp_rx s @ concat ps) @ m) ?s else s)"
    using assms by (subst one_read) simp_all
  show "handle_sip_stream env src sport [m] gone (handle_sip_stream env src sport ps False s) =
      handle_sip_stream env src sport [concat ps @ m] gone s"
  proof (cases "tcp_connected s")
    case True
    have "handle_sip_stream env src sport [m] gone ?t = (if tcp_connected ?t then drain_stream env src sport gone (tcp_rx ?t @ m) (?t\<lparr>tcp_rx := []\<rparr>) else ?t)"
      using b by (subst one_read) simp_all
    then show ?thesis unfolding r w using drain_more [of ?s env src sport gone "tcp_rx s @ concat ps" m] True by (simp add: Let_def)
  qed (simp add: r w handle_sip_stream_def)
qed

text \<open>Any number of reads, each in any number of pieces.\<close>

definition reads :: "sip_env \<Rightarrow> u32 \<Rightarrow> u16 \<Rightarrow> string list list \<Rightarrow> sip_state \<Rightarrow> sip_state" where
  "reads env src sport pss s = fold (\<lambda>ps. handle_sip_stream env src sport ps False) pss s"

lemma no_reads: "\<not> tcp_connected s \<Longrightarrow> reads env src sport pss s = s"
  unfolding reads_def by (induction pss) (simp_all add: handle_sip_stream_def)

text \<open>
  C3: The segmentation of a TCP stream is invisible. However bytes that fit the receive buffer are split over
  wake-ups of the task and calls of \<open>recv\<close>, also in the middle of a message, the transport sends and
  signals the same and ends in the same state as when they arrive at once, also when the peer closes after them.
\<close>

theorem segmentation_invisible:
  assumes "length (tcp_rx s @ concat (concat pss @ ps)) \<le> MAX_SIP_TCP_RX_BUFFER"
  shows "handle_sip_stream env src sport ps gone (reads env src sport pss s) =
    handle_sip_stream env src sport [concat (concat pss @ ps)] gone s"
  using assms
proof (induction pss arbitrary: s)
  case Nil
  then show ?case by (simp add: reads_def one_read)
next
  case (Cons p pss)
  let ?t = "handle_sip_stream env src sport p False s" and ?m = "concat (concat pss @ ps)"
  have l: "length (tcp_rx s @ concat p @ ?m) \<le> MAX_SIP_TCP_RX_BUFFER" using Cons.prems by simp
  have r: "reads env src sport (p # pss) s = reads env src sport pss ?t" by (simp add: reads_def)
  have "handle_sip_stream env src sport ps gone (reads env src sport pss ?t) = handle_sip_stream env src sport [?m] gone ?t"
  proof (cases "tcp_connected ?t")
    case True
    show ?thesis by (rule Cons.IH) (rule two_reads(2) [OF l True])
  next
    case False
    then show ?thesis by (simp only: no_reads [OF False]) (simp add: handle_sip_stream_def)
  qed
  then show ?case using two_reads(1) [OF l, of env src sport gone] unfolding r by simp
qed

text \<open>A request in two reads of two pieces each.\<close>

definition connected_transport :: sip_state where
  "connected_transport = (started_transport sample_endpoint 5060)\<lparr>tcp_connected := True, tcp_peer := 1, remote_sip_tcp := True\<rparr>"

theorem segmentation_invisible_witness:
  "handle_sip_stream reliable_env 1 5060 [''IP/'', ''2.0''] True (reads reliable_env 1 5060 [[''OPT'', ''IONS sip:a S'']] connected_transport) =
   handle_sip_stream reliable_env 1 5060 [''OPTIONS sip:a SIP/2.0''] True connected_transport"
  using segmentation_invisible [of connected_transport "[[''OPT'', ''IONS sip:a S'']]" "[''IP/'', ''2.0'']" reliable_env 1 5060 True]
  by (simp add: connected_transport_def started_transport_def MAX_SIP_TCP_RX_BUFFER_def)

end
