(* ===== verification/SipTermination.thy ===== *)
theory SipTermination
  imports SipReach
begin

text \<open>
  Ending a call that was accepted here: the BYE waits for the ACK of the 200, the ACK sends it, and what
  happens when the ACK comes too late. A request that is sent again is answered again, and nothing else.
\<close>

section \<open>A BYE on the wire\<close>

lemma stop_selects [simp]:
  "remote_sip_tcp (request_audio_path_stop s) = remote_sip_tcp s" "remote_ip (request_audio_path_stop s) = remote_ip s"
  "remote_sip_port (request_audio_path_stop s) = remote_sip_port s" "remote_target_uri (request_audio_path_stop s) = remote_target_uri s"
  "remote_uri (request_audio_path_stop s) = remote_uri s" "dlg_call_id (request_audio_path_stop s) = dlg_call_id s"
  "sip_socket_open (request_audio_path_stop s) = sip_socket_open s" "pending_bye (request_audio_path_stop s) = pending_bye s"
  "pending_cancel (request_audio_path_stop s) = pending_cancel s" "pending_update (request_audio_path_stop s) = pending_update s"
  "pending_invite (request_audio_path_stop s) = pending_invite s" "pending_provisional (request_audio_path_stop s) = pending_provisional s"
  "outgoing_invite_pending (request_audio_path_stop s) = outgoing_invite_pending s"
  "completed_control (request_audio_path_stop s) = completed_control s"
  "completed_invite_client (request_audio_path_stop s) = completed_invite_client s"
  "terminate_after_invite_ack (request_audio_path_stop s) = terminate_after_invite_ack s"
  "last_invite_cseq_number (request_audio_path_stop s) = last_invite_cseq_number s"
  "\<not> media_active (request_audio_path_stop s)"
  by (simp_all add: request_audio_path_stop_def close_media_session_def finish_audio_path_stop_def Let_def)

lemma target_same:
  "remote_sip_tcp t = remote_sip_tcp s \<Longrightarrow> remote_ip t = remote_ip s \<Longrightarrow> remote_sip_port t = remote_sip_port s \<Longrightarrow>
   remote_target_uri t = remote_target_uri s \<Longrightarrow> remote_uri t = remote_uri s \<Longrightarrow> request_target env t = request_target env s"
  by (simp only: request_target_def request_uri_of_def)

lemma bye_on_the_wire:
  assumes "\<not> remote_sip_tcp s" "sip_socket_open s" "all_taken env" "remote_ip s \<noteq> 0" "remote_sip_port s \<noteq> 0" "dlg_call_id s \<noteq> []"
    "request_target env s = (dst, dport)" "dst \<noteq> 0" "dport \<noteq> 0"
  shows "\<exists>bye. starts_with ''BYE '' bye \<and> fst (send_request env ''BYE'' [] no_options s) \<and>
    sip_effects (snd (send_request env ''BYE'' [] no_options s)) = sip_effects s @ [UdpOut dst dport bye] \<and>
    pending_bye (snd (send_request env ''BYE'' [] no_options s)) = new_transaction (sip_now env) False bye dst dport"
proof -
  obtain br s1 where 1: "request_branch env ''BYE'' no_options s = (br, s1)" by fastforce
  have s1: "s1 = s\<lparr>randoms := randoms s + 1\<rparr>"
    using 1 by (auto simp: request_branch_def no_options_def fresh_branch_def fresh_token_def next_random_def)
  have 2: "request_target env s1 = (dst, dport)" using assms(7) target_same [of s1 s env] by (simp add: s1)
  define s2 where "s2 = s1\<lparr>dlg_cseq := dlg_cseq s1 + 1\<rparr>"
  define bye where "bye = request_text env ''BYE'' (request_uri_of env s1) br ''BYE'' (dlg_cseq s1) [] s2"
  have b: "starts_with ''BYE '' bye" unfolding bye_def request_text_def starts_with_iff by (rule exI) simp
  then have n: "bye \<noteq> []" by (auto simp: starts_with_iff)
  have 4: "send_sip env bye dst dport s2 = (True, do_effect (UdpOut dst dport bye) (s2\<lparr>sip_sends := sip_sends s2 + 1\<rparr>))"
    using assms(1-3,8,9) by (simp add: send_sip_def send_sip_udp_def s2_def s1 all_taken_def)
  have r: "send_request env ''BYE'' [] no_options s =
      (True, remember_udp_transaction env ''BYE'' bye dst dport
        (mark_sip_event ByeEvent 0 (do_effect (UdpOut dst dport bye) (s2\<lparr>sip_sends := sip_sends s2 + 1\<rparr>))))"
    unfolding send_request_def Let_def 1 prod.case 2
    using assms(1,4-6) 4 by (simp add: no_options_def sip_event_from_method_def transaction_method_def flip: s2_def bye_def)
  show ?thesis
    using b n assms(1,8,9) by (intro exI [of _ bye]) (simp add: r remember_udp_transaction_def mark_sip_event_def do_effect_def s2_def s1 Let_def)
qed

section \<open>Hanging up before the ACK\<close>

text \<open>A call accepted over UDP whose 200 still waits for its ACK, and where its BYE goes.\<close>

definition accepted_unconfirmed :: "sip_state \<Rightarrow> bool" where
  "accepted_unconfirmed s \<longleftrightarrow>
     unconfirmed_uas s \<and> cs_response (completed_invite s) \<noteq> [] \<and> \<not> remote_sip_tcp s \<and> sip_socket_open s \<and>
     remote_ip s \<noteq> 0 \<and> remote_sip_port s \<noteq> 0"

lemma hang_up:
  assumes "unconfirmed_uas s"
  shows "send_bye_unlocked env (dlg_call_id s) s = (True, request_audio_path_stop (s\<lparr>terminate_after_invite_ack := True\<rparr>))"
  using assms by (simp add: send_bye_unlocked_def unconfirmed_uas_def Let_def)

text \<open>
  C9: A call accepted here and hung up before the caller's ACK. The BYE is not sent before the ACK, which the
  protocol forbids: hanging up stops the media, sends nothing and is remembered. The ACK of the 200 then sends exactly one message, the
  BYE, and its transaction retransmits it until it is answered; no signal is raised for either.
\<close>

theorem bye_waits_for_ack:
  assumes "accepted_unconfirmed s" "request_target env s = (dst, dport)" "dst \<noteq> 0" "dport \<noteq> 0" "all_taken env"
    "ack_matches (completed_invite s) ack src False" "\<not> time_reached (sip_now env) (cs_completed_ms (completed_invite s) + 32000)"
  shows "\<exists>t bye. send_bye_unlocked env0 (dlg_call_id s) s = (True, t) \<and> sip_effects t = sip_effects s \<and> \<not> media_active t \<and>
    terminal_transaction_owned t \<and> starts_with ''BYE '' bye \<and>
    sip_effects (handle_ack env ack src t) = sip_effects s @ [UdpOut dst dport bye] \<and>
    pending_bye (handle_ack env ack src t) = new_transaction (sip_now env) False bye dst dport"
proof -
  note a = assms(1) [unfolded accepted_unconfirmed_def]
  then have u: "cs_status (completed_invite s) < 300" "dlg_call_id s \<noteq> []" by (simp_all add: unconfirmed_uas_def Let_def)
  define t where "t = request_audio_path_stop (s\<lparr>terminate_after_invite_ack := True\<rparr>)"
  define w where "w = t\<lparr>completed_invite := (completed_invite s)\<lparr>cs_awaiting_ack := False\<rparr>, terminate_after_invite_ack := False,
    pending_update := no_transaction\<rparr>"
  have t: "completed_invite t = completed_invite s" "remote_sip_tcp t = remote_sip_tcp s" "terminate_after_invite_ack t"
    "dlg_call_id t = dlg_call_id s" "sip_effects t = sip_effects s" "\<not> media_active t"
    by (simp_all add: t_def stop_fields)
  have k: "acknowledge_completed_invite env ack src t =
      (cs_status (completed_invite s), True, t\<lparr>completed_invite := (completed_invite s)\<lparr>cs_awaiting_ack := False\<rparr>, terminate_after_invite_ack := False\<rparr>)"
    using a u(1) assms(6,7) by (simp add: acknowledge_completed_invite_def t Let_def)
  have g: "request_target env w = (dst, dport)"
    using assms(2) target_same [of w s env] by (simp add: w_def t_def)
  have "\<not> remote_sip_tcp w" "sip_socket_open w" "remote_ip w \<noteq> 0" "remote_sip_port w \<noteq> 0" "dlg_call_id w \<noteq> []" "sip_effects w = sip_effects s"
    using a u(2) by (simp_all add: w_def t_def stop_fields)
  then obtain bye where bye: "starts_with ''BYE '' bye" "fst (send_request env ''BYE'' [] no_options w)"
    "sip_effects (snd (send_request env ''BYE'' [] no_options w)) = sip_effects s @ [UdpOut dst dport bye]"
    "pending_bye (snd (send_request env ''BYE'' [] no_options w)) = new_transaction (sip_now env) False bye dst dport"
    using bye_on_the_wire [of w env dst dport] g assms(3-5) by metis
  have "handle_ack env ack src t = request_audio_path_stop (snd (send_request env ''BYE'' [] no_options w))"
    using bye(2) u(2) unfolding handle_ack_def k prod.case
    by (simp add: send_bye_unlocked_def unconfirmed_uas_def t prod.case_eq_if Let_def flip: w_def)
  then show ?thesis
    using bye hang_up [of s env0] a t by (intro exI [of _ t] exI [of _ bye]) (simp add: t_def stop_fields terminal_transaction_owned_def)
qed

section \<open>The ACK that comes too late\<close>

text \<open>Nothing is under way but the end of the call.\<close>

definition only_ending :: "sip_state \<Rightarrow> bool" where
  "only_ending s \<longleftrightarrow>
     terminate_after_invite_ack s \<and> \<not> outgoing_invite_pending s \<and> tx_empty (pending_cancel s) \<and> tx_empty (pending_bye s) \<and>
     tx_empty (pending_update s) \<and> dr_response (pending_provisional s) = [] \<and> \<not> cs_awaiting_ack (completed_invite s)"

lemma ending_pump: "only_ending s \<Longrightarrow> pump_udp_retransmits env s = expire_completed env s"
  by (simp add: only_ending_def pump_udp_retransmits_def pump_timers_def pump_invite_def pump_cancel_def pump_bye_def pump_update_def
      pump_provisional_def pump_final_response_def pump_empty Let_def)

lemma ending_forever:
  assumes "only_ending s"
  shows "only_ending (fold pump_udp_retransmits envs s) \<and> dlg_call_id (fold pump_udp_retransmits envs s) = dlg_call_id s \<and>
    sip_effects (fold pump_udp_retransmits envs s) = sip_effects s"
  using assms
proof (induction envs arbitrary: s)
  case (Cons env envs)
  have "only_ending (expire_completed env s)"
    using Cons.prems by (simp add: only_ending_def expire_completed_def expire_server_def no_completed_server_def)
  then show ?case using Cons.IH [of "expire_completed env s"] by (simp add: ending_pump [OF Cons.prems] expire_completed_def)
qed simp

text \<open>
  C36: An ACK that arrives once the 200 has expired, but before the timers are pumped, strands the call that was hung
  up. Any ACK at all, of whatever sender, clears the expired response before it is matched; the task then
  finds nothing that waits for an ACK. The call keeps its intent to end for ever: no BYE is sent, no signal is raised,
  the call identifier stays, \<open>disconnect\<close> does nothing and no new call can be placed.
\<close>

theorem late_ack_strands_call:
  assumes "unconfirmed_uas s" "cs_response (completed_invite s) \<noteq> []" "\<not> outgoing_invite_pending s" "tx_empty (pending_cancel s)"
    "tx_empty (pending_bye s)" "tx_empty (pending_update s)" "dr_response (pending_provisional s) = []"
    "time_reached (sip_now env) (cs_completed_ms (completed_invite s) + 32000)"
    "v = fold pump_udp_retransmits envs (handle_ack env ack src (snd (send_bye_unlocked env0 (dlg_call_id s) s)))"
  shows "sip_effects v = sip_effects s \<and> dlg_call_id v = dlg_call_id s \<and> terminal_transaction_owned v \<and>
    sip_disconnect v = v \<and> \<not> fst (send_invite env1 cid from to v)"
proof -
  define t where "t = request_audio_path_stop (s\<lparr>terminate_after_invite_ack := True\<rparr>)"
  have t: "completed_invite t = completed_invite s" "sip_effects t = sip_effects s" "dlg_call_id t = dlg_call_id s"
    by (simp_all add: t_def stop_fields)
  let ?u = "t\<lparr>completed_invite := no_completed_server\<rparr>"
  have k: "handle_ack env ack src t = ?u"
    using assms(2,8) by (simp add: handle_ack_def acknowledge_completed_invite_def t Let_def)
  have "only_ending ?u"
    using assms(3-7) by (simp add: only_ending_def t_def no_completed_server_def)
  then have e: "only_ending (fold pump_udp_retransmits envs ?u)" "dlg_call_id (fold pump_udp_retransmits envs ?u) = dlg_call_id ?u"
    "sip_effects (fold pump_udp_retransmits envs ?u) = sip_effects ?u"
    using ending_forever [of ?u envs] by blast+
  have v: "v = fold pump_udp_retransmits envs ?u"
    unfolding assms(9) by (simp only: hang_up [OF assms(1)] snd_conv k flip: t_def)
  have "sip_effects v = sip_effects s" "dlg_call_id v = dlg_call_id s" "terminate_after_invite_ack v"
    using e unfolding v by (simp_all add: t only_ending_def)
  then show ?thesis by (simp add: terminal_transaction_owned_def sip_disconnect_def send_invite_def)
qed

text \<open>A call of 10.0.0.1 answered at time 50.\<close>

definition ack_of_call :: string where
  "ack_of_call = ''ACK sip:phone SIP/2.0'' @ CRLF @ ''Call-ID: call'' @ CRLF @ ''CSeq: 1 ACK'' @ HEADER_END"

definition answered_call :: sip_state where
  "answered_call = (started_transport sample_endpoint 5060)
     \<lparr>remote_ip := 167772161, dlg_call_id := ''call'', media_active := True,
      last_invite_cseq_number := cseq_number (header_value ack_of_call ''CSeq''),
      completed_invite := no_completed_server
        \<lparr>cs_method := ''INVITE'', cs_call_id := ''call'', cs_response := ''SIP/2.0 200 OK'', cs_status := 200, cs_udp := True,
         cs_peer_ip := 167772161, cs_completed_ms := 50, cs_awaiting_ack := True,
         cs_from_tag := tag_from_header (header_value ack_of_call ''From''), cs_to_tag := tag_from_header (header_value ack_of_call ''To''),
         cs_cseq := cseq_number (header_value ack_of_call ''CSeq'')\<rparr>\<rparr>"

lemma answered_facts:
  "accepted_unconfirmed answered_call" "\<not> outgoing_invite_pending answered_call" "tx_empty (pending_cancel answered_call)"
  "tx_empty (pending_bye answered_call)" "tx_empty (pending_update answered_call)"
  "dr_response (pending_provisional answered_call) = []" "cs_completed_ms (completed_invite answered_call) = 50"
  "sip_effects answered_call = []"
  by (simp_all add: answered_call_def started_transport_def accepted_unconfirmed_def unconfirmed_uas_def)

theorem late_ack_strands_call_witness:
  "\<not> fst (send_invite reliable_env ''next'' ([], []) ([], [])
     (fold pump_udp_retransmits [reliable_env] (handle_ack (reliable_env\<lparr>sip_now := 32060\<rparr>) ack_of_call 7
       (snd (send_bye_unlocked reliable_env (dlg_call_id answered_call) answered_call)))))"
proof -
  have "unconfirmed_uas answered_call" "cs_response (completed_invite answered_call) \<noteq> []"
    using answered_facts(1) by (simp_all add: accepted_unconfirmed_def)
  moreover have "time_reached (sip_now (reliable_env\<lparr>sip_now := 32060\<rparr>)) (cs_completed_ms (completed_invite answered_call) + 32000)"
    by (simp add: answered_facts(7) time_reached_iff)
  ultimately show ?thesis using late_ack_strands_call [OF _ _ answered_facts(2-6)] by blast
qed

lemma ack_facts: "cseq_method (header_value ack_of_call ''CSeq'') = ''ACK''" "header_value ack_of_call ''Call-ID'' = ''call''"
  by code_simp+

lemma unknown_host: "sip_uri_ipv4_target (\<lambda>host. None) uri = None"
  by (simp add: sip_uri_ipv4_target_def Let_def split: option.split)

theorem bye_waits_for_ack_witness:
  "\<exists>t bye. send_bye_unlocked reliable_env (dlg_call_id answered_call) answered_call = (True, t) \<and> sip_effects t = [] \<and>
    sip_effects (handle_ack reliable_env ack_of_call 167772161 t) = [UdpOut 167772161 5060 bye]"
proof -
  have g: "request_target reliable_env answered_call = (167772161, 5060)"
    by (simp add: request_target_def reliable_env_def unknown_host) (simp add: answered_call_def started_transport_def)
  have m: "ack_matches (completed_invite answered_call) ack_of_call 167772161 False"
    by (simp add: ack_matches_def ack_facts answered_call_def)
  have w: "\<not> time_reached (sip_now reliable_env) (cs_completed_ms (completed_invite answered_call) + 32000)"
    by (simp add: answered_facts(7) reliable_env_def time_reached_iff)
  show ?thesis
    using bye_waits_for_ack [OF answered_facts(1) g _ _ reliable_taken m w, of reliable_env] by (auto simp: answered_facts(8))
qed

end
