(* ===== verification/SipReplay.thy ===== *)
theory SipReplay
  imports SipTermination SipFraming
begin

text \<open>
  Requests over UDP may arrive more than once. A final response to a request in the dialog is remembered, and
  the same request is answered from it: with the same bytes, without being handled again.
\<close>

section \<open>A response that is remembered\<close>

lemma dec_200: "dec_word (200 :: u16) = ''200''"
  by code_simp

lemma response_200:
  fixes rest :: string
  shows "parse_decimal_u32 (substr (''SIP/2.0 '' @ ''200'' @ rest) 8 3) 699 = Some 200"
proof -
  have "substr (''SIP/2.0 '' @ ''200'' @ rest) 8 3 = dec 200" by (simp add: substr_def) code_simp
  then show ?thesis by (simp only:) (subst parse_dec, simp_all)
qed

lemma response_start: "\<exists>rest. response_text f tag s = ''SIP/2.0 '' @ dec_word (rf_status f) @ '' '' @ rf_reason f @ CRLF @ rest"
  unfolding response_text_def Let_def by (rule exI) (rule refl)

text \<open>What a request over UDP carries that is answered statelessly and remembered.\<close>

definition answerable :: "string \<Rightarrow> string \<Rightarrow> bool" where
  "answerable msg m \<longleftrightarrow>
     header_values msg ''Via'' \<noteq> [] \<and> header_value msg ''From'' \<noteq> [] \<and> header_value msg ''To'' \<noteq> [] \<and>
     header_value msg ''Call-ID'' \<noteq> [] \<and> header_value msg ''CSeq'' \<noteq> [] \<and> cseq_method (header_value msg ''CSeq'') = m \<and>
     cseq_number (header_value msg ''CSeq'') \<noteq> 0 \<and> (m = ''CANCEL'' \<or> m = ''BYE'' \<or> m = ''UPDATE'')"

lemma ok_remembered:
  assumes "answerable msg m" "\<not> remote_sip_tcp s" "sip_socket_open s" "all_taken env" "src \<noteq> 0" "sport \<noteq> 0"
    "t = snd (send_stateless_response env msg src sport 200 ''OK'' [] True None s)"
  shows "\<exists>resp. resp \<noteq> [] \<and> starts_with ''SIP/2.0 200 OK'' resp \<and>
    completed_control t = completed_response env msg src sport m resp 200 True \<and>
    sip_effects t = sip_effects s @ [UdpOut src sport resp] \<and> \<not> remote_sip_tcp t \<and> sip_socket_open t"
proof -
  have h: "\<not> (header_values msg ''Via'' = [] \<or> header_value msg ''From'' = [] \<or> header_value msg ''To'' = [] \<or>
      header_value msg ''Call-ID'' = [] \<or> header_value msg ''CSeq'' = [])" and m: "cseq_method (header_value msg ''CSeq'') = m"
    using assms(1) by (simp_all add: answerable_def)
  obtain to' s1 where 1: "stateless_to env (header_value msg ''To'') m True s = (to', s1)" by fastforce
  have s1: "\<exists>r. s1 = s\<lparr>randoms := r\<rparr>"
  proof -
    have "s1 = s \<or> s1 = s\<lparr>randoms := randoms s + 1\<rparr>"
      using 1 by (auto simp: stateless_to_def fresh_token_def next_random_def split: if_splits)
    then show ?thesis by (elim disjE) (rule exI [of _ "randoms s"], simp, rule exI)
  qed
  define form where "form = \<lparr>rf_status = 200, rf_reason = ''OK'',
      rf_via = response_via_with_rport (ip_text_of env) (header_values msg ''Via'') src sport,
      rf_from = header_value msg ''From'', rf_to = to', rf_call_id = header_value msg ''Call-ID'',
      rf_cseq = header_value msg ''CSeq'', rf_app_reason = [], rf_body = [],
      rf_contact = ((m = ''UPDATE'' \<or> m = ''REFER'') \<and> (200::u16) \<ge> 200 \<and> (200::u16) < 300),
      rf_add_tag = False, rf_stateless = True, rf_retry = None\<rparr>"
  define resp where "resp = response_text form [] s1"
  have 2: "format_response env form s1 = (resp, s1)" by (simp add: format_response_def form_def resp_def)
  obtain rest where rest: "resp = ''SIP/2.0 '' @ ''200'' @ '' '' @ ''OK'' @ CRLF @ rest"
    using response_start [of form "[]" s1] unfolding resp_def form_def response_form.select_convs dec_200 by blast
  have kept: "remember_completed_response env msg src sport m resp s1 =
      s1\<lparr>completed_control := completed_response env msg src sport m resp 200 True\<rparr>"
  proof -
    have p: "parse_decimal_u32 (substr resp 8 3) 699 = Some 200" unfolding rest by (rule response_200)
    have "resp \<noteq> []" "starts_with ''SIP/2.0 '' resp" "\<not> length resp < 12" by (simp_all add: rest)
    moreover have "\<not> remote_sip_tcp s1" using s1 assms(2) by auto
    moreover have "m \<noteq> ''INVITE''" "m = ''INVITE'' \<or> m = ''CANCEL'' \<or> m = ''BYE'' \<or> m = ''UPDATE'' \<or> m = ''REFER''"
      using assms(1) by (auto simp: answerable_def)
    ultimately show ?thesis
      using p h assms(1,5,6) by (simp add: remember_completed_response_def keeps_other_response_def answerable_def Let_def)
  qed
  define s3 where "s3 = s1\<lparr>completed_control := completed_response env msg src sport m resp 200 True\<rparr>"
  have 4: "send_sip env resp src sport s3 = (True, do_effect (UdpOut src sport resp) (s3\<lparr>sip_sends := sip_sends s3 + 1\<rparr>))"
    using s1 assms(2-6) by (auto simp: send_sip_def send_sip_udp_def s3_def all_taken_def)
  have "t = mark_sip_event ResponseEvent 200 (do_effect (UdpOut src sport resp) (s3\<lparr>sip_sends := sip_sends s3 + 1\<rparr>))"
    unfolding assms(7) send_stateless_response_def Let_def if_not_P [OF h] m 1 prod.case form_def [symmetric] 2 kept
    by (simp add: 4 flip: s3_def)
  then show ?thesis
    using s1 assms(2,3) by (intro exI [of _ resp]) (auto simp: rest s3_def mark_sip_event_def do_effect_def)
qed

section \<open>The way to a handler\<close>

text \<open>What looking for a remembered transaction may leave: an expired record is dropped.\<close>

lemma three_guards:
  "\<not> fst (if a then (False, x) else if b then (False, y) else if c then (False, x) else (True, z)) \<Longrightarrow>
   (if a then (False, x) else if b then (False, y) else if c then (False, x) else (True, z)) = (False, x) \<or>
   (if a then (False, x) else if b then (False, y) else if c then (False, x) else (True, z)) = (False, y)"
  by (simp split: if_splits)

lemma same_control: "s\<lparr>completed_control := completed_control s\<rparr> = s" "s\<lparr>completed_invite_client := completed_invite_client s\<rparr> = s"
  by simp_all

lemma no_replay:
  assumes "\<not> fst (replay_completed_response env msg src sport m udp s)" "m \<noteq> ''INVITE''"
  obtains c where "c = completed_control s \<or> c = no_completed_server"
    "replay_completed_response env msg src sport m udp s = (False, s\<lparr>completed_control := c\<rparr>)"
proof -
  have "replay_completed_response env msg src sport m udp s = (False, s) \<or>
      replay_completed_response env msg src sport m udp s = (False, s\<lparr>completed_control := no_completed_server\<rparr>)"
    using assms(1) unfolding replay_completed_response_def Let_def if_not_P [OF assms(2)] by (rule three_guards)
  then show ?thesis using that [of "completed_control s"] that [of no_completed_server] same_control(1) [of s] by metis
qed

lemma no_ack_replay:
  assumes "\<not> starts_with ''SIP/2.0 '' msg"
  shows "\<exists>d. replay_completed_invite_ack env msg src udp s = (False, s\<lparr>completed_invite_client := d\<rparr>)"
proof -
  have "\<not> fst (replay_completed_invite_ack env msg src udp s)" using assms by (simp add: replay_completed_invite_ack_def Let_def)
  then have "replay_completed_invite_ack env msg src udp s = (False, s) \<or>
      replay_completed_invite_ack env msg src udp s = (False, s\<lparr>completed_invite_client := no_completed_client\<rparr>)"
    unfolding replay_completed_invite_ack_def Let_def by (rule three_guards)
  then show ?thesis using same_control(2) [of s] by metis
qed

lemma request_token: "request_method msg = m \<Longrightarrow> m \<noteq> [] \<Longrightarrow> (case find_char (CHR '' '') msg of None \<Rightarrow> msg | Some i \<Rightarrow> take i msg) = m"
  by (auto simp: request_method_def split: option.splits)

text \<open>A retransmission that matches the remembered response is answered with it and nothing else happens.\<close>

lemma replayed:
  assumes "request_method msg = m" "m \<noteq> []" "m \<noteq> ''INVITE''" "completed_control s = completed_response env0 msg src sport0 m resp st True"
    "cseq_method (header_value msg ''CSeq'') = m" "whole_message msg" "resp \<noteq> []" "sip_now env - sip_now env0 \<le> 32000"
    "sip_socket_open s" "all_taken env" "src \<noteq> 0" "sport \<noteq> 0"
  shows "handle_sip_udp_datagram env msg src sport s = do_effect (UdpOut src sport resp) (s\<lparr>sip_sends := sip_sends s + 1\<rparr>)"
proof -
  have "\<not> SIP_TRANSACTION_TIMEOUT_MS < sip_now env - sip_now env0" using assms(8) by simp
  moreover have "send_sip_udp env resp src sport s = (True, do_effect (UdpOut src sport resp) (s\<lparr>sip_sends := sip_sends s + 1\<rparr>))"
    using assms(9-12) by (simp add: send_sip_udp_def all_taken_def)
  ultimately have "replay_completed_response env msg src sport m True s = (True, do_effect (UdpOut src sport resp) (s\<lparr>sip_sends := sip_sends s + 1\<rparr>))"
    using assms(3-7) by (simp add: replay_completed_response_def completed_response_def server_matches_def Let_def)
  then show ?thesis unfolding handle_sip_udp_datagram_def request_token [OF assms(1,2)] by simp
qed

text \<open>A BYE on a UDP dialog reaches its handler; what precedes changes records of finished transactions only.\<close>

lemma bye_reaches_handler:
  assumes "request_method msg = ''BYE''" "\<not> starts_with ''SIP/2.0 '' msg" "\<not> invalid_framing msg" "\<not> remote_sip_tcp s"
    "\<not> tcp_connected s" "\<not> fst (replay_completed_response env msg src sport ''BYE'' True s)"
  shows "\<exists>c d e. handle_sip_udp_datagram env msg src sport s =
    handle_bye env msg src sport (mark_sip_event ByeEvent 0
      (s\<lparr>completed_control := c, completed_invite_client := d, remote_sip_tcp := False, completed_control := e\<rparr>))"
proof -
  obtain c1 where c1: "c1 = completed_control s \<or> c1 = no_completed_server"
    and 1: "replay_completed_response env msg src sport ''BYE'' True s = (False, s\<lparr>completed_control := c1\<rparr>)"
    by (rule no_replay [OF assms(6)]) (simp, blast)
  let ?s1 = "s\<lparr>completed_control := c1\<rparr>"
  obtain d where 2: "replay_completed_invite_ack env msg src True ?s1 = (False, ?s1\<lparr>completed_invite_client := d\<rparr>)"
    using no_ack_replay [OF assms(2), of env src True ?s1] by blast
  let ?s2 = "?s1\<lparr>completed_invite_client := d, remote_sip_tcp := False\<rparr>"
  have u: "handle_sip_udp_datagram env msg src sport s = handle_sip_datagram env msg src sport ?s2"
    unfolding handle_sip_udp_datagram_def request_token [OF assms(1), simplified] 1 prod.case bool.case 2
    using assms(4,5) by simp
  have r: "\<not> fst (replay_completed_response env msg src sport ''BYE'' True ?s2)"
    using assms(6) c1 by (auto simp: replay_completed_response_def no_completed_server_def Let_def split: if_splits)
  obtain c2 where 3: "replay_completed_response env msg src sport ''BYE'' (\<not> remote_sip_tcp ?s2) ?s2 = (False, ?s2\<lparr>completed_control := c2\<rparr>)"
    by (rule no_replay [OF r]) simp_all
  have "handle_sip_datagram env msg src sport ?s2 = handle_bye env msg src sport (mark_sip_event ByeEvent 0 (?s2\<lparr>completed_control := c2\<rparr>))"
    unfolding handle_sip_datagram_def Let_def assms(1) using assms(2,3) 3
    by (simp add: sip_event_from_method_def take_request_def)
  then show ?thesis by (intro exI) (rule trans [OF u])
qed

section \<open>A BYE that is sent again\<close>

text \<open>The same datagram at some later moments, from any port of the peer.\<close>

definition repeat_datagram :: "string \<Rightarrow> u32 \<Rightarrow> (sip_env \<times> u16) list \<Rightarrow> sip_state \<Rightarrow> sip_state" where
  "repeat_datagram msg src copies s = fold (\<lambda>(env, sport). handle_sip_udp_datagram env msg src sport) copies s"

lemma repeated_replay:
  assumes "request_method msg = m" "m \<noteq> []" "m \<noteq> ''INVITE''" "cseq_method (header_value msg ''CSeq'') = m" "whole_message msg" "resp \<noteq> []"
    "src \<noteq> 0" "completed_control s = completed_response env0 msg src sport0 m resp st True" "sip_socket_open s"
    "\<forall>(env, sport)\<in>set copies. all_taken env \<and> sport \<noteq> 0 \<and> sip_now env - sip_now env0 \<le> 32000"
  shows "sip_effects (repeat_datagram msg src copies s) = sip_effects s @ map (\<lambda>(env, sport). UdpOut src sport resp) copies"
  using assms(8-10)
proof (induction copies arbitrary: s)
  case (Cons x copies)
  obtain env sport where x: "x = (env, sport)" by fastforce
  have "handle_sip_udp_datagram env msg src sport s = do_effect (UdpOut src sport resp) (s\<lparr>sip_sends := sip_sends s + 1\<rparr>)" (is "_ = ?t")
    using Cons.prems assms(7) by (intro replayed [OF assms(1-3) _ assms(4-6)]) (auto simp: x)
  then have "repeat_datagram msg src (x # copies) s = repeat_datagram msg src copies ?t"
    by (simp add: repeat_datagram_def x)
  moreover have "sip_effects (repeat_datagram msg src copies ?t) = sip_effects ?t @ map (\<lambda>(env, sport). UdpOut src sport resp) copies"
    using Cons.prems by (intro Cons.IH) (simp_all add: do_effect_def)
  ultimately show ?case by (simp add: x)
qed (simp add: repeat_datagram_def)

text \<open>A BYE of the dialog over UDP, whole, and not seen before.\<close>

definition fresh_bye :: "sip_env \<Rightarrow> string \<Rightarrow> u32 \<Rightarrow> u16 \<Rightarrow> sip_state \<Rightarrow> bool" where
  "fresh_bye env msg src sport s \<longleftrightarrow>
     request_method msg = ''BYE'' \<and> \<not> starts_with ''SIP/2.0 '' msg \<and> \<not> invalid_framing msg \<and> whole_message msg \<and>
     answerable msg ''BYE'' \<and> in_dialog msg src ''BYE'' s \<and>
     \<not> fst (replay_completed_response env msg src sport ''BYE'' True s)"

lemma in_dialog_same:
  "in_dialog msg src m (mark_sip_event e st (s\<lparr>completed_control := c, completed_invite_client := d, remote_sip_tcp := x, completed_control := f\<rparr>)) =
   in_dialog msg src m s"
  by (simp add: in_dialog_def mark_sip_event_def)

text \<open>
  C11: A BYE may arrive any number of times. The first one is answered 200 and raises one signal; every copy of it within the
  next 32 seconds, from whatever port, is answered with the very same bytes to where it came from, and nothing else
  is sent or signalled: no second end of the call, no error 481 although the dialog is gone.
\<close>

theorem repeated_bye_is_answered_alike:
  assumes "fresh_bye env msg src sport s" "media_active s \<or> \<not> tx_empty (pending_bye s)" "\<not> remote_sip_tcp s" "\<not> tcp_connected s"
    "sip_socket_open s" "all_taken env" "src \<noteq> 0" "sport \<noteq> 0"
    "\<forall>(env', sport')\<in>set copies. all_taken env' \<and> sport' \<noteq> 0 \<and> sip_now env' - sip_now env \<le> 32000"
  shows "\<exists>resp. starts_with ''SIP/2.0 200 OK'' resp \<and>
    sip_effects (repeat_datagram msg src ((env, sport) # copies) s) =
      sip_effects s @ [UdpOut src sport resp, Signal (new_signal BYE_SIGNAL (dlg_call_id s))] @
      map (\<lambda>(env', sport'). UdpOut src sport' resp) copies"
proof -
  note f = assms(1) [unfolded fresh_bye_def]
  obtain c d e where h: "handle_sip_udp_datagram env msg src sport s = handle_bye env msg src sport
      (mark_sip_event ByeEvent 0 (s\<lparr>completed_control := c, completed_invite_client := d, remote_sip_tcp := False, completed_control := e\<rparr>))"
    (is "_ = handle_bye env msg src sport ?b")
    using bye_reaches_handler [of msg s env src sport] f assms(3,4) by blast
  have i: "in_dialog msg src ''BYE'' ?b" using f by (simp only: in_dialog_same)
  have b: "media_active ?b = media_active s" "pending_bye ?b = pending_bye s" "dlg_call_id ?b = dlg_call_id s"
    "sip_effects ?b = sip_effects s" "\<not> remote_sip_tcp ?b" "sip_socket_open ?b"
    using assms(5) by (simp_all add: mark_sip_event_def)
  define t1 where "t1 = snd (send_stateless_response env msg src sport 200 ''OK'' [] True None ?b)"
  obtain resp where r: "resp \<noteq> []" "starts_with ''SIP/2.0 200 OK'' resp"
    "completed_control t1 = completed_response env msg src sport ''BYE'' resp 200 True"
    "sip_effects t1 = sip_effects s @ [UdpOut src sport resp]" "sip_socket_open t1"
    using ok_remembered [OF _ b(5,6) assms(6-8) t1_def] f b(4) by metis
  have t1: "dlg_call_id t1 = dlg_call_id s" using b(3) by (simp add: t1_def)
  define t where "t = handle_sip_udp_datagram env msg src sport s"
  have t: "t = (let s2 = emit_signal (new_signal BYE_SIGNAL (dlg_call_id s)) t1 in if \<not> tx_empty (pending_bye s) then s2 else reset_dialog s2)"
    unfolding t_def h handle_bye_def Let_def using assms(2) b i by (simp only: t1_def [symmetric] t1 b simp_thms if_True if_False) auto
  have k: "completed_control t = completed_response env msg src sport ''BYE'' resp 200 True" "sip_socket_open t"
    "sip_effects t = sip_effects s @ [UdpOut src sport resp, Signal (new_signal BYE_SIGNAL (dlg_call_id s))]"
    using r by (simp_all add: t Let_def) (simp_all add: emit_signal_def do_effect_def)
  have "repeat_datagram msg src ((env, sport) # copies) s = repeat_datagram msg src copies t"
    by (simp add: repeat_datagram_def t_def)
  moreover have "sip_effects (repeat_datagram msg src copies t) = sip_effects t @ map (\<lambda>(env', sport'). UdpOut src sport' resp) copies"
    using f assms(9) by (intro repeated_replay [OF _ _ _ _ _ r(1) assms(7) k(1,2)]) (simp_all add: answerable_def)
  ultimately show ?thesis using r(2) k(3) by (intro exI [of _ resp]) simp
qed

text \<open>A call in progress and the BYE of its peer.\<close>

definition bye_of_peer :: string where
  "bye_of_peer = ''BYE sip:phone SIP/2.0'' @ CRLF @ ''Via: SIP/2.0/UDP 10.0.0.1;branch=z9hG4bKx'' @ CRLF @ ''From: <sip:a@b>;tag=r'' @ CRLF @
    ''To: <sip:c@d>;tag=l'' @ CRLF @ ''Call-ID: call'' @ CRLF @ ''CSeq: 2 BYE'' @ HEADER_END"

definition talking :: sip_state where
  "talking = (started_transport sample_endpoint 5060)
     \<lparr>remote_ip := 1, dlg_call_id := ''call'', remote_tag := ''r'', local_tag := ''l'', media_active := True\<rparr>"

lemma bye_headers:
  "header_values bye_of_peer ''Via'' \<noteq> []" "header_value bye_of_peer ''From'' = ''<sip:a@b>;tag=r''"
  "header_value bye_of_peer ''To'' = ''<sip:c@d>;tag=l''" "header_value bye_of_peer ''Call-ID'' = ''call''"
  "header_value bye_of_peer ''CSeq'' = ''2 BYE''" "header_value bye_of_peer ''Content-Length'' = []" "header_value bye_of_peer ''l'' = []"
  "tag_from_header ''<sip:a@b>;tag=r'' = ''r''" "tag_from_header ''<sip:c@d>;tag=l'' = ''l''" "cseq_method ''2 BYE'' = ''BYE''"
  "request_method bye_of_peer = ''BYE''" "\<not> starts_with ''SIP/2.0 '' bye_of_peer" "find_sub HEADER_END bye_of_peer \<noteq> None"
  "sip_content_length bye_of_peer = Some 0"
  by code_simp+

lemma second_request: "cseq_number ''2 BYE'' = 2"
proof -
  have "trim_copy ''2 BYE'' = ''2 BYE''" "find_first_of [CHR '' '', TAB] ''2 BYE'' = Some 1" by code_simp+
  moreover have "decimal_loop (- 1) 0 ''2'' = Some 2" by (simp add: is_digit_def)
  ultimately show ?thesis by (simp add: cseq_number_def Let_def)
qed

lemma bye_fresh: "fresh_bye reliable_env bye_of_peer 1 5060 talking"
proof -
  have w: "whole_message bye_of_peer" using bye_headers(13) by (auto simp: whole_message_def bye_headers(6,7,14))
  have i: "\<not> invalid_framing bye_of_peer" by (simp add: invalid_framing_def bye_headers)
  have a: "answerable bye_of_peer ''BYE''" using bye_headers(1) by (simp add: answerable_def bye_headers second_request)
  have d: "in_dialog bye_of_peer 1 ''BYE'' talking"
    by (simp add: in_dialog_def bye_headers second_request) (simp add: talking_def started_transport_def)
  have r: "\<not> fst (replay_completed_response reliable_env bye_of_peer 1 5060 ''BYE'' True talking)"
    by (simp add: replay_completed_response_def Let_def) (simp add: talking_def started_transport_def no_completed_server_def)
  show ?thesis unfolding fresh_bye_def using w i a d r bye_headers(11,12) by blast
qed

theorem repeated_bye_is_answered_alike_witness:
  "\<exists>resp. sip_effects (repeat_datagram bye_of_peer 1 [(reliable_env, 5060), (reliable_env\<lparr>sip_now := 600\<rparr>, 5061)] talking) =
    [UdpOut 1 5060 resp, Signal (new_signal BYE_SIGNAL ''call''), UdpOut 1 5061 resp]"
proof -
  have t: "all_taken (reliable_env\<lparr>sip_now := 600\<rparr>)" using reliable_taken by (simp add: all_taken_def)
  have s: "media_active talking" "\<not> remote_sip_tcp talking" "\<not> tcp_connected talking" "sip_socket_open talking"
    "sip_effects talking = []" "dlg_call_id talking = ''call''"
    by (simp_all add: talking_def started_transport_def)
  have n: "sip_now reliable_env = 100" by (simp add: reliable_env_def)
  show ?thesis
    using repeated_bye_is_answered_alike [OF bye_fresh _ s(2-4) reliable_taken, of "[(reliable_env\<lparr>sip_now := 600\<rparr>, 5061)]"] t
    by (auto simp: s n)
qed

end
