(* ===== verification/MediaPathProps.thy ===== *)
theory MediaPathProps
  imports SipReach
begin

text \<open>
  The audio path in every reachable state of the transport: what its phase says about the RTP task and the socket,
  that it can always be brought back to a new call, and how a failing RTP task ends the call it served.
\<close>

section \<open>The phases\<close>

definition media_ok :: "sip_state \<Rightarrow> bool" where
  "media_ok s \<longleftrightarrow>
     (media_lifecycle s = MediaIdle \<longrightarrow> \<not> rtp_running s \<and> \<not> rtp_bound s \<and> (rtp_task s \<longrightarrow> rtp_quiesced s)) \<and>
     (media_lifecycle s = MediaPrepared \<longrightarrow> \<not> rtp_running s \<and> rtp_bound s \<and> rtp_quiesced s \<and> rtp_task s) \<and>
     (media_lifecycle s = MediaActive \<longrightarrow> rtp_running s \<and> rtp_bound s \<and> \<not> rtp_quiesced s \<and> rtp_task s) \<and>
     (media_lifecycle s = MediaCleaning \<longrightarrow> \<not> rtp_running s \<and> \<not> rtp_quiesced s \<and> rtp_task s) \<and>
     (media_lifecycle s = MediaShuttingDown \<longrightarrow> \<not> rtp_running s \<and> \<not> rtp_bound s \<and> \<not> rtp_task s)"

lemma media_fields:
  assumes "media_lifecycle t = media_lifecycle s" "rtp_running t = rtp_running s" "rtp_bound t = rtp_bound s"
    "rtp_quiesced t = rtp_quiesced s" "rtp_task t = rtp_task s"
  shows "media_ok t = media_ok s"
  by (simp add: media_ok_def assms)

lemma media_stop: "media_ok s \<Longrightarrow> media_ok (request_audio_path_stop s)"
  by (cases "media_lifecycle s")
    (simp_all add: media_ok_def request_audio_path_stop_def close_media_session_def finish_audio_path_stop_def Let_def)

lemma media_reset: "media_ok s \<Longrightarrow> media_ok (reset_dialog s)"
proof -
  assume "media_ok s"
  then have "media_ok (request_audio_path_stop s)" by (rule media_stop)
  moreover have "media_ok (reset_dialog s) = media_ok (request_audio_path_stop s)"
    by (rule media_fields)
      (simp_all add: reset_dialog_def retract_tcp_record_def reset_rtp_latch_def clear_udp_transactions_def close_media_session_def Let_def)
  ultimately show ?thesis by simp
qed

lemma media_worker:
  "media_ok s \<Longrightarrow> \<not> rtp_running s \<Longrightarrow> media_ok (media_worker_cleanup s)"
  "media_ok s \<Longrightarrow> rtp_running s \<Longrightarrow> media_ok (media_worker_cleanup (quiesce_failed_worker s))"
  by (cases "media_lifecycle s"; simp add: media_ok_def media_task_defs)+

text \<open>What \<open>stop\<close> finds after it has asked the path to stop.\<close>

lemma stopped_phase:
  assumes "media_ok s" and "rtp_task s"
  defines "t \<equiv> request_audio_path_stop s"
  shows "rtp_task t" "\<not> rtp_running t" "rtp_quiesced t \<Longrightarrow> media_lifecycle t = MediaIdle \<and> \<not> rtp_bound t"
    "\<not> rtp_quiesced t \<Longrightarrow> media_lifecycle t = MediaCleaning"
  using assms(1,2)
  by (cases "media_lifecycle s"; simp add: t_def media_ok_def request_audio_path_stop_def close_media_session_def Let_def)+

lemma media_stopped:
  assumes "media_ok s"
  shows "media_ok (transport_stop s)"
proof -
  define s2 where "s2 = (close_tcp_flow (s\<lparr>transport_stopping := True, sip_running := False, tcp_connect_requested := False,
      tcp_pending := [], tcp_close_requested := True\<rparr>))\<lparr>sip_socket_open := False\<rparr>"
  define s3 where "s3 = request_audio_path_stop s2"
  have m: "media_ok s2" "rtp_task s2 = rtp_task s" using assms by (simp_all add: s2_def media_ok_def close_tcp_flow_def)
  have m3: "media_ok s3" using media_stop [OF m(1)] by (simp add: s3_def)
  have same: "media_ok (do_effect e t) = media_ok t" for e t by (simp add: media_ok_def do_effect_def)
  have shut: "media_ok ((media_worker_cleanup ((if rtp_quiesced s3 then s3 else media_worker_cleanup s3)
      \<lparr>media_lifecycle := MediaShuttingDown\<rparr>))\<lparr>rtp_task := False\<rparr>)" if "rtp_task s3"
  proof -
    have "rtp_task s2" using that m(1) by (cases "media_lifecycle s2")
      (auto simp: s3_def request_audio_path_stop_def close_media_session_def finish_audio_path_stop_def Let_def split: if_splits)
    note st = stopped_phase [OF m(1) this, folded s3_def]
    show ?thesis using st by (cases "rtp_quiesced s3") (simp_all add: media_ok_def media_worker_cleanup_def finish_audio_path_stop_def do_effect_def Let_def)
  qed
  show ?thesis unfolding transport_stop_def Let_def s2_def [symmetric] s3_def [symmetric]
    using m3 shut by (simp add: same)
qed

lemma media_started: "media_ok s \<Longrightarrow> media_ok (snd (transport_start me s))"
proof -
  assume m: "media_ok s"
  show ?thesis
  proof (cases "rtp_task s")
    case True
    then show ?thesis using m by (simp add: transport_start_def)
  next
    case False
    let ?s2 = "s\<lparr>transport_stopping := False, media_lifecycle := MediaIdle, sip_running := True, sip_socket_open := True, rtp_quiesced := True\<rparr>"
    have down: "\<not> rtp_running s" "\<not> rtp_bound s" using m False by (cases "media_lifecycle s"; simp add: media_ok_def)+
    have "media_ok ?s2" using down by (simp add: media_ok_def)
    then have "media_ok (transport_stop ?s2)" by (rule media_stopped)
    then show ?thesis using m down False by (simp add: transport_start_def Let_def) (simp add: media_ok_def do_effect_def)
  qed
qed

text \<open>The timers touch the audio path only through a reset or a BYE.\<close>

definition media_view :: "sip_state \<Rightarrow> media_phase \<times> bool \<times> bool \<times> bool \<times> bool" where
  "media_view s = (media_lifecycle s, rtp_running s, rtp_task s, rtp_quiesced s, rtp_bound s)"

lemma media_seen: "media_view t = media_view s \<Longrightarrow> media_ok t = media_ok s"
  by (rule media_fields) (simp_all add: media_view_def)

lemma pump_view:
  "media_view (snd (pump_invite env s)) = media_view s" "media_view (snd (pump_cancel env s)) = media_view s"
  "media_view (snd (pump_bye env s)) = media_view s" "media_view (pump_update env s) = media_view s"
  "media_view (pump_provisional env s) = media_view s" "media_view (snd (pump_final_response env s)) = media_view s"
  "media_view (expire_completed env s) = media_view s"
  using sent_from_fields(42-46) [OF pump_transaction_sent]
  by (simp_all add: media_view_def pump_invite_def pump_cancel_def pump_bye_def pump_update_def pump_provisional_def
      pump_final_response_def expire_completed_def prod.case_eq_if bool.case_eq_if Let_def)

lemma pump_timers_view: "media_view (snd (pump_timers env s)) = media_view s"
  unfolding pump_timers_def Let_def prod.case_eq_if by (simp add: pump_view)

interpretation media_dialog: dialog_invariant media_ok
proof unfold_locales
  fix s :: sip_state
  show "media_ok s \<Longrightarrow> media_ok (reset_dialog s)" by (rule media_reset)
  show "media_ok s \<Longrightarrow> media_ok (request_audio_path_stop s)" by (rule media_stop)
qed (simp_all add: media_ok_def)

lemma media_pump: "media_ok s \<Longrightarrow> media_ok (pump_udp_retransmits env s)"
proof -
  have e: "media_ok (end_terminal cid t)" "media_ok (end_invite cid t)" "media_ok (end_unacknowledged env cid t)" if "media_ok t" for cid t
    using media_reset [OF that] media_dialog.bye [OF that]
    by (simp_all add: end_terminal_def end_invite_def end_unacknowledged_def prod.case_eq_if media_dialog.free emit_signal_def
        do_effect_def that media_reset)
  show "media_ok s \<Longrightarrow> ?thesis"
    using media_seen [OF pump_timers_view [of env s]]
    unfolding pump_udp_retransmits_def Let_def prod.case_eq_if by (simp add: e)
qed

interpretation media: transport_invariant media_ok
proof unfold_locales
  fix env me and s :: sip_state
  show "media_ok s \<Longrightarrow> media_ok (pump_udp_retransmits env s)" by (rule media_pump)
  show "media_ok s \<Longrightarrow> \<not> rtp_running s \<Longrightarrow> media_ok (media_worker_cleanup s)" by (rule media_worker)
  show "media_ok s \<Longrightarrow> rtp_running s \<Longrightarrow> media_ok (media_worker_cleanup (quiesce_failed_worker s))" by (rule media_worker)
  show "media_ok s \<Longrightarrow> media_ok (transport_stop s)" by (rule media_stopped)
  show "media_ok s \<Longrightarrow> media_ok (snd (transport_start me s))" by (rule media_started)
qed (simp_all add: media_ok_def)

lemma reachable_media: "reachable s \<Longrightarrow> media_ok s"
  by (rule media.always) (simp_all add: started_transport_def media_ok_def)

lemma media_path_phase: "media_ok s \<Longrightarrow> rtp_running s = (media_lifecycle s = MediaActive)"
  by (cases "media_lifecycle s") (simp_all add: media_ok_def)

lemma stop_closes: "\<not> media_active (request_audio_path_stop s)"
  by (simp add: request_audio_path_stop_def close_media_session_def finish_audio_path_stop_def Let_def)

text \<open>A path that is idle stays idle whatever happens to the dialog.\<close>

definition media_quiet :: "sip_state \<Rightarrow> bool" where
  "media_quiet s \<longleftrightarrow> media_lifecycle s = MediaIdle \<and> \<not> rtp_running s \<and> \<not> rtp_bound s"

interpretation quiet: dialog_invariant media_quiet
proof unfold_locales
  fix s :: sip_state
  show stop: "media_quiet s \<Longrightarrow> media_quiet (request_audio_path_stop s)" for s
    by (simp add: media_quiet_def request_audio_path_stop_def close_media_session_def Let_def)
  show "media_quiet s \<Longrightarrow> media_quiet (reset_dialog s)"
    using stop [of s]
    by (simp add: media_quiet_def reset_dialog_def retract_tcp_record_def reset_rtp_latch_def clear_udp_transactions_def
        close_media_session_def Let_def)
qed (simp_all add: media_quiet_def)

lemma bye_silences: "fst (send_bye_unlocked env (dlg_call_id s) s) \<Longrightarrow> \<not> media_active (snd (send_bye_unlocked env (dlg_call_id s) s))"
  by (simp add: send_bye_unlocked_def prod.case_eq_if stop_closes split: if_splits)

section \<open>Properties\<close>

text \<open>Everything the operating system is asked for is there; the codec states are empty.\<close>

definition plain_media :: media_env where
  "plain_media =
     \<lparr>udp_bound = True, converter_made = \<lambda>a b. True,
      receive_converter = \<lparr>conv_entries = [], conv_target = default_audio_format\<rparr>,
      codec_states = \<lparr>opus_encoder = False, opus_decoder = False, opus_tx_format = default_audio_format,
        opus_rx_format = default_audio_format, opus_max_payload = 1275\<rparr>,
      codec_ready = True, sip_listening = True, sip_task_started = True, rtp_task_started = True\<rparr>"

text \<open>A transport that was stopped and started again; then it took up a call and its media.\<close>

definition restarted_transport :: sip_state where
  "restarted_transport = react (Start plain_media) (react Stop (started_transport sample_endpoint 5060))"

definition call_with_media :: sip_state where
  "call_with_media = react (MediaStart plain_media) (react (Ring reliable_env ''call'') restarted_transport)"

lemma restarted_facts: "reachable restarted_transport" "reachable call_with_media"
  by (simp_all add: restarted_transport_def call_with_media_def reachable.intros del: react.simps)

lemma sample_codecs: "codecs_prepared plain_media sample_endpoint"
  by (simp add: codecs_prepared_def plain_media_def sample_endpoint_def prepare_def prepare_additional_def pcm_only_def
      decoded_pcm_format_def wideband_def payload_add_def Let_def)

lemma restarted_state:
  "rtp_task restarted_transport" "sip_running restarted_transport" "\<not> transport_stopping restarted_transport"
  "sdp restarted_transport = sample_endpoint" "media_lifecycle restarted_transport = MediaIdle" "rtp_quiesced restarted_transport"
  "last_invite_peer_ip restarted_transport = 0"
  by (simp_all add: restarted_transport_def transport_start_def transport_stop_def started_transport_def plain_media_def
      request_audio_path_stop_def close_tcp_flow_def close_media_session_def finish_audio_path_stop_def media_worker_cleanup_def do_effect_def
      sample_endpoint_def Let_def)

lemma call_state: "rtp_running call_with_media" "dlg_call_id call_with_media = ''call''" "media_lifecycle call_with_media = MediaActive"
proof -
  have bound: "udp_bound plain_media" by (simp add: plain_media_def)
  show "rtp_running call_with_media" "dlg_call_id call_with_media = ''call''" "media_lifecycle call_with_media = MediaActive"
    using restarted_state sample_codecs
    by (simp_all add: call_with_media_def send_ringing_def send_response_def adopt_call_id_def start_audio_path_def
      prepare_media_path_locked_def commit_media_path_locked_def reset_rtp_latch_def bound Let_def)
qed

text \<open>
  C6: The audio path is consistent with its phase in every state the transport can reach, across starts and stops. The
  RTP task sends and receives exactly in the active phase, and then with a bound socket; a prepared path has its socket
  and waits; an idle path or one being shut down has none; nothing is bound without the task that will close it.
\<close>

theorem media_path_is_consistent:
  assumes "reachable s"
  shows "(rtp_running s \<longleftrightarrow> media_lifecycle s = MediaActive) \<and> (rtp_running s \<longrightarrow> rtp_bound s) \<and> (rtp_bound s \<longrightarrow> rtp_task s) \<and>
    (media_lifecycle s \<in> {MediaIdle, MediaShuttingDown} \<longrightarrow> \<not> rtp_bound s) \<and>
    (media_lifecycle s = MediaPrepared \<longrightarrow> rtp_bound s \<and> rtp_quiesced s)"
  using reachable_media [OF assms] by (cases "media_lifecycle s") (simp_all add: media_ok_def)

theorem media_path_is_consistent_witness: "rtp_bound call_with_media \<and> rtp_task call_with_media"
  using media_path_is_consistent [OF restarted_facts(2)] call_state(1) by simp

text \<open>
  C10: The audio path always comes back. Whatever state the transport is in, once the path has been asked to stop and the
  RTP task has seen it, the path is idle with its socket closed; and while the transport runs, the next call gets its
  media as soon as the codecs are there and the socket can be bound.
\<close>

theorem stopped_media_can_restart:
  fixes env :: sip_env and me :: media_env and s :: sip_state
  assumes "reachable s" "rtp_task s"
  defines "t \<equiv> rtp_worker_exit env (request_audio_path_stop s)"
  shows "media_lifecycle t = MediaIdle \<and> \<not> rtp_bound t \<and> rtp_quiesced t \<and>
    (sip_running s \<and> \<not> transport_stopping s \<and> codecs_prepared me (sdp s) \<and> udp_bound me \<longrightarrow>
      (\<exists>u. start_audio_path me t = (True, u) \<and> media_lifecycle u = MediaActive \<and> rtp_running u))"
proof -
  note st = stopped_phase [OF reachable_media [OF assms(1)] assms(2)]
  have t: "t = media_worker_cleanup (request_audio_path_stop s)" using st(2) by (simp add: t_def rtp_worker_exit_def)
  have same: "sdp t = sdp s" "sip_running t = sip_running s" "transport_stopping t = transport_stopping s"
    by (simp_all add: t media_task_defs request_audio_path_stop_def)
  have idle: "media_lifecycle t = MediaIdle" "\<not> rtp_bound t" "rtp_quiesced t" "rtp_task t" "\<not> rtp_running t"
    using st by (cases "rtp_quiesced (request_audio_path_stop s)"; simp add: t media_worker_cleanup_def finish_audio_path_stop_def do_effect_def Let_def)+
  have "fst (start_audio_path me t) \<and> media_lifecycle (snd (start_audio_path me t)) = MediaActive \<and> rtp_running (snd (start_audio_path me t))"
    if "sip_running s" "\<not> transport_stopping s" "codecs_prepared me (sdp s)" "udp_bound me"
    using that same idle
    by (simp add: start_audio_path_def prepare_media_path_locked_def commit_media_path_locked_def reset_rtp_latch_def Let_def)
  then show ?thesis using idle by (metis prod.collapse)
qed

theorem stopped_media_can_restart_witness:
  "\<exists>u. start_audio_path plain_media (rtp_worker_exit reliable_env (request_audio_path_stop restarted_transport)) = (True, u) \<and> rtp_running u"
  using stopped_media_can_restart [OF restarted_facts(1) restarted_state(1), of reliable_env plain_media]
    restarted_state sample_codecs by (auto simp: plain_media_def)

text \<open>
  C16: A failing RTP socket ends the call and says so. When the task leaves its loop while it should be running, in a
  state with a dialog, the media is closed, the path is idle with the socket gone, the protocol error 500
  \<open>rtp_worker_failed\<close> is the last thing the state machine hears, and unless a BYE could be sent or is owed the dialog is gone.
\<close>

theorem media_failure_ends_the_call:
  fixes env :: sip_env and s :: sip_state
  assumes "reachable s" "rtp_running s" "dlg_call_id s \<noteq> []"
  defines "t \<equiv> rtp_worker_exit env s" and "u \<equiv> media_worker_cleanup (quiesce_failed_worker s)"
  shows "\<not> media_active t \<and> media_lifecycle t = MediaIdle \<and> \<not> rtp_bound t \<and>
    last (sip_effects t) = Signal (with_status 500 ''rtp_worker_failed'' (new_signal PROTOCOL_ERROR_SIGNAL (dlg_call_id s))) \<and>
    (fst (send_bye_unlocked env (dlg_call_id s) u) \<or> dlg_call_id t = [])"
proof -
  let ?b = "send_bye_unlocked env (dlg_call_id s) u"
  let ?g = "with_status 500 ''rtp_worker_failed'' (new_signal PROTOCOL_ERROR_SIGNAL (dlg_call_id s))"
  have m: "media_lifecycle s = MediaActive" using media_path_phase [OF reachable_media [OF assms(1)]] assms(2) by simp
  then have u: "media_quiet u" "dlg_call_id u = dlg_call_id s" by (simp_all add: u_def media_quiet_def media_task_defs)
  have t: "t = emit_signal ?g (if fst ?b then snd ?b else reset_dialog (snd ?b))"
    using assms(2,3) u(2) by (simp add: t_def rtp_worker_exit_def report_worker_failure_def prod.case_eq_if flip: u_def)
  have "media_quiet (if fst ?b then snd ?b else reset_dialog (snd ?b))" using quiet.bye [OF u(1)] quiet.reset by simp
  moreover have "\<not> media_active (if fst ?b then snd ?b else reset_dialog (snd ?b))" using bye_silences [of env u] u(2) by simp
  ultimately show ?thesis by (simp add: t emit_signal_def do_effect_def media_quiet_def)
qed

theorem media_failure_ends_the_call_witness:
  "last (sip_effects (rtp_worker_exit reliable_env call_with_media)) =
     Signal (with_status 500 ''rtp_worker_failed'' (new_signal PROTOCOL_ERROR_SIGNAL ''call''))"
  using media_failure_ends_the_call [OF restarted_facts(2) call_state(1)] call_state(2) by simp

end
