(* ===== verification/MicPath.thy ===== *)
theory MicPath
  imports AudioFormat
begin

text \<open>
  The sending half of \<open>voip_audio.cpp\<close> and the sample arithmetic of \<open>audio_core_audio_utils.h\<close>: gain and DC
  removal on 16-bit samples, the microphone queue, and the pacing of the send task. The queue is ESPHome's ring
  buffer, which is not part of the repository: its operations are the record \<open>ring_ops\<close>. The products with a
  floating-point gain are parameters as well; the clamping and the fixed-point path are the code's.
\<close>

type_synonym sample = "16 word"

section \<open>Samples\<close>

text \<open>\<open>scale_sample\<close>, where \<open>product\<close> is the gain applied to a sample and cut to an integer.\<close>

definition scale_sample :: "(int \<Rightarrow> int) \<Rightarrow> sample \<Rightarrow> sample" where
  "scale_sample product x =
     (let s = product (sint x) in if s > 32767 then 32767 else if s < - 32768 then - 32768 else of_int s)"

definition scale_block_i16_q15 :: "int \<Rightarrow> sample list \<Rightarrow> sample list" where
  "scale_block_i16_q15 q xs =
     (if q \<le> 0 then map (\<lambda>x. 0) xs else if q \<ge> 32767 then xs
      else map (\<lambda>x. of_int (sint x * q div 32768)) xs)"

text \<open>
  How \<open>scale_block_i16\<close> classes a gain. \<open>Attenuate q\<close> is a gain strictly between 0 and 1 with \<open>q\<close> the rounded
  \<open>gain * 32768\<close>; \<open>Amplify\<close> any other.
\<close>

datatype block_gain = NotFinite | Unity | ZeroGain | Attenuate int | Amplify "int \<Rightarrow> int"

fun scale_block_i16 :: "block_gain \<Rightarrow> sample list \<Rightarrow> sample list" where
  "scale_block_i16 NotFinite xs = map (\<lambda>x. 0) xs"
| "scale_block_i16 Unity xs = xs"
| "scale_block_i16 ZeroGain xs = map (\<lambda>x. 0) xs"
| "scale_block_i16 (Attenuate q) xs = scale_block_i16_q15 (max 0 (min 32767 q)) xs"
| "scale_block_i16 (Amplify product) xs = map (scale_sample product) xs"

text \<open>The DC blocker, in 32-bit words as the target computes them.\<close>

record dc_blocker =
  prev_input_q16 :: u32
  prev_output_q16 :: u32

definition new_dc_blocker :: dc_blocker where
  "new_dc_blocker = \<lparr>prev_input_q16 = 0, prev_output_q16 = 0\<rparr>"

definition dc_process :: "sample \<Rightarrow> dc_blocker \<Rightarrow> sample \<times> dc_blocker" where
  "dc_process x d =
     (let input = push_bit 16 (ucast x :: u32);
          output = input - prev_input_q16 d + prev_output_q16 d - signed_drop_bit 10 (prev_output_q16 d)
      in (ucast (drop_bit 16 output), \<lparr>prev_input_q16 = input, prev_output_q16 = output\<rparr>))"

fun dc_run :: "sample list \<Rightarrow> dc_blocker \<Rightarrow> sample list" where
  "dc_run [] d = []"
| "dc_run (x # xs) d = (case dc_process x d of (y, d1) \<Rightarrow> y # dc_run xs d1)"

section \<open>The queue\<close>

record 'r ring_ops =
  ring_free :: "'r \<Rightarrow> nat"
  ring_available :: "'r \<Rightarrow> nat"
  ring_write :: "bytes \<Rightarrow> 'r \<Rightarrow> nat \<times> 'r"
  ring_read :: "nat \<Rightarrow> 'r \<Rightarrow> bytes \<times> 'r"

text \<open>The members of the component the microphone path keeps; the ring is there once it has been allocated.\<close>

record 'r mic_path =
  mic_ring :: "'r option"
  tx_audio_chunk_bytes :: nat
  tx_max_chunk_bytes :: nat
  media_tx_queue_depth :: u32
  media_tx_queue_drops :: u32
  dc_blockers :: "dc_blocker \<times> dc_blocker"
  dc_channel_phase :: byte

definition frames_for_bytes :: "nat \<Rightarrow> nat \<Rightarrow> u32" where
  "frames_for_bytes n frame_bytes =
     (if n = 0 \<or> frame_bytes = 0 then 0 else of_nat ((n + frame_bytes - 1) div frame_bytes))"

fun max_frame_bytes :: "nat \<Rightarrow> audio_format list \<Rightarrow> nat" where
  "max_frame_bytes n [] = n"
| "max_frame_bytes n (f # fs) = max_frame_bytes (max n (unat (nominal_frame_bytes f))) fs"

definition tx_audio_max_chunk_bytes :: "audio_format \<Rightarrow> audio_format_list \<Rightarrow> nat" where
  "tx_audio_max_chunk_bytes f fs = max_frame_bytes (unat (nominal_frame_bytes f)) fs"

definition tx_audio_buffer_bytes :: "bool \<Rightarrow> nat \<Rightarrow> nat" where
  "tx_audio_buffer_bytes audio_stack frame_bytes =
     (if audio_stack then max (frame_bytes * 6) (frame_bytes + 1024) else max (frame_bytes * 16) (frame_bytes + 4096))"

text \<open>The newest bytes of a block too long for the queue are kept; what is lost is counted in frames.\<close>

definition write_mic_buffer :: "'r ring_ops \<Rightarrow> bool \<Rightarrow> bytes option \<Rightarrow> 'r mic_path \<Rightarrow> bool \<times> 'r mic_path" where
  "write_mic_buffer ops audio_stack data m =
     (case (mic_ring m, data) of
        (Some ring, Some bs) \<Rightarrow>
          if bs = [] then (False, m)
          else
            let capacity = tx_audio_buffer_bytes audio_stack (tx_max_chunk_bytes m);
                skipped = length bs - capacity;
                kept = drop skipped bs;
                free_before = ring_free ops ring;
                replaced = (if free_before < length kept then length kept - free_before else 0)
            in case ring_write ops kept ring of
                 (written, ring1) \<Rightarrow>
                   let dropped = skipped + replaced + (if written < length kept then length kept - written else 0)
                   in (skipped = 0 \<and> written = length kept,
                       m\<lparr>mic_ring := Some ring1,
                         media_tx_queue_drops := media_tx_queue_drops m +
                           (if dropped > 0 then frames_for_bytes dropped (tx_audio_chunk_bytes m) else 0)\<rparr>)
      | _ \<Rightarrow> (False, m))"

section \<open>The microphone callback\<close>

text \<open>16-bit samples of a block, little endian; an odd byte is left out.\<close>

fun le_samples :: "bytes \<Rightarrow> sample list" where
  "le_samples (a # b # r) = (push_bit 8 (ucast b) OR ucast a) # le_samples r"
| "le_samples _ = []"

fun sample_bytes :: "sample list \<Rightarrow> bytes" where
  "sample_bytes [] = []"
| "sample_bytes (x # xs) = [ucast x, ucast (drop_bit 8 x)] @ sample_bytes xs"

text \<open>One sample through the blocker of its channel; the phase moves on to the next channel.\<close>

definition dc_sample :: "(int \<Rightarrow> int) \<Rightarrow> byte \<Rightarrow> sample \<Rightarrow> 'r mic_path \<Rightarrow> sample \<times> 'r mic_path" where
  "dc_sample product nch x m =
     (case dc_blockers m of (d0, d1) \<Rightarrow>
      case dc_process x (if dc_channel_phase m = 0 then d0 else d1) of (y, d) \<Rightarrow>
      let phase = dc_channel_phase m + 1
      in (scale_sample product y,
          m\<lparr>dc_blockers := (if dc_channel_phase m = 0 then (d, d1) else (d0, d)),
            dc_channel_phase := (if phase \<ge> nch then 0 else phase)\<rparr>))"

fun dc_block :: "(int \<Rightarrow> int) \<Rightarrow> byte \<Rightarrow> sample list \<Rightarrow> 'r mic_path \<Rightarrow> sample list \<times> 'r mic_path" where
  "dc_block product nch [] m = ([], m)"
| "dc_block product nch (x # xs) m =
     (case dc_sample product nch x m of (y, m1) \<Rightarrow> case dc_block product nch xs m1 of (ys, m2) \<Rightarrow> (y # ys, m2))"

text \<open>
  A block in pieces of at most \<open>n\<close> samples, each written to the queue; \<open>None\<close> when \<open>n\<close> is 0, where the loop
  of the code does not end.
\<close>

function process_pieces ::
    "'r ring_ops \<Rightarrow> bool \<Rightarrow> bool \<Rightarrow> (int \<Rightarrow> int) \<Rightarrow> block_gain \<Rightarrow> byte \<Rightarrow> nat \<Rightarrow> sample list \<Rightarrow> 'r mic_path \<Rightarrow> 'r mic_path option" where
  "process_pieces ops audio_stack dc product gain nch n xs m =
     (if xs = [] then Some m
      else if n = 0 then None
      else case (if dc then dc_block product nch (take n xs) m else (scale_block_i16 gain (take n xs), m)) of
             (ys, m1) \<Rightarrow> process_pieces ops audio_stack dc product gain nch n (drop n xs)
                            (snd (write_mic_buffer ops audio_stack (Some (sample_bytes ys)) m1)))"
  by pat_completeness auto
termination
  by (relation "measure (\<lambda>(ops, audio_stack, dc, product, gain, nch, n, xs, m). length xs)") auto

text \<open>
  \<open>on_microphone_data_\<close>. \<open>processing\<close> is whether the staging buffer exists; \<open>gain\<close> and \<open>product\<close> describe
  the effective gain.
\<close>

definition on_microphone_data ::
    "'r ring_ops \<Rightarrow> bool \<Rightarrow> bool \<Rightarrow> bool \<Rightarrow> bool \<Rightarrow> (int \<Rightarrow> int) \<Rightarrow> block_gain \<Rightarrow> byte \<Rightarrow> bytes option \<Rightarrow> 'r mic_path \<Rightarrow>
     'r mic_path option" where
  "on_microphone_data ops audio_stack ready processing dc product gain nch data m =
     (case (mic_ring m, data) of
        (Some ring, Some bs) \<Rightarrow>
          if \<not> ready \<or> bs = [] then Some m
          else if processing \<and> ((case gain of Unity \<Rightarrow> False | _ \<Rightarrow> True) \<or> dc)
          then process_pieces ops audio_stack dc product gain nch (tx_max_chunk_bytes m div 2) (le_samples bs) m
          else Some (snd (write_mic_buffer ops audio_stack (Some bs) m))
      | _ \<Rightarrow> Some m)"

section \<open>The send task\<close>

definition ticks_until_deadline :: "nat \<Rightarrow> int \<Rightarrow> int \<Rightarrow> u32" where
  "ticks_until_deadline rate deadline now =
     (if deadline - now \<le> 0 then 0
      else of_nat (max 1 ((nat (deadline - now) * rate + 999999) div 1000000)))"

record tx_clock =
  next_send_at :: int
  paced_frame_ms :: byte

text \<open>
  What one turn of the send task sees: whether the stream is ready at its start and when the frame is sent, the
  format, and the clock at the check, at the computation of the wait, and after the frame.
\<close>

record tx_moment =
  tx_ready :: bool
  tx_still_ready :: bool
  tx_format :: audio_format
  tx_now :: int
  tx_later :: int
  tx_after :: int

datatype tx_action = TxWait | TxWaitTicks u32 | TxAgain | TxDiscard bytes | TxSend bytes

definition rest_clock :: tx_clock where
  "rest_clock = \<lparr>next_send_at = 0, paced_frame_ms = 0\<rparr>"

definition tx_step :: "'r ring_ops \<Rightarrow> nat \<Rightarrow> tx_moment \<Rightarrow> tx_clock \<times> 'r mic_path \<Rightarrow> tx_action \<times> tx_clock \<times> 'r mic_path" where
  "tx_step ops rate e km =
     (case km of (k, m) \<Rightarrow>
      case mic_ring m of
        None \<Rightarrow> (TxWait, rest_clock, m)
      | Some ring \<Rightarrow>
          let n = tx_audio_chunk_bytes m; ms = frame_ms (tx_format e) in
          if \<not> tx_ready e \<or> n = 0 \<or> ms = 0 then (TxWait, rest_clock, m)
          else
            let k1 = (if ucast (paced_frame_ms k) \<noteq> ms then \<lparr>next_send_at = 0, paced_frame_ms = ucast ms\<rparr> else k) in
            if ring_available ops ring < n then (TxWait, k1, m\<lparr>media_tx_queue_depth := 0\<rparr>)
            else if next_send_at k1 \<noteq> 0 \<and> tx_now e < next_send_at k1 \<and>
                    ticks_until_deadline rate (next_send_at k1) (tx_later e) > 0
            then (TxWaitTicks (ticks_until_deadline rate (next_send_at k1) (tx_later e)), k1, m)
            else case ring_read ops n ring of
                   (chunk, ring1) \<Rightarrow>
                     let m1 = m\<lparr>mic_ring := Some ring1\<rparr> in
                     if length chunk \<noteq> n then (TxAgain, k1, m1)
                     else
                       let frame_interval = int (unat ms) * 1000;
                           after = (if next_send_at k1 = 0 then tx_after e + frame_interval else next_send_at k1 + frame_interval)
                       in (if tx_still_ready e then TxSend chunk else TxDiscard chunk,
                           k1\<lparr>next_send_at := after\<rparr>,
                           m1\<lparr>media_tx_queue_depth := of_nat (ring_available ops ring1 div max 1 n)\<rparr>))"

end
