(* ===== verification/MicPathProps.thy ===== *)
theory MicPathProps
  imports MicPath
begin

text \<open>
  The microphone path: where the fixed-point DC blocker agrees with the filter it implements, which samples a
  full queue keeps, and the pace of the frames sent.
\<close>

section \<open>The DC blocker\<close>

text \<open>The filter of the code's comment on unbounded integers: scaled by 65536, the feedback rounded down.\<close>

fun ideal_dc :: "int list \<Rightarrow> int \<Rightarrow> int \<Rightarrow> int list" where
  "ideal_dc [] X Y = []"
| "ideal_dc (x # xs) X Y =
     (let Z = 65536 * x - X + Y - Y div 1024 in Z div 65536 # ideal_dc xs (65536 * x) Z)"

lemma sint_of_range:
  assumes "- (2 ^ 31) \<le> i" and "i < 2 ^ 31"
  shows "sint (word_of_int i :: u32) = i"
  using assms by (simp add: int_word_sint mod_pos_pos_trivial)

lemma sint_of_range16:
  assumes "- (2 ^ 15) \<le> i" and "i < 2 ^ 15"
  shows "sint (word_of_int i :: sample) = i"
  using assms by (simp add: int_word_sint mod_pos_pos_trivial)

lemma widened: "push_bit 16 (ucast x :: u32) = word_of_int (65536 * sint (x :: sample))"
proof -
  have "push_bit 16 (ucast x :: u32) = push_bit 16 (scast x)"
  proof (rule bit_word_eqI)
    fix n :: nat
    assume "n < LENGTH(32)"
    then show "bit (push_bit 16 (ucast x :: u32)) n = bit (push_bit 16 (scast x :: u32)) n"
      by (cases "n = 31") (auto simp: bit_simps min_def)
  qed
  also have "\<dots> = word_of_int (65536 * sint x)"
    unfolding scast_eq push_bit_eq_mult of_int_mult by (simp only: of_int_numeral mult.commute power_numeral) simp
  finally show ?thesis .
qed

lemma top_half: "sint (ucast (drop_bit 16 (w :: u32)) :: sample) = sint w div 65536"
proof -
  have "(ucast (drop_bit 16 w) :: sample) = word_of_int (drop_bit 16 (sint w))"
    by (rule bit_word_eqI) (auto simp: bit_simps bit_sint_iff)
  moreover have "- (2 ^ 15) \<le> sint w div 65536" "sint w div 65536 < 2 ^ 15"
    using sint_ge [of w] sint_lt [of w] by simp_all
  ultimately show ?thesis using sint_of_range16 by (simp add: drop_bit_eq_div)
qed

text \<open>The offset the filter has learned is the difference of its states; it stays among the inputs.\<close>

lemma offset_stays:
  fixes X D :: int
  assumes "lo \<le> X" "X \<le> hi" "lo \<le> D" "D \<le> hi"
  shows "lo \<le> D + (X - D) div 1024" "D + (X - D) div 1024 \<le> hi"
proof -
  define q where "q = (X - D) div 1024"
  have q: "1024 * q \<le> X - D" "X - D < 1024 * q + 1024"
    using pos_mod_bound [of 1024 "X - D"] pos_mod_sign [of 1024 "X - D"] div_mult_mod_eq [of "X - D" 1024]
    by (simp_all add: q_def)
  show "lo \<le> D + (X - D) div 1024" "D + (X - D) div 1024 \<le> hi"
    unfolding q_def [symmetric] using q assms by (cases "q \<ge> 0"; linarith)+
qed

lemma dc_step:
  assumes "sint (prev_input_q16 d) = X" and "sint (prev_output_q16 d) = Y"
    and "- (2 ^ 30) \<le> X" "X \<le> 2 ^ 30 - 65536" "- (2 ^ 30) \<le> X - Y" "X - Y \<le> 2 ^ 30 - 65536"
    and "- 16384 \<le> sint x" "sint x \<le> 16383"
  defines "Z \<equiv> 65536 * sint x - X + Y - Y div 1024"
  shows "sint (fst (dc_process x d)) = Z div 65536" and "sint (prev_input_q16 (snd (dc_process x d))) = 65536 * sint x"
    and "sint (prev_output_q16 (snd (dc_process x d))) = Z" and "- (2 ^ 30) \<le> 65536 * sint x - Z" "65536 * sint x - Z \<le> 2 ^ 30 - 65536"
proof -
  let ?out = "push_bit 16 (ucast x) - prev_input_q16 d + prev_output_q16 d - signed_drop_bit 10 (prev_output_q16 d)"
  have learned: "65536 * sint x - Z = (X - Y) + (X - (X - Y)) div 1024" by (simp add: Z_def)
  show b: "- (2 ^ 30) \<le> 65536 * sint x - Z" "65536 * sint x - Z \<le> 2 ^ 30 - 65536"
    unfolding learned using offset_stays [OF assms(3,4,5,6)] by blast+
  have "prev_input_q16 d = word_of_int X" "prev_output_q16 d = word_of_int Y" unfolding assms(1,2) [symmetric] by simp_all
  moreover have "signed_drop_bit 10 (prev_output_q16 d) = word_of_int (Y div 1024)"
  proof -
    have "sint (signed_drop_bit 10 (prev_output_q16 d)) = Y div 1024"
      by (simp add: sint_signed_drop_bit_eq drop_bit_eq_div assms(2))
    then show ?thesis by (metis scast_eq scast_id)
  qed
  ultimately have out: "?out = word_of_int Z" by (simp add: widened Z_def)
  have z: "sint ?out = Z" unfolding out by (rule sint_of_range) (use b assms(7,8) in simp_all)
  show "sint (fst (dc_process x d)) = Z div 65536" "sint (prev_output_q16 (snd (dc_process x d))) = Z"
    by (simp_all only: dc_process_def Let_def fst_conv snd_conv dc_blocker.select_convs top_half z)
  show "sint (prev_input_q16 (snd (dc_process x d))) = 65536 * sint x"
    by (simp only: dc_process_def Let_def snd_conv dc_blocker.select_convs widened) (rule sint_of_range; use assms(7,8) in simp)
qed

lemma dc_run_ideal:
  assumes "sint (prev_input_q16 d) = X" and "sint (prev_output_q16 d) = Y"
    and "- (2 ^ 30) \<le> X" "X \<le> 2 ^ 30 - 65536" "- (2 ^ 30) \<le> X - Y" "X - Y \<le> 2 ^ 30 - 65536"
    and "\<forall>x\<in>set xs. - 16384 \<le> sint x \<and> sint x \<le> 16383"
  shows "map sint (dc_run xs d) = ideal_dc (map sint xs) X Y"
  using assms
proof (induction xs arbitrary: d X Y)
  case Nil
  then show ?case by simp
next
  case (Cons x xs)
  have x: "- 16384 \<le> sint x" "sint x \<le> 16383" using Cons.prems(7) by simp_all
  note st = dc_step [OF Cons.prems(1-6) x]
  have range: "- (2 ^ 30) \<le> 65536 * sint x" "65536 * sint x \<le> 2 ^ 30 - 65536" using x by simp_all
  have rest: "\<forall>x\<in>set xs. - 16384 \<le> sint x \<and> sint x \<le> 16383" using Cons.prems(7) by simp
  show ?case
    using Cons.IH [OF st(2) st(3) range st(4,5) rest] st(1) by (simp add: prod.case_eq_if Let_def)
qed

text \<open>
  C24: Below half of full scale the DC blocker is the filter it implements: on samples between -16384 and
  16383 its 32-bit states never wrap, and its output is that of the filter on unbounded integers, sample for
  sample and for streams of any length.
\<close>

theorem dc_blocker_is_exact:
  assumes "\<forall>x\<in>set xs. - 16384 \<le> sint x \<and> sint x \<le> 16383"
  shows "map sint (dc_run xs new_dc_blocker) = ideal_dc (map sint xs) 0 0"
  by (rule dc_run_ideal) (use assms in \<open>simp_all add: new_dc_blocker_def\<close>)

theorem dc_blocker_is_exact_witness:
  "map sint (dc_run [0x3FFF, 0xC000, 0x3FFF] new_dc_blocker) = ideal_dc [16383, - 16384, 16383] 0 0"
  using dc_blocker_is_exact [of "[0x3FFF, 0xC000, 0x3FFF]"] by (simp add: sint_numeral del: dc_run.simps ideal_dc.simps)

text \<open>
  Above that it wraps instead of saturating: after the lowest sample, the highest one comes out as
  -32737, where the filter gives 32799, so a swing over the full scale reaches the far end with the wrong sign.
\<close>

theorem dc_blocker_wraps_at_full_scale:
  "map sint (dc_run [0x8000, 0x7FFF] new_dc_blocker) = [- 32768, - 32737] \<and> ideal_dc [- 32768, 32767] 0 0 = [- 32768, 32799]"
  by (simp add: dc_process_def new_dc_blocker_def Let_def sint_numeral)

section \<open>The pace\<close>

text \<open>The turns of the send task; when it took a frame from the queue, and which.\<close>

fun tx_run :: "'r ring_ops \<Rightarrow> nat \<Rightarrow> tx_moment list \<Rightarrow> tx_clock \<times> 'r mic_path \<Rightarrow> (int \<times> bytes) list" where
  "tx_run ops rate [] km = []"
| "tx_run ops rate (e # es) km =
     (case tx_step ops rate e km of
        (act, km1) \<Rightarrow> (case act of TxSend c \<Rightarrow> [(tx_after e, c)] | TxDiscard c \<Rightarrow> [(tx_after e, c)] | _ \<Rightarrow> []) @
                       tx_run ops rate es km1)"

text \<open>A stretch of one stream: ready with one format throughout, on a clock that does not run back.\<close>

fun ticking :: "int \<Rightarrow> tx_moment list \<Rightarrow> bool" where
  "ticking t [] \<longleftrightarrow> True"
| "ticking t (e # es) \<longleftrightarrow> t \<le> tx_now e \<and> tx_now e \<le> tx_later e \<and> tx_later e \<le> tx_after e \<and> ticking (tx_after e) es"

definition steady_stream :: "u16 \<Rightarrow> tx_moment list \<Rightarrow> bool" where
  "steady_stream ms es \<longleftrightarrow> (\<forall>e\<in>set es. tx_ready e \<and> frame_ms (tx_format e) = ms) \<and> ms \<noteq> 0 \<and> unat ms < 256"

definition sending :: "'r mic_path \<Rightarrow> bool" where
  "sending m \<longleftrightarrow> mic_ring m \<noteq> None \<and> tx_audio_chunk_bytes m \<noteq> 0"

text \<open>The next deadline is no more than one interval ahead of the clock.\<close>

definition paced :: "u16 \<Rightarrow> int \<Rightarrow> tx_clock \<Rightarrow> bool" where
  "paced ms t k \<longleftrightarrow>
     ucast (paced_frame_ms k) = ms \<and> next_send_at k > 0 \<and> next_send_at k \<le> t + int (unat ms) * 1000"

lemma no_wait_no_time:
  assumes "ticks_until_deadline rate deadline now = 0" and "rate \<le> 1000" and "deadline \<le> now + 65536000"
  shows "deadline \<le> now"
proof (rule ccontr)
  assume late: "\<not> deadline \<le> now"
  define n where "n = max 1 ((nat (deadline - now) * rate + 999999) div 1000000)"
  have "nat (deadline - now) * rate \<le> 65536000 * 1000" using assms(2,3) by (intro mult_le_mono) auto
  then have "(nat (deadline - now) * rate + 999999) div 1000000 \<le> (65536000 * 1000 + 999999) div 1000000"
    by (intro div_le_mono) simp
  then have n: "1 \<le> n" "n \<le> 65537" by (simp_all add: n_def)
  have "(of_nat n :: u32) = 0" using assms(1) late by (simp add: ticks_until_deadline_def n_def)
  then have "unat (of_nat n :: u32) = 0" by simp
  then show False using n by (simp add: unat_of_nat take_bit_eq_mod)
qed

text \<open>A turn of a paced stream: nothing, or one frame no earlier than its deadline, which moves on by an interval.\<close>

lemma paced_turn:
  assumes "paced ms t k" and "sending m" and "tx_ready e" and "frame_ms (tx_format e) = ms" and "ms \<noteq> 0" and "rate \<le> 1000"
    and "t \<le> tx_now e" "tx_now e \<le> tx_later e" "tx_later e \<le> tx_after e"
  shows "(\<exists>act m1. tx_step ops rate e (k, m) = (act, k, m1) \<and> (\<forall>c. act \<noteq> TxSend c \<and> act \<noteq> TxDiscard c) \<and> sending m1) \<or>
    (\<exists>act c m1. tx_step ops rate e (k, m) = (act, k\<lparr>next_send_at := next_send_at k + int (unat ms) * 1000\<rparr>, m1) \<and>
       (act = TxSend c \<or> act = TxDiscard c) \<and> sending m1 \<and> next_send_at k \<le> tx_after e)" (is "?nothing \<or> ?frame")
proof -
  obtain ring where r: "mic_ring m = Some ring" and n: "tx_audio_chunk_bytes m \<noteq> 0" using assms(2) by (auto simp: sending_def)
  let ?n = "tx_audio_chunk_bytes m"
  have k: "ucast (paced_frame_ms k) = ms" "next_send_at k \<noteq> 0" "next_send_at k \<le> t + int (unat ms) * 1000"
    using assms(1) by (simp_all add: paced_def)
  have go: "\<not> (\<not> tx_ready e \<or> ?n = 0 \<or> frame_ms (tx_format e) = 0)" "\<not> ucast (paced_frame_ms k) \<noteq> frame_ms (tx_format e)"
    using assms(3,4,5) n k(1) by simp_all
  note open1 = tx_step_def prod.case r option.case Let_def if_not_P [OF go(1)] if_not_P [OF go(2)]
  have kept: "sending (m\<lparr>media_tx_queue_depth := x\<rparr>)" "sending (m\<lparr>mic_ring := Some ring1\<rparr>)"
    "sending (m\<lparr>mic_ring := Some ring1, media_tx_queue_depth := x\<rparr>)" for x ring1
    using n r by (simp_all add: sending_def)
  show ?thesis
  proof (cases "ring_available ops ring < ?n")
    case True
    have "tx_step ops rate e (k, m) = (TxWait, k, m\<lparr>media_tx_queue_depth := 0\<rparr>)" unfolding open1 if_P [OF True] by (rule refl)
    then have ?nothing using kept(1) by simp
    then show ?thesis ..
  next
    case full: False
    show ?thesis
    proof (cases "next_send_at k \<noteq> 0 \<and> tx_now e < next_send_at k \<and> ticks_until_deadline rate (next_send_at k) (tx_later e) > 0")
      case True
      have "tx_step ops rate e (k, m) = (TxWaitTicks (ticks_until_deadline rate (next_send_at k) (tx_later e)), k, m)"
        unfolding open1 if_not_P [OF full] if_P [OF True] by (rule refl)
      then have ?nothing using assms(2) by simp
      then show ?thesis ..
    next
      case now: False
      have due: "next_send_at k \<le> tx_after e"
      proof (cases "tx_now e < next_send_at k")
        case True
        then have "ticks_until_deadline rate (next_send_at k) (tx_later e) = 0" using now k(2) by (simp add: word_gt_0)
        moreover have "next_send_at k \<le> tx_later e + 65536000"
          using k(3) assms(7,8) uint_lt2p [of ms] by simp
        ultimately show ?thesis using no_wait_no_time assms(6,9) by (metis order_trans)
      qed (use assms(8,9) in simp)
      obtain chunk ring1 where rd: "ring_read ops ?n ring = (chunk, ring1)" by (cases "ring_read ops ?n ring")
      show ?thesis
      proof (cases "length chunk = ?n")
        case True
        have "tx_step ops rate e (k, m) = (if tx_still_ready e then TxSend chunk else TxDiscard chunk,
            k\<lparr>next_send_at := next_send_at k + int (unat ms) * 1000\<rparr>,
            m\<lparr>mic_ring := Some ring1, media_tx_queue_depth := of_nat (ring_available ops ring1 div max 1 ?n)\<rparr>)"
          unfolding open1 if_not_P [OF full] if_not_P [OF now] rd using True k(2) assms(4) by simp
        then have ?frame using kept(3) due by auto
        then show ?thesis ..
      next
        case False
        have "tx_step ops rate e (k, m) = (TxAgain, k, m\<lparr>mic_ring := Some ring1\<rparr>)"
          unfolding open1 if_not_P [OF full] if_not_P [OF now] rd using False by simp
        then have ?nothing using kept(2) by simp
        then show ?thesis ..
      qed
    qed
  qed
qed

lemma paced_run:
  assumes "paced ms t k" and "sending m" and "steady_stream ms es" and "rate \<le> 1000" and "ticking t es" and "0 \<le> t"
    and "i < length (tx_run ops rate es (k, m))"
  shows "next_send_at k + int i * (int (unat ms) * 1000) \<le> fst (tx_run ops rate es (k, m) ! i)"
  using assms
proof (induction es arbitrary: k m t i)
  case Nil
  then show ?case by simp
next
  case (Cons e es)
  let ?I = "int (unat ms) * 1000"
  have e: "tx_ready e" "frame_ms (tx_format e) = ms" "ms \<noteq> 0" "t \<le> tx_now e" "tx_now e \<le> tx_later e" "tx_later e \<le> tx_after e"
    and st: "steady_stream ms es" "ticking (tx_after e) es" "0 \<le> tx_after e"
    using Cons.prems(3,5,6) by (auto simp: steady_stream_def)
  have "0 < unat ms" using e(3) by (simp add: unat_eq_0 zero_less_iff_neq_zero)
  then have pos: "0 < ?I" by linarith
  have later: "paced ms (tx_after e) k" using Cons.prems(1) e(4,5,6) by (simp add: paced_def)
  from paced_turn [OF Cons.prems(1,2) e(1,2,3) Cons.prems(4) e(4,5,6), of ops]
  consider act m1 where "tx_step ops rate e (k, m) = (act, k, m1)" "\<forall>c. act \<noteq> TxSend c \<and> act \<noteq> TxDiscard c" "sending m1"
    | act c m1 where "tx_step ops rate e (k, m) = (act, k\<lparr>next_send_at := next_send_at k + ?I\<rparr>, m1)"
      "sending m1" "next_send_at k \<le> tx_after e" "act = TxSend c \<or> act = TxDiscard c"
    by blast
  then show ?case
  proof cases
    case s: (1 act m1)
    have run: "tx_run ops rate (e # es) (k, m) = tx_run ops rate es (k, m1)"
      using s(2) by (simp add: s(1) split: tx_action.split)
    show ?thesis using Cons.IH [OF later s(3) st(1) Cons.prems(4) st(2,3)] Cons.prems(7) by (simp only: run)
  next
    case s: (2 act c m1)
    let ?k1 = "k\<lparr>next_send_at := next_send_at k + ?I\<rparr>"
    have run: "tx_run ops rate (e # es) (k, m) = (tx_after e, c) # tx_run ops rate es (?k1, m1)"
      using s(4) by (auto simp: s(1))
    have p1: "paced ms (tx_after e) ?k1" using Cons.prems(1) s(3) pos by (simp add: paced_def)
    show ?thesis
    proof (cases i)
      case 0
      then show ?thesis using s(3) by (simp only: run) simp
    next
      case (Suc j)
      have "next_send_at ?k1 + int j * ?I \<le> fst (tx_run ops rate es (?k1, m1) ! j)"
        using Cons.IH [OF p1 s(2) st(1) Cons.prems(4) st(2,3), of j] Cons.prems(7) by (simp only: run Suc) simp
      then show ?thesis unfolding run Suc nth_Cons_Suc by (simp add: algebra_simps)
    qed
  qed
qed

text \<open>
  C23: The send task keeps the pace of the format. On a steady stream and a clock that does not run back, a
  task that has sent a frame and set its first deadline takes the i-th frame after it no earlier than that
  deadline plus i intervals, whatever the wake-ups, the waits and the filling of the queue.
\<close>

theorem frames_keep_their_pace:
  assumes "paced_frame_ms k = ucast ms" and "unat ms < 256" and "0 < next_send_at k" "next_send_at k \<le> t + int (unat ms) * 1000"
    and "sending m" and "steady_stream ms es" and "rate \<le> 1000" and "0 \<le> t" and "ticking t es"
  shows "\<forall>i<length (tx_run ops rate es (k, m)).
    next_send_at k + int i * (int (unat ms) * 1000) \<le> fst (tx_run ops rate es (k, m) ! i)"
proof -
  have "ucast (ucast ms :: byte) = ms"
    using assms(2) by (simp add: word_unat_eq_iff unsigned_ucast_eq unsigned_take_bit_eq take_bit_nat_eq_self)
  then have "paced ms t k" using assms(1,3,4) by (simp add: paced_def)
  from paced_run [OF this assms(5,6,7,9,8)] show ?thesis by blast
qed

text \<open>A queue of bytes that drops the oldest when it is full.\<close>

definition byte_ring :: "nat \<Rightarrow> bytes ring_ops" where
  "byte_ring capacity =
     \<lparr>ring_free = \<lambda>r. capacity - length r, ring_available = length,
      ring_write = \<lambda>bs r. (length bs, drop (length r + length bs - capacity) (r @ bs)),
      ring_read = \<lambda>n r. (take n r, drop n r)\<rparr>"

definition sample_path :: "bytes \<Rightarrow> bytes mic_path" where
  "sample_path r = \<lparr>mic_ring = Some r, tx_audio_chunk_bytes = 2, tx_max_chunk_bytes = 2, media_tx_queue_depth = 0,
     media_tx_queue_drops = 0, dc_blockers = (new_dc_blocker, new_dc_blocker), dc_channel_phase = 0\<rparr>"

definition sample_moment :: "int \<Rightarrow> tx_moment" where
  "sample_moment t = \<lparr>tx_ready = True, tx_still_ready = True, tx_format = default_audio_format, tx_now = t, tx_later = t, tx_after = t\<rparr>"

theorem frames_keep_their_pace_witness:
  "32000 \<le> fst (tx_run (byte_ring 64) 1000 [sample_moment 17000, sample_moment 90000, sample_moment 90001]
     (\<lparr>next_send_at = 16000, paced_frame_ms = ucast (frame_ms default_audio_format)\<rparr>, sample_path [1, 2, 3, 4, 5, 6]) ! 1)"
proof -
  let ?k = "\<lparr>next_send_at = 16000, paced_frame_ms = ucast (frame_ms default_audio_format)\<rparr>"
  let ?es = "[sample_moment 17000, sample_moment 90000, sample_moment 90001]"
  let ?r = "tx_run (byte_ring 64) 1000 ?es (?k, sample_path [1, 2, 3, 4, 5, 6])"
  have "steady_stream (frame_ms default_audio_format) ?es"
    "sending (sample_path [1, 2, 3, 4, 5, 6])" "unat (frame_ms default_audio_format) < 256"
    by (simp_all add: steady_stream_def sending_def sample_path_def sample_moment_def default_audio_format_def)
  then have paced: "\<forall>i<length ?r. 16000 + int i * (int (unat (frame_ms default_audio_format)) * 1000) \<le> fst (?r ! i)"
    using frames_keep_their_pace [of ?k "frame_ms default_audio_format" 16000 "sample_path [1, 2, 3, 4, 5, 6]" ?es 1000 "byte_ring 64"]
    by (simp add: sample_moment_def del: tx_run.simps)
  have "length ?r = 3"
    by (simp add: tx_step_def byte_ring_def sample_path_def sample_moment_def default_audio_format_def ticks_until_deadline_def)
  then have "16000 + int 1 * (int (unat (frame_ms default_audio_format)) * 1000) \<le> fst (?r ! 1)"
    by (intro paced [rule_format]) (simp only:)
  moreover have "int (unat (frame_ms default_audio_format)) = 16" by (simp add: default_audio_format_def)
  ultimately show ?thesis by (simp del: tx_run.simps)
qed

section \<open>The queue\<close>

text \<open>
  The microphone queue keeps the newest audio. With a ring buffer that takes a block no longer than itself
  whole and drops its oldest bytes for it, the queue holds after a write the last bytes of all that was in it and
  of the block, as many as fit; what no longer fits is counted, in frames rounded up, and the caller is told
  whether the block was taken whole.
\<close>

theorem mic_queue_keeps_newest:
  fixes contents :: "'r \<Rightarrow> bytes"
  assumes free: "\<And>r. ring_free ops r = capacity - length (contents r)"
    and bound: "\<And>r. length (contents r) \<le> capacity"
    and taken: "\<And>bs r. length bs \<le> capacity \<Longrightarrow> fst (ring_write ops bs r) = length bs \<and>
      contents (snd (ring_write ops bs r)) = drop (length (contents r) + length bs - capacity) (contents r @ bs)"
    and "mic_ring m = Some ring" and "bs \<noteq> []" and "capacity = tx_audio_buffer_bytes audio_stack (tx_max_chunk_bytes m)"
  defines "lost \<equiv> length (contents ring) + length bs - capacity"
  shows "\<exists>ring1. mic_ring (snd (write_mic_buffer ops audio_stack (Some bs) m)) = Some ring1 \<and>
      contents ring1 = drop lost (contents ring @ bs) \<and>
      media_tx_queue_drops (snd (write_mic_buffer ops audio_stack (Some bs) m)) =
        media_tx_queue_drops m + frames_for_bytes lost (tx_audio_chunk_bytes m) \<and>
      fst (write_mic_buffer ops audio_stack (Some bs) m) = (length bs \<le> capacity)"
proof -
  let ?skipped = "length bs - capacity" and ?c = "length (contents ring)"
  let ?kept = "drop ?skipped bs"
  have k: "length ?kept \<le> capacity" by simp
  obtain written ring1 where w: "ring_write ops ?kept ring = (written, ring1)" by (cases "ring_write ops ?kept ring")
  have wr: "written = length ?kept" "contents ring1 = drop (?c + length ?kept - capacity) (contents ring @ ?kept)"
    using taken [OF k, of ring] by (simp_all add: w)
  have lost: "?skipped + (if capacity - ?c < length ?kept then length ?kept - (capacity - ?c) else 0) = lost"
    using bound [of ring] by (auto simp: lost_def)
  have keep: "contents ring1 = drop lost (contents ring @ bs)"
    unfolding wr(2) lost_def by (cases "length bs \<le> capacity") (simp_all add: drop_append)
  have zero: "(if lost > 0 then frames_for_bytes lost (tx_audio_chunk_bytes m) else 0) = frames_for_bytes lost (tx_audio_chunk_bytes m)"
    by (simp add: frames_for_bytes_def)
  have "write_mic_buffer ops audio_stack (Some bs) m =
      (length bs \<le> capacity, m\<lparr>mic_ring := Some ring1,
         media_tx_queue_drops := media_tx_queue_drops m + frames_for_bytes lost (tx_audio_chunk_bytes m)\<rparr>)"
    unfolding write_mic_buffer_def assms(4) prod.case option.case if_not_P [OF assms(5)] Let_def assms(6) [symmetric] w
      free wr(1) less_irrefl if_False add_0_right lost zero
    by (simp add: frames_for_bytes_def)
  with keep show ?thesis by simp
qed

theorem mic_queue_keeps_newest_witness:
  "\<exists>ring1. mic_ring (snd (write_mic_buffer (byte_ring 4098) False (Some (replicate 5000 7)) (sample_path [1, 2, 3]))) = Some ring1 \<and>
     drop (length ring1 - 4098) ring1 = replicate 4098 7"
proof -
  have cap: "4098 = tx_audio_buffer_bytes False (tx_max_chunk_bytes (sample_path [1, 2, 3]))"
    by (simp add: tx_audio_buffer_bytes_def sample_path_def)
  have ring: "mic_ring (sample_path [1, 2, 3]) = Some [1, 2, 3]" and some: "replicate 5000 (7 :: byte) \<noteq> []"
    by (simp_all add: sample_path_def)
  let ?last = "\<lambda>r :: bytes. drop (length r - 4098) r"
  have free: "ring_free (byte_ring 4098) r = 4098 - length (?last r)" and bound: "length (?last r) \<le> 4098" for r
    by (simp_all add: byte_ring_def)
  have taken: "fst (ring_write (byte_ring 4098) bs r) = length bs \<and>
      ?last (snd (ring_write (byte_ring 4098) bs r)) = drop (length (?last r) + length bs - 4098) (?last r @ bs)"
    if "length bs \<le> 4098" for bs r
    using that by (cases "length r \<le> 4098") (auto simp: byte_ring_def drop_append add.commute)
  show ?thesis
    using mic_queue_keeps_newest [OF free bound taken ring some cap] by (auto simp: drop_replicate)
qed

end
