(* ===== verification/RtpAudio.thy ===== *)
theory RtpAudio
  imports OpusCodec JitterBuffer VideoSendProps SipDialog
begin

text \<open>
  The audio packets of \<open>sip_transport.cpp\<close>: \<open>send_audio_frame\<close> and what the RTP task does with one datagram. The
  state is that of the transport, whose \<open>rtp_latch\<close> is the latched source, and the counters of the stream.
  Two tasks and the signaling task share the atomics: what a load of \<open>rtp_running_\<close> and
  \<open>media_proposal_epoch_\<close> sees is a parameter, by the number of the load, and so is the result of \<open>sendto\<close>. Builds
  with video pacing and with debug counters are left out.
\<close>

record rtp_audio =
  rtp_sequence :: u16
  rtp_timestamp :: u32
  rtp_ssrc :: u32
  rtp_tx_packets :: u32
  rtp_tx_bytes :: u32
  rtp_rx_packets :: u32
  rtp_rx_bytes :: u32

record audio_env =
  running_at :: "nat \<Rightarrow> bool"
  epoch_at :: "nat \<Rightarrow> u32"
  audio_taken :: "bytes \<Rightarrow> nat"
  codec_lib :: opus_lib

section \<open>Sending\<close>

definition pcm_samples :: "audio_format \<Rightarrow> nat \<Rightarrow> u32" where
  "pcm_samples f n =
     (let bps = unat (container_bytes_per_sample (pcm_format f)) in
      if bps = 0 \<or> channels f = 0 then 0 else of_nat (n div bps div unat (channels f)))"

definition timestamp_samples :: "audio_format \<Rightarrow> nat \<Rightarrow> u32" where
  "timestamp_samples f n =
     (if codec f = OPUS then of_nat (48000 * unat (frame_ms f) div 1000) else pcm_samples f n)"

definition audio_payload :: "opus_lib \<Rightarrow> opus_codec \<Rightarrow> bool \<Rightarrow> audio_format \<Rightarrow> bytes \<Rightarrow> bytes" where
  "audio_payload lib c opus_build f pcm =
     (if opus_build \<and> codec f = OPUS then opus_encode lib c pcm f 1488 else pcm_to_rtp_payload pcm (pcm_format f) 1488)"

text \<open>
  A frame that is not sent still advances the time, not the sequence number. The datagram that left,
  if one did, with its destination.
\<close>

definition send_audio_frame ::
    "audio_env \<Rightarrow> opus_codec \<Rightarrow> sip_state \<Rightarrow> bytes option \<Rightarrow> rtp_audio \<Rightarrow> (u32 \<times> u16 \<times> bytes) option \<times> rtp_audio" where
  "send_audio_frame env c s frame a =
     (case frame of
        None \<Rightarrow> (None, a)
      | Some pcm \<Rightarrow>
          if \<not> running_at env 0 \<or> pcm = [] then (None, a)
          else if epoch_at env 0 AND 1 \<noteq> 0 then (None, a)
          else
            let e = sdp s; f = selected_tx_format e in
            if \<not> format_valid f then (None, a)
            else
              let ticks = timestamp_samples f (length pcm);
                  payload = audio_payload (codec_lib env) c (has_opus (ep_build e)) f pcm;
                  skipped = a\<lparr>rtp_timestamp := rtp_timestamp a + ticks\<rparr>
              in if payload = [] \<or> length payload > unat (udp_max_payload e) then (None, skipped)
                 else if epoch_at env 1 \<noteq> epoch_at env 0 then (None, skipped)
                 else if \<not> running_at env 1 \<or> \<not> rtp_bound s then (None, a)
                 else if remote_rtp_ip e = 0 \<or> remote_rtp_port e = 0 then (None, a)
                 else if epoch_at env 2 \<noteq> epoch_at env 0 then (None, skipped)
                 else
                   let packet = [0x80, rtp_tx_payload_type e AND 0x7F] @ write_be16 (rtp_sequence a) @
                                write_be32 (rtp_timestamp a) @ write_be32 (rtp_ssrc a) @ payload;
                       a1 = a\<lparr>rtp_sequence := rtp_sequence a + 1, rtp_timestamp := rtp_timestamp a + ticks\<rparr>;
                       sent = audio_taken env packet
                   in if \<not> running_at env 2 \<or> sent = 0 then (None, a1)
                      else (Some (remote_rtp_ip e, remote_rtp_port e, packet),
                            a1\<lparr>rtp_tx_packets := rtp_tx_packets a1 + 1, rtp_tx_bytes := rtp_tx_bytes a1 + of_nat sent\<rparr>))"

section \<open>Receiving\<close>

text \<open>The payload of a packet: where it starts and its length, padding taken off.\<close>

definition audio_payload_bounds :: "bytes \<Rightarrow> (nat \<times> nat) option" where
  "audio_payload_bounds buf =
     (let n = length buf; header = 12 + unat (buf ! 0 AND 0x0F) * 4 in
      if n \<le> header then None
      else if buf ! 0 AND 0x10 \<noteq> 0 \<and> n < header + 4 then None
      else
        let at = (if buf ! 0 AND 0x10 \<noteq> 0 then header + 4 + unat (read_be16 (drop (header + 2) buf)) * 4 else header)
        in if n \<le> at then None
           else if buf ! 0 AND 0x20 \<noteq> 0 \<and> (buf ! (n - 1) = 0 \<or> unat (buf ! (n - 1)) > n - at) then None
           else Some (at, if buf ! 0 AND 0x20 \<noteq> 0 then n - at - unat (buf ! (n - 1)) else n - at))"

text \<open>A PCM payload has to be one whole frame; an Opus payload is passed on as it is.\<close>

definition received_audio :: "audio_format \<Rightarrow> bytes \<Rightarrow> bytes option" where
  "received_audio f payload =
     (if codec f = PCM then
        (let pcm = rtp_payload_to_pcm payload (pcm_format f) 2048 in
         if pcm = [] \<or> length pcm \<noteq> unat (nominal_frame_bytes f) then None else Some pcm)
      else Some payload)"

text \<open>
  The source check: \<open>None\<close> when the packet is not of the latched source, otherwise whether the source
  has changed, and the latch and the remote port after it.
\<close>

definition latch_source :: "u32 \<Rightarrow> u16 \<Rightarrow> u32 \<Rightarrow> sip_state \<Rightarrow> (bool \<times> sip_state) option" where
  "latch_source src sport ssrc s =
     (case rtp_latch s of (latched_ip, latched_port, latched_ssrc, latched) \<Rightarrow>
        if latched \<and> latched_ip \<noteq> src then None
        else if latched \<and> latched_ssrc \<noteq> ssrc then
          (if latched_port \<noteq> sport then None
           else Some (True, s\<lparr>rtp_latch := (latched_ip, latched_port, ssrc, latched)\<rparr>))
        else if \<not> latched then
          Some (False, s\<lparr>rtp_latch := (src, sport, ssrc, True), sdp := (sdp s)\<lparr>remote_rtp_port := sport\<rparr>\<rparr>)
        else if latched_port \<noteq> sport then
          Some (False, s\<lparr>rtp_latch := (latched_ip, sport, latched_ssrc, latched), sdp := (sdp s)\<lparr>remote_rtp_port := sport\<rparr>\<rparr>)
        else Some (False, s))"

definition count_received :: "nat \<Rightarrow> rtp_audio \<Rightarrow> rtp_audio" where
  "count_received n a = a\<lparr>rtp_rx_packets := rtp_rx_packets a + 1, rtp_rx_bytes := rtp_rx_bytes a + of_nat n\<rparr>"

text \<open>One datagram of the RTP task, cut to its buffer; the frame given to the call, if there is one.\<close>

definition audio_datagram ::
    "audio_env \<Rightarrow> u32 \<Rightarrow> u16 \<Rightarrow> bytes \<Rightarrow> sip_state \<times> rtp_audio \<Rightarrow> frame option \<times> sip_state \<times> rtp_audio" where
  "audio_datagram env src sport datagram sa =
     (case sa of (s, a) \<Rightarrow>
      let buf = take 1600 datagram; n = length buf; ignored = (None, s, a) in
      if n \<le> 12 \<or> buf ! 0 AND 0xC0 \<noteq> 0x80 then ignored
      else if \<not> media_active s then ignored
      else if epoch_at env 0 AND 1 \<noteq> 0 then ignored
      else if remote_rtp_ip (sdp s) \<noteq> 0 \<and> src \<noteq> remote_rtp_ip (sdp s) then ignored
      else case audio_payload_bounds buf of
             None \<Rightarrow> ignored
           | Some (at, room) \<Rightarrow>
               case payload_find (negotiated_rx_payloads (sdp s)) (buf ! 1 AND 0x7F) of
                 None \<Rightarrow> ignored
               | Some f \<Rightarrow>
                   case received_audio f (take room (drop at buf)) of
                     None \<Rightarrow> ignored
                   | Some audio \<Rightarrow>
                       if epoch_at env 1 \<noteq> epoch_at env 0 then ignored
                       else case latch_source src sport (read_be32 (drop 8 buf)) s of
                              None \<Rightarrow> ignored
                            | Some (changed, s1) \<Rightarrow>
                                (Some \<lparr>frame_pcm = Some audio, frame_sequence = read_be16 (drop 2 buf),
                                       frame_timestamp = read_be32 (drop 4 buf), frame_has_metadata = True,
                                       frame_source_changed = changed, frame_format_packed = pack_audio_format f\<rparr>,
                                 s1, count_received n a))"

end
