(* ===== verification/RtpAudioProps.thy ===== *)
theory RtpAudioProps
  imports RtpAudio SdpAnswer
begin

text \<open>
  Audio across the link: what one side sends is read back by the other as the same frames with consecutive
  sequence numbers, and which datagrams a call can hear at all.
\<close>

section \<open>One packet\<close>

text \<open>Nobody stops the path or proposes new media while a frame is under way.\<close>

definition steady :: "audio_env \<Rightarrow> bool" where
  "steady env \<longleftrightarrow> (\<forall>n. running_at env n) \<and> (\<forall>n. epoch_at env n = epoch_at env 0) \<and> epoch_at env 0 AND 1 = 0"

text \<open>A format the session description can name: the payload of one frame, and that it fits the packet.\<close>

lemma frame_payload:
  assumes "format_valid f" and "codec f = PCM" and "audio_format_rtp_encoding f room \<noteq> None" and "room \<le> 1488"
    and "length pcm = unat (nominal_frame_bytes f)" and "pcm_format f = S24LE_IN_S32 \<longrightarrow> sign_extended pcm"
  shows "pcm_to_rtp_payload pcm (pcm_format f) 1488 \<noteq> []"
    and "length (pcm_to_rtp_payload pcm (pcm_format f) 1488) = unat (nominal_rtp_payload_bytes f)"
    and "nominal_rtp_payload_bytes f \<le> room"
    and "received_audio f (pcm_to_rtp_payload pcm (pcm_format f) 1488) = Some pcm"
    and "pcm_samples f (length pcm) = nominal_frame_samples f"
proof -
  let ?s = "unat (nominal_frame_samples f)" and ?c = "unat (channels f)"
  note sizes = frame_sizes [OF assms(1)]
  have fmt: "pcm_format f = S16LE \<or> pcm_format f = S24LE \<or> pcm_format f = S24LE_IN_S32"
    and room: "nominal_rtp_payload_bytes f \<le> room"
    using assms(2,3) by (auto simp: audio_format_rtp_encoding_def split: if_splits)
  have small: "unat (nominal_rtp_payload_bytes f) \<le> 1488"
    using order_trans [OF room assms(4)] by (simp add: word_le_nat_alt)
  have wire: "wire_bytes (pcm_format f) (length pcm) = Some (unat (nominal_rtp_payload_bytes f))"
    using fmt by (elim disjE) (simp_all add: wire_bytes_def assms(5) sizes rtp_bytes_per_sample_def)
  have pos: "0 < unat (nominal_frame_bytes f)" by (rule sizes(5))
  show p: "pcm_to_rtp_payload pcm (pcm_format f) 1488 \<noteq> []"
    using wire small pos assms(5) by (auto simp: pcm_rejected)
  show len: "length (pcm_to_rtp_payload pcm (pcm_format f) 1488) = unat (nominal_rtp_payload_bytes f)"
    using pcm_to_rtp_length [OF p] wire by simp
  show "nominal_rtp_payload_bytes f \<le> room" by (rule room)
  have "length pcm \<le> 2048"
    using fmt small sizes(2,3) assms(5) by (elim disjE) (simp_all add: rtp_bytes_per_sample_def)
  then have "rtp_payload_to_pcm (pcm_to_rtp_payload pcm (pcm_format f) 1488) (pcm_format f) 2048 = pcm"
    using pcm_encoded_decodes [OF p, of 2048] assms(6) by blast
  then show "received_audio f (pcm_to_rtp_payload pcm (pcm_format f) 1488) = Some pcm"
    using pos assms(5) by (auto simp: received_audio_def assms(2))
  have "?c \<noteq> 0" "unat (container_bytes_per_sample (pcm_format f)) \<noteq> 0" using pos sizes(2) by (auto intro: ccontr)
  then show "pcm_samples f (length pcm) = nominal_frame_samples f"
    by (simp add: pcm_samples_def Let_def assms(5) sizes(2) unat_eq_0)
qed

lemma low_type: "(pt :: byte) AND 0x7F \<le> 127"
  using word_and_le1 [of pt "0x7F"] by simp

text \<open>A packet built by the sender, in the words of \<open>rtp_packet\<close>, and what the receiver takes from it.\<close>

lemma audio_packet_is:
  "[0x80, pt AND 0x7F] @ write_be16 q @ write_be32 t @ write_be32 ssrc @ payload = rtp_packet (pt AND 0x7F) False q t ssrc payload"
  by (simp add: rtp_packet_def)

lemma audio_packet_bounds:
  assumes "pt \<le> 127" and "payload \<noteq> []"
  shows "audio_payload_bounds (rtp_packet pt False q t ssrc payload) = Some (12, length payload)"
    and "rtp_packet pt False q t ssrc payload ! 0 = 0x80" and "rtp_packet pt False q t ssrc payload ! 1 = pt"
  using assms by (simp_all add: audio_payload_bounds_def rtp_packet_def Let_def)

definition sender_ready :: "audio_env \<Rightarrow> sip_state \<Rightarrow> bool" where
  "sender_ready env s \<longleftrightarrow>
     steady env \<and> (\<forall>p. audio_taken env p \<noteq> 0) \<and> rtp_bound s \<and> remote_rtp_ip (sdp s) \<noteq> 0 \<and> remote_rtp_port (sdp s) \<noteq> 0 \<and>
     format_valid (selected_tx_format (sdp s)) \<and> codec (selected_tx_format (sdp s)) = PCM \<and>
     audio_format_rtp_encoding (selected_tx_format (sdp s)) (udp_max_payload (sdp s)) \<noteq> None \<and>
     udp_max_payload (sdp s) \<le> 1488"

definition receiver_ready :: "audio_env \<Rightarrow> u32 \<Rightarrow> u16 \<Rightarrow> u32 \<Rightarrow> byte \<Rightarrow> audio_format \<Rightarrow> sip_state \<Rightarrow> bool" where
  "receiver_ready env src sport ssrc pt f s \<longleftrightarrow>
     steady env \<and> media_active s \<and> (remote_rtp_ip (sdp s) = 0 \<or> remote_rtp_ip (sdp s) = src) \<and>
     payload_find (negotiated_rx_payloads (sdp s)) pt = Some f \<and>
     (\<not> snd (snd (snd (rtp_latch s))) \<or> rtp_latch s = (src, sport, ssrc, True))"

definition whole_frame :: "audio_format \<Rightarrow> bytes \<Rightarrow> bool" where
  "whole_frame f pcm \<longleftrightarrow> length pcm = unat (nominal_frame_bytes f) \<and> (pcm_format f = S24LE_IN_S32 \<longrightarrow> sign_extended pcm)"

definition advance_sent :: "audio_env \<Rightarrow> u32 \<Rightarrow> bytes \<Rightarrow> rtp_audio \<Rightarrow> rtp_audio" where
  "advance_sent env ticks packet a =
     a\<lparr>rtp_sequence := rtp_sequence a + 1, rtp_timestamp := rtp_timestamp a + ticks,
       rtp_tx_packets := rtp_tx_packets a + 1, rtp_tx_bytes := rtp_tx_bytes a + of_nat (audio_taken env packet)\<rparr>"

lemma frame_is_sent:
  fixes a :: rtp_audio
  assumes "sender_ready env s" and "whole_frame (selected_tx_format (sdp s)) pcm"
  defines "f \<equiv> selected_tx_format (sdp s)"
  defines "packet \<equiv> rtp_packet (rtp_tx_payload_type (sdp s) AND 0x7F) False (rtp_sequence a) (rtp_timestamp a) (rtp_ssrc a)
      (pcm_to_rtp_payload pcm (pcm_format f) 1488)"
  shows "send_audio_frame env c s (Some pcm) a =
    (Some (remote_rtp_ip (sdp s), remote_rtp_port (sdp s), packet), advance_sent env (nominal_frame_samples f) packet a)"
proof -
  note r = assms(1) [unfolded sender_ready_def steady_def]
  have run: "running_at env n" and ep: "epoch_at env n = epoch_at env 0" "epoch_at env 0 AND 1 = 0" for n
    using r by blast+
  have v: "format_valid f" and pcm: "codec f = PCM" using r by (simp_all add: f_def)
  note p = frame_payload [OF v pcm, of "udp_max_payload (sdp s)" pcm]
  have w: "audio_format_rtp_encoding f (udp_max_payload (sdp s)) \<noteq> None" "udp_max_payload (sdp s) \<le> 1488"
      "length pcm = unat (nominal_frame_bytes f)" "pcm_format f = S24LE_IN_S32 \<longrightarrow> sign_extended pcm"
    using r assms(2) by (simp_all add: f_def whole_frame_def)
  note p = p [OF w]
  have ne: "pcm \<noteq> []" using w(3) frame_sizes(5) [OF v] by auto
  have pay: "audio_payload lib c b f pcm = pcm_to_rtp_payload pcm (pcm_format f) 1488" for lib b
    by (simp add: audio_payload_def pcm)
  have fits: "\<not> length (pcm_to_rtp_payload pcm (pcm_format f) 1488) > unat (udp_max_payload (sdp s))"
    using p(2,3) by (simp add: word_le_nat_alt)
  have t: "timestamp_samples f (length pcm) = nominal_frame_samples f" using p(5) by (simp add: timestamp_samples_def pcm)
  have e1: "epoch_at env 1 = epoch_at env 0" "epoch_at env 2 = epoch_at env 0" by (rule ep(1))+
  have addr: "remote_rtp_ip (sdp s) \<noteq> 0" "remote_rtp_port (sdp s) \<noteq> 0" "rtp_bound s" "\<And>p. audio_taken env p \<noteq> 0"
    using r by blast+
  show ?thesis
    unfolding send_audio_frame_def option.case Let_def f_def [symmetric] pay t audio_packet_is packet_def [symmetric]
    by (simp add: run ep(2) e1 ne v p(1) fits addr advance_sent_def del: One_nat_def)
qed

lemma receiver_latch:
  assumes "receiver_ready env src sport ssrc pt f s"
  shows "\<exists>s1. latch_source src sport ssrc s = Some (False, s1) \<and> receiver_ready env src sport ssrc pt f s1 \<and>
    rtp_latch s1 = (src, sport, ssrc, True)"
proof (cases "snd (snd (snd (rtp_latch s)))")
  case True
  then have l: "rtp_latch s = (src, sport, ssrc, True)" using assms by (simp add: receiver_ready_def)
  then show ?thesis using assms by (simp add: latch_source_def)
next
  case False
  then obtain a b d where l: "rtp_latch s = (a, b, d, False)" by (cases "rtp_latch s") auto
  then show ?thesis using assms by (simp add: latch_source_def receiver_ready_def)
qed

lemma frame_is_received:
  assumes "receiver_ready env src sport ssrc pt f s" and "pt \<le> 127" and "payload \<noteq> []" and "length payload \<le> 1488"
    and "received_audio f payload = Some audio"
  shows "\<exists>s1. audio_datagram env src sport (rtp_packet pt False q t ssrc payload) (s, a) =
      (Some \<lparr>frame_pcm = Some audio, frame_sequence = q, frame_timestamp = t, frame_has_metadata = True,
             frame_source_changed = False, frame_format_packed = pack_audio_format f\<rparr>,
       s1, count_received (12 + length payload) a) \<and> receiver_ready env src sport ssrc pt f s1"
proof -
  let ?p = "rtp_packet pt False q t ssrc payload"
  note rb = packet_read_back [OF assms(2), of False q t ssrc payload]
  have full: "take 1600 ?p = ?p" using assms(4) by (simp add: rb(1))
  have seq: "read_be16 (drop 2 ?p) = q" using rb(7) by (simp add: packet_sequence_def)
  have pt: "?p ! 1 AND 0x7F = pt" using rb(5) by (simp add: packet_payload_type_def)
  have top: "\<not> (length ?p \<le> 12 \<or> ?p ! 0 AND 0xC0 \<noteq> 0x80)"
    using assms(3) by (simp add: rb(1) audio_packet_bounds(2) [OF assms(2,3)])
  obtain s1 where l: "latch_source src sport ssrc s = Some (False, s1)" "receiver_ready env src sport ssrc pt f s1"
    using receiver_latch [OF assms(1)] by blast
  have pay: "take (length payload) (drop 12 ?p) = payload" by (simp only: rb(4)) simp
  note r = assms(1) [unfolded receiver_ready_def steady_def]
  have e: "epoch_at env 1 = epoch_at env 0" "epoch_at env 0 AND 1 = 0" "media_active s"
    "payload_find (negotiated_rx_payloads (sdp s)) pt = Some f" "\<not> (remote_rtp_ip (sdp s) \<noteq> 0 \<and> src \<noteq> remote_rtp_ip (sdp s))"
    using r by (blast, blast, blast, blast, metis)
  have "audio_datagram env src sport ?p (s, a) =
      (Some \<lparr>frame_pcm = Some audio, frame_sequence = q, frame_timestamp = t, frame_has_metadata = True,
             frame_source_changed = False, frame_format_packed = pack_audio_format f\<rparr>,
       s1, count_received (12 + length payload) a)"
    unfolding audio_datagram_def prod.case Let_def full if_not_P [OF top] seq pt rb(8) rb(9)
      audio_packet_bounds(1) [OF assms(2,3)] option.case pay e(4) assms(5) l(1) rb(1)
    using e assms(3) audio_packet_bounds(2) [OF assms(2,3)] by simp
  then show ?thesis using l(2) by blast
qed

section \<open>A conversation\<close>

text \<open>Frames spoken one after the other, and datagrams heard one after the other.\<close>

fun talk :: "audio_env \<Rightarrow> opus_codec \<Rightarrow> sip_state \<Rightarrow> bytes list \<Rightarrow> rtp_audio \<Rightarrow> bytes list" where
  "talk env c s [] a = []"
| "talk env c s (pcm # pcms) a =
     (case send_audio_frame env c s (Some pcm) a of
        (None, a1) \<Rightarrow> talk env c s pcms a1
      | (Some (dst, dport, packet), a1) \<Rightarrow> packet # talk env c s pcms a1)"

fun listen :: "(audio_env \<times> u32 \<times> u16 \<times> bytes) list \<Rightarrow> sip_state \<times> rtp_audio \<Rightarrow> frame list \<times> sip_state \<times> rtp_audio" where
  "listen [] sa = ([], sa)"
| "listen ((env, src, sport, datagram) # ds) sa =
     (case audio_datagram env src sport datagram sa of
        (heard, sa1) \<Rightarrow> (case listen ds sa1 of (fs, sa2) \<Rightarrow> (case heard of None \<Rightarrow> fs | Some f \<Rightarrow> f # fs, sa2)))"

fun spoken_frames :: "u32 \<Rightarrow> u16 \<Rightarrow> u32 \<Rightarrow> u32 \<Rightarrow> bytes list \<Rightarrow> frame list" where
  "spoken_frames packed q t ticks [] = []"
| "spoken_frames packed q t ticks (pcm # pcms) =
     \<lparr>frame_pcm = Some pcm, frame_sequence = q, frame_timestamp = t, frame_has_metadata = True,
      frame_source_changed = False, frame_format_packed = packed\<rparr> # spoken_frames packed (q + 1) (t + ticks) ticks pcms"

lemma spoken_frames_nth:
  "i < length pcms \<Longrightarrow> spoken_frames packed q t ticks pcms ! i =
     \<lparr>frame_pcm = Some (pcms ! i), frame_sequence = q + of_nat i, frame_timestamp = t + of_nat i * ticks,
      frame_has_metadata = True, frame_source_changed = False, frame_format_packed = packed\<rparr>"
  by (induction pcms arbitrary: q t i) (auto simp: nth_Cons algebra_simps split: nat.split)

lemma length_spoken [simp]: "length (spoken_frames packed q t ticks pcms) = length pcms"
  by (induction pcms arbitrary: q t) simp_all

lemma conversation:
  fixes a b :: rtp_audio
  assumes "sender_ready env s" and "receiver_ready env2 src sport (rtp_ssrc a) (rtp_tx_payload_type (sdp s) AND 0x7F) f r"
    and "f = selected_tx_format (sdp s)" and "\<forall>pcm\<in>set pcms. whole_frame f pcm"
  shows "fst (listen (map (\<lambda>p. (env2, src, sport, p)) (talk env c s pcms a)) (r, b)) =
    spoken_frames (pack_audio_format f) (rtp_sequence a) (rtp_timestamp a) (nominal_frame_samples f) pcms"
  using assms(2,4)
proof (induction pcms arbitrary: a b r)
  case Nil
  then show ?case by simp
next
  case (Cons pcm pcms)
  let ?pt = "rtp_tx_payload_type (sdp s) AND 0x7F" and ?pay = "pcm_to_rtp_payload pcm (pcm_format f) 1488"
  define packet where "packet = rtp_packet ?pt False (rtp_sequence a) (rtp_timestamp a) (rtp_ssrc a) ?pay"
  let ?a1 = "advance_sent env (nominal_frame_samples f) packet a"
  have w: "whole_frame (selected_tx_format (sdp s)) pcm" using Cons.prems(2) assms(3) by simp
  have sent: "send_audio_frame env c s (Some pcm) a = (Some (remote_rtp_ip (sdp s), remote_rtp_port (sdp s), packet), ?a1)"
    using frame_is_sent [OF assms(1) w, where c = c and a = a] by (simp add: packet_def assms(3))
  have f: "format_valid f" "codec f = PCM" "audio_format_rtp_encoding f (udp_max_payload (sdp s)) \<noteq> None"
    "udp_max_payload (sdp s) \<le> 1488" "length pcm = unat (nominal_frame_bytes f)"
    "pcm_format f = S24LE_IN_S32 \<longrightarrow> sign_extended pcm"
    using assms(1) w by (simp_all add: sender_ready_def whole_frame_def assms(3))
  note p = frame_payload [OF f]
  have small: "length ?pay \<le> 1488" using p(2) order_trans [OF p(3) f(4)] by (simp add: word_le_nat_alt)
  obtain r1 where heard: "audio_datagram env2 src sport packet (r, b) =
      (Some \<lparr>frame_pcm = Some pcm, frame_sequence = rtp_sequence a, frame_timestamp = rtp_timestamp a,
             frame_has_metadata = True, frame_source_changed = False, frame_format_packed = pack_audio_format f\<rparr>,
       r1, count_received (12 + length ?pay) b)" and r1: "receiver_ready env2 src sport (rtp_ssrc a) ?pt f r1"
    using frame_is_received [OF Cons.prems(1) low_type p(1) small p(4)] unfolding packet_def by blast
  have next_state: "rtp_ssrc ?a1 = rtp_ssrc a" "rtp_sequence ?a1 = rtp_sequence a + 1"
    "rtp_timestamp ?a1 = rtp_timestamp a + nominal_frame_samples f"
    by (simp_all add: advance_sent_def)
  have "fst (listen (map (\<lambda>p. (env2, src, sport, p)) (talk env c s pcms ?a1)) (r1, count_received (12 + length ?pay) b)) =
      spoken_frames (pack_audio_format f) (rtp_sequence a + 1) (rtp_timestamp a + nominal_frame_samples f)
        (nominal_frame_samples f) pcms"
    using Cons.IH [of ?a1 r1 "count_received (12 + length ?pay) b"] r1 Cons.prems(2) by (simp add: next_state)
  then show ?case by (simp add: sent heard prod.case_eq_if)
qed

text \<open>
  C14: Audio crosses the link. With the path running on both sides and no new media proposed, every frame of
  the negotiated linear format that is spoken is heard by a listener that has not latched another source: the
  same samples, sequence numbers that count up from the sender's, and timestamps that step by the samples of a
  frame; none of them is marked as a change of source.
\<close>

theorem audio_crosses_the_link:
  fixes a b :: rtp_audio
  assumes "sender_ready env s" and "f = selected_tx_format (sdp s)"
    and "receiver_ready env2 src sport (rtp_ssrc a) (rtp_tx_payload_type (sdp s) AND 0x7F) f r"
    and "\<forall>pcm\<in>set pcms. whole_frame f pcm"
  shows "length (fst (listen (map (\<lambda>p. (env2, src, sport, p)) (talk env c s pcms a)) (r, b))) = length pcms \<and>
    (\<forall>i<length pcms. fst (listen (map (\<lambda>p. (env2, src, sport, p)) (talk env c s pcms a)) (r, b)) ! i =
       \<lparr>frame_pcm = Some (pcms ! i), frame_sequence = rtp_sequence a + of_nat i,
        frame_timestamp = rtp_timestamp a + of_nat i * nominal_frame_samples f, frame_has_metadata = True,
        frame_source_changed = False, frame_format_packed = pack_audio_format f\<rparr>)"
  using conversation [OF assms(1,3,2,4), where c = c and b = b] by (simp add: spoken_frames_nth)

text \<open>Two calls in progress on the sample endpoint, the peer known and unlatched.\<close>

definition in_talk :: sip_state where
  "in_talk = (started_transport (sample_endpoint\<lparr>remote_rtp_ip := 0x0A000002, remote_rtp_port := 40000\<rparr>) 5060)
     \<lparr>rtp_bound := True, media_active := True\<rparr>"

definition no_opus :: opus_codec where
  "no_opus = \<lparr>opus_encoder = False, opus_decoder = False, opus_tx_format = default_audio_format,
     opus_rx_format = default_audio_format, opus_max_payload = 1275\<rparr>"

definition calm :: audio_env where
  "calm = \<lparr>running_at = \<lambda>n. True, epoch_at = \<lambda>n. 4, audio_taken = length,
     codec_lib = \<lparr>encoder_made = True, encoder_configured = True, decoder_made = True,
       lib_encode = \<lambda>pcm n cap. None, lib_decode = \<lambda>p n. None\<rparr>\<rparr>"

definition fresh_stream :: rtp_audio where
  "fresh_stream = \<lparr>rtp_sequence = 65535, rtp_timestamp = 7, rtp_ssrc = 0xABCD, rtp_tx_packets = 0, rtp_tx_bytes = 0,
     rtp_rx_packets = 0, rtp_rx_bytes = 0\<rparr>"

theorem audio_crosses_the_link_witness:
  "frame_sequence (fst (listen (map (\<lambda>p. (calm, 0x0A000002, 40002, p)) (talk (calm\<lparr>audio_taken := \<lambda>p. 1\<rparr>) no_opus in_talk
       [replicate (unat (nominal_frame_bytes wideband)) 1, replicate (unat (nominal_frame_bytes wideband)) 2] fresh_stream))
     (in_talk, fresh_stream)) ! 1) = 0"
proof -
  have even: "(4 :: u32) AND 1 = 0" by simp
  have ready: "sender_ready (calm\<lparr>audio_taken := \<lambda>p. 1\<rparr>) in_talk"
    "receiver_ready calm 0x0A000002 40002 (rtp_ssrc fresh_stream) (rtp_tx_payload_type (sdp in_talk) AND 0x7F) wideband in_talk"
    using wideband_facts
    by (simp_all add: sender_ready_def receiver_ready_def steady_def calm_def in_talk_def started_transport_def
        sample_endpoint_def even wideband_def)
  have f: "wideband = selected_tx_format (sdp in_talk)"
    by (simp add: in_talk_def started_transport_def sample_endpoint_def)
  have w: "\<forall>pcm\<in>set [replicate (unat (nominal_frame_bytes wideband)) 1, replicate (unat (nominal_frame_bytes wideband)) 2].
      whole_frame wideband pcm"
    by (simp add: whole_frame_def wideband_def)
  show ?thesis
    using audio_crosses_the_link [OF ready(1) f ready(2) w, of no_opus fresh_stream]
    by (simp add: fresh_stream_def)
qed

section \<open>Whom a call hears\<close>

text \<open>A datagram is ignored, or it is one frame of a negotiated format from a source that may be latched.\<close>

lemma datagram_outcome:
  obtains (ignored) "audio_datagram env src sport datagram (s, a) = (None, s, a)"
  | (heard) g f audio changed s1 n pay ssrc where
      "audio_datagram env src sport datagram (s, a) = (Some g, s1, count_received n a)"
      "frame_pcm g = Some audio" "frame_format_packed g = pack_audio_format f" "frame_has_metadata g"
      "frame_source_changed g = changed" "payload_find (negotiated_rx_payloads (sdp s)) (take 1600 datagram ! 1 AND 0x7F) = Some f"
      "received_audio f pay = Some audio" "length pay \<le> 1588" "latch_source src sport ssrc s = Some (changed, s1)"
      "media_active s" "epoch_at env 0 AND 1 = 0" "epoch_at env 1 = epoch_at env 0"
      "remote_rtp_ip (sdp s) = 0 \<or> remote_rtp_ip (sdp s) = src"
proof (cases "audio_datagram env src sport datagram (s, a) = (None, s, a)")
  case True
  then show ?thesis by (rule ignored)
next
  case False
  let ?buf = "take 1600 datagram"
  have t1: "\<not> (length ?buf \<le> 12 \<or> ?buf ! 0 AND 0xC0 \<noteq> 0x80)"
    by (rule notI) (use False in \<open>simp only: audio_datagram_def prod.case Let_def if_P fst_conv simp_thms\<close>)
  have t2: "media_active s"
    by (rule ccontr) (use False t1 in \<open>simp only: audio_datagram_def prod.case Let_def if_P if_not_P fst_conv simp_thms\<close>)
  have t3: "\<not> (epoch_at env 0 AND 1 \<noteq> 0)"
    by (rule notI) (use False t1 t2 in \<open>simp only: audio_datagram_def prod.case Let_def if_P if_not_P fst_conv simp_thms\<close>)
  have t4: "\<not> (remote_rtp_ip (sdp s) \<noteq> 0 \<and> src \<noteq> remote_rtp_ip (sdp s))"
    by (rule notI) (use False t1 t2 t3 in \<open>simp only: audio_datagram_def prod.case Let_def if_P if_not_P fst_conv simp_thms\<close>)
  note top = t1 t2 t3 t4
  from top(2) have nots: "\<not> \<not> media_active s" by simp
  note open1 = audio_datagram_def prod.case Let_def if_not_P [OF top(1)] if_not_P [OF nots] if_not_P [OF top(3)] if_not_P [OF top(4)]
  obtain at room where b: "audio_payload_bounds ?buf = Some (at, room)"
    using False unfolding open1 by (cases "audio_payload_bounds ?buf") auto
  obtain f where f: "payload_find (negotiated_rx_payloads (sdp s)) (?buf ! 1 AND 0x7F) = Some f"
    using False unfolding open1 b by (cases "payload_find (negotiated_rx_payloads (sdp s)) (?buf ! 1 AND 0x7F)") auto
  obtain audio where r: "received_audio f (take room (drop at ?buf)) = Some audio"
    using False unfolding open1 b option.case f by (cases "received_audio f (take room (drop at ?buf))") auto
  have e: "\<not> epoch_at env 1 \<noteq> epoch_at env 0"
    by (rule notI) (use False in \<open>simp only: open1 b option.case f r if_P fst_conv simp_thms\<close>)
  obtain changed s1 where l: "latch_source src sport (read_be32 (drop 8 ?buf)) s = Some (changed, s1)"
    using False unfolding open1 b option.case f r if_not_P [OF e]
    by (cases "latch_source src sport (read_be32 (drop 8 ?buf)) s") auto
  have "at \<ge> 12" using b by (auto simp: audio_payload_bounds_def Let_def split: if_splits)
  then have small: "length (take room (drop at ?buf)) \<le> 1588" by simp
  show ?thesis
  proof (rule heard)
    show "audio_datagram env src sport datagram (s, a) =
      (Some \<lparr>frame_pcm = Some audio, frame_sequence = read_be16 (drop 2 ?buf), frame_timestamp = read_be32 (drop 4 ?buf),
             frame_has_metadata = True, frame_source_changed = changed, frame_format_packed = pack_audio_format f\<rparr>,
       s1, count_received (length ?buf) a)"
      unfolding open1 b option.case f r if_not_P [OF e] l by (rule refl)
  qed (use f r l small top e in auto)
qed

lemma stranger_ignored:
  assumes "rtp_latch s = (peer, p, q, True)" and "src \<noteq> peer"
  shows "audio_datagram env src sport datagram (s, a) = (None, s, a)"
proof (cases rule: datagram_outcome [of env src sport datagram s a])
  case (heard g f audio changed s1 n pay ssrc)
  then show ?thesis using assms by (simp add: latch_source_def)
qed

lemma peer_stays:
  assumes "rtp_latch s = (peer, p, q, True)"
  shows "(\<exists>p' q'. rtp_latch (fst (snd (audio_datagram env src sport datagram (s, a)))) = (peer, p', q', True)) \<and>
    remote_rtp_ip (sdp (fst (snd (audio_datagram env src sport datagram (s, a))))) = remote_rtp_ip (sdp s)"
proof (cases rule: datagram_outcome [of env src sport datagram s a])
  case ignored
  then show ?thesis using assms by simp
next
  case (heard g f audio changed s1 n pay ssrc)
  have "(\<exists>p' q'. rtp_latch s1 = (peer, p', q', True)) \<and> remote_rtp_ip (sdp s1) = remote_rtp_ip (sdp s)"
    using heard(9) assms by (auto simp: latch_source_def split: if_splits)
  then show ?thesis using heard(1) by simp
qed

text \<open>
  C15: A call hears its peer only. Once the source of the audio is latched, datagrams of any other host change
  nothing at all, whatever they hold and wherever they fall among the others: the frames heard, the counters,
  the latch and the address audio is sent to are those of the run without them; the host latched stays.
\<close>

theorem strangers_are_not_heard:
  assumes "rtp_latch s = (peer, p, q, True)"
  shows "listen ds (s, a) = listen (filter (\<lambda>d. fst (snd d) = peer) ds) (s, a) \<and>
    fst (rtp_latch (fst (snd (listen ds (s, a))))) = peer \<and>
    remote_rtp_ip (sdp (fst (snd (listen ds (s, a))))) = remote_rtp_ip (sdp s)"
  using assms
proof (induction ds arbitrary: s a p q)
  case Nil
  then show ?case by simp
next
  case (Cons d ds)
  obtain env src sport datagram where d: "d = (env, src, sport, datagram)" by (cases d)
  obtain heard s1 a1 where h: "audio_datagram env src sport datagram (s, a) = (heard, s1, a1)" by (metis prod.collapse)
  obtain p' q' where l: "rtp_latch s1 = (peer, p', q', True)" and same: "remote_rtp_ip (sdp s1) = remote_rtp_ip (sdp s)"
    using peer_stays [OF Cons.prems, of env src sport datagram a] by (auto simp: h)
  have none: "src \<noteq> peer \<Longrightarrow> heard = None \<and> s1 = s \<and> a1 = a"
    using stranger_ignored [OF Cons.prems, of src env sport datagram a] by (simp add: h)
  note rest = Cons.IH [OF l, of a1]
  show ?case
  proof (cases "src = peer")
    case True
    have "listen (d # ds) (s, a) = listen (d # filter (\<lambda>d. fst (snd d) = peer) ds) (s, a)"
      using arg_cong [OF conjunct1 [OF rest], of "\<lambda>x. case x of (fs, sa2) \<Rightarrow> (case heard of None \<Rightarrow> fs | Some f \<Rightarrow> f # fs, sa2)"]
      by (simp only: d h listen.simps prod.case)
    then show ?thesis using rest True same by (auto simp: d h [unfolded True] prod.case_eq_if)
  next
    case False
    with rest none Cons.prems show ?thesis by (auto simp: d h prod.case_eq_if)
  qed
qed

theorem strangers_are_not_heard_witness:
  "listen [(calm, 0x0A000009, 9, [0x80, 96]), (calm, 0x0A000009, 7, replicate 40 0x80)]
     (in_talk\<lparr>rtp_latch := (0x0A000002, 40002, 5, True)\<rparr>, fresh_stream) =
   ([], in_talk\<lparr>rtp_latch := (0x0A000002, 40002, 5, True)\<rparr>, fresh_stream)"
  using strangers_are_not_heard [where s = "in_talk\<lparr>rtp_latch := (0x0A000002, 40002, 5, True)\<rparr>" and
      peer = "0x0A000002" and p = "40002" and q = "5" and a = fresh_stream and ds = "[(calm, 0x0A000009, 9, [0x80, 96]), (calm, 0x0A000009, 7, replicate 40 0x80)]"]
  by simp

end
