(* ===== verification/RxPlayout.thy ===== *)
theory RxPlayout
  imports RtpAudioProps
begin

text \<open>
  The receiving half of \<open>voip_audio.cpp\<close>: the frame handed over by the transport enters the jitter buffer, and the
  playout task turns what it reads, or finds missing, into samples or silence for the speaker. The converter and
  the Opus library are parameters, as are the loads of the atomics other tasks write, the clock, and the
  answers of the speaker. Debug counters are left out.
\<close>

definition kRxSilenceAfterMs :: u32 where "kRxSilenceAfterMs = 60"

record rx_path =
  rx_jitter :: "jitter_buffer option"
  rx_jitter_frame_alloc :: nat
  rx_chunk_alloc :: nat
  rx_silence_chunk :: bool
  media_rx_queue_depth :: u32
  media_rx_queue_drops :: u32
  rx_underrun_start :: u32
  rx_audio_revision :: u32

section \<open>Into the queue\<close>

definition enqueue_rx_frame :: "audio_format \<Rightarrow> frame \<Rightarrow> rx_path \<Rightarrow> rx_path" where
  "enqueue_rx_frame fmt_now f p =
     (case (rx_jitter p, frame_pcm f) of
        (Some b, Some pcm) \<Rightarrow>
          if pcm = [] then p
          else
            let fmt = (if frame_format_packed f \<noteq> 0 then unpack_audio_format (frame_format_packed f) else fmt_now) in
            if codec fmt = PCM \<and> length pcm \<noteq> unat (nominal_frame_bytes fmt) \<or> length pcm > rx_jitter_frame_alloc p then p
            else
              let before = (if frame_source_changed f then jb_reset b else b);
                  after = snd (jb_push before f);
                  grown = drops (counters after) > drops (counters before)
              in p\<lparr>rx_jitter := Some after, media_rx_queue_depth := jb_depth after,
                   media_rx_queue_drops := media_rx_queue_drops p +
                     (if grown then drops (counters after) - drops (counters before) else 0)\<rparr>
      | _ \<Rightarrow> p)"

definition reset_rx_audio :: "rx_path \<Rightarrow> rx_path" where
  "reset_rx_audio p =
     p\<lparr>rx_audio_revision := rx_audio_revision p + 1, rx_jitter := map_option jb_reset (rx_jitter p),
       media_rx_queue_depth := 0, media_rx_queue_drops := 0, rx_underrun_start := 0\<rparr>"

text \<open>
  The buffer sizes of \<open>allocate_setup_buffers_\<close> for the formats received; with Opus a whole packet fits as well.
\<close>

fun largest_frame :: "nat \<Rightarrow> audio_format list \<Rightarrow> nat" where
  "largest_frame n [] = n"
| "largest_frame n (f # fs) = largest_frame (max n (unat (nominal_frame_bytes f))) fs"

definition rx_path_for :: "bool \<Rightarrow> audio_format \<Rightarrow> audio_format_list \<Rightarrow> byte \<Rightarrow> byte \<Rightarrow> rx_path" where
  "rx_path_for opus_build f fs queued pre =
     (let frame = largest_frame (unat (nominal_frame_bytes f)) fs; alloc = (if opus_build then max frame 1275 else frame)
      in \<lparr>rx_jitter = Some (jb_init alloc queued pre), rx_jitter_frame_alloc = alloc, rx_chunk_alloc = frame,
          rx_silence_chunk = True, media_rx_queue_depth = 0, media_rx_queue_drops = 0, rx_underrun_start = 0,
          rx_audio_revision = 0\<rparr>)"

section \<open>The playout task\<close>

datatype silence_reason = NoSilence | MutedSink | NetworkGap

text \<open>
  What one turn of the task sees: the stream live at the start, the revision unchanged after the read, the
  stream live after the wait for the missing frame; audio heard so far at the two places it is asked for; the time.
\<close>

record rx_env =
  rx_live :: bool
  rx_format :: audio_format
  rx_same_revision :: bool
  rx_still_live :: bool
  rx_heard :: "bool \<times> bool"
  rx_now :: u32
  rx_opus :: "opus_lib \<times> opus_codec"
  rx_opus_build :: bool
  rx_convert :: "audio_format \<Rightarrow> bytes \<Rightarrow> nat \<Rightarrow> bytes"

record playout_local =
  previous_format_packed :: u32
  previous_revision :: u32

definition no_local :: playout_local where
  "no_local = \<lparr>previous_format_packed = 0, previous_revision = -1\<rparr>"

text \<open>
  \<open>RxPlay\<close> hands samples to the speaker: whether the decoders are reset first, the samples, what kind of silence they
  are, and whether the speaker may block for the frame.
\<close>

datatype rx_action = RxSleep | RxNothing bool | RxPlay bool bytes silence_reason bool

text \<open>The samples of a frame read from the queue; none where the code goes on to the next turn.\<close>

definition frame_samples :: "rx_env \<Rightarrow> rx_path \<Rightarrow> audio_format \<Rightarrow> bytes \<Rightarrow> bytes" where
  "frame_samples e p fmt network =
     (if rx_opus_build e \<and> codec fmt = OPUS then
        (let pcm = decode_audio_payload (fst (rx_opus e)) (snd (rx_opus e)) (Some network) fmt (rx_chunk_alloc p) in
         if length pcm \<noteq> unat (nominal_frame_bytes (rx_format e)) then [] else pcm)
      else if codec fmt = PCM \<and> fmt \<noteq> decoded_pcm_format (rx_format e)
      then rx_convert e fmt network (rx_chunk_alloc p)
      else network)"

definition play_frame :: "rx_env \<Rightarrow> slot \<Rightarrow> playout_local \<times> rx_path \<Rightarrow> rx_action \<times> playout_local \<times> rx_path" where
  "play_frame e s lp =
     (case lp of (l, p) \<Rightarrow>
      let fmt = (if slot_format_packed s \<noteq> 0 then unpack_audio_format (slot_format_packed s) else rx_format e);
          packed = pack_audio_format fmt;
          fresh = (slot_source_changed s \<or> previous_format_packed l \<noteq> packed);
          samples = frame_samples e p fmt (slot_pcm s)
      in (if samples = [] then RxNothing fresh else RxPlay fresh samples NoSilence True,
          l\<lparr>previous_format_packed := packed\<rparr>, p\<lparr>rx_underrun_start := 0\<rparr>))"

text \<open>The silence that stands in for a frame, or the concealment of the Opus decoder.\<close>

definition play_silence_frame :: "rx_env \<Rightarrow> rx_path \<Rightarrow> rx_action" where
  "play_silence_frame e p =
     (let n = unat (nominal_frame_bytes (rx_format e)) in
      if rx_silence_chunk p \<and> n \<le> rx_chunk_alloc p \<and> n \<noteq> 0 then RxPlay False (replicate n 0) NetworkGap False else RxNothing False)"

definition play_gap :: "rx_env \<Rightarrow> bool \<Rightarrow> playout_local \<times> rx_path \<Rightarrow> rx_action \<times> playout_local \<times> rx_path" where
  "play_gap e missed lp =
     (case lp of (l, p) \<Rightarrow>
      if \<not> missed \<and> \<not> fst (rx_heard e) then (RxSleep, l, p)
      else if \<not> rx_still_live e then (RxNothing False, l, p)
      else
        let start = (if rx_underrun_start p = 0 then (if missed then rx_now e - kRxSilenceAfterMs else rx_now e)
                     else rx_underrun_start p);
            p1 = p\<lparr>rx_underrun_start := start\<rparr>;
            fmt = (if previous_format_packed l \<noteq> 0 then unpack_audio_format (previous_format_packed l) else rx_format e);
            concealed = decode_audio_payload (fst (rx_opus e)) (snd (rx_opus e)) None fmt (rx_chunk_alloc p)
        in if rx_now e - start \<ge> kRxSilenceAfterMs \<and> snd (rx_heard e) then
             (if rx_opus_build e \<and> missed \<and> codec fmt = OPUS \<and> length concealed = unat (nominal_frame_bytes (rx_format e))
              then RxPlay False concealed NoSilence False else play_silence_frame e p1, l, p1)
           else (RxNothing False, l, p1))"

definition rx_step :: "rx_env \<Rightarrow> playout_local \<times> rx_path \<Rightarrow> rx_action \<times> playout_local \<times> rx_path" where
  "rx_step e lp =
     (case lp of (l0, p) \<Rightarrow>
      if \<not> rx_live e then (RxSleep, l0, p)
      else
        let l = (if rx_audio_revision p \<noteq> previous_revision l0
                 then \<lparr>previous_format_packed = 0, previous_revision = rx_audio_revision p\<rparr> else l0) in
        if \<not> format_valid (rx_format e) then (RxSleep, l, p)
        else case rx_jitter p of
               None \<Rightarrow> if rx_same_revision e then play_gap e False (l, p) else (RxNothing False, l, p)
             | Some b \<Rightarrow>
                 (case jb_read b False (rx_jitter_frame_alloc p) False of
                    (r, s, b1) \<Rightarrow>
                      let p1 = p\<lparr>rx_jitter := Some b1\<rparr> in
                      if \<not> rx_same_revision e then (RxNothing False, l, p1)
                      else
                        let p2 = p1\<lparr>media_rx_queue_depth := jb_depth b1\<rparr> in
                        case s of
                          Some slot \<Rightarrow> play_frame e slot (l, p2)
                        | None \<Rightarrow> play_gap e (r = MISSING) (l, p2)))"

section \<open>To the speaker\<close>

text \<open>
  \<open>play_rx_frame_\<close>: a muted call plays silence instead. Each attempt is what the speaker took, and whether the
  stream was still live before it; the pieces it took.
\<close>

definition sink_samples :: "bool \<Rightarrow> rx_path \<Rightarrow> bytes \<Rightarrow> silence_reason \<Rightarrow> bytes \<times> silence_reason" where
  "sink_samples muted p pcm reason =
     (if reason = NoSilence \<and> rx_silence_chunk p \<and> muted then (replicate (length pcm) 0, MutedSink) else (pcm, reason))"

fun speaker_loop :: "bool \<Rightarrow> (bool \<times> nat) list \<Rightarrow> bytes \<Rightarrow> bytes list" where
  "speaker_loop may_wait [] pcm = []"
| "speaker_loop may_wait ((live, written) # rest) pcm =
     (if pcm = [] \<or> \<not> live then []
      else if written = 0 then (if may_wait then speaker_loop may_wait rest pcm else [])
      else take written pcm # speaker_loop may_wait rest (drop written pcm))"

end
