(* ===== verification/RxPlayoutProps.thy ===== *)
theory RxPlayoutProps
  imports RxPlayout
begin

text \<open>
  From the microphone of one side to the speaker of the other: frames sent one after the other enter the
  queue of the receiver, line up there and are played as they were spoken.
\<close>

section \<open>Frames in line\<close>

text \<open>A window that holds the frames \<open>fs\<close>, the first of them the next to play.\<close>

definition lined_up :: "u16 \<Rightarrow> slot list \<Rightarrow> window \<Rightarrow> bool" where
  "lined_up q fs w \<longleftrightarrow>
     (w_next w = Some q \<or> fs = [] \<and> w_next w = None) \<and> length fs \<le> 16 \<and>
     w_frames w = (\<lambda>x. if unat (x - q) < length fs then Some (fs ! unat (x - q)) else None)"

lemma unat_small16: "n < 65536 \<Longrightarrow> unat (of_nat n :: u16) = n"
  by (simp add: unat_of_nat take_bit_nat_eq_self)

lemma lined_card:
  assumes "lined_up q fs w"
  shows "card (dom (w_frames w)) = length fs"
proof -
  have "dom (w_frames w) = (\<lambda>i. q + of_nat i) ` {..<length fs}"
  proof (intro set_eqI iffI)
    fix x
    assume "x \<in> dom (w_frames w)"
    then have "unat (x - q) < length fs" using assms by (auto simp: lined_up_def split: if_splits)
    moreover have "x = q + of_nat (unat (x - q))" by simp
    ultimately show "x \<in> (\<lambda>i. q + of_nat i) ` {..<length fs}" by blast
  next
    fix x
    assume "x \<in> (\<lambda>i. q + of_nat i) ` {..<length fs}"
    then obtain i where i: "x = q + of_nat i" "i < length fs" by blast
    then have "unat (x - q) = i" using assms by (simp add: lined_up_def unat_small16)
    then show "x \<in> dom (w_frames w)" using assms i(2) by (simp add: lined_up_def dom_def)
  qed
  moreover have "inj_on (\<lambda>i. q + of_nat i :: u16) {..<length fs}"
  proof (rule inj_onI)
    fix i j
    assume i: "i \<in> {..<length fs}" and j: "j \<in> {..<length fs}" and "q + of_nat i = q + (of_nat j :: u16)"
    then have e: "(of_nat i :: u16) = of_nat j" by simp
    have "i < 65536" "j < 65536" using i j assms by (auto simp: lined_up_def)
    then show "i = j" using arg_cong [OF e, of unat] by (simp only: unat_small16)
  qed
  ultimately show ?thesis by (simp add: card_image)
qed

lemma lined_push:
  assumes l: "lined_up q fs w" and "length fs < 16" and "frame_has_metadata f" and "frame_sequence f = q + of_nat (length fs)"
  shows "\<exists>w1. window_push 16 4 w f pcm = (True, w1) \<and> lined_up q (fs @ [store_frame f pcm (frame_sequence f)]) w1 \<and>
    w_buffering w1 = (w_buffering w \<and> length fs + 1 < 4)"
proof -
  let ?q = "q + of_nat (length fs)" and ?s = "store_frame f pcm (frame_sequence f)"
  have n: "unat (of_nat (length fs) :: u16) = length fs" using assms(2) by (intro unat_small16) simp
  define r where "r = (case w_next w of Some r \<Rightarrow> r | None \<Rightarrow> ?q)"
  have r: "r = q" using l by (auto simp: r_def lined_up_def)
  have delta: "sequence_delta ?q q = int (length fs)"
    using assms(2) by (simp add: sequence_delta_def sint_u16 n)
  have empty: "w_frames w ?q = None" using l by (simp add: lined_up_def n)
  let ?m = "(w_frames w)(?q \<mapsto> ?s)"
  have m: "?m = (\<lambda>x. if unat (x - q) < length (fs @ [?s]) then Some ((fs @ [?s]) ! unat (x - q)) else None)"
  proof
    fix x
    have "unat (x - q) = length fs \<longleftrightarrow> x = ?q"
    proof
      assume "unat (x - q) = length fs"
      moreover have "x - q = of_nat (unat (x - q))" by simp
      ultimately have "x - q = of_nat (length fs)" by (simp only:)
      then show "x = ?q" by (simp add: algebra_simps)
    qed (simp add: n)
    then show "?m x = (if unat (x - q) < length (fs @ [?s]) then Some ((fs @ [?s]) ! unat (x - q)) else None)"
      using l by (auto simp: lined_up_def nth_append)
  qed
  let ?w = "\<lparr>w_frames = ?m, w_next = Some q, w_buffering = w_buffering w \<and> card (dom ?m) < 4\<rparr>"
  have lw: "lined_up q (fs @ [?s]) ?w" using assms(2) m by (simp add: lined_up_def)
  have "window_push 16 4 w f pcm = (True, ?w)"
    using empty delta assms(2) unfolding window_push_def Let_def if_P [OF assms(3)] assms(4) r_def [symmetric] r window_place_def delta
    by simp
  moreover have "w_buffering ?w = (w_buffering w \<and> length fs + 1 < 4)" using lined_card [OF lw] by simp
  ultimately show ?thesis using lw by blast
qed

lemma lined_read:
  assumes l: "lined_up q (f # fs) w" and "\<not> (w_buffering w \<and> length fs + 1 < 4)" and "length (slot_pcm f) \<le> cap"
    and "0 < cap" and "w_next w \<noteq> None"
  shows "\<exists>w1. window_read 4 cap w False cap False = (FRAME, Some f, w1) \<and> lined_up (q + 1) fs w1 \<and>
    \<not> w_buffering w1 \<and> w_next w1 \<noteq> None"
proof -
  have nx: "w_next w = Some q" using l by (auto simp: lined_up_def)
  have here: "w_frames w q = Some f" using l by (simp add: lined_up_def)
  have card: "card (dom (w_frames w)) = length fs + 1" using lined_card [OF l] by simp
  let ?w = "w\<lparr>w_buffering := False, w_next := Some (q + 1), w_frames := (w_frames w)(q := None)\<rparr>"
  have "(w_frames w)(q := None) = (\<lambda>x. if unat (x - (q + 1)) < length fs then Some (fs ! unat (x - (q + 1))) else None)"
  proof
    fix x
    show "((w_frames w)(q := None)) x = (if unat (x - (q + 1)) < length fs then Some (fs ! unat (x - (q + 1))) else None)"
    proof (cases "x = q")
      case True
      have "unat (- 1 :: u16) = 65535" by (simp add: unsigned_minus_1_eq_mask mask_eq_exp_minus_1)
      then show ?thesis using True l by (simp add: lined_up_def)
    next
      case False
      then have "x - q \<noteq> 0" by simp
      then have "unat (x - q) = Suc (unat (x - q - 1))" by (metis unat_minus_one Suc_diff_1 unat_gt_0 word_neq_0_conv)
      then show ?thesis using l False by (simp add: lined_up_def diff_diff_eq)
    qed
  qed
  then have "lined_up (q + 1) fs ?w" using l by (simp add: lined_up_def)
  moreover have "window_read 4 cap w False cap False = (FRAME, Some f, ?w)"
    using assms(2,3,4) by (simp add: window_read_def nx here card Let_def)
  ultimately show ?thesis by (intro exI [of _ ?w]) simp
qed

section \<open>The queue of a receiver\<close>

lemma window_move_dims:
  assumes "window_move b q = Some (r, b1)"
  shows "slot_count b1 = slot_count b" "prebuffer b1 = prebuffer b" "frame_capacity b1 = frame_capacity b"
  using assms by (auto simp: window_move_def Let_def split: if_splits)

lemma push_dims:
  "slot_count (snd (jb_push b f)) = slot_count b" "prebuffer (snd (jb_push b f)) = prebuffer b"
  "frame_capacity (snd (jb_push b f)) = frame_capacity b"
  by (auto simp: jb_push_def Let_def evict_def store_at_def dest: window_move_dims split: option.splits prod.splits if_splits)

lemma read_dims:
  "slot_count (snd (snd (jb_read b z cap x))) = slot_count b" "prebuffer (snd (snd (jb_read b z cap x))) = prebuffer b"
  "frame_capacity (snd (snd (jb_read b z cap x))) = frame_capacity b"
  by (simp_all add: jb_read_def Let_def)

definition queue_holds :: "u16 \<Rightarrow> slot list \<Rightarrow> bool \<Rightarrow> rx_path \<Rightarrow> bool" where
  "queue_holds q fs waiting p \<longleftrightarrow>
     (\<exists>b. rx_jitter p = Some b \<and> jb_inv b \<and> slot_count b = 16 \<and> prebuffer b = 4 \<and> frame_capacity b = rx_jitter_frame_alloc p \<and>
       lined_up q fs (window_of b) \<and> buffering b = waiting)"

lemma queue_push:
  assumes "queue_holds q fs (length fs < 4) p" and "length fs < 16" and "frame_has_metadata f"
    and "frame_sequence f = q + of_nat (length fs)" and "\<not> frame_source_changed f" and "frame_pcm f = Some pcm"
    and "format_valid fmt" and "frame_format_packed f = pack_audio_format fmt" and "length pcm = unat (nominal_frame_bytes fmt)"
    and "length pcm \<le> rx_jitter_frame_alloc p"
  shows "queue_holds q (fs @ [store_frame f pcm (frame_sequence f)]) (length fs + 1 < 4) (enqueue_rx_frame cur f p)"
    and "rx_jitter_frame_alloc (enqueue_rx_frame cur f p) = rx_jitter_frame_alloc p"
    and "rx_audio_revision (enqueue_rx_frame cur f p) = rx_audio_revision p"
proof -
  obtain b where b: "rx_jitter p = Some b" "jb_inv b" "slot_count b = 16" "prebuffer b = 4"
    "frame_capacity b = rx_jitter_frame_alloc p" "lined_up q fs (window_of b)" "buffering b = (length fs < 4)"
    using assms(1) by (auto simp: queue_holds_def)
  have unpacked: "unpack_audio_format (frame_format_packed f) = fmt" using assms(7,8) by (simp add: unpack_pack)
  have "\<not> format_valid (unpack_audio_format 0)" by (simp add: unpack_audio_format_def format_valid_def valid_rate_def Let_def)
  then have named: "frame_format_packed f \<noteq> 0" using unpacked assms(7) by metis
  have ne: "pcm \<noteq> []" using assms(9) frame_sizes(5) [OF assms(7)] by auto
  define b1 where "b1 = snd (jb_push b f)"
  have e: "enqueue_rx_frame cur f p =
      p\<lparr>rx_jitter := Some b1, media_rx_queue_depth := jb_depth b1,
        media_rx_queue_drops := media_rx_queue_drops p +
          (if drops (counters b1) > drops (counters b) then drops (counters b1) - drops (counters b) else 0)\<rparr>"
    using named ne assms(5,9,10) by (simp add: enqueue_rx_frame_def b(1) assms(6) unpacked b1_def Let_def)
  show "rx_jitter_frame_alloc (enqueue_rx_frame cur f p) = rx_jitter_frame_alloc p"
    "rx_audio_revision (enqueue_rx_frame cur f p) = rx_audio_revision p" by (simp_all add: e)
  have "(fst (jb_push b f), window_of (snd (jb_push b f))) = window_push 16 4 (window_of b) f pcm"
    using push_refines [OF b(2) _ _ assms(6) ne] assms(10) by (simp add: b(3,4,5))
  moreover obtain w1 where "window_push 16 4 (window_of b) f pcm = (True, w1)"
      "lined_up q (fs @ [store_frame f pcm (frame_sequence f)]) w1" "w_buffering w1 = (w_buffering (window_of b) \<and> length fs + 1 < 4)"
    using lined_push [OF b(6) assms(2,3,4)] by blast
  ultimately have w: "lined_up q (fs @ [store_frame f pcm (frame_sequence f)]) (window_of b1)"
      "buffering b1 = (buffering b \<and> length fs + 1 < 4)"
    by (auto simp: b1_def window_of_def)
  have "jb_inv b1" using step_inv [OF b(2), of "Push f"] by (simp add: b1_def)
  moreover have "slot_count b1 = 16" "prebuffer b1 = 4" "frame_capacity b1 = rx_jitter_frame_alloc p"
    using b(3,4,5) by (simp_all add: b1_def push_dims)
  ultimately show "queue_holds q (fs @ [store_frame f pcm (frame_sequence f)]) (length fs + 1 < 4) (enqueue_rx_frame cur f p)"
    using w b(7) by (simp add: queue_holds_def e) linarith
qed

definition playing :: "audio_format \<Rightarrow> rx_env \<Rightarrow> bool" where
  "playing f e \<longleftrightarrow> rx_live e \<and> rx_format e = f \<and> rx_same_revision e"

lemma queue_play:
  assumes q: "queue_holds q (s # fs) waiting p" and "waiting \<longrightarrow> 4 \<le> length fs + 1" and "playing fmt e" and "format_valid fmt"
    and "codec fmt = PCM" and "slot_format_packed s = pack_audio_format fmt" and "\<not> slot_source_changed s"
    and "length (slot_pcm s) = unat (nominal_frame_bytes fmt)" and "length (slot_pcm s) \<le> rx_jitter_frame_alloc p"
  shows "\<exists>p1. rx_step e (l, p) =
      (RxPlay (previous_revision l \<noteq> rx_audio_revision p \<or> previous_format_packed l \<noteq> pack_audio_format fmt) (slot_pcm s) NoSilence True,
       \<lparr>previous_format_packed = pack_audio_format fmt, previous_revision = rx_audio_revision p\<rparr>, p1) \<and>
    queue_holds (q + 1) fs False p1 \<and> rx_jitter_frame_alloc p1 = rx_jitter_frame_alloc p \<and>
    rx_audio_revision p1 = rx_audio_revision p"
proof -
  obtain b where b: "rx_jitter p = Some b" "jb_inv b" "slot_count b = 16" "prebuffer b = 4"
    "frame_capacity b = rx_jitter_frame_alloc p" "lined_up q (s # fs) (window_of b)" "buffering b = waiting"
    using q by (auto simp: queue_holds_def)
  let ?cap = "rx_jitter_frame_alloc p"
  have pos: "0 < length (slot_pcm s)" using assms(8) frame_sizes(5) [OF assms(4)] by simp
  obtain w1 where w1: "window_read 4 ?cap (window_of b) False ?cap False = (FRAME, Some s, w1)" "lined_up (q + 1) fs w1"
    "\<not> w_buffering w1" "w_next w1 \<noteq> None"
    using lined_read [OF b(6), of ?cap] assms(2,9) pos b(6,7) by (auto simp: window_of_def lined_up_def)
  have n: "0 < slot_count b" by (simp add: b(3))
  obtain b1 where b1: "jb_read b False ?cap False = (FRAME, Some s, b1)" "window_of b1 = w1"
    using read_refines [OF b(2) n, of False ?cap False] w1(1) by (auto simp: b(4,5) split: prod.splits)
  have inv: "jb_inv b1" using step_inv [OF b(2), of "Read False ?cap False"] by (simp add: b1(1))
  have dims: "slot_count b1 = 16" "prebuffer b1 = 4" "frame_capacity b1 = ?cap"
    using read_dims [of b False ?cap False] b(3,4,5) by (simp_all add: b1(1))
  have unpacked: "unpack_audio_format (slot_format_packed s) = fmt" using assms(4,6) by (simp add: unpack_pack)
  have bad: "\<not> format_valid (unpack_audio_format 0)"
    by (simp add: unpack_audio_format_def format_valid_def valid_rate_def Let_def)
  then have named: "slot_format_packed s \<noteq> 0" "pack_audio_format fmt \<noteq> 0"
    using unpacked assms(4,6) by metis+
  have decoded: "decoded_pcm_format fmt = fmt" using assms(5) by (simp add: decoded_pcm_format_def)
  have smp: "frame_samples e p' fmt (slot_pcm s) = slot_pcm s" for p'
    using assms(3,5) by (simp add: frame_samples_def playing_def decoded)
  let ?p = "p\<lparr>rx_jitter := Some b1, media_rx_queue_depth := jb_depth b1, rx_underrun_start := 0\<rparr>"
  have step: "rx_step e (l, p) =
      (RxPlay (previous_revision l \<noteq> rx_audio_revision p \<or> previous_format_packed l \<noteq> pack_audio_format fmt) (slot_pcm s) NoSilence True,
       \<lparr>previous_format_packed = pack_audio_format fmt, previous_revision = rx_audio_revision p\<rparr>, ?p)"
    using assms(3,4,7) pos named
    by (cases l) (auto simp: rx_step_def playing_def b(1) b1(1) play_frame_def Let_def unpacked smp)
  have held: "queue_holds (q + 1) fs False ?p"
    using inv dims w1(2,3) b1(2) by (auto simp: queue_holds_def window_of_def)
  show ?thesis by (intro exI [of _ ?p]) (simp add: step held)
qed

section \<open>From speech to sound\<close>

fun rx_run :: "rx_env list \<Rightarrow> playout_local \<times> rx_path \<Rightarrow> rx_action list" where
  "rx_run [] lp = []"
| "rx_run (e # es) lp = (case rx_step e lp of (act, lp1) \<Rightarrow> act # rx_run es lp1)"

definition store_spoken :: "frame \<Rightarrow> slot" where
  "store_spoken f = store_frame f (the (frame_pcm f)) (frame_sequence f)"

lemma enqueue_spoken:
  assumes "queue_holds q fs (length fs < 4) p" and "length fs + length pcms \<le> 16" and "format_valid fmt"
    and "\<forall>pcm\<in>set pcms. whole_frame fmt pcm" and "unat (nominal_frame_bytes fmt) \<le> rx_jitter_frame_alloc p"
  shows "queue_holds q (fs @ map store_spoken (spoken_frames (pack_audio_format fmt) (q + of_nat (length fs)) t ticks pcms))
      (length fs + length pcms < 4)
      (foldl (\<lambda>p f. enqueue_rx_frame cur f p) p (spoken_frames (pack_audio_format fmt) (q + of_nat (length fs)) t ticks pcms))
    \<and> rx_jitter_frame_alloc (foldl (\<lambda>p f. enqueue_rx_frame cur f p) p
        (spoken_frames (pack_audio_format fmt) (q + of_nat (length fs)) t ticks pcms)) = rx_jitter_frame_alloc p
    \<and> rx_audio_revision (foldl (\<lambda>p f. enqueue_rx_frame cur f p) p
        (spoken_frames (pack_audio_format fmt) (q + of_nat (length fs)) t ticks pcms)) = rx_audio_revision p"
  using assms
proof (induction pcms arbitrary: fs p t)
  case Nil
  then show ?case by simp
next
  case (Cons pcm pcms)
  let ?q = "q + of_nat (length fs)"
  let ?f = "\<lparr>frame_pcm = Some pcm, frame_sequence = ?q, frame_timestamp = t, frame_has_metadata = True,
      frame_source_changed = False, frame_format_packed = pack_audio_format fmt\<rparr>"
  have len: "length pcm = unat (nominal_frame_bytes fmt)" using Cons.prems(4) by (simp add: whole_frame_def)
  have push: "queue_holds q (fs @ [store_spoken ?f]) (length fs + 1 < 4) (enqueue_rx_frame cur ?f p)"
    "rx_jitter_frame_alloc (enqueue_rx_frame cur ?f p) = rx_jitter_frame_alloc p"
    "rx_audio_revision (enqueue_rx_frame cur ?f p) = rx_audio_revision p"
    using queue_push [OF Cons.prems(1), of ?f pcm fmt cur] Cons.prems(2,3,5) len by (simp_all add: store_spoken_def)
  have next_q: "?q + 1 = q + of_nat (length (fs @ [store_spoken ?f]))" by (simp add: ac_simps)
  show ?case
    using Cons.IH [of "fs @ [store_spoken ?f]" "enqueue_rx_frame cur ?f p" "t + ticks"] push Cons.prems(2-5)
    unfolding spoken_frames.simps next_q by (simp add: ac_simps)
qed

lemma play_line:
  assumes "queue_holds q (map store_spoken (spoken_frames (pack_audio_format fmt) q t ticks pcms)) waiting p"
    and "waiting \<longrightarrow> 4 \<le> length pcms \<or> pcms = []" and "format_valid fmt" and "codec fmt = PCM"
    and "\<forall>pcm\<in>set pcms. whole_frame fmt pcm" and "unat (nominal_frame_bytes fmt) \<le> rx_jitter_frame_alloc p"
    and "length es = length pcms" and "\<forall>e\<in>set es. playing fmt e"
  shows "\<exists>rs. length rs = length pcms \<and> rx_run es (l, p) = map (\<lambda>(r, pcm). RxPlay r pcm NoSilence True) (zip rs pcms) \<and>
    (\<forall>i<length pcms. rs ! i = (i = 0 \<and> (previous_revision l \<noteq> rx_audio_revision p \<or> previous_format_packed l \<noteq> pack_audio_format fmt)))"
  using assms
proof (induction pcms arbitrary: q t waiting p es l)
  case Nil
  then show ?case by simp
next
  case (Cons pcm pcms)
  obtain e es' where es: "es = e # es'" using Cons.prems(7) by (cases es) auto
  let ?f = "\<lparr>frame_pcm = Some pcm, frame_sequence = q, frame_timestamp = t, frame_has_metadata = True,
      frame_source_changed = False, frame_format_packed = pack_audio_format fmt\<rparr>"
  let ?rest = "map store_spoken (spoken_frames (pack_audio_format fmt) (q + 1) (t + ticks) ticks pcms)"
  let ?r = "previous_revision l \<noteq> rx_audio_revision p \<or> previous_format_packed l \<noteq> pack_audio_format fmt"
  let ?l = "\<lparr>previous_format_packed = pack_audio_format fmt, previous_revision = rx_audio_revision p\<rparr>"
  have q: "queue_holds q (store_spoken ?f # ?rest) waiting p" using Cons.prems(1) by simp
  have len: "length pcm = unat (nominal_frame_bytes fmt)" using Cons.prems(5) by (simp add: whole_frame_def)
  have s: "slot_format_packed (store_spoken ?f) = pack_audio_format fmt" "\<not> slot_source_changed (store_spoken ?f)"
    "slot_pcm (store_spoken ?f) = pcm" by (simp_all add: store_spoken_def store_frame_def)
  obtain p1 where st: "rx_step e (l, p) = (RxPlay ?r pcm NoSilence True, ?l, p1)" "queue_holds (q + 1) ?rest False p1"
    "rx_jitter_frame_alloc p1 = rx_jitter_frame_alloc p" "rx_audio_revision p1 = rx_audio_revision p"
    using queue_play [OF q _ _ Cons.prems(3,4), of e l] s len Cons.prems(2,6,8) by (auto simp: es)
  have "\<exists>rs. length rs = length pcms \<and> rx_run es' (?l, p1) = map (\<lambda>(r, pcm). RxPlay r pcm NoSilence True) (zip rs pcms) \<and>
      (\<forall>i<length pcms. \<not> rs ! i)"
    using Cons.IH [OF st(2) _ Cons.prems(3,4), of es' ?l] Cons.prems(5,6,7,8) st(3,4) by (simp add: es)
  then obtain rs where rs: "length rs = length pcms" "rx_run es' (?l, p1) = map (\<lambda>(r, pcm). RxPlay r pcm NoSilence True) (zip rs pcms)"
    "\<forall>i<length pcms. \<not> rs ! i" by blast
  show ?case
    by (rule exI [of _ "?r # rs"]) (use rs st(1) in \<open>auto simp: es nth_Cons split: nat.split\<close>)
qed

lemma largest_frame_bounds: "n \<le> largest_frame n fs \<and> (\<forall>f\<in>set fs. unat (nominal_frame_bytes f) \<le> largest_frame n fs)"
proof (induction fs arbitrary: n)
  case (Cons f fs)
  show ?case using Cons.IH [of "max n (unat (nominal_frame_bytes f))"] by auto
qed simp

lemma fresh_path:
  "queue_holds q [] True (rx_path_for opus f fs 16 4)" "rx_audio_revision (rx_path_for opus f fs 16 4) = 0"
  "g = f \<or> g \<in> set fs \<Longrightarrow> unat (nominal_frame_bytes g) \<le> rx_jitter_frame_alloc (rx_path_for opus f fs 16 4)"
proof -
  have "frame_at (jb_init n 16 4) = (\<lambda>x. None)" for n
    by (simp add: frame_at_def fun_eq_iff jb_init_def Let_def MAX_SLOTS_def empty_slot_def)
  then show "queue_holds q [] True (rx_path_for opus f fs 16 4)"
    using init_inv [of _ 16 4]
    by (simp add: queue_holds_def rx_path_for_def Let_def lined_up_def window_of_def) (simp add: jb_init_def MAX_SLOTS_def Let_def)
  show "rx_audio_revision (rx_path_for opus f fs 16 4) = 0" by (simp add: rx_path_for_def Let_def)
  show "g = f \<or> g \<in> set fs \<Longrightarrow> unat (nominal_frame_bytes g) \<le> rx_jitter_frame_alloc (rx_path_for opus f fs 16 4)"
    using largest_frame_bounds [of "unat (nominal_frame_bytes f)" fs] by (auto simp: rx_path_for_def Let_def max.coboundedI1)
qed

text \<open>
  C5: Speech reaches the other speaker. At least four and at most sixteen frames of the negotiated linear format
  that one side sends are handed to the speaker of the other, each once, in order and sample for sample: through
  the packets, the source check, the queue and the playout task of a receiver set up for that format. The
  decoders are reset before the first frame and before no other.
\<close>

theorem speech_reaches_the_speaker:
  fixes a b :: rtp_audio
  assumes "sender_ready env s" and "f = selected_tx_format (sdp s)"
    and "receiver_ready env2 src sport (rtp_ssrc a) (rtp_tx_payload_type (sdp s) AND 0x7F) f r"
    and "\<forall>pcm\<in>set pcms. whole_frame f pcm" and "4 \<le> length pcms" "length pcms \<le> 16"
    and "f = sink \<or> f \<in> set sinks" and "length es = length pcms" and "\<forall>e\<in>set es. playing f e"
  shows "rx_run es (no_local, foldl (\<lambda>p f. enqueue_rx_frame cur f p) (rx_path_for opus sink sinks 16 4)
      (fst (listen (map (\<lambda>p. (env2, src, sport, p)) (talk env c s pcms a)) (r, b)))) =
    map (\<lambda>(i, pcm). RxPlay (i = 0) pcm NoSilence True) (zip [0..<length pcms] pcms)"
proof -
  have v: "format_valid f" "codec f = PCM" using assms(1,2) by (simp_all add: sender_ready_def)
  let ?spoken = "spoken_frames (pack_audio_format f) (rtp_sequence a) (rtp_timestamp a) (nominal_frame_samples f) pcms"
  let ?start = "rx_path_for opus sink sinks 16 4"
  let ?p = "foldl (\<lambda>p f. enqueue_rx_frame cur f p) ?start ?spoken"
  have heard: "fst (listen (map (\<lambda>p. (env2, src, sport, p)) (talk env c s pcms a)) (r, b)) = ?spoken"
    by (rule conversation [OF assms(1,3,2,4)])
  have room: "unat (nominal_frame_bytes f) \<le> rx_jitter_frame_alloc ?start" using assms(7) by (rule fresh_path(3))
  have q: "queue_holds (rtp_sequence a) (map store_spoken ?spoken) (length pcms < 4) ?p"
    "rx_jitter_frame_alloc ?p = rx_jitter_frame_alloc ?start" "rx_audio_revision ?p = 0"
    using enqueue_spoken [of "rtp_sequence a" "[]" ?start pcms f "rtp_timestamp a" "nominal_frame_samples f" cur]
      fresh_path(1) [of "rtp_sequence a" opus sink sinks] fresh_path(2) [of opus sink sinks] assms(4,6) v(1) room by simp_all
  have fresh: "previous_revision no_local \<noteq> rx_audio_revision ?p" by (simp add: no_local_def q(3))
  obtain rs where rs: "length rs = length pcms" "rx_run es (no_local, ?p) = map (\<lambda>(r, pcm). RxPlay r pcm NoSilence True) (zip rs pcms)"
    "\<forall>i<length pcms. rs ! i = (i = 0)"
    using play_line [OF q(1) _ v assms(4), of es no_local] assms(5,8,9) room q(2) fresh by auto
  show ?thesis unfolding heard rs(2) by (rule nth_equalityI) (use rs in auto)
qed

definition sample_turn :: rx_env where
  "sample_turn = \<lparr>rx_live = True, rx_format = wideband, rx_same_revision = True, rx_still_live = True, rx_heard = (True, True),
     rx_now = 9000, rx_opus = (codec_lib calm, no_opus), rx_opus_build = False, rx_convert = \<lambda>f pcm n. []\<rparr>"

definition sample_speech :: "bytes list" where
  "sample_speech = map (\<lambda>x. replicate (unat (nominal_frame_bytes wideband)) x) [1, 2, 3, 4, 5]"

theorem speech_reaches_the_speaker_witness:
  "rx_run (replicate 5 sample_turn) (no_local, foldl (\<lambda>p f. enqueue_rx_frame wideband f p) (rx_path_for False wideband [] 16 4)
      (fst (listen (map (\<lambda>p. (calm, 0x0A000002, 40002, p)) (talk (calm\<lparr>audio_taken := \<lambda>p. 1\<rparr>) no_opus in_talk sample_speech fresh_stream))
        (in_talk, fresh_stream)))) ! 4 =
    RxPlay False (replicate (unat (nominal_frame_bytes wideband)) 5) NoSilence True"
proof -
  have even: "(4 :: u32) AND 1 = 0" by simp
  have ready: "sender_ready (calm\<lparr>audio_taken := \<lambda>p. 1\<rparr>) in_talk"
    "receiver_ready calm 0x0A000002 40002 (rtp_ssrc fresh_stream) (rtp_tx_payload_type (sdp in_talk) AND 0x7F) wideband in_talk"
    using wideband_facts
    by (simp_all add: sender_ready_def receiver_ready_def steady_def calm_def in_talk_def started_transport_def
        sample_endpoint_def even wideband_def)
  have f: "wideband = selected_tx_format (sdp in_talk)"
    by (simp add: in_talk_def started_transport_def sample_endpoint_def)
  have w: "\<forall>pcm\<in>set sample_speech. whole_frame wideband pcm"
    by (simp add: sample_speech_def whole_frame_def wideband_def)
  have n: "4 \<le> length sample_speech" "length sample_speech \<le> 16" "length (replicate 5 sample_turn) = length sample_speech"
    by (simp_all add: sample_speech_def)
  have e: "\<forall>e\<in>set (replicate 5 sample_turn). playing wideband e" by (simp add: playing_def sample_turn_def)
  show ?thesis
    unfolding speech_reaches_the_speaker [OF ready(1) f ready(2) w n(1,2) disjI1 [OF refl] n(3) e]
    by (simp add: sample_speech_def)
qed

end
