(* ===== verification/Contacts.thy ===== *)
theory Contacts
  imports CallFsm
begin

text \<open>
  The contacts of the phone (\<open>voip_settings.cpp\<close>): rows and rosters from Home Assistant turned into the entries of
  the phonebook, the update cycle that lets stale contacts expire, and the selection. The JSON library is not
  part of the repository: its parser is a parameter, its values are \<open>json\<close>.
\<close>

section \<open>JSON values\<close>

text \<open>
  A number is \<open>Some\<close> integer or any other number; a string is the C string of the item. The members of an object are in the
  order of the text, and the first with a name is the one found.
\<close>

datatype json = JNull | JBool bool | JNumber "int option" | JString string | JArray "json list" | JObject "(string \<times> json) list"

fun json_item :: "string \<Rightarrow> json \<Rightarrow> json option" where
  "json_item key (JObject ms) = map_of ms key"
| "json_item key _ = None"

definition json_string :: "json \<Rightarrow> string \<Rightarrow> string" where
  "json_string j key = (case json_item key j of Some (JString s) \<Rightarrow> s | _ \<Rightarrow> [])"

definition json_bool :: "json \<Rightarrow> string \<Rightarrow> bool" where
  "json_bool j key \<longleftrightarrow> json_item key j = Some (JBool True)"

definition json_u16 :: "json \<Rightarrow> string \<Rightarrow> u16 \<Rightarrow> u16" where
  "json_u16 j key d =
     (case json_item key j of
        Some (JNumber (Some n)) \<Rightarrow> if 0 \<le> n \<and> n \<le> 65535 then of_int n else d
      | Some (JString s) \<Rightarrow> (case parse_u16 (pb_trim s) of Some p \<Rightarrow> p | None \<Rightarrow> d)
      | _ \<Rightarrow> d)"

definition json_metadata :: "json \<Rightarrow> json option" where
  "json_metadata j = (case json_item ''metadata'' j of Some (JObject ms) \<Rightarrow> Some (JObject ms) | _ \<Rightarrow> None)"

definition json_metadata_string :: "json \<Rightarrow> string \<Rightarrow> string" where
  "json_metadata_string j key = (case json_metadata j of None \<Rightarrow> [] | Some m \<Rightarrow> json_string m key)"

definition json_metadata_u16 :: "json \<Rightarrow> string \<Rightarrow> u16 \<Rightarrow> u16" where
  "json_metadata_u16 j key d = (case json_metadata j of None \<Rightarrow> d | Some m \<Rightarrow> json_u16 m key d)"

definition json_metadata_bool :: "json \<Rightarrow> string \<Rightarrow> bool" where
  "json_metadata_bool j key = (case json_metadata j of None \<Rightarrow> False | Some m \<Rightarrow> json_bool m key)"

definition json_metadata_string_array_contains :: "json \<Rightarrow> string \<Rightarrow> string \<Rightarrow> bool" where
  "json_metadata_string_array_contains j key expected =
     (case json_metadata j of
        None \<Rightarrow> False
      | Some m \<Rightarrow> (case json_item key m of Some (JArray vs) \<Rightarrow> JString expected \<in> set vs | _ \<Rightarrow> False))"

section \<open>One row of a roster\<close>

record roster_slot =
  rs_name :: string
  rs_route :: string
  rs_address :: string
  rs_endpoint_type :: string
  rs_transport :: string
  rs_ha_bridge :: bool
  rs_local_ha :: bool
  rs_directional :: bool
  rs_sip_port :: u16
  rs_rtp_port :: u16

definition valid_roster_name :: "string \<Rightarrow> bool" where
  "valid_roster_name v \<longleftrightarrow>
     v \<noteq> [] \<and> length v \<le> MAX_NAME_BYTES \<and>
     list_all (\<lambda>c. \<not> (code c < 0x20 \<or> code c = 0x7F \<or> c = CHR ''|'' \<or> c = CHR '','' \<or> c = CHR '';'')) v"

definition bad_address_char :: "char \<Rightarrow> bool" where
  "bad_address_char c \<longleftrightarrow> c = CHR ''|'' \<or> c = CHR '','' \<or> c = CHR '';'' \<or> code c = 13 \<or> code c = 10 \<or> code c = 0x7F"

definition uri_transport :: "string \<Rightarrow> string" where
  "uri_transport uri =
     (case find_sub ''transport='' uri of
        None \<Rightarrow> []
      | Some p \<Rightarrow> let r = drop (p + length ''transport='') uri in
                  case find_char (CHR '';'') r of None \<Rightarrow> r | Some n \<Rightarrow> take n r)"

text \<open>The first of the places a transport may be named that is not empty.\<close>

definition slot_transport :: "json \<Rightarrow> string" where
  "slot_transport j =
     (let t1 = pb_trim (json_metadata_string j ''sip_transport'');
          t2 = (if t1 = [] then pb_trim (json_metadata_string j ''transport'') else t1);
          t3 = (if t2 = [] then pb_trim (json_string j ''sip_transport'') else t2);
          t4 = (if t3 = [] then pb_trim (json_string j ''transport'') else t3);
          t5 = (if t4 = [] then uri_transport (pb_trim (json_string j ''sip_uri'')) else t4);
          t = lower t5
      in if t \<noteq> ''tcp'' \<and> t \<noteq> ''udp'' then [] else t)"

definition slot_sip_port :: "json \<Rightarrow> u16" where
  "slot_sip_port j =
     (let p = json_metadata_u16 j ''sip_port'' (json_u16 j ''sip_port'' 0)
      in if p = 0 then json_metadata_u16 j ''port'' (json_u16 j ''port'' 5060) else p)"

definition parse_json_roster_slot :: "json \<Rightarrow> roster_slot option" where
  "parse_json_roster_slot j =
     (case j of
        JObject ms \<Rightarrow>
          let id0 = pb_trim (json_string j ''id''); name0 = pb_trim (json_string j ''name'');
              name1 = (if name0 = [] then id0 else name0);
              id1 = (if id0 = [] then name1 else id0);
              name2 = (if valid_roster_name name1 then name1 else id1);
              addr0 = pb_trim (json_string j ''address'');
              addr = (if addr0 = [] then pb_trim (json_string j ''host'') else addr0)
          in if \<not> valid_roster_name name2 then None
             else if length addr > MAX_ADDRESS_BYTES \<or> list_ex bad_address_char addr then None
             else Some \<lparr>rs_name = name2, rs_route = id1, rs_address = addr,
                        rs_endpoint_type = (if addr \<noteq> [] then ''sip'' else []),
                        rs_transport = slot_transport j, rs_ha_bridge = json_bool j ''ha_bridge'',
                        rs_local_ha = json_metadata_bool j ''local_ha'',
                        rs_directional = json_metadata_string_array_contains j ''sdp_features'' ''directional_audio_v1'',
                        rs_sip_port = slot_sip_port j,
                        rs_rtp_port = json_metadata_u16 j ''rtp_port'' (json_u16 j ''rtp_port'' 40000)\<rparr>
      | _ \<Rightarrow> None)"

section \<open>A roster\<close>

text \<open>The array of contacts of a parsed roster.\<close>

definition roster_array :: "json \<Rightarrow> json list option" where
  "roster_array root =
     (case root of
        JArray vs \<Rightarrow> Some vs
      | JObject ms \<Rightarrow>
          (case json_item ''contacts'' root of
             Some (JArray vs) \<Rightarrow> Some vs
           | _ \<Rightarrow> (case json_item ''entries'' root of Some (JArray vs) \<Rightarrow> Some vs | _ \<Rightarrow> None))
      | _ \<Rightarrow> None)"

text \<open>
  The rows kept, of at most as many as the phonebook holds; the last row of the local Home Assistant with an
  address; and whether any row was valid. The device itself, by name or route, is left out.
\<close>

fun collect_slots ::
    "string \<Rightarrow> string \<Rightarrow> json list \<Rightarrow> roster_slot list \<times> roster_slot option \<times> bool \<Rightarrow> roster_slot list \<times> roster_slot option \<times> bool" where
  "collect_slots dev dev_route [] acc = acc"
| "collect_slots dev dev_route (j # js) (slots, ha, saw) =
     (if length slots \<ge> MAX_CONTACTS then (slots, ha, saw)
      else case parse_json_roster_slot j of
             None \<Rightarrow> collect_slots dev dev_route js (slots, ha, saw)
           | Some sl \<Rightarrow>
               if rs_name sl = dev \<or> rs_route sl = dev_route then collect_slots dev dev_route js (slots, ha, True)
               else collect_slots dev dev_route js
                      (slots @ [sl], if rs_local_ha sl \<and> rs_address sl \<noteq> [] then Some sl else ha, True))"

text \<open>
  How a row is dialled: Home Assistant itself, a phone of its own address, or a phone behind Home Assistant;
  none without an address for it.
\<close>

definition slot_contact :: "bool \<Rightarrow> roster_slot option \<Rightarrow> roster_slot \<Rightarrow> contact option" where
  "slot_contact local_tcp ha sl =
     (let ty = (case parse_endpoint_type (rs_endpoint_type sl) of Some t \<Rightarrow> t | None \<Rightarrow> UNKNOWN);
          contact_tcp = (if rs_transport sl = [] then local_tcp else rs_transport sl = ''tcp'');
          direct = (rs_address sl \<noteq> [] \<and> \<not> rs_local_ha sl \<and> \<not> rs_ha_bridge sl \<and> ty = SIP);
          e = empty_contact\<lparr>name := rs_name sl, route := rs_route sl, directional_audio_v1 := rs_directional sl\<rparr>
      in if rs_local_ha sl then
           Some (e\<lparr>endpoint := SIP, ip := rs_address sl, port := rs_sip_port sl, rtp_port := rs_rtp_port sl,
                   sip_transport_tcp := local_tcp\<rparr>)
         else if direct then
           Some (e\<lparr>endpoint := ty, ip := rs_address sl, port := rs_sip_port sl, rtp_port := rs_rtp_port sl,
                   sip_transport_tcp := contact_tcp\<rparr>)
         else case ha of
                Some h \<Rightarrow>
                  Some (e\<lparr>endpoint := SIP, ip := rs_address h, port := rs_sip_port h, rtp_port := rs_rtp_port h,
                          sip_transport_tcp := local_tcp\<rparr>)
              | None \<Rightarrow> None)"

definition roster_contacts :: "bool \<Rightarrow> roster_slot option \<Rightarrow> roster_slot list \<Rightarrow> contact list" where
  "roster_contacts local_tcp ha slots = take MAX_CONTACTS (List.map_filter (slot_contact local_tcp ha) slots)"

section \<open>The phone\<close>

text \<open>
  The members around the state machine that the contacts use, what is configured, and what is published besides the
  effects of the state machine.
\<close>

datatype announcement = ContactCount string | PhonebookUpdate string

record 't phone =
  calls :: "'t fsm"
  local_tcp :: bool
  prune_threshold :: byte
  use_ha_as_first_contact :: bool
  first_contacts_batch_committed :: bool
  cycle_active :: bool
  cycle_started_at :: u32
  seen_in_cycle :: "string set"
  announcements :: "announcement list"

definition book :: "'t phone \<Rightarrow> phonebook" where
  "book p = contacts (calls p)"

definition with_book :: "phonebook \<Rightarrow> 't phone \<Rightarrow> 't phone" where
  "with_book pb p = p\<lparr>calls := (calls p)\<lparr>contacts := pb\<rparr>\<rparr>"

definition on_calls :: "('t fsm \<Rightarrow> 't fsm) \<Rightarrow> 't phone \<Rightarrow> 't phone" where
  "on_calls f p = p\<lparr>calls := f (calls p)\<rparr>"

definition contact_count :: "nat \<Rightarrow> string" where
  "contact_count n = dec n @ '' contact'' @ (if n = 1 then [] else ''s'')"

definition publish_contacts :: "'t phone \<Rightarrow> 't phone" where
  "publish_contacts p = p\<lparr>announcements := announcements p @ [ContactCount (contact_count (length (entries (book p))))]\<rparr>"

definition publish_phonebook_changed :: "'t phone \<Rightarrow> 't phone" where
  "publish_phonebook_changed p =
     (let p1 = publish_contacts (on_calls publish_destination p)
      in p1\<lparr>announcements := announcements p1 @ [PhonebookUpdate (get_current_destination (calls p1))]\<rparr>)"

section \<open>Changing the contacts\<close>

text \<open>\<open>None\<close> for a row that is dropped before it is printed again.\<close>

definition parse_slot_for_normalize :: "string \<Rightarrow> contact option" where
  "parse_slot_for_normalize raw =
     (case parse_entry raw of None \<Rightarrow> None | Some e \<Rightarrow> if endpoint e = UNKNOWN \<or> endpoint e = SIP then Some e else None)"

definition append_csv :: "string \<Rightarrow> string \<Rightarrow> string" where
  "append_csv out entry = (if entry = [] then out else if out = [] then entry else out @ '','' @ entry)"

definition normalize_phonebook_for_transport :: "string \<Rightarrow> string" where
  "normalize_phonebook_for_transport csv =
     (let slots = List.map_filter parse_slot_for_normalize (pb_split csv (CHR '','')) in
      if slots = [] then csv
      else foldl (\<lambda>out e. append_csv out (if endpoint e = SIP then serialize_contact e else name e)) [] slots)"

definition adopt_self :: "'t phone \<Rightarrow> 't phone" where
  "adopt_self p = with_book (set_self_name (device_name (config (calls p))) (book p)) p"

definition add_contact :: "string \<Rightarrow> 't phone \<Rightarrow> 't phone" where
  "add_contact entry p0 =
     (let p = adopt_self p0 in
      case add_one (book p) (normalize_phonebook_for_transport entry) of
        (r, pb) \<Rightarrow> if mutates r then publish_phonebook_changed (with_book pb p) else with_book pb p)"

definition remove_contact :: "string \<Rightarrow> 't phone \<Rightarrow> 't phone" where
  "remove_contact n p =
     (case remove_one (book p) n of
        (removed, pb) \<Rightarrow> if removed then publish_phonebook_changed (with_book pb p) else p)"

definition maybe_auto_select_ha_first :: "'t phone \<Rightarrow> bool \<times> 't phone" where
  "maybe_auto_select_ha_first p =
     (let ha = ha_peer_name (calls p) in
      if \<not> use_ha_as_first_contact p \<or> first_contacts_batch_committed p \<or> ha = [] \<or> phase (calls p) \<noteq> IDLE \<or>
         pb_find (book p) ha = None \<or> \<not> fst (pb_select (book p) ha)
      then (False, p)
      else (True, (with_book (snd (pb_select (book p) ha)) p)\<lparr>first_contacts_batch_committed := True\<rparr>))"

definition learn_ha_peer :: "roster_slot option \<Rightarrow> 't phone \<Rightarrow> 't phone" where
  "learn_ha_peer ha p =
     (case ha of None \<Rightarrow> p | Some h \<Rightarrow> on_calls (\<lambda>s. if ha_peer_name s \<noteq> rs_name h then s\<lparr>ha_peer_name := rs_name h\<rparr> else s) p)"

definition install_roster :: "roster_slot option \<Rightarrow> roster_slot list \<Rightarrow> 't phone \<Rightarrow> bool \<times> 't phone" where
  "install_roster ha slots p0 =
     (let p = learn_ha_peer ha p0; es = roster_contacts (local_tcp p) ha slots;
          p1 = (if cycle_active p then p\<lparr>seen_in_cycle := seen_in_cycle p \<union> set (map name es)\<rparr> else p)
      in case replace_all (book p1) es of (changed, pb) \<Rightarrow> (changed, with_book pb p1))"

definition MAX_ROSTER_JSON_BYTES :: nat where "MAX_ROSTER_JSON_BYTES = 32768"

definition apply_roster_json_contacts :: "(string \<Rightarrow> json option) \<Rightarrow> string \<Rightarrow> 't phone \<Rightarrow> bool \<times> 't phone" where
  "apply_roster_json_contacts parse_json text p =
     (if text = [] \<or> length text > MAX_ROSTER_JSON_BYTES then (False, p)
      else case parse_json text of
             None \<Rightarrow> (False, p)
           | Some root \<Rightarrow>
               case roster_array root of
                 None \<Rightarrow> (False, p)
               | Some items \<Rightarrow>
                   case collect_slots (device_name (config (calls p))) (device_route_id (config (calls p))) items ([], None, False) of
                     (slots, ha, saw) \<Rightarrow>
                       if slots = [] then
                         (if items = [] \<or> saw then (case replace_all (book p) [] of (changed, pb) \<Rightarrow> (changed, with_book pb p))
                          else (False, p))
                       else install_roster ha slots p)"

text \<open>The names of a list, for the update cycle.\<close>

definition track_csv :: "string \<Rightarrow> 't phone \<Rightarrow> 't phone" where
  "track_csv csv p =
     (let names = map (\<lambda>e. pb_trim (case find_char (CHR ''|'') e of None \<Rightarrow> e | Some i \<Rightarrow> take i e)) (pb_split csv (CHR '',''))
      in p\<lparr>seen_in_cycle := seen_in_cycle p \<union> set (filter (\<lambda>n. n \<noteq> []) names)\<rparr>)"

definition json_text :: "string \<Rightarrow> bool" where
  "json_text t \<longleftrightarrow> t \<noteq> [] \<and> (hd t = CHR ''{'' \<or> hd t = CHR ''['')"

definition announce_if :: "bool \<Rightarrow> bool \<times> 't phone \<Rightarrow> 't phone" where
  "announce_if changed sp = (case sp of (selected, p) \<Rightarrow> if changed \<or> selected then publish_phonebook_changed p else p)"

definition set_contacts :: "(string \<Rightarrow> json option) \<Rightarrow> string \<Rightarrow> 't phone \<Rightarrow> 't phone" where
  "set_contacts parse_json csv p0 =
     (let p = adopt_self p0; trimmed = pb_trim csv in
      if json_text trimmed then
        (case apply_roster_json_contacts parse_json trimmed p of
           (changed, p1) \<Rightarrow> announce_if changed (maybe_auto_select_ha_first p1))
      else
        let rows = normalize_phonebook_for_transport csv in
        if rows = [] then p
        else
          let p1 = (if cycle_active p then track_csv rows p else p) in
          case add_batch (book p1) rows of
            (changed, pb) \<Rightarrow> announce_if changed (maybe_auto_select_ha_first (with_book pb p1)))"

definition commit_update_cycle :: "'t phone \<Rightarrow> 't phone" where
  "commit_update_cycle p =
     (case commit_cycle (book p) (seen_in_cycle p) (prune_threshold p) of
        (pruned, pb) \<Rightarrow>
          let p1 = (with_book pb p)\<lparr>seen_in_cycle := {}, cycle_active := False\<rparr>
          in if pruned then publish_phonebook_changed (snd (maybe_auto_select_ha_first p1)) else p1)"

text \<open>The text of the phonebook sensor, if there is one; \<open>now\<close> is the clock.\<close>

definition update_contacts :: "(string \<Rightarrow> json option) \<Rightarrow> u32 \<Rightarrow> string option \<Rightarrow> 't phone \<Rightarrow> 't phone" where
  "update_contacts parse_json now sensor p0 =
     (let p1 = adopt_self (if cycle_active p0 then commit_update_cycle p0 else p0);
          p2 = p1\<lparr>cycle_active := True, cycle_started_at := now, seen_in_cycle := {}\<rparr>
      in case sensor of
           None \<Rightarrow> p2
         | Some raw \<Rightarrow>
             if raw = [] then p2
             else set_contacts parse_json (if json_text (pb_trim raw) then pb_trim raw else raw) p2)"

definition CYCLE_TIMEOUT_MS :: u32 where "CYCLE_TIMEOUT_MS = 10000"

text \<open>What the main loop does for the cycle.\<close>

definition loop_cycle :: "u32 \<Rightarrow> 't phone \<Rightarrow> 't phone" where
  "loop_cycle now p =
     (if cycle_active p \<and> now - cycle_started_at p > CYCLE_TIMEOUT_MS then commit_update_cycle p else p)"

definition flush_contacts :: "'t phone \<Rightarrow> 't phone" where
  "flush_contacts p = publish_phonebook_changed (with_book (pb_clear (book p)) p)"

definition set_contact :: "string \<Rightarrow> 't phone \<Rightarrow> bool \<times> 't phone" where
  "set_contact n p =
     (let missing = on_calls (defer_to_loop (CallFailedTrigger n (''Contact not found: '' @ n))) p in
      if entries (book p) = [] then (False, missing)
      else case pb_select (book p) n of
             (True, pb) \<Rightarrow> (True, on_calls publish_destination (with_book pb p))
           | (False, pb) \<Rightarrow> (False, missing))"

definition step_contact :: "(phonebook \<Rightarrow> phonebook) \<Rightarrow> 't phone \<Rightarrow> 't phone" where
  "step_contact move p =
     (if entries (book p) = [] then p
      else on_calls (\<lambda>s. publish_destination (clear_terminal_call_snapshot (publish_last_reason [] s))) (with_book (move (book p)) p))"

definition next_contact :: "'t phone \<Rightarrow> 't phone" where "next_contact = step_contact pb_next"

definition prev_contact :: "'t phone \<Rightarrow> 't phone" where "prev_contact = step_contact pb_prev"

definition set_ha_peer_name :: "string \<Rightarrow> 't phone \<Rightarrow> 't phone" where
  "set_ha_peer_name n p = on_calls (\<lambda>s. s\<lparr>ha_peer_name := n\<rparr>) p"

end
