(* ===== verification/CallFrames.thy ===== *)
theory CallFrames
  imports CallFsmCalls
begin

text \<open>
  What the call state machine leaves of the phonebook and of the configuration: calls never change the
  contacts, they only move the cursor to the contact that is dialled, and only the two switches of the user change the configuration.
\<close>

definition keeps_book :: "'t fsm \<Rightarrow> 't fsm \<Rightarrow> bool" where
  "keeps_book s t \<longleftrightarrow> contacts t = contacts s \<and> config t = config s"

named_theorems book_frames \<open>operations that keep the phonebook and the configuration\<close>

lemma book_in_call [book_frames]: "keeps_book s (set_in_call b s)"
  by (simp add: keeps_book_def set_in_call_def Let_def)

lemma book_end_call [book_frames]: "keeps_book s (end_call r d s)"
  by (simp add: keeps_book_def end_call_def Let_def)

lemma keeps_book_trans: "keeps_book s t \<Longrightarrow> keeps_book t u \<Longrightarrow> keeps_book s u"
  by (simp add: keeps_book_def)

lemma keeps_book_if: "keeps_book s a \<Longrightarrow> keeps_book s b \<Longrightarrow> keeps_book s (if P then a else b)"
  by simp

lemma book_finish_terminal [book_frames]: "keeps_book s (finish_terminal s)"
  by (simp add: keeps_book_def finish_terminal_def)

lemmas book_simps = book_in_call [unfolded keeps_book_def] book_end_call [unfolded keeps_book_def]
  book_finish_terminal [unfolded keeps_book_def]

lemma book_request [book_frames]: "keeps_book s (request_call_termination i s)"
proof (cases rule: request_cases [of s i])
  case (ended t1 action pending t2)
  have "keeps_book s t1" using ended(3) by (auto simp: keeps_book_def)
  then have "keeps_book s t2" using ended(4) by (auto simp: keeps_book_def dest!: send_termination_snd)
  then show ?thesis unfolding ended(5) by (simp add: keeps_book_def Let_def book_simps)
qed (simp_all add: book_frames, simp add: keeps_book_def)

lemmas request_book = book_request [unfolded keeps_book_def]

lemma book_attempt_identity: "keeps_book s (attempt_identity a s)"
  by (simp add: keeps_book_def attempt_identity_def)

lemmas identity_book = book_attempt_identity [unfolded keeps_book_def]

lemma book_attempts:
  "keeps_book s (unreachable_attempt a s)" "keeps_book s (open_attempt d a via r s)" "keeps_book s (send_attempt d a s)"
  by (simp_all add: keeps_book_def unreachable_attempt_def open_attempt_def send_attempt_def identity_book Let_def
      case_prod_beta request_book)

lemma book_attempt [book_frames]: "keeps_book s (start_call_attempt via cid s)"
proof -
  have "keeps_book s (send_attempt d a (open_attempt d a via r s))" for d a r
    by (rule keeps_book_trans [OF book_attempts(2) book_attempts(3)])
  then show ?thesis unfolding start_call_attempt_def Let_def by (intro keeps_book_if book_attempts(1))
qed

lemmas attempt_book = book_attempt [unfolded keeps_book_def]

lemma book_finish [book_frames]: "keeps_book s (finish_call_termination s)"
  by (simp add: keeps_book_def finish_call_termination_def attempt_book)

lemma book_start [book_frames]: "keeps_book s (start_with_id cid s)"
  by (simp add: keeps_book_def start_with_id_def attempt_book)

lemmas start_book = book_start [unfolded keeps_book_def] book_finish [unfolded keeps_book_def]

lemma book_stop [book_frames]: "keeps_book s (stop_call s)"
  by (simp add: keeps_book_def stop_call_def request_book)

lemma book_commit: "keeps_book s (commit_incoming_answer s)"
  by (simp add: keeps_book_def commit_incoming_answer_def Let_def case_prod_beta request_book book_simps)

lemmas commit_book = book_commit [unfolded keeps_book_def]

lemma book_complete [book_frames]: "keeps_book s (complete_incoming_answer send s)"
  by (simp add: keeps_book_def complete_incoming_answer_def connect_incoming_answer_def Let_def case_prod_beta request_book commit_book)

lemmas complete_book = book_complete [unfolded keeps_book_def]

lemma book_answer [book_frames]: "keeps_book s (answer_call s)"
  by (simp add: keeps_book_def answer_call_def complete_book)

lemma book_decline [book_frames]: "keeps_book s (decline_call r s)"
  by (simp add: keeps_book_def decline_call_def request_book book_stop [unfolded keeps_book_def])

lemma book_toggle [book_frames]: "keeps_book s (call_toggle s)"
  by (simp add: call_toggle_def book_frames)

lemma book_invite [book_frames]: "keeps_book s (on_invite m s)"
  by (auto simp: keeps_book_def on_invite_def refuse_invite_def accept_invite_def ring_invite_def admit_invite_def
      Let_def case_prod_beta request_book complete_book split: option.split)

lemma book_signal [book_frames]: "keeps_book s (on_sip_signal_received m s)"
proof -
  have "keeps_book s (on_media_ready m s)"
    by (simp add: keeps_book_def on_media_ready_def Let_def request_book complete_book)
  moreover have "keeps_book s (on_connected_identity m s)" by (simp add: keeps_book_def on_connected_identity_def Let_def)
  moreover have "keeps_book s (on_status_200 m s)"
    by (simp add: keeps_book_def on_status_200_def Let_def case_prod_beta request_book book_simps book_answer [unfolded keeps_book_def])
  moreover have "keeps_book s (on_final_response m s)"
    by (simp add: keeps_book_def on_final_response_def Let_def request_book)
  ultimately show ?thesis
    by (cases "signal_type m") (simp_all add: on_sip_signal_received_def book_frames, simp_all add: keeps_book_def)
qed

lemma book_timeouts [book_frames]: "keeps_book s (handle_call_timeouts s)"
  by (simp add: keeps_book_def handle_call_timeouts_def fire_timeout_decline_def fire_unanswered_invite_timeout_def
      watch_peer_audio_def Let_def request_book split: option.split)

lemma book_audio [book_frames]: "keeps_book s (on_audio_received n p s)"
  by (simp add: keeps_book_def on_audio_received_def Let_def)

lemma book_deferred [book_frames]: "keeps_book s (run_deferred d s)"
  by (cases d) (simp_all add: keeps_book_def run_deferred_def on_connection_change_def request_book start_book)

lemma book_main_loop [book_frames]: "keeps_book s (run_queue_head s)"
proof (cases "queue s")
  case (Cons d ds)
  then show ?thesis using book_deferred [of "s\<lparr>queue := ds\<rparr>" d] by (simp add: run_queue_head_def keeps_book_def)
qed (simp add: run_queue_head_def keeps_book_def)

text \<open>Dialling a name moves the cursor.\<close>

lemma book_call_target:
  "config (call_target v cid s) = config s \<and>
   (contacts (call_target v cid s) = contacts s \<or> (\<exists>n. contacts (call_target v cid s) = snd (pb_select (contacts s) n)))"
  by (auto simp: call_target_def Let_def case_prod_beta start_book)

lemma step_keeps_contacts:
  "device_name (config (fsm_step s e)) = device_name (config s) \<and>
   (contacts (fsm_step s e) = contacts s \<or> (\<exists>n. contacts (fsm_step s e) = snd (pb_select (contacts s) n)))"
proof (cases e)
  case (StartVia v cid)
  then show ?thesis using book_call_target [of v cid s] by (auto simp: fsm_step_def call_via_ha_def)
next
  case (Call v)
  then show ?thesis using book_call_target [of v "[]" s] by (auto simp: fsm_step_def)
next
  case (Timeouts t r)
  then show ?thesis using book_timeouts [of "s\<lparr>clock := t, entropy := r\<rparr>"] by (simp add: fsm_step_def keeps_book_def)
qed (use book_frames [where s = s, unfolded keeps_book_def] in
  \<open>simp_all add: fsm_step_def hangup_call_if_id_def transport_connection_callback_def transport_media_quiesced_callback_def\<close>)

end
