(* ===== verification/ContactsProps.thy ===== *)
theory ContactsProps
  imports Contacts CallFrames
begin

text \<open>
  What the contacts of the phone keep: a well-formed list without the phone itself, the meaning of the update cycle, and
  what a roster of Home Assistant leaves in the phonebook.
\<close>

section \<open>The phonebook never lists the phone\<close>

definition listed :: "string \<Rightarrow> phonebook \<Rightarrow> bool" where
  "listed d pb \<longleftrightarrow>
     pb_inv pb \<and> (d \<noteq> [] \<longrightarrow> d \<notin> name ` set (entries pb)) \<and> (entries pb \<noteq> [] \<longrightarrow> self_name pb = d)"

lemma merge_names: "name ` set (snd (merge_entries es e)) \<subseteq> insert (name e) (name ` set es)"
  by (induction es) (auto simp: Let_def prod.case_eq_if split: if_splits)

lemma add_entry_names:
  "name ` set (entries (snd (add_entry pb e))) \<subseteq> insert (name e) (name ` set (entries pb))"
  "self_name (snd (add_entry pb e)) = self_name pb"
  "is_self pb (name e) \<Longrightarrow> snd (add_entry pb e) = pb"
  using merge_names [of "entries pb" e]
  by (auto simp: add_entry_def pb_merge_def prod.case_eq_if Let_def split: if_splits add_result.splits)

lemma listed_add_entry:
  assumes "listed d pb" "self_name pb = d"
  shows "listed d (snd (add_entry pb e)) \<and> self_name (snd (add_entry pb e)) = d"
proof (cases "is_self pb (name e)")
  case True
  then show ?thesis using add_entry_names(3) assms by simp
next
  case False
  then have "d \<noteq> [] \<Longrightarrow> name e \<noteq> d" using assms(2) by (simp add: is_self_def)
  then show ?thesis
    using assms add_entry_inv [of pb e] add_entry_names(1,2) [of pb e] by (auto simp: listed_def)
qed

lemma add_one_entry: "snd (add_one pb s) = pb \<or> (\<exists>e. snd (add_one pb s) = snd (add_entry pb e))"
  by (auto simp: add_one_def add_entry_def is_self_def split: option.splits)

lemma listed_add_one: "listed d pb \<Longrightarrow> self_name pb = d \<Longrightarrow> listed d (snd (add_one pb s)) \<and> self_name (snd (add_one pb s)) = d"
  using add_one_entry [of pb s] listed_add_entry [of d pb] by auto

lemma listed_add_rows: "listed d pb \<Longrightarrow> self_name pb = d \<Longrightarrow> listed d (snd (add_rows pb ss)) \<and> self_name (snd (add_rows pb ss)) = d"
proof (induction ss arbitrary: pb)
  case (Cons s ss)
  from Cons.IH [of "snd (add_one pb s)"] listed_add_one [OF Cons.prems, of s] show ?case
    by (simp add: prod.case_eq_if Let_def)
qed simp

lemma normalize_names:
  "\<forall>e\<in>set (normalize_entries self acc es). e \<in> set acc \<or> self = [] \<or> name e \<noteq> self"
proof (induction self acc es rule: normalize_entries.induct)
  case (2 self acc e es)
  have put: "x \<in> set (put_route acc f) \<Longrightarrow> x \<in> set acc \<or> x = f" for x f by (induction acc) (auto split: if_splits)
  show ?case
  proof (cases "length acc \<ge> MAX_CONTACTS \<or> \<not> valid_entry e \<or> (self \<noteq> [] \<and> name e = self)")
    case True
    then show ?thesis using 2(1) by auto
  next
    case False
    then have "name (e\<lparr>missing_count := 0\<rparr>) \<noteq> self \<or> self = []" by auto
    then show ?thesis using 2(2) False put [of _ "e\<lparr>missing_count := 0\<rparr>"] by fastforce
  qed
qed simp

lemma replace_all_entries:
  "entries (snd (replace_all pb es)) = normalize_entries (self_name pb) [] es" "self_name (snd (replace_all pb es)) = self_name pb"
  by (auto simp: replace_all_def pb_select_def Let_def split: option.splits)

lemma listed_replace: "self_name pb = d \<Longrightarrow> listed d (snd (replace_all pb es))"
  using replace_all_inv [of pb es] normalize_names [of "self_name pb" "[]" es]
  by (auto simp: listed_def replace_all_entries)

lemma remove_one_entries:
  "set (entries (snd (remove_one pb n))) \<subseteq> set (entries pb)" "self_name (snd (remove_one pb n)) = self_name pb"
  by (auto simp: remove_one_def Let_def split: option.splits dest: in_set_takeD in_set_dropD)

lemma remove_names_entries:
  "set (entries (snd (remove_names pb ns))) \<subseteq> set (entries pb) \<and> self_name (snd (remove_names pb ns)) = self_name pb"
proof (induction ns arbitrary: pb)
  case (Cons n ns)
  from Cons.IH [of "snd (remove_one pb n)"] remove_one_entries [of pb n] show ?case
    by (auto simp: prod.case_eq_if Let_def)
qed simp

lemma listed_subset:
  assumes "listed d pb" "pb_inv pb2" "name ` set (entries pb2) \<subseteq> name ` set (entries pb)" "self_name pb2 = self_name pb"
  shows "listed d pb2"
  using assms by (auto simp: listed_def)

lemma commit_names: "name ` set (entries (snd (commit_cycle pb seen t))) \<subseteq> name ` set (entries pb)"
  "self_name (snd (commit_cycle pb seen t)) = self_name pb"
proof -
  let ?pb = "pb\<lparr>entries := map (count_missing seen) (entries pb)\<rparr>"
  let ?ns = "map name (filter (\<lambda>e. missing_count e \<ge> t) (entries ?pb))"
  have c: "snd (commit_cycle pb seen t) = (if t = 0 then ?pb else snd (remove_names ?pb ?ns))" by (simp add: commit_cycle_def Let_def)
  have "name ` set (entries ?pb) = name ` set (entries pb)" by (simp add: image_image)
  then show "name ` set (entries (snd (commit_cycle pb seen t))) \<subseteq> name ` set (entries pb)"
    using remove_names_entries [of ?pb ?ns] unfolding c by (cases "t = 0") auto
  show "self_name (snd (commit_cycle pb seen t)) = self_name pb"
    using remove_names_entries [of ?pb ?ns] unfolding c by (cases "t = 0") auto
qed

lemma listed_steps:
  assumes "listed d pb"
  shows "listed d (snd (remove_one pb n))" "listed d (snd (commit_cycle pb seen t))" "listed d (pb_clear pb)"
    "listed d (snd (pb_select pb n))" "listed d (pb_next pb)" "listed d (pb_prev pb)" "listed d (set_self_name d pb)"
proof -
  have i: "pb_inv pb" using assms by (simp add: listed_def)
  show "listed d (snd (remove_one pb n))"
    using listed_subset [OF assms remove_one_inv [OF i]] remove_one_entries [of pb n] by (auto dest: image_mono)
  show "listed d (snd (commit_cycle pb seen t))" by (rule listed_subset [OF assms commit_cycle_inv [OF i] commit_names])
  show "listed d (pb_clear pb)" by (simp add: listed_def pb_clear_def pb_inv_def MAX_CONTACTS_def)
  show "listed d (snd (pb_select pb n))"
    by (rule listed_subset [OF assms select_inv [OF i]]) (auto simp: pb_select_def split: option.splits)
  show "listed d (pb_next pb)" "listed d (pb_prev pb)"
    using phonebook.step_inv [OF i, of Next] phonebook.step_inv [OF i, of Prev]
    by (auto intro!: listed_subset [OF assms] simp: pb_next_def pb_prev_def)
  show "listed d (set_self_name d pb)" using assms by (auto simp: listed_def set_self_name_def pb_inv_def)
qed

section \<open>The operations of the phone\<close>

text \<open>The phone is in order: its list is, and names are collected only inside a cycle.\<close>

definition phone_ok :: "'t phone \<Rightarrow> bool" where
  "phone_ok p \<longleftrightarrow> listed (device_name (config (calls p))) (book p) \<and> (\<not> cycle_active p \<longrightarrow> seen_in_cycle p = {})"

definition own_name :: "'t phone \<Rightarrow> string" where "own_name p = device_name (config (calls p))"

definition own_route :: "'t phone \<Rightarrow> string" where "own_route p = device_route_id (config (calls p))"

lemmas phone_frame = book_def with_book_def on_calls_def own_name_def publish_phonebook_changed_def publish_contacts_def Let_def

lemma publish_frame [simp]:
  "book (publish_phonebook_changed p) = book p" "own_name (publish_phonebook_changed p) = own_name p"
  "cycle_active (publish_phonebook_changed p) = cycle_active p" "seen_in_cycle (publish_phonebook_changed p) = seen_in_cycle p"
  "prune_threshold (publish_phonebook_changed p) = prune_threshold p"
  "ha_peer_name (calls (publish_phonebook_changed p)) = ha_peer_name (calls p)"
  by (simp_all add: phone_frame)

lemma with_book_frame [simp]:
  "book (with_book pb p) = pb" "own_name (with_book pb p) = own_name p" "cycle_active (with_book pb p) = cycle_active p"
  "seen_in_cycle (with_book pb p) = seen_in_cycle p" "ha_peer_name (calls (with_book pb p)) = ha_peer_name (calls p)"
  "local_tcp (with_book pb p) = local_tcp p" "prune_threshold (with_book pb p) = prune_threshold p"
  by (simp_all add: phone_frame)

lemma field_frame [simp]:
  "book (p\<lparr>seen_in_cycle := x\<rparr>) = book p" "book (p\<lparr>cycle_active := y\<rparr>) = book p" "book (p\<lparr>cycle_started_at := z\<rparr>) = book p"
  "own_name (p\<lparr>seen_in_cycle := x\<rparr>) = own_name p" "own_name (p\<lparr>cycle_active := y\<rparr>) = own_name p"
  "own_name (p\<lparr>cycle_started_at := z\<rparr>) = own_name p"
  by (simp_all add: phone_frame)

lemma ok_parts: "phone_ok p \<longleftrightarrow> listed (own_name p) (book p) \<and> (\<not> cycle_active p \<longrightarrow> seen_in_cycle p = {})"
  by (simp add: phone_ok_def own_name_def)

lemma auto_select_frame:
  "own_name (snd (maybe_auto_select_ha_first p)) = own_name p" "cycle_active (snd (maybe_auto_select_ha_first p)) = cycle_active p"
  "seen_in_cycle (snd (maybe_auto_select_ha_first p)) = seen_in_cycle p"
  "ha_peer_name (calls (snd (maybe_auto_select_ha_first p))) = ha_peer_name (calls p)"
  "book (snd (maybe_auto_select_ha_first p)) = book p \<or> (\<exists>n. book (snd (maybe_auto_select_ha_first p)) = snd (pb_select (book p) n))"
  by (auto simp: maybe_auto_select_ha_first_def Let_def own_name_def with_book_def book_def)

lemma select_entries [simp]: "entries (snd (pb_select pb n)) = entries pb" "self_name (snd (pb_select pb n)) = self_name pb"
  by (auto simp: pb_select_def split: option.splits)

lemma announce_frame:
  "own_name (announce_if b sp) = own_name (snd sp)" "cycle_active (announce_if b sp) = cycle_active (snd sp)"
  "seen_in_cycle (announce_if b sp) = seen_in_cycle (snd sp)" "book (announce_if b sp) = book (snd sp)"
  "ha_peer_name (calls (announce_if b sp)) = ha_peer_name (calls (snd sp))"
  by (simp_all add: announce_if_def prod.case_eq_if)

lemma ok_announced: "phone_ok p \<Longrightarrow> phone_ok (announce_if b (maybe_auto_select_ha_first p))"
  using auto_select_frame [of p] listed_steps(4) [of "own_name p" "book p"] by (auto simp: ok_parts announce_frame)

lemma ok_published: "phone_ok (publish_phonebook_changed p) = phone_ok p"
  by (simp add: ok_parts)

lemma ok_adopted: "phone_ok p \<Longrightarrow> phone_ok (adopt_self p)" "self_name (book (adopt_self p)) = own_name p"
  "own_name (adopt_self p) = own_name p" "cycle_active (adopt_self p) = cycle_active p"
  "seen_in_cycle (adopt_self p) = seen_in_cycle p" "entries (book (adopt_self p)) = entries (book p)"
  "ha_peer_name (calls (adopt_self p)) = ha_peer_name (calls p)"
  using listed_steps(7) [of "own_name p" "book p"] by (auto simp: adopt_self_def ok_parts set_self_name_def simp flip: own_name_def)

lemma ok_install:
  assumes "phone_ok p" "self_name (book p) = own_name p"
  shows "phone_ok (snd (install_roster ha slots p))"
proof -
  let ?p = "learn_ha_peer ha p"
  have f: "book ?p = book p" "own_name ?p = own_name p" "cycle_active ?p = cycle_active p" "seen_in_cycle ?p = seen_in_cycle p"
    by (auto simp: learn_ha_peer_def phone_frame split: option.splits)
  show ?thesis using assms f listed_replace [of "book p" "own_name p"]
    by (simp add: install_roster_def ok_parts Let_def prod.case_eq_if)
qed

lemma ok_roster:
  assumes "phone_ok p" "self_name (book p) = own_name p"
  shows "phone_ok (snd (apply_roster_json_contacts parse_json text p))"
  using ok_install [OF assms] listed_replace [of "book p" "own_name p"] assms
  unfolding apply_roster_json_contacts_def by (auto simp: prod.case_eq_if ok_parts split: option.splits)

lemma track_frame: "book (track_csv csv p) = book p" "own_name (track_csv csv p) = own_name p" "cycle_active (track_csv csv p) = cycle_active p"
  by (simp_all add: track_csv_def book_def own_name_def Let_def)

lemma ok_set_contacts: "phone_ok p \<Longrightarrow> phone_ok (set_contacts parse_json csv p)"
proof -
  assume ok: "phone_ok p"
  define r where "r = adopt_self p"
  define rows where "rows = normalize_phonebook_for_transport csv"
  define q where "q = (if cycle_active r then track_csv rows r else r)"
  have r: "phone_ok r" "self_name (book r) = own_name r" using ok_adopted(1) [OF ok] ok_adopted(2,3) [of p] by (simp_all add: r_def)
  have q: "book q = book r" "own_name q = own_name r" "cycle_active q = cycle_active r" "\<not> cycle_active r \<Longrightarrow> seen_in_cycle q = seen_in_cycle r"
    by (simp_all add: q_def track_frame)
  have "phone_ok (with_book (snd (add_batch (book q) rows)) q)"
    using r q listed_add_rows [of "own_name r" "book r"] by (auto simp: ok_parts add_batch_def)
  from ok_announced [OF this] ok_announced [OF ok_roster [OF r]] r(1)
  show ?thesis
    unfolding set_contacts_def Let_def prod.case_eq_if r_def [symmetric] rows_def [symmetric] q_def [symmetric]
    by (cases "json_text (pb_trim csv)"; cases "rows = []") simp_all
qed

lemma ok_commit: "phone_ok p \<Longrightarrow> phone_ok (commit_update_cycle p)" "\<not> cycle_active (commit_update_cycle p)"
proof -
  assume ok: "phone_ok p"
  let ?p = "(with_book (snd (commit_cycle (book p) (seen_in_cycle p) (prune_threshold p))) p)\<lparr>seen_in_cycle := {}, cycle_active := False\<rparr>"
  have "phone_ok ?p" using ok listed_steps(2) [of "own_name p" "book p"] by (simp add: ok_parts)
  then show "phone_ok (commit_update_cycle p)"
    using ok_announced [of ?p True] by (simp add: commit_update_cycle_def prod.case_eq_if Let_def ok_published announce_if_def)
next
  show "\<not> cycle_active (commit_update_cycle p)"
    by (simp add: commit_update_cycle_def prod.case_eq_if Let_def auto_select_frame)
qed

lemma ok_update: "phone_ok p \<Longrightarrow> phone_ok (update_contacts parse_json now sensor p)"
proof -
  assume ok: "phone_ok p"
  define q where "q = (adopt_self (if cycle_active p then commit_update_cycle p else p))
    \<lparr>cycle_active := True, cycle_started_at := now, seen_in_cycle := {}\<rparr>"
  have "phone_ok (adopt_self (if cycle_active p then commit_update_cycle p else p))"
    by (cases "cycle_active p") (simp_all add: ok ok_commit(1) ok_adopted(1))
  then have q: "phone_ok q" by (simp add: q_def ok_parts)
  show ?thesis unfolding update_contacts_def Let_def q_def [symmetric]
    using q by (cases sensor) (simp_all add: ok_set_contacts)
qed

section \<open>Runs\<close>

text \<open>
  What can happen to the phone: its operations on contacts, every event of the state machine, and a transport, a clock
  and random numbers that change by themselves.
\<close>

datatype 't phone_event =
    AddContact string
  | RemoveContact string
  | SetContacts string
  | UpdateContacts u32 "string option"
  | LoopAt u32
  | FlushContacts
  | SetContact string
  | NextContact
  | PrevContact
  | SetHaPeerName string
  | CallEvent fsm_event
  | EnvironmentMoves "'t option" u32 u32

fun phone_step :: "(string \<Rightarrow> json option) \<Rightarrow> 't phone \<Rightarrow> 't phone_event \<Rightarrow> 't phone" where
  "phone_step parse_json p (AddContact e) = add_contact e p"
| "phone_step parse_json p (RemoveContact n) = remove_contact n p"
| "phone_step parse_json p (SetContacts csv) = set_contacts parse_json csv p"
| "phone_step parse_json p (UpdateContacts now sensor) = update_contacts parse_json now sensor p"
| "phone_step parse_json p (LoopAt now) = loop_cycle now p"
| "phone_step parse_json p FlushContacts = flush_contacts p"
| "phone_step parse_json p (SetContact n) = snd (set_contact n p)"
| "phone_step parse_json p NextContact = next_contact p"
| "phone_step parse_json p PrevContact = prev_contact p"
| "phone_step parse_json p (SetHaPeerName n) = set_ha_peer_name n p"
| "phone_step parse_json p (CallEvent e) = on_calls (\<lambda>s. fsm_step s e) p"
| "phone_step parse_json p (EnvironmentMoves tr now rnd) = on_calls (\<lambda>s. s\<lparr>transport := tr, clock := now, entropy := rnd\<rparr>) p"

lemma on_calls_frame:
  "contacts (f (calls p)) = contacts (calls p) \<Longrightarrow> config (f (calls p)) = config (calls p) \<Longrightarrow> phone_ok (on_calls f p) = phone_ok p"
  by (simp add: phone_ok_def on_calls_def book_def)

lemma ok_with_book: "phone_ok p \<Longrightarrow> listed (own_name p) pb \<Longrightarrow> phone_ok (with_book pb p)"
  by (simp add: ok_parts)

lemma ok_step_contact: "phone_ok p \<Longrightarrow> listed (own_name p) (move (book p)) \<Longrightarrow> phone_ok (step_contact move p)"
  by (simp add: step_contact_def on_calls_frame publish_last_reason_def clear_terminal_call_snapshot_def emit_def ok_with_book)

interpretation phone: invariant_machine "phone_step parse_json" phone_ok for parse_json
proof unfold_locales
  fix p :: "'t phone" and ev
  assume ok: "phone_ok p"
  note ls = listed_steps [of "own_name p" "book p"]
  have l: "listed (own_name p) (book p)" using ok by (simp add: ok_parts)
  show "phone_ok (phone_step parse_json p ev)"
  proof (cases ev)
    case (AddContact e)
    have "phone_ok (with_book (snd (add_one (book (adopt_self p)) (normalize_phonebook_for_transport e))) (adopt_self p))"
      using ok_adopted(1) [OF ok] listed_add_one [of "own_name p" "book (adopt_self p)"] ok_adopted(2,3) [of p] by (simp add: ok_parts)
    then show ?thesis by (simp add: AddContact add_contact_def prod.case_eq_if Let_def ok_published)
  next
    case (RemoveContact n)
    then show ?thesis using ok ls(1) l by (simp add: remove_contact_def prod.case_eq_if ok_published ok_with_book)
  next
    case (SetContact n)
    have f: "phone_ok (on_calls (defer_to_loop d) p)" for d using ok by (simp add: on_calls_frame defer_to_loop_def)
    have "phone_ok (on_calls publish_destination (with_book (snd (pb_select (book p) n)) p))"
      using ok ls(4) l by (simp add: on_calls_frame ok_with_book)
    then show ?thesis using f by (simp add: SetContact set_contact_def Let_def prod.case_eq_if bool.case_eq_if)
  next
    case (LoopAt now)
    then show ?thesis by (simp add: loop_cycle_def ok ok_commit(1))
  next
    case FlushContacts
    then show ?thesis using ok ls(3) l by (simp add: flush_contacts_def ok_published ok_with_book)
  next
    case (SetHaPeerName n)
    then show ?thesis using ok by (simp add: set_ha_peer_name_def on_calls_frame)
  next
    case (CallEvent e)
    let ?t = "fsm_step (calls p) e"
    have "listed (own_name p) (contacts ?t)" "device_name (config ?t) = own_name p"
      using step_keeps_contacts [of "calls p" e] l ls(4) by (auto simp: own_name_def book_def)
    then show ?thesis using ok by (simp add: CallEvent phone_ok_def on_calls_def book_def)
  next
    case (EnvironmentMoves tr now rnd)
    then show ?thesis using ok by (simp add: on_calls_frame)
  qed (use ok ls(5,6) l in \<open>simp_all add: next_contact_def prev_contact_def ok_step_contact ok_set_contacts ok_update\<close>)
qed

text \<open>A phone whose state machine idles, without contacts.\<close>

definition new_phone :: "unit phone" where
  "new_phone =
     \<lparr>calls = (sample_phone IDLE)\<lparr>contacts := new_phonebook\<rparr>, local_tcp = False, prune_threshold = 2,
      use_ha_as_first_contact = False, first_contacts_batch_committed = False, cycle_active = False,
      cycle_started_at = 0, seen_in_cycle = {}, announcements = []\<rparr>"

lemma new_phone_facts: "book new_phone = new_phonebook" "\<not> cycle_active new_phone" "seen_in_cycle new_phone = {}"
    "own_name new_phone = ''desk''" "own_route new_phone = ''100''" "\<not> local_tcp new_phone"
  by (simp_all add: new_phone_def book_def own_name_def own_route_def sample_phone_def sample_config_def)

text \<open>
  C17: Whatever Home Assistant, the user, the update cycle and the calls do, in any sequence of the operations on contacts
  and of the events of the state machine, the phone's contacts stay in order: at most sixty-four valid contacts, one
  per route, the cursor on one of them, the phone itself never among them, and no names kept from an update cycle that
  has been closed.
\<close>

theorem contacts_stay_in_order:
  fixes parse_json :: "string \<Rightarrow> json option" and p :: "'t phone" and evs :: "'t phone_event list"
  assumes "book p = new_phonebook" "\<not> cycle_active p" "seen_in_cycle p = {}"
  defines "q \<equiv> foldl (phone_step parse_json) p evs"
  shows "pb_inv (book q) \<and> (own_name q \<noteq> [] \<longrightarrow> own_name q \<notin> name ` set (entries (book q))) \<and>
    (\<not> cycle_active q \<longrightarrow> seen_in_cycle q = {})"
proof -
  have "phone_ok p" using assms(1-3) by (simp add: ok_parts listed_def new_phonebook_def pb_inv_def MAX_CONTACTS_def)
  from phone.run_inv [OF this, of parse_json evs] show ?thesis by (simp add: q_def ok_parts listed_def)
qed

theorem contacts_stay_in_order_witness:
  "pb_inv (book (foldl (phone_step (\<lambda>t. None)) new_phone
     [AddContact ''desk'', UpdateContacts 5 (Some ''door|10.0.0.7|5060|40000|sip_udp''), CallEvent (Call ''door''), LoopAt 20000, CallEvent Stop, NextContact]))"
  using contacts_stay_in_order [OF new_phone_facts(1-3)] by (rule conjunct1)

section \<open>After the end of a call\<close>

text \<open>Operations on the contacts let the state machine be: they publish, and send nothing.\<close>

definition calm :: "'t phone \<Rightarrow> 't phone \<Rightarrow> bool" where
  "calm p q \<longleftrightarrow> phase (calls q) = phase (calls p) \<and> last_reason (calls q) = last_reason (calls p) \<and>
     last_terminal (calls q) = last_terminal (calls p) \<and> response (calls q) = response (calls p) \<and>
     grows (\<lambda>e. \<not> is_sip e) (calls p) (calls q)"

lemma calm_refl: "calm p p"
  by (simp add: calm_def grows_refl)

lemma calm_with_book: "calm p q \<Longrightarrow> calm p (with_book pb q)"
  by (simp add: calm_def with_book_def)

lemma calm_fields [simp]:
  "calm p (q\<lparr>seen_in_cycle := x\<rparr>) = calm p q" "calm p (q\<lparr>cycle_active := y\<rparr>) = calm p q"
  "calm p (q\<lparr>cycle_started_at := z\<rparr>) = calm p q" "calm p (q\<lparr>first_contacts_batch_committed := y\<rparr>) = calm p q"
  "calm p (q\<lparr>announcements := a\<rparr>) = calm p q"
  by (simp_all add: calm_def)

lemma last_reason_publish [simp]: "last_reason (publish_destination s) = last_reason s" "last_reason (defer_to_loop d s) = last_reason s"
  by (simp_all add: publish_destination_def defer_to_loop_def emit_def Let_def)

lemma calm_destination: "calm p q \<Longrightarrow> calm p (on_calls publish_destination q)"
  by (auto simp: calm_def on_calls_def intro: grows_helpers)

lemma calm_defer: "calm p q \<Longrightarrow> calm p (on_calls (defer_to_loop d) q)"
  by (auto simp: calm_def on_calls_def intro: grows_defer)

lemma calm_publish: "calm p q \<Longrightarrow> calm p (publish_phonebook_changed q)"
  using calm_destination [of p q] by (simp add: publish_phonebook_changed_def publish_contacts_def Let_def)

lemma calm_peer: "calm p q \<Longrightarrow> calm p (learn_ha_peer ha q)" "calm p q \<Longrightarrow> calm p (set_ha_peer_name n q)"
  by (auto simp: learn_ha_peer_def set_ha_peer_name_def calm_def on_calls_def grows_def split: option.split)

lemma calm_adopt: "calm p q \<Longrightarrow> calm p (adopt_self q)"
  by (simp add: adopt_self_def calm_with_book)

lemma calm_select: "calm p q \<Longrightarrow> calm p (snd (maybe_auto_select_ha_first q))"
  by (auto simp: maybe_auto_select_ha_first_def Let_def intro: calm_with_book)

lemma calm_announce: "calm p (snd sp) \<Longrightarrow> calm p (announce_if b sp)"
  by (simp add: announce_if_def case_prod_beta calm_publish)

lemmas calm_basic = calm_with_book calm_destination calm_defer calm_publish calm_peer calm_adopt calm_select calm_announce

lemma calm_roster: "calm p q \<Longrightarrow> calm p (snd (apply_roster_json_contacts parse_json text q))"
  by (auto simp: apply_roster_json_contacts_def install_roster_def Let_def case_prod_beta intro!: calm_basic split: option.split)

lemma calm_track: "calm p q \<Longrightarrow> calm p (track_csv csv q)"
  by (simp add: track_csv_def Let_def)

lemma calm_set_contacts: "calm p q \<Longrightarrow> calm p (set_contacts parse_json csv q)"
proof -
  assume q: "calm p q"
  let ?r = "adopt_self q"
  have r: "calm p ?r" "calm p (if cycle_active ?r then track_csv t ?r else ?r)" for t
    using calm_adopt [OF q] calm_track by auto
  show ?thesis unfolding set_contacts_def Let_def case_prod_beta
    using r by (simp add: calm_announce calm_select calm_roster calm_with_book)
qed

lemma calm_commit: "calm p q \<Longrightarrow> calm p (commit_update_cycle q)"
  by (simp add: commit_update_cycle_def Let_def case_prod_beta calm_publish calm_select calm_with_book)

lemma calm_update: "calm p q \<Longrightarrow> calm p (update_contacts parse_json now sensor q)"
proof -
  assume q: "calm p q"
  have "calm p (adopt_self (if cycle_active q then commit_update_cycle q else q))"
    by (rule calm_adopt) (simp add: q calm_commit)
  then show ?thesis by (cases sensor) (simp_all add: update_contacts_def Let_def calm_set_contacts)
qed

lemma calm_operations:
  "calm p (add_contact e p)" "calm p (remove_contact n p)" "calm p (set_contacts parse_json csv p)"
  "calm p (update_contacts parse_json now sensor p)" "calm p (loop_cycle now p)" "calm p (flush_contacts p)"
  "calm p (snd (set_contact n p))" "calm p (set_ha_peer_name n p)"
  using calm_refl [of p]
  by (simp_all add: add_contact_def remove_contact_def loop_cycle_def flush_contacts_def set_contact_def Let_def case_prod_beta
      bool.case_eq_if calm_basic calm_set_contacts calm_update calm_commit)

lemma step_contact_shows:
  assumes "entries (book p) \<noteq> []"
  shows "phase (calls (step_contact move p)) = phase (calls p) \<and> response (calls (step_contact move p)) = response (calls p) \<and>
    grows (\<lambda>e. \<not> is_sip e) (calls p) (calls (step_contact move p)) \<and> last_reason (calls (step_contact move p)) = [] \<and>
    term_call_id (last_terminal (calls (step_contact move p))) = []"
  using assms
  by (auto simp: step_contact_def on_calls_def with_book_def publish_last_reason_def clear_terminal_call_snapshot_def
      intro!: grows_helpers grows_emit grows_refl)

text \<open>
  C20: The first reason that ends a call wins. In a terminal state no event of the state machine and no operation on the
  contacts sends a SIP message, changes the cached response, or leads anywhere but to IDLE; and none changes the
  published reason or the terminal snapshot, but for the user who turns to the next or the previous contact: that clears
  both, and the state stays.
\<close>

theorem first_terminal_intent_wins:
  fixes parse_json :: "string \<Rightarrow> json option" and p :: "'t phone" and ev :: "'t phone_event"
  assumes "call_state_is_terminating (phase (calls p))"
  defines "s \<equiv> calls p" and "t \<equiv> calls (phone_step parse_json p ev)"
  shows "(phase t = phase s \<or> phase t = IDLE) \<and> response t = response s \<and>
    (\<exists>es. log t = log s @ es \<and> list_all (\<lambda>e. \<not> is_sip e) es) \<and>
    (if (ev = NextContact \<or> ev = PrevContact) \<and> entries (contacts s) \<noteq> []
     then phase t = phase s \<and> last_reason t = [] \<and> term_call_id (last_terminal t) = []
     else last_reason t = last_reason s \<and> last_terminal t = last_terminal s)"
proof -
  have c: "calm p q \<Longrightarrow> phase (calls q) = phase s \<and> response (calls q) = response s \<and>
      (\<exists>es. log (calls q) = log s @ es \<and> list_all (\<lambda>e. \<not> is_sip e) es) \<and>
      last_reason (calls q) = last_reason s \<and> last_terminal (calls q) = last_terminal s" for q
    by (simp add: calm_def grows_def s_def)
  have m: "step_contact move p = p" if "entries (contacts s) = []" for move
    using that by (simp add: step_contact_def book_def s_def)
  note move = step_contact_shows [of p, unfolded book_def, folded s_def]
  show ?thesis
  proof (cases ev)
    case NextContact
    then show ?thesis using move [of pb_next] m [of pb_next] by (cases "entries (contacts s) = []") (auto simp: t_def s_def grows_def next_contact_def)
  next
    case PrevContact
    then show ?thesis using move [of pb_prev] m [of pb_prev] by (cases "entries (contacts s) = []") (auto simp: t_def s_def grows_def prev_contact_def)
  next
    case (CallEvent e)
    then show ?thesis using step_keeps_end [OF assms(1), of e] by (simp add: t_def s_def on_calls_def keeps_end_def grows_def)
  next
    case (EnvironmentMoves tr now rnd)
    then show ?thesis by (simp add: t_def s_def on_calls_def)
  qed (use c [OF calm_operations(1)] c [OF calm_operations(2)] c [OF calm_operations(3)] c [OF calm_operations(4)]
      c [OF calm_operations(5)] c [OF calm_operations(6)] c [OF calm_operations(7)] c [OF calm_operations(8)] in \<open>simp_all add: t_def\<close>)
qed

theorem first_terminal_intent_wins_witness:
  "let p = new_phone\<lparr>calls := (sample_phone BUSY)\<lparr>last_reason := ''busy''\<rparr>\<rparr> in
     last_reason (calls (phone_step (\<lambda>t. None) p (CallEvent Answer))) = ''busy'' \<and>
     last_reason (calls (phone_step (\<lambda>t. None) p FlushContacts)) = ''busy'' \<and>
     last_reason (calls (phone_step (\<lambda>t. None) p NextContact)) = []"
proof -
  let ?p = "new_phone\<lparr>calls := (sample_phone BUSY)\<lparr>last_reason := ''busy''\<rparr>\<rparr>"
  have t: "call_state_is_terminating (phase (calls ?p))" by simp
  have e: "entries (contacts (calls ?p)) \<noteq> []" by (simp add: sample_phone_def)
  have r: "last_reason (calls ?p) = ''busy''" by simp
  note f = first_terminal_intent_wins [OF t, of "\<lambda>t. None"]
  show ?thesis unfolding Let_def
    using f [of "CallEvent Answer"] f [of FlushContacts] f [of NextContact] e r by simp
qed

section \<open>The update cycle\<close>

lemma remove_names_keeps: "x \<in> set (entries pb) \<Longrightarrow> name x \<notin> set ns \<Longrightarrow> x \<in> set (entries (snd (remove_names pb ns)))"
proof (induction ns arbitrary: pb)
  case (Cons n ns)
  have "x \<in> set (entries (snd (remove_one pb n)))"
  proof (cases "index_of (\<lambda>e. name e = n) (entries pb)")
    case None
    then show ?thesis using Cons.prems by (simp add: remove_one_def)
  next
    case (Some i)
    note i = index_of_SomeD [OF Some]
    have "set (entries pb) = insert (entries pb ! i) (set (take i (entries pb) @ drop (Suc i) (entries pb)))"
      using id_take_nth_drop [of i "entries pb"] i by (metis list.set(2) set_append Un_insert_right)
    moreover have "x \<noteq> entries pb ! i" using i Cons.prems(2) by auto
    ultimately show ?thesis using Cons.prems(1) by (auto simp: remove_one_def Some Let_def)
  qed
  then show ?case using Cons.IH [of "snd (remove_one pb n)"] Cons.prems(2) by (simp add: prod.case_eq_if Let_def)
qed simp

text \<open>
  C27: A contact that is named in an update cycle survives its end, whatever other contacts share its name or
  route and however long it had been missing before: it is still listed, with its count of missed cycles back at 0.
\<close>

theorem named_contacts_survive_the_cycle:
  assumes "c \<in> set (entries (book p))" "name c \<in> seen_in_cycle p"
  shows "c\<lparr>missing_count := 0\<rparr> \<in> set (entries (book (commit_update_cycle p)))"
proof -
  let ?seen = "seen_in_cycle p" and ?t = "prune_threshold p"
  let ?pb = "(book p)\<lparr>entries := map (count_missing ?seen) (entries (book p))\<rparr>"
  let ?ns = "map name (filter (\<lambda>e. missing_count e \<ge> ?t) (entries ?pb))"
  have c: "c\<lparr>missing_count := 0\<rparr> \<in> set (entries ?pb)" using assms by (force simp: count_missing_def)
  have "name c \<notin> set ?ns" if "?t \<noteq> 0"
    using assms(2) that by (auto simp: count_missing_def)
  then have "c\<lparr>missing_count := 0\<rparr> \<in> set (entries (snd (remove_names ?pb ?ns)))" if "?t \<noteq> 0"
    using remove_names_keeps [OF c, of ?ns] that by simp
  then have k: "c\<lparr>missing_count := 0\<rparr> \<in> set (entries (snd (commit_cycle (book p) ?seen ?t)))"
    using c by (simp add: commit_cycle_def Let_def)
  have "entries (book (commit_update_cycle p)) = entries (snd (commit_cycle (book p) ?seen ?t))"
    using auto_select_frame(5) [of "(with_book (snd (commit_cycle (book p) ?seen ?t)) p)\<lparr>seen_in_cycle := {}, cycle_active := False\<rparr>"]
    by (auto simp: commit_update_cycle_def prod.case_eq_if Let_def)
  then show ?thesis using k by simp
qed

text \<open>A phone in an update cycle that named one of its contacts.\<close>

definition updating_phone :: "unit phone" where
  "updating_phone =
     (with_book (new_phonebook\<lparr>entries := [sample_contact ''door'' ''101'', (sample_contact ''gate'' ''102'')\<lparr>missing_count := 1\<rparr>]\<rparr>) new_phone)
       \<lparr>cycle_active := True, seen_in_cycle := {''door''}\<rparr>"

theorem named_contacts_survive_the_cycle_witness:
  "sample_contact ''door'' ''101'' \<in> set (entries (book (commit_update_cycle updating_phone)))"
proof -
  have "sample_contact ''door'' ''101'' \<in> set (entries (book updating_phone))" "name (sample_contact ''door'' ''101'') \<in> seen_in_cycle updating_phone"
    by (simp_all add: updating_phone_def sample_contact_def)
  from named_contacts_survive_the_cycle [OF this] show ?thesis by (simp add: sample_contact_def)
qed

section \<open>Rosters\<close>

text \<open>
  The list a roster stands for: the routes of its valid rows in the order of their first appearance, each with the last
  valid row that has it.
\<close>

definition first_occurrences :: "'a list \<Rightarrow> 'a list" where
  "first_occurrences xs = rev (remdups (rev xs))"

definition last_row :: "contact list \<Rightarrow> string \<Rightarrow> contact" where
  "last_row vs r = last (filter (\<lambda>e. route e = r) vs)"

definition roster_list :: "contact list \<Rightarrow> contact list" where
  "roster_list es = (let vs = filter valid_entry es in map (last_row vs) (first_occurrences (map route vs)))"

lemma first_occurrences_snoc:
  "first_occurrences (xs @ [x]) = (if x \<in> set xs then first_occurrences xs else first_occurrences xs @ [x])"
  by (simp add: first_occurrences_def)

lemma first_occurrences_facts: "distinct (first_occurrences xs)" "set (first_occurrences xs) = set xs"
  by (simp_all add: first_occurrences_def)

lemma first_occurrences_distinct: "distinct xs \<Longrightarrow> first_occurrences xs = xs"
  by (simp add: first_occurrences_def distinct_remdups_id)

lemma put_mapped:
  "distinct R \<Longrightarrow> \<forall>r\<in>set R. route (f r) = r \<Longrightarrow>
     put_route (map f R) e = (if route e \<in> set R then map (f(route e := e)) R else map f R @ [e])"
  by (induction R) auto

lemma last_row_route: "r \<in> route ` set vs \<Longrightarrow> route (last_row vs r) = r \<and> last_row vs r \<in> set vs"
proof -
  assume "r \<in> route ` set vs"
  then have "filter (\<lambda>e. route e = r) vs \<noteq> []" by (auto simp: filter_empty_conv)
  then have "last (filter (\<lambda>e. route e = r) vs) \<in> set (filter (\<lambda>e. route e = r) vs)" by (rule last_in_set)
  then show ?thesis by (simp add: last_row_def)
qed

lemma puts_are_last_rows:
  "foldl put_route [] vs = map (last_row vs) (first_occurrences (map route vs))"
proof (induction vs rule: rev_induct)
  case (snoc e vs)
  have r: "\<forall>r\<in>set (first_occurrences (map route vs)). route (last_row vs r) = r"
    using last_row_route [of _ vs] first_occurrences_facts(2) [of "map route vs"] by auto
  have u: "last_row (vs @ [e]) = (last_row vs)(route e := e)" by (auto simp: last_row_def)
  let ?R = "first_occurrences (map route vs)"
  have "foldl put_route [] (vs @ [e]) = (if route e \<in> set ?R then map ((last_row vs)(route e := e)) ?R else map (last_row vs) ?R @ [e])"
    using put_mapped [OF first_occurrences_facts(1) r, of e] snoc by simp
  moreover have "map ((last_row vs)(route e := e)) ?R = map (last_row vs) ?R" if "route e \<notin> set ?R"
    using that by (intro map_cong) auto
  ultimately have "foldl put_route [] (vs @ [e]) =
      (if route e \<in> set ?R then map ((last_row vs)(route e := e)) ?R else map ((last_row vs)(route e := e)) ?R @ [e])" by simp
  also have "\<dots> = map ((last_row vs)(route e := e)) (if route e \<in> set ?R then ?R else ?R @ [route e])" by (simp only: map_append list.map fun_upd_same split: if_split) simp
  finally show ?case unfolding u by (simp only: first_occurrences_snoc first_occurrences_facts(2) map_append list.map)
qed (simp add: first_occurrences_def)

lemma length_put: "length (put_route acc e) \<le> Suc (length acc)"
  by (induction acc) auto

lemma normalize_puts:
  assumes "length acc + length es \<le> MAX_CONTACTS" "\<forall>e\<in>set es. name e \<noteq> self \<and> missing_count e = 0"
  shows "normalize_entries self acc es = foldl put_route acc (filter valid_entry es)"
  using assms
proof (induction es arbitrary: acc)
  case (Cons e es)
  have same: "e\<lparr>missing_count := 0\<rparr> = e" using Cons.prems(2) by (cases e) simp
  have "normalize_entries self acc (e # es) =
      (if valid_entry e then normalize_entries self (put_route acc e) es else normalize_entries self acc es)"
    using Cons.prems by (simp add: same del: contact.update_convs)
  then show ?case using Cons.IH [of acc] Cons.IH [of "put_route acc e"] Cons.prems length_put [of acc e] by auto
qed simp

lemma normalize_roster:
  "length es \<le> MAX_CONTACTS \<Longrightarrow> \<forall>e\<in>set es. name e \<noteq> self \<and> missing_count e = 0 \<Longrightarrow> normalize_entries self [] es = roster_list es"
  using normalize_puts [of "[]" es self] by (simp add: puts_are_last_rows roster_list_def Let_def)

lemma roster_list_facts:
  "set (roster_list es) \<subseteq> {e \<in> set es. valid_entry e}" "distinct (map route (roster_list es))"
  "route ` set (roster_list es) = route ` {e \<in> set es. valid_entry e}"
proof -
  let ?vs = "filter valid_entry es" and ?R = "first_occurrences (map route (filter valid_entry es))"
  have r: "route (last_row ?vs r) = r" "last_row ?vs r \<in> set ?vs" if "r \<in> set ?R" for r
    using last_row_route [of r ?vs] that first_occurrences_facts(2) [of "map route ?vs"] by auto
  have m: "map route (roster_list es) = ?R"
    using r(1) by (simp add: roster_list_def Let_def map_idI)
  show "distinct (map route (roster_list es))" by (simp add: m first_occurrences_facts)
  have "set (map route (roster_list es)) = route ` {e \<in> set es. valid_entry e}"
    unfolding m by (simp add: first_occurrences_facts)
  then show "route ` set (roster_list es) = route ` {e \<in> set es. valid_entry e}" by simp
  show "set (roster_list es) \<subseteq> {e \<in> set es. valid_entry e}" using r(2) by (auto simp: roster_list_def Let_def)
qed

lemma roster_list_same: "distinct (map route es) \<Longrightarrow> list_all valid_entry es \<Longrightarrow> roster_list es = es"
proof -
  assume d: "distinct (map route es)" and v: "list_all valid_entry es"
  have f: "filter valid_entry es = es" using v by (simp add: filter_id_conv list_all_iff)
  have "last_row es (route e) = e" if mem: "e \<in> set es" for e
    using last_row_route [of "route e" es] mem d by (auto simp: distinct_map inj_on_def)
  then show ?thesis by (simp add: roster_list_def f first_occurrences_distinct [OF d] Let_def map_idI)
qed

lemma collected:
  assumes "collect_slots dev r js (slots0, ha0, saw0) = (slots, ha, saw)"
    "length slots0 \<le> MAX_CONTACTS" "\<forall>sl\<in>set slots0. rs_name sl \<noteq> dev" "\<forall>h. ha0 = Some h \<longrightarrow> h \<in> set slots0"
  shows "length slots \<le> MAX_CONTACTS \<and> (\<forall>sl\<in>set slots. rs_name sl \<noteq> dev) \<and> (\<forall>h. ha = Some h \<longrightarrow> h \<in> set slots)"
  using assms
proof (induction js arbitrary: slots0 ha0 saw0)
  case (Cons j js)
  show ?case
  proof (cases "length slots0 \<ge> MAX_CONTACTS")
    case False
    show ?thesis
    proof (cases "parse_json_roster_slot j")
      case None
      then have "collect_slots dev r js (slots0, ha0, saw0) = (slots, ha, saw)" using Cons.prems(1) False by simp
      then show ?thesis by (rule Cons.IH [OF _ Cons.prems(2-4)])
    next
      case (Some sl)
      show ?thesis
      proof (cases "rs_name sl = dev \<or> rs_route sl = r")
        case True
        then have "collect_slots dev r js (slots0, ha0, True) = (slots, ha, saw)" using Cons.prems(1) False Some by simp
        then show ?thesis by (rule Cons.IH [OF _ Cons.prems(2-4)])
      next
        case new: False
        let ?ha = "if rs_local_ha sl \<and> rs_address sl \<noteq> [] then Some sl else ha0"
        have "collect_slots dev r js (slots0 @ [sl], ?ha, True) = (slots, ha, saw)"
          using Cons.prems(1) False Some new by simp
        moreover have "length (slots0 @ [sl]) \<le> MAX_CONTACTS" using False by simp
        moreover have "\<forall>x\<in>set (slots0 @ [sl]). rs_name x \<noteq> dev" using Cons.prems(3) new by auto
        moreover have "\<forall>h. ?ha = Some h \<longrightarrow> h \<in> set (slots0 @ [sl])" using Cons.prems(4) by auto
        ultimately show ?thesis by (rule Cons.IH)
      qed
    qed
  qed (use Cons.prems in simp)
qed simp

lemma slot_contact_facts:
  assumes "slot_contact tcp ha sl = Some e"
  shows "name e = rs_name sl" "route e = rs_route sl" "missing_count e = 0" "endpoint e = SIP"
    "ip e = rs_address sl \<or> (\<exists>h. ha = Some h \<and> ip e = rs_address h)"
  using assms by (auto simp: slot_contact_def Let_def empty_contact_def split: if_splits option.splits)

lemma slot_contact_with_ha: "slot_contact tcp (Some h) sl \<noteq> None"
  by (simp add: slot_contact_def Let_def)

lemma map_filter_members: "e \<in> set (List.map_filter f xs) \<longleftrightarrow> (\<exists>x\<in>set xs. f x = Some e)"
  by (induction xs) (auto simp: List.map_filter_simps split: option.splits)

lemma roster_contacts_facts:
  assumes "length slots \<le> MAX_CONTACTS"
  shows "roster_contacts tcp ha slots = List.map_filter (slot_contact tcp ha) slots"
    "e \<in> set (roster_contacts tcp ha slots) \<Longrightarrow> \<exists>sl\<in>set slots. slot_contact tcp ha sl = Some e"
    "ha \<noteq> None \<Longrightarrow> map name (roster_contacts tcp ha slots) = map rs_name slots"
proof -
  have "length (List.map_filter f xs) \<le> length xs" for f and xs :: "roster_slot list"
    by (induction xs) (auto simp: List.map_filter_simps split: option.splits intro: le_SucI)
  then show r: "roster_contacts tcp ha slots = List.map_filter (slot_contact tcp ha) slots"
    unfolding roster_contacts_def using assms by (meson le_trans take_all)
  show "e \<in> set (roster_contacts tcp ha slots) \<Longrightarrow> \<exists>sl\<in>set slots. slot_contact tcp ha sl = Some e"
    by (simp add: r map_filter_members)
  assume "ha \<noteq> None"
  then obtain h where h: "ha = Some h" by blast
  have "map name (List.map_filter (slot_contact tcp ha) xs) = map rs_name xs" for xs
    using slot_contact_with_ha [of tcp h] slot_contact_facts(1) [of tcp ha]
    by (induction xs) (auto simp: List.map_filter_simps h split: option.splits)
  then show "map name (roster_contacts tcp ha slots) = map rs_name slots" by (simp add: r)
qed

lemma set_contacts_roster:
  assumes "json_text (pb_trim csv)"
  shows "entries (book (set_contacts parse_json csv p)) =
      entries (book (snd (apply_roster_json_contacts parse_json (pb_trim csv) (adopt_self p))))"
    "ha_peer_name (calls (set_contacts parse_json csv p)) =
      ha_peer_name (calls (snd (apply_roster_json_contacts parse_json (pb_trim csv) (adopt_self p))))"
    "seen_in_cycle (set_contacts parse_json csv p) =
      seen_in_cycle (snd (apply_roster_json_contacts parse_json (pb_trim csv) (adopt_self p)))"
  using assms auto_select_frame [of "snd (apply_roster_json_contacts parse_json (pb_trim csv) (adopt_self p))"]
  by (auto simp: set_contacts_def prod.case_eq_if Let_def announce_frame)

lemma adopted_route [simp]: "own_route (adopt_self p) = own_route p"
  by (simp add: own_route_def adopt_self_def with_book_def)

text \<open>
  C18: A roster of Home Assistant is authoritative. Whenever it is accepted - it has a row that can be read, or no row at
  all - the contacts become exactly the list its rows stand for: the routes of the valid rows in their order, each once, a
  later row with the same route in the place of the earlier one. Each is under the name and the route of
  its row and is dialled at the row's address or at that of Home Assistant. Rows that are all valid, with
  different routes, are taken over as they are; and with Home Assistant in the roster every row leads to a contact.
\<close>

theorem roster_is_authoritative:
  assumes "json_text (pb_trim csv)" "length (pb_trim csv) \<le> MAX_ROSTER_JSON_BYTES" "parse_json (pb_trim csv) = Some root"
    and "roster_array root = Some items" and "collect_slots (own_name p) (own_route p) items ([], None, False) = (slots, ha, saw)"
    and "slots \<noteq> [] \<or> items = [] \<or> saw" and "es = roster_contacts (local_tcp p) ha slots"
    and "cs = entries (book (set_contacts parse_json csv p))"
  shows "cs = roster_list es \<and> distinct (map route cs) \<and> route ` set cs = route ` {e \<in> set es. valid_entry e} \<and>
    (\<forall>e\<in>set cs. endpoint e = SIP \<and> ip e \<noteq> [] \<and> port e \<noteq> 0 \<and>
      (\<exists>sl\<in>set slots. name e = rs_name sl \<and> route e = rs_route sl \<and>
        (ip e = rs_address sl \<or> (\<exists>h\<in>set slots. ha = Some h \<and> ip e = rs_address h)))) \<and>
    (distinct (map route es) \<and> list_all valid_entry es \<longrightarrow> cs = es) \<and>
    (ha \<noteq> None \<longrightarrow> map name es = map rs_name slots)"
proof -
  let ?p = "adopt_self p"
  note c = collected [OF assms(5)]
  have l: "length slots \<le> MAX_CONTACTS" "\<forall>sl\<in>set slots. rs_name sl \<noteq> own_name p" "\<forall>h. ha = Some h \<longrightarrow> h \<in> set slots"
    using c by simp_all
  note f = roster_contacts_facts [OF l(1), where tcp = "local_tcp p" and ha = ha, folded assms(7)]
  have e: "endpoint e = SIP \<and> missing_count e = 0 \<and> (\<exists>sl\<in>set slots. name e = rs_name sl \<and> route e = rs_route sl \<and>
      (ip e = rs_address sl \<or> (\<exists>h. ha = Some h \<and> ip e = rs_address h)))" if mem: "e \<in> set es" for e
  proof -
    obtain sl where sl: "sl \<in> set slots" "slot_contact (local_tcp p) ha sl = Some e" using f(2) [OF mem] by blast
    show ?thesis using sl(1) slot_contact_facts [OF sl(2)] by (intro conjI bexI [of _ sl]) simp_all
  qed
  have len: "length es \<le> MAX_CONTACTS" by (simp add: assms(7) roster_contacts_def)
  have own: "device_name (config (calls ?p)) = own_name p" "device_route_id (config (calls ?p)) = own_route p" "local_tcp ?p = local_tcp p"
    by (simp_all add: own_name_def own_route_def adopt_self_def with_book_def)
  have n: "normalize_entries (own_name p) [] es = roster_list es"
    using normalize_roster [OF len, of "own_name p"] e l(2) by fastforce
  have tcp: "local_tcp (learn_ha_peer ha ?p) = local_tcp p" "book (learn_ha_peer ha ?p) = book ?p"
    by (simp_all add: learn_ha_peer_def on_calls_def own(3) book_def split: option.split)
  have i: "entries (book (snd (install_roster ha slots ?p))) = roster_list es"
    using n by (simp add: install_roster_def Let_def prod.case_eq_if tcp replace_all_entries ok_adopted(2) flip: assms(7))
  have t: "pb_trim csv \<noteq> []" using assms(1) by (simp add: json_text_def)
  have "entries (book (snd (apply_roster_json_contacts parse_json (pb_trim csv) ?p))) = roster_list es"
  proof (cases "slots = []")
    case True
    then have "es = []" by (simp add: assms(7) roster_contacts_def List.map_filter_simps)
    then have "roster_list es = []" by (simp add: roster_list_def first_occurrences_def)
    then show ?thesis using assms(2-6) t True
      by (simp add: apply_roster_json_contacts_def own not_less prod.case_eq_if replace_all_entries)
  next
    case False
    then show ?thesis using assms(2-5) t i by (simp add: apply_roster_json_contacts_def own not_less)
  qed
  then have cs: "cs = roster_list es" using set_contacts_roster(1) [OF assms(1)] assms(8) by metis
  have "endpoint x = SIP \<and> ip x \<noteq> [] \<and> port x \<noteq> 0 \<and> (\<exists>sl\<in>set slots. name x = rs_name sl \<and> route x = rs_route sl \<and>
      (ip x = rs_address sl \<or> (\<exists>h\<in>set slots. ha = Some h \<and> ip x = rs_address h)))" if mem: "x \<in> set cs" for x
  proof -
    have x: "x \<in> set es" "valid_entry x" using mem roster_list_facts(1) [of es] by (auto simp: cs)
    then have "ip x \<noteq> [] \<and> port x \<noteq> 0" using e [OF x(1)] by (simp add: valid_entry_def)
    then show ?thesis using e [OF x(1)] l(3) by blast
  qed
  then show ?thesis using roster_list_facts [of es] roster_list_same [of es] f(3) unfolding cs by blast
qed

text \<open>A roster with Home Assistant, a phone behind it, and the phone itself.\<close>

definition sample_roster :: json where
  "sample_roster = JObject [(''contacts'', JArray
     [JObject [(''id'', JString ''ha''), (''address'', JString ''10.0.0.2''), (''metadata'', JObject [(''local_ha'', JBool True)])],
      JObject [(''id'', JString ''100'')],
      JObject [(''id'', JString ''101''), (''name'', JString ''door'')]])]"

definition sample_slots :: "roster_slot list" where
  "sample_slots =
     [\<lparr>rs_name = ''ha'', rs_route = ''ha'', rs_address = ''10.0.0.2'', rs_endpoint_type = ''sip'', rs_transport = [],
       rs_ha_bridge = False, rs_local_ha = True, rs_directional = False, rs_sip_port = 5060, rs_rtp_port = 40000\<rparr>,
      \<lparr>rs_name = ''door'', rs_route = ''101'', rs_address = [], rs_endpoint_type = [], rs_transport = [],
       rs_ha_bridge = False, rs_local_ha = False, rs_directional = False, rs_sip_port = 5060, rs_rtp_port = 40000\<rparr>]"

lemma sample_rows:
  "parse_json_roster_slot (JObject [(''id'', JString ''ha''), (''address'', JString ''10.0.0.2''), (''metadata'', JObject [(''local_ha'', JBool True)])])
     = Some (sample_slots ! 0)"
  "parse_json_roster_slot (JObject [(''id'', JString ''101''), (''name'', JString ''door'')]) = Some (sample_slots ! 1)"
  "map_option rs_route (parse_json_roster_slot (JObject [(''id'', JString ''100'')])) = Some ''100''"
  by code_simp+

lemma sample_collected: "collect_slots ''desk'' ''100''
    [JObject [(''id'', JString ''ha''), (''address'', JString ''10.0.0.2''), (''metadata'', JObject [(''local_ha'', JBool True)])],
     JObject [(''id'', JString ''100'')], JObject [(''id'', JString ''101''), (''name'', JString ''door'')]] ([], None, False) =
   (sample_slots, Some (sample_slots ! 0), True)"
proof -
  obtain sl where own: "parse_json_roster_slot (JObject [(''id'', JString ''100'')]) = Some sl" "rs_route sl = ''100''"
    using sample_rows(3) by auto
  have two: "[sample_slots ! 0, sample_slots ! Suc 0] = sample_slots" by (simp add: sample_slots_def)
  have "rs_name (sample_slots ! 0) = ''ha''" "rs_route (sample_slots ! 0) = ''ha''" "rs_local_ha (sample_slots ! 0)"
    "rs_address (sample_slots ! 0) \<noteq> []" "rs_name (sample_slots ! 1) = ''door''" "rs_route (sample_slots ! 1) = ''101''"
    "\<not> rs_local_ha (sample_slots ! 1)" by (simp_all add: sample_slots_def)
  then show ?thesis by (simp add: sample_rows(1,2) own two MAX_CONTACTS_def)
qed

lemma sample_roster_contacts:
  "map name (roster_contacts False (Some (sample_slots ! 0)) sample_slots) = [''ha'', ''door'']"
  "distinct (map route (roster_contacts False (Some (sample_slots ! 0)) sample_slots))"
  "list_all valid_entry (roster_contacts False (Some (sample_slots ! 0)) sample_slots)"
  by code_simp+

theorem roster_is_authoritative_witness:
  "map name (entries (book (set_contacts (\<lambda>t. Some sample_roster) ''{}'' new_phone))) = [''ha'', ''door'']"
proof -
  have t: "json_text (pb_trim ''{}'')" "length (pb_trim ''{}'') \<le> MAX_ROSTER_JSON_BYTES" by code_simp+
  have r: "roster_array sample_roster = Some
     [JObject [(''id'', JString ''ha''), (''address'', JString ''10.0.0.2''), (''metadata'', JObject [(''local_ha'', JBool True)])],
      JObject [(''id'', JString ''100'')], JObject [(''id'', JString ''101''), (''name'', JString ''door'')]]"
    by (simp add: roster_array_def sample_roster_def)
  have s: "sample_slots \<noteq> []" by (simp add: sample_slots_def)
  let ?es = "roster_contacts (local_tcp new_phone) (Some (sample_slots ! 0)) sample_slots"
  have tcp: "local_tcp new_phone = False" using new_phone_facts by simp
  have "distinct (map route ?es) \<and> list_all valid_entry ?es"
    using sample_roster_contacts(2,3) unfolding tcp by blast
  then have "entries (book (set_contacts (\<lambda>t. Some sample_roster) ''{}'' new_phone)) = ?es"
    using roster_is_authoritative [OF t refl r _ disjI1 [OF s] refl refl, where p = new_phone and ha = "Some (sample_slots ! 0)" and saw = True]
      sample_collected new_phone_facts(4,5) by metis
  then show ?thesis using sample_roster_contacts(1) unfolding tcp by metis
qed

lemma nothing_collected:
  "\<forall>j\<in>set js. parse_json_roster_slot j = None \<Longrightarrow> collect_slots dev r js ([], None, False) = ([], None, False)"
  by (induction js) (auto simp: MAX_CONTACTS_def)

text \<open>
  A roster that makes no sense changes no contact: too long a text, no JSON, no array of contacts, or rows of
  which none is valid leave the contacts, the Home Assistant that was learned and the names of the update cycle as they were.
\<close>

theorem senseless_roster_changes_nothing:
  assumes "json_text (pb_trim csv)"
    and "length (pb_trim csv) > MAX_ROSTER_JSON_BYTES \<or>
      (case parse_json (pb_trim csv) of
         None \<Rightarrow> True
       | Some root \<Rightarrow> (case roster_array root of
             None \<Rightarrow> True
           | Some items \<Rightarrow> items \<noteq> [] \<and> (\<forall>j\<in>set items. parse_json_roster_slot j = None)))"
  shows "entries (book (set_contacts parse_json csv p)) = entries (book p) \<and>
    ha_peer_name (calls (set_contacts parse_json csv p)) = ha_peer_name (calls p) \<and>
    seen_in_cycle (set_contacts parse_json csv p) = seen_in_cycle p"
proof -
  have "snd (apply_roster_json_contacts parse_json (pb_trim csv) (adopt_self p)) = adopt_self p"
    using assms(2) nothing_collected by (auto simp: apply_roster_json_contacts_def split: option.splits)
  then show ?thesis unfolding set_contacts_roster [OF assms(1)] by (simp add: ok_adopted)
qed

theorem senseless_roster_changes_nothing_witness:
  "entries (book (set_contacts (\<lambda>t. None) ''[desk'' updating_phone)) = entries (book updating_phone)"
proof -
  have "json_text (pb_trim ''[desk'')" by code_simp
  from senseless_roster_changes_nothing [OF this, of "\<lambda>t. None" updating_phone] show ?thesis by simp
qed

end
