(* ===== verification/PhoneText.thy ===== *)
theory PhoneText
  imports CallFsm
begin

text \<open>
  What the phone tells Home Assistant of itself (\<open>voip_stack.cpp\<close>) and keeps over a restart (\<open>voip_settings.cpp\<close>): its
  extension and groups, the endpoint line, and the snapshot line of the call. The buffers of \<open>snprintf\<close> are
  kept: a text that does not fit is cut, or given up where the code does that. Builds with video and with audio
  debugging add fields that are left out.
\<close>

section \<open>Extension and groups\<close>

definition group_char :: "char \<Rightarrow> bool" where
  "group_char c \<longleftrightarrow> code c \<ge> 0x20 \<and> code c \<noteq> 0x7F \<and> c \<noteq> CHR ''|'' \<and> c \<noteq> CHR '';''"

definition MAX_GROUP_BYTES :: nat where "MAX_GROUP_BYTES = 32"
definition MAX_GROUP_LIST_BYTES :: nat where "MAX_GROUP_LIST_BYTES = 240"

text \<open>The end of a group: it is added when it is not empty, not too long, and the list does not grow too long.\<close>

definition flush_group :: "string \<Rightarrow> string \<Rightarrow> string" where
  "flush_group out cur =
     (let g = pb_trim cur in
      if g = [] \<or> length g > MAX_GROUP_BYTES then out
      else
        let separator = (if out = [] then 0 else 1) in
        if length out + separator + length g > MAX_GROUP_LIST_BYTES then out
        else (if separator \<noteq> 0 then out @ '','' else out) @ g)"

fun scan_groups :: "string \<Rightarrow> string \<Rightarrow> string \<Rightarrow> string" where
  "scan_groups out cur [] = flush_group out cur"
| "scan_groups out cur (c # cs) =
     (if c = CHR '','' then scan_groups (flush_group out cur) [] cs
      else if group_char c then scan_groups out (cur @ [c]) cs
      else scan_groups out cur cs)"

definition normalize_group_list :: "string \<Rightarrow> string" where
  "normalize_group_list v = scan_groups [] [] v"

fun scan_label :: "string \<Rightarrow> string \<Rightarrow> string" where
  "scan_label out [] = out"
| "scan_label out (c # cs) =
     (if length out \<ge> 32 then out
      else if \<not> group_char c \<or> c = CHR '','' then scan_label out cs
      else scan_label (out @ [c]) cs)"

definition normalize_endpoint_label :: "string \<Rightarrow> string" where
  "normalize_endpoint_label v = scan_label [] (pb_trim v)"

text \<open>The members for routing, what is scheduled, and what the text and switch entities were given.\<close>

datatype routing_output = ExtensionText string | RingGroupsText string | ConferenceGroupsText string | ConferenceRingSwitch bool

record routing =
  extension :: string
  ring_groups :: string
  conference_groups :: string
  conference_ring :: bool
  routing_settings_loaded :: bool
  routing_save_scheduled :: bool
  endpoint_publish_requested :: bool
  routing_outputs :: "routing_output list"

definition shown :: "routing_output \<Rightarrow> routing \<Rightarrow> routing" where
  "shown w r = r\<lparr>routing_outputs := routing_outputs r @ [w]\<rparr>"

definition schedule_save_routing_settings :: "routing \<Rightarrow> routing" where
  "schedule_save_routing_settings r =
     (if \<not> routing_settings_loaded r \<or> routing_save_scheduled r then r else r\<lparr>routing_save_scheduled := True\<rparr>)"

definition set_extension :: "string \<Rightarrow> routing \<Rightarrow> routing" where
  "set_extension v r =
     (let n = normalize_endpoint_label v in
      if n = extension r then r
      else schedule_save_routing_settings ((shown (ExtensionText n) (r\<lparr>extension := n\<rparr>))\<lparr>endpoint_publish_requested := True\<rparr>))"

definition set_ring_groups :: "string \<Rightarrow> routing \<Rightarrow> routing" where
  "set_ring_groups v r =
     (let n = normalize_group_list v in
      if n = ring_groups r then r else schedule_save_routing_settings (shown (RingGroupsText n) (r\<lparr>ring_groups := n\<rparr>)))"

definition set_conference_ring :: "bool \<Rightarrow> routing \<Rightarrow> routing" where
  "set_conference_ring enabled r =
     (let on = (enabled \<and> conference_groups r \<noteq> []) in shown (ConferenceRingSwitch on) (r\<lparr>conference_ring := on\<rparr>))"

definition set_conference_groups :: "string \<Rightarrow> routing \<Rightarrow> routing" where
  "set_conference_groups v r =
     (let n = normalize_group_list v in
      if n = conference_groups r then r
      else
        let r1 = r\<lparr>conference_groups := n\<rparr>;
            r2 = (if n = [] \<and> conference_ring r1 then set_conference_ring False r1 else r1)
        in schedule_save_routing_settings (shown (ConferenceGroupsText n) r2))"

section \<open>The stored settings\<close>

text \<open>The character arrays of the flash record, as the C strings they hold.\<close>

record stored_routing =
  st_version :: byte
  st_extension :: string
  st_ring_groups :: string
  st_conference_groups :: string

definition ROUTING_SETTINGS_VERSION :: byte where "ROUTING_SETTINGS_VERSION = 1"
definition MAX_EXTENSION_BYTES :: nat where "MAX_EXTENSION_BYTES = 32"

definition copy_bounded :: "nat \<Rightarrow> string \<Rightarrow> string" where
  "copy_bounded capacity s = c_str (take (min (capacity - 1) (length s)) s)"

definition save_routing_settings :: "routing \<Rightarrow> stored_routing" where
  "save_routing_settings r =
     \<lparr>st_version = ROUTING_SETTINGS_VERSION, st_extension = copy_bounded (MAX_EXTENSION_BYTES + 1) (extension r),
      st_ring_groups = copy_bounded (MAX_GROUP_LIST_BYTES + 1) (ring_groups r),
      st_conference_groups = copy_bounded (MAX_GROUP_LIST_BYTES + 1) (conference_groups r)\<rparr>"

text \<open>The save that was scheduled.\<close>

definition routing_save_due :: "routing \<Rightarrow> stored_routing \<times> routing" where
  "routing_save_due r = (let r1 = r\<lparr>routing_save_scheduled := False\<rparr> in (save_routing_settings r1, r1))"

definition load_routing_settings :: "stored_routing option \<Rightarrow> routing \<Rightarrow> routing" where
  "load_routing_settings stored r =
     (let r1 = (case stored of
                  Some st \<Rightarrow>
                    if st_version st = ROUTING_SETTINGS_VERSION
                    then set_conference_groups (copy_bounded (MAX_GROUP_LIST_BYTES + 1) (st_conference_groups st))
                           (set_ring_groups (copy_bounded (MAX_GROUP_LIST_BYTES + 1) (st_ring_groups st))
                             (set_extension (copy_bounded (MAX_EXTENSION_BYTES + 1) (st_extension st)) r))
                    else r
                | None \<Rightarrow> r)
      in r1\<lparr>routing_settings_loaded := True\<rparr>)"

text \<open>
  The routing settings of the YAML file, and a phone that starts: the members are empty, the generated code calls the
  setters, and the setup loads what the preferences return - a record, possibly an old or a damaged one, or nothing.
\<close>

record routing_config =
  cfg_extension :: string
  cfg_conference_groups :: string
  cfg_conference_ring :: bool
  cfg_ring_groups :: string

definition fresh_routing :: routing where
  "fresh_routing = \<lparr>extension = [], ring_groups = [], conference_groups = [], conference_ring = False,
     routing_settings_loaded = False, routing_save_scheduled = False, endpoint_publish_requested = False, routing_outputs = []\<rparr>"

definition configured_routing :: "routing_config \<Rightarrow> routing" where
  "configured_routing y =
     set_ring_groups (cfg_ring_groups y)
       (set_conference_ring (cfg_conference_ring y)
         (set_conference_groups (cfg_conference_groups y) (set_extension (cfg_extension y) fresh_routing)))"

definition booted :: "routing_config \<Rightarrow> stored_routing option \<Rightarrow> routing" where
  "booted y returned = load_routing_settings returned (configured_routing y)"

text \<open>The switch's own restored state, applied when the entities are first published.\<close>

definition restore_conference_ring :: "bool option \<Rightarrow> routing \<Rightarrow> routing" where
  "restore_conference_ring initial r =
     (let r1 = (case initial of Some on \<Rightarrow> r\<lparr>conference_ring := (on \<and> conference_groups r \<noteq> [])\<rparr> | None \<Rightarrow> r)
      in shown (ConferenceRingSwitch (conference_ring r1)) r1)"

section \<open>The endpoint line\<close>

fun pcm_name :: "pcm_format \<Rightarrow> string" where
  "pcm_name S16LE = ''s16le''"
| "pcm_name S24LE = ''s24le''"
| "pcm_name S24LE_IN_S32 = ''s24le_in_s32''"
| "pcm_name S32LE = ''s32le''"
| "pcm_name (PcmRaw b) = ''s16le''"

definition audio_format_token :: "audio_format \<Rightarrow> string" where
  "audio_format_token f =
     take 47 (dec (unat (sample_rate f)) @ '':'' @ pcm_name (pcm_format f) @ '':'' @ dec (unat (channels f)) @ '':'' @
              dec (unat (frame_ms f)))"

definition compact_encoding :: "string \<Rightarrow> string" where
  "compact_encoding e =
     (if e = ''opus'' then ''o'' else if e = ''L16'' then ''l'' else if e = ''L24'' then ''h''
      else if e = ''PCMA'' then ''a'' else if e = ''PCMU'' then ''u'' else if e = ''G722'' then ''g'' else [])"

definition audio_rtp_format_token :: "audio_format \<Rightarrow> string" where
  "audio_rtp_format_token f =
     (case audio_format_rtp_encoding f 1200 of
        None \<Rightarrow> []
      | Some e \<Rightarrow>
          if compact_encoding e = [] then []
          else take 47 (compact_encoding e @ ''/'' @ dec (unat (audio_format_rtp_clock_rate f div 1000)) @ ''/'' @
                        dec (unat (audio_format_rtp_channels f)) @ ''/'' @ dec (unat (frame_ms f))))"

fun joined :: "string \<Rightarrow> string list \<Rightarrow> string" where
  "joined sep [] = []"
| "joined sep [t] = t"
| "joined sep (t # ts) = t @ sep @ joined sep ts"

definition pcm_format_list_token :: "audio_format_list \<Rightarrow> string" where
  "pcm_format_list_token fs = joined ''; '' (map audio_format_token (filter (\<lambda>f. codec f = PCM) fs))"

definition rtp_format_list_token :: "audio_format_list \<Rightarrow> string" where
  "rtp_format_list_token fs = joined '','' (filter (\<lambda>t. t \<noteq> []) (map audio_rtp_format_token fs))"

text \<open>The addresses of the device, with whether each is an IPv4 one.\<close>

definition local_ip_string :: "(bool \<times> string) list \<Rightarrow> string" where
  "local_ip_string addresses =
     (case find (\<lambda>(ip4, t). ip4 \<and> t \<noteq> ''0.0.0.0'') addresses of None \<Rightarrow> [] | Some (ip4, t) \<Rightarrow> t)"

definition audio_capability_name :: "bool \<Rightarrow> bool \<Rightarrow> string" where
  "audio_capability_name mic spk = (if mic \<and> spk then ''full_duplex'' else if mic then ''mic_only'' else ''speaker_only'')"

record endpoint_setup =
  friendly_name :: string
  ip_addresses :: "(bool \<times> string) list"
  listen_port :: u16
  media_port :: u16
  has_microphone :: bool
  protocol_tcp :: bool

definition build_endpoint_string :: "endpoint_setup \<Rightarrow> fsm_config \<Rightarrow> routing \<Rightarrow> string" where
  "build_endpoint_string e c r =
     (let n = (if device_name c \<noteq> [] then device_name c else friendly_name e);
          address = local_ip_string (ip_addresses e);
          has_non_pcm = list_ex (\<lambda>f. codec f \<noteq> PCM) (cfg_tx_formats c @ cfg_rx_formats c);
          tx = (if has_non_pcm then [] else pcm_format_list_token (cfg_tx_formats c));
          rx = (if has_non_pcm then [] else pcm_format_list_token (cfg_rx_formats c));
          rtp_tx = rtp_format_list_token (cfg_tx_formats c); rtp_rx = rtp_format_list_token (cfg_rx_formats c);
          extra = (if has_non_pcm
                   then (if rtp_tx \<noteq> [] then '' | at='' @ rtp_tx else []) @ (if rtp_rx \<noteq> [] then '' | ar='' @ rtp_rx else [])
                   else []) @ '' | sf=d1'';
          line = joined '' | '' [c_str n, address, dec (unat (listen_port e)), dec (unat (media_port e)),
                   audio_capability_name (has_microphone e) (has_speaker c), tx, rx,
                   if protocol_tcp e then ''sip_tcp'' else ''sip_udp'', c_str (extension r)] @ extra
      in if n = [] \<or> address = [] then [] else if length line \<ge> 640 then [] else line)"

section \<open>The snapshot line\<close>

definition field_escape :: "nat \<Rightarrow> string \<Rightarrow> string" where
  "field_escape max_len s =
     take max_len (map (\<lambda>c. if code c = 13 \<or> code c = 10 \<or> c = CHR '';'' \<or> c = CHR ''|'' then CHR '' '' else c) s)"

definition compact_audio_format :: "audio_format \<Rightarrow> string" where
  "compact_audio_format f = take 17 (dec (unat (sample_rate f div 1000)) @ ''k/'' @ dec (unat (frame_ms f)))"

text \<open>What the transport reports, if there is one, and the counters of the audio queues.\<close>

record transport_report =
  rep_tx_packets :: u32
  rep_rx_packets :: u32
  rep_status :: u16
  rep_event :: string
  rep_tx_format :: audio_format
  rep_rx_format :: audio_format

record queue_report =
  rep_tx_depth :: u32
  rep_tx_drops :: u32
  rep_rx_depth :: u32
  rep_rx_drops :: u32

definition snapshot_direction :: "'t fsm \<Rightarrow> string" where
  "snapshot_direction s =
     (let dev = device_name (config s) in
      if caller_name (identity s) \<noteq> [] \<and> caller_name (identity s) = dev then ''outgoing''
      else if dest_name (identity s) \<noteq> [] \<and> dest_name (identity s) = dev then ''incoming''
      else if phase s = CALLING then ''outgoing'' else if phase s = RINGING then ''incoming'' else [])"

text \<open>The call shown, with its direction: after the end of a call, the one that ended.\<close>

definition snapshot_call :: "'t fsm \<Rightarrow> string \<times> string \<times> string \<times> string" where
  "snapshot_call s =
     (let t = last_terminal s in
      if call_id (identity s) = [] \<and> term_call_id t \<noteq> [] \<and> last_reason s \<noteq> []
      then (term_call_id t, term_direction t, term_caller_name t, term_dest_name t)
      else (call_id (identity s), snapshot_direction s, caller_name (identity s), dest_name (identity s)))"

definition snapshot_formats :: "'t fsm \<Rightarrow> transport_report option \<Rightarrow> audio_format \<times> audio_format" where
  "snapshot_formats s rep =
     (case rep of
        Some t \<Rightarrow> if phase s \<noteq> IDLE \<or> last_reason s = [] then (rep_tx_format t, rep_rx_format t)
                  else if term_call_id (last_terminal s) \<noteq> [] then (term_tx_format (last_terminal s), term_rx_format (last_terminal s))
                  else (fmt_tx (media s), fmt_rx (media s))
      | None \<Rightarrow> if term_call_id (last_terminal s) \<noteq> [] \<and> last_reason s \<noteq> [] \<and> phase s = IDLE
                then (term_tx_format (last_terminal s), term_rx_format (last_terminal s))
                else (fmt_tx (media s), fmt_rx (media s)))"

definition snapshot_fields :: "bool \<Rightarrow> transport_report option \<Rightarrow> queue_report \<Rightarrow> 't fsm \<Rightarrow> (string \<times> string) list" where
  "snapshot_fields tcp rep q s =
     (case snapshot_call s of
        (cid, direction, caller, dest) \<Rightarrow>
          case snapshot_formats s rep of
            (tx, rx) \<Rightarrow>
              let text = (\<lambda>n v. c_str (field_escape n v)); number = (\<lambda>x :: u32. dec (unat x)) in
              [(''st'', text 18 (call_state_to_str (phase s))), (''id'', text 12 cid), (''dir'', text 3 direction),
               (''from'', text 14 caller), (''to'', text 14 dest), (''ct'', text 14 (current_name (contacts s))),
               (''tr'', if tcp then ''tcp'' else ''udp''),
               (''sc'', dec (unat (case rep of Some t \<Rightarrow> rep_status t | None \<Rightarrow> 0))),
               (''tx'', compact_audio_format tx), (''rx'', compact_audio_format rx),
               (''pt'', number (case rep of Some t \<Rightarrow> rep_tx_packets t | None \<Rightarrow> 0)),
               (''pr'', number (case rep of Some t \<Rightarrow> rep_rx_packets t | None \<Rightarrow> 0)),
               (''tqd'', number (rep_tx_depth q)), (''tqdrop'', number (rep_tx_drops q)),
               (''rqd'', number (rep_rx_depth q)), (''rqdrop'', number (rep_rx_drops q)),
               (''rs'', text 22 (last_reason s)), (''ev'', text 22 (case rep of Some t \<Rightarrow> rep_event t | None \<Rightarrow> []))])"

definition build_sip_snapshot_string :: "bool \<Rightarrow> transport_report option \<Rightarrow> queue_report \<Rightarrow> 't fsm \<Rightarrow> string" where
  "build_sip_snapshot_string tcp rep q s = take 511 (joined ''; '' (map (\<lambda>(k, v). k @ ''='' @ v) (snapshot_fields tcp rep q s)))"

text \<open>What was published, with the values compared before the next time, and what the two text sensors were given.\<close>

datatype sensor_output = EndpointState string | SnapshotState string

record published =
  last_endpoint :: string
  last_sip_snapshot :: string
  sensor_outputs :: "sensor_output list"

definition publish_sip_snapshot :: "string \<Rightarrow> published \<Rightarrow> published" where
  "publish_sip_snapshot snapshot p =
     (if snapshot = last_sip_snapshot p then p
      else p\<lparr>last_sip_snapshot := snapshot, sensor_outputs := sensor_outputs p @ [SnapshotState snapshot]\<rparr>)"

definition publish_endpoint :: "string \<Rightarrow> string \<Rightarrow> published \<Rightarrow> published" where
  "publish_endpoint line snapshot p =
     (if line = [] then p
      else publish_sip_snapshot snapshot
             (if line \<noteq> last_endpoint p
              then p\<lparr>last_endpoint := line, sensor_outputs := sensor_outputs p @ [EndpointState line]\<rparr> else p))"

end
