(* ===== verification/PhoneTextProps.thy ===== *)
theory PhoneTextProps
  imports PhoneText SipTextProps
begin

text \<open>
  What holds of the phone's texts: the snapshot line is read back field by field whatever the names in it contain,
  and the routing settings come back from the flash after any history of changes, saves and restarts.
\<close>

section \<open>The snapshot line\<close>

lemma length_dec: "n < 10 ^ Suc k \<Longrightarrow> length (dec n) \<le> Suc k"
proof (induction k arbitrary: n)
  case 0
  then show ?case by (subst dec.simps) simp
next
  case (Suc k)
  have "n div 10 < 10 ^ Suc k" using Suc.prems by (simp add: div_less_iff_less_mult mult.commute)
  from Suc.IH [OF this] show ?case by (subst dec.simps) simp
qed

lemma length_dec_u32: "length (dec (unat (x :: u32))) \<le> 10"
proof -
  have "unat x < 10 ^ Suc 9" using unat_word_lt [of x] by simp
  from length_dec [OF this] show ?thesis by simp
qed

lemma length_dec_u16: "length (dec (unat (x :: u16))) \<le> 5"
proof -
  have "unat x < 10 ^ Suc 4" using unat_word_lt [of x] by simp
  from length_dec [OF this] show ?thesis by simp
qed

text \<open>A text that can stand in a field: no separator, no bar and no line end.\<close>

definition field_text :: "string \<Rightarrow> bool" where
  "field_text s \<longleftrightarrow> (\<forall>c\<in>set s. c \<noteq> CHR '';'' \<and> c \<noteq> CHR ''|'' \<and> c \<noteq> CR \<and> c \<noteq> LF)"

lemma field_text_append [simp]: "field_text (a @ b) \<longleftrightarrow> field_text a \<and> field_text b"
  by (auto simp: field_text_def)

lemma field_text_Cons: "field_text (c # s) \<longleftrightarrow> c \<noteq> CHR '';'' \<and> c \<noteq> CHR ''|'' \<and> c \<noteq> CR \<and> c \<noteq> LF \<and> field_text s"
  by (auto simp: field_text_def)

lemma field_text_dec: "field_text (dec n)"
  using dec_digits [of n] is_digit_simps by (auto simp: field_text_def)

lemma c_str_sub: "length (c_str s) \<le> length s \<and> set (c_str s) \<subseteq> set s"
  by (auto simp: c_str_def length_takeWhile_le dest: set_takeWhileD)

lemma field_text_sub: "set a \<subseteq> set b \<Longrightarrow> field_text b \<Longrightarrow> field_text a"
  by (auto simp: field_text_def)

lemma escaped_field: "length (c_str (field_escape n s)) \<le> n \<and> field_text (c_str (field_escape n s))"
proof -
  let ?f = "\<lambda>c. if code c = 13 \<or> code c = 10 \<or> c = CHR '';'' \<or> c = CHR ''|'' then CHR '' '' else c"
  have m: "field_text (map ?f s)" by (simp add: field_text_def) auto
  have "set (c_str (field_escape n s)) \<subseteq> set (map ?f s)"
    unfolding field_escape_def by (meson c_str_sub order.trans set_take_subset)
  from field_text_sub [OF this m] show ?thesis
    using c_str_sub [of "field_escape n s"] by (simp add: field_escape_def)
qed

lemma compact_field: "length (compact_audio_format f) \<le> 17 \<and> field_text (compact_audio_format f)"
proof -
  let ?t = "dec (unat (sample_rate f div 1000)) @ ''k/'' @ dec (unat (frame_ms f))"
  have t: "field_text ?t" using field_text_dec by (simp add: field_text_Cons)
  show ?thesis using field_text_sub [OF set_take_subset [of 17 ?t] t] by (simp add: compact_audio_format_def)
qed

text \<open>Reading the line: the fields between the semicolons, each with its name before the first equals sign.\<close>

definition read_field :: "string \<Rightarrow> string \<times> string" where
  "read_field t =
     (let u = dropWhile (\<lambda>c. c = CHR '' '') t in (takeWhile (\<lambda>c. c \<noteq> CHR ''='') u, drop 1 (dropWhile (\<lambda>c. c \<noteq> CHR ''='') u)))"

definition read_snapshot :: "string \<Rightarrow> (string \<times> string) list" where
  "read_snapshot line = map read_field (split_on (CHR '';'') line)"

definition field_line :: "string \<times> string \<Rightarrow> string" where
  "field_line kv = fst kv @ ''='' @ snd kv"

lemma field_lines: "(\<lambda>(k, v). k @ ''='' @ v) = field_line"
  by (auto simp: field_line_def)

definition key_text :: "string \<Rightarrow> bool" where
  "key_text k \<longleftrightarrow> k \<noteq> [] \<and> (\<forall>c\<in>set k. c \<noteq> CHR ''='' \<and> c \<noteq> CHR '' '' \<and> c \<noteq> CHR '';'' \<and> c \<noteq> CHR ''|'' \<and> c \<noteq> CR \<and> c \<noteq> LF)"

lemma read_field_line:
  assumes "key_text (fst kv)" shows "read_field (field_line kv) = kv \<and> read_field (CHR '' '' # field_line kv) = kv"
proof -
  obtain k v where kv: "kv = (k, v)" by (cases kv)
  then obtain c cs where k: "k = c # cs" "c \<noteq> CHR '' ''" using assms by (cases k) (auto simp: key_text_def)
  have e: "\<forall>x\<in>set k. x \<noteq> CHR ''=''" using assms by (simp add: key_text_def kv)
  have d: "dropWhile (\<lambda>c. c = CHR '' '') (k @ ''='' @ v) = k @ ''='' @ v" using k by simp
  show ?thesis using e d by (simp add: read_field_def field_line_def kv takeWhile_append2 dropWhile_append2)
qed

lemma read_joined:
  assumes "\<forall>kv\<in>set fs. key_text (fst kv) \<and> field_text (snd kv)"
  shows "fs \<noteq> [] \<Longrightarrow> read_snapshot (joined ''; '' (map field_line fs)) = fs \<and>
    read_snapshot (CHR '' '' # joined ''; '' (map field_line fs)) = fs"
  using assms
proof (induction fs)
  case (Cons kv fs)
  have n: "CHR '';'' \<notin> set (field_line kv)" using Cons.prems by (auto simp: field_line_def key_text_def field_text_def)
  have r: "read_field (field_line kv) = kv" "read_field (CHR '' '' # field_line kv) = kv"
    using read_field_line [of kv] Cons.prems by auto
  show ?case
  proof (cases fs)
    case Nil
    then show ?thesis using n r by (simp add: read_snapshot_def split_on_none)
  next
    case (Cons kv' fs')
    let ?rest = "CHR '' '' # joined ''; '' (map field_line fs)"
    have j: "joined ''; '' (map field_line (kv # fs)) = field_line kv @ CHR '';'' # ?rest" using Cons by simp
    have "read_snapshot ?rest = fs" using Cons.IH Cons.prems Cons by simp
    then show ?thesis using split_on_hit [OF n, of ?rest] split_on_hit [of "CHR '';''" "CHR '' '' # field_line kv" ?rest] n r
      unfolding j by (simp add: read_snapshot_def)
  qed
qed simp

lemma joined_sub: "set (joined sep ts) \<subseteq> set sep \<union> \<Union> (set ` set ts)"
  by (induction sep ts rule: joined.induct) auto

lemma joined_length: "length (joined ''; '' ts) \<le> sum_list (map (\<lambda>t. length t + 2) ts)"
  by (induction "''; ''" ts rule: joined.induct) auto

lemma snapshot_fields_are:
  "\<exists>vs. snapshot_fields tcp rep q s = zip [''st'', ''id'', ''dir'', ''from'', ''to'', ''ct'', ''tr'', ''sc'', ''tx'', ''rx'', ''pt'', ''pr'',
       ''tqd'', ''tqdrop'', ''rqd'', ''rqdrop'', ''rs'', ''ev''] vs \<and> length vs = 18 \<and> list_all field_text vs \<and>
     sum_list (map length vs) \<le> 221"
proof -
  obtain cid direction caller dest where sc: "snapshot_call s = (cid, direction, caller, dest)" by (cases "snapshot_call s") auto
  obtain tx rx where sf: "snapshot_formats s rep = (tx, rx)" by (cases "snapshot_formats s rep")
  let ?text = "\<lambda>n v. c_str (field_escape n v)" and ?number = "\<lambda>x :: u32. dec (unat x)"
  let ?vs = "[?text 18 (call_state_to_str (phase s)), ?text 12 cid, ?text 3 direction, ?text 14 caller, ?text 14 dest,
     ?text 14 (current_name (contacts s)), if tcp then ''tcp'' else ''udp'',
     dec (unat (case rep of Some t \<Rightarrow> rep_status t | None \<Rightarrow> 0)), compact_audio_format tx, compact_audio_format rx,
     ?number (case rep of Some t \<Rightarrow> rep_tx_packets t | None \<Rightarrow> 0), ?number (case rep of Some t \<Rightarrow> rep_rx_packets t | None \<Rightarrow> 0),
     ?number (rep_tx_depth q), ?number (rep_tx_drops q), ?number (rep_rx_depth q), ?number (rep_rx_drops q),
     ?text 22 (last_reason s), ?text 22 (case rep of Some t \<Rightarrow> rep_event t | None \<Rightarrow> [])]"
  note t = escaped_field and c = compact_field and d = length_dec_u32 and d' = length_dec_u16
  have tr: "field_text (if tcp then ''tcp'' else ''udp'')" "length (if tcp then ''tcp'' else ''udp'') \<le> 3"
    by (simp_all add: field_text_def)
  have "snapshot_fields tcp rep q s = zip [''st'', ''id'', ''dir'', ''from'', ''to'', ''ct'', ''tr'', ''sc'', ''tx'', ''rx'', ''pt'', ''pr'',
       ''tqd'', ''tqdrop'', ''rqd'', ''rqdrop'', ''rs'', ''ev''] ?vs"
    by (simp only: snapshot_fields_def sc sf prod.case Let_def zip_Cons_Cons zip_Nil)
  moreover have "list_all field_text ?vs" by (simp only: list.pred_inject t c field_text_dec tr simp_thms)
  moreover have "sum_list (map length ?vs) \<le> 221"
  proof -
    have "sum_list (map length ?vs) \<le> sum_list [18, 12, 3, 14, 14, 14, 3, 5, 17, 17, 10, 10, 10, 10, 10, 10, 22, 22]"
      by (simp only: list.map sum_list.Cons sum_list.Nil)
         (intro add_mono t [THEN conjunct1] c [THEN conjunct1] d d' tr(2) le_refl)
    then show ?thesis by simp
  qed
  ultimately show ?thesis by (intro exI [of _ ?vs]) (simp only: list.size, simp)
qed

lemma key_texts: "list_all key_text [''st'', ''id'', ''dir'', ''from'', ''to'', ''ct'', ''tr'', ''sc'', ''tx'', ''rx'', ''pt'', ''pr'',
    ''tqd'', ''tqdrop'', ''rqd'', ''rqdrop'', ''rs'', ''ev'']"
  by (simp add: key_text_def)

lemma line_chars:
  assumes "key_text k" "field_text v" "x = CR \<or> x = LF \<or> x = CHR ''|''" shows "x \<notin> set (field_line (k, v))"
proof -
  have "x \<notin> set k" "x \<notin> set v" using assms by (auto simp: key_text_def field_text_def)
  moreover have "x \<noteq> CHR ''=''" using assms(3) by auto
  ultimately show ?thesis by (simp add: field_line_def)
qed

lemma joined_text:
  assumes "\<forall>kv\<in>set fs. key_text (fst kv) \<and> field_text (snd kv)" "x = CR \<or> x = LF \<or> x = CHR ''|''"
  shows "x \<notin> set (joined ''; '' (map field_line fs))"
proof
  assume "x \<in> set (joined ''; '' (map field_line fs))"
  moreover have "x \<notin> set ''; ''" using assms(2) by auto
  ultimately obtain kv where "kv \<in> set fs" "x \<in> set (field_line kv)" using joined_sub [of "''; ''" "map field_line fs"] by auto
  then show False using line_chars [of "fst kv" "snd kv" x] assms by simp
qed

lemma line_lengths:
  "sum_list (map (\<lambda>t. length t + 2) (map field_line fs)) =
     sum_list (map length (map fst fs)) + sum_list (map length (map snd fs)) + 3 * length fs"
  by (induction fs) (simp_all add: field_line_def)

text \<open>
  C26: The snapshot line of a call is read back field by field, whatever the names, the reason or the call id contain:
  split at the semicolons it gives the eighteen fields in their order with the values that were put in. It is never cut
  by its buffer of 512 bytes, and holds no line end and no bar.
\<close>

theorem snapshot_reads_back:
  "read_snapshot (build_sip_snapshot_string tcp rep q s) = snapshot_fields tcp rep q s \<and>
   map fst (snapshot_fields tcp rep q s) = [''st'', ''id'', ''dir'', ''from'', ''to'', ''ct'', ''tr'', ''sc'', ''tx'', ''rx'', ''pt'', ''pr'',
     ''tqd'', ''tqdrop'', ''rqd'', ''rqdrop'', ''rs'', ''ev''] \<and>
   length (build_sip_snapshot_string tcp rep q s) \<le> 324 \<and>
   CR \<notin> set (build_sip_snapshot_string tcp rep q s) \<and> LF \<notin> set (build_sip_snapshot_string tcp rep q s) \<and>
   CHR ''|'' \<notin> set (build_sip_snapshot_string tcp rep q s)"
proof -
  let ?ks = "[''st'', ''id'', ''dir'', ''from'', ''to'', ''ct'', ''tr'', ''sc'', ''tx'', ''rx'', ''pt'', ''pr'',
     ''tqd'', ''tqdrop'', ''rqd'', ''rqdrop'', ''rs'', ''ev'']"
  let ?fs = "snapshot_fields tcp rep q s" and ?line = "joined ''; '' (map field_line (snapshot_fields tcp rep q s))"
  obtain vs where vs: "?fs = zip ?ks vs" "length vs = 18" "list_all field_text vs" "sum_list (map length vs) \<le> 221"
    using snapshot_fields_are by blast
  have k: "map fst ?fs = ?ks" using vs(1, 2) by simp
  have ok: "\<forall>kv\<in>set ?fs. key_text (fst kv) \<and> field_text (snd kv)"
    using key_texts vs(3) unfolding vs(1) list_all_iff by (auto dest: set_zip_leftD set_zip_rightD)
  have v: "map snd ?fs = vs" using vs(1, 2) by simp
  have "sum_list (map (\<lambda>t. length t + 2) (map field_line ?fs)) \<le> 324"
    using vs(2, 4) unfolding line_lengths k v by (simp add: vs(1))
  then have l: "length ?line \<le> 324" using joined_length [of "map field_line ?fs"] by linarith
  have b: "build_sip_snapshot_string tcp rep q s = ?line"
    using l unfolding build_sip_snapshot_string_def field_lines by simp
  have "?fs \<noteq> []" using k by auto
  then show ?thesis using read_joined [OF ok] joined_text [OF ok, of CR] joined_text [OF ok, of LF] joined_text [OF ok, of "CHR ''|''"] k l
    unfolding b by simp
qed

section \<open>The routing settings\<close>

lemma scan_groups_text: "list_all (\<lambda>c. group_char c \<and> c \<noteq> CHR '','') g \<Longrightarrow> scan_groups out cur (g @ cs) = scan_groups out (cur @ g) cs"
  by (induction g arbitrary: cur) auto

text \<open>A group as the list keeps it, and a list of groups.\<close>

definition group_ok :: "string \<Rightarrow> bool" where
  "group_ok g \<longleftrightarrow> trimmed g \<and> length g \<le> MAX_GROUP_BYTES \<and> list_all (\<lambda>c. group_char c \<and> c \<noteq> CHR '','') g"

definition group_list :: "string list \<Rightarrow> bool" where
  "group_list gs \<longleftrightarrow> list_all group_ok gs \<and> length (joined '','' gs) \<le> MAX_GROUP_LIST_BYTES"

lemma joined_snoc: "joined sep (ts @ [t]) = (if ts = [] then t else joined sep ts @ sep @ t)"
  by (induction sep ts rule: joined.induct) auto

lemma joined_nil_iff: "[] \<notin> set ts \<Longrightarrow> joined sep ts = [] \<longleftrightarrow> ts = []"
  by (induction sep ts rule: joined.induct) auto

lemma group_nonempty: "list_all group_ok gs \<Longrightarrow> [] \<notin> set gs"
  by (auto simp: group_ok_def trimmed_def list_all_iff)

lemma pb_trim_is: "pb_trim s = [] \<or> trimmed (pb_trim s)"
proof (cases "dropWhile is_blank s")
  case (Cons a as)
  then have a: "\<not> is_blank a" by (metis dropWhile_eq_Cons_conv)
  then obtain y ys where y: "dropWhile is_blank (rev (a # as)) = y # ys" by (cases "dropWhile is_blank (rev (a # as))") auto
  have "last (y # ys) = last (rev (a # as))" using y by (metis last_appendR list.distinct(1) takeWhile_dropWhile_id)
  then have "last (y # ys) = a" by simp
  moreover have "\<not> is_blank y" using y by (metis dropWhile_eq_Cons_conv)
  moreover have "pb_trim s = rev (y # ys)" using y unfolding pb_trim_def Cons by simp
  ultimately show ?thesis using a by (cases ys rule: rev_cases) (auto simp: trimmed_def)
next
  case Nil
  have "pb_trim s = []" unfolding pb_trim_def Nil by simp
  then show ?thesis by (rule disjI1)
qed

lemma pb_trim_sub: "set (pb_trim s) \<subseteq> set s"
  by (auto simp: pb_trim_def dest!: set_dropWhileD)

lemma flush_list:
  assumes "group_list gs" "list_all (\<lambda>c. group_char c \<and> c \<noteq> CHR '','') cur"
  shows "\<exists>gs'. group_list gs' \<and> flush_group (joined '','' gs) cur = joined '','' gs'"
proof (cases "flush_group (joined '','' gs) cur = joined '','' gs")
  case True
  then show ?thesis using assms(1) by blast
next
  case False
  let ?g = "pb_trim cur"
  have g: "?g \<noteq> []" "length ?g \<le> MAX_GROUP_BYTES" using False by (auto simp: flush_group_def Let_def split: if_splits)
  have "list_all (\<lambda>c. group_char c \<and> c \<noteq> CHR '','') ?g" using assms(2) pb_trim_sub [of cur] by (auto simp: list_all_iff)
  then have ok: "group_ok ?g" using g pb_trim_is [of cur] by (simp add: group_ok_def)
  have e: "joined '','' gs = [] \<longleftrightarrow> gs = []" using joined_nil_iff [OF group_nonempty] assms(1) by (simp add: group_list_def)
  have "flush_group (joined '','' gs) cur = joined '','' (gs @ [?g]) \<and> length (joined '','' (gs @ [?g])) \<le> MAX_GROUP_LIST_BYTES"
    using False g by (auto simp: flush_group_def Let_def joined_snoc e split: if_splits)
  then show ?thesis using ok assms(1) by (intro exI [of _ "gs @ [?g]"]) (simp add: group_list_def)
qed

lemma scanned_list:
  "group_list gs \<Longrightarrow> list_all (\<lambda>c. group_char c \<and> c \<noteq> CHR '','') cur \<Longrightarrow> \<exists>gs'. group_list gs' \<and> scan_groups (joined '','' gs) cur cs = joined '','' gs'"
proof (induction cs arbitrary: gs cur)
  case Nil
  then show ?case using flush_list by simp
next
  case (Cons c cs)
  obtain gs' where "group_list gs'" "flush_group (joined '','' gs) cur = joined '','' gs'" using flush_list [OF Cons.prems] by blast
  then show ?case using Cons.IH [of gs' "[]"] Cons.IH [of gs "cur @ [c]"] Cons.IH [of gs cur] Cons.prems by auto
qed

lemma normalized_list: "\<exists>gs. group_list gs \<and> normalize_group_list v = joined '','' gs"
  using scanned_list [of "[]" "[]" v] by (simp add: normalize_group_list_def group_list_def MAX_GROUP_LIST_BYTES_def)

lemma flush_ok:
  assumes "group_ok g" "list_all group_ok gs" "length (joined '','' (gs @ [g])) \<le> MAX_GROUP_LIST_BYTES"
  shows "flush_group (joined '','' gs) g = joined '','' (gs @ [g])"
proof -
  have e: "joined '','' gs = [] \<longleftrightarrow> gs = []" using joined_nil_iff [OF group_nonempty [OF assms(2)]] .
  have "pb_trim g = g" "g \<noteq> []" using assms(1) by (auto simp: group_ok_def trimmed_def)
  then show ?thesis using assms(1, 3) by (auto simp: flush_group_def Let_def joined_snoc e group_ok_def split: if_splits)
qed

lemma joined_prefix: "length (joined '','' (as @ bs)) \<ge> length (joined '','' as)"
  by (induction "'',''" as rule: joined.induct) (auto, cases bs, auto)

lemma rescan:
  assumes "list_all group_ok gs" "list_all group_ok ds" "gs \<noteq> []" "length (joined '','' (ds @ gs)) \<le> MAX_GROUP_LIST_BYTES"
  shows "scan_groups (joined '','' ds) [] (joined '','' gs) = joined '','' (ds @ gs)"
  using assms
proof (induction gs arbitrary: ds)
  case (Cons g gs)
  have g: "list_all (\<lambda>c. group_char c \<and> c \<noteq> CHR '','') g" "group_ok g" using Cons.prems(1) by (simp_all add: group_ok_def)
  have f: "flush_group (joined '','' ds) g = joined '','' (ds @ [g])"
    using Cons.prems joined_prefix [of "ds @ [g]" gs] by (intro flush_ok) auto
  show ?case
  proof (cases gs)
    case Nil
    then show ?thesis using scan_groups_text [OF g(1), of _ "[]" "[]"] f by simp
  next
    case (Cons g' gs')
    have "scan_groups (joined '','' ds) [] (joined '','' (g # gs)) = scan_groups (joined '','' ds) [] (g @ '','' @ joined '','' gs)"
      by (simp add: Cons)
    also have "\<dots> = scan_groups (joined '','' (ds @ [g])) [] (joined '','' gs)" using scan_groups_text [OF g(1)] f by simp
    also have "\<dots> = joined '','' (ds @ g # gs)" using Cons.IH [of "ds @ [g]"] Cons.prems Cons by simp
    finally show ?thesis .
  qed
qed simp

lemma normalized_again: "group_list gs \<Longrightarrow> normalize_group_list (joined '','' gs) = joined '','' gs"
  using rescan [of gs "[]"] by (cases gs) (auto simp: normalize_group_list_def group_list_def flush_group_def pb_trim_def)

text \<open>Labels: what is kept is kept again, but for the blanks around it.\<close>

definition label_char :: "char \<Rightarrow> bool" where
  "label_char c \<longleftrightarrow> group_char c \<and> c \<noteq> CHR '',''"

lemma scan_label_is: "length out \<le> 32 \<Longrightarrow> scan_label out s = take 32 (out @ filter label_char s)"
  by (induction s arbitrary: out) (auto simp: label_char_def take_Cons')

lemma normalized_label: "length (normalize_endpoint_label v) \<le> 32 \<and> list_all label_char (normalize_endpoint_label v)"
proof -
  have "normalize_endpoint_label v = take 32 (filter label_char (pb_trim v))" by (simp add: normalize_endpoint_label_def scan_label_is)
  then show ?thesis using set_take_subset [of 32 "filter label_char (pb_trim v)"] by (auto simp: list_all_iff)
qed

lemma length_pb_trim: "length (pb_trim s) \<le> length s"
  using length_dropWhile_le [of is_blank s] length_dropWhile_le [of is_blank "rev (dropWhile is_blank s)"]
  unfolding pb_trim_def length_rev by (rule order.trans [rotated])

lemma label_again: "length t \<le> 32 \<Longrightarrow> list_all label_char t \<Longrightarrow> normalize_endpoint_label t = pb_trim t"
proof -
  assume t: "length t \<le> 32" "list_all label_char t"
  then have "filter label_char (pb_trim t) = pb_trim t" using pb_trim_sub [of t] by (auto simp: filter_id_conv list_all_iff)
  then show ?thesis using length_pb_trim [of t] t(1) by (simp add: normalize_endpoint_label_def scan_label_is)
qed

lemma pb_trim_again [simp]: "pb_trim (pb_trim s) = pb_trim s"
  using pb_trim_is [of s]
proof
  assume "pb_trim s = []"
  then show ?thesis by (simp add: pb_trim_def [of "[]"])
qed simp

text \<open>Copying to the flash and back keeps texts without a NUL that fit.\<close>

lemma bounded_copy: "length s < n \<Longrightarrow> list_all group_char s \<Longrightarrow> copy_bounded n s = s"
proof -
  assume s: "length s < n" "list_all group_char s"
  have "c \<noteq> CHR 0x00" if mem: "c \<in> set s" for c
  proof -
    have "group_char c" using s(2) mem by (simp add: list_all_iff)
    moreover have "\<not> group_char (CHR 0x00)" by (simp add: group_char_def)
    ultimately show ?thesis by metis
  qed
  then have "c_str s = s" by (simp add: c_str_def takeWhile_eq_all_conv)
  then show ?thesis using s(1) by (simp add: copy_bounded_def)
qed

lemma joined_chars: "list_all group_ok gs \<Longrightarrow> list_all group_char (joined '','' gs)"
proof -
  assume gs: "list_all group_ok gs"
  have "group_char c" if mem: "c \<in> set (joined '','' gs)" for c
  proof (cases "c = CHR '',''")
    case False
    then obtain g where "g \<in> set gs" "c \<in> set g" using joined_sub [of "'',''" gs] mem by auto
    then show ?thesis using gs by (auto simp: list_all_iff group_ok_def)
  qed (simp add: group_char_def)
  then show ?thesis by (simp add: list_all_iff)
qed

lemma stored_list: "group_list gs \<Longrightarrow> copy_bounded (MAX_GROUP_LIST_BYTES + 1) (joined '','' gs) = joined '','' gs"
  using bounded_copy joined_chars by (simp add: group_list_def)

section \<open>Saves and restarts\<close>

text \<open>
  What can happen to the settings. ESPHome's preferences are the environment: a save only hands a record over to them, and
  its result is not looked at; the next start gets whatever they return, \<open>PowerCycle returned\<close>, for example nothing when
  the record was never written to the flash. The first component of the state is the record that the preferences
  were last given or, after a start, have returned.
\<close>

datatype routing_event =
    SetExtension string
  | SetRingGroups string
  | SetConferenceGroups string
  | SetConferenceRing bool
  | RestoreConferenceRing "bool option"
  | SaveTimer
  | PowerCycle "stored_routing option"

fun routing_step :: "routing_config \<Rightarrow> stored_routing option \<times> routing \<Rightarrow> routing_event \<Rightarrow> stored_routing option \<times> routing" where
  "routing_step y (held, r) (SetExtension v) = (held, set_extension v r)"
| "routing_step y (held, r) (SetRingGroups v) = (held, set_ring_groups v r)"
| "routing_step y (held, r) (SetConferenceGroups v) = (held, set_conference_groups v r)"
| "routing_step y (held, r) (SetConferenceRing b) = (held, set_conference_ring b r)"
| "routing_step y (held, r) (RestoreConferenceRing initial) = (held, restore_conference_ring initial r)"
| "routing_step y (held, r) SaveTimer =
     (if routing_save_scheduled r then (case routing_save_due r of (st, r1) \<Rightarrow> (Some st, r1)) else (held, r))"
| "routing_step y (held, r) (PowerCycle returned) = (returned, booted y returned)"

text \<open>The settings in memory are normal, and the held record stands for them unless a save is pending.\<close>

definition normal :: "routing \<Rightarrow> bool" where
  "normal r \<longleftrightarrow> (\<exists>gs. group_list gs \<and> ring_groups r = joined '','' gs) \<and> (\<exists>gs. group_list gs \<and> conference_groups r = joined '','' gs) \<and>
     length (extension r) \<le> 32 \<and> list_all label_char (extension r) \<and> (conference_ring r \<longrightarrow> conference_groups r \<noteq> [])"

definition same_settings :: "routing \<Rightarrow> routing \<Rightarrow> bool" where
  "same_settings a b \<longleftrightarrow> ring_groups a = ring_groups b \<and> conference_groups a = conference_groups b \<and> pb_trim (extension a) = pb_trim (extension b)"

fun settings_ok :: "routing_config \<Rightarrow> stored_routing option \<times> routing \<Rightarrow> bool" where
  "settings_ok y (held, r) \<longleftrightarrow> normal r \<and> routing_settings_loaded r \<and> (routing_save_scheduled r \<or> same_settings (booted y held) r)"

lemma scheduled_frame [simp]:
  "extension (schedule_save_routing_settings r) = extension r" "ring_groups (schedule_save_routing_settings r) = ring_groups r"
  "conference_groups (schedule_save_routing_settings r) = conference_groups r"
  "conference_ring (schedule_save_routing_settings r) = conference_ring r"
  "routing_settings_loaded (schedule_save_routing_settings r) = routing_settings_loaded r"
  "routing_save_scheduled (schedule_save_routing_settings r) \<longleftrightarrow> routing_settings_loaded r \<or> routing_save_scheduled r"
  by (auto simp: schedule_save_routing_settings_def)

lemma shown_frame [simp]:
  "extension (shown w r) = extension r" "ring_groups (shown w r) = ring_groups r" "conference_groups (shown w r) = conference_groups r"
  "conference_ring (shown w r) = conference_ring r" "routing_settings_loaded (shown w r) = routing_settings_loaded r"
  "routing_save_scheduled (shown w r) = routing_save_scheduled r"
  by (simp_all add: shown_def)

text \<open>What each setter leaves, and that a change is scheduled to be saved.\<close>

lemma set_extension_is:
  "extension (set_extension v r) = normalize_endpoint_label v" "ring_groups (set_extension v r) = ring_groups r"
  "conference_groups (set_extension v r) = conference_groups r" "conference_ring (set_extension v r) = conference_ring r"
  "routing_settings_loaded (set_extension v r) = routing_settings_loaded r"
  "extension (set_extension v r) \<noteq> extension r \<Longrightarrow> routing_settings_loaded r \<Longrightarrow> routing_save_scheduled (set_extension v r)"
  "routing_save_scheduled r \<Longrightarrow> routing_save_scheduled (set_extension v r)"
  by (auto simp: set_extension_def Let_def)

lemma set_ring_groups_is:
  "ring_groups (set_ring_groups v r) = normalize_group_list v" "extension (set_ring_groups v r) = extension r"
  "conference_groups (set_ring_groups v r) = conference_groups r" "conference_ring (set_ring_groups v r) = conference_ring r"
  "routing_settings_loaded (set_ring_groups v r) = routing_settings_loaded r"
  "ring_groups (set_ring_groups v r) \<noteq> ring_groups r \<Longrightarrow> routing_settings_loaded r \<Longrightarrow> routing_save_scheduled (set_ring_groups v r)"
  "routing_save_scheduled r \<Longrightarrow> routing_save_scheduled (set_ring_groups v r)"
  by (auto simp: set_ring_groups_def Let_def)

lemma set_conference_ring_is:
  "conference_ring (set_conference_ring b r) \<longleftrightarrow> b \<and> conference_groups r \<noteq> []" "extension (set_conference_ring b r) = extension r"
  "ring_groups (set_conference_ring b r) = ring_groups r" "conference_groups (set_conference_ring b r) = conference_groups r"
  "routing_settings_loaded (set_conference_ring b r) = routing_settings_loaded r"
  "routing_save_scheduled (set_conference_ring b r) = routing_save_scheduled r"
  by (auto simp: set_conference_ring_def Let_def)

lemma set_conference_groups_is:
  "conference_groups (set_conference_groups v r) = normalize_group_list v" "extension (set_conference_groups v r) = extension r"
  "ring_groups (set_conference_groups v r) = ring_groups r"
  "conference_ring (set_conference_groups v r) \<Longrightarrow> conference_ring r \<and> (normalize_group_list v = [] \<longrightarrow> conference_groups r = [])"
  "routing_settings_loaded (set_conference_groups v r) = routing_settings_loaded r"
  "conference_groups (set_conference_groups v r) \<noteq> conference_groups r \<Longrightarrow> routing_settings_loaded r \<Longrightarrow>
     routing_save_scheduled (set_conference_groups v r)"
  "routing_save_scheduled r \<Longrightarrow> routing_save_scheduled (set_conference_groups v r)"
  by (auto simp: set_conference_groups_def Let_def set_conference_ring_is split: if_splits)

lemma restore_conference_ring_is:
  "conference_ring (restore_conference_ring i r) \<Longrightarrow> (conference_ring r \<longrightarrow> conference_groups r \<noteq> []) \<Longrightarrow> conference_groups r \<noteq> []"
  "extension (restore_conference_ring i r) = extension r" "ring_groups (restore_conference_ring i r) = ring_groups r"
  "conference_groups (restore_conference_ring i r) = conference_groups r"
  "routing_settings_loaded (restore_conference_ring i r) = routing_settings_loaded r"
  "routing_save_scheduled (restore_conference_ring i r) = routing_save_scheduled r"
  by (auto simp: restore_conference_ring_def Let_def split: option.splits)

lemmas setters_are = set_extension_is set_ring_groups_is set_conference_ring_is set_conference_groups_is restore_conference_ring_is

text \<open>Every setter keeps the settings normal, so a phone starts with normal ones.\<close>

lemma normal_setters:
  assumes "normal r"
  shows "normal (set_extension v r)" "normal (set_ring_groups v r)" "normal (set_conference_groups v r)"
    "normal (set_conference_ring b r)" "normal (restore_conference_ring i r)"
proof -
  show "normal (set_extension v r)" "normal (set_ring_groups v r)" "normal (set_conference_ring b r)"
    using assms normalized_label [of v] normalized_list [of v] by (simp_all add: normal_def setters_are)
  show "normal (set_conference_groups v r)"
    using assms normalized_list [of v] set_conference_groups_is(4) [of v r] by (auto simp: normal_def setters_are)
  show "normal (restore_conference_ring i r)"
    using assms restore_conference_ring_is(1) [of i r] unfolding normal_def setters_are by blast
qed

lemma normal_fresh: "normal fresh_routing"
proof -
  have "group_list []" by (simp add: group_list_def MAX_GROUP_LIST_BYTES_def)
  then show ?thesis by (auto simp: normal_def fresh_routing_def intro!: exI [of _ "[]"])
qed

lemma normal_loaded: "normal (r\<lparr>routing_settings_loaded := b\<rparr>) = normal r" "normal (r\<lparr>routing_save_scheduled := b\<rparr>) = normal r"
  by (simp_all add: normal_def)

lemma booted_normal: "normal (booted y returned) \<and> routing_settings_loaded (booted y returned)"
proof -
  have "normal (configured_routing y)" unfolding configured_routing_def by (intro normal_setters normal_fresh)
  then show ?thesis
    by (auto simp: booted_def load_routing_settings_def Let_def normal_loaded intro!: normal_setters split: option.split)
qed

text \<open>What a saved record gives at the next start, and what is there without a record of this version.\<close>

lemma booted_saved_all:
  assumes "normal r"
  shows "same_settings (booted y (Some (save_routing_settings r))) r \<and>
    extension (booted y (Some (save_routing_settings r))) = pb_trim (extension r)"
proof -
  obtain gs hs where g: "group_list gs" "ring_groups r = joined '','' gs" and h: "group_list hs" "conference_groups r = joined '','' hs"
    and l: "length (extension r) \<le> 32" "list_all label_char (extension r)" using assms by (auto simp: normal_def)
  have "list_all group_char (extension r)" using l(2) by (auto simp: list_all_iff label_char_def)
  then have e: "copy_bounded (MAX_EXTENSION_BYTES + 1) (extension r) = extension r"
    using bounded_copy [of "extension r" "MAX_EXTENSION_BYTES + 1"] l(1) by (simp add: MAX_EXTENSION_BYTES_def)
  show ?thesis
    using stored_list g h e label_again [OF l] normalized_again
    by (simp add: same_settings_def booted_def load_routing_settings_def save_routing_settings_def setters_are del: add_Suc_right)
qed

lemmas booted_saved = booted_saved_all [THEN conjunct1]
lemmas booted_extension = booted_saved_all [THEN conjunct2]

lemma booted_without:
  "ring_groups (booted y None) = normalize_group_list (cfg_ring_groups y)"
  "conference_groups (booted y None) = normalize_group_list (cfg_conference_groups y)"
  "extension (booted y None) = normalize_endpoint_label (cfg_extension y)"
  by (simp_all add: booted_def load_routing_settings_def configured_routing_def setters_are)

lemma same_settings_refl [simp]: "same_settings r r"
  by (simp add: same_settings_def)

text \<open>A setter keeps the invariant: it normalises what it stores and schedules a save of what it changed.\<close>

lemma setter_ok:
  assumes "settings_ok y (held, r)" "normal r'" "routing_settings_loaded r' = routing_settings_loaded r"
    and "routing_save_scheduled r \<Longrightarrow> routing_save_scheduled r'"
    and "\<not> routing_save_scheduled r' \<Longrightarrow> extension r' = extension r \<and> ring_groups r' = ring_groups r \<and> conference_groups r' = conference_groups r"
  shows "settings_ok y (held, r')"
  using assms by (auto simp: same_settings_def)

lemma routing_step_ok: "settings_ok y (held, r) \<Longrightarrow> settings_ok y (routing_step y (held, r) e)"
proof -
  assume ok: "settings_ok y (held, r)"
  then have n: "normal r" "routing_settings_loaded r" by simp_all
  show ?thesis
  proof (cases e)
    case (SetExtension v)
    have "settings_ok y (held, set_extension v r)"
      by (rule setter_ok [OF ok normal_setters(1) [OF n(1)]])
        (use n set_extension_is(6,7) [where v = v and r = r] in \<open>auto simp: setters_are\<close>)
    then show ?thesis by (simp add: SetExtension)
  next
    case (SetRingGroups v)
    have "settings_ok y (held, set_ring_groups v r)"
      by (rule setter_ok [OF ok normal_setters(2) [OF n(1)]])
        (use n set_ring_groups_is(6,7) [where v = v and r = r] in \<open>auto simp: setters_are\<close>)
    then show ?thesis by (simp add: SetRingGroups)
  next
    case (SetConferenceGroups v)
    have "settings_ok y (held, set_conference_groups v r)"
      by (rule setter_ok [OF ok normal_setters(3) [OF n(1)]])
        (use n set_conference_groups_is(6,7) [where v = v and r = r] in \<open>auto simp: setters_are\<close>)
    then show ?thesis by (simp add: SetConferenceGroups)
  next
    case (SetConferenceRing b)
    have "settings_ok y (held, set_conference_ring b r)"
      by (rule setter_ok [OF ok normal_setters(4) [OF n(1)]]) (simp_all add: setters_are)
    then show ?thesis by (simp add: SetConferenceRing)
  next
    case (RestoreConferenceRing i)
    have "settings_ok y (held, restore_conference_ring i r)"
      by (rule setter_ok [OF ok normal_setters(5) [OF n(1)]]) (simp_all add: setters_are)
    then show ?thesis by (simp add: RestoreConferenceRing)
  next
    case SaveTimer
    let ?r = "r\<lparr>routing_save_scheduled := False\<rparr>"
    have "normal ?r" using n(1) by (simp add: normal_loaded)
    then show ?thesis using ok booted_saved [of ?r y] n by (auto simp: SaveTimer routing_save_due_def Let_def)
  next
    case (PowerCycle returned)
    then show ?thesis using booted_normal by simp
  qed
qed

interpretation settings: invariant_machine "routing_step y" "settings_ok y" for y
proof unfold_locales
  fix x e
  assume "settings_ok y x"
  then show "settings_ok y (routing_step y x e)" using routing_step_ok by (cases x) blast
qed

text \<open>
  C19: What the phone keeps of its routing settings. It is started with any YAML settings and with anything that the
  preferences return, and then goes through any sequence of changes, save timers and power cycles, where every start again
  gets whatever the preferences return at that time. Unless a save is still pending, the record that the preferences were
  last given (or returned last) stands for the settings: a start that gets this record back has the
  ring groups and the conference groups exactly, and the extension up to blanks around it. A pending save hands over such a
  record of the settings of that moment. A start that gets no record has the normalised YAML settings. That the preferences
  do keep the last record they were given is not claimed: the flash is written later, and the code ignores
  the result of the save. The lists are normal and bounded, and the phone rings for a conference only with a group.
\<close>

theorem routing_survives_power_cycle:
  fixes returned held :: "stored_routing option" and r :: routing
  assumes "foldl (routing_step y) (returned, booted y returned) evs = (held, r)"
  shows "(\<not> routing_save_scheduled r \<longrightarrow>
      ring_groups (booted y held) = ring_groups r \<and> conference_groups (booted y held) = conference_groups r \<and>
      pb_trim (extension (booted y held)) = pb_trim (extension r)) \<and>
    (routing_save_scheduled r \<longrightarrow>
      fst (routing_step y (held, r) SaveTimer) = Some (save_routing_settings r) \<and>
      \<not> routing_save_scheduled (snd (routing_step y (held, r) SaveTimer))) \<and>
    ring_groups (booted y (Some (save_routing_settings r))) = ring_groups r \<and>
    conference_groups (booted y (Some (save_routing_settings r))) = conference_groups r \<and>
    extension (booted y (Some (save_routing_settings r))) = pb_trim (extension r) \<and>
    ring_groups (booted y None) = normalize_group_list (cfg_ring_groups y) \<and>
    conference_groups (booted y None) = normalize_group_list (cfg_conference_groups y) \<and>
    extension (booted y None) = normalize_endpoint_label (cfg_extension y) \<and>
    normalize_group_list (ring_groups r) = ring_groups r \<and> normalize_group_list (conference_groups r) = conference_groups r \<and>
    length (ring_groups r) \<le> 240 \<and> length (conference_groups r) \<le> 240 \<and> length (extension r) \<le> 32 \<and>
    (conference_ring r \<longrightarrow> conference_groups r \<noteq> [])"
proof -
  have "settings_ok y (returned, booted y returned)" using booted_normal by simp
  from settings.run_inv [OF this, of evs] have ok: "settings_ok y (held, r)" by (simp add: assms)
  then have n: "normal r" by simp
  then have again: "normalize_group_list (ring_groups r) = ring_groups r" "normalize_group_list (conference_groups r) = conference_groups r"
    and l: "length (ring_groups r) \<le> 240" "length (conference_groups r) \<le> 240"
    using normalized_again by (auto simp: normal_def group_list_def MAX_GROUP_LIST_BYTES_def)
  have d: "routing_save_due r = (save_routing_settings r, r\<lparr>routing_save_scheduled := False\<rparr>)"
    by (simp add: routing_save_due_def save_routing_settings_def)
  show ?thesis using ok booted_saved [OF n] booted_extension [OF n] again l n
    by (auto simp: same_settings_def normal_def d booted_without)
qed

text \<open>
  A phone with YAML settings whose first save is lost at a power failure, and whose second one is kept by the preferences.
\<close>

definition yaml_settings :: routing_config where
  "yaml_settings = \<lparr>cfg_extension = ''9'', cfg_conference_groups = [], cfg_conference_ring = False, cfg_ring_groups = ''hall''\<rparr>"

theorem routing_survives_power_cycle_witness:
  "(case foldl (routing_step yaml_settings) (None, booted yaml_settings None)
        [SetRingGroups ''attic'', SaveTimer, PowerCycle None, SetRingGroups '' front ,, back;'', SetExtension ''12 ;'', SaveTimer] of
      (held, r) \<Rightarrow> ring_groups r = ''front,back'' \<and> extension r = ''12 '' \<and>
        ring_groups (booted yaml_settings held) = ''front,back'' \<and> ring_groups (booted yaml_settings None) = ''hall'')"
proof -
  let ?evs = "[SetRingGroups ''attic'', SaveTimer, PowerCycle None, SetRingGroups '' front ,, back;'', SetExtension ''12 ;'', SaveTimer]"
  obtain held r where e: "foldl (routing_step yaml_settings) (None, booted yaml_settings None) ?evs = (held, r)" by fastforce
  have v: "(case foldl (routing_step yaml_settings) (None, booted yaml_settings None) ?evs of (held, r) \<Rightarrow>
      \<not> routing_save_scheduled r \<and> ring_groups r = ''front,back'' \<and> extension r = ''12 '')" by code_simp
  have h: "normalize_group_list (cfg_ring_groups yaml_settings) = ''hall''" by code_simp
  show ?thesis using routing_survives_power_cycle [OF e] v h unfolding e by simp
qed

text \<open>A label is not always kept as it was normalised: a separator at its end protects the blank before it, until a restart.\<close>

lemma label_not_idempotent:
  "normalize_endpoint_label ''12 ;'' = ''12 '' \<and> normalize_endpoint_label (normalize_endpoint_label ''12 ;'') = ''12''"
  by code_simp

end
