(* ===== verification/CallFallback.thy ===== *)
theory CallFallback
  imports CallFsmCalls
begin

text \<open>
  The second attempt of a call through Home Assistant (\<open>voip_fsm.cpp\<close>): what \<open>finish_call_termination_\<close> does with
  a call that was refused for its media, from the 488 to the INVITE of the new attempt.
\<close>

section \<open>Dialling Home Assistant\<close>

lemma harmless_all [simp]: "harmless (\<lambda>_. True)"
  by (simp add: harmless_def)

lemma grows_send_termination: "grows (\<lambda>_. True) s t \<Longrightarrow> grows (\<lambda>_. True) s (snd (send_termination c d a t))"
  by (cases a) (auto simp: send_termination_def send_sip_final_response_def intro: grows_command)

lemma grows_request: "grows (\<lambda>_. True) s (request_call_termination i s)"
proof (cases rule: request_cases [of s i])
  case terminal
  then show ?thesis by (auto simp: finish_terminal_def intro!: grows_helpers grows_set_call_state grows_refl)
next
  case ignored
  then show ?thesis by (simp add: grows_refl)
next
  case (ended t1 action pending t2)
  have "grows (\<lambda>_. True) s t1" using ended(3) by (auto intro: grows_helpers grows_refl)
  then have "grows (\<lambda>_. True) s t2"
    using ended(4) grows_send_termination by (auto dest!: send_termination_snd)
  then show ?thesis unfolding ended(5) Let_def by (auto intro!: grows_tell grows_helpers grows_end_call)
qed

lemma logged_before: "grows Q s w \<Longrightarrow> logged xs w u \<Longrightarrow> logged xs s u"
  by (auto simp: logged_def grows_def intro: subseq_drop_many)

text \<open>
  A call placed again at a contact: its address is set and dialled, and an INVITE for the same party goes out
  under the Call-ID made for this attempt; each step that fails ends the call.
\<close>

definition redial_steps :: "contact \<Rightarrow> 't fsm \<Rightarrow> 't fsm \<Rightarrow> bool \<Rightarrow> bool \<Rightarrow> string \<Rightarrow> bool \<Rightarrow> bool" where
  "redial_steps h s u a b cid c \<longleftrightarrow>
     logged [Command (SetRemote (ip h) (port h) (rtp_port h)) a, Command (Originate (ip h) (port h)) b] s u \<and>
     (if \<not> b then phase u = TRANSPORT_UNREACHABLE
      else cid \<noteq> [] \<and>
        logged [Command (SetRemote (ip h) (port h) (rtp_port h)) a, Command (Originate (ip h) (port h)) b,
          Command (SendInvite cid (own_route s) (device_name (config s)) (dest_route (identity s)) (dest_name (identity s))) c] s u \<and>
        (if c then phase u = CALLING \<and> call_id (identity u) = cid \<and> dest_route (identity u) = dest_route (identity s) \<and>
                   dest_name (identity u) = dest_name (identity s)
         else phase u = TERMINATING))"

definition redialled :: "contact \<Rightarrow> 't fsm \<Rightarrow> 't fsm \<Rightarrow> bool" where
  "redialled h s u \<longleftrightarrow>
     \<not> ha_media_fallback_pending u \<and> ha_media_fallback_attempted u = ha_media_fallback_attempted s \<and>
     (if ip h = [] \<or> port h = 0 then phase u = TRANSPORT_UNREACHABLE else \<exists>a b cid c. redial_steps h s u a b cid c)"

lemma attempted_frame [simp]:
  "ha_media_fallback_attempted (end_call r d s) = ha_media_fallback_attempted s"
  "ha_media_fallback_attempted (set_in_call False s) = ha_media_fallback_attempted s"
  by (simp_all add: end_call_def Let_def)

lemma request_ended:
  assumes "phase s \<noteq> IDLE" "\<not> call_state_is_terminating (phase s)" "r \<noteq> MEDIA_INCOMPATIBLE_END"
  shows "phase (request_call_termination (intent r None NONE False) s) = terminal_state_for r"
    "\<not> ha_media_fallback_pending (request_call_termination (intent r None NONE False) s)"
    "ha_media_fallback_attempted (request_call_termination (intent r None NONE False) s) = ha_media_fallback_attempted s"
proof -
  show "phase (request_call_termination (intent r None NONE False) s) = terminal_state_for r"
    by (rule phase_request [OF assms])
  have "\<not> ha_media_fallback_pending (end_call r [] s)" using assms by (simp add: end_call_def Let_def)
  then show "\<not> ha_media_fallback_pending (request_call_termination (intent r None NONE False) s)"
    "ha_media_fallback_attempted (request_call_termination (intent r None NONE False) s) = ha_media_fallback_attempted s"
    using request_none [OF assms(1,2), of r None] by simp_all
qed

lemma attempt_frame [simp]:
  "phase (attempt_identity a s) = phase s" "transport (attempt_identity a s) = transport s" "config (attempt_identity a s) = config s"
  "ha_media_fallback_attempted (attempt_identity a s) = ha_media_fallback_attempted s" "log (attempt_identity a s) = log s"
  "dest_route (identity (attempt_identity a s)) = att_dest_route a" "dest_name (identity (attempt_identity a s)) = att_dest_name a"
  "call_id (identity (attempt_identity a s)) = att_call_id a"
  by (simp_all add: attempt_identity_def clear_terminal_response_def set_call_identity_def)

lemma reset_media_more [simp]: "transport (reset_media_formats s) = transport s" "log (reset_media_formats s) = log s"
  "transport (clear_terminal_call_snapshot s) = transport s" "log (clear_terminal_call_snapshot s) = log s"
  by (simp_all add: reset_media_formats_def set_current_media_formats_def clear_terminal_call_snapshot_def)

lemma opened_attempt:
  assumes p: "phase w = CALLING" and tr: "transport w \<noteq> None" and u: "u = open_attempt d a via route_via w"
  shows "phase u = CALLING" "transport u \<noteq> None" "config u = config w" "\<not> ha_media_fallback_pending u"
    "ha_media_fallback_attempted u = ha_media_fallback_attempted w" "call_id (identity u) = att_call_id a"
    "dest_route (identity u) = att_dest_route a" "dest_name (identity u) = att_dest_name a"
    "\<exists>x. logged [Command (SetRemote (dial_ip d) (dial_port d) (dial_rtp_port d)) x] w u"
proof -
  define s2 where "s2 = tell (SetPeerDirectionalAudio (dial_directional d))
    (tell (SetSipSignalingTransport (dial_tcp d)) (clear_terminal_call_snapshot w))"
  define s3 where "s3 = snd (command (SetRemote (dial_ip d) (dial_port d) (dial_rtp_port d)) s2)"
  define s5 where "s5 = set_audio_devices_active True (reset_media_formats (defer_to_loop
    (OutgoingCallTrigger (att_call_id a) (device_name (config w)) (att_dest_name a)
       (''sip:'' @ att_dest_route a @ ''@'' @ dial_ip d @ '':'' @ dec (unat (dial_port d))) (\<not> via) route_via) (attempt_identity a s3)))"
  have s3: "phase s3 = CALLING" "transport s3 \<noteq> None" "config s3 = config w"
    "ha_media_fallback_attempted s3 = ha_media_fallback_attempted w" using p tr by (simp_all add: s3_def s2_def)
  have s5: "phase s5 = CALLING" "transport s5 \<noteq> None" "config s5 = config w" "identity s5 = identity (attempt_identity a s3)"
    "ha_media_fallback_attempted s5 = ha_media_fallback_attempted w" using s3 by (simp_all add: s5_def)
  have u5: "u = s5\<lparr>calling_start_time := clock s5, ha_media_fallback_pending := False\<rparr>"
    using s5(1) by (simp add: u open_attempt_def Let_def s5_def s3_def s2_def tell_def set_call_state_def)
  have "logged [] w s2" unfolding s2_def
    by (rule logged_grows [where Q = "\<lambda>_. True"], rule logged_refl) (auto intro!: grows_tell grows_helpers grows_refl)
  from logged_command [OF this] have "\<exists>x. logged [Command (SetRemote (dial_ip d) (dial_port d) (dial_rtp_port d)) x] w s3"
    using tr by (auto simp: s3_def s2_def)
  moreover have "grows (\<lambda>_. True) s3 s5" unfolding s5_def attempt_identity_def
    by (intro grows_helpers grows_defer grows_refl) simp_all
  ultimately have "\<exists>x. logged [Command (SetRemote (dial_ip d) (dial_port d) (dial_rtp_port d)) x] w s5"
    using logged_grows by blast
  then show "\<exists>x. logged [Command (SetRemote (dial_ip d) (dial_port d) (dial_rtp_port d)) x] w u"
    by (simp add: u5 logged_def)
  show "phase u = CALLING" "transport u \<noteq> None" "config u = config w" "\<not> ha_media_fallback_pending u"
    "ha_media_fallback_attempted u = ha_media_fallback_attempted w" "call_id (identity u) = att_call_id a"
    "dest_route (identity u) = att_dest_route a" "dest_name (identity u) = att_dest_name a"
    using s5 by (simp_all add: u5)
qed

lemma logged_request:
  "logged xs s t \<Longrightarrow> logged xs s (request_call_termination i (t\<lparr>pending_dialplan_target := []\<rparr>))"
  by (rule logged_grows [OF _ grows_request]) (simp add: logged_def)

lemma attempt_id_nonempty: "attempt_call_id r c s \<noteq> []"
  by (simp add: attempt_call_id_def)

lemma via_ha_redials:
  assumes p: "phase w = CALLING" and tr: "transport w \<noteq> None" and h: "pb_find (contacts w) (ha_peer_name w) = Some h"
  shows "redialled h w (start_call_attempt True [] w)"
proof -
  let ?d = "dial_target_of (Some h)"
  define a where "a = \<lparr>att_call_id = attempt_call_id [] (own_route w) w, att_caller_route = own_route w,
    att_dest_route = dest_route (identity w), att_dest_name = dest_name (identity w)\<rparr>"
  have e: "start_call_attempt True [] w =
     (if ip h = [] \<or> port h = 0 then unreachable_attempt a w else send_attempt ?d a (open_attempt ?d a True True w))"
    unfolding start_call_attempt_def Let_def a_def own_route_def by (simp add: h dial_target_of_def)
  show ?thesis
  proof (cases "ip h = [] \<or> port h = 0")
    case True
    have "unreachable_attempt a w = request_call_termination (intent TRANSPORT_UNREACHABLE_END None NONE False)
        (reset_media_formats (attempt_identity a (clear_terminal_call_snapshot (w\<lparr>ha_media_fallback_pending := False\<rparr>))))"
      using p by (simp add: unreachable_attempt_def set_call_state_def)
    then show ?thesis unfolding e using True p
      by (simp add: redialled_def request_ended)
  next
    case False
    define u where "u = open_attempt ?d a True True w"
    note o = opened_attempt [OF p tr u_def]
    obtain x where x: "logged [Command (SetRemote (ip h) (port h) (rtp_port h)) x] w u"
      using o(9) by (auto simp: dial_target_of_def)
    define v where "v = snd (command (Originate (ip h) (port h)) u)"
    define b where "b = fst (command (Originate (ip h) (port h)) u)"
    have v: "phase v = CALLING" "transport v \<noteq> None" "config v = config w" "\<not> ha_media_fallback_pending v"
      "ha_media_fallback_attempted v = ha_media_fallback_attempted w" "identity v = identity u" using o by (simp_all add: v_def)
    have lv: "logged [Command (SetRemote (ip h) (port h) (rtp_port h)) x, Command (Originate (ip h) (port h)) b] w v"
      using logged_command [OF x o(2)] by (simp add: v_def b_def)
    let ?m = "SendInvite (att_call_id a) (own_route w) (device_name (config w)) (dest_route (identity w)) (dest_name (identity w))"
    define y where "y = snd (command ?m v)"
    define c where "c = fst (command ?m v)"
    have y: "phase y = CALLING" "\<not> ha_media_fallback_pending y" "identity y = identity u"
      "ha_media_fallback_attempted y = ha_media_fallback_attempted w" using v by (simp_all add: y_def)
    have ly: "logged [Command (SetRemote (ip h) (port h) (rtp_port h)) x, Command (Originate (ip h) (port h)) b, Command ?m c] w y"
      using logged_command [OF lv v(2)] by (simp add: y_def c_def)
    have t: "start_call_attempt True [] w =
      (if \<not> b then request_call_termination (intent TRANSPORT_UNREACHABLE_END None NONE False) (v\<lparr>pending_dialplan_target := []\<rparr>)
       else if \<not> c then request_call_termination (intent PROTOCOL_ERROR None NONE False) (y\<lparr>pending_dialplan_target := []\<rparr>)
       else y\<lparr>pending_dialplan_target := []\<rparr>)"
      unfolding e if_not_P [OF False] u_def [symmetric] send_attempt_def Let_def case_prod_beta
      using v(3) by (simp add: dial_target_of_def a_def b_def c_def v_def y_def)
    have i: "att_call_id a \<noteq> []" by (simp add: a_def attempt_id_nonempty)
    have ends: "phase (request_call_termination (intent r None NONE False) (z\<lparr>pending_dialplan_target := []\<rparr>)) = terminal_state_for r \<and>
       \<not> ha_media_fallback_pending (request_call_termination (intent r None NONE False) (z\<lparr>pending_dialplan_target := []\<rparr>)) \<and>
       ha_media_fallback_attempted (request_call_termination (intent r None NONE False) (z\<lparr>pending_dialplan_target := []\<rparr>)) =
         ha_media_fallback_attempted z"
      if "phase z = CALLING" "r \<noteq> MEDIA_INCOMPATIBLE_END" for z :: "'a fsm" and r
      using request_ended [of "z\<lparr>pending_dialplan_target := []\<rparr>" r] that by simp
    let ?t = "start_call_attempt True [] w"
    have l2: "logged [Command (SetRemote (ip h) (port h) (rtp_port h)) x, Command (Originate (ip h) (port h)) b] w ?t"
    proof -
      have "logged [Command (SetRemote (ip h) (port h) (rtp_port h)) x, Command (Originate (ip h) (port h)) b] w y"
        unfolding y_def by (rule logged_grows [OF lv grows_command [OF grows_refl, of "\<lambda>_. True"]]) simp
      then have "logged [Command (SetRemote (ip h) (port h) (rtp_port h)) x, Command (Originate (ip h) (port h)) b] w
          (y\<lparr>pending_dialplan_target := []\<rparr>) \<and> logged [Command (SetRemote (ip h) (port h) (rtp_port h)) x, Command (Originate (ip h) (port h)) b] w
          (request_call_termination (intent PROTOCOL_ERROR None NONE False) (y\<lparr>pending_dialplan_target := []\<rparr>))"
        by (intro conjI logged_request) (simp_all add: logged_def)
      then show ?thesis unfolding t using logged_request [OF lv] by presburger
    qed
    have l3: "b \<Longrightarrow> logged [Command (SetRemote (ip h) (port h) (rtp_port h)) x, Command (Originate (ip h) (port h)) b, Command ?m c] w ?t"
    proof -
      have ly': "logged [Command (SetRemote (ip h) (port h) (rtp_port h)) x, Command (Originate (ip h) (port h)) b, Command ?m c] w
          (y\<lparr>pending_dialplan_target := []\<rparr>)" using ly by (simp add: logged_def)
      show "b \<Longrightarrow> logged [Command (SetRemote (ip h) (port h) (rtp_port h)) x, Command (Originate (ip h) (port h)) b, Command ?m c] w ?t"
        unfolding t using ly' logged_request [OF ly] by presburger
    qed
    have o3: "if \<not> b then phase ?t = TRANSPORT_UNREACHABLE else if c then phase ?t = CALLING \<and> identity ?t = identity u
        else phase ?t = TERMINATING" "\<not> ha_media_fallback_pending ?t" "ha_media_fallback_attempted ?t = ha_media_fallback_attempted w"
      unfolding t using ends [OF v(1), of TRANSPORT_UNREACHABLE_END] ends [OF y(1), of PROTOCOL_ERROR] v(5) y by auto
    have "identity ?t = identity u \<Longrightarrow> call_id (identity ?t) = att_call_id a \<and> dest_route (identity ?t) = dest_route (identity w) \<and>
        dest_name (identity ?t) = dest_name (identity w)" using o(6-8) by (simp add: a_def)
    then have "redial_steps h w ?t x b (att_call_id a) c"
      unfolding redial_steps_def using l2 l3 o3 i by (auto split: if_splits)
    then show ?thesis unfolding redialled_def if_not_P [OF False] using o3(2,3) by blast
  qed
qed

section \<open>Waiting for the turn\<close>

text \<open>The same call still waits: nothing of it has changed but what was shown.\<close>

definition still_waits :: "'t fsm \<Rightarrow> 't fsm \<Rightarrow> bool" where
  "still_waits s w \<longleftrightarrow>
     identity w = identity s \<and> config w = config s \<and> contacts w = contacts s \<and> ha_peer_name w = ha_peer_name s \<and>
     vtable w = vtable s \<and> transport w = transport s \<and> phase w = phase s \<and>
     ha_media_fallback_pending w = ha_media_fallback_pending s \<and>
     ha_media_fallback_attempted w = ha_media_fallback_attempted s \<and> grows (\<lambda>_. True) s w"

lemma still_waits_refl: "still_waits s s"
  by (simp add: still_waits_def grows_refl)

lemma still_waits_trans: "still_waits s w \<Longrightarrow> still_waits w x \<Longrightarrow> still_waits s x"
  unfolding still_waits_def by (metis grows_trans)

lemma redialled_later: "still_waits s w \<Longrightarrow> redialled h w u \<Longrightarrow> redialled h s u"
proof -
  assume w: "still_waits s w" and r: "redialled h w u"
  have l: "logged xs w u \<Longrightarrow> logged xs s u" for xs using w logged_before by (auto simp: still_waits_def)
  have e: "identity w = identity s" "config w = config s" "own_route w = own_route s"
    "ha_media_fallback_attempted w = ha_media_fallback_attempted s" using w by (simp_all add: still_waits_def own_route_def)
  show ?thesis
  proof (cases "ip h = [] \<or> port h = 0")
    case True
    then show ?thesis using r unfolding redialled_def e by simp
  next
    case False
    have "redial_steps h w u a b cid c \<Longrightarrow> redial_steps h s u a b cid c" for a b cid c
      unfolding redial_steps_def e by (auto dest: l)
    then show ?thesis using r unfolding redialled_def e if_not_P [OF False] by blast
  qed
qed

lemma deferred_while_waiting:
  assumes p: "phase w = CALLING" "ha_media_fallback_pending w" "\<not> finish_blocked w"
  shows "run_deferred d w = start_call_attempt True [] w \<or>
    (d \<noteq> FinishTermination \<and> still_waits w (run_deferred d w) \<and> queue (run_deferred d w) = queue w)"
proof -
  have f: "finish_call_termination w = start_call_attempt True [] w" using p by (simp add: finish_call_termination_def)
  have r: "snd (set_media_route c r w) = w" for c r using p(1) by (simp add: set_media_route_def)
  have w: "still_waits w (emit e w)" for e by (auto simp: still_waits_def grows_refl intro: grows_emit)
  show ?thesis
    using p w by (cases d) (auto simp: run_deferred_def f confirm_direct_route_def Let_def r publish_media_route_def
        publish_caller_def on_connection_change_def still_waits_refl)
qed

lemma queue_redials:
  assumes "phase w = CALLING" "ha_media_fallback_pending w" "\<not> finish_blocked w" "transport w \<noteq> None"
    and "pb_find (contacts w) (ha_peer_name w) = Some h" "FinishTermination \<in> set (queue w)"
  shows "\<exists>n\<le>length (queue w). redialled h w ((run_queue_head ^^ n) w)"
  using assms
proof (induction "length (queue w)" arbitrary: w)
  case 0
  then show ?case by simp
next
  case (Suc k)
  then obtain d ds where q: "queue w = d # ds" by (cases "queue w") auto
  let ?w = "w\<lparr>queue := ds\<rparr>" and ?u = "run_deferred d (w\<lparr>queue := ds\<rparr>)"
  have u: "run_queue_head w = ?u" by (simp add: run_queue_head_def q)
  have s: "still_waits w ?w" by (simp add: still_waits_def grows_refl)
  have b: "\<not> finish_blocked ?w" using Suc.prems(3) by (simp add: finish_blocked_def terminal_transaction_pending_def)
  from deferred_while_waiting [of ?w d] Suc.prems b
  consider "?u = start_call_attempt True [] ?w" | "d \<noteq> FinishTermination" "still_waits ?w ?u" "queue ?u = ds"
    by auto
  then show ?case
  proof cases
    case 1
    have "redialled h ?w ?u" unfolding 1 by (rule via_ha_redials) (use Suc.prems in simp_all)
    then show ?thesis using redialled_later [OF s] by (intro exI [of _ 1]) (simp add: q u)
  next
    case 2
    have k: "still_waits w ?u" by (rule still_waits_trans [OF s 2(2)])
    then have "observe f z ?u = observe f z w" for f :: "'a transport_ops \<Rightarrow> 'a \<Rightarrow> 'z" and z
      by (intro observe_same) (simp_all add: still_waits_def)
    then have "\<not> finish_blocked ?u" using Suc.prems(3) unfolding finish_blocked_def terminal_transaction_pending_def by metis
    then obtain n where "n \<le> length ds" "redialled h ?u ((run_queue_head ^^ n) ?u)"
      using Suc(1) [of ?u] Suc.hyps(2) Suc.prems q 2 k by (auto simp: still_waits_def)
    then show ?thesis using redialled_later [OF k]
      by (intro exI [of _ "Suc n"]) (simp add: q u funpow_Suc_right del: funpow.simps)
  qed
qed

section \<open>From the refusal to the second attempt\<close>

definition refused_for_media :: "sip_signal \<Rightarrow> string \<Rightarrow> bool" where
  "refused_for_media m cid \<longleftrightarrow>
     signal_type m \<in> {MEDIA_INCOMPATIBLE_SIGNAL, FINAL_RESPONSE_SIGNAL} \<and> status_code m = 488 \<and>
     sig_reason m \<noteq> ''busy'' \<and> sig_reason m \<noteq> ''cancelled'' \<and> sig_call_id m = cid"

lemma fallback_frame:
  assumes r: "refused_for_media m (call_id (identity s))" and f: "falls_back_to_ha MEDIA_INCOMPATIBLE_END s"
    and t: "t = on_sip_signal_received m s"
  shows "contacts t = contacts s \<and> ha_peer_name t = ha_peer_name s \<and> config t = config s"
proof -
  have p: "phase s \<noteq> IDLE" "\<not> call_state_is_terminating (phase s)" using f by (auto simp: falls_back_to_ha_def)
  have e: "contacts (end_call r' d z) = contacts z" "ha_peer_name (end_call r' d z) = ha_peer_name z" "config (end_call r' d z) = config z"
    for r' d and z :: "'a fsm" by (simp_all add: end_call_def Let_def)
  show ?thesis using on_488 [OF _ _ _ _ _ p] r unfolding t refused_for_media_def by (simp add: f e)
qed

lemma refused_without_fallback:
  assumes r: "refused_for_media m (call_id (identity s))" and p: "phase s \<noteq> IDLE" "\<not> call_state_is_terminating (phase s)"
    and f: "\<not> falls_back_to_ha MEDIA_INCOMPATIBLE_END s" "\<not> ha_media_fallback_pending s"
  shows "phase (on_sip_signal_received m s) = MEDIA_INCOMPATIBLE \<and> \<not> ha_media_fallback_pending (on_sip_signal_received m s) \<and>
    FinishTermination \<in> set (queue (on_sip_signal_received m s))"
proof -
  have "\<not> ha_media_fallback_pending (end_call MEDIA_INCOMPATIBLE_END [] s)" using f(2) p by (simp add: end_call_def Let_def)
  moreover have "on_sip_signal_received m s = tell DisconnectTransport (set_audio_devices_active False (set_in_call False
      (end_call MEDIA_INCOMPATIBLE_END [] s)))"
    using on_488 [OF _ _ _ _ _ p] r f(1) unfolding refused_for_media_def by simp
  ultimately show ?thesis using end_call_terminal [of s MEDIA_INCOMPATIBLE_END "[]"] p f(2) by simp
qed

text \<open>
  C38: On 488 an outgoing call to a contact is placed again through Home Assistant, without reporting a failure and
  keeping its destination: whatever else is queued and however much time has passed, once the transport is done with the first
  attempt, the end that is queued (or the transport's own report) sets the address of Home Assistant, dials it, and sends an INVITE
  for the same destination; a step that fails ends the call. It is tried once: a 488 to that second
  attempt ends the call, as does the first one where there is no way through Home Assistant.
\<close>

theorem media_fallback_happens_once:
  fixes m :: sip_signal and s :: "'t fsm"
  assumes r: "refused_for_media m (call_id (identity s))"
    and p: "phase s \<in> {CALLING, REMOTE_RINGING}" "\<not> ha_media_fallback_pending s"
  defines "t \<equiv> on_sip_signal_received m s"
  shows "if falls_back_to_ha MEDIA_INCOMPATIBLE_END s
     then phase t = CALLING \<and> ha_media_fallback_pending t \<and> ha_media_fallback_attempted t \<and>
          dest_name (identity t) = dest_name (identity s) \<and> FinishTermination \<in> set (queue t) \<and>
          (\<forall>who why. CallFailedTrigger who why \<in> set (queue t) \<longrightarrow> CallFailedTrigger who why \<in> set (queue s)) \<and>
          \<not> falls_back_to_ha MEDIA_INCOMPATIBLE_END t \<and>
          (\<exists>h. pb_find (contacts s) (ha_peer_name s) = Some h \<and>
            (\<forall>w tc. transport w \<noteq> None \<and> w = t\<lparr>transport := transport w, queue := queue w, clock := clock w, entropy := entropy w, log := log w\<rparr> \<and> \<not> finish_blocked w \<longrightarrow>
               (FinishTermination \<in> set (queue w) \<longrightarrow> (\<exists>n\<le>length (queue w). redialled h w ((run_queue_head ^^ n) w))) \<and>
               (signal_type tc = TERMINAL_COMPLETE \<longrightarrow> redialled h w (on_sip_signal_received tc w)) \<and>
               (\<forall>u m'. redialled h w u \<and> phase u = CALLING \<and> refused_for_media m' (call_id (identity u)) \<longrightarrow>
                  phase (on_sip_signal_received m' u) = MEDIA_INCOMPATIBLE \<and> \<not> ha_media_fallback_pending (on_sip_signal_received m' u))))
     else phase t = MEDIA_INCOMPATIBLE \<and> \<not> ha_media_fallback_pending t \<and> FinishTermination \<in> set (queue t)"
proof (cases "falls_back_to_ha MEDIA_INCOMPATIBLE_END s")
  case f: True
  note c = r [unfolded refused_for_media_def]
  have t: "phase t = CALLING" "ha_media_fallback_pending t" "ha_media_fallback_attempted t" "identity t = (identity s)\<lparr>call_id := []\<rparr>"
    "FinishTermination \<in> set (queue t)"
    "\<forall>who why. CallFailedTrigger who why \<in> set (queue t) \<longrightarrow> CallFailedTrigger who why \<in> set (queue s)"
    using fallback_taken [of m s t] c f by (auto simp: t_def)
  have fr: "contacts t = contacts s" "ha_peer_name t = ha_peer_name s" using fallback_frame [OF r f, of t] t_def by simp_all
  obtain h where h: "pb_find (contacts s) (ha_peer_name s) = Some h" using f by (auto simp: falls_back_to_ha_def)
  have placed: "(FinishTermination \<in> set (queue w) \<longrightarrow> (\<exists>n\<le>length (queue w). redialled h w ((run_queue_head ^^ n) w))) \<and>
      (signal_type tc = TERMINAL_COMPLETE \<longrightarrow> redialled h w (on_sip_signal_received tc w))"
    if w: "transport w \<noteq> None" "w = t\<lparr>transport := transport w, queue := queue w, clock := clock w, entropy := entropy w, log := log w\<rparr>" "\<not> finish_blocked w" for w and tc
  proof -
    have e: "phase w = phase t" "ha_media_fallback_pending w = ha_media_fallback_pending t" "contacts w = contacts t"
      "ha_peer_name w = ha_peer_name t" by (subst w(2), simp)+
    have "redialled h w (on_sip_signal_received tc w)" if "signal_type tc = TERMINAL_COMPLETE"
      using via_ha_redials [of w h] w(1,3) e t(1,2) fr h that by (simp add: on_sip_signal_received_def finish_call_termination_def)
    then show ?thesis using queue_redials [of w h] w(1,3) e t(1,2) fr h by simp
  qed
  have again: "(\<forall>u m'. redialled h w u \<and> phase u = CALLING \<and> refused_for_media m' (call_id (identity u)) \<longrightarrow>
      phase (on_sip_signal_received m' u) = MEDIA_INCOMPATIBLE \<and> \<not> ha_media_fallback_pending (on_sip_signal_received m' u))"
    if w: "w = t\<lparr>transport := transport w, queue := queue w, clock := clock w, entropy := entropy w, log := log w\<rparr>" for w
  proof -
    have a: "ha_media_fallback_attempted w" using t(3) by (subst w, simp)
    show ?thesis
    proof (intro allI impI)
      fix u m' assume u: "redialled h w u \<and> phase u = CALLING \<and> refused_for_media m' (call_id (identity u))"
      then have f: "\<not> falls_back_to_ha MEDIA_INCOMPATIBLE_END u" "\<not> ha_media_fallback_pending u"
        using a by (simp_all add: redialled_def falls_back_to_ha_def)
      show "phase (on_sip_signal_received m' u) = MEDIA_INCOMPATIBLE \<and> \<not> ha_media_fallback_pending (on_sip_signal_received m' u)"
        using refused_without_fallback [of m' u] u f by simp
    qed
  qed
  have way: "\<exists>h. pb_find (contacts s) (ha_peer_name s) = Some h \<and>
      (\<forall>w tc. transport w \<noteq> None \<and> w = t\<lparr>transport := transport w, queue := queue w, clock := clock w, entropy := entropy w, log := log w\<rparr> \<and> \<not> finish_blocked w \<longrightarrow>
         (FinishTermination \<in> set (queue w) \<longrightarrow> (\<exists>n\<le>length (queue w). redialled h w ((run_queue_head ^^ n) w))) \<and>
         (signal_type tc = TERMINAL_COMPLETE \<longrightarrow> redialled h w (on_sip_signal_received tc w)) \<and>
         (\<forall>u m'. redialled h w u \<and> phase u = CALLING \<and> refused_for_media m' (call_id (identity u)) \<longrightarrow>
            phase (on_sip_signal_received m' u) = MEDIA_INCOMPATIBLE \<and> \<not> ha_media_fallback_pending (on_sip_signal_received m' u)))"
    using h placed again by (intro exI [of _ h] conjI allI impI) blast+
  have "\<not> falls_back_to_ha MEDIA_INCOMPATIBLE_END t" "dest_name (identity t) = dest_name (identity s)"
    using t(3,4) by (simp_all add: falls_back_to_ha_def)
  then show ?thesis unfolding if_P [OF f] using t(1-3,5,6) way by (intro conjI)
next
  case False
  then show ?thesis unfolding if_not_P [OF False] t_def using refused_without_fallback [OF r] p by auto
qed

text \<open>A phone that calls a contact that has a way through Home Assistant.\<close>

definition calling_phone :: "unit fsm" where
  "calling_phone = (sample_phone CALLING)\<lparr>contacts := new_phonebook\<lparr>entries :=
     [empty_contact\<lparr>name := ''door''\<rparr>, empty_contact\<lparr>name := ''ha'', ip := ''10.0.0.2'', port := 5060\<rparr>]\<rparr>\<rparr>"

lemma calling_phone_facts:
  "falls_back_to_ha MEDIA_INCOMPATIBLE_END calling_phone" "phase calling_phone = CALLING" "call_id (identity calling_phone) = ''a''"
  "\<not> ha_media_fallback_pending calling_phone"
  by (simp_all add: calling_phone_def falls_back_to_ha_def sample_defs get_current_destination_def current_name_def current_def
      pb_find_def new_phonebook_def empty_contact_def matches_def)

lemma sample_unblocked: "vtable w = sample_ops \<Longrightarrow> \<not> finish_blocked w"
  by (simp add: finish_blocked_def terminal_transaction_pending_def observe_def sample_ops_def split: option.split)

theorem media_fallback_happens_once_witness:
  "let t = on_sip_signal_received (sample_signal FINAL_RESPONSE_SIGNAL 488 ''a'') calling_phone in
     \<exists>h n. pb_find (contacts calling_phone) ''ha'' = Some h \<and> redialled h t ((run_queue_head ^^ n) t)"
proof -
  let ?m = "sample_signal FINAL_RESPONSE_SIGNAL 488 ''a''"
  let ?t = "on_sip_signal_received ?m calling_phone"
  have m: "refused_for_media ?m (call_id (identity calling_phone))" by (simp add: refused_for_media_def sample_signal_def calling_phone_facts(3))
  note c = calling_phone_facts
  have e: "vtable (end_call r d z) = vtable z" for r d and z :: "unit fsm" by (simp add: end_call_def Let_def)
  have v: "vtable ?t = sample_ops" "transport ?t \<noteq> None"
    using on_488 [of ?m calling_phone] m c unfolding refused_for_media_def by (simp_all add: e) (simp_all add: calling_phone_def sample_phone_def)
  have n: "ha_peer_name calling_phone = ''ha''" by (simp add: calling_phone_def sample_phone_def)
  have w: "?t = ?t\<lparr>transport := transport ?t, queue := queue ?t, clock := clock ?t, entropy := entropy ?t, log := log ?t\<rparr>" by simp
  have b: "\<not> finish_blocked ?t" by (rule sample_unblocked [OF v(1)])
  have p: "phase calling_phone \<in> {CALLING, REMOTE_RINGING}" using c(2) by simp
  note f = media_fallback_happens_once [OF m p c(4), unfolded if_P [OF c(1)]]
  then obtain h where h: "pb_find (contacts calling_phone) ''ha'' = Some h"
    "\<exists>n\<le>length (queue ?t). redialled h ?t ((run_queue_head ^^ n) ?t)"
    unfolding n using w b v(2) by metis
  then show ?thesis unfolding Let_def by blast
qed

end
