(* ===== verification/Spec2Isabelle.thy ===== *)
theory Spec2Isabelle
  imports JitterBuffer Phonebook CallFsmCalls SdpFormats VideoCalls SipSegments SipReplay MediaPathProps MicPathProps RxPlayoutProps
    ContactsProps PhoneTextProps CallFallback
begin

text \<open>
  \<^bold>\<open>Verification library of the VoIP stack\<close>

  The repository is a SIP phone for ESP32 devices (\<open>esphome/components/voip_stack\<close>): a call state machine
  that the user and the main loop drive, a SIP transport that turns its wishes into messages and the messages of
  the network into signals, session descriptions that settle audio and video, and the media paths (a jitter
  buffer for audio, RTP packets for JPEG and H.264 video). This library models that logic function by
  function and proves what makes it correct. File names below are relative to \<open>voip_stack/\<close>.

  \<^bold>\<open>Conventions.\<close> A C++ integer of w bits is a word of w bits, with its wrap-around; \<open>size_t\<close> is the
  32-bit one of the target where a product or a cast may wrap, and a natural number otherwise. A \<open>std::string\<close> is
  a list of bytes (\<open>char list\<close>), a pointer with a size is the list of the bytes there. An enum is a datatype,
  a class or struct the record of its members, an operation a function from state to state, an early
  return or failure a branch (an option, or a flag with the state). What the code does to the outside is a list of
  effects in the state; what it asks of the outside (sockets, clock, random numbers, lwIP's address conversions,
  the codec of a build, ESPHome's ring buffer, the Opus library, the JSON parser) is an argument: a record of functions (\<open>sip_env\<close>, \<open>video_env\<close>,
  \<open>audio_env\<close>, \<open>media_env\<close>, \<open>ring_ops\<close>, \<open>opus_lib\<close>, \<open>build\<close>).
  Preprocessor symbols are fields of \<open>build\<close> or stated in the theory. Log output and statistics are left out.
  A mutex makes the operation that holds it one step.

  \<^bold>\<open>Theories\<close>, each opening with what it holds:

  \<^item> \<open>Prelude\<close>: machine integers, strings, lines, decimal numbers; the locales \<open>wire_codec\<close> (a printer and a parser
    with their round trip) and \<open>invariant_machine\<close>, interpreted by the components that provide them.
  \<^item> \<open>AudioFormat\<close> (\<open>sip_types.h\<close>) and \<open>RtpPayloads\<close> (\<open>rtp_audio_payloads.h\<close>, \<open>pcm_receive_converter.h\<close>): formats,
    their choice, and the payload table of an exchange, which is shown to be a finite map.
  \<^item> \<open>JitterBuffer\<close> (\<open>rtp_jitter_buffer.h\<close>): slots addressed modulo their number refine an abstract
    window of frames; nothing is lost unaccounted, and playout is in order.
  \<^item> \<open>Phonebook\<close> (\<open>phonebook.h\<close>): the contact list, its cursor, update cycles, and the compact rows.
  \<^item> \<open>CallFsm\<close>, \<open>CallFsmProps\<close>, \<open>CallFsmSafety\<close>, \<open>CallFsmCalls\<close> (\<open>voip_fsm.cpp\<close>, parts of \<open>voip_stack.cpp\<close>,
    \<open>voip_settings.cpp\<close>): every handler of the call state machine over the transport interface of \<open>transport.h\<close>,
    whose state is a type parameter; runs interleave events with any change of the environment. \<open>CallFallback\<close> follows a
    call that is refused for its media to its second attempt through Home Assistant; \<open>CallFrames\<close> shows what no event changes.
  \<^item> \<open>Contacts\<close>, \<open>ContactsProps\<close> (\<open>voip_settings.cpp\<close>): rows and rosters of Home Assistant, the update cycle, the selection;
    the record \<open>phone\<close> puts them around the state machine, whose steps \<open>fsm_step\<close> are steps of the phone too: contacts stay in
    order under all of them, and the end of a call is final under all of them but for the user's turning to another contact.
  \<^item> \<open>PhoneText\<close>, \<open>PhoneTextProps\<close> (\<open>voip_stack.cpp\<close>, \<open>voip_settings.cpp\<close>): the endpoint line, the snapshot line and the
    routing settings, from the YAML file or from ESPHome's preferences. The preferences are not modelled: a save hands a record
    over to them, and a start gets any record or none. That they keep the last record is a condition, not a result.
  \<^item> \<open>SipText\<close>, \<open>SipTextProps\<close>, \<open>SipFraming\<close> (\<open>sip_message.cpp\<close>): the text of SIP messages, and how a
    message is delimited in a stream.
  \<^item> \<open>SdpLines\<close>, \<open>SdpLinesProps\<close>, \<open>Sdp\<close>, \<open>SdpShape\<close>, \<open>SdpAnswer\<close>, \<open>SdpLearn\<close>, \<open>SdpLearnProps\<close>, \<open>SdpFormats\<close>
    (\<open>sip_sdp.cpp\<close>): offers, answers, and what is learned from a description.
  \<^item> \<open>SipSignals\<close>, \<open>SipTransactions\<close>, \<open>SipRequests\<close>, \<open>SipDialog\<close>, \<open>SipHandlers\<close>, \<open>SipTask\<close>, \<open>SipStream\<close>
    (\<open>sip_transport.cpp\<close>, \<open>sip_transport.h\<close>, \<open>sip_request_response.cpp\<close>): the SIP transport from its records
    up: sending, the dialog operations the state machine calls, the handler of every message, the UDP socket,
    the TCP flow, and the timers of the signaling task.
  \<^item> \<open>SipFrames\<close>, \<open>SipTimers\<close>, \<open>SipTimeouts\<close>: what sending leaves alone; the invariant of plausible timers, that
    sleeping until the next wake-up is polling and that nothing is left due; the schedule of an INVITE nobody answers.
  \<^item> \<open>SipCore\<close>, \<open>SipInvariants\<close>, \<open>SipReach\<close>: the locale \<open>dialog_invariant\<close> is the contract between a property of the
    transport and all its message handlers, \<open>transport_invariant\<close> extends it to the flow and the timers; their
    interpretations are the invariants of every reachable state (\<open>reachable\<close>, by any sequence of inputs to \<open>react\<close>).
  \<^item> \<open>SipSegments\<close>, \<open>SipTermination\<close>, \<open>SipReplay\<close>: the TCP stream has no boundaries; a BYE waits for the ACK of the call it
    ends; a request that is sent again is answered again and nothing else.
  \<^item> \<open>OpusCodec\<close> (\<open>opus_rtp_codec.cpp\<close>), \<open>RtpAudio\<close>, \<open>RtpAudioProps\<close> (\<open>sip_transport.cpp\<close>): the guards around the Opus
    library; audio frames to packets and back, the latched source; that a conversation is heard as spoken, and no stranger.
  \<^item> \<open>MicPath\<close>, \<open>MicPathProps\<close>, \<open>RxPlayout\<close>, \<open>RxPlayoutProps\<close> (\<open>voip_audio.cpp\<close>, \<open>audio_core_audio_utils.h\<close>): gain and DC removal,
    the microphone queue and the pace of the send task; the playout task. \<open>speech_reaches_the_speaker\<close> puts a
    whole direction of a call together, from the frame sent to the samples the other speaker is given.
  \<^item> \<open>MediaPath\<close>, \<open>MediaPathProps\<close> (\<open>sip_transport.cpp\<close>): the life of the audio path and of the transport, with its phases as
    one more interpretation of \<open>transport_invariant\<close>.
  \<^item> \<open>VideoFormat\<close>, \<open>VideoProps\<close> (\<open>video.h\<close>), \<open>RtpJpeg\<close>, \<open>RtpJpegProps\<close>, \<open>RtpJpegFrames\<close> (\<open>rtp_jpeg.cpp\<close>), \<open>VideoRtp\<close>,
    \<open>VideoReceive\<close>, \<open>VideoSendProps\<close>, \<open>VideoWireProps\<close>, \<open>VideoCalls\<close> (\<open>video_rtp.cpp\<close>): capabilities and
    cadence, JPEG over RTP, and the video session with both ends of a call put together.

  \<^bold>\<open>How the parts meet.\<close> The state machine calls the transport through the interface \<open>voip_transport\<close>; the
  transport hands it \<open>sip_signal\<close>s, which appear among its effects as \<open>Signal\<close>. The transport's state holds the
  endpoint of \<open>Sdp\<close>, whose offers, answers and learning it calls. The signaling task alternates \<open>pump_udp_retransmits\<close>
  with a sleep of \<open>sip_sleep\<close> and the handlers of what the sockets deliver (\<open>handle_sip_udp_datagram\<close>, \<open>handle_sip_stream\<close>).
  The microphone's \<open>tx_step\<close> gives frames to \<open>send_audio_frame\<close>; \<open>audio_datagram\<close> gives those it hears to \<open>enqueue_rx_frame\<close>,
  and \<open>rx_step\<close> takes them out for the speaker. \<open>rtp_worker_exit\<close> is the end of the RTP task's loop.

  \<^bold>\<open>Bounds and fuel.\<close> Loops over a list, a text or a buffer are structural or have a length as their measure
  (\<open>drain_stream\<close>: every message takes at least four bytes off the buffer). \<open>task_turns\<close> counts the turns of the
  endless loop of the task: twelve are exactly those between an INVITE and its timeout. Three attempts of \<open>sendto\<close> are
  the loop bound of the code.

  \<^bold>\<open>Assumptions of the SIP transport.\<close> The build without \<open>USE_ESPHOME_VOIP_STACK_VIDEO\<close> (also in \<open>PhoneText\<close>), and no call transfer under
  way: a REFER is handed on as the effect \<open>TransferRequest\<close>, the logical identifiers of a transfer stay empty, and the
  second flow of a transfer does not exist. \<open>tcp_connected\<close> stands for a valid socket of the flow and
  \<open>tcp_connecting\<close> for the socket being connected, with its peer and deadline. Locks and the wake-up of tasks are left
  out: every operation runs under the dialog lock.

  \<^bold>\<open>Not modelled\<close>: the creation of sockets and tasks and the \<open>select\<close> of the tasks (pure I/O; what they answer is an
  argument), call transfer (\<open>sip_refer.cpp\<close>) and the video direction re-INVITE, which need a second dialog and
  the build with video, the inside of external codecs and resamplers, products with floating-point gains, the camera,
  encoder and display drivers (\<open>esp_h264_video_source\<close>, \<open>esp_jpeg_video_source\<close>, \<open>camera_video_source\<close>,
  \<open>p4_video_renderer\<close>), diagnostics, the ESPHome actions and the Home Assistant glue, and the Python code that
  generates the build.
\<close>

end
